(* ===== verification/Prelude.thy ===== *)
theory Prelude
  imports Main
begin

text \<open>
  The vocabulary the component theories share: Go's time values and durations, the parts
  of the standard library the modelled code calls (\<^verbatim>\<open>strings.TrimSpace\<close>,
  \<^verbatim>\<open>strings.HasPrefix\<close>, \<^verbatim>\<open>utf8.ValidString\<close>, \<^verbatim>\<open>time.Time.Sub\<close>), the lemma
  collections the proofs draw on, and generic facts on lists and maps.

  Conventions. A Go string is a \<^typ>\<open>string\<close>, one \<^typ>\<open>char\<close> per byte. A
  \<^verbatim>\<open>time.Time\<close> is an \<^typ>\<open>int\<close>: nanoseconds since Go's zero time (January 1 of
  year 1, UTC), so \<^verbatim>\<open>IsZero\<close> is \<open>t = 0\<close> and \<^verbatim>\<open>Before\<close>, \<^verbatim>\<open>After\<close>, \<^verbatim>\<open>Equal\<close> are
  \<open><\<close>, \<open>>\<close>, \<open>=\<close>. A \<^verbatim>\<open>time.Duration\<close> is an \<^typ>\<open>int\<close> of nanoseconds.
  A pointer that may be nil is an \<^typ>\<open>'a option\<close>. An error return is \<open>Inl\<close> of a sum.
\<close>

named_theorems step_simps \<open>equations that unfold one step of a component\<close>
named_theorems inv_intros \<open>introduction rules for component invariants\<close>

section \<open>Time\<close>

type_synonym go_time = int
type_synonym go_duration = int

definition maxDuration :: go_duration where "maxDuration = 9223372036854775807"
definition minDuration :: go_duration where "minDuration = -9223372036854775808"

definition nanosecond :: go_duration where "nanosecond = 1"
definition millisecond :: go_duration where "millisecond = 1000000"
definition second :: go_duration where "second = 1000000000"
definition minute :: go_duration where "minute = 60 * second"
definition hour :: go_duration where "hour = 60 * minute"

lemmas duration_units = nanosecond_def millisecond_def second_def minute_def hour_def

text \<open>\<^verbatim>\<open>t.Sub(u)\<close> saturates at the ends of the \<^verbatim>\<open>int64\<close> range.\<close>

definition time_sub :: "go_time \<Rightarrow> go_time \<Rightarrow> go_duration" where
  "time_sub t u = max minDuration (min maxDuration (t - u))"

lemma time_sub_bounds: "minDuration \<le> time_sub t u \<and> time_sub t u \<le> maxDuration"
  by (simp add: time_sub_def minDuration_def maxDuration_def)

lemma time_sub_exact:
  "minDuration \<le> t - u \<Longrightarrow> t - u \<le> maxDuration \<Longrightarrow> time_sub t u = t - u"
  by (simp add: time_sub_def)

lemma time_sub_nonneg_iff [simp]: "0 \<le> time_sub t u \<longleftrightarrow> u \<le> t"
  by (auto simp: time_sub_def minDuration_def maxDuration_def)

lemma time_sub_pos_iff: "0 < time_sub t u \<longleftrightarrow> u < t"
  by (auto simp: time_sub_def minDuration_def maxDuration_def)

lemma time_sub_le_diff: "u \<le> t \<Longrightarrow> time_sub t u \<le> t - u"
  by (auto simp: time_sub_def minDuration_def maxDuration_def)

text \<open>Go's integer division truncates towards zero.\<close>

definition go_div :: "int \<Rightarrow> int \<Rightarrow> int" where
  "go_div a b = sgn a * sgn b * (\<bar>a\<bar> div \<bar>b\<bar>)"

definition go_mod :: "int \<Rightarrow> int \<Rightarrow> int" where
  "go_mod a b = a - go_div a b * b"

lemma go_div_nonneg: "0 \<le> a \<Longrightarrow> 0 < b \<Longrightarrow> go_div a b = a div b"
  by (cases "a = 0") (simp_all add: go_div_def)

lemma go_mod_nonneg: "0 \<le> a \<Longrightarrow> 0 < b \<Longrightarrow> go_mod a b = a mod b"
  by (simp add: go_mod_def go_div_nonneg minus_div_mult_eq_mod)

section \<open>Strings\<close>

definition has_prefix :: "string \<Rightarrow> string \<Rightarrow> bool" where
  "has_prefix s p \<longleftrightarrow> take (length p) s = p"

lemma has_prefix_iff: "has_prefix s p \<longleftrightarrow> (\<exists>t. s = p @ t)"
  unfolding has_prefix_def by (metis append_eq_conv_conj append_take_drop_id)

lemma has_prefix_append [simp]: "has_prefix (p @ t) p"
  by (simp add: has_prefix_def)

lemma has_prefix_Nil [simp]: "has_prefix s []"
  by (simp add: has_prefix_def)



definition has_suffix :: "string \<Rightarrow> string \<Rightarrow> bool" where
  "has_suffix s p \<longleftrightarrow> has_prefix (rev s) (rev p)"

text \<open>\<^verbatim>\<open>strings.CutPrefix\<close>: the remainder, when the prefix is there.\<close>

definition cut_prefix :: "string \<Rightarrow> string \<Rightarrow> string option" where
  "cut_prefix s p = (if has_prefix s p then Some (drop (length p) s) else None)"

lemma cut_prefix_Some_iff: "cut_prefix s p = Some t \<longleftrightarrow> s = p @ t"
  by (auto simp: cut_prefix_def has_prefix_iff)

subsection \<open>\<^verbatim>\<open>strings.TrimSpace\<close>\<close>

text \<open>
  The UTF-8 encodings of the runes \<^verbatim>\<open>unicode.IsSpace\<close> accepts. None of them is a proper
  suffix or prefix of another, so removing a leading (trailing) encoding byte by byte is
  what \<^verbatim>\<open>DecodeRuneInString\<close> (\<^verbatim>\<open>DecodeLastRuneInString\<close>) and \<^verbatim>\<open>IsSpace\<close> do.
\<close>

definition go_spaces :: "string list" where
  "go_spaces =
     [[CHR 0x20], [CHR 0x09], [CHR 0x0A], [CHR 0x0B], [CHR 0x0C], [CHR 0x0D],
      [CHR 0xC2, CHR 0x85], [CHR 0xC2, CHR 0xA0], [CHR 0xE1, CHR 0x9A, CHR 0x80],
      [CHR 0xE2, CHR 0x80, CHR 0x80], [CHR 0xE2, CHR 0x80, CHR 0x81],
      [CHR 0xE2, CHR 0x80, CHR 0x82], [CHR 0xE2, CHR 0x80, CHR 0x83],
      [CHR 0xE2, CHR 0x80, CHR 0x84], [CHR 0xE2, CHR 0x80, CHR 0x85],
      [CHR 0xE2, CHR 0x80, CHR 0x86], [CHR 0xE2, CHR 0x80, CHR 0x87],
      [CHR 0xE2, CHR 0x80, CHR 0x88], [CHR 0xE2, CHR 0x80, CHR 0x89],
      [CHR 0xE2, CHR 0x80, CHR 0x8A], [CHR 0xE2, CHR 0x80, CHR 0xA8],
      [CHR 0xE2, CHR 0x80, CHR 0xA9], [CHR 0xE2, CHR 0x80, CHR 0xAF],
      [CHR 0xE2, CHR 0x81, CHR 0x9F], [CHR 0xE3, CHR 0x80, CHR 0x80]]"

definition drop_one_of :: "string list \<Rightarrow> string \<Rightarrow> string option" where
  "drop_one_of ws s =
     (case find (\<lambda>w. w \<noteq> [] \<and> has_prefix s w) ws of
        None \<Rightarrow> None | Some w \<Rightarrow> Some (drop (length w) s))"

lemma drop_one_of_split:
  "drop_one_of ws s = Some t \<Longrightarrow> \<exists>w \<in> set ws. w \<noteq> [] \<and> s = w @ t"
  by (auto simp: drop_one_of_def find_Some_iff has_prefix_iff split: option.splits)

lemma drop_one_of_shorter: "drop_one_of ws s = Some t \<Longrightarrow> length t < length s"
  by (drule drop_one_of_split) auto

function strip_left :: "string list \<Rightarrow> string \<Rightarrow> string" where
  "strip_left ws s = (case drop_one_of ws s of None \<Rightarrow> s | Some t \<Rightarrow> strip_left ws t)"
  by pat_completeness auto
termination
  by (relation "measure (\<lambda>(ws, s). length s)") (auto dest: drop_one_of_shorter)

declare strip_left.simps [simp del]

definition trim_space :: "string \<Rightarrow> string" where
  "trim_space s =
     rev (strip_left (map rev go_spaces) (rev (strip_left go_spaces s)))"

lemma strip_left_suffix: "\<exists>u. s = u @ strip_left ws s"
proof (induction ws s rule: strip_left.induct)
  case (1 ws s)
  show ?case
  proof (cases "drop_one_of ws s")
    case None
    then show ?thesis by (simp add: strip_left.simps)
  next
    case (Some t)
    with "1" obtain u where "t = u @ strip_left ws t" by blast
    moreover from Some obtain w where "s = w @ t" by (auto dest: drop_one_of_split)
    moreover from Some have "strip_left ws s = strip_left ws t" by (simp add: strip_left.simps)
    ultimately have "s = (w @ u) @ strip_left ws s" by (metis append_assoc)
    then show ?thesis ..
  qed
qed

lemma strip_left_Nil [simp]: "strip_left ws [] = []"
  using strip_left_suffix [of "[]" ws] by simp

lemma trim_space_Nil [simp]: "trim_space [] = []"
  by (simp add: trim_space_def)

lemma trim_space_infix: "\<exists>u v. s = u @ trim_space s @ v"
proof -
  let ?l = "strip_left go_spaces s"
  obtain u where u: "s = u @ ?l" using strip_left_suffix by blast
  obtain v where "rev ?l = v @ strip_left (map rev go_spaces) (rev ?l)"
    using strip_left_suffix by blast
  then have "?l = trim_space s @ rev v"
    by (metis rev_append rev_rev_ident trim_space_def)
  with u show ?thesis by metis
qed

lemma length_trim_space: "length (trim_space s) \<le> length s"
proof -
  obtain u v where "s = u @ trim_space s @ v" using trim_space_infix by blast
  then have "length s = length u + length (trim_space s) + length v"
    by (metis add.assoc length_append)
  then show ?thesis by simp
qed

text \<open>A string none of whose bytes starts or ends a white-space rune is left alone.\<close>

definition solid_char :: "char \<Rightarrow> bool" where
  "solid_char c \<longleftrightarrow> (\<forall>w \<in> set go_spaces. c \<noteq> hd w \<and> c \<noteq> last w)"


lemma drop_one_of_None_iff:
  "drop_one_of ws s = None \<longleftrightarrow> (\<forall>w \<in> set ws. w \<noteq> [] \<longrightarrow> \<not> has_prefix s w)"
proof -
  have "drop_one_of ws s = None \<longleftrightarrow> find (\<lambda>w. w \<noteq> [] \<and> has_prefix s w) ws = None"
    by (simp add: drop_one_of_def split: option.split)
  then show ?thesis by (auto simp: find_None_iff)
qed

lemma strip_left_fixed: "drop_one_of ws s = None \<Longrightarrow> strip_left ws s = s"
  by (simp add: strip_left.simps)

lemma strip_left_stuck: "drop_one_of ws (strip_left ws s) = None"
proof (induction ws s rule: strip_left.induct)
  case (1 ws s)
  then show ?case by (cases "drop_one_of ws s") (simp_all add: strip_left.simps [of ws s])
qed

lemma drop_one_of_prefix_stuck: "drop_one_of ws (p @ v) = None \<Longrightarrow> drop_one_of ws p = None"
  by (auto simp: drop_one_of_None_iff has_prefix_iff)

lemma trim_space_idem [simp]: "trim_space (trim_space s) = trim_space s"
proof -
  let ?l = "strip_left go_spaces s"
  obtain v where "rev ?l = v @ strip_left (map rev go_spaces) (rev ?l)"
    using strip_left_suffix by blast
  then have l: "?l = trim_space s @ rev v"
    by (metis rev_append rev_rev_ident trim_space_def)
  have "drop_one_of go_spaces ?l = None" by (rule strip_left_stuck)
  then have "drop_one_of go_spaces (trim_space s) = None"
    using drop_one_of_prefix_stuck l by metis
  then have "strip_left go_spaces (trim_space s) = trim_space s"
    by (rule strip_left_fixed)
  moreover have "strip_left (map rev go_spaces) (rev (trim_space s)) = rev (trim_space s)"
    by (metis rev_rev_ident strip_left_fixed strip_left_stuck trim_space_def)
  ultimately show ?thesis by (simp add: trim_space_def [of "trim_space s"])
qed

lemma solid_drop_one_of:
  "\<forall>c \<in> set s. solid_char c \<Longrightarrow> drop_one_of go_spaces s = None"
  by (auto simp: drop_one_of_None_iff has_prefix_iff solid_char_def)

lemma solid_drop_one_of_rev:
  "\<forall>c \<in> set s. solid_char c \<Longrightarrow> drop_one_of (map rev go_spaces) s = None"
  by (auto simp: drop_one_of_None_iff has_prefix_iff solid_char_def)

lemma trim_space_solid: "\<forall>c \<in> set s. solid_char c \<Longrightarrow> trim_space s = s"
  by (simp add: trim_space_def strip_left_fixed solid_drop_one_of solid_drop_one_of_rev)

text \<open>A byte that occurs in no white-space rune survives trimming.\<close>

lemma strip_left_keeps:
  "c \<in> set s \<Longrightarrow> \<forall>w \<in> set ws. c \<notin> set w \<Longrightarrow> c \<in> set (strip_left ws s)"
proof (induction ws s rule: strip_left.induct)
  case (1 ws s)
  then show ?case
    by (cases "drop_one_of ws s") (auto simp: strip_left.simps [of ws s] dest!: drop_one_of_split)
qed

lemma trim_space_keeps:
  "c \<in> set s \<Longrightarrow> \<forall>w \<in> set go_spaces. c \<notin> set w \<Longrightarrow> c \<in> set (trim_space s)"
  unfolding trim_space_def using strip_left_keeps [of c s go_spaces]
    strip_left_keeps [of c "rev (strip_left go_spaces s)" "map rev go_spaces"] by simp

subsection \<open>UTF-8 validity\<close>

text \<open>
  \<^verbatim>\<open>utf8.ValidString\<close>: \<open>rune_len\<close> is the length of the well-formed encoding at the head
  of the byte list, if there is one.
\<close>

type_synonym bytes = "nat list"

definition bytes_of :: "string \<Rightarrow> bytes" where "bytes_of s = map of_char s"

definition cont_byte :: "nat \<Rightarrow> bool" where "cont_byte b \<longleftrightarrow> 0x80 \<le> b \<and> b \<le> 0xBF"

fun rune_len :: "bytes \<Rightarrow> nat option" where
  "rune_len [] = None"
| "rune_len (a # bs) =
     (if a < 0x80 then Some 1
      else if 0xC2 \<le> a \<and> a \<le> 0xDF then
        (case bs of b # _ \<Rightarrow> if cont_byte b then Some 2 else None | _ \<Rightarrow> None)
      else if 0xE0 \<le> a \<and> a \<le> 0xEF then
        (case bs of
           b # c # _ \<Rightarrow>
             (if (if a = 0xE0 then 0xA0 \<le> b \<and> b \<le> 0xBF
                  else if a = 0xED then 0x80 \<le> b \<and> b \<le> 0x9F else cont_byte b)
                 \<and> cont_byte c
              then Some 3 else None)
         | _ \<Rightarrow> None)
      else if 0xF0 \<le> a \<and> a \<le> 0xF4 then
        (case bs of
           b # c # d # _ \<Rightarrow>
             (if (if a = 0xF0 then 0x90 \<le> b \<and> b \<le> 0xBF
                  else if a = 0xF4 then 0x80 \<le> b \<and> b \<le> 0x8F else cont_byte b)
                 \<and> cont_byte c \<and> cont_byte d
              then Some 4 else None)
         | _ \<Rightarrow> None)
      else None)"

lemma rune_len_bounds: "rune_len bs = Some n \<Longrightarrow> 1 \<le> n \<and> n \<le> 4 \<and> n \<le> length bs"
  by (cases bs) (auto split: if_splits list.splits)

function utf8_valid_bytes :: "bytes \<Rightarrow> bool" where
  "utf8_valid_bytes bs =
     (if bs = [] then True
      else case rune_len bs of None \<Rightarrow> False | Some n \<Rightarrow> utf8_valid_bytes (drop n bs))"
  by pat_completeness auto
termination
  by (relation "measure length") (auto dest: rune_len_bounds)

declare utf8_valid_bytes.simps [simp del]

definition utf8_valid :: "string \<Rightarrow> bool" where
  "utf8_valid s \<longleftrightarrow> utf8_valid_bytes (bytes_of s)"

lemma utf8_valid_Nil [simp]: "utf8_valid []"
  by (simp add: utf8_valid_def bytes_of_def utf8_valid_bytes.simps)

end
