(* ===== verification/RedisStore.thy ===== *)
theory RedisStore
  imports Prelude "HOL-Library.AList" "HOL-Library.Char_ord" "HOL-Library.List_Lexorder"
begin

text \<open>
  A Redis server as its clients see it: keys of two types, sorted sets with integer scores and
  counters, each with an optional time at which it expires. Every command, and every Lua script
  built from them, is one atomic function of the server. The clock counts milliseconds;
  \<^verbatim>\<open>TIME\<close> gives whole seconds. A sorted set that becomes empty is removed with its expiry.
  No key is used with both types.
\<close>

section \<open>Numbers in keys\<close>

text \<open>\<^verbatim>\<open>strconv.FormatUint\<close> and \<^verbatim>\<open>FormatInt\<close>, bases 2 to 36.\<close>

definition digit_char :: "nat \<Rightarrow> char" where
  "digit_char d = char_of (if d < 10 then 48 + d else 87 + d)"

definition digit_of :: "char \<Rightarrow> nat" where
  "digit_of c = (let n = of_char c in if n < 58 then n - 48 else n - 87)"

fun FormatUint :: "nat \<Rightarrow> nat \<Rightarrow> string" where
  "FormatUint base n =
     (if n < base \<or> base < 2 then [digit_char n]
      else FormatUint base (n div base) @ [digit_char (n mod base)])"

declare FormatUint.simps [simp del]

definition FormatInt10 :: "int \<Rightarrow> string" where
  "FormatInt10 i = (if i < 0 then CHR ''-'' # FormatUint 10 (nat (- i)) else FormatUint 10 (nat i))"

text \<open>\<^verbatim>\<open>strconv.ParseInt (s, 10, 64)\<close>; \<^const>\<open>None\<close> is an error.\<close>

definition is_digit10 :: "char \<Rightarrow> bool" where
  "is_digit10 c \<longleftrightarrow> 48 \<le> (of_char c :: nat) \<and> (of_char c :: nat) < 58"

definition digits_value :: "string \<Rightarrow> nat" where
  "digits_value s = foldl (\<lambda>n c. 10 * n + digit_of c) 0 s"

definition ParseInt10 :: "string \<Rightarrow> int option" where
  "ParseInt10 s =
     (let neg = (s \<noteq> [] \<and> hd s = CHR ''-'');
          ds = (if neg \<or> (s \<noteq> [] \<and> hd s = CHR ''+'') then tl s else s)
      in if ds = [] \<or> \<not> list_all is_digit10 ds then None
         else let v = (if neg then - int (digits_value ds) else int (digits_value ds))
              in if - (2 ^ 63) \<le> v \<and> v < 2 ^ 63 then Some v else None)"

section \<open>The server\<close>

record zset =
  z_Members :: "(string \<times> int) list"
  z_ExpireAt :: "int option"

record counter =
  c_Value :: int
  c_ExpireAt :: "int option"

record redis =
  rd_Clock :: int
  rd_ZSets :: "string \<rightharpoonup> zset"
  rd_Counters :: "string \<rightharpoonup> counter"

definition redis_TIME :: "'z redis_scheme \<Rightarrow> int" where
  "redis_TIME r = rd_Clock r div 1000"

definition expired :: "'z redis_scheme \<Rightarrow> int option \<Rightarrow> bool" where
  "expired r e \<longleftrightarrow> e \<noteq> None \<and> the e < rd_Clock r"

definition zset_at :: "'z redis_scheme \<Rightarrow> string \<Rightarrow> zset" where
  "zset_at r k = (case rd_ZSets r k of
     None \<Rightarrow> \<lparr>z_Members = [], z_ExpireAt = None\<rparr>
   | Some z \<Rightarrow> if expired r (z_ExpireAt z) then \<lparr>z_Members = [], z_ExpireAt = None\<rparr> else z)"

definition counter_at :: "'z redis_scheme \<Rightarrow> string \<Rightarrow> counter option" where
  "counter_at r k = (case rd_Counters r k of
     None \<Rightarrow> None
   | Some c \<Rightarrow> if expired r (c_ExpireAt c) then None else Some c)"

definition members :: "'z redis_scheme \<Rightarrow> string \<Rightarrow> (string \<times> int) list" where
  "members r k = z_Members (zset_at r k)"

definition put_zset :: "string \<Rightarrow> zset \<Rightarrow> 'z redis_scheme \<Rightarrow> 'z redis_scheme" where
  "put_zset k z r = r\<lparr>rd_ZSets := (rd_ZSets r)(k := if z_Members z = [] then None else Some z)\<rparr>"

definition redis_ZADD :: "string \<Rightarrow> int \<Rightarrow> string \<Rightarrow> 'z redis_scheme \<Rightarrow> 'z redis_scheme" where
  "redis_ZADD k score m r =
     put_zset k ((zset_at r k)\<lparr>z_Members := AList.update m score (members r k)\<rparr>) r"

definition redis_ZREM :: "string \<Rightarrow> string \<Rightarrow> 'z redis_scheme \<Rightarrow> 'z redis_scheme" where
  "redis_ZREM k m r =
     put_zset k ((zset_at r k)\<lparr>z_Members := filter (\<lambda>(m', _). m' \<noteq> m) (members r k)\<rparr>) r"

text \<open>\<^verbatim>\<open>ZREMRANGEBYSCORE k -inf hi\<close>\<close>

definition redis_ZREMRANGEBYSCORE :: "string \<Rightarrow> int \<Rightarrow> 'z redis_scheme \<Rightarrow> 'z redis_scheme" where
  "redis_ZREMRANGEBYSCORE k hi r =
     put_zset k ((zset_at r k)\<lparr>z_Members := filter (\<lambda>(_, s). hi < s) (members r k)\<rparr>) r"

definition redis_ZCARD :: "string \<Rightarrow> 'z redis_scheme \<Rightarrow> int" where
  "redis_ZCARD k r = int (length (members r k))"

definition redis_ZSCORE :: "string \<Rightarrow> string \<Rightarrow> 'z redis_scheme \<Rightarrow> int option" where
  "redis_ZSCORE k m r = map_of (members r k) m"

text \<open>\<^verbatim>\<open>ZRANGE k 0 -1\<close> and, by score up to \<open>hi\<close>, its first \<open>n\<close> members.\<close>

definition redis_ZRANGE :: "string \<Rightarrow> 'z redis_scheme \<Rightarrow> string list" where
  "redis_ZRANGE k r =
     concat (map (\<lambda>s. sort (map fst (filter (\<lambda>(_, s'). s' = s) (members r k))))
                 (sort (remdups (map snd (members r k)))))"

definition redis_ZRANGEBYSCORE :: "string \<Rightarrow> int \<Rightarrow> nat \<Rightarrow> 'z redis_scheme \<Rightarrow> string list" where
  "redis_ZRANGEBYSCORE k hi n r =
     take n (filter (\<lambda>m. case redis_ZSCORE k m r of Some s \<Rightarrow> s \<le> hi | None \<Rightarrow> False)
                    (redis_ZRANGE k r))"

definition redis_GET :: "string \<Rightarrow> 'z redis_scheme \<Rightarrow> int option" where
  "redis_GET k r = map_option c_Value (counter_at r k)"

definition redis_SET :: "string \<Rightarrow> int \<Rightarrow> 'z redis_scheme \<Rightarrow> 'z redis_scheme" where
  "redis_SET k v r = r\<lparr>rd_Counters := (rd_Counters r)(k \<mapsto> \<lparr>c_Value = v, c_ExpireAt = None\<rparr>)\<rparr>"

definition redis_INCRBY :: "string \<Rightarrow> int \<Rightarrow> 'z redis_scheme \<Rightarrow> 'z redis_scheme" where
  "redis_INCRBY k d r =
     (let c = (case counter_at r k of None \<Rightarrow> \<lparr>c_Value = 0, c_ExpireAt = None\<rparr> | Some c \<Rightarrow> c)
      in r\<lparr>rd_Counters := (rd_Counters r)(k \<mapsto> c\<lparr>c_Value := c_Value c + d\<rparr>)\<rparr>)"

definition redis_DEL :: "string \<Rightarrow> 'z redis_scheme \<Rightarrow> 'z redis_scheme" where
  "redis_DEL k r = r\<lparr>rd_ZSets := (rd_ZSets r)(k := None), rd_Counters := (rd_Counters r)(k := None)\<rparr>"

text \<open>\<^verbatim>\<open>EXPIRE k ttl\<close>; a time that is not positive removes the key.\<close>

definition redis_EXPIRE :: "string \<Rightarrow> int \<Rightarrow> 'z redis_scheme \<Rightarrow> 'z redis_scheme" where
  "redis_EXPIRE k ttl r =
     (if ttl \<le> 0 then redis_DEL k r
      else let e = Some (rd_Clock r + ttl * 1000);
               r1 = put_zset k ((zset_at r k)\<lparr>z_ExpireAt := e\<rparr>) r
           in r1\<lparr>rd_Counters := (rd_Counters r1)(k := map_option (\<lambda>c. c\<lparr>c_ExpireAt := e\<rparr>) (counter_at r1 k))\<rparr>)"

text \<open>Time passes.\<close>

definition redis_wait :: "nat \<Rightarrow> 'z redis_scheme \<Rightarrow> 'z redis_scheme" where
  "redis_wait ms r = r\<lparr>rd_Clock := rd_Clock r + int ms\<rparr>"

section \<open>Numbers read back\<close>

lemma digit_of_char [simp]: "d < 36 \<Longrightarrow> digit_of (digit_char d) = d"
  by (auto simp: digit_of_def digit_char_def Let_def)

lemma digit_char_inj: "d < 36 \<Longrightarrow> e < 36 \<Longrightarrow> digit_char d = digit_char e \<longleftrightarrow> d = e"
  by (metis digit_of_char)

lemma digit10 [simp]: "d < 10 \<Longrightarrow> is_digit10 (digit_char d)"
  by (simp add: is_digit10_def digit_char_def)

lemma digit10_char: "is_digit10 c \<Longrightarrow> c \<noteq> CHR ''-'' \<and> c \<noteq> CHR ''+''"
  by (auto simp: is_digit10_def)

lemma FormatUint_not_Nil [simp]: "FormatUint b n \<noteq> []"
  by (subst FormatUint.simps) simp

lemma FormatUint_chars:
  assumes "2 \<le> b" shows "c \<in> set (FormatUint b n) \<Longrightarrow> \<exists>d < b. c = digit_char d"
proof (induction n rule: less_induct)
  case (less n)
  show ?case
  proof (cases "n < b")
    case True
    with less.prems show ?thesis by (subst (asm) FormatUint.simps) auto
  next
    case False
    then have "c \<in> set (FormatUint b (n div b)) \<or> c = digit_char (n mod b)"
      using less.prems assms by (subst (asm) FormatUint.simps) auto
    moreover have "n div b < n" "n mod b < b" using False assms by simp_all
    ultimately show ?thesis using less.IH [of "n div b"] by blast
  qed
qed

lemma FormatUint_inj:
  assumes "2 \<le> b" "b \<le> 36" shows "FormatUint b m = FormatUint b n \<longleftrightarrow> m = n"
proof
  show "FormatUint b m = FormatUint b n \<Longrightarrow> m = n"
  proof (induction m arbitrary: n rule: less_induct)
    case (less m)
    note step = FormatUint.simps [of b m] FormatUint.simps [of b n]
    consider "m < b" "n < b" | "m < b" "\<not> n < b" | "\<not> m < b" "n < b" | "\<not> m < b" "\<not> n < b" by blast
    then show ?case
    proof cases
      case 1
      with less.prems assms step show ?thesis by (simp add: digit_char_inj)
    next
      case 2
      with less.prems assms step show ?thesis by (cases "FormatUint b (n div b)") simp_all
    next
      case 3
      with less.prems assms step show ?thesis by (cases "FormatUint b (m div b)") simp_all
    next
      case 4
      have "FormatUint b (m div b) = FormatUint b (n div b)" "digit_char (m mod b) = digit_char (n mod b)"
        using less.prems assms 4 step by simp_all
      moreover have "m div b < m" using 4 assms by simp
      moreover have "m mod b < b" "n mod b < b" using assms by simp_all
      ultimately have "m div b = n div b" "m mod b = n mod b"
        using less.IH assms(2) digit_char_inj [of "m mod b" "n mod b"] by auto
      then show ?thesis by (metis div_mult_mod_eq)
    qed
  qed
qed simp

lemma digits_value_snoc: "digits_value (s @ [c]) = 10 * digits_value s + digit_of c"
  by (simp add: digits_value_def)

lemma digits_value_Format [simp]: "digits_value (FormatUint 10 n) = n"
proof (induction n rule: less_induct)
  case (less n)
  show ?case
  proof (cases "n < 10")
    case True
    then show ?thesis by (subst FormatUint.simps) (simp add: digits_value_def)
  next
    case False
    then show ?thesis using less.IH [of "n div 10"]
      by (subst FormatUint.simps) (simp add: digits_value_snoc)
  qed
qed

lemma Format_digits [simp]: "list_all is_digit10 (FormatUint 10 n)"
  using FormatUint_chars [of 10 _ n] digit10 by (fastforce simp: list_all_iff)

lemma FormatInt10_inj [simp]: "FormatInt10 i = FormatInt10 j \<longleftrightarrow> i = j"
proof -
  have "hd (FormatUint 10 n) \<noteq> CHR ''-''" for n
    using Format_digits [of n] digit10_char by (cases "FormatUint 10 n") auto
  then show ?thesis unfolding FormatInt10_def
    by (auto simp: FormatUint_inj split: if_splits) (metis list.sel(1))+
qed

lemma Parse_Format [simp]: "- (2 ^ 63) \<le> i \<Longrightarrow> i < 2 ^ 63 \<Longrightarrow> ParseInt10 (FormatInt10 i) = Some i"
proof -
  assume i: "- (2 ^ 63) \<le> i" "i < 2 ^ 63"
  have "hd (FormatUint 10 n) \<noteq> CHR ''-'' \<and> hd (FormatUint 10 n) \<noteq> CHR ''+''" for n
    using Format_digits [of n] digit10_char by (cases "FormatUint 10 n") auto
  with i show ?thesis by (auto simp: ParseInt10_def FormatInt10_def Let_def)
qed

section \<open>What a command leaves behind\<close>

named_theorems redis_simps \<open>what the commands leave in the keys\<close>

definition expiry :: "'z redis_scheme \<Rightarrow> string \<Rightarrow> int option" where
  "expiry r k = z_ExpireAt (zset_at r k)"

lemma zset_at_fresh [simp]: "\<not> expired r (z_ExpireAt (zset_at r k))"
  by (auto simp: zset_at_def expired_def split: option.splits)

lemma expired_same [simp]:
  "expired (r\<lparr>rd_ZSets := z\<rparr>) e = expired r e" "expired (r\<lparr>rd_Counters := c\<rparr>) e = expired r e"
  by (simp_all add: expired_def)

lemma put_zset_same [simp]:
  "rd_Clock (put_zset k z r) = rd_Clock r" "rd_Counters (put_zset k z r) = rd_Counters r"
  "expired (put_zset k z r) e = expired r e" "counter_at (put_zset k z r) k' = counter_at r k'"
  by (simp_all add: put_zset_def counter_at_def cong: option.case_cong)

lemma zset_at_put:
  "\<not> expired r (z_ExpireAt z) \<Longrightarrow> zset_at (put_zset k z r) k' =
     (if k' = k then if z_Members z = [] then \<lparr>z_Members = [], z_ExpireAt = None\<rparr> else z
      else zset_at r k')"
  by (auto simp: zset_at_def put_zset_def expired_def split: option.splits)

lemma members_put:
  "\<not> expired r (z_ExpireAt z) \<Longrightarrow>
     members (put_zset k z r) k' = (if k' = k then z_Members z else members r k')"
  by (simp add: members_def zset_at_put)

lemma expiry_put:
  "\<not> expired r (z_ExpireAt z) \<Longrightarrow> expiry (put_zset k z r) k' =
     (if k' = k then if z_Members z = [] then None else z_ExpireAt z else expiry r k')"
  by (simp add: expiry_def zset_at_put)

lemma clock_simps [redis_simps]:
  "rd_Clock (redis_ZADD k s m r) = rd_Clock r" "rd_Clock (redis_ZREM k m r) = rd_Clock r"
  "rd_Clock (redis_ZREMRANGEBYSCORE k hi r) = rd_Clock r" "rd_Clock (redis_SET k v r) = rd_Clock r"
  "rd_Clock (redis_INCRBY k v r) = rd_Clock r" "rd_Clock (redis_DEL k r) = rd_Clock r"
  "rd_Clock (redis_EXPIRE k ttl r) = rd_Clock r"
  "rd_Clock (redis_wait n r) = rd_Clock r + int n"
  by (simp_all add: redis_ZADD_def redis_ZREM_def redis_ZREMRANGEBYSCORE_def redis_SET_def
      redis_INCRBY_def redis_DEL_def redis_EXPIRE_def redis_wait_def Let_def)

lemma TIME_cong [redis_simps]:
  "redis_TIME (redis_ZADD k s m r) = redis_TIME r" "redis_TIME (redis_ZREM k m r) = redis_TIME r"
  "redis_TIME (redis_ZREMRANGEBYSCORE k hi r) = redis_TIME r" "redis_TIME (redis_SET k v r) = redis_TIME r"
  "redis_TIME (redis_INCRBY k v r) = redis_TIME r" "redis_TIME (redis_DEL k r) = redis_TIME r"
  "redis_TIME (redis_EXPIRE k ttl r) = redis_TIME r"
  by (simp_all add: redis_TIME_def redis_simps)

lemma members_ZADD [redis_simps]:
  "members (redis_ZADD k s m r) k' = (if k' = k then AList.update m s (members r k) else members r k')"
  by (simp add: redis_ZADD_def members_put)

lemma members_ZREM [redis_simps]:
  "members (redis_ZREM k m r) k' =
     (if k' = k then filter (\<lambda>(m', _). m' \<noteq> m) (members r k) else members r k')"
  by (simp add: redis_ZREM_def members_put)

lemma members_ZREMRANGE [redis_simps]:
  "members (redis_ZREMRANGEBYSCORE k hi r) k' =
     (if k' = k then filter (\<lambda>(_, s). hi < s) (members r k) else members r k')"
  by (simp add: redis_ZREMRANGEBYSCORE_def members_put)

lemma expiry_ZADD [redis_simps]: "expiry (redis_ZADD k s m r) k' = expiry r k'"
  by (auto simp: redis_ZADD_def expiry_put) (simp add: expiry_def)

lemma expiry_ZREM [redis_simps]:
  "expiry (redis_ZREM k m r) k' =
     (if k' = k \<and> members (redis_ZREM k m r) k = [] then None else expiry r k')"
  by (auto simp: redis_ZREM_def expiry_put members_put) (simp_all add: expiry_def)

lemma expiry_ZREMRANGE [redis_simps]:
  "expiry (redis_ZREMRANGEBYSCORE k hi r) k' =
     (if k' = k \<and> members (redis_ZREMRANGEBYSCORE k hi r) k = [] then None else expiry r k')"
  by (auto simp: redis_ZREMRANGEBYSCORE_def expiry_put members_put) (simp_all add: expiry_def)

lemma zsets_same:
  "rd_ZSets r' = rd_ZSets r \<Longrightarrow> rd_Clock r' = rd_Clock r \<Longrightarrow> members r' k = members r k \<and> expiry r' k = expiry r k"
proof -
  assume r: "rd_ZSets r' = rd_ZSets r" "rd_Clock r' = rd_Clock r"
  then have "expired r' = expired r" by (simp add: expired_def fun_eq_iff)
  with r show ?thesis by (simp add: members_def expiry_def zset_at_def cong: option.case_cong)
qed

lemma zset_at_counters [simp]: "zset_at (r\<lparr>rd_Counters := c\<rparr>) k = zset_at r k"
  by (simp add: zset_at_def cong: option.case_cong)

lemma members_counters [redis_simps]:
  "members (redis_SET k v r) k' = members r k'" "members (redis_INCRBY k v r) k' = members r k'"
  "expiry (redis_SET k v r) k' = expiry r k'" "expiry (redis_INCRBY k v r) k' = expiry r k'"
  by (simp_all add: redis_SET_def redis_INCRBY_def Let_def members_def expiry_def)

lemma zset_at_DEL: "zset_at (redis_DEL k r) k' =
    (if k' = k then \<lparr>z_Members = [], z_ExpireAt = None\<rparr> else zset_at r k')"
  by (simp add: redis_DEL_def zset_at_def expired_def cong: option.case_cong)

lemma members_DEL [redis_simps]: "members (redis_DEL k r) k' = (if k' = k then [] else members r k')"
  by (simp add: members_def zset_at_DEL)

lemma expiry_DEL [redis_simps]: "expiry (redis_DEL k r) k' = (if k' = k then None else expiry r k')"
  by (simp add: expiry_def zset_at_DEL)

lemma members_EXPIRE [redis_simps]:
  "0 < ttl \<Longrightarrow> members (redis_EXPIRE k ttl r) k' = members r k'"
  by (simp add: redis_EXPIRE_def Let_def members_def zset_at_put expired_def)

lemma expiry_EXPIRE [redis_simps]:
  "0 < ttl \<Longrightarrow> expiry (redis_EXPIRE k ttl r) k' =
     (if k' = k then if members r k = [] then None else Some (rd_Clock r + ttl * 1000) else expiry r k')"
  by (simp add: redis_EXPIRE_def Let_def members_def expiry_def zset_at_put expired_def)

lemma counters_same [redis_simps]:
  "counter_at (redis_ZADD k s m r) k' = counter_at r k'" "counter_at (redis_ZREM k m r) k' = counter_at r k'"
  "counter_at (redis_ZREMRANGEBYSCORE k hi r) k' = counter_at r k'"
  by (simp_all add: redis_ZADD_def redis_ZREM_def redis_ZREMRANGEBYSCORE_def)

lemma counter_INCRBY [redis_simps]:
  "redis_GET k' (redis_INCRBY k d r) =
     (if k' = k then Some (d + (case redis_GET k r of None \<Rightarrow> 0 | Some v \<Rightarrow> v)) else redis_GET k' r)"
  by (auto simp: redis_GET_def redis_INCRBY_def Let_def counter_at_def expired_def split: option.splits)

lemma GET_same [redis_simps]:
  "redis_GET k' (redis_ZADD k s m r) = redis_GET k' r" "redis_GET k' (redis_ZREM k m r) = redis_GET k' r"
  "redis_GET k' (redis_ZREMRANGEBYSCORE k hi r) = redis_GET k' r"
  "redis_GET k' (redis_DEL k r) = (if k' = k then None else redis_GET k' r)"
  by (simp_all add: redis_GET_def redis_simps) (simp add: redis_DEL_def counter_at_def cong: option.case_cong)

lemma GET_EXPIRE [redis_simps]: "0 < ttl \<Longrightarrow> redis_GET k' (redis_EXPIRE k ttl r) = redis_GET k' r"
  by (auto simp: redis_GET_def redis_EXPIRE_def Let_def counter_at_def expired_def put_zset_def
      split: option.splits)

text \<open>While time passes, a key is either as it was or gone.\<close>

lemma members_wait: "members (redis_wait n r) k = members r k \<or> members (redis_wait n r) k = []"
  by (auto simp: members_def zset_at_def redis_wait_def expired_def split: option.splits)

lemma members_wait_kept:
  "(case expiry r k of None \<Rightarrow> True | Some e \<Rightarrow> rd_Clock r + int n \<le> e) \<Longrightarrow>
     members (redis_wait n r) k = members r k \<and> expiry (redis_wait n r) k = expiry r k"
  by (auto simp: members_def expiry_def zset_at_def redis_wait_def expired_def split: option.splits if_splits)

lemma expiry_wait: "expiry (redis_wait n r) k = expiry r k \<or> members (redis_wait n r) k = []"
  by (auto simp: members_def expiry_def zset_at_def redis_wait_def expired_def split: option.splits)

lemma GET_wait: "redis_GET k (redis_wait n r) = redis_GET k r \<or> redis_GET k (redis_wait n r) = None"
  by (auto simp: redis_GET_def counter_at_def redis_wait_def expired_def split: option.splits)

lemma ZSCORE_members: "redis_ZSCORE k m r = map_of (members r k) m"
  by (simp add: redis_ZSCORE_def)

end
