(* ===== verification/AccountTypes.thy ===== *)
theory AccountTypes
  imports RedisStore Complex_Main
begin

text \<open>
  Provider accounts and groups as the scheduler sees them: \<^verbatim>\<open>backend/internal/service/account.go\<close>,
  \<^verbatim>\<open>group.go\<close> and the names of \<^verbatim>\<open>backend/internal/domain/constants.go\<close>. The free-form map
  \<^verbatim>\<open>Extra\<close> is a map to the Go values JSON decoding and the drivers can leave there. A
  \<^verbatim>\<open>float64\<close> is the rational it denotes; NaN and the infinities do not occur in the fields read.
\<close>

section \<open>Names\<close>

definition PlatformAnthropic :: string where "PlatformAnthropic = ''anthropic''"
definition PlatformOpenAI :: string where "PlatformOpenAI = ''openai''"
definition PlatformGemini :: string where "PlatformGemini = ''gemini''"
definition PlatformAntigravity :: string where "PlatformAntigravity = ''antigravity''"
definition PlatformGrok :: string where "PlatformGrok = ''grok''"
definition PlatformComposite :: string where "PlatformComposite = ''composite''"

definition AccountTypeOAuth :: string where "AccountTypeOAuth = ''oauth''"
definition AccountTypeSetupToken :: string where "AccountTypeSetupToken = ''setup-token''"
definition AccountTypeAPIKey :: string where "AccountTypeAPIKey = ''apikey''"
definition AccountTypeBedrock :: string where "AccountTypeBedrock = ''bedrock''"

definition AccountStatusActive :: string where "AccountStatusActive = ''active''"

lemmas account_names =
  PlatformAnthropic_def PlatformOpenAI_def PlatformGemini_def PlatformAntigravity_def
  PlatformGrok_def PlatformComposite_def AccountTypeOAuth_def AccountTypeSetupToken_def
  AccountTypeAPIKey_def AccountTypeBedrock_def AccountStatusActive_def

text \<open>\<^verbatim>\<open>EqualFold\<close> on ASCII names lowers both.\<close>

definition ascii_lower :: "char \<Rightarrow> char" where
  "ascii_lower c = (let n = of_char c :: nat in if 65 \<le> n \<and> n \<le> 90 then char_of (n + 32) else c)"

section \<open>Accounts\<close>

datatype extra_value =
    ExInt int
  | ExFloat rat
  | ExNumber string
  | ExString string
  | ExBool bool
  | ExOther

definition truncate_rat :: "rat \<Rightarrow> int" where
  "truncate_rat q = (if q < 0 then - \<lfloor>- q\<rfloor> else \<lfloor>q\<rfloor>)"

definition parseExtraInt :: "extra_value \<Rightarrow> int" where
  "parseExtraInt value =
     (case value of
        ExInt v \<Rightarrow> v
      | ExFloat v \<Rightarrow> truncate_rat v
      | ExNumber v \<Rightarrow> (case ParseInt10 v of Some i \<Rightarrow> i | None \<Rightarrow> 0)
      | ExString v \<Rightarrow> (case ParseInt10 (trim_space v) of Some i \<Rightarrow> i | None \<Rightarrow> 0)
      | _ \<Rightarrow> 0)"

record Account =
  ac_ID :: int
  ac_Platform :: string
  ac_Type :: string
  ac_Extra :: "string \<rightharpoonup> extra_value"
  ac_Concurrency :: int
  ac_Priority :: int
  ac_LoadFactor :: "int option"
  ac_Status :: string
  ac_LastUsedAt :: "go_time option"
  ac_ExpiresAt :: "go_time option"
  ac_AutoPauseOnExpired :: bool
  ac_Schedulable :: bool
  ac_RateLimitResetAt :: "go_time option"
  ac_OverloadUntil :: "go_time option"
  ac_TempUnschedulableUntil :: "go_time option"
  ac_SessionWindowEnd :: "go_time option"
  ac_AccountGroups :: "int list"

definition account_IsActive :: "Account \<Rightarrow> bool" where
  "account_IsActive a \<longleftrightarrow> ac_Status a = AccountStatusActive"

definition EffectiveLoadFactor :: "Account \<Rightarrow> int" where
  "EffectiveLoadFactor a =
     (case ac_LoadFactor a of
        Some l \<Rightarrow> if l > 0 then l else if ac_Concurrency a > 0 then ac_Concurrency a else 1
      | None \<Rightarrow> if ac_Concurrency a > 0 then ac_Concurrency a else 1)"

definition IsAPIKeyOrBedrock :: "Account \<Rightarrow> bool" where
  "IsAPIKeyOrBedrock a \<longleftrightarrow> ac_Type a = AccountTypeAPIKey \<or> ac_Type a = AccountTypeBedrock"

definition until :: "go_time \<Rightarrow> go_time option \<Rightarrow> bool" where
  "until now t \<longleftrightarrow> (case t of None \<Rightarrow> False | Some t \<Rightarrow> now < t)"

text \<open>\<open>quotaExceeded\<close> is what \<^verbatim>\<open>IsQuotaExceeded\<close> answers.\<close>

definition IsSchedulable :: "go_time \<Rightarrow> bool \<Rightarrow> Account \<Rightarrow> bool" where
  "IsSchedulable now quotaExceeded a =
     (if \<not> account_IsActive a \<or> \<not> ac_Schedulable a then False
      else if ac_AutoPauseOnExpired a \<and> ac_ExpiresAt a \<noteq> None \<and> \<not> until now (ac_ExpiresAt a) then False
      else if until now (ac_OverloadUntil a) then False
      else if until now (ac_RateLimitResetAt a) then False
      else if until now (ac_TempUnschedulableUntil a) then False
      else if IsAPIKeyOrBedrock a \<and> quotaExceeded then False
      else True)"

definition IsMixedSchedulingEnabled :: "Account \<Rightarrow> bool" where
  "IsMixedSchedulingEnabled a =
     (if ac_Platform a \<noteq> PlatformAntigravity then False
      else case ac_Extra a ''mixed_scheduling'' of Some (ExBool enabled) \<Rightarrow> enabled | _ \<Rightarrow> False)"

definition IsAnthropicOAuthOrSetupToken :: "Account \<Rightarrow> bool" where
  "IsAnthropicOAuthOrSetupToken a \<longleftrightarrow> ac_Platform a = PlatformAnthropic \<and>
     (ac_Type a = AccountTypeOAuth \<or> ac_Type a = AccountTypeSetupToken)"

definition GetMaxSessions :: "Account \<Rightarrow> int" where
  "GetMaxSessions a = (case ac_Extra a ''max_sessions'' of None \<Rightarrow> 0 | Some v \<Rightarrow> parseExtraInt v)"

definition GetSessionIdleTimeoutMinutes :: "Account \<Rightarrow> int" where
  "GetSessionIdleTimeoutMinutes a =
     (case ac_Extra a ''session_idle_timeout_minutes'' of
        None \<Rightarrow> 5
      | Some v \<Rightarrow> let val = parseExtraInt v in if val > 0 then val else 5)"

definition GetBaseRPM :: "Account \<Rightarrow> int" where
  "GetBaseRPM a =
     (case ac_Extra a ''base_rpm'' of
        None \<Rightarrow> 0
      | Some v \<Rightarrow> let val = parseExtraInt v in if val > 0 then val else 0)"

definition GetRPMStrategy :: "Account \<Rightarrow> string" where
  "GetRPMStrategy a =
     (case ac_Extra a ''rpm_strategy'' of
        Some (ExString s) \<Rightarrow> if s = ''sticky_exempt'' then ''sticky_exempt'' else ''tiered''
      | _ \<Rightarrow> ''tiered'')"

definition GetRPMStickyBuffer :: "Account \<Rightarrow> int" where
  "GetRPMStickyBuffer a =
     (let manual = (case ac_Extra a ''rpm_sticky_buffer'' of None \<Rightarrow> 0 | Some v \<Rightarrow> parseExtraInt v);
          base = GetBaseRPM a;
          conc = (if ac_Concurrency a < 0 then 0 else ac_Concurrency a);
          sess = (if GetMaxSessions a < 0 then 0 else GetMaxSessions a);
          least = (if go_div base 5 < 1 then 1 else go_div base 5)
      in if manual > 0 then manual
         else if base \<le> 0 then 0
         else if conc + sess < least then least else conc + sess)"

datatype WindowCostSchedulability =
  WindowCostSchedulable | WindowCostStickyOnly | WindowCostNotSchedulable

definition CheckRPMSchedulability :: "Account \<Rightarrow> int \<Rightarrow> WindowCostSchedulability" where
  "CheckRPMSchedulability a currentRPM =
     (let baseRPM = GetBaseRPM a
      in if baseRPM \<le> 0 then WindowCostSchedulable
         else if currentRPM < baseRPM then WindowCostSchedulable
         else if GetRPMStrategy a = ''sticky_exempt'' then WindowCostStickyOnly
         else if currentRPM < baseRPM + GetRPMStickyBuffer a then WindowCostStickyOnly
         else WindowCostNotSchedulable)"

text \<open>The switch both callers end with.\<close>

definition schedulable_for :: "WindowCostSchedulability \<Rightarrow> bool \<Rightarrow> bool" where
  "schedulable_for s isSticky =
     (case s of
        WindowCostSchedulable \<Rightarrow> True
      | WindowCostStickyOnly \<Rightarrow> isSticky
      | WindowCostNotSchedulable \<Rightarrow> False)"

definition PrivacyModeTrainingOff :: string where "PrivacyModeTrainingOff = ''training_off''"
definition AntigravityPrivacySet :: string where "AntigravityPrivacySet = ''privacy_set''"

definition getExtraString :: "Account \<Rightarrow> string \<Rightarrow> string" where
  "getExtraString a key = (case ac_Extra a key of Some (ExString s) \<Rightarrow> s | _ \<Rightarrow> '''')"

definition IsPrivacySet :: "Account \<Rightarrow> bool" where
  "IsPrivacySet a =
     (if ac_Platform a = PlatformOpenAI then getExtraString a ''privacy_mode'' = PrivacyModeTrainingOff
      else if ac_Platform a = PlatformAntigravity
      then getExtraString a ''privacy_mode'' = AntigravityPrivacySet
      else True)"

section \<open>Groups\<close>

text \<open>The routing rules in the order in which ranging over the map yields them this time.\<close>

record Group =
  gr_ID :: int
  gr_Name :: string
  gr_Platform :: string
  gr_Status :: string
  gr_Hydrated :: bool
  gr_ClaudeCodeOnly :: bool
  gr_FallbackGroupID :: "int option"
  gr_RequirePrivacySet :: bool
  gr_ModelRoutingEnabled :: bool
  gr_ModelRouting :: "(string \<times> int list) list"

definition IsGroupContextValid :: "Group option \<Rightarrow> bool" where
  "IsGroupContextValid g =
     (case g of
        None \<Rightarrow> False
      | Some g \<Rightarrow> gr_ID g > 0 \<and> gr_Hydrated g \<and> gr_Platform g \<noteq> '''' \<and> gr_Status g \<noteq> '''')"

definition matchModelPattern :: "string \<Rightarrow> string \<Rightarrow> bool" where
  "matchModelPattern pattern model =
     (if pattern = model then True
      else if has_suffix pattern ''*'' then has_prefix model (butlast pattern)
      else False)"

definition GetRoutingAccountIDs :: "Group \<Rightarrow> string \<Rightarrow> int list" where
  "GetRoutingAccountIDs g requestedModel =
     (if \<not> gr_ModelRoutingEnabled g \<or> gr_ModelRouting g = [] \<or> requestedModel = '''' then []
      else case map_of (gr_ModelRouting g) requestedModel of
             Some (i # ids) \<Rightarrow> i # ids
           | _ \<Rightarrow>
               (case find (\<lambda>(pattern, accountIDs). matchModelPattern pattern requestedModel \<and> accountIDs \<noteq> [])
                       (gr_ModelRouting g) of
                  Some (_, accountIDs) \<Rightarrow> accountIDs
                | None \<Rightarrow> []))"

definition modelRoutingAppliesToTargetPlatform :: "string \<Rightarrow> bool" where
  "modelRoutingAppliesToTargetPlatform targetPlatform \<longleftrightarrow>
     targetPlatform = PlatformAnthropic \<or> targetPlatform = PlatformOpenAI"

definition modelRoutingAppliesToPlatform :: "string \<Rightarrow> string \<Rightarrow> bool" where
  "modelRoutingAppliesToPlatform targetPlatform groupPlatform =
     (if \<not> modelRoutingAppliesToTargetPlatform targetPlatform then False
      else groupPlatform = targetPlatform \<or> groupPlatform = PlatformComposite)"

end
