(* ===== verification/UsageBilling.thy ===== *)
theory UsageBilling
  imports AccountTypes
begin

text \<open>
  Charging a request (\<^verbatim>\<open>backend/internal/service/usage_billing.go\<close>, \<^verbatim>\<open>gateway_usage_billing.go\<close>,
  \<^verbatim>\<open>batch_image_billing_hold.go\<close>, \<^verbatim>\<open>backend/internal/repository/usage_billing_repo.go\<close> and the cleanup of
  \<^verbatim>\<open>dashboard_aggregation_repo.go\<close>): a claim on the request id and the changes of balance, quotas and
  windows in one transaction, and the holds of batch images on a balance. An amount is the decimal it
  prints as, a rational here; a column rounds what it stores to its scale. A transaction is one step:
  its updates lock their rows and are evaluated anew on the latest version, and two claims of one key
  wait for each other. The hash, the rendering of a number and the calendar of the server are
  parameters.
\<close>

section \<open>Amounts\<close>

text \<open>Rounding as PostgreSQL and the decimal library do: half away from zero.\<close>

definition round_half_away :: "nat \<Rightarrow> rat \<Rightarrow> rat" where
  "round_half_away n x = sgn x * of_int \<lfloor>\<bar>x\<bar> * 10 ^ n + 1 / 2\<rfloor> / 10 ^ n"

definition UsageBillingMonetaryScale :: nat where "UsageBillingMonetaryScale = 8"

definition QuantizeUsageBillingAmount :: "rat \<Rightarrow> rat" where
  "QuantizeUsageBillingAmount v = (if v = 0 then v else round_half_away UsageBillingMonetaryScale v)"

text \<open>The columns \<^verbatim>\<open>DECIMAL(20, 8)\<close> and \<^verbatim>\<open>DECIMAL(20, 10)\<close>.\<close>

definition numeric8 :: "rat \<Rightarrow> rat" where "numeric8 = round_half_away 8"
definition numeric10 :: "rat \<Rightarrow> rat" where "numeric10 = round_half_away 10"

section \<open>Commands\<close>

record UsageBillingCommand =
  uc_RequestID :: string
  uc_APIKeyID :: int
  uc_RequestFingerprint :: string
  uc_RequestPayloadHash :: string
  uc_UserID :: int
  uc_AccountID :: int
  uc_SubscriptionID :: "int option"
  uc_AccountType :: string
  uc_Model :: string
  uc_ServiceTier :: string
  uc_ReasoningEffort :: string
  uc_BillingType :: int
  uc_InputTokens :: int
  uc_OutputTokens :: int
  uc_CacheCreationTokens :: int
  uc_CacheReadTokens :: int
  uc_ImageCount :: int
  uc_MediaType :: string
  uc_BalanceCost :: rat
  uc_SubscriptionCost :: rat
  uc_APIKeyQuotaCost :: rat
  uc_APIKeyRateLimitCost :: rat
  uc_AccountQuotaCost :: rat

record BatchImageBalanceHoldCommand =
  hc_RequestID :: string
  hc_APIKeyID :: int
  hc_RequestFingerprint :: string
  hc_RequestPayloadHash :: string
  hc_UserID :: int
  hc_BatchID :: string
  hc_HoldAmount :: rat
  hc_ActualAmount :: rat

text \<open>
  \<open>be_sha256\<close> is the digest in hexadecimal, \<open>be_fixed10\<close> the verb \<^verbatim>\<open>%0.10f\<close>, \<open>be_local\<close> the clock on the
  wall in a time zone and \<open>be_instant\<close> the moment it stands for; \<open>be_server_zone\<close> is the zone of the
  database session.
\<close>

record billing_env =
  be_sha256 :: "string \<Rightarrow> string"
  be_fixed10 :: "rat \<Rightarrow> string"
  be_local :: "string \<Rightarrow> go_time \<Rightarrow> go_time"
  be_instant :: "string \<Rightarrow> go_time \<Rightarrow> go_time"
  be_server_zone :: string

fun join_bars :: "string list \<Rightarrow> string" where
  "join_bars [] = ''''"
| "join_bars [s] = s"
| "join_bars (s # ss) = s @ ''|'' @ join_bars ss"

definition valueOrZero :: "int option \<Rightarrow> int" where
  "valueOrZero v = (case v of None \<Rightarrow> 0 | Some i \<Rightarrow> i)"

definition with_payload :: "string \<Rightarrow> string \<Rightarrow> string" where
  "with_payload raw payloadHash =
     (if trim_space payloadHash \<noteq> '''' then raw @ ''|'' @ trim_space payloadHash else raw)"

definition buildUsageBillingFingerprint :: "billing_env \<Rightarrow> UsageBillingCommand \<Rightarrow> string" where
  "buildUsageBillingFingerprint e c = be_sha256 e (with_payload (join_bars
     [FormatInt10 (uc_UserID c), FormatInt10 (uc_AccountID c), FormatInt10 (uc_APIKeyID c),
      trim_space (uc_AccountType c), trim_space (uc_Model c), trim_space (uc_ServiceTier c),
      trim_space (uc_ReasoningEffort c), FormatInt10 (uc_BillingType c), FormatInt10 (uc_InputTokens c),
      FormatInt10 (uc_OutputTokens c), FormatInt10 (uc_CacheCreationTokens c),
      FormatInt10 (uc_CacheReadTokens c), FormatInt10 (uc_ImageCount c), trim_space (uc_MediaType c),
      FormatInt10 (valueOrZero (uc_SubscriptionID c)), be_fixed10 e (uc_BalanceCost c),
      be_fixed10 e (uc_SubscriptionCost c), be_fixed10 e (uc_APIKeyQuotaCost c),
      be_fixed10 e (uc_APIKeyRateLimitCost c), be_fixed10 e (uc_AccountQuotaCost c)])
     (uc_RequestPayloadHash c))"

definition quantizeMonetaryFields :: "UsageBillingCommand \<Rightarrow> UsageBillingCommand" where
  "quantizeMonetaryFields c = c\<lparr>
     uc_BalanceCost := QuantizeUsageBillingAmount (uc_BalanceCost c),
     uc_SubscriptionCost := QuantizeUsageBillingAmount (uc_SubscriptionCost c),
     uc_APIKeyQuotaCost := QuantizeUsageBillingAmount (uc_APIKeyQuotaCost c),
     uc_APIKeyRateLimitCost := QuantizeUsageBillingAmount (uc_APIKeyRateLimitCost c),
     uc_AccountQuotaCost := QuantizeUsageBillingAmount (uc_AccountQuotaCost c)\<rparr>"

definition usage_Normalize :: "billing_env \<Rightarrow> UsageBillingCommand \<Rightarrow> UsageBillingCommand" where
  "usage_Normalize e c0 =
     (let c = c0\<lparr>uc_RequestID := trim_space (uc_RequestID c0)\<rparr>;
          c1 = (if trim_space (uc_RequestFingerprint c) = ''''
                then c\<lparr>uc_RequestFingerprint := buildUsageBillingFingerprint e c\<rparr> else c)
      in quantizeMonetaryFields c1)"

definition buildBatchImageBalanceHoldFingerprint ::
  "billing_env \<Rightarrow> BatchImageBalanceHoldCommand \<Rightarrow> string" where
  "buildBatchImageBalanceHoldFingerprint e c = be_sha256 e (with_payload (join_bars
     [FormatInt10 (hc_UserID c), FormatInt10 (hc_APIKeyID c), trim_space (hc_BatchID c),
      be_fixed10 e (hc_HoldAmount c), be_fixed10 e (hc_ActualAmount c)]) (hc_RequestPayloadHash c))"

definition hold_Normalize :: "billing_env \<Rightarrow> BatchImageBalanceHoldCommand \<Rightarrow> BatchImageBalanceHoldCommand" where
  "hold_Normalize e c0 =
     (let c = c0\<lparr>hc_RequestID := trim_space (hc_RequestID c0), hc_BatchID := trim_space (hc_BatchID c0)\<rparr>
      in if trim_space (hc_RequestFingerprint c) = ''''
         then c\<lparr>hc_RequestFingerprint := buildBatchImageBalanceHoldFingerprint e c\<rparr> else c)"

section \<open>The tables\<close>

record billing_user =
  bu_balance :: rat
  bu_frozen :: rat
  bu_deleted :: bool

record billing_key =
  bk_quota :: rat
  bk_quota_used :: rat
  bk_status :: string
  bk_usage_5h :: rat
  bk_usage_1d :: rat
  bk_usage_7d :: rat
  bk_window_5h_start :: "go_time option"
  bk_window_1d_start :: "go_time option"
  bk_window_7d_start :: "go_time option"
  bk_deleted :: bool

record billing_subscription =
  bs_group :: int
  bs_daily :: rat
  bs_weekly :: rat
  bs_monthly :: rat
  bs_deleted :: bool

text \<open>The quota fields of the JSON column \<^verbatim>\<open>extra\<close> of an account, once for a day and once for a week.\<close>

record quota_period =
  qp_limit :: rat
  qp_used :: rat
  qp_start :: "go_time option"
  qp_fixed :: bool
  qp_reset_at :: "go_time option"
  qp_reset_hour :: int

record billing_account =
  ba_quota_used :: rat
  ba_quota_limit :: rat
  ba_daily :: quota_period
  ba_weekly :: quota_period
  ba_weekly_reset_day :: int
  ba_reset_timezone :: string
  ba_deleted :: bool

type_synonym billing_claim = "string \<times> int"

record billing_db =
  bd_Now :: go_time
  bd_users :: "int \<rightharpoonup> billing_user"
  bd_keys :: "int \<rightharpoonup> billing_key"
  bd_subscriptions :: "int \<rightharpoonup> billing_subscription"
  bd_live_groups :: "int set"
  bd_accounts :: "int \<rightharpoonup> billing_account"
  bd_dedup :: "billing_claim \<rightharpoonup> string \<times> go_time"
  bd_archive :: "billing_claim \<rightharpoonup> string"
  bd_outbox :: "int list"

datatype billing_error =
    ErrUsageBillingRequestIDRequired
  | ErrUsageBillingRequestConflict
  | ErrSubscriptionNotFound
  | ErrUserNotFound
  | ErrAPIKeyNotFound
  | ErrAccountNotFound
  | ErrBatchImageInsufficientBalance
  | ErrBatchImageSettlementCostExceedsHold
  | FrozenInsufficient
  | DatabaseFailed

section \<open>Statements\<close>

text \<open>A part of a transaction: it fails, and all is rolled back, or answers and has changed the tables.\<close>

type_synonym 'a transaction = "billing_db \<Rightarrow> billing_error + 'a \<times> billing_db"

definition claimUsageBillingRequest :: "string \<Rightarrow> int \<Rightarrow> string \<Rightarrow> bool transaction" where
  "claimUsageBillingRequest requestID apiKeyID fingerprint db =
     (case bd_dedup db (requestID, apiKeyID) of
        Some (existing, _) \<Rightarrow>
          if trim_space existing \<noteq> trim_space fingerprint then Inl ErrUsageBillingRequestConflict
          else Inr (False, db)
      | None \<Rightarrow>
          (case bd_archive db (requestID, apiKeyID) of
             Some archived \<Rightarrow>
               if trim_space archived \<noteq> trim_space fingerprint then Inl ErrUsageBillingRequestConflict
               else Inr (False, db)
           | None \<Rightarrow>
               Inr (True, db\<lparr>bd_dedup := (bd_dedup db)((requestID, apiKeyID) \<mapsto> (fingerprint, bd_Now db))\<rparr>)))"

definition incrementUsageBillingSubscription :: "int \<Rightarrow> rat \<Rightarrow> unit transaction" where
  "incrementUsageBillingSubscription subscriptionID cost db =
     (case bd_subscriptions db subscriptionID of
        Some us \<Rightarrow>
          if \<not> bs_deleted us \<and> bs_group us \<in> bd_live_groups db then
            Inr ((), db\<lparr>bd_subscriptions := (bd_subscriptions db)(subscriptionID \<mapsto> us\<lparr>
              bs_daily := numeric10 (bs_daily us + cost),
              bs_weekly := numeric10 (bs_weekly us + cost),
              bs_monthly := numeric10 (bs_monthly us + cost)\<rparr>)\<rparr>)
          else Inl ErrSubscriptionNotFound
      | None \<Rightarrow> Inl ErrSubscriptionNotFound)"

definition live_user :: "billing_db \<Rightarrow> int \<Rightarrow> billing_user option" where
  "live_user db userID = (case bd_users db userID of
     Some u \<Rightarrow> if bu_deleted u then None else Some u | None \<Rightarrow> None)"

definition set_user :: "int \<Rightarrow> billing_user \<Rightarrow> billing_db \<Rightarrow> billing_db" where
  "set_user userID u db = db\<lparr>bd_users := (bd_users db)(userID \<mapsto> u)\<rparr>"

text \<open>The answer is the new balance and whether it sufficed.\<close>

definition deductUsageBillingBalance :: "int \<Rightarrow> rat \<Rightarrow> (rat \<times> bool) transaction" where
  "deductUsageBillingBalance userID amount db =
     (case live_user db userID of
        None \<Rightarrow> Inl ErrUserNotFound
      | Some u \<Rightarrow>
          let u' = u\<lparr>bu_balance := numeric8 (bu_balance u - amount)\<rparr>
          in Inr ((bu_balance u', bu_balance u \<ge> amount), set_user userID u' db))"

definition StatusAPIKeyActive :: string where "StatusAPIKeyActive = ''active''"
definition StatusAPIKeyQuotaExhausted :: string where "StatusAPIKeyQuotaExhausted = ''quota_exhausted''"

definition live_key :: "billing_db \<Rightarrow> int \<Rightarrow> billing_key option" where
  "live_key db apiKeyID = (case bd_keys db apiKeyID of
     Some k \<Rightarrow> if bk_deleted k then None else Some k | None \<Rightarrow> None)"

definition set_key :: "int \<Rightarrow> billing_key \<Rightarrow> billing_db \<Rightarrow> billing_db" where
  "set_key apiKeyID k db = db\<lparr>bd_keys := (bd_keys db)(apiKeyID \<mapsto> k)\<rparr>"

definition incrementUsageBillingAPIKeyQuota :: "int \<Rightarrow> rat \<Rightarrow> bool transaction" where
  "incrementUsageBillingAPIKeyQuota apiKeyID amount db =
     (case live_key db apiKeyID of
        None \<Rightarrow> Inl ErrAPIKeyNotFound
      | Some k \<Rightarrow>
          let used = numeric8 (bk_quota_used k + amount);
              status = (if bk_quota k > 0 \<and> bk_status k = StatusAPIKeyActive \<and>
                           bk_quota_used k < bk_quota k \<and> bk_quota_used k + amount \<ge> bk_quota k
                        then StatusAPIKeyQuotaExhausted else bk_status k)
          in Inr (bk_quota k > 0 \<and> used \<ge> bk_quota k \<and> used - amount < bk_quota k,
                  set_key apiKeyID (k\<lparr>bk_quota_used := used, bk_status := status\<rparr>) db))"

definition over :: "go_time option \<Rightarrow> go_duration \<Rightarrow> go_time \<Rightarrow> bool" where
  "over start d now \<longleftrightarrow> (case start of None \<Rightarrow> False | Some t \<Rightarrow> t + d \<le> now)"

definition date_trunc_day :: "go_time \<Rightarrow> go_time" where
  "date_trunc_day t = t div (24 * hour) * (24 * hour)"

text \<open>\<^verbatim>\<open>date_trunc('day', NOW())\<close> in the zone of the session.\<close>

definition day_start :: "billing_env \<Rightarrow> go_time \<Rightarrow> go_time" where
  "day_start e now = be_instant e (be_server_zone e) (date_trunc_day (be_local e (be_server_zone e) now))"

definition incrementUsageBillingAPIKeyRateLimit :: "billing_env \<Rightarrow> int \<Rightarrow> rat \<Rightarrow> unit transaction" where
  "incrementUsageBillingAPIKeyRateLimit e apiKeyID cost db =
     (case live_key db apiKeyID of
        None \<Rightarrow> Inl ErrAPIKeyNotFound
      | Some k \<Rightarrow>
          let now = bd_Now db;
              over5 = over (bk_window_5h_start k) (5 * hour) now;
              over1 = over (bk_window_1d_start k) (24 * hour) now;
              over7 = over (bk_window_7d_start k) (7 * 24 * hour) now
          in Inr ((), set_key apiKeyID (k\<lparr>
               bk_usage_5h := numeric8 (if over5 then cost else bk_usage_5h k + cost),
               bk_usage_1d := numeric8 (if over1 then cost else bk_usage_1d k + cost),
               bk_usage_7d := numeric8 (if over7 then cost else bk_usage_7d k + cost),
               bk_window_5h_start := (if bk_window_5h_start k = None \<or> over5 then Some now else bk_window_5h_start k),
               bk_window_1d_start := (if bk_window_1d_start k = None \<or> over1 then Some (day_start e now) else bk_window_1d_start k),
               bk_window_7d_start := (if bk_window_7d_start k = None \<or> over7 then Some (day_start e now) else bk_window_7d_start k)\<rparr>) db))"

section \<open>The quota of an account\<close>

text \<open>A period without a start began in 1970; \<open>period\<close> is its length when it rolls.\<close>

definition period_expired :: "quota_period \<Rightarrow> go_duration \<Rightarrow> go_time \<Rightarrow> bool" where
  "period_expired p period now =
     (if qp_fixed p then now \<ge> (case qp_reset_at p of Some t \<Rightarrow> t | None \<Rightarrow> 0)
      else (case qp_start p of Some t \<Rightarrow> t | None \<Rightarrow> 0) + period \<le> now)"

text \<open>\<^verbatim>\<open>to_char\<close> to the second.\<close>

definition to_second :: "go_time \<Rightarrow> go_time" where "to_second t = t div second * second"

definition reset_point :: "billing_env \<Rightarrow> string \<Rightarrow> int \<Rightarrow> int \<Rightarrow> go_time \<Rightarrow> go_time" where
  "reset_point e tz resetHour days now =
     be_instant e tz (date_trunc_day (be_local e tz now) + resetHour * hour + days * (24 * hour))"

definition nextDailyResetAtExpr :: "billing_env \<Rightarrow> billing_account \<Rightarrow> go_time \<Rightarrow> go_time option" where
  "nextDailyResetAtExpr e a now =
     (let tz = ba_reset_timezone a; h = qp_reset_hour (ba_daily a) in
      if qp_fixed (ba_daily a) then
        Some (to_second (if now \<ge> reset_point e tz h 0 now then reset_point e tz h 1 now
                         else reset_point e tz h 0 now))
      else None)"

text \<open>Sunday is 0; the first of January 1970 was a Thursday.\<close>

definition day_of_week :: "go_time \<Rightarrow> int" where
  "day_of_week t = (t div (24 * hour) + 4) mod 7"

definition nextWeeklyResetAtExpr :: "billing_env \<Rightarrow> billing_account \<Rightarrow> go_time \<Rightarrow> go_time option" where
  "nextWeeklyResetAtExpr e a now =
     (let tz = ba_reset_timezone a; h = qp_reset_hour (ba_weekly a);
          ahead = go_mod (ba_weekly_reset_day a - day_of_week (be_local e tz now) + 7) 7 in
      if qp_fixed (ba_weekly a) then
        Some (to_second (if ahead = 0 \<and> now \<ge> reset_point e tz h 0 now then reset_point e tz h 7 now
                         else reset_point e tz h ahead now))
      else None)"

definition charge_period ::
  "quota_period \<Rightarrow> go_duration \<Rightarrow> go_time option \<Rightarrow> rat \<Rightarrow> go_time \<Rightarrow> quota_period" where
  "charge_period p period nextReset amount now =
     (if qp_limit p > 0 then
        let gone = period_expired p period now
        in p\<lparr>qp_used := (if gone then amount else qp_used p + amount),
             qp_start := (if gone then Some now else case qp_start p of Some t \<Rightarrow> Some t | None \<Rightarrow> Some now),
             qp_reset_at := (if gone \<and> nextReset \<noteq> None then nextReset else qp_reset_at p)\<rparr>
      else p)"

record AccountQuotaState =
  qs_TotalUsed :: rat
  qs_TotalLimit :: rat
  qs_DailyUsed :: rat
  qs_DailyLimit :: rat
  qs_WeeklyUsed :: rat
  qs_WeeklyLimit :: rat

definition crossed :: "rat \<Rightarrow> rat \<Rightarrow> rat \<Rightarrow> bool" where
  "crossed used limit amount \<longleftrightarrow> limit > 0 \<and> used \<ge> limit \<and> used - amount < limit"

definition incrementUsageBillingAccountQuota ::
  "billing_env \<Rightarrow> int \<Rightarrow> rat \<Rightarrow> AccountQuotaState transaction" where
  "incrementUsageBillingAccountQuota e accountID amount db =
     (case bd_accounts db accountID of
        None \<Rightarrow> Inl ErrAccountNotFound
      | Some a \<Rightarrow>
          if ba_deleted a then Inl ErrAccountNotFound
          else
            let now = bd_Now db;
                a' = a\<lparr>ba_quota_used := ba_quota_used a + amount,
                       ba_daily := charge_period (ba_daily a) (24 * hour) (nextDailyResetAtExpr e a now) amount now,
                       ba_weekly := charge_period (ba_weekly a) (168 * hour) (nextWeeklyResetAtExpr e a now) amount now\<rparr>;
                st = \<lparr>qs_TotalUsed = ba_quota_used a', qs_TotalLimit = ba_quota_limit a',
                      qs_DailyUsed = qp_used (ba_daily a'), qs_DailyLimit = qp_limit (ba_daily a'),
                      qs_WeeklyUsed = qp_used (ba_weekly a'), qs_WeeklyLimit = qp_limit (ba_weekly a')\<rparr>;
                db1 = db\<lparr>bd_accounts := (bd_accounts db)(accountID \<mapsto> a')\<rparr>
            in Inr (st,
                 if crossed (qs_TotalUsed st) (qs_TotalLimit st) amount \<or>
                    crossed (qs_DailyUsed st) (qs_DailyLimit st) amount \<or>
                    crossed (qs_WeeklyUsed st) (qs_WeeklyLimit st) amount
                 then db1\<lparr>bd_outbox := bd_outbox db1 @ [accountID]\<rparr> else db1))"

section \<open>Transactions\<close>

record UsageBillingApplyResult =
  ur_Applied :: bool
  ur_APIKeyQuotaExhausted :: bool
  ur_NewBalance :: "rat option"
  ur_BalanceOverdrafted :: bool
  ur_QuotaState :: "AccountQuotaState option"

definition not_applied :: UsageBillingApplyResult where
  "not_applied = \<lparr>ur_Applied = False, ur_APIKeyQuotaExhausted = False, ur_NewBalance = None,
     ur_BalanceOverdrafted = False, ur_QuotaState = None\<rparr>"

definition then_tx :: "'a transaction \<Rightarrow> ('a \<Rightarrow> 'b transaction) \<Rightarrow> 'b transaction" where
  "then_tx m f db = (case m db of Inl err \<Rightarrow> Inl err | Inr (x, db1) \<Rightarrow> f x db1)"

text \<open>A guarded part, and the answer when the guard is not met.\<close>

definition when_tx :: "bool \<Rightarrow> 'a \<Rightarrow> 'a transaction \<Rightarrow> 'a transaction" where
  "when_tx b x m db = (if b then m db else Inr (x, db))"

definition quota_account_type :: "string \<Rightarrow> bool" where
  "quota_account_type t \<longleftrightarrow> map ascii_lower t = AccountTypeAPIKey \<or> map ascii_lower t = AccountTypeBedrock"

definition applyUsageBillingEffects ::
  "billing_env \<Rightarrow> UsageBillingCommand \<Rightarrow> UsageBillingApplyResult transaction" where
  "applyUsageBillingEffects e c =
     then_tx (when_tx (uc_SubscriptionCost c > 0 \<and> uc_SubscriptionID c \<noteq> None) ()
       (incrementUsageBillingSubscription (the (uc_SubscriptionID c)) (uc_SubscriptionCost c))) (\<lambda>_.
     then_tx (when_tx (uc_BalanceCost c > 0) None
       (then_tx (deductUsageBillingBalance (uc_UserID c) (uc_BalanceCost c)) (\<lambda>r db. Inr (Some r, db)))) (\<lambda>balance.
     then_tx (when_tx (uc_APIKeyQuotaCost c > 0) False
       (incrementUsageBillingAPIKeyQuota (uc_APIKeyID c) (uc_APIKeyQuotaCost c))) (\<lambda>exhausted.
     then_tx (when_tx (uc_APIKeyRateLimitCost c > 0) ()
       (incrementUsageBillingAPIKeyRateLimit e (uc_APIKeyID c) (uc_APIKeyRateLimitCost c))) (\<lambda>_.
     then_tx (when_tx (uc_AccountQuotaCost c > 0 \<and> quota_account_type (uc_AccountType c)) None
       (then_tx (incrementUsageBillingAccountQuota e (uc_AccountID c) (uc_AccountQuotaCost c))
          (\<lambda>st db. Inr (Some st, db)))) (\<lambda>quotaState db.
     Inr (\<lparr>ur_Applied = True, ur_APIKeyQuotaExhausted = exhausted, ur_NewBalance = map_option fst balance,
           ur_BalanceOverdrafted = (case balance of Some (_, sufficient) \<Rightarrow> \<not> sufficient | None \<Rightarrow> False),
           ur_QuotaState = quotaState\<rparr>, db))))))"

text \<open>What the transaction does when nothing fails: an error and a claim that is taken change nothing.\<close>

definition usage_Apply :: "billing_env \<Rightarrow> UsageBillingCommand \<Rightarrow> UsageBillingApplyResult transaction" where
  "usage_Apply e c0 db =
     (let c = usage_Normalize e c0
      in if uc_RequestID c = '''' then Inl ErrUsageBillingRequestIDRequired
         else case claimUsageBillingRequest (uc_RequestID c) (uc_APIKeyID c) (uc_RequestFingerprint c) db of
           Inl err \<Rightarrow> Inl err
         | Inr (applied, db1) \<Rightarrow>
             if \<not> applied then Inr (not_applied, db) else applyUsageBillingEffects e c db1)"

record BatchImageBalanceHoldResult =
  hr_Applied :: bool
  hr_NewBalance :: "rat option"
  hr_FrozenBalance :: "rat option"

definition hold_unchanged :: "bool \<Rightarrow> BatchImageBalanceHoldResult" where
  "hold_unchanged applied = \<lparr>hr_Applied = applied, hr_NewBalance = None, hr_FrozenBalance = None\<rparr>"

text \<open>An update of balance and frozen balance under a condition; \<open>err\<close> when the user fails it.\<close>

definition move_frozen ::
  "int \<Rightarrow> (billing_user \<Rightarrow> bool) \<Rightarrow> rat \<Rightarrow> rat \<Rightarrow> billing_error \<Rightarrow> BatchImageBalanceHoldResult transaction"
where
  "move_frozen userID cond balance frozen err db =
     (case live_user db userID of
        None \<Rightarrow> Inl ErrUserNotFound
      | Some u \<Rightarrow>
          if \<not> cond u then Inl err
          else
            let u' = u\<lparr>bu_balance := numeric8 (bu_balance u + balance), bu_frozen := numeric8 (bu_frozen u + frozen)\<rparr>
            in Inr (\<lparr>hr_Applied = True, hr_NewBalance = Some (bu_balance u'), hr_FrozenBalance = Some (bu_frozen u')\<rparr>,
                    set_user userID u' db))"

definition reserveUsageBillingBatchImageBalance ::
  "BatchImageBalanceHoldCommand \<Rightarrow> BatchImageBalanceHoldResult transaction" where
  "reserveUsageBillingBatchImageBalance c db =
     (if hc_HoldAmount c \<le> 0 then Inr (hold_unchanged True, db)
      else move_frozen (hc_UserID c) (\<lambda>u. bu_balance u \<ge> hc_HoldAmount c) (- hc_HoldAmount c) (hc_HoldAmount c)
             ErrBatchImageInsufficientBalance db)"

definition captureUsageBillingBatchImageBalance ::
  "BatchImageBalanceHoldCommand \<Rightarrow> BatchImageBalanceHoldResult transaction" where
  "captureUsageBillingBatchImageBalance c db =
     (let hold = hc_HoldAmount c; actual = hc_ActualAmount c
      in if hold \<le> 0 \<and> actual \<le> 0 then Inr (hold_unchanged True, db)
         else if actual - hold > 1 / 10 ^ 8 then Inl ErrBatchImageSettlementCostExceedsHold
         else move_frozen (hc_UserID c) (\<lambda>u. bu_frozen u \<ge> hold)
                ((if hold > actual then hold - actual else 0) - (if actual > hold then actual - hold else 0))
                (- hold) FrozenInsufficient db)"

definition batchImageHoldRequestPrefix :: string where
  "batchImageHoldRequestPrefix = ''batch_image_hold:''"
definition batchImageCaptureRequestPrefix :: string where
  "batchImageCaptureRequestPrefix = ''batch_image_capture:''"
definition batchImageReleaseRequestPrefix :: string where
  "batchImageReleaseRequestPrefix = ''batch_image_release:''"

definition BatchImageHoldRequestID :: "string \<Rightarrow> string" where
  "BatchImageHoldRequestID batchID = batchImageHoldRequestPrefix @ trim_space batchID"
definition BatchImageCaptureRequestID :: "string \<Rightarrow> string" where
  "BatchImageCaptureRequestID batchID = batchImageCaptureRequestPrefix @ trim_space batchID"
definition BatchImageReleaseRequestID :: "string \<Rightarrow> string" where
  "BatchImageReleaseRequestID batchID = batchImageReleaseRequestPrefix @ trim_space batchID"

definition batchImageHoldClaimExists :: "string \<Rightarrow> int \<Rightarrow> billing_db \<Rightarrow> bool" where
  "batchImageHoldClaimExists holdRequestID apiKeyID db \<longleftrightarrow>
     bd_dedup db (holdRequestID, apiKeyID) \<noteq> None \<or> bd_archive db (holdRequestID, apiKeyID) \<noteq> None"

definition releaseUsageBillingBatchImageBalance ::
  "BatchImageBalanceHoldCommand \<Rightarrow> BatchImageBalanceHoldResult transaction" where
  "releaseUsageBillingBatchImageBalance c db =
     (if hc_HoldAmount c \<le> 0 then Inr (hold_unchanged True, db)
      else if \<not> batchImageHoldClaimExists (BatchImageHoldRequestID (hc_BatchID c)) (hc_APIKeyID c) db
      then Inr (hold_unchanged True, db)
      else move_frozen (hc_UserID c) (\<lambda>u. bu_frozen u \<ge> hc_HoldAmount c) (hc_HoldAmount c) (- hc_HoldAmount c)
             FrozenInsufficient db)"

definition applyBatchImageBalanceHold ::
  "(BatchImageBalanceHoldCommand \<Rightarrow> BatchImageBalanceHoldResult transaction) \<Rightarrow> billing_env \<Rightarrow>
   BatchImageBalanceHoldCommand \<Rightarrow> BatchImageBalanceHoldResult transaction" where
  "applyBatchImageBalanceHold run e c0 db =
     (let c = hold_Normalize e c0
      in if hc_RequestID c = '''' then Inl ErrUsageBillingRequestIDRequired
         else case claimUsageBillingRequest (hc_RequestID c) (hc_APIKeyID c) (hc_RequestFingerprint c) db of
           Inl err \<Rightarrow> Inl err
         | Inr (applied, db1) \<Rightarrow> if \<not> applied then Inr (hold_unchanged False, db) else run c db1)"

definition ReserveBatchImageBalance ::
  "billing_env \<Rightarrow> BatchImageBalanceHoldCommand \<Rightarrow> BatchImageBalanceHoldResult transaction" where
  "ReserveBatchImageBalance = applyBatchImageBalanceHold reserveUsageBillingBatchImageBalance"
definition CaptureBatchImageBalance ::
  "billing_env \<Rightarrow> BatchImageBalanceHoldCommand \<Rightarrow> BatchImageBalanceHoldResult transaction" where
  "CaptureBatchImageBalance = applyBatchImageBalanceHold captureUsageBillingBatchImageBalance"
definition ReleaseBatchImageBalance ::
  "billing_env \<Rightarrow> BatchImageBalanceHoldCommand \<Rightarrow> BatchImageBalanceHoldResult transaction" where
  "ReleaseBatchImageBalance = applyBatchImageBalanceHold releaseUsageBillingBatchImageBalance"

text \<open>
  One statement of the cleanup; \<open>victims\<close> are the claims the server comes upon, of which it takes the
  first that are old enough.
\<close>

definition usageBillingDedupCleanupBatchSize :: nat where "usageBillingDedupCleanupBatchSize = 10000"

definition old_claims :: "billing_db \<Rightarrow> go_time \<Rightarrow> billing_claim list \<Rightarrow> billing_claim list" where
  "old_claims db cutoff victims = take usageBillingDedupCleanupBatchSize
     (filter (\<lambda>k. case bd_dedup db k of Some (_, created) \<Rightarrow> created < cutoff | None \<Rightarrow> False) (remdups victims))"

definition CleanupUsageBillingDedup :: "go_time \<Rightarrow> billing_claim list \<Rightarrow> billing_db \<Rightarrow> billing_db" where
  "CleanupUsageBillingDedup cutoff victims db =
     (let old = set (old_claims db cutoff victims)
      in db\<lparr>bd_archive := (\<lambda>k. if k \<in> old \<and> bd_archive db k = None then map_option fst (bd_dedup db k)
                             else bd_archive db k),
            bd_dedup := (\<lambda>k. if k \<in> old then None else bd_dedup db k)\<rparr>)"

section \<open>From a request to its command\<close>

record cost_breakdown =
  cb_TotalCost :: rat
  cb_ActualCost :: rat

record usage_log =
  ul_Model :: string
  ul_BillingType :: int
  ul_InputTokens :: int
  ul_OutputTokens :: int
  ul_CacheCreationTokens :: int
  ul_CacheReadTokens :: int
  ul_ImageCount :: int
  ul_ServiceTier :: "string option"
  ul_ReasoningEffort :: "string option"
  ul_SubscriptionID :: "int option"

record api_key_limits =
  kl_ID :: int
  kl_Quota :: rat
  kl_RateLimit5h :: rat
  kl_RateLimit1d :: rat
  kl_RateLimit7d :: rat

definition HasRateLimits :: "api_key_limits \<Rightarrow> bool" where
  "HasRateLimits k \<longleftrightarrow> kl_RateLimit5h k > 0 \<or> kl_RateLimit1d k > 0 \<or> kl_RateLimit7d k > 0"

text \<open>
  What is charged for. \<open>pb_HasAnyQuotaLimit\<close> is what the account answers, \<open>pb_APIKeyService\<close> says that the
  service of the keys is there, and missing parts of the parameters are \<^const>\<open>None\<close>.
\<close>

record postUsageBillingParams =
  pb_Cost :: "cost_breakdown option"
  pb_User :: "int option"
  pb_APIKey :: "api_key_limits option"
  pb_Account :: "Account option"
  pb_HasAnyQuotaLimit :: bool
  pb_Subscription :: "int option"
  pb_RequestPayloadHash :: string
  pb_IsSubscriptionBill :: bool
  pb_AccountRateMultiplier :: rat
  pb_APIKeyService :: bool
  pb_SimpleModeKeyRateLimitOnly :: bool

definition empty_command :: UsageBillingCommand where
  "empty_command = \<lparr>uc_RequestID = '''', uc_APIKeyID = 0, uc_RequestFingerprint = '''',
     uc_RequestPayloadHash = '''', uc_UserID = 0, uc_AccountID = 0, uc_SubscriptionID = None,
     uc_AccountType = '''', uc_Model = '''', uc_ServiceTier = '''', uc_ReasoningEffort = '''',
     uc_BillingType = 0, uc_InputTokens = 0, uc_OutputTokens = 0, uc_CacheCreationTokens = 0,
     uc_CacheReadTokens = 0, uc_ImageCount = 0, uc_MediaType = '''', uc_BalanceCost = 0,
     uc_SubscriptionCost = 0, uc_APIKeyQuotaCost = 0, uc_APIKeyRateLimitCost = 0, uc_AccountQuotaCost = 0\<rparr>"

definition log_command :: "usage_log option \<Rightarrow> UsageBillingCommand \<Rightarrow> UsageBillingCommand" where
  "log_command l c = (case l of None \<Rightarrow> c | Some l \<Rightarrow>
     c\<lparr>uc_Model := ul_Model l, uc_BillingType := ul_BillingType l, uc_InputTokens := ul_InputTokens l,
       uc_OutputTokens := ul_OutputTokens l, uc_CacheCreationTokens := ul_CacheCreationTokens l,
       uc_CacheReadTokens := ul_CacheReadTokens l, uc_ImageCount := ul_ImageCount l,
       uc_ServiceTier := (case ul_ServiceTier l of Some t \<Rightarrow> t | None \<Rightarrow> uc_ServiceTier c),
       uc_ReasoningEffort := (case ul_ReasoningEffort l of Some r \<Rightarrow> r | None \<Rightarrow> uc_ReasoningEffort c),
       uc_SubscriptionID := (case ul_SubscriptionID l of Some s \<Rightarrow> Some s | None \<Rightarrow> uc_SubscriptionID c)\<rparr>)"

definition shouldDeductAPIKeyQuota :: "cost_breakdown \<Rightarrow> api_key_limits \<Rightarrow> postUsageBillingParams \<Rightarrow> bool" where
  "shouldDeductAPIKeyQuota cost key p \<longleftrightarrow> cb_ActualCost cost > 0 \<and> kl_Quota key > 0 \<and> pb_APIKeyService p"

definition shouldUpdateRateLimits :: "cost_breakdown \<Rightarrow> api_key_limits \<Rightarrow> postUsageBillingParams \<Rightarrow> bool" where
  "shouldUpdateRateLimits cost key p \<longleftrightarrow> cb_ActualCost cost > 0 \<and> HasRateLimits key \<and> pb_APIKeyService p"

definition shouldUpdateAccountQuota :: "cost_breakdown \<Rightarrow> Account \<Rightarrow> postUsageBillingParams \<Rightarrow> bool" where
  "shouldUpdateAccountQuota cost account p \<longleftrightarrow>
     cb_TotalCost cost > 0 \<and> IsAPIKeyOrBedrock account \<and> pb_HasAnyQuotaLimit p"

definition buildUsageBillingCommand ::
  "billing_env \<Rightarrow> string \<Rightarrow> usage_log option \<Rightarrow> postUsageBillingParams \<Rightarrow> UsageBillingCommand option" where
  "buildUsageBillingCommand e requestID l p =
     (case (pb_Cost p, pb_User p, pb_APIKey p, pb_Account p) of
        (Some cost, Some user, Some key, Some account) \<Rightarrow>
          let actual = cb_ActualCost cost;
              c = log_command l (empty_command\<lparr>uc_RequestID := requestID, uc_APIKeyID := kl_ID key,
                    uc_UserID := user, uc_AccountID := ac_ID account, uc_AccountType := ac_Type account,
                    uc_RequestPayloadHash := trim_space (pb_RequestPayloadHash p)\<rparr>);
              subscribed = (pb_IsSubscriptionBill p \<and> pb_Subscription p \<noteq> None \<and> cb_TotalCost cost > 0)
          in Some (usage_Normalize e
              (if pb_SimpleModeKeyRateLimitOnly p then
                 c\<lparr>uc_APIKeyRateLimitCost := (if actual > 0 \<and> HasRateLimits key then actual else 0)\<rparr>
               else
                 c\<lparr>uc_SubscriptionID := (if subscribed then pb_Subscription p else uc_SubscriptionID c),
                   uc_SubscriptionCost := (if subscribed then actual else 0),
                   uc_BalanceCost := (if \<not> subscribed \<and> actual > 0 then actual else 0),
                   uc_APIKeyQuotaCost := (if shouldDeductAPIKeyQuota cost key p then actual else 0),
                   uc_APIKeyRateLimitCost := (if shouldUpdateRateLimits cost key p then actual else 0),
                   uc_AccountQuotaCost := (if shouldUpdateAccountQuota cost account p
                                           then cb_TotalCost cost * pb_AccountRateMultiplier p else 0)\<rparr>))
      | _ \<Rightarrow> None)"

text \<open>The id of the request: that of a money event, of the client, of this server, or of the upstream.\<close>

definition isForcedUsageBillingRequestID :: "string \<Rightarrow> bool" where
  "isForcedUsageBillingRequestID requestID \<longleftrightarrow>
     (let i = trim_space requestID
      in has_prefix i ''web_search:'' \<or> has_prefix i ''grok-video:'' \<or> has_prefix i ''grok_audio:'' \<or>
         has_prefix i ''grok_realtime:'')"

definition resolveUsageBillingRequestID ::
  "string option \<Rightarrow> string option \<Rightarrow> string \<Rightarrow> string \<Rightarrow> string" where
  "resolveUsageBillingRequestID clientID localID generated upstreamID =
     (let up = trim_space upstreamID in
      if up \<noteq> '''' \<and> isForcedUsageBillingRequestID up then up
      else case map_option trim_space clientID of
        Some (c # cs) \<Rightarrow> ''client:'' @ c # cs
      | _ \<Rightarrow> (case map_option trim_space localID of
                Some (c # cs) \<Rightarrow> ''local:'' @ c # cs
              | _ \<Rightarrow> if up \<noteq> '''' then up else ''generated:'' @ generated))"

end
