(* ===== verification/UsageLedger.thy ===== *)
theory UsageLedger
  imports UsageBilling
begin

text \<open>
  Sequences of transactions of the billing tables: what each did to the claims, to the balances and to
  the quotas of the keys. A transaction is atomic, so every interleaving of requests, settlements and
  cleanups is such a sequence; one that failed is not in it, one whose answer was lost is.
\<close>

section \<open>Amounts on the scale of a column\<close>

definition on_scale8 :: "rat \<Rightarrow> bool" where
  "on_scale8 x \<longleftrightarrow> of_int \<lfloor>x * 10 ^ 8\<rfloor> = x * 10 ^ 8"

lemma on_scale8_iff: "on_scale8 x \<longleftrightarrow> (\<exists>k::int. x = of_int k / 10 ^ 8)"
proof
  assume e: "on_scale8 x"
  have "x = x * 10 ^ 8 / 10 ^ 8" by simp
  then have "x = of_int \<lfloor>x * 10 ^ 8\<rfloor> / 10 ^ 8" by (metis e on_scale8_def)
  then show "\<exists>k::int. x = of_int k / 10 ^ 8" by blast
next
  assume "\<exists>k::int. x = of_int k / 10 ^ 8"
  then obtain k :: int where "x = of_int k / 10 ^ 8" by blast
  then have e: "x * 10 ^ 8 = of_int k" by simp
  show "on_scale8 x" unfolding on_scale8_def e by simp
qed

lemma on_scale8_add [intro]: "on_scale8 x \<Longrightarrow> on_scale8 y \<Longrightarrow> on_scale8 (x + y)"
  unfolding on_scale8_iff by (metis add_divide_distrib of_int_add)

lemma on_scale8_uminus [intro]: "on_scale8 x \<Longrightarrow> on_scale8 (- x)"
  unfolding on_scale8_iff by (metis minus_divide_left of_int_minus)

lemma on_scale8_diff [intro]: "on_scale8 x \<Longrightarrow> on_scale8 y \<Longrightarrow> on_scale8 (x - y)"
  using on_scale8_add [OF _ on_scale8_uminus, of x y] by simp

lemma on_scale8_0 [simp]: "on_scale8 0" by (simp add: on_scale8_def)

lemma abs_on_scale8: "on_scale8 x \<Longrightarrow> on_scale8 \<bar>x\<bar>"
  by (simp add: abs_if on_scale8_uminus)

lemma floor_half: "\<lfloor>of_int k + 1 / 2 :: rat\<rfloor> = k"
  by (simp add: floor_unique)

lemma numeric8_id [simp]:
  assumes "on_scale8 x" shows "numeric8 x = x"
proof -
  obtain k :: int where k: "\<bar>x\<bar> = of_int k / 10 ^ 8" using abs_on_scale8 [OF assms] by (auto simp: on_scale8_iff)
  then have "\<bar>x\<bar> * 10 ^ 8 + 1 / 2 = of_int k + 1 / 2" by simp
  then have "\<lfloor>\<bar>x\<bar> * 10 ^ 8 + 1 / 2\<rfloor> = k" by (simp only: floor_half)
  then have "numeric8 x = sgn x * \<bar>x\<bar>" using k by (simp add: numeric8_def round_half_away_def)
  then show ?thesis by (simp add: sgn_mult_abs)
qed

lemma on_scale8_round: "on_scale8 (round_half_away 8 x)"
proof -
  have "round_half_away 8 x = of_int \<lfloor>\<bar>x\<bar> * 10 ^ 8 + 1 / 2\<rfloor> / 10 ^ 8 \<or> round_half_away 8 x = 0 \<or>
        round_half_away 8 x = - (of_int \<lfloor>\<bar>x\<bar> * 10 ^ 8 + 1 / 2\<rfloor> / 10 ^ 8)"
    by (simp add: round_half_away_def sgn_if)
  then show ?thesis
    by (metis on_scale8_iff on_scale8_uminus on_scale8_0)
qed

lemma on_scale8_numeric8 [simp]: "on_scale8 (numeric8 x)"
  by (simp add: numeric8_def on_scale8_round)

lemma on_scale8_Quantize [simp]: "on_scale8 (QuantizeUsageBillingAmount x)"
  by (simp add: QuantizeUsageBillingAmount_def UsageBillingMonetaryScale_def on_scale8_round)

lemma Quantize_nearest: "\<bar>QuantizeUsageBillingAmount x - x\<bar> \<le> 1 / 2 / 10 ^ 8"
proof -
  let ?y = "\<bar>x\<bar> * 10 ^ 8" and ?k = "\<lfloor>\<bar>x\<bar> * 10 ^ 8 + 1 / 2\<rfloor>"
  have b: "\<bar>of_int ?k - ?y\<bar> \<le> 1 / 2" by linarith
  have q: "QuantizeUsageBillingAmount x - x = sgn x * ((of_int ?k - ?y) / 10 ^ 8)"
    by (simp add: QuantizeUsageBillingAmount_def UsageBillingMonetaryScale_def round_half_away_def
        sgn_if abs_if field_simps)
  have "\<bar>QuantizeUsageBillingAmount x - x\<bar> \<le> \<bar>of_int ?k - ?y\<bar> / 10 ^ 8"
    unfolding q abs_mult by (simp add: sgn_if)
  also have "\<dots> \<le> 1 / 2 / 10 ^ 8" using b by (intro divide_right_mono) simp_all
  finally show ?thesis .
qed

section \<open>Sequences of transactions\<close>

datatype billing_op =
    Bills UsageBillingCommand
  | Reserves BatchImageBalanceHoldCommand
  | Captures BatchImageBalanceHoldCommand
  | Releases BatchImageBalanceHoldCommand
  | Credits int rat
  | Cleans go_time "billing_claim list"
  | Passes go_duration

text \<open>
  \<open>Took\<close> is a claim that was committed, and whether money moved with it; \<open>Repeated\<close> one that was there
  already. \<^const>\<open>Credits\<close> stands for whatever else changes a balance.
\<close>

datatype billing_outcome = Rejected billing_error | Repeated | Took bool | Done

definition hold_outcome ::
  "billing_db \<Rightarrow> billing_error + BatchImageBalanceHoldResult \<times> billing_db \<Rightarrow> billing_outcome \<times> billing_db" where
  "hold_outcome db r = (case r of
     Inl err \<Rightarrow> (Rejected err, db)
   | Inr (h, db') \<Rightarrow> (if hr_Applied h then Took (hr_NewBalance h \<noteq> None) else Repeated, db'))"

definition credit_user :: "int \<Rightarrow> rat \<Rightarrow> billing_db \<Rightarrow> billing_db" where
  "credit_user userID amount db = (case live_user db userID of None \<Rightarrow> db
     | Some u \<Rightarrow> set_user userID (u\<lparr>bu_balance := numeric8 (bu_balance u + amount)\<rparr>) db)"

fun bill_op :: "billing_env \<Rightarrow> billing_op \<Rightarrow> billing_db \<Rightarrow> billing_outcome \<times> billing_db" where
  "bill_op e (Bills c) db = (case usage_Apply e c db of
     Inl err \<Rightarrow> (Rejected err, db)
   | Inr (r, db') \<Rightarrow> (if ur_Applied r then Took True else Repeated, db'))"
| "bill_op e (Reserves h) db = hold_outcome db (ReserveBatchImageBalance e h db)"
| "bill_op e (Captures h) db = hold_outcome db (CaptureBatchImageBalance e h db)"
| "bill_op e (Releases h) db = hold_outcome db (ReleaseBatchImageBalance e h db)"
| "bill_op e (Credits userID amount) db = (Done, credit_user userID amount db)"
| "bill_op e (Cleans cutoff victims) db = (Done, CleanupUsageBillingDedup cutoff victims db)"
| "bill_op e (Passes d) db = (Done, db\<lparr>bd_Now := bd_Now db + d\<rparr>)"

text \<open>The log of a sequence, and the tables at its end.\<close>

fun bill_ops ::
  "billing_env \<Rightarrow> billing_op list \<Rightarrow> billing_db \<Rightarrow> (billing_op \<times> billing_outcome) list \<times> billing_db" where
  "bill_ops e [] db = ([], db)"
| "bill_ops e (op # ops) db =
     (case bill_op e op db of (out, db1) \<Rightarrow>
        (case bill_ops e ops db1 of (hist, db2) \<Rightarrow> ((op, out) # hist, db2)))"

fun op_claim :: "billing_op \<Rightarrow> billing_claim option" where
  "op_claim (Bills c) = Some (trim_space (uc_RequestID c), uc_APIKeyID c)"
| "op_claim (Reserves h) = Some (trim_space (hc_RequestID h), hc_APIKeyID h)"
| "op_claim (Captures h) = Some (trim_space (hc_RequestID h), hc_APIKeyID h)"
| "op_claim (Releases h) = Some (trim_space (hc_RequestID h), hc_APIKeyID h)"
| "op_claim _ = None"

fun taken_by :: "billing_op \<times> billing_outcome \<Rightarrow> billing_claim list" where
  "taken_by (op, Took m) = (case op_claim op of Some k \<Rightarrow> [k] | None \<Rightarrow> [])"
| "taken_by _ = []"

definition taken :: "(billing_op \<times> billing_outcome) list \<Rightarrow> billing_claim list" where
  "taken hist = concat (map taken_by hist)"

definition claimed :: "billing_db \<Rightarrow> billing_claim \<Rightarrow> bool" where
  "claimed db k \<longleftrightarrow> bd_dedup db k \<noteq> None \<or> bd_archive db k \<noteq> None"

section \<open>What leaves the claims alone\<close>

definition with_claims ::
  "(billing_claim \<rightharpoonup> string \<times> go_time) \<Rightarrow> (billing_claim \<rightharpoonup> string) \<Rightarrow> billing_db \<Rightarrow> billing_db" where
  "with_claims d a db = db\<lparr>bd_dedup := d, bd_archive := a\<rparr>"

definition blind :: "'a transaction \<Rightarrow> bool" where
  "blind m \<longleftrightarrow> (\<forall>d a db. m (with_claims d a db) =
     (case m db of Inl err \<Rightarrow> Inl err | Inr (x, db') \<Rightarrow> Inr (x, with_claims d a db')))"

lemma blindD: "blind m \<Longrightarrow> m (with_claims d a db) =
    (case m db of Inl err \<Rightarrow> Inl err | Inr (x, db') \<Rightarrow> Inr (x, with_claims d a db'))"
  by (simp add: blind_def)

lemma with_claims_simps [simp]:
  "with_claims (bd_dedup db) (bd_archive db) db = db"
  "with_claims d a (with_claims d' a' db) = with_claims d a db"
  "bd_dedup (with_claims d a db) = d" "bd_archive (with_claims d a db) = a"
  "bd_Now (with_claims d a db) = bd_Now db" "bd_users (with_claims d a db) = bd_users db"
  "bd_keys (with_claims d a db) = bd_keys db" "bd_subscriptions (with_claims d a db) = bd_subscriptions db"
  "bd_live_groups (with_claims d a db) = bd_live_groups db" "bd_accounts (with_claims d a db) = bd_accounts db"
  "bd_outbox (with_claims d a db) = bd_outbox db"
  by (simp_all add: with_claims_def)

lemma live_with_claims [simp]:
  "live_user (with_claims d a db) u = live_user db u" "live_key (with_claims d a db) k = live_key db k"
  by (simp_all add: live_user_def live_key_def)

lemma set_with_claims [simp]:
  "set_user i u (with_claims d a db) = with_claims d a (set_user i u db)"
  "set_key i k (with_claims d a db) = with_claims d a (set_key i k db)"
  by (simp_all add: set_user_def set_key_def with_claims_def)

lemma blind_claims:
  assumes "blind m" "m db = Inr (x, db')"
  shows "bd_dedup db' = bd_dedup db \<and> bd_archive db' = bd_archive db"
proof -
  have "m (with_claims (bd_dedup db) (bd_archive db) db) =
      Inr (x, with_claims (bd_dedup db) (bd_archive db) db')"
    unfolding blindD [OF assms(1)] assms(2) by simp
  then have "db' = with_claims (bd_dedup db) (bd_archive db) db'" using assms(2) by simp
  then show ?thesis by (metis with_claims_simps(3,4))
qed

named_theorems blinds

lemma blind_Inr [blinds]: "blind (\<lambda>db. Inr (x, db))"
  by (simp add: blind_def)

lemma blind_Inl [blinds]: "blind (\<lambda>db. Inl err)"
  by (simp add: blind_def)

lemma blind_if [blinds]: "blind m \<Longrightarrow> blind n \<Longrightarrow> blind (\<lambda>db. if b then m db else n db)"
  by (simp add: blind_def)

lemma blind_then_tx [blinds]: "blind m \<Longrightarrow> (\<And>x. blind (f x)) \<Longrightarrow> blind (then_tx m f)"
  by (auto simp: blind_def then_tx_def split: sum.splits)

lemma blind_when_tx [blinds]: "blind m \<Longrightarrow> blind (when_tx b x m)"
  by (simp add: blind_def when_tx_def)

lemma blind_subscription [blinds]: "blind (incrementUsageBillingSubscription s c)"
  unfolding blind_def incrementUsageBillingSubscription_def
  by (simp add: with_claims_def split: option.split)

lemma blind_deduct [blinds]: "blind (deductUsageBillingBalance u c)"
  unfolding blind_def deductUsageBillingBalance_def Let_def by (simp split: option.split)

lemma blind_key_quota [blinds]: "blind (incrementUsageBillingAPIKeyQuota k c)"
  unfolding blind_def incrementUsageBillingAPIKeyQuota_def Let_def by (simp split: option.split)

lemma blind_key_rate [blinds]: "blind (incrementUsageBillingAPIKeyRateLimit e k c)"
  unfolding blind_def incrementUsageBillingAPIKeyRateLimit_def Let_def by (simp split: option.split)

lemma blind_account_quota [blinds]: "blind (incrementUsageBillingAccountQuota e k c)"
  unfolding blind_def incrementUsageBillingAccountQuota_def Let_def
  by (simp add: with_claims_def split: option.split)

lemma blind_effects [blinds]: "blind (applyUsageBillingEffects e c)"
  unfolding applyUsageBillingEffects_def by (intro blinds)

lemma blind_move_frozen [blinds]: "blind (move_frozen u cond b f err)"
  unfolding blind_def move_frozen_def Let_def by (simp split: option.split)

lemma blind_reserve [blinds]: "blind (reserveUsageBillingBatchImageBalance c)"
  unfolding reserveUsageBillingBatchImageBalance_def [abs_def] by (intro blinds)

lemma blind_capture [blinds]: "blind (captureUsageBillingBatchImageBalance c)"
  unfolding captureUsageBillingBatchImageBalance_def [abs_def] Let_def by (intro blinds)

text \<open>A release looks at one claim.\<close>

definition release_known :: "bool \<Rightarrow> BatchImageBalanceHoldCommand \<Rightarrow> BatchImageBalanceHoldResult transaction" where
  "release_known held c db =
     (if hc_HoldAmount c \<le> 0 \<or> \<not> held then Inr (hold_unchanged True, db)
      else move_frozen (hc_UserID c) (\<lambda>u. bu_frozen u \<ge> hc_HoldAmount c) (hc_HoldAmount c) (- hc_HoldAmount c)
             FrozenInsufficient db)"

lemma release_eq: "releaseUsageBillingBatchImageBalance c db =
    release_known (claimed db (BatchImageHoldRequestID (hc_BatchID c), hc_APIKeyID c)) c db"
  by (simp add: releaseUsageBillingBatchImageBalance_def release_known_def batchImageHoldClaimExists_def claimed_def)

lemma blind_release_known [blinds]: "blind (release_known held c)"
  unfolding release_known_def [abs_def] by (intro blinds)

section \<open>A transaction under a claim\<close>

definition under_claim :: "billing_claim \<Rightarrow> string \<Rightarrow> 'a \<Rightarrow> 'a transaction \<Rightarrow> 'a transaction" where
  "under_claim k fp skip run db =
     (case claimUsageBillingRequest (fst k) (snd k) fp db of
        Inl err \<Rightarrow> Inl err
      | Inr (applied, db1) \<Rightarrow> if \<not> applied then Inr (skip, db) else run db1)"

definition add_claim :: "billing_claim \<Rightarrow> string \<Rightarrow> billing_db \<Rightarrow> billing_db" where
  "add_claim k fp db = with_claims ((bd_dedup db)(k \<mapsto> (fp, bd_Now db))) (bd_archive db) db"

text \<open>The fingerprint a claim was taken with.\<close>

definition known_as :: "billing_db \<Rightarrow> billing_claim \<Rightarrow> string option" where
  "known_as db k = (case bd_dedup db k of Some (fp, _) \<Rightarrow> Some fp | None \<Rightarrow> bd_archive db k)"

lemma claimed_known: "claimed db k \<longleftrightarrow> known_as db k \<noteq> None"
  by (simp add: claimed_def known_as_def split: option.split)

lemma under_claim_eq:
  "under_claim k fp skip run db =
     (case known_as db k of
        Some other \<Rightarrow> if trim_space other \<noteq> trim_space fp then Inl ErrUsageBillingRequestConflict else Inr (skip, db)
      | None \<Rightarrow> run (add_claim k fp db))"
  by (simp add: under_claim_def claimUsageBillingRequest_def known_as_def add_claim_def with_claims_def
      split: option.split)

lemma under_claim_cases:
  assumes "under_claim k fp skip run db = Inr (x, db')"
  obtains (fresh) "known_as db k = None" "run (add_claim k fp db) = Inr (x, db')"
  | (there) "known_as db k \<noteq> None" "x = skip" "db' = db"
  using assms by (cases "known_as db k") (auto simp: under_claim_eq split: if_splits)

lemma usage_Apply_eq:
  "usage_Apply e c0 db =
     (let c = usage_Normalize e c0
      in if trim_space (uc_RequestID c0) = '''' then Inl ErrUsageBillingRequestIDRequired
         else under_claim (trim_space (uc_RequestID c0), uc_APIKeyID c0) (uc_RequestFingerprint c) not_applied
                (applyUsageBillingEffects e c) db)"
  by (simp add: usage_Apply_def under_claim_def usage_Normalize_def quantizeMonetaryFields_def Let_def)

lemma hold_eq:
  "applyBatchImageBalanceHold run e c0 db =
     (let c = hold_Normalize e c0
      in if trim_space (hc_RequestID c0) = '''' then Inl ErrUsageBillingRequestIDRequired
         else under_claim (trim_space (hc_RequestID c0), hc_APIKeyID c0) (hc_RequestFingerprint c)
                (hold_unchanged False) (run c) db)"
  by (simp add: applyBatchImageBalanceHold_def under_claim_def hold_Normalize_def Let_def)

lemma usage_Normalize_simps [simp]:
  "uc_UserID (usage_Normalize e c) = uc_UserID c" "uc_APIKeyID (usage_Normalize e c) = uc_APIKeyID c"
  "uc_BalanceCost (usage_Normalize e c) = QuantizeUsageBillingAmount (uc_BalanceCost c)"
  "uc_APIKeyQuotaCost (usage_Normalize e c) = QuantizeUsageBillingAmount (uc_APIKeyQuotaCost c)"
  by (simp_all add: usage_Normalize_def quantizeMonetaryFields_def Let_def)

lemma hold_Normalize_simps [simp]:
  "hc_UserID (hold_Normalize e h) = hc_UserID h" "hc_APIKeyID (hold_Normalize e h) = hc_APIKeyID h"
  "hc_HoldAmount (hold_Normalize e h) = hc_HoldAmount h" "hc_ActualAmount (hold_Normalize e h) = hc_ActualAmount h"
  "hc_BatchID (hold_Normalize e h) = trim_space (hc_BatchID h)"
  by (simp_all add: hold_Normalize_def Let_def)

text \<open>What runs under a claim leaves the claims alone.\<close>

lemma known_as_cong: "bd_dedup a = bd_dedup b \<Longrightarrow> bd_archive a = bd_archive b \<Longrightarrow> known_as a = known_as b"
  by (rule ext) (simp add: known_as_def split: option.split)

lemma effects_claims:
  "applyUsageBillingEffects e c db = Inr (r, db') \<Longrightarrow> known_as db' = known_as db"
  "reserveUsageBillingBatchImageBalance h db = Inr (s, db') \<Longrightarrow> known_as db' = known_as db"
  "captureUsageBillingBatchImageBalance h db = Inr (s, db') \<Longrightarrow> known_as db' = known_as db"
  "releaseUsageBillingBatchImageBalance h db = Inr (s, db') \<Longrightarrow> known_as db' = known_as db"
  by (metis known_as_cong blind_claims blind_effects) (metis known_as_cong blind_claims blind_reserve,
      metis known_as_cong blind_claims blind_capture, metis known_as_cong blind_claims blind_release_known release_eq)

lemma known_as_add_claim: "known_as (add_claim k fp db) = (known_as db)(k \<mapsto> fp)"
  by (rule ext) (simp add: known_as_def add_claim_def split: option.split)

text \<open>What was applied says so.\<close>

lemma effects_applied: "applyUsageBillingEffects e c db = Inr (r, db') \<Longrightarrow> ur_Applied r"
  by (auto simp: applyUsageBillingEffects_def then_tx_def split: sum.splits prod.splits)

lemma move_frozen_applied: "move_frozen u cond b f err db = Inr (r, db') \<Longrightarrow> hr_Applied r"
  by (auto simp: move_frozen_def Let_def split: option.splits if_splits)

lemma holds_applied:
  "reserveUsageBillingBatchImageBalance h db = Inr (s, db') \<Longrightarrow> hr_Applied s"
  "captureUsageBillingBatchImageBalance h db = Inr (s, db') \<Longrightarrow> hr_Applied s"
  "releaseUsageBillingBatchImageBalance h db = Inr (s, db') \<Longrightarrow> hr_Applied s"
  by (auto simp: reserveUsageBillingBatchImageBalance_def captureUsageBillingBatchImageBalance_def Let_def
      release_eq release_known_def hold_unchanged_def dest: move_frozen_applied split: if_splits)

section \<open>What one transaction does\<close>

text \<open>A change under the claim of a hold: it says so, and leaves the claims alone.\<close>

definition hold_change ::
  "(BatchImageBalanceHoldCommand \<Rightarrow> BatchImageBalanceHoldResult transaction) \<Rightarrow> bool" where
  "hold_change run \<longleftrightarrow>
     (\<forall>h db s db'. run h db = Inr (s, db') \<longrightarrow> hr_Applied s \<and> known_as db' = known_as db)"

lemma hold_changes:
  "hold_change reserveUsageBillingBatchImageBalance" "hold_change captureUsageBillingBatchImageBalance"
  "hold_change releaseUsageBillingBatchImageBalance"
  using holds_applied effects_claims by (simp_all add: hold_change_def)

lemma hold_outcome_cases:
  assumes "hold_outcome db (applyBatchImageBalanceHold run e h db) = (out, db')" "hold_change run"
  obtains
    (took) s where "out = Took (hr_NewBalance s \<noteq> None)" "\<not> claimed db (trim_space (hc_RequestID h), hc_APIKeyID h)"
      "run (hold_Normalize e h) (add_claim (trim_space (hc_RequestID h), hc_APIKeyID h)
         (hc_RequestFingerprint (hold_Normalize e h)) db) = Inr (s, db')"
  | (repeated) "out = Repeated" "claimed db (trim_space (hc_RequestID h), hc_APIKeyID h)" "db' = db"
  | (rejected) err where "out = Rejected err" "db' = db"
proof (cases "applyBatchImageBalanceHold run e h db")
  case (Inl err)
  then show ?thesis using assms(1) rejected by (auto simp: hold_outcome_def)
next
  case (Inr r)
  obtain s b where r: "r = (s, b)" by fastforce
  have out: "out = (if hr_Applied s then Took (hr_NewBalance s \<noteq> None) else Repeated)" "b = db'"
    using assms(1) Inr r by (simp_all add: hold_outcome_def)
  have "under_claim (trim_space (hc_RequestID h), hc_APIKeyID h) (hc_RequestFingerprint (hold_Normalize e h))
      (hold_unchanged False) (run (hold_Normalize e h)) db = Inr (s, db')"
    using Inr unfolding r out(2) hold_eq Let_def by (simp split: if_splits)
  then show ?thesis
  proof (cases rule: under_claim_cases)
    case fresh
    then have "hr_Applied s" using assms(2) by (simp add: hold_change_def)
    then show ?thesis using took fresh out(1) by (simp add: claimed_known)
  next
    case there
    then show ?thesis using repeated out(1) by (simp add: claimed_known hold_unchanged_def)
  qed
qed

text \<open>A command that took its claim, one that found it taken, and one that failed.\<close>

lemma old_claims_dedup: "k \<in> set (old_claims db cutoff victims) \<Longrightarrow> bd_dedup db k \<noteq> None"
  by (auto simp: old_claims_def dest!: in_set_takeD split: option.splits)

lemma claimed_cleanup: "claimed (CleanupUsageBillingDedup cutoff victims db) = claimed db"
proof
  fix k
  show "claimed (CleanupUsageBillingDedup cutoff victims db) k = claimed db k"
    using old_claims_dedup [of k db cutoff victims] by (auto simp: claimed_def CleanupUsageBillingDedup_def Let_def)
qed

lemma claimed_untouched:
  "claimed (credit_user u a db) = claimed db" "claimed (db\<lparr>bd_Now := t\<rparr>) = claimed db"
  by (rule ext, simp add: claimed_def credit_user_def set_user_def split: option.split)+

lemma bill_cases:
  assumes "bill_op e (Bills c) db = (out, db')"
  obtains
    (took) r where "out = Took True" "\<not> claimed db (trim_space (uc_RequestID c), uc_APIKeyID c)"
      "applyUsageBillingEffects e (usage_Normalize e c)
         (add_claim (trim_space (uc_RequestID c), uc_APIKeyID c)
           (uc_RequestFingerprint (usage_Normalize e c)) db) = Inr (r, db')"
  | (repeated) "out = Repeated" "claimed db (trim_space (uc_RequestID c), uc_APIKeyID c)" "db' = db"
  | (rejected) err where "out = Rejected err" "db' = db"
proof (cases "usage_Apply e c db")
  case (Inl err)
  then show ?thesis using assms rejected by auto
next
  case (Inr p)
  obtain r b where r: "p = (r, b)" by fastforce
  have out: "out = (if ur_Applied r then Took True else Repeated)" "b = db'" using assms Inr r by simp_all
  have "under_claim (trim_space (uc_RequestID c), uc_APIKeyID c) (uc_RequestFingerprint (usage_Normalize e c))
      not_applied (applyUsageBillingEffects e (usage_Normalize e c)) db = Inr (r, db')"
    using Inr unfolding r out(2) usage_Apply_eq Let_def by (simp split: if_splits)
  then show ?thesis
  proof (cases rule: under_claim_cases)
    case fresh
    then show ?thesis using took out(1) effects_applied [OF fresh(2)] by (simp add: claimed_known)
  next
    case there
    then show ?thesis using repeated out(1) by (simp add: claimed_known not_applied_def)
  qed
qed

lemma hold_cases:
  "bill_op e (Reserves h) db = (out, db') \<Longrightarrow>
     hold_outcome db (applyBatchImageBalanceHold reserveUsageBillingBatchImageBalance e h db) = (out, db')"
  "bill_op e (Captures h) db = (out, db') \<Longrightarrow>
     hold_outcome db (applyBatchImageBalanceHold captureUsageBillingBatchImageBalance e h db) = (out, db')"
  "bill_op e (Releases h) db = (out, db') \<Longrightarrow>
     hold_outcome db (applyBatchImageBalanceHold releaseUsageBillingBatchImageBalance e h db) = (out, db')"
  by (simp_all add: ReserveBatchImageBalance_def CaptureBatchImageBalance_def ReleaseBatchImageBalance_def)

definition claims_step :: "billing_op \<Rightarrow> billing_outcome \<Rightarrow> billing_db \<Rightarrow> billing_db \<Rightarrow> bool" where
  "claims_step op out db db' \<longleftrightarrow>
     (\<forall>k\<in>set (taken_by (op, out)). \<not> claimed db k) \<and> distinct (taken_by (op, out)) \<and>
     (\<forall>k. claimed db' k \<longleftrightarrow> claimed db k \<or> k \<in> set (taken_by (op, out)))"

lemma claims_step_took:
  "\<not> claimed db k \<Longrightarrow> op_claim op = Some k \<Longrightarrow> known_as db' = known_as (add_claim k fp db) \<Longrightarrow>
   claims_step op (Took m) db db'"
  by (simp add: claims_step_def claimed_known known_as_add_claim)

lemma claims_step_same: "taken_by (op, out) = [] \<Longrightarrow> claimed db' = claimed db \<Longrightarrow> claims_step op out db db'"
  by (simp add: claims_step_def)

lemma hold_claims_step:
  assumes "hold_outcome db (applyBatchImageBalanceHold run e h db) = (out, db')" "hold_change run"
    "op_claim op = Some (trim_space (hc_RequestID h), hc_APIKeyID h)"
  shows "claims_step op out db db'"
  using assms(1,2)
proof (cases rule: hold_outcome_cases)
  case (took s)
  then show ?thesis using assms(2,3) claims_step_took unfolding hold_change_def by blast
qed (simp_all add: claims_step_same)

lemma bill_op_claims: "bill_op e op db = (out, db') \<Longrightarrow> claims_step op out db db'"
proof (cases op)
  case (Bills c)
  assume "bill_op e op db = (out, db')"
  from this [unfolded Bills] show ?thesis
  proof (cases rule: bill_cases)
    case (took r)
    show ?thesis unfolding took(1) Bills
      by (rule claims_step_took [OF took(2) _ effects_claims(1) [OF took(3)]]) simp
  qed (simp_all add: claims_step_same)
next
  case (Reserves h)
  assume "bill_op e op db = (out, db')"
  then show ?thesis unfolding Reserves by (intro hold_claims_step [OF hold_cases(1) hold_changes(1)]) simp_all
next
  case (Captures h)
  assume "bill_op e op db = (out, db')"
  then show ?thesis unfolding Captures by (intro hold_claims_step [OF hold_cases(2) hold_changes(2)]) simp_all
next
  case (Releases h)
  assume "bill_op e op db = (out, db')"
  then show ?thesis unfolding Releases by (intro hold_claims_step [OF hold_cases(3) hold_changes(3)]) simp_all
qed (auto intro!: claims_step_same simp: claimed_cleanup claimed_untouched)

lemma bill_ops_claims:
  "bill_ops e ops db = (hist, db') \<Longrightarrow>
     distinct (taken hist) \<and> (\<forall>k\<in>set (taken hist). \<not> claimed db k) \<and>
     (\<forall>k. claimed db' k \<longleftrightarrow> claimed db k \<or> k \<in> set (taken hist))"
proof (induction ops arbitrary: db hist)
  case (Cons op ops)
  obtain out db1 where o: "bill_op e op db = (out, db1)" by fastforce
  obtain rest where r: "bill_ops e ops db1 = (rest, db')" "hist = (op, out) # rest"
    using Cons.prems o by (auto split: prod.splits)
  have "taken hist = taken_by (op, out) @ taken rest" using r by (simp add: taken_def)
  then show ?case using bill_op_claims [OF o] Cons.IH [OF r(1)] unfolding claims_step_def by auto
qed (simp add: taken_def)

section \<open>The archive of the claims\<close>

text \<open>Tables that differ in nothing but where a claim is kept and when it was taken.\<close>

definition same_ledger :: "billing_db \<Rightarrow> billing_db \<Rightarrow> bool" where
  "same_ledger a b \<longleftrightarrow> known_as a = known_as b \<and> with_claims Map.empty Map.empty a = with_claims Map.empty Map.empty b"

fun same_answer :: "billing_error + 'a \<times> billing_db \<Rightarrow> billing_error + 'a \<times> billing_db \<Rightarrow> bool" where
  "same_answer (Inl x) (Inl y) = (x = y)"
| "same_answer (Inr (r, a)) (Inr (s, b)) = (r = s \<and> same_ledger a b)"
| "same_answer _ _ = False"

definition ledgerwise :: "'a transaction \<Rightarrow> bool" where
  "ledgerwise m \<longleftrightarrow> (\<forall>a b. same_ledger a b \<longrightarrow> same_answer (m a) (m b))"

lemma same_ledger_with_claims:
  assumes "same_ledger a b" shows "b = with_claims (bd_dedup b) (bd_archive b) a"
proof -
  have "with_claims (bd_dedup b) (bd_archive b) (with_claims Map.empty Map.empty a) =
      with_claims (bd_dedup b) (bd_archive b) (with_claims Map.empty Map.empty b)"
    using assms by (simp only: same_ledger_def)
  then show ?thesis by simp
qed

lemma blind_ledgerwise:
  assumes "blind m" shows "ledgerwise m"
  unfolding ledgerwise_def
proof (intro allI impI)
  fix a b assume s: "same_ledger a b"
  have mb: "m b = (case m a of Inl err \<Rightarrow> Inl err | Inr (x, a') \<Rightarrow> Inr (x, with_claims (bd_dedup b) (bd_archive b) a'))"
    by (subst same_ledger_with_claims [OF s]) (rule blindD [OF assms])
  show "same_answer (m a) (m b)"
  proof (cases "m a")
    case (Inr p)
    obtain x a' where p: "p = (x, a')" by fastforce
    have "known_as a' = known_as a" using blind_claims [OF assms Inr [unfolded p]] by (intro known_as_cong) simp_all
    moreover have "known_as (with_claims (bd_dedup b) (bd_archive b) a') = known_as b"
      by (intro known_as_cong) simp_all
    ultimately show ?thesis using s by (simp add: mb Inr p same_ledger_def)
  qed (simp add: mb)
qed

lemma release_ledgerwise: "ledgerwise (releaseUsageBillingBatchImageBalance h)"
  using blind_ledgerwise [OF blind_release_known]
  by (auto simp: ledgerwise_def release_eq claimed_known same_ledger_def)

lemma under_claim_ledgerwise:
  assumes "ledgerwise run" shows "ledgerwise (under_claim k fp skip run)"
  unfolding ledgerwise_def
proof (intro allI impI)
  fix a b assume s: "same_ledger a b"
  have "bd_Now a = bd_Now b" using same_ledger_with_claims [OF s] by (metis with_claims_simps(5))
  then have "same_ledger (add_claim k fp a) (add_claim k fp b)"
    using s by (simp add: same_ledger_def known_as_add_claim) (simp add: add_claim_def)
  then show "same_answer (under_claim k fp skip run a) (under_claim k fp skip run b)"
    using assms s by (cases "known_as b k") (auto simp: under_claim_eq same_ledger_def ledgerwise_def)
qed

definition is_cleanup :: "billing_op \<Rightarrow> bool" where
  "is_cleanup op = (case op of Cleans _ _ \<Rightarrow> True | _ \<Rightarrow> False)"

lemma hold_outcome_ledgerwise:
  assumes "same_answer x y" "same_ledger a b" "hold_outcome a x = (out, a')"
  shows "\<exists>b'. hold_outcome b y = (out, b') \<and> same_ledger a' b'"
  using assms by (cases "(x, y)" rule: same_answer.cases) (auto simp: hold_outcome_def)

lemma bill_op_ledgerwise:
  assumes "bill_op e op a = (out, a')" "same_ledger a b" "\<not> is_cleanup op"
  shows "\<exists>b'. bill_op e op b = (out, b') \<and> same_ledger a' b'"
proof (cases op)
  case (Bills c)
  have "same_answer (usage_Apply e c a) (usage_Apply e c b)"
    using under_claim_ledgerwise [OF blind_ledgerwise [OF blind_effects]] assms(2)
    unfolding usage_Apply_eq Let_def ledgerwise_def by simp
  then show ?thesis using assms(1,2) unfolding Bills
    by (cases "(usage_Apply e c a, usage_Apply e c b)" rule: same_answer.cases) auto
next
  case (Reserves h)
  have "same_answer (ReserveBatchImageBalance e h a) (ReserveBatchImageBalance e h b)"
    using under_claim_ledgerwise [OF blind_ledgerwise [OF blind_reserve]] assms(2)
    unfolding ReserveBatchImageBalance_def hold_eq Let_def ledgerwise_def by simp
  from hold_outcome_ledgerwise [OF this assms(2)] show ?thesis using assms(1) Reserves by simp
next
  case (Captures h)
  have "same_answer (CaptureBatchImageBalance e h a) (CaptureBatchImageBalance e h b)"
    using under_claim_ledgerwise [OF blind_ledgerwise [OF blind_capture]] assms(2)
    unfolding CaptureBatchImageBalance_def hold_eq Let_def ledgerwise_def by simp
  from hold_outcome_ledgerwise [OF this assms(2)] show ?thesis using assms(1) Captures by simp
next
  case (Releases h)
  have "same_answer (ReleaseBatchImageBalance e h a) (ReleaseBatchImageBalance e h b)"
    using under_claim_ledgerwise [OF release_ledgerwise] assms(2)
    unfolding ReleaseBatchImageBalance_def hold_eq Let_def ledgerwise_def by simp
  from hold_outcome_ledgerwise [OF this assms(2)] show ?thesis using assms(1) Releases by simp
next
  case (Credits u x)
  have "ledgerwise (\<lambda>db. Inr ((), credit_user u x db))"
    by (rule blind_ledgerwise) (simp add: blind_def credit_user_def split: option.split)
  then show ?thesis using assms Credits by (auto simp: ledgerwise_def)
next
  case (Passes d)
  have "ledgerwise (\<lambda>db. Inr ((), db\<lparr>bd_Now := bd_Now db + d\<rparr>))"
    by (rule blind_ledgerwise) (simp add: blind_def with_claims_def)
  then show ?thesis using assms Passes by (auto simp: ledgerwise_def)
qed (use assms(3) in \<open>simp add: is_cleanup_def\<close>)

text \<open>No claim is in both tables, so the cleanup moves it without losing its fingerprint.\<close>

definition claims_disjoint :: "billing_db \<Rightarrow> bool" where
  "claims_disjoint db \<longleftrightarrow> (\<forall>k. bd_dedup db k = None \<or> bd_archive db k = None)"

lemma cleanup_same_ledger:
  assumes "claims_disjoint db"
  shows "same_ledger (CleanupUsageBillingDedup cutoff victims db) db" "claims_disjoint (CleanupUsageBillingDedup cutoff victims db)"
proof -
  let ?db = "CleanupUsageBillingDedup cutoff victims db"
  have "known_as ?db k = known_as db k" for k
    using assms [unfolded claims_disjoint_def, rule_format, of k] old_claims_dedup [of k db cutoff victims]
    by (auto simp: known_as_def CleanupUsageBillingDedup_def Let_def split: option.splits)
  then show "same_ledger ?db db"
    by (simp add: same_ledger_def fun_eq_iff) (simp add: CleanupUsageBillingDedup_def Let_def with_claims_def)
  show "claims_disjoint ?db"
    using assms by (auto simp: claims_disjoint_def CleanupUsageBillingDedup_def Let_def)
qed

lemma same_ledger_trans: "same_ledger a b \<Longrightarrow> same_ledger b c \<Longrightarrow> same_ledger a c"
  by (simp add: same_ledger_def)

lemma same_ledger_sym: "same_ledger a b \<Longrightarrow> same_ledger b a"
  by (simp add: same_ledger_def)

lemma claims_disjoint_add: "known_as db k = None \<Longrightarrow> claims_disjoint db \<Longrightarrow> claims_disjoint (add_claim k fp db)"
  by (auto simp: claims_disjoint_def add_claim_def known_as_def split: option.splits)

lemma claims_disjoint_blind: "blind m \<Longrightarrow> m db = Inr (x, db') \<Longrightarrow> claims_disjoint db' = claims_disjoint db"
  using blind_claims [of m db x db'] by (simp add: claims_disjoint_def)

lemma claims_disjoint_holds:
  "reserveUsageBillingBatchImageBalance h db = Inr (s, db') \<Longrightarrow> claims_disjoint db' = claims_disjoint db"
  "captureUsageBillingBatchImageBalance h db = Inr (s, db') \<Longrightarrow> claims_disjoint db' = claims_disjoint db"
  "releaseUsageBillingBatchImageBalance h db = Inr (s, db') \<Longrightarrow> claims_disjoint db' = claims_disjoint db"
  by (rule claims_disjoint_blind [OF blind_reserve], assumption, rule claims_disjoint_blind [OF blind_capture],
      assumption, unfold release_eq, rule claims_disjoint_blind [OF blind_release_known])

lemma hold_disjoint:
  assumes "hold_outcome db (applyBatchImageBalanceHold run e h db) = (out, db')" "hold_change run"
    "\<And>c a s b. run c a = Inr (s, b) \<Longrightarrow> claims_disjoint b = claims_disjoint a" "claims_disjoint db"
  shows "claims_disjoint db'"
  using assms(1,2)
proof (cases rule: hold_outcome_cases)
  case (took s)
  then show ?thesis using assms(3) [OF took(3)] claims_disjoint_add assms(4) by (simp add: claimed_known)
qed (use assms(4) in simp_all)

lemma claims_disjoint_credit: "claims_disjoint (credit_user u x db) = claims_disjoint db"
  by (simp add: claims_disjoint_def credit_user_def set_user_def split: option.split)

lemma bill_op_disjoint:
  assumes "bill_op e op db = (out, db')" "claims_disjoint db" shows "claims_disjoint db'"
proof (cases op)
  case (Bills c)
  from assms(1) [unfolded Bills] show ?thesis
  proof (cases rule: bill_cases)
    case (took r)
    then show ?thesis using claims_disjoint_blind [OF blind_effects took(3)] claims_disjoint_add assms(2)
      by (simp add: claimed_known)
  qed (use assms(2) in simp_all)
next
  case (Reserves h)
  show ?thesis by (rule hold_disjoint [OF hold_cases(1) [OF assms(1) [unfolded Reserves]] hold_changes(1) claims_disjoint_holds(1) assms(2)])
next
  case (Captures h)
  show ?thesis by (rule hold_disjoint [OF hold_cases(2) [OF assms(1) [unfolded Captures]] hold_changes(2) claims_disjoint_holds(2) assms(2)])
next
  case (Releases h)
  show ?thesis by (rule hold_disjoint [OF hold_cases(3) [OF assms(1) [unfolded Releases]] hold_changes(3) claims_disjoint_holds(3) assms(2)])
next
  case (Credits u x)
  then show ?thesis using assms claims_disjoint_credit by auto
next
  case (Cleans t v)
  then show ?thesis using assms cleanup_same_ledger(2) by auto
next
  case (Passes d)
  have "claims_disjoint (db\<lparr>bd_Now := bd_Now db + d\<rparr>) = claims_disjoint db" by (simp add: claims_disjoint_def)
  then show ?thesis using assms Passes by auto
qed

text \<open>Cleanups can be left out.\<close>

definition without_cleanups :: "(billing_op \<times> 'a) list \<Rightarrow> (billing_op \<times> 'a) list" where
  "without_cleanups = filter (\<lambda>en. \<not> is_cleanup (fst en))"

lemma bill_ops_ledgerwise:
  "bill_ops e ops a = (hist, a') \<Longrightarrow> same_ledger a b \<Longrightarrow> claims_disjoint a \<Longrightarrow>
   \<exists>b'. bill_ops e (filter (\<lambda>op. \<not> is_cleanup op) ops) b = (without_cleanups hist, b') \<and> same_ledger a' b' \<and>
     claims_disjoint a'"
proof (induction ops arbitrary: a b hist)
  case (Cons op ops)
  obtain out a1 where o: "bill_op e op a = (out, a1)" by fastforce
  obtain rest where r: "bill_ops e ops a1 = (rest, a')" "hist = (op, out) # rest"
    using Cons.prems o by (auto split: prod.splits)
  note d = bill_op_disjoint [OF o Cons.prems(3)]
  show ?case
  proof (cases "is_cleanup op")
    case True
    then obtain t v where "op = Cleans t v" by (auto simp: is_cleanup_def split: billing_op.splits)
    then have "same_ledger a1 a" using o cleanup_same_ledger(1) [OF Cons.prems(3)] by auto
    from Cons.IH [OF r(1) same_ledger_trans [OF this Cons.prems(2)] d] True show ?thesis
      by (simp add: r(2) without_cleanups_def)
  next
    case False
    from bill_op_ledgerwise [OF o Cons.prems(2) False] obtain b1 where
      b: "bill_op e op b = (out, b1)" "same_ledger a1 b1" by blast
    from Cons.IH [OF r(1) b(2) d] False show ?thesis by (auto simp: r(2) without_cleanups_def b(1))
  qed
qed (simp add: without_cleanups_def)

end
