(* ===== verification/UsageAmounts.thy ===== *)
theory UsageAmounts
  imports UsageLedger
begin

text \<open>
  What a sequence of billing transactions does to a balance, to the frozen part of it and to the quota
  of a key: the sum of the amounts of what was taken, each counted once and none of it rounded away.
\<close>

section \<open>Reading the tables\<close>

definition balance_of :: "billing_db \<Rightarrow> int \<Rightarrow> rat option" where
  "balance_of db u = map_option bu_balance (live_user db u)"

definition frozen_of :: "billing_db \<Rightarrow> int \<Rightarrow> rat option" where
  "frozen_of db u = map_option bu_frozen (live_user db u)"

definition used_of :: "billing_db \<Rightarrow> int \<Rightarrow> rat option" where
  "used_of db k = map_option bk_quota_used (live_key db k)"

definition amounts :: "billing_db \<Rightarrow> (int \<Rightarrow> rat option) \<times> (int \<Rightarrow> rat option) \<times> (int \<Rightarrow> rat option)" where
  "amounts db = (balance_of db, frozen_of db, used_of db)"

text \<open>Adding to one entry.\<close>

definition add_to :: "int \<Rightarrow> rat \<Rightarrow> (int \<Rightarrow> rat option) \<Rightarrow> int \<Rightarrow> rat option" where
  "add_to i x t = t(i := map_option (\<lambda>b. b + x) (t i))"

text \<open>A table whose entries a column of scale 8 can hold.\<close>

definition table_on_scale :: "(int \<Rightarrow> rat option) \<Rightarrow> bool" where
  "table_on_scale t \<longleftrightarrow> (\<forall>i x. t i = Some x \<longrightarrow> on_scale8 x)"

definition amounts_on_scale :: "billing_db \<Rightarrow> bool" where
  "amounts_on_scale db \<longleftrightarrow> table_on_scale (balance_of db) \<and> table_on_scale (frozen_of db) \<and> table_on_scale (used_of db)"

lemma add_to_0 [simp]: "add_to i 0 t = t"
  by (simp add: add_to_def fun_eq_iff map_option_idI)

lemma add_to_on_scale: "table_on_scale t \<Longrightarrow> on_scale8 x \<Longrightarrow> table_on_scale (add_to i x t)"
  by (auto simp: table_on_scale_def add_to_def)

lemma live_set_user [simp]:
  "live_user db i = Some v \<Longrightarrow> bu_deleted u = bu_deleted v \<Longrightarrow> live_user (set_user i u db) = (live_user db)(i \<mapsto> u)"
  "live_key (set_user i u db) = live_key db"
  by (auto simp: live_user_def live_key_def set_user_def fun_eq_iff split: option.splits if_splits)

lemma live_set_key [simp]:
  "live_key db i = Some v \<Longrightarrow> bk_deleted k = bk_deleted v \<Longrightarrow> live_key (set_key i k db) = (live_key db)(i \<mapsto> k)"
  "live_user (set_key i k db) = live_user db"
  by (auto simp: live_user_def live_key_def set_key_def fun_eq_iff split: option.splits if_splits)

lemma on_scale_user: "amounts_on_scale db \<Longrightarrow> live_user db u = Some v \<Longrightarrow> on_scale8 (bu_balance v) \<and> on_scale8 (bu_frozen v)"
  by (simp add: amounts_on_scale_def table_on_scale_def balance_of_def frozen_of_def)
    (metis option.map(2) option.map_sel option.sel)

lemma on_scale_key: "amounts_on_scale db \<Longrightarrow> live_key db u = Some v \<Longrightarrow> on_scale8 (bk_quota_used v)"
  unfolding amounts_on_scale_def table_on_scale_def used_of_def by (metis option.map(2))

lemmas amounts_defs = amounts_def balance_of_def frozen_of_def used_of_def

lemma amounts_with_claims [simp]: "amounts (with_claims d a db) = amounts db"
  by (simp add: amounts_defs fun_eq_iff)

lemma amounts_add_claim [simp]: "amounts (add_claim k fp db) = amounts db"
  by (simp add: add_claim_def)

lemma amounts_cong:
  "live_user a = live_user b \<Longrightarrow> live_key a = live_key b \<Longrightarrow> amounts a = amounts b"
  by (simp add: amounts_defs fun_eq_iff)

section \<open>What each statement adds\<close>

lemma amounts_subscription:
  "incrementUsageBillingSubscription s c db = Inr (x, db') \<Longrightarrow> amounts db' = amounts db"
  by (intro amounts_cong)
    (auto simp: incrementUsageBillingSubscription_def live_user_def live_key_def fun_eq_iff
      split: option.splits if_splits)

lemma amounts_account_quota:
  "incrementUsageBillingAccountQuota e k c db = Inr (x, db') \<Longrightarrow> amounts db' = amounts db"
  by (intro amounts_cong)
    (auto simp: incrementUsageBillingAccountQuota_def Let_def live_user_def live_key_def fun_eq_iff
      split: option.splits if_splits)

lemma amounts_key_rate:
  assumes "incrementUsageBillingAPIKeyRateLimit e k c db = Inr (x, db')"
  shows "amounts db' = amounts db"
  using assms
  by (auto simp: incrementUsageBillingAPIKeyRateLimit_def Let_def amounts_defs fun_eq_iff split: option.splits)

lemma amounts_deduct:
  assumes "deductUsageBillingBalance u c db = Inr (x, db')" "amounts_on_scale db" "on_scale8 c"
  shows "amounts db' = (add_to u (- c) (balance_of db), frozen_of db, used_of db)"
proof -
  obtain v where v: "live_user db u = Some v" using assms(1)
    by (auto simp: deductUsageBillingBalance_def split: option.splits)
  have "on_scale8 (bu_balance v)" using on_scale_user [OF assms(2) v] by simp
  then have "numeric8 (bu_balance v - c) = bu_balance v - c" using assms(3) by (simp add: on_scale8_diff)
  then show ?thesis using assms(1) v
    by (auto simp: deductUsageBillingBalance_def Let_def amounts_defs add_to_def fun_eq_iff)
qed

lemma amounts_key_quota:
  assumes "incrementUsageBillingAPIKeyQuota k c db = Inr (x, db')" "amounts_on_scale db" "on_scale8 c"
  shows "amounts db' = (balance_of db, frozen_of db, add_to k c (used_of db))"
proof -
  obtain v where v: "live_key db k = Some v" using assms(1)
    by (auto simp: incrementUsageBillingAPIKeyQuota_def split: option.splits)
  have "on_scale8 (bk_quota_used v)" using on_scale_key [OF assms(2) v] .
  then have "numeric8 (bk_quota_used v + c) = bk_quota_used v + c" using assms(3) by (simp add: on_scale8_add)
  then show ?thesis using assms(1) v
    by (auto simp: incrementUsageBillingAPIKeyQuota_def Let_def amounts_defs add_to_def fun_eq_iff)
qed

lemma amounts_move_frozen:
  assumes "move_frozen u cond b f err db = Inr (s, db')" "amounts_on_scale db" "on_scale8 b" "on_scale8 f"
  shows "amounts db' = (add_to u b (balance_of db), add_to u f (frozen_of db), used_of db) \<and> hr_NewBalance s \<noteq> None \<and>
    (\<exists>v. live_user db u = Some v \<and> cond v)"
proof -
  obtain v where v: "live_user db u = Some v" "cond v" using assms(1)
    by (auto simp: move_frozen_def split: option.splits if_splits)
  have "on_scale8 (bu_balance v)" "on_scale8 (bu_frozen v)" using on_scale_user [OF assms(2) v(1)] by simp_all
  then have "numeric8 (bu_balance v + b) = bu_balance v + b" "numeric8 (bu_frozen v + f) = bu_frozen v + f"
    using assms(3,4) by (simp_all add: on_scale8_add)
  then show ?thesis using assms(1) v
    by (auto simp: move_frozen_def Let_def amounts_defs add_to_def fun_eq_iff)
qed

section \<open>What each transaction adds\<close>

definition charge :: "rat \<Rightarrow> rat" where
  "charge x = max 0 (QuantizeUsageBillingAmount x)"

lemma charge_pos: "QuantizeUsageBillingAmount x > 0 \<Longrightarrow> charge x = QuantizeUsageBillingAmount x"
  "\<not> QuantizeUsageBillingAmount x > 0 \<Longrightarrow> charge x = 0"
  by (simp_all add: charge_def)

lemma Quantize_nonneg: "0 \<le> x \<Longrightarrow> 0 \<le> QuantizeUsageBillingAmount x"
  by (simp add: QuantizeUsageBillingAmount_def round_half_away_def sgn_if)

lemma charge_nearest: "0 \<le> x \<Longrightarrow> \<bar>charge x - x\<bar> \<le> 1 / 2 / 10 ^ 8"
  using Quantize_nonneg [of x] Quantize_nearest [of x] by (simp add: charge_def max_def)

lemma on_scale_charge [simp]: "on_scale8 (charge x)"
  by (simp add: charge_def max_def)

text \<open>The changes of balance, frozen balance and quota by one entry of a log.\<close>

fun balance_change :: "int \<Rightarrow> billing_op \<times> billing_outcome \<Rightarrow> rat" where
  "balance_change u (Bills c, out) = (if out = Took True \<and> u = uc_UserID c then - charge (uc_BalanceCost c) else 0)"
| "balance_change u (Reserves h, out) = (if out = Took True \<and> u = hc_UserID h then - hc_HoldAmount h else 0)"
| "balance_change u (Captures h, out) =
     (if out = Took True \<and> u = hc_UserID h then hc_HoldAmount h - hc_ActualAmount h else 0)"
| "balance_change u (Releases h, out) = (if out = Took True \<and> u = hc_UserID h then hc_HoldAmount h else 0)"
| "balance_change u (Credits v amount, _) = (if u = v then amount else 0)"
| "balance_change u _ = 0"

fun frozen_change :: "int \<Rightarrow> billing_op \<times> billing_outcome \<Rightarrow> rat" where
  "frozen_change u (Reserves h, out) = (if out = Took True \<and> u = hc_UserID h then hc_HoldAmount h else 0)"
| "frozen_change u (Captures h, out) = (if out = Took True \<and> u = hc_UserID h then - hc_HoldAmount h else 0)"
| "frozen_change u (Releases h, out) = (if out = Took True \<and> u = hc_UserID h then - hc_HoldAmount h else 0)"
| "frozen_change u _ = 0"

fun used_change :: "int \<Rightarrow> billing_op \<times> billing_outcome \<Rightarrow> rat" where
  "used_change k (Bills c, out) = (if out = Took True \<and> k = uc_APIKeyID c then charge (uc_APIKeyQuotaCost c) else 0)"
| "used_change k _ = 0"

fun op_on_scale :: "billing_op \<Rightarrow> bool" where
  "op_on_scale (Reserves h) = on_scale8 (hc_HoldAmount h)"
| "op_on_scale (Captures h) = (on_scale8 (hc_HoldAmount h) \<and> on_scale8 (hc_ActualAmount h))"
| "op_on_scale (Releases h) = on_scale8 (hc_HoldAmount h)"
| "op_on_scale (Credits u amount) = on_scale8 amount"
| "op_on_scale _ = True"

lemma amounts_on_scale_cong: "amounts a = amounts b \<Longrightarrow> amounts_on_scale a = amounts_on_scale b"
  by (simp add: amounts_on_scale_def amounts_def)

lemma amounts_on_scale_pair:
  "amounts db = (b, f, k) \<Longrightarrow> amounts_on_scale db \<longleftrightarrow> table_on_scale b \<and> table_on_scale f \<and> table_on_scale k"
  by (auto simp: amounts_on_scale_def amounts_def)

lemma then_tx_Inr:
  "then_tx m f db = Inr (y, db') \<longleftrightarrow> (\<exists>x db1. m db = Inr (x, db1) \<and> f x db1 = Inr (y, db'))"
  by (auto simp: then_tx_def split: sum.splits)

lemma when_tx_Inr:
  "when_tx b x m db = Inr (y, db') \<longleftrightarrow> (if b then m db = Inr (y, db') else y = x \<and> db' = db)"
  by (auto simp: when_tx_def)

lemma amounts_when_deduct:
  assumes "when_tx (QuantizeUsageBillingAmount x > 0) None
      (then_tx (deductUsageBillingBalance u (QuantizeUsageBillingAmount x)) (\<lambda>r db. Inr (Some r, db))) db = Inr (y, db')"
    "amounts_on_scale db"
  shows "amounts db' = (add_to u (- charge x) (balance_of db), frozen_of db, used_of db)"
proof (cases "QuantizeUsageBillingAmount x > 0")
  case True
  then obtain z where "deductUsageBillingBalance u (QuantizeUsageBillingAmount x) db = Inr (z, db')"
    using assms(1) by (auto simp: when_tx_Inr then_tx_Inr)
  from amounts_deduct [OF this assms(2)] True show ?thesis by (simp add: charge_pos)
qed (use assms in \<open>simp add: when_tx_def charge_pos amounts_def\<close>)

lemma amounts_when_key_quota:
  assumes "when_tx (QuantizeUsageBillingAmount x > 0) False
      (incrementUsageBillingAPIKeyQuota k (QuantizeUsageBillingAmount x)) db = Inr (y, db')"
    "amounts_on_scale db"
  shows "amounts db' = (balance_of db, frozen_of db, add_to k (charge x) (used_of db))"
proof (cases "QuantizeUsageBillingAmount x > 0")
  case True
  then have "incrementUsageBillingAPIKeyQuota k (QuantizeUsageBillingAmount x) db = Inr (y, db')"
    using assms(1) by (simp add: when_tx_Inr)
  from amounts_key_quota [OF this assms(2)] True show ?thesis by (simp add: charge_pos)
qed (use assms in \<open>simp add: when_tx_def charge_pos amounts_def\<close>)

lemma amounts_effects:
  assumes "applyUsageBillingEffects e (usage_Normalize e c) db = Inr (r, db')" "amounts_on_scale db"
  shows "amounts db' = (add_to (uc_UserID c) (- charge (uc_BalanceCost c)) (balance_of db), frozen_of db,
           add_to (uc_APIKeyID c) (charge (uc_APIKeyQuotaCost c)) (used_of db))"
proof -
  let ?c = "usage_Normalize e c"
  obtain x1 db1 x2 db2 x3 db3 x4 db4 x5 where
    1: "when_tx (uc_SubscriptionCost ?c > 0 \<and> uc_SubscriptionID ?c \<noteq> None) ()
       (incrementUsageBillingSubscription (the (uc_SubscriptionID ?c)) (uc_SubscriptionCost ?c)) db = Inr (x1, db1)" and
    2: "when_tx (uc_BalanceCost ?c > 0) None
       (then_tx (deductUsageBillingBalance (uc_UserID ?c) (uc_BalanceCost ?c)) (\<lambda>r db. Inr (Some r, db))) db1 = Inr (x2, db2)" and
    3: "when_tx (uc_APIKeyQuotaCost ?c > 0) False
       (incrementUsageBillingAPIKeyQuota (uc_APIKeyID ?c) (uc_APIKeyQuotaCost ?c)) db2 = Inr (x3, db3)" and
    4: "when_tx (uc_APIKeyRateLimitCost ?c > 0) ()
       (incrementUsageBillingAPIKeyRateLimit e (uc_APIKeyID ?c) (uc_APIKeyRateLimitCost ?c)) db3 = Inr (x4, db4)" and
    5: "when_tx (uc_AccountQuotaCost ?c > 0 \<and> quota_account_type (uc_AccountType ?c)) None
       (then_tx (incrementUsageBillingAccountQuota e (uc_AccountID ?c) (uc_AccountQuotaCost ?c))
          (\<lambda>st db. Inr (Some st, db))) db4 = Inr (x5, db')"
    using assms(1) unfolding applyUsageBillingEffects_def by (auto simp only: then_tx_Inr sum.inject prod.inject)
  have a1: "amounts db1 = amounts db" using 1 amounts_subscription by (auto simp: when_tx_Inr split: if_splits)
  have s1: "amounts_on_scale db1" using assms(2) amounts_on_scale_cong [OF a1] by simp
  note a2 = amounts_when_deduct [OF 2 [simplified] s1]
  have s2: "amounts_on_scale db2" by (subst amounts_on_scale_pair [OF a2])
      (use s1 in \<open>simp add: amounts_on_scale_def add_to_on_scale on_scale8_uminus\<close>)
  note a3 = amounts_when_key_quota [OF 3 [simplified] s2]
  have a4: "amounts db4 = amounts db3" using 4 amounts_key_rate by (auto simp: when_tx_Inr split: if_splits)
  have a5: "amounts db' = amounts db4" using 5 amounts_account_quota
    by (auto simp: when_tx_Inr then_tx_Inr split: if_splits)
  show ?thesis using a1 a2 a3 a4 a5 by (simp add: amounts_def)
qed

definition frozen_sound :: "billing_db \<Rightarrow> bool" where
  "frozen_sound db \<longleftrightarrow> (\<forall>u f. frozen_of db u = Some f \<longrightarrow> 0 \<le> f)"

definition moved_by :: "int \<Rightarrow> rat \<Rightarrow> rat \<Rightarrow> bool \<Rightarrow> billing_db \<Rightarrow> billing_db \<Rightarrow> bool" where
  "moved_by u b f moved db db' \<longleftrightarrow>
     amounts db' = (if moved then (add_to u b (balance_of db), add_to u f (frozen_of db), used_of db) else amounts db) \<and>
     (frozen_sound db \<longrightarrow> frozen_sound db')"

lemma moved_by_same: "moved_by u b f False db db"
  by (simp add: moved_by_def)

lemma moved_by_move_frozen:
  assumes "move_frozen u cond b f err db = Inr (s, db')" "amounts_on_scale db" "on_scale8 b" "on_scale8 f"
    "\<And>v. cond v \<Longrightarrow> 0 \<le> bu_frozen v \<Longrightarrow> 0 \<le> bu_frozen v + f"
  shows "moved_by u b f (hr_NewBalance s \<noteq> None) db db'"
proof -
  note a = amounts_move_frozen [OF assms(1-4)]
  then obtain v where v: "live_user db u = Some v" "cond v" by blast
  have "frozen_of db' = add_to u f (frozen_of db)" using a by (simp add: amounts_def)
  moreover have "frozen_of db u = Some (bu_frozen v)" using v by (simp add: frozen_of_def)
  ultimately show ?thesis using a assms(5) [OF v(2)]
    by (auto simp: moved_by_def frozen_sound_def add_to_def)
qed

lemma moved_by_unchanged: "s = hold_unchanged True \<Longrightarrow> db' = db \<Longrightarrow> moved_by u b f (hr_NewBalance s \<noteq> None) db db'"
  by (simp add: moved_by_same hold_unchanged_def)

lemma moved_by_reserve:
  assumes "reserveUsageBillingBatchImageBalance h db = Inr (s, db')" "amounts_on_scale db" "on_scale8 (hc_HoldAmount h)"
  shows "moved_by (hc_UserID h) (- hc_HoldAmount h) (hc_HoldAmount h) (hr_NewBalance s \<noteq> None) db db'"
proof (cases "hc_HoldAmount h \<le> 0")
  case False
  then have "move_frozen (hc_UserID h) (\<lambda>u. bu_balance u \<ge> hc_HoldAmount h) (- hc_HoldAmount h) (hc_HoldAmount h)
      ErrBatchImageInsufficientBalance db = Inr (s, db')"
    using assms(1) by (simp add: reserveUsageBillingBatchImageBalance_def)
  from moved_by_move_frozen [OF this assms(2) on_scale8_uminus [OF assms(3)] assms(3)] False show ?thesis by simp
qed (use assms(1) in \<open>simp add: reserveUsageBillingBatchImageBalance_def moved_by_unchanged del: not_None_eq\<close>)

lemma moved_by_release:
  assumes "releaseUsageBillingBatchImageBalance h db = Inr (s, db')" "amounts_on_scale db" "on_scale8 (hc_HoldAmount h)"
  shows "moved_by (hc_UserID h) (hc_HoldAmount h) (- hc_HoldAmount h) (hr_NewBalance s \<noteq> None) db db'"
proof (cases "hc_HoldAmount h \<le> 0 \<or> \<not> claimed db (BatchImageHoldRequestID (hc_BatchID h), hc_APIKeyID h)")
  case False
  then have "move_frozen (hc_UserID h) (\<lambda>u. bu_frozen u \<ge> hc_HoldAmount h) (hc_HoldAmount h) (- hc_HoldAmount h)
      FrozenInsufficient db = Inr (s, db')"
    using assms(1) by (simp add: release_eq release_known_def)
  from moved_by_move_frozen [OF this assms(2,3) on_scale8_uminus [OF assms(3)]] show ?thesis by simp
qed (use assms(1) in \<open>simp add: release_eq release_known_def moved_by_unchanged del: not_None_eq\<close>)

lemma moved_by_capture:
  assumes "captureUsageBillingBatchImageBalance h db = Inr (s, db')" "amounts_on_scale db" "on_scale8 (hc_HoldAmount h)"
    "on_scale8 (hc_ActualAmount h)"
  shows "moved_by (hc_UserID h) (hc_HoldAmount h - hc_ActualAmount h) (- hc_HoldAmount h) (hr_NewBalance s \<noteq> None) db db'"
proof (cases "hc_HoldAmount h \<le> 0 \<and> hc_ActualAmount h \<le> 0")
  case False
  have e: "(if h > a then h - a else 0) - (if a > h then a - h else 0) = h - a" for h a :: rat by simp
  have "move_frozen (hc_UserID h) (\<lambda>u. bu_frozen u \<ge> hc_HoldAmount h) (hc_HoldAmount h - hc_ActualAmount h)
      (- hc_HoldAmount h) FrozenInsufficient db = Inr (s, db')"
    using assms(1) False unfolding captureUsageBillingBatchImageBalance_def Let_def e by (simp split: if_splits)
  from moved_by_move_frozen [OF this assms(2) on_scale8_diff [OF assms(3,4)] on_scale8_uminus [OF assms(3)]]
  show ?thesis by simp
qed (use assms(1) in \<open>simp add: captureUsageBillingBatchImageBalance_def moved_by_unchanged del: not_None_eq\<close>)

text \<open>One entry of a log accounts for the difference of the tables.\<close>

definition changed_by :: "(int \<Rightarrow> rat) \<Rightarrow> (int \<Rightarrow> rat) \<Rightarrow> (int \<Rightarrow> rat) \<Rightarrow> billing_db \<Rightarrow> billing_db \<Rightarrow> bool" where
  "changed_by b f k db db' \<longleftrightarrow>
     (\<forall>u. balance_of db' u = map_option (\<lambda>x. x + b u) (balance_of db u)) \<and>
     (\<forall>u. frozen_of db' u = map_option (\<lambda>x. x + f u) (frozen_of db u)) \<and>
     (\<forall>i. used_of db' i = map_option (\<lambda>x. x + k i) (used_of db i)) \<and>
     amounts_on_scale db' \<and> (frozen_sound db \<longrightarrow> frozen_sound db')"

abbreviation entry_accounts :: "billing_op \<times> billing_outcome \<Rightarrow> billing_db \<Rightarrow> billing_db \<Rightarrow> bool" where
  "entry_accounts en \<equiv> changed_by (\<lambda>u. balance_change u en) (\<lambda>u. frozen_change u en) (\<lambda>k. used_change k en)"

lemma changed_by_same:
  "amounts db' = amounts db \<Longrightarrow> amounts_on_scale db \<Longrightarrow> changed_by (\<lambda>_. 0) (\<lambda>_. 0) (\<lambda>_. 0) db db'"
  by (auto simp: changed_by_def amounts_def frozen_sound_def amounts_on_scale_def option.map_ident)

lemma changed_by_add:
  assumes "amounts db' = (add_to u b (balance_of db), add_to v f (frozen_of db), add_to i k (used_of db))"
    "amounts_on_scale db" "on_scale8 b" "on_scale8 f" "on_scale8 k" "frozen_sound db \<Longrightarrow> frozen_sound db'"
  shows "changed_by (\<lambda>x. if x = u then b else 0) (\<lambda>x. if x = v then f else 0) (\<lambda>x. if x = i then k else 0) db db'"
  using assms unfolding changed_by_def amounts_on_scale_pair [OF assms(1)]
  by (auto simp: amounts_def add_to_def amounts_on_scale_def add_to_on_scale [unfolded add_to_def] option.map_ident)

lemma changed_by_trans:
  assumes "changed_by b f k db db1" "changed_by b' f' k' db1 db2"
  shows "changed_by (\<lambda>u. b u + b' u) (\<lambda>u. f u + f' u) (\<lambda>i. k i + k' i) db db2"
  using assms by (simp add: changed_by_def option.map_comp comp_def add.assoc)

lemma moved_accounts:
  assumes "moved_by u b f moved db db'" "amounts_on_scale db" "on_scale8 b" "on_scale8 f"
  shows "changed_by (\<lambda>x. if moved \<and> x = u then b else 0) (\<lambda>x. if moved \<and> x = u then f else 0) (\<lambda>_. 0) db db'"
proof (cases moved)
  case True
  then have a: "amounts db' = (add_to u b (balance_of db), add_to u f (frozen_of db), add_to u 0 (used_of db))"
    and s: "frozen_sound db \<Longrightarrow> frozen_sound db'"
    using assms(1) by (simp_all add: moved_by_def)
  from changed_by_add [OF a assms(2,3,4) on_scale8_0 s] True show ?thesis by (simp cong: if_cong)
next
  case False
  then show ?thesis using assms(1,2) changed_by_same by (simp add: moved_by_def)
qed

lemma hold_accounts:
  assumes "hold_outcome db (applyBatchImageBalanceHold run e h db) = (out, db')" "hold_change run"
    "\<And>s. run (hold_Normalize e h) (add_claim (trim_space (hc_RequestID h), hc_APIKeyID h)
         (hc_RequestFingerprint (hold_Normalize e h)) db) = Inr (s, db') \<Longrightarrow>
       moved_by (hc_UserID h) b f (hr_NewBalance s \<noteq> None) (add_claim (trim_space (hc_RequestID h), hc_APIKeyID h)
         (hc_RequestFingerprint (hold_Normalize e h)) db) db'"
    "amounts_on_scale db" "on_scale8 b" "on_scale8 f"
  shows "changed_by (\<lambda>x. if out = Took True \<and> x = hc_UserID h then b else 0)
           (\<lambda>x. if out = Took True \<and> x = hc_UserID h then f else 0) (\<lambda>_. 0) db db'"
  using assms(1,2)
proof (cases rule: hold_outcome_cases)
  case (took s)
  have a: "amounts (add_claim (trim_space (hc_RequestID h), hc_APIKeyID h)
      (hc_RequestFingerprint (hold_Normalize e h)) db) = amounts db" by simp
  have "moved_by (hc_UserID h) b f (hr_NewBalance s \<noteq> None) db db'"
    using assms(3) [OF took(3)] a by (auto simp: moved_by_def amounts_def frozen_sound_def)
  from moved_accounts [OF this assms(4-6)] show ?thesis using took(1) by simp
qed (use assms(4) changed_by_same in simp_all)

lemma entry_accounts_op:
  assumes "bill_op e op db = (out, db')" "amounts_on_scale db" "op_on_scale op"
  shows "entry_accounts (op, out) db db'"
proof (cases op)
  case (Bills c)
  from assms(1) [unfolded Bills] show ?thesis
  proof (cases rule: bill_cases)
    case (took r)
    let ?db = "add_claim (trim_space (uc_RequestID c), uc_APIKeyID c) (uc_RequestFingerprint (usage_Normalize e c)) db"
    have e: "amounts ?db = amounts db" by simp
    have a: "amounts db' = (add_to (uc_UserID c) (- charge (uc_BalanceCost c)) (balance_of db),
        add_to 0 0 (frozen_of db), add_to (uc_APIKeyID c) (charge (uc_APIKeyQuotaCost c)) (used_of db))"
      using amounts_effects [OF took(3)] assms(2) e by (simp add: amounts_on_scale_def amounts_def)
    then have "frozen_sound db \<Longrightarrow> frozen_sound db'" by (simp add: frozen_sound_def amounts_def)
    from changed_by_add [OF a assms(2) _ _ _ this] took(1) show ?thesis
      by (simp add: Bills on_scale8_uminus eq_commute cong: if_cong)
  qed (use assms(2) changed_by_same Bills in simp_all)
next
  case (Reserves h)
  have "changed_by (\<lambda>x. if out = Took True \<and> x = hc_UserID h then - hc_HoldAmount h else 0)
      (\<lambda>x. if out = Took True \<and> x = hc_UserID h then hc_HoldAmount h else 0) (\<lambda>_. 0) db db'"
    using assms(2,3) Reserves moved_by_reserve [of "hold_Normalize e h"] amounts_on_scale_cong [OF amounts_add_claim]
    by (intro hold_accounts [OF hold_cases(1) [OF assms(1) [unfolded Reserves]] hold_changes(1)]) auto
  then show ?thesis by (simp add: Reserves)
next
  case (Captures h)
  have "changed_by (\<lambda>x. if out = Took True \<and> x = hc_UserID h then hc_HoldAmount h - hc_ActualAmount h else 0)
      (\<lambda>x. if out = Took True \<and> x = hc_UserID h then - hc_HoldAmount h else 0) (\<lambda>_. 0) db db'"
    using assms(2,3) Captures moved_by_capture [of "hold_Normalize e h"] amounts_on_scale_cong [OF amounts_add_claim]
    by (intro hold_accounts [OF hold_cases(2) [OF assms(1) [unfolded Captures]] hold_changes(2)]) auto
  then show ?thesis by (simp add: Captures)
next
  case (Releases h)
  have "changed_by (\<lambda>x. if out = Took True \<and> x = hc_UserID h then hc_HoldAmount h else 0)
      (\<lambda>x. if out = Took True \<and> x = hc_UserID h then - hc_HoldAmount h else 0) (\<lambda>_. 0) db db'"
    using assms(2,3) Releases moved_by_release [of "hold_Normalize e h"] amounts_on_scale_cong [OF amounts_add_claim]
    by (intro hold_accounts [OF hold_cases(3) [OF assms(1) [unfolded Releases]] hold_changes(3)]) auto
  then show ?thesis by (simp add: Releases)
next
  case (Credits u x)
  show ?thesis
  proof (cases "live_user db u")
    case None
    then have d: "db' = db" "balance_of db u = None" using assms(1) Credits by (simp_all add: credit_user_def balance_of_def)
    show ?thesis using changed_by_same [OF refl assms(2)] d(2) unfolding d(1) Credits changed_by_def by simp
  next
    case (Some v)
    have "numeric8 (bu_balance v + x) = bu_balance v + x"
      using on_scale_user [OF assms(2) Some] assms(3) Credits by (simp add: on_scale8_add)
    then have a: "amounts db' = (add_to u x (balance_of db), add_to 0 0 (frozen_of db), add_to 0 0 (used_of db))"
      using assms(1) Credits Some by (auto simp: credit_user_def amounts_defs add_to_def fun_eq_iff option.map_ident)
    then have "frozen_sound db \<Longrightarrow> frozen_sound db'" by (simp add: frozen_sound_def amounts_def)
    from changed_by_add [OF a assms(2) _ _ _ this] assms(3) Credits show ?thesis by (simp cong: if_cong)
  qed
next
  case (Cleans t v)
  then show ?thesis using assms changed_by_same [OF amounts_cong] by (auto simp: live_user_def live_key_def CleanupUsageBillingDedup_def Let_def fun_eq_iff)
next
  case (Passes d)
  then show ?thesis using assms changed_by_same [OF amounts_cong] by (auto simp: live_user_def live_key_def fun_eq_iff)
qed

definition total :: "('a \<Rightarrow> rat) \<Rightarrow> 'a list \<Rightarrow> rat" where
  "total f xs = sum_list (map f xs)"

lemma bill_ops_accounts:
  "bill_ops e ops db = (hist, db') \<Longrightarrow> amounts_on_scale db \<Longrightarrow> \<forall>op\<in>set ops. op_on_scale op \<Longrightarrow>
   changed_by (\<lambda>u. total (balance_change u) hist) (\<lambda>u. total (frozen_change u) hist)
     (\<lambda>k. total (used_change k) hist) db db'"
proof (induction ops arbitrary: db hist)
  case Nil
  then show ?case using changed_by_same [OF refl Nil.prems(2)] by (simp add: total_def)
next
  case (Cons op ops)
  obtain out db1 where o: "bill_op e op db = (out, db1)" by fastforce
  obtain rest where r: "bill_ops e ops db1 = (rest, db')" "hist = (op, out) # rest"
    using Cons.prems o by (auto split: prod.splits)
  have a: "entry_accounts (op, out) db db1" using entry_accounts_op [OF o] Cons.prems by simp
  then have "amounts_on_scale db1" by (simp add: changed_by_def)
  from changed_by_trans [OF a Cons.IH [OF r(1) this]] Cons.prems(3) show ?case by (simp add: r(2) total_def)
qed

section \<open>Properties\<close>

lemma repeated_command:
  assumes "known_as db (trim_space (uc_RequestID c), uc_APIKeyID c) = Some fp" "trim_space (uc_RequestID c) \<noteq> ''''"
  shows "bill_op e (Bills c) db =
    (if trim_space fp = trim_space (uc_RequestFingerprint (usage_Normalize e c)) then Repeated
     else Rejected ErrUsageBillingRequestConflict, db)"
  using assms by (simp add: usage_Apply_eq under_claim_eq not_applied_def Let_def)

lemma claimed_repeats:
  assumes "claimed db (trim_space (uc_RequestID c), uc_APIKeyID c)" "trim_space (uc_RequestID c) \<noteq> ''''"
  shows "snd (bill_op e (Bills c) db) = db \<and>
    fst (bill_op e (Bills c) db) \<in> {Repeated, Rejected ErrUsageBillingRequestConflict}"
proof -
  obtain fp where "known_as db (trim_space (uc_RequestID c), uc_APIKeyID c) = Some fp"
    using assms(1) by (auto simp: claimed_known)
  from repeated_command [OF this assms(2)] show ?thesis by simp
qed

text \<open>
  C5: Whatever commands, holds, cleanups and credits are committed in whatever order, a request id of a
  key is charged at most once: no claim is taken twice or again after it was there before, none is ever
  forgotten, also not when the cleanup has moved it to the archive, and a command whose claim is there
  changes nothing and is told that it was applied before, or that it conflicts with what was.
\<close>

theorem usage_charged_once:
  assumes "bill_ops e ops db = (hist, db')"
  shows "distinct (taken hist) \<and> (\<forall>k\<in>set (taken hist). \<not> claimed db k) \<and>
    (\<forall>k. claimed db' k \<longleftrightarrow> claimed db k \<or> k \<in> set (taken hist)) \<and>
    (\<forall>c. trim_space (uc_RequestID c) \<noteq> '''' \<and> claimed db' (trim_space (uc_RequestID c), uc_APIKeyID c) \<longrightarrow>
      snd (bill_op e (Bills c) db') = db' \<and>
      fst (bill_op e (Bills c) db') \<in> {Repeated, Rejected ErrUsageBillingRequestConflict})"
  using bill_ops_claims [OF assms] claimed_repeats by blast

text \<open>
  C15: No amount is rounded away: a balance, its frozen part and the quota used by a key end as they began
  plus the amounts in the log, a cost counted as the nearest amount a column can hold, and never
  further from the cost than half a unit of the last place. So the same cost lowers the balance and
  raises the quota by the same amount. A frozen balance never becomes negative. The amounts of holds
  and credits have to be such that a column can hold them.
\<close>

theorem usage_amounts_exact:
  assumes "bill_ops e ops db = (hist, db')" "amounts_on_scale db" "\<forall>op\<in>set ops. op_on_scale op"
  shows "(\<forall>u. balance_of db' u = map_option (\<lambda>x. x + total (balance_change u) hist) (balance_of db u)) \<and>
    (\<forall>u. frozen_of db' u = map_option (\<lambda>x. x + total (frozen_change u) hist) (frozen_of db u)) \<and>
    (\<forall>k. used_of db' k = map_option (\<lambda>x. x + total (used_change k) hist) (used_of db k)) \<and>
    (frozen_sound db \<longrightarrow> frozen_sound db') \<and>
    (\<forall>x\<ge>0. \<bar>charge x - x\<bar> \<le> 1 / 2 / 10 ^ 8)"
  using bill_ops_accounts [OF assms] charge_nearest unfolding changed_by_def by blast

text \<open>
  C30: Cleaning up is invisible: leaving all cleanups out of a sequence gives the same answers, and
  tables that differ only in where a claim is kept.
\<close>

theorem usage_cleanup_invisible:
  assumes "bill_ops e ops db = (hist, db')" "claims_disjoint db"
  shows "\<exists>b. bill_ops e (filter (\<lambda>op. \<not> is_cleanup op) ops) db = (without_cleanups hist, b) \<and> same_ledger db' b"
  using bill_ops_ledgerwise [OF assms(1) _ assms(2), of db] by (auto simp: same_ledger_def)

lemma Quantize_0 [simp]: "QuantizeUsageBillingAmount 0 = 0"
  by (simp add: QuantizeUsageBillingAmount_def)

lemma usage_Normalize_costs [simp]:
  "uc_SubscriptionCost (usage_Normalize e c) = QuantizeUsageBillingAmount (uc_SubscriptionCost c)"
  "uc_APIKeyRateLimitCost (usage_Normalize e c) = QuantizeUsageBillingAmount (uc_APIKeyRateLimitCost c)"
  "uc_AccountQuotaCost (usage_Normalize e c) = QuantizeUsageBillingAmount (uc_AccountQuotaCost c)"
  "uc_SubscriptionID (usage_Normalize e c) = uc_SubscriptionID c"
  by (simp_all add: usage_Normalize_def quantizeMonetaryFields_def Let_def)

lemma log_command_costs [simp]:
  "uc_BalanceCost (log_command l c) = uc_BalanceCost c" "uc_SubscriptionCost (log_command l c) = uc_SubscriptionCost c"
  "uc_APIKeyQuotaCost (log_command l c) = uc_APIKeyQuotaCost c"
  "uc_APIKeyRateLimitCost (log_command l c) = uc_APIKeyRateLimitCost c"
  "uc_AccountQuotaCost (log_command l c) = uc_AccountQuotaCost c"
  "uc_UserID (log_command l c) = uc_UserID c" "uc_APIKeyID (log_command l c) = uc_APIKeyID c"
  by (simp_all add: log_command_def split: option.split)

lemma empty_command_costs [simp]:
  "uc_BalanceCost empty_command = 0" "uc_SubscriptionCost empty_command = 0" "uc_APIKeyQuotaCost empty_command = 0"
  "uc_APIKeyRateLimitCost empty_command = 0" "uc_AccountQuotaCost empty_command = 0"
  by (simp_all add: empty_command_def)

text \<open>
  C24: A request is paid in full and once: outside the simple mode the rounded actual cost goes to the
  subscription or to the balance of the user, never to both, the quota of the key and its windows are
  raised by all of it or not at all, and in the simple mode nothing but the windows of the key changes.
\<close>

theorem billing_command_in_full:
  assumes "buildUsageBillingCommand e rid l p = Some c" "pb_Cost p = Some cost" "0 \<le> cb_ActualCost cost"
  shows "(\<not> pb_SimpleModeKeyRateLimitOnly p \<longrightarrow>
      uc_BalanceCost c + uc_SubscriptionCost c = QuantizeUsageBillingAmount (cb_ActualCost cost)) \<and>
    (uc_BalanceCost c = 0 \<or> uc_SubscriptionCost c = 0) \<and>
    uc_APIKeyQuotaCost c \<in> {0, QuantizeUsageBillingAmount (cb_ActualCost cost)} \<and>
    uc_APIKeyRateLimitCost c \<in> {0, QuantizeUsageBillingAmount (cb_ActualCost cost)} \<and>
    (pb_SimpleModeKeyRateLimitOnly p \<longrightarrow> uc_BalanceCost c = 0 \<and> uc_SubscriptionCost c = 0 \<and>
      uc_APIKeyQuotaCost c = 0 \<and> uc_AccountQuotaCost c = 0) \<and>
    (pb_IsSubscriptionBill p \<and> pb_Subscription p \<noteq> None \<and> cb_TotalCost cost > 0 \<and> \<not> pb_SimpleModeKeyRateLimitOnly p \<longrightarrow>
      uc_SubscriptionID c = pb_Subscription p \<and> uc_BalanceCost c = 0)"
proof -
  obtain user key account where p: "pb_User p = Some user" "pb_APIKey p = Some key" "pb_Account p = Some account"
    using assms(1,2) by (simp add: buildUsageBillingCommand_def split: option.splits)
  show ?thesis
    using assms(1,3) by (cases "pb_SimpleModeKeyRateLimitOnly p") (auto simp: buildUsageBillingCommand_def p assms(2) Let_def)
qed

section \<open>A sample\<close>

text \<open>
  Ten input tokens at 0.00000125 and five output tokens at 0.00001, times 1.25: half a unit of the ninth
  place. The command is sent, its claim archived, and the command sent again.
\<close>

definition sample_billing_env :: billing_env where
  "sample_billing_env = \<lparr>be_sha256 = (\<lambda>s. ''fp''), be_fixed10 = (\<lambda>x. ''n''), be_local = (\<lambda>tz t. t),
     be_instant = (\<lambda>tz t. t), be_server_zone = ''UTC''\<rparr>"

definition sample_billing_db :: billing_db where
  "sample_billing_db = \<lparr>bd_Now = 0,
     bd_users = [1 \<mapsto> \<lparr>bu_balance = 10000, bu_frozen = 0, bu_deleted = False\<rparr>],
     bd_keys = [7 \<mapsto> \<lparr>bk_quota = 5, bk_quota_used = 0, bk_status = StatusAPIKeyActive, bk_usage_5h = 0, bk_usage_1d = 0,
       bk_usage_7d = 0, bk_window_5h_start = None, bk_window_1d_start = None, bk_window_7d_start = None, bk_deleted = False\<rparr>],
     bd_subscriptions = Map.empty, bd_live_groups = {}, bd_accounts = Map.empty, bd_dedup = Map.empty,
     bd_archive = Map.empty, bd_outbox = []\<rparr>"

definition sample_command :: UsageBillingCommand where
  "sample_command = empty_command\<lparr>uc_RequestID := ''r1'', uc_APIKeyID := 7, uc_UserID := 1,
     uc_BalanceCost := 78125 / 10 ^ 9, uc_APIKeyQuotaCost := 78125 / 10 ^ 9\<rparr>"

definition sample_ops :: "billing_op list" where
  "sample_ops = [Bills sample_command, Passes 10, Cleans 5 [(''r1'', 7)], Bills sample_command]"

lemmas usage_code =
  sample_billing_env_def sample_billing_db_def sample_command_def sample_ops_def empty_command_def
  usage_Apply_def usage_Normalize_def Let_def buildUsageBillingFingerprint_def
  quantizeMonetaryFields_def QuantizeUsageBillingAmount_def UsageBillingMonetaryScale_def round_half_away_def
  claimUsageBillingRequest_def not_applied_def applyUsageBillingEffects_def then_tx_def when_tx_def
  deductUsageBillingBalance_def incrementUsageBillingAPIKeyQuota_def live_user_def set_user_def live_key_def
  set_key_def numeric8_def StatusAPIKeyActive_def StatusAPIKeyQuotaExhausted_def
  CleanupUsageBillingDedup_def old_claims_def usageBillingDedupCleanupBatchSize_def

lemma floor_rat_numeral: "\<lfloor>numeral a / numeral b :: rat\<rfloor> = numeral a div numeral b"
  using floor_divide_of_int_eq [of "numeral a" "numeral b", where 'a = rat] by simp

lemma trim_sample: "trim_space ''r1'' = ''r1''"
  by (rule trim_space_solid) (simp add: solid_char_def go_spaces_def)

lemma sample_outcome:
  "fst (bill_ops sample_billing_env sample_ops sample_billing_db) =
     zip sample_ops [Took True, Done, Done, Repeated] \<and>
   balance_of (snd (bill_ops sample_billing_env sample_ops sample_billing_db)) 1 = Some (10000 - 7813 / 10 ^ 8) \<and>
   used_of (snd (bill_ops sample_billing_env sample_ops sample_billing_db)) 7 = Some (7813 / 10 ^ 8)"
  by (simp add: usage_code balance_of_def used_of_def floor_rat_numeral trim_sample)

abbreviation sample_result :: "(billing_op \<times> billing_outcome) list \<times> billing_db" where
  "sample_result \<equiv> bill_ops sample_billing_env sample_ops sample_billing_db"

lemma sample_taken: "taken (fst sample_result) = [(''r1'', 7)]"
  using sample_outcome by (simp add: taken_def sample_ops_def sample_command_def empty_command_def trim_sample)

lemma sample_db_live:
  "live_user sample_billing_db u = (if u = 1 then Some \<lparr>bu_balance = 10000, bu_frozen = 0, bu_deleted = False\<rparr> else None)"
  "map_option bk_quota_used (live_key sample_billing_db k) = (if k = 7 then Some 0 else None)"
  by (simp_all add: live_user_def live_key_def sample_billing_db_def)

lemma sample_on_scale: "amounts_on_scale sample_billing_db" "\<forall>op\<in>set sample_ops. op_on_scale op"
  by (auto simp: amounts_on_scale_def table_on_scale_def balance_of_def frozen_of_def used_of_def sample_db_live
      sample_ops_def on_scale8_def split: if_splits)

text \<open>The request was charged once, and sending it again changes nothing.\<close>

lemma usage_charged_once_witness:
  "claimed (snd sample_result) (''r1'', 7) \<and>
   snd (bill_op sample_billing_env (Bills sample_command) (snd sample_result)) = snd sample_result \<and>
   distinct (taken (fst sample_result))"
proof -
  have c: "trim_space (uc_RequestID sample_command) = ''r1''" "uc_APIKeyID sample_command = 7"
    by (simp_all add: sample_command_def empty_command_def trim_sample)
  note t = usage_charged_once [of sample_billing_env sample_ops sample_billing_db "fst sample_result" "snd sample_result"]
  have k: "claimed (snd sample_result) (''r1'', 7)" using t sample_taken by simp
  have "snd (bill_op sample_billing_env (Bills sample_command) (snd sample_result)) = snd sample_result"
    using t k c by (simp del: bill_op.simps)
  then show ?thesis using t k by simp
qed

lemma usage_amounts_exact_witness:
  "balance_of (snd sample_result) 1 = Some (10000 - charge (78125 / 10 ^ 9)) \<and>
   used_of (snd sample_result) 7 = Some (charge (78125 / 10 ^ 9)) \<and> frozen_sound (snd sample_result)"
proof -
  have c: "sample_ops = [Bills sample_command, Passes 10, Cleans 5 [(''r1'', 7)], Bills sample_command]"
    "uc_UserID sample_command = 1" "uc_APIKeyID sample_command = 7" "uc_BalanceCost sample_command = 78125 / 10 ^ 9"
    "uc_APIKeyQuotaCost sample_command = 78125 / 10 ^ 9"
    by (simp_all add: sample_ops_def sample_command_def empty_command_def)
  have "balance_of sample_billing_db 1 = Some 10000" "used_of sample_billing_db 7 = Some 0" "frozen_sound sample_billing_db"
    by (auto simp: balance_of_def used_of_def frozen_sound_def frozen_of_def sample_db_live split: if_splits)
  then show ?thesis
    using usage_amounts_exact [of sample_billing_env sample_ops sample_billing_db "fst sample_result" "snd sample_result",
        OF prod.collapse [symmetric] sample_on_scale] sample_outcome
    by (simp add: total_def c del: bill_ops.simps)
qed

lemma usage_cleanup_invisible_witness:
  "\<exists>b. bill_ops sample_billing_env [Bills sample_command, Passes 10, Bills sample_command] sample_billing_db =
     (without_cleanups (fst sample_result), b) \<and> same_ledger (snd sample_result) b"
proof -
  have "filter (\<lambda>op. \<not> is_cleanup op) sample_ops = [Bills sample_command, Passes 10, Bills sample_command]"
    by (simp add: sample_ops_def is_cleanup_def)
  moreover have "claims_disjoint sample_billing_db" by (simp add: claims_disjoint_def sample_billing_db_def)
  ultimately show ?thesis
    using usage_cleanup_invisible [of sample_billing_env sample_ops sample_billing_db "fst sample_result" "snd sample_result"]
    by (simp del: bill_ops.simps)
qed

text \<open>A subscriber pays with the subscription, the quota of the key takes the same.\<close>

definition sample_params :: "postUsageBillingParams" where
  "sample_params = \<lparr>pb_Cost = Some \<lparr>cb_TotalCost = 1, cb_ActualCost = 1 / 2\<rparr>, pb_User = Some 1,
     pb_APIKey = Some \<lparr>kl_ID = 7, kl_Quota = 5, kl_RateLimit5h = 0, kl_RateLimit1d = 0, kl_RateLimit7d = 0\<rparr>,
     pb_Account = Some \<lparr>ac_ID = 3, ac_Platform = PlatformAnthropic, ac_Type = AccountTypeOAuth, ac_Extra = Map.empty,
       ac_Concurrency = 1, ac_Priority = 1, ac_LoadFactor = None, ac_Status = AccountStatusActive, ac_LastUsedAt = None,
       ac_ExpiresAt = None, ac_AutoPauseOnExpired = False, ac_Schedulable = True, ac_RateLimitResetAt = None,
       ac_OverloadUntil = None, ac_TempUnschedulableUntil = None, ac_SessionWindowEnd = None, ac_AccountGroups = []\<rparr>,
     pb_HasAnyQuotaLimit = False, pb_Subscription = Some 4, pb_RequestPayloadHash = '''', pb_IsSubscriptionBill = True,
     pb_AccountRateMultiplier = 1, pb_APIKeyService = True, pb_SimpleModeKeyRateLimitOnly = False\<rparr>"

lemma billing_command_in_full_witness:
  "\<exists>c. buildUsageBillingCommand sample_billing_env ''r1'' None sample_params = Some c \<and>
     uc_SubscriptionID c = Some 4 \<and> uc_BalanceCost c = 0 \<and>
     uc_SubscriptionCost c = QuantizeUsageBillingAmount (1 / 2)"
proof -
  obtain c where c: "buildUsageBillingCommand sample_billing_env ''r1'' None sample_params = Some c"
    by (simp add: buildUsageBillingCommand_def sample_params_def Let_def)
  then show ?thesis
    using billing_command_in_full [OF c, of "\<lparr>cb_TotalCost = 1, cb_ActualCost = 1 / 2\<rparr>"]
    by (auto simp: sample_params_def)
qed

section \<open>Holds that go wrong\<close>

definition sample_hold :: "string \<Rightarrow> string \<Rightarrow> rat \<Rightarrow> rat \<Rightarrow> BatchImageBalanceHoldCommand" where
  "sample_hold kind batch hold actual = \<lparr>hc_RequestID = kind @ batch, hc_APIKeyID = 7, hc_RequestFingerprint = '''',
     hc_RequestPayloadHash = '''', hc_UserID = 1, hc_BatchID = batch, hc_HoldAmount = hold, hc_ActualAmount = actual\<rparr>"

abbreviation sample_outcomes :: "billing_op list \<Rightarrow> billing_outcome list" where
  "sample_outcomes ops \<equiv> map snd (fst (bill_ops sample_billing_env ops sample_billing_db))"

abbreviation sample_frozen :: "billing_op list \<Rightarrow> rat option" where
  "sample_frozen ops \<equiv> frozen_of (snd (bill_ops sample_billing_env ops sample_billing_db)) 1"

lemma solid_ids:
  "trim_space ''A'' = ''A''" "trim_space ''B'' = ''B''"
  "trim_space ''batch_image_hold:A'' = ''batch_image_hold:A''"
  "trim_space ''batch_image_hold:B'' = ''batch_image_hold:B''"
  "trim_space ''batch_image_capture:A'' = ''batch_image_capture:A''"
  "trim_space ''batch_image_capture:B'' = ''batch_image_capture:B''"
  "trim_space ''batch_image_release:A'' = ''batch_image_release:A''"
  "trim_space ''fp'' = ''fp''"
  by (rule trim_space_solid, simp add: solid_char_def go_spaces_def)+

lemmas hold_code =
  sample_billing_env_def sample_billing_db_def sample_hold_def hold_outcome_def ReserveBatchImageBalance_def
  CaptureBatchImageBalance_def ReleaseBatchImageBalance_def applyBatchImageBalanceHold_def hold_Normalize_def
  buildBatchImageBalanceHoldFingerprint_def Let_def claimUsageBillingRequest_def hold_unchanged_def
  reserveUsageBillingBatchImageBalance_def captureUsageBillingBatchImageBalance_def
  releaseUsageBillingBatchImageBalance_def batchImageHoldClaimExists_def BatchImageHoldRequestID_def
  BatchImageCaptureRequestID_def BatchImageReleaseRequestID_def batchImageHoldRequestPrefix_def
  batchImageCaptureRequestPrefix_def batchImageReleaseRequestPrefix_def move_frozen_def live_user_def set_user_def
  numeric8_def round_half_away_def floor_rat_numeral frozen_of_def solid_ids

text \<open>
  The amount of a hold is not rounded to the scale of the balance: with more than eight places, less
  may be frozen than the hold says, and then it can be neither captured nor released.
\<close>

lemma unquantized_hold_is_stuck:
  "sample_outcomes
     [Reserves (sample_hold ''batch_image_hold:'' ''A'' (1234567812 / 10 ^ 10) 0),
      Captures (sample_hold ''batch_image_capture:'' ''A'' (1234567812 / 10 ^ 10) (1 / 10)),
      Releases (sample_hold ''batch_image_release:'' ''A'' (1234567812 / 10 ^ 10) 0)] =
     [Took True, Rejected FrozenInsufficient, Rejected FrozenInsufficient]"
  by (simp add: hold_code)

text \<open>A release asks whether the hold was reserved, not whether it was captured: it takes what another batch froze.\<close>

lemma release_after_capture_takes_anothers:
  "sample_outcomes
     [Reserves (sample_hold ''batch_image_hold:'' ''A'' 3 0), Reserves (sample_hold ''batch_image_hold:'' ''B'' 3 0),
      Captures (sample_hold ''batch_image_capture:'' ''A'' 3 3), Releases (sample_hold ''batch_image_release:'' ''A'' 3 0),
      Captures (sample_hold ''batch_image_capture:'' ''B'' 3 3)] =
     [Took True, Took True, Took True, Took True, Rejected FrozenInsufficient]"
  by (simp add: hold_code)

text \<open>A release that finds nothing reserved still takes its claim, and the hold reserved later is never released.\<close>

lemma early_release_strands_hold:
  "sample_outcomes
     [Releases (sample_hold ''batch_image_release:'' ''A'' 3 0), Reserves (sample_hold ''batch_image_hold:'' ''A'' 3 0),
      Releases (sample_hold ''batch_image_release:'' ''A'' 3 0)] = [Took False, Took True, Repeated] \<and>
   sample_frozen
     [Releases (sample_hold ''batch_image_release:'' ''A'' 3 0), Reserves (sample_hold ''batch_image_hold:'' ''A'' 3 0),
      Releases (sample_hold ''batch_image_release:'' ''A'' 3 0)] = Some 3"
  by (simp add: hold_code)

end
