(* ===== verification/Interleaving.thy ===== *)
theory Interleaving
  imports Main
begin

text \<open>
  Programs that run against a shared store, one atomic call at a time. A program is the tree of
  its calls: what the next call does to the store and the rest of the program, for each way the
  call can end. Any number of programs run interleaved; one that is never scheduled again has
  crashed. The locale \<open>rely_guarantee\<close> is the contract under which they may be reasoned about
  one by one: every step of every program keeps an invariant and lets the store evolve in an
  agreed way, and each program relies on the others for just that.
\<close>

text \<open>A call is answered, fails without effect, or takes effect while its answer is lost.\<close>

datatype reply = Answered | Refused | AnswerLost

datatype ('s, 'a) prog =
    Return 'a
  | Atomic "reply \<Rightarrow> 's \<Rightarrow> 's \<times> ('s, 'a) prog"

text \<open>One call of the store; its error is \<^const>\<open>None\<close>.\<close>

definition call :: "('s \<Rightarrow> 's \<times> 'r) \<Rightarrow> ('r option \<Rightarrow> ('s, 'a) prog) \<Rightarrow> ('s, 'a) prog" where
  "call f k = Atomic (\<lambda>r s.
     (case r of
        Answered \<Rightarrow> (fst (f s), k (Some (snd (f s))))
      | Refused \<Rightarrow> (s, k None)
      | AnswerLost \<Rightarrow> (fst (f s), k None)))"

text \<open>A reading that cannot fail, such as the clock.\<close>

definition look :: "('s \<Rightarrow> 'r) \<Rightarrow> ('r \<Rightarrow> ('s, 'a) prog) \<Rightarrow> ('s, 'a) prog" where
  "look f k = Atomic (\<lambda>r s. (s, k (f s)))"

text \<open>Calling a function and going on with its result.\<close>

primrec bindP :: "('s, 'a) prog \<Rightarrow> ('a \<Rightarrow> ('s, 'b) prog) \<Rightarrow> ('s, 'b) prog" where
  "bindP (Return a) k = k a"
| "bindP (Atomic f) k = Atomic (\<lambda>r s. map_prod id (\<lambda>p. bindP p k) (f r s))"

text \<open>Running alone, with every call answered.\<close>

primrec run_alone :: "('s, 'a) prog \<Rightarrow> 's \<Rightarrow> 's \<times> 'a" where
  "run_alone (Return a) = (\<lambda>s. (s, a))"
| "run_alone (Atomic f) = (\<lambda>s. case map_prod id run_alone (f Answered s) of (t, g) \<Rightarrow> g t)"

lemma run_alone_call [simp]:
  "run_alone (call f k) s = run_alone (k (Some (snd (f s)))) (fst (f s))"
  by (simp add: call_def)

lemma run_alone_look [simp]: "run_alone (look f k) s = run_alone (k (f s)) s"
  by (simp add: look_def)

lemma run_alone_bindP [simp]:
  "run_alone (bindP p k) s = run_alone (k (snd (run_alone p s))) (fst (run_alone p s))"
proof (induction p arbitrary: s)
  case (Atomic f)
  obtain t q where f: "f Answered s = (t, q)" by fastforce
  have "q \<in> Basic_BNFs.snds (f Answered s)" using f by (simp add: snds.simps)
  from Atomic [OF rangeI rangeI this] f show ?case by simp
qed simp

text \<open>A call that is made again, up to \<open>n\<close> times, while it is not answered.\<close>

fun sent :: "nat \<Rightarrow> ('s \<Rightarrow> 's \<times> 'r) \<Rightarrow> ('r option \<Rightarrow> ('s, 'a) prog) \<Rightarrow> ('s, 'a) prog" where
  "sent 0 f k = call f k"
| "sent (Suc n) f k = call f (\<lambda>r. case r of None \<Rightarrow> sent n f k | Some _ \<Rightarrow> k r)"

text \<open>A change of the memory of the process itself.\<close>

definition local_step :: "('s \<Rightarrow> 's \<times> 'r) \<Rightarrow> ('r \<Rightarrow> ('s, 'a) prog) \<Rightarrow> ('s, 'a) prog" where
  "local_step f k = Atomic (\<lambda>_ s. (fst (f s), k (snd (f s))))"

lemma run_alone_local_step [simp]:
  "run_alone (local_step f k) s = run_alone (k (snd (f s))) (fst (f s))"
  by (simp add: local_step_def)

lemma run_alone_sent [simp]:
  "run_alone (sent n f k) s = run_alone (k (Some (snd (f s)))) (fst (f s))"
  by (cases n) simp_all

section \<open>Systems of programs\<close>

inductive sys_step ::
  "(('s, 'a) prog \<Rightarrow> bool) \<Rightarrow> 's \<times> ('s, 'a) prog list \<Rightarrow> 's \<times> ('s, 'a) prog list \<Rightarrow> bool"
  for starts :: "('s, 'a) prog \<Rightarrow> bool" where
  spawn: "starts p \<Longrightarrow> sys_step starts (s, ps) (s, p # ps)"
| act: "i < length ps \<Longrightarrow> ps ! i = Atomic f \<Longrightarrow> f r s = (t, q) \<Longrightarrow>
    sys_step starts (s, ps) (t, ps[i := q])"

definition reaches :: "(('s, 'a) prog \<Rightarrow> bool) \<Rightarrow> 's \<Rightarrow> 's \<Rightarrow> bool" where
  "reaches starts s t \<longleftrightarrow> (\<exists>ps. (sys_step starts)\<^sup>*\<^sup>* (s, []) (t, ps))"

lemma reaches_refl: "reaches starts s s"
  by (auto simp: reaches_def)

text \<open>Programs that are there already do not get in the way.\<close>

lemma steps_beside:
  "(sys_step starts)\<^sup>*\<^sup>* (s, qs) (t, qs') \<Longrightarrow> (sys_step starts)\<^sup>*\<^sup>* (s, qs @ ps) (t, qs' @ ps)"
proof (induction "(t, qs')" arbitrary: t qs' rule: rtranclp_induct)
  case (step st)
  obtain u rs where st: "st = (u, rs)" by fastforce
  from step.hyps(2) have "sys_step starts (u, rs @ ps) (t, qs' @ ps)" unfolding st
  proof cases
    case (spawn p)
    then show ?thesis by (simp add: sys_step.spawn)
  next
    case (act i f r q)
    then have "sys_step starts (u, rs @ ps) (t, (rs @ ps)[i := q])"
      using sys_step.act [of i "rs @ ps" f r u t q starts] by (simp add: nth_append)
    with act show ?thesis by (simp add: list_update_append)
  qed
  with step.hyps(3) [OF st] show ?case by simp
qed simp

text \<open>A program may run to its end undisturbed.\<close>

lemma run_alone_steps:
  "(sys_step starts)\<^sup>*\<^sup>* (s, [p]) (fst (run_alone p s), [Return (snd (run_alone p s))])"
proof (induction p arbitrary: s)
  case (Atomic f)
  obtain t q where f: "f Answered s = (t, q)" by fastforce
  have q: "q \<in> Basic_BNFs.snds (f Answered s)" using f by (simp add: snds.simps)
  have "sys_step starts (s, [Atomic f]) (t, [Atomic f][0 := q])"
    using sys_step.act [of 0 "[Atomic f]" f Answered s t q starts] f by simp
  with Atomic.IH [OF rangeI rangeI q, of t] f show ?case
    by (simp add: converse_rtranclp_into_rtranclp)
qed simp

lemma reaches_run_alone:
  assumes "reaches starts s t" "starts p"
  shows "reaches starts s (fst (run_alone p t))"
proof -
  obtain ps where ps: "(sys_step starts)\<^sup>*\<^sup>* (s, []) (t, ps)" using assms(1) by (auto simp: reaches_def)
  have "sys_step starts (t, ps) (t, p # ps)" using assms(2) by (intro sys_step.spawn)
  moreover have "(sys_step starts)\<^sup>*\<^sup>* (t, p # ps)
      (fst (run_alone p t), [Return (snd (run_alone p t))] @ ps)"
    using steps_beside [OF run_alone_steps, of starts t p ps] by simp
  ultimately show ?thesis using ps unfolding reaches_def
    by (meson rtranclp.rtrancl_into_rtrancl rtranclp_trans)
qed

text \<open>The moves of a concrete run: a program starts, or takes a step whose call ends in some way.\<close>

datatype ('s, 'a) move = Start "('s, 'a) prog" | Step nat reply

fun play ::
  "('s, 'a) move list \<Rightarrow> 's \<times> ('s, 'a) prog list \<Rightarrow> ('s \<times> ('s, 'a) prog list) option" where
  "play [] st = Some st"
| "play (Start p # ms) (s, ps) = play ms (s, p # ps)"
| "play (Step i r # ms) (s, ps) =
     (if i < length ps then
        case ps ! i of
          Return _ \<Rightarrow> None
        | Atomic f \<Rightarrow> (case f r s of (t, q) \<Rightarrow> play ms (t, ps[i := q]))
      else None)"

lemma play_steps:
  "play ms st = Some st' \<Longrightarrow> \<forall>p. Start p \<in> set ms \<longrightarrow> starts p \<Longrightarrow> (sys_step starts)\<^sup>*\<^sup>* st st'"
proof (induction ms st rule: play.induct)
  case (2 p ms s ps)
  have "sys_step starts (s, ps) (s, p # ps)" using 2 by (intro sys_step.spawn) simp
  with 2 show ?case by (simp add: converse_rtranclp_into_rtranclp)
next
  case (3 i r ms s ps)
  then obtain f where f: "i < length ps" "ps ! i = Atomic f" by (auto split: if_splits prog.splits)
  obtain t q where tq: "f r s = (t, q)" by fastforce
  have "sys_step starts (s, ps) (t, ps[i := q])" by (rule sys_step.act [OF f tq])
  moreover have "(sys_step starts)\<^sup>*\<^sup>* (t, ps[i := q]) st'"
    using 3 f tq by simp
  ultimately show ?case by (rule converse_rtranclp_into_rtranclp)
qed simp

lemma play_reaches:
  "play ms (s, []) = Some (t, ps) \<Longrightarrow> \<forall>p. Start p \<in> set ms \<longrightarrow> starts p \<Longrightarrow> reaches starts s t"
  unfolding reaches_def using play_steps by blast

section \<open>Reasoning about one program at a time\<close>

text \<open>
  \<open>safe evolves holds Q p s\<close>: from \<open>s\<close>, whatever the others do in between, every step of \<open>p\<close> lets
  the store evolve as agreed and keeps the invariant \<open>holds\<close>, and \<open>Q\<close> holds where it returns.
\<close>

primrec safe ::
  "('s \<Rightarrow> 's \<Rightarrow> bool) \<Rightarrow> ('s \<Rightarrow> bool) \<Rightarrow> ('a \<Rightarrow> 's \<Rightarrow> bool) \<Rightarrow> ('s, 'a) prog \<Rightarrow> 's \<Rightarrow> bool" where
  "safe evolves holds Q (Return a) = Q a"
| "safe evolves holds Q (Atomic f) = (\<lambda>s. \<forall>t r. evolves s t \<longrightarrow> holds t \<longrightarrow>
     (case map_prod id (safe evolves holds Q) (f r t) of
        (u, P) \<Rightarrow> evolves t u \<and> holds u \<and> P u))"

lemma safe_Atomic:
  "safe evolves holds Q (Atomic f) s \<longleftrightarrow>
   (\<forall>t r u q. evolves s t \<longrightarrow> holds t \<longrightarrow> f r t = (u, q) \<longrightarrow>
      evolves t u \<and> holds u \<and> safe evolves holds Q q u)"
  by (simp add: case_prod_beta) (metis fst_conv prod.collapse snd_conv)

declare safe.simps(2) [simp del]

locale rely_guarantee =
  fixes evolves :: "'s \<Rightarrow> 's \<Rightarrow> bool" and holds :: "'s \<Rightarrow> bool"
  assumes evolves_refl: "evolves s s"
    and evolves_trans: "evolves s t \<Longrightarrow> evolves t u \<Longrightarrow> evolves s u"
begin

lemma safe_AtomicI:
  "(\<And>t r u q. evolves s t \<Longrightarrow> holds t \<Longrightarrow> f r t = (u, q) \<Longrightarrow>
      evolves t u \<and> holds u \<and> safe evolves holds Q q u) \<Longrightarrow>
   safe evolves holds Q (Atomic f) s"
  by (simp add: safe_Atomic)

lemma safe_AtomicD:
  "safe evolves holds Q (Atomic f) s \<Longrightarrow> evolves s t \<Longrightarrow> holds t \<Longrightarrow> f r t = (u, q) \<Longrightarrow>
   evolves t u \<and> holds u \<and> safe evolves holds Q q u"
  unfolding safe_Atomic by blast

lemma safe_post_mono:
  "safe evolves holds Q p s \<Longrightarrow> (\<And>a t. Q a t \<Longrightarrow> R a t) \<Longrightarrow> safe evolves holds R p s"
proof (induction p arbitrary: s)
  case (Atomic f)
  show ?case
  proof (rule safe_AtomicI)
    fix t r u q assume t: "evolves s t" "holds t" "f r t = (u, q)"
    have q: "q \<in> Basic_BNFs.snds (f r t)" using t(3) by (simp add: snds.simps)
    show "evolves t u \<and> holds u \<and> safe evolves holds R q u"
      using safe_AtomicD [OF Atomic.prems(1) t] Atomic.IH [OF rangeI rangeI q _ Atomic.prems(2)] by blast
  qed
qed simp

lemma safe_bindP:
  "safe evolves holds Q p s \<Longrightarrow> (\<And>a t. Q a t \<Longrightarrow> safe evolves holds R (k a) t) \<Longrightarrow>
   safe evolves holds R (bindP p k) s"
proof (induction p arbitrary: s)
  case (Atomic f)
  have "safe evolves holds R (Atomic (\<lambda>r s. map_prod id (\<lambda>p. bindP p k) (f r s))) s"
  proof (rule safe_AtomicI)
    fix t r u q assume t: "evolves s t" "holds t" "map_prod id (\<lambda>p. bindP p k) (f r t) = (u, q)"
    obtain q' where f: "f r t = (u, q')" "q = bindP q' k" using t(3) by (cases "f r t") auto
    have q: "q' \<in> Basic_BNFs.snds (f r t)" using f by (simp add: snds.simps)
    show "evolves t u \<and> holds u \<and> safe evolves holds R q u"
      using safe_AtomicD [OF Atomic.prems(1) t(1,2) f(1)] f(2)
        Atomic.IH [OF rangeI rangeI q _ Atomic.prems(2)] by blast
  qed
  then show ?case by simp
qed simp

lemma safe_call:
  assumes "\<And>t. evolves s t \<Longrightarrow> holds t \<Longrightarrow> evolves t (fst (f t)) \<and> holds (fst (f t))"
    "\<And>t. evolves s t \<Longrightarrow> holds t \<Longrightarrow> safe evolves holds Q (k (Some (snd (f t)))) (fst (f t))"
    "\<And>t. evolves s t \<Longrightarrow> holds t \<Longrightarrow> safe evolves holds Q (k None) t"
  shows "safe evolves holds Q (call f k) s"
  unfolding call_def
proof (rule safe_AtomicI)
  fix t r u q assume t: "evolves s t" "holds t" and
    e: "(case r of Answered \<Rightarrow> (fst (f t), k (Some (snd (f t)))) | Refused \<Rightarrow> (t, k None)
         | AnswerLost \<Rightarrow> (fst (f t), k None)) = (u, q)"
  have "evolves s (fst (f t))" using assms(1) [OF t] t(1) evolves_trans by blast
  then show "evolves t u \<and> holds u \<and> safe evolves holds Q q u"
    using e assms(1) [OF t] assms(2,3) [OF t] assms(3) evolves_refl t by (cases r) auto
qed

lemma safe_look:
  "(\<And>t. evolves s t \<Longrightarrow> holds t \<Longrightarrow> safe evolves holds Q (k (f t)) t) \<Longrightarrow>
   safe evolves holds Q (look f k) s"
  unfolding look_def by (rule safe_AtomicI) (auto intro: evolves_refl)

lemma safe_remember:
  "holds s \<Longrightarrow> evolves s0 s \<Longrightarrow> safe evolves holds Q p s \<Longrightarrow>
   safe evolves holds (\<lambda>a t. Q a t \<and> evolves s0 t \<and> holds t) p s"
proof (induction p arbitrary: s)
  case (Atomic f)
  show ?case
  proof (rule safe_AtomicI)
    fix t r u q assume t: "evolves s t" "holds t" "f r t = (u, q)"
    have q: "q \<in> Basic_BNFs.snds (f r t)" using t(3) by (simp add: snds.simps)
    have u: "evolves t u" "holds u" "safe evolves holds Q q u"
      using safe_AtomicD [OF Atomic.prems(3) t] by auto
    have "evolves s0 u" using Atomic.prems(2) t(1) u(1) evolves_trans by blast
    with u Atomic.IH [OF rangeI rangeI q u(2) _ u(3)]
    show "evolves t u \<and> holds u \<and> safe evolves holds (\<lambda>a t. Q a t \<and> evolves s0 t \<and> holds t) q u"
      by blast
  qed
qed simp

text \<open>What follows a function knows its postcondition, the invariant, and what was stable.\<close>

lemma safe_then:
  "holds s \<Longrightarrow> safe evolves holds Q p s \<Longrightarrow>
   (\<And>a t. Q a t \<Longrightarrow> evolves s t \<Longrightarrow> holds t \<Longrightarrow> safe evolves holds R (k a) t) \<Longrightarrow>
   safe evolves holds R (bindP p k) s"
  by (rule safe_bindP [OF safe_remember [OF _ evolves_refl]]) blast+

lemma safe_calls:
  assumes "\<And>t. evolves s t \<Longrightarrow> holds t \<Longrightarrow> evolves t (fst (f t)) \<and> holds (fst (f t))"
    "\<And>t u x. f t = (u, x) \<Longrightarrow> evolves s t \<Longrightarrow> holds t \<Longrightarrow> evolves s u \<Longrightarrow> holds u \<Longrightarrow>
       safe evolves holds Q (k (Some x)) u"
    "\<And>t. evolves s t \<Longrightarrow> holds t \<Longrightarrow> safe evolves holds Q (k None) t"
  shows "safe evolves holds Q (call f k) s"
proof (rule safe_call)
  fix t assume t: "evolves s t" "holds t"
  show "evolves t (fst (f t)) \<and> holds (fst (f t))" by (rule assms(1) [OF t])
  then have "evolves s (fst (f t))" "holds (fst (f t))" using t(1) evolves_trans by blast+
  then show "safe evolves holds Q (k (Some (snd (f t)))) (fst (f t))"
    by (intro assms(2) [OF _ t]) simp_all
  show "safe evolves holds Q (k None) t" by (rule assms(3) [OF t])
qed

text \<open>Without a postcondition, the steps of the others do no harm.\<close>

abbreviation runs_safely :: "('s, 'a) prog \<Rightarrow> 's \<Rightarrow> bool" where
  "runs_safely \<equiv> safe evolves holds (\<lambda>_ _. True)"

lemma runs_safely_stable:
  "runs_safely p s \<Longrightarrow> evolves s t \<Longrightarrow> runs_safely p t"
proof (cases p)
  case (Atomic f)
  assume p: "runs_safely p s" and t: "evolves s t"
  have "runs_safely (Atomic f) t"
  proof (rule safe_AtomicI)
    fix u r v q assume u: "evolves t u" "holds u" "f r u = (v, q)"
    show "evolves u v \<and> holds v \<and> runs_safely q v"
      using p evolves_trans [OF t u(1)] u(2,3) unfolding Atomic by (rule safe_AtomicD)
  qed
  then show ?thesis by (simp add: Atomic)
qed simp

theorem system_safe:
  assumes starts: "\<And>p s. starts p \<Longrightarrow> holds s \<Longrightarrow> runs_safely p s" and init: "holds s0"
    and steps: "(sys_step starts)\<^sup>*\<^sup>* (s0, []) (s, ps)"
  shows "holds s \<and> evolves s0 s \<and> (\<forall>p \<in> set ps. runs_safely p s)"
  using steps
proof (induction "(s, ps)" arbitrary: s ps rule: rtranclp_induct)
  case base
  then show ?case using init evolves_refl by simp
next
  case (step st)
  obtain t qs where st: "st = (t, qs)" by fastforce
  have IH: "holds t" "evolves s0 t" "\<forall>p \<in> set qs. runs_safely p t" using step.hyps(3) [OF st] by auto
  from step.hyps(2) show ?case unfolding st
  proof cases
    case (spawn p)
    with IH starts show ?thesis by auto
  next
    case (act i f r q)
    have "runs_safely (Atomic f) t" using IH(3) act by (metis nth_mem)
    then have u: "evolves t s \<and> holds s \<and> runs_safely q s"
      using IH(1) evolves_refl [of t] act(4) unfolding safe_Atomic by blast
    have "runs_safely p s" if "p \<in> set ps" for p
      using that u IH(3) runs_safely_stable set_update_subset_insert [of qs i q] act(1) by blast
    with u IH(2) evolves_trans show ?thesis by blast
  qed
qed

corollary reaches_safe:
  assumes "\<And>p s. starts p \<Longrightarrow> holds s \<Longrightarrow> runs_safely p s" "holds s0" "reaches starts s0 s"
  shows "holds s \<and> evolves s0 s"
  using system_safe [OF assms(1,2)] assms(3) by (auto simp: reaches_def)

end

end
