(* ===== verification/OwnedPrograms.thy ===== *)
theory OwnedPrograms
  imports Interleaving
begin

text \<open>
  Interleaved programs that own parts of the store. Every program runs under an identity; what it
  relies on from the others and what it guarantees to them may depend on it, so that a program
  knows that nobody else touches what is its own. The locale \<open>team\<close> is the contract: what one
  identity guarantees is what every other identity relies on.
\<close>

section \<open>Teams of programs\<close>

inductive team_step ::
  "('i \<Rightarrow> ('s, 'a) prog \<Rightarrow> bool) \<Rightarrow> 's \<times> ('i \<rightharpoonup> ('s, 'a) prog) \<Rightarrow> 's \<times> ('i \<rightharpoonup> ('s, 'a) prog) \<Rightarrow> bool"
  for starts :: "'i \<Rightarrow> ('s, 'a) prog \<Rightarrow> bool" where
  join: "ps i = None \<Longrightarrow> starts i p \<Longrightarrow> team_step starts (s, ps) (s, ps(i \<mapsto> p))"
| move: "ps i = Some (Atomic f) \<Longrightarrow> f r s = (t, q) \<Longrightarrow> team_step starts (s, ps) (t, ps(i \<mapsto> q))"

definition team_reaches :: "('i \<Rightarrow> ('s, 'a) prog \<Rightarrow> bool) \<Rightarrow> 's \<Rightarrow> 's \<Rightarrow> bool" where
  "team_reaches starts s t \<longleftrightarrow> (\<exists>ps. (team_step starts)\<^sup>*\<^sup>* (s, Map.empty) (t, ps))"

text \<open>What one program does while nobody else is scheduled and every call is answered.\<close>

definition solo_step :: "'s \<times> ('s, 'a) prog \<Rightarrow> 's \<times> ('s, 'a) prog \<Rightarrow> bool" where
  "solo_step x y \<longleftrightarrow> (\<exists>f. snd x = Atomic f \<and> y = f Answered (fst x))"

abbreviation solo :: "'s \<times> ('s, 'a) prog \<Rightarrow> 's \<times> ('s, 'a) prog \<Rightarrow> bool" where
  "solo \<equiv> solo_step\<^sup>*\<^sup>*"

lemma solo_one: "f Answered s = y \<Longrightarrow> solo (s, Atomic f) y"
  by (intro r_into_rtranclp) (auto simp: solo_step_def)

lemma solo_local_step: "solo (s, local_step f k) (fst (f s), k (snd (f s)))"
  unfolding local_step_def by (rule solo_one) simp

lemma solo_run: "solo (s, p) (fst (run_alone p s), Return (snd (run_alone p s)))"
proof (induction p arbitrary: s)
  case (Atomic f)
  obtain t q where f: "f Answered s = (t, q)" by fastforce
  have q: "q \<in> Basic_BNFs.snds (f Answered s)" using f by (simp add: snds.simps)
  have "solo_step (s, Atomic f) (t, q)" using f by (simp add: solo_step_def)
  with Atomic.IH [OF rangeI rangeI q, of t] f show ?case by (simp add: converse_rtranclp_into_rtranclp)
qed simp

lemma solo_bindP: "solo (s, p) (t, q) \<Longrightarrow> solo (s, bindP p k) (t, bindP q k)"
proof (induction "(s, p)" arbitrary: s p rule: converse_rtranclp_induct)
  case (step y)
  obtain u r where y: "y = (u, r)" by fastforce
  have "solo_step (s, bindP p k) (u, bindP r k)"
    using step.hyps(1) by (auto simp: solo_step_def y) (metis map_prod_simp id_apply)
  with step.hyps(3) [OF y] show ?case by (simp add: converse_rtranclp_into_rtranclp)
qed simp

lemma solo_prefix: "run_alone p s = (t, a) \<Longrightarrow> k a = q \<Longrightarrow> solo (s, bindP p k) (t, q)"
  using solo_bindP [OF solo_run [of s p], of k] by simp

lemma solo_team:
  "solo (s, p) (t, q) \<Longrightarrow> ps i = Some p \<Longrightarrow> (team_step starts)\<^sup>*\<^sup>* (s, ps) (t, ps(i \<mapsto> q))"
proof (induction "(s, p)" arbitrary: s p ps rule: converse_rtranclp_induct)
  case base
  then have "ps(i \<mapsto> q) = ps" by (simp add: fun_upd_idem)
  then show ?case by simp
next
  case (step y)
  obtain u r where y: "y = (u, r)" by fastforce
  obtain f where f: "p = Atomic f" "f Answered s = (u, r)" using step.hyps(1) y by (auto simp: solo_step_def)
  have "team_step starts (s, ps) (u, ps(i \<mapsto> r))" 
    by (rule team_step.move [where f = f and r = Answered]) (use step.prems f in simp_all)
  moreover have "(team_step starts)\<^sup>*\<^sup>* (u, ps(i \<mapsto> r)) (t, (ps(i \<mapsto> r))(i \<mapsto> q))"
    by (rule step.hyps(3) [OF y]) simp
  ultimately show ?case by (simp add: converse_rtranclp_into_rtranclp)
qed

text \<open>A program joins and runs on alone up to some point.\<close>

lemma join_solo:
  assumes "(team_step starts)\<^sup>*\<^sup>* (s0, Map.empty) (s, ps)" "ps i = None" "starts i p" "solo (s, p) (t, q)"
  shows "(team_step starts)\<^sup>*\<^sup>* (s0, Map.empty) (t, ps(i \<mapsto> q))"
proof -
  have "team_step starts (s, ps) (s, ps(i \<mapsto> p))" by (rule team_step.join) (use assms in simp_all)
  moreover have "(team_step starts)\<^sup>*\<^sup>* (s, ps(i \<mapsto> p)) (t, (ps(i \<mapsto> p))(i \<mapsto> q))"
    by (rule solo_team [OF assms(4)]) simp
  ultimately show ?thesis using assms(1) by (simp add: rtranclp.rtrancl_into_rtrancl)
qed

section \<open>Reasoning about one program of a team\<close>

text \<open>
  \<open>guarded rely guar holds Q p s\<close>: from \<open>s\<close>, while the others change the store only as \<open>rely\<close>
  allows, every step of \<open>p\<close> is one \<open>guar\<close> allows and keeps the invariant \<open>holds\<close>, and \<open>Q\<close> holds
  where it returns.
\<close>

primrec guarded ::
  "('s \<Rightarrow> 's \<Rightarrow> bool) \<Rightarrow> ('s \<Rightarrow> 's \<Rightarrow> bool) \<Rightarrow> ('s \<Rightarrow> bool) \<Rightarrow> ('a \<Rightarrow> 's \<Rightarrow> bool) \<Rightarrow> ('s, 'a) prog \<Rightarrow> 's \<Rightarrow> bool"
where
  "guarded rely guar holds Q (Return a) = Q a"
| "guarded rely guar holds Q (Atomic f) = (\<lambda>s. \<forall>t r. rely s t \<longrightarrow> holds t \<longrightarrow>
     (case map_prod id (guarded rely guar holds Q) (f r t) of
        (u, P) \<Rightarrow> guar t u \<and> holds u \<and> P u))"

lemma guarded_Atomic:
  "guarded rely guar holds Q (Atomic f) s \<longleftrightarrow>
   (\<forall>t r u q. rely s t \<longrightarrow> holds t \<longrightarrow> f r t = (u, q) \<longrightarrow>
      guar t u \<and> holds u \<and> guarded rely guar holds Q q u)"
  by (simp add: case_prod_beta) (metis fst_conv prod.collapse snd_conv)

declare guarded.simps(2) [simp del]

locale team =
  fixes rely guar :: "'i \<Rightarrow> 's \<Rightarrow> 's \<Rightarrow> bool" and holds :: "'s \<Rightarrow> bool" and idle :: "'i \<Rightarrow> 's \<Rightarrow> bool"
  assumes rely_refl: "rely i s s"
    and rely_trans: "rely i s t \<Longrightarrow> rely i t u \<Longrightarrow> rely i s u"
    and guar_rely: "i \<noteq> j \<Longrightarrow> guar i s t \<Longrightarrow> rely j s t"
    and idle_rely: "idle i s \<Longrightarrow> rely i s t \<Longrightarrow> idle i t"
begin

abbreviation acts :: "'i \<Rightarrow> ('a \<Rightarrow> 's \<Rightarrow> bool) \<Rightarrow> ('s, 'a) prog \<Rightarrow> 's \<Rightarrow> bool" where
  "acts i \<equiv> guarded (rely i) (guar i) holds"

lemma acts_AtomicI:
  "(\<And>t r u q. rely i s t \<Longrightarrow> holds t \<Longrightarrow> f r t = (u, q) \<Longrightarrow> guar i t u \<and> holds u \<and> acts i Q q u) \<Longrightarrow>
   acts i Q (Atomic f) s"
  by (simp add: guarded_Atomic)

lemma acts_AtomicD:
  "acts i Q (Atomic f) s \<Longrightarrow> rely i s t \<Longrightarrow> holds t \<Longrightarrow> f r t = (u, q) \<Longrightarrow>
   guar i t u \<and> holds u \<and> acts i Q q u"
  unfolding guarded_Atomic by blast

lemma acts_mono: "acts i Q p s \<Longrightarrow> (\<And>a t. Q a t \<Longrightarrow> R a t) \<Longrightarrow> acts i R p s"
proof (induction p arbitrary: s)
  case (Atomic f)
  show ?case
  proof (rule acts_AtomicI)
    fix t r u q assume t: "rely i s t" "holds t" "f r t = (u, q)"
    have q: "q \<in> Basic_BNFs.snds (f r t)" using t(3) by (simp add: snds.simps)
    show "guar i t u \<and> holds u \<and> acts i R q u"
      using acts_AtomicD [OF Atomic.prems(1) t] Atomic.IH [OF rangeI rangeI q _ Atomic.prems(2)] by blast
  qed
qed simp

lemma acts_bindP:
  "acts i Q p s \<Longrightarrow> (\<And>a t. Q a t \<Longrightarrow> acts i R (k a) t) \<Longrightarrow> acts i R (bindP p k) s"
proof (induction p arbitrary: s)
  case (Atomic f)
  have "acts i R (Atomic (\<lambda>r s. map_prod id (\<lambda>p. bindP p k) (f r s))) s"
  proof (rule acts_AtomicI)
    fix t r u q assume t: "rely i s t" "holds t" "map_prod id (\<lambda>p. bindP p k) (f r t) = (u, q)"
    obtain q' where f: "f r t = (u, q')" "q = bindP q' k" using t(3) by (cases "f r t") auto
    have q: "q' \<in> Basic_BNFs.snds (f r t)" using f by (simp add: snds.simps)
    show "guar i t u \<and> holds u \<and> acts i R q u"
      using acts_AtomicD [OF Atomic.prems(1) t(1,2) f(1)] f(2)
        Atomic.IH [OF rangeI rangeI q _ Atomic.prems(2)] by blast
  qed
  then show ?case by simp
qed simp

lemma acts_look:
  "(\<And>t. rely i s t \<Longrightarrow> holds t \<Longrightarrow> guar i t t \<and> acts i Q (k (f t)) t) \<Longrightarrow> acts i Q (look f k) s"
  unfolding look_def by (rule acts_AtomicI) auto

lemma acts_local_step:
  "(\<And>t. rely i s t \<Longrightarrow> holds t \<Longrightarrow>
      guar i t (fst (f t)) \<and> holds (fst (f t)) \<and> acts i Q (k (snd (f t))) (fst (f t))) \<Longrightarrow>
   acts i Q (local_step f k) s"
  unfolding local_step_def by (rule acts_AtomicI) auto

text \<open>A call that may be repeated: \<open>P\<close> is what is known around it, whether it took effect or not.\<close>

lemma acts_sent:
  assumes P: "P s" and stable: "\<And>s t. P s \<Longrightarrow> rely i s t \<Longrightarrow> P t"
    and step: "\<And>t. P t \<Longrightarrow> holds t \<Longrightarrow> guar i t (fst (f t)) \<and> holds (fst (f t)) \<and> P (fst (f t))"
    and refl: "\<And>t. guar i t t"
    and some: "\<And>t. P t \<Longrightarrow> holds t \<Longrightarrow> acts i Q (k (Some (snd (f t)))) (fst (f t))"
    and none: "\<And>t. P t \<Longrightarrow> holds t \<Longrightarrow> acts i Q (k None) t"
  shows "acts i Q (sent n f k) s"
  using P
proof (induction n arbitrary: s)
  case 0
  show ?case unfolding sent.simps call_def
  proof (rule acts_AtomicI)
    fix t r u q assume t: "rely i s t" "holds t" and
      e: "(case r of Answered \<Rightarrow> (fst (f t), k (Some (snd (f t)))) | Refused \<Rightarrow> (t, k None)
           | AnswerLost \<Rightarrow> (fst (f t), k None)) = (u, q)"
    have Pt: "P t" by (rule stable [OF 0 t(1)])
    show "guar i t u \<and> holds u \<and> acts i Q q u"
      using e step [OF Pt t(2)] some [OF Pt t(2)] none [OF Pt t(2)] none [of "fst (f t)"] refl t(2)
      by (cases r) auto
  qed
next
  case (Suc n)
  show ?case unfolding sent.simps call_def
  proof (rule acts_AtomicI)
    fix t r u q assume t: "rely i s t" "holds t" and
      e: "(case r of Answered \<Rightarrow> (fst (f t), case Some (snd (f t)) of None \<Rightarrow> sent n f k | Some x \<Rightarrow> k (Some (snd (f t))))
           | Refused \<Rightarrow> (t, case None of None \<Rightarrow> sent n f k | Some x \<Rightarrow> k None)
           | AnswerLost \<Rightarrow> (fst (f t), case None of None \<Rightarrow> sent n f k | Some x \<Rightarrow> k None)) = (u, q)"
    have Pt: "P t" by (rule stable [OF Suc.prems t(1)])
    show "guar i t u \<and> holds u \<and> acts i Q q u"
      using e step [OF Pt t(2)] some [OF Pt t(2)] Suc.IH [OF Pt] Suc.IH [of "fst (f t)"] refl t(2)
      by (cases r) auto
  qed
qed

text \<open>Without a postcondition, the steps of the others do no harm.\<close>

abbreviation behaves :: "'i \<Rightarrow> ('s, 'a) prog \<Rightarrow> 's \<Rightarrow> bool" where
  "behaves i \<equiv> acts i (\<lambda>_ _. True)"

lemma behaves_stable: "behaves i p s \<Longrightarrow> rely i s t \<Longrightarrow> behaves i p t"
proof (cases p)
  case (Atomic f)
  assume p: "behaves i p s" and t: "rely i s t"
  have "behaves i (Atomic f) t"
  proof (rule acts_AtomicI)
    fix u r v q assume u: "rely i t u" "holds u" "f r u = (v, q)"
    show "guar i u v \<and> holds v \<and> behaves i q v"
      using p rely_trans [OF t u(1)] u(2,3) unfolding Atomic by (rule acts_AtomicD)
  qed
  then show ?thesis by (simp add: Atomic)
qed simp

theorem team_safe:
  assumes starts: "\<And>i p s. starts i p \<Longrightarrow> idle i s \<Longrightarrow> holds s \<Longrightarrow> behaves i p s"
    and init: "holds s0" "\<And>i. idle i s0"
    and steps: "(team_step starts)\<^sup>*\<^sup>* (s0, Map.empty) (s, ps)"
  shows "holds s \<and> (\<forall>i. case ps i of None \<Rightarrow> idle i s | Some p \<Rightarrow> behaves i p s)"
  using steps
proof (induction "(s, ps)" arbitrary: s ps rule: rtranclp_induct)
  case base
  then show ?case using init by simp
next
  case (step st)
  obtain t qs where st: "st = (t, qs)" by fastforce
  have IH: "holds t" "\<And>i. case qs i of None \<Rightarrow> idle i t | Some p \<Rightarrow> behaves i p t"
    using step.hyps(3) [OF st] by auto
  from step.hyps(2) show ?case unfolding st
  proof cases
    case (join i p)
    have "behaves i p t" using starts join(4) IH(1) IH(2) [of i] join(3) by simp
    with join IH show ?thesis by auto
  next
    case (move i f r q)
    have "behaves i (Atomic f) t" using IH(2) [of i] move by simp
    then have u: "guar i t s \<and> holds s \<and> behaves i q s"
      using IH(1) rely_refl [of i t] move(3) unfolding guarded_Atomic by blast
    have "case ps j of None \<Rightarrow> idle j s | Some p \<Rightarrow> behaves j p s" for j
    proof (cases "j = i")
      case True
      with u move show ?thesis by simp
    next
      case False
      have "rely j t s" using guar_rely [of i j] u False by auto
      with IH(2) [of j] show ?thesis using move(1) False behaves_stable idle_rely
        by (auto split: option.splits)
    qed
    with u show ?thesis by blast
  qed
qed

corollary team_reaches_holds:
  assumes "\<And>i p s. starts i p \<Longrightarrow> idle i s \<Longrightarrow> holds s \<Longrightarrow> behaves i p s"
    "holds s0" "\<And>i. idle i s0" "team_reaches starts s0 s"
  shows "holds s"
  using team_safe [OF assms(1-3)] assms(4) by (auto simp: team_reaches_def)

end

end
