(* ===== verification/BatchImageJobs.thy ===== *)
theory BatchImageJobs
  imports UsageLedger OwnedPrograms
begin

text \<open>
  Batch image jobs and the money held for them (\<^verbatim>\<open>backend/internal/service/batch_image.go\<close>,
  \<^verbatim>\<open>batch_image_public.go\<close>, \<^verbatim>\<open>batch_image_processor.go\<close>, \<^verbatim>\<open>batch_image_settlement.go\<close>,
  \<^verbatim>\<open>batch_image_billing_hold.go\<close>, \<^verbatim>\<open>batch_image_billing_recovery.go\<close> and \<^verbatim>\<open>backend/internal/repository/batch_image_repo.go\<close>):
  the states of a job, its rows, and the programs that submit, cancel, process, settle and recover it,
  each a sequence of calls of the database that may fail or lose their answer. What an image provider
  answers, what the indexer finds in its output and what a model costs are arguments. The queue is
  left out: a worker may be given any batch at any time, but works on it only under the lock of the
  batch. A lock runs out only when its worker has died.
\<close>

section \<open>Jobs\<close>

datatype batch_status =
    BatchCreated | BatchUploading | BatchSubmitted | BatchRunning | BatchIndexing | BatchSettling
  | BatchCompleted | BatchFailed | BatchCancelled | BatchOutputDeleted

definition IsTerminalBatchImageJobStatus :: "batch_status \<Rightarrow> bool" where
  "IsTerminalBatchImageJobStatus st \<longleftrightarrow> st \<in> {BatchCompleted, BatchFailed, BatchCancelled, BatchOutputDeleted}"

fun allowed_transitions :: "batch_status \<Rightarrow> batch_status list" where
  "allowed_transitions BatchCreated = [BatchUploading, BatchSubmitted, BatchCancelled]"
| "allowed_transitions BatchUploading = [BatchSubmitted, BatchCancelled]"
| "allowed_transitions BatchSubmitted = [BatchRunning, BatchIndexing, BatchFailed, BatchCancelled]"
| "allowed_transitions BatchRunning = [BatchRunning, BatchIndexing, BatchFailed, BatchCancelled]"
| "allowed_transitions BatchIndexing = [BatchSettling, BatchFailed]"
| "allowed_transitions BatchSettling = [BatchCompleted]"
| "allowed_transitions _ = []"

definition CanTransitionBatchImageJob :: "batch_status \<Rightarrow> batch_status \<Rightarrow> bool" where
  "CanTransitionBatchImageJob st st' \<longleftrightarrow>
     (if IsTerminalBatchImageJobStatus st then st' = BatchOutputDeleted \<and> st \<noteq> BatchOutputDeleted
      else st' = BatchFailed \<or> st' \<in> set (allowed_transitions st))"

definition isBatchImageProcessorDoneStatus :: "batch_status \<Rightarrow> bool" where
  "isBatchImageProcessorDoneStatus st \<longleftrightarrow> st = BatchSettling \<or> IsTerminalBatchImageJobStatus st"

record BatchImageJob =
  bj_BatchID :: string
  bj_UserID :: int
  bj_APIKeyID :: "int option"
  bj_AccountID :: "int option"
  bj_Provider :: string
  bj_Model :: string
  bj_Status :: batch_status
  bj_ProviderJobName :: "string option"
  bj_ProviderOutputRef :: "string option"
  bj_ItemCount :: int
  bj_SuccessCount :: int
  bj_FailCount :: int
  bj_EstimatedCost :: rat
  bj_HoldAmount :: "rat option"
  bj_ActualCost :: "rat option"
  bj_BillableUnitPrice :: rat
  bj_PricingSnapshotVersion :: int
  bj_RequestHash :: "string option"
  bj_ManifestHash :: "string option"
  bj_RetryCount :: int
  bj_LastErrorCode :: "string option"
  bj_UserDeleted :: bool
  bj_UpdatedAt :: go_time

text \<open>
  The rows of the jobs beside the billing tables, the tokens under which batches are locked, and who
  created a job, which no program reads.
\<close>

record batch_store =
  bt_db :: billing_db
  bt_jobs :: "string \<rightharpoonup> BatchImageJob"
  bt_Locks :: "string \<rightharpoonup> nat"
  bt_Creator :: "string \<rightharpoonup> nat"

definition batchImageDerefString :: "string option \<Rightarrow> string" where
  "batchImageDerefString v = (case v of None \<Rightarrow> '''' | Some s \<Rightarrow> trim_space s)"

definition batch_now :: "batch_store \<Rightarrow> go_time" where
  "batch_now s = bd_Now (bt_db s)"

definition put_job :: "string \<Rightarrow> BatchImageJob \<Rightarrow> batch_store \<Rightarrow> batch_store" where
  "put_job b j s = s\<lparr>bt_jobs := (bt_jobs s)(b \<mapsto> j)\<rparr>"

section \<open>Statements on the rows\<close>

datatype batch_error = ErrBatchImageJobNotFound | ErrBatchImageInvalidTransition | ErrBatchImageIndexStateConflict
  | ErrBatchImageSettlement

text \<open>The amounts of a job are stored with ten places.\<close>

definition CreateBatchImageJob :: "nat \<Rightarrow> BatchImageJob \<Rightarrow> batch_store \<Rightarrow> batch_store \<times> BatchImageJob option" where
  "CreateBatchImageJob i j s =
     (if bt_jobs s (bj_BatchID j) \<noteq> None then (s, None)
      else
        let j' = j\<lparr>bj_EstimatedCost := numeric10 (bj_EstimatedCost j), bj_HoldAmount := map_option numeric10 (bj_HoldAmount j),
                   bj_BillableUnitPrice := numeric10 (bj_BillableUnitPrice j), bj_UpdatedAt := batch_now s\<rparr>
        in (s\<lparr>bt_jobs := (bt_jobs s)(bj_BatchID j \<mapsto> j'), bt_Creator := (bt_Creator s)(bj_BatchID j \<mapsto> i)\<rparr>, Some j'))"

definition GetBatchImageJobByBatchID :: "string \<Rightarrow> batch_store \<Rightarrow> batch_store \<times> BatchImageJob option" where
  "GetBatchImageJobByBatchID b s = (s, bt_jobs s b)"

definition GetBatchImageJobByBatchIDForOwner ::
  "int \<Rightarrow> int \<Rightarrow> string \<Rightarrow> batch_store \<Rightarrow> batch_store \<times> BatchImageJob option" where
  "GetBatchImageJobByBatchIDForOwner userID apiKeyID b s =
     (s, case bt_jobs s b of None \<Rightarrow> None
         | Some j \<Rightarrow> if bj_UserID j = userID \<and> bj_APIKeyID j = Some apiKeyID \<and> \<not> bj_UserDeleted j then Some j else None)"

text \<open>A row that is there is changed.\<close>

definition update_job ::
  "string \<Rightarrow> (BatchImageJob \<Rightarrow> batch_error + BatchImageJob \<times> 'r) \<Rightarrow> batch_store \<Rightarrow> batch_store \<times> (batch_error + 'r)"
where
  "update_job b f s =
     (case bt_jobs s b of
        None \<Rightarrow> (s, Inl ErrBatchImageJobNotFound)
      | Some j \<Rightarrow> (case f j of Inl err \<Rightarrow> (s, Inl err) | Inr (j', r) \<Rightarrow> (put_job b j' s, Inr r)))"

definition TransitionBatchImageJobStatus ::
  "string \<Rightarrow> batch_status \<Rightarrow> string option \<Rightarrow> batch_store \<Rightarrow> batch_store \<times> (batch_error + unit)" where
  "TransitionBatchImageJobStatus b toStatus errorCode s = update_job b (\<lambda>j.
     if \<not> CanTransitionBatchImageJob (bj_Status j) toStatus then Inl ErrBatchImageInvalidTransition
     else Inr (j\<lparr>bj_Status := toStatus, bj_UpdatedAt := batch_now s,
                 bj_LastErrorCode := (if toStatus = BatchFailed then errorCode else bj_LastErrorCode j)\<rparr>, ())) s"

definition TouchBatchImageJobSubmitting :: "string \<Rightarrow> batch_store \<Rightarrow> batch_store \<times> (batch_error + unit)" where
  "TouchBatchImageJobSubmitting b s = update_job b (\<lambda>j.
     Inr (if bj_Status j \<in> {BatchCreated, BatchUploading} then j\<lparr>bj_UpdatedAt := batch_now s\<rparr> else j, ())) s"

definition stale_unsubmitted :: "go_time \<Rightarrow> BatchImageJob \<Rightarrow> bool" where
  "stale_unsubmitted cutoff j \<longleftrightarrow>
     bj_Status j \<in> {BatchCreated, BatchUploading} \<and> bj_ProviderJobName j = None \<and> bj_UpdatedAt j \<le> cutoff"

definition FailStaleUnsubmittedBatchImageJob ::
  "string \<Rightarrow> go_time \<Rightarrow> string \<Rightarrow> batch_store \<Rightarrow> batch_store \<times> (batch_error + bool)" where
  "FailStaleUnsubmittedBatchImageJob b cutoff code s = update_job b (\<lambda>j.
     if stale_unsubmitted cutoff j
     then Inr (j\<lparr>bj_Status := BatchFailed, bj_LastErrorCode := Some code, bj_UpdatedAt := batch_now s\<rparr>, True)
     else Inr (j, False)) s"

definition UpdateBatchImageJobProviderOutputRef :: "string \<Rightarrow> string \<Rightarrow> batch_store \<Rightarrow> batch_store \<times> (batch_error + unit)" where
  "UpdateBatchImageJobProviderOutputRef b ref s = update_job b (\<lambda>j.
     Inr (j\<lparr>bj_ProviderOutputRef := Some ref, bj_UpdatedAt := batch_now s\<rparr>, ())) s"

definition UpdateBatchImageJobProviderSubmit ::
  "string \<Rightarrow> string \<Rightarrow> string \<Rightarrow> batch_store \<Rightarrow> batch_store \<times> (batch_error + unit)" where
  "UpdateBatchImageJobProviderSubmit b name ref s = update_job b (\<lambda>j.
     if \<not> CanTransitionBatchImageJob (bj_Status j) BatchSubmitted then Inl ErrBatchImageInvalidTransition
     else Inr (j\<lparr>bj_Status := BatchSubmitted, bj_ProviderJobName := Some name,
                 bj_ProviderOutputRef := (if ref = '''' then None else Some ref), bj_UpdatedAt := batch_now s\<rparr>, ())) s"

text \<open>No condition on the status: its caller knows that the provider has not been given the job.\<close>

definition RecordBatchImageJobSubmitFailure ::
  "string \<Rightarrow> string \<Rightarrow> bool \<Rightarrow> batch_store \<Rightarrow> batch_store \<times> (batch_error + unit)" where
  "RecordBatchImageJobSubmitFailure b code markFailed s = update_job b (\<lambda>j.
     Inr (j\<lparr>bj_Status := (if markFailed then BatchFailed else bj_Status j), bj_LastErrorCode := Some code,
            bj_UpdatedAt := batch_now s\<rparr>, ())) s"

definition MarkBatchImageJobSettled ::
  "string \<Rightarrow> rat \<Rightarrow> string \<Rightarrow> batch_store \<Rightarrow> batch_store \<times> (batch_error + unit)" where
  "MarkBatchImageJobSettled b actualCost manifestHash s = update_job b (\<lambda>j.
     if bj_Status j = BatchSettling \<and> (bj_ManifestHash j = None \<or> bj_ManifestHash j = Some '''' \<or> bj_ManifestHash j = Some manifestHash)
     then Inr (j\<lparr>bj_Status := BatchCompleted, bj_ActualCost := Some (numeric10 actualCost), bj_ManifestHash := Some manifestHash,
                 bj_UpdatedAt := batch_now s\<rparr>, ())
     else Inl ErrBatchImageSettlement) s"

definition SetBatchImageJobSettlementFailed :: "string \<Rightarrow> string \<Rightarrow> batch_store \<Rightarrow> batch_store \<times> (batch_error + int)" where
  "SetBatchImageJobSettlementFailed b code s = update_job b (\<lambda>j.
     Inr (j\<lparr>bj_LastErrorCode := Some code, bj_RetryCount := bj_RetryCount j + 1, bj_UpdatedAt := batch_now s\<rparr>,
          bj_RetryCount j + 1)) s"

definition ReplaceBatchImageItemsForJob :: "string \<Rightarrow> int \<Rightarrow> int \<Rightarrow> batch_store \<Rightarrow> batch_store \<times> (batch_error + unit)" where
  "ReplaceBatchImageItemsForJob b successCount failCount s = update_job b (\<lambda>j.
     if bj_Status j \<noteq> BatchIndexing then Inl ErrBatchImageIndexStateConflict
     else Inr (j\<lparr>bj_SuccessCount := successCount, bj_FailCount := failCount, bj_UpdatedAt := batch_now s\<rparr>, ())) s"

definition MarkBatchImageOutputDeleted :: "string \<Rightarrow> batch_store \<Rightarrow> batch_store \<times> (batch_error + unit)" where
  "MarkBatchImageOutputDeleted b s = update_job b (\<lambda>j.
     Inr (j\<lparr>bj_Status := (if bj_Status j = BatchCompleted then BatchOutputDeleted else bj_Status j),
            bj_UpdatedAt := batch_now s\<rparr>, ())) s"

definition RecordBatchImageCleanupFailure :: "string \<Rightarrow> string \<Rightarrow> batch_store \<Rightarrow> batch_store \<times> (batch_error + unit)" where
  "RecordBatchImageCleanupFailure b code s = update_job b (\<lambda>j.
     Inr (j\<lparr>bj_LastErrorCode := Some code, bj_RetryCount := bj_RetryCount j + 1, bj_UpdatedAt := batch_now s\<rparr>, ())) s"

definition MarkBatchImageJobUserDeleted :: "int \<Rightarrow> int \<Rightarrow> string \<Rightarrow> batch_store \<Rightarrow> batch_store \<times> (batch_error + unit)" where
  "MarkBatchImageJobUserDeleted userID apiKeyID b s = update_job b (\<lambda>j.
     if bj_UserID j = userID \<and> bj_APIKeyID j = Some apiKeyID \<and> \<not> bj_UserDeleted j \<and>
        IsTerminalBatchImageJobStatus (bj_Status j)
     then Inr (j\<lparr>bj_UserDeleted := True, bj_UpdatedAt := batch_now s\<rparr>, ()) else Inl ErrBatchImageJobNotFound) s"

section \<open>Locks\<close>

definition TryAcquireJobLock :: "nat \<Rightarrow> string \<Rightarrow> batch_store \<Rightarrow> batch_store \<times> bool" where
  "TryAcquireJobLock i b s =
     (if bt_Locks s b = None then (s\<lparr>bt_Locks := (bt_Locks s)(b \<mapsto> i)\<rparr>, True) else (s, False))"

definition ReleaseJobLock :: "nat \<Rightarrow> string \<Rightarrow> batch_store \<Rightarrow> batch_store" where
  "ReleaseJobLock i b s = (if bt_Locks s b = Some i then s\<lparr>bt_Locks := (bt_Locks s)(b := None)\<rparr> else s)"

end
