(* ===== verification/BatchImagePrograms.thy ===== *)
theory BatchImagePrograms
  imports BatchImageJobs
begin

text \<open>
  The programs that work on batch image jobs and their holds. What they answer to the user or to the
  queue is left out; every call of the database is there.
\<close>

section \<open>Moving the money of a job\<close>

definition on_billing :: "'a transaction \<Rightarrow> batch_store \<Rightarrow> batch_store \<times> (billing_error + 'a)" where
  "on_billing m s = (case m (bt_db s) of Inl err \<Rightarrow> (s, Inl err) | Inr (r, db) \<Rightarrow> (s\<lparr>bt_db := db\<rparr>, Inr r))"

definition held_amount :: "BatchImageJob \<Rightarrow> rat" where
  "held_amount j = (case bj_HoldAmount j of Some h \<Rightarrow> h | None \<Rightarrow> bj_EstimatedCost j)"

definition buildBatchImageHoldCommand ::
  "BatchImageJob \<Rightarrow> string \<Rightarrow> rat \<Rightarrow> string \<Rightarrow> BatchImageBalanceHoldCommand option" where
  "buildBatchImageHoldCommand j requestID actualAmount payloadHash =
     (case bj_APIKeyID j of
        None \<Rightarrow> None
      | Some k \<Rightarrow> if k \<le> 0 then None else
          Some \<lparr>hc_RequestID = requestID, hc_APIKeyID = k, hc_RequestFingerprint = '''',
                hc_RequestPayloadHash = trim_space payloadHash, hc_UserID = bj_UserID j, hc_BatchID = bj_BatchID j,
                hc_HoldAmount = max 0 (held_amount j), hc_ActualAmount = max 0 actualAmount\<rparr>)"

type_synonym batch_prog = "(batch_store, unit) prog"

text \<open>The continuations take the failure to record, and whether all is well.\<close>

definition reserveBatchImageBalanceHold ::
  "billing_env \<Rightarrow> BatchImageJob \<Rightarrow> string \<Rightarrow> (string option \<Rightarrow> batch_prog) \<Rightarrow> batch_prog" where
  "reserveBatchImageBalanceHold e j payloadHash k =
     (case buildBatchImageHoldCommand j (BatchImageHoldRequestID (bj_BatchID j)) 0 payloadHash of
        None \<Rightarrow> k (Some ''BILLING_HOLD_FAILED'')
      | Some cmd \<Rightarrow>
          if hc_HoldAmount cmd \<le> 0 then k None
          else call (on_billing (ReserveBatchImageBalance e cmd)) (\<lambda>r. case r of
                 Some (Inr _) \<Rightarrow> k None
               | Some (Inl ErrBatchImageInsufficientBalance) \<Rightarrow> k (Some ''INSUFFICIENT_BALANCE'')
               | _ \<Rightarrow> k (Some ''BILLING_HOLD_FAILED'')))"

definition captureBatchImageBalanceHold ::
  "billing_env \<Rightarrow> BatchImageJob \<Rightarrow> rat \<Rightarrow> string \<Rightarrow> (bool \<Rightarrow> batch_prog) \<Rightarrow> batch_prog" where
  "captureBatchImageBalanceHold e j actualAmount payloadHash k =
     (case buildBatchImageHoldCommand j (BatchImageCaptureRequestID (bj_BatchID j)) actualAmount payloadHash of
        None \<Rightarrow> k False
      | Some cmd \<Rightarrow> call (on_billing (CaptureBatchImageBalance e cmd)) (\<lambda>r. case r of
            Some (Inr _) \<Rightarrow> k True
          | _ \<Rightarrow> k False))"

text \<open>A conflict says that an earlier release went through.\<close>

definition releaseBatchImageBalanceHold ::
  "billing_env \<Rightarrow> BatchImageJob \<Rightarrow> string \<Rightarrow> (bool \<Rightarrow> batch_prog) \<Rightarrow> batch_prog" where
  "releaseBatchImageBalanceHold e j payloadHash k =
     (case buildBatchImageHoldCommand j (BatchImageReleaseRequestID (bj_BatchID j)) 0 payloadHash of
        None \<Rightarrow> k False
      | Some cmd \<Rightarrow>
          if hc_HoldAmount cmd \<le> 0 then k True
          else call (on_billing (ReleaseBatchImageBalance e cmd)) (\<lambda>r. case r of
                 Some (Inr _) \<Rightarrow> k True
               | Some (Inl ErrUsageBillingRequestConflict) \<Rightarrow> k True
               | _ \<Rightarrow> k False))"

section \<open>Submitting\<close>

text \<open>
  From the insertion of the job on. \<open>items_stored\<close> says whether the items could be stored, \<open>reply\<close> what
  the provider answers to the submission, and \<open>queued\<close> whether the batch could be put into the queue.
\<close>

datatype provider_reply = SubmitFailed string | SubmitUnnamed | SubmitNamed string string

definition record_failure :: "BatchImageJob \<Rightarrow> string \<Rightarrow> batch_prog" where
  "record_failure j code =
     call (RecordBatchImageJobSubmitFailure (bj_BatchID j) code True) (\<lambda>_.
     call (MarkBatchImageJobUserDeleted (bj_UserID j) (case bj_APIKeyID j of Some k \<Rightarrow> k | None \<Rightarrow> 0) (bj_BatchID j)) (\<lambda>_.
     Return ()))"

definition releaseFailedSubmitHold :: "billing_env \<Rightarrow> BatchImageJob \<Rightarrow> string \<Rightarrow> batch_prog \<Rightarrow> batch_prog" where
  "releaseFailedSubmitHold e j requestHash k =
     releaseBatchImageBalanceHold e j requestHash (\<lambda>ok.
       if ok then k
       else call (RecordBatchImageJobSubmitFailure (bj_BatchID j) ''BILLING_RELEASE_FAILED'' True) (\<lambda>_. Return ()))"

definition submit_to_provider :: "billing_env \<Rightarrow> BatchImageJob \<Rightarrow> string \<Rightarrow> provider_reply \<Rightarrow> bool \<Rightarrow> batch_prog" where
  "submit_to_provider e j requestHash reply queued = (case reply of
     SubmitFailed code \<Rightarrow> releaseFailedSubmitHold e j requestHash (record_failure j code)
   | SubmitUnnamed \<Rightarrow> releaseFailedSubmitHold e j requestHash (record_failure j ''PROVIDER_SUBMIT_FAILED'')
   | SubmitNamed name ref \<Rightarrow>
       if trim_space name = '''' then releaseFailedSubmitHold e j requestHash (record_failure j ''PROVIDER_SUBMIT_FAILED'')
       else call (UpdateBatchImageJobProviderSubmit (bj_BatchID j) name ref) (\<lambda>r. case r of
              Some (Inr _) \<Rightarrow>
                if queued then Return ()
                else call (RecordBatchImageJobSubmitFailure (bj_BatchID j) ''QUEUE_FAILED'' False) (\<lambda>_. Return ())
            | _ \<Rightarrow> Return ()))"

definition Submit ::
  "nat \<Rightarrow> billing_env \<Rightarrow> BatchImageJob \<Rightarrow> string \<Rightarrow> bool \<Rightarrow> provider_reply \<Rightarrow> bool \<Rightarrow> batch_prog" where
  "Submit i e j0 requestHash items_stored reply queued =
     call (CreateBatchImageJob i j0) (\<lambda>r. case r of
       Some (Some j) \<Rightarrow>
         reserveBatchImageBalanceHold e j requestHash (\<lambda>failure. case failure of
           Some code \<Rightarrow> record_failure j code
         | None \<Rightarrow>
             if \<not> items_stored then releaseFailedSubmitHold e j requestHash (record_failure j ''ITEM_CREATE_FAILED'')
             else call (TransitionBatchImageJobStatus (bj_BatchID j) BatchUploading None) (\<lambda>r. case r of
                    Some (Inr _) \<Rightarrow> submit_to_provider e j requestHash reply queued
                  | _ \<Rightarrow> releaseFailedSubmitHold e j requestHash
                          (if r = Some (Inl ErrBatchImageInvalidTransition) then Return ()
                           else record_failure j ''UPLOAD_TRANSITION_FAILED'')))
     | _ \<Rightarrow> Return ())"

definition runSubmitHeartbeat :: "string \<Rightarrow> batch_prog" where
  "runSubmitHeartbeat b = call (TouchBatchImageJobSubmitting b) (\<lambda>_. Return ())"

section \<open>Cancelling and recovering\<close>

definition Cancel :: "billing_env \<Rightarrow> int \<Rightarrow> int \<Rightarrow> string \<Rightarrow> batch_prog" where
  "Cancel e userID apiKeyID b =
     call (GetBatchImageJobByBatchIDForOwner userID apiKeyID b) (\<lambda>r. case r of
       Some (Some j) \<Rightarrow>
         if isBatchImageProcessorDoneStatus (bj_Status j) then
           if bj_Status j \<in> {BatchFailed, BatchCancelled}
           then releaseBatchImageBalanceHold e j (batchImageDerefString (bj_RequestHash j)) (\<lambda>_. Return ())
           else Return ()
         else if batchImageDerefString (bj_ProviderJobName j) \<noteq> '''' then Return ()
         else call (TransitionBatchImageJobStatus (bj_BatchID j) BatchCancelled None) (\<lambda>r. case r of
                Some (Inr _) \<Rightarrow> releaseBatchImageBalanceHold e j (batchImageDerefString (bj_RequestHash j)) (\<lambda>_. Return ())
              | _ \<Rightarrow> Return ())
     | _ \<Rightarrow> Return ())"

text \<open>\<open>bs\<close> are the batches in the order of the query.\<close>

definition ListStaleUnsubmittedBatchImageJobs ::
  "go_time \<Rightarrow> string list \<Rightarrow> batch_store \<Rightarrow> batch_store \<times> BatchImageJob list" where
  "ListStaleUnsubmittedBatchImageJobs cutoff bs s =
     (s, filter (\<lambda>j. stale_unsubmitted cutoff j \<and> held_amount j > 0) (List.map_filter (bt_jobs s) bs))"

fun release_stale :: "billing_env \<Rightarrow> go_time \<Rightarrow> BatchImageJob list \<Rightarrow> batch_prog" where
  "release_stale e cutoff [] = Return ()"
| "release_stale e cutoff (j # js) =
     call (FailStaleUnsubmittedBatchImageJob (bj_BatchID j) cutoff ''SUBMIT_STALE_BEFORE_PROVIDER'') (\<lambda>r. case r of
       Some (Inr True) \<Rightarrow>
         releaseBatchImageBalanceHold e j (batchImageDerefString (bj_RequestHash j)) (\<lambda>_. release_stale e cutoff js)
     | _ \<Rightarrow> release_stale e cutoff js)"

definition ReleaseStaleUnsubmittedOnce :: "billing_env \<Rightarrow> go_time \<Rightarrow> string list \<Rightarrow> batch_prog" where
  "ReleaseStaleUnsubmittedOnce e cutoff bs =
     call (ListStaleUnsubmittedBatchImageJobs cutoff bs) (\<lambda>r. case r of
       Some js \<Rightarrow> release_stale e cutoff js
     | None \<Rightarrow> Return ())"

section \<open>Settling\<close>

definition batchImageSettlementMaxRetries :: int where "batchImageSettlementMaxRetries = 5"
definition batchImageCostEpsilon :: rat where "batchImageCostEpsilon = 1 / 10 ^ 8"

fun join_nul :: "string list \<Rightarrow> string" where
  "join_nul [] = ''''"
| "join_nul [x] = x"
| "join_nul (x # xs) = x @ [CHR 0x00] @ join_nul xs"

definition BuildBatchImageSettlementManifestHash :: "billing_env \<Rightarrow> BatchImageJob \<Rightarrow> string" where
  "BuildBatchImageSettlementManifestHash e j = be_sha256 e (join_nul
     [trim_space (bj_BatchID j), trim_space (bj_Provider j), trim_space (bj_Model j),
      batchImageDerefString (bj_ProviderJobName j), batchImageDerefString (bj_ProviderOutputRef j),
      FormatInt10 (bj_SuccessCount j), FormatInt10 (bj_FailCount j), FormatInt10 (bj_ItemCount j)])"

definition isBatchImageSettlementRetryExhausted :: "BatchImageJob \<Rightarrow> bool" where
  "isBatchImageSettlementRetryExhausted j \<longleftrightarrow>
     bj_Status j = BatchSettling \<and> bj_RetryCount j \<ge> batchImageSettlementMaxRetries \<and>
     has_prefix (batchImageDerefString (bj_LastErrorCode j)) ''SETTLEMENT_''"

definition failExhaustedSettlement :: "billing_env \<Rightarrow> BatchImageJob \<Rightarrow> batch_prog" where
  "failExhaustedSettlement e j =
     releaseBatchImageBalanceHold e j (batchImageDerefString (bj_RequestHash j)) (\<lambda>ok.
       if ok
       then call (TransitionBatchImageJobStatus (bj_BatchID j) BatchFailed (Some ''SETTLEMENT_BILLING_RETRY_EXHAUSTED''))
              (\<lambda>_. Return ())
       else call (SetBatchImageJobSettlementFailed (bj_BatchID j) ''SETTLEMENT_RELEASE_FAILED'') (\<lambda>_. Return ()))"

definition recordSettlementFailure :: "billing_env \<Rightarrow> BatchImageJob \<Rightarrow> string \<Rightarrow> batch_prog" where
  "recordSettlementFailure e j code =
     call (SetBatchImageJobSettlementFailed (bj_BatchID j) code) (\<lambda>r. case r of
       Some (Inr retryCount) \<Rightarrow>
         if retryCount \<ge> batchImageSettlementMaxRetries then failExhaustedSettlement e j else Return ()
     | _ \<Rightarrow> Return ())"

text \<open>\<open>price\<close> is what the model costs when the job has no snapshot of its prices.\<close>

definition settlementUnitPrice :: "(BatchImageJob \<Rightarrow> rat option) \<Rightarrow> BatchImageJob \<Rightarrow> rat option" where
  "settlementUnitPrice price j =
     (if bj_PricingSnapshotVersion j \<ge> 1
      then if bj_BillableUnitPrice j < 0 then None else Some (bj_BillableUnitPrice j)
      else case price j of Some p \<Rightarrow> if p < 0 then None else Some p | None \<Rightarrow> None)"

definition no_id :: "int option \<Rightarrow> bool" where
  "no_id v \<longleftrightarrow> (case v of None \<Rightarrow> True | Some i \<Rightarrow> i \<le> 0)"

definition settle_job :: "billing_env \<Rightarrow> (BatchImageJob \<Rightarrow> rat option) \<Rightarrow> BatchImageJob \<Rightarrow> batch_prog" where
  "settle_job e price j =
     (let manifestHash = BuildBatchImageSettlementManifestHash e j;
          known = batchImageDerefString (bj_ManifestHash j) in
      if bj_Status j \<noteq> BatchSettling \<or> no_id (bj_APIKeyID j) \<or> no_id (bj_AccountID j) then Return ()
      else if isBatchImageSettlementRetryExhausted j then failExhaustedSettlement e j
      else if bj_SuccessCount j < 0 \<or> bj_FailCount j < 0 \<or> bj_ItemCount j < 0 \<or>
              bj_SuccessCount j + bj_FailCount j > bj_ItemCount j
      then recordSettlementFailure e j ''SETTLEMENT_INVALID_COUNTS''
      else if known \<noteq> '''' \<and> known \<noteq> manifestHash
      then recordSettlementFailure e j ''SETTLEMENT_MANIFEST_CONFLICT''
      else case settlementUnitPrice price j of
        None \<Rightarrow> recordSettlementFailure e j ''SETTLEMENT_PRICING_MISSING''
      | Some unitPrice \<Rightarrow>
          let actualCost = of_int (bj_SuccessCount j) * unitPrice in
          if actualCost - held_amount j > batchImageCostEpsilon
          then recordSettlementFailure e j ''SETTLEMENT_COST_EXCEEDS_HOLD''
          else captureBatchImageBalanceHold e j actualCost manifestHash (\<lambda>ok.
            if ok then call (MarkBatchImageJobSettled (bj_BatchID j) actualCost manifestHash) (\<lambda>_. Return ())
            else recordSettlementFailure e j ''SETTLEMENT_BILLING_FAILED''))"

definition Settle :: "billing_env \<Rightarrow> (BatchImageJob \<Rightarrow> rat option) \<Rightarrow> string \<Rightarrow> batch_prog" where
  "Settle e price b =
     call (GetBatchImageJobByBatchID b) (\<lambda>r. case r of
       Some (Some j) \<Rightarrow> settle_job e price j
     | _ \<Rightarrow> Return ())"

section \<open>Processing\<close>

text \<open>
  The answer of the provider to a question about its job, the place of its output, and what the
  indexer found there: nothing it could open, something it could not read, or so many good and bad items.
\<close>

datatype provider_answer =
    ProviderUnreachable | ProviderQueued | ProviderRunning | ProviderSucceeded | ProviderFailed string | ProviderCancelled

datatype index_outcome = IndexOutputMissing | IndexFailed string | Indexed int int

record provider_view =
  pv_Answer :: provider_answer
  pv_OutputRef :: string
  pv_Index :: index_outcome

definition releaseTerminalHold :: "billing_env \<Rightarrow> BatchImageJob \<Rightarrow> batch_prog" where
  "releaseTerminalHold e j =
     (if bj_Status j \<noteq> BatchFailed \<and> bj_Status j \<noteq> BatchCancelled then Return ()
      else releaseBatchImageBalanceHold e j (batchImageDerefString (bj_RequestHash j)) (\<lambda>_. Return ()))"

text \<open>A transition to a status without a way back, and the release that follows.\<close>

definition end_job :: "billing_env \<Rightarrow> BatchImageJob \<Rightarrow> batch_status \<Rightarrow> string option \<Rightarrow> batch_prog" where
  "end_job e j toStatus code =
     call (TransitionBatchImageJobStatus (bj_BatchID j) toStatus code) (\<lambda>r. case r of
       Some (Inr _) \<Rightarrow> releaseTerminalHold e (j\<lparr>bj_Status := toStatus\<rparr>)
     | _ \<Rightarrow> Return ())"

definition indexAndSettle :: "billing_env \<Rightarrow> BatchImageJob \<Rightarrow> index_outcome \<Rightarrow> batch_prog" where
  "indexAndSettle e j found = (case found of
     IndexOutputMissing \<Rightarrow> Return ()
   | IndexFailed code \<Rightarrow> end_job e j BatchFailed (Some code)
   | Indexed successCount failCount \<Rightarrow>
       call (ReplaceBatchImageItemsForJob (bj_BatchID j) successCount failCount) (\<lambda>r. case r of
         Some (Inr _) \<Rightarrow> call (TransitionBatchImageJobStatus (bj_BatchID j) BatchSettling None) (\<lambda>_. Return ())
       | Some (Inl ErrBatchImageIndexStateConflict) \<Rightarrow> Return ()
       | _ \<Rightarrow> end_job e j BatchFailed (Some ''INDEX_PARSE_FAILED'')))"

definition persistProviderOutputRef :: "BatchImageJob \<Rightarrow> string \<Rightarrow> (bool \<Rightarrow> batch_prog) \<Rightarrow> batch_prog" where
  "persistProviderOutputRef j ref k =
     (if trim_space ref = '''' \<or> batchImageDerefString (bj_ProviderOutputRef j) = trim_space ref then k True
      else call (UpdateBatchImageJobProviderOutputRef (bj_BatchID j) (trim_space ref)) (\<lambda>r. case r of
             Some (Inr _) \<Rightarrow> k True | _ \<Rightarrow> k False))"

definition process_answer :: "billing_env \<Rightarrow> BatchImageJob \<Rightarrow> provider_view \<Rightarrow> batch_prog" where
  "process_answer e j v = (case pv_Answer v of
     ProviderRunning \<Rightarrow>
       if bj_Status j = BatchRunning then Return ()
       else call (TransitionBatchImageJobStatus (bj_BatchID j) BatchRunning None) (\<lambda>_. Return ())
   | ProviderSucceeded \<Rightarrow>
       call (TransitionBatchImageJobStatus (bj_BatchID j) BatchIndexing None) (\<lambda>r. case r of
         Some (Inr _) \<Rightarrow> indexAndSettle e (j\<lparr>bj_Status := BatchIndexing\<rparr>) (pv_Index v)
       | _ \<Rightarrow> Return ())
   | ProviderFailed code \<Rightarrow> end_job e j BatchFailed (Some code)
   | ProviderCancelled \<Rightarrow> end_job e j BatchCancelled None
   | _ \<Rightarrow> Return ())"

definition process_job :: "billing_env \<Rightarrow> BatchImageJob \<Rightarrow> provider_view \<Rightarrow> batch_prog" where
  "process_job e j v =
     (if isBatchImageProcessorDoneStatus (bj_Status j) then releaseTerminalHold e j
      else if no_id (bj_AccountID j) \<or> batchImageDerefString (bj_ProviderJobName j) = '''' then Return ()
      else if bj_Status j = BatchIndexing then indexAndSettle e j (pv_Index v)
      else if pv_Answer v = ProviderUnreachable then Return ()
      else persistProviderOutputRef j (pv_OutputRef v) (\<lambda>ok. if ok then process_answer e j v else Return ()))"

definition provider_Process :: "billing_env \<Rightarrow> provider_view \<Rightarrow> string \<Rightarrow> batch_prog" where
  "provider_Process e v b =
     call (GetBatchImageJobByBatchID b) (\<lambda>r. case r of
       Some (Some j) \<Rightarrow> process_job e j v
     | _ \<Rightarrow> Return ())"

definition pipeline_Process ::
  "billing_env \<Rightarrow> (BatchImageJob \<Rightarrow> rat option) \<Rightarrow> provider_view \<Rightarrow> string \<Rightarrow> batch_prog" where
  "pipeline_Process e price v b =
     call (GetBatchImageJobByBatchID b) (\<lambda>r. case r of
       Some (Some j) \<Rightarrow> if bj_Status j = BatchSettling then Settle e price b else provider_Process e v b
     | _ \<Rightarrow> Return ())"

text \<open>A process may die before any of its calls; \<open>bury\<close> is what becomes of what it held.\<close>

primrec mortal :: "('s \<Rightarrow> 's) \<Rightarrow> ('s, unit) prog \<Rightarrow> ('s, unit) prog" where
  "mortal bury (Return a) = Return a"
| "mortal bury (Atomic f) = Atomic (\<lambda>r s.
     if r = Refused then (bury s, Return ())
     else (s, Atomic (\<lambda>r s. map_prod id (mortal bury) (f r s))))"

definition worker_RunOnce ::
  "nat \<Rightarrow> billing_env \<Rightarrow> (BatchImageJob \<Rightarrow> rat option) \<Rightarrow> provider_view \<Rightarrow> string \<Rightarrow> batch_prog" where
  "worker_RunOnce i e price v b =
     call (TryAcquireJobLock i b) (\<lambda>r. case r of
       Some True \<Rightarrow> bindP (mortal (ReleaseJobLock i b) (pipeline_Process e price v b))
                      (\<lambda>_. local_step (\<lambda>s. (ReleaseJobLock i b s, ())) (\<lambda>_. Return ()))
     | Some False \<Rightarrow> Return ()
     | None \<Rightarrow> local_step (\<lambda>s. (ReleaseJobLock i b s, ())) (\<lambda>_. Return ()))"

text \<open>The cleanup of outputs, with the code of the failure when the provider does not do it.\<close>

definition CleanupOutput :: "string \<Rightarrow> string option \<Rightarrow> batch_prog" where
  "CleanupOutput b failure =
     call (GetBatchImageJobByBatchID b) (\<lambda>r. case r of
       Some (Some j) \<Rightarrow>
         if bj_Status j \<notin> {BatchCompleted, BatchFailed, BatchCancelled} then Return ()
         else (case failure of
             Some code \<Rightarrow> call (RecordBatchImageCleanupFailure b code) (\<lambda>_. Return ())
           | None \<Rightarrow> call (MarkBatchImageOutputDeleted b) (\<lambda>_. Return ()))
     | _ \<Rightarrow> Return ())"

section \<open>What runs\<close>

text \<open>
  The id of a batch is hexadecimal after a prefix, so it has no white space to trim. Other requests do
  not use the ids of holds.
\<close>

definition batch_id :: "string \<Rightarrow> bool" where
  "batch_id b \<longleftrightarrow> (\<forall>c\<in>set b. solid_char c)"

definition hold_request_id :: "string \<Rightarrow> bool" where
  "hold_request_id r \<longleftrightarrow> has_prefix r batchImageHoldRequestPrefix \<or> has_prefix r batchImageCaptureRequestPrefix \<or>
     has_prefix r batchImageReleaseRequestPrefix"

fun foreign_op :: "billing_op \<Rightarrow> bool" where
  "foreign_op (Bills c) = (\<not> hold_request_id (trim_space (uc_RequestID c)))"
| "foreign_op (Reserves h) = False"
| "foreign_op (Captures h) = False"
| "foreign_op (Releases h) = False"
| "foreign_op _ = True"

definition billing_call :: "billing_env \<Rightarrow> billing_op \<Rightarrow> batch_store \<Rightarrow> batch_store \<times> billing_outcome" where
  "billing_call e op s = (case bill_op e op (bt_db s) of (out, db) \<Rightarrow> (s\<lparr>bt_db := db\<rparr>, out))"

definition new_job :: "BatchImageJob \<Rightarrow> bool" where
  "new_job j \<longleftrightarrow> batch_id (bj_BatchID j) \<and> bj_Status j = BatchCreated \<and> bj_ProviderJobName j = None \<and> bj_RetryCount j = 0"

inductive batch_starts ::
  "billing_env \<Rightarrow> (BatchImageJob \<Rightarrow> rat option) \<Rightarrow> nat \<Rightarrow> batch_prog \<Rightarrow> bool"
  for e :: billing_env and price :: "BatchImageJob \<Rightarrow> rat option" where
  submits: "new_job j \<Longrightarrow> batch_starts e price i (Submit i e j hash items_stored reply queued)"
| beats: "batch_starts e price i (runSubmitHeartbeat b)"
| cancels: "batch_starts e price i (Cancel e userID apiKeyID b)"
| recovers: "batch_starts e price i (ReleaseStaleUnsubmittedOnce e cutoff bs)"
| works: "batch_starts e price i (worker_RunOnce i e price v b)"
| cleans_up: "batch_starts e price i (CleanupOutput b failure)"
| bills: "foreign_op op \<Longrightarrow> batch_starts e price i (call (billing_call e op) (\<lambda>_. Return ()))"

end
