(* ===== verification/AccountOrdering.thy ===== *)
theory AccountOrdering
  imports AccountTypes "HOL-Library.Product_Lexorder" "HOL-Library.Option_ord" "HOL-Library.Multiset"
begin

text \<open>
  The order in which the scheduler tries accounts (\<^verbatim>\<open>backend/internal/service/gateway_scheduling.go\<close>):
  filters that keep the accounts that are minimal in one respect, the choice of the least recently
  used one, and the stable sorts with their shuffles. The draws of \<^verbatim>\<open>math/rand\<close> are arguments:
  \<open>d\<close> gives the \<open>k\<close>-th raw number of a shuffle, and \<open>ds\<close> one such \<open>d\<close> for the shuffle that starts at
  a position. The lemmas show that a shuffle permutes, that a sort with its shuffle still orders
  by the coarse key, and that the filters in sequence choose what is least lexicographically.
\<close>

record AccountLoadInfo =
  li_AccountID :: int
  li_LoadRate :: int

record accountWithLoad =
  al_account :: Account
  al_loadInfo :: AccountLoadInfo

section \<open>Filters\<close>

definition minimum_by :: "('a \<Rightarrow> int) \<Rightarrow> 'a \<Rightarrow> 'a list \<Rightarrow> int" where
  "minimum_by f x xs = foldl (\<lambda>m y. if f y < m then f y else m) (f x) xs"

definition filterByMinPriority :: "accountWithLoad list \<Rightarrow> accountWithLoad list" where
  "filterByMinPriority accounts =
     (case accounts of
        [] \<Rightarrow> []
      | x # xs \<Rightarrow>
          let minPriority = minimum_by (ac_Priority \<circ> al_account) x xs
          in filter (\<lambda>acc. ac_Priority (al_account acc) = minPriority) accounts)"

definition filterByMinLoadRate :: "accountWithLoad list \<Rightarrow> accountWithLoad list" where
  "filterByMinLoadRate accounts =
     (case accounts of
        [] \<Rightarrow> []
      | x # xs \<Rightarrow>
          let minLoadRate = minimum_by (li_LoadRate \<circ> al_loadInfo) x xs
          in filter (\<lambda>acc. li_LoadRate (al_loadInfo acc) = minLoadRate) accounts)"

definition soonest_end :: "go_time \<Rightarrow> accountWithLoad list \<Rightarrow> go_time option" where
  "soonest_end now accounts = foldl (\<lambda>minEnd acc.
     case ac_SessionWindowEnd (al_account acc) of
       None \<Rightarrow> minEnd
     | Some end_ \<Rightarrow>
         if \<not> now < end_ then minEnd
         else case minEnd of None \<Rightarrow> Some end_ | Some m \<Rightarrow> if end_ < m then Some end_ else minEnd)
     None accounts"

definition filterBySoonestReset :: "go_time \<Rightarrow> accountWithLoad list \<Rightarrow> accountWithLoad list" where
  "filterBySoonestReset now accounts =
     (if length accounts \<le> 1 then accounts
      else case soonest_end now accounts of
             None \<Rightarrow> accounts
           | Some minEnd \<Rightarrow>
               filter (\<lambda>acc. case ac_SessionWindowEnd (al_account acc) of
                         None \<Rightarrow> False | Some end_ \<Rightarrow> now < end_ \<and> end_ = minEnd) accounts)"

definition older :: "go_time option \<Rightarrow> Account \<Rightarrow> go_time option" where
  "older minTime a = (case (minTime, ac_LastUsedAt a) of
       (None, t) \<Rightarrow> t
     | (Some m, Some t) \<Rightarrow> if t < m then Some t else minTime
     | (Some m, None) \<Rightarrow> minTime)"

definition least_used :: "Account list \<Rightarrow> go_time option" where
  "least_used accounts = foldl older None accounts"

definition selectByLRU :: "nat \<Rightarrow> accountWithLoad list \<Rightarrow> bool \<Rightarrow> accountWithLoad option" where
  "selectByLRU draw accounts preferOAuth =
     (case accounts of
        [] \<Rightarrow> None
      | [x] \<Rightarrow> Some x
      | _ \<Rightarrow>
          let hasNil = list_ex (\<lambda>acc. ac_LastUsedAt (al_account acc) = None) accounts;
              minTime = least_used (map al_account accounts);
              candidates = filter (\<lambda>acc.
                if hasNil then ac_LastUsedAt (al_account acc) = None
                else ac_LastUsedAt (al_account acc) = minTime) accounts;
              oauth = filter (\<lambda>acc. ac_Type (al_account acc) = AccountTypeOAuth) candidates;
              chosen = (if preferOAuth \<and> oauth \<noteq> [] then oauth else candidates)
          in if length candidates = 1 then Some (candidates ! 0)
             else Some (chosen ! (draw mod length chosen)))"

section \<open>Sorts and shuffles\<close>

text \<open>\<^verbatim>\<open>sort.SliceStable\<close>\<close>

fun insert_by :: "('a \<Rightarrow> 'a \<Rightarrow> bool) \<Rightarrow> 'a \<Rightarrow> 'a list \<Rightarrow> 'a list" where
  "insert_by lt x [] = [x]"
| "insert_by lt x (y # ys) = (if lt y x then y # insert_by lt x ys else x # y # ys)"

definition SliceStable :: "('a \<Rightarrow> 'a \<Rightarrow> bool) \<Rightarrow> 'a list \<Rightarrow> 'a list" where
  "SliceStable lt xs = foldr (insert_by lt) xs []"

text \<open>\<^verbatim>\<open>rand.Shuffle\<close>: from the last place down, each swapped with one not above it.\<close>

definition swap_at :: "nat \<Rightarrow> nat \<Rightarrow> 'a list \<Rightarrow> 'a list" where
  "swap_at i j xs = xs[i := xs ! j, j := xs ! i]"

fun shuffle_down :: "(nat \<Rightarrow> nat) \<Rightarrow> nat \<Rightarrow> 'a list \<Rightarrow> 'a list" where
  "shuffle_down d 0 xs = xs"
| "shuffle_down d (Suc i) xs = shuffle_down d i (swap_at (Suc i) (d (Suc i) mod Suc (Suc i)) xs)"

definition Shuffle :: "(nat \<Rightarrow> nat) \<Rightarrow> 'a list \<Rightarrow> 'a list" where
  "Shuffle d xs = (if length xs > 1 then shuffle_down d (length xs - 1) xs else xs)"

text \<open>Runs of equal neighbours, each rearranged by \<open>f\<close>, which is told where the run starts.\<close>

function within_groups ::
  "('a \<Rightarrow> 'a \<Rightarrow> bool) \<Rightarrow> (nat \<Rightarrow> 'a list \<Rightarrow> 'a list) \<Rightarrow> nat \<Rightarrow> 'a list \<Rightarrow> 'a list" where
  "within_groups same f start [] = []"
| "within_groups same f start (x # xs) =
     f start (x # takeWhile (same x) xs) @
     within_groups same f (start + Suc (length (takeWhile (same x) xs))) (dropWhile (same x) xs)"
  by pat_completeness auto
termination
  by (relation "measure (\<lambda>(_, _, _, xs). length xs)") (auto simp: le_imp_less_Suc length_dropWhile_le)

definition sameLastUsedAt :: "go_time option \<Rightarrow> go_time option \<Rightarrow> bool" where
  "sameLastUsedAt a b =
     (case (a, b) of
        (None, None) \<Rightarrow> True
      | (Some s, Some t) \<Rightarrow> s div second = t div second
      | _ \<Rightarrow> False)"

definition sameAccountGroup :: "Account \<Rightarrow> Account \<Rightarrow> bool" where
  "sameAccountGroup a b =
     (if ac_Priority a \<noteq> ac_Priority b then False
      else sameLastUsedAt (ac_LastUsedAt a) (ac_LastUsedAt b))"

definition sameAccountWithLoadGroup :: "accountWithLoad \<Rightarrow> accountWithLoad \<Rightarrow> bool" where
  "sameAccountWithLoadGroup a b =
     (if ac_Priority (al_account a) \<noteq> ac_Priority (al_account b) then False
      else if li_LoadRate (al_loadInfo a) \<noteq> li_LoadRate (al_loadInfo b) then False
      else sameLastUsedAt (ac_LastUsedAt (al_account a)) (ac_LastUsedAt (al_account b)))"

definition shuffleWithinSortGroups ::
  "(nat \<Rightarrow> nat \<Rightarrow> nat) \<Rightarrow> accountWithLoad list \<Rightarrow> accountWithLoad list" where
  "shuffleWithinSortGroups ds accounts =
     within_groups sameAccountWithLoadGroup (\<lambda>start. Shuffle (ds start)) 0 accounts"

definition shuffle_group :: "bool \<Rightarrow> (nat \<Rightarrow> nat \<Rightarrow> nat) \<Rightarrow> nat \<Rightarrow> Account list \<Rightarrow> Account list" where
  "shuffle_group preferOAuth ds start accounts =
     (if preferOAuth
      then let oauth = filter (\<lambda>acc. ac_Type acc = AccountTypeOAuth) accounts;
               others = filter (\<lambda>acc. ac_Type acc \<noteq> AccountTypeOAuth) accounts
           in Shuffle (ds start) oauth @ Shuffle (ds (start + length oauth)) others
      else Shuffle (ds start) accounts)"

definition shuffleWithinPriorityAndLastUsed ::
  "(nat \<Rightarrow> nat \<Rightarrow> nat) \<Rightarrow> Account list \<Rightarrow> bool \<Rightarrow> Account list" where
  "shuffleWithinPriorityAndLastUsed ds accounts preferOAuth =
     within_groups sameAccountGroup (shuffle_group preferOAuth ds) 0 accounts"

definition less_priority_last_used :: "bool \<Rightarrow> Account \<Rightarrow> Account \<Rightarrow> bool" where
  "less_priority_last_used preferOAuth a b =
     (if ac_Priority a \<noteq> ac_Priority b then ac_Priority a < ac_Priority b
      else case (ac_LastUsedAt a, ac_LastUsedAt b) of
             (None, Some _) \<Rightarrow> True
           | (Some _, None) \<Rightarrow> False
           | (None, None) \<Rightarrow>
               if preferOAuth \<and> ac_Type a \<noteq> ac_Type b then ac_Type a = AccountTypeOAuth else False
           | (Some s, Some t) \<Rightarrow> s < t)"

definition sortAccountsByPriorityAndLastUsed ::
  "(nat \<Rightarrow> nat \<Rightarrow> nat) \<Rightarrow> Account list \<Rightarrow> bool \<Rightarrow> Account list" where
  "sortAccountsByPriorityAndLastUsed ds accounts preferOAuth =
     shuffleWithinPriorityAndLastUsed ds
       (SliceStable (less_priority_last_used preferOAuth) accounts) preferOAuth"

definition less_priority :: "bool \<Rightarrow> Account \<Rightarrow> Account \<Rightarrow> bool" where
  "less_priority preferOAuth a b =
     (if ac_Priority a \<noteq> ac_Priority b then ac_Priority a < ac_Priority b
      else if preferOAuth \<and> ac_Type a \<noteq> ac_Type b then ac_Type a = AccountTypeOAuth
      else False)"

definition sortAccountsByPriorityOnly :: "Account list \<Rightarrow> bool \<Rightarrow> Account list" where
  "sortAccountsByPriorityOnly accounts preferOAuth = SliceStable (less_priority preferOAuth) accounts"

definition shuffleWithinPriority :: "(nat \<Rightarrow> nat \<Rightarrow> nat) \<Rightarrow> Account list \<Rightarrow> Account list" where
  "shuffleWithinPriority ds accounts =
     within_groups (\<lambda>a b. ac_Priority b = ac_Priority a) (\<lambda>start. Shuffle (ds start)) 0 accounts"

definition sortCandidatesForFallback ::
  "(nat \<Rightarrow> nat \<Rightarrow> nat) \<Rightarrow> Account list \<Rightarrow> bool \<Rightarrow> string \<Rightarrow> Account list" where
  "sortCandidatesForFallback ds accounts preferOAuth mode =
     (if mode = ''random''
      then shuffleWithinPriority ds (sortAccountsByPriorityOnly accounts preferOAuth)
      else sortAccountsByPriorityAndLastUsed ds accounts preferOAuth)"

text \<open>The comparison of the routed accounts.\<close>

definition less_load_aware :: "accountWithLoad \<Rightarrow> accountWithLoad \<Rightarrow> bool" where
  "less_load_aware a b =
     (if ac_Priority (al_account a) \<noteq> ac_Priority (al_account b)
      then ac_Priority (al_account a) < ac_Priority (al_account b)
      else if li_LoadRate (al_loadInfo a) \<noteq> li_LoadRate (al_loadInfo b)
      then li_LoadRate (al_loadInfo a) < li_LoadRate (al_loadInfo b)
      else case (ac_LastUsedAt (al_account a), ac_LastUsedAt (al_account b)) of
             (None, Some _) \<Rightarrow> True
           | (Some _, None) \<Rightarrow> False
           | (None, None) \<Rightarrow> False
           | (Some s, Some t) \<Rightarrow> s < t)"

section \<open>What the filters keep\<close>

lemma foldl_min:
  "foldl (\<lambda>m y. if f y < m then f y else m) m xs \<le> m \<and>
   (\<forall>y \<in> set xs. foldl (\<lambda>m y. if f y < m then f y else m) m xs \<le> f y) \<and>
   foldl (\<lambda>m y. if f y < m then f y else m) m xs \<in> insert m (f ` set xs)" for f :: "'a \<Rightarrow> int"
proof (induction xs arbitrary: m)
  case (Cons x xs)
  show ?case using Cons.IH [of "if f x < m then f x else m"] by (auto split: if_splits)
qed simp

lemma minimum_by_iff:
  assumes "x \<in> set (z # zs)"
  shows "f x = minimum_by f z zs \<longleftrightarrow> (\<forall>y \<in> set (z # zs). f x \<le> f y)"
proof -
  have "minimum_by f z zs \<le> f z" "\<forall>y \<in> set zs. minimum_by f z zs \<le> f y"
    "minimum_by f z zs \<in> insert (f z) (f ` set zs)"
    using foldl_min [where f = f and m = "f z" and xs = zs] by (simp_all add: minimum_by_def)
  moreover have "minimum_by f z zs \<le> f x" using calculation assms by auto
  ultimately show ?thesis using assms by fastforce
qed

lemma filterByMinPriority:
  "filterByMinPriority xs =
     filter (\<lambda>x. \<forall>y \<in> set xs. ac_Priority (al_account x) \<le> ac_Priority (al_account y)) xs"
proof (cases xs)
  case (Cons z zs)
  show ?thesis unfolding filterByMinPriority_def Cons list.case Let_def
    using minimum_by_iff [of _ z zs "ac_Priority \<circ> al_account"] by (intro filter_cong refl) simp
qed (simp add: filterByMinPriority_def)

lemma filterByMinLoadRate:
  "filterByMinLoadRate xs =
     filter (\<lambda>x. \<forall>y \<in> set xs. li_LoadRate (al_loadInfo x) \<le> li_LoadRate (al_loadInfo y)) xs"
proof (cases xs)
  case (Cons z zs)
  show ?thesis unfolding filterByMinLoadRate_def Cons list.case Let_def
    using minimum_by_iff [of _ z zs "li_LoadRate \<circ> al_loadInfo"] by (intro filter_cong refl) simp
qed (simp add: filterByMinLoadRate_def)

lemma filterByMinPriority_subset: "set (filterByMinPriority xs) \<subseteq> set xs"
  by (auto simp: filterByMinPriority)

lemma filterByMinLoadRate_subset: "set (filterByMinLoadRate xs) \<subseteq> set xs"
  by (auto simp: filterByMinLoadRate)

lemma filterBySoonestReset_subset: "set (filterBySoonestReset now xs) \<subseteq> set xs"
  by (auto simp: filterBySoonestReset_def split: option.splits if_splits)

text \<open>A minimum exists.\<close>

lemma argmin_exists: "xs \<noteq> [] \<Longrightarrow> \<exists>x \<in> set xs. \<forall>y \<in> set xs. (f x :: 'b :: linorder) \<le> f y"
  using arg_min_if_finite [of "set xs" f] by (metis finite_set linorder_not_le set_empty)

lemma filterByMinPriority_Nil [simp]: "filterByMinPriority xs = [] \<longleftrightarrow> xs = []"
  using argmin_exists [of xs "\<lambda>x. ac_Priority (al_account x)"]
  by (auto simp: filterByMinPriority filter_empty_conv)

lemma filterByMinLoadRate_Nil [simp]: "filterByMinLoadRate xs = [] \<longleftrightarrow> xs = []"
  using argmin_exists [of xs "\<lambda>x. li_LoadRate (al_loadInfo x)"]
  by (auto simp: filterByMinLoadRate filter_empty_conv)

section \<open>The least recently used\<close>

lemma least_used_foldl:
  assumes "\<forall>a \<in> set as. ac_LastUsedAt a \<noteq> None"
  shows "foldl older (Some m) as =
     Some (foldl (\<lambda>m a. if (the \<circ> ac_LastUsedAt) a < m then (the \<circ> ac_LastUsedAt) a else m) m as)"
  using assms by (induction as arbitrary: m) (auto simp: older_def)

lemma least_used:
  assumes "\<forall>a \<in> set (b # bs). ac_LastUsedAt a \<noteq> None"
  shows "least_used (b # bs) = Some (minimum_by (the \<circ> ac_LastUsedAt) b bs)"
proof -
  obtain t where t: "ac_LastUsedAt b = Some t" using assms by auto
  have "least_used (b # bs) = foldl older (Some t) bs" using t by (simp add: least_used_def older_def)
  with assms t show ?thesis by (simp add: least_used_foldl minimum_by_def del: comp_apply) simp
qed

text \<open>What \<^const>\<open>selectByLRU\<close> draws from.\<close>

definition lru_candidates :: "accountWithLoad list \<Rightarrow> accountWithLoad list" where
  "lru_candidates xs =
     filter (\<lambda>x. \<forall>y \<in> set xs. ac_LastUsedAt (al_account x) \<le> ac_LastUsedAt (al_account y)) xs"

lemma lru_candidates_Nil [simp]: "lru_candidates xs = [] \<longleftrightarrow> xs = []"
  using argmin_exists [of xs "\<lambda>x. ac_LastUsedAt (al_account x)"]
  by (auto simp: lru_candidates_def filter_empty_conv)

lemma lru_candidates:
  "filter (\<lambda>acc. if list_ex (\<lambda>acc. ac_LastUsedAt (al_account acc) = None) xs
                 then ac_LastUsedAt (al_account acc) = None
                 else ac_LastUsedAt (al_account acc) = least_used (map al_account xs)) xs
   = lru_candidates xs"
proof (cases "list_ex (\<lambda>acc. ac_LastUsedAt (al_account acc) = None) xs")
  case True
  then obtain n where n: "n \<in> set xs" "ac_LastUsedAt (al_account n) = None" by (auto simp: list_ex_iff)
  have "(\<lambda>x. ac_LastUsedAt (al_account x) = None) =
      (\<lambda>x. \<forall>y \<in> set xs. ac_LastUsedAt (al_account x) \<le> ac_LastUsedAt (al_account y))"
  proof
    fix x
    show "(ac_LastUsedAt (al_account x) = None) =
        (\<forall>y \<in> set xs. ac_LastUsedAt (al_account x) \<le> ac_LastUsedAt (al_account y))"
    proof
      assume "\<forall>y \<in> set xs. ac_LastUsedAt (al_account x) \<le> ac_LastUsedAt (al_account y)"
      with n have "ac_LastUsedAt (al_account x) \<le> None" by metis
      then show "ac_LastUsedAt (al_account x) = None" by (cases "ac_LastUsedAt (al_account x)") simp_all
    qed simp
  qed
  from arg_cong [OF this, of "\<lambda>p. filter p xs"] show ?thesis
    unfolding lru_candidates_def using True by (simp only: if_True)
next
  case False
  then have used: "\<forall>x \<in> set xs. ac_LastUsedAt (al_account x) \<noteq> None" by (simp add: list_ex_iff)
  show ?thesis
  proof (cases xs)
    case (Cons z zs)
    have le: "ac_LastUsedAt (al_account x) \<le> ac_LastUsedAt (al_account y) \<longleftrightarrow>
        the (ac_LastUsedAt (al_account x)) \<le> the (ac_LastUsedAt (al_account y))"
      if "x \<in> set xs" "y \<in> set xs" for x y
      using used [rule_format, OF that(1)] used [rule_format, OF that(2)] by (auto simp: less_eq_option_Some)
    have min: "minimum_by (the \<circ> ac_LastUsedAt) (al_account z) (map al_account zs) =
        minimum_by (the \<circ> ac_LastUsedAt \<circ> al_account) z zs"
      unfolding minimum_by_def foldl_map comp_def ..
    have "ac_LastUsedAt (al_account x) = least_used (map al_account xs) \<longleftrightarrow>
        (\<forall>y \<in> set xs. ac_LastUsedAt (al_account x) \<le> ac_LastUsedAt (al_account y))" if x: "x \<in> set xs" for x
    proof -
      have "\<exists>t. ac_LastUsedAt (al_account x) = Some t" using used x by blast
      moreover have "least_used (map al_account xs) = Some (minimum_by (the \<circ> ac_LastUsedAt \<circ> al_account) z zs)"
        using least_used [of "al_account z" "map al_account zs"] used min by (simp add: Cons)
      moreover have "the (ac_LastUsedAt (al_account x)) = minimum_by (the \<circ> ac_LastUsedAt \<circ> al_account) z zs \<longleftrightarrow>
          (\<forall>y \<in> set xs. the (ac_LastUsedAt (al_account x)) \<le> the (ac_LastUsedAt (al_account y)))"
        using minimum_by_iff [of x z zs "the \<circ> ac_LastUsedAt \<circ> al_account"] x by (simp add: Cons)
      ultimately show ?thesis using le [OF x] by fastforce
    qed
    with False show ?thesis unfolding lru_candidates_def by (auto intro: filter_cong)
  qed (simp add: lru_candidates_def)
qed

lemma selectByLRU_two:
  "selectByLRU draw (y # z # zs) preferOAuth =
     (let candidates = lru_candidates (y # z # zs);
          oauth = filter (\<lambda>acc. ac_Type (al_account acc) = AccountTypeOAuth) candidates;
          chosen = (if preferOAuth \<and> oauth \<noteq> [] then oauth else candidates)
      in if length candidates = 1 then Some (candidates ! 0) else Some (chosen ! (draw mod length chosen)))"
  unfolding selectByLRU_def list.case Let_def lru_candidates ..

lemma selectByLRU_mem_lru: "selectByLRU d xs p = Some x \<Longrightarrow> x \<in> set (lru_candidates xs)"
proof -
  assume x: "selectByLRU d xs p = Some x"
  have nth: "ys \<noteq> [] \<Longrightarrow> ys ! (d mod length ys) \<in> set ys" for ys :: "accountWithLoad list" by simp
  consider "xs = []" | y where "xs = [y]" | y z zs where "xs = y # z # zs" by (metis list.exhaust)
  then show ?thesis
  proof cases
    case 3
    define l where "l = lru_candidates (y # z # zs)"
    define ch where "ch = (let o' = filter (\<lambda>acc. ac_Type (al_account acc) = AccountTypeOAuth) l
        in if p \<and> o' \<noteq> [] then o' else l)"
    have "l \<noteq> []" by (simp add: l_def)
    then have "ch \<noteq> []" "set ch \<subseteq> set l" by (auto simp: ch_def Let_def)
    moreover have "x = (if length l = 1 then l ! 0 else ch ! (d mod length ch))"
      using x unfolding 3 selectByLRU_two l_def [symmetric] Let_def ch_def by (auto split: if_splits)
    ultimately show ?thesis using nth [of ch] \<open>l \<noteq> []\<close> unfolding 3 l_def [symmetric] by auto
  qed (use x in \<open>auto simp: selectByLRU_def lru_candidates_def\<close>)
qed

lemma selectByLRU_mem: "selectByLRU d xs p = Some x \<Longrightarrow> x \<in> set xs"
  using selectByLRU_mem_lru by (auto simp: lru_candidates_def)

lemma selectByLRU_None [simp]: "selectByLRU d xs p = None \<longleftrightarrow> xs = []"
proof -
  consider "xs = []" | y where "xs = [y]" | y z zs where "xs = y # z # zs" by (metis list.exhaust)
  then show ?thesis
  proof cases
    case 3
    show ?thesis unfolding 3 selectByLRU_two Let_def by simp
  qed (simp_all add: selectByLRU_def)
qed

section \<open>Sorting and shuffling rearrange\<close>

named_theorems rearranged \<open>the members of what is sorted or shuffled\<close>

lemma mset_insert_by [simp]: "mset (insert_by lt x xs) = add_mset x (mset xs)"
  by (induction xs) auto

lemma mset_SliceStable [rearranged]: "mset (SliceStable lt xs) = mset xs"
  by (induction xs) (simp_all add: SliceStable_def)

lemma mset_swap_at: "i < length xs \<Longrightarrow> j < length xs \<Longrightarrow> mset (swap_at i j xs) = mset xs"
  by (cases "i = j") (simp_all add: swap_at_def list_update_swap mset_swap)

lemma length_swap_at [simp]: "length (swap_at i j xs) = length xs"
  by (simp add: swap_at_def)

lemma mset_shuffle_down: "i < length xs \<Longrightarrow> mset (shuffle_down d i xs) = mset xs"
proof (induction d i xs rule: shuffle_down.induct)
  case (2 d i xs)
  have "d (Suc i) mod Suc (Suc i) < Suc (Suc i)" by simp
  with 2 show ?case using mset_swap_at [of "Suc i" xs "d (Suc i) mod Suc (Suc i)"] by simp
qed simp

lemma mset_Shuffle [rearranged]: "mset (Shuffle d xs) = mset xs"
  by (simp add: Shuffle_def mset_shuffle_down)

lemma mset_within_groups:
  "(\<And>s ys. mset (f s ys) = mset ys) \<Longrightarrow> mset (within_groups same f start xs) = mset xs"
proof (induction same f start xs rule: within_groups.induct)
  case (2 same f start x xs)
  then have "mset (within_groups same f start (x # xs)) =
      add_mset x (mset (takeWhile (same x) xs) + mset (dropWhile (same x) xs))" by simp
  also have "\<dots> = mset (x # xs)" by (simp flip: mset_append)
  finally show ?case .
qed simp

lemma mset_shuffle_group [rearranged]: "mset (shuffle_group p ds start xs) = mset xs"
  by (simp add: shuffle_group_def Let_def mset_Shuffle)

lemma mset_orders [rearranged]:
  "mset (shuffleWithinSortGroups ds ys) = mset ys"
  "mset (shuffleWithinPriorityAndLastUsed ds xs p) = mset xs"
  "mset (shuffleWithinPriority ds xs) = mset xs"
  by (simp_all add: shuffleWithinSortGroups_def shuffleWithinPriorityAndLastUsed_def
      shuffleWithinPriority_def mset_within_groups rearranged)

lemma mset_fallback_orders [rearranged]:
  "mset (sortAccountsByPriorityAndLastUsed ds xs p) = mset xs"
  "mset (sortAccountsByPriorityOnly xs p) = mset xs"
  "mset (sortCandidatesForFallback ds xs p mode) = mset xs"
  by (simp_all add: sortAccountsByPriorityAndLastUsed_def sortAccountsByPriorityOnly_def
      sortCandidatesForFallback_def rearranged)

lemmas set_orders = rearranged [THEN mset_eq_setD]

section \<open>Sorting by a key\<close>

text \<open>A comparison that is the order of a key sorts like the library.\<close>

lemma insert_by_key: "(\<And>x y. lt x y \<longleftrightarrow> f x < f y) \<Longrightarrow> insert_by lt x xs = insort_key f x xs" for f :: "'a \<Rightarrow> 'b :: linorder"
  by (induction xs) auto

lemma SliceStable_key:
  "(\<And>x y. lt x y \<longleftrightarrow> f x < f y) \<Longrightarrow> SliceStable lt xs = sort_key f xs" for f :: "'a \<Rightarrow> 'b :: linorder"
  unfolding SliceStable_def sort_key_def by (induction xs) (simp_all add: insert_by_key)

text \<open>Rearranging runs in which a coarser key does not vary leaves its order alone.\<close>

lemma sorted_within_groups:
  fixes k :: "'a \<Rightarrow> 'b :: linorder"
  assumes "\<And>s ys. mset (f s ys) = mset ys" "\<And>x y. same x y \<Longrightarrow> k y = k x" "sorted (map k xs)"
  shows "sorted (map k (within_groups same f start xs))"
  using assms(3,1,2)
proof (induction same f start xs rule: within_groups.induct)
  case (2 same f start x xs)
  let ?t = "takeWhile (same x) xs" and ?r = "dropWhile (same x) xs"
  let ?rest = "within_groups same f (start + Suc (length ?t)) ?r"
  have xs: "?t @ ?r = xs" by simp
  have f: "set (f start (x # ?t)) = insert x (set ?t)"
    using mset_eq_setD [OF 2(3) [of start "x # ?t"]] by simp
  have const: "k y = k x" if "y \<in> set (f start (x # ?t))" for y
    using that f 2(4) by (auto dest: set_takeWhileD)
  have "sorted (map k (f start (x # ?t)))" using const by (auto simp: sorted_wrt_iff_nth_less)
  moreover have "sorted (map k ?rest)"
  proof (rule "2.IH")
    have "sorted (map k (?t @ ?r))" using 2(2) xs by simp
    then show "sorted (map k ?r)" by (simp only: map_append sorted_append)
  qed (use 2(3,4) in auto)
  moreover have "k x \<le> k y" if "y \<in> set ?rest" for y
  proof -
    have "y \<in> set ?r" using that mset_within_groups [of f same] 2(3) mset_eq_setD by metis
    then have "y \<in> set xs" by (rule set_dropWhileD)
    then show ?thesis using 2(2) by simp
  qed
  ultimately show ?case using const by (auto simp: sorted_append)
qed simp

end
