(* ===== verification/AccountSelection.thy ===== *)
theory AccountSelection
  imports AccountOrdering
begin

text \<open>
  How the gateway chooses the account for a request, with load awareness:
  \<^verbatim>\<open>SelectAccountWithLoadAwareness\<close> and what it calls in
  \<^verbatim>\<open>backend/internal/service/gateway_scheduling.go\<close>.

  The run of one request is sequential; everybody else acts in between. So all the request learns
  from outside (Redis, the database, the clock, random numbers, and the checks of other parts of
  the service) is an answer, and the record \<open>gateway_service\<close> holds one function for each kind of
  question. Its first argument is the trace: all the request has done and asked so far, newest
  first. A function of the trace may answer the same question differently each time, so the
  records range over all behaviours of the surroundings. Every function takes the trace and
  returns it extended. An error is \<^const>\<open>Inl\<close>; a layer that does not decide answers
  \<^const>\<open>None\<close>. Log lines are left out.
\<close>

section \<open>The request, the service and the trace\<close>

datatype gate =
    Schedulable
  | ProfitEligible
  | PlatformAllowed
  | ModelSupported
  | ChannelAllowed
  | ModelSchedulable
  | WithinQuota
  | WithinWindowCost bool
  | WithinRPM bool

datatype event =
    Asked
  | Checked gate int bool
  | SlotTried int "bool option"
  | SlotReleased int
  | SessionTried int "bool option"
  | StickySet int
  | StickyDeleted
  | StickyRefreshed
  | MarkedError int
  | Hydrated int bool

type_synonym trace = "event list"

record GatewaySchedulingConfig =
  gs_StickySessionMaxWaiting :: int
  gs_StickySessionWaitTimeout :: go_duration
  gs_FallbackWaitTimeout :: go_duration
  gs_FallbackMaxWaiting :: int
  gs_FallbackSelectionMode :: string
  gs_PreferSoonestReset :: bool
  gs_LoadBatchEnabled :: bool

datatype account_query =
    ByGroup int "string list"
  | ByPlatforms "string list"
  | Ungrouped "string list"

text \<open>
  The fields \<open>sv_\<close> say which parts the service has; \<open>an_\<close> are the answers. \<^const>\<open>None\<close> is an error,
  but for \<open>an_Sticky\<close>, where it is also a session that is not bound. \<open>sv_GroupIDs\<close> lists
  the groups there are.
\<close>

record gateway_service =
  sv_Config :: "GatewaySchedulingConfig option"
  sv_SimpleMode :: bool
  sv_ConcurrencyService :: bool
  sv_SchedulerSnapshot :: bool
  sv_Cache :: bool
  sv_SessionLimitCache :: bool
  sv_RPMCache :: bool
  sv_GroupIDs :: "int list"
  an_Now :: "trace \<Rightarrow> go_time"
  an_Draw :: "trace \<Rightarrow> nat \<Rightarrow> nat \<Rightarrow> nat"
  an_Group :: "trace \<Rightarrow> int \<Rightarrow> Group option"
  an_Composite :: "trace \<Rightarrow> Group \<Rightarrow> string \<Rightarrow> (string \<times> string) option option"
  an_Snapshot :: "trace \<Rightarrow> int option \<Rightarrow> string \<Rightarrow> bool \<Rightarrow> (Account list \<times> bool) option"
  an_Accounts :: "trace \<Rightarrow> account_query \<Rightarrow> Account list option"
  an_Account :: "trace \<Rightarrow> int \<Rightarrow> Account option option"
  an_ThresholdBlocked :: "trace \<Rightarrow> Account \<Rightarrow> bool"
  an_GrokFree :: "trace \<Rightarrow> Account \<Rightarrow> bool"
  an_PricingRestricted :: "trace \<Rightarrow> int option \<Rightarrow> string \<Rightarrow> bool"
  an_UpstreamCheck :: "trace \<Rightarrow> int option \<Rightarrow> bool"
  an_ChannelRestricted :: "trace \<Rightarrow> int option \<Rightarrow> Account \<Rightarrow> string \<Rightarrow> bool"
  an_ProfitGate :: "trace \<Rightarrow> int option \<Rightarrow> bool"
  an_ProfitVeto :: "trace \<Rightarrow> Account \<Rightarrow> bool"
  an_ModelSupported :: "trace \<Rightarrow> Account \<Rightarrow> string \<Rightarrow> bool"
  an_ModelRateLimited :: "trace \<Rightarrow> Account \<Rightarrow> string \<Rightarrow> bool"
  an_CreditsUsable :: "trace \<Rightarrow> Account \<Rightarrow> bool"
  an_QuotaExceeded :: "trace \<Rightarrow> Account \<Rightarrow> bool"
  an_WindowCost :: "trace \<Rightarrow> Account \<Rightarrow> WindowCostSchedulability"
  an_RPMBatch :: "trace \<Rightarrow> int list \<Rightarrow> (int \<rightharpoonup> int) option"
  an_RPM :: "trace \<Rightarrow> int \<Rightarrow> int option"
  an_Sticky :: "trace \<Rightarrow> int \<Rightarrow> string \<Rightarrow> int option"
  an_Slot :: "trace \<Rightarrow> int \<Rightarrow> int \<Rightarrow> bool option"
  an_Waiting :: "trace \<Rightarrow> int \<Rightarrow> int"
  an_Session :: "trace \<Rightarrow> int \<Rightarrow> string \<Rightarrow> int \<Rightarrow> go_duration \<Rightarrow> bool option"
  an_Loads :: "trace \<Rightarrow> (int \<times> int) list \<Rightarrow> (int \<rightharpoonup> AccountLoadInfo) option"
  an_Hydrated :: "trace \<Rightarrow> int \<Rightarrow> Account option"

text \<open>The arguments of the call and what the context of the request carries.\<close>

record request =
  rq_GroupID :: "int option"
  rq_SessionHash :: string
  rq_Model :: string
  rq_ExcludedIDs :: "int list"
  rq_ForcePlatform :: "string option"
  rq_TargetPlatform :: "string option"
  rq_Prefetched :: "(int \<times> int) option"
  rq_ClaudeCode :: bool
  rq_Group :: "Group option"

datatype selection_error =
    GroupLookupFailed
  | FallbackGroupCycle
  | ErrClaudeCodeOnly
  | ErrGroupNotFound
  | ErrNoAvailableAccounts
  | ChannelPricingRestriction
  | CompositeRouteFailed
  | CompositePlatformUnknown
  | ListFailed
  | HydrationFailed

record AccountWaitPlan =
  wp_AccountID :: int
  wp_MaxConcurrency :: int
  wp_Timeout :: go_duration
  wp_MaxWaiting :: int

text \<open>The release function is the account whose slot it gives back.\<close>

record AccountSelectionResult =
  sr_Account :: Account
  sr_Acquired :: bool
  sr_ReleaseFunc :: "int option"
  sr_WaitPlan :: "AccountWaitPlan option"

type_synonym decision = "(selection_error + AccountSelectionResult) option"

definition schedulingConfig :: "gateway_service \<Rightarrow> GatewaySchedulingConfig" where
  "schedulingConfig w = (case sv_Config w of
     Some cfg \<Rightarrow> cfg
   | None \<Rightarrow> \<lparr>gs_StickySessionMaxWaiting = 3, gs_StickySessionWaitTimeout = 45 * second,
       gs_FallbackWaitTimeout = 30 * second, gs_FallbackMaxWaiting = 100,
       gs_FallbackSelectionMode = '''', gs_PreferSoonestReset = False, gs_LoadBatchEnabled = True\<rparr>)"

definition derefGroupID :: "int option \<Rightarrow> int" where
  "derefGroupID groupID = (case groupID of None \<Rightarrow> 0 | Some i \<Rightarrow> i)"

text \<open>What the layers share: the variables of the function and of its closures.\<close>

record scope =
  sc_GroupID :: "int option"
  sc_Session :: string
  sc_Model :: string
  sc_Excluded :: "int list"
  sc_Platform :: string
  sc_UseMixed :: bool
  sc_PreferOAuth :: bool
  sc_Upstream :: bool
  sc_ProfitGate :: bool
  sc_RPM :: "int \<rightharpoonup> int"

section \<open>The checks of an account\<close>

type_synonym check = "Account \<Rightarrow> trace \<Rightarrow> bool \<times> trace"

definition checked :: "gate \<Rightarrow> Account \<Rightarrow> bool \<Rightarrow> trace \<Rightarrow> bool \<times> trace" where
  "checked g a b tr = (b, Checked g (ac_ID a) b # tr)"

definition isAccountSchedulableForSelection :: "gateway_service \<Rightarrow> check" where
  "isAccountSchedulableForSelection w a tr =
     checked Schedulable a (IsSchedulable (an_Now w tr) (an_QuotaExceeded w tr a) a) tr"

definition isGatewayAccountProfitEligible :: "gateway_service \<Rightarrow> check" where
  "isGatewayAccountProfitEligible w a tr = checked ProfitEligible a (\<not> an_ProfitVeto w tr a) tr"

definition allowed_platform :: "Account \<Rightarrow> string \<Rightarrow> bool \<Rightarrow> bool" where
  "allowed_platform a platform useMixed =
     (if useMixed then
        if ac_Platform a = platform then True
        else ac_Platform a = PlatformAntigravity \<and> IsMixedSchedulingEnabled a
      else ac_Platform a = platform)"

definition isAccountAllowedForPlatform :: "scope \<Rightarrow> check" where
  "isAccountAllowedForPlatform sc a tr =
     checked PlatformAllowed a (allowed_platform a (sc_Platform sc) (sc_UseMixed sc)) tr"

definition supportsRequestedModel :: "gateway_service \<Rightarrow> scope \<Rightarrow> check" where
  "supportsRequestedModel w sc a tr =
     checked ModelSupported a (sc_Model sc = '''' \<or> an_ModelSupported w tr a (sc_Model sc)) tr"

definition channelAllows :: "gateway_service \<Rightarrow> scope \<Rightarrow> check" where
  "channelAllows w sc a tr =
     checked ChannelAllowed a
       (\<not> (sc_Upstream sc \<and> an_ChannelRestricted w tr (sc_GroupID sc) a (sc_Model sc))) tr"

definition IsSchedulableForModelWithContext ::
  "gateway_service \<Rightarrow> trace \<Rightarrow> Account \<Rightarrow> string \<Rightarrow> bool" where
  "IsSchedulableForModelWithContext w tr a requestedModel =
     (if \<not> IsSchedulable (an_Now w tr) (an_QuotaExceeded w tr a) a then False
      else if an_ModelRateLimited w tr a requestedModel
      then ac_Platform a = PlatformAntigravity \<and> an_CreditsUsable w tr a
      else True)"

definition isAccountSchedulableForModelSelection :: "gateway_service \<Rightarrow> scope \<Rightarrow> check" where
  "isAccountSchedulableForModelSelection w sc a tr =
     checked ModelSchedulable a (IsSchedulableForModelWithContext w tr a (sc_Model sc)) tr"

definition isAccountSchedulableForQuota :: "gateway_service \<Rightarrow> check" where
  "isAccountSchedulableForQuota w a tr =
     checked WithinQuota a (if \<not> IsAPIKeyOrBedrock a then True else \<not> an_QuotaExceeded w tr a) tr"

definition isAccountSchedulableForWindowCost :: "gateway_service \<Rightarrow> bool \<Rightarrow> check" where
  "isAccountSchedulableForWindowCost w isSticky a tr =
     checked (WithinWindowCost isSticky) a
       (if \<not> IsAnthropicOAuthOrSetupToken a then True
        else schedulable_for (an_WindowCost w tr a) isSticky) tr"

definition isAccountSchedulableForRPM :: "gateway_service \<Rightarrow> scope \<Rightarrow> bool \<Rightarrow> check" where
  "isAccountSchedulableForRPM w sc isSticky a tr =
     checked (WithinRPM isSticky) a
       (if \<not> IsAnthropicOAuthOrSetupToken a then True
        else if GetBaseRPM a \<le> 0 then True
        else
          let currentRPM =
                (case sc_RPM sc (ac_ID a) of
                   Some n \<Rightarrow> n
                 | None \<Rightarrow>
                     if sv_RPMCache w
                     then (case an_RPM w tr (ac_ID a) of Some n \<Rightarrow> n | None \<Rightarrow> 0)
                     else 0)
          in schedulable_for (CheckRPMSchedulability a currentRPM) isSticky) tr"

text \<open>Checks one after the other: up to the first that fails, or all of them.\<close>

fun passes :: "check list \<Rightarrow> Account \<Rightarrow> trace \<Rightarrow> bool \<times> trace" where
  "passes [] a tr = (True, tr)"
| "passes (c # cs) a tr =
     (case c a tr of (b, tr1) \<Rightarrow> if b then passes cs a tr1 else (False, tr1))"

fun passes_all :: "check list \<Rightarrow> Account \<Rightarrow> trace \<Rightarrow> bool \<times> trace" where
  "passes_all [] a tr = (True, tr)"
| "passes_all (c # cs) a tr =
     (case c a tr of (b, tr1) \<Rightarrow> case passes_all cs a tr1 of (bs, tr2) \<Rightarrow> (b \<and> bs, tr2))"

definition checks_before_channel :: "gateway_service \<Rightarrow> scope \<Rightarrow> check list" where
  "checks_before_channel w sc =
     [isAccountSchedulableForSelection w, isGatewayAccountProfitEligible w,
      isAccountAllowedForPlatform sc, supportsRequestedModel w sc]"

definition checks_after_channel :: "gateway_service \<Rightarrow> scope \<Rightarrow> bool \<Rightarrow> check list" where
  "checks_after_channel w sc isSticky =
     [isAccountSchedulableForModelSelection w sc, isAccountSchedulableForQuota w,
      isAccountSchedulableForWindowCost w isSticky, isAccountSchedulableForRPM w sc isSticky]"

definition candidate_checks :: "gateway_service \<Rightarrow> scope \<Rightarrow> bool \<Rightarrow> check list" where
  "candidate_checks w sc isSticky =
     checks_before_channel w sc @ channelAllows w sc # checks_after_channel w sc isSticky"

section \<open>Slots, sessions and results\<close>

text \<open>Without a limit, or without the service that keeps it, a slot is a formality.\<close>

definition tryAcquireAccountSlot :: "gateway_service \<Rightarrow> Account \<Rightarrow> trace \<Rightarrow> bool option \<times> trace" where
  "tryAcquireAccountSlot w a tr =
     (let r = (if \<not> sv_ConcurrencyService w \<or> ac_Concurrency a \<le> 0 then Some True
               else an_Slot w tr (ac_ID a) (ac_Concurrency a))
      in (r, SlotTried (ac_ID a) r # tr))"

definition checkAndRegisterSession ::
  "gateway_service \<Rightarrow> Account \<Rightarrow> string \<Rightarrow> trace \<Rightarrow> bool \<times> trace" where
  "checkAndRegisterSession w a sessionID tr =
     (let maxSessions = GetMaxSessions a
      in if \<not> IsAnthropicOAuthOrSetupToken a then (True, tr)
         else if maxSessions \<le> 0 \<or> sessionID = '''' then (True, tr)
         else if \<not> sv_SessionLimitCache w then (True, tr)
         else
           let r = an_Session w tr (ac_ID a) sessionID maxSessions
                     (GetSessionIdleTimeoutMinutes a * minute)
           in (case r of None \<Rightarrow> True | Some allowed \<Rightarrow> allowed, SessionTried (ac_ID a) r # tr))"

definition hydrateSelectedAccount :: "gateway_service \<Rightarrow> Account \<Rightarrow> trace \<Rightarrow> Account option \<times> trace" where
  "hydrateSelectedAccount w a tr =
     (if \<not> sv_SchedulerSnapshot w then (Some a, tr)
      else let h = an_Hydrated w tr (ac_ID a) in (h, Hydrated (ac_ID a) (h \<noteq> None) # tr))"

definition newSelectionResult ::
  "gateway_service \<Rightarrow> Account \<Rightarrow> bool \<Rightarrow> int option \<Rightarrow> AccountWaitPlan option \<Rightarrow> trace \<Rightarrow>
   (selection_error + AccountSelectionResult) \<times> trace" where
  "newSelectionResult w a acquired release waitPlan tr =
     (case hydrateSelectedAccount w a tr of
        (None, tr1) \<Rightarrow> (Inl HydrationFailed, tr1)
      | (Some h, tr1) \<Rightarrow>
          (Inr \<lparr>sr_Account = h, sr_Acquired = acquired, sr_ReleaseFunc = release,
                sr_WaitPlan = waitPlan\<rparr>, tr1))"

definition BindStickySession :: "gateway_service \<Rightarrow> string \<Rightarrow> int \<Rightarrow> trace \<Rightarrow> trace" where
  "BindStickySession w sessionHash accountID tr =
     (if sessionHash = '''' \<or> accountID \<le> 0 \<or> \<not> sv_Cache w then tr else StickySet accountID # tr)"

definition bindGatewayStickySessionDuringSelection ::
  "gateway_service \<Rightarrow> bool \<Rightarrow> string \<Rightarrow> int \<Rightarrow> trace \<Rightarrow> trace" where
  "bindGatewayStickySessionDuringSelection w profitGate sessionHash accountID tr =
     (if profitGate then tr else BindStickySession w sessionHash accountID tr)"

definition wait_plan :: "Account \<Rightarrow> go_duration \<Rightarrow> int \<Rightarrow> AccountWaitPlan" where
  "wait_plan a timeout maxWaiting =
     \<lparr>wp_AccountID = ac_ID a, wp_MaxConcurrency = ac_Concurrency a, wp_Timeout = timeout,
      wp_MaxWaiting = maxWaiting\<rparr>"

text \<open>A result with the slot in hand, and one that has to wait for it.\<close>

definition acquired_result ::
  "gateway_service \<Rightarrow> Account \<Rightarrow> trace \<Rightarrow> decision \<times> trace" where
  "acquired_result w a tr = map_prod Some id (newSelectionResult w a True (Some (ac_ID a)) None tr)"

definition waiting_result ::
  "gateway_service \<Rightarrow> Account \<Rightarrow> go_duration \<Rightarrow> int \<Rightarrow> trace \<Rightarrow> decision \<times> trace" where
  "waiting_result w a timeout maxWaiting tr =
     map_prod Some id (newSelectionResult w a False None (Some (wait_plan a timeout maxWaiting)) tr)"

section \<open>Trying one account after the other\<close>

text \<open>The loop of the routed accounts and of \<^verbatim>\<open>tryAcquireByLegacyOrder\<close>.\<close>

fun try_in_order :: "gateway_service \<Rightarrow> scope \<Rightarrow> Account list \<Rightarrow> trace \<Rightarrow> decision \<times> trace" where
  "try_in_order w sc [] tr = (None, tr)"
| "try_in_order w sc (a # as) tr =
     (case tryAcquireAccountSlot w a tr of (r, tr1) \<Rightarrow>
        if r = Some True then
          (case checkAndRegisterSession w a (sc_Session sc) tr1 of (ok, tr2) \<Rightarrow>
             if \<not> ok then try_in_order w sc as (SlotReleased (ac_ID a) # tr2)
             else acquired_result w a
                    (bindGatewayStickySessionDuringSelection w (sc_ProfitGate sc) (sc_Session sc)
                       (ac_ID a) tr2))
        else try_in_order w sc as tr1)"

definition tryAcquireByLegacyOrder ::
  "gateway_service \<Rightarrow> scope \<Rightarrow> Account list \<Rightarrow> trace \<Rightarrow> decision \<times> trace" where
  "tryAcquireByLegacyOrder w sc candidates tr =
     try_in_order w sc
       (sortAccountsByPriorityAndLastUsed (an_Draw w tr) candidates (sc_PreferOAuth sc)) (Asked # tr)"

text \<open>The first account whose session limit lets the request wait for it.\<close>

fun first_to_wait_for ::
  "gateway_service \<Rightarrow> scope \<Rightarrow> go_duration \<Rightarrow> int \<Rightarrow> Account list \<Rightarrow> trace \<Rightarrow> decision \<times> trace" where
  "first_to_wait_for w sc timeout maxWaiting [] tr = (None, tr)"
| "first_to_wait_for w sc timeout maxWaiting (a # as) tr =
     (case checkAndRegisterSession w a (sc_Session sc) tr of (ok, tr1) \<Rightarrow>
        if \<not> ok then first_to_wait_for w sc timeout maxWaiting as tr1
        else waiting_result w a timeout maxWaiting tr1)"

definition with_loads :: "(int \<rightharpoonup> AccountLoadInfo) \<Rightarrow> Account list \<Rightarrow> accountWithLoad list" where
  "with_loads loadMap candidates =
     filter (\<lambda>x. li_LoadRate (al_loadInfo x) < 100)
       (map (\<lambda>a. \<lparr>al_account = a, al_loadInfo =
              (case loadMap (ac_ID a) of
                 Some l \<Rightarrow> l | None \<Rightarrow> \<lparr>li_AccountID = ac_ID a, li_LoadRate = 0\<rparr>)\<rparr>) candidates)"

definition load_query :: "Account list \<Rightarrow> (int \<times> int) list" where
  "load_query candidates = map (\<lambda>a. (ac_ID a, EffectiveLoadFactor a)) candidates"

section \<open>Layer 1: model routing\<close>

definition account_by_id :: "Account list \<Rightarrow> int \<rightharpoonup> Account" where
  "account_by_id accounts = map_of (rev (map (\<lambda>a. (ac_ID a, a)) accounts))"

fun routing_candidates ::
  "gateway_service \<Rightarrow> scope \<Rightarrow> (int \<rightharpoonup> Account) \<Rightarrow> int list \<Rightarrow> trace \<Rightarrow> Account list \<times> trace" where
  "routing_candidates w sc byID [] tr = ([], tr)"
| "routing_candidates w sc byID (i # ids) tr =
     (if i \<in> set (sc_Excluded sc) then routing_candidates w sc byID ids tr
      else case byID i of
             None \<Rightarrow> routing_candidates w sc byID ids tr
           | Some a \<Rightarrow>
               (case passes (candidate_checks w sc False) a tr of (b, tr1) \<Rightarrow>
                  case routing_candidates w sc byID ids tr1 of (as, tr2) \<Rightarrow>
                    (if b then a # as else as, tr2)))"

definition routed_sticky ::
  "gateway_service \<Rightarrow> scope \<Rightarrow> (int \<rightharpoonup> Account) \<Rightarrow> int list \<Rightarrow> int \<Rightarrow> trace \<Rightarrow> decision \<times> trace" where
  "routed_sticky w sc byID routingAccountIDs stickyAccountID tr =
     (let cfg = schedulingConfig w in
      if \<not> (sc_Session sc \<noteq> '''' \<and> stickyAccountID > 0 \<and>
            stickyAccountID \<in> set routingAccountIDs \<and> stickyAccountID \<notin> set (sc_Excluded sc))
      then (None, tr)
      else case byID stickyAccountID of
        None \<Rightarrow> (None, StickyDeleted # tr)
      | Some a \<Rightarrow>
          (case passes (candidate_checks w sc True) a tr of (ok, tr1) \<Rightarrow>
             if \<not> ok then (None, tr1)
             else case tryAcquireAccountSlot w a tr1 of (r, tr2) \<Rightarrow>
               if r = Some True then
                 (case checkAndRegisterSession w a (sc_Session sc) tr2 of (ok, tr3) \<Rightarrow>
                    if \<not> ok then (None, SlotReleased (ac_ID a) # tr3)
                    else acquired_result w a tr3)
               else if an_Waiting w tr2 stickyAccountID < gs_StickySessionMaxWaiting cfg then
                 (case checkAndRegisterSession w a (sc_Session sc) (Asked # tr2) of (ok, tr3) \<Rightarrow>
                    if \<not> ok then (None, tr3)
                    else waiting_result w a (gs_StickySessionWaitTimeout cfg)
                           (gs_StickySessionMaxWaiting cfg) tr3)
               else (None, Asked # tr2)))"

definition routed_by_load ::
  "gateway_service \<Rightarrow> scope \<Rightarrow> Account list \<Rightarrow> trace \<Rightarrow> decision \<times> trace" where
  "routed_by_load w sc candidates tr =
     (let cfg = schedulingConfig w;
          loadMap = (case an_Loads w tr (load_query candidates) of Some m \<Rightarrow> m | None \<Rightarrow> Map.empty);
          tr1 = Asked # tr;
          ordered = map al_account (shuffleWithinSortGroups (an_Draw w tr1)
                      (SliceStable less_load_aware (with_loads loadMap candidates)))
      in case try_in_order w sc ordered (Asked # tr1) of
           (Some d, tr2) \<Rightarrow> (Some d, tr2)
         | (None, tr2) \<Rightarrow>
             first_to_wait_for w sc (gs_StickySessionWaitTimeout cfg)
               (gs_StickySessionMaxWaiting cfg) ordered tr2)"

definition layer_routing ::
  "gateway_service \<Rightarrow> scope \<Rightarrow> Account list \<Rightarrow> int list \<Rightarrow> int \<Rightarrow> trace \<Rightarrow> decision \<times> trace" where
  "layer_routing w sc accounts routingAccountIDs stickyAccountID tr =
     (if routingAccountIDs = [] \<or> \<not> sv_ConcurrencyService w then (None, tr)
      else case routing_candidates w sc (account_by_id accounts) routingAccountIDs tr of
        (candidates, tr1) \<Rightarrow>
          if candidates = [] then (None, tr1)
          else case routed_sticky w sc (account_by_id accounts) routingAccountIDs stickyAccountID tr1 of
            (Some d, tr2) \<Rightarrow> (Some d, tr2)
          | (None, tr2) \<Rightarrow> routed_by_load w sc candidates tr2)"

section \<open>Layer 1.5: the sticky session\<close>

definition shouldClearStickySession ::
  "gateway_service \<Rightarrow> Account \<Rightarrow> string \<Rightarrow> trace \<Rightarrow> bool" where
  "shouldClearStickySession w a requestedModel tr =
     (if \<not> IsSchedulable (an_Now w tr) (an_QuotaExceeded w tr a) a then True
      else an_ModelRateLimited w tr a requestedModel)"

definition sticky_checks :: "gateway_service \<Rightarrow> scope \<Rightarrow> check list" where
  "sticky_checks w sc =
     [isAccountAllowedForPlatform sc, isGatewayAccountProfitEligible w, supportsRequestedModel w sc,
      channelAllows w sc, isAccountSchedulableForModelSelection w sc, isAccountSchedulableForQuota w,
      isAccountSchedulableForWindowCost w True, isAccountSchedulableForRPM w sc True,
      isAccountSchedulableForSelection w]"

definition sticky_waiting ::
  "gateway_service \<Rightarrow> scope \<Rightarrow> Account \<Rightarrow> trace \<Rightarrow> decision \<times> trace" where
  "sticky_waiting w sc a tr =
     (let cfg = schedulingConfig w in
      if an_Waiting w tr (ac_ID a) < gs_StickySessionMaxWaiting cfg then
        (case checkAndRegisterSession w a (sc_Session sc) (Asked # tr) of (ok, tr1) \<Rightarrow>
           if \<not> ok then (None, tr1)
           else waiting_result w a (gs_StickySessionWaitTimeout cfg)
                  (gs_StickySessionMaxWaiting cfg) tr1)
      else (None, Asked # tr))"

definition layer_sticky ::
  "gateway_service \<Rightarrow> scope \<Rightarrow> Account list \<Rightarrow> int list \<Rightarrow> int \<Rightarrow> trace \<Rightarrow> decision \<times> trace" where
  "layer_sticky w sc accounts routingAccountIDs stickyAccountID tr =
     (if \<not> (routingAccountIDs = [] \<and> sc_Session sc \<noteq> '''' \<and> stickyAccountID > 0 \<and>
            stickyAccountID \<notin> set (sc_Excluded sc))
      then (None, tr)
      else case account_by_id accounts stickyAccountID of
        None \<Rightarrow> (None, tr)
      | Some a \<Rightarrow>
          let clearSticky = shouldClearStickySession w a (sc_Model sc) tr;
              tr1 = (if clearSticky then StickyDeleted # Asked # tr else Asked # tr)
          in case passes_all (sticky_checks w sc) a tr1 of (ok, tr2) \<Rightarrow>
               if clearSticky \<or> \<not> ok then (None, tr2)
               else case tryAcquireAccountSlot w a tr2 of (r, tr3) \<Rightarrow>
                 if r = Some True then
                   (case checkAndRegisterSession w a (sc_Session sc) tr3 of (ok, tr4) \<Rightarrow>
                      if \<not> ok then sticky_waiting w sc a (SlotReleased (ac_ID a) # tr4)
                      else acquired_result w a (if sv_Cache w then StickyRefreshed # tr4 else tr4))
                 else sticky_waiting w sc a tr3)"

section \<open>Layer 2: load\<close>

text \<open>The candidates, and how many a channel restriction kept out.\<close>

fun load_candidates ::
  "gateway_service \<Rightarrow> scope \<Rightarrow> Account list \<Rightarrow> trace \<Rightarrow> (Account list \<times> nat) \<times> trace" where
  "load_candidates w sc [] tr = (([], 0), tr)"
| "load_candidates w sc (a # as) tr =
     (if ac_ID a \<in> set (sc_Excluded sc) then load_candidates w sc as tr
      else case passes (checks_before_channel w sc) a tr of (b1, tr1) \<Rightarrow>
        if \<not> b1 then load_candidates w sc as tr1
        else case channelAllows w sc a tr1 of (b2, tr2) \<Rightarrow>
          if \<not> b2 then apfst (apsnd Suc) (load_candidates w sc as tr2)
          else case passes (checks_after_channel w sc False) a tr2 of (b3, tr3) \<Rightarrow>
            if \<not> b3 then load_candidates w sc as tr3
            else apfst (apfst ((#) a)) (load_candidates w sc as tr3))"

definition soonest_first ::
  "gateway_service \<Rightarrow> accountWithLoad list \<Rightarrow> trace \<Rightarrow> accountWithLoad list \<times> trace" where
  "soonest_first w accounts tr =
     (if gs_PreferSoonestReset (schedulingConfig w)
      then (filterBySoonestReset (an_Now w tr) accounts, Asked # tr) else (accounts, tr))"

lemma soonest_first_subset: "set (fst (soonest_first w xs tr)) \<subseteq> set xs"
  using filterBySoonestReset_subset by (auto simp: soonest_first_def)

text \<open>The account a turn of the loop tries.\<close>

definition pick ::
  "gateway_service \<Rightarrow> scope \<Rightarrow> accountWithLoad list \<Rightarrow> trace \<Rightarrow> accountWithLoad option \<times> trace" where
  "pick w sc available tr =
     (case soonest_first w (filterByMinPriority available) tr of (candidates, tr1) \<Rightarrow>
        (selectByLRU (an_Draw w tr1 0 0) (filterByMinLoadRate candidates) (sc_PreferOAuth sc),
         Asked # tr1))"

lemma pick_mem: "pick w sc available tr = (Some x, tr1) \<Longrightarrow> x \<in> set available"
proof -
  assume "pick w sc available tr = (Some x, tr1)"
  then have "x \<in> set (filterByMinLoadRate (fst (soonest_first w (filterByMinPriority available) tr)))"
    by (auto simp: pick_def split: prod.splits dest: selectByLRU_mem)
  then show ?thesis
    using filterByMinLoadRate_subset soonest_first_subset filterByMinPriority_subset by fast
qed

function load_loop ::
  "gateway_service \<Rightarrow> scope \<Rightarrow> accountWithLoad list \<Rightarrow> trace \<Rightarrow> decision \<times> trace" where
  "load_loop w sc available tr =
     (if available = [] then (None, tr)
      else case pick w sc available tr of
        (None, tr1) \<Rightarrow> (None, tr1)
      | (Some selected, tr1) \<Rightarrow>
          let a = al_account selected;
              others = filter (\<lambda>acc. ac_ID (al_account acc) \<noteq> ac_ID a) available
          in case tryAcquireAccountSlot w a tr1 of (r, tr2) \<Rightarrow>
               if r = Some True then
                 (case checkAndRegisterSession w a (sc_Session sc) tr2 of (ok, tr3) \<Rightarrow>
                    if \<not> ok then load_loop w sc others (SlotReleased (ac_ID a) # tr3)
                    else acquired_result w a
                           (bindGatewayStickySessionDuringSelection w (sc_ProfitGate sc)
                              (sc_Session sc) (ac_ID a) tr3))
               else load_loop w sc others tr2)"
  by pat_completeness auto
termination
proof (relation "measure (\<lambda>(_, _, available, _). length available)", goal_cases)
  case (2 w sc available tr sel tr1 x)
  then show ?case using pick_mem [of w sc available tr x tr1] by (auto intro!: length_filter_less)
next
  case (3 w sc available tr sel tr1 x)
  then show ?case using pick_mem [of w sc available tr x tr1] by (auto intro!: length_filter_less)
qed simp

declare load_loop.simps [simp del]

section \<open>Layer 3: waiting\<close>

definition layer_waiting :: "gateway_service \<Rightarrow> scope \<Rightarrow> Account list \<Rightarrow> trace \<Rightarrow> decision \<times> trace" where
  "layer_waiting w sc candidates tr =
     (let cfg = schedulingConfig w
      in first_to_wait_for w sc (gs_FallbackWaitTimeout cfg) (gs_FallbackMaxWaiting cfg)
           (sortCandidatesForFallback (an_Draw w tr) candidates (sc_PreferOAuth sc)
              (gs_FallbackSelectionMode cfg)) (Asked # tr))"

definition layer_load ::
  "gateway_service \<Rightarrow> scope \<Rightarrow> Account list \<Rightarrow> trace \<Rightarrow> (selection_error + AccountSelectionResult) \<times> trace"
where
  "layer_load w sc accounts tr =
     (case load_candidates w sc accounts tr of ((candidates, restricted), tr1) \<Rightarrow>
        if candidates = [] then
          (Inl (if restricted > 0 then ChannelPricingRestriction else ErrNoAvailableAccounts), tr1)
        else
          case (case an_Loads w tr1 (load_query candidates) of
                  None \<Rightarrow> tryAcquireByLegacyOrder w sc candidates (Asked # tr1)
                | Some loadMap \<Rightarrow> load_loop w sc (with_loads loadMap candidates) (Asked # tr1)) of
            (Some d, tr2) \<Rightarrow> (d, tr2)
          | (None, tr2) \<Rightarrow>
              (case layer_waiting w sc candidates tr2 of
                 (Some d, tr3) \<Rightarrow> (d, tr3)
               | (None, tr3) \<Rightarrow> (Inl ErrNoAvailableAccounts, tr3)))"

end
