(* ===== verification/GatewaySelection.thy ===== *)
theory GatewaySelection
  imports AccountSelection
begin

text \<open>
  The rest of \<^verbatim>\<open>backend/internal/service/gateway_scheduling.go\<close>: which group and platform a
  request is for, the list of its accounts, the selection without load information
  (\<^verbatim>\<open>SelectAccountForModelWithExclusions\<close>), and \<^verbatim>\<open>SelectAccountWithLoadAwareness\<close> itself. Its loop
  without load information may run for ever as far as the code can tell, so the function is a
  \<^theory_text>\<open>partial_function\<close> and \<^const>\<open>None\<close> means that it does not return. Platform names are compared
  without regard to the case of ASCII letters where the code folds cases.
\<close>

section \<open>The group of the request\<close>

definition groupFromContext :: "request \<Rightarrow> int \<Rightarrow> Group option" where
  "groupFromContext rq groupID =
     (case rq_Group rq of
        Some g \<Rightarrow> if IsGroupContextValid (Some g) \<and> gr_ID g = groupID then Some g else None
      | None \<Rightarrow> None)"

definition withGroupContext :: "request \<Rightarrow> Group option \<Rightarrow> request" where
  "withGroupContext rq g =
     (if \<not> IsGroupContextValid g then rq
      else case (rq_Group rq, g) of
             (Some existing, Some g') \<Rightarrow>
               if gr_ID existing = gr_ID g' \<and> IsGroupContextValid (Some existing) then rq
               else rq\<lparr>rq_Group := g\<rparr>
           | _ \<Rightarrow> rq\<lparr>rq_Group := g\<rparr>)"

definition resolveGroupByID ::
  "gateway_service \<Rightarrow> request \<Rightarrow> int \<Rightarrow> trace \<Rightarrow> (selection_error + Group) \<times> trace" where
  "resolveGroupByID w rq groupID tr =
     (case groupFromContext rq groupID of
        Some g \<Rightarrow> (Inr g, tr)
      | None \<Rightarrow>
          (case (if groupID \<in> set (sv_GroupIDs w) then an_Group w tr groupID else None) of
             None \<Rightarrow> (Inl GroupLookupFailed, Asked # tr)
           | Some g \<Rightarrow> (Inr g, Asked # tr)))"

definition known_groups :: "gateway_service \<Rightarrow> request \<Rightarrow> int set" where
  "known_groups w rq = set (sv_GroupIDs w) \<union> (case rq_Group rq of None \<Rightarrow> {} | Some g \<Rightarrow> {gr_ID g})"

lemma resolveGroupByID_known:
  "resolveGroupByID w rq i tr = (Inr g, tr1) \<Longrightarrow> i \<in> known_groups w rq"
  by (auto simp: resolveGroupByID_def groupFromContext_def known_groups_def split: option.splits if_splits)

text \<open>The fallbacks are followed until a group that takes the client; \<open>visited\<close> finds cycles.\<close>

function follow_fallbacks ::
  "gateway_service \<Rightarrow> request \<Rightarrow> int list \<Rightarrow> int \<Rightarrow> trace \<Rightarrow> (selection_error + Group \<times> int) \<times> trace"
where
  "follow_fallbacks w rq visited currentID tr =
     (if currentID \<in> set visited then (Inl FallbackGroupCycle, tr)
      else case resolveGroupByID w rq currentID tr of
        (Inl e, tr1) \<Rightarrow> (Inl e, tr1)
      | (Inr g, tr1) \<Rightarrow>
          if \<not> gr_ClaudeCodeOnly g \<or> rq_ClaudeCode rq then (Inr (g, currentID), tr1)
          else case gr_FallbackGroupID g of
            None \<Rightarrow> (Inl ErrClaudeCodeOnly, tr1)
          | Some i \<Rightarrow> follow_fallbacks w rq (currentID # visited) i tr1)"
  by pat_completeness auto
termination
proof (relation "measure (\<lambda>(w, rq, visited, _, _). card (known_groups w rq - set visited))", goal_cases)
  case (2 w rq visited i tr x tr1 g j)
  then have "i \<in> known_groups w rq" using resolveGroupByID_known [of w rq i tr g tr1] by simp
  moreover have "finite (known_groups w rq)" by (simp add: known_groups_def split: option.split)
  ultimately have "known_groups w rq - set (i # visited) \<subset> known_groups w rq - set visited"
    "finite (known_groups w rq - set visited)" using 2 by auto
  then show ?case by (simp only: in_measure case_prod_conv psubset_card_mono)
qed simp

declare follow_fallbacks.simps [simp del]

definition resolveGatewayGroup ::
  "gateway_service \<Rightarrow> request \<Rightarrow> int option \<Rightarrow> trace \<Rightarrow> (selection_error + Group option \<times> int option) \<times> trace"
where
  "resolveGatewayGroup w rq groupID tr =
     (case groupID of
        None \<Rightarrow> (Inr (None, None), tr)
      | Some i \<Rightarrow>
          (case follow_fallbacks w rq [] i tr of
             (Inl e, tr1) \<Rightarrow> (Inl e, tr1)
           | (Inr (g, j), tr1) \<Rightarrow> (Inr (Some g, Some j), tr1)))"

definition forced_platform :: "request \<Rightarrow> string option" where
  "forced_platform rq = (case rq_ForcePlatform rq of
     Some p \<Rightarrow> if p \<noteq> '''' then Some p else None | None \<Rightarrow> None)"

definition checkClaudeCodeRestriction ::
  "gateway_service \<Rightarrow> request \<Rightarrow> int option \<Rightarrow> trace \<Rightarrow> (selection_error + Group option \<times> int option) \<times> trace"
where
  "checkClaudeCodeRestriction w rq groupID tr =
     (if groupID = None then (Inr (None, groupID), tr)
      else if forced_platform rq \<noteq> None then (Inr (None, groupID), tr)
      else resolveGatewayGroup w rq groupID tr)"

definition composite_platform ::
  "gateway_service \<Rightarrow> Group \<Rightarrow> string \<Rightarrow> trace \<Rightarrow> (selection_error + string \<times> string) \<times> trace" where
  "composite_platform w g requestedModel tr =
     (case an_Composite w tr g requestedModel of
        None \<Rightarrow> (Inl CompositeRouteFailed, Asked # tr)
      | Some None \<Rightarrow> (Inl CompositePlatformUnknown, Asked # tr)
      | Some (Some decision) \<Rightarrow> (Inr decision, Asked # tr))"

definition platform_of_group ::
  "gateway_service \<Rightarrow> Group \<Rightarrow> string \<Rightarrow> trace \<Rightarrow> (selection_error + string \<times> bool) \<times> trace" where
  "platform_of_group w g requestedModel tr =
     (if gr_Platform g = PlatformComposite then
        (case composite_platform w g requestedModel tr of
           (Inl e, tr1) \<Rightarrow> (Inl e, tr1)
         | (Inr (target, _), tr1) \<Rightarrow> (Inr (target, False), tr1))
      else (Inr (gr_Platform g, False), tr))"

definition resolvePlatform ::
  "gateway_service \<Rightarrow> request \<Rightarrow> int option \<Rightarrow> Group option \<Rightarrow> string \<Rightarrow> trace \<Rightarrow>
   (selection_error + string \<times> bool) \<times> trace" where
  "resolvePlatform w rq groupID g requestedModel tr =
     (case forced_platform rq of
        Some p \<Rightarrow> (Inr (p, True), tr)
      | None \<Rightarrow>
          (case map_option trim_space (rq_TargetPlatform rq) of
             Some (c # cs) \<Rightarrow> (Inr (c # cs, False), tr)
           | _ \<Rightarrow>
               (case (g, groupID) of
                  (Some g, _) \<Rightarrow> platform_of_group w g requestedModel tr
                | (None, Some i) \<Rightarrow>
                    (case resolveGroupByID w rq i tr of
                       (Inl e, tr1) \<Rightarrow> (Inl e, tr1)
                     | (Inr g, tr1) \<Rightarrow> platform_of_group w g requestedModel tr1)
                | (None, None) \<Rightarrow> (Inr (PlatformAnthropic, False), tr))))"

definition checkChannelPricingRestriction ::
  "gateway_service \<Rightarrow> int option \<Rightarrow> string \<Rightarrow> trace \<Rightarrow> bool \<times> trace" where
  "checkChannelPricingRestriction w groupID requestedModel tr =
     (if groupID = None \<or> requestedModel = '''' then (False, tr)
      else (an_PricingRestricted w tr groupID requestedModel, Asked # tr))"

definition needsUpstreamChannelRestrictionCheck ::
  "gateway_service \<Rightarrow> int option \<Rightarrow> trace \<Rightarrow> bool \<times> trace" where
  "needsUpstreamChannelRestrictionCheck w groupID tr =
     (if groupID = None then (False, tr) else (an_UpstreamCheck w tr groupID, Asked # tr))"

section \<open>The accounts of the request\<close>

definition is_grok :: "string \<Rightarrow> bool" where
  "is_grok platform \<longleftrightarrow> map ascii_lower platform = PlatformGrok"

fun filterAccountsBySchedulingThreshold ::
  "gateway_service \<Rightarrow> Account list \<Rightarrow> trace \<Rightarrow> Account list \<times> trace" where
  "filterAccountsBySchedulingThreshold w [] tr = ([], tr)"
| "filterAccountsBySchedulingThreshold w (a # as) tr =
     (if an_ThresholdBlocked w tr a then filterAccountsBySchedulingThreshold w as (Asked # tr)
      else apfst ((#) a) (filterAccountsBySchedulingThreshold w as (Asked # tr)))"

definition filter_grok :: "gateway_service \<Rightarrow> string \<Rightarrow> Account list \<Rightarrow> trace \<Rightarrow> Account list \<times> trace" where
  "filter_grok w platform accounts tr =
     (if is_grok platform then (filter (an_GrokFree w tr) accounts, Asked # tr) else (accounts, tr))"

definition listSchedulableAccounts ::
  "gateway_service \<Rightarrow> int option \<Rightarrow> string \<Rightarrow> bool \<Rightarrow> trace \<Rightarrow> (Account list \<times> bool) option \<times> trace"
where
  "listSchedulableAccounts w groupID platform hasForcePlatform tr =
     (if sv_SchedulerSnapshot w then
        (case an_Snapshot w tr groupID platform hasForcePlatform of
           None \<Rightarrow> (None, Asked # tr)
         | Some (accounts, useMixed) \<Rightarrow>
             (case filterAccountsBySchedulingThreshold w accounts (Asked # tr) of (accounts1, tr1) \<Rightarrow>
                case filter_grok w platform accounts1 tr1 of (accounts2, tr2) \<Rightarrow>
                  (Some (accounts2, useMixed), tr2)))
      else if (platform = PlatformAnthropic \<or> platform = PlatformGemini) \<and> \<not> hasForcePlatform then
        (let platforms = [platform, PlatformAntigravity];
             q = (case groupID of
                    Some i \<Rightarrow> ByGroup i platforms
                  | None \<Rightarrow> if sv_SimpleMode w then ByPlatforms platforms else Ungrouped platforms)
         in case an_Accounts w tr q of
              None \<Rightarrow> (None, Asked # tr)
            | Some accounts \<Rightarrow>
                (case filterAccountsBySchedulingThreshold w
                        (filter (\<lambda>a. \<not> (ac_Platform a = PlatformAntigravity \<and>
                                       \<not> IsMixedSchedulingEnabled a)) accounts) (Asked # tr) of
                   (accounts1, tr1) \<Rightarrow> (Some (accounts1, True), tr1)))
      else
        (let q = (if sv_SimpleMode w then ByPlatforms [platform]
                  else case groupID of
                         Some i \<Rightarrow> ByGroup i [platform] | None \<Rightarrow> Ungrouped [platform])
         in case an_Accounts w tr q of
              None \<Rightarrow> (None, Asked # tr)
            | Some accounts \<Rightarrow>
                (case filterAccountsBySchedulingThreshold w accounts (Asked # tr) of (accounts1, tr1) \<Rightarrow>
                   case filter_grok w platform accounts1 tr1 of (accounts2, tr2) \<Rightarrow>
                     (Some (accounts2, False), tr2))))"

definition withRPMPrefetch ::
  "gateway_service \<Rightarrow> Account list \<Rightarrow> scope \<Rightarrow> trace \<Rightarrow> scope \<times> trace" where
  "withRPMPrefetch w accounts sc tr =
     (if \<not> sv_RPMCache w then (sc, tr)
      else let ids = map ac_ID (filter (\<lambda>a. IsAnthropicOAuthOrSetupToken a \<and> GetBaseRPM a > 0) accounts)
           in if ids = [] then (sc, tr)
              else case an_RPMBatch w tr ids of
                     None \<Rightarrow> (sc, Asked # tr)
                   | Some counts \<Rightarrow> (sc\<lparr>sc_RPM := counts\<rparr>, Asked # tr))"

definition getSchedulableAccount ::
  "gateway_service \<Rightarrow> int \<Rightarrow> trace \<Rightarrow> Account option option \<times> trace" where
  "getSchedulableAccount w accountID tr =
     (case an_Account w tr accountID of
        None \<Rightarrow> (None, Asked # tr)
      | Some None \<Rightarrow> (Some None, Asked # tr)
      | Some (Some a) \<Rightarrow>
          if an_ThresholdBlocked w (Asked # tr) a then (Some None, Asked # Asked # tr)
          else if ac_Platform a = PlatformGrok \<and> \<not> an_GrokFree w (Asked # Asked # tr) a
          then (Some None, Asked # Asked # Asked # tr)
          else (Some (Some a), Asked # Asked # Asked # tr))"

section \<open>Selection without load information\<close>

definition routingAccountIDsForRequest ::
  "gateway_service \<Rightarrow> request \<Rightarrow> int option \<Rightarrow> string \<Rightarrow> string \<Rightarrow> trace \<Rightarrow> int list \<times> trace" where
  "routingAccountIDsForRequest w rq groupID requestedModel platform tr =
     (case groupID of
        None \<Rightarrow> ([], tr)
      | Some i \<Rightarrow>
          if requestedModel = '''' \<or> \<not> modelRoutingAppliesToTargetPlatform platform then ([], tr)
          else case resolveGroupByID w rq i tr of
                 (Inl _, tr1) \<Rightarrow> ([], tr1)
               | (Inr g, tr1) \<Rightarrow>
                   if \<not> modelRoutingAppliesToPlatform platform (gr_Platform g) then ([], tr1)
                   else (GetRoutingAccountIDs g requestedModel, tr1))"

text \<open>The checks these functions make besides those of the layers.\<close>

definition isAccountInGroup :: "scope \<Rightarrow> check" where
  "isAccountInGroup sc a tr =
     ((case sc_GroupID sc of None \<Rightarrow> ac_AccountGroups a = [] | Some i \<Rightarrow> i \<in> set (ac_AccountGroups a)), tr)"

definition onPlatform :: "string \<Rightarrow> check" where
  "onPlatform platform a tr = checked PlatformAllowed a (ac_Platform a = platform) tr"

definition onPlatformOrMixed :: "string \<Rightarrow> check" where
  "onPlatformOrMixed platform a tr = checked PlatformAllowed a (ac_Platform a = platform \<or>
     ac_Platform a = PlatformAntigravity \<and> IsMixedSchedulingEnabled a) tr"

definition antigravityMixed :: check where
  "antigravityMixed a tr =
     (\<not> (ac_Platform a = PlatformAntigravity \<and> \<not> IsMixedSchedulingEnabled a), tr)"

definition privacySet :: "Group option \<Rightarrow> check" where
  "privacySet schedGroup a tr =
     (case schedGroup of
        Some g \<Rightarrow> if gr_RequirePrivacySet g \<and> \<not> IsPrivacySet a then (False, MarkedError (ac_ID a) # tr)
                  else (True, tr)
      | None \<Rightarrow> (True, tr))"

definition stickyUpstreamAllowed :: "gateway_service \<Rightarrow> scope \<Rightarrow> check" where
  "stickyUpstreamAllowed w sc a tr =
     (case needsUpstreamChannelRestrictionCheck w (sc_GroupID sc) tr of (needed, tr1) \<Rightarrow>
        if \<not> needed then (True, tr1)
        else checked ChannelAllowed a (\<not> an_ChannelRestricted w tr1 (sc_GroupID sc) a (sc_Model sc)) tr1)"

definition sticky_core :: "gateway_service \<Rightarrow> scope \<Rightarrow> check list" where
  "sticky_core w sc =
     supportsRequestedModel w sc # checks_after_channel w sc True"

text \<open>The account the session is bound to, when it still serves.\<close>

definition bound_account ::
  "gateway_service \<Rightarrow> scope \<Rightarrow> (int \<Rightarrow> bool) \<Rightarrow> check list \<Rightarrow> trace \<Rightarrow> Account option \<times> trace" where
  "bound_account w sc considered checks tr =
     (if sc_Session sc = '''' \<or> \<not> sv_Cache w then (None, tr)
      else case an_Sticky w tr (derefGroupID (sc_GroupID sc)) (sc_Session sc) of
        None \<Rightarrow> (None, Asked # tr)
      | Some accountID \<Rightarrow>
          if \<not> (accountID > 0 \<and> considered accountID \<and> accountID \<notin> set (sc_Excluded sc))
          then (None, Asked # tr)
          else case getSchedulableAccount w accountID (Asked # tr) of
            (Some (Some a), tr1) \<Rightarrow>
              if shouldClearStickySession w a (sc_Model sc) tr1 then (None, StickyDeleted # Asked # tr1)
              else (case passes checks a (Asked # tr1) of (ok, tr2) \<Rightarrow>
                      (if ok then Some a else None, tr2))
          | (_, tr1) \<Rightarrow> (None, tr1))"

text \<open>The best of the accounts that pass, in one pass over the list.\<close>

fun best_account ::
  "(Account \<Rightarrow> Account \<Rightarrow> bool) \<Rightarrow> (int \<Rightarrow> bool) \<Rightarrow> check list \<Rightarrow> Account list \<Rightarrow> Account option \<Rightarrow> trace \<Rightarrow>
   Account option \<times> trace" where
  "best_account better considered checks [] selected tr = (selected, tr)"
| "best_account better considered checks (a # as) selected tr =
     (if \<not> considered (ac_ID a) then best_account better considered checks as selected tr
      else case passes checks a tr of (ok, tr1) \<Rightarrow>
        if \<not> ok then best_account better considered checks as selected tr1
        else best_account better considered checks as
               (case selected of
                  None \<Rightarrow> Some a
                | Some s \<Rightarrow> if better a s then Some a else Some s) tr1)"

definition better_mixed :: "bool \<Rightarrow> Account \<Rightarrow> Account \<Rightarrow> bool" where
  "better_mixed preferOAuth a s =
     less_priority_last_used
       (preferOAuth \<and> ac_Platform a = PlatformGemini \<and> ac_Platform s = PlatformGemini) a s"

definition scan_checks :: "gateway_service \<Rightarrow> scope \<Rightarrow> Group option \<Rightarrow> check list" where
  "scan_checks w sc schedGroup =
     [isAccountSchedulableForSelection w, isGatewayAccountProfitEligible w, privacySet schedGroup]"

definition sched_group :: "gateway_service \<Rightarrow> int option \<Rightarrow> trace \<Rightarrow> Group option \<times> trace" where
  "sched_group w groupID tr =
     (case groupID of
        None \<Rightarrow> (None, tr)
      | Some i \<Rightarrow> (if i \<in> set (sv_GroupIDs w) then an_Group w tr i else None, Asked # tr))"

definition bind_selected :: "gateway_service \<Rightarrow> scope \<Rightarrow> Account \<Rightarrow> trace \<Rightarrow> trace" where
  "bind_selected w sc a tr =
     (if sc_Session sc \<noteq> '''' \<and> sv_Cache w
      then bindGatewayStickySessionDuringSelection w (sc_ProfitGate sc) (sc_Session sc) (ac_ID a) tr
      else tr)"

text \<open>
  \<open>listed\<close> is the list the routed part has read. The two functions differ in the checks they make,
  in the platforms they list and in who is better.
\<close>

definition select_routed ::
  "gateway_service \<Rightarrow> scope \<Rightarrow> Group option \<Rightarrow> string \<Rightarrow> bool \<Rightarrow> int list \<Rightarrow>
   (scope \<Rightarrow> check list) \<Rightarrow> (scope \<Rightarrow> check list) \<Rightarrow> (Account \<Rightarrow> Account \<Rightarrow> bool) \<Rightarrow> trace \<Rightarrow>
   (selection_error + Account option \<times> Account list option \<times> scope) \<times> trace" where
  "select_routed w sc schedGroup platform hasForcePlatform routingAccountIDs sticky scan better tr =
     (if routingAccountIDs = [] then (Inr (None, None, sc), tr)
      else case bound_account w sc (\<lambda>i. i \<in> set routingAccountIDs) (sticky sc) tr of
        (Some a, tr1) \<Rightarrow> (Inr (Some a, None, sc), tr1)
      | (None, tr1) \<Rightarrow>
          (case listSchedulableAccounts w (sc_GroupID sc) platform hasForcePlatform tr1 of
             (None, tr2) \<Rightarrow> (Inl ListFailed, tr2)
           | (Some (accounts, _), tr2) \<Rightarrow>
               (case withRPMPrefetch w accounts sc tr2 of (sc1, tr3) \<Rightarrow>
                  case best_account better
                         (\<lambda>i. i > 0 \<and> i \<in> set routingAccountIDs \<and> i \<notin> set (sc_Excluded sc))
                         (scan sc1) accounts None tr3 of
                    (Some a, tr4) \<Rightarrow> (Inr (Some a, Some accounts, sc1), bind_selected w sc1 a tr4)
                  | (None, tr4) \<Rightarrow> (Inr (None, Some accounts, sc1), tr4))))"

definition select_any ::
  "gateway_service \<Rightarrow> scope \<Rightarrow> string \<Rightarrow> bool \<Rightarrow> Account list option \<Rightarrow>
   (scope \<Rightarrow> check list) \<Rightarrow> (scope \<Rightarrow> check list) \<Rightarrow> (Account \<Rightarrow> Account \<Rightarrow> bool) \<Rightarrow> trace \<Rightarrow>
   (selection_error + Account) \<times> trace" where
  "select_any w sc platform hasForcePlatform listed sticky scan better tr =
     (case bound_account w sc (\<lambda>_. True) (sticky sc) tr of
        (Some a, tr1) \<Rightarrow> (Inr a, tr1)
      | (None, tr1) \<Rightarrow>
          (case (case listed of
                   Some accounts \<Rightarrow> (Some (accounts, False), tr1)
                 | None \<Rightarrow> listSchedulableAccounts w (sc_GroupID sc) platform hasForcePlatform tr1) of
             (None, tr2) \<Rightarrow> (Inl ListFailed, tr2)
           | (Some (accounts, _), tr2) \<Rightarrow>
               (case withRPMPrefetch w accounts sc tr2 of (sc1, tr3) \<Rightarrow>
                  case needsUpstreamChannelRestrictionCheck w (sc_GroupID sc) tr3 of (needed, tr4) \<Rightarrow>
                    case best_account better (\<lambda>i. i \<notin> set (sc_Excluded sc))
                           (scan (sc1\<lparr>sc_Upstream := needed\<rparr>)) accounts None tr4 of
                      (None, tr5) \<Rightarrow> (Inl ErrNoAvailableAccounts, tr5)
                    | (Some a, tr5) \<Rightarrow> (Inr a, bind_selected w sc1 a tr5))))"

definition selectAccountForModelWithPlatform ::
  "gateway_service \<Rightarrow> request \<Rightarrow> scope \<Rightarrow> string \<Rightarrow> trace \<Rightarrow> (selection_error + Account) \<times> trace" where
  "selectAccountForModelWithPlatform w rq sc platform tr =
     (let better = less_priority_last_used (platform = PlatformGemini);
          hasForcePlatform = (forced_platform rq \<noteq> None)
      in case routingAccountIDsForRequest w rq (sc_GroupID sc) (sc_Model sc) platform tr of (ids, tr1) \<Rightarrow>
         case sched_group w (sc_GroupID sc) tr1 of (schedGroup, tr2) \<Rightarrow>
         case select_routed w sc schedGroup platform hasForcePlatform ids
                (\<lambda>sc. isGatewayAccountProfitEligible w # isAccountInGroup sc # onPlatform platform #
                        sticky_core w sc @ [stickyUpstreamAllowed w sc])
                (\<lambda>sc. scan_checks w sc schedGroup @
                        supportsRequestedModel w sc # checks_after_channel w sc False) better tr2 of
           (Inl e, tr3) \<Rightarrow> (Inl e, tr3)
         | (Inr (Some a, _, _), tr3) \<Rightarrow> (Inr a, tr3)
         | (Inr (None, listed, sc1), tr3) \<Rightarrow>
             select_any w sc1 platform hasForcePlatform listed
               (\<lambda>sc. isGatewayAccountProfitEligible w # isAccountInGroup sc # onPlatform platform #
                       sticky_core w sc)
               (\<lambda>sc. scan_checks w sc schedGroup @
                       supportsRequestedModel w sc # channelAllows w sc # checks_after_channel w sc False)
               better tr3)"

definition selectAccountWithMixedScheduling ::
  "gateway_service \<Rightarrow> request \<Rightarrow> scope \<Rightarrow> string \<Rightarrow> trace \<Rightarrow> (selection_error + Account) \<times> trace" where
  "selectAccountWithMixedScheduling w rq sc nativePlatform tr =
     (let better = better_mixed (nativePlatform = PlatformGemini)
      in case routingAccountIDsForRequest w rq (sc_GroupID sc) (sc_Model sc) nativePlatform tr of (ids, tr1) \<Rightarrow>
         case sched_group w (sc_GroupID sc) tr1 of (schedGroup, tr2) \<Rightarrow>
         case select_routed w sc schedGroup nativePlatform False ids
                (\<lambda>sc. isGatewayAccountProfitEligible w # isAccountInGroup sc #
                        sticky_core w sc @ [onPlatformOrMixed nativePlatform])
                (\<lambda>sc. scan_checks w sc schedGroup @ antigravityMixed #
                        supportsRequestedModel w sc # checks_after_channel w sc False) better tr2 of
           (Inl e, tr3) \<Rightarrow> (Inl e, tr3)
         | (Inr (Some a, _, _), tr3) \<Rightarrow> (Inr a, tr3)
         | (Inr (None, listed, sc1), tr3) \<Rightarrow>
             select_any w sc1 nativePlatform False listed
               (\<lambda>sc. isGatewayAccountProfitEligible w # isAccountInGroup sc #
                       sticky_core w sc @ [stickyUpstreamAllowed w sc, onPlatformOrMixed nativePlatform])
               (\<lambda>sc. scan_checks w sc schedGroup @ antigravityMixed #
                       supportsRequestedModel w sc # channelAllows w sc # checks_after_channel w sc False)
               better tr3)"

definition SelectAccountForModelWithExclusions ::
  "gateway_service \<Rightarrow> request \<Rightarrow> trace \<Rightarrow> (selection_error + Account) \<times> trace" where
  "SelectAccountForModelWithExclusions w rq tr =
     (case (case forced_platform rq of
              Some p \<Rightarrow> (Inr (p, rq_GroupID rq, rq, rq_Model rq), tr)
            | None \<Rightarrow>
                if rq_GroupID rq = None then (Inr (PlatformAnthropic, None, rq, rq_Model rq), tr)
                else case resolveGatewayGroup w rq (rq_GroupID rq) tr of
                  (Inl e, tr1) \<Rightarrow> (Inl e, tr1)
                | (Inr (None, _), tr1) \<Rightarrow> (Inl ErrGroupNotFound, tr1)
                | (Inr (Some g, groupID), tr1) \<Rightarrow>
                    if gr_Platform g = PlatformComposite then
                      (case composite_platform w g (rq_Model rq) tr1 of
                         (Inl e, tr2) \<Rightarrow> (Inl e, tr2)
                       | (Inr (target, upstreamModel), tr2) \<Rightarrow>
                           (Inr (target, groupID, withGroupContext rq (Some g), upstreamModel), tr2))
                    else (Inr (gr_Platform g, groupID, withGroupContext rq (Some g), rq_Model rq), tr1)) of
        (Inl e, tr1) \<Rightarrow> (Inl e, tr1)
      | (Inr (platform, groupID, rq1, requestedModel), tr1) \<Rightarrow>
          (case checkChannelPricingRestriction w groupID requestedModel (Asked # tr1) of (restricted, tr2) \<Rightarrow>
             if restricted then (Inl ChannelPricingRestriction, tr2)
             else
               let sc = \<lparr>sc_GroupID = groupID, sc_Session = rq_SessionHash rq, sc_Model = requestedModel,
                         sc_Excluded = rq_ExcludedIDs rq, sc_Platform = platform, sc_UseMixed = False,
                         sc_PreferOAuth = (platform = PlatformGemini), sc_Upstream = False,
                         sc_ProfitGate = an_ProfitGate w tr1 groupID, sc_RPM = Map.empty\<rparr>
               in case (if (platform = PlatformAnthropic \<or> platform = PlatformGemini) \<and> rq_ForcePlatform rq = None
                        then selectAccountWithMixedScheduling w rq1 sc platform tr2
                        else selectAccountForModelWithPlatform w rq1 sc platform tr2) of
                    (Inl e, tr3) \<Rightarrow> (Inl e, tr3)
                  | (Inr a, tr3) \<Rightarrow>
                      (case hydrateSelectedAccount w a tr3 of
                         (None, tr4) \<Rightarrow> (Inl HydrationFailed, tr4)
                       | (Some h, tr4) \<Rightarrow> (Inr h, tr4))))"

definition SelectAccountForModel ::
  "gateway_service \<Rightarrow> request \<Rightarrow> trace \<Rightarrow> (selection_error + Account) \<times> trace" where
  "SelectAccountForModel w rq tr = SelectAccountForModelWithExclusions w (rq\<lparr>rq_ExcludedIDs := []\<rparr>) tr"

definition SelectAccount ::
  "gateway_service \<Rightarrow> request \<Rightarrow> trace \<Rightarrow> (selection_error + Account) \<times> trace" where
  "SelectAccount w rq tr = SelectAccountForModel w (rq\<lparr>rq_Model := ''''\<rparr>) tr"

section \<open>Selection with load awareness\<close>

text \<open>A wait plan for the account the old selection has chosen.\<close>

definition plan_without_load ::
  "gateway_service \<Rightarrow> int \<Rightarrow> Account \<Rightarrow> trace \<Rightarrow> (selection_error + AccountSelectionResult) \<times> trace" where
  "plan_without_load w stickyAccountID a tr =
     (let cfg = schedulingConfig w;
          fallback = wait_plan a (gs_FallbackWaitTimeout cfg) (gs_FallbackMaxWaiting cfg)
      in if stickyAccountID > 0 \<and> stickyAccountID = ac_ID a \<and> sv_ConcurrencyService w then
           (if an_Waiting w tr (ac_ID a) < gs_StickySessionMaxWaiting cfg
            then newSelectionResult w a False None
                   (Some (wait_plan a (gs_StickySessionWaitTimeout cfg) (gs_StickySessionMaxWaiting cfg)))
                   (Asked # tr)
            else newSelectionResult w a False None (Some fallback) (Asked # tr))
         else newSelectionResult w a False None (Some fallback) tr)"

partial_function (option) select_without_load ::
  "gateway_service \<Rightarrow> request \<Rightarrow> int \<Rightarrow> int list \<Rightarrow> trace \<Rightarrow>
   ((selection_error + AccountSelectionResult) \<times> trace) option" where
  "select_without_load w rq stickyAccountID excluded tr =
     (case SelectAccountForModelWithExclusions w (rq\<lparr>rq_ExcludedIDs := excluded\<rparr>) tr of
        (Inl e, tr1) \<Rightarrow> Some (Inl e, tr1)
      | (Inr a, tr1) \<Rightarrow>
          (case tryAcquireAccountSlot w a tr1 of (r, tr2) \<Rightarrow>
             case checkAndRegisterSession w a (rq_SessionHash rq) tr2 of (ok, tr3) \<Rightarrow>
               if r = Some True then
                 (if \<not> ok then select_without_load w rq stickyAccountID (ac_ID a # excluded)
                                (SlotReleased (ac_ID a) # tr3)
                  else Some (newSelectionResult w a True (Some (ac_ID a)) None tr3))
               else if \<not> ok then select_without_load w rq stickyAccountID (ac_ID a # excluded) tr3
               else Some (plan_without_load w stickyAccountID a tr3)))"

declare select_without_load.simps [code]

definition sticky_account ::
  "gateway_service \<Rightarrow> request \<Rightarrow> int option \<Rightarrow> trace \<Rightarrow> int \<times> trace" where
  "sticky_account w rq groupID tr =
     (let prefetch = (case rq_Prefetched rq of
            Some (g, accountID) \<Rightarrow> if g = derefGroupID groupID \<and> accountID > 0 then accountID else 0
          | None \<Rightarrow> 0)
      in if prefetch > 0 then (prefetch, tr)
         else if rq_SessionHash rq \<noteq> '''' \<and> sv_Cache w then
           (case an_Sticky w tr (derefGroupID groupID) (rq_SessionHash rq) of
              Some accountID \<Rightarrow> (accountID, Asked # tr)
            | None \<Rightarrow> (0, Asked # tr))
         else (0, tr))"

text \<open>The three layers over the accounts that are listed.\<close>

definition select_by_layers ::
  "gateway_service \<Rightarrow> scope \<Rightarrow> Group option \<Rightarrow> int \<Rightarrow> Account list \<Rightarrow> trace \<Rightarrow>
   (selection_error + AccountSelectionResult) \<times> trace" where
  "select_by_layers w sc g stickyAccountID accounts tr =
     (case needsUpstreamChannelRestrictionCheck w (sc_GroupID sc) tr of (needed, tr1) \<Rightarrow>
        let sc1 = sc\<lparr>sc_Upstream := needed\<rparr>;
            routingAccountIDs =
              (case g of
                 None \<Rightarrow> []
               | Some g \<Rightarrow>
                   if sc_Model sc \<noteq> '''' \<and> modelRoutingAppliesToPlatform (sc_Platform sc) (gr_Platform g)
                   then GetRoutingAccountIDs g (sc_Model sc) else [])
        in case layer_routing w sc1 accounts routingAccountIDs stickyAccountID tr1 of
             (Some d, tr2) \<Rightarrow> (d, tr2)
           | (None, tr2) \<Rightarrow>
               (case layer_sticky w sc1 accounts routingAccountIDs stickyAccountID tr2 of
                  (Some d, tr3) \<Rightarrow> (d, tr3)
                | (None, tr3) \<Rightarrow> layer_load w sc1 accounts tr3))"

definition select_with_load ::
  "gateway_service \<Rightarrow> request \<Rightarrow> Group option \<Rightarrow> int option \<Rightarrow> bool \<Rightarrow> int \<Rightarrow> trace \<Rightarrow>
   (selection_error + AccountSelectionResult) \<times> trace" where
  "select_with_load w rq g groupID profitGate stickyAccountID tr =
     (case resolvePlatform w rq groupID g (rq_Model rq) tr of
        (Inl e, tr1) \<Rightarrow> (Inl e, tr1)
      | (Inr (platform, hasForcePlatform), tr1) \<Rightarrow>
          (case listSchedulableAccounts w groupID platform hasForcePlatform tr1 of
             (None, tr2) \<Rightarrow> (Inl ListFailed, tr2)
           | (Some (accounts, useMixed), tr2) \<Rightarrow>
               if accounts = [] then (Inl ErrNoAvailableAccounts, tr2)
               else
                 let sc = \<lparr>sc_GroupID = groupID, sc_Session = rq_SessionHash rq, sc_Model = rq_Model rq,
                           sc_Excluded = rq_ExcludedIDs rq, sc_Platform = platform,
                           sc_UseMixed = useMixed, sc_PreferOAuth = (platform = PlatformGemini),
                           sc_Upstream = False, sc_ProfitGate = profitGate, sc_RPM = Map.empty\<rparr>
                 in case withRPMPrefetch w accounts sc tr2 of (sc1, tr3) \<Rightarrow>
                      select_by_layers w sc1 g stickyAccountID accounts tr3))"

definition SelectAccountWithLoadAwareness ::
  "gateway_service \<Rightarrow> request \<Rightarrow> trace \<Rightarrow> ((selection_error + AccountSelectionResult) \<times> trace) option"
where
  "SelectAccountWithLoadAwareness w rq tr =
     (case checkClaudeCodeRestriction w rq (rq_GroupID rq) tr of
        (Inl e, tr1) \<Rightarrow> Some (Inl e, tr1)
      | (Inr (g, groupID), tr1) \<Rightarrow>
          let rq1 = withGroupContext rq g;
              profitGate = an_ProfitGate w tr1 groupID
          in case checkChannelPricingRestriction w groupID (rq_Model rq) (Asked # tr1) of (restricted, tr2) \<Rightarrow>
               if restricted then Some (Inl ChannelPricingRestriction, tr2)
               else case sticky_account w rq groupID tr2 of (stickyAccountID, tr3) \<Rightarrow>
                 if \<not> sv_ConcurrencyService w \<or> \<not> gs_LoadBatchEnabled (schedulingConfig w)
                 then select_without_load w (rq1\<lparr>rq_GroupID := groupID\<rparr>) stickyAccountID (rq_ExcludedIDs rq) tr3
                 else Some (select_with_load w rq1 g groupID profitGate stickyAccountID tr3))"

end
