(* ===== verification/SelectionTrace.thy ===== *)
theory SelectionTrace
  imports GatewaySelection
begin

text \<open>
  Reasoning about the trace of a selection: how many slots of an account the request holds, which
  checks an account has passed, and that every function only extends the trace. The locale
  \<open>gate_list\<close> is the contract of a list of checks: each records its verdict under its gate and
  does nothing else.
\<close>

section \<open>Slots held\<close>

text \<open>Slots taken and not given back, by account.\<close>

fun held :: "trace \<Rightarrow> int \<Rightarrow> int" where
  "held [] = (\<lambda>_. 0)"
| "held (SlotTried i (Some True) # tr) = (held tr)(i := held tr i + 1)"
| "held (SlotReleased i # tr) = (held tr)(i := held tr i - 1)"
| "held (_ # tr) = held tr"

lemma held_tried [simp]:
  "held (SlotTried i r # tr) = (if r = Some True then (held tr)(i := held tr i + 1) else held tr)"
  by (cases r) auto

fun about_slots :: "event \<Rightarrow> bool" where
  "about_slots (SlotTried _ _) = True"
| "about_slots (SlotReleased _) = True"
| "about_slots _ = False"

lemma held_other: "\<not> about_slots e \<Longrightarrow> held (e # tr) = held tr"
  by (cases e) auto

section \<open>Growing traces\<close>

text \<open>\<open>grows\<close>: more has happened; \<open>asks\<close>: nothing of it with slots.\<close>

definition grows :: "trace \<Rightarrow> trace \<Rightarrow> bool" where
  "grows tr tr' \<longleftrightarrow> (\<exists>new. tr' = new @ tr)"

definition asks :: "trace \<Rightarrow> trace \<Rightarrow> bool" where
  "asks tr tr' \<longleftrightarrow> (\<exists>new. tr' = new @ tr \<and> (\<forall>e \<in> set new. \<not> about_slots e))"

lemma grows_self [simp]: "grows tr tr" by (simp add: grows_def)
lemma grows_Cons [simp]: "grows tr (e # tr)" by (simp add: grows_def)
lemma grows_trans: "grows tr tr1 \<Longrightarrow> grows tr1 tr2 \<Longrightarrow> grows tr tr2"
  by (auto simp: grows_def)
lemma grows_ConsI: "grows tr tr1 \<Longrightarrow> grows tr (e # tr1)"
  by (auto simp: grows_def)
lemma grows_set: "grows tr tr' \<Longrightarrow> e \<in> set tr \<Longrightarrow> e \<in> set tr'"
  by (auto simp: grows_def)

lemma asks_refl [simp]: "asks tr tr" by (simp add: asks_def)
lemma asks_trans: "asks tr tr1 \<Longrightarrow> asks tr1 tr2 \<Longrightarrow> asks tr tr2"
proof -
  assume "asks tr tr1" "asks tr1 tr2"
  then obtain n1 n2 where "tr1 = n1 @ tr" "tr2 = (n2 @ n1) @ tr"
    "\<forall>e \<in> set (n2 @ n1). \<not> about_slots e" by (auto simp: asks_def)
  then show ?thesis unfolding asks_def by blast
qed
lemma asks_Cons: "asks tr tr1 \<Longrightarrow> \<not> about_slots e \<Longrightarrow> asks tr (e # tr1)"
  by (rule asks_trans) (auto simp: asks_def)
lemma asks_one [simp]: "\<not> about_slots e \<Longrightarrow> asks tr (e # tr)"
  by (simp add: asks_Cons)
lemma asks_grows: "asks tr tr' \<Longrightarrow> grows tr tr'"
  by (auto simp: asks_def grows_def)
lemma asks_held: "asks tr tr' \<Longrightarrow> held tr' = held tr"
proof -
  have "\<forall>e \<in> set new. \<not> about_slots e \<Longrightarrow> held (new @ tr) = held tr" for new
    by (induction new) (auto simp: held_other)
  then show "asks tr tr' \<Longrightarrow> held tr' = held tr" by (auto simp: asks_def)
qed

section \<open>Checks\<close>

definition recorded :: "gate \<Rightarrow> check \<Rightarrow> bool" where
  "recorded g c \<longleftrightarrow> (\<forall>a tr. \<exists>b. c a tr = (b, Checked g (ac_ID a) b # tr))"

lemma recordedI: "(\<And>a tr. c a tr = checked g a (f a tr) tr) \<Longrightarrow> recorded g c"
  by (auto simp: recorded_def checked_def)

lemma recorded_checks [simp]:
  "recorded Schedulable (isAccountSchedulableForSelection w)"
  "recorded ProfitEligible (isGatewayAccountProfitEligible w)"
  "recorded PlatformAllowed (isAccountAllowedForPlatform sc)"
  "recorded ModelSupported (supportsRequestedModel w sc)"
  "recorded ChannelAllowed (channelAllows w sc)"
  "recorded ModelSchedulable (isAccountSchedulableForModelSelection w sc)"
  "recorded WithinQuota (isAccountSchedulableForQuota w)"
  "recorded (WithinWindowCost b) (isAccountSchedulableForWindowCost w b)"
  "recorded (WithinRPM b) (isAccountSchedulableForRPM w sc b)"
  by (rule recordedI; simp add: isAccountSchedulableForSelection_def
      isGatewayAccountProfitEligible_def isAccountAllowedForPlatform_def supportsRequestedModel_def
      channelAllows_def isAccountSchedulableForModelSelection_def isAccountSchedulableForQuota_def
      isAccountSchedulableForWindowCost_def isAccountSchedulableForRPM_def)+

definition approved :: "gate set \<Rightarrow> int \<Rightarrow> trace \<Rightarrow> bool" where
  "approved gates i tr \<longleftrightarrow> (\<forall>g \<in> gates. Checked g i True \<in> set tr)"

definition rejected :: "int \<Rightarrow> trace \<Rightarrow> bool" where
  "rejected i tr \<longleftrightarrow> (\<exists>g. Checked g i False \<in> set tr)"

lemma approved_grows: "approved gates i tr \<Longrightarrow> grows tr tr' \<Longrightarrow> approved gates i tr'"
  by (auto simp: approved_def grows_set)

lemma rejected_grows: "rejected i tr \<Longrightarrow> grows tr tr' \<Longrightarrow> rejected i tr'"
  unfolding rejected_def by (metis grows_set)

locale gate_list =
  fixes cs :: "check list" and gs :: "gate list"
  assumes recorded: "list_all2 recorded gs cs"
begin

lemma passes_spec:
  "passes cs a tr = (b, tr') \<Longrightarrow>
   asks tr tr' \<and> (b \<longrightarrow> approved (set gs) (ac_ID a) tr') \<and> (\<not> b \<longrightarrow> rejected (ac_ID a) tr')"
  using recorded
proof (induction gs cs arbitrary: tr rule: list_all2_induct)
  case (Cons g gs c cs)
  obtain b1 where c: "c a tr = (b1, Checked g (ac_ID a) b1 # tr)"
    using Cons.hyps(1) by (auto simp: recorded_def)
  show ?case
  proof (cases b1)
    case True
    then have "passes cs a (Checked g (ac_ID a) True # tr) = (b, tr')" using Cons.prems c by simp
    from Cons.IH [OF this] have IH: "asks (Checked g (ac_ID a) True # tr) tr'"
      "b \<longrightarrow> approved (set gs) (ac_ID a) tr'" "\<not> b \<longrightarrow> rejected (ac_ID a) tr'" by auto
    moreover have "Checked g (ac_ID a) True \<in> set tr'" using grows_set [OF asks_grows [OF IH(1)]] by simp
    moreover have "asks tr tr'" by (rule asks_trans [OF _ IH(1)]) simp
    ultimately show ?thesis by (simp add: approved_def)
  next
    case False
    then show ?thesis using Cons.prems c by (auto simp: rejected_def)
  qed
qed (simp add: approved_def)

lemma passes_all_spec:
  "passes_all cs a tr = (b, tr') \<Longrightarrow>
   asks tr tr' \<and> (b \<longrightarrow> approved (set gs) (ac_ID a) tr') \<and> (\<not> b \<longrightarrow> rejected (ac_ID a) tr')"
  using recorded
proof (induction gs cs arbitrary: tr b rule: list_all2_induct)
  case (Cons g gs c cs)
  obtain b1 where c: "c a tr = (b1, Checked g (ac_ID a) b1 # tr)"
    using Cons.hyps(1) by (auto simp: recorded_def)
  obtain bs where rest: "passes_all cs a (Checked g (ac_ID a) b1 # tr) = (bs, tr')" "b = (b1 \<and> bs)"
    using Cons.prems c by (auto split: prod.splits)
  from Cons.IH [OF rest(1)] have IH: "asks (Checked g (ac_ID a) b1 # tr) tr'"
    "bs \<longrightarrow> approved (set gs) (ac_ID a) tr'" "\<not> bs \<longrightarrow> rejected (ac_ID a) tr'" by auto
  moreover have "Checked g (ac_ID a) b1 \<in> set tr'" using grows_set [OF asks_grows [OF IH(1)]] by simp
  moreover have "asks tr tr'" by (rule asks_trans [OF _ IH(1)]) simp
  ultimately show ?case using rest(2) by (auto simp: approved_def rejected_def)
qed (simp add: approved_def)

end

abbreviation before_gates :: "gate list" where
  "before_gates \<equiv> [Schedulable, ProfitEligible, PlatformAllowed, ModelSupported]"

abbreviation after_gates :: "bool \<Rightarrow> gate list" where
  "after_gates isSticky \<equiv> [ModelSchedulable, WithinQuota, WithinWindowCost isSticky, WithinRPM isSticky]"

abbreviation candidate_gates :: "bool \<Rightarrow> gate list" where
  "candidate_gates isSticky \<equiv> before_gates @ ChannelAllowed # after_gates isSticky"

interpretation before: gate_list "checks_before_channel w sc" before_gates for w sc
  by unfold_locales (simp add: checks_before_channel_def)

interpretation after: gate_list "checks_after_channel w sc isSticky" "after_gates isSticky" for w sc isSticky
  by unfold_locales (simp add: checks_after_channel_def)

interpretation candidate: gate_list "candidate_checks w sc isSticky" "candidate_gates isSticky" for w sc isSticky
  by unfold_locales (simp add: candidate_checks_def checks_before_channel_def checks_after_channel_def)

interpretation sticky: gate_list "sticky_checks w sc"
  "[PlatformAllowed, ProfitEligible, ModelSupported, ChannelAllowed, ModelSchedulable, WithinQuota,
    WithinWindowCost True, WithinRPM True, Schedulable]" for w sc
  by unfold_locales (simp add: sticky_checks_def)

section \<open>What the steps add to the trace\<close>

lemma checkAndRegisterSession_asks:
  "checkAndRegisterSession w a s tr = (ok, tr') \<Longrightarrow>
   asks tr tr' \<and> (\<not> ok \<longrightarrow> SessionTried (ac_ID a) (Some False) \<in> set tr')"
  by (auto simp: checkAndRegisterSession_def Let_def split: if_splits option.splits)

lemma hydrate_asks: "hydrateSelectedAccount w a tr = (h, tr') \<Longrightarrow> asks tr tr'"
  by (auto simp: hydrateSelectedAccount_def Let_def split: if_splits)

lemma newSelectionResult_cases:
  assumes "newSelectionResult w a acquired release plan tr = (d, tr')"
  shows "asks tr tr' \<and> (d = Inl HydrationFailed \<or>
    (\<exists>h. d = Inr \<lparr>sr_Account = h, sr_Acquired = acquired, sr_ReleaseFunc = release, sr_WaitPlan = plan\<rparr>))"
  using assms hydrate_asks [of w a tr]
  by (auto simp: newSelectionResult_def split: prod.splits option.splits)

lemma bind_asks: "asks tr (bindGatewayStickySessionDuringSelection w p s i tr)"
  by (simp add: bindGatewayStickySessionDuringSelection_def BindStickySession_def)

section \<open>What a decision owes\<close>

definition plus_slot :: "int option \<Rightarrow> (int \<Rightarrow> int) \<Rightarrow> int \<Rightarrow> int" where
  "plus_slot r h = (case r of None \<Rightarrow> h | Some i \<Rightarrow> h(i := h i + 1))"

lemma plus_slot_simps [simp]: "plus_slot None h = h" "plus_slot (Some i) h = h(i := h i + 1)"
  by (simp_all add: plus_slot_def)

text \<open>A result is well formed when it has either its slot or a plan to wait for it.\<close>

definition proper :: "AccountSelectionResult \<Rightarrow> bool" where
  "proper r \<longleftrightarrow> (sr_Acquired r \<longleftrightarrow> sr_ReleaseFunc r \<noteq> None) \<and> (sr_Acquired r \<longleftrightarrow> sr_WaitPlan r = None)"

text \<open>Only a failed hydration may leave a slot behind.\<close>

fun settles :: "(int \<Rightarrow> int) \<Rightarrow> decision \<Rightarrow> (int \<Rightarrow> int) \<Rightarrow> bool" where
  "settles h None h' \<longleftrightarrow> h' = h"
| "settles h (Some (Inr r)) h' \<longleftrightarrow> proper r \<and> h' = plus_slot (sr_ReleaseFunc r) h"
| "settles h (Some (Inl e)) h' \<longleftrightarrow> h' = h \<or> e = HydrationFailed \<and> (\<exists>i. h' = plus_slot (Some i) h)"

definition chosen :: "AccountSelectionResult \<Rightarrow> int" where
  "chosen r = (case sr_ReleaseFunc r of
     Some i \<Rightarrow> i | None \<Rightarrow> (case sr_WaitPlan r of Some p \<Rightarrow> wp_AccountID p | None \<Rightarrow> 0))"

text \<open>
  What every layer keeps, for any quality \<open>ok\<close> of an account that lasts as the trace grows: the slots
  are settled, and the account of a result has the quality.
\<close>

definition sound :: "(int \<Rightarrow> trace \<Rightarrow> bool) \<Rightarrow> trace \<Rightarrow> decision \<Rightarrow> trace \<Rightarrow> bool" where
  "sound ok tr d tr' \<longleftrightarrow> grows tr tr' \<and> settles (held tr) d (held tr') \<and>
     (\<forall>r. d = Some (Inr r) \<longrightarrow> ok (chosen r) tr') \<and>
     (\<forall>e. d = Some (Inl e) \<longrightarrow> e = HydrationFailed)"

lemma soundD: "sound ok tr d tr' \<Longrightarrow> grows tr tr'"
  by (simp add: sound_def)

lemma sound_after: "asks tr tr1 \<Longrightarrow> sound ok tr1 d tr' \<Longrightarrow> sound ok tr d tr'"
  unfolding sound_def by (metis asks_grows asks_held grows_trans)

lemma sound_then:
  "sound ok tr None tr1 \<Longrightarrow> sound ok tr1 d tr' \<Longrightarrow> sound ok tr d tr'"
  unfolding sound_def by (metis grows_trans settles.simps(1))

lemma sound_None: "asks tr tr' \<Longrightarrow> sound ok tr None tr'"
  by (simp add: sound_def asks_grows asks_held)

end
