(* ===== verification/SelectionSoundness.thy ===== *)
theory SelectionSoundness
  imports SelectionTrace
begin

text \<open>
  Every layer of the selection settles its slots and chooses only accounts that have passed. The
  locale \<open>lasting\<close> is the contract of a quality of accounts that the layers may be asked to keep; it is
  interpreted on the checks an account has passed.
\<close>

locale lasting =
  fixes ok :: "int \<Rightarrow> trace \<Rightarrow> bool"
  assumes ok_grows: "ok i tr \<Longrightarrow> grows tr tr' \<Longrightarrow> ok i tr'"
begin

abbreviation sound_ok :: "trace \<Rightarrow> decision \<Rightarrow> trace \<Rightarrow> bool" where
  "sound_ok \<equiv> sound ok"

text \<open>\<open>tr0\<close> is the trace before the slot was taken.\<close>

lemma acquired_result_sound:
  assumes "acquired_result w a tr = (d, tr')" "ok (ac_ID a) tr" "grows tr0 tr"
    "held tr = plus_slot (Some (ac_ID a)) (held tr0)"
  shows "sound_ok tr0 d tr'"
proof -
  obtain d' where d: "newSelectionResult w a True (Some (ac_ID a)) None tr = (d', tr')" "d = Some d'"
    using assms(1) by (auto simp: acquired_result_def map_prod_def split: prod.splits)
  have asks: "asks tr tr'" and d': "d' = Inl HydrationFailed \<or> (\<exists>h. d' =
      Inr \<lparr>sr_Account = h, sr_Acquired = True, sr_ReleaseFunc = Some (ac_ID a), sr_WaitPlan = None\<rparr>)"
    using newSelectionResult_cases [OF d(1)] by auto
  have h: "held tr' = plus_slot (Some (ac_ID a)) (held tr0)" using asks_held [OF asks] assms(4) by simp
  have g: "grows tr0 tr'" using grows_trans [OF assms(3) asks_grows [OF asks]] .
  have o: "ok (ac_ID a) tr'" by (rule ok_grows [OF assms(2) asks_grows [OF asks]])
  from d' show ?thesis
  proof
    assume "d' = Inl HydrationFailed"
    with g h d(2) show ?thesis by (auto simp: sound_def)
  next
    assume "\<exists>h. d' =
      Inr \<lparr>sr_Account = h, sr_Acquired = True, sr_ReleaseFunc = Some (ac_ID a), sr_WaitPlan = None\<rparr>"
    with g h o d(2) show ?thesis by (auto simp: sound_def proper_def chosen_def)
  qed
qed

lemma waiting_result_sound:
  assumes "waiting_result w a t m tr = (d, tr')" "ok (ac_ID a) tr"
  shows "sound_ok tr d tr'"
proof -
  obtain d' where d: "newSelectionResult w a False None (Some (wait_plan a t m)) tr = (d', tr')" "d = Some d'"
    using assms(1) by (auto simp: waiting_result_def map_prod_def split: prod.splits)
  have asks: "asks tr tr'" and d': "d' = Inl HydrationFailed \<or> (\<exists>h. d' = Inr \<lparr>sr_Account = h,
      sr_Acquired = False, sr_ReleaseFunc = None, sr_WaitPlan = Some (wait_plan a t m)\<rparr>)"
    using newSelectionResult_cases [OF d(1)] by auto
  have h: "held tr' = held tr" using asks_held [OF asks] .
  have o: "ok (ac_ID a) tr'" by (rule ok_grows [OF assms(2) asks_grows [OF asks]])
  show ?thesis using d' h o asks_grows [OF asks] d(2)
    by (auto simp: sound_def proper_def chosen_def wait_plan_def)
qed

text \<open>
  One account: its slot is tried, then its session. What follows a refusal is \<open>next\<close>, told whether
  the slot had been had.
\<close>

lemma attempt_sound:
  assumes "tryAcquireAccountSlot w a tr = (r, tr1)" "checkAndRegisterSession w a s tr1 = (s_ok, tr2)"
    "r = Some True" "ok (ac_ID a) tr" "asks tr2 tr3"
  shows "\<not> s_ok \<Longrightarrow> sound_ok tr None (SlotReleased (ac_ID a) # tr2)"
    and "acquired_result w a tr3 = (d, tr') \<Longrightarrow> sound_ok tr d tr'"
proof -
  have tr1: "tr1 = SlotTried (ac_ID a) (Some True) # tr"
    using assms(1,3) by (auto simp: tryAcquireAccountSlot_def Let_def)
  have asks: "asks tr1 tr2" using checkAndRegisterSession_asks [OF assms(2)] by simp
  have g: "grows tr tr1" "grows tr tr2" using asks_grows [OF asks] tr1 grows_trans [of tr tr1 tr2] by auto
  have h: "held tr2 = plus_slot (Some (ac_ID a)) (held tr)" using asks_held [OF asks] tr1 by simp
  show "\<not> s_ok \<Longrightarrow> sound_ok tr None (SlotReleased (ac_ID a) # tr2)"
    using g h by (auto simp: sound_def intro: grows_ConsI)
  have g3: "grows tr tr3" using g(2) asks_grows [OF assms(5)] grows_trans by blast
  show "acquired_result w a tr3 = (d, tr') \<Longrightarrow> sound_ok tr d tr'"
    using acquired_result_sound [of w a tr3 d tr' tr] g3 h ok_grows [OF assms(4) g3] asks_held [OF assms(5)]
    by simp
qed

lemma missed_asks:
  "tryAcquireAccountSlot w a tr = (r, tr1) \<Longrightarrow> r \<noteq> Some True \<Longrightarrow> sound_ok tr None tr1"
  by (auto simp: tryAcquireAccountSlot_def Let_def sound_def split: if_splits)

lemma sound_following:
  "sound_ok tr None tr1 \<Longrightarrow> (ok i tr1 \<Longrightarrow> sound_ok tr1 d tr') \<Longrightarrow> ok i tr \<Longrightarrow> sound_ok tr d tr'"
  using sound_then ok_grows soundD by blast

lemma try_in_order_sound:
  "try_in_order w sc as tr = (d, tr') \<Longrightarrow> \<forall>a \<in> set as. ok (ac_ID a) tr \<Longrightarrow> sound_ok tr d tr'"
proof (induction as arbitrary: tr)
  case Nil
  then show ?case by (simp add: sound_None)
next
  case (Cons a as)
  obtain r tr1 where slot: "tryAcquireAccountSlot w a tr = (r, tr1)" by fastforce
  obtain s_ok tr2 where ses: "checkAndRegisterSession w a (sc_Session sc) tr1 = (s_ok, tr2)" by fastforce
  have go_on: "sound_ok tr d tr'" if "sound_ok tr None t" "try_in_order w sc as t = (d, tr')" for t
    using Cons.IH [OF that(2)] that(1) sound_then [OF that(1)] Cons.prems(2) ok_grows [OF _ soundD [OF that(1)]]
    by auto
  have a: "ok (ac_ID a) tr" using Cons.prems(2) by simp
  show ?case
  proof (cases "r = Some True")
    case True
    note att = attempt_sound [OF slot ses True a]
    show ?thesis
    proof (cases s_ok)
      case True
      then show ?thesis using Cons.prems(1) slot ses \<open>r = Some True\<close> att(2) [OF bind_asks] by simp
    next
      case False
      then show ?thesis using Cons.prems(1) slot ses \<open>r = Some True\<close>
        by (intro go_on [OF att(1) [OF asks_refl]]) simp_all
    qed
  next
    case False
    then show ?thesis using Cons.prems(1) slot by (intro go_on [OF missed_asks [OF slot]]) simp_all
  qed
qed

lemma first_to_wait_for_sound:
  "first_to_wait_for w sc t m as tr = (d, tr') \<Longrightarrow> \<forall>a \<in> set as. ok (ac_ID a) tr \<Longrightarrow> sound_ok tr d tr'"
proof (induction as arbitrary: tr)
  case Nil
  then show ?case by (simp add: sound_None)
next
  case (Cons a as)
  obtain s_ok tr1 where ses: "checkAndRegisterSession w a (sc_Session sc) tr = (s_ok, tr1)" by fastforce
  have asks: "asks tr tr1" using checkAndRegisterSession_asks [OF ses] by simp
  note still = ok_grows [OF _ asks_grows [OF asks]]
  show ?case
  proof (cases s_ok)
    case True
    then have "waiting_result w a t m tr1 = (d, tr')" using Cons.prems(1) ses by simp
    from waiting_result_sound [OF this] still Cons.prems(2) sound_after [OF asks] show ?thesis by simp
  next
    case False
    then have "first_to_wait_for w sc t m as tr1 = (d, tr')" using Cons.prems(1) ses by simp
    from Cons.IH [OF this] still Cons.prems(2) sound_after [OF asks] show ?thesis by simp
  qed
qed

lemma load_loop_sound:
  "load_loop w sc available tr = (d, tr') \<Longrightarrow> \<forall>x \<in> set available. ok (ac_ID (al_account x)) tr \<Longrightarrow>
   sound_ok tr d tr'"
proof (induction w sc available tr rule: load_loop.induct)
  case (1 w sc available tr)
  note unfold = load_loop.simps [of w sc available tr]
  show ?case
  proof (cases "available = []")
    case True
    then show ?thesis using "1.prems" unfold by (simp add: sound_None)
  next
    case False
    obtain sel tr1 where pick: "pick w sc available tr = (sel, tr1)" by fastforce
    have asks: "asks tr tr1" using pick
      by (auto simp: pick_def soonest_first_def asks_Cons split: if_splits)
    note still = ok_grows [OF _ asks_grows [OF asks]]
    show ?thesis
    proof (cases sel)
      case None
      then show ?thesis using "1.prems" unfold False pick asks by (simp add: sound_None)
    next
      case (Some x)
      define a where "a = al_account x"
      define others where "others = filter (\<lambda>acc. ac_ID (al_account acc) \<noteq> ac_ID a) available"
      obtain r tr2 where slot: "tryAcquireAccountSlot w a tr1 = (r, tr2)" by fastforce
      obtain s_ok tr3 where ses: "checkAndRegisterSession w a (sc_Session sc) tr2 = (s_ok, tr3)" by fastforce
      have a: "ok (ac_ID a) tr1" using still pick_mem [of w sc available tr x tr1] pick Some "1.prems"(2)
        by (simp add: a_def)
      have run: "(d, tr') = (if r = Some True then
          if \<not> s_ok then load_loop w sc others (SlotReleased (ac_ID a) # tr3)
          else acquired_result w a (bindGatewayStickySessionDuringSelection w (sc_ProfitGate sc)
                  (sc_Session sc) (ac_ID a) tr3)
          else load_loop w sc others tr2)"
        using "1.prems"(1) unfold False pick Some slot ses by (auto simp: a_def others_def Let_def)
      have rest: "\<forall>x \<in> set others. ok (ac_ID (al_account x)) t" if "sound_ok tr1 None t" for t
        using ok_grows [OF still soundD [OF that]] "1.prems"(2) by (simp add: others_def)
      have "sound_ok tr1 d tr'"
      proof (cases "r = Some True")
        case True
        note att = attempt_sound [OF slot ses True a]
        show ?thesis
        proof (cases s_ok)
          case True
          then show ?thesis using run \<open>r = Some True\<close> att(2) [OF bind_asks] by simp
        next
          case False
          have s: "sound_ok tr1 None (SlotReleased (ac_ID a) # tr3)" by (rule att(1) [OF asks_refl False])
          have "load_loop w sc others (SlotReleased (ac_ID a) # tr3) = (d, tr')"
            using run False \<open>r = Some True\<close> by simp
          from "1.IH"(1) [OF \<open>available \<noteq> []\<close> pick [symmetric] Some a_def others_def slot [symmetric]
              True ses [symmetric] False this rest [OF s]]
          show ?thesis using sound_then [OF s] by simp
        qed
      next
        case False
        have s: "sound_ok tr1 None tr2" by (rule missed_asks [OF slot False])
        have "load_loop w sc others tr2 = (d, tr')" using run False by simp
        from "1.IH"(2) [OF \<open>available \<noteq> []\<close> pick [symmetric] Some a_def others_def slot [symmetric]
            False this rest [OF s]]
        show ?thesis using sound_then [OF s] by simp
      qed
      with sound_after [OF asks] show ?thesis by blast
    qed
  qed
qed

end

section \<open>The quality the layers keep\<close>

text \<open>
  An account may serve: it is not excluded and has passed every check, the two limits with a sticky
  reserve only as the account the session is bound to.
\<close>

definition may_serve :: "int list \<Rightarrow> int \<Rightarrow> int \<Rightarrow> trace \<Rightarrow> bool" where
  "may_serve excluded stickyAccountID i tr \<longleftrightarrow> i \<notin> set excluded \<and>
     (\<exists>isSticky. approved (set (candidate_gates isSticky)) i tr \<and> (isSticky \<longrightarrow> i = stickyAccountID))"

interpretation serve: lasting "may_serve excluded stickyAccountID" for excluded stickyAccountID
  by unfold_locales (unfold may_serve_def, blast intro: approved_grows)

lemma may_serveI:
  "i \<notin> set excluded \<Longrightarrow> approved (set (candidate_gates isSticky)) i tr \<Longrightarrow>
   (isSticky \<Longrightarrow> i = stickyAccountID) \<Longrightarrow> may_serve excluded stickyAccountID i tr"
  by (auto simp: may_serve_def)

lemma account_by_id_Some: "account_by_id accounts i = Some a \<Longrightarrow> ac_ID a = i \<and> a \<in> set accounts"
  by (auto simp: account_by_id_def dest!: map_of_SomeD)

section \<open>Layer by layer\<close>

lemma routing_candidates_spec:
  assumes "\<And>i a. byID i = Some a \<Longrightarrow> ac_ID a = i"
  shows "routing_candidates w sc byID ids tr = (as, tr') \<Longrightarrow>
    asks tr tr' \<and> (\<forall>a \<in> set as. may_serve (sc_Excluded sc) st (ac_ID a) tr')"
proof (induction ids arbitrary: tr as)
  case (Cons i ids)
  show ?case
  proof (cases "i \<in> set (sc_Excluded sc) \<or> byID i = None")
    case True
    then show ?thesis using Cons.IH Cons.prems by (auto split: if_splits)
  next
    case False
    then obtain a where a: "byID i = Some a" "i \<notin> set (sc_Excluded sc)" by auto
    obtain b tr1 where p: "passes (candidate_checks w sc False) a tr = (b, tr1)" by fastforce
    obtain as1 where rest: "routing_candidates w sc byID ids tr1 = (as1, tr')"
      and as: "as = (if b then a # as1 else as1)" using Cons.prems a p by (auto split: prod.splits)
    note one = candidate.passes_spec [OF p] and IH = Cons.IH [OF rest]
    have "may_serve (sc_Excluded sc) st (ac_ID a) tr1" if b
      using one that a assms [OF a(1)] by (intro may_serveI [of _ _ False]) auto
    then have "b \<longrightarrow> may_serve (sc_Excluded sc) st (ac_ID a) tr'"
      using serve.ok_grows IH asks_grows by blast
    with one IH as show ?thesis using asks_trans by auto
  qed
qed simp

lemma routed_sticky_sound:
  assumes run: "routed_sticky w sc (account_by_id accounts) ids st tr = (d, tr')"
  shows "sound (may_serve (sc_Excluded sc) st) tr d tr'"
proof (cases "\<not> (sc_Session sc \<noteq> '''' \<and> st > 0 \<and> st \<in> set ids \<and> st \<notin> set (sc_Excluded sc)) \<or>
    account_by_id accounts st = None")
  case True
  then show ?thesis using run unfolding routed_sticky_def Let_def
    by (auto intro: sound_None split: if_splits)
next
  case False
  then obtain a where cond: "sc_Session sc \<noteq> ''''" "st > 0" "st \<in> set ids" "st \<notin> set (sc_Excluded sc)"
    and a: "account_by_id accounts st = Some a" by auto
  have id: "ac_ID a = st" using account_by_id_Some [OF a] by simp
  obtain ok tr1 where p: "passes (candidate_checks w sc True) a tr = (ok, tr1)" by fastforce
  obtain r tr2 where slot: "tryAcquireAccountSlot w a tr1 = (r, tr2)" by fastforce
  obtain s1 tr3 where ses: "checkAndRegisterSession w a (sc_Session sc) tr2 = (s1, tr3)" by fastforce
  obtain s2 tr4 where ses2: "checkAndRegisterSession w a (sc_Session sc) (Asked # tr2) = (s2, tr4)" by fastforce
  note one = candidate.passes_spec [OF p]
  have asks: "asks tr tr1" using one by simp
  have asks2: "asks tr2 tr4" using checkAndRegisterSession_asks [OF ses2] asks_trans [of tr2 "Asked # tr2" tr4] by simp
  have cases: "(d, tr') = (if \<not> ok then (None, tr1)
      else if r = Some True then if \<not> s1 then (None, SlotReleased (ac_ID a) # tr3) else acquired_result w a tr3
      else if an_Waiting w tr2 st < gs_StickySessionMaxWaiting (schedulingConfig w) then
        if \<not> s2 then (None, tr4)
        else waiting_result w a (gs_StickySessionWaitTimeout (schedulingConfig w))
               (gs_StickySessionMaxWaiting (schedulingConfig w)) tr4
      else (None, Asked # tr2))"
    using run cond a p slot ses ses2 unfolding routed_sticky_def Let_def by (auto split: if_splits)
  have "sound (may_serve (sc_Excluded sc) st) tr1 d tr'" if ok
  proof -
    have serves: "may_serve (sc_Excluded sc) st (ac_ID a) tr1"
      using one that cond id by (intro may_serveI [of _ _ True]) auto
    show ?thesis
    proof (cases "r = Some True")
      case True
      from serve.attempt_sound [OF slot ses True serves asks_refl] cases that True
      show ?thesis by (auto split: if_splits)
    next
      case False
      note missed = serve.missed_asks [OF slot False]
      have "may_serve (sc_Excluded sc) st (ac_ID a) tr4"
        by (rule serve.ok_grows [OF serves grows_trans [OF soundD [OF missed] asks_grows [OF asks2]]])
      note waits = sound_after [OF asks2 serve.waiting_result_sound [OF _ this]]
      have "sound (may_serve (sc_Excluded sc) st) tr2 d tr'"
        using cases that False waits sound_None [OF asks2] by (auto split: if_splits intro: sound_None)
      with sound_then [OF missed] show ?thesis by simp
    qed
  qed
  with cases sound_None [OF asks] sound_after [OF asks] show ?thesis by (cases ok) auto
qed

lemma routed_by_load_sound:
  assumes "routed_by_load w sc candidates tr = (d, tr')"
    and serves: "\<forall>a \<in> set candidates. may_serve (sc_Excluded sc) st (ac_ID a) tr"
  shows "sound (may_serve (sc_Excluded sc) st) tr d tr'"
proof -
  define loadMap where "loadMap = (case an_Loads w tr (load_query candidates) of Some m \<Rightarrow> m | None \<Rightarrow> Map.empty)"
  define ordered where "ordered = map al_account (shuffleWithinSortGroups (an_Draw w (Asked # tr))
      (SliceStable less_load_aware (with_loads loadMap candidates)))"
  have sub: "set ordered \<subseteq> set candidates" by (auto simp: ordered_def set_orders with_loads_def)
  obtain d1 tr2 where t: "try_in_order w sc ordered (Asked # Asked # tr) = (d1, tr2)" by fastforce
  have asks: "asks tr (Asked # Asked # tr)" by (simp add: asks_Cons)
  have o: "\<forall>a \<in> set ordered. may_serve (sc_Excluded sc) st (ac_ID a) (Asked # Asked # tr)"
    using serves sub serve.ok_grows asks_grows [OF asks] by blast
  have s1: "sound (may_serve (sc_Excluded sc) st) tr d1 tr2"
    by (rule sound_after [OF asks serve.try_in_order_sound [OF t o]])
  show ?thesis
  proof (cases d1)
    case None
    have o2: "\<forall>a \<in> set ordered. may_serve (sc_Excluded sc) st (ac_ID a) tr2"
      using serves sub serve.ok_grows soundD [OF s1] by blast
    have "first_to_wait_for w sc (gs_StickySessionWaitTimeout (schedulingConfig w))
        (gs_StickySessionMaxWaiting (schedulingConfig w)) ordered tr2 = (d, tr')"
      using assms(1) t None by (simp add: routed_by_load_def Let_def ordered_def loadMap_def)
    from serve.first_to_wait_for_sound [OF this o2] s1 None sound_then show ?thesis by blast
  next
    case (Some x)
    then show ?thesis using assms(1) t s1 by (simp add: routed_by_load_def Let_def ordered_def loadMap_def)
  qed
qed

lemma layer_routing_sound:
  assumes "layer_routing w sc accounts ids st tr = (d, tr')"
  shows "sound (may_serve (sc_Excluded sc) st) tr d tr'"
proof (cases "ids = [] \<or> \<not> sv_ConcurrencyService w")
  case True
  then show ?thesis using assms by (auto simp: layer_routing_def intro: sound_None)
next
  case False
  obtain candidates tr1 where c: "routing_candidates w sc (account_by_id accounts) ids tr = (candidates, tr1)"
    by fastforce
  obtain d2 tr2 where s: "routed_sticky w sc (account_by_id accounts) ids st tr1 = (d2, tr2)" by fastforce
  note cand = routing_candidates_spec [OF _ c, of st] and sticky = routed_sticky_sound [OF s]
  have asks: "asks tr tr1" and serves: "\<forall>a \<in> set candidates. may_serve (sc_Excluded sc) st (ac_ID a) tr1"
    using cand account_by_id_Some by blast+
  have serves2: "\<forall>a \<in> set candidates. may_serve (sc_Excluded sc) st (ac_ID a) tr2"
    using serves serve.ok_grows soundD [OF sticky] by blast
  have "sound (may_serve (sc_Excluded sc) st) tr1 d tr'"
  proof (cases "candidates = []")
    case True
    then show ?thesis using assms False c by (auto simp: layer_routing_def intro: sound_None)
  next
    case cne: False
    show ?thesis
    proof (cases d2)
      case None
      then have "routed_by_load w sc candidates tr2 = (d, tr')"
        using assms False c cne s by (simp add: layer_routing_def)
      from routed_by_load_sound [OF this serves2] sticky None sound_then show ?thesis by blast
    next
      case (Some x)
      then show ?thesis using assms False c cne s sticky by (simp add: layer_routing_def)
    qed
  qed
  with sound_after [OF asks] show ?thesis by blast
qed

lemma sticky_waiting_sound:
  assumes "sticky_waiting w sc a tr = (d, tr')" "may_serve ex st (ac_ID a) tr"
  shows "sound (may_serve ex st) tr d tr'"
proof -
  obtain s1 tr1 where ses: "checkAndRegisterSession w a (sc_Session sc) (Asked # tr) = (s1, tr1)" by fastforce
  have asks: "asks tr tr1" using checkAndRegisterSession_asks [OF ses] asks_trans [of tr "Asked # tr" tr1] by simp
  have o: "may_serve ex st (ac_ID a) tr1" by (rule serve.ok_grows [OF assms(2) asks_grows [OF asks]])
  show ?thesis using assms(1) ses sound_after [OF asks serve.waiting_result_sound [OF _ o]] sound_None [OF asks]
    by (auto simp: sticky_waiting_def Let_def intro: sound_None split: if_splits)
qed

lemma layer_sticky_sound:
  assumes run: "layer_sticky w sc accounts ids st tr = (d, tr')"
  shows "sound (may_serve (sc_Excluded sc) st) tr d tr'"
proof (cases "\<not> (ids = [] \<and> sc_Session sc \<noteq> '''' \<and> st > 0 \<and> st \<notin> set (sc_Excluded sc)) \<or>
    account_by_id accounts st = None")
  case True
  then show ?thesis using run unfolding layer_sticky_def by (auto intro: sound_None split: if_splits)
next
  case False
  then obtain a where cond: "ids = []" "sc_Session sc \<noteq> ''''" "st > 0" "st \<notin> set (sc_Excluded sc)"
    and a: "account_by_id accounts st = Some a" by auto
  have id: "ac_ID a = st" using account_by_id_Some [OF a] by simp
  define clear where "clear = shouldClearStickySession w a (sc_Model sc) tr"
  define tr1 where "tr1 = (if clear then StickyDeleted # Asked # tr else Asked # tr)"
  obtain ok tr2 where p: "passes_all (sticky_checks w sc) a tr1 = (ok, tr2)" by fastforce
  obtain r tr3 where slot: "tryAcquireAccountSlot w a tr2 = (r, tr3)" by fastforce
  obtain s1 tr4 where ses: "checkAndRegisterSession w a (sc_Session sc) tr3 = (s1, tr4)" by fastforce
  have cases: "(d, tr') = (if clear \<or> \<not> ok then (None, tr2)
      else if r = Some True then
        if \<not> s1 then sticky_waiting w sc a (SlotReleased (ac_ID a) # tr4)
        else acquired_result w a (if sv_Cache w then StickyRefreshed # tr4 else tr4)
      else sticky_waiting w sc a tr3)"
    using run cond a p slot ses unfolding layer_sticky_def Let_def
    by (auto simp: clear_def tr1_def split: if_splits)
  note one = sticky.passes_all_spec [OF p]
  have asks: "asks tr tr2" using one asks_trans [of tr tr1 tr2] by (auto simp: tr1_def asks_Cons)
  have "sound (may_serve (sc_Excluded sc) st) tr2 d tr'" if ok: "ok" "\<not> clear"
  proof -
    have gates: "set [PlatformAllowed, ProfitEligible, ModelSupported, ChannelAllowed, ModelSchedulable,
        WithinQuota, WithinWindowCost True, WithinRPM True, Schedulable] = set (candidate_gates True)" by auto
    have serves: "may_serve (sc_Excluded sc) st (ac_ID a) tr2"
      using one ok cond id unfolding gates by (intro may_serveI [of _ _ True]) auto
    have refresh: "asks tr4 (if sv_Cache w then StickyRefreshed # tr4 else tr4)" by simp
    show ?thesis
    proof (cases "r = Some True")
      case True
      note att = serve.attempt_sound [OF slot ses True serves]
      show ?thesis
      proof (cases s1)
        case True
        then show ?thesis using cases ok \<open>r = Some True\<close> att(2) [OF refresh] by simp
      next
        case False
        have s: "sound (may_serve (sc_Excluded sc) st) tr2 None (SlotReleased (ac_ID a) # tr4)"
          by (rule att(1) [OF asks_refl False])
        have "sticky_waiting w sc a (SlotReleased (ac_ID a) # tr4) = (d, tr')"
          using cases ok \<open>r = Some True\<close> False by simp
        from sticky_waiting_sound [OF this serve.ok_grows [OF serves soundD [OF s]]] sound_then [OF s]
        show ?thesis by blast
      qed
    next
      case False
      note missed = serve.missed_asks [OF slot False]
      have "sticky_waiting w sc a tr3 = (d, tr')" using cases ok False by simp
      from sticky_waiting_sound [OF this serve.ok_grows [OF serves soundD [OF missed]]] sound_then [OF missed]
      show ?thesis by blast
    qed
  qed
  with cases sound_None [OF asks] sound_after [OF asks] show ?thesis by (cases "clear \<or> \<not> ok") auto
qed

end
