(* ===== verification/SelectionOutcome.thy ===== *)
theory SelectionOutcome
  imports SelectionSoundness
begin

text \<open>
  The selection as a whole: what \<^const>\<open>layer_load\<close> and the three layers together guarantee, that the
  selection without load information touches no slot before its own attempt, and what the loop
  around it keeps.
\<close>

section \<open>Layer 2 and 3\<close>

text \<open>An account was passed over: excluded, rejected by a check, or its session limit was reached.\<close>

definition passed_over :: "int list \<Rightarrow> int \<Rightarrow> trace \<Rightarrow> bool" where
  "passed_over excluded i tr \<longleftrightarrow>
     i \<in> set excluded \<or> rejected i tr \<or> SessionTried i (Some False) \<in> set tr"

lemma passed_over_grows: "passed_over ex i tr \<Longrightarrow> grows tr tr' \<Longrightarrow> passed_over ex i tr'"
  unfolding passed_over_def using rejected_grows grows_set by metis

lemma load_candidates_spec:
  "load_candidates w sc accounts tr = ((cs, n), tr') \<Longrightarrow>
   asks tr tr' \<and> set cs \<subseteq> set accounts \<and>
   (\<forall>a \<in> set cs. may_serve (sc_Excluded sc) st (ac_ID a) tr') \<and>
   (\<forall>a \<in> set accounts. a \<in> set cs \<or> passed_over (sc_Excluded sc) (ac_ID a) tr')"
proof (induction accounts arbitrary: tr cs n)
  case (Cons a as)
  obtain b1 tr1 where p1: "passes (checks_before_channel w sc) a tr = (b1, tr1)" by fastforce
  obtain b2 tr2 where p2: "channelAllows w sc a tr1 = (b2, tr2)" by fastforce
  obtain b3 tr3 where p3: "passes (checks_after_channel w sc False) a tr2 = (b3, tr3)" by fastforce
  note s1 = before.passes_spec [OF p1] and s3 = after.passes_spec [OF p3]
  have s2: "tr2 = Checked ChannelAllowed (ac_ID a) b2 # tr1"
    using p2 by (auto simp: channelAllows_def checked_def)
  have asks12: "asks tr tr2" using s1 s2 by (simp add: asks_Cons)
  have asks13: "asks tr tr3" using asks12 s3 asks_trans by blast
  have skip: ?case if t: "asks tr t" "passed_over (sc_Excluded sc) (ac_ID a) t"
      "load_candidates w sc as t = ((cs, m), tr')" for t m
  proof -
    note IH = Cons.IH [OF t(3)]
    have "passed_over (sc_Excluded sc) (ac_ID a) tr'"
      using passed_over_grows [OF t(2)] IH asks_grows by blast
    with IH asks_trans [OF t(1)] show ?thesis by auto
  qed
  show ?case
  proof (cases "ac_ID a \<in> set (sc_Excluded sc)")
    case True
    then show ?thesis using Cons.prems by (intro skip [of tr n]) (auto simp: passed_over_def)
  next
    case new: False
    consider "\<not> b1" | "b1" "\<not> b2" | "b1" "b2" "\<not> b3" | "b1" "b2" "b3" by blast
    then show ?thesis
    proof cases
      case 1
      then show ?thesis using Cons.prems new p1 s1 by (intro skip [of tr1 n]) (auto simp: passed_over_def)
    next
      case 2
      then obtain m where "load_candidates w sc as tr2 = ((cs, m), tr')"
        using Cons.prems new p1 p2 by (cases "load_candidates w sc as tr2") auto
      then show ?thesis using 2 s2 asks12 by (intro skip [of tr2 m]) (auto simp: passed_over_def rejected_def)
    next
      case 3
      then show ?thesis using Cons.prems new p1 p2 p3 s3 asks13
        by (intro skip [of tr3 n]) (auto simp: passed_over_def)
    next
      case 4
      then obtain cs1 where rest: "load_candidates w sc as tr3 = ((cs1, n), tr')" "cs = a # cs1"
        using Cons.prems new p1 p2 p3 by (cases "load_candidates w sc as tr3") auto
      note IH = Cons.IH [OF rest(1)]
      have "grows tr1 tr3" by (rule grows_trans [of tr1 tr2]) (use s2 s3 in \<open>auto intro: asks_grows\<close>)
      then have "approved (set before_gates) (ac_ID a) tr3" "approved (set (after_gates False)) (ac_ID a) tr3"
        using s1 s3 4 approved_grows by blast+
      moreover have "Checked ChannelAllowed (ac_ID a) True \<in> set tr3"
        using s2 4 s3 grows_set [OF asks_grows [of tr2 tr3]] by simp
      ultimately have "approved (set (candidate_gates False)) (ac_ID a) tr3" by (auto simp: approved_def)
      then have "may_serve (sc_Excluded sc) st (ac_ID a) tr3"
        using new by (intro may_serveI [of _ _ False]) auto
      then have "may_serve (sc_Excluded sc) st (ac_ID a) tr'"
        using serve.ok_grows IH asks_grows by blast
      with IH rest asks_trans [OF asks13] show ?thesis by auto
    qed
  qed
qed simp

lemma first_to_wait_for_None:
  "first_to_wait_for w sc t m as tr = (None, tr') \<Longrightarrow>
   \<forall>a \<in> set as. SessionTried (ac_ID a) (Some False) \<in> set tr'"
proof (induction as arbitrary: tr)
  case (Cons a as)
  obtain s1 tr1 where ses: "checkAndRegisterSession w a (sc_Session sc) tr = (s1, tr1)" by fastforce
  have waits: "waiting_result w a t m tr1 \<noteq> (None, tr')"
    by (simp add: waiting_result_def map_prod_def split: prod.splits)
  then have run: "\<not> s1" "first_to_wait_for w sc t m as tr1 = (None, tr')"
    using Cons.prems ses by (auto split: if_splits)
  have "grows tr1 tr'"
    using soundD [OF lasting.first_to_wait_for_sound [where ok = "\<lambda>_ _. True", OF _ run(2)]]
    by (simp add: lasting_def)
  with Cons.IH [OF run(2)] checkAndRegisterSession_asks [OF ses] run(1) grows_set show ?case by auto
qed simp

definition settled ::
  "(int \<Rightarrow> trace \<Rightarrow> bool) \<Rightarrow> trace \<Rightarrow> selection_error + AccountSelectionResult \<Rightarrow> trace \<Rightarrow> bool" where
  "settled ok tr d tr' \<longleftrightarrow> grows tr tr' \<and> settles (held tr) (Some d) (held tr') \<and>
     (\<forall>r. d = Inr r \<longrightarrow> ok (chosen r) tr')"

lemma sound_settled: "sound ok tr (Some d) tr' \<Longrightarrow> settled ok tr d tr'"
  by (simp add: sound_def settled_def)

lemma settled_after: "asks tr tr1 \<Longrightarrow> settled ok tr1 d tr' \<Longrightarrow> settled ok tr d tr'"
  unfolding settled_def by (metis asks_grows asks_held grows_trans)

lemma settled_then: "sound ok tr None tr1 \<Longrightarrow> settled ok tr1 d tr' \<Longrightarrow> settled ok tr d tr'"
  unfolding sound_def settled_def by (metis grows_trans settles.simps(1))

lemma settled_error: "asks tr tr' \<Longrightarrow> settled ok tr (Inl e) tr'"
  by (simp add: settled_def asks_grows asks_held)

lemma layer_load_spec:
  assumes run: "layer_load w sc accounts tr = (d, tr')"
  shows "settled (may_serve (sc_Excluded sc) st) tr d tr'"
    and "d = Inl ErrNoAvailableAccounts \<or> d = Inl ChannelPricingRestriction \<Longrightarrow>
      \<forall>a \<in> set accounts. passed_over (sc_Excluded sc) (ac_ID a) tr'"
proof -
  let ?ok = "may_serve (sc_Excluded sc) st"
  obtain cs n tr1 where c: "load_candidates w sc accounts tr = ((cs, n), tr1)" by (metis prod.exhaust)
  note spec = load_candidates_spec [OF c, of st]
  then have asks: "asks tr tr1" by simp
  have "settled ?ok tr1 d tr' \<and>
    (d = Inl ErrNoAvailableAccounts \<or> d = Inl ChannelPricingRestriction \<longrightarrow>
      (\<forall>a \<in> set accounts. passed_over (sc_Excluded sc) (ac_ID a) tr'))"
  proof (cases "cs = []")
    case True
    then show ?thesis using run c spec by (auto simp: layer_load_def settled_error)
  next
    case False
    define step where "step = (case an_Loads w tr1 (load_query cs) of
        None \<Rightarrow> tryAcquireByLegacyOrder w sc cs (Asked # tr1)
      | Some loadMap \<Rightarrow> load_loop w sc (with_loads loadMap cs) (Asked # tr1))"
    obtain d2 tr2 where two: "step = (d2, tr2)" by fastforce
    obtain d3 tr3 where three: "layer_waiting w sc cs tr2 = (d3, tr3)" by fastforce
    have serves: "\<forall>a \<in> set cs. ?ok (ac_ID a) t" if "grows tr1 t" for t
      using spec serve.ok_grows that by blast
    have s2: "sound ?ok tr1 d2 tr2"
    proof (cases "an_Loads w tr1 (load_query cs)")
      case None
      have "try_in_order w sc (sortAccountsByPriorityAndLastUsed (an_Draw w (Asked # tr1)) cs (sc_PreferOAuth sc))
          (Asked # Asked # tr1) = (d2, tr2)" using two None by (simp add: step_def tryAcquireByLegacyOrder_def)
      from serve.try_in_order_sound [OF this] serves [of "Asked # Asked # tr1"] show ?thesis
        by (auto simp: set_orders asks_Cons grows_ConsI intro: sound_after [of tr1 "Asked # Asked # tr1"])
    next
      case (Some loadMap)
      have "load_loop w sc (with_loads loadMap cs) (Asked # tr1) = (d2, tr2)"
        using two Some by (simp add: step_def)
      moreover have "\<forall>x \<in> set (with_loads loadMap cs). ?ok (ac_ID (al_account x)) (Asked # tr1)"
        using serves [of "Asked # tr1"] by (auto simp: with_loads_def)
      ultimately have "sound ?ok (Asked # tr1) d2 tr2" by (rule serve.load_loop_sound)
      then show ?thesis by (rule sound_after [rotated]) simp
    qed
    define order where "order = sortCandidatesForFallback (an_Draw w tr2) cs (sc_PreferOAuth sc)
        (gs_FallbackSelectionMode (schedulingConfig w))"
    have wait: "first_to_wait_for w sc (gs_FallbackWaitTimeout (schedulingConfig w))
        (gs_FallbackMaxWaiting (schedulingConfig w)) order (Asked # tr2) = (d3, tr3)"
      using three by (simp add: layer_waiting_def Let_def order_def)
    have order: "set order = set cs" by (simp add: order_def set_orders)
    have s3: "sound ?ok tr2 d3 tr3"
      by (rule sound_after [OF _ serve.first_to_wait_for_sound [OF wait]])
        (use serves [of "Asked # tr2"] soundD [OF s2] order in \<open>auto intro: grows_ConsI\<close>)
    have res: "(d, tr') = (case d2 of Some x \<Rightarrow> (x, tr2) | None \<Rightarrow>
        (case d3 of Some x \<Rightarrow> (x, tr3) | None \<Rightarrow> (Inl ErrNoAvailableAccounts, tr3)))"
    proof -
      have "layer_load w sc accounts tr = (case step of (Some d, tr2) \<Rightarrow> (d, tr2) | (None, tr2) \<Rightarrow>
          (case layer_waiting w sc cs tr2 of
             (Some d, tr3) \<Rightarrow> (d, tr3) | (None, tr3) \<Rightarrow> (Inl ErrNoAvailableAccounts, tr3)))"
        using c False unfolding layer_load_def step_def by simp
      with run two three show ?thesis by (cases d2; cases d3) simp_all
    qed
    show ?thesis
    proof (cases d2)
      case (Some x)
      then have "d = x" "tr' = tr2" using res by simp_all
      with s2 Some show ?thesis by (auto simp: sound_settled) (auto simp: sound_def)
    next
      case none2: None
      show ?thesis
      proof (cases d3)
        case (Some x)
        then have "d = x" "tr' = tr3" using res none2 by simp_all
        with s2 s3 none2 Some show ?thesis
          by (auto simp: sound_settled intro: settled_then) (auto simp: sound_def)
      next
        case None
        then have dd: "d = Inl ErrNoAvailableAccounts" "tr' = tr3" using res none2 by simp_all
        have refused: "\<forall>a \<in> set cs. SessionTried (ac_ID a) (Some False) \<in> set tr3"
          using first_to_wait_for_None [of w sc _ _ order "Asked # tr2" tr3] wait None order by simp
        have g: "grows tr1 tr3" using soundD [OF s2] soundD [OF s3] grows_trans by blast
        have "passed_over (sc_Excluded sc) (ac_ID a) tr3" if "a \<in> set accounts" for a
          using spec that refused passed_over_grows [OF _ g] unfolding passed_over_def by blast
        moreover have "settled ?ok tr1 d tr'"
          using sound_then [OF s2 [unfolded none2] s3 [unfolded None]] dd
          by (simp add: settled_def sound_def)
        ultimately show ?thesis using dd by simp
      qed
    qed
  qed
  with settled_after [OF asks] show "settled ?ok tr d tr'"
    and "d = Inl ErrNoAvailableAccounts \<or> d = Inl ChannelPricingRestriction \<Longrightarrow>
      \<forall>a \<in> set accounts. passed_over (sc_Excluded sc) (ac_ID a) tr'" by auto
qed

section \<open>The layers together\<close>

lemma needsUpstream_asks:
  "needsUpstreamChannelRestrictionCheck w groupID tr = (b, tr') \<Longrightarrow> asks tr tr'"
  by (auto simp: needsUpstreamChannelRestrictionCheck_def split: if_splits)

lemma select_by_layers_spec:
  assumes run: "select_by_layers w sc g st accounts tr = (d, tr')"
  shows "settled (may_serve (sc_Excluded sc) st) tr d tr'"
    and "d = Inl ErrNoAvailableAccounts \<or> d = Inl ChannelPricingRestriction \<Longrightarrow>
      \<forall>a \<in> set accounts. passed_over (sc_Excluded sc) (ac_ID a) tr'"
proof -
  obtain needed tr1 where n: "needsUpstreamChannelRestrictionCheck w (sc_GroupID sc) tr = (needed, tr1)" by fastforce
  define sc1 where "sc1 = sc\<lparr>sc_Upstream := needed\<rparr>"
  have ex: "sc_Excluded sc1 = sc_Excluded sc" by (simp add: sc1_def)
  define ids where "ids = (case g of None \<Rightarrow> [] | Some g \<Rightarrow>
      if sc_Model sc \<noteq> '''' \<and> modelRoutingAppliesToPlatform (sc_Platform sc) (gr_Platform g)
      then GetRoutingAccountIDs g (sc_Model sc) else [])"
  obtain d2 tr2 where two: "layer_routing w sc1 accounts ids st tr1 = (d2, tr2)" by fastforce
  obtain d3 tr3 where three: "layer_sticky w sc1 accounts ids st tr2 = (d3, tr3)" by fastforce
  note s2 = layer_routing_sound [OF two, unfolded ex] and s3 = layer_sticky_sound [OF three, unfolded ex]
  have res: "(d, tr') = (case d2 of Some x \<Rightarrow> (x, tr2) | None \<Rightarrow>
      (case d3 of Some x \<Rightarrow> (x, tr3) | None \<Rightarrow> layer_load w sc1 accounts tr3))"
    using run n two three unfolding select_by_layers_def
    by (auto simp: sc1_def [symmetric] ids_def [symmetric] Let_def split: option.splits)
  have "settled (may_serve (sc_Excluded sc) st) tr1 d tr' \<and>
    (d = Inl ErrNoAvailableAccounts \<or> d = Inl ChannelPricingRestriction \<longrightarrow>
      (\<forall>a \<in> set accounts. passed_over (sc_Excluded sc) (ac_ID a) tr'))"
  proof (cases d2)
    case (Some x)
    then have "d = x" "tr' = tr2" using res by simp_all
    with s2 Some show ?thesis by (auto simp: sound_settled) (auto simp: sound_def)
  next
    case none2: None
    show ?thesis
    proof (cases d3)
      case (Some x)
      then have "d = x" "tr' = tr3" using res none2 by simp_all
      with s2 s3 none2 Some show ?thesis
        by (auto simp: sound_settled intro: settled_then) (auto simp: sound_def)
    next
      case None
      then have "layer_load w sc1 accounts tr3 = (d, tr')" using res none2 by simp
      from layer_load_spec [OF this, unfolded ex] show ?thesis
        using settled_then [OF sound_then [OF s2 [unfolded none2] s3 [unfolded None]]] by blast
    qed
  qed
  with settled_after [OF needsUpstream_asks [OF n]]
  show "settled (may_serve (sc_Excluded sc) st) tr d tr'"
    and "d = Inl ErrNoAvailableAccounts \<or> d = Inl ChannelPricingRestriction \<Longrightarrow>
      \<forall>a \<in> set accounts. passed_over (sc_Excluded sc) (ac_ID a) tr'" by auto
qed

section \<open>The functions that only ask\<close>

lemma resolveGroupByID_asks: "resolveGroupByID w rq i tr = (x, tr') \<Longrightarrow> asks tr tr'"
  by (auto simp: resolveGroupByID_def split: option.splits if_splits)

lemma follow_fallbacks_asks: "follow_fallbacks w rq visited i tr = (x, tr') \<Longrightarrow> asks tr tr'"
proof (induction w rq visited i tr arbitrary: x tr' rule: follow_fallbacks.induct)
  case (1 w rq visited i tr)
  obtain y tr1 where g: "resolveGroupByID w rq i tr = (y, tr1)" by fastforce
  note asks = resolveGroupByID_asks [OF g]
  show ?case
  proof (cases "i \<in> set visited")
    case True
    then show ?thesis using "1.prems" by (simp add: follow_fallbacks.simps [of w rq visited i tr])
  next
    case False
    show ?thesis
    proof (cases y)
      case (Inl e)
      then show ?thesis using "1.prems" False g asks by (simp add: follow_fallbacks.simps [of w rq visited i tr])
    next
      case (Inr gr)
      show ?thesis
      proof (cases "gr_ClaudeCodeOnly gr \<and> \<not> rq_ClaudeCode rq \<and> gr_FallbackGroupID gr \<noteq> None")
        case True
        then obtain j where j: "gr_FallbackGroupID gr = Some j" by auto
        have "follow_fallbacks w rq (i # visited) j tr1 = (x, tr')"
          using "1.prems" False g Inr True j by (simp add: follow_fallbacks.simps [of w rq visited i tr])
        from "1.IH" [OF False g [symmetric] Inr _ j this] True asks_trans [OF asks] show ?thesis by simp
      next
        case False
        then show ?thesis using "1.prems" \<open>i \<notin> set visited\<close> g Inr asks
          by (auto simp: follow_fallbacks.simps [of w rq visited i tr] split: if_splits)
      qed
    qed
  qed
qed

lemma resolveGatewayGroup_asks: "resolveGatewayGroup w rq groupID tr = (x, tr') \<Longrightarrow> asks tr tr'"
  by (auto simp: resolveGatewayGroup_def split: option.splits prod.splits sum.splits
      dest!: follow_fallbacks_asks)

lemma checkClaudeCodeRestriction_asks: "checkClaudeCodeRestriction w rq groupID tr = (x, tr') \<Longrightarrow> asks tr tr'"
  by (auto simp: checkClaudeCodeRestriction_def split: if_splits dest!: resolveGatewayGroup_asks)

lemma composite_platform_asks: "composite_platform w g m tr = (x, tr') \<Longrightarrow> asks tr tr'"
  by (auto simp: composite_platform_def split: option.splits)

lemma platform_of_group_asks: "platform_of_group w g m tr = (x, tr') \<Longrightarrow> asks tr tr'"
  by (auto simp: platform_of_group_def split: if_splits prod.splits sum.splits dest!: composite_platform_asks)

lemma resolvePlatform_asks: "resolvePlatform w rq groupID g m tr = (x, tr') \<Longrightarrow> asks tr tr'"
  unfolding resolvePlatform_def
  by (auto split: option.splits list.splits prod.splits sum.splits
      dest!: platform_of_group_asks resolveGroupByID_asks intro: asks_trans)

lemma checkChannelPricingRestriction_asks:
  "checkChannelPricingRestriction w groupID m tr = (b, tr') \<Longrightarrow> asks tr tr'"
  by (auto simp: checkChannelPricingRestriction_def split: if_splits)

lemma filterThreshold_asks: "filterAccountsBySchedulingThreshold w as tr = (x, tr') \<Longrightarrow> asks tr tr'"
proof (induction as arbitrary: tr x tr')
  case (Cons a as)
  obtain y t where rest: "filterAccountsBySchedulingThreshold w as (Asked # tr) = (y, t)" by fastforce
  then have "tr' = t" using Cons.prems by (auto split: if_splits)
  with Cons.IH [OF rest] asks_trans [of tr "Asked # tr" t] show ?case by simp
qed simp

lemma filter_grok_asks: "filter_grok w p as tr = (x, tr') \<Longrightarrow> asks tr tr'"
  by (auto simp: filter_grok_def split: if_splits)

lemma listSchedulableAccounts_asks:
  "listSchedulableAccounts w groupID platform force tr = (x, tr') \<Longrightarrow> asks tr tr'"
  unfolding listSchedulableAccounts_def Let_def
  by (auto split: if_splits option.splits prod.splits dest!: filterThreshold_asks filter_grok_asks
      intro: asks_trans asks_trans [of tr "Asked # tr"])

lemma withRPMPrefetch_asks: "withRPMPrefetch w as sc tr = (x, tr') \<Longrightarrow> asks tr tr'"
  by (auto simp: withRPMPrefetch_def Let_def split: if_splits option.splits)

lemma sticky_account_asks: "sticky_account w rq groupID tr = (x, tr') \<Longrightarrow> asks tr tr'"
  by (auto simp: sticky_account_def Let_def split: if_splits option.splits)

lemma getSchedulableAccount_asks: "getSchedulableAccount w i tr = (x, tr') \<Longrightarrow> asks tr tr'"
  by (auto simp: getSchedulableAccount_def asks_Cons split: option.splits if_splits)

lemma routingAccountIDsForRequest_asks:
  "routingAccountIDsForRequest w rq groupID m p tr = (x, tr') \<Longrightarrow> asks tr tr'"
  by (auto simp: routingAccountIDsForRequest_def split: option.splits if_splits prod.splits sum.splits
      dest!: resolveGroupByID_asks)

lemma sched_group_asks: "sched_group w groupID tr = (x, tr') \<Longrightarrow> asks tr tr'"
  by (auto simp: sched_group_def split: option.splits)

text \<open>Checks that need not be recorded.\<close>

definition harmless :: "check \<Rightarrow> bool" where
  "harmless c \<longleftrightarrow> (\<forall>a tr. asks tr (snd (c a tr)))"

lemma recorded_harmless: "recorded g c \<Longrightarrow> harmless c"
  unfolding recorded_def harmless_def by (metis about_slots.simps(4) asks_one snd_conv)

lemma harmless_checks [simp]:
  "harmless (isAccountSchedulableForSelection w)" "harmless (isGatewayAccountProfitEligible w)"
  "harmless (supportsRequestedModel w sc)" "harmless (channelAllows w sc)"
  "harmless (isAccountSchedulableForModelSelection w sc)" "harmless (isAccountSchedulableForQuota w)"
  "harmless (isAccountSchedulableForWindowCost w b)" "harmless (isAccountSchedulableForRPM w sc b)"
  by (rule recorded_harmless, rule recorded_checks)+

lemma harmless_others [simp]:
  "harmless (isAccountInGroup sc)" "harmless (onPlatform p)" "harmless (onPlatformOrMixed p)"
  "harmless antigravityMixed" "harmless (privacySet g)" "harmless (stickyUpstreamAllowed w sc)"
  by (auto simp: harmless_def isAccountInGroup_def onPlatform_def onPlatformOrMixed_def checked_def
      antigravityMixed_def privacySet_def stickyUpstreamAllowed_def needsUpstreamChannelRestrictionCheck_def
      asks_Cons split: option.split)

lemma passes_asks: "list_all harmless cs \<Longrightarrow> passes cs a tr = (b, tr') \<Longrightarrow> asks tr tr'"
proof (induction cs arbitrary: tr)
  case (Cons c cs)
  obtain b1 tr1 where c: "c a tr = (b1, tr1)" by fastforce
  have "harmless c" using Cons.prems(1) by simp
  then have "asks tr tr1" using c unfolding harmless_def by (metis snd_conv)
  with Cons c asks_trans show ?case by (auto split: if_splits)
qed simp

lemma bound_account_asks:
  "list_all harmless cs \<Longrightarrow> bound_account w sc P cs tr = (x, tr') \<Longrightarrow> asks tr tr'"
proof -
  assume cs: "list_all harmless cs" and run: "bound_account w sc P cs tr = (x, tr')"
  show "asks tr tr'"
  proof (cases "sc_Session sc = '''' \<or> \<not> sv_Cache w")
    case True
    then show ?thesis using run by (simp add: bound_account_def)
  next
    case False
    show ?thesis
    proof (cases "an_Sticky w tr (derefGroupID (sc_GroupID sc)) (sc_Session sc)")
      case None
      then show ?thesis using run False by (auto simp: bound_account_def)
    next
      case (Some i)
      obtain y tr1 where y: "getSchedulableAccount w i (Asked # tr) = (y, tr1)" by fastforce
      have a1: "asks tr tr1" by (rule asks_trans [OF _ getSchedulableAccount_asks [OF y]]) simp
      have a2: "asks tr1 t" if "passes cs a (Asked # tr1) = (b, t)" for a b t
        by (rule asks_trans [OF _ passes_asks [OF cs that]]) simp
      show ?thesis using run False Some y a1 asks_trans [OF a1 a2]
        by (auto simp: bound_account_def asks_Cons split: if_splits option.splits prod.splits)
    qed
  qed
qed

lemma best_account_asks:
  "list_all harmless cs \<Longrightarrow> best_account better P cs as s tr = (x, tr') \<Longrightarrow> asks tr tr'"
proof (induction as arbitrary: s tr)
  case (Cons a as)
  obtain b tr1 where c: "passes cs a tr = (b, tr1)" by fastforce
  have "asks tr tr1" by (rule passes_asks [OF Cons.prems(1) c])
  with Cons c asks_trans show ?case by (auto split: if_splits)
qed simp

lemma bind_selected_asks: "asks tr (bind_selected w sc a tr)"
  by (simp add: bind_selected_def bind_asks)

lemma select_routed_asks:
  assumes "\<And>sc. list_all harmless (sticky sc)" "\<And>sc. list_all harmless (scan sc)"
    "select_routed w sc g p force ids sticky scan better tr = (x, tr')"
  shows "asks tr tr'"
proof (cases "ids = []")
  case True
  then show ?thesis using assms(3) by (simp add: select_routed_def)
next
  case False
  obtain y tr1 where b: "bound_account w sc (\<lambda>i. i \<in> set ids) (sticky sc) tr = (y, tr1)" by fastforce
  obtain l tr2 where l: "listSchedulableAccounts w (sc_GroupID sc) p force tr1 = (l, tr2)" by fastforce
  note a1 = bound_account_asks [OF assms(1) b]
  note a2 = asks_trans [OF a1 listSchedulableAccounts_asks [OF l]]
  show ?thesis
  proof (cases "y = None \<and> l \<noteq> None")
    case True
    then obtain accounts m where acc: "l = Some (accounts, m)" by auto
    obtain sc1 tr3 where r: "withRPMPrefetch w accounts sc tr2 = (sc1, tr3)" by fastforce
    obtain z tr4 where best: "best_account better (\<lambda>i. i > 0 \<and> i \<in> set ids \<and> i \<notin> set (sc_Excluded sc))
        (scan sc1) accounts None tr3 = (z, tr4)" by fastforce
    have "asks tr tr4"
      using asks_trans [OF asks_trans [OF a2 withRPMPrefetch_asks [OF r]] best_account_asks [OF assms(2) best]] .
    then show ?thesis using assms(3) False True b l acc r best asks_trans [OF _ bind_selected_asks]
      by (auto simp: select_routed_def split: option.splits)
  next
    case no: False
    then show ?thesis using assms(3) False b l a1 a2
      by (auto simp: select_routed_def split: option.splits)
  qed
qed

lemma select_any_asks:
  assumes "\<And>sc. list_all harmless (sticky sc)" "\<And>sc. list_all harmless (scan sc)"
    "select_any w sc p force listed sticky scan better tr = (x, tr')"
  shows "asks tr tr'"
proof -
  obtain y tr1 where b: "bound_account w sc (\<lambda>_. True) (sticky sc) tr = (y, tr1)" by fastforce
  obtain l tr2 where l: "(case listed of Some accounts \<Rightarrow> (Some (accounts, False), tr1)
      | None \<Rightarrow> listSchedulableAccounts w (sc_GroupID sc) p force tr1) = (l, tr2)" by fastforce
  note a1 = bound_account_asks [OF assms(1) b]
  have a2: "asks tr tr2" using a1 l asks_trans [OF a1 listSchedulableAccounts_asks]
    by (auto split: option.splits)
  show ?thesis
  proof (cases "y = None \<and> l \<noteq> None")
    case True
    then obtain accounts m where acc: "l = Some (accounts, m)" by auto
    obtain sc1 tr3 where r: "withRPMPrefetch w accounts sc tr2 = (sc1, tr3)" by fastforce
    obtain needed tr4 where n: "needsUpstreamChannelRestrictionCheck w (sc_GroupID sc) tr3 = (needed, tr4)" by fastforce
    obtain z tr5 where best: "best_account better (\<lambda>i. i \<notin> set (sc_Excluded sc))
        (scan (sc1\<lparr>sc_Upstream := needed\<rparr>)) accounts None tr4 = (z, tr5)" by fastforce
    have "asks tr tr5"
      using asks_trans [OF asks_trans [OF asks_trans [OF a2 withRPMPrefetch_asks [OF r]] needsUpstream_asks [OF n]]
          best_account_asks [OF assms(2) best]] .
    then show ?thesis using assms(3) True b l acc r n best asks_trans [OF _ bind_selected_asks]
      by (auto simp: select_any_def split: option.splits)
  next
    case no: False
    then show ?thesis using assms(3) b l a1 a2
      by (auto simp: select_any_def split: option.splits)
  qed
qed

lemmas harmless_lists = sticky_core_def scan_checks_def checks_after_channel_def

lemma selectPlatform_asks: "selectAccountForModelWithPlatform w rq sc p tr = (x, tr') \<Longrightarrow> asks tr tr'"
  unfolding selectAccountForModelWithPlatform_def Let_def
  by (auto split: prod.splits sum.splits option.splits simp: harmless_lists
      dest!: routingAccountIDsForRequest_asks sched_group_asks select_routed_asks [rotated 2]
        select_any_asks [rotated 2] intro: asks_trans)

lemma selectMixed_asks: "selectAccountWithMixedScheduling w rq sc p tr = (x, tr') \<Longrightarrow> asks tr tr'"
  unfolding selectAccountWithMixedScheduling_def Let_def
  by (auto split: prod.splits sum.splits option.splits simp: harmless_lists
      dest!: routingAccountIDsForRequest_asks sched_group_asks select_routed_asks [rotated 2]
        select_any_asks [rotated 2] intro: asks_trans)

end
