(* ===== verification/SelectionWithoutLoad.thy ===== *)
theory SelectionWithoutLoad
  imports SelectionOutcome
begin

text \<open>
  The selection without load information and the selection as a whole settle their slots. The cases in
  which the whole selection ends or goes on are collected for the properties.
\<close>

section \<open>Slots\<close>

lemma SelectAccountForModelWithExclusions_asks:
  "SelectAccountForModelWithExclusions w rq tr = (x, tr') \<Longrightarrow> asks tr tr'"
proof -
  assume run: "SelectAccountForModelWithExclusions w rq tr = (x, tr')"
  define front where "front = (case forced_platform rq of
              Some p \<Rightarrow> (Inr (p, rq_GroupID rq, rq, rq_Model rq), tr)
            | None \<Rightarrow>
                if rq_GroupID rq = None then (Inr (PlatformAnthropic, None, rq, rq_Model rq), tr)
                else case resolveGatewayGroup w rq (rq_GroupID rq) tr of
                  (Inl e, tr1) \<Rightarrow> (Inl e, tr1)
                | (Inr (None, _), tr1) \<Rightarrow> (Inl ErrGroupNotFound, tr1)
                | (Inr (Some g, groupID), tr1) \<Rightarrow>
                    if gr_Platform g = PlatformComposite then
                      (case composite_platform w g (rq_Model rq) tr1 of
                         (Inl e, tr2) \<Rightarrow> (Inl e, tr2)
                       | (Inr (target, upstreamModel), tr2) \<Rightarrow>
                           (Inr (target, groupID, withGroupContext rq (Some g), upstreamModel), tr2))
                    else (Inr (gr_Platform g, groupID, withGroupContext rq (Some g), rq_Model rq), tr1))"
  obtain f tr1 where f: "front = (f, tr1)" by fastforce
  have a1: "asks tr tr1" using f unfolding front_def
    by (auto split: option.splits if_splits prod.splits sum.splits
        dest!: resolveGatewayGroup_asks composite_platform_asks intro: asks_trans)
  show ?thesis
  proof (cases f)
    case (Inl e)
    then show ?thesis using run f a1
      unfolding SelectAccountForModelWithExclusions_def front_def [symmetric] by simp
  next
    case (Inr y)
    obtain p groupID rq1 m where y: "y = (p, groupID, rq1, m)" by (metis prod.exhaust)
    obtain restricted tr2 where r: "checkChannelPricingRestriction w groupID m (Asked # tr1) = (restricted, tr2)"
      by fastforce
    have a2: "asks tr tr2"
      by (rule asks_trans [OF a1 asks_trans [OF _ checkChannelPricingRestriction_asks [OF r]]]) simp
    show ?thesis using run f Inr y r a2
      unfolding SelectAccountForModelWithExclusions_def front_def [symmetric] Let_def
      by (auto split: if_splits prod.splits sum.splits option.splits
          dest!: selectPlatform_asks selectMixed_asks hydrate_asks intro: asks_trans)
  qed
qed

lemma newSelectionResult_settled:
  "newSelectionResult w a False None (Some p) tr = (d, tr') \<Longrightarrow> settled (\<lambda>_ _. True) tr d tr'"
  using newSelectionResult_cases [of w a False None "Some p" tr d tr']
  by (auto simp: settled_def asks_grows asks_held proper_def)

lemma plan_without_load_settled:
  "plan_without_load w st a tr = (d, tr') \<Longrightarrow> settled (\<lambda>_ _. True) tr d tr'"
  by (auto simp: plan_without_load_def Let_def split: if_splits dest!: newSelectionResult_settled
      intro: settled_after [of tr "Asked # tr"])

lemma select_without_load_settled:
  assumes "select_without_load w rq st ex tr = Some y"
  shows "settled (\<lambda>_ _. True) tr (fst y) (snd y)"
proof (rule select_without_load.raw_induct [OF _ assms], goal_cases)
  case (1 rec w rq st ex tr y)
  obtain d tr' where y: "y = (d, tr')" by fastforce
  obtain x tr1 where sel: "SelectAccountForModelWithExclusions w (rq\<lparr>rq_ExcludedIDs := ex\<rparr>) tr = (x, tr1)"
    by fastforce
  note asks = SelectAccountForModelWithExclusions_asks [OF sel]
  show ?case
  proof (cases x)
    case (Inl e)
    then show ?thesis using 1(2) sel asks y by (auto simp: settled_error)
  next
    case (Inr a)
    obtain r tr2 where slot: "tryAcquireAccountSlot w a tr1 = (r, tr2)" by fastforce
    obtain ok tr3 where ses: "checkAndRegisterSession w a (rq_SessionHash rq) tr2 = (ok, tr3)" by fastforce
    have run: "Some (d, tr') = (if r = Some True then
          (if \<not> ok then rec w rq st (ac_ID a # ex) (SlotReleased (ac_ID a) # tr3)
           else Some (newSelectionResult w a True (Some (ac_ID a)) None tr3))
        else if \<not> ok then rec w rq st (ac_ID a # ex) tr3
        else Some (plan_without_load w st a tr3))"
      using 1(2) sel Inr slot ses y by (auto split: if_splits)
    have triv: "lasting (\<lambda>_ _. True)" by (simp add: lasting_def)
    have asks3: "asks tr2 tr3" using checkAndRegisterSession_asks [OF ses] by simp
    have "settled (\<lambda>_ _. True) tr1 d tr'"
    proof (cases "r = Some True")
      case True
      note att = lasting.attempt_sound [OF triv slot ses True TrueI asks_refl]
      show ?thesis
      proof (cases ok)
        case ok: True
        have "newSelectionResult w a True (Some (ac_ID a)) None tr3 = (d, tr')" using run True ok by simp
        then have "acquired_result w a tr3 = (Some d, tr')" by (simp add: acquired_result_def)
        from att(2) [OF this] show ?thesis by (rule sound_settled)
      next
        case no: False
        then have "rec w rq st (ac_ID a # ex) (SlotReleased (ac_ID a) # tr3) = Some (d, tr')"
          using run True by simp
        from settled_then [OF att(1) [OF no] 1(1) [OF this, simplified]] show ?thesis .
      qed
    next
      case False
      have missed: "sound (\<lambda>_ _. True) tr1 None tr3"
        by (rule sound_then [OF lasting.missed_asks [OF triv slot False] sound_None [OF asks3]])
      show ?thesis
      proof (cases ok)
        case True
        then have "plan_without_load w st a tr3 = (d, tr')" using run False by simp
        from settled_then [OF missed plan_without_load_settled [OF this]] show ?thesis .
      next
        case no: False
        then have "rec w rq st (ac_ID a # ex) tr3 = Some (d, tr')" using run False by simp
        from settled_then [OF missed 1(1) [OF this, simplified]] show ?thesis .
      qed
    qed
    with settled_after [OF asks] y show ?thesis by simp
  qed
qed

text \<open>The selection as a whole.\<close>

lemma follow_fallbacks_error:
  "follow_fallbacks w rq visited i tr = (Inl e, tr') \<Longrightarrow> e \<noteq> ErrNoAvailableAccounts"
proof (induction w rq visited i tr rule: follow_fallbacks.induct)
  case (1 w rq visited i tr)
  obtain y tr1 where g: "resolveGroupByID w rq i tr = (y, tr1)" by fastforce
  note unfold = follow_fallbacks.simps [of w rq visited i tr, unfolded g prod.case]
  show ?case
  proof (cases "i \<in> set visited \<or> (\<exists>e. y = Inl e)")
    case True
    then show ?thesis using "1.prems" unfold g
      by (auto simp: resolveGroupByID_def split: option.splits if_splits)
  next
    case False
    then obtain h where y: "y = Inr h" by (cases y) auto
    show ?thesis
    proof (cases "gr_FallbackGroupID h")
      case None
      then show ?thesis using "1.prems" unfold y False by (auto split: if_splits)
    next
      case (Some j)
      then have "\<not> (\<not> gr_ClaudeCodeOnly h \<or> rq_ClaudeCode rq)"
        "follow_fallbacks w rq (i # visited) j tr1 = (Inl e, tr')"
        using "1.prems" unfold y False by (auto split: if_splits)
      then show ?thesis using "1.IH" False g [symmetric] y Some by blast
    qed
  qed
qed

lemma front_errors:
  "checkClaudeCodeRestriction w rq groupID tr = (Inl e, tr') \<Longrightarrow> e \<noteq> ErrNoAvailableAccounts"
  "resolvePlatform w rq groupID g m tr = (Inl e, tr') \<Longrightarrow> e \<noteq> ErrNoAvailableAccounts"
  by (auto simp: checkClaudeCodeRestriction_def resolveGatewayGroup_def resolvePlatform_def
      platform_of_group_def composite_platform_def resolveGroupByID_def dest: follow_fallbacks_error
      split: if_splits option.splits prod.splits sum.splits list.splits)

text \<open>With load information, either a list is read and the layers decide, or an earlier error ends it.\<close>

lemma select_with_load_ways:
  assumes "select_with_load w rq g groupID profitGate st tr = (d, tr')"
  obtains e where "d = Inl e" "e \<noteq> ErrNoAvailableAccounts" "asks tr tr'"
  | platform force m tr1 where "d = Inl ErrNoAvailableAccounts" "asks tr tr'"
      "listSchedulableAccounts w groupID platform force tr1 = (Some ([], m), tr')"
  | platform force accounts m tr1 tr2 tr3 sc where
      "listSchedulableAccounts w groupID platform force tr1 = (Some (accounts, m), tr2)" "grows tr2 tr3"
      "asks tr tr3" "sc_Excluded sc = rq_ExcludedIDs rq" "select_by_layers w sc g st accounts tr3 = (d, tr')"
proof -
  obtain p tr1 where p: "resolvePlatform w rq groupID g (rq_Model rq) tr = (p, tr1)" by fastforce
  note a1 = resolvePlatform_asks [OF p]
  show ?thesis
  proof (cases p)
    case (Inl e)
    then show ?thesis using assms p a1 front_errors(2) that(1) [of e] by (auto simp: select_with_load_def)
  next
    case (Inr y)
    obtain platform force where y: "y = (platform, force)" by fastforce
    obtain l tr2 where l: "listSchedulableAccounts w groupID platform force tr1 = (l, tr2)" by fastforce
    have a2: "asks tr tr2" by (rule asks_trans [OF a1 listSchedulableAccounts_asks [OF l]])
    show ?thesis
    proof (cases l)
      case None
      then show ?thesis using assms p Inr y l a2 that(1) [of ListFailed] by (auto simp: select_with_load_def)
    next
      case (Some z)
      obtain accounts m where z: "z = (accounts, m)" by fastforce
      define sc where "sc = \<lparr>sc_GroupID = groupID, sc_Session = rq_SessionHash rq, sc_Model = rq_Model rq,
          sc_Excluded = rq_ExcludedIDs rq, sc_Platform = platform, sc_UseMixed = m,
          sc_PreferOAuth = (platform = PlatformGemini), sc_Upstream = False, sc_ProfitGate = profitGate,
          sc_RPM = Map.empty\<rparr>"
      obtain sc1 tr3 where f: "withRPMPrefetch w accounts sc tr2 = (sc1, tr3)" by fastforce
      note a3 = withRPMPrefetch_asks [OF f]
      have ex: "sc_Excluded sc1 = rq_ExcludedIDs rq"
        using f by (auto simp: withRPMPrefetch_def Let_def sc_def split: if_splits option.splits)
      show ?thesis
      proof (cases "accounts = []")
        case True
        then show ?thesis using assms p Inr y l Some z a2 that(2) [of platform force tr1 m]
          by (auto simp: select_with_load_def)
      next
        case False
        have "select_by_layers w sc1 g st accounts tr3 = (d, tr')"
          using assms p Inr y l Some z False f by (simp add: select_with_load_def sc_def [symmetric])
        then show ?thesis
          by (rule that(3) [OF l [unfolded Some z] asks_grows [OF a3] asks_trans [OF a2 a3] ex])
      qed
    qed
  qed
qed

lemma select_with_load_settled:
  assumes "select_with_load w rq g groupID profitGate st tr = (d, tr')"
  shows "settled (may_serve (rq_ExcludedIDs rq) st) tr d tr'"
  using assms
proof (rule select_with_load_ways, goal_cases)
  case (3 platform force accounts m tr1 tr2 tr3 sc)
  from settled_after [OF 3(3) select_by_layers_spec(1) [OF 3(5)]] show ?case by (simp add: 3(4))
qed (auto simp: settled_error)

lemma settled_weaken: "settled ok tr d tr' \<Longrightarrow> settled (\<lambda>_ _. True) tr d tr'"
  by (simp add: settled_def)

lemma excluded_withGroupContext [simp]: "rq_ExcludedIDs (withGroupContext rq g) = rq_ExcludedIDs rq"
  by (simp add: withGroupContext_def split: option.splits)

text \<open>The front of the selection, and the two ways it goes on.\<close>

lemma SelectAccountWithLoadAwareness_ways:
  assumes "SelectAccountWithLoadAwareness w rq tr = y"
  obtains e tr1 where "y = Some (Inl e, tr1)" "e \<noteq> ErrNoAvailableAccounts" "asks tr tr1"
  | g groupID st tr2 tr3 where "asks tr tr2" "sticky_account w rq groupID tr2 = (st, tr3)" "asks tr tr3"
      "\<not> sv_ConcurrencyService w \<or> \<not> gs_LoadBatchEnabled (schedulingConfig w)"
      "y = select_without_load w ((withGroupContext rq g)\<lparr>rq_GroupID := groupID\<rparr>) st (rq_ExcludedIDs rq) tr3"
  | g groupID profitGate st tr2 tr3 where "asks tr tr2" "sticky_account w rq groupID tr2 = (st, tr3)" "asks tr tr3"
      "y = Some (select_with_load w (withGroupContext rq g) g groupID profitGate st tr3)"
proof -
  obtain x tr1 where x: "checkClaudeCodeRestriction w rq (rq_GroupID rq) tr = (x, tr1)" by fastforce
  note a1 = checkClaudeCodeRestriction_asks [OF x]
  show ?thesis
  proof (cases x)
    case (Inl e)
    then show ?thesis using assms x a1 front_errors(1) that(1) [of e tr1] by (auto simp: SelectAccountWithLoadAwareness_def)
  next
    case (Inr z)
    obtain g groupID where z: "z = (g, groupID)" by fastforce
    obtain b tr2 where r: "checkChannelPricingRestriction w groupID (rq_Model rq) (Asked # tr1) = (b, tr2)" by fastforce
    have a2: "asks tr tr2"
      by (rule asks_trans [OF asks_Cons [OF a1] checkChannelPricingRestriction_asks [OF r]]) simp
    obtain st tr3 where s: "sticky_account w rq groupID tr2 = (st, tr3)" by fastforce
    have a3: "asks tr tr3" by (rule asks_trans [OF a2 sticky_account_asks [OF s]])
    show ?thesis using assms x Inr z r s a2 a3 that
      by (auto simp: SelectAccountWithLoadAwareness_def Let_def split: if_splits)
  qed
qed

lemma SelectAccountWithLoadAwareness_settled:
  assumes "SelectAccountWithLoadAwareness w rq tr = Some (d, tr')"
  shows "settled (\<lambda>_ _. True) tr d tr'"
  using assms
proof (rule SelectAccountWithLoadAwareness_ways, goal_cases)
  case (2 g groupID st tr2 tr3)
  then show ?case using settled_after [OF 2(3) select_without_load_settled] by force
next
  case (3 g groupID profitGate st tr2 tr3)
  then show ?case using settled_after [OF 3(3) settled_weaken [OF select_with_load_settled]] by force
qed (auto simp: settled_error)

end
