(* ===== verification/SelectionOrder.thy ===== *)
theory SelectionOrder
  imports SelectionWithoutLoad
begin

text \<open>
  The order in which the loop over the load tries accounts: by priority, then load, then last use,
  each at most once, up to the first that takes the request. The reference is a sort; the loop
  filters what is left anew on every turn.
\<close>

text \<open>The accounts whose slots were tried, oldest first, and what the loop sorts by.\<close>

fun attempts :: "trace \<Rightarrow> int list" where
  "attempts [] = []"
| "attempts (SlotTried i _ # tr) = attempts tr @ [i]"
| "attempts (_ # tr) = attempts tr"

definition load_key :: "accountWithLoad \<Rightarrow> int \<times> int \<times> go_time option" where
  "load_key x = (ac_Priority (al_account x), li_LoadRate (al_loadInfo x), ac_LastUsedAt (al_account x))"

abbreviation load_id :: "accountWithLoad \<Rightarrow> int" where
  "load_id x \<equiv> ac_ID (al_account x)"

lemma attempts_other: "\<not> about_slots e \<Longrightarrow> attempts (e # tr) = attempts tr"
  by (cases e) auto

lemma asks_attempts: "asks tr tr' \<Longrightarrow> attempts tr' = attempts tr"
proof -
  have "\<forall>e \<in> set new. \<not> about_slots e \<Longrightarrow> attempts (new @ tr) = attempts tr" for new
    by (induction new) (auto simp: attempts_other)
  then show "asks tr tr' \<Longrightarrow> attempts tr' = attempts tr" by (auto simp: asks_def)
qed

lemma pick_asks: "pick w sc available tr = (x, tr1) \<Longrightarrow> asks tr tr1"
  by (auto simp: pick_def soonest_first_def asks_Cons split: if_splits)

text \<open>The filter on the reset never empties a list.\<close>

lemma soonest_end_mem:
  "soonest_end now xs = Some m \<Longrightarrow> \<exists>x \<in> set xs. ac_SessionWindowEnd (al_account x) = Some m \<and> now < m"
proof -
  let ?f = "\<lambda>minEnd acc. case ac_SessionWindowEnd (al_account acc) of None \<Rightarrow> minEnd
     | Some end_ \<Rightarrow> if \<not> now < end_ then minEnd
         else case minEnd of None \<Rightarrow> Some end_ | Some m \<Rightarrow> if end_ < m then Some end_ else minEnd"
  have "foldl ?f m0 xs = Some m \<Longrightarrow> m0 = Some m \<or>
      (\<exists>x \<in> set xs. ac_SessionWindowEnd (al_account x) = Some m \<and> now < m)" for m0
  proof (induction xs arbitrary: m0)
    case (Cons x xs)
    from Cons.prems have "foldl ?f (?f m0 x) xs = Some m" by simp
    from Cons.IH [OF this] show ?case by (auto split: option.splits if_splits)
  qed simp
  from this [of None] show "soonest_end now xs = Some m \<Longrightarrow> ?thesis" by (simp add: soonest_end_def)
qed

lemma filterBySoonestReset_Nil [simp]: "filterBySoonestReset now xs = [] \<longleftrightarrow> xs = []"
proof
  assume "filterBySoonestReset now xs = []"
  then show "xs = []" using soonest_end_mem [of now xs]
    by (fastforce simp: filterBySoonestReset_def filter_empty_conv split: if_splits option.splits)
qed (simp add: filterBySoonestReset_def)

lemma pick_None: "pick w sc available tr = (None, tr1) \<Longrightarrow> available = []"
  by (auto simp: pick_def soonest_first_def split: if_splits)

text \<open>A turn tries an account of the least priority, and without the preference for the soonest reset one that is least in all.\<close>

lemma pick_least:
  assumes "pick w sc available tr = (Some x, tr1)"
  shows "\<forall>y \<in> set available. ac_Priority (al_account x) \<le> ac_Priority (al_account y)"
    and "\<not> gs_PreferSoonestReset (schedulingConfig w) \<Longrightarrow> \<forall>y \<in> set available. load_key x \<le> load_key y"
proof -
  obtain cs t where s: "soonest_first w (filterByMinPriority available) tr = (cs, t)" by fastforce
  have x: "x \<in> set (lru_candidates (filterByMinLoadRate cs))"
    using assms s by (auto simp: pick_def dest: selectByLRU_mem_lru)
  have cs: "set cs \<subseteq> set (filterByMinPriority available)"
    using soonest_first_subset [of w "filterByMinPriority available" tr] s by simp
  show "\<forall>y \<in> set available. ac_Priority (al_account x) \<le> ac_Priority (al_account y)"
    using x cs by (auto simp: lru_candidates_def filterByMinLoadRate filterByMinPriority)
  assume "\<not> gs_PreferSoonestReset (schedulingConfig w)"
  then have "cs = filterByMinPriority available" using s by (simp add: soonest_first_def)
  then have l: "x \<in> set (lru_candidates (filterByMinLoadRate (filterByMinPriority available)))"
    using x by simp
  show "\<forall>y \<in> set available. load_key x \<le> load_key y"
  proof
    fix y assume y: "y \<in> set available"
    have p: "ac_Priority (al_account x) \<le> ac_Priority (al_account y)"
      using l y by (simp add: lru_candidates_def filterByMinLoadRate filterByMinPriority)
    show "load_key x \<le> load_key y"
    proof (cases "y \<in> set (filterByMinPriority available)")
      case False
      then obtain z where "z \<in> set available" "ac_Priority (al_account z) < ac_Priority (al_account y)"
        using y by (auto simp: filterByMinPriority)
      moreover have "ac_Priority (al_account x) \<le> ac_Priority (al_account z)"
        using l \<open>z \<in> set available\<close> by (simp add: lru_candidates_def filterByMinLoadRate filterByMinPriority)
      ultimately show ?thesis by (simp add: load_key_def)
    next
      case inP: True
      have r: "li_LoadRate (al_loadInfo x) \<le> li_LoadRate (al_loadInfo y)"
        using l inP by (simp add: lru_candidates_def filterByMinLoadRate)
      show ?thesis
      proof (cases "y \<in> set (filterByMinLoadRate (filterByMinPriority available))")
        case False
        then obtain z where z: "z \<in> set (filterByMinPriority available)"
            "li_LoadRate (al_loadInfo z) < li_LoadRate (al_loadInfo y)"
          using inP by (auto simp: filterByMinLoadRate)
        moreover have "li_LoadRate (al_loadInfo x) \<le> li_LoadRate (al_loadInfo z)"
          using l z(1) by (simp add: lru_candidates_def filterByMinLoadRate)
        ultimately show ?thesis using p by (auto simp: load_key_def)
      next
        case True
        then have "ac_LastUsedAt (al_account x) \<le> ac_LastUsedAt (al_account y)"
          using l by (simp add: lru_candidates_def)
        with p r show ?thesis by (auto simp: load_key_def)
      qed
    qed
  qed
qed

section \<open>The loop\<close>

definition refused :: "int \<Rightarrow> trace \<Rightarrow> bool" where
  "refused i tr \<longleftrightarrow> (\<exists>r. r \<noteq> Some True \<and> SlotTried i r \<in> set tr) \<or> SessionTried i (Some False) \<in> set tr"

lemma refused_grows: "refused i tr \<Longrightarrow> grows tr tr' \<Longrightarrow> refused i tr'"
  unfolding refused_def using grows_set by metis

lemma decided_attempts:
  assumes "acquired_result w a tr = (d, tr')"
  shows "attempts tr' = attempts tr \<and> grows tr tr' \<and> d \<noteq> None \<and> (\<forall>r. d = Some (Inr r) \<longrightarrow> chosen r = ac_ID a)"
proof -
  obtain d' where d: "newSelectionResult w a True (Some (ac_ID a)) None tr = (d', tr')" "d = Some d'"
    using assms by (auto simp: acquired_result_def map_prod_def split: prod.splits)
  from newSelectionResult_cases [OF d(1)] show ?thesis
    using d(2) by (auto simp: asks_attempts asks_grows chosen_def)
qed

text \<open>One turn of the loop: it ends, or leaves the account behind and goes on.\<close>

lemma load_loop_turn:
  assumes run: "load_loop w sc available tr = (d, tr')" and ne: "available \<noteq> []"
  obtains x tr1 where "pick w sc available tr = (Some x, tr1)"
    "d \<noteq> None" "attempts tr' = attempts tr @ [load_id x]" "\<forall>r. d = Some (Inr r) \<longrightarrow> chosen r = load_id x"
  | x tr1 tr2 where "pick w sc available tr = (Some x, tr1)"
    "load_loop w sc (filter (\<lambda>y. load_id y \<noteq> load_id x) available) tr2 = (d, tr')"
    "attempts tr2 = attempts tr @ [load_id x]" "refused (load_id x) tr2"
proof -
  obtain p tr1 where p: "pick w sc available tr = (p, tr1)" by fastforce
  obtain x where x: "p = Some x" using pick_None [of w sc available tr tr1] p ne by (cases p) auto
  let ?a = "al_account x"
  obtain r tr2 where slot: "tryAcquireAccountSlot w ?a tr1 = (r, tr2)" by fastforce
  obtain ok tr3 where ses: "checkAndRegisterSession w ?a (sc_Session sc) tr2 = (ok, tr3)" by fastforce
  have tr2: "tr2 = SlotTried (ac_ID ?a) r # tr1" using slot by (auto simp: tryAcquireAccountSlot_def Let_def)
  have a1: "attempts tr1 = attempts tr" using pick_asks [OF p] by (rule asks_attempts)
  note a3 = checkAndRegisterSession_asks [OF ses]
  have a3': "attempts tr3 = attempts tr @ [load_id x]" using asks_attempts [OF conjunct1 [OF a3]] a1 tr2 by simp
  note unfold = load_loop.simps [of w sc available tr, unfolded p x, simplified ne if_False, simplified,
      unfolded Let_def slot, simplified]
  show ?thesis
  proof (cases "r = Some True")
    case False
    then show ?thesis using that(2) [of x tr1 tr2] p x run unfold ne a1 tr2 by (auto simp: refused_def)
  next
    case True
    show ?thesis
    proof (cases ok)
      case no: False
      with True show ?thesis using that(2) [of x tr1 "SlotReleased (ac_ID ?a) # tr3"] p x run unfold ne ses a3 a3'
        by (auto simp: refused_def)
    next
      case ok: True
      define t where "t = bindGatewayStickySessionDuringSelection w (sc_ProfitGate sc) (sc_Session sc) (ac_ID ?a) tr3"
      have "acquired_result w ?a t = (d, tr')" using run unfold ne ses True ok t_def by simp
      from decided_attempts [OF this] show ?thesis
        using that(1) [of x tr1] p x a3' asks_attempts [OF bind_asks] t_def by auto
    qed
  qed
qed

section \<open>The order of a sort\<close>

definition loop_order :: "bool \<Rightarrow> accountWithLoad list \<Rightarrow> bool" where
  "loop_order preferSoonest order \<longleftrightarrow> sorted (map (\<lambda>x. ac_Priority (al_account x)) order) \<and>
     (\<not> preferSoonest \<longrightarrow> sorted (map load_key order))"

lemma loop_order_exists: "\<exists>order. mset order = mset xs \<and> loop_order p order"
proof -
  have "sorted (map load_key ys) \<Longrightarrow> sorted (map (\<lambda>x. ac_Priority (al_account x)) ys)" for ys
    by (induction ys) (auto simp: load_key_def)
  from this [of "sort_key load_key xs"] show ?thesis
    by (intro exI [of _ "sort_key load_key xs"]) (simp add: loop_order_def)
qed

lemma remove_by_id:
  "distinct (map load_id xs) \<Longrightarrow> x \<in> set xs \<Longrightarrow>
   mset xs = add_mset x (mset (filter (\<lambda>y. load_id y \<noteq> load_id x) xs))"
proof (induction xs)
  case (Cons y ys)
  show ?case
  proof (cases "x = y")
    case True
    have "load_id z \<noteq> load_id y" if "z \<in> set ys" for z
    proof
      assume "load_id z = load_id y"
      then have "load_id y \<in> load_id ` set ys" using that by (intro rev_image_eqI [of z]) simp_all
      then show False using Cons.prems(1) by simp
    qed
    then have "filter (\<lambda>z. load_id z \<noteq> load_id y) ys = ys" by (simp add: filter_id_conv)
    then show ?thesis using True by simp
  next
    case False
    then have "x \<in> set ys" "load_id y \<noteq> load_id x" using Cons.prems by auto
    then show ?thesis using Cons by simp
  qed
qed simp

text \<open>The account of a turn comes first in some order of all there are.\<close>

lemma picked_first:
  assumes "distinct (map load_id available)" "pick w sc available tr = (Some x, tr1)"
    and "mset rest = mset (filter (\<lambda>y. load_id y \<noteq> load_id x) available)"
    and "loop_order (gs_PreferSoonestReset (schedulingConfig w)) rest"
  shows "mset (x # rest) = mset available \<and> loop_order (gs_PreferSoonestReset (schedulingConfig w)) (x # rest)"
proof -
  have "mset available = add_mset x (mset rest)"
    using remove_by_id [OF assms(1) pick_mem [OF assms(2)]] assms(3) by simp
  moreover have "set rest \<subseteq> set available" using mset_eq_setD [OF assms(3)] by auto
  ultimately show ?thesis using pick_least [OF assms(2)] assms(4) by (auto simp: loop_order_def)
qed

lemma load_loop_grows: "load_loop w sc available tr = (d, tr') \<Longrightarrow> grows tr tr'"
  by (rule soundD [OF lasting.load_loop_sound [where ok = "\<lambda>_ _. True"]]) (simp_all add: lasting_def)

end
