(* ===== verification/SelectionTermination.thy ===== *)
theory SelectionTermination
  imports SelectionWithoutLoad
begin

text \<open>
  The selection without load information returns. Every turn of its loop excludes one account more,
  the account it selects is never an excluded one, and there are only finitely many accounts.
\<close>

text \<open>
  What the stores promise: accounts that are listed or looked up are among \<open>A\<close>, and a lookup
  answers with the account it was asked for.
\<close>

definition answers_within :: "gateway_service \<Rightarrow> int set \<Rightarrow> bool" where
  "answers_within w A \<longleftrightarrow>
     (\<forall>t q as. an_Accounts w t q = Some as \<longrightarrow> ac_ID ` set as \<subseteq> A) \<and>
     (\<forall>t g p f as m. an_Snapshot w t g p f = Some (as, m) \<longrightarrow> ac_ID ` set as \<subseteq> A) \<and>
     (\<forall>t i a. an_Account w t i = Some (Some a) \<longrightarrow> ac_ID a = i \<and> i \<in> A) \<and>
     (\<forall>t i a. an_Hydrated w t i = Some a \<longrightarrow> ac_ID a = i)"

lemma filterThreshold_subset: "set (fst (filterAccountsBySchedulingThreshold w as tr)) \<subseteq> set as"
proof (induction as arbitrary: tr)
  case (Cons a as)
  from Cons [of "Asked # tr"] show ?case by (auto simp: apfst_def map_prod_def split: prod.splits)
qed simp

lemma filter_grok_subset: "set (fst (filter_grok w p as tr)) \<subseteq> set as"
  by (auto simp: filter_grok_def)

text \<open>What is listed was answered.\<close>

lemma listed_from:
  assumes "listSchedulableAccounts w groupID platform force tr = (Some (as, m), tr')"
  obtains bs where "an_Snapshot w tr groupID platform force = Some (bs, m)" "set as \<subseteq> set bs"
  | q bs where "an_Accounts w tr q = Some bs" "set as \<subseteq> set bs"
proof -
  have filters: "set as \<subseteq> set bs" if "filter_grok w platform
      (fst (filterAccountsBySchedulingThreshold w bs t)) (snd (filterAccountsBySchedulingThreshold w bs t)) = (as, tr')" for bs t
    using filter_grok_subset [of w platform "fst (filterAccountsBySchedulingThreshold w bs t)"
        "snd (filterAccountsBySchedulingThreshold w bs t)"] filterThreshold_subset [of w bs t] that by auto
  consider (snapshot) "sv_SchedulerSnapshot w"
    | (mixed) "\<not> sv_SchedulerSnapshot w" "(platform = PlatformAnthropic \<or> platform = PlatformGemini) \<and> \<not> force"
    | (single) "\<not> sv_SchedulerSnapshot w" "\<not> ((platform = PlatformAnthropic \<or> platform = PlatformGemini) \<and> \<not> force)"
    by blast
  then show ?thesis
  proof cases
    case snapshot
    show ?thesis
    proof (cases "an_Snapshot w tr groupID platform force")
      case (Some z)
      obtain bs m' where z: "z = (bs, m')" by fastforce
      have "m' = m" "filter_grok w platform (fst (filterAccountsBySchedulingThreshold w bs (Asked # tr)))
          (snd (filterAccountsBySchedulingThreshold w bs (Asked # tr))) = (as, tr')"
        using assms snapshot Some z by (simp_all add: listSchedulableAccounts_def split: prod.splits)
      then show ?thesis using that(1) [of bs] Some z filters by blast
    qed (use assms snapshot in \<open>simp add: listSchedulableAccounts_def\<close>)
  next
    case mixed
    define q where "q = (case groupID of Some i \<Rightarrow> ByGroup i [platform, PlatformAntigravity]
        | None \<Rightarrow> if sv_SimpleMode w then ByPlatforms [platform, PlatformAntigravity] else Ungrouped [platform, PlatformAntigravity])"
    show ?thesis
    proof (cases "an_Accounts w tr q")
      case (Some bs)
      let ?bs = "filter (\<lambda>a. \<not> (ac_Platform a = PlatformAntigravity \<and> \<not> IsMixedSchedulingEnabled a)) bs"
      have "as = fst (filterAccountsBySchedulingThreshold w ?bs (Asked # tr))"
        using assms mixed Some unfolding listSchedulableAccounts_def Let_def q_def by (simp split: prod.splits)
      then have "set as \<subseteq> set bs" using filterThreshold_subset [of w ?bs "Asked # tr"] by auto
      then show ?thesis using that(2) Some by blast
    qed (use assms mixed in \<open>simp add: listSchedulableAccounts_def q_def\<close>)
  next
    case single
    define q where "q = (if sv_SimpleMode w then ByPlatforms [platform]
        else case groupID of Some i \<Rightarrow> ByGroup i [platform] | None \<Rightarrow> Ungrouped [platform])"
    show ?thesis
    proof (cases "an_Accounts w tr q")
      case (Some bs)
      have "filter_grok w platform (fst (filterAccountsBySchedulingThreshold w bs (Asked # tr)))
          (snd (filterAccountsBySchedulingThreshold w bs (Asked # tr))) = (as, tr')"
        using assms single Some unfolding listSchedulableAccounts_def Let_def q_def by (simp split: prod.splits)
      then show ?thesis using that(2) Some filters by blast
    qed (use assms single in \<open>simp add: listSchedulableAccounts_def q_def\<close>)
  qed
qed

lemma listed_within:
  assumes "answers_within w A" "listSchedulableAccounts w groupID platform force tr = (Some (as, m), tr')"
  shows "ac_ID ` set as \<subseteq> A"
  using assms(2)
proof (rule listed_from)
  fix bs
  assume "an_Snapshot w tr groupID platform force = Some (bs, m)" "set as \<subseteq> set bs"
  then show ?thesis using assms(1) unfolding answers_within_def by blast
next
  fix q bs
  assume "an_Accounts w tr q = Some bs" "set as \<subseteq> set bs"
  then show ?thesis using assms(1) unfolding answers_within_def by blast
qed

text \<open>An account that may be selected.\<close>

definition eligible :: "int set \<Rightarrow> scope \<Rightarrow> Account \<Rightarrow> bool" where
  "eligible A sc a \<longleftrightarrow> ac_ID a \<in> A \<and> ac_ID a \<notin> set (sc_Excluded sc)"

lemma bound_eligible:
  assumes "answers_within w A" "bound_account w sc P cs tr = (Some a, tr')"
  shows "eligible A sc a"
proof -
  obtain i t u where "getSchedulableAccount w i t = (Some (Some a), u)" "i \<notin> set (sc_Excluded sc)"
    using assms(2) unfolding bound_account_def
    by (auto split: if_splits option.splits prod.splits)
  then have "an_Account w t i = Some (Some a)" "i \<notin> set (sc_Excluded sc)"
    by (auto simp: getSchedulableAccount_def split: option.splits if_splits)
  with assms(1) show ?thesis unfolding answers_within_def eligible_def by blast
qed

lemma best_account_mem:
  "best_account better P cs as sel tr = (Some a, tr') \<Longrightarrow> sel = Some a \<or> a \<in> set as \<and> P (ac_ID a)"
proof (induction as arbitrary: sel tr)
  case (Cons b as)
  obtain ok t where c: "passes cs b tr = (ok, t)" by fastforce
  show ?case
  proof (cases "P (ac_ID b) \<and> ok")
    case True
    let ?sel = "case sel of None \<Rightarrow> Some b | Some s \<Rightarrow> if better b s then Some b else Some s"
    have "best_account better P cs as ?sel t = (Some a, tr')" using Cons.prems True c by simp
    from Cons.IH [OF this] True show ?thesis by (auto split: option.splits if_splits)
  next
    case False
    then show ?thesis using Cons.prems c Cons.IH [of sel tr] Cons.IH [of sel t] by (auto split: if_splits)
  qed
qed simp

lemma withRPMPrefetch_Excluded [simp]:
  "sc_Excluded (fst (withRPMPrefetch w as sc tr)) = sc_Excluded sc"
  by (simp add: withRPMPrefetch_def Let_def split: option.split)

lemma select_routed_eligible:
  assumes "answers_within w A" "select_routed w sc g platform force ids sticky scan better tr = (Inr (x, l, sc1), tr')"
  shows "(\<forall>a. x = Some a \<longrightarrow> eligible A sc a) \<and> (\<forall>as. l = Some as \<longrightarrow> ac_ID ` set as \<subseteq> A) \<and>
    sc_Excluded sc1 = sc_Excluded sc"
proof (cases "ids = []")
  case False
  obtain b tr1 where b: "bound_account w sc (\<lambda>i. i \<in> set ids) (sticky sc) tr = (b, tr1)" by fastforce
  show ?thesis
  proof (cases b)
    case (Some a)
    then show ?thesis using assms(2) False b bound_eligible [OF assms(1)] by (auto simp: select_routed_def)
  next
    case None
    obtain y tr2 where y: "listSchedulableAccounts w (sc_GroupID sc) platform force tr1 = (y, tr2)" by fastforce
    with None False b assms(2) obtain as m where as: "y = Some (as, m)" by (auto simp: select_routed_def split: option.splits)
    note within = listed_within [OF assms(1) y [unfolded as]]
    obtain sc2 tr3 where f: "withRPMPrefetch w as sc tr2 = (sc2, tr3)" by fastforce
    have ex: "sc_Excluded sc2 = sc_Excluded sc" using withRPMPrefetch_Excluded [of w as sc tr2] f by simp
    obtain s tr4 where s: "best_account better (\<lambda>i. i > 0 \<and> i \<in> set ids \<and> i \<notin> set (sc_Excluded sc))
        (scan sc2) as None tr3 = (s, tr4)" by fastforce
    have "eligible A sc a" if "s = Some a" for a
      using best_account_mem [OF s [unfolded that]] within by (auto simp: eligible_def)
    then show ?thesis using assms(2) False b None y as f s ex within
      by (auto simp: select_routed_def split: option.splits)
  qed
qed (use assms(2) in \<open>simp add: select_routed_def\<close>)

lemma select_any_eligible:
  assumes "answers_within w A" "\<forall>as. listed = Some as \<longrightarrow> ac_ID ` set as \<subseteq> A"
    "select_any w sc platform force listed sticky scan better tr = (Inr a, tr')"
  shows "eligible A sc a"
proof -
  obtain b tr1 where b: "bound_account w sc (\<lambda>_. True) (sticky sc) tr = (b, tr1)" by fastforce
  show ?thesis
  proof (cases b)
    case (Some c)
    then show ?thesis using assms(3) b bound_eligible [OF assms(1)] by (auto simp: select_any_def)
  next
    case None
    obtain y tr2 where y: "(case listed of Some accounts \<Rightarrow> (Some (accounts, False), tr1)
        | None \<Rightarrow> listSchedulableAccounts w (sc_GroupID sc) platform force tr1) = (y, tr2)" by fastforce
    with None b assms(3) obtain as m where as: "y = Some (as, m)" by (auto simp: select_any_def split: option.splits)
    have within: "ac_ID ` set as \<subseteq> A"
      using y as assms(2) listed_within [OF assms(1)] by (auto split: option.splits)
    obtain sc1 tr3 where f: "withRPMPrefetch w as sc tr2 = (sc1, tr3)" by fastforce
    obtain needed tr4 where n: "needsUpstreamChannelRestrictionCheck w (sc_GroupID sc) tr3 = (needed, tr4)" by fastforce
    obtain s tr5 where s: "best_account better (\<lambda>i. i \<notin> set (sc_Excluded sc))
        (scan (sc1\<lparr>sc_Upstream := needed\<rparr>)) as None tr4 = (s, tr5)" by fastforce
    have "s = Some a" using assms(3) b None y as f n s by (auto simp: select_any_def split: option.splits)
    with best_account_mem [OF s [unfolded this]] within show ?thesis by (auto simp: eligible_def)
  qed
qed

lemma selectAccountForModelWithPlatform_eligible:
  assumes "answers_within w A" "selectAccountForModelWithPlatform w rq sc platform tr = (Inr a, tr')"
  shows "eligible A sc a"
proof -
  obtain ids tr1 where i: "routingAccountIDsForRequest w rq (sc_GroupID sc) (sc_Model sc) platform tr = (ids, tr1)" by fastforce
  obtain g tr2 where g: "sched_group w (sc_GroupID sc) tr1 = (g, tr2)" by fastforce
  let ?r = "select_routed w sc g platform (forced_platform rq \<noteq> None) ids
      (\<lambda>sc. isGatewayAccountProfitEligible w # isAccountInGroup sc # onPlatform platform #
              sticky_core w sc @ [stickyUpstreamAllowed w sc])
      (\<lambda>sc. scan_checks w sc g @ supportsRequestedModel w sc # checks_after_channel w sc False)
      (less_priority_last_used (platform = PlatformGemini)) tr2"
  obtain y tr3 where r: "?r = (y, tr3)" by (rule prod.exhaust)
  have "\<exists>z. y = Inr z"
    using assms(2) unfolding selectAccountForModelWithPlatform_def Let_def i g prod.case r by (cases y) auto
  then obtain x l sc1 where y: "y = Inr (x, l, sc1)" by auto
  note routed = select_routed_eligible [OF assms(1) r [unfolded y]]
  show ?thesis
  proof (cases x)
    case (Some b)
    then show ?thesis using assms(2) routed unfolding selectAccountForModelWithPlatform_def Let_def i g prod.case r y by simp
  next
    case [simp]: None
    have "select_any w sc1 platform (forced_platform rq \<noteq> None) l
        (\<lambda>sc. isGatewayAccountProfitEligible w # isAccountInGroup sc # onPlatform platform # sticky_core w sc)
        (\<lambda>sc. scan_checks w sc g @
           supportsRequestedModel w sc # channelAllows w sc # checks_after_channel w sc False)
        (less_priority_last_used (platform = PlatformGemini)) tr3 = (Inr a, tr')"
      using assms(2) unfolding selectAccountForModelWithPlatform_def Let_def i g prod.case r y by simp
    from select_any_eligible [OF assms(1) _ this] routed show ?thesis by (simp add: eligible_def)
  qed
qed

lemma selectAccountWithMixedScheduling_eligible:
  assumes "answers_within w A" "selectAccountWithMixedScheduling w rq sc platform tr = (Inr a, tr')"
  shows "eligible A sc a"
proof -
  obtain ids tr1 where i: "routingAccountIDsForRequest w rq (sc_GroupID sc) (sc_Model sc) platform tr = (ids, tr1)" by fastforce
  obtain g tr2 where g: "sched_group w (sc_GroupID sc) tr1 = (g, tr2)" by fastforce
  let ?r = "select_routed w sc g platform False ids
      (\<lambda>sc. isGatewayAccountProfitEligible w # isAccountInGroup sc #
              sticky_core w sc @ [onPlatformOrMixed platform])
      (\<lambda>sc. scan_checks w sc g @ antigravityMixed #
              supportsRequestedModel w sc # checks_after_channel w sc False)
      (better_mixed (platform = PlatformGemini)) tr2"
  obtain y tr3 where r: "?r = (y, tr3)" by (rule prod.exhaust)
  have "\<exists>z. y = Inr z"
    using assms(2) unfolding selectAccountWithMixedScheduling_def Let_def i g prod.case r by (cases y) auto
  then obtain x l sc1 where y: "y = Inr (x, l, sc1)" by auto
  note routed = select_routed_eligible [OF assms(1) r [unfolded y]]
  show ?thesis
  proof (cases x)
    case (Some b)
    then show ?thesis using assms(2) routed unfolding selectAccountWithMixedScheduling_def Let_def i g prod.case r y by simp
  next
    case [simp]: None
    have "select_any w sc1 platform False l
        (\<lambda>sc. isGatewayAccountProfitEligible w # isAccountInGroup sc #
           sticky_core w sc @ [stickyUpstreamAllowed w sc, onPlatformOrMixed platform])
        (\<lambda>sc. scan_checks w sc g @ antigravityMixed #
           supportsRequestedModel w sc # channelAllows w sc # checks_after_channel w sc False)
        (better_mixed (platform = PlatformGemini)) tr3 = (Inr a, tr')"
      using assms(2) unfolding selectAccountWithMixedScheduling_def Let_def i g prod.case r y by simp
    from select_any_eligible [OF assms(1) _ this] routed show ?thesis by (simp add: eligible_def)
  qed
qed

lemma SelectAccountForModelWithExclusions_eligible:
  assumes "answers_within w A" "SelectAccountForModelWithExclusions w rq tr = (Inr h, tr')"
  shows "ac_ID h \<in> A" "ac_ID h \<notin> set (rq_ExcludedIDs rq)"
proof -
  obtain sc a rq1 platform t t' where
    a: "selectAccountWithMixedScheduling w rq1 sc platform t = (Inr a, t') \<or>
        selectAccountForModelWithPlatform w rq1 sc platform t = (Inr a, t')"
    and ex: "sc_Excluded sc = rq_ExcludedIDs rq" and h: "hydrateSelectedAccount w a t' = (Some h, tr')"
    using assms(2) unfolding SelectAccountForModelWithExclusions_def Let_def
    by (fastforce split: prod.splits sum.splits option.splits if_splits)
  have "eligible A sc a"
    using a selectAccountWithMixedScheduling_eligible [OF assms(1)]
      selectAccountForModelWithPlatform_eligible [OF assms(1)] by blast
  moreover have "ac_ID h = ac_ID a"
    using h assms(1) unfolding answers_within_def
    by (auto simp: hydrateSelectedAccount_def Let_def split: if_splits)
  ultimately show "ac_ID h \<in> A" "ac_ID h \<notin> set (rq_ExcludedIDs rq)"
    using ex by (simp_all add: eligible_def)
qed

text \<open>The loop.\<close>

lemma select_without_load_returns:
  assumes "answers_within w A" "finite A"
  shows "\<exists>y. select_without_load w rq st ex tr = Some y"
proof (induction "card (A - set ex)" arbitrary: ex tr rule: less_induct)
  case less
  obtain x tr1 where sel: "SelectAccountForModelWithExclusions w (rq\<lparr>rq_ExcludedIDs := ex\<rparr>) tr = (x, tr1)"
    by fastforce
  show ?case
  proof (cases x)
    case (Inl e)
    then show ?thesis using sel by (simp add: select_without_load.simps)
  next
    case (Inr a)
    note a = SelectAccountForModelWithExclusions_eligible [OF assms(1) sel [unfolded Inr]]
    have "A - set (ac_ID a # ex) \<subset> A - set ex" using a by auto
    then have "card (A - set (ac_ID a # ex)) < card (A - set ex)"
      by (rule psubset_card_mono [rotated]) (simp add: assms(2))
    note again = less [OF this]
    obtain r tr2 where slot: "tryAcquireAccountSlot w a tr1 = (r, tr2)" by fastforce
    obtain ok tr3 where ses: "checkAndRegisterSession w a (rq_SessionHash rq) tr2 = (ok, tr3)" by fastforce
    show ?thesis using sel Inr slot ses again
      by (subst select_without_load.simps) simp
  qed
qed

end
