(* ===== verification/SelectionCorrectness.thy ===== *)
theory SelectionCorrectness
  imports SelectionOrder SelectionTermination
begin

text \<open>
  The properties of the account selection, and a small service on which they are evaluated.
\<close>

section \<open>A sample service\<close>

text \<open>
  Two accounts, the first with the better priority. \<open>full\<close> are the accounts without a free slot and
  \<open>lost\<close> the accounts whose details cannot be loaded.
\<close>

definition sample_account :: "int \<Rightarrow> int \<Rightarrow> Account" where
  "sample_account i priority =
     \<lparr>ac_ID = i, ac_Platform = ''openai'', ac_Type = ''apikey'', ac_Extra = Map.empty, ac_Concurrency = 2,
      ac_Priority = priority, ac_LoadFactor = None, ac_Status = ''active'', ac_LastUsedAt = None,
      ac_ExpiresAt = None, ac_AutoPauseOnExpired = False, ac_Schedulable = True,
      ac_RateLimitResetAt = None, ac_OverloadUntil = None, ac_TempUnschedulableUntil = None,
      ac_SessionWindowEnd = None, ac_AccountGroups = []\<rparr>"

definition sample_service :: "bool \<Rightarrow> int list \<Rightarrow> int list \<Rightarrow> gateway_service" where
  "sample_service batch full lost =
     \<lparr>sv_Config = Some \<lparr>gs_StickySessionMaxWaiting = 3, gs_StickySessionWaitTimeout = 45 * second,
        gs_FallbackWaitTimeout = 30 * second, gs_FallbackMaxWaiting = 100, gs_FallbackSelectionMode = '''',
        gs_PreferSoonestReset = False, gs_LoadBatchEnabled = batch\<rparr>,
      sv_SimpleMode = False, sv_ConcurrencyService = True, sv_SchedulerSnapshot = True, sv_Cache = False,
      sv_SessionLimitCache = False, sv_RPMCache = False, sv_GroupIDs = [],
      an_Now = (\<lambda>_. 0), an_Draw = (\<lambda>_ _ _. 0), an_Group = (\<lambda>_ _. None),
      an_Composite = (\<lambda>_ _ _. None),
      an_Snapshot = (\<lambda>_ _ _ _. Some ([sample_account 2 7, sample_account 1 5], False)),
      an_Accounts = (\<lambda>_ _. None), an_Account = (\<lambda>_ _. None), an_ThresholdBlocked = (\<lambda>_ _. False),
      an_GrokFree = (\<lambda>_ _. True), an_PricingRestricted = (\<lambda>_ _ _. False), an_UpstreamCheck = (\<lambda>_ _. False),
      an_ChannelRestricted = (\<lambda>_ _ _ _. False), an_ProfitGate = (\<lambda>_ _. False), an_ProfitVeto = (\<lambda>_ _. False),
      an_ModelSupported = (\<lambda>_ _ _. True), an_ModelRateLimited = (\<lambda>_ _ _. False),
      an_CreditsUsable = (\<lambda>_ _. False), an_QuotaExceeded = (\<lambda>_ _. False),
      an_WindowCost = (\<lambda>_ _. WindowCostSchedulable), an_RPMBatch = (\<lambda>_ _. None), an_RPM = (\<lambda>_ _. None),
      an_Sticky = (\<lambda>_ _ _. None), an_Slot = (\<lambda>_ i _. Some (i \<notin> set full)), an_Waiting = (\<lambda>_ _. 0),
      an_Session = (\<lambda>_ _ _ _ _. Some True), an_Loads = (\<lambda>_ _. Some Map.empty),
      an_Hydrated = (\<lambda>_ i. if i \<in> set lost then None
         else Some (sample_account i (if i = 1 then 5 else 7)))\<rparr>"

definition sample_request :: request where
  "sample_request = \<lparr>rq_GroupID = None, rq_SessionHash = '''', rq_Model = '''', rq_ExcludedIDs = [],
     rq_ForcePlatform = Some ''openai'', rq_TargetPlatform = None, rq_Prefetched = None,
     rq_ClaudeCode = False, rq_Group = None\<rparr>"

definition sample_scope :: scope where
  "sample_scope = \<lparr>sc_GroupID = None, sc_Session = '''', sc_Model = '''', sc_Excluded = [],
     sc_Platform = ''openai'', sc_UseMixed = False, sc_PreferOAuth = False, sc_Upstream = False,
     sc_ProfitGate = False, sc_RPM = Map.empty\<rparr>"

lemmas selection_code =
  SelectAccountWithLoadAwareness_def checkClaudeCodeRestriction_def checkChannelPricingRestriction_def
  sticky_account_def select_with_load_def resolvePlatform_def forced_platform_def
  listSchedulableAccounts_def filter_grok_def schedulingConfig_def withGroupContext_def
  IsGroupContextValid_def withRPMPrefetch_def select_by_layers_def
  needsUpstreamChannelRestrictionCheck_def layer_routing_def layer_sticky_def layer_load_def
  load_query_def with_loads_def layer_waiting_def
  pick_def soonest_first_def filterByMinPriority_def filterByMinLoadRate_def minimum_by_def selectByLRU_def
  tryAcquireAccountSlot_def checkAndRegisterSession_def acquired_result_def waiting_result_def
  newSelectionResult_def hydrateSelectedAccount_def bindGatewayStickySessionDuringSelection_def
  BindStickySession_def

lemmas check_code =
  checks_before_channel_def checks_after_channel_def checked_def isAccountSchedulableForSelection_def
  isGatewayAccountProfitEligible_def isAccountAllowedForPlatform_def supportsRequestedModel_def
  channelAllows_def isAccountSchedulableForModelSelection_def isAccountSchedulableForQuota_def
  isAccountSchedulableForWindowCost_def isAccountSchedulableForRPM_def IsSchedulable_def
  IsSchedulableForModelWithContext_def allowed_platform_def account_IsActive_def until_def
  IsAPIKeyOrBedrock_def IsAnthropicOAuthOrSetupToken_def account_names is_grok_def ascii_lower_def

text \<open>The first account is full, so the second serves.\<close>

lemma sample_run:
  "\<exists>tr'. SelectAccountWithLoadAwareness (sample_service True [1] []) sample_request [] =
     Some (Inr \<lparr>sr_Account = sample_account 2 7, sr_Acquired = True, sr_ReleaseFunc = Some 2, sr_WaitPlan = None\<rparr>, tr')"
  by (simp add: selection_code check_code Let_def load_loop.simps sample_request_def sample_service_def
      sample_account_def)

section \<open>Slots\<close>

text \<open>
  C8: However the selection goes, slots are settled when it returns: a result either holds exactly one
  slot, which its release function gives back, or holds none and carries a plan to wait; an error
  holds none. The one exception is an account whose details cannot be loaded.
\<close>

theorem selection_settles_slots:
  assumes "SelectAccountWithLoadAwareness w rq tr = Some (d, tr')"
  shows "(\<forall>r. d = Inr r \<longrightarrow> (sr_Acquired r \<longleftrightarrow> sr_ReleaseFunc r \<noteq> None) \<and> (sr_Acquired r \<longleftrightarrow> sr_WaitPlan r = None) \<and>
             held tr' = plus_slot (sr_ReleaseFunc r) (held tr)) \<and>
         (\<forall>e. d = Inl e \<longrightarrow> held tr' = held tr \<or>
             e = HydrationFailed \<and> (\<exists>i. held tr' = plus_slot (Some i) (held tr)))"
proof -
  have "settles (held tr) (Some d) (held tr')"
    using SelectAccountWithLoadAwareness_settled [OF assms] by (simp add: settled_def)
  then show ?thesis by (cases d) (auto simp: proper_def)
qed

theorem selection_settles_slots_witness:
  "\<exists>r tr'. SelectAccountWithLoadAwareness (sample_service True [1] []) sample_request [] = Some (Inr r, tr') \<and>
     sr_ReleaseFunc r = Some 2 \<and> held tr' = (\<lambda>_. 0)(2 := 1)"
proof -
  obtain tr' where run: "SelectAccountWithLoadAwareness (sample_service True [1] []) sample_request [] =
     Some (Inr \<lparr>sr_Account = sample_account 2 7, sr_Acquired = True, sr_ReleaseFunc = Some 2, sr_WaitPlan = None\<rparr>, tr')"
    using sample_run by blast
  show ?thesis using run selection_settles_slots [OF run] by auto
qed


section \<open>Whom it chooses\<close>

text \<open>
  C9: With load information, the account of a result was not excluded and passed every check of a
  candidate in the course of this request: schedulable, profitable, of the platform, serving the model,
  allowed by the channel, not limited for the model, within its quota, its window cost and its rate.
  Only the account the session is bound to may draw on the reserve kept for sticky sessions.
\<close>

theorem selection_eligible:
  assumes "SelectAccountWithLoadAwareness w rq [] = Some (Inr r, tr')"
    and "sv_ConcurrencyService w" "gs_LoadBatchEnabled (schedulingConfig w)"
  shows "chosen r \<notin> set (rq_ExcludedIDs rq) \<and>
    (approved (set (candidate_gates False)) (chosen r) tr' \<or>
     approved (set (candidate_gates True)) (chosen r) tr' \<and>
     (\<exists>groupID t. grows t tr' \<and> fst (sticky_account w rq groupID t) = chosen r))"
  using assms(1)
proof (rule SelectAccountWithLoadAwareness_ways, goal_cases)
  case (3 g groupID profitGate st tr2 tr3)
  then have "settled (may_serve (rq_ExcludedIDs rq) st) tr3 (Inr r) tr'"
    using select_with_load_settled [of w "withGroupContext rq g" g groupID profitGate st tr3] by simp
  moreover have "grows tr2 tr3" by (rule asks_grows [OF sticky_account_asks [OF 3(2)]])
  ultimately have may: "may_serve (rq_ExcludedIDs rq) st (chosen r) tr'" and "grows tr2 tr'"
    by (auto simp: settled_def intro: grows_trans)
  then have "\<exists>groupID t. grows t tr' \<and> fst (sticky_account w rq groupID t) = st" using 3(2) fst_conv by metis
  with may show ?case unfolding may_serve_def by (metis (full_types))
qed (use assms in simp_all)

theorem selection_eligible_witness:
  "\<exists>r tr'. SelectAccountWithLoadAwareness (sample_service True [1] []) sample_request [] = Some (Inr r, tr') \<and>
     chosen r = 2 \<and> (approved (set (candidate_gates False)) 2 tr' \<or> approved (set (candidate_gates True)) 2 tr')"
proof -
  obtain tr' where run: "SelectAccountWithLoadAwareness (sample_service True [1] []) sample_request [] =
     Some (Inr \<lparr>sr_Account = sample_account 2 7, sr_Acquired = True, sr_ReleaseFunc = Some 2, sr_WaitPlan = None\<rparr>, tr')"
    using sample_run by blast
  have "sv_ConcurrencyService (sample_service True [1] [])"
    "gs_LoadBatchEnabled (schedulingConfig (sample_service True [1] []))"
    by (simp_all add: sample_service_def schedulingConfig_def)
  from selection_eligible [OF run this] run show ?thesis by (auto simp: chosen_def)
qed

text \<open>
  C19: With load information the gateway says that no account is available only when that is so: for
  every account it listed, the request had excluded it, a check refused it, or its session limit did.
\<close>

theorem selection_gives_up_rightly:
  assumes "SelectAccountWithLoadAwareness w rq [] = Some (Inl ErrNoAvailableAccounts, tr')"
    and "sv_ConcurrencyService w" "gs_LoadBatchEnabled (schedulingConfig w)"
  shows "\<exists>groupID platform force accounts m t t'.
    listSchedulableAccounts w groupID platform force t = (Some (accounts, m), t') \<and> grows t' tr' \<and>
    (\<forall>a \<in> set accounts. ac_ID a \<in> set (rq_ExcludedIDs rq) \<or> rejected (ac_ID a) tr' \<or>
       SessionTried (ac_ID a) (Some False) \<in> set tr')"
  using assms(1)
proof (rule SelectAccountWithLoadAwareness_ways, goal_cases)
  case (3 g groupID profitGate st tr2 tr3)
  then have "select_with_load w (withGroupContext rq g) g groupID profitGate st tr3 =
      (Inl ErrNoAvailableAccounts, tr')" by simp
  then show ?case
  proof (rule select_with_load_ways, goal_cases)
    case (2 platform force m tr4)
    then show ?case by fastforce
  next
    case (3 platform force accounts m tr4 tr5 tr6 sc)
    have "grows tr6 tr'" using select_by_layers_spec(1) [OF 3(5)] by (simp add: settled_def)
    moreover have "\<forall>a \<in> set accounts. passed_over (rq_ExcludedIDs rq) (ac_ID a) tr'"
      using select_by_layers_spec(2) [OF 3(5)] 3(4) by simp
    ultimately show ?case using 3(1,2) grows_trans unfolding passed_over_def by blast
  qed simp
qed (use assms in simp_all)

text \<open>An account whose model check fails leaves nothing to select.\<close>

lemma sample_nothing:
  "\<exists>tr'. SelectAccountWithLoadAwareness ((sample_service True [] [])\<lparr>an_ModelSupported := \<lambda>_ _ _. False\<rparr>)
     (sample_request\<lparr>rq_Model := ''gpt''\<rparr>) [] = Some (Inl ErrNoAvailableAccounts, tr')"
  by (simp add: selection_code check_code Let_def load_loop.simps sample_request_def sample_service_def
      sample_account_def)

lemma sample_listed:
  "listSchedulableAccounts ((sample_service True [] [])\<lparr>an_ModelSupported := f\<rparr>) groupID platform force t =
     (Some (accounts, m), t') \<Longrightarrow> accounts = [sample_account 2 7, sample_account 1 5]"
  by (auto simp: listSchedulableAccounts_def filter_grok_def sample_service_def split: if_splits)

theorem selection_gives_up_rightly_witness:
  "\<exists>tr'. SelectAccountWithLoadAwareness ((sample_service True [] [])\<lparr>an_ModelSupported := \<lambda>_ _ _. False\<rparr>)
     (sample_request\<lparr>rq_Model := ''gpt''\<rparr>) [] = Some (Inl ErrNoAvailableAccounts, tr') \<and>
     (\<forall>i \<in> {1, 2}. rejected i tr' \<or> SessionTried i (Some False) \<in> set tr')"
proof -
  let ?w = "(sample_service True [] [])\<lparr>an_ModelSupported := \<lambda>_ _ _. False\<rparr>"
  let ?rq = "sample_request\<lparr>rq_Model := ''gpt''\<rparr>"
  obtain tr' where run: "SelectAccountWithLoadAwareness ?w ?rq [] = Some (Inl ErrNoAvailableAccounts, tr')"
    using sample_nothing by blast
  have cs: "sv_ConcurrencyService ?w" "gs_LoadBatchEnabled (schedulingConfig ?w)"
    by (simp_all add: sample_service_def schedulingConfig_def)
  obtain groupID platform force accounts m t t' where
      l: "listSchedulableAccounts ?w groupID platform force t = (Some (accounts, m), t')"
    and "\<forall>a \<in> set accounts. ac_ID a \<in> set (rq_ExcludedIDs ?rq) \<or> rejected (ac_ID a) tr' \<or>
       SessionTried (ac_ID a) (Some False) \<in> set tr'"
    using selection_gives_up_rightly [OF run cs] by blast
  then have "\<forall>i \<in> {1, 2}. rejected i tr' \<or> SessionTried i (Some False) \<in> set tr'"
    using sample_listed [OF l] by (simp add: sample_account_def sample_request_def)
  with run show ?thesis by blast
qed

section \<open>In which order\<close>

text \<open>
  C10: The loop over the load tries accounts in the order of a sort by priority, then load, then last
  use, each at most once. It ends with the first that takes the request; those before it refused a
  slot or a session. When it ends without one it has tried them all. With the preference for the
  soonest reset only the order by priority is left.
\<close>

theorem load_tries_in_order:
  assumes "load_loop w sc available tr = (d, tr')" "distinct (map load_id available)"
  shows "\<exists>order n. mset order = mset available \<and>
    sorted (map (\<lambda>x. ac_Priority (al_account x)) order) \<and>
    (\<not> gs_PreferSoonestReset (schedulingConfig w) \<longrightarrow> sorted (map load_key order)) \<and>
    n \<le> length order \<and> attempts tr' = attempts tr @ map load_id (take n order) \<and>
    (d = None \<longrightarrow> n = length order) \<and>
    (\<forall>x \<in> set (take (if d = None then n else n - 1) order). refused (load_id x) tr') \<and>
    (\<forall>r. d = Some (Inr r) \<longrightarrow> 0 < n \<and> chosen r = load_id (order ! (n - 1)))"
  using assms
proof (induction "length available" arbitrary: available tr rule: less_induct)
  case less
  let ?prefer = "gs_PreferSoonestReset (schedulingConfig w)"
  show ?case
  proof (cases "available = []")
    case True
    then show ?thesis using less.prems by (simp add: load_loop.simps)
  next
    case False
    with less.prems(1) show ?thesis
    proof (rule load_loop_turn, goal_cases)
      case (1 x tr1)
      obtain rest where "mset rest = mset (filter (\<lambda>y. load_id y \<noteq> load_id x) available)" "loop_order ?prefer rest"
        using loop_order_exists by blast
      from picked_first [OF less.prems(2) 1(1) this] 1 show ?case
        by (intro exI [of _ "x # rest"] exI [of _ 1]) (auto simp: loop_order_def)
    next
      case (2 x tr1 tr2)
      let ?others = "filter (\<lambda>y. load_id y \<noteq> load_id x) available"
      have "length ?others < length available" using pick_mem [OF 2(1)] by (auto intro: length_filter_less)
      moreover have "distinct (map load_id ?others)" using less.prems(2) by (simp add: distinct_map_filter)
      ultimately obtain order n where rest: "mset order = mset ?others" "loop_order ?prefer order"
        "n \<le> length order" "attempts tr' = attempts tr2 @ map load_id (take n order)"
        "d = None \<longrightarrow> n = length order"
        "\<forall>x \<in> set (take (if d = None then n else n - 1) order). refused (load_id x) tr'"
        "\<forall>r. d = Some (Inr r) \<longrightarrow> 0 < n \<and> chosen r = load_id (order ! (n - 1))"
        using less.hyps 2(2) unfolding loop_order_def by blast
      have "refused (load_id x) tr'" by (rule refused_grows [OF 2(4) load_loop_grows [OF 2(2)]])
      with rest(3-7) 2(3) picked_first [OF less.prems(2) 2(1) rest(1,2)] show ?case
        by (intro exI [of _ "x # order"] exI [of _ "Suc n"]) (auto simp: loop_order_def nth_Cons' take_Cons' split: if_splits)
    qed
  qed
qed

lemma sample_loop:
  "\<exists>tr'. load_loop (sample_service True [1] []) sample_scope
     (with_loads Map.empty [sample_account 2 7, sample_account 1 5]) [] =
     (Some (Inr \<lparr>sr_Account = sample_account 2 7, sr_Acquired = True, sr_ReleaseFunc = Some 2, sr_WaitPlan = None\<rparr>), tr') \<and>
     attempts tr' = [1, 2]"
  by (simp add: selection_code check_code Let_def load_loop.simps sample_scope_def sample_service_def
      sample_account_def)

theorem load_tries_in_order_witness:
  "\<exists>tr' order n. set order = set (with_loads Map.empty [sample_account 2 7, sample_account 1 5]) \<and>
     sorted (map load_key order) \<and> map load_id (take n order) = [1, 2] \<and> load_id (order ! (n - 1)) = 2 \<and>
     attempts tr' = [1, 2]"
proof -
  let ?w = "sample_service True [1] []"
  let ?l = "with_loads Map.empty [sample_account 2 7, sample_account 1 5]"
  obtain tr' where run: "load_loop ?w sample_scope ?l [] = (Some (Inr \<lparr>sr_Account = sample_account 2 7,
      sr_Acquired = True, sr_ReleaseFunc = Some 2, sr_WaitPlan = None\<rparr>), tr')" "attempts tr' = [1, 2]"
    using sample_loop by blast
  have "distinct (map load_id ?l)" by (simp add: with_loads_def sample_account_def)
  from load_tries_in_order [OF run(1) this] obtain order n where
    "mset order = mset ?l" "sorted (map load_key order)" "attempts tr' = map load_id (take n order)"
    "load_id (order ! (n - 1)) = 2"
    by (auto simp: sample_service_def schedulingConfig_def chosen_def)
  with run(2) show ?thesis using mset_eq_setD by metis
qed

section \<open>It returns\<close>

text \<open>
  C12: The selection returns, although its loop without load information has no bound of its own: when
  the stores know only finitely many accounts and answer a lookup with the account asked for, every
  turn excludes one of them, and an excluded account is not selected again.
\<close>

theorem selection_returns:
  assumes "finite A" "answers_within w A"
  shows "\<exists>y. SelectAccountWithLoadAwareness w rq tr = Some y"
  by (rule SelectAccountWithLoadAwareness_ways [OF refl, of w rq tr])
    (use select_without_load_returns [OF assms(2,1)] in auto)

theorem selection_returns_witness:
  "\<exists>y. SelectAccountWithLoadAwareness (sample_service False [1] []) sample_request [] = Some y"
proof -
  have "answers_within (sample_service False [1] []) {1, 2}"
    by (auto simp: answers_within_def sample_service_def sample_account_def)
  from selection_returns [OF _ this] show ?thesis by blast
qed

section \<open>Where the paths differ\<close>

text \<open>A group that requires privacy, and its one account, which has not got it.\<close>

definition private_group :: Group where
  "private_group = \<lparr>gr_ID = 9, gr_Name = ''g'', gr_Platform = ''antigravity'', gr_Status = ''active'',
     gr_Hydrated = True, gr_ClaudeCodeOnly = False, gr_FallbackGroupID = None, gr_RequirePrivacySet = True,
     gr_ModelRoutingEnabled = False, gr_ModelRouting = []\<rparr>"

definition open_account :: Account where
  "open_account = (sample_account 1 5)\<lparr>ac_Platform := ''antigravity'', ac_AccountGroups := [9]\<rparr>"

definition private_service :: "bool \<Rightarrow> gateway_service" where
  "private_service batch = (sample_service batch [] [])\<lparr>sv_GroupIDs := [9],
     an_Group := \<lambda>_ _. Some private_group, an_Snapshot := \<lambda>_ _ _ _. Some ([open_account], False),
     an_Hydrated := \<lambda>_ _. Some open_account\<rparr>"

definition private_request :: request where
  "private_request = sample_request\<lparr>rq_GroupID := Some 9, rq_ForcePlatform := None\<rparr>"

lemmas without_load_code =
  SelectAccountForModelWithExclusions_def selectAccountForModelWithPlatform_def
  routingAccountIDsForRequest_def sched_group_def select_routed_def select_any_def bound_account_def
  scan_checks_def privacySet_def resolveGatewayGroup_def resolveGroupByID_def groupFromContext_def
  follow_fallbacks.simps platform_of_group_def modelRoutingAppliesToPlatform_def
  modelRoutingAppliesToTargetPlatform_def IsPrivacySet_def getExtraString_def AntigravityPrivacySet_def

lemmas private_code = private_group_def open_account_def private_service_def private_request_def
  sample_request_def sample_service_def sample_account_def

text \<open>
  A group can require that its accounts have their privacy set. The selection with load
  information never asks: it hands out an account that has not, where the selection without load
  information refuses it and marks it as faulty.
\<close>

theorem load_awareness_ignores_privacy:
  "gr_RequirePrivacySet private_group \<and> \<not> IsPrivacySet open_account \<and>
   (\<exists>r tr'. SelectAccountWithLoadAwareness (private_service True) private_request [] = Some (Inr r, tr') \<and>
      sr_Account r = open_account \<and> sr_Acquired r) \<and>
   (\<exists>tr'. SelectAccountWithLoadAwareness (private_service False) private_request [] =
      Some (Inl ErrNoAvailableAccounts, tr') \<and> MarkedError 1 \<in> set tr')"
proof (intro conjI)
  show "gr_RequirePrivacySet private_group" "\<not> IsPrivacySet open_account"
    by (simp_all add: private_code without_load_code account_names)
  show "\<exists>r tr'. SelectAccountWithLoadAwareness (private_service True) private_request [] = Some (Inr r, tr') \<and>
      sr_Account r = open_account \<and> sr_Acquired r"
    by (simp add: selection_code check_code without_load_code Let_def load_loop.simps private_code)
  show "\<exists>tr'. SelectAccountWithLoadAwareness (private_service False) private_request [] =
      Some (Inl ErrNoAvailableAccounts, tr') \<and> MarkedError 1 \<in> set tr'"
    by (simp add: selection_code check_code without_load_code Let_def select_without_load.simps private_code)
qed

text \<open>
  In the random mode the fallback shuffles the accounts of a priority together and loses the preference
  for OAuth that the sort before it has made; the default mode keeps it whatever is drawn.
\<close>

lemma random_fallback_forgets_oauth:
  "map ac_ID (sortCandidatesForFallback (\<lambda>_ _. 0)
     [sample_account 1 5\<lparr>ac_Type := ''oauth''\<rparr>, sample_account 2 5] True ''random'') = [2, 1]"
  "map ac_ID (sortCandidatesForFallback ds
     [sample_account 2 5, sample_account 1 5\<lparr>ac_Type := ''oauth''\<rparr>] True ''last_used'') = [1, 2]"
  by (simp_all add: sortCandidatesForFallback_def shuffleWithinPriority_def sortAccountsByPriorityOnly_def
      sortAccountsByPriorityAndLastUsed_def shuffleWithinPriorityAndLastUsed_def SliceStable_def
      less_priority_def less_priority_last_used_def sameAccountGroup_def sameLastUsedAt_def shuffle_group_def
      Shuffle_def swap_at_def sample_account_def AccountTypeOAuth_def numeral_2_eq_2)

end
