(* ===== verification/ApiTypes.thy ===== *)
theory ApiTypes
  imports Prelude
begin

text \<open>
  The data types of \<^verbatim>\<open>backend/internal/pkg/apicompat/types.go\<close> that the protocol bridges
  exchange: Anthropic Messages responses and stream events, OpenAI Responses responses and
  stream events. One record per Go struct, one field per struct field, in the source's
  order; a field is the source's name behind the struct's initials. \<^verbatim>\<open>json.RawMessage\<close> is
  the byte string it holds, a nil slice is \<open>[]\<close>, a Go \<^verbatim>\<open>int\<close> is an \<^typ>\<open>int\<close>. The
  \<open>zero_\<close> constants are Go's zero values, from which the composite literals of the source
  are written as updates.
\<close>

section \<open>Anthropic Messages\<close>

record AnthropicImageSource =
  is_Type :: string
  is_MediaType :: string
  is_Data :: string

record AnthropicCacheControl =
  cc_Type :: string
  cc_TTL :: string

record AnthropicContentBlock =
  cb_Type :: string
  cb_CacheControl :: "AnthropicCacheControl option"
  cb_Text :: string
  cb_Thinking :: string
  cb_Signature :: string
  cb_Data :: string
  cb_Source :: "AnthropicImageSource option"
  cb_ID :: string
  cb_Name :: string
  cb_Input :: string
  cb_ToolUseID :: string
  cb_Content :: string
  cb_IsError :: bool

definition zero_block :: AnthropicContentBlock where
  "zero_block = \<lparr>cb_Type = [], cb_CacheControl = None, cb_Text = [], cb_Thinking = [],
     cb_Signature = [], cb_Data = [], cb_Source = None, cb_ID = [], cb_Name = [], cb_Input = [],
     cb_ToolUseID = [], cb_Content = [], cb_IsError = False\<rparr>"

record AnthropicPromptTokensDetails =
  apd_CachedTokens :: int

record AnthropicUsage =
  au_InputTokens :: int
  au_OutputTokens :: int
  au_CacheCreationInputTokens :: int
  au_CacheReadInputTokens :: int
  au_PromptTokens :: int
  au_CachedTokens :: int
  au_PromptTokensDetails :: "AnthropicPromptTokensDetails option"
  au_PromptCacheHitTokens :: "int option"
  au_PromptCacheMissTokens :: "int option"

definition zero_AnthropicUsage :: AnthropicUsage where
  "zero_AnthropicUsage = \<lparr>au_InputTokens = 0, au_OutputTokens = 0,
     au_CacheCreationInputTokens = 0, au_CacheReadInputTokens = 0, au_PromptTokens = 0,
     au_CachedTokens = 0, au_PromptTokensDetails = None, au_PromptCacheHitTokens = None,
     au_PromptCacheMissTokens = None\<rparr>"

record AnthropicResponse =
  ar_ID :: string
  ar_Type :: string
  ar_Role :: string
  ar_Content :: "AnthropicContentBlock list"
  ar_Model :: string
  ar_StopReason :: "string option"
  ar_StopSequence :: "string option"
  ar_Usage :: AnthropicUsage

record AnthropicDelta =
  ad_Type :: string
  ad_Text :: string
  ad_PartialJSON :: string
  ad_Thinking :: string
  ad_Signature :: string
  ad_StopReason :: string
  ad_StopSequence :: "string option"

definition zero_delta :: AnthropicDelta where
  "zero_delta = \<lparr>ad_Type = [], ad_Text = [], ad_PartialJSON = [], ad_Thinking = [],
     ad_Signature = [], ad_StopReason = [], ad_StopSequence = None\<rparr>"

record AnthropicStreamEvent =
  ae_Type :: string
  ae_Message :: "AnthropicResponse option"
  ae_Index :: "int option"
  ae_ContentBlock :: "AnthropicContentBlock option"
  ae_Delta :: "AnthropicDelta option"
  ae_Usage :: "AnthropicUsage option"

definition zero_aevent :: AnthropicStreamEvent where
  "zero_aevent = \<lparr>ae_Type = [], ae_Message = None, ae_Index = None, ae_ContentBlock = None,
     ae_Delta = None, ae_Usage = None\<rparr>"

section \<open>OpenAI Responses\<close>

record ResponsesContentPart =
  cp_PromptCacheBreakpoint :: string
  cp_Type :: string
  cp_Text :: string
  cp_ImageURL :: string
  cp_Filename :: string
  cp_FileData :: string
  cp_FileID :: string

definition zero_part :: ResponsesContentPart where
  "zero_part = \<lparr>cp_PromptCacheBreakpoint = [], cp_Type = [], cp_Text = [], cp_ImageURL = [],
     cp_Filename = [], cp_FileData = [], cp_FileID = []\<rparr>"

record ResponsesError =
  er_Code :: string
  er_Message :: string

record ResponsesIncompleteDetails =
  id_Reason :: string

record WebSearchAction =
  wa_Type :: string
  wa_Query :: string

record ResponsesSummary =
  su_Type :: string
  su_Text :: string

record ResponsesOutput =
  ro_Type :: string
  ro_ID :: string
  ro_Role :: string
  ro_Content :: "ResponsesContentPart list"
  ro_Status :: string
  ro_EncryptedContent :: string
  ro_Summary :: "ResponsesSummary list"
  ro_CallID :: string
  ro_Name :: string
  ro_Arguments :: string
  ro_Namespace :: string
  ro_Input :: string
  ro_Action :: "WebSearchAction option"

definition zero_output :: ResponsesOutput where
  "zero_output = \<lparr>ro_Type = [], ro_ID = [], ro_Role = [], ro_Content = [], ro_Status = [],
     ro_EncryptedContent = [], ro_Summary = [], ro_CallID = [], ro_Name = [], ro_Arguments = [],
     ro_Namespace = [], ro_Input = [], ro_Action = None\<rparr>"

record ResponsesInputTokensDetails =
  itd_CachedTokens :: int
  itd_AudioTokens :: int
  itd_CacheCreationTokens :: int
  itd_CacheWriteTokens :: int

definition zero_input_details :: ResponsesInputTokensDetails where
  "zero_input_details = \<lparr>itd_CachedTokens = 0, itd_AudioTokens = 0,
     itd_CacheCreationTokens = 0, itd_CacheWriteTokens = 0\<rparr>"

record ResponsesOutputTokensDetails =
  otd_ReasoningTokens :: int
  otd_AudioTokens :: int
  otd_AcceptedPredictionTokens :: int
  otd_RejectedPredictionTokens :: int

record ResponsesUsage =
  ru_InputTokens :: int
  ru_OutputTokens :: int
  ru_TotalTokens :: int
  ru_CacheCreationInputTokens :: int
  ru_InputTokensDetails :: "ResponsesInputTokensDetails option"
  ru_OutputTokensDetails :: "ResponsesOutputTokensDetails option"

record ResponsesResponse =
  rr_ID :: string
  rr_Object :: string
  rr_CreatedAt :: int
  rr_Model :: string
  rr_Status :: string
  rr_Output :: "ResponsesOutput list"
  rr_Usage :: "ResponsesUsage option"
  rr_ServiceTier :: string
  rr_IncompleteDetails :: "ResponsesIncompleteDetails option"
  rr_Error :: "ResponsesError option"

definition zero_response :: ResponsesResponse where
  "zero_response = \<lparr>rr_ID = [], rr_Object = [], rr_CreatedAt = 0, rr_Model = [],
     rr_Status = [], rr_Output = [], rr_Usage = None, rr_ServiceTier = [],
     rr_IncompleteDetails = None, rr_Error = None\<rparr>"

record ResponsesStreamEvent =
  re_Type :: string
  re_Response :: "ResponsesResponse option"
  re_Usage :: "ResponsesUsage option"
  re_Item :: "ResponsesOutput option"
  re_OutputIndex :: int
  re_ContentIndex :: int
  re_Delta :: string
  re_Text :: string
  re_ItemID :: string
  re_CallID :: string
  re_Name :: string
  re_Arguments :: string
  re_Input :: string
  re_SummaryIndex :: int
  re_Part :: "ResponsesContentPart option"
  re_Code :: string
  re_Param :: string
  re_SequenceNumber :: int

definition zero_revent :: ResponsesStreamEvent where
  "zero_revent = \<lparr>re_Type = [], re_Response = None, re_Usage = None, re_Item = None,
     re_OutputIndex = 0, re_ContentIndex = 0, re_Delta = [], re_Text = [], re_ItemID = [],
     re_CallID = [], re_Name = [], re_Arguments = [], re_Input = [], re_SummaryIndex = 0,
     re_Part = None, re_Code = [], re_Param = [], re_SequenceNumber = 0\<rparr>"

definition AnthropicStopReasonString :: "string option \<Rightarrow> string" where
  "AnthropicStopReasonString p = (case p of None \<Rightarrow> [] | Some s \<Rightarrow> s)"

text \<open>
  \<^verbatim>\<open>encoding/json\<close>, as far as the bridges use it: whether a text is valid JSON, the
  object a text decodes to (member texts by name), the text an object encodes to, and the
  quoted form of a string.
\<close>

record json_env =
  js_valid :: "string \<Rightarrow> bool"
  js_object :: "string \<Rightarrow> (string \<rightharpoonup> string) option"
  js_encode :: "(string \<rightharpoonup> string) \<Rightarrow> string option"
  js_quote :: "string \<Rightarrow> string"

section \<open>Call identifiers\<close>

text \<open>\<^verbatim>\<open>toResponsesCallID\<close>, \<^verbatim>\<open>fromResponsesCallID\<close> of \<^verbatim>\<open>anthropic_to_responses.go\<close>.\<close>

definition toResponsesCallID :: "string \<Rightarrow> string" where
  "toResponsesCallID i = i"

definition fromResponsesCallID :: "string \<Rightarrow> string" where
  "fromResponsesCallID i =
     (case cut_prefix i ''fc_'' of
        Some after \<Rightarrow>
          (if has_prefix after ''toolu_'' \<or> has_prefix after ''call_'' then after else i)
      | None \<Rightarrow> i)"

lemma fromResponsesCallID_legacy:
  "has_prefix i ''toolu_'' \<or> has_prefix i ''call_'' \<Longrightarrow> fromResponsesCallID (''fc_'' @ i) = i"
  by (auto simp: fromResponsesCallID_def cut_prefix_def has_prefix_def)

lemma fromResponsesCallID_plain:
  "\<not> has_prefix i ''fc_'' \<Longrightarrow> fromResponsesCallID i = i"
  by (simp add: fromResponsesCallID_def cut_prefix_def)

lemmas zero_defs = zero_block_def zero_AnthropicUsage_def zero_delta_def zero_aevent_def
  zero_part_def zero_output_def zero_input_details_def zero_response_def zero_revent_def

end
