(* ===== verification/StreamBridge.thy ===== *)
theory StreamBridge
  imports Prelude
begin

text \<open>
  What the streaming bridges have in common. A bridge is a step function from an upstream
  event and a state to client events and a new state; a client protocol is an automaton
  that accepts events one by one. The locale \<open>stream_bridge\<close> states the contract between
  the two (one step emits a stretch the automaton accepts, from the phase of the state
  before to the phase of the state after) and lifts it to whole streams once for all
  bridges.
\<close>

fun accept_all :: "('p \<Rightarrow> 'o \<Rightarrow> 'p option) \<Rightarrow> 'p \<Rightarrow> 'o list \<Rightarrow> 'p option" where
  "accept_all acc p [] = Some p"
| "accept_all acc p (x # xs) =
     (case acc p x of None \<Rightarrow> None | Some q \<Rightarrow> accept_all acc q xs)"

lemma accept_all_append:
  "accept_all acc p (xs @ ys) =
     (case accept_all acc p xs of None \<Rightarrow> None | Some q \<Rightarrow> accept_all acc q ys)"
  by (induction xs arbitrary: p) (auto split: option.splits)

lemma accept_all_appendI:
  "accept_all acc p xs = Some q \<Longrightarrow> accept_all acc q ys = Some r \<Longrightarrow>
     accept_all acc p (xs @ ys) = Some r"
  by (simp add: accept_all_append)

fun bridge_run :: "('e \<Rightarrow> 's \<Rightarrow> 'o list \<times> 's) \<Rightarrow> 'e list \<Rightarrow> 's \<Rightarrow> 'o list \<times> 's" where
  "bridge_run stp [] s = ([], s)"
| "bridge_run stp (e # es) s =
     (let (out, s1) = stp e s; (rest, s2) = bridge_run stp es s1 in (out @ rest, s2))"

lemma bridge_run_Cons_simp:
  "stp e s = (out, s1) \<Longrightarrow> bridge_run stp es s1 = (rest, s2) \<Longrightarrow>
     bridge_run stp (e # es) s = (out @ rest, s2)"
  by simp

lemma bridge_run_append:
  "bridge_run stp (es @ fs) s =
     (let (out, s1) = bridge_run stp es s; (rest, s2) = bridge_run stp fs s1
      in (out @ rest, s2))"
  by (induction es arbitrary: s) (auto simp: Let_def split: prod.splits)

lemma bridge_run_snoc_last:
  assumes "bridge_run stp (es @ [e]) s = (out, s')"
  obtains out1 s1 out2 where "bridge_run stp es s = (out1, s1)" "stp e s1 = (out2, s')"
    "out = out1 @ out2"
proof -
  obtain out1 s1 where r: "bridge_run stp es s = (out1, s1)" by fastforce
  obtain out2 s2 where st: "stp e s1 = (out2, s2)" by fastforce
  from assms r st have "out = out1 @ out2" "s' = s2" by (auto simp: bridge_run_append)
  with r st that show ?thesis by simp
qed

text \<open>A condition on each upstream event, asked in the state that event meets.\<close>

fun run_ok :: "('e \<Rightarrow> 's \<Rightarrow> 'o list \<times> 's) \<Rightarrow> ('s \<Rightarrow> 'e \<Rightarrow> bool) \<Rightarrow> 'e list \<Rightarrow> 's \<Rightarrow> bool" where
  "run_ok stp ok [] s = True"
| "run_ok stp ok (e # es) s \<longleftrightarrow> ok s e \<and> run_ok stp ok es (snd (stp e s))"

lemma run_ok_const: "run_ok stp (\<lambda>_. P) es s \<longleftrightarrow> list_all P es"
  by (induction es arbitrary: s) auto

lemma run_ok_mono:
  "run_ok stp P es s \<Longrightarrow> (\<And>s e. P s e \<Longrightarrow> Q s e) \<Longrightarrow> run_ok stp Q es s"
  by (induction es arbitrary: s) auto

locale stream_bridge =
  fixes stp :: "'e \<Rightarrow> 's \<Rightarrow> 'o list \<times> 's"
    and ok :: "'s \<Rightarrow> 'e \<Rightarrow> bool"
    and acc :: "'p \<Rightarrow> 'o \<Rightarrow> 'p option"
    and phase :: "'s \<Rightarrow> 'p"
    and live :: "'s \<Rightarrow> bool"
  assumes step_accepted:
      "live s \<Longrightarrow> ok s e \<Longrightarrow> stp e s = (out, s') \<Longrightarrow>
         accept_all acc (phase s) out = Some (phase s')"
    and step_live: "live s \<Longrightarrow> ok s e \<Longrightarrow> stp e s = (out, s') \<Longrightarrow> live s'"
begin

lemma run_live:
  "live s \<Longrightarrow> run_ok stp ok es s \<Longrightarrow> bridge_run stp es s = (out, s') \<Longrightarrow> live s'"
proof (induction es arbitrary: s out)
  case Nil
  then show ?case by simp
next
  case (Cons e es)
  obtain out1 s1 where st: "stp e s = (out1, s1)" by fastforce
  with Cons.prems have "live s1" by (auto intro: step_live)
  with Cons st show ?case by (auto split: prod.splits)
qed

lemma run_accepted:
  "live s \<Longrightarrow> run_ok stp ok es s \<Longrightarrow> bridge_run stp es s = (out, s') \<Longrightarrow>
     accept_all acc (phase s) out = Some (phase s')"
proof (induction es arbitrary: s out)
  case Nil
  then show ?case by simp
next
  case (Cons e es)
  obtain out1 s1 where st: "stp e s = (out1, s1)" by fastforce
  obtain out2 s2 where run: "bridge_run stp es s1 = (out2, s2)" by fastforce
  from Cons.prems st have "live s1" "accept_all acc (phase s) out1 = Some (phase s1)"
    by (auto intro: step_live step_accepted)
  moreover from Cons st run have "accept_all acc (phase s1) out2 = Some (phase s2)"
    using \<open>live s1\<close> by auto
  ultimately show ?case using Cons.prems st run by (auto intro: accept_all_appendI)
qed

end

text \<open>
  When the contract holds only for upstreams that follow a protocol of their own, the
  bridge is run beside the upstream's automaton: \<open>tracked\<close> pairs the two states, \<open>obeys\<close>
  says that the automaton has a move for the event.
\<close>

definition tracked ::
  "('u \<Rightarrow> 'e \<Rightarrow> 'u option) \<Rightarrow> ('e \<Rightarrow> 's \<Rightarrow> 'o list \<times> 's) \<Rightarrow> 'e \<Rightarrow> 'u \<times> 's \<Rightarrow> 'o list \<times> 'u \<times> 's"
where
  "tracked up stp e us =
     (case up (fst us) e of
        None \<Rightarrow> (fst (stp e (snd us)), fst us, snd (stp e (snd us)))
      | Some u \<Rightarrow> (fst (stp e (snd us)), u, snd (stp e (snd us))))"

definition obeys :: "('u \<Rightarrow> 'e \<Rightarrow> 'u option) \<Rightarrow> 'u \<times> 's \<Rightarrow> 'e \<Rightarrow> bool" where
  "obeys up us e \<longleftrightarrow> up (fst us) e \<noteq> None"

lemma tracked_run:
  "accept_all up u es = Some u' \<Longrightarrow> bridge_run stp es s = (out, s') \<Longrightarrow>
     bridge_run (tracked up stp) es (u, s) = (out, u', s')"
proof (induction es arbitrary: u s out)
  case Nil
  then show ?case by simp
next
  case (Cons e es)
  from Cons.prems obtain v where v: "up u e = Some v" "accept_all up v es = Some u'"
    by (auto split: option.splits)
  obtain out1 s1 where st: "stp e s = (out1, s1)" by fastforce
  obtain out2 s2 where run: "bridge_run stp es s1 = (out2, s2)" by fastforce
  from Cons.prems(2) st run have o: "out = out1 @ out2" "s' = s2" by auto
  have "bridge_run (tracked up stp) es (v, s1) = (out2, u', s')"
    using Cons.IH [OF v(2)] run o(2) by simp
  moreover from v(1) st have "tracked up stp e (u, s) = (out1, v, s1)"
    by (simp add: tracked_def)
  ultimately show ?case using o by simp
qed

lemma obeys_run:
  "accept_all up u es = Some u' \<Longrightarrow> run_ok (tracked up stp) (obeys up) es (u, s)"
  by (induction es arbitrary: u s) (auto simp: obeys_def tracked_def split: option.splits)

end
