(* ===== verification/ResponsesToAnthropic.thy ===== *)
theory ResponsesToAnthropic
  imports ApiTypes StreamBridge
begin

text \<open>
  \<^verbatim>\<open>backend/internal/pkg/apicompat/responses_to_anthropic.go\<close>: the bridge that turns an
  OpenAI Responses response, whole or streamed, into an Anthropic Messages one. The
  streaming half is a state machine: \<open>ResponsesEventToAnthropicEvents\<close> takes one upstream
  event and the state and returns the events for the client and the new state; every
  handler of the source is one definition. \<^verbatim>\<open>encoding/json\<close> enters as \<open>json_env\<close>: whether a
  text is valid JSON, the object a text decodes to, the text an object encodes to, and the
  quoted form of a string.
\<close>

section \<open>Whole responses\<close>

definition anthropicUsageFromResponsesUsage :: "ResponsesUsage option \<Rightarrow> AnthropicUsage" where
  "anthropicUsageFromResponsesUsage usage =
     (case usage of
        None \<Rightarrow> zero_AnthropicUsage
      | Some u \<Rightarrow>
          (let cachedTokens =
                 (case ru_InputTokensDetails u of None \<Rightarrow> 0 | Some d \<Rightarrow> itd_CachedTokens d);
               inputTokens =
                 ru_InputTokens u - cachedTokens - ru_CacheCreationInputTokens u
           in zero_AnthropicUsage\<lparr>
                au_InputTokens := (if inputTokens < 0 then 0 else inputTokens),
                au_OutputTokens := ru_OutputTokens u,
                au_CacheReadInputTokens := cachedTokens,
                au_CacheCreationInputTokens := ru_CacheCreationInputTokens u\<rparr>))"

definition containsAnthropicToolUseBlock :: "AnthropicContentBlock list \<Rightarrow> bool" where
  "containsAnthropicToolUseBlock blocks \<longleftrightarrow> (\<exists>b \<in> set blocks. cb_Type b = ''tool_use'')"

definition responsesStatusToAnthropicStopReason ::
  "string \<Rightarrow> ResponsesIncompleteDetails option \<Rightarrow> AnthropicContentBlock list \<Rightarrow> string" where
  "responsesStatusToAnthropicStopReason status details blocks =
     (if status = ''incomplete'' then
        (case details of
           Some d \<Rightarrow> if id_Reason d = ''max_output_tokens'' then ''max_tokens'' else ''end_turn''
         | None \<Rightarrow> ''end_turn'')
      else if status = ''completed'' then
        (if containsAnthropicToolUseBlock blocks then ''tool_use'' else ''end_turn'')
      else ''end_turn'')"

definition sanitizeAnthropicToolUseInput :: "json_env \<Rightarrow> string \<Rightarrow> string \<Rightarrow> string" where
  "sanitizeAnthropicToolUseInput J name raw =
     (if name \<noteq> ''Read'' \<or> raw = [] then raw
      else case js_object J raw of
        None \<Rightarrow> raw
      | Some input \<Rightarrow>
          (if input ''pages'' \<noteq> Some [CHR 0x22, CHR 0x22] then raw
           else case js_encode J (input(''pages'' := None)) of
             None \<Rightarrow> raw
           | Some sanitized \<Rightarrow> sanitized))"

definition querySearchInput :: "json_env \<Rightarrow> ResponsesOutput \<Rightarrow> string" where
  "querySearchInput J item =
     (let query = (case ro_Action item of None \<Rightarrow> [] | Some a \<Rightarrow> wa_Query a)
      in [CHR ''{'', CHR 0x22] @ ''query'' @ [CHR 0x22, CHR '':''] @ js_quote J query @ ''}'')"

definition summaryText :: "ResponsesOutput \<Rightarrow> string" where
  "summaryText item =
     concat (map su_Text (filter (\<lambda>s. su_Type s = ''summary_text'' \<and> su_Text s \<noteq> [])
       (ro_Summary item)))"

text \<open>The blocks one output item contributes: the body of the loop over \<^verbatim>\<open>resp.Output\<close>.\<close>

definition itemBlocks :: "json_env \<Rightarrow> ResponsesOutput \<Rightarrow> AnthropicContentBlock list" where
  "itemBlocks J item =
     (if ro_Type item = ''reasoning'' then
        (if summaryText item \<noteq> [] \<or> trim_space (ro_EncryptedContent item) \<noteq> [] then
           [zero_block\<lparr>cb_Type := ''thinking'', cb_Thinking := summaryText item,
              cb_Signature := ro_EncryptedContent item\<rparr>]
         else [])
      else if ro_Type item = ''message'' then
        map (\<lambda>part. zero_block\<lparr>cb_Type := ''text'', cb_Text := cp_Text part\<rparr>)
          (filter (\<lambda>part. cp_Type part = ''output_text'' \<and> cp_Text part \<noteq> []) (ro_Content item))
      else if ro_Type item = ''function_call'' then
        [zero_block\<lparr>cb_Type := ''tool_use'', cb_ID := fromResponsesCallID (ro_CallID item),
           cb_Name := ro_Name item,
           cb_Input := sanitizeAnthropicToolUseInput J (ro_Name item) (ro_Arguments item)\<rparr>]
      else if ro_Type item = ''web_search_call'' then
        [zero_block\<lparr>cb_Type := ''server_tool_use'', cb_ID := ''srvtoolu_'' @ ro_ID item,
           cb_Name := ''web_search'', cb_Input := querySearchInput J item\<rparr>,
         zero_block\<lparr>cb_Type := ''web_search_tool_result'',
           cb_ToolUseID := ''srvtoolu_'' @ ro_ID item, cb_Content := ''[]''\<rparr>]
      else [])"

definition ResponsesToAnthropic :: "json_env \<Rightarrow> ResponsesResponse \<Rightarrow> string \<Rightarrow> AnthropicResponse"
where
  "ResponsesToAnthropic J resp model =
     (let collected = concat (map (itemBlocks J) (rr_Output resp));
          blocks = (if collected = [] then [zero_block\<lparr>cb_Type := ''text'', cb_Text := []\<rparr>]
                    else collected)
      in \<lparr>ar_ID = rr_ID resp, ar_Type = ''message'', ar_Role = ''assistant'',
          ar_Content = blocks, ar_Model = model,
          ar_StopReason = Some (responsesStatusToAnthropicStopReason (rr_Status resp)
             (rr_IncompleteDetails resp) blocks),
          ar_StopSequence = None,
          ar_Usage = (case rr_Usage resp of
             None \<Rightarrow> zero_AnthropicUsage
           | Some u \<Rightarrow> anthropicUsageFromResponsesUsage (Some u))\<rparr>)"

section \<open>Streams: state and helpers\<close>

record responsesTextPart =
  tp_OutputIndex :: int
  tp_ContentIndex :: int

record R2AState =
  MessageStartSent :: bool
  MessageStopSent :: bool
  ContentBlockIndex :: int
  ContentBlockOpen :: bool
  CurrentBlockType :: string
  CurrentToolName :: string
  CurrentToolArgs :: string
  CurrentToolHadDelta :: bool
  PendingThinkingSignature :: string
  HasToolCall :: bool
  OutputIndexToBlockIdx :: "int \<rightharpoonup> int"
  textByPart :: "responsesTextPart \<rightharpoonup> string"
  textDelivered :: bool
  st_InputTokens :: int
  st_OutputTokens :: int
  st_CacheReadInputTokens :: int
  st_CacheCreationInputTokens :: int
  st_ResponseID :: string
  st_Model :: string
  st_Created :: int

type_synonym handler_result = "AnthropicStreamEvent list \<times> R2AState"

definition NewResponsesEventToAnthropicState :: "int \<Rightarrow> R2AState" where
  "NewResponsesEventToAnthropicState now =
     \<lparr>MessageStartSent = False, MessageStopSent = False, ContentBlockIndex = 0,
      ContentBlockOpen = False, CurrentBlockType = [], CurrentToolName = [],
      CurrentToolArgs = [], CurrentToolHadDelta = False, PendingThinkingSignature = [],
      HasToolCall = False, OutputIndexToBlockIdx = Map.empty, textByPart = Map.empty,
      textDelivered = False, st_InputTokens = 0, st_OutputTokens = 0,
      st_CacheReadInputTokens = 0, st_CacheCreationInputTokens = 0, st_ResponseID = [],
      st_Model = [], st_Created = now\<rparr>"

definition block_start :: "int \<Rightarrow> AnthropicContentBlock \<Rightarrow> AnthropicStreamEvent" where
  "block_start i b = zero_aevent\<lparr>ae_Type := ''content_block_start'', ae_Index := Some i,
     ae_ContentBlock := Some b\<rparr>"

definition block_delta :: "int \<Rightarrow> AnthropicDelta \<Rightarrow> AnthropicStreamEvent" where
  "block_delta i d = zero_aevent\<lparr>ae_Type := ''content_block_delta'', ae_Index := Some i,
     ae_Delta := Some d\<rparr>"

definition block_stop :: "int \<Rightarrow> AnthropicStreamEvent" where
  "block_stop i = zero_aevent\<lparr>ae_Type := ''content_block_stop'', ae_Index := Some i\<rparr>"

definition closeCurrentBlock :: "R2AState \<Rightarrow> handler_result" where
  "closeCurrentBlock s =
     (if \<not> ContentBlockOpen s then ([], s)
      else
        (let idx = ContentBlockIndex s;
             sig = trim_space (PendingThinkingSignature s);
             thinking = (CurrentBlockType s = ''thinking'');
             sigs = (if thinking \<and> sig \<noteq> [] then
                       [block_delta idx (zero_delta\<lparr>ad_Type := ''signature_delta'',
                          ad_Signature := sig\<rparr>)]
                     else []);
             s1 = (if thinking then s\<lparr>PendingThinkingSignature := []\<rparr> else s)
         in (sigs @ [block_stop idx],
             s1\<lparr>ContentBlockOpen := False, ContentBlockIndex := idx + 1, CurrentToolName := [],
                CurrentToolArgs := [], CurrentToolHadDelta := False\<rparr>)))"

definition message_end :: "string \<Rightarrow> R2AState \<Rightarrow> AnthropicStreamEvent list" where
  "message_end stopReason s =
     [zero_aevent\<lparr>ae_Type := ''message_delta'',
        ae_Delta := Some (zero_delta\<lparr>ad_StopReason := stopReason\<rparr>),
        ae_Usage := Some (zero_AnthropicUsage\<lparr>au_InputTokens := st_InputTokens s,
          au_OutputTokens := st_OutputTokens s,
          au_CacheReadInputTokens := st_CacheReadInputTokens s,
          au_CacheCreationInputTokens := st_CacheCreationInputTokens s\<rparr>)\<rparr>,
      zero_aevent\<lparr>ae_Type := ''message_stop''\<rparr>]"

definition FinalizeResponsesAnthropicStream :: "R2AState \<Rightarrow> handler_result" where
  "FinalizeResponsesAnthropicStream s =
     (if \<not> MessageStartSent s \<or> MessageStopSent s then ([], s)
      else
        (let (closing, s1) = closeCurrentBlock s;
             stopReason = (if HasToolCall s1 then ''tool_use'' else ''end_turn'')
         in (closing @ message_end stopReason s1, s1\<lparr>MessageStopSent := True\<rparr>)))"

section \<open>Streams: one handler per upstream event\<close>

definition resToAnthHandleCreated :: "ResponsesStreamEvent \<Rightarrow> R2AState \<Rightarrow> handler_result" where
  "resToAnthHandleCreated evt s =
     (let s1 = (case re_Response evt of
                  None \<Rightarrow> s
                | Some r \<Rightarrow> s\<lparr>st_ResponseID := rr_ID r,
                    st_Model := (if st_Model s = [] then rr_Model r else st_Model s)\<rparr>)
      in if MessageStartSent s1 then ([], s1)
         else
           ([zero_aevent\<lparr>ae_Type := ''message_start'',
               ae_Message := Some \<lparr>ar_ID = st_ResponseID s1, ar_Type = ''message'',
                 ar_Role = ''assistant'', ar_Content = [], ar_Model = st_Model s1,
                 ar_StopReason = None, ar_StopSequence = None, ar_Usage = zero_AnthropicUsage\<rparr>\<rparr>],
            s1\<lparr>MessageStartSent := True\<rparr>))"

definition resToAnthHandleOutputItemAdded ::
  "ResponsesStreamEvent \<Rightarrow> R2AState \<Rightarrow> handler_result" where
  "resToAnthHandleOutputItemAdded evt s =
     (case re_Item evt of
        None \<Rightarrow> ([], s)
      | Some item \<Rightarrow>
          (if ro_Type item = ''function_call'' \<or> ro_Type item = ''custom_tool_call'' then
             (let (closing, s1) = closeCurrentBlock s; idx = ContentBlockIndex s1
              in (closing @
                  [block_start idx (zero_block\<lparr>cb_Type := ''tool_use'',
                     cb_ID := fromResponsesCallID (ro_CallID item), cb_Name := ro_Name item,
                     cb_Input := ''{}''\<rparr>)],
                  s1\<lparr>OutputIndexToBlockIdx := (OutputIndexToBlockIdx s1)(re_OutputIndex evt \<mapsto> idx),
                     ContentBlockOpen := True, CurrentBlockType := ''tool_use'',
                     CurrentToolName := ro_Name item, CurrentToolArgs := [],
                     CurrentToolHadDelta := False, HasToolCall := True\<rparr>))
           else if ro_Type item = ''reasoning'' then
             (let (closing, s1) = closeCurrentBlock s; idx = ContentBlockIndex s1
              in (closing @ [block_start idx (zero_block\<lparr>cb_Type := ''thinking''\<rparr>)],
                  s1\<lparr>OutputIndexToBlockIdx := (OutputIndexToBlockIdx s1)(re_OutputIndex evt \<mapsto> idx),
                     ContentBlockOpen := True, CurrentBlockType := ''thinking'',
                     PendingThinkingSignature := trim_space (ro_EncryptedContent item)\<rparr>))
           else ([], s)))"

definition resToAnthTextPartOf :: "ResponsesStreamEvent \<Rightarrow> responsesTextPart" where
  "resToAnthTextPartOf evt =
     \<lparr>tp_OutputIndex = re_OutputIndex evt, tp_ContentIndex = re_ContentIndex evt\<rparr>"

definition openTextBlock :: "R2AState \<Rightarrow> handler_result" where
  "openTextBlock s =
     (if \<not> ContentBlockOpen s \<or> CurrentBlockType s \<noteq> ''text'' then
        (let (closing, s1) = closeCurrentBlock s
         in (closing @ [block_start (ContentBlockIndex s1) (zero_block\<lparr>cb_Type := ''text''\<rparr>)],
             s1\<lparr>ContentBlockOpen := True, CurrentBlockType := ''text''\<rparr>))
      else ([], s))"

definition resToAnthEmitText :: "string \<Rightarrow> responsesTextPart \<Rightarrow> R2AState \<Rightarrow> handler_result" where
  "resToAnthEmitText txt part s =
     (if txt = [] then ([], s)
      else
        (let (opening, s1) = openTextBlock s;
             delivered = (case textByPart s1 part of None \<Rightarrow> [] | Some d \<Rightarrow> d)
         in (opening @ [block_delta (ContentBlockIndex s1)
               (zero_delta\<lparr>ad_Type := ''text_delta'', ad_Text := txt\<rparr>)],
             s1\<lparr>textByPart := (textByPart s1)(part \<mapsto> delivered @ txt), textDelivered := True\<rparr>)))"

definition resToAnthHandleTextDelta :: "ResponsesStreamEvent \<Rightarrow> R2AState \<Rightarrow> handler_result" where
  "resToAnthHandleTextDelta evt s = resToAnthEmitText (re_Delta evt) (resToAnthTextPartOf evt) s"

definition resToAnthRecoverText :: "string \<Rightarrow> responsesTextPart \<Rightarrow> R2AState \<Rightarrow> handler_result" where
  "resToAnthRecoverText txt part s =
     (if textByPart s part = None \<and> textDelivered s then ([], s)
      else
        (let delivered = (case textByPart s part of None \<Rightarrow> [] | Some d \<Rightarrow> d)
         in if txt = delivered \<or> \<not> has_prefix txt delivered then ([], s)
            else resToAnthEmitText (drop (length delivered) txt) part s))"

definition resToAnthHandleBlockDone :: "R2AState \<Rightarrow> handler_result" where
  "resToAnthHandleBlockDone s = (if \<not> ContentBlockOpen s then ([], s) else closeCurrentBlock s)"

definition resToAnthHandleTextDone :: "ResponsesStreamEvent \<Rightarrow> R2AState \<Rightarrow> handler_result" where
  "resToAnthHandleTextDone evt s =
     (if MessageStopSent s then resToAnthHandleBlockDone s
      else
        (let (events, s1) = resToAnthRecoverText (re_Text evt) (resToAnthTextPartOf evt) s;
             (done_events, s2) = resToAnthHandleBlockDone s1
         in (events @ done_events, s2)))"

definition args_delta :: "int \<Rightarrow> string \<Rightarrow> AnthropicStreamEvent" where
  "args_delta i json =
     block_delta i (zero_delta\<lparr>ad_Type := ''input_json_delta'', ad_PartialJSON := json\<rparr>)"

definition resToAnthHandleFuncArgsDelta ::
  "json_env \<Rightarrow> ResponsesStreamEvent \<Rightarrow> R2AState \<Rightarrow> handler_result" where
  "resToAnthHandleFuncArgsDelta J evt s =
     (if re_Delta evt = [] then ([], s)
      else if CurrentBlockType s = ''tool_use'' \<and> CurrentToolName s = ''Read'' then
        (let s1 = s\<lparr>CurrentToolArgs := CurrentToolArgs s @ re_Delta evt\<rparr>
         in if CurrentToolHadDelta s1 \<or> \<not> js_valid J (CurrentToolArgs s1) then ([], s1)
            else case OutputIndexToBlockIdx s1 (re_OutputIndex evt) of
              None \<Rightarrow> ([], s1)
            | Some blockIdx \<Rightarrow>
                ([args_delta blockIdx
                    (sanitizeAnthropicToolUseInput J (CurrentToolName s1) (CurrentToolArgs s1))],
                 s1\<lparr>CurrentToolHadDelta := True\<rparr>))
      else
        (let s1 = (if CurrentBlockType s = ''tool_use'' then s\<lparr>CurrentToolHadDelta := True\<rparr> else s)
         in case OutputIndexToBlockIdx s1 (re_OutputIndex evt) of
              None \<Rightarrow> ([], s1)
            | Some blockIdx \<Rightarrow> ([args_delta blockIdx (re_Delta evt)], s1)))"

definition resToAnthHandleFuncArgsDone ::
  "json_env \<Rightarrow> ResponsesStreamEvent \<Rightarrow> R2AState \<Rightarrow> handler_result" where
  "resToAnthHandleFuncArgsDone J evt s =
     (if \<not> ContentBlockOpen s then ([], s)
      else if CurrentBlockType s \<noteq> ''tool_use'' then resToAnthHandleBlockDone s
      else
        (let raw = (if re_Arguments evt = [] then CurrentToolArgs s else re_Arguments evt)
         in if raw = [] \<or> CurrentToolHadDelta s then closeCurrentBlock s
            else
              (let raw1 = (if CurrentToolName s = ''Read''
                           then sanitizeAnthropicToolUseInput J (CurrentToolName s) raw else raw)
               in if CurrentToolName s = ''Read'' \<and> raw1 = [] then closeCurrentBlock s
                  else
                    (let blockIdx = (case OutputIndexToBlockIdx s (re_OutputIndex evt) of
                           None \<Rightarrow> ContentBlockIndex s | Some i \<Rightarrow> i)
                     in if blockIdx \<noteq> ContentBlockIndex s then ([], s)
                        else
                          (let (closing, s1) = closeCurrentBlock s
                           in (args_delta blockIdx raw1 # closing, s1))))))"

definition resToAnthHandleReasoningDelta ::
  "ResponsesStreamEvent \<Rightarrow> R2AState \<Rightarrow> handler_result" where
  "resToAnthHandleReasoningDelta evt s =
     (if re_Delta evt = [] then ([], s)
      else case OutputIndexToBlockIdx s (re_OutputIndex evt) of
        None \<Rightarrow> ([], s)
      | Some blockIdx \<Rightarrow>
          ([block_delta blockIdx (zero_delta\<lparr>ad_Type := ''thinking_delta'',
              ad_Thinking := re_Delta evt\<rparr>)], s))"

definition resToAnthHandleWebSearchDone ::
  "json_env \<Rightarrow> ResponsesOutput \<Rightarrow> R2AState \<Rightarrow> handler_result" where
  "resToAnthHandleWebSearchDone J item s =
     (let (closing, s1) = closeCurrentBlock s;
          toolUseID = ''srvtoolu_'' @ ro_ID item;
          idx1 = ContentBlockIndex s1;
          idx2 = idx1 + 1
      in (closing @
          [block_start idx1 (zero_block\<lparr>cb_Type := ''server_tool_use'', cb_ID := toolUseID,
             cb_Name := ''web_search'', cb_Input := querySearchInput J item\<rparr>),
           block_stop idx1,
           block_start idx2 (zero_block\<lparr>cb_Type := ''web_search_tool_result'',
             cb_ToolUseID := toolUseID, cb_Content := ''[]''\<rparr>),
           block_stop idx2],
          s1\<lparr>ContentBlockIndex := idx2 + 1\<rparr>))"

definition resToAnthHandleOutputItemDone ::
  "json_env \<Rightarrow> ResponsesStreamEvent \<Rightarrow> R2AState \<Rightarrow> handler_result" where
  "resToAnthHandleOutputItemDone J evt s =
     (case re_Item evt of
        None \<Rightarrow> ([], s)
      | Some item \<Rightarrow>
          (if ro_Type item = ''web_search_call'' \<and> ro_Status item = ''completed''
           then resToAnthHandleWebSearchDone J item s
           else
             (let sig = trim_space (ro_EncryptedContent item);
                  s1 = (if ro_Type item = ''reasoning'' \<and> sig \<noteq> []
                        then s\<lparr>PendingThinkingSignature := sig\<rparr> else s)
              in if ContentBlockOpen s1 then closeCurrentBlock s1 else ([], s1))))"

text \<open>The two nested loops of \<^verbatim>\<open>resToAnthRecoverTerminalText\<close>.\<close>

fun recoverContents ::
  "int \<Rightarrow> int \<Rightarrow> ResponsesContentPart list \<Rightarrow> R2AState \<Rightarrow> handler_result" where
  "recoverContents outputIndex contentIndex [] s = ([], s)"
| "recoverContents outputIndex contentIndex (c # cs) s =
     (if cp_Type c \<noteq> ''output_text'' then recoverContents outputIndex (contentIndex + 1) cs s
      else
        (let (evs, s1) = resToAnthEmitText (cp_Text c)
               \<lparr>tp_OutputIndex = outputIndex, tp_ContentIndex = contentIndex\<rparr> s;
             (rest, s2) = recoverContents outputIndex (contentIndex + 1) cs s1
         in (evs @ rest, s2)))"

fun recoverOutputs :: "int \<Rightarrow> ResponsesOutput list \<Rightarrow> R2AState \<Rightarrow> handler_result" where
  "recoverOutputs outputIndex [] s = ([], s)"
| "recoverOutputs outputIndex (item # items) s =
     (if ro_Type item \<noteq> ''message'' then recoverOutputs (outputIndex + 1) items s
      else
        (let (evs, s1) = recoverContents outputIndex 0 (ro_Content item) s;
             (rest, s2) = recoverOutputs (outputIndex + 1) items s1
         in (evs @ rest, s2)))"

definition resToAnthRecoverTerminalText ::
  "ResponsesStreamEvent \<Rightarrow> R2AState \<Rightarrow> handler_result" where
  "resToAnthRecoverTerminalText evt s =
     (case re_Response evt of
        None \<Rightarrow> ([], s)
      | Some r \<Rightarrow>
          (if textDelivered s then ([], s)
           else
             (let (events, s1) = recoverOutputs 0 (rr_Output r) s
              in if events \<noteq> [] then
                   (let (closing, s2) = closeCurrentBlock s1 in (events @ closing, s2))
                 else ([], s1))))"

definition take_usage :: "ResponsesUsage option \<Rightarrow> R2AState \<Rightarrow> R2AState" where
  "take_usage usage s =
     (case usage of
        None \<Rightarrow> s
      | Some _ \<Rightarrow>
          (let u = anthropicUsageFromResponsesUsage usage
           in s\<lparr>st_InputTokens := au_InputTokens u, st_OutputTokens := au_OutputTokens u,
                st_CacheReadInputTokens := au_CacheReadInputTokens u,
                st_CacheCreationInputTokens := au_CacheCreationInputTokens u\<rparr>))"

definition completedStopReason :: "ResponsesStreamEvent \<Rightarrow> R2AState \<Rightarrow> string" where
  "completedStopReason evt s =
     (case re_Response evt of
        None \<Rightarrow> ''end_turn''
      | Some r \<Rightarrow>
          (if rr_Status r = ''incomplete'' then
             (case rr_IncompleteDetails r of
                Some d \<Rightarrow> if id_Reason d = ''max_output_tokens'' then ''max_tokens'' else ''end_turn''
              | None \<Rightarrow> ''end_turn'')
           else if rr_Status r = ''completed'' then
             (if HasToolCall s then ''tool_use'' else ''end_turn'')
           else ''end_turn''))"

definition resToAnthHandleCompleted :: "ResponsesStreamEvent \<Rightarrow> R2AState \<Rightarrow> handler_result" where
  "resToAnthHandleCompleted evt s =
     (if MessageStopSent s then ([], s)
      else
        (let (closing, s1) = closeCurrentBlock s;
             (recovered, s2) = resToAnthRecoverTerminalText evt s1;
             s3 = take_usage (re_Usage evt) s2;
             s4 = (case re_Response evt of None \<Rightarrow> s3 | Some r \<Rightarrow> take_usage (rr_Usage r) s3)
         in (closing @ recovered @ message_end (completedStopReason evt s4) s4,
             s4\<lparr>MessageStopSent := True\<rparr>)))"

definition is_terminal :: "string \<Rightarrow> bool" where
  "is_terminal t \<longleftrightarrow> t \<in> {''response.completed'', ''response.done'', ''response.incomplete'',
     ''response.failed''}"

definition ResponsesEventToAnthropicEvents ::
  "json_env \<Rightarrow> ResponsesStreamEvent \<Rightarrow> R2AState \<Rightarrow> handler_result" where
  "ResponsesEventToAnthropicEvents J evt s =
     (let t = re_Type evt
      in if t = ''response.created'' then resToAnthHandleCreated evt s
         else if t = ''response.output_item.added'' then resToAnthHandleOutputItemAdded evt s
         else if t = ''response.output_text.delta'' then resToAnthHandleTextDelta evt s
         else if t = ''response.output_text.done'' then resToAnthHandleTextDone evt s
         else if t = ''response.function_call_arguments.delta''
                 \<or> t = ''response.custom_tool_call_input.delta''
           then resToAnthHandleFuncArgsDelta J evt s
         else if t = ''response.function_call_arguments.done''
           then resToAnthHandleFuncArgsDone J evt s
         else if t = ''response.output_item.done'' then resToAnthHandleOutputItemDone J evt s
         else if t = ''response.reasoning_summary_text.delta''
                 \<or> t = ''response.reasoning_text.delta''
           then resToAnthHandleReasoningDelta evt s
         else if t = ''response.reasoning_summary_text.done'' then ([], s)
         else if is_terminal t then resToAnthHandleCompleted evt s
         else ([], s))"

section \<open>The client protocol and its invariant\<close>

text \<open>
  The event order of an Anthropic stream: one \<^verbatim>\<open>message_start\<close>; content blocks with
  consecutive indices from 0, each started, filled and stopped before the next; one
  \<^verbatim>\<open>message_delta\<close>; one \<^verbatim>\<open>message_stop\<close>. \<open>ablock n op\<close> is the phase before block \<open>n\<close> starts
  (or inside it when \<open>op\<close>). The strict automaton wants every delta addressed to the open
  block; the lenient one lets it name any block started so far.
\<close>

datatype aphase = Unstarted | Block int bool | Closing | Ended

definition anth_accept :: "bool \<Rightarrow> aphase \<Rightarrow> AnthropicStreamEvent \<Rightarrow> aphase option" where
  "anth_accept strict p e =
     (if ae_Type e = ''message_start'' then
        (if p = Unstarted then Some (Block 0 False) else None)
      else if ae_Type e = ''message_stop'' then (if p = Closing then Some Ended else None)
      else
        (case p of
           Block n op \<Rightarrow>
             (if ae_Type e = ''content_block_start'' then
                (if \<not> op \<and> ae_Index e = Some n then Some (Block n True) else None)
              else if ae_Type e = ''content_block_delta'' then
                (case ae_Index e of
                   None \<Rightarrow> None
                 | Some i \<Rightarrow>
                     (if (if strict then op \<and> i = n
                          else 0 \<le> i \<and> i < n + (if op then 1 else 0))
                      then Some p else None))
              else if ae_Type e = ''content_block_stop'' then
                (if op \<and> ae_Index e = Some n then Some (Block (n + 1) False) else None)
              else if ae_Type e = ''message_delta'' then (if \<not> op then Some Closing else None)
              else None)
         | _ \<Rightarrow> None))"

definition r2a_phase :: "R2AState \<Rightarrow> aphase" where
  "r2a_phase s =
     (if MessageStopSent s then Ended
      else if MessageStartSent s then Block (ContentBlockIndex s) (ContentBlockOpen s)
      else Unstarted)"

text \<open>Between \<^verbatim>\<open>message_start\<close> and \<^verbatim>\<open>message_stop\<close>: recorded block indices have been started.\<close>

definition r2a_live :: "R2AState \<Rightarrow> bool" where
  "r2a_live s \<longleftrightarrow> MessageStartSent s \<and> \<not> MessageStopSent s \<and> 0 \<le> ContentBlockIndex s \<and>
     (\<forall>v \<in> ran (OutputIndexToBlockIdx s).
        0 \<le> v \<and> v < ContentBlockIndex s + (if ContentBlockOpen s then 1 else 0))"

definition r2a_ok :: "bool \<Rightarrow> R2AState \<Rightarrow> handler_result \<Rightarrow> bool" where
  "r2a_ok strict s r \<longleftrightarrow>
     accept_all (anth_accept strict) (r2a_phase s) (fst r) = Some (r2a_phase (snd r)) \<and>
     r2a_live (snd r)"

lemma r2a_okD:
  "r2a_ok strict s (evs, s') \<Longrightarrow>
     accept_all (anth_accept strict) (r2a_phase s) evs = Some (r2a_phase s')"
  "r2a_ok strict s (evs, s') \<Longrightarrow> r2a_live s'"
  by (simp_all add: r2a_ok_def)

lemma r2a_ok_refl [inv_intros]: "r2a_live s \<Longrightarrow> r2a_ok strict s ([], s)"
  by (simp add: r2a_ok_def)

lemma r2a_ok_append:
  "r2a_ok strict s (es, s1) \<Longrightarrow> r2a_ok strict s1 (fs, s2) \<Longrightarrow> r2a_ok strict s (es @ fs, s2)"
  by (simp add: r2a_ok_def accept_all_append)

lemmas event_shapes = block_start_def block_delta_def block_stop_def args_delta_def
  zero_aevent_def anth_accept_def

lemma r2a_live_phase:
  "r2a_live s \<Longrightarrow> r2a_phase s = Block (ContentBlockIndex s) (ContentBlockOpen s)"
  by (simp add: r2a_live_def r2a_phase_def)

lemma r2a_ok_close [inv_intros]: "r2a_live s \<Longrightarrow> r2a_ok strict s (closeCurrentBlock s)"
  by (auto simp: r2a_ok_def r2a_live_phase closeCurrentBlock_def Let_def event_shapes)
     (auto simp: r2a_live_def r2a_phase_def)

lemma closeCurrentBlock_closed [simp]: "\<not> ContentBlockOpen (snd (closeCurrentBlock s))"
  by (simp add: closeCurrentBlock_def Let_def)


text \<open>Opening a block after the current one was closed.\<close>

lemma r2a_ok_open:
  assumes "r2a_live s1" and "\<not> ContentBlockOpen s1"
    and "MessageStartSent s2" and "\<not> MessageStopSent s2"
    and "ContentBlockIndex s2 = ContentBlockIndex s1" and "ContentBlockOpen s2"
    and "OutputIndexToBlockIdx s2 = OutputIndexToBlockIdx s1
       \<or> OutputIndexToBlockIdx s2 = (OutputIndexToBlockIdx s1)(k \<mapsto> ContentBlockIndex s1)"
  shows "r2a_ok strict s1 ([block_start (ContentBlockIndex s1) b], s2)"
proof -
  have "r2a_live s2"
    using assms by (auto simp: r2a_live_def ran_def split: if_splits) (fastforce+)
  with assms show ?thesis
    by (simp add: r2a_ok_def r2a_live_phase event_shapes)
qed

lemma r2a_ok_close_open:
  assumes "r2a_live s" and "closeCurrentBlock s = (closing, s1)"
    and "MessageStartSent s2 = MessageStartSent s1" and "MessageStopSent s2 = MessageStopSent s1"
    and "ContentBlockIndex s2 = ContentBlockIndex s1" and "ContentBlockOpen s2"
    and "OutputIndexToBlockIdx s2 = OutputIndexToBlockIdx s1
       \<or> OutputIndexToBlockIdx s2 = (OutputIndexToBlockIdx s1)(k \<mapsto> ContentBlockIndex s1)"
  shows "r2a_ok strict s (closing @ [block_start (ContentBlockIndex s1) b], s2)"
proof -
  have ok: "r2a_ok strict s (closing, s1)" using r2a_ok_close assms(1,2) by metis
  have closed: "\<not> ContentBlockOpen s1" using closeCurrentBlock_closed assms(2) by (metis snd_conv)
  from ok have "r2a_live s1" by (rule r2a_okD(2))
  moreover from this have "MessageStartSent s2" "\<not> MessageStopSent s2"
    using assms(3,4) by (simp_all add: r2a_live_def)
  ultimately have "r2a_ok strict s1 ([block_start (ContentBlockIndex s1) b], s2)"
    using closed assms(5-7) by (intro r2a_ok_open [where k = k]) auto
  with ok show ?thesis by (rule r2a_ok_append)
qed

lemma r2a_ok_created:
  "r2a_live s \<Longrightarrow> r2a_ok strict s (resToAnthHandleCreated evt s)"
  by (auto simp: resToAnthHandleCreated_def r2a_ok_def r2a_live_def r2a_phase_def
      split: option.splits)

lemma r2a_ok_item_added:
  "r2a_live s \<Longrightarrow> r2a_ok strict s (resToAnthHandleOutputItemAdded evt s)"
  by (auto simp: resToAnthHandleOutputItemAdded_def Let_def
      intro!: r2a_ok_refl r2a_ok_close_open [where k = "re_OutputIndex evt"]
      split: option.split prod.split)

lemma r2a_ok_openTextBlock:
  "r2a_live s \<Longrightarrow> r2a_ok strict s (openTextBlock s)"
  by (auto simp: openTextBlock_def Let_def
      intro!: r2a_ok_refl r2a_ok_close_open split: prod.split)

lemma openTextBlock_open [simp]:
  "ContentBlockOpen (snd (openTextBlock s))" "CurrentBlockType (snd (openTextBlock s)) = ''text''"
  by (auto simp: openTextBlock_def Let_def split: prod.split)

text \<open>A delta for the open block.\<close>

lemma r2a_ok_delta_open:
  "r2a_live s \<Longrightarrow> ContentBlockOpen s \<Longrightarrow> r2a_live s' \<Longrightarrow> r2a_phase s' = r2a_phase s \<Longrightarrow>
     r2a_ok strict s ([block_delta (ContentBlockIndex s) d], s')"
  by (auto simp: r2a_ok_def r2a_live_phase event_shapes r2a_live_def)

lemma r2a_ok_emit_text: "r2a_live s \<Longrightarrow> r2a_ok strict s (resToAnthEmitText txt part s)"
proof -
  assume live: "r2a_live s"
  obtain pre s1 where op: "openTextBlock s = (pre, s1)" by fastforce
  with live have ok: "r2a_ok strict s (pre, s1)" using r2a_ok_openTextBlock by metis
  have "ContentBlockOpen s1" using openTextBlock_open(1) op by (metis snd_conv)
  with ok live op show ?thesis
    by (auto simp: resToAnthEmitText_def Let_def r2a_live_def r2a_phase_def r2a_okD
        intro!: r2a_ok_append [OF ok] r2a_ok_delta_open r2a_ok_refl dest: r2a_okD(2))
qed

lemma r2a_ok_recover_text: "r2a_live s \<Longrightarrow> r2a_ok strict s (resToAnthRecoverText txt part s)"
  by (auto simp: resToAnthRecoverText_def Let_def intro: r2a_ok_refl r2a_ok_emit_text)

lemma r2a_ok_block_done: "r2a_live s \<Longrightarrow> r2a_ok strict s (resToAnthHandleBlockDone s)"
  by (auto simp: resToAnthHandleBlockDone_def intro: r2a_ok_refl r2a_ok_close)

lemma r2a_ok_text_done: "r2a_live s \<Longrightarrow> r2a_ok strict s (resToAnthHandleTextDone evt s)"
proof -
  assume live: "r2a_live s"
  obtain evs s1 where e: "resToAnthRecoverText (re_Text evt) (resToAnthTextPartOf evt) s = (evs, s1)"
    by fastforce
  obtain dn s2 where d: "resToAnthHandleBlockDone s1 = (dn, s2)" by fastforce
  have ok1: "r2a_ok strict s (evs, s1)" using r2a_ok_recover_text [OF live] e by metis
  have "r2a_ok strict s1 (dn, s2)" using r2a_ok_block_done [OF r2a_okD(2) [OF ok1]] d by metis
  with ok1 have "r2a_ok strict s (evs @ dn, s2)" by (rule r2a_ok_append)
  with live e d show ?thesis by (simp add: resToAnthHandleTextDone_def r2a_live_def)
qed

text \<open>
  Argument and reasoning deltas are addressed through the recorded block index of their
  output item. \<open>delta_in_order\<close> asks that it is the block now open: the upstream does not
  return to an item after it went on to the next.
\<close>

definition is_addressed_delta :: "string \<Rightarrow> bool" where
  "is_addressed_delta t \<longleftrightarrow> t \<in> {''response.function_call_arguments.delta'',
     ''response.custom_tool_call_input.delta'', ''response.reasoning_summary_text.delta'',
     ''response.reasoning_text.delta''}"

definition delta_in_order :: "R2AState \<Rightarrow> ResponsesStreamEvent \<Rightarrow> bool" where
  "delta_in_order s evt \<longleftrightarrow>
     (is_addressed_delta (re_Type evt) \<longrightarrow>
        (case OutputIndexToBlockIdx s (re_OutputIndex evt) of
           None \<Rightarrow> True
         | Some i \<Rightarrow> ContentBlockOpen s \<and> i = ContentBlockIndex s))"

lemma r2a_ok_addressed:
  assumes "r2a_live s" and "OutputIndexToBlockIdx s k = Some i"
    and "strict \<Longrightarrow> ContentBlockOpen s \<and> i = ContentBlockIndex s"
    and "r2a_live s'" and "r2a_phase s' = r2a_phase s"
  shows "r2a_ok strict s ([block_delta i d], s')"
proof -
  from assms(1,2) have "0 \<le> i \<and> i < ContentBlockIndex s + (if ContentBlockOpen s then 1 else 0)"
    unfolding r2a_live_def by (metis ranI)
  with assms show ?thesis
    by (auto simp: r2a_ok_def r2a_live_phase [OF assms(1)] event_shapes)
qed

lemma r2a_tool_fields [simp]:
  "r2a_live (s\<lparr>CurrentToolArgs := a\<rparr>) = r2a_live s"
  "r2a_live (s\<lparr>CurrentToolHadDelta := b\<rparr>) = r2a_live s"
  "r2a_live (s\<lparr>PendingThinkingSignature := x\<rparr>) = r2a_live s"
  "r2a_phase (s\<lparr>CurrentToolArgs := a\<rparr>) = r2a_phase s"
  "r2a_phase (s\<lparr>CurrentToolHadDelta := b\<rparr>) = r2a_phase s"
  "r2a_phase (s\<lparr>PendingThinkingSignature := x\<rparr>) = r2a_phase s"
  by (simp_all add: r2a_live_def r2a_phase_def)

lemma r2a_ok_silent:
  "r2a_live s' \<Longrightarrow> r2a_phase s' = r2a_phase s \<Longrightarrow> r2a_ok strict s ([], s')"
  by (simp add: r2a_ok_def)

lemma r2a_ok_args_delta:
  assumes "r2a_live s" and "strict \<Longrightarrow> delta_in_order s evt"
    and "is_addressed_delta (re_Type evt)"
  shows "r2a_ok strict s (resToAnthHandleFuncArgsDelta J evt s)"
proof (cases "OutputIndexToBlockIdx s (re_OutputIndex evt)")
  case None
  with assms(1) show ?thesis
    by (simp add: resToAnthHandleFuncArgsDelta_def Let_def r2a_ok_silent)
next
  case (Some i)
  with assms have "r2a_ok strict s ([block_delta i d], s')"
    if "r2a_live s'" "r2a_phase s' = r2a_phase s" for d s'
    using that by (intro r2a_ok_addressed) (auto simp: delta_in_order_def)
  with Some assms(1) show ?thesis
    by (simp add: resToAnthHandleFuncArgsDelta_def Let_def args_delta_def r2a_ok_silent)
qed

lemma r2a_ok_reasoning_delta:
  "r2a_live s \<Longrightarrow> (strict \<Longrightarrow> delta_in_order s evt) \<Longrightarrow> is_addressed_delta (re_Type evt) \<Longrightarrow>
     r2a_ok strict s (resToAnthHandleReasoningDelta evt s)"
  by (auto simp: resToAnthHandleReasoningDelta_def delta_in_order_def
      intro!: r2a_ok_refl r2a_ok_addressed split: option.splits)

lemma r2a_ok_cons_delta:
  assumes "r2a_live s" and "ContentBlockOpen s" and "i = ContentBlockIndex s"
    and "r2a_ok strict s (evs, s')"
  shows "r2a_ok strict s (block_delta i d # evs, s')"
proof -
  have "r2a_ok strict s ([block_delta i d], s)"
    using assms(1-3) by (auto intro: r2a_ok_delta_open)
  from r2a_ok_append [OF this assms(4)] show ?thesis by simp
qed

lemma r2a_ok_args_done: "r2a_live s \<Longrightarrow> r2a_ok strict s (resToAnthHandleFuncArgsDone J evt s)"
proof -
  assume live: "r2a_live s"
  obtain evs s1 where c: "closeCurrentBlock s = (evs, s1)" by fastforce
  with live have "r2a_ok strict s (evs, s1)" using r2a_ok_close by metis
  with live c show ?thesis
    by (auto simp: resToAnthHandleFuncArgsDone_def Let_def args_delta_def
        intro: r2a_ok_refl r2a_ok_block_done r2a_ok_cons_delta split: option.splits)
qed

lemma r2a_ok_web_search: "r2a_live s \<Longrightarrow> r2a_ok strict s (resToAnthHandleWebSearchDone J item s)"
proof -
  assume live: "r2a_live s"
  obtain evs s1 where c: "closeCurrentBlock s = (evs, s1)" by fastforce
  with live have ok: "r2a_ok strict s (evs, s1)" using r2a_ok_close by metis
  have "\<not> ContentBlockOpen s1" using closeCurrentBlock_closed c by (metis snd_conv)
  moreover have "r2a_live s1" using ok by (rule r2a_okD)
  ultimately show ?thesis using c
    by (auto simp: resToAnthHandleWebSearchDone_def Let_def intro!: r2a_ok_append [OF ok])
       (auto simp: r2a_ok_def r2a_live_phase event_shapes, auto simp: r2a_live_def r2a_phase_def)
qed

lemma r2a_ok_signature:
  "r2a_ok strict (s\<lparr>PendingThinkingSignature := x\<rparr>) r = r2a_ok strict s r"
  by (simp add: r2a_ok_def)

lemma r2a_ok_item_done: "r2a_live s \<Longrightarrow> r2a_ok strict s (resToAnthHandleOutputItemDone J evt s)"
  using r2a_ok_close [of "s\<lparr>PendingThinkingSignature := x\<rparr>" for x]
  by (auto simp: resToAnthHandleOutputItemDone_def Let_def r2a_ok_signature
      intro: r2a_ok_silent r2a_ok_close r2a_ok_web_search split: option.split)

section \<open>Whole streams\<close>

definition r2a_body_ok :: "bool \<Rightarrow> R2AState \<Rightarrow> ResponsesStreamEvent \<Rightarrow> bool" where
  "r2a_body_ok strict s evt \<longleftrightarrow>
     \<not> is_terminal (re_Type evt) \<and> (strict \<longrightarrow> delta_in_order s evt)"

lemma r2a_body_ok_lenient:
  "run_ok stp (r2a_body_ok False) es s \<longleftrightarrow> list_all (\<lambda>e. \<not> is_terminal (re_Type e)) es"
proof -
  have "r2a_body_ok False = (\<lambda>_ e. \<not> is_terminal (re_Type e))"
    by (simp add: r2a_body_ok_def fun_eq_iff)
  then show ?thesis by (simp add: run_ok_const)
qed

lemma r2a_ok_step:
  assumes "r2a_live s" and "r2a_body_ok strict s evt"
  shows "r2a_ok strict s (ResponsesEventToAnthropicEvents J evt s)"
proof -
  have ord: "strict \<Longrightarrow> delta_in_order s evt" using assms(2) by (simp add: r2a_body_ok_def)
  have "\<not> is_terminal (re_Type evt)" using assms(2) by (simp add: r2a_body_ok_def)
  then show ?thesis
    using assms(1) ord
    by (simp add: ResponsesEventToAnthropicEvents_def Let_def r2a_ok_created r2a_ok_item_added
        resToAnthHandleTextDelta_def r2a_ok_emit_text r2a_ok_text_done r2a_ok_args_delta
        r2a_ok_args_done r2a_ok_item_done r2a_ok_reasoning_delta r2a_ok_refl
        is_addressed_delta_def)
qed

interpretation r2a: stream_bridge "ResponsesEventToAnthropicEvents J" "r2a_body_ok strict"
    "anth_accept strict" r2a_phase r2a_live for J strict
proof unfold_locales
  fix s e out s'
  assume "r2a_live s" "r2a_body_ok strict s e"
    and st: "ResponsesEventToAnthropicEvents J e s = (out, s')"
  then have ok: "r2a_ok strict s (out, s')" using r2a_ok_step by metis
  then show "accept_all (anth_accept strict) (r2a_phase s) out = Some (r2a_phase s')"
    by (rule r2a_okD)
  from ok show "r2a_live s'" by (rule r2a_okD)
qed

text \<open>The terminal event: recovered text is delivered before the message is closed.\<close>

lemma resToAnthEmitText_silent: "resToAnthEmitText txt part s = ([], s') \<Longrightarrow> s' = s"
  by (auto simp: resToAnthEmitText_def Let_def split: if_splits prod.splits)

lemma recoverContents_silent: "recoverContents i j cs s = ([], s') \<Longrightarrow> s' = s"
  by (induction i j cs s arbitrary: s' rule: recoverContents.induct)
     (auto simp: Let_def split: if_splits prod.splits dest!: resToAnthEmitText_silent)

lemma recoverOutputs_silent: "recoverOutputs i items s = ([], s') \<Longrightarrow> s' = s"
  by (induction i items s arbitrary: s' rule: recoverOutputs.induct)
     (auto simp: Let_def split: if_splits prod.splits dest!: recoverContents_silent)

lemma r2a_ok_recoverContents: "r2a_live s \<Longrightarrow> r2a_ok strict s (recoverContents i j cs s)"
proof (induction i j cs s rule: recoverContents.induct)
  case (1 i j s)
  then show ?case by (simp add: r2a_ok_refl)
next
  case (2 i j c cs s)
  obtain evs s1 where e: "resToAnthEmitText (cp_Text c)
      \<lparr>tp_OutputIndex = i, tp_ContentIndex = j\<rparr> s = (evs, s1)" by fastforce
  then have ok: "r2a_ok strict s (evs, s1)" using r2a_ok_emit_text 2(3) by metis
  obtain rest s2 where r: "recoverContents i (j + 1) cs s1 = (rest, s2)" by fastforce
  show ?case
  proof (cases "cp_Type c = ''output_text''")
    case True
    with 2(2) e r have "r2a_ok strict s1 (rest, s2)" using r2a_okD(2) [OF ok] by auto
    with True e r show ?thesis by (auto intro: r2a_ok_append [OF ok])
  next
    case False
    with 2 show ?thesis by simp
  qed
qed

lemma r2a_ok_recoverOutputs: "r2a_live s \<Longrightarrow> r2a_ok strict s (recoverOutputs i items s)"
proof (induction i items s rule: recoverOutputs.induct)
  case (1 i s)
  then show ?case by (simp add: r2a_ok_refl)
next
  case (2 i item items s)
  obtain evs s1 where e: "recoverContents i 0 (ro_Content item) s = (evs, s1)" by fastforce
  then have ok: "r2a_ok strict s (evs, s1)" using r2a_ok_recoverContents 2(3) by metis
  obtain rest s2 where r: "recoverOutputs (i + 1) items s1 = (rest, s2)" by fastforce
  show ?case
  proof (cases "ro_Type item = ''message''")
    case True
    with 2(2) e r have "r2a_ok strict s1 (rest, s2)" using r2a_okD(2) [OF ok] by auto
    with True e r show ?thesis by (auto intro: r2a_ok_append [OF ok])
  next
    case False
    with 2 show ?thesis by simp
  qed
qed

lemma r2a_ok_recover_terminal:
  assumes live: "r2a_live s" and closed: "\<not> ContentBlockOpen s"
  shows "r2a_ok strict s (resToAnthRecoverTerminalText evt s)
     \<and> \<not> ContentBlockOpen (snd (resToAnthRecoverTerminalText evt s))"
proof (cases "re_Response evt = None \<or> textDelivered s")
  case True
  with assms show ?thesis
    by (auto simp: resToAnthRecoverTerminalText_def r2a_ok_refl split: option.split)
next
  case False
  then obtain r where r: "re_Response evt = Some r" by auto
  obtain evs s1 where e: "recoverOutputs 0 (rr_Output r) s = (evs, s1)" by fastforce
  obtain cl s2 where c: "closeCurrentBlock s1 = (cl, s2)" by fastforce
  have ok: "r2a_ok strict s (evs, s1)" using r2a_ok_recoverOutputs [OF live] e by metis
  have "r2a_ok strict s1 (cl, s2)" using r2a_ok_close [OF r2a_okD(2) [OF ok]] c by metis
  moreover have "\<not> ContentBlockOpen s2" using closeCurrentBlock_closed c by (metis snd_conv)
  moreover have "evs = [] \<Longrightarrow> s1 = s" using recoverOutputs_silent e by blast
  ultimately show ?thesis
    using False r e c closed ok
    by (auto simp: resToAnthRecoverTerminalText_def intro: r2a_ok_append)
qed

lemma message_end_accepted:
  "accept_all (anth_accept strict) (Block n False) (message_end r s) = Some Ended"
  by (simp add: message_end_def event_shapes)

lemma r2a_close_message:
  assumes "r2a_ok strict s (evs, s1)" and "\<not> ContentBlockOpen s1"
  shows "accept_all (anth_accept strict) (r2a_phase s) (evs @ message_end r s2) = Some Ended"
proof (rule accept_all_appendI)
  show "accept_all (anth_accept strict) (r2a_phase s) evs = Some (r2a_phase s1)"
    using assms(1) by (rule r2a_okD)
  show "accept_all (anth_accept strict) (r2a_phase s1) (message_end r s2) = Some Ended"
    using assms r2a_okD(2) by (simp add: r2a_live_phase message_end_accepted)
qed

lemma r2a_completed_accepted:
  assumes live: "r2a_live s"
  shows "accept_all (anth_accept strict) (r2a_phase s) (fst (resToAnthHandleCompleted evt s))
     = Some Ended"
proof -
  obtain cl s1 where c: "closeCurrentBlock s = (cl, s1)" by fastforce
  have ok1: "r2a_ok strict s (cl, s1)" using r2a_ok_close [OF live] c by metis
  have closed1: "\<not> ContentBlockOpen s1" using closeCurrentBlock_closed c by (metis snd_conv)
  obtain rc s2 where r: "resToAnthRecoverTerminalText evt s1 = (rc, s2)" by fastforce
  with r2a_ok_recover_terminal [OF r2a_okD(2) [OF ok1] closed1]
  have "r2a_ok strict s1 (rc, s2)" "\<not> ContentBlockOpen s2" by (metis, metis snd_conv)
  with ok1 have ok: "r2a_ok strict s (cl @ rc, s2)" "\<not> ContentBlockOpen s2"
    by (auto intro: r2a_ok_append)
  from r2a_close_message [OF ok] live c r show ?thesis
    by (simp add: resToAnthHandleCompleted_def Let_def r2a_live_def)
qed

lemma r2a_finalize_accepted:
  assumes live: "r2a_live s"
  shows "accept_all (anth_accept strict) (r2a_phase s) (fst (FinalizeResponsesAnthropicStream s))
     = Some Ended"
proof -
  obtain cl s1 where c: "closeCurrentBlock s = (cl, s1)" by fastforce
  have "r2a_ok strict s (cl, s1)" using r2a_ok_close [OF live] c by metis
  moreover have "\<not> ContentBlockOpen s1" using closeCurrentBlock_closed c by (metis snd_conv)
  ultimately show ?thesis
    using r2a_close_message live c
    by (simp add: FinalizeResponsesAnthropicStream_def r2a_live_def)
qed

lemma r2a_opening:
  assumes "re_Type c = ''response.created''"
    and "ResponsesEventToAnthropicEvents J c (NewResponsesEventToAnthropicState now) = (evs, s)"
  shows "accept_all (anth_accept strict) Unstarted evs = Some (r2a_phase s) \<and> r2a_live s"
  using assms
  by (auto simp: ResponsesEventToAnthropicEvents_def resToAnthHandleCreated_def Let_def
      NewResponsesEventToAnthropicState_def r2a_live_def r2a_phase_def event_shapes
      split: option.splits)

text \<open>The body of a stream, from the first event up to, but without, the terminal one.\<close>

lemma r2a_body:
  assumes "re_Type c = ''response.created''"
    and "run_ok (ResponsesEventToAnthropicEvents J) (r2a_body_ok strict) es
      (snd (ResponsesEventToAnthropicEvents J c (NewResponsesEventToAnthropicState now)))"
    and "bridge_run (ResponsesEventToAnthropicEvents J) (c # es)
      (NewResponsesEventToAnthropicState now) = (out, s)"
  shows "accept_all (anth_accept strict) Unstarted out = Some (r2a_phase s) \<and> r2a_live s"
proof -
  obtain evs s1 where c: "ResponsesEventToAnthropicEvents J c
      (NewResponsesEventToAnthropicState now) = (evs, s1)" by fastforce
  obtain rest s2 where r: "bridge_run (ResponsesEventToAnthropicEvents J) es s1 = (rest, s2)"
    by fastforce
  from assms(3) c r have out: "out = evs @ rest" "s = s2" by simp_all
  from r2a_opening [OF assms(1) c]
  have 1: "accept_all (anth_accept strict) Unstarted evs = Some (r2a_phase s1)"
    and live: "r2a_live s1" by auto
  from assms(2) c have ok: "run_ok (ResponsesEventToAnthropicEvents J) (r2a_body_ok strict) es s1"
    by simp
  from r2a.run_accepted [OF live ok r] r2a.run_live [OF live ok r] 1 out
  show ?thesis by (auto intro: accept_all_appendI)
qed

lemma r2a_run_completed:
  assumes "re_Type c = ''response.created''"
    and "run_ok (ResponsesEventToAnthropicEvents J) (r2a_body_ok strict) es
      (snd (ResponsesEventToAnthropicEvents J c (NewResponsesEventToAnthropicState now)))"
    and "is_terminal (re_Type t)"
  shows "accept_all (anth_accept strict) Unstarted
     (fst (bridge_run (ResponsesEventToAnthropicEvents J) (c # es @ [t])
        (NewResponsesEventToAnthropicState now))) = Some Ended"
proof -
  obtain out s where r: "bridge_run (ResponsesEventToAnthropicEvents J) (c # es)
      (NewResponsesEventToAnthropicState now) = (out, s)" by fastforce
  from r2a_body [OF assms(1,2) r]
  have 1: "accept_all (anth_accept strict) Unstarted out = Some (r2a_phase s)"
    and live: "r2a_live s" by auto
  have t: "ResponsesEventToAnthropicEvents J t s = resToAnthHandleCompleted t s"
    using assms(3) by (auto simp: ResponsesEventToAnthropicEvents_def is_terminal_def)
  from accept_all_appendI [OF 1 r2a_completed_accepted [OF live, of strict t]]
  show ?thesis
    using r t bridge_run_append [of "ResponsesEventToAnthropicEvents J" "c # es" "[t]"
        "NewResponsesEventToAnthropicState now"]
    by (simp add: Let_def split: prod.splits)
qed

section \<open>The text the client receives\<close>

definition delta_text :: "AnthropicStreamEvent \<Rightarrow> string" where
  "delta_text e = (case ae_Delta e of
     Some d \<Rightarrow> if ad_Type d = ''text_delta'' then ad_Text d else [] | None \<Rightarrow> [])"

definition emitted_text :: "AnthropicStreamEvent list \<Rightarrow> string" where
  "emitted_text evs = concat (map delta_text evs)"

lemma emitted_text_simps [simp]:
  "emitted_text [] = []"
  "emitted_text (e # es) = delta_text e @ emitted_text es"
  "emitted_text (es @ fs) = emitted_text es @ emitted_text fs"
  by (simp_all add: emitted_text_def)

lemma delta_text_simps [simp]:
  "delta_text (block_start i b) = []"
  "delta_text (block_stop i) = []"
  "delta_text (block_delta i d) = (if ad_Type d = ''text_delta'' then ad_Text d else [])"
  by (simp_all add: delta_text_def block_start_def block_delta_def block_stop_def zero_aevent_def)


lemma emitted_text_message_end [simp]: "emitted_text (message_end r s) = []"
  by (simp add: message_end_def delta_text_def zero_aevent_def zero_delta_def)




definition text_delta_event :: "responsesTextPart \<Rightarrow> string \<Rightarrow> ResponsesStreamEvent" where
  "text_delta_event p d = zero_revent\<lparr>re_Type := ''response.output_text.delta'', re_Delta := d,
     re_OutputIndex := tp_OutputIndex p, re_ContentIndex := tp_ContentIndex p\<rparr>"

definition text_done_event :: "responsesTextPart \<Rightarrow> string \<Rightarrow> ResponsesStreamEvent" where
  "text_done_event p t = zero_revent\<lparr>re_Type := ''response.output_text.done'', re_Text := t,
     re_OutputIndex := tp_OutputIndex p, re_ContentIndex := tp_ContentIndex p\<rparr>"

lemma text_part_eta [simp]:
  "\<lparr>tp_OutputIndex = tp_OutputIndex p, tp_ContentIndex = tp_ContentIndex p\<rparr> = p"
  by (cases p) simp

lemma text_delta_event_step:
  "ResponsesEventToAnthropicEvents J (text_delta_event p d) s = resToAnthEmitText d p s"
  by (simp add: ResponsesEventToAnthropicEvents_def text_delta_event_def zero_revent_def
      resToAnthHandleTextDelta_def resToAnthTextPartOf_def)









section \<open>Properties\<close>

text \<open>
  C21: Whatever an upstream sends between \<^verbatim>\<open>response.created\<close> and the first terminal event,
  in any order and with any indices, the client receives a complete Anthropic stream: one
  \<^verbatim>\<open>message_start\<close>, content blocks numbered consecutively from 0 and never nested, deltas
  only for blocks already started, one \<^verbatim>\<open>message_delta\<close> after the last block is closed, one
  \<^verbatim>\<open>message_stop\<close> as the last event.
\<close>

theorem r2a_stream_protocol:
  assumes "re_Type c = ''response.created''"
    and "list_all (\<lambda>e. \<not> is_terminal (re_Type e)) es" and "is_terminal (re_Type t)"
  shows "accept_all (anth_accept False) Unstarted
     (fst (bridge_run (ResponsesEventToAnthropicEvents J) (c # es @ [t])
        (NewResponsesEventToAnthropicState now))) = Some Ended"
proof (rule r2a_run_completed [OF assms(1) _ assms(3)])
  show "run_ok (ResponsesEventToAnthropicEvents J) (r2a_body_ok False) es
      (snd (ResponsesEventToAnthropicEvents J c (NewResponsesEventToAnthropicState now)))"
    using assms(2) by (simp add: r2a_body_ok_lenient)
qed


text \<open>
  C38: An upstream that breaks off without a terminal event still leaves the client with a
  complete stream: \<^verbatim>\<open>FinalizeResponsesAnthropicStream\<close> closes the open block and ends the
  message, and a second call adds nothing.
\<close>

theorem r2a_truncated_stream_finalized:
  assumes "re_Type c = ''response.created''"
    and "list_all (\<lambda>e. \<not> is_terminal (re_Type e)) es"
    and "bridge_run (ResponsesEventToAnthropicEvents J) (c # es)
      (NewResponsesEventToAnthropicState now) = (out, s)"
    and "FinalizeResponsesAnthropicStream s = (out2, s2)"
  shows "accept_all (anth_accept False) Unstarted (out @ out2) = Some Ended
     \<and> FinalizeResponsesAnthropicStream s2 = ([], s2)"
proof -
  have ok: "run_ok (ResponsesEventToAnthropicEvents J) (r2a_body_ok False) es
      (snd (ResponsesEventToAnthropicEvents J c (NewResponsesEventToAnthropicState now)))"
    using assms(2) by (simp add: r2a_body_ok_lenient)
  note body = r2a_body [OF assms(1) ok assms(3)]
  have "accept_all (anth_accept False) (r2a_phase s) out2 = Some Ended"
    using r2a_finalize_accepted [of s False] body assms(4) by simp
  with body have "accept_all (anth_accept False) Unstarted (out @ out2) = Some Ended"
    by (blast intro: accept_all_appendI)
  moreover have "MessageStopSent s2"
    using assms(4) body
    by (auto simp: FinalizeResponsesAnthropicStream_def r2a_live_def split: prod.splits)
  ultimately show ?thesis by (simp add: FinalizeResponsesAnthropicStream_def)
qed


text \<open>
  The usage the client sees splits the upstream's total into disjoint buckets: no bucket
  is negative, and uncached, cache-read and cache-creation input add up to the upstream's
  input total.
\<close>

theorem anthropic_usage_partition:
  assumes "ru_InputTokensDetails u = Some d"
    and "0 \<le> itd_CachedTokens d" and "0 \<le> ru_CacheCreationInputTokens u"
    and "itd_CachedTokens d + ru_CacheCreationInputTokens u \<le> ru_InputTokens u"
  shows "(let a = anthropicUsageFromResponsesUsage (Some u)
     in 0 \<le> au_InputTokens a \<and> 0 \<le> au_CacheReadInputTokens a
        \<and> 0 \<le> au_CacheCreationInputTokens a
        \<and> au_InputTokens a + au_CacheReadInputTokens a + au_CacheCreationInputTokens a
            = ru_InputTokens u)"
  using assms by (simp add: anthropicUsageFromResponsesUsage_def zero_AnthropicUsage_def Let_def)

text \<open>
  After \<^verbatim>\<open>message_stop\<close> a late text delta is still delivered: it opens a content block that
  the protocol has no place for. \<^verbatim>\<open>resToAnthHandleTextDone\<close> guards against exactly this; the
  delta handler does not.
\<close>

theorem r2a_late_delta_breaks_protocol:
  assumes "MessageStopSent s" and "d \<noteq> []"
  shows "accept_all (anth_accept False) (r2a_phase s)
     (fst (ResponsesEventToAnthropicEvents J (text_delta_event p d) s)) = None"
proof -
  have p: "r2a_phase s = Ended" using assms(1) by (simp add: r2a_phase_def)
  have rejected: "anth_accept False Ended e = None"
    if "ae_Type e \<in> {''content_block_start'', ''content_block_delta'', ''content_block_stop''}" for e
    using that by (auto simp: anth_accept_def)
  show ?thesis
    using assms(2) p
    by (auto simp: text_delta_event_step resToAnthEmitText_def openTextBlock_def Let_def
        closeCurrentBlock_def rejected block_start_def block_delta_def block_stop_def
        zero_aevent_def split: prod.split)
qed

section \<open>Witnesses\<close>

definition plain_json :: json_env where
  "plain_json = \<lparr>js_valid = (\<lambda>s. s \<noteq> []), js_object = (\<lambda>_. None), js_encode = (\<lambda>_. None),
     js_quote = (\<lambda>s. [CHR 0x22] @ s @ [CHR 0x22])\<rparr>"

definition created_event :: ResponsesStreamEvent where
  "created_event = zero_revent\<lparr>re_Type := ''response.created''\<rparr>"

definition completed_event :: ResponsesStreamEvent where
  "completed_event = zero_revent\<lparr>re_Type := ''response.completed''\<rparr>"

definition tool_added_event :: "int \<Rightarrow> ResponsesStreamEvent" where
  "tool_added_event k = zero_revent\<lparr>re_Type := ''response.output_item.added'',
     re_OutputIndex := k,
     re_Item := Some (zero_output\<lparr>ro_Type := ''function_call'', ro_Name := ''Edit''\<rparr>)\<rparr>"

definition tool_delta_event :: "int \<Rightarrow> string \<Rightarrow> ResponsesStreamEvent" where
  "tool_delta_event k d = zero_revent\<lparr>re_Type := ''response.function_call_arguments.delta'',
     re_OutputIndex := k, re_Delta := d\<rparr>"

definition part0 :: responsesTextPart where
  "part0 = \<lparr>tp_OutputIndex = 0, tp_ContentIndex = 0\<rparr>"

lemmas demo_events = plain_json_def created_event_def completed_event_def tool_added_event_def
  tool_delta_event_def text_delta_event_def text_done_event_def part0_def zero_revent_def
  is_terminal_def

theorem r2a_stream_protocol_witness:
  "accept_all (anth_accept False) Unstarted
     (fst (bridge_run (ResponsesEventToAnthropicEvents plain_json)
       (created_event # [text_delta_event part0 ''hi'', tool_added_event 1, tool_added_event 2,
          tool_delta_event 1 ''{}''] @ [completed_event])
       (NewResponsesEventToAnthropicState 0))) = Some Ended"
  by (rule r2a_stream_protocol) (simp_all add: demo_events)


theorem r2a_truncated_stream_finalized_witness:
  "(let r = bridge_run (ResponsesEventToAnthropicEvents plain_json)
          [created_event, text_delta_event part0 ''hi'', tool_added_event 1]
          (NewResponsesEventToAnthropicState 0);
        f = FinalizeResponsesAnthropicStream (snd r)
    in accept_all (anth_accept False) Unstarted (fst r @ fst f) = Some Ended
       \<and> FinalizeResponsesAnthropicStream (snd f) = ([], snd f))"
  unfolding Let_def
  by (rule r2a_truncated_stream_finalized
        [OF _ _ surjective_pairing surjective_pairing, of created_event])
     (simp_all add: demo_events)


definition sample_usage :: ResponsesUsage where
  "sample_usage = \<lparr>ru_InputTokens = 100, ru_OutputTokens = 7, ru_TotalTokens = 107,
     ru_CacheCreationInputTokens = 20,
     ru_InputTokensDetails = Some (zero_input_details\<lparr>itd_CachedTokens := 30\<rparr>),
     ru_OutputTokensDetails = None\<rparr>"

theorem anthropic_usage_partition_witness:
  "(let a = anthropicUsageFromResponsesUsage (Some sample_usage)
    in 0 \<le> au_InputTokens a \<and> 0 \<le> au_CacheReadInputTokens a
       \<and> 0 \<le> au_CacheCreationInputTokens a
       \<and> au_InputTokens a + au_CacheReadInputTokens a + au_CacheCreationInputTokens a
           = ru_InputTokens sample_usage)"
  by (rule anthropic_usage_partition [where d = "zero_input_details\<lparr>itd_CachedTokens := 30\<rparr>"])
     (simp_all add: sample_usage_def zero_input_details_def)

theorem r2a_late_delta_breaks_protocol_witness:
  "accept_all (anth_accept False)
     (r2a_phase ((NewResponsesEventToAnthropicState 0)\<lparr>MessageStopSent := True\<rparr>))
     (fst (ResponsesEventToAnthropicEvents plain_json (text_delta_event part0 ''x'')
        ((NewResponsesEventToAnthropicState 0)\<lparr>MessageStopSent := True\<rparr>))) = None"
  by (rule r2a_late_delta_breaks_protocol) simp_all

end
