(* ===== verification/ClaudeModels.thy ===== *)
theory ClaudeModels
  imports Prelude
begin

text \<open>
  Claude model identifiers, \<^verbatim>\<open>backend/internal/pkg/claude/effort_catalog.go\<close> and the
  override table of \<^verbatim>\<open>constants.go\<close>: how a provider's spelling of a model name is brought
  to the family name, and what the family name decides. \<^verbatim>\<open>strings.ToLower\<close> and
  \<^verbatim>\<open>unicode.IsDigit\<close> on the runes of the date suffix are Unicode tables; they are the
  parameters \<open>lower\<close> and \<open>digits\<close>, with \<open>ascii_lower\<close> and \<open>ascii_digits\<close> their values on
  ASCII names.
\<close>

definition trim_prefix :: "string \<Rightarrow> string \<Rightarrow> string" where
  "trim_prefix s p = (if has_prefix s p then drop (length p) s else s)"

definition trim_suffix :: "string \<Rightarrow> string \<Rightarrow> string" where
  "trim_suffix s p = (if has_suffix s p then take (length s - length p) s else s)"

definition ascii_lower :: "string \<Rightarrow> string" where
  "ascii_lower = map (\<lambda>c. let n = of_char c :: nat in
     if 65 \<le> n \<and> n \<le> 90 then char_of (n + 32) else c)"

definition ascii_digits :: "string \<Rightarrow> bool" where
  "ascii_digits s \<longleftrightarrow> (\<forall>c \<in> set s. let n = of_char c :: nat in 48 \<le> n \<and> n \<le> 57)"

definition after_slash :: "string \<Rightarrow> string option" where
  "after_slash s =
     (case dropWhile (\<lambda>c. c \<noteq> CHR ''/'') s of [] \<Rightarrow> None | _ # rest \<Rightarrow> Some rest)"

definition ModelIDReverseOverrides :: "string \<rightharpoonup> string" where
  "ModelIDReverseOverrides = map_of
     [(''claude-sonnet-4-5-20250929'', ''claude-sonnet-4-5''),
      (''claude-opus-4-5-20251101'', ''claude-opus-4-5''),
      (''claude-haiku-4-5-20251001'', ''claude-haiku-4-5'')]"

text \<open>The trailing \<^verbatim>\<open>-YYYYMMDD\<close> of a dated snapshot.\<close>

definition drop_date_suffix :: "(string \<Rightarrow> bool) \<Rightarrow> string \<Rightarrow> string" where
  "drop_date_suffix digits i =
     (if 9 \<le> length i then
        (let suffix = drop (length i - 9) i
         in if hd suffix = CHR ''-'' \<and> digits (tl suffix) then take (length i - 9) i else i)
      else i)"

definition normalizeEffortModelID ::
  "(string \<Rightarrow> string) \<Rightarrow> (string \<Rightarrow> bool) \<Rightarrow> string \<Rightarrow> string" where
  "normalizeEffortModelID lower digits model =
     (let i0 = trim_prefix (lower (trim_space model)) ''models/'';
          i1 = (case after_slash i0 of
                  None \<Rightarrow> i0 | Some rest \<Rightarrow> trim_prefix (trim_space rest) ''models/'');
          i2 = foldl trim_prefix i1
                 [''us.'', ''eu.'', ''apac.'', ''jp.'', ''au.'', ''us-gov.'', ''global.''];
          i3 = trim_suffix (trim_prefix i2 ''anthropic.'') ''-thinking'';
          i4 = (if i3 = ''claude-opus-5.5'' then ''claude-opus-5-5'' else i3);
          i5 = (if i4 = ''claude-sonnet-5.5'' then ''claude-sonnet-5-5'' else i4);
          i6 = (case ModelIDReverseOverrides i5 of None \<Rightarrow> i5 | Some mapped \<Rightarrow> mapped)
      in drop_date_suffix digits i6)"

definition IsOpus55 :: "(string \<Rightarrow> string) \<Rightarrow> (string \<Rightarrow> bool) \<Rightarrow> string \<Rightarrow> bool" where
  "IsOpus55 lower digits model \<longleftrightarrow>
     normalizeEffortModelID lower digits model = ''claude-opus-5-5''"

definition IsSonnet55 :: "(string \<Rightarrow> string) \<Rightarrow> (string \<Rightarrow> bool) \<Rightarrow> string \<Rightarrow> bool" where
  "IsSonnet55 lower digits model \<longleftrightarrow>
     normalizeEffortModelID lower digits model = ''claude-sonnet-5-5''"

definition effortLowMediumHigh :: "string list" where
  "effortLowMediumHigh = [''low'', ''medium'', ''high'']"

definition effortLowMediumHighMax :: "string list" where
  "effortLowMediumHighMax = [''low'', ''medium'', ''high'', ''max'']"

definition effortLowMediumHighXHighMax :: "string list" where
  "effortLowMediumHighXHighMax = [''low'', ''medium'', ''high'', ''xhigh'', ''max'']"

definition effortFamilies :: "(string \<times> string list) list" where
  "effortFamilies =
     [(''claude-mythos-preview'', effortLowMediumHighMax),
      (''claude-mythos-5'', effortLowMediumHighXHighMax),
      (''claude-fable-5'', effortLowMediumHighXHighMax),
      (''claude-sonnet-4-6'', effortLowMediumHighMax),
      (''claude-sonnet-5-5'', effortLowMediumHighXHighMax),
      (''claude-sonnet-5'', effortLowMediumHighXHighMax),
      (''claude-opus-4-8'', effortLowMediumHighXHighMax),
      (''claude-opus-4-7'', effortLowMediumHighXHighMax),
      (''claude-opus-4-6'', effortLowMediumHighMax),
      (''claude-opus-4-5'', effortLowMediumHigh),
      (''claude-opus-5-5'', effortLowMediumHighXHighMax),
      (''claude-opus-5'', effortLowMediumHighXHighMax)]"

definition EffortLevelsForModel ::
  "(string \<Rightarrow> string) \<Rightarrow> (string \<Rightarrow> bool) \<Rightarrow> string \<Rightarrow> string list" where
  "EffortLevelsForModel lower digits model =
     (let i = normalizeEffortModelID lower digits model
      in case find (\<lambda>(family, _). i = family \<or> has_prefix i (family @ ''-'')) effortFamilies of
           None \<Rightarrow> [] | Some (_, levels) \<Rightarrow> levels)"

end
