(* ===== verification/AnthropicToResponses.thy ===== *)
theory AnthropicToResponses
  imports ApiTypes StreamBridge ClaudeModels Base64
begin

text \<open>
  \<^verbatim>\<open>backend/internal/pkg/apicompat/anthropic_to_responses_response.go\<close>: the bridge in the
  other direction, from an Anthropic Messages response, whole or streamed, to an OpenAI
  Responses one. The environment \<open>a2r_env\<close> extends \<open>json_env\<close> by the Unicode tables the model
  name check needs and by the identifiers \<^verbatim>\<open>crypto/rand\<close> yields: \<open>ev_item n\<close> is the
  \<open>n\<close>-th result of \<^verbatim>\<open>generateItemID\<close>, and the state counts how many were drawn.
\<close>

record a2r_env = json_env +
  ev_lower :: "string \<Rightarrow> string"
  ev_digits :: "string \<Rightarrow> bool"
  ev_item :: "nat \<Rightarrow> string"
  ev_response_id :: string
  ev_now :: int

definition preserves_thinking :: "('x) a2r_env_scheme \<Rightarrow> string \<Rightarrow> bool" where
  "preserves_thinking E model \<longleftrightarrow>
     IsOpus55 (ev_lower E) (ev_digits E) model \<or> IsSonnet55 (ev_lower E) (ev_digits E) model"

section \<open>Whole responses\<close>

definition anthropicThinkingEnvelopePrefix :: string where
  "anthropicThinkingEnvelopePrefix = ''anthropic-thinking-v1:''"

definition json_member :: "('x) a2r_env_scheme \<Rightarrow> string \<Rightarrow> string \<Rightarrow> string" where
  "json_member E name v = CHR 0x22 # name @ [CHR 0x22, CHR '':''] @ js_quote E v"

definition encodeAnthropicThinking ::
  "('x) a2r_env_scheme \<Rightarrow> AnthropicContentBlock \<Rightarrow> string" where
  "encodeAnthropicThinking E block =
     (let payload = ''{'' @ json_member E ''type'' (cb_Type block)
            @ '','' @ json_member E ''thinking'' (cb_Thinking block)
            @ (if cb_Signature block = [] then []
               else '','' @ json_member E ''signature'' (cb_Signature block))
            @ (if cb_Data block = [] then [] else '','' @ json_member E ''data'' (cb_Data block))
            @ ''}''
      in anthropicThinkingEnvelopePrefix @ base64_raw_std payload)"

definition anthropicStopReasonToResponsesStatus ::
  "string \<Rightarrow> AnthropicContentBlock list \<Rightarrow> string" where
  "anthropicStopReasonToResponsesStatus stopReason blocks =
     (if stopReason = ''max_tokens'' then ''incomplete''
      else if stopReason \<in> {''end_turn'', ''tool_use'', ''stop_sequence''} then ''completed''
      else ''completed'')"

definition output_text :: "string \<Rightarrow> ResponsesContentPart" where
  "output_text t = zero_part\<lparr>cp_Type := ''output_text'', cp_Text := t\<rparr>"

definition summary_text :: "string \<Rightarrow> ResponsesSummary list" where
  "summary_text t = [\<lparr>su_Type = ''summary_text'', su_Text = t\<rparr>]"

definition message_item :: "string \<Rightarrow> ResponsesContentPart list \<Rightarrow> ResponsesOutput" where
  "message_item i parts = zero_output\<lparr>ro_Type := ''message'', ro_ID := i,
     ro_Role := ''assistant'', ro_Content := parts, ro_Status := ''completed''\<rparr>"

text \<open>
  One turn of the loop over \<^verbatim>\<open>resp.Content\<close>: the accumulators are the outputs, the text parts
  of the trailing message and the number of identifiers drawn.
\<close>

type_synonym collect = "ResponsesOutput list \<times> ResponsesContentPart list \<times> nat"

definition collectBlock ::
  "('x) a2r_env_scheme \<Rightarrow> string \<Rightarrow> AnthropicContentBlock \<Rightarrow> collect \<Rightarrow> collect" where
  "collectBlock E model block c =
     (let (outputs, msgParts, k) = c in
      if cb_Type block = ''thinking'' \<or> cb_Type block = ''redacted_thinking'' then
        (if preserves_thinking E model \<and> (cb_Signature block \<noteq> [] \<or> cb_Data block \<noteq> []) then
           (outputs @ [zero_output\<lparr>ro_Type := ''reasoning'', ro_ID := ev_item E k,
              ro_EncryptedContent := encodeAnthropicThinking E block,
              ro_Summary := (if cb_Thinking block \<noteq> [] then summary_text (cb_Thinking block)
                             else [])\<rparr>], msgParts, k + 1)
         else if cb_Thinking block \<noteq> [] then
           (outputs @ [zero_output\<lparr>ro_Type := ''reasoning'', ro_ID := ev_item E k,
              ro_Summary := summary_text (cb_Thinking block)\<rparr>], msgParts, k + 1)
         else (outputs, msgParts, k))
      else if cb_Type block = ''text'' then
        (if preserves_thinking E model \<and> cb_Text block \<noteq> [] then
           (outputs @ [message_item (ev_item E k) [output_text (cb_Text block)]], msgParts, k + 1)
         else if cb_Text block \<noteq> [] then
           (outputs, msgParts @ [output_text (cb_Text block)], k)
         else (outputs, msgParts, k))
      else if cb_Type block = ''tool_use'' then
        (outputs @ [zero_output\<lparr>ro_Type := ''function_call'', ro_ID := ev_item E k,
           ro_CallID := toResponsesCallID (cb_ID block), ro_Name := cb_Name block,
           ro_Arguments := (if cb_Input block \<noteq> [] then cb_Input block else ''{}''),
           ro_Status := ''completed''\<rparr>], msgParts, k + 1)
      else (outputs, msgParts, k))"

definition collectOutputs ::
  "('x) a2r_env_scheme \<Rightarrow> string \<Rightarrow> AnthropicContentBlock list \<Rightarrow> ResponsesOutput list" where
  "collectOutputs E model blocks =
     (let (outputs, msgParts, k) = fold (collectBlock E model) blocks ([], [], 0);
          (outputs1, k1) = (if msgParts \<noteq> [] then (outputs @ [message_item (ev_item E k) msgParts], k + 1)
                            else (outputs, k))
      in if outputs1 = [] then [message_item (ev_item E k1) [output_text []]] else outputs1)"

definition responses_usage :: "int \<Rightarrow> int \<Rightarrow> int \<Rightarrow> int \<Rightarrow> ResponsesUsage" where
  "responses_usage inp outp cread ccreate =
     (let totalInputTokens = inp + cread + ccreate
      in \<lparr>ru_InputTokens = totalInputTokens, ru_OutputTokens = outp,
          ru_TotalTokens = totalInputTokens + outp, ru_CacheCreationInputTokens = ccreate,
          ru_InputTokensDetails =
            (if cread > 0 then Some (zero_input_details\<lparr>itd_CachedTokens := cread\<rparr>) else None),
          ru_OutputTokensDetails = None\<rparr>)"

definition AnthropicToResponsesResponse ::
  "('x) a2r_env_scheme \<Rightarrow> AnthropicResponse \<Rightarrow> ResponsesResponse" where
  "AnthropicToResponsesResponse E resp =
     (let status = anthropicStopReasonToResponsesStatus
            (AnthropicStopReasonString (ar_StopReason resp)) (ar_Content resp);
          u = ar_Usage resp
      in zero_response\<lparr>
           rr_ID := (if ar_ID resp = [] then ev_response_id E else ar_ID resp),
           rr_Object := ''response'', rr_CreatedAt := ev_now E, rr_Model := ar_Model resp,
           rr_Output := collectOutputs E (ar_Model resp) (ar_Content resp),
           rr_Status := status,
           rr_IncompleteDetails :=
             (if status = ''incomplete'' then Some \<lparr>id_Reason = ''max_output_tokens''\<rparr> else None),
           rr_Usage := Some (responses_usage (au_InputTokens u) (au_OutputTokens u)
             (au_CacheReadInputTokens u) (au_CacheCreationInputTokens u))\<rparr>)"

section \<open>Streams: state and helpers\<close>

record A2RState =
  ResponseID :: string
  Model :: string
  Created :: int
  SequenceNumber :: int
  CreatedSent :: bool
  CompletedSent :: bool
  OutputIndex :: int
  CurrentItemID :: string
  CurrentItemType :: string
  ContentIndex :: int
  TextAccum :: string
  CurrentCallID :: string
  CurrentName :: string
  CurrentContent :: "ResponsesContentPart list"
  CurrentArgs :: string
  CurrentSummary :: string
  CurrentThinking :: AnthropicContentBlock
  PreserveThinkingSignatures :: bool
  PendingToolInput :: string
  Outputs :: "ResponsesOutput list"
  InputTokens :: int
  OutputTokens :: int
  CacheReadInputTokens :: int
  CacheCreationInputTokens :: int
  StopReason :: string
  DrawnIDs :: nat

type_synonym a2r_result = "ResponsesStreamEvent list \<times> A2RState"

definition NewAnthropicEventToResponsesState :: "int \<Rightarrow> A2RState" where
  "NewAnthropicEventToResponsesState now =
     \<lparr>ResponseID = [], Model = [], Created = now, SequenceNumber = 0, CreatedSent = False,
      CompletedSent = False, OutputIndex = 0, CurrentItemID = [], CurrentItemType = [],
      ContentIndex = 0, TextAccum = [], CurrentCallID = [], CurrentName = [],
      CurrentContent = [], CurrentArgs = [], CurrentSummary = [], CurrentThinking = zero_block,
      PreserveThinkingSignatures = False, PendingToolInput = [], Outputs = [],
      InputTokens = 0, OutputTokens = 0, CacheReadInputTokens = 0,
      CacheCreationInputTokens = 0, StopReason = [], DrawnIDs = 0\<rparr>"

definition makeResponsesEvent ::
  "A2RState \<Rightarrow> string \<Rightarrow> ResponsesStreamEvent \<Rightarrow> ResponsesStreamEvent \<times> A2RState" where
  "makeResponsesEvent s eventType template =
     (template\<lparr>re_Type := eventType, re_SequenceNumber := SequenceNumber s\<rparr>,
      s\<lparr>SequenceNumber := SequenceNumber s + 1\<rparr>)"

definition makeResponsesCreatedEvent :: "A2RState \<Rightarrow> ResponsesStreamEvent \<times> A2RState" where
  "makeResponsesCreatedEvent s =
     (zero_revent\<lparr>re_Type := ''response.created'', re_SequenceNumber := SequenceNumber s,
        re_Response := Some (zero_response\<lparr>rr_ID := ResponseID s, rr_Object := ''response'',
          rr_CreatedAt := Created s, rr_Model := Model s, rr_Status := ''in_progress'',
          rr_Output := []\<rparr>)\<rparr>,
      s\<lparr>SequenceNumber := SequenceNumber s + 1\<rparr>)"

definition makeResponsesCompletedEvent ::
  "A2RState \<Rightarrow> string \<Rightarrow> ResponsesIncompleteDetails option \<Rightarrow>
     ResponsesStreamEvent \<times> A2RState" where
  "makeResponsesCompletedEvent s status incompleteDetails =
     (zero_revent\<lparr>
        re_Type := (if status = ''incomplete'' then ''response.incomplete'' else ''response.completed''),
        re_SequenceNumber := SequenceNumber s,
        re_Response := Some (zero_response\<lparr>rr_ID := ResponseID s, rr_Object := ''response'',
          rr_CreatedAt := Created s, rr_Model := Model s, rr_Status := status,
          rr_Output := Outputs s,
          rr_Usage := Some (responses_usage (InputTokens s) (OutputTokens s)
            (CacheReadInputTokens s) (CacheCreationInputTokens s)),
          rr_IncompleteDetails := incompleteDetails\<rparr>)\<rparr>,
      s\<lparr>SequenceNumber := SequenceNumber s + 1\<rparr>)"

definition anthropicResponsesStreamTerminalState ::
  "string \<Rightarrow> string \<times> ResponsesIncompleteDetails option" where
  "anthropicResponsesStreamTerminalState stopReason =
     (if stopReason = ''max_tokens''
      then (''incomplete'', Some \<lparr>id_Reason = ''max_output_tokens''\<rparr>)
      else (''completed'', None))"

definition seedToolArguments :: "string \<Rightarrow> string" where
  "seedToolArguments input =
     (let trimmed = trim_space input
      in if trimmed \<in> {[], ''{}'', ''null''} then [] else trimmed)"

definition closedItem :: "('x) a2r_env_scheme \<Rightarrow> A2RState \<Rightarrow> ResponsesOutput" where
  "closedItem E s =
     (let item = zero_output\<lparr>ro_Type := CurrentItemType s, ro_ID := CurrentItemID s,
            ro_Status := ''completed''\<rparr>
      in if CurrentItemType s = ''message'' then
           item\<lparr>ro_Role := ''assistant'', ro_Content := CurrentContent s\<rparr>
         else if CurrentItemType s = ''function_call'' then
           item\<lparr>ro_CallID := CurrentCallID s, ro_Name := CurrentName s,
             ro_Arguments := (if CurrentArgs s = [] then ''{}'' else CurrentArgs s)\<rparr>
         else if CurrentItemType s = ''reasoning'' then
           item\<lparr>ro_EncryptedContent :=
               (if PreserveThinkingSignatures s \<and>
                   (cb_Signature (CurrentThinking s) \<noteq> [] \<or> cb_Data (CurrentThinking s) \<noteq> [])
                then encodeAnthropicThinking E
                       ((CurrentThinking s)\<lparr>cb_Thinking := CurrentSummary s\<rparr>)
                else []),
             ro_Summary := (if CurrentSummary s \<noteq> [] then summary_text (CurrentSummary s) else [])\<rparr>
         else item)"

definition closeCurrentResponsesItem :: "('x) a2r_env_scheme \<Rightarrow> A2RState \<Rightarrow> a2r_result" where
  "closeCurrentResponsesItem E s =
     (if CurrentItemType s = [] then ([], s)
      else
        (let item = closedItem E s;
             s1 = s\<lparr>Outputs := Outputs s @ [item], CurrentItemType := [], CurrentItemID := [],
               CurrentCallID := [], CurrentName := [], CurrentContent := [], CurrentArgs := [],
               PendingToolInput := [], CurrentSummary := [], CurrentThinking := zero_block,
               TextAccum := [], OutputIndex := OutputIndex s + 1, ContentIndex := 0\<rparr>;
             (evt, s2) = makeResponsesEvent s1 ''response.output_item.done''
               (zero_revent\<lparr>re_OutputIndex := OutputIndex s1 - 1, re_Item := Some item\<rparr>)
         in ([evt], s2)))"

section \<open>Streams: one handler per upstream event\<close>

definition positive_or :: "int \<Rightarrow> int \<Rightarrow> int" where
  "positive_or x old = (if x > 0 then x else old)"

definition anthToResHandleMessageStart ::
  "('x) a2r_env_scheme \<Rightarrow> AnthropicStreamEvent \<Rightarrow> A2RState \<Rightarrow> a2r_result" where
  "anthToResHandleMessageStart E evt s =
     (let s1 = (case ae_Message evt of
            None \<Rightarrow> s
          | Some m \<Rightarrow> s\<lparr>ResponseID := ar_ID m,
              PreserveThinkingSignatures :=
                PreserveThinkingSignatures s \<or> preserves_thinking E (ar_Model m),
              Model := (if Model s = [] then ar_Model m else Model s),
              InputTokens := positive_or (au_InputTokens (ar_Usage m)) (InputTokens s),
              CacheReadInputTokens :=
                positive_or (au_CacheReadInputTokens (ar_Usage m)) (CacheReadInputTokens s),
              CacheCreationInputTokens :=
                positive_or (au_CacheCreationInputTokens (ar_Usage m))
                  (CacheCreationInputTokens s)\<rparr>)
      in if CreatedSent s1 then ([], s1)
         else (let (evt, s2) = makeResponsesCreatedEvent (s1\<lparr>CreatedSent := True\<rparr>)
               in ([evt], s2)))"

definition startReasoning ::
  "('x) a2r_env_scheme \<Rightarrow> AnthropicContentBlock \<Rightarrow> A2RState \<Rightarrow> a2r_result" where
  "startReasoning E b s =
     (let (closing, s1) = closeCurrentResponsesItem E s;
          s2 = s1\<lparr>CurrentItemID := ev_item E (DrawnIDs s1), DrawnIDs := DrawnIDs s1 + 1,
            CurrentItemType := ''reasoning'', CurrentThinking := b,
            CurrentSummary := cb_Thinking b, ContentIndex := 0\<rparr>;
          (evt, s3) = makeResponsesEvent s2 ''response.output_item.added''
            (zero_revent\<lparr>re_OutputIndex := OutputIndex s2,
               re_Item := Some (zero_output\<lparr>ro_Type := ''reasoning'', ro_ID := CurrentItemID s2\<rparr>)\<rparr>)
      in (closing @ [evt], s3))"

definition openMessageItem :: "('x) a2r_env_scheme \<Rightarrow> A2RState \<Rightarrow> a2r_result" where
  "openMessageItem E s =
     (if CurrentItemType s \<noteq> ''message'' then
        (let (closing, s1) = closeCurrentResponsesItem E s;
             s2 = s1\<lparr>CurrentItemID := ev_item E (DrawnIDs s1), DrawnIDs := DrawnIDs s1 + 1,
               CurrentItemType := ''message'', ContentIndex := 0\<rparr>;
             (evt, s3) = makeResponsesEvent s2 ''response.output_item.added''
               (zero_revent\<lparr>re_OutputIndex := OutputIndex s2,
                  re_Item := Some (zero_output\<lparr>ro_Type := ''message'', ro_ID := CurrentItemID s2,
                    ro_Role := ''assistant'', ro_Status := ''in_progress''\<rparr>)\<rparr>)
         in (closing @ [evt], s3))
      else ([], s))"

definition startText :: "('x) a2r_env_scheme \<Rightarrow> A2RState \<Rightarrow> a2r_result" where
  "startText E s =
     (let (pre, s1) = openMessageItem E s;
          (evt, s2) = makeResponsesEvent s1 ''response.content_part.added''
            (zero_revent\<lparr>re_OutputIndex := OutputIndex s1, re_ContentIndex := ContentIndex s1,
               re_ItemID := CurrentItemID s1, re_Part := Some (output_text [])\<rparr>)
      in (pre @ [evt], s2\<lparr>TextAccum := []\<rparr>))"

definition startTool ::
  "('x) a2r_env_scheme \<Rightarrow> AnthropicContentBlock \<Rightarrow> A2RState \<Rightarrow> a2r_result" where
  "startTool E b s =
     (let (closing, s1) = closeCurrentResponsesItem E s;
          s2 = s1\<lparr>CurrentItemID := ev_item E (DrawnIDs s1), DrawnIDs := DrawnIDs s1 + 1,
            CurrentItemType := ''function_call'', CurrentCallID := toResponsesCallID (cb_ID b),
            CurrentName := cb_Name b, PendingToolInput := seedToolArguments (cb_Input b)\<rparr>;
          (evt, s3) = makeResponsesEvent s2 ''response.output_item.added''
            (zero_revent\<lparr>re_OutputIndex := OutputIndex s2,
               re_Item := Some (zero_output\<lparr>ro_Type := ''function_call'', ro_ID := CurrentItemID s2,
                 ro_CallID := CurrentCallID s2, ro_Name := CurrentName s2,
                 ro_Status := ''in_progress''\<rparr>)\<rparr>)
      in (closing @ [evt], s3))"

definition anthToResHandleContentBlockStart ::
  "('x) a2r_env_scheme \<Rightarrow> AnthropicStreamEvent \<Rightarrow> A2RState \<Rightarrow> a2r_result" where
  "anthToResHandleContentBlockStart E evt s =
     (case ae_ContentBlock evt of
        None \<Rightarrow> ([], s)
      | Some b \<Rightarrow>
          (if cb_Type b = ''thinking'' \<or> cb_Type b = ''redacted_thinking'' then startReasoning E b s
           else if cb_Type b = ''text'' then startText E s
           else if cb_Type b = ''tool_use'' then startTool E b s
           else ([], s)))"

definition one_event :: "ResponsesStreamEvent \<times> A2RState \<Rightarrow> a2r_result" where
  "one_event r = ([fst r], snd r)"

definition anthToResHandleContentBlockDelta ::
  "AnthropicStreamEvent \<Rightarrow> A2RState \<Rightarrow> a2r_result" where
  "anthToResHandleContentBlockDelta evt s =
     (case ae_Delta evt of
        None \<Rightarrow> ([], s)
      | Some d \<Rightarrow>
          (if ad_Type d = ''text_delta'' then
             (if ad_Text d = [] then ([], s)
              else one_event (makeResponsesEvent (s\<lparr>TextAccum := TextAccum s @ ad_Text d\<rparr>)
                ''response.output_text.delta''
                (zero_revent\<lparr>re_OutputIndex := OutputIndex s, re_ContentIndex := ContentIndex s,
                   re_Delta := ad_Text d, re_ItemID := CurrentItemID s\<rparr>)))
           else if ad_Type d = ''thinking_delta'' then
             (if ad_Thinking d = [] then ([], s)
              else one_event (makeResponsesEvent
                (s\<lparr>CurrentSummary := CurrentSummary s @ ad_Thinking d\<rparr>)
                ''response.reasoning_summary_text.delta''
                (zero_revent\<lparr>re_OutputIndex := OutputIndex s, re_SummaryIndex := 0,
                   re_Delta := ad_Thinking d, re_ItemID := CurrentItemID s\<rparr>)))
           else if ad_Type d = ''input_json_delta'' then
             (if ad_PartialJSON d = [] then ([], s)
              else one_event (makeResponsesEvent
                (s\<lparr>PendingToolInput := [], CurrentArgs := CurrentArgs s @ ad_PartialJSON d\<rparr>)
                ''response.function_call_arguments.delta''
                (zero_revent\<lparr>re_OutputIndex := OutputIndex s, re_Delta := ad_PartialJSON d,
                   re_ItemID := CurrentItemID s, re_CallID := CurrentCallID s,
                   re_Name := CurrentName s\<rparr>)))
           else if ad_Type d = ''signature_delta'' then
             ([], if PreserveThinkingSignatures s
                  then s\<lparr>CurrentThinking := (CurrentThinking s)\<lparr>cb_Signature :=
                         cb_Signature (CurrentThinking s) @ ad_Signature d\<rparr>\<rparr>
                  else s)
           else ([], s)))"

definition stopReasoning :: "('x) a2r_env_scheme \<Rightarrow> A2RState \<Rightarrow> a2r_result" where
  "stopReasoning E s =
     (let (evt, s1) = makeResponsesEvent s ''response.reasoning_summary_text.done''
            (zero_revent\<lparr>re_OutputIndex := OutputIndex s, re_SummaryIndex := 0,
               re_ItemID := CurrentItemID s\<rparr>);
          (closing, s2) = closeCurrentResponsesItem E s1
      in (evt # closing, s2))"

definition flushSeed :: "A2RState \<Rightarrow> a2r_result" where
  "flushSeed s =
     (if CurrentArgs s = [] \<and> PendingToolInput s \<noteq> [] then
        one_event (makeResponsesEvent (s\<lparr>CurrentArgs := PendingToolInput s\<rparr>)
          ''response.function_call_arguments.delta''
          (zero_revent\<lparr>re_OutputIndex := OutputIndex s, re_Delta := PendingToolInput s,
             re_ItemID := CurrentItemID s, re_CallID := CurrentCallID s, re_Name := CurrentName s\<rparr>))
      else ([], s))"

definition stopTool :: "('x) a2r_env_scheme \<Rightarrow> A2RState \<Rightarrow> a2r_result" where
  "stopTool E s =
     (let (seed, s1) = flushSeed s;
          s2 = s1\<lparr>PendingToolInput := []\<rparr>;
          (evt, s3) = makeResponsesEvent s2 ''response.function_call_arguments.done''
            (zero_revent\<lparr>re_OutputIndex := OutputIndex s2, re_ItemID := CurrentItemID s2,
               re_CallID := CurrentCallID s2, re_Name := CurrentName s2,
               re_Arguments := CurrentArgs s2\<rparr>);
          (closing, s4) = closeCurrentResponsesItem E s3
      in (seed @ evt # closing, s4))"

definition stopText :: "A2RState \<Rightarrow> a2r_result" where
  "stopText s =
     (let txt = TextAccum s; contentIndex = ContentIndex s;
          s1 = s\<lparr>TextAccum := [], CurrentContent := CurrentContent s @ [output_text txt],
            ContentIndex := ContentIndex s + 1\<rparr>;
          (done1, s2) = makeResponsesEvent s1 ''response.output_text.done''
            (zero_revent\<lparr>re_OutputIndex := OutputIndex s1, re_ContentIndex := contentIndex,
               re_ItemID := CurrentItemID s1, re_Text := txt\<rparr>);
          (done2, s3) = makeResponsesEvent s2 ''response.content_part.done''
            (zero_revent\<lparr>re_OutputIndex := OutputIndex s2, re_ContentIndex := contentIndex,
               re_ItemID := CurrentItemID s2, re_Part := Some (output_text txt)\<rparr>)
      in ([done1, done2], s3))"

definition anthToResHandleContentBlockStop ::
  "('x) a2r_env_scheme \<Rightarrow> A2RState \<Rightarrow> a2r_result" where
  "anthToResHandleContentBlockStop E s =
     (if CurrentItemType s = ''reasoning'' then stopReasoning E s
      else if CurrentItemType s = ''function_call'' then stopTool E s
      else if CurrentItemType s = ''message'' then stopText s
      else ([], s))"

definition anthToResHandleMessageDelta :: "AnthropicStreamEvent \<Rightarrow> A2RState \<Rightarrow> a2r_result" where
  "anthToResHandleMessageDelta evt s =
     (let s1 = (case ae_Usage evt of
            None \<Rightarrow> s
          | Some u \<Rightarrow> s\<lparr>OutputTokens := au_OutputTokens u,
              InputTokens := positive_or (au_InputTokens u) (InputTokens s),
              CacheReadInputTokens :=
                positive_or (au_CacheReadInputTokens u) (CacheReadInputTokens s),
              CacheCreationInputTokens :=
                positive_or (au_CacheCreationInputTokens u) (CacheCreationInputTokens s)\<rparr>)
      in case ae_Delta evt of
           None \<Rightarrow> ([], s1)
         | Some d \<Rightarrow>
             ([], if ad_StopReason d \<noteq> [] then s1\<lparr>StopReason := ad_StopReason d\<rparr> else s1))"

definition finishStream :: "('x) a2r_env_scheme \<Rightarrow> A2RState \<Rightarrow> a2r_result" where
  "finishStream E s =
     (let (closing, s1) = closeCurrentResponsesItem E s;
          (status, details) = anthropicResponsesStreamTerminalState (StopReason s1);
          (evt, s2) = makeResponsesCompletedEvent s1 status details
      in (closing @ [evt], s2\<lparr>CompletedSent := True\<rparr>))"

definition anthToResHandleMessageStop :: "('x) a2r_env_scheme \<Rightarrow> A2RState \<Rightarrow> a2r_result" where
  "anthToResHandleMessageStop E s = (if CompletedSent s then ([], s) else finishStream E s)"

definition FinalizeAnthropicResponsesStream ::
  "('x) a2r_env_scheme \<Rightarrow> A2RState \<Rightarrow> a2r_result" where
  "FinalizeAnthropicResponsesStream E s =
     (if \<not> CreatedSent s \<or> CompletedSent s then ([], s) else finishStream E s)"

definition AnthropicEventToResponsesEvents ::
  "('x) a2r_env_scheme \<Rightarrow> AnthropicStreamEvent \<Rightarrow> A2RState \<Rightarrow> a2r_result" where
  "AnthropicEventToResponsesEvents E evt s =
     (if ae_Type evt = ''message_start'' then anthToResHandleMessageStart E evt s
      else if ae_Type evt = ''content_block_start'' then anthToResHandleContentBlockStart E evt s
      else if ae_Type evt = ''content_block_delta'' then anthToResHandleContentBlockDelta evt s
      else if ae_Type evt = ''content_block_stop'' then anthToResHandleContentBlockStop E s
      else if ae_Type evt = ''message_delta'' then anthToResHandleMessageDelta evt s
      else if ae_Type evt = ''message_stop'' then anthToResHandleMessageStop E s
      else ([], s))"

section \<open>What an accumulating client expects\<close>

text \<open>
  The OpenAI SDK builds the response from the stream as it goes. \<open>sdk_accept\<close> is that client:
  it numbers the events, keeps the finished output items, and for the open item the text
  parts, argument string and summary the deltas have built up. It refuses an event that it
  cannot place (an item or part at the wrong index, a delta for another item) and one that
  contradicts what it has built: a done event that does not repeat the deltas, an item that
  differs from its own accumulation, a terminal event that does not carry the finished items.
\<close>

datatype part_phase = NoPart | PartOpen string | PartDone string
datatype sdk_phase = Fresh | Live | Finished

record open_item =
  oi_Type :: string
  oi_ID :: string
  oi_CallID :: string
  oi_Name :: string
  oi_Texts :: "string list"
  oi_Part :: part_phase
  oi_Args :: string
  oi_Summary :: string

record sdk =
  k_Seq :: int
  k_Phase :: sdk_phase
  k_Outputs :: "ResponsesOutput list"
  k_Item :: "open_item option"

definition sdk_start :: sdk where
  "sdk_start = \<lparr>k_Seq = 0, k_Phase = Fresh, k_Outputs = [], k_Item = None\<rparr>"

definition item_added :: "ResponsesOutput \<Rightarrow> open_item" where
  "item_added it = \<lparr>oi_Type = ro_Type it, oi_ID = ro_ID it, oi_CallID = ro_CallID it,
     oi_Name = ro_Name it, oi_Texts = [], oi_Part = NoPart, oi_Args = [], oi_Summary = []\<rparr>"

definition item_agrees :: "open_item \<Rightarrow> ResponsesOutput \<Rightarrow> bool" where
  "item_agrees oi it \<longleftrightarrow>
     ro_Type it = oi_Type oi \<and> ro_ID it = oi_ID oi \<and> ro_Status it = ''completed'' \<and>
     (oi_Type oi = ''message'' \<longrightarrow>
        oi_Part oi = NoPart \<and> ro_Role it = ''assistant'' \<and>
        ro_Content it = map output_text (oi_Texts oi)) \<and>
     (oi_Type oi = ''function_call'' \<longrightarrow>
        ro_CallID it = oi_CallID oi \<and> ro_Name it = oi_Name oi \<and>
        ro_Arguments it = (if oi_Args oi = [] then ''{}'' else oi_Args oi)) \<and>
     (oi_Type oi = ''reasoning'' \<longrightarrow>
        ro_Summary it = (if oi_Summary oi = [] then [] else summary_text (oi_Summary oi)))"

definition on_item ::
  "sdk \<Rightarrow> ResponsesStreamEvent \<Rightarrow> (open_item \<Rightarrow> open_item option) \<Rightarrow> sdk option" where
  "on_item k e f =
     (case k_Item k of
        None \<Rightarrow> None
      | Some oi \<Rightarrow>
          (if k_Phase k = Live \<and> re_OutputIndex e = int (length (k_Outputs k)) \<and>
              re_ItemID e = oi_ID oi
           then map_option (\<lambda>oi'. k\<lparr>k_Item := Some oi'\<rparr>) (f oi) else None))"

definition sdk_part :: "ResponsesStreamEvent \<Rightarrow> open_item \<Rightarrow> open_item option" where
  "sdk_part e oi =
     (if oi_Type oi = ''message'' \<and> re_ContentIndex e = int (length (oi_Texts oi)) then
        (case oi_Part oi of
           NoPart \<Rightarrow>
             (if re_Type e = ''response.content_part.added'' then Some (oi\<lparr>oi_Part := PartOpen []\<rparr>)
              else None)
         | PartOpen t \<Rightarrow>
             (if re_Type e = ''response.output_text.delta'' then
                Some (oi\<lparr>oi_Part := PartOpen (t @ re_Delta e)\<rparr>)
              else if re_Type e = ''response.output_text.done'' \<and> re_Text e = t then
                Some (oi\<lparr>oi_Part := PartDone t\<rparr>)
              else None)
         | PartDone t \<Rightarrow>
             (if re_Type e = ''response.content_part.done'' \<and> re_Part e = Some (output_text t) then
                Some (oi\<lparr>oi_Part := NoPart, oi_Texts := oi_Texts oi @ [t]\<rparr>)
              else None))
      else None)"

definition sdk_args :: "ResponsesStreamEvent \<Rightarrow> open_item \<Rightarrow> open_item option" where
  "sdk_args e oi =
     (if oi_Type oi = ''function_call'' \<and> re_CallID e = oi_CallID oi \<and> re_Name e = oi_Name oi then
        (if re_Type e = ''response.function_call_arguments.delta''
         then Some (oi\<lparr>oi_Args := oi_Args oi @ re_Delta e\<rparr>)
         else if re_Arguments e = oi_Args oi then Some oi else None)
      else None)"

definition sdk_summary :: "ResponsesStreamEvent \<Rightarrow> open_item \<Rightarrow> open_item option" where
  "sdk_summary e oi =
     (if oi_Type oi = ''reasoning'' \<and> re_SummaryIndex e = 0 then
        (if re_Type e = ''response.reasoning_summary_text.delta''
         then Some (oi\<lparr>oi_Summary := oi_Summary oi @ re_Delta e\<rparr>) else Some oi)
      else None)"

definition sdk_place :: "sdk \<Rightarrow> ResponsesStreamEvent \<Rightarrow> sdk option" where
  "sdk_place k e =
     (if re_Type e = ''response.created'' then
        (if k_Phase k = Fresh then Some (k\<lparr>k_Phase := Live\<rparr>) else None)
      else if re_Type e = ''response.output_item.added'' then
        (case re_Item e of
           None \<Rightarrow> None
         | Some it \<Rightarrow>
             (if k_Phase k = Live \<and> k_Item k = None \<and>
                 re_OutputIndex e = int (length (k_Outputs k))
              then Some (k\<lparr>k_Item := Some (item_added it)\<rparr>) else None))
      else if re_Type e = ''response.output_item.done'' then
        (case (re_Item e, k_Item k) of
           (Some it, Some oi) \<Rightarrow>
             (if k_Phase k = Live \<and> re_OutputIndex e = int (length (k_Outputs k)) \<and>
                 item_agrees oi it
              then Some (k\<lparr>k_Item := None, k_Outputs := k_Outputs k @ [it]\<rparr>) else None)
         | _ \<Rightarrow> None)
      else if re_Type e \<in> {''response.content_part.added'', ''response.output_text.delta'',
                ''response.output_text.done'', ''response.content_part.done''} then
        on_item k e (sdk_part e)
      else if re_Type e \<in> {''response.function_call_arguments.delta'',
                ''response.function_call_arguments.done''} then
        on_item k e (sdk_args e)
      else if re_Type e \<in> {''response.reasoning_summary_text.delta'',
                ''response.reasoning_summary_text.done''} then
        on_item k e (sdk_summary e)
      else if re_Type e \<in> {''response.completed'', ''response.incomplete''} then
        (case re_Response e of
           None \<Rightarrow> None
         | Some r \<Rightarrow>
             (if k_Phase k = Live \<and> k_Item k = None \<and> rr_Output r = k_Outputs k
              then Some (k\<lparr>k_Phase := Finished\<rparr>) else None))
      else None)"

definition sdk_accept :: "sdk \<Rightarrow> ResponsesStreamEvent \<Rightarrow> sdk option" where
  "sdk_accept k e =
     (if re_SequenceNumber e = k_Seq k
      then map_option (\<lambda>k'. k'\<lparr>k_Seq := k_Seq k + 1\<rparr>) (sdk_place k e) else None)"

section \<open>What an Anthropic upstream sends\<close>

text \<open>
  The documented order of an Anthropic stream, for the block types the bridge translates:
  \<^verbatim>\<open>message_start\<close>, blocks one after another, each opened empty and fed by the deltas of
  its type, \<^verbatim>\<open>message_stop\<close>; \<^verbatim>\<open>message_delta\<close>, pings and unknown events in between.
\<close>

datatype up_phase = UStart | UIdle | UText | UThinking | UTool | UStopped

definition up_delta_ok :: "up_phase \<Rightarrow> AnthropicDelta \<Rightarrow> bool" where
  "up_delta_ok u d \<longleftrightarrow>
     (ad_Type d = ''text_delta'' \<longrightarrow> u = UText) \<and>
     (ad_Type d = ''thinking_delta'' \<or> ad_Type d = ''signature_delta'' \<longrightarrow> u = UThinking) \<and>
     (ad_Type d = ''input_json_delta'' \<longrightarrow> u = UTool)"

definition up_start :: "AnthropicContentBlock \<Rightarrow> up_phase option" where
  "up_start b =
     (if cb_Type b = ''text'' then Some UText
      else if cb_Type b = ''tool_use'' then Some UTool
      else if cb_Type b \<in> {''thinking'', ''redacted_thinking''} \<and> cb_Thinking b = []
      then Some UThinking else None)"

definition up_accept :: "up_phase \<Rightarrow> AnthropicStreamEvent \<Rightarrow> up_phase option" where
  "up_accept u e =
     (if ae_Type e = ''message_start'' then (if u = UStart then Some UIdle else None)
      else if u = UStart \<or> u = UStopped then None
      else if ae_Type e = ''content_block_start'' then
        (if u = UIdle then Option.bind (ae_ContentBlock e) up_start else None)
      else if ae_Type e = ''content_block_delta'' then
        (case ae_Delta e of
           None \<Rightarrow> None
         | Some d \<Rightarrow> if u \<noteq> UIdle \<and> up_delta_ok u d then Some u else None)
      else if ae_Type e = ''content_block_stop'' then (if u \<noteq> UIdle then Some UIdle else None)
      else if ae_Type e = ''message_stop'' then (if u = UIdle then Some UStopped else None)
      else Some u)"

section \<open>The bridge between the two\<close>

definition item_of :: "up_phase \<Rightarrow> A2RState \<Rightarrow> open_item option" where
  "item_of u s =
     (if CurrentItemType s = [] then None
      else Some \<lparr>oi_Type = CurrentItemType s, oi_ID = CurrentItemID s,
        oi_CallID = CurrentCallID s, oi_Name = CurrentName s,
        oi_Texts = map cp_Text (CurrentContent s),
        oi_Part = (if u = UText then PartOpen (TextAccum s) else NoPart),
        oi_Args = CurrentArgs s, oi_Summary = CurrentSummary s\<rparr>)"

definition sdk_of :: "up_phase \<times> A2RState \<Rightarrow> sdk" where
  "sdk_of us =
     \<lparr>k_Seq = SequenceNumber (snd us),
      k_Phase = (if CompletedSent (snd us) then Finished
                 else if CreatedSent (snd us) then Live else Fresh),
      k_Outputs = Outputs (snd us), k_Item = item_of (fst us) (snd us)\<rparr>"

definition up_item_type :: "up_phase \<Rightarrow> string set" where
  "up_item_type u =
     (case u of UText \<Rightarrow> {''message''} | UThinking \<Rightarrow> {''reasoning''}
      | UTool \<Rightarrow> {''function_call''} | UIdle \<Rightarrow> {[], ''message''} | _ \<Rightarrow> {[]})"

definition a2r_live :: "up_phase \<times> A2RState \<Rightarrow> bool" where
  "a2r_live us \<longleftrightarrow>
     (let (u, s) = us in
       (u = UStart \<longleftrightarrow> \<not> CreatedSent s) \<and> (u = UStopped \<longleftrightarrow> CompletedSent s) \<and>
       CurrentItemType s \<in> up_item_type u \<and>
       OutputIndex s = int (length (Outputs s)) \<and>
       ContentIndex s = int (length (CurrentContent s)) \<and>
       map (output_text \<circ> cp_Text) (CurrentContent s) = CurrentContent s \<and>
       (CurrentItemType s \<noteq> ''message'' \<longrightarrow> CurrentContent s = []) \<and>
       (CurrentItemType s \<noteq> ''function_call'' \<longrightarrow>
          CurrentArgs s = [] \<and> CurrentCallID s = [] \<and> CurrentName s = []) \<and>
       (CurrentItemType s \<noteq> ''reasoning'' \<longrightarrow> CurrentSummary s = []))"

definition a2r_ok :: "up_phase \<Rightarrow> A2RState \<Rightarrow> up_phase \<Rightarrow> a2r_result \<Rightarrow> bool" where
  "a2r_ok u s u' r \<longleftrightarrow>
     accept_all sdk_accept (sdk_of (u, s)) (fst r) = Some (sdk_of (u', snd r)) \<and>
     a2r_live (u', snd r)"

lemma a2r_okD:
  "a2r_ok u s u' (evs, s') \<Longrightarrow> a2r_live (u', s')"
  "a2r_ok u s u' (evs, s') \<Longrightarrow> accept_all sdk_accept (sdk_of (u, s)) evs = Some (sdk_of (u', s'))"
  by (simp_all add: a2r_ok_def)

lemma a2r_ok_append:
  "a2r_ok u s v (es, s1) \<Longrightarrow> a2r_ok v s1 w (fs, s2) \<Longrightarrow> a2r_ok u s w (es @ fs, s2)"
  by (simp add: a2r_ok_def accept_all_append)

lemmas a2r_shapes = sdk_of_def item_of_def sdk_accept_def sdk_place_def
  makeResponsesEvent_def zero_revent_def on_item_def

lemma output_text_text [simp]: "cp_Text (output_text t) = t"
  by (simp add: output_text_def)

text \<open>Closing whatever item is open, from any phase in which no text part is.\<close>

lemma a2r_ok_close:
  assumes "a2r_live (u, s)" and "u \<notin> {UText, UStart, UStopped}"
  shows "a2r_ok u s UIdle (closeCurrentResponsesItem E s)"
proof (cases "CurrentItemType s = []")
  case True
  with assms show ?thesis
    by (auto simp: closeCurrentResponsesItem_def a2r_ok_def a2r_live_def sdk_of_def item_of_def
        up_item_type_def split: up_phase.splits)
next
  case False
  with assms have t: "CurrentItemType s \<in> {''message'', ''reasoning'', ''function_call''}"
    by (auto simp: a2r_live_def up_item_type_def split: up_phase.splits)
  have ph: "\<not> CompletedSent s" "CreatedSent s" "OutputIndex s = int (length (Outputs s))"
    "map (output_text \<circ> cp_Text) (CurrentContent s) = CurrentContent s"
    using assms by (auto simp: a2r_live_def)
  from t ph(4) have "item_agrees (the (item_of u s)) (closedItem E s)"
    using assms(2) False
    by (auto simp: item_agrees_def item_of_def closedItem_def zero_output_def Let_def)
  with False assms(2) ph show ?thesis
    by (auto simp: closeCurrentResponsesItem_def a2r_ok_def a2r_live_def Let_def a2r_shapes
        up_item_type_def)
qed

text \<open>After a close no item is open; the frame of a close.\<close>

lemma close_resets:
  assumes "closeCurrentResponsesItem E s = (evs, s1)"
  shows "CurrentItemType s1 = []"
    and "CreatedSent s1 = CreatedSent s" and "CompletedSent s1 = CompletedSent s"
    and "DrawnIDs s1 = DrawnIDs s"
    and "StopReason s1 = StopReason s"
    and "PreserveThinkingSignatures s1 = PreserveThinkingSignatures s"
  using assms
  by (auto simp: closeCurrentResponsesItem_def makeResponsesEvent_def Let_def split: if_splits)

lemma a2r_ok_start_reasoning:
  assumes "a2r_live (UIdle, s)" and "cb_Thinking b = []"
  shows "a2r_ok UIdle s UThinking (startReasoning E b s)"
proof -
  obtain evs s1 where c: "closeCurrentResponsesItem E s = (evs, s1)" by fastforce
  have ok: "a2r_ok UIdle s UIdle (evs, s1)" using a2r_ok_close [OF assms(1), of E] c by simp
  from a2r_okD(1) [OF ok] close_resets [OF c] assms(2) c show ?thesis
    by (auto simp: startReasoning_def Let_def makeResponsesEvent_def intro!: a2r_ok_append [OF ok])
       (auto simp: a2r_ok_def a2r_live_def a2r_shapes item_added_def zero_output_def up_item_type_def)
qed

lemma a2r_ok_start_tool:
  assumes "a2r_live (UIdle, s)"
  shows "a2r_ok UIdle s UTool (startTool E b s)"
proof -
  obtain evs s1 where c: "closeCurrentResponsesItem E s = (evs, s1)" by fastforce
  have ok: "a2r_ok UIdle s UIdle (evs, s1)" using a2r_ok_close [OF assms(1), of E] c by simp
  from a2r_okD(1) [OF ok] close_resets [OF c] c show ?thesis
    by (auto simp: startTool_def Let_def makeResponsesEvent_def intro!: a2r_ok_append [OF ok])
       (auto simp: a2r_ok_def a2r_live_def a2r_shapes item_added_def zero_output_def up_item_type_def)
qed

lemma a2r_ok_open_message:
  assumes "a2r_live (UIdle, s)"
  shows "a2r_ok UIdle s UIdle (openMessageItem E s)"
proof (cases "CurrentItemType s = ''message''")
  case True
  with assms show ?thesis by (simp add: openMessageItem_def a2r_ok_def)
next
  case False
  obtain evs s1 where c: "closeCurrentResponsesItem E s = (evs, s1)" by fastforce
  have ok: "a2r_ok UIdle s UIdle (evs, s1)" using a2r_ok_close [OF assms(1), of E] c by simp
  from a2r_okD(1) [OF ok] close_resets [OF c] c False show ?thesis
    by (auto simp: openMessageItem_def Let_def makeResponsesEvent_def intro!: a2r_ok_append [OF ok])
       (auto simp: a2r_ok_def a2r_live_def a2r_shapes item_added_def zero_output_def up_item_type_def)
qed

lemma open_message_type:
  "openMessageItem E s = (evs, s1) \<Longrightarrow> CurrentItemType s1 = ''message''"
  by (auto simp: openMessageItem_def Let_def makeResponsesEvent_def split: prod.splits if_splits)

lemma a2r_ok_start_text:
  assumes "a2r_live (UIdle, s)"
  shows "a2r_ok UIdle s UText (startText E s)"
proof -
  obtain evs s1 where c: "openMessageItem E s = (evs, s1)" by fastforce
  have ok: "a2r_ok UIdle s UIdle (evs, s1)" using a2r_ok_open_message [OF assms(1), of E] c by simp
  from a2r_okD(1) [OF ok] open_message_type [OF c] c show ?thesis
    by (auto simp: startText_def Let_def makeResponsesEvent_def intro!: a2r_ok_append [OF ok])
       (auto simp: a2r_ok_def a2r_live_def a2r_shapes sdk_part_def up_item_type_def)
qed

lemma a2r_ok_delta:
  assumes "a2r_live (u, s)" and "ae_Delta evt = Some d" and "up_delta_ok u d"
    and "u \<notin> {UIdle, UStart, UStopped}"
  shows "a2r_ok u s u (anthToResHandleContentBlockDelta evt s)"
proof -
  consider "ad_Type d = ''text_delta''" "u = UText" | "ad_Type d = ''thinking_delta''" "u = UThinking"
    | "ad_Type d = ''input_json_delta''" "u = UTool" | "ad_Type d = ''signature_delta''"
    | "ad_Type d \<notin> {''text_delta'', ''thinking_delta'', ''input_json_delta'', ''signature_delta''}"
    using assms(3) by (auto simp: up_delta_ok_def)
  then show ?thesis
  proof cases
    case 1
    with assms(1,2) show ?thesis
      by (auto simp: anthToResHandleContentBlockDelta_def one_event_def a2r_ok_def a2r_live_def
          a2r_shapes sdk_part_def up_item_type_def)
  next
    case 2
    with assms(1,2) show ?thesis
      by (auto simp: anthToResHandleContentBlockDelta_def one_event_def a2r_ok_def a2r_live_def
          a2r_shapes sdk_summary_def up_item_type_def)
  next
    case 3
    with assms(1,2) show ?thesis
      by (auto simp: anthToResHandleContentBlockDelta_def one_event_def a2r_ok_def a2r_live_def
          a2r_shapes sdk_args_def up_item_type_def)
  next
    case 4
    with assms(1,2) show ?thesis
      by (auto simp: anthToResHandleContentBlockDelta_def a2r_ok_def a2r_live_def sdk_of_def
          item_of_def)
  next
    case 5
    with assms(1,2) show ?thesis
      by (auto simp: anthToResHandleContentBlockDelta_def a2r_ok_def)
  qed
qed

lemma a2r_ok_stop_reasoning:
  assumes "a2r_live (UThinking, s)"
  shows "a2r_ok UThinking s UIdle (stopReasoning E s)"
proof -
  let ?m = "makeResponsesEvent s ''response.reasoning_summary_text.done''
      (zero_revent\<lparr>re_OutputIndex := OutputIndex s, re_SummaryIndex := 0,
         re_ItemID := CurrentItemID s\<rparr>)"
  have ok: "a2r_ok UThinking s UThinking ([fst ?m], snd ?m)"
    using assms
    by (simp add: a2r_ok_def a2r_live_def a2r_shapes sdk_summary_def up_item_type_def)
  have "a2r_ok UThinking (snd ?m) UIdle (closeCurrentResponsesItem E (snd ?m))"
    by (rule a2r_ok_close [OF a2r_okD(1) [OF ok]]) simp
  from a2r_ok_append [OF ok] this show ?thesis
    by (cases "closeCurrentResponsesItem E (snd ?m)")
       (simp add: stopReasoning_def case_prod_beta)
qed

lemma a2r_ok_flush_seed:
  assumes "a2r_live (UTool, s)"
  shows "a2r_ok UTool s UTool (flushSeed s)"
proof (cases "CurrentArgs s = [] \<and> PendingToolInput s \<noteq> []")
  case False
  with assms show ?thesis by (auto simp: flushSeed_def a2r_ok_def)
next
  case True
  from assms have "CreatedSent s" "\<not> CompletedSent s" "CurrentItemType s = ''function_call''"
    "OutputIndex s = int (length (Outputs s))"
    by (simp_all add: a2r_live_def up_item_type_def)
  with True assms show ?thesis
    by (simp add: flushSeed_def one_event_def a2r_ok_def a2r_live_def a2r_shapes sdk_args_def
        up_item_type_def)
qed

lemma a2r_ok_stop_tool:
  assumes "a2r_live (UTool, s)"
  shows "a2r_ok UTool s UIdle (stopTool E s)"
proof -
  obtain pre s1 where f: "flushSeed s = (pre, s1)" by fastforce
  have ok1: "a2r_ok UTool s UTool (pre, s1)" using a2r_ok_flush_seed [OF assms] f by simp
  let ?s2 = "s1\<lparr>PendingToolInput := []\<rparr>"
  let ?m = "makeResponsesEvent ?s2 ''response.function_call_arguments.done''
      (zero_revent\<lparr>re_OutputIndex := OutputIndex ?s2, re_ItemID := CurrentItemID ?s2,
         re_CallID := CurrentCallID ?s2, re_Name := CurrentName ?s2,
         re_Arguments := CurrentArgs ?s2\<rparr>)"
  have ok2: "a2r_ok UTool s1 UTool ([fst ?m], snd ?m)"
    using a2r_okD(1) [OF ok1]
    by (simp add: a2r_ok_def a2r_live_def a2r_shapes sdk_args_def up_item_type_def)
  have ok3: "a2r_ok UTool (snd ?m) UIdle (closeCurrentResponsesItem E (snd ?m))"
    by (rule a2r_ok_close [OF a2r_okD(1) [OF ok2]]) simp
  obtain evs s4 where c: "closeCurrentResponsesItem E (snd ?m) = (evs, s4)" by fastforce
  from ok3 c have "a2r_ok UTool (snd ?m) UIdle (evs, s4)" by simp
  then have "a2r_ok UTool s UIdle (pre @ [fst ?m] @ evs, s4)"
    by (rule a2r_ok_append [OF ok1 a2r_ok_append [OF ok2]])
  with f c show ?thesis by (simp add: stopTool_def Let_def case_prod_beta)
qed

lemma a2r_ok_stop_text:
  assumes "a2r_live (UText, s)"
  shows "a2r_ok UText s UIdle (stopText s)"
  using assms
  by (auto simp: stopText_def Let_def a2r_ok_def a2r_live_def a2r_shapes sdk_part_def
      up_item_type_def)

lemma a2r_ok_stop:
  assumes "a2r_live (u, s)" and "u \<notin> {UIdle, UStart, UStopped}"
  shows "a2r_ok u s UIdle (anthToResHandleContentBlockStop E s)"
proof -
  from assms consider "u = UText" "CurrentItemType s = ''message''"
    | "u = UThinking" "CurrentItemType s = ''reasoning''"
    | "u = UTool" "CurrentItemType s = ''function_call''"
    by (cases u) (auto simp: a2r_live_def up_item_type_def)
  then show ?thesis
    using assms(1)
    by cases (simp_all add: anthToResHandleContentBlockStop_def a2r_ok_stop_text
        a2r_ok_stop_reasoning a2r_ok_stop_tool)
qed

lemma a2r_ok_start:
  assumes "a2r_live (UIdle, s)" and "Option.bind (ae_ContentBlock evt) up_start = Some u"
  shows "a2r_ok UIdle s u (anthToResHandleContentBlockStart E evt s)"
proof -
  from assms(2) obtain b where b: "ae_ContentBlock evt = Some b" "up_start b = Some u"
    by (cases "ae_ContentBlock evt") auto
  then consider "cb_Type b = ''text''" "u = UText" | "cb_Type b = ''tool_use''" "u = UTool"
    | "cb_Type b \<in> {''thinking'', ''redacted_thinking''}" "cb_Thinking b = []" "u = UThinking"
    by (auto simp: up_start_def split: if_splits)
  then show ?thesis
    using b(1) assms(1)
    by cases (auto simp: anthToResHandleContentBlockStart_def intro: a2r_ok_start_text
        a2r_ok_start_tool a2r_ok_start_reasoning)
qed

lemma a2r_ok_silent:
  "a2r_live (u, s) \<Longrightarrow> a2r_live (u, s') \<Longrightarrow> sdk_of (u, s') = sdk_of (u, s) \<Longrightarrow> a2r_ok u s u ([], s')"
  by (simp add: a2r_ok_def)

lemma message_delta_frame:
  "fst (anthToResHandleMessageDelta evt s) = []"
  "sdk_of (u, snd (anthToResHandleMessageDelta evt s)) = sdk_of (u, s)"
  "a2r_live (u, snd (anthToResHandleMessageDelta evt s)) = a2r_live (u, s)"
  by (simp_all add: anthToResHandleMessageDelta_def Let_def sdk_of_def item_of_def a2r_live_def
      split: option.split)

lemma a2r_ok_message_delta:
  "a2r_live (u, s) \<Longrightarrow> a2r_ok u s u (anthToResHandleMessageDelta evt s)"
  by (simp add: a2r_ok_def message_delta_frame)

lemma a2r_ok_message_start:
  assumes "a2r_live (UStart, s)"
  shows "a2r_ok UStart s UIdle (anthToResHandleMessageStart E evt s)"
  using assms
  by (cases "ae_Message evt")
     (simp_all add: anthToResHandleMessageStart_def makeResponsesCreatedEvent_def Let_def
        a2r_ok_def a2r_live_def sdk_of_def item_of_def up_item_type_def sdk_accept_def
        sdk_place_def zero_revent_def)

lemma a2r_ok_finish:
  assumes "a2r_live (u, s)" and "u \<notin> {UText, UStart, UStopped}"
  shows "a2r_ok u s UStopped (finishStream E s)"
proof -
  obtain evs s1 where c: "closeCurrentResponsesItem E s = (evs, s1)" by fastforce
  have ok: "a2r_ok u s UIdle (evs, s1)" using a2r_ok_close [OF assms, of E] c by simp
  from a2r_okD(1) [OF ok] close_resets(1) [OF c] c show ?thesis
    by (cases "StopReason s1 = ''max_tokens''")
       (auto simp: finishStream_def anthropicResponsesStreamTerminalState_def
          makeResponsesCompletedEvent_def intro!: a2r_ok_append [OF ok],
        auto simp: a2r_ok_def a2r_live_def a2r_shapes zero_response_def up_item_type_def)
qed

lemma a2r_ok_message_stop:
  assumes "a2r_live (UIdle, s)"
  shows "a2r_ok UIdle s UStopped (anthToResHandleMessageStop E s)"
  using a2r_ok_finish [OF assms] assms
  by (simp add: anthToResHandleMessageStop_def a2r_live_def)

lemma a2r_ok_step:
  assumes live: "a2r_live (u, s)" and up: "up_accept u evt = Some u'"
  shows "a2r_ok u s u' (AnthropicEventToResponsesEvents E evt s)"
proof -
  note defs = up_accept_def AnthropicEventToResponsesEvents_def
  consider "ae_Type evt = ''message_start''" | "ae_Type evt = ''content_block_start''"
    | "ae_Type evt = ''content_block_delta''" | "ae_Type evt = ''content_block_stop''"
    | "ae_Type evt = ''message_delta''" | "ae_Type evt = ''message_stop''"
    | "ae_Type evt \<notin> {''message_start'', ''content_block_start'', ''content_block_delta'',
        ''content_block_stop'', ''message_delta'', ''message_stop''}" by blast
  then show ?thesis
  proof cases
    case 1
    with up have "u = UStart" "u' = UIdle" by (auto simp: up_accept_def split: if_splits)
    with 1 live show ?thesis by (simp add: defs a2r_ok_message_start)
  next
    case 2
    with up have "u = UIdle" "Option.bind (ae_ContentBlock evt) up_start = Some u'"
      by (auto simp: up_accept_def split: if_splits)
    with 2 live show ?thesis by (simp add: defs a2r_ok_start)
  next
    case 3
    with up obtain d where "ae_Delta evt = Some d" "up_delta_ok u d" "u' = u"
      "u \<notin> {UIdle, UStart, UStopped}"
      by (auto simp: up_accept_def split: if_splits option.splits)
    with 3 live show ?thesis by (simp add: defs a2r_ok_delta)
  next
    case 4
    with up have "u \<notin> {UIdle, UStart, UStopped}" "u' = UIdle"
      by (auto simp: up_accept_def split: if_splits)
    with 4 live show ?thesis by (simp add: defs a2r_ok_stop)
  next
    case 5
    with up have "u' = u" by (auto simp: up_accept_def split: if_splits)
    with 5 live show ?thesis by (simp add: defs a2r_ok_message_delta)
  next
    case 6
    with up have "u = UIdle" "u' = UStopped" by (auto simp: up_accept_def split: if_splits)
    with 6 live show ?thesis by (simp add: defs a2r_ok_message_stop)
  next
    case 7
    with up have "u' = u" by (auto simp: up_accept_def split: if_splits)
    with 7 live show ?thesis by (simp add: defs a2r_ok_silent)
  qed
qed

interpretation a2r: stream_bridge
    "tracked up_accept (AnthropicEventToResponsesEvents E)" "obeys up_accept"
    sdk_accept sdk_of a2r_live for E
proof unfold_locales
  fix us us' :: "up_phase \<times> A2RState" and e out
  assume live: "a2r_live us" and ok: "obeys up_accept us e"
    and st: "tracked up_accept (AnthropicEventToResponsesEvents E) e us = (out, us')"
  obtain u s where us: "us = (u, s)" by fastforce
  from ok us obtain u' where up: "up_accept u e = Some u'" by (auto simp: obeys_def)
  from st us up have r: "AnthropicEventToResponsesEvents E e s = (out, snd us')" "fst us' = u'"
    by (auto simp: tracked_def)
  have "a2r_ok u s u' (out, snd us')" using a2r_ok_step [OF _ up, of s E] live us r by simp
  with us r(2) show "accept_all sdk_accept (sdk_of us) out = Some (sdk_of us')" "a2r_live us'"
    by (auto dest: a2r_okD)
qed

section \<open>What the stream carries\<close>



fun feed_last :: "string \<Rightarrow> ('a \<times> 'b \<times> 'c \<times> string) list \<Rightarrow> ('a \<times> 'b \<times> 'c \<times> string) list" where
  "feed_last x [] = []"
| "feed_last x [(i, n, seed, ds)] = [(i, n, seed, ds @ x)]"
| "feed_last x (c # c' # cs) = c # feed_last x (c' # cs)"

lemma feed_last_snoc [simp]:
  "feed_last x (cs @ [(i, n, seed, ds)]) = cs @ [(i, n, seed, ds @ x)]"
  by (induction x cs rule: feed_last.induct) auto




















lemma a2r_start_live: "a2r_live (UStart, NewAnthropicEventToResponsesState now)"
  by (simp add: a2r_live_def NewAnthropicEventToResponsesState_def up_item_type_def)

lemma sdk_of_start: "sdk_of (UStart, NewAnthropicEventToResponsesState now) = sdk_start"
  by (simp add: sdk_of_def NewAnthropicEventToResponsesState_def item_of_def sdk_start_def)


text \<open>Every run from the start state, as the accumulating client sees it.\<close>

lemma a2r_run:
  assumes "accept_all up_accept UStart es = Some u"
    and "bridge_run (AnthropicEventToResponsesEvents E) es
           (NewAnthropicEventToResponsesState now) = (out, s')"
  shows "accept_all sdk_accept sdk_start out = Some (sdk_of (u, s'))" and "a2r_live (u, s')"
proof -
  let ?us = "(UStart, NewAnthropicEventToResponsesState now)"
  note t = tracked_run [OF assms]
  have "accept_all sdk_accept (sdk_of ?us) out = Some (sdk_of (u, s'))"
    using a2r.run_accepted [OF a2r_start_live obeys_run [OF assms(1)] t] .
  then show "accept_all sdk_accept sdk_start out = Some (sdk_of (u, s'))"
    by (simp add: sdk_of_start)
  show "a2r_live (u, s')"
    using a2r.run_live [OF a2r_start_live obeys_run [OF assms(1)] t] .
qed


lemma sdk_seq:
  "accept_all sdk_accept k out = Some k' \<Longrightarrow> k_Seq k' = k_Seq k + int (length out)"
proof (induction out arbitrary: k)
  case Nil
  then show ?case by simp
next
  case (Cons e out)
  then obtain k1 where k1: "sdk_accept k e = Some k1" "accept_all sdk_accept k1 out = Some k'"
    by (auto split: option.splits)
  from k1(1) have "k_Seq k1 = k_Seq k + 1" by (auto simp: sdk_accept_def split: if_splits)
  with Cons.IH [OF k1(2)] show ?case by simp
qed



lemma finish_text_refused:
  assumes "a2r_live (UText, s)"
  shows "accept_all sdk_accept (sdk_of (UText, s)) (fst (finishStream E s)) = None"
proof -
  from assms have t: "CurrentItemType s = ''message''" by (simp add: a2r_live_def up_item_type_def)
  then have "\<not> item_agrees (the (item_of UText s)) (closedItem E s)"
    by (simp add: item_agrees_def item_of_def)
  with t show ?thesis
    by (simp add: finishStream_def closeCurrentResponsesItem_def Let_def case_prod_beta a2r_shapes)
qed

section \<open>Properties\<close>

text \<open>
  C17: Whatever blocks a well-formed Anthropic stream carries, the accumulating client can
  place every event of the translated stream and finds each one consistent with what it has
  built: sequence numbers count up from 0, items and parts come at consecutive indices and
  never overlap, done events repeat exactly the deltas, and the terminal event, sent exactly
  when the upstream stops, carries the items the client assembled itself.
\<close>

theorem a2r_client_accumulates:
  assumes "accept_all up_accept UStart es = Some u"
    and "bridge_run (AnthropicEventToResponsesEvents E) es
           (NewAnthropicEventToResponsesState now) = (out, s')"
  shows "\<exists>k. accept_all sdk_accept sdk_start out = Some k \<and> k_Seq k = int (length out) \<and>
     k_Outputs k = Outputs s' \<and> (k_Phase k = Finished \<longleftrightarrow> u = UStopped)"
proof -
  note run = a2r_run [OF assms]
  from run(2) have "k_Phase (sdk_of (u, s')) = Finished \<longleftrightarrow> u = UStopped"
    by (simp add: a2r_live_def sdk_of_def)
  with run(1) sdk_seq [OF run(1)] show ?thesis
    by (intro exI [of _ "sdk_of (u, s')"]) (simp add: sdk_of_def sdk_start_def)
qed


text \<open>
  An upstream that breaks off leaves a consistent response exactly when it does so
  outside a text block. Inside one, the item that \<^verbatim>\<open>FinalizeAnthropicResponsesStream\<close> closes
  lacks the text already streamed to the client, and so does the terminal event.
\<close>

theorem a2r_finalize_consistent_iff:
  assumes "accept_all up_accept UStart es = Some u" and "u \<noteq> UStart" and "u \<noteq> UStopped"
    and "bridge_run (AnthropicEventToResponsesEvents E) es
           (NewAnthropicEventToResponsesState now) = (out, s')"
  shows "accept_all sdk_accept sdk_start (out @ fst (FinalizeAnthropicResponsesStream E s')) \<noteq> None
     \<longleftrightarrow> u \<noteq> UText"
proof -
  note run = a2r_run [OF assms(1,4)]
  from run(2) assms(2,3) have ph: "CreatedSent s'" "\<not> CompletedSent s'" by (auto simp: a2r_live_def)
  then have fin: "FinalizeAnthropicResponsesStream E s' = finishStream E s'"
    by (simp add: FinalizeAnthropicResponsesStream_def)
  show ?thesis
  proof (cases "u = UText")
    case False
    with a2r_ok_finish [OF run(2), of E] assms(2,3)
    show ?thesis by (simp add: fin accept_all_append run(1) a2r_ok_def)
  next
    case True
    with finish_text_refused run show ?thesis by (simp add: fin accept_all_append)
  qed
qed

text \<open>
  A block of a type the bridge does not translate (a server tool call between two
  texts, say) is not skipped: its stop event is taken for the end of a text part of the
  message item still open, and the client receives done events for a part it never saw.
\<close>

theorem a2r_foreign_block_phantom_part:
  assumes "a2r_live (UIdle, s)" and "CurrentItemType s = ''message''"
    and "cb_Type b \<notin> {''text'', ''tool_use'', ''thinking'', ''redacted_thinking''}"
    and "bridge_run (AnthropicEventToResponsesEvents E)
        [zero_aevent\<lparr>ae_Type := ''content_block_start'', ae_ContentBlock := Some b\<rparr>,
         zero_aevent\<lparr>ae_Type := ''content_block_stop''\<rparr>] s = (out, s')"
  shows "map re_Type out = [''response.output_text.done'', ''response.content_part.done''] \<and>
     accept_all sdk_accept (sdk_of (UIdle, s)) out = None"
  using assms
  by (auto simp: AnthropicEventToResponsesEvents_def anthToResHandleContentBlockStart_def
      anthToResHandleContentBlockStop_def stopText_def makeResponsesEvent_def Let_def
      sdk_accept_def sdk_place_def on_item_def sdk_part_def sdk_of_def item_of_def)

section \<open>Witnesses\<close>

definition demo_env :: a2r_env where
  "demo_env = \<lparr>js_valid = (\<lambda>_. True), js_object = (\<lambda>_. None), js_encode = (\<lambda>_. None),
     js_quote = (\<lambda>s. CHR 0x22 # s @ [CHR 0x22]), ev_lower = ascii_lower,
     ev_digits = ascii_digits, ev_item = (\<lambda>n. ''item_'' @ replicate n CHR ''x''),
     ev_response_id = ''resp_1'', ev_now = 7\<rparr>"

definition ev_start :: "AnthropicContentBlock \<Rightarrow> AnthropicStreamEvent" where
  "ev_start b = zero_aevent\<lparr>ae_Type := ''content_block_start'', ae_ContentBlock := Some b\<rparr>"

definition ev_delta :: "AnthropicDelta \<Rightarrow> AnthropicStreamEvent" where
  "ev_delta d = zero_aevent\<lparr>ae_Type := ''content_block_delta'', ae_Delta := Some d\<rparr>"

definition ev_plain :: "string \<Rightarrow> AnthropicStreamEvent" where
  "ev_plain t = zero_aevent\<lparr>ae_Type := t\<rparr>"

definition demo_stream :: "AnthropicStreamEvent list" where
  "demo_stream =
     [ev_plain ''message_start'',
      ev_start (zero_block\<lparr>cb_Type := ''text''\<rparr>),
      ev_delta (zero_delta\<lparr>ad_Type := ''text_delta'', ad_Text := ''hi''\<rparr>),
      ev_plain ''content_block_stop'',
      ev_start (zero_block\<lparr>cb_Type := ''tool_use'', cb_ID := ''toolu_1'', cb_Name := ''ls''\<rparr>),
      ev_delta (zero_delta\<lparr>ad_Type := ''input_json_delta'', ad_PartialJSON := ''{}''\<rparr>),
      ev_plain ''content_block_stop'',
      ev_plain ''message_stop'']"

lemmas demo_defs = demo_stream_def ev_start_def ev_delta_def ev_plain_def zero_aevent_def
  zero_block_def zero_delta_def

lemma demo_stream_ok: "accept_all up_accept UStart demo_stream = Some UStopped"
  by (simp add: demo_defs up_accept_def up_start_def up_delta_ok_def)

definition demo_run :: "AnthropicStreamEvent list \<Rightarrow> a2r_result" where
  "demo_run es = bridge_run (AnthropicEventToResponsesEvents demo_env) es
     (NewAnthropicEventToResponsesState 0)"

lemma a2r_client_accumulates_witness:
  "\<exists>k. accept_all sdk_accept sdk_start (fst (demo_run demo_stream)) = Some k \<and>
     k_Phase k = Finished"
  using a2r_client_accumulates [OF demo_stream_ok, of demo_env 0 "fst (demo_run demo_stream)"
      "snd (demo_run demo_stream)"]
  by (auto simp: demo_run_def)


lemma a2r_finalize_consistent_iff_witness:
  "accept_all sdk_accept sdk_start (fst (demo_run (take 3 demo_stream)) @
     fst (FinalizeAnthropicResponsesStream demo_env (snd (demo_run (take 3 demo_stream))))) = None"
proof -
  have "accept_all up_accept UStart (take 3 demo_stream) = Some UText"
    by (simp add: demo_defs up_accept_def up_start_def up_delta_ok_def)
  from a2r_finalize_consistent_iff [OF this, of demo_env 0 "fst (demo_run (take 3 demo_stream))"
      "snd (demo_run (take 3 demo_stream))"]
  show ?thesis by (simp add: demo_run_def)
qed

lemma a2r_foreign_block_phantom_part_witness:
  "\<exists>s b. accept_all sdk_accept (sdk_of (UIdle, s)) (fst (bridge_run
     (AnthropicEventToResponsesEvents demo_env)
       [zero_aevent\<lparr>ae_Type := ''content_block_start'', ae_ContentBlock := Some b\<rparr>,
        zero_aevent\<lparr>ae_Type := ''content_block_stop''\<rparr>] s)) = None"
proof -
  let ?s = "(NewAnthropicEventToResponsesState 0)\<lparr>CreatedSent := True, CurrentItemType := ''message''\<rparr>"
  let ?b = "zero_block\<lparr>cb_Type := ''server_tool_use''\<rparr>"
  have "a2r_live (UIdle, ?s)"
    by (simp add: a2r_live_def NewAnthropicEventToResponsesState_def up_item_type_def)
  from a2r_foreign_block_phantom_part [OF this _ _ surjective_pairing, of ?b demo_env]
  show ?thesis by (intro exI [of _ ?s] exI [of _ ?b]) (simp add: zero_block_def)
qed

end
