(* ===== verification/BridgeRoundtrip.thy ===== *)
theory BridgeRoundtrip
  imports ResponsesToAnthropic AnthropicToResponses
begin

text \<open>
  The two bridges against each other: what an Anthropic response still says after it went
  through the OpenAI Responses format and back.
\<close>

definition blocks_text :: "AnthropicContentBlock list \<Rightarrow> string" where
  "blocks_text bs = concat (map cb_Text (filter (\<lambda>b. cb_Type b = ''text'') bs))"

definition blocks_calls :: "AnthropicContentBlock list \<Rightarrow> (string \<times> string) list" where
  "blocks_calls bs =
     map (\<lambda>b. (cb_ID b, cb_Name b)) (filter (\<lambda>b. cb_Type b = ''tool_use'') bs)"


lemma blocks_Nil [simp]: "blocks_text [] = []" "blocks_calls [] = []"
  by (simp_all add: blocks_text_def blocks_calls_def)


definition text_parts :: "ResponsesContentPart list \<Rightarrow> bool" where
  "text_parts ps \<longleftrightarrow> (\<forall>p \<in> set ps. cp_Type p = ''output_text'')"




lemma output_text_type [simp]: "cp_Type (output_text t) = ''output_text''"
  by (simp add: output_text_def)

lemma text_parts_simps [simp]:
  "text_parts []" "text_parts (ps @ [output_text t]) = text_parts ps" "text_parts [output_text t]"
  by (auto simp: text_parts_def)













end
