(* ===== verification/IdempotencyStore.thy ===== *)
theory IdempotencyStore
  imports Prelude
begin

text \<open>
  The idempotency records and their table: \<^verbatim>\<open>IdempotencyRecord\<close> of
  \<^verbatim>\<open>backend/internal/service/idempotency.go\<close> and the SQL statements of
  \<^verbatim>\<open>backend/internal/repository/idempotency_repo.go\<close>. The table is the list of its rows with
  the next value of the id sequence; a statement is one atomic function of it. The locale
  \<open>idempotency_store\<close> is the contract of the repository interface as the coordinator's
  proofs use it, interpreted on the statements at the end.
\<close>

record IdempotencyRecord =
  ir_ID :: int
  ir_Scope :: string
  ir_IdempotencyKeyHash :: string
  ir_RequestFingerprint :: string
  ir_Status :: string
  ir_ResponseStatus :: "int option"
  ir_ResponseBody :: "string option"
  ir_ErrorReason :: "string option"
  ir_LockedUntil :: "go_time option"
  ir_ExpiresAt :: go_time
  ir_CreatedAt :: go_time
  ir_UpdatedAt :: go_time

definition IdempotencyStatusProcessing :: string where
  "IdempotencyStatusProcessing = ''processing''"

definition IdempotencyStatusSucceeded :: string where
  "IdempotencyStatusSucceeded = ''succeeded''"

definition IdempotencyStatusFailedRetryable :: string where
  "IdempotencyStatusFailedRetryable = ''failed_retryable''"

lemmas status_defs = IdempotencyStatusProcessing_def IdempotencyStatusSucceeded_def
  IdempotencyStatusFailedRetryable_def

lemma status_distinct [simp]:
  "IdempotencyStatusProcessing \<noteq> IdempotencyStatusSucceeded"
  "IdempotencyStatusSucceeded \<noteq> IdempotencyStatusProcessing"
  "IdempotencyStatusProcessing \<noteq> IdempotencyStatusFailedRetryable"
  "IdempotencyStatusFailedRetryable \<noteq> IdempotencyStatusProcessing"
  "IdempotencyStatusSucceeded \<noteq> IdempotencyStatusFailedRetryable"
  "IdempotencyStatusFailedRetryable \<noteq> IdempotencyStatusSucceeded"
  by (simp_all add: status_defs)

section \<open>The table and its statements\<close>

record idem_table =
  t_rows :: "IdempotencyRecord list"
  t_next :: int

definition same_key :: "string \<Rightarrow> string \<Rightarrow> IdempotencyRecord \<Rightarrow> bool" where
  "same_key scope keyHash r \<longleftrightarrow> ir_Scope r = scope \<and> ir_IdempotencyKeyHash r = keyHash"

text \<open>
  \<^verbatim>\<open>INSERT ... ON CONFLICT (scope, idempotency_key_hash) DO NOTHING RETURNING id\<close>; the columns
  the statement does not name are null, \<^verbatim>\<open>now\<close> is the database clock.
\<close>

definition sql_CreateProcessing ::
  "go_time \<Rightarrow> IdempotencyRecord \<Rightarrow> idem_table \<Rightarrow> int option \<times> idem_table" where
  "sql_CreateProcessing now r t =
     (if find (same_key (ir_Scope r) (ir_IdempotencyKeyHash r)) (t_rows t) \<noteq> None then (None, t)
      else (Some (t_next t),
        \<lparr>t_rows = t_rows t @ [r\<lparr>ir_ID := t_next t, ir_ResponseStatus := None,
             ir_ResponseBody := None, ir_ErrorReason := None, ir_CreatedAt := now,
             ir_UpdatedAt := now\<rparr>],
         t_next = t_next t + 1\<rparr>))"

definition sql_GetByScopeAndKeyHash ::
  "string \<Rightarrow> string \<Rightarrow> idem_table \<Rightarrow> IdempotencyRecord option" where
  "sql_GetByScopeAndKeyHash scope keyHash t = find (same_key scope keyHash) (t_rows t)"

text \<open>\<^verbatim>\<open>UPDATE ... WHERE\<close>: whether a row was affected, and the new table.\<close>

definition sql_update ::
  "(IdempotencyRecord \<Rightarrow> bool) \<Rightarrow> (IdempotencyRecord \<Rightarrow> IdempotencyRecord) \<Rightarrow> idem_table \<Rightarrow>
     bool \<times> idem_table" where
  "sql_update P f t =
     (list_ex P (t_rows t), t\<lparr>t_rows := map (\<lambda>r. if P r then f r else r) (t_rows t)\<rparr>)"

definition reclaimable :: "int \<Rightarrow> string \<Rightarrow> go_time \<Rightarrow> IdempotencyRecord \<Rightarrow> bool" where
  "reclaimable i fromStatus now r \<longleftrightarrow>
     ir_ID r = i \<and> ir_Status r = fromStatus \<and>
     (case ir_LockedUntil r of None \<Rightarrow> True | Some l \<Rightarrow> l \<le> now)"

definition sql_TryReclaim ::
  "go_time \<Rightarrow> int \<Rightarrow> string \<Rightarrow> go_time \<Rightarrow> go_time \<Rightarrow> go_time \<Rightarrow> idem_table \<Rightarrow> bool \<times> idem_table"
where
  "sql_TryReclaim dbnow i fromStatus now newLockedUntil newExpiresAt =
     sql_update (reclaimable i fromStatus now)
       (\<lambda>r. r\<lparr>ir_Status := IdempotencyStatusProcessing, ir_LockedUntil := Some newLockedUntil,
          ir_ErrorReason := None, ir_UpdatedAt := dbnow, ir_ExpiresAt := newExpiresAt\<rparr>)"

definition sql_ExtendProcessingLock ::
  "go_time \<Rightarrow> int \<Rightarrow> string \<Rightarrow> go_time \<Rightarrow> go_time \<Rightarrow> idem_table \<Rightarrow> bool \<times> idem_table" where
  "sql_ExtendProcessingLock dbnow i fingerprint newLockedUntil newExpiresAt =
     sql_update (\<lambda>r. ir_ID r = i \<and> ir_Status r = IdempotencyStatusProcessing \<and>
          ir_RequestFingerprint r = fingerprint)
       (\<lambda>r. r\<lparr>ir_LockedUntil := Some newLockedUntil, ir_ExpiresAt := newExpiresAt,
          ir_UpdatedAt := dbnow\<rparr>)"

definition sql_MarkSucceeded ::
  "go_time \<Rightarrow> int \<Rightarrow> int \<Rightarrow> string \<Rightarrow> go_time \<Rightarrow> idem_table \<Rightarrow> idem_table" where
  "sql_MarkSucceeded dbnow i responseStatus responseBody expiresAt t =
     snd (sql_update (\<lambda>r. ir_ID r = i)
       (\<lambda>r. r\<lparr>ir_Status := IdempotencyStatusSucceeded, ir_ResponseStatus := Some responseStatus,
          ir_ResponseBody := Some responseBody, ir_ErrorReason := None, ir_LockedUntil := None,
          ir_ExpiresAt := expiresAt, ir_UpdatedAt := dbnow\<rparr>) t)"

definition sql_MarkFailedRetryable ::
  "go_time \<Rightarrow> int \<Rightarrow> string \<Rightarrow> go_time \<Rightarrow> go_time \<Rightarrow> idem_table \<Rightarrow> idem_table" where
  "sql_MarkFailedRetryable dbnow i errorReason lockedUntil expiresAt t =
     snd (sql_update (\<lambda>r. ir_ID r = i)
       (\<lambda>r. r\<lparr>ir_Status := IdempotencyStatusFailedRetryable, ir_ErrorReason := Some errorReason,
          ir_LockedUntil := Some lockedUntil, ir_ExpiresAt := expiresAt, ir_UpdatedAt := dbnow\<rparr>) t)"

definition sql_DeleteExpired :: "go_time \<Rightarrow> int \<Rightarrow> idem_table \<Rightarrow> int \<times> idem_table" where
  "sql_DeleteExpired now limit t =
     (let l = (if limit \<le> 0 then 500 else limit);
          victims = map ir_ID (take (nat l)
            (sort_key ir_ExpiresAt (filter (\<lambda>r. ir_ExpiresAt r \<le> now) (t_rows t))));
          rest = filter (\<lambda>r. ir_ID r \<notin> set victims) (t_rows t)
      in (int (length (t_rows t)) - int (length rest), t\<lparr>t_rows := rest\<rparr>))"

section \<open>Table invariant\<close>

text \<open>The primary key and the unique index, and the sequence ahead of every id.\<close>

definition table_ok :: "idem_table \<Rightarrow> bool" where
  "table_ok t \<longleftrightarrow>
     distinct (map ir_ID (t_rows t)) \<and>
     distinct (map (\<lambda>r. (ir_Scope r, ir_IdempotencyKeyHash r)) (t_rows t)) \<and>
     (\<forall>r \<in> set (t_rows t). 0 < ir_ID r \<and> ir_ID r < t_next t) \<and> 0 < t_next t"

lemma table_ok_id_unique:
  "table_ok t \<Longrightarrow> r \<in> set (t_rows t) \<Longrightarrow> r' \<in> set (t_rows t) \<Longrightarrow> ir_ID r = ir_ID r' \<Longrightarrow> r = r'"
  by (auto simp: table_ok_def distinct_map inj_on_def)

lemma table_ok_key_unique:
  "table_ok t \<Longrightarrow> r \<in> set (t_rows t) \<Longrightarrow> r' \<in> set (t_rows t) \<Longrightarrow> ir_Scope r = ir_Scope r' \<Longrightarrow>
     ir_IdempotencyKeyHash r = ir_IdempotencyKeyHash r' \<Longrightarrow> r = r'"
  by (auto simp: table_ok_def distinct_map inj_on_def)

lemma sql_get_Some_iff:
  assumes "table_ok t"
  shows "sql_GetByScopeAndKeyHash s k t = Some r \<longleftrightarrow> r \<in> set (t_rows t) \<and> same_key s k r"
proof
  assume "sql_GetByScopeAndKeyHash s k t = Some r"
  then show "r \<in> set (t_rows t) \<and> same_key s k r"
    by (auto simp: sql_GetByScopeAndKeyHash_def find_Some_iff)
next
  assume r: "r \<in> set (t_rows t) \<and> same_key s k r"
  then obtain r' where r': "sql_GetByScopeAndKeyHash s k t = Some r'"
    by (cases "sql_GetByScopeAndKeyHash s k t")
       (auto simp: sql_GetByScopeAndKeyHash_def find_None_iff)
  then have "r' \<in> set (t_rows t) \<and> same_key s k r'"
    by (auto simp: sql_GetByScopeAndKeyHash_def find_Some_iff)
  with r have "r' = r" using table_ok_key_unique [OF assms, of r' r] by (simp add: same_key_def)
  with r' show "sql_GetByScopeAndKeyHash s k t = Some r" by simp
qed

lemma sql_get_None_iff:
  "sql_GetByScopeAndKeyHash s k t = None \<longleftrightarrow> (\<forall>r \<in> set (t_rows t). \<not> same_key s k r)"
  by (auto simp: sql_GetByScopeAndKeyHash_def find_None_iff)

lemma table_ok_update:
  assumes "table_ok t" and "\<And>r. ir_ID (f r) = ir_ID r" and "\<And>r. ir_Scope (f r) = ir_Scope r"
    and "\<And>r. ir_IdempotencyKeyHash (f r) = ir_IdempotencyKeyHash r"
  shows "table_ok (snd (sql_update P f t))"
proof -
  let ?u = "\<lambda>r. if P r then f r else r" and ?k = "\<lambda>r. (ir_Scope r, ir_IdempotencyKeyHash r)"
  have "ir_ID \<circ> ?u = ir_ID" "?k \<circ> ?u = ?k" using assms(2-) by (auto simp: fun_eq_iff)
  with assms show ?thesis by (auto simp: table_ok_def sql_update_def)
qed

lemma table_ok_create:
  assumes "table_ok t"
  shows "table_ok (snd (sql_CreateProcessing now r t))"
proof (cases "find (same_key (ir_Scope r) (ir_IdempotencyKeyHash r)) (t_rows t)")
  case None
  then have "\<forall>r' \<in> set (t_rows t). (ir_Scope r', ir_IdempotencyKeyHash r')
      \<noteq> (ir_Scope r, ir_IdempotencyKeyHash r)"
    by (auto simp: find_None_iff same_key_def)
  with assms None show ?thesis by (fastforce simp: sql_CreateProcessing_def table_ok_def)
next
  case (Some r')
  with assms show ?thesis by (simp add: sql_CreateProcessing_def)
qed

lemma table_ok_delete: "table_ok t \<Longrightarrow> table_ok (snd (sql_DeleteExpired now limit t))"
  by (auto simp: sql_DeleteExpired_def Let_def table_ok_def distinct_map inj_on_def)

section \<open>The contract of the repository\<close>

text \<open>
  What the coordinator relies on, over the view \<open>row\<close> of a store as a partial map from ids.
  A claim is the insertion of a new row or the reclaim of one whose lock is free; a claimed
  row is processing, locked until the time the claim installed.
\<close>

definition claimed_as :: "string \<Rightarrow> string \<Rightarrow> go_time \<Rightarrow> go_time \<Rightarrow> IdempotencyRecord \<Rightarrow> bool" where
  "claimed_as scope keyHash lockedUntil expiresAt r \<longleftrightarrow>
     same_key scope keyHash r \<and> ir_Status r = IdempotencyStatusProcessing \<and>
     ir_LockedUntil r = Some lockedUntil \<and> ir_ExpiresAt r = expiresAt"

definition lock_free :: "go_time \<Rightarrow> IdempotencyRecord \<Rightarrow> bool" where
  "lock_free now r \<longleftrightarrow> (case ir_LockedUntil r of None \<Rightarrow> True | Some l \<Rightarrow> l \<le> now)"

text \<open>
  \<open>holds t\<close> is the id of the row the request \<open>t\<close> has claimed and not yet marked. A ledger is
  sound when the row is there, still processing and of the request's key, and no two
  requests hold the same row; it is timely when no lease or expiry has passed.
\<close>

definition ledger_ok ::
  "(int \<Rightarrow> IdempotencyRecord option) \<Rightarrow> ('t \<Rightarrow> string \<times> string) \<Rightarrow> ('t \<rightharpoonup> int) \<Rightarrow> bool" where
  "ledger_ok rows key holds \<longleftrightarrow>
     (\<forall>t i. holds t = Some i \<longrightarrow>
        (\<exists>r. rows i = Some r \<and> same_key (fst (key t)) (snd (key t)) r \<and>
             ir_Status r = IdempotencyStatusProcessing)) \<and>
     (\<forall>t u i. holds t = Some i \<longrightarrow> holds u = Some i \<longrightarrow> t = u)"

definition ledger_timely ::
  "go_time \<Rightarrow> (int \<Rightarrow> IdempotencyRecord option) \<Rightarrow> ('t \<rightharpoonup> int) \<Rightarrow> bool" where
  "ledger_timely clock rows holds \<longleftrightarrow>
     (\<forall>t i r. holds t = Some i \<longrightarrow> rows i = Some r \<longrightarrow>
        \<not> lock_free clock r \<and> clock < ir_ExpiresAt r)"

lemma ledger_row:
  "ledger_ok rows key holds \<Longrightarrow> holds t = Some i \<Longrightarrow>
     \<exists>r. rows i = Some r \<and> same_key (fst (key t)) (snd (key t)) r \<and>
         ir_Status r = IdempotencyStatusProcessing"
  by (simp add: ledger_ok_def)

lemma ledger_unique: "ledger_ok rows key holds \<Longrightarrow> holds t = Some i \<Longrightarrow> holds u = Some i \<Longrightarrow> t = u"
  unfolding ledger_ok_def by blast

text \<open>Rewriting the row of one id, keeping key and status, keeps the ledger.\<close>

lemma ledger_update:
  assumes "ledger_ok rows key holds" and "rows i = Some r"
    and "claimed_as (ir_Scope r) (ir_IdempotencyKeyHash r) l x q"
  shows "ledger_ok (rows(i \<mapsto> q)) key holds"
  unfolding ledger_ok_def
proof (intro conjI allI impI)
  fix t j assume "holds t = Some j"
  from ledger_row [OF assms(1) this] assms(2,3)
  show "\<exists>r'. (rows(i \<mapsto> q)) j = Some r' \<and> same_key (fst (key t)) (snd (key t)) r' \<and>
      ir_Status r' = IdempotencyStatusProcessing"
    by (auto simp: claimed_as_def same_key_def)
next
  fix t u j assume "holds t = Some j" "holds u = Some j"
  then show "t = u" by (rule ledger_unique [OF assms(1)])
qed

locale idempotency_store =
  fixes inv :: "'s \<Rightarrow> bool"
    and row :: "'s \<Rightarrow> int \<Rightarrow> IdempotencyRecord option"
    and create :: "go_time \<Rightarrow> IdempotencyRecord \<Rightarrow> 's \<Rightarrow> int option \<times> 's"
    and reclaim :: "go_time \<Rightarrow> int \<Rightarrow> string \<Rightarrow> go_time \<Rightarrow> go_time \<Rightarrow> go_time \<Rightarrow> 's \<Rightarrow> bool \<times> 's"
    and extend :: "go_time \<Rightarrow> int \<Rightarrow> string \<Rightarrow> go_time \<Rightarrow> go_time \<Rightarrow> 's \<Rightarrow> bool \<times> 's"
    and succeed :: "go_time \<Rightarrow> int \<Rightarrow> int \<Rightarrow> string \<Rightarrow> go_time \<Rightarrow> 's \<Rightarrow> 's"
    and fail :: "go_time \<Rightarrow> int \<Rightarrow> string \<Rightarrow> go_time \<Rightarrow> go_time \<Rightarrow> 's \<Rightarrow> 's"
    and purge :: "go_time \<Rightarrow> int \<Rightarrow> 's \<Rightarrow> int \<times> 's"
  assumes row_key_unique:
      "inv s \<Longrightarrow> row s i = Some r \<Longrightarrow> row s j = Some q \<Longrightarrow> same_key sc kh r \<Longrightarrow> same_key sc kh q \<Longrightarrow>
         i = j"
    and create_new: "inv s \<Longrightarrow> create now r s = (Some i, s') \<Longrightarrow>
         row s i = None \<and>
         (\<exists>q. row s' = (row s)(i \<mapsto> q) \<and> same_key (ir_Scope r) (ir_IdempotencyKeyHash r) q \<and>
            ir_Status q = ir_Status r \<and> ir_LockedUntil q = ir_LockedUntil r \<and>
            ir_ExpiresAt q = ir_ExpiresAt r)"
    and create_old: "create now r s = (None, s') \<Longrightarrow> s' = s"
    and reclaim_taken: "inv s \<Longrightarrow> reclaim dbnow i st now l x s = (True, s') \<Longrightarrow>
         \<exists>r q. row s i = Some r \<and> ir_Status r = st \<and> lock_free now r \<and> row s' = (row s)(i \<mapsto> q) \<and>
           claimed_as (ir_Scope r) (ir_IdempotencyKeyHash r) l x q"
    and reclaim_refused: "inv s \<Longrightarrow> reclaim dbnow i st now l x s = (False, s') \<Longrightarrow> row s' = row s"
    and extend_rows: "inv s \<Longrightarrow> extend dbnow i fp l x s = (b, s') \<Longrightarrow>
         row s' = row s \<or>
         (\<exists>r q. row s i = Some r \<and> row s' = (row s)(i \<mapsto> q) \<and>
            claimed_as (ir_Scope r) (ir_IdempotencyKeyHash r) l x q)"
    and succeed_rows: "inv s \<Longrightarrow> j \<noteq> i \<Longrightarrow> row (succeed dbnow i c body x s) j = row s j"
    and fail_rows: "inv s \<Longrightarrow> j \<noteq> i \<Longrightarrow> row (fail dbnow i e l x s) j = row s j"
    and purge_rows: "inv s \<Longrightarrow> row s j = Some r \<Longrightarrow> now < ir_ExpiresAt r \<Longrightarrow>
         row (snd (purge now limit s)) j = Some r"
begin

lemma claim_new:
  assumes "inv s" and "ledger_ok (row s) key holds" and "create now r s = (Some i, s')"
    and "key t = (ir_Scope r, ir_IdempotencyKeyHash r)"
    and "ir_Status r = IdempotencyStatusProcessing"
  shows "ledger_ok (row s') key (holds(t \<mapsto> i))"
proof -
  from create_new [OF assms(1,3)] obtain q where q: "row s i = None" "row s' = (row s)(i \<mapsto> q)"
    "same_key (ir_Scope r) (ir_IdempotencyKeyHash r) q" "ir_Status q = ir_Status r" by blast
  have "holds u \<noteq> Some i" for u using ledger_row [OF assms(2)] q(1) by fastforce
  with assms(2,4,5) q show ?thesis by (auto simp: ledger_ok_def)
qed

lemma claim_old:
  assumes "inv s" and "ledger_ok (row s) key holds" and "ledger_timely clock (row s) holds"
    and "reclaim dbnow i st now l x s = (True, s')" and "now \<le> clock"
    and "\<And>r. row s i = Some r \<Longrightarrow> same_key (fst (key t)) (snd (key t)) r"
  shows "ledger_ok (row s') key (holds(t \<mapsto> i))"
proof -
  from reclaim_taken [OF assms(1,4)] obtain r q where r: "row s i = Some r" "lock_free now r"
    "row s' = (row s)(i \<mapsto> q)" "claimed_as (ir_Scope r) (ir_IdempotencyKeyHash r) l x q" by blast
  from r(2) assms(5) have "lock_free clock r"
    by (auto simp: lock_free_def split: option.splits)
  with assms(3) r(1) have "holds u \<noteq> Some i" for u by (auto simp: ledger_timely_def)
  with assms(2,6) r show ?thesis by (fastforce simp: ledger_ok_def claimed_as_def same_key_def)
qed

lemma release_succeed:
  assumes "inv s" and "ledger_ok (row s) key holds" and "holds t = Some i"
  shows "ledger_ok (row (succeed dbnow i c body x s)) key (holds(t := None))"
proof -
  have "holds u = Some j \<Longrightarrow> u \<noteq> t \<Longrightarrow> j \<noteq> i" for u j
    using assms(2,3) by (auto simp: ledger_ok_def)
  with assms show ?thesis by (fastforce simp: ledger_ok_def succeed_rows)
qed

lemma release_fail:
  assumes "inv s" and "ledger_ok (row s) key holds" and "holds t = Some i"
  shows "ledger_ok (row (fail dbnow i e l x s)) key (holds(t := None))"
proof -
  have "holds u = Some j \<Longrightarrow> u \<noteq> t \<Longrightarrow> j \<noteq> i" for u j
    using assms(2,3) by (auto simp: ledger_ok_def)
  with assms show ?thesis by (fastforce simp: ledger_ok_def fail_rows)
qed

lemma renew_ledger:
  assumes "inv s" and "ledger_ok (row s) key holds" and "extend dbnow i fp l x s = (b, s')"
  shows "ledger_ok (row s') key holds"
  using extend_rows [OF assms(1,3)] ledger_update [OF assms(2)] assms(2) by fastforce

lemma purge_ledger:
  assumes "inv s" and "ledger_ok (row s) key holds" and "ledger_timely clock (row s) holds"
    and "now \<le> clock"
  shows "ledger_ok (row (snd (purge now limit s))) key holds"
proof -
  have "holds t = Some i \<Longrightarrow> row s i = Some r \<Longrightarrow> row (snd (purge now limit s)) i = Some r" for t i r
    using assms by (auto simp: ledger_timely_def intro!: purge_rows) (meson dual_order.strict_trans2)
  with assms(2) show ?thesis by (fastforce simp: ledger_ok_def)
qed

text \<open>Two holders of the same key are the same request.\<close>

lemma holders_exclusive:
  assumes "inv s" and "ledger_ok (row s) key holds" and "holds t = Some i" and "holds u = Some j"
    and "key t = key u"
  shows "t = u"
proof -
  from assms(2-5) obtain r q where "row s i = Some r" "row s j = Some q"
    "same_key (fst (key t)) (snd (key t)) r" "same_key (fst (key t)) (snd (key t)) q"
    unfolding ledger_ok_def by metis
  with row_key_unique [OF assms(1)] have "i = j" by blast
  with assms(2-4) show ?thesis by (auto simp: ledger_ok_def)
qed

end

section \<open>The table meets the contract\<close>

definition table_row :: "idem_table \<Rightarrow> int \<Rightarrow> IdempotencyRecord option" where
  "table_row t i = find (\<lambda>r. ir_ID r = i) (t_rows t)"

lemma table_row_Some_iff:
  assumes "table_ok t"
  shows "table_row t i = Some r \<longleftrightarrow> r \<in> set (t_rows t) \<and> ir_ID r = i"
proof
  assume "table_row t i = Some r"
  then show "r \<in> set (t_rows t) \<and> ir_ID r = i" by (auto simp: table_row_def find_Some_iff)
next
  assume r: "r \<in> set (t_rows t) \<and> ir_ID r = i"
  then obtain r' where r': "table_row t i = Some r'"
    by (cases "table_row t i") (auto simp: table_row_def find_None_iff)
  then have "r' \<in> set (t_rows t) \<and> ir_ID r' = i" by (auto simp: table_row_def find_Some_iff)
  with r have "r' = r" using table_ok_id_unique [OF assms, of r' r] by simp
  with r' show "table_row t i = Some r" by simp
qed

lemma find_map_update:
  assumes "\<And>r. ir_ID (f r) = ir_ID r"
  shows "find (\<lambda>r. ir_ID r = i) (map (\<lambda>r. if P r then f r else r) rs)
     = map_option (\<lambda>r. if P r then f r else r) (find (\<lambda>r. ir_ID r = i) rs)"
  using assms by (induction rs) auto

lemma table_row_update:
  assumes "\<And>r. ir_ID (f r) = ir_ID r"
  shows "table_row (snd (sql_update P f t)) i
     = map_option (\<lambda>r. if P r then f r else r) (table_row t i)"
  using find_map_update [of f, OF assms] by (simp add: table_row_def sql_update_def)

text \<open>An update whose condition names one id touches only that row.\<close>

lemma table_row_update_id:
  assumes "table_ok t" and "\<And>r. ir_ID (f r) = ir_ID r" and "\<And>r. P r \<Longrightarrow> ir_ID r = i"
    and "sql_update P f t = (b, t')"
  shows "if b then \<exists>r. table_row t i = Some r \<and> P r \<and> table_row t' = (table_row t)(i \<mapsto> f r)
         else table_row t' = table_row t"
proof -
  have t': "t' = snd (sql_update P f t)" and b: "b \<longleftrightarrow> list_ex P (t_rows t)"
    using assms(4) by (auto simp: sql_update_def)
  have u: "table_row t' j = map_option (\<lambda>r. if P r then f r else r) (table_row t j)" for j
    unfolding t' by (rule table_row_update [OF assms(2)])
  have other: "table_row t' j = table_row t j" if "j \<noteq> i" for j
  proof (cases "table_row t j")
    case None
    then show ?thesis by (simp add: u)
  next
    case (Some r)
    then have "ir_ID r = j" by (simp add: table_row_Some_iff [OF assms(1)])
    with that assms(3) have "\<not> P r" by blast
    with Some show ?thesis by (simp add: u)
  qed
  show ?thesis
  proof (cases b)
    case True
    with b obtain r where r: "r \<in> set (t_rows t)" "P r" by (auto simp: list_ex_iff)
    with assms(3) have row: "table_row t i = Some r" by (simp add: table_row_Some_iff [OF assms(1)])
    have "table_row t' = (table_row t)(i \<mapsto> f r)"
      using row r(2) other by (auto simp: fun_eq_iff u)
    with True row r(2) show ?thesis by auto
  next
    case False
    have "table_row t' j = table_row t j" for j
    proof (cases "table_row t j")
      case None
      then show ?thesis by (simp add: u)
    next
      case (Some r)
      then have "r \<in> set (t_rows t)" by (simp add: table_row_Some_iff [OF assms(1)])
      with False b have "\<not> P r" by (auto simp: list_ex_iff)
      with Some show ?thesis by (simp add: u)
    qed
    with False show ?thesis by auto
  qed
qed

lemma table_row_update_other:
  assumes "table_ok t" and "\<And>r. ir_ID (f r) = ir_ID r" and "j \<noteq> i"
  shows "table_row (snd (sql_update (\<lambda>r. ir_ID r = i) f t)) j = table_row t j"
proof (cases "table_row t j")
  case None
  then show ?thesis by (simp add: table_row_update assms(2))
next
  case (Some r)
  with assms(1,3) have "ir_ID r \<noteq> i" by (simp add: table_row_Some_iff)
  with Some show ?thesis by (simp add: table_row_update assms(2))
qed

lemma table_row_fresh: "table_ok t \<Longrightarrow> table_row t (t_next t) = None"
  by (auto simp: table_row_def table_ok_def find_None_iff)

lemma table_row_snoc:
  "table_row t (ir_ID q) = None \<Longrightarrow>
     table_row \<lparr>t_rows = t_rows t @ [q], t_next = n\<rparr> = (table_row t)(ir_ID q \<mapsto> q)"
proof
  fix j
  assume "table_row t (ir_ID q) = None"
  moreover have "find P (rs @ [q]) = (case find P rs of None \<Rightarrow> if P q then Some q else None | x \<Rightarrow> x)"
    for P and rs :: "IdempotencyRecord list"
    by (induction rs) auto
  ultimately show "table_row \<lparr>t_rows = t_rows t @ [q], t_next = n\<rparr> j = ((table_row t)(ir_ID q \<mapsto> q)) j"
    by (auto simp: table_row_def split: option.split)
qed

interpretation idem_sql: idempotency_store table_ok table_row sql_CreateProcessing
    sql_TryReclaim sql_ExtendProcessingLock sql_MarkSucceeded sql_MarkFailedRetryable
    sql_DeleteExpired
proof unfold_locales
  fix t i r j q sc kh
  assume "table_ok t" "table_row t i = Some r" "table_row t j = Some q"
    "same_key sc kh r" "same_key sc kh q"
  then show "i = j"
    using table_ok_key_unique [of t r q] by (auto simp: table_row_Some_iff same_key_def)
next
  fix t now r i t'
  assume ok: "table_ok t" and c: "sql_CreateProcessing now r t = (Some i, t')"
  then have i: "i = t_next t" by (auto simp: sql_CreateProcessing_def split: if_splits)
  let ?q = "r\<lparr>ir_ID := t_next t, ir_ResponseStatus := None, ir_ResponseBody := None,
      ir_ErrorReason := None, ir_CreatedAt := now, ir_UpdatedAt := now\<rparr>"
  have "t' = \<lparr>t_rows = t_rows t @ [?q], t_next = t_next t + 1\<rparr>"
    using c by (auto simp: sql_CreateProcessing_def split: if_splits)
  with table_row_fresh [OF ok] table_row_snoc [of t ?q "t_next t + 1"]
  have "table_row t' = (table_row t)(i \<mapsto> ?q)" by (simp add: i)
  with table_row_fresh [OF ok] i show "table_row t i = None \<and>
      (\<exists>q. table_row t' = (table_row t)(i \<mapsto> q) \<and> same_key (ir_Scope r) (ir_IdempotencyKeyHash r) q \<and>
         ir_Status q = ir_Status r \<and> ir_LockedUntil q = ir_LockedUntil r \<and>
         ir_ExpiresAt q = ir_ExpiresAt r)"
    by (intro conjI exI [of _ ?q]) (auto simp: same_key_def)
next
  fix now r t t'
  assume "sql_CreateProcessing now r t = (None, t')"
  then show "t' = t" by (auto simp: sql_CreateProcessing_def split: if_splits)
next
  fix t dbnow i st now l x t'
  assume ok: "table_ok t" and c: "sql_TryReclaim dbnow i st now l x t = (True, t')"
  from table_row_update_id [OF ok _ _ c [unfolded sql_TryReclaim_def], of i]
  show "\<exists>r q. table_row t i = Some r \<and> ir_Status r = st \<and> lock_free now r \<and>
      table_row t' = (table_row t)(i \<mapsto> q) \<and>
      claimed_as (ir_Scope r) (ir_IdempotencyKeyHash r) l x q"
    by (fastforce simp: reclaimable_def lock_free_def claimed_as_def same_key_def)
next
  fix t dbnow i st now l x t'
  assume ok: "table_ok t" and c: "sql_TryReclaim dbnow i st now l x t = (False, t')"
  from table_row_update_id [OF ok _ _ c [unfolded sql_TryReclaim_def], of i]
  show "table_row t' = table_row t" by (simp add: reclaimable_def)
next
  fix t dbnow i fp l x b t'
  assume ok: "table_ok t" and c: "sql_ExtendProcessingLock dbnow i fp l x t = (b, t')"
  show "table_row t' = table_row t \<or>
      (\<exists>r q. table_row t i = Some r \<and> table_row t' = (table_row t)(i \<mapsto> q) \<and>
         claimed_as (ir_Scope r) (ir_IdempotencyKeyHash r) l x q)"
  proof (cases b)
    case True
    with table_row_update_id [OF ok _ _ c [unfolded sql_ExtendProcessingLock_def], of i]
    obtain r q where r: "table_row t i = Some r" "ir_Status r = IdempotencyStatusProcessing"
      "q = r\<lparr>ir_LockedUntil := Some l, ir_ExpiresAt := x, ir_UpdatedAt := dbnow\<rparr>"
      "table_row t' = (table_row t)(i \<mapsto> q)" by auto
    then have "claimed_as (ir_Scope r) (ir_IdempotencyKeyHash r) l x q"
      by (simp add: claimed_as_def same_key_def)
    with r show ?thesis by blast
  next
    case False
    with table_row_update_id [OF ok _ _ c [unfolded sql_ExtendProcessingLock_def], of i]
    show ?thesis by simp
  qed
next
  fix t j i dbnow c body x
  assume "table_ok t" "j \<noteq> (i::int)"
  then show "table_row (sql_MarkSucceeded dbnow i c body x t) j = table_row t j"
    unfolding sql_MarkSucceeded_def by (intro table_row_update_other) simp_all
next
  fix t j i dbnow e l x
  assume "table_ok t" "j \<noteq> (i::int)"
  then show "table_row (sql_MarkFailedRetryable dbnow i e l x t) j = table_row t j"
    unfolding sql_MarkFailedRetryable_def by (intro table_row_update_other) simp_all
next
  fix t j r now limit
  assume ok: "table_ok t" and r: "table_row t j = Some r" "now < ir_ExpiresAt r"
  let ?old = "sort_key ir_ExpiresAt (filter (\<lambda>r. ir_ExpiresAt r \<le> now) (t_rows t))"
  from r ok have m: "r \<in> set (t_rows t)" "ir_ID r = j" by (simp_all add: table_row_Some_iff)
  have "ir_ID r \<notin> set (map ir_ID (take n ?old))" for n
  proof
    assume "ir_ID r \<in> set (map ir_ID (take n ?old))"
    then obtain v where v: "v \<in> set (take n ?old)" "ir_ID v = ir_ID r" by auto
    then have "v \<in> set ?old" by (meson in_set_takeD)
    then have "v \<in> set (t_rows t)" "ir_ExpiresAt v \<le> now" by auto
    with v(2) m(1) table_ok_id_unique [OF ok] r(2) show False by force
  qed
  with m table_ok_delete [OF ok] show "table_row (snd (sql_DeleteExpired now limit t)) j = Some r"
    by (subst table_row_Some_iff) (auto simp: sql_DeleteExpired_def Let_def)
qed

end
