(* ===== verification/Idempotency.thy ===== *)
theory Idempotency
  imports IdempotencyStore
begin

text \<open>
  The idempotency coordinator, \<^verbatim>\<open>backend/internal/service/idempotency.go\<close>. \<^verbatim>\<open>Execute\<close> is
  written as a program: a tree of the effects it performs (a clock reading, a repository
  call, the run of the executor) with the code between two effects as the function from the
  first one's answer to the next. The same program is run sequentially by \<open>drive\<close> and
  interleaved with other requests, lease renewals and the cleanup job in
  \<open>IdempotencyConcurrency\<close>.

  \<open>'p\<close> is the type of request payloads, \<open>'d\<close> of results, \<open>'e\<close> of executor errors.
  \<^verbatim>\<open>crypto/sha256\<close>, \<^verbatim>\<open>encoding/json\<close>, \<^verbatim>\<open>strings.ToUpper\<close>, \<^verbatim>\<open>logredact.RedactText\<close> and
  \<^verbatim>\<open>infraerrors.Reason\<close> are fields of \<open>idem_env\<close>. Logging and metrics are left out.
\<close>

section \<open>Configuration, options, errors\<close>

record ('p, 'd, 'e) idem_env =
  env_sha256_hex :: "string \<Rightarrow> string"
  env_ToUpper :: "string \<Rightarrow> string"
  env_marshal_payload :: "'p \<Rightarrow> string option"
  env_marshal :: "'d \<Rightarrow> string option"
  env_unmarshal :: "string \<Rightarrow> 'd option"
  env_empty_object :: 'd
  env_RedactText :: "string \<Rightarrow> string"
  env_Reason :: "'e \<Rightarrow> string"

record IdempotencyConfig =
  DefaultTTL :: go_duration
  SystemOperationTTL :: go_duration
  ProcessingTimeout :: go_duration
  FailedRetryBackoff :: go_duration
  MaxStoredResponseLen :: int
  ObserveOnly :: bool

definition DefaultIdempotencyConfig :: IdempotencyConfig where
  "DefaultIdempotencyConfig = \<lparr>DefaultTTL = 24 * hour, SystemOperationTTL = 1 * hour,
     ProcessingTimeout = 30 * second, FailedRetryBackoff = 5 * second,
     MaxStoredResponseLen = 64 * 1024, ObserveOnly = True\<rparr>"

record 'p IdempotencyExecuteOptions =
  opt_Scope :: string
  opt_ActorScope :: string
  opt_Method :: string
  opt_Route :: string
  opt_IdempotencyKey :: string
  opt_Payload :: 'p
  opt_TTL :: go_duration
  opt_RequireKey :: bool
  opt_ExecutionTimeout :: go_duration

datatype 'e idem_error =
    ErrIdempotencyKeyRequired
  | ErrIdempotencyKeyInvalid
  | ErrIdempotencyKeyConflict
  | ErrIdempotencyInProgress "int option"
  | ErrIdempotencyRetryBackoff "int option"
  | ErrIdempotencyStoreUnavail
  | ErrIdempotencyInvalidPayload
  | ErrScopeRequired
  | ErrExecutorNil
  | ErrExecutor 'e

text \<open>\<^verbatim>\<open>Inr (data, replayed)\<close> is \<^verbatim>\<open>&IdempotencyExecuteResult{data, replayed}\<close>.\<close>

type_synonym ('d, 'e) idem_result = "'e idem_error + 'd \<times> bool"

section \<open>Pure helpers\<close>

definition key_char_ok :: "char \<Rightarrow> bool" where
  "key_char_ok c \<longleftrightarrow> (let n = of_char c :: nat in 33 \<le> n \<and> n \<le> 126)"

text \<open>A rune outside 33..126 has a byte outside 33..126 and conversely.\<close>

definition NormalizeIdempotencyKey :: "string \<Rightarrow> 'e idem_error + string" where
  "NormalizeIdempotencyKey raw =
     (let key = trim_space raw in
      if key = [] then Inr []
      else if length key > 128 then Inl ErrIdempotencyKeyInvalid
      else if \<exists>c \<in> set key. \<not> key_char_ok c then Inl ErrIdempotencyKeyInvalid
      else Inr key)"

definition HashIdempotencyKey :: "('p, 'd, 'e) idem_env \<Rightarrow> string \<Rightarrow> string" where
  "HashIdempotencyKey E key = env_sha256_hex E key"

definition BuildIdempotencyFingerprint ::
  "('p, 'd, 'e) idem_env \<Rightarrow> string \<Rightarrow> string \<Rightarrow> string \<Rightarrow> 'p \<Rightarrow> 'e idem_error + string" where
  "BuildIdempotencyFingerprint E method route actorScope payload =
     (let method1 = (if method = [] then ''POST'' else method);
          route1 = (if route = [] then ''/'' else route);
          actor1 = (if actorScope = [] then ''anonymous'' else actorScope)
      in case env_marshal_payload E payload of
           None \<Rightarrow> Inl ErrIdempotencyInvalidPayload
         | Some raw \<Rightarrow> Inr (env_sha256_hex E
             (env_ToUpper E method1 @ [CHR 0x0A] @ route1 @ [CHR 0x0A] @ actor1 @ [CHR 0x0A] @ raw)))"

text \<open>\<^verbatim>\<open>int(lockedUntil.Sub(now).Seconds())\<close>, the seconds taken exactly.\<close>

definition retryAfterSeconds :: "go_time option \<Rightarrow> go_time \<Rightarrow> int option" where
  "retryAfterSeconds lockedUntil now =
     (case lockedUntil of
        None \<Rightarrow> None
      | Some l \<Rightarrow> (let sec = go_div (time_sub l now) second in Some (if sec \<le> 0 then 1 else sec)))"

function truncate_down :: "string \<Rightarrow> nat \<Rightarrow> string" where
  "truncate_down s n =
     (if 0 < n \<and> \<not> utf8_valid (take n s) then truncate_down s (n - 1) else take n s)"
  by pat_completeness auto
termination by (relation "measure snd") auto

declare truncate_down.simps [simp del]

definition truncateUTF8 :: "string \<Rightarrow> int \<Rightarrow> string" where
  "truncateUTF8 s maxBytes =
     (if maxBytes \<le> 0 \<or> int (length s) \<le> maxBytes then s else truncate_down s (nat maxBytes))"

definition truncation_mark :: string where "truncation_mark = ''...(truncated)''"

definition marshalStoredResponse ::
  "('p, 'd, 'e) idem_env \<Rightarrow> IdempotencyConfig \<Rightarrow> 'd \<Rightarrow> string option" where
  "marshalStoredResponse E cfg d =
     (case env_marshal E d of
        None \<Rightarrow> None
      | Some raw \<Rightarrow>
          (let redacted = env_RedactText E raw
           in Some (if 0 < MaxStoredResponseLen cfg \<and>
                       MaxStoredResponseLen cfg < int (length redacted)
                    then truncateUTF8 redacted (MaxStoredResponseLen cfg) @ truncation_mark
                    else redacted)))"

definition decodeStoredResponse :: "('p, 'd, 'e) idem_env \<Rightarrow> string option \<Rightarrow> 'd option" where
  "decodeStoredResponse E stored =
     (case stored of
        None \<Rightarrow> Some (env_empty_object E)
      | Some body \<Rightarrow>
          (if trim_space body = [] then Some (env_empty_object E) else env_unmarshal E body))"

section \<open>Execute\<close>

text \<open>The lease that \<^verbatim>\<open>renewProcessingLease\<close> keeps up in the background: row id, fingerprint,
  lease and ttl.\<close>

record renewal =
  rn_id :: int
  rn_fingerprint :: string
  rn_lease :: go_duration
  rn_ttl :: go_duration

datatype ('d, 'e) prog =
    Ret "('d, 'e) idem_result"
  | ReadClock "go_time \<Rightarrow> ('d, 'e) prog"
  | DoCreate IdempotencyRecord "unit + int option \<Rightarrow> ('d, 'e) prog"
  | DoGet string string "unit + IdempotencyRecord option \<Rightarrow> ('d, 'e) prog"
  | DoReclaim int string go_time go_time go_time "unit + bool \<Rightarrow> ('d, 'e) prog"
  | RunExecutor "renewal option" "'e + 'd \<Rightarrow> ('d, 'e) prog"
  | DoMarkSucceeded int int string go_time "unit + unit \<Rightarrow> ('d, 'e) prog"
  | DoMarkFailed int string go_time go_time "unit + unit \<Rightarrow> ('d, 'e) prog"

text \<open>What the code computes before its first repository call.\<close>

record exec_ctx =
  cx_scope :: string
  cx_keyHash :: string
  cx_fingerprint :: string
  cx_ttl :: go_duration
  cx_now :: go_time
  cx_expiresAt :: go_time
  cx_lockedUntil :: go_time
  cx_bounded :: bool

definition unavailable :: "('d, 'e) prog" where
  "unavailable = Ret (Inl ErrIdempotencyStoreUnavail)"

definition finishFailed ::
  "('p, 'd, 'e) idem_env \<Rightarrow> IdempotencyConfig \<Rightarrow> int \<Rightarrow> go_time \<Rightarrow> 'e \<Rightarrow> ('d, 'e) prog" where
  "finishFailed E cfg i expiresAt execErr =
     ReadClock (\<lambda>t.
       let backoffUntil = t + FailedRetryBackoff cfg;
           reason = (if env_Reason E execErr = [] then ''EXECUTION_FAILED'' else env_Reason E execErr)
       in DoMarkFailed i reason backoffUntil expiresAt (\<lambda>_. Ret (Inl (ErrExecutor execErr))))"

definition finishSucceeded ::
  "('p, 'd, 'e) idem_env \<Rightarrow> IdempotencyConfig \<Rightarrow> int \<Rightarrow> go_time \<Rightarrow> 'd \<Rightarrow> ('d, 'e) prog" where
  "finishSucceeded E cfg i expiresAt data =
     (case marshalStoredResponse E cfg data of
        None \<Rightarrow> unavailable
      | Some storedBody \<Rightarrow>
          DoMarkSucceeded i 200 storedBody expiresAt
            (\<lambda>r. case r of Inl _ \<Rightarrow> unavailable | Inr _ \<Rightarrow> Ret (Inr (data, False))))"

definition finishExecution ::
  "('p, 'd, 'e) idem_env \<Rightarrow> IdempotencyConfig \<Rightarrow> int \<Rightarrow> go_time \<Rightarrow> 'e + 'd \<Rightarrow> ('d, 'e) prog" where
  "finishExecution E cfg i expiresAt outcome =
     (case outcome of
        Inl execErr \<Rightarrow> finishFailed E cfg i expiresAt execErr
      | Inr data \<Rightarrow> finishSucceeded E cfg i expiresAt data)"

definition renewProcessingLease ::
  "IdempotencyConfig \<Rightarrow> exec_ctx \<Rightarrow> int \<Rightarrow> renewal option" where
  "renewProcessingLease cfg cx i =
     (if cx_bounded cx then
        Some \<lparr>rn_id = i, rn_fingerprint = cx_fingerprint cx,
          rn_lease = (if ProcessingTimeout cfg \<le> 0
                      then ProcessingTimeout DefaultIdempotencyConfig else ProcessingTimeout cfg),
          rn_ttl = cx_ttl cx\<rparr>
      else None)"

definition executeClaimed ::
  "('p, 'd, 'e) idem_env \<Rightarrow> IdempotencyConfig \<Rightarrow> exec_ctx \<Rightarrow> int \<Rightarrow> ('d, 'e) prog" where
  "executeClaimed E cfg cx i =
     (if i = 0 then unavailable
      else RunExecutor (renewProcessingLease cfg cx i) (\<lambda>outcome.
        if cx_bounded cx then
          ReadClock (\<lambda>t. finishExecution E cfg i (t + cx_ttl cx) outcome)
        else finishExecution E cfg i (cx_expiresAt cx) outcome))"

text \<open>The switch on the status of an existing record that was not taken over as expired.\<close>

definition resolveStatus ::
  "('p, 'd, 'e) idem_env \<Rightarrow> IdempotencyConfig \<Rightarrow> exec_ctx \<Rightarrow> IdempotencyRecord \<Rightarrow> ('d, 'e) prog" where
  "resolveStatus E cfg cx existing =
     (if ir_Status existing = IdempotencyStatusSucceeded then
        (case decodeStoredResponse E (ir_ResponseBody existing) of
           None \<Rightarrow> unavailable
         | Some data \<Rightarrow> Ret (Inr (data, True)))
      else if ir_Status existing = IdempotencyStatusProcessing then
        Ret (Inl (ErrIdempotencyInProgress
          (retryAfterSeconds (ir_LockedUntil existing) (cx_now cx))))
      else if ir_Status existing = IdempotencyStatusFailedRetryable then
        (if \<not> lock_free (cx_now cx) existing then
           Ret (Inl (ErrIdempotencyRetryBackoff
             (retryAfterSeconds (ir_LockedUntil existing) (cx_now cx))))
         else
           DoReclaim (ir_ID existing) IdempotencyStatusFailedRetryable (cx_now cx)
             (cx_lockedUntil cx) (cx_expiresAt cx)
             (\<lambda>r. case r of
                Inl _ \<Rightarrow> unavailable
              | Inr False \<Rightarrow> Ret (Inl (ErrIdempotencyInProgress
                  (retryAfterSeconds (ir_LockedUntil existing) (cx_now cx))))
              | Inr True \<Rightarrow> executeClaimed E cfg cx (ir_ID existing)))
      else Ret (Inl ErrIdempotencyKeyConflict))"

definition rereadExisting ::
  "('p, 'd, 'e) idem_env \<Rightarrow> IdempotencyConfig \<Rightarrow> exec_ctx \<Rightarrow> ('d, 'e) prog" where
  "rereadExisting E cfg cx =
     DoGet (cx_scope cx) (cx_keyHash cx) (\<lambda>r.
       case r of
         Inl _ \<Rightarrow> unavailable
       | Inr None \<Rightarrow> unavailable
       | Inr (Some latest) \<Rightarrow>
           (if ir_RequestFingerprint latest \<noteq> cx_fingerprint cx
            then Ret (Inl ErrIdempotencyKeyConflict)
            else resolveStatus E cfg cx latest))"

definition resolveExisting ::
  "('p, 'd, 'e) idem_env \<Rightarrow> IdempotencyConfig \<Rightarrow> exec_ctx \<Rightarrow> IdempotencyRecord \<Rightarrow> ('d, 'e) prog" where
  "resolveExisting E cfg cx existing =
     (if ir_RequestFingerprint existing \<noteq> cx_fingerprint cx
      then Ret (Inl ErrIdempotencyKeyConflict)
      else if ir_ExpiresAt existing \<le> cx_now cx then
        DoReclaim (ir_ID existing) (ir_Status existing) (cx_now cx) (cx_lockedUntil cx)
          (cx_expiresAt cx)
          (\<lambda>r. case r of
             Inl _ \<Rightarrow> unavailable
           | Inr True \<Rightarrow> executeClaimed E cfg cx (ir_ID existing)
           | Inr False \<Rightarrow> rereadExisting E cfg cx)
      else resolveStatus E cfg cx existing)"

definition claimRecord :: "exec_ctx \<Rightarrow> IdempotencyRecord" where
  "claimRecord cx =
     \<lparr>ir_ID = 0, ir_Scope = cx_scope cx, ir_IdempotencyKeyHash = cx_keyHash cx,
      ir_RequestFingerprint = cx_fingerprint cx, ir_Status = IdempotencyStatusProcessing,
      ir_ResponseStatus = None, ir_ResponseBody = None, ir_ErrorReason = None,
      ir_LockedUntil = Some (cx_lockedUntil cx), ir_ExpiresAt = cx_expiresAt cx,
      ir_CreatedAt = 0, ir_UpdatedAt = 0\<rparr>"

definition claimOrResolve ::
  "('p, 'd, 'e) idem_env \<Rightarrow> IdempotencyConfig \<Rightarrow> exec_ctx \<Rightarrow> ('d, 'e) prog" where
  "claimOrResolve E cfg cx =
     DoCreate (claimRecord cx) (\<lambda>r.
       case r of
         Inl _ \<Rightarrow> unavailable
       | Inr (Some i) \<Rightarrow> executeClaimed E cfg cx i
       | Inr None \<Rightarrow>
           DoGet (cx_scope cx) (cx_keyHash cx) (\<lambda>g.
             case g of
               Inl _ \<Rightarrow> unavailable
             | Inr None \<Rightarrow> unavailable
             | Inr (Some existing) \<Rightarrow> resolveExisting E cfg cx existing))"

definition requestContext ::
  "IdempotencyConfig \<Rightarrow> 'p IdempotencyExecuteOptions \<Rightarrow> string \<Rightarrow> string \<Rightarrow> go_time \<Rightarrow> exec_ctx" where
  "requestContext cfg opts keyHash fingerprint now =
     (let ttl = (if opt_TTL opts \<le> 0 then DefaultTTL cfg else opt_TTL opts)
      in \<lparr>cx_scope = opt_Scope opts, cx_keyHash = keyHash, cx_fingerprint = fingerprint,
          cx_ttl = ttl, cx_now = now, cx_expiresAt = now + ttl,
          cx_lockedUntil = now + ProcessingTimeout cfg,
          cx_bounded = (0 < opt_ExecutionTimeout opts)\<rparr>)"

definition Execute ::
  "('p, 'd, 'e) idem_env \<Rightarrow> IdempotencyConfig \<Rightarrow> bool \<Rightarrow> bool \<Rightarrow> 'p IdempotencyExecuteOptions \<Rightarrow>
     ('d, 'e) prog" where
  "Execute E cfg repoNil executeNil opts =
     (if executeNil then Ret (Inl ErrExecutorNil)
      else case NormalizeIdempotencyKey (opt_IdempotencyKey opts) of
        Inl err \<Rightarrow> Ret (Inl err)
      | Inr key \<Rightarrow>
          (if key = [] then
             (if opt_RequireKey opts \<and> \<not> ObserveOnly cfg then Ret (Inl ErrIdempotencyKeyRequired)
              else RunExecutor None (\<lambda>outcome.
                case outcome of
                  Inl execErr \<Rightarrow> Ret (Inl (ErrExecutor execErr))
                | Inr data \<Rightarrow> Ret (Inr (data, False))))
           else if repoNil then unavailable
           else if opt_Scope opts = [] then Ret (Inl ErrScopeRequired)
           else case BuildIdempotencyFingerprint E (opt_Method opts) (opt_Route opts)
                  (opt_ActorScope opts) (opt_Payload opts) of
             Inl err \<Rightarrow> Ret (Inl err)
           | Inr fingerprint \<Rightarrow>
               ReadClock (\<lambda>now. claimOrResolve E cfg
                 (requestContext cfg opts (HashIdempotencyKey E key) fingerprint now))))"

section \<open>One request at a time\<close>

text \<open>
  \<open>drive\<close> runs a program alone: the clock stands still between effects, the executor is any
  function of the world (it may take time), the database never fails. \<open>w_runs\<close> counts how
  often the executor ran.
\<close>

record world =
  w_clock :: go_time
  w_table :: idem_table
  w_runs :: nat

type_synonym ('d, 'e) executor = "world \<Rightarrow> ('e + 'd) \<times> world"

primrec drive ::
  "('d, 'e) executor \<Rightarrow> ('d, 'e) prog \<Rightarrow> world \<Rightarrow> ('d, 'e) idem_result \<times> world" where
  "drive ex (Ret r) w = (r, w)"
| "drive ex (ReadClock k) w = drive ex (k (w_clock w)) w"
| "drive ex (DoCreate r k) w =
     (let a = sql_CreateProcessing (w_clock w) r (w_table w)
      in drive ex (k (Inr (fst a))) (w\<lparr>w_table := snd a\<rparr>))"
| "drive ex (DoGet s h k) w =
     drive ex (k (Inr (sql_GetByScopeAndKeyHash s h (w_table w)))) w"
| "drive ex (DoReclaim i st now l x k) w =
     (let a = sql_TryReclaim (w_clock w) i st now l x (w_table w)
      in drive ex (k (Inr (fst a))) (w\<lparr>w_table := snd a\<rparr>))"
| "drive ex (RunExecutor rn k) w =
     (let a = ex w in drive ex (k (fst a)) ((snd a)\<lparr>w_runs := Suc (w_runs (snd a))\<rparr>))"
| "drive ex (DoMarkSucceeded i c b x k) w =
     drive ex (k (Inr ())) (w\<lparr>w_table := sql_MarkSucceeded (w_clock w) i c b x (w_table w)\<rparr>)"
| "drive ex (DoMarkFailed i e l x k) w =
     drive ex (k (Inr ())) (w\<lparr>w_table := sql_MarkFailedRetryable (w_clock w) i e l x (w_table w)\<rparr>)"

text \<open>A request that gets as far as the repository.\<close>

definition well_posed ::
  "('p, 'd, 'e) idem_env \<Rightarrow> 'p IdempotencyExecuteOptions \<Rightarrow> string \<Rightarrow> string \<Rightarrow> bool" where
  "well_posed E opts key fp \<longleftrightarrow>
     NormalizeIdempotencyKey (opt_IdempotencyKey opts) = (Inr key :: 'e idem_error + string) \<and>
     key \<noteq> [] \<and> opt_Scope opts \<noteq> [] \<and>
     BuildIdempotencyFingerprint E (opt_Method opts) (opt_Route opts) (opt_ActorScope opts)
       (opt_Payload opts) = Inr fp"

lemma drive_Execute:
  assumes "well_posed E opts key fp"
  shows "drive ex (Execute E cfg False False opts) w =
     drive ex (claimOrResolve E cfg
       (requestContext cfg opts (HashIdempotencyKey E key) fp (w_clock w))) w"
  using assms by (simp add: Execute_def well_posed_def)

text \<open>The repository calls of one request, seen through the lookup by key.\<close>

lemma create_refused:
  "sql_GetByScopeAndKeyHash (ir_Scope r) (ir_IdempotencyKeyHash r) t = Some q \<Longrightarrow>
     sql_CreateProcessing now r t = (None, t)"
  by (simp add: sql_CreateProcessing_def sql_GetByScopeAndKeyHash_def)

lemma create_done:
  assumes "table_ok t" and "sql_GetByScopeAndKeyHash (ir_Scope r) (ir_IdempotencyKeyHash r) t = None"
  shows "\<exists>i t' q. sql_CreateProcessing now r t = (Some i, t') \<and> 0 < i \<and> table_ok t' \<and>
     sql_GetByScopeAndKeyHash (ir_Scope r) (ir_IdempotencyKeyHash r) t' = Some q \<and> ir_ID q = i \<and>
     ir_RequestFingerprint q = ir_RequestFingerprint r"
proof -
  let ?q = "r\<lparr>ir_ID := t_next t, ir_ResponseStatus := None, ir_ResponseBody := None,
      ir_ErrorReason := None, ir_CreatedAt := now, ir_UpdatedAt := now\<rparr>"
  let ?t = "\<lparr>t_rows = t_rows t @ [?q], t_next = t_next t + 1\<rparr>"
  have c: "sql_CreateProcessing now r t = (Some (t_next t), ?t)"
    using assms(2) by (simp add: sql_CreateProcessing_def sql_GetByScopeAndKeyHash_def)
  have ok: "table_ok ?t" using table_ok_create [OF assms(1), of now r] c by simp
  have "0 < t_next t" using assms(1) by (simp add: table_ok_def)
  moreover have "sql_GetByScopeAndKeyHash (ir_Scope r) (ir_IdempotencyKeyHash r) ?t = Some ?q"
    using sql_get_Some_iff [OF ok] by (simp add: same_key_def)
  ultimately show ?thesis
    using c ok by (intro exI [of _ "t_next t"] exI [of _ ?t] exI [of _ ?q]) simp
qed

lemma get_after_update:
  assumes "table_ok t" and "sql_GetByScopeAndKeyHash s k t = Some q"
    and "\<And>r. ir_ID (f r) = ir_ID r" and "\<And>r. ir_Scope (f r) = ir_Scope r"
    and "\<And>r. ir_IdempotencyKeyHash (f r) = ir_IdempotencyKeyHash r"
  shows "sql_GetByScopeAndKeyHash s k (snd (sql_update P f t)) = Some (if P q then f q else q)"
proof -
  have ok: "table_ok (snd (sql_update P f t))" using assms by (intro table_ok_update) auto
  from assms(1,2) have q: "q \<in> set (t_rows t)" "same_key s k q" by (simp_all add: sql_get_Some_iff)
  then have "(if P q then f q else q) \<in> set (t_rows (snd (sql_update P f t)))"
    by (auto simp: sql_update_def)
  moreover have "same_key s k (if P q then f q else q)"
    using q(2) assms(4,5) by (simp add: same_key_def)
  ultimately show ?thesis using sql_get_Some_iff [OF ok] by blast
qed

text \<open>What an existing, unexpired record of the same key and payload answers.\<close>

lemma drive_existing:
  assumes "well_posed E opts key fp"
    and "sql_GetByScopeAndKeyHash (opt_Scope opts) (HashIdempotencyKey E key) (w_table w) = Some q"
  shows "drive ex (Execute E cfg False False opts) w =
     drive ex (resolveExisting E cfg
       (requestContext cfg opts (HashIdempotencyKey E key) fp (w_clock w)) q) w"
proof -
  let ?cx = "requestContext cfg opts (HashIdempotencyKey E key) fp (w_clock w)"
  have "sql_CreateProcessing (w_clock w) (claimRecord ?cx) (w_table w) = (None, w_table w)"
    using assms(2) by (intro create_refused) (simp add: claimRecord_def requestContext_def Let_def)
  with assms(2) show ?thesis
    by (simp add: drive_Execute [OF assms(1)] claimOrResolve_def) (simp add: requestContext_def Let_def)
qed

text \<open>The run of a fresh claim: the row stored in the end.\<close>

definition stored_until :: "exec_ctx \<Rightarrow> go_time \<Rightarrow> go_time" where
  "stored_until cx finished = (if cx_bounded cx then finished + cx_ttl cx else cx_expiresAt cx)"

lemma drive_claimed_success:
  assumes "table_ok (w_table w)" and "sql_GetByScopeAndKeyHash s k (w_table w) = Some q"
    and "ir_ID q = i" and "0 < i"
    and "ex w = (Inr d, w1)" and "w_table w1 = w_table w"
    and "marshalStoredResponse E cfg d = Some body"
  shows "\<exists>t' q'. drive ex (executeClaimed E cfg cx i) w =
       (Inr (d, False), w1\<lparr>w_runs := Suc (w_runs w1), w_table := t'\<rparr>) \<and> table_ok t' \<and>
     sql_GetByScopeAndKeyHash s k t' = Some q' \<and>
     ir_RequestFingerprint q' = ir_RequestFingerprint q \<and>
     ir_Status q' = IdempotencyStatusSucceeded \<and> ir_ResponseBody q' = Some body \<and>
     ir_ExpiresAt q' = stored_until cx (w_clock w1) \<and> ir_ID q' = i \<and> ir_LockedUntil q' = None"
proof -
  let ?f = "\<lambda>r. r\<lparr>ir_Status := IdempotencyStatusSucceeded, ir_ResponseStatus := Some 200,
      ir_ResponseBody := Some body, ir_ErrorReason := None, ir_LockedUntil := None,
      ir_ExpiresAt := stored_until cx (w_clock w1), ir_UpdatedAt := w_clock w1\<rparr>"
  let ?t = "sql_MarkSucceeded (w_clock w1) i 200 body (stored_until cx (w_clock w1)) (w_table w)"
  have t: "?t = snd (sql_update (\<lambda>r. ir_ID r = i) ?f (w_table w))"
    by (simp add: sql_MarkSucceeded_def)
  have "drive ex (executeClaimed E cfg cx i) w =
      (Inr (d, False), w1\<lparr>w_runs := Suc (w_runs w1), w_table := ?t\<rparr>)"
    using assms(4-7)
    by (simp add: executeClaimed_def finishExecution_def finishSucceeded_def stored_until_def)
  moreover have "table_ok ?t" unfolding t using assms(1) by (intro table_ok_update) auto
  moreover have "sql_GetByScopeAndKeyHash s k ?t = Some (?f q)"
    unfolding t using get_after_update [OF assms(1,2), of ?f "\<lambda>r. ir_ID r = i"] assms(3) by simp
  ultimately show ?thesis using assms(3) by (intro exI [of _ ?t] exI [of _ "?f q"]) simp
qed

lemma drive_fresh:
  assumes "well_posed E opts key fp" and "table_ok (w_table w)"
    and "sql_GetByScopeAndKeyHash (opt_Scope opts) (HashIdempotencyKey E key) (w_table w) = None"
  shows "\<exists>i t' q. drive ex (Execute E cfg False False opts) w =
       drive ex (executeClaimed E cfg
         (requestContext cfg opts (HashIdempotencyKey E key) fp (w_clock w)) i)
         (w\<lparr>w_table := t'\<rparr>) \<and> 0 < i \<and> table_ok t' \<and>
     sql_GetByScopeAndKeyHash (opt_Scope opts) (HashIdempotencyKey E key) t' = Some q \<and>
     ir_ID q = i \<and> ir_RequestFingerprint q = fp"
proof -
  let ?cx = "requestContext cfg opts (HashIdempotencyKey E key) fp (w_clock w)"
  have r: "ir_Scope (claimRecord ?cx) = opt_Scope opts"
    "ir_IdempotencyKeyHash (claimRecord ?cx) = HashIdempotencyKey E key"
    "ir_RequestFingerprint (claimRecord ?cx) = fp"
    by (simp_all add: claimRecord_def requestContext_def Let_def)
  from create_done [OF assms(2), of "claimRecord ?cx" "w_clock w"] assms(3) r
  obtain i t' q where c: "sql_CreateProcessing (w_clock w) (claimRecord ?cx) (w_table w) = (Some i, t')"
    "0 < i" "table_ok t'"
    "sql_GetByScopeAndKeyHash (opt_Scope opts) (HashIdempotencyKey E key) t' = Some q"
    "ir_ID q = i" "ir_RequestFingerprint q = fp" by auto
  then have "drive ex (Execute E cfg False False opts) w =
      drive ex (executeClaimed E cfg ?cx i) (w\<lparr>w_table := t'\<rparr>)"
    by (simp add: drive_Execute [OF assms(1)] claimOrResolve_def)
  with c show ?thesis by blast
qed

definition effectiveTTL :: "IdempotencyConfig \<Rightarrow> 'p IdempotencyExecuteOptions \<Rightarrow> go_duration" where
  "effectiveTTL cfg opts = (if opt_TTL opts \<le> 0 then DefaultTTL cfg else opt_TTL opts)"

text \<open>An executor that returns the outcome \<open>o\<close> and leaves the idempotency table alone.\<close>

definition returns :: "('d, 'e) executor \<Rightarrow> 'e + 'd \<Rightarrow> bool" where
  "returns ex oc \<longleftrightarrow> (\<forall>w. fst (ex w) = oc \<and> w_table (snd (ex w)) = w_table w \<and>
     w_runs (snd (ex w)) = w_runs w)"

definition expiry_of ::
  "IdempotencyConfig \<Rightarrow> 'p IdempotencyExecuteOptions \<Rightarrow> go_time \<Rightarrow> go_time \<Rightarrow> go_time" where
  "expiry_of cfg opts started finished =
     (if 0 < opt_ExecutionTimeout opts then finished else started) + effectiveTTL cfg opts"

lemma stored_until_expiry:
  "stored_until (requestContext cfg opts h fp started) finished = expiry_of cfg opts started finished"
  by (simp add: stored_until_def requestContext_def expiry_of_def effectiveTTL_def Let_def)

lemma first_success:
  assumes "well_posed E opts key fp" and "table_ok (w_table w)"
    and "sql_GetByScopeAndKeyHash (opt_Scope opts) (HashIdempotencyKey E key) (w_table w) = None"
    and "returns ex (Inr d)" and "marshalStoredResponse E cfg d = Some body"
    and "drive ex (Execute E cfg False False opts) w = (res, w1)"
  shows "res = Inr (d, False) \<and> w_runs w1 = Suc (w_runs w) \<and> table_ok (w_table w1) \<and>
     (\<exists>q. sql_GetByScopeAndKeyHash (opt_Scope opts) (HashIdempotencyKey E key) (w_table w1) = Some q \<and>
        ir_RequestFingerprint q = fp \<and> ir_Status q = IdempotencyStatusSucceeded \<and>
        ir_ResponseBody q = Some body \<and>
        ir_ExpiresAt q = expiry_of cfg opts (w_clock w) (w_clock w1))"
proof -
  let ?cx = "requestContext cfg opts (HashIdempotencyKey E key) fp (w_clock w)"
  from drive_fresh [OF assms(1-3), of ex cfg] obtain i t' q where f:
    "drive ex (Execute E cfg False False opts) w = drive ex (executeClaimed E cfg ?cx i) (w\<lparr>w_table := t'\<rparr>)"
    "0 < i" "table_ok t'"
    "sql_GetByScopeAndKeyHash (opt_Scope opts) (HashIdempotencyKey E key) t' = Some q"
    "ir_ID q = i" "ir_RequestFingerprint q = fp" by blast
  let ?w = "w\<lparr>w_table := t'\<rparr>" and ?v = "snd (ex (w\<lparr>w_table := t'\<rparr>))"
  have e: "ex ?w = (Inr d, ?v)" "w_table ?v = t'" "w_runs ?v = w_runs w"
    using assms(4) by (auto simp: returns_def intro: prod_eqI)
  from drive_claimed_success [of ?w "opt_Scope opts" "HashIdempotencyKey E key" q i ex d ?v E cfg body ?cx]
    f e assms(5)
  obtain t2 q2 where g: "drive ex (executeClaimed E cfg ?cx i) ?w =
       (Inr (d, False), ?v\<lparr>w_runs := Suc (w_runs ?v), w_table := t2\<rparr>)" "table_ok t2"
     "sql_GetByScopeAndKeyHash (opt_Scope opts) (HashIdempotencyKey E key) t2 = Some q2"
     "ir_RequestFingerprint q2 = fp" "ir_Status q2 = IdempotencyStatusSucceeded"
     "ir_ResponseBody q2 = Some body" "ir_ExpiresAt q2 = stored_until ?cx (w_clock ?v)" by auto
  from g(1) f(1) assms(6)
  have "res = Inr (d, False)" "w1 = ?v\<lparr>w_runs := Suc (w_runs ?v), w_table := t2\<rparr>" by auto
  with g e show ?thesis by (simp add: stored_until_expiry)
qed

lemma drive_succeeded:
  assumes "well_posed E opts key fp"
    and "sql_GetByScopeAndKeyHash (opt_Scope opts) (HashIdempotencyKey E key) (w_table w) = Some q"
    and "ir_RequestFingerprint q = fp" and "ir_Status q = IdempotencyStatusSucceeded"
    and "w_clock w < ir_ExpiresAt q"
  shows "drive ex (Execute E cfg False False opts) w =
     ((case decodeStoredResponse E (ir_ResponseBody q) of
         None \<Rightarrow> Inl ErrIdempotencyStoreUnavail | Some d \<Rightarrow> Inr (d, True)), w)"
  using assms(3-5)
  by (simp add: drive_existing [OF assms(1,2)] resolveExisting_def resolveStatus_def
      requestContext_def Let_def unavailable_def split: option.split)

lemma decode_of_marshal:
  assumes "env_marshal E d = Some raw" and "body = env_RedactText E raw"
    and "MaxStoredResponseLen cfg \<le> 0 \<or> int (length body) \<le> MaxStoredResponseLen cfg"
  shows "marshalStoredResponse E cfg d = Some body"
  using assms by (auto simp: marshalStoredResponse_def Let_def)

lemma drive_claimed_failure:
  assumes "table_ok (w_table w)" and "sql_GetByScopeAndKeyHash s k (w_table w) = Some q"
    and "ir_ID q = i" and "0 < i"
    and "ex w = (Inl err, w1)" and "w_table w1 = w_table w"
  shows "\<exists>t' q'. drive ex (executeClaimed E cfg cx i) w =
       (Inl (ErrExecutor err), w1\<lparr>w_runs := Suc (w_runs w1), w_table := t'\<rparr>) \<and> table_ok t' \<and>
     sql_GetByScopeAndKeyHash s k t' = Some q' \<and> ir_ID q' = i \<and>
     ir_RequestFingerprint q' = ir_RequestFingerprint q \<and>
     ir_Status q' = IdempotencyStatusFailedRetryable \<and>
     ir_LockedUntil q' = Some (w_clock w1 + FailedRetryBackoff cfg) \<and>
     ir_ExpiresAt q' = stored_until cx (w_clock w1)"
proof -
  define reason where
    "reason = (if env_Reason E err = [] then ''EXECUTION_FAILED'' else env_Reason E err)"
  let ?f = "\<lambda>r. r\<lparr>ir_Status := IdempotencyStatusFailedRetryable, ir_ErrorReason := Some reason,
      ir_LockedUntil := Some (w_clock w1 + FailedRetryBackoff cfg),
      ir_ExpiresAt := stored_until cx (w_clock w1), ir_UpdatedAt := w_clock w1\<rparr>"
  let ?t = "sql_MarkFailedRetryable (w_clock w1) i reason (w_clock w1 + FailedRetryBackoff cfg)
      (stored_until cx (w_clock w1)) (w_table w)"
  have t: "?t = snd (sql_update (\<lambda>r. ir_ID r = i) ?f (w_table w))"
    by (simp add: sql_MarkFailedRetryable_def)
  have "drive ex (executeClaimed E cfg cx i) w =
      (Inl (ErrExecutor err), w1\<lparr>w_runs := Suc (w_runs w1), w_table := ?t\<rparr>)"
    using assms(4-6)
    by (simp add: executeClaimed_def finishExecution_def finishFailed_def stored_until_def
        reason_def Let_def)
  moreover have "table_ok ?t" unfolding t using assms(1) by (intro table_ok_update) auto
  moreover have "sql_GetByScopeAndKeyHash s k ?t = Some (?f q)"
    unfolding t using get_after_update [OF assms(1,2), of ?f "\<lambda>r. ir_ID r = i"] assms(3) by simp
  ultimately show ?thesis using assms(3) by (intro exI [of _ ?t] exI [of _ "?f q"]) simp
qed

lemma first_failure:
  assumes "well_posed E opts key fp" and "table_ok (w_table w)"
    and "sql_GetByScopeAndKeyHash (opt_Scope opts) (HashIdempotencyKey E key) (w_table w) = None"
    and "returns ex (Inl err)"
    and "drive ex (Execute E cfg False False opts) w = (res, w1)"
  shows "res = Inl (ErrExecutor err) \<and> table_ok (w_table w1) \<and>
     (\<exists>q. sql_GetByScopeAndKeyHash (opt_Scope opts) (HashIdempotencyKey E key) (w_table w1) = Some q \<and>
        0 < ir_ID q \<and> ir_RequestFingerprint q = fp \<and>
        ir_Status q = IdempotencyStatusFailedRetryable \<and>
        ir_LockedUntil q = Some (w_clock w1 + FailedRetryBackoff cfg) \<and>
        ir_ExpiresAt q = expiry_of cfg opts (w_clock w) (w_clock w1))"
proof -
  let ?cx = "requestContext cfg opts (HashIdempotencyKey E key) fp (w_clock w)"
  from drive_fresh [OF assms(1-3), of ex cfg] obtain i t' q where f:
    "drive ex (Execute E cfg False False opts) w = drive ex (executeClaimed E cfg ?cx i) (w\<lparr>w_table := t'\<rparr>)"
    "0 < i" "table_ok t'"
    "sql_GetByScopeAndKeyHash (opt_Scope opts) (HashIdempotencyKey E key) t' = Some q"
    "ir_ID q = i" "ir_RequestFingerprint q = fp" by blast
  let ?w = "w\<lparr>w_table := t'\<rparr>" and ?v = "snd (ex (w\<lparr>w_table := t'\<rparr>))"
  have e: "ex ?w = (Inl err, ?v)" "w_table ?v = t'"
    using assms(4) by (auto simp: returns_def intro: prod_eqI)
  from drive_claimed_failure [of ?w "opt_Scope opts" "HashIdempotencyKey E key" q i ex err ?v E cfg ?cx]
    f e
  obtain t2 q2 where g: "drive ex (executeClaimed E cfg ?cx i) ?w =
       (Inl (ErrExecutor err), ?v\<lparr>w_runs := Suc (w_runs ?v), w_table := t2\<rparr>)" "table_ok t2"
     "sql_GetByScopeAndKeyHash (opt_Scope opts) (HashIdempotencyKey E key) t2 = Some q2" "ir_ID q2 = i"
     "ir_RequestFingerprint q2 = fp" "ir_Status q2 = IdempotencyStatusFailedRetryable"
     "ir_LockedUntil q2 = Some (w_clock ?v + FailedRetryBackoff cfg)"
     "ir_ExpiresAt q2 = stored_until ?cx (w_clock ?v)" by auto
  from g(1) f(1) assms(5)
  have "res = Inl (ErrExecutor err)" "w1 = ?v\<lparr>w_runs := Suc (w_runs ?v), w_table := t2\<rparr>" by auto
  with g f(2) show ?thesis by (simp add: stored_until_expiry)
qed

lemma drive_failed:
  assumes "well_posed E opts key fp"
    and "sql_GetByScopeAndKeyHash (opt_Scope opts) (HashIdempotencyKey E key) (w_table w) = Some q"
    and "ir_RequestFingerprint q = fp" and "ir_Status q = IdempotencyStatusFailedRetryable"
    and "w_clock w < ir_ExpiresAt q"
  shows "drive ex (Execute E cfg False False opts) w =
     (if lock_free (w_clock w) q then
        (let cx = requestContext cfg opts (HashIdempotencyKey E key) fp (w_clock w);
             a = sql_TryReclaim (w_clock w) (ir_ID q) IdempotencyStatusFailedRetryable (w_clock w)
                   (cx_lockedUntil cx) (cx_expiresAt cx) (w_table w)
         in drive ex (if fst a then executeClaimed E cfg cx (ir_ID q)
              else Ret (Inl (ErrIdempotencyInProgress
                (retryAfterSeconds (ir_LockedUntil q) (w_clock w))))) (w\<lparr>w_table := snd a\<rparr>))
      else (Inl (ErrIdempotencyRetryBackoff (retryAfterSeconds (ir_LockedUntil q) (w_clock w))), w))"
proof -
  let ?cx = "requestContext cfg opts (HashIdempotencyKey E key) fp (w_clock w)"
  have c: "cx_now ?cx = w_clock w" "cx_fingerprint ?cx = fp"
    by (simp_all add: requestContext_def Let_def)
  from assms(3-5) show ?thesis
    by (simp add: drive_existing [OF assms(1,2)] resolveExisting_def resolveStatus_def c Let_def
        split: bool.split)
qed

text \<open>A reclaim that finds its row, run to the end.\<close>

lemma drive_reclaimed_success:
  assumes ok: "table_ok (w_table w)" and g: "sql_GetByScopeAndKeyHash s k (w_table w) = Some q"
    and p: "reclaimable (ir_ID q) st now q" and "0 < ir_ID q"
    and ex: "returns ex (Inr d)" and m: "marshalStoredResponse E cfg d = Some body"
  shows "fst (sql_TryReclaim (w_clock w) (ir_ID q) st now l x (w_table w)) \<and>
     (\<exists>w' q'. drive ex (executeClaimed E cfg cx (ir_ID q))
         (w\<lparr>w_table := snd (sql_TryReclaim (w_clock w) (ir_ID q) st now l x (w_table w))\<rparr>)
           = (Inr (d, False), w') \<and> w_runs w' = Suc (w_runs w) \<and> table_ok (w_table w') \<and>
       sql_GetByScopeAndKeyHash s k (w_table w') = Some q' \<and> ir_ID q' = ir_ID q \<and>
       ir_RequestFingerprint q' = ir_RequestFingerprint q \<and>
       ir_Status q' = IdempotencyStatusSucceeded \<and> ir_LockedUntil q' = None \<and>
       ir_ExpiresAt q' = stored_until cx (w_clock w'))"
proof -
  let ?f = "\<lambda>r. r\<lparr>ir_Status := IdempotencyStatusProcessing, ir_LockedUntil := Some l,
      ir_ErrorReason := None, ir_UpdatedAt := w_clock w, ir_ExpiresAt := x\<rparr>"
  let ?P = "reclaimable (ir_ID q) st now"
  let ?t = "snd (sql_update ?P ?f (w_table w))" and ?w = "w\<lparr>w_table := snd (sql_update ?P ?f (w_table w))\<rparr>"
  have "q \<in> set (t_rows (w_table w))" using g by (simp add: sql_get_Some_iff [OF ok])
  with p have taken: "fst (sql_update ?P ?f (w_table w))" by (auto simp: sql_update_def list_ex_iff)
  have ok2: "table_ok ?t" using ok by (intro table_ok_update) auto
  have g2: "sql_GetByScopeAndKeyHash s k ?t = Some (?f q)"
    using get_after_update [OF ok g, of ?f ?P] p by simp
  have e: "ex ?w = (Inr d, snd (ex ?w))" "w_table (snd (ex ?w)) = w_table ?w"
    "w_runs (snd (ex ?w)) = w_runs w"
    using ex by (auto simp: returns_def intro: prod_eqI)
  from drive_claimed_success [of ?w s k "?f q" "ir_ID q" ex d "snd (ex ?w)" E cfg body cx]
    ok2 g2 e assms(4) m
  obtain t' q' where "drive ex (executeClaimed E cfg cx (ir_ID q)) ?w =
       (Inr (d, False), (snd (ex ?w))\<lparr>w_runs := Suc (w_runs w), w_table := t'\<rparr>)" "table_ok t'"
     "sql_GetByScopeAndKeyHash s k t' = Some q'"
     "ir_RequestFingerprint q' = ir_RequestFingerprint q"
     "ir_Status q' = IdempotencyStatusSucceeded" "ir_LockedUntil q' = None" "ir_ID q' = ir_ID q"
     "ir_ExpiresAt q' = stored_until cx (w_clock (snd (ex ?w)))" by auto
  then have "\<exists>w' q'. drive ex (executeClaimed E cfg cx (ir_ID q)) ?w = (Inr (d, False), w') \<and>
       w_runs w' = Suc (w_runs w) \<and> table_ok (w_table w') \<and>
       sql_GetByScopeAndKeyHash s k (w_table w') = Some q' \<and> ir_ID q' = ir_ID q \<and>
       ir_RequestFingerprint q' = ir_RequestFingerprint q \<and>
       ir_Status q' = IdempotencyStatusSucceeded \<and> ir_LockedUntil q' = None \<and>
       ir_ExpiresAt q' = stored_until cx (w_clock w')"
    by (intro exI [of _ "(snd (ex ?w))\<lparr>w_runs := Suc (w_runs w), w_table := t'\<rparr>"] exI [of _ q']) simp
  with taken show ?thesis by (simp add: sql_TryReclaim_def)
qed

lemma drive_retry:
  assumes "well_posed E opts key fp" and ok: "table_ok (w_table w)"
    and g: "sql_GetByScopeAndKeyHash (opt_Scope opts) (HashIdempotencyKey E key) (w_table w) = Some q"
    and "ir_RequestFingerprint q = fp" and st: "ir_Status q = IdempotencyStatusFailedRetryable"
    and "w_clock w < ir_ExpiresAt q" and free: "lock_free (w_clock w) q" and "0 < ir_ID q"
    and ex: "returns ex (Inr d)" and "marshalStoredResponse E cfg d = Some body"
  shows "fst (drive ex (Execute E cfg False False opts) w) = Inr (d, False) \<and>
     w_runs (snd (drive ex (Execute E cfg False False opts) w)) = Suc (w_runs w)"
proof -
  let ?cx = "requestContext cfg opts (HashIdempotencyKey E key) fp (w_clock w)"
  have p: "reclaimable (ir_ID q) IdempotencyStatusFailedRetryable (w_clock w) q"
    using free st by (simp add: reclaimable_def lock_free_def)
  from drive_reclaimed_success [OF ok g p assms(8) ex assms(10), of "cx_lockedUntil ?cx" "cx_expiresAt ?cx" ?cx]
    free show ?thesis
    by (auto simp: drive_failed [OF assms(1) g assms(4) st assms(6)] Let_def)
qed

section \<open>Properties of one key\<close>

text \<open>
  C4: The first request of a key runs the operation and returns its result; a repeat within
  the stored lifetime returns the stored response, marked as replayed, and neither runs the
  operation again nor changes the store.
\<close>

theorem idem_first_then_replay:
  assumes "well_posed E opts key fp" and "table_ok (w_table w)"
    and "sql_GetByScopeAndKeyHash (opt_Scope opts) (HashIdempotencyKey E key) (w_table w) = None"
    and "returns ex (Inr d)" and "env_marshal E d = Some raw" and "body = env_RedactText E raw"
    and "MaxStoredResponseLen cfg \<le> 0 \<or> int (length body) \<le> MaxStoredResponseLen cfg"
    and "trim_space body \<noteq> []" and "env_unmarshal E body = Some d'"
    and "drive ex (Execute E cfg False False opts) w = (res, w1)"
    and "w_table w2 = w_table w1" and "w_clock w2 < expiry_of cfg opts (w_clock w) (w_clock w1)"
  shows "res = Inr (d, False) \<and> w_runs w1 = Suc (w_runs w) \<and>
     drive ex2 (Execute E cfg False False opts) w2 = (Inr (d', True), w2)"
proof -
  from first_success [OF assms(1-4) decode_of_marshal [OF assms(5-7)] assms(10)]
  obtain q where q: "res = Inr (d, False)" "w_runs w1 = Suc (w_runs w)"
    "sql_GetByScopeAndKeyHash (opt_Scope opts) (HashIdempotencyKey E key) (w_table w2) = Some q"
    "ir_RequestFingerprint q = fp" "ir_Status q = IdempotencyStatusSucceeded"
    "ir_ResponseBody q = Some body" "w_clock w2 < ir_ExpiresAt q"
    using assms(11,12) by auto
  from drive_succeeded [OF assms(1) q(3-5,7), of ex2 cfg] q(1,2,6) assms(8,9) show ?thesis
    by (simp add: decodeStoredResponse_def)
qed

text \<open>
  A response longer than the configured maximum is stored with a truncation mark behind
  it, which leaves it undecodable: every repeat of that request within the stored lifetime
  fails as if the store were unavailable, and the stored response is never replayed. (No JSON
  text ends in the mark.)
\<close>

theorem idem_truncated_never_replayed:
  assumes "well_posed E opts key fp" and "table_ok (w_table w)"
    and "sql_GetByScopeAndKeyHash (opt_Scope opts) (HashIdempotencyKey E key) (w_table w) = None"
    and "returns ex (Inr d)" and "env_marshal E d = Some raw"
    and "0 < MaxStoredResponseLen cfg"
    and "MaxStoredResponseLen cfg < int (length (env_RedactText E raw))"
    and "\<forall>s. env_unmarshal E (s @ truncation_mark) = None"
    and "drive ex (Execute E cfg False False opts) w = (res, w1)"
    and "w_table w2 = w_table w1" and "w_clock w2 < expiry_of cfg opts (w_clock w) (w_clock w1)"
  shows "res = Inr (d, False) \<and>
     drive ex2 (Execute E cfg False False opts) w2 = (Inl ErrIdempotencyStoreUnavail, w2)"
proof -
  let ?body = "truncateUTF8 (env_RedactText E raw) (MaxStoredResponseLen cfg) @ truncation_mark"
  have m: "marshalStoredResponse E cfg d = Some ?body"
    using assms(5-7) by (simp add: marshalStoredResponse_def)
  have "CHR '')'' \<in> set (trim_space ?body)"
    by (rule trim_space_keeps) (simp_all add: truncation_mark_def go_spaces_def)
  then have ne: "trim_space ?body \<noteq> []" by auto
  from first_success [OF assms(1-4) m assms(9)]
  obtain q where q: "res = Inr (d, False)"
    "sql_GetByScopeAndKeyHash (opt_Scope opts) (HashIdempotencyKey E key) (w_table w2) = Some q"
    "ir_RequestFingerprint q = fp" "ir_Status q = IdempotencyStatusSucceeded"
    "ir_ResponseBody q = Some ?body" "w_clock w2 < ir_ExpiresAt q"
    using assms(10,11) by auto
  from drive_succeeded [OF assms(1) q(2-4,6), of ex2 cfg] q(1,5) ne assms(8) show ?thesis
    by (simp add: decodeStoredResponse_def)
qed

text \<open>
  C35: An existing, unexpired record of the key decides the request without running the
  operation and without touching the store, unless it is a failure whose backoff is over: a
  different payload is a conflict, a running request is reported in progress, a recent
  failure asks for backoff; a retry hint is always at least one second.
\<close>

theorem idem_existing_record_decides:
  assumes "well_posed E opts key fp"
    and "sql_GetByScopeAndKeyHash (opt_Scope opts) (HashIdempotencyKey E key) (w_table w) = Some q"
    and "w_clock w < ir_ExpiresAt q"
    and "drive ex (Execute E cfg False False opts) w = (res, w')"
    and "ir_RequestFingerprint q \<noteq> fp \<or> ir_Status q = IdempotencyStatusProcessing \<or>
       (ir_Status q = IdempotencyStatusFailedRetryable \<and> \<not> lock_free (w_clock w) q)"
  shows "w' = w \<and>
     (if ir_RequestFingerprint q \<noteq> fp then res = Inl ErrIdempotencyKeyConflict
      else if ir_Status q = IdempotencyStatusProcessing then
        \<exists>n. res = Inl (ErrIdempotencyInProgress n) \<and> (case n of None \<Rightarrow> True | Some s \<Rightarrow> 1 \<le> s)
      else \<exists>s. res = Inl (ErrIdempotencyRetryBackoff (Some s)) \<and> 1 \<le> s)"
proof -
  note d = drive_existing [OF assms(1,2), of ex cfg]
  show ?thesis
  proof (cases "ir_RequestFingerprint q = fp")
    case False
    with assms(4) d show ?thesis by (simp add: resolveExisting_def requestContext_def Let_def)
  next
    case True
    have retry: "case retryAfterSeconds l now of None \<Rightarrow> l = None | Some s \<Rightarrow> 1 \<le> s" for l now
      by (auto simp: retryAfterSeconds_def Let_def split: option.split)
    from assms(5) True consider "ir_Status q = IdempotencyStatusProcessing"
      | "ir_Status q = IdempotencyStatusFailedRetryable" "\<not> lock_free (w_clock w) q" by blast
    then show ?thesis
    proof cases
      case 1
      with True assms(3,4) d retry [of "ir_LockedUntil q" "w_clock w"] show ?thesis
        by (auto simp: resolveExisting_def resolveStatus_def requestContext_def Let_def
            split: option.splits)
    next
      case 2
      then have "ir_LockedUntil q \<noteq> None" by (auto simp: lock_free_def split: option.splits)
      with 2 True assms(3,4) d retry [of "ir_LockedUntil q" "w_clock w"] show ?thesis
        by (auto simp: resolveExisting_def resolveStatus_def requestContext_def Let_def
            split: option.splits)
    qed
  qed
qed

text \<open>
  A failed operation is not replayed: its error goes to the caller, repeats within the
  backoff are refused without running anything, and the first repeat after the backoff runs
  the operation again and can succeed.
\<close>

theorem idem_failure_then_retry:
  assumes "well_posed E opts key fp" and "table_ok (w_table w)"
    and "sql_GetByScopeAndKeyHash (opt_Scope opts) (HashIdempotencyKey E key) (w_table w) = None"
    and "returns ex (Inl err)" and "drive ex (Execute E cfg False False opts) w = (res, w1)"
    and "w_table w2 = w_table w1" and "w_clock w2 < expiry_of cfg opts (w_clock w) (w_clock w1)"
    and "returns ex2 (Inr d)" and "marshalStoredResponse E cfg d = Some body"
  shows "res = Inl (ErrExecutor err) \<and>
     (if w_clock w2 < w_clock w1 + FailedRetryBackoff cfg
      then \<exists>n. drive ex2 (Execute E cfg False False opts) w2 = (Inl (ErrIdempotencyRetryBackoff n), w2)
      else fst (drive ex2 (Execute E cfg False False opts) w2) = Inr (d, False) \<and>
        w_runs (snd (drive ex2 (Execute E cfg False False opts) w2)) = Suc (w_runs w2))"
proof -
  from first_failure [OF assms(1-5)] assms(6)
  obtain q where q: "res = Inl (ErrExecutor err)" "table_ok (w_table w2)"
    "sql_GetByScopeAndKeyHash (opt_Scope opts) (HashIdempotencyKey E key) (w_table w2) = Some q"
    "0 < ir_ID q" "ir_RequestFingerprint q = fp" "ir_Status q = IdempotencyStatusFailedRetryable"
    "ir_LockedUntil q = Some (w_clock w1 + FailedRetryBackoff cfg)" "w_clock w2 < ir_ExpiresAt q"
    using assms(7) by auto
  have l: "lock_free (w_clock w2) q \<longleftrightarrow> \<not> w_clock w2 < w_clock w1 + FailedRetryBackoff cfg"
    using q(7) by (auto simp: lock_free_def)
  show ?thesis
  proof (cases "lock_free (w_clock w2) q")
    case True
    from drive_retry [OF assms(1) q(2,3,5,6,8) True q(4) assms(8,9)] True l q(1)
    show ?thesis by simp
  next
    case False
    with drive_failed [OF assms(1) q(3,5,6,8), of ex2 cfg] l q(1) show ?thesis by simp
  qed
qed

text \<open>
  The reclaim of an expired record checks the status and the lock it read, but not the
  expiry: when two requests have read the same expired success and the first then runs to the
  end, the second, resuming where it was, takes over the fresh success of the first and runs
  the operation again.
\<close>

theorem idem_expired_reclaim_runs_twice:
  assumes "well_posed E opts key fp" and "table_ok (w_table w)"
    and "sql_GetByScopeAndKeyHash (opt_Scope opts) (HashIdempotencyKey E key) (w_table w) = Some q"
    and "ir_RequestFingerprint q = fp" and "ir_Status q = IdempotencyStatusSucceeded"
    and "ir_LockedUntil q = None" and "ir_ExpiresAt q \<le> w_clock w" and "0 < ir_ID q"
    and "returns ex (Inr d)" and "marshalStoredResponse E cfg d = Some body"
    and "cx = requestContext cfg opts (HashIdempotencyKey E key) fp (w_clock w)"
  shows "\<exists>w1 w2 q1. drive ex (Execute E cfg False False opts) w = (Inr (d, False), w1) \<and>
     sql_GetByScopeAndKeyHash (opt_Scope opts) (HashIdempotencyKey E key) (w_table w1) = Some q1 \<and>
     ir_Status q1 = IdempotencyStatusSucceeded \<and>
     ir_ExpiresAt q1 = expiry_of cfg opts (w_clock w) (w_clock w1) \<and>
     drive ex (resolveExisting E cfg cx q) w1 = (Inr (d, False), w2) \<and>
     w_runs w2 = Suc (Suc (w_runs w))"
proof -
  have c: "cx_now cx = w_clock w" "cx_fingerprint cx = fp"
    by (simp_all add: assms(11) requestContext_def Let_def)
  have step: "drive ex (resolveExisting E cfg cx q) v =
      (let a = sql_TryReclaim (w_clock v) (ir_ID q) (ir_Status q) (cx_now cx) (cx_lockedUntil cx)
             (cx_expiresAt cx) (w_table v)
       in drive ex (if fst a then executeClaimed E cfg cx (ir_ID q) else rereadExisting E cfg cx)
            (v\<lparr>w_table := snd a\<rparr>))" for v
    using assms(4,7) by (simp add: resolveExisting_def c Let_def split: bool.split)
  have p: "reclaimable (ir_ID q) (ir_Status q) (cx_now cx) q"
    using assms(6) by (simp add: reclaimable_def)
  from drive_reclaimed_success [OF assms(2,3) p assms(8-10), of "cx_lockedUntil cx" "cx_expiresAt cx" cx]
  obtain w1 q1 where r1: "drive ex (resolveExisting E cfg cx q) w = (Inr (d, False), w1)"
    "w_runs w1 = Suc (w_runs w)" "table_ok (w_table w1)"
    "sql_GetByScopeAndKeyHash (opt_Scope opts) (HashIdempotencyKey E key) (w_table w1) = Some q1"
    "ir_ID q1 = ir_ID q" "ir_Status q1 = IdempotencyStatusSucceeded" "ir_LockedUntil q1 = None"
    "ir_ExpiresAt q1 = stored_until cx (w_clock w1)"
    by (auto simp: step)
  have p1: "reclaimable (ir_ID q1) (ir_Status q) (cx_now cx) q1"
    using r1(6,7) assms(5) by (simp add: reclaimable_def)
  from drive_reclaimed_success [OF r1(3,4) p1 _ assms(9,10), of "cx_lockedUntil cx" "cx_expiresAt cx" cx]
    assms(8) r1(5)
  obtain w2 where r2: "drive ex (resolveExisting E cfg cx q) w1 = (Inr (d, False), w2)"
    "w_runs w2 = Suc (w_runs w1)"
    by (auto simp: step)
  have "drive ex (Execute E cfg False False opts) w = (Inr (d, False), w1)"
    using drive_existing [OF assms(1,3), of ex cfg] r1(1) assms(11) by simp
  with r1 r2 show ?thesis
    by (intro exI [of _ w1] exI [of _ w2] exI [of _ q1]) (simp add: assms(11) stored_until_expiry)
qed

lemma truncate_down_take: "\<exists>m \<le> n. truncate_down s n = take m s \<and> utf8_valid (take m s) \<and>
    (\<forall>j. m < j \<longrightarrow> j \<le> n \<longrightarrow> \<not> utf8_valid (take j s))"
proof (induction s n rule: truncate_down.induct)
  case (1 s n)
  show ?case
  proof (cases "0 < n \<and> \<not> utf8_valid (take n s)")
    case True
    with "1.IH" obtain m where m: "m \<le> n - 1" "truncate_down s (n - 1) = take m s"
      "utf8_valid (take m s)" "\<forall>j. m < j \<longrightarrow> j \<le> n - 1 \<longrightarrow> \<not> utf8_valid (take j s)" by blast
    with True have "\<forall>j. m < j \<longrightarrow> j \<le> n \<longrightarrow> \<not> utf8_valid (take j s)"
      by (metis Suc_diff_1 le_SucE)
    with m True show ?thesis by (intro exI [of _ m]) (simp add: truncate_down.simps [of s n])
  next
    case False
    then have "truncate_down s n = take n s" by (subst truncate_down.simps, subst if_not_P) simp_all
    with False show ?thesis by (intro exI [of _ n]) auto
  qed
qed

text \<open>
  \<^verbatim>\<open>truncateUTF8\<close> cuts a response that is too long to its longest prefix within the limit
  that is well-formed UTF-8, so no character is cut apart.
\<close>

theorem truncateUTF8_longest_valid_prefix:
  assumes "0 < n" and "n < int (length s)"
  shows "\<exists>m. int m \<le> n \<and> truncateUTF8 s n = take m s \<and> utf8_valid (truncateUTF8 s n) \<and>
     (\<forall>j. m < j \<longrightarrow> int j \<le> n \<longrightarrow> \<not> utf8_valid (take j s))"
proof -
  from truncate_down_take [of "nat n" s] obtain m where m: "m \<le> nat n"
    "truncate_down s (nat n) = take m s" "utf8_valid (take m s)"
    "\<forall>j. m < j \<longrightarrow> j \<le> nat n \<longrightarrow> \<not> utf8_valid (take j s)" by blast
  have t: "truncateUTF8 s n = take m s" using assms m(2) by (simp add: truncateUTF8_def)
  have "int m \<le> n" using m(1) assms(1) by linarith
  moreover have "m < j \<Longrightarrow> int j \<le> n \<Longrightarrow> \<not> utf8_valid (take j s)" for j
    using m(4) by (simp add: le_nat_iff)
  ultimately show ?thesis using t m(3) by (intro exI [of _ m]) simp
qed

text \<open>
  A normalised idempotency key is empty or at most 128 printable ASCII characters without
  blanks, and normalising it again changes nothing, so every spelling of a key finds the
  same record.
\<close>

theorem NormalizeIdempotencyKey_canonical:
  assumes "NormalizeIdempotencyKey raw = (Inr key :: 'e idem_error + string)"
  shows "length key \<le> 128 \<and> (\<forall>c \<in> set key. key_char_ok c) \<and> key = trim_space raw \<and>
     NormalizeIdempotencyKey key = (Inr key :: 'e idem_error + string)"
  using assms by (auto simp: NormalizeIdempotencyKey_def Let_def split: if_splits)

section \<open>Witnesses\<close>

definition demo_idem_env :: "(string, string, string) idem_env" where
  "demo_idem_env = \<lparr>env_sha256_hex = (\<lambda>s. s), env_ToUpper = (\<lambda>s. s), env_marshal_payload = Some,
     env_marshal = Some,
     env_unmarshal = (\<lambda>s. if s \<noteq> [] \<and> last s = CHR '')'' then None else Some s),
     env_empty_object = [], env_RedactText = (\<lambda>s. s), env_Reason = (\<lambda>s. s)\<rparr>"

definition demo_opts :: "string IdempotencyExecuteOptions" where
  "demo_opts = \<lparr>opt_Scope = ''pay'', opt_ActorScope = [], opt_Method = ''POST'', opt_Route = ''/'',
     opt_IdempotencyKey = ''k1'', opt_Payload = ''p'', opt_TTL = 0, opt_RequireKey = True,
     opt_ExecutionTimeout = 0\<rparr>"

definition demo_fp :: string where
  "demo_fp = ''POST'' @ [CHR 0x0A] @ ''/'' @ [CHR 0x0A] @ ''anonymous'' @ [CHR 0x0A] @ ''p''"

definition demo_world :: world where
  "demo_world = \<lparr>w_clock = 1000, w_table = \<lparr>t_rows = [], t_next = 1\<rparr>, w_runs = 0\<rparr>"

lemma demo_trim: "trim_space ''k1'' = ''k1''" "trim_space ''done'' = ''done''"
  by (rule trim_space_solid; simp add: solid_char_def go_spaces_def)+

lemma demo_posed: "well_posed demo_idem_env demo_opts ''k1'' demo_fp"
  by (simp add: well_posed_def demo_idem_env_def demo_opts_def demo_fp_def
      NormalizeIdempotencyKey_def demo_trim key_char_ok_def BuildIdempotencyFingerprint_def Let_def)

lemma demo_table: "table_ok (w_table demo_world)"
  "sql_GetByScopeAndKeyHash s k (w_table demo_world) = None"
  by (simp_all add: demo_world_def table_ok_def sql_GetByScopeAndKeyHash_def)

abbreviation demo_exec :: "(string, string) executor \<Rightarrow> IdempotencyConfig \<Rightarrow> world \<Rightarrow>
    (string, string) idem_result \<times> world" where
  "demo_exec ex cfg w \<equiv> drive ex (Execute demo_idem_env cfg False False demo_opts) w"

abbreviation ok_exec :: "(string, string) executor" where "ok_exec \<equiv> \<lambda>w. (Inr ''done'', w)"
abbreviation bad_exec :: "(string, string) executor" where "bad_exec \<equiv> \<lambda>w. (Inl ''boom'', w)"

lemma demo_returns: "returns ok_exec (Inr ''done'')" "returns bad_exec (Inl ''boom'')"
  by (simp_all add: returns_def)

definition demo_after :: "(string, string) executor \<Rightarrow> IdempotencyConfig \<Rightarrow> world" where
  "demo_after ex cfg = snd (demo_exec ex cfg demo_world)"

lemma demo_run: "demo_exec ex cfg demo_world = (fst (demo_exec ex cfg demo_world), demo_after ex cfg)"
  by (simp add: demo_after_def)

lemma idem_first_then_replay_witness:
  "demo_exec bad_exec DefaultIdempotencyConfig
     ((demo_after ok_exec DefaultIdempotencyConfig)\<lparr>w_clock := 2000\<rparr>) =
   (Inr (''done'', True), (demo_after ok_exec DefaultIdempotencyConfig)\<lparr>w_clock := 2000\<rparr>)"
proof -
  have e: "2000 < expiry_of DefaultIdempotencyConfig demo_opts (w_clock demo_world)
      (w_clock (demo_after ok_exec DefaultIdempotencyConfig))"
    by (simp add: expiry_of_def effectiveTTL_def demo_opts_def demo_world_def
        DefaultIdempotencyConfig_def duration_units)
  show ?thesis
    using idem_first_then_replay [OF demo_posed demo_table demo_returns(1) _ _ _ _ _ demo_run,
        where raw = "''done''" and body = "''done''" and d' = "''done''" and ?ex2.0 = bad_exec
          and ?w2.0 = "(demo_after ok_exec DefaultIdempotencyConfig)\<lparr>w_clock := 2000\<rparr>"] e
    by (simp add: demo_idem_env_def demo_trim DefaultIdempotencyConfig_def)
qed

definition tiny_config :: IdempotencyConfig where
  "tiny_config = DefaultIdempotencyConfig\<lparr>MaxStoredResponseLen := 2\<rparr>"

lemma idem_truncated_never_replayed_witness:
  "fst (demo_exec ok_exec tiny_config ((demo_after ok_exec tiny_config)\<lparr>w_clock := 2000\<rparr>)) =
     Inl ErrIdempotencyStoreUnavail"
proof -
  have e: "2000 < expiry_of tiny_config demo_opts (w_clock demo_world)
      (w_clock (demo_after ok_exec tiny_config))"
    by (simp add: expiry_of_def effectiveTTL_def demo_opts_def demo_world_def tiny_config_def
        DefaultIdempotencyConfig_def duration_units)
  show ?thesis
    using idem_truncated_never_replayed [OF demo_posed demo_table demo_returns(1) _ _ _ _ demo_run,
        where raw = "''done''" and ?ex2.0 = ok_exec
          and ?w2.0 = "(demo_after ok_exec tiny_config)\<lparr>w_clock := 2000\<rparr>"] e
    by (simp add: demo_idem_env_def tiny_config_def truncation_mark_def)
qed

definition busy_row :: IdempotencyRecord where
  "busy_row = \<lparr>ir_ID = 1, ir_Scope = ''pay'', ir_IdempotencyKeyHash = ''k1'',
     ir_RequestFingerprint = demo_fp, ir_Status = IdempotencyStatusProcessing,
     ir_ResponseStatus = None, ir_ResponseBody = None, ir_ErrorReason = None,
     ir_LockedUntil = Some 5000, ir_ExpiresAt = 9000, ir_CreatedAt = 0, ir_UpdatedAt = 0\<rparr>"

lemma idem_existing_record_decides_witness:
  "\<exists>n. fst (demo_exec ok_exec DefaultIdempotencyConfig
     (demo_world\<lparr>w_table := \<lparr>t_rows = [busy_row], t_next = 2\<rparr>\<rparr>)) =
     Inl (ErrIdempotencyInProgress n)"
proof -
  let ?w = "demo_world\<lparr>w_table := \<lparr>t_rows = [busy_row], t_next = 2\<rparr>\<rparr>"
  have g: "sql_GetByScopeAndKeyHash (opt_Scope demo_opts) (HashIdempotencyKey demo_idem_env ''k1'')
      (w_table ?w) = Some busy_row"
    by (simp add: sql_GetByScopeAndKeyHash_def busy_row_def same_key_def demo_opts_def
        HashIdempotencyKey_def demo_idem_env_def)
  from idem_existing_record_decides [OF demo_posed g _ surjective_pairing]
  show ?thesis by (auto simp: busy_row_def demo_world_def)
qed

lemma idem_failure_then_retry_witness:
  "fst (demo_exec bad_exec DefaultIdempotencyConfig demo_world) = Inl (ErrExecutor ''boom'') \<and>
   fst (demo_exec ok_exec DefaultIdempotencyConfig
     ((demo_after bad_exec DefaultIdempotencyConfig)\<lparr>w_clock :=
        w_clock (demo_after bad_exec DefaultIdempotencyConfig) + 6 * second\<rparr>)) =
     Inr (''done'', False)"
proof -
  let ?w2 = "(demo_after bad_exec DefaultIdempotencyConfig)\<lparr>w_clock :=
      w_clock (demo_after bad_exec DefaultIdempotencyConfig) + 6 * second\<rparr>"
  have c: "w_clock (demo_after bad_exec DefaultIdempotencyConfig) = 1000"
    using demo_posed by (simp add: demo_after_def drive_Execute claimOrResolve_def
        sql_CreateProcessing_def executeClaimed_def finishExecution_def finishFailed_def
        requestContext_def demo_world_def demo_opts_def Let_def)
  have e: "w_clock ?w2 < expiry_of DefaultIdempotencyConfig demo_opts (w_clock demo_world)
      (w_clock (demo_after bad_exec DefaultIdempotencyConfig))"
    unfolding expiry_of_def effectiveTTL_def using c
    by (simp add: demo_opts_def demo_world_def duration_units)
       (simp add: DefaultIdempotencyConfig_def duration_units)
  have m: "marshalStoredResponse demo_idem_env DefaultIdempotencyConfig ''done'' = Some ''done''"
    by (simp add: marshalStoredResponse_def demo_idem_env_def DefaultIdempotencyConfig_def)
  from idem_failure_then_retry [OF demo_posed demo_table demo_returns(2) demo_run _ e demo_returns(1) m]
  show ?thesis by (simp add: DefaultIdempotencyConfig_def duration_units)
qed

lemma idem_expired_reclaim_runs_twice_witness:
  "\<exists>w q w1 w2. drive ok_exec (Execute demo_idem_env DefaultIdempotencyConfig False False demo_opts) w
       = (Inr (''done'', False), w1) \<and>
     drive ok_exec (resolveExisting demo_idem_env DefaultIdempotencyConfig
       (requestContext DefaultIdempotencyConfig demo_opts ''k1'' demo_fp (w_clock w)) q) w1
       = (Inr (''done'', False), w2) \<and> w_runs w = 0 \<and> w_runs w2 = 2"
proof -
  let ?q = "busy_row\<lparr>ir_Status := IdempotencyStatusSucceeded, ir_LockedUntil := None,
      ir_ExpiresAt := 900\<rparr>"
  let ?w = "demo_world\<lparr>w_table := \<lparr>t_rows = [?q], t_next = 2\<rparr>\<rparr>"
  have g: "sql_GetByScopeAndKeyHash (opt_Scope demo_opts) (HashIdempotencyKey demo_idem_env ''k1'')
      (w_table ?w) = Some ?q" and ok: "table_ok (w_table ?w)"
    by (simp_all add: sql_GetByScopeAndKeyHash_def busy_row_def same_key_def demo_opts_def
        HashIdempotencyKey_def demo_idem_env_def table_ok_def)
  have m: "marshalStoredResponse demo_idem_env DefaultIdempotencyConfig ''done'' = Some ''done''"
    by (simp add: marshalStoredResponse_def demo_idem_env_def DefaultIdempotencyConfig_def)
  have h: "HashIdempotencyKey demo_idem_env ''k1'' = ''k1''" "w_runs ?w = 0"
    by (simp_all add: HashIdempotencyKey_def demo_idem_env_def demo_world_def)
  from idem_expired_reclaim_runs_twice [OF demo_posed ok g _ _ _ _ _ demo_returns(1) m refl]
  have "\<exists>w1 w2. drive ok_exec (Execute demo_idem_env DefaultIdempotencyConfig False False demo_opts) ?w
       = (Inr (''done'', False), w1) \<and>
     drive ok_exec (resolveExisting demo_idem_env DefaultIdempotencyConfig
       (requestContext DefaultIdempotencyConfig demo_opts ''k1'' demo_fp (w_clock ?w)) ?q) w1
       = (Inr (''done'', False), w2) \<and> w_runs w2 = Suc (Suc (w_runs ?w))"
    unfolding h by (simp add: busy_row_def demo_world_def) metis
  then show ?thesis using h(2) by (metis Suc_1 One_nat_def)
qed

lemma truncateUTF8_longest_valid_prefix_witness:
  "\<exists>m. int m \<le> 2 \<and> truncateUTF8 ''done'' 2 = take m ''done''"
  using truncateUTF8_longest_valid_prefix [of 2 "''done''"] by auto

lemma NormalizeIdempotencyKey_canonical_witness:
  "NormalizeIdempotencyKey ''k1'' = (Inr ''k1'' :: unit idem_error + string)"
proof -
  have "NormalizeIdempotencyKey ''k1'' = (Inr ''k1'' :: unit idem_error + string)"
    by (simp add: NormalizeIdempotencyKey_def demo_trim key_char_ok_def)
  from NormalizeIdempotencyKey_canonical [OF this] show ?thesis by simp
qed

end
