(* ===== verification/IdempotencyConcurrency.thy ===== *)
theory IdempotencyConcurrency
  imports Idempotency
begin

text \<open>
  Many requests at once. The system is the clock, the table and the requests that have
  arrived, each a program in progress; a step performs one effect of one request, a renewal
  of a lease, a deletion of expired rows, an arrival, or lets time pass. A repository call
  may fail, before it took effect or after (a reply lost). \<open>s_holds\<close> is a ghost: the row a
  request has claimed, from the claim until its program has returned.

  \<open>rq\<close> gives each request identity its options; \<open>timely\<close> runs are those in which no lease
  or expiry of a held row has passed, which is what the processing timeout is for.
\<close>

record ('d, 'e) active =
  a_prog :: "('d, 'e) prog"
  a_renewal :: "renewal option"

record ('t, 'd, 'e) system =
  s_clock :: go_time
  s_table :: idem_table
  s_active :: "'t \<rightharpoonup> ('d, 'e) active"
  s_holds :: "'t \<rightharpoonup> int"

definition request_key ::
  "('p, 'd, 'e) idem_env \<Rightarrow> 'p IdempotencyExecuteOptions \<Rightarrow> string \<times> string" where
  "request_key E opts =
     (opt_Scope opts,
      HashIdempotencyKey E (case (NormalizeIdempotencyKey (opt_IdempotencyKey opts)
          :: 'e idem_error + string) of Inl _ \<Rightarrow> [] | Inr key \<Rightarrow> key))"

definition keyed :: "('p, 'd, 'e) idem_env \<Rightarrow> 'p IdempotencyExecuteOptions \<Rightarrow> bool" where
  "keyed E opts \<longleftrightarrow>
     (case (NormalizeIdempotencyKey (opt_IdempotencyKey opts) :: 'e idem_error + string) of
        Inl _ \<Rightarrow> True | Inr key \<Rightarrow> key \<noteq> [])"

fun returned :: "('d, 'e) prog \<Rightarrow> bool" where
  "returned (Ret _) = True"
| "returned _ = False"

text \<open>One tick of the background renewal.\<close>

definition renewal_tick :: "go_time \<Rightarrow> renewal \<Rightarrow> idem_table \<Rightarrow> bool \<times> idem_table" where
  "renewal_tick now rn =
     sql_ExtendProcessingLock now (rn_id rn) (rn_fingerprint rn) (now + rn_lease rn) (now + rn_ttl rn)"

text \<open>The request \<open>t\<close> goes on with \<open>p\<close>; a returned program holds nothing.\<close>

definition continue ::
  "'t \<Rightarrow> ('d, 'e) prog \<Rightarrow> renewal option \<Rightarrow> ('t, 'd, 'e) system \<Rightarrow> ('t, 'd, 'e) system" where
  "continue t p rn S = S\<lparr>s_active := (s_active S)(t \<mapsto> \<lparr>a_prog = p, a_renewal = rn\<rparr>),
     s_holds := (if returned p then (s_holds S)(t := None) else s_holds S)\<rparr>"

definition claim :: "'t \<Rightarrow> int \<Rightarrow> ('t, 'd, 'e) system \<Rightarrow> ('t, 'd, 'e) system" where
  "claim t i S = S\<lparr>s_holds := (s_holds S)(t \<mapsto> i)\<rparr>"

definition start_system :: "go_time \<Rightarrow> ('t, 'd, 'e) system" where
  "start_system now = \<lparr>s_clock = now, s_table = \<lparr>t_rows = [], t_next = 1\<rparr>,
     s_active = Map.empty, s_holds = Map.empty\<rparr>"

inductive sys_step ::
  "('p, 'd, 'e) idem_env \<Rightarrow> IdempotencyConfig \<Rightarrow> ('t \<Rightarrow> 'p IdempotencyExecuteOptions) \<Rightarrow>
     ('t, 'd, 'e) system \<Rightarrow> ('t, 'd, 'e) system \<Rightarrow> bool"
  for E cfg rq where
  tick: "s_clock S \<le> c \<Longrightarrow> sys_step E cfg rq S (S\<lparr>s_clock := c\<rparr>)"
| arrive: "s_active S t = None \<Longrightarrow>
     sys_step E cfg rq S (continue t (Execute E cfg False False (rq t)) None S)"
| cleanup: "now \<le> s_clock S \<Longrightarrow>
     sys_step E cfg rq S (S\<lparr>s_table := snd (sql_DeleteExpired now limit (s_table S))\<rparr>)"
| read_clock: "s_active S t = Some \<lparr>a_prog = ReadClock k, a_renewal = rn\<rparr> \<Longrightarrow>
     sys_step E cfg rq S (continue t (k (s_clock S)) rn S)"
| create_new: "s_active S t = Some \<lparr>a_prog = DoCreate r k, a_renewal = rn\<rparr> \<Longrightarrow>
     sql_CreateProcessing (s_clock S) r (s_table S) = (Some i, T) \<Longrightarrow>
     sys_step E cfg rq S (continue t (k (Inr (Some i))) rn (claim t i (S\<lparr>s_table := T\<rparr>)))"
| create_old: "s_active S t = Some \<lparr>a_prog = DoCreate r k, a_renewal = rn\<rparr> \<Longrightarrow>
     sql_CreateProcessing (s_clock S) r (s_table S) = (None, T) \<Longrightarrow>
     sys_step E cfg rq S (continue t (k (Inr None)) rn S)"
| create_fault: "s_active S t = Some \<lparr>a_prog = DoCreate r k, a_renewal = rn\<rparr> \<Longrightarrow>
     T = s_table S \<or> T = snd (sql_CreateProcessing (s_clock S) r (s_table S)) \<Longrightarrow>
     sys_step E cfg rq S (continue t (k (Inl ())) rn (S\<lparr>s_table := T\<rparr>))"
| get_row: "s_active S t = Some \<lparr>a_prog = DoGet s h k, a_renewal = rn\<rparr> \<Longrightarrow>
     sys_step E cfg rq S (continue t (k (Inr (sql_GetByScopeAndKeyHash s h (s_table S)))) rn S)"
| get_fault: "s_active S t = Some \<lparr>a_prog = DoGet s h k, a_renewal = rn\<rparr> \<Longrightarrow>
     sys_step E cfg rq S (continue t (k (Inl ())) rn S)"
| reclaim_taken: "s_active S t = Some \<lparr>a_prog = DoReclaim i st now l x k, a_renewal = rn\<rparr> \<Longrightarrow>
     sql_TryReclaim (s_clock S) i st now l x (s_table S) = (True, T) \<Longrightarrow>
     sys_step E cfg rq S (continue t (k (Inr True)) rn (claim t i (S\<lparr>s_table := T\<rparr>)))"
| reclaim_refused: "s_active S t = Some \<lparr>a_prog = DoReclaim i st now l x k, a_renewal = rn\<rparr> \<Longrightarrow>
     sql_TryReclaim (s_clock S) i st now l x (s_table S) = (False, T) \<Longrightarrow>
     sys_step E cfg rq S (continue t (k (Inr False)) rn S)"
| reclaim_fault: "s_active S t = Some \<lparr>a_prog = DoReclaim i st now l x k, a_renewal = rn\<rparr> \<Longrightarrow>
     T = s_table S \<or> T = snd (sql_TryReclaim (s_clock S) i st now l x (s_table S)) \<Longrightarrow>
     sys_step E cfg rq S (continue t (k (Inl ())) rn (S\<lparr>s_table := T\<rparr>))"
| run: "s_active S t = Some \<lparr>a_prog = RunExecutor rn k, a_renewal = rn'\<rparr> \<Longrightarrow>
     sys_step E cfg rq S (continue t (k oc) rn S)"
| renew: "s_active S t = Some a \<Longrightarrow> a_renewal a = Some rn \<or> a_prog a = RunExecutor (Some rn) k \<Longrightarrow>
     sys_step E cfg rq S (S\<lparr>s_table := snd (renewal_tick (s_clock S) rn (s_table S))\<rparr>)"
| mark_ok: "s_active S t = Some \<lparr>a_prog = DoMarkSucceeded i c b x k, a_renewal = rn\<rparr> \<Longrightarrow>
     sys_step E cfg rq S (continue t (k (Inr ())) rn
       (S\<lparr>s_table := sql_MarkSucceeded (s_clock S) i c b x (s_table S)\<rparr>))"
| mark_ok_fault: "s_active S t = Some \<lparr>a_prog = DoMarkSucceeded i c b x k, a_renewal = rn\<rparr> \<Longrightarrow>
     T = s_table S \<or> T = sql_MarkSucceeded (s_clock S) i c b x (s_table S) \<Longrightarrow>
     sys_step E cfg rq S (continue t (k (Inl ())) rn (S\<lparr>s_table := T\<rparr>))"
| mark_failed: "s_active S t = Some \<lparr>a_prog = DoMarkFailed i e l x k, a_renewal = rn\<rparr> \<Longrightarrow>
     sys_step E cfg rq S (continue t (k (Inr ())) rn
       (S\<lparr>s_table := sql_MarkFailedRetryable (s_clock S) i e l x (s_table S)\<rparr>))"
| mark_failed_fault: "s_active S t = Some \<lparr>a_prog = DoMarkFailed i e l x k, a_renewal = rn\<rparr> \<Longrightarrow>
     T = s_table S \<or> T = sql_MarkFailedRetryable (s_clock S) i e l x (s_table S) \<Longrightarrow>
     sys_step E cfg rq S (continue t (k (Inl ())) rn (S\<lparr>s_table := T\<rparr>))"

text \<open>No lease and no expiry of a held row has passed.\<close>

definition timely :: "('t, 'd, 'e) system \<Rightarrow> bool" where
  "timely S \<longleftrightarrow> ledger_timely (s_clock S) (table_row (s_table S)) (s_holds S)"

inductive timely_reach ::
  "('p, 'd, 'e) idem_env \<Rightarrow> IdempotencyConfig \<Rightarrow> ('t \<Rightarrow> 'p IdempotencyExecuteOptions) \<Rightarrow>
     ('t, 'd, 'e) system \<Rightarrow> bool"
  for E cfg rq where
  init: "timely_reach E cfg rq (start_system now)"
| step: "timely_reach E cfg rq S \<Longrightarrow> timely S \<Longrightarrow> sys_step E cfg rq S S' \<Longrightarrow>
     timely_reach E cfg rq S'"

section \<open>What a program in progress may still do\<close>

text \<open>
  \<open>sound key keyless b ids held p\<close>: the program \<open>p\<close> of a request for \<open>key\<close>, at a time not
  before \<open>b\<close>, that has seen the row ids \<open>ids\<close> of its key and holds \<open>held\<close>. It claims only
  while it holds nothing, reclaims only rows it has read, at times already past, runs the
  executor of a keyed request only while it holds a row, marks only the row it holds and
  returns right after.
\<close>

primrec sound ::
  "('d, 'e) prog \<Rightarrow> string \<times> string \<Rightarrow> bool \<Rightarrow> go_time \<Rightarrow> int set \<Rightarrow> int option \<Rightarrow> bool" where
  "sound (Ret r) key keyless b ids held = True"
| "sound (ReadClock k) key keyless b ids held = (\<forall>c. sound (k c) key keyless c ids held)"
| "sound (DoCreate r k) key keyless b ids held =
     (held = None \<and> (ir_Scope r, ir_IdempotencyKeyHash r) = key \<and>
      ir_Status r = IdempotencyStatusProcessing \<and>
      (\<forall>i. sound (k (Inr (Some i))) key keyless b ids (Some i)) \<and>
      sound (k (Inr None)) key keyless b ids None \<and> sound (k (Inl ())) key keyless b ids None)"
| "sound (DoGet s h k) key keyless b ids held =
     ((s, h) = key \<and>
      (\<forall>a. sound (k a) key keyless b
        (ids \<union> (case a of Inr (Some r) \<Rightarrow> {ir_ID r} | _ \<Rightarrow> {})) held))"
| "sound (DoReclaim i st now l x k) key keyless b ids held =
     (held = None \<and> i \<in> ids \<and> now \<le> b \<and>
      sound (k (Inr True)) key keyless b ids (Some i) \<and>
      sound (k (Inr False)) key keyless b ids None \<and> sound (k (Inl ())) key keyless b ids None)"
| "sound (RunExecutor rn k) key keyless b ids held =
     ((held \<noteq> None \<or> keyless) \<and> (\<forall>oc. sound (k oc) key keyless b ids held))"
| "sound (DoMarkSucceeded i c bd x k) key keyless b ids held =
     (held = Some i \<and> (\<forall>a. returned (k a)))"
| "sound (DoMarkFailed i e l x k) key keyless b ids held =
     (held = Some i \<and> (\<forall>a. returned (k a)))"

lemma returned_sound: "returned p \<Longrightarrow> sound p key keyless b ids held"
  by (cases p) auto

lemma sound_later:
  "sound p key keyless b ids held \<Longrightarrow> b \<le> b' \<Longrightarrow> sound p key keyless b' ids held"
proof (induction p arbitrary: b b' ids held)
  case (DoReclaim i st now l x k)
  then show ?case by (auto intro: order_trans)
next
  case (DoGet s h k)
  then show ?case by (simp, blast)
next
  case (DoCreate r k)
  then show ?case by (simp, blast)
next
  case (RunExecutor rn k)
  then show ?case by (simp, blast)
qed auto

lemma unavailable_sound [simp]: "sound unavailable key keyless b ids held"
  by (simp add: unavailable_def)

lemma executeClaimed_sound: "sound (executeClaimed E cfg cx i) key keyless b ids (Some i)"
  by (auto simp: executeClaimed_def finishExecution_def finishFailed_def finishSucceeded_def
      unavailable_def Let_def split: sum.split option.split)

lemma resolveStatus_sound:
  assumes "cx_now cx \<le> b" and "ir_ID q \<in> ids"
  shows "sound (resolveStatus E cfg cx q) key keyless b ids None"
  using assms
  by (auto simp: resolveStatus_def executeClaimed_sound split: option.split)

lemma rereadExisting_sound:
  assumes "cx_now cx \<le> b" and "key = (cx_scope cx, cx_keyHash cx)"
  shows "sound (rereadExisting E cfg cx) key keyless b ids None"
  using assms by (auto simp: rereadExisting_def resolveStatus_sound split: sum.split option.split)

lemma resolveExisting_sound:
  assumes "cx_now cx \<le> b" and "key = (cx_scope cx, cx_keyHash cx)" and "ir_ID q \<in> ids"
  shows "sound (resolveExisting E cfg cx q) key keyless b ids None"
  using assms
  by (auto simp: resolveExisting_def resolveStatus_sound rereadExisting_sound executeClaimed_sound)

lemma claimOrResolve_sound:
  assumes "cx_now cx \<le> b" and "key = (cx_scope cx, cx_keyHash cx)"
  shows "sound (claimOrResolve E cfg cx) key keyless b ids None"
  using assms
  by (auto simp: claimOrResolve_def claimRecord_def executeClaimed_sound resolveExisting_sound
      split: sum.split option.split)

lemma Execute_sound:
  fixes E :: "('p, 'd, 'e) idem_env"
  shows "sound (Execute E cfg False False opts) (request_key E opts) (\<not> keyed E opts) b ids None"
proof (cases "NormalizeIdempotencyKey (opt_IdempotencyKey opts) :: 'e idem_error + string")
  case (Inl err)
  then show ?thesis by (simp add: Execute_def)
next
  case (Inr key)
  then show ?thesis
    by (auto simp: Execute_def request_key_def keyed_def requestContext_def Let_def
        intro!: claimOrResolve_sound split: sum.split)
qed

section \<open>How the table moves\<close>

text \<open>Ids are never reused and a row never changes its key.\<close>

definition grows :: "idem_table \<Rightarrow> idem_table \<Rightarrow> bool" where
  "grows T T' \<longleftrightarrow> t_next T \<le> t_next T' \<and>
     (\<forall>i r'. table_row T' i = Some r' \<longrightarrow> i < t_next T \<longrightarrow>
        (\<exists>r. table_row T i = Some r \<and> same_key (ir_Scope r) (ir_IdempotencyKeyHash r) r'))"

definition owned :: "idem_table \<Rightarrow> string \<times> string \<Rightarrow> int \<Rightarrow> bool" where
  "owned T key i \<longleftrightarrow> i < t_next T \<and>
     (\<forall>r. table_row T i = Some r \<longrightarrow> same_key (fst key) (snd key) r)"

lemma owned_grows: "owned T key i \<Longrightarrow> grows T T' \<Longrightarrow> owned T' key i"
  by (fastforce simp: owned_def grows_def same_key_def)

lemma grows_refl [simp]: "grows T T"
  by (auto simp: grows_def same_key_def)

lemma grows_update:
  assumes "\<And>r. ir_ID (f r) = ir_ID r" and "\<And>r. ir_Scope (f r) = ir_Scope r"
    and "\<And>r. ir_IdempotencyKeyHash (f r) = ir_IdempotencyKeyHash r"
  shows "grows T (snd (sql_update P f T))"
proof -
  have "t_next (snd (sql_update P f T)) = t_next T" by (simp add: sql_update_def)
  with assms show ?thesis by (auto simp: grows_def table_row_update same_key_def)
qed

lemma grows_create: "table_ok T \<Longrightarrow> grows T (snd (sql_CreateProcessing now r T))"
  using table_row_fresh [of T] table_row_snoc [of T "r\<lparr>ir_ID := t_next T, ir_ResponseStatus := None,
      ir_ResponseBody := None, ir_ErrorReason := None, ir_CreatedAt := now, ir_UpdatedAt := now\<rparr>"]
  by (auto simp: grows_def sql_CreateProcessing_def same_key_def)

lemma grows_delete:
  assumes "table_ok T"
  shows "grows T (snd (sql_DeleteExpired now limit T))"
proof -
  have "table_row T i = Some r" if "table_row (snd (sql_DeleteExpired now limit T)) i = Some r" for i r
    using that table_ok_delete [OF assms, of now limit]
    by (auto simp: table_row_Some_iff assms sql_DeleteExpired_def Let_def)
  then show ?thesis by (fastforce simp: grows_def same_key_def sql_DeleteExpired_def Let_def)
qed

text \<open>Every statement keeps the table well formed and moves it this way.\<close>

definition moves :: "idem_table \<Rightarrow> idem_table \<Rightarrow> bool" where
  "moves T T' \<longleftrightarrow> (table_ok T \<longrightarrow> table_ok T' \<and> grows T T')"

lemma moves_statements [simp]:
  "moves T T"
  "moves T (snd (sql_CreateProcessing now r T))"
  "moves T (snd (sql_TryReclaim dbnow i st now l x T))"
  "moves T (snd (sql_ExtendProcessingLock dbnow i fp l x T))"
  "moves T (sql_MarkSucceeded dbnow i c b x T)"
  "moves T (sql_MarkFailedRetryable dbnow i e l x T)"
  "moves T (snd (sql_DeleteExpired now limit T))"
  by (auto simp: moves_def table_ok_create grows_create table_ok_delete grows_delete
      sql_TryReclaim_def sql_ExtendProcessingLock_def sql_MarkSucceeded_def
      sql_MarkFailedRetryable_def intro!: table_ok_update grows_update)

section \<open>The system invariant\<close>

definition going_sound ::
  "('p, 'd, 'e) idem_env \<Rightarrow> 'p IdempotencyExecuteOptions \<Rightarrow> go_time \<Rightarrow> idem_table \<Rightarrow> int option \<Rightarrow>
     ('d, 'e) prog \<Rightarrow> bool" where
  "going_sound E opts clock T held p \<longleftrightarrow>
     (\<exists>ids. sound p (request_key E opts) (\<not> keyed E opts) clock ids held \<and>
        (\<forall>i \<in> ids. owned T (request_key E opts) i))"

definition sys_inv ::
  "('p, 'd, 'e) idem_env \<Rightarrow> ('t \<Rightarrow> 'p IdempotencyExecuteOptions) \<Rightarrow> ('t, 'd, 'e) system \<Rightarrow> bool" where
  "sys_inv E rq S \<longleftrightarrow>
     table_ok (s_table S) \<and>
     ledger_ok (table_row (s_table S)) (\<lambda>t. request_key E (rq t)) (s_holds S) \<and>
     (\<forall>t. s_active S t = None \<longrightarrow> s_holds S t = None) \<and>
     (\<forall>t a. s_active S t = Some a \<longrightarrow>
        going_sound E (rq t) (s_clock S) (s_table S) (s_holds S t) (a_prog a))"

lemma going_sound_move:
  assumes "going_sound E opts clock T held p" and "table_ok T" and "moves T T'" and "clock \<le> clock'"
  shows "going_sound E opts clock' T' held p"
  using assms unfolding going_sound_def moves_def by (blast intro: sound_later owned_grows)

lemma going_sound_returned: "returned p \<Longrightarrow> going_sound E opts clock T held p"
  unfolding going_sound_def by (intro exI [of _ "{}"]) (simp add: returned_sound)

lemma ledger_drop: "ledger_ok rows key h \<Longrightarrow> ledger_ok rows key (h(t := None))"
  by (auto simp: ledger_ok_def)

text \<open>One request goes on, after its statement has moved the table.\<close>

lemma sys_inv_continue:
  assumes inv: "sys_inv E rq S" and mv: "moves (s_table S) T"
    and h: "\<And>u. u \<noteq> t \<Longrightarrow> h u = s_holds S u"
    and led: "ledger_ok (table_row T) (\<lambda>t. request_key E (rq t)) (if returned p then h(t := None) else h)"
    and p: "returned p \<or> going_sound E (rq t) (s_clock S) T (h t) p"
  shows "sys_inv E rq (continue t p rn (S\<lparr>s_table := T, s_holds := h\<rparr>))"
proof -
  let ?S = "continue t p rn (S\<lparr>s_table := T, s_holds := h\<rparr>)"
  have f: "s_clock ?S = s_clock S" "s_table ?S = T"
    "s_holds ?S = (if returned p then h(t := None) else h)"
    "s_active ?S = (s_active S)(t \<mapsto> \<lparr>a_prog = p, a_renewal = rn\<rparr>)"
    by (simp_all add: continue_def)
  have ok: "table_ok (s_table S)" using inv by (simp add: sys_inv_def)
  have "going_sound E (rq u) (s_clock S) T (s_holds ?S u) (a_prog a)"
    if a: "s_active ?S u = Some a" for u a
  proof (cases "u = t")
    case True
    with a p show ?thesis by (auto simp: f going_sound_returned)
  next
    case False
    with a inv have "going_sound E (rq u) (s_clock S) (s_table S) (s_holds S u) (a_prog a)"
      by (simp add: f sys_inv_def)
    from going_sound_move [OF this ok mv] False h show ?thesis by (simp add: f)
  qed
  moreover have "s_holds ?S u = None" if "s_active ?S u = None" for u
    using that inv h [of u] by (auto simp: f sys_inv_def split: if_splits)
  ultimately show ?thesis
    using led ok mv by (simp add: sys_inv_def f moves_def)
qed

lemma sys_inv_table:
  assumes inv: "sys_inv E rq S" and mv: "moves (s_table S) T"
    and led: "ledger_ok (table_row T) (\<lambda>t. request_key E (rq t)) (s_holds S)"
  shows "sys_inv E rq (S\<lparr>s_table := T\<rparr>)"
  using assms by (auto simp: sys_inv_def moves_def intro: going_sound_move [rotated 2])

text \<open>What the program of an active request says about its next effect.\<close>

lemma sys_inv_active:
  assumes "sys_inv E rq S" and "s_active S t = Some \<lparr>a_prog = p, a_renewal = rn\<rparr>"
  obtains ids where "sound p (request_key E (rq t)) (\<not> keyed E (rq t)) (s_clock S) ids (s_holds S t)"
    and "\<forall>i \<in> ids. owned (s_table S) (request_key E (rq t)) i"
  using assms by (force simp: sys_inv_def going_sound_def)

text \<open>Effects that leave the table and the claims alone.\<close>

lemma sys_inv_silent:
  assumes "sys_inv E rq S" and "going_sound E (rq t) (s_clock S) (s_table S) (s_holds S t) p"
  shows "sys_inv E rq (continue t p rn S)"
proof -
  have "sys_inv E rq (continue t p rn (S\<lparr>s_table := s_table S, s_holds := s_holds S\<rparr>))"
    using assms by (intro sys_inv_continue) (auto simp: sys_inv_def intro: ledger_drop)
  then show ?thesis by simp
qed

text \<open>A claim, and a claim whose reply was lost.\<close>

lemma sys_inv_claim:
  assumes inv: "sys_inv E rq S" and mv: "moves (s_table S) T"
    and led: "ledger_ok (table_row T) (\<lambda>t. request_key E (rq t)) ((s_holds S)(t \<mapsto> i))"
    and p: "going_sound E (rq t) (s_clock S) T (Some i) p"
  shows "sys_inv E rq (continue t p rn (claim t i (S\<lparr>s_table := T\<rparr>)))"
proof -
  have "sys_inv E rq (continue t p rn (S\<lparr>s_table := T, s_holds := (s_holds S)(t \<mapsto> i)\<rparr>))"
    using led p ledger_drop [OF led, of t]
    by (intro sys_inv_continue [OF inv mv]) auto
  then show ?thesis by (simp add: claim_def)
qed

lemma sys_inv_lost_claim:
  assumes inv: "sys_inv E rq S" and mv: "moves (s_table S) T" and none: "s_holds S t = None"
    and led: "ledger_ok (table_row T) (\<lambda>t. request_key E (rq t)) ((s_holds S)(t \<mapsto> i))
       \<or> ledger_ok (table_row T) (\<lambda>t. request_key E (rq t)) (s_holds S)"
    and p: "going_sound E (rq t) (s_clock S) T None p"
  shows "sys_inv E rq (continue t p rn (S\<lparr>s_table := T\<rparr>))"
proof -
  have "ledger_ok (table_row T) (\<lambda>t. request_key E (rq t)) (s_holds S)"
    using led none by (metis fun_upd_triv fun_upd_upd ledger_drop)
  then have "sys_inv E rq (continue t p rn (S\<lparr>s_table := T, s_holds := s_holds S\<rparr>))"
    using none p by (intro sys_inv_continue [OF inv mv]) (auto intro: ledger_drop)
  then show ?thesis by simp
qed

text \<open>The end of a request that marks the row it holds, or fails to.\<close>

lemma sys_inv_release:
  assumes inv: "sys_inv E rq S" and mv: "moves (s_table S) T" and ret: "returned p"
    and led: "ledger_ok (table_row T) (\<lambda>t. request_key E (rq t)) ((s_holds S)(t := None))"
  shows "sys_inv E rq (continue t p rn (S\<lparr>s_table := T\<rparr>))"
proof -
  have "sys_inv E rq (continue t p rn (S\<lparr>s_table := T, s_holds := s_holds S\<rparr>))"
    using led ret by (intro sys_inv_continue [OF inv mv]) auto
  then show ?thesis by simp
qed

lemma start_inv: "sys_inv E rq (start_system now)"
  by (simp add: sys_inv_def start_system_def table_ok_def ledger_ok_def)

lemma sys_invD:
  assumes "sys_inv E rq S"
  shows "table_ok (s_table S)"
    and "ledger_ok (table_row (s_table S)) (\<lambda>t. request_key E (rq t)) (s_holds S)"
  using assms by (simp_all add: sys_inv_def)

section \<open>Every step keeps the invariant\<close>

lemma inv_tick:
  assumes "sys_inv E rq S" and "s_clock S \<le> c"
  shows "sys_inv E rq (S\<lparr>s_clock := c\<rparr>)"
  using assms
  by (auto simp: sys_inv_def
      intro: going_sound_move [OF _ sys_invD(1) [OF assms(1)] moves_statements(1) assms(2)])

lemma inv_arrive:
  assumes "sys_inv E rq S" and "s_active S t = None"
  shows "sys_inv E rq (continue t (Execute E cfg False False (rq t)) None S)"
proof -
  have "going_sound E (rq t) (s_clock S) (s_table S) None (Execute E cfg False False (rq t))"
    unfolding going_sound_def by (intro exI [of _ "{}"]) (simp add: Execute_sound)
  moreover have "s_holds S t = None" using assms by (simp add: sys_inv_def)
  ultimately show ?thesis using assms by (simp add: sys_inv_silent)
qed

lemma inv_cleanup:
  assumes "sys_inv E rq S" and "timely S" and "now \<le> s_clock S"
  shows "sys_inv E rq (S\<lparr>s_table := snd (sql_DeleteExpired now limit (s_table S))\<rparr>)"
  using idem_sql.purge_ledger [OF sys_invD [OF assms(1)] assms(2) [unfolded timely_def] assms(3)]
  by (intro sys_inv_table [OF assms(1)]) simp_all

lemma inv_renew:
  assumes "sys_inv E rq S"
  shows "sys_inv E rq (S\<lparr>s_table := snd (renewal_tick now rn (s_table S))\<rparr>)"
  unfolding renewal_tick_def using idem_sql.renew_ledger [OF sys_invD [OF assms] surjective_pairing]
  by (intro sys_inv_table [OF assms]) simp_all

text \<open>The proofs for the single effects all start from what \<open>sound\<close> says of the program.\<close>

abbreviation now_sound where
  "now_sound E rq S t ids p \<equiv>
     sound p (request_key E (rq t)) (\<not> keyed E (rq t)) (s_clock S) ids (s_holds S t)"

abbreviation all_owned where
  "all_owned E rq S t ids \<equiv> \<forall>i \<in> ids. owned (s_table S) (request_key E (rq t)) i"

lemma going_soundI:
  "sound p (request_key E opts) (\<not> keyed E opts) clock ids held \<Longrightarrow>
     \<forall>i \<in> ids. owned T (request_key E opts) i \<Longrightarrow> going_sound E opts clock T held p"
  unfolding going_sound_def by blast

lemma inv_read_clock:
  assumes "sys_inv E rq S" and "s_active S t = Some \<lparr>a_prog = ReadClock k, a_renewal = rn\<rparr>"
  shows "sys_inv E rq (continue t (k (s_clock S)) rn S)"
proof -
  from assms obtain ids where s: "now_sound E rq S t ids (ReadClock k)"
    and o: "all_owned E rq S t ids" by (rule sys_inv_active)
  from s have "now_sound E rq S t ids (k (s_clock S))" by simp
  from sys_inv_silent [OF assms(1) going_soundI [OF this o]] show ?thesis .
qed

lemma inv_run:
  assumes "sys_inv E rq S" and "s_active S t = Some \<lparr>a_prog = RunExecutor rn k, a_renewal = rn'\<rparr>"
  shows "sys_inv E rq (continue t (k oc) rn S)"
proof -
  from assms obtain ids where s: "now_sound E rq S t ids (RunExecutor rn k)"
    and o: "all_owned E rq S t ids" by (rule sys_inv_active)
  from s have "now_sound E rq S t ids (k oc)" by simp
  from sys_inv_silent [OF assms(1) going_soundI [OF this o]] show ?thesis .
qed

lemma inv_get:
  assumes "sys_inv E rq S" and "s_active S t = Some \<lparr>a_prog = DoGet s h k, a_renewal = rn\<rparr>"
    and "a = Inl () \<or> a = Inr (sql_GetByScopeAndKeyHash s h (s_table S))"
  shows "sys_inv E rq (continue t (k a) rn S)"
proof -
  let ?new = "case a of Inr (Some r) \<Rightarrow> {ir_ID r} | _ \<Rightarrow> {}"
  from assms(1,2) obtain ids where so: "now_sound E rq S t ids (DoGet s h k)"
    and o: "all_owned E rq S t ids" by (rule sys_inv_active)
  then have k: "request_key E (rq t) = (s, h)" by simp
  note ok = sys_invD(1) [OF assms(1)]
  have "owned (s_table S) (s, h) (ir_ID r)" if "sql_GetByScopeAndKeyHash s h (s_table S) = Some r" for r
  proof -
    from that have r: "r \<in> set (t_rows (s_table S))" "same_key s h r"
      by (simp_all add: sql_get_Some_iff [OF ok])
    with table_ok_id_unique [OF ok] ok show ?thesis
      by (auto simp: owned_def table_row_Some_iff [OF ok]) (auto simp: table_ok_def)
  qed
  with o k assms(3) have "all_owned E rq S t (ids \<union> ?new)"
    by (cases "sql_GetByScopeAndKeyHash s h (s_table S)") auto
  moreover from so have "now_sound E rq S t (ids \<union> ?new) (k a)" by simp
  ultimately show ?thesis by (intro sys_inv_silent [OF assms(1)] going_soundI)
qed

lemma inv_create_new:
  assumes inv: "sys_inv E rq S" and "s_active S t = Some \<lparr>a_prog = DoCreate r k, a_renewal = rn\<rparr>"
    and c: "sql_CreateProcessing (s_clock S) r (s_table S) = (Some i, T)"
  shows "sys_inv E rq (continue t (k (Inr (Some i))) rn (claim t i (S\<lparr>s_table := T\<rparr>)))"
proof -
  from assms(1,2) obtain ids where s: "now_sound E rq S t ids (DoCreate r k)"
    and o: "all_owned E rq S t ids" by (rule sys_inv_active)
  note ok = sys_invD(1) [OF inv] and led = sys_invD(2) [OF inv]
  have mv: "moves (s_table S) T" using c by (metis moves_statements(2) snd_conv)
  from s have "sound (k (Inr (Some i))) (request_key E (rq t)) (\<not> keyed E (rq t)) (s_clock S) ids (Some i)"
    by simp
  from going_sound_move [OF going_soundI [OF this o] ok mv order_refl] show ?thesis
    using idem_sql.claim_new [OF ok led c, of t] s by (intro sys_inv_claim [OF inv mv]) simp_all
qed

lemma inv_create_old:
  assumes "sys_inv E rq S" and "s_active S t = Some \<lparr>a_prog = DoCreate r k, a_renewal = rn\<rparr>"
  shows "sys_inv E rq (continue t (k (Inr None)) rn S)"
proof -
  from assms obtain ids where s: "now_sound E rq S t ids (DoCreate r k)"
    and o: "all_owned E rq S t ids" by (rule sys_inv_active)
  from s have "now_sound E rq S t ids (k (Inr None))" by simp
  from sys_inv_silent [OF assms(1) going_soundI [OF this o]] show ?thesis .
qed

lemma inv_create_fault:
  assumes inv: "sys_inv E rq S" and "s_active S t = Some \<lparr>a_prog = DoCreate r k, a_renewal = rn\<rparr>"
    and T: "T = s_table S \<or> T = snd (sql_CreateProcessing (s_clock S) r (s_table S))"
  shows "sys_inv E rq (continue t (k (Inl ())) rn (S\<lparr>s_table := T\<rparr>))"
proof -
  from assms(1,2) obtain ids where s: "now_sound E rq S t ids (DoCreate r k)"
    and o: "all_owned E rq S t ids" by (rule sys_inv_active)
  note ok = sys_invD(1) [OF inv] and led = sys_invD(2) [OF inv]
  have mv: "moves (s_table S) T" using T by auto
  from s have none: "s_holds S t = None"
    and k: "sound (k (Inl ())) (request_key E (rq t)) (\<not> keyed E (rq t)) (s_clock S) ids None"
    by simp_all
  note p = going_sound_move [OF going_soundI [OF k o] ok mv order_refl]
  obtain oi T' where c: "sql_CreateProcessing (s_clock S) r (s_table S) = (oi, T')" by fastforce
  have "\<exists>i. ledger_ok (table_row T) (\<lambda>t. request_key E (rq t)) ((s_holds S)(t \<mapsto> i)) \<or>
      ledger_ok (table_row T) (\<lambda>t. request_key E (rq t)) (s_holds S)"
  proof (cases oi)
    case None
    with T c idem_sql.create_old have "T = s_table S" by auto
    with led show ?thesis by simp
  next
    case (Some i)
    from idem_sql.claim_new [OF ok led c [unfolded Some], of t] s T c led show ?thesis by auto
  qed
  then show ?thesis using sys_inv_lost_claim [OF inv mv none _ p] by blast
qed

lemma reclaim_ledger:
  assumes inv: "sys_inv E rq S" and tm: "timely S" and "now \<le> s_clock S"
    and own: "owned (s_table S) (request_key E (rq t)) i"
    and c: "sql_TryReclaim dbnow i st now l x (s_table S) = (True, T)"
  shows "ledger_ok (table_row T) (\<lambda>t. request_key E (rq t)) ((s_holds S)(t \<mapsto> i))"
  using own
  by (intro idem_sql.claim_old [OF sys_invD [OF inv] tm [unfolded timely_def] c assms(3)])
     (simp add: owned_def)

lemma inv_reclaim_taken:
  assumes inv: "sys_inv E rq S" and tm: "timely S"
    and "s_active S t = Some \<lparr>a_prog = DoReclaim i st now l x k, a_renewal = rn\<rparr>"
    and c: "sql_TryReclaim (s_clock S) i st now l x (s_table S) = (True, T)"
  shows "sys_inv E rq (continue t (k (Inr True)) rn (claim t i (S\<lparr>s_table := T\<rparr>)))"
proof -
  from assms(1,3) obtain ids where s: "now_sound E rq S t ids (DoReclaim i st now l x k)"
    and o: "all_owned E rq S t ids" by (rule sys_inv_active)
  have mv: "moves (s_table S) T" using c by (metis moves_statements(3) snd_conv)
  from s have "sound (k (Inr True)) (request_key E (rq t)) (\<not> keyed E (rq t)) (s_clock S) ids (Some i)"
    by simp
  from going_sound_move [OF going_soundI [OF this o] sys_invD(1) [OF inv] mv order_refl] show ?thesis
    using reclaim_ledger [OF inv tm _ _ c, of t] s o by (intro sys_inv_claim [OF inv mv]) simp_all
qed

lemma inv_reclaim_refused:
  assumes "sys_inv E rq S"
    and "s_active S t = Some \<lparr>a_prog = DoReclaim i st now l x k, a_renewal = rn\<rparr>"
  shows "sys_inv E rq (continue t (k (Inr False)) rn S)"
proof -
  from assms obtain ids where s: "now_sound E rq S t ids (DoReclaim i st now l x k)"
    and o: "all_owned E rq S t ids" by (rule sys_inv_active)
  from s have "now_sound E rq S t ids (k (Inr False))" by simp
  from sys_inv_silent [OF assms(1) going_soundI [OF this o]] show ?thesis .
qed

lemma inv_reclaim_fault:
  assumes inv: "sys_inv E rq S" and tm: "timely S"
    and "s_active S t = Some \<lparr>a_prog = DoReclaim i st now l x k, a_renewal = rn\<rparr>"
    and T: "T = s_table S \<or> T = snd (sql_TryReclaim (s_clock S) i st now l x (s_table S))"
  shows "sys_inv E rq (continue t (k (Inl ())) rn (S\<lparr>s_table := T\<rparr>))"
proof -
  from assms(1,3) obtain ids where s: "now_sound E rq S t ids (DoReclaim i st now l x k)"
    and o: "all_owned E rq S t ids" by (rule sys_inv_active)
  note ok = sys_invD(1) [OF inv] and led = sys_invD(2) [OF inv]
  have mv: "moves (s_table S) T" using T by auto
  from s have none: "s_holds S t = None" and own: "owned (s_table S) (request_key E (rq t)) i"
    and nw: "now \<le> s_clock S"
    and k: "sound (k (Inl ())) (request_key E (rq t)) (\<not> keyed E (rq t)) (s_clock S) ids None"
    using o by simp_all
  note p = going_sound_move [OF going_soundI [OF k o] ok mv order_refl]
  obtain b T' where c: "sql_TryReclaim (s_clock S) i st now l x (s_table S) = (b, T')" by fastforce
  have "ledger_ok (table_row T) (\<lambda>t. request_key E (rq t)) ((s_holds S)(t \<mapsto> i)) \<or>
      ledger_ok (table_row T) (\<lambda>t. request_key E (rq t)) (s_holds S)"
  proof (cases b)
    case True
    with reclaim_ledger [OF inv tm nw own, of "s_clock S" st l x T'] T c led show ?thesis by auto
  next
    case False
    with c have "sql_TryReclaim (s_clock S) i st now l x (s_table S) = (False, T')" by simp
    from idem_sql.reclaim_refused [OF ok this] T c led show ?thesis by auto
  qed
  then show ?thesis using sys_inv_lost_claim [OF inv mv none _ p] by blast
qed

lemma inv_mark_succeeded:
  assumes inv: "sys_inv E rq S"
    and "s_active S t = Some \<lparr>a_prog = DoMarkSucceeded i c b x k, a_renewal = rn\<rparr>"
    and T: "T = s_table S \<or> T = sql_MarkSucceeded (s_clock S) i c b x (s_table S)"
  shows "sys_inv E rq (continue t (k a) rn (S\<lparr>s_table := T\<rparr>))"
proof -
  from assms(1,2) obtain ids where s: "now_sound E rq S t ids (DoMarkSucceeded i c b x k)"
    and o: "all_owned E rq S t ids" by (rule sys_inv_active)
  have "ledger_ok (table_row T) (\<lambda>t. request_key E (rq t)) ((s_holds S)(t := None))"
    using T s idem_sql.release_succeed [OF sys_invD [OF inv], of t i] ledger_drop [OF sys_invD(2) [OF inv]]
    by auto
  with s T show ?thesis by (intro sys_inv_release [OF inv]) auto
qed

lemma inv_mark_failed:
  assumes inv: "sys_inv E rq S"
    and "s_active S t = Some \<lparr>a_prog = DoMarkFailed i e l x k, a_renewal = rn\<rparr>"
    and T: "T = s_table S \<or> T = sql_MarkFailedRetryable (s_clock S) i e l x (s_table S)"
  shows "sys_inv E rq (continue t (k a) rn (S\<lparr>s_table := T\<rparr>))"
proof -
  from assms(1,2) obtain ids where s: "now_sound E rq S t ids (DoMarkFailed i e l x k)"
    and o: "all_owned E rq S t ids" by (rule sys_inv_active)
  have "ledger_ok (table_row T) (\<lambda>t. request_key E (rq t)) ((s_holds S)(t := None))"
    using T s idem_sql.release_fail [OF sys_invD [OF inv], of t i] ledger_drop [OF sys_invD(2) [OF inv]]
    by auto
  with s T show ?thesis by (intro sys_inv_release [OF inv]) auto
qed

lemma step_inv:
  assumes "sys_step E cfg rq S S'" and inv: "sys_inv E rq S" and tm: "timely S"
  shows "sys_inv E rq S'"
  using assms(1)
  by cases (auto intro: inv_tick [OF inv] inv_arrive [OF inv] inv_cleanup [OF inv tm] inv_renew [OF inv]
      inv_read_clock [OF inv] inv_run [OF inv] inv_get [OF inv] inv_create_new [OF inv]
      inv_create_old [OF inv] inv_create_fault [OF inv] inv_reclaim_taken [OF inv tm]
      inv_reclaim_refused [OF inv] inv_reclaim_fault [OF inv tm] inv_mark_succeeded [OF inv]
      inv_mark_failed [OF inv])

lemma timely_inv: "timely_reach E cfg rq S \<Longrightarrow> sys_inv E rq S"
  by (induction rule: timely_reach.induct) (auto intro: start_inv step_inv)

section \<open>Mutual exclusion\<close>

text \<open>
  C1: Of all the requests that carry the same idempotency key in the same scope, at most one
  is running the operation at any moment, however requests, database failures, lost replies,
  lease renewals and the cleanup of expired records interleave, as long as no operation
  outlives the lease and the lifetime of its record.
\<close>

theorem idem_mutual_exclusion:
  assumes "timely_reach E cfg rq S"
    and "s_active S t = Some \<lparr>a_prog = RunExecutor rn k, a_renewal = r\<rparr>" and "keyed E (rq t)"
    and "s_active S u = Some \<lparr>a_prog = RunExecutor rn' k', a_renewal = r'\<rparr>" and "keyed E (rq u)"
    and "request_key E (rq t) = request_key E (rq u)"
  shows "t = u"
proof -
  note inv = timely_inv [OF assms(1)]
  from inv assms(2) obtain ids where t: "now_sound E rq S t ids (RunExecutor rn k)"
    by (rule sys_inv_active)
  from inv assms(4) obtain ids' where u: "now_sound E rq S u ids' (RunExecutor rn' k')"
    by (rule sys_inv_active)
  from t u assms(3,5) obtain i j where "s_holds S t = Some i" "s_holds S u = Some j" by auto
  from idem_sql.holders_exclusive [OF sys_invD [OF inv] this assms(6)] show ?thesis .
qed

section \<open>Witness\<close>

text \<open>Two requests with the same key; the first has arrived, claimed and started.\<close>

definition demo_rq :: "bool \<Rightarrow> string IdempotencyExecuteOptions" where "demo_rq b = demo_opts"

definition demo_cx :: exec_ctx where
  "demo_cx = requestContext DefaultIdempotencyConfig demo_opts ''k1'' demo_fp 1000"

lemma claimOrResolve_shape:
  "\<exists>k. claimOrResolve E cfg cx = DoCreate (claimRecord cx) k \<and>
     (\<forall>i. k (Inr (Some i)) = executeClaimed E cfg cx i)"
  by (simp add: claimOrResolve_def)

lemma demo_running:
  "\<exists>S k. timely_reach demo_idem_env DefaultIdempotencyConfig demo_rq S \<and>
     s_active S True = Some \<lparr>a_prog = RunExecutor None k, a_renewal = None\<rparr>"
proof -
  let ?R = "timely_reach demo_idem_env DefaultIdempotencyConfig demo_rq"
  let ?st = "sys_step demo_idem_env DefaultIdempotencyConfig demo_rq"
  let ?x = "Execute demo_idem_env DefaultIdempotencyConfig False False demo_opts"
  let ?c = "\<lambda>now. claimOrResolve demo_idem_env DefaultIdempotencyConfig
     (requestContext DefaultIdempotencyConfig demo_opts ''k1'' demo_fp now)"
  have x: "?x = ReadClock ?c"
    using demo_posed by (simp add: Execute_def well_posed_def HashIdempotencyKey_def)
       (simp add: demo_idem_env_def)
  let ?S0 = "start_system 1000 :: (bool, string, string) system"
  let ?S1 = "continue True ?x None ?S0"
  let ?S2 = "continue True (?c 1000) None ?S1"
  have "s_active ?S0 True = None" by (simp add: start_system_def)
  from sys_step.arrive [OF this] have st: "?st ?S0 ?S1" by (metis demo_rq_def)
  have "timely ?S0" by (simp add: timely_def ledger_timely_def start_system_def)
  from timely_reach.step [OF timely_reach.init this st] have r1: "?R ?S1" .
  have a1: "s_active ?S1 True = Some \<lparr>a_prog = ReadClock ?c, a_renewal = None\<rparr>" "s_clock ?S1 = 1000"
    "timely ?S1" by (simp_all add: continue_def start_system_def x timely_def ledger_timely_def)
  have r2: "?R ?S2"
    using timely_reach.step [OF r1 a1(3) sys_step.read_clock [OF a1(1)]] a1(2) by simp
  obtain k where k: "?c 1000 = DoCreate (claimRecord demo_cx) k"
    "k (Inr (Some 1)) = executeClaimed demo_idem_env DefaultIdempotencyConfig demo_cx 1"
    using claimOrResolve_shape [of demo_idem_env DefaultIdempotencyConfig demo_cx]
    by (auto simp: demo_cx_def)
  have a2: "s_active ?S2 True = Some \<lparr>a_prog = DoCreate (claimRecord demo_cx) k, a_renewal = None\<rparr>"
    "timely ?S2" "s_table ?S2 = \<lparr>t_rows = [], t_next = 1\<rparr>"
    by (simp_all add: continue_def start_system_def k(1) timely_def ledger_timely_def)
  obtain T where c: "sql_CreateProcessing (s_clock ?S2) (claimRecord demo_cx) (s_table ?S2) = (Some 1, T)"
    by (simp add: sql_CreateProcessing_def a2(3))
  let ?S3 = "continue True (k (Inr (Some 1))) None (claim True 1 (?S2\<lparr>s_table := T\<rparr>))"
  have "?R ?S3" using timely_reach.step [OF r2 a2(2) sys_step.create_new [OF a2(1) c]] .
  moreover have "\<exists>k'. executeClaimed demo_idem_env DefaultIdempotencyConfig demo_cx 1 = RunExecutor None k'"
    by (simp add: executeClaimed_def renewProcessingLease_def demo_cx_def requestContext_def
        demo_opts_def Let_def)
  ultimately show ?thesis by (auto simp: continue_def k(2))
qed

lemma idem_mutual_exclusion_witness:
  "\<exists>S. timely_reach demo_idem_env DefaultIdempotencyConfig demo_rq S \<and>
     (\<exists>k. s_active S True = Some \<lparr>a_prog = RunExecutor None k, a_renewal = None\<rparr>) \<and>
     (\<forall>rn k r. s_active S False \<noteq> Some \<lparr>a_prog = RunExecutor rn k, a_renewal = r\<rparr>)"
proof -
  from demo_running obtain S k where S: "timely_reach demo_idem_env DefaultIdempotencyConfig demo_rq S"
    "s_active S True = Some \<lparr>a_prog = RunExecutor None k, a_renewal = None\<rparr>" by blast
  have kd: "keyed demo_idem_env (demo_rq b)" for b
    using demo_posed by (simp add: keyed_def demo_rq_def well_posed_def)
  have rk: "request_key demo_idem_env (demo_rq True) = request_key demo_idem_env (demo_rq False)"
    by (simp add: demo_rq_def)
  have "s_active S False \<noteq> Some \<lparr>a_prog = RunExecutor rn k', a_renewal = r\<rparr>" for rn k' r
  proof
    assume f: "s_active S False = Some \<lparr>a_prog = RunExecutor rn k', a_renewal = r\<rparr>"
    from idem_mutual_exclusion [OF S kd f kd rk] show False by simp
  qed
  with S show ?thesis by blast
qed

end
