(* ===== verification/ProxyFallback.thy ===== *)
theory ProxyFallback
  imports Prelude
begin

text \<open>
  \<^verbatim>\<open>backend/internal/service/proxy_fallback.go\<close> and \<^verbatim>\<open>proxy.go\<close>: where the accounts of an
  expired proxy are moved. The snapshot of all proxies is the association list of the map
  \<^verbatim>\<open>byID\<close>; the walk along the backup pointers ends because every turn adds one of its keys to
  the visited set.
\<close>

definition FallbackModeNone :: string where "FallbackModeNone = ''none''"
definition FallbackModeProxy :: string where "FallbackModeProxy = ''proxy''"
definition FallbackModeDirect :: string where "FallbackModeDirect = ''direct''"
definition StatusActive :: string where "StatusActive = ''active''"

lemma fallback_modes [simp]:
  "FallbackModeProxy \<noteq> FallbackModeDirect" "FallbackModeDirect \<noteq> FallbackModeProxy"
  by (simp_all add: FallbackModeProxy_def FallbackModeDirect_def)

record Proxy =
  px_ID :: int
  px_Name :: string
  px_Protocol :: string
  px_Host :: string
  px_Port :: int
  px_Username :: string
  px_Password :: string
  px_Status :: string
  px_CreatedAt :: go_time
  px_UpdatedAt :: go_time
  px_ExpiresAt :: "go_time option"
  px_FallbackMode :: string
  px_BackupProxyID :: "int option"
  px_ExpiryWarnDays :: int

definition IsActive :: "Proxy \<Rightarrow> bool" where "IsActive p \<longleftrightarrow> px_Status p = StatusActive"

definition IsExpired :: "Proxy \<Rightarrow> go_time \<Rightarrow> bool" where
  "IsExpired p now \<longleftrightarrow> (case px_ExpiresAt p of None \<Rightarrow> False | Some e \<Rightarrow> e \<le> now)"

type_synonym proxies = "(int \<times> Proxy) list"

text \<open>A result is \<^verbatim>\<open>(targetID, change)\<close>.\<close>

function fallbackWalk :: "proxies \<Rightarrow> go_time \<Rightarrow> int set \<Rightarrow> int option \<Rightarrow> int option \<times> bool" where
  "fallbackWalk byID now visited None = (None, False)"
| "fallbackWalk byID now visited (Some cur) =
     (if cur \<in> visited then (None, False)
      else case map_of byID cur of
        None \<Rightarrow> (None, False)
      | Some p \<Rightarrow>
          (if IsActive p \<and> \<not> IsExpired p now then (Some (px_ID p), True)
           else if px_FallbackMode p = FallbackModeDirect then (None, True)
           else if px_FallbackMode p = FallbackModeProxy
           then fallbackWalk byID now (insert cur visited) (px_BackupProxyID p)
           else (None, False)))"
  by pat_completeness auto
termination
proof (relation "measure (\<lambda>(byID, now, visited, cur). card (fst ` set byID - visited))")
  show "wf (measure (\<lambda>(byID, now, visited, cur). card (fst ` set byID - visited)))" by simp
next
  fix byID :: proxies and now :: go_time and visited cur p
  assume "cur \<notin> visited" "map_of byID cur = Some p"
  then have "cur \<in> fst ` set byID - visited" by (force dest: map_of_SomeD)
  moreover have "fst ` set byID - insert cur visited = fst ` set byID - visited - {cur}" by auto
  ultimately have "card (fst ` set byID - insert cur visited) < card (fst ` set byID - visited)"
    using card_Diff1_less [of "fst ` set byID - visited" cur] by simp
  then show "((byID, now, insert cur visited, px_BackupProxyID p), byID, now, visited, Some cur)
      \<in> measure (\<lambda>(byID, now, visited, cur). card (fst ` set byID - visited))" by simp
qed

definition ResolveProxyFallbackTarget ::
  "Proxy \<Rightarrow> proxies \<Rightarrow> go_time \<Rightarrow> int option \<times> bool" where
  "ResolveProxyFallbackTarget start byID now =
     (if px_FallbackMode start = FallbackModeDirect then (None, True)
      else if px_FallbackMode start = FallbackModeProxy
      then fallbackWalk byID now {px_ID start} (px_BackupProxyID start)
      else (None, False))"

section \<open>The chain of backups\<close>

text \<open>
  What the chain from a proxy leads to, with no bookkeeping: the first usable proxy, or a
  direct connection where the first proxy that ends the chain asks for it. A cycle leads
  nowhere.
\<close>

definition usable :: "Proxy \<Rightarrow> go_time \<Rightarrow> bool" where
  "usable p now \<longleftrightarrow> IsActive p \<and> \<not> IsExpired p now"

inductive leads_to :: "int \<Rightarrow> proxies \<Rightarrow> go_time \<Rightarrow> int \<Rightarrow> int option \<Rightarrow> bool"
  for avoid byID now where
  usable: "i \<noteq> avoid \<Longrightarrow> map_of byID i = Some p \<Longrightarrow> usable p now \<Longrightarrow>
     leads_to avoid byID now i (Some (px_ID p))"
| direct: "i \<noteq> avoid \<Longrightarrow> map_of byID i = Some p \<Longrightarrow> \<not> usable p now \<Longrightarrow>
     px_FallbackMode p = FallbackModeDirect \<Longrightarrow> leads_to avoid byID now i None"
| hop: "i \<noteq> avoid \<Longrightarrow> map_of byID i = Some p \<Longrightarrow> \<not> usable p now \<Longrightarrow>
     px_FallbackMode p = FallbackModeProxy \<Longrightarrow> px_BackupProxyID p = Some j \<Longrightarrow>
     leads_to avoid byID now j r \<Longrightarrow> leads_to avoid byID now i r"

lemma leads_to_iff:
  "leads_to avoid byID now i r \<longleftrightarrow> i \<noteq> avoid \<and>
     (\<exists>p. map_of byID i = Some p \<and>
        (if usable p now then r = Some (px_ID p)
         else if px_FallbackMode p = FallbackModeDirect then r = None
         else px_FallbackMode p = FallbackModeProxy \<and>
           (\<exists>j. px_BackupProxyID p = Some j \<and> leads_to avoid byID now j r)))"
    (is "_ \<longleftrightarrow> ?rhs")
proof
  assume "leads_to avoid byID now i r"
  then show ?rhs by cases simp_all
next
  assume ?rhs
  then obtain p where p: "i \<noteq> avoid" "map_of byID i = Some p" and q:
    "if usable p now then r = Some (px_ID p)
     else if px_FallbackMode p = FallbackModeDirect then r = None
     else px_FallbackMode p = FallbackModeProxy \<and>
       (\<exists>j. px_BackupProxyID p = Some j \<and> leads_to avoid byID now j r)" by blast
  from q p show "leads_to avoid byID now i r"
    by (metis leads_to.intros)
qed

definition hops :: "proxies \<Rightarrow> go_time \<Rightarrow> (int \<times> int) set" where
  "hops byID now = {(i, j). \<exists>p. map_of byID i = Some p \<and> \<not> usable p now \<and>
     px_FallbackMode p = FallbackModeProxy \<and> px_BackupProxyID p = Some j}"

lemma hops_deterministic: "(i, j) \<in> hops byID now \<Longrightarrow> (i, k) \<in> hops byID now \<Longrightarrow> j = k"
  by (auto simp: hops_def)

lemma leads_to_acyclic: "leads_to avoid byID now i r \<Longrightarrow> (i, i) \<notin> (hops byID now)\<^sup>+"
proof (induction rule: leads_to.induct)
  case (usable i p)
  then show ?case by (auto simp: hops_def dest!: tranclD)
next
  case (direct i p)
  then show ?case by (auto simp: hops_def dest!: tranclD)
next
  case (hop i p j r)
  show ?case
  proof
    assume "(i, i) \<in> (hops byID now)\<^sup>+"
    then obtain k where k: "(i, k) \<in> hops byID now" "(k, i) \<in> (hops byID now)\<^sup>*"
      by (blast dest: tranclD)
    from hop have ij: "(i, j) \<in> hops byID now" by (auto simp: hops_def)
    with k(1) have "k = j" by (rule hops_deterministic)
    with k(2) ij have "(j, j) \<in> (hops byID now)\<^sup>+" by (simp add: rtrancl_into_trancl1)
    with hop.IH show False ..
  qed
qed

text \<open>Everything visited leads on to the proxy at hand, or is the start.\<close>

lemma fallbackWalk_spec:
  assumes "\<forall>v \<in> visited. v = start \<or> (v, i) \<in> (hops byID now)\<^sup>+" and "start \<in> visited"
  shows "fallbackWalk byID now visited (Some i) = (r, True) \<longleftrightarrow> leads_to start byID now i r"
  using assms
proof (induction byID now visited "Some i" arbitrary: i rule: fallbackWalk.induct)
  case (2 byID now visited i)
  show ?case
  proof (cases "i \<in> visited")
    case True
    with "2.prems" have "i = start \<or> (i, i) \<in> (hops byID now)\<^sup>+" by blast
    then have "\<not> leads_to start byID now i r"
      using leads_to_acyclic leads_to_iff by metis
    with True show ?thesis by simp
  next
    case new: False
    with "2.prems"(2) have ns: "i \<noteq> start" by auto
    show ?thesis
    proof (cases "\<exists>p j. map_of byID i = Some p \<and> \<not> usable p now \<and>
        px_FallbackMode p = FallbackModeProxy \<and> px_BackupProxyID p = Some j")
      case False
      with new ns show ?thesis
        by (subst leads_to_iff) (auto simp: usable_def split: option.split)
    next
      case True
      then obtain p j where p: "map_of byID i = Some p" "\<not> usable p now"
        "px_FallbackMode p = FallbackModeProxy" "px_BackupProxyID p = Some j" by blast
      then have ij: "(i, j) \<in> hops byID now" by (simp add: hops_def)
      have v: "\<forall>v \<in> insert i visited. v = start \<or> (v, j) \<in> (hops byID now)\<^sup>+"
        using "2.prems"(1) ij by (auto intro: trancl_into_trancl)
      have "fallbackWalk byID now (insert i visited) (Some j) = (r, True) \<longleftrightarrow>
          leads_to start byID now j r"
        using "2.hyps" [OF new p(1) _ _ p(3) p(4) v] p(2,3) "2.prems"(2)
        by (auto simp: usable_def)
      with new p ns show ?thesis
        by (subst leads_to_iff) (auto simp: usable_def)
    qed
  qed
qed

text \<open>
  C36: The accounts of an expired proxy are moved exactly when its fallback settings lead
  somewhere: to a direct connection if it asks for one, or to what the chain of its backups
  leads to, the first active and unexpired proxy or a direct connection. Missing proxies,
  dead ends and cycles, those through the expired proxy included, leave the accounts alone;
  the walk always ends.
\<close>

theorem proxy_fallback_resolves:
  "ResolveProxyFallbackTarget start byID now = (r, True) \<longleftrightarrow>
     (px_FallbackMode start = FallbackModeDirect \<and> r = None) \<or>
     (px_FallbackMode start = FallbackModeProxy \<and>
        (\<exists>i. px_BackupProxyID start = Some i \<and> leads_to (px_ID start) byID now i r))"
  using fallbackWalk_spec [of "{px_ID start}" "px_ID start" _ byID now r]
  by (cases "px_BackupProxyID start") (auto simp: ResolveProxyFallbackTarget_def)

text \<open>
  A proxy chosen as the new home of accounts is in the snapshot, active and not expired
  (when the snapshot files every proxy under its own id), and it is never the expired proxy
  itself.
\<close>

theorem proxy_fallback_target_usable:
  assumes "ResolveProxyFallbackTarget start byID now = (Some i, True)"
    and "\<forall>(k, p) \<in> set byID. px_ID p = k"
  shows "\<exists>p. map_of byID i = Some p \<and> IsActive p \<and> \<not> IsExpired p now \<and> i \<noteq> px_ID start"
proof -
  have lead: "leads_to avoid byID now j r \<Longrightarrow> r = Some i \<Longrightarrow>
      \<exists>p. map_of byID i = Some p \<and> usable p now \<and> i \<noteq> avoid" for avoid j r
  proof (induction rule: leads_to.induct)
    case (usable k p)
    then have "px_ID p = k" using assms(2) by (auto dest: map_of_SomeD)
    with usable show ?case by auto
  qed auto
  from assms(1) fallbackWalk_spec [of "{px_ID start}" "px_ID start" _ byID now "Some i"]
  obtain j where "leads_to (px_ID start) byID now j (Some i)"
    by (cases "px_BackupProxyID start")
       (auto simp: ResolveProxyFallbackTarget_def split: if_splits)
  from lead [OF this refl] show ?thesis by (auto simp: usable_def)
qed

section \<open>Witness\<close>

definition demo_proxy :: "int \<Rightarrow> string \<Rightarrow> int option \<Rightarrow> Proxy" where
  "demo_proxy i status backup = \<lparr>px_ID = i, px_Name = [], px_Protocol = ''http'', px_Host = [],
     px_Port = 80, px_Username = [], px_Password = [], px_Status = status, px_CreatedAt = 0,
     px_UpdatedAt = 0, px_ExpiresAt = None, px_FallbackMode = FallbackModeProxy,
     px_BackupProxyID = backup, px_ExpiryWarnDays = 0\<rparr>"

lemma proxy_fallback_target_usable_witness:
  "\<exists>p. map_of [(2::int, demo_proxy 2 ''disabled'' (Some 3)), (3, demo_proxy 3 StatusActive None)] 3
     = Some p \<and> IsActive p"
proof -
  let ?by = "[(2::int, demo_proxy 2 ''disabled'' (Some 3)), (3, demo_proxy 3 StatusActive None)]"
  have "ResolveProxyFallbackTarget (demo_proxy 1 StatusActive (Some 2)) ?by 0 = (Some 3, True)"
    by (simp add: ResolveProxyFallbackTarget_def demo_proxy_def IsActive_def IsExpired_def
        StatusActive_def)
  from proxy_fallback_target_usable [OF this] show ?thesis by (simp add: demo_proxy_def)
qed

end
