(* ===== verification/ProxyStreamCircuit.thy ===== *)
theory ProxyStreamCircuit
  imports Prelude "HOL-Library.AList"
begin

text \<open>
  \<^verbatim>\<open>backend/internal/service/openai_proxy_stream_circuit.go\<close>: the per-proxy breaker that
  quarantines an OpenAI proxy whose streams keep disconnecting. The map of entries is an
  association list: its order stands for the order in which Go happens to iterate. Every
  operation runs under the breaker's mutex, so a run is a sequence of operations.
\<close>

section \<open>Settings\<close>

definition defaultOpenAIProxyStreamFailureThreshold :: int where
  "defaultOpenAIProxyStreamFailureThreshold = 2"
definition defaultOpenAIProxyStreamFailureWindow :: go_duration where
  "defaultOpenAIProxyStreamFailureWindow = minute"
definition defaultOpenAIProxyStreamQuarantineTTL :: go_duration where
  "defaultOpenAIProxyStreamQuarantineTTL = 10 * minute"
definition defaultOpenAIProxyStreamCircuitMaxEntries :: int where
  "defaultOpenAIProxyStreamCircuitMaxEntries = 4096"
definition defaultOpenAIProxyStreamFailureCollapse :: go_duration where
  "defaultOpenAIProxyStreamFailureCollapse = 3 * second"

lemmas circuit_defaults =
  defaultOpenAIProxyStreamFailureThreshold_def defaultOpenAIProxyStreamFailureWindow_def
  defaultOpenAIProxyStreamQuarantineTTL_def defaultOpenAIProxyStreamCircuitMaxEntries_def
  defaultOpenAIProxyStreamFailureCollapse_def

record circuit_settings =
  disabled :: bool
  failureThreshold :: int
  failureWindow :: go_duration
  quarantineTTL :: go_duration
  collapseInterval :: go_duration
  maxEntries :: int

record circuit_entry =
  failureCount :: int
  windowStart :: go_time
  lastFailureAt :: go_time
  blockedUntil :: go_time
  lastTouched :: go_time

record circuit =
  settings :: circuit_settings
  entries :: "(int \<times> circuit_entry) list"

text \<open>The section \<^verbatim>\<open>Gateway.OpenAIProxyStreamCircuit\<close> of the configuration, when there is one.\<close>

record circuit_config =
  cfg_Disabled :: bool
  cfg_FailureThreshold :: int
  cfg_WindowSeconds :: int
  cfg_TTLSeconds :: int

text \<open>A product of two \<^verbatim>\<open>int64\<close> durations wraps.\<close>

definition wrap_int64 :: "int \<Rightarrow> int" where
  "wrap_int64 x = (x + 2 ^ 63) mod 2 ^ 64 - 2 ^ 63"

definition resolveOpenAIProxyStreamCircuitSettings :: "circuit_config option \<Rightarrow> circuit_settings" where
  "resolveOpenAIProxyStreamCircuitSettings cfg =
     (let s = \<lparr>disabled = False,
               failureThreshold = defaultOpenAIProxyStreamFailureThreshold,
               failureWindow = defaultOpenAIProxyStreamFailureWindow,
               quarantineTTL = defaultOpenAIProxyStreamQuarantineTTL,
               collapseInterval = defaultOpenAIProxyStreamFailureCollapse,
               maxEntries = defaultOpenAIProxyStreamCircuitMaxEntries\<rparr>
      in case cfg of
        None \<Rightarrow> s
      | Some g \<Rightarrow> s\<lparr>disabled := cfg_Disabled g,
          failureThreshold := (if cfg_FailureThreshold g > 0 then cfg_FailureThreshold g
            else failureThreshold s),
          failureWindow := (if cfg_WindowSeconds g > 0
            then wrap_int64 (cfg_WindowSeconds g * second) else failureWindow s),
          quarantineTTL := (if cfg_TTLSeconds g > 0
            then wrap_int64 (cfg_TTLSeconds g * second) else quarantineTTL s)\<rparr>)"

definition newOpenAIProxyStreamCircuit :: "circuit_settings \<Rightarrow> circuit" where
  "newOpenAIProxyStreamCircuit s =
     \<lparr>settings = s\<lparr>
        failureThreshold := (if failureThreshold s \<le> 0
          then defaultOpenAIProxyStreamFailureThreshold else failureThreshold s),
        failureWindow := (if failureWindow s \<le> 0
          then defaultOpenAIProxyStreamFailureWindow else failureWindow s),
        quarantineTTL := (if quarantineTTL s \<le> 0
          then defaultOpenAIProxyStreamQuarantineTTL else quarantineTTL s),
        maxEntries := (if maxEntries s \<le> 0
          then defaultOpenAIProxyStreamCircuitMaxEntries else maxEntries s),
        collapseInterval := (if collapseInterval s < 0 then 0 else collapseInterval s)\<rparr>,
      entries = []\<rparr>"

section \<open>Operations\<close>

definition stale_entry :: "circuit_settings \<Rightarrow> go_time \<Rightarrow> circuit_entry \<Rightarrow> bool" where
  "stale_entry s now e \<longleftrightarrow>
     (blockedUntil e = 0 \<and> time_sub now (lastTouched e) > failureWindow s) \<or>
     (blockedUntil e \<noteq> 0 \<and> \<not> now < blockedUntil e)"

text \<open>\<^verbatim>\<open>(oldestProxyID, oldest)\<close> after the eviction loop.\<close>

definition oldest_entry :: "(int \<times> circuit_entry) list \<Rightarrow> int \<times> go_time" where
  "oldest_entry es = fold (\<lambda>(p, e) (oldestProxyID, oldest).
     if oldestProxyID = 0 \<or> lastTouched e < oldest then (p, lastTouched e)
     else (oldestProxyID, oldest)) es (0, 0)"

definition ensureCapacityLocked :: "circuit \<Rightarrow> go_time \<Rightarrow> circuit" where
  "ensureCapacityLocked c now =
     (if int (length (entries c)) < maxEntries (settings c) then c
      else
        let es = filter (\<lambda>(p, e). \<not> stale_entry (settings c) now e) (entries c);
            c = c\<lparr>entries := es\<rparr>
        in if int (length es) < maxEntries (settings c) then c
           else let p = fst (oldest_entry es)
             in if p > 0 then c\<lparr>entries := AList.delete p es\<rparr> else c)"

definition zero_entry :: circuit_entry where
  "zero_entry = \<lparr>failureCount = 0, windowStart = 0, lastFailureAt = 0, blockedUntil = 0,
     lastTouched = 0\<rparr>"

definition put_entry :: "circuit \<Rightarrow> int \<Rightarrow> circuit_entry \<Rightarrow> circuit" where
  "put_entry c p e = c\<lparr>entries := AList.update p e (entries c)\<rparr>"

definition restart_window :: "circuit_settings \<Rightarrow> go_time \<Rightarrow> circuit_entry \<Rightarrow> circuit_entry" where
  "restart_window s now e =
     (if windowStart e = 0 \<or> now < windowStart e \<or>
         time_sub now (windowStart e) > failureWindow s
      then e\<lparr>failureCount := 0, windowStart := now, blockedUntil := 0\<rparr> else e)"

definition collapses :: "circuit_settings \<Rightarrow> go_time \<Rightarrow> circuit_entry \<Rightarrow> bool" where
  "collapses s now e \<longleftrightarrow> collapseInterval s > 0 \<and> lastFailureAt e \<noteq> 0 \<and>
     time_sub now (lastFailureAt e) \<ge> 0 \<and> time_sub now (lastFailureAt e) < collapseInterval s"

text \<open>The result is the new state and the pair the method returns.\<close>

definition recordFailure :: "circuit \<Rightarrow> int \<Rightarrow> go_time \<Rightarrow> circuit \<times> bool \<times> go_time" where
  "recordFailure c p now =
     (if disabled (settings c) \<or> p \<le> 0 then (c, False, 0)
      else
        let found = map_of (entries c) p;
            e = (case found of None \<Rightarrow> zero_entry | Some e \<Rightarrow> e)
        in if found \<noteq> None \<and> now < blockedUntil e
           then (put_entry c p (e\<lparr>lastTouched := now\<rparr>), False, blockedUntil e)
           else
             let c = (if found = None then ensureCapacityLocked c now else c);
                 e = restart_window (settings c) now e
             in if collapses (settings c) now e
                then (put_entry c p (e\<lparr>lastTouched := now\<rparr>), False, 0)
                else
                  let e = e\<lparr>failureCount := failureCount e + 1, lastFailureAt := now,
                            lastTouched := now\<rparr>;
                      tripped = failureCount e \<ge> failureThreshold (settings c);
                      e = (if tripped
                           then e\<lparr>blockedUntil := now + quarantineTTL (settings c)\<rparr> else e)
                  in (put_entry c p e, tripped, blockedUntil e))"

definition recordSuccess :: "circuit \<Rightarrow> int \<Rightarrow> circuit \<times> bool" where
  "recordSuccess c p =
     (if p \<le> 0 then (c, False)
      else case map_of (entries c) p of
        None \<Rightarrow> (c, False)
      | Some _ \<Rightarrow> (c\<lparr>entries := AList.delete p (entries c)\<rparr>, True))"

definition isBlocked :: "circuit \<Rightarrow> int \<Rightarrow> go_time \<Rightarrow> circuit \<times> bool" where
  "isBlocked c p now =
     (if disabled (settings c) \<or> p \<le> 0 then (c, False)
      else case map_of (entries c) p of
        None \<Rightarrow> (c, False)
      | Some e \<Rightarrow>
          if blockedUntil e = 0 then (c, False)
          else if \<not> now < blockedUntil e
          then (c\<lparr>entries := AList.delete p (entries c)\<rparr>, False)
          else (c, True))"

definition activeBlockCount :: "circuit \<Rightarrow> go_time \<Rightarrow> int" where
  "activeBlockCount c now =
     (if disabled (settings c) then 0
      else fold (\<lambda>(p, e) count.
        if blockedUntil e \<noteq> 0 \<and> now < blockedUntil e then count + 1 else count) (entries c) 0)"

section \<open>The callers\<close>

definition PlatformOpenAI :: string where "PlatformOpenAI = ''openai''"

text \<open>The fields of an account the breaker reads, and the errors it tells apart.\<close>

record circuit_account =
  acc_Platform :: string
  acc_ProxyID :: "int option"

datatype stream_error = Canceled | DeadlineExceeded | OtherStreamError string

definition openAIProxyStreamCircuitProxyID :: "circuit_account option \<Rightarrow> int option" where
  "openAIProxyStreamCircuitProxyID account =
     (case account of
        None \<Rightarrow> None
      | Some a \<Rightarrow>
          if acc_Platform a \<noteq> PlatformOpenAI then None
          else case acc_ProxyID a of
            None \<Rightarrow> None
          | Some p \<Rightarrow> if p \<le> 0 then None else Some p)"

definition recordOpenAIProxyStreamDisconnect ::
  "circuit \<Rightarrow> circuit_account option \<Rightarrow> stream_error option \<Rightarrow> go_time \<Rightarrow> circuit" where
  "recordOpenAIProxyStreamDisconnect c account streamErr now =
     (case openAIProxyStreamCircuitProxyID account of
        None \<Rightarrow> c
      | Some p \<Rightarrow>
          if streamErr = None \<or> streamErr = Some Canceled \<or> streamErr = Some DeadlineExceeded
          then c else fst (recordFailure c p now))"

definition clearOpenAIProxyStreamDisconnect :: "circuit \<Rightarrow> circuit_account option \<Rightarrow> circuit" where
  "clearOpenAIProxyStreamDisconnect c account =
     (case openAIProxyStreamCircuitProxyID account of
        None \<Rightarrow> c | Some p \<Rightarrow> fst (recordSuccess c p))"

definition isOpenAIProxyStreamQuarantined ::
  "circuit \<Rightarrow> bool \<Rightarrow> circuit_account option \<Rightarrow> go_time \<Rightarrow> circuit \<times> bool" where
  "isOpenAIProxyStreamQuarantined c bypassed account now =
     (case openAIProxyStreamCircuitProxyID account of
        None \<Rightarrow> (c, False)
      | Some p \<Rightarrow> if bypassed then (c, False) else isBlocked c p now)"

section \<open>Runs\<close>

datatype circuit_op = Fail int go_time | Succ int | Check int go_time

primrec op_proxy :: "circuit_op \<Rightarrow> int" where
  "op_proxy (Fail p t) = p" | "op_proxy (Succ p) = p" | "op_proxy (Check p t) = p"

text \<open>A step also lists the proxies it tripped, with the end of their quarantine.\<close>

fun circuit_step :: "circuit \<Rightarrow> circuit_op \<Rightarrow> circuit \<times> (int \<times> go_time) list" where
  "circuit_step c (Fail p t) =
     (let (c', tripped, until) = recordFailure c p t in (c', if tripped then [(p, until)] else []))"
| "circuit_step c (Succ p) = (fst (recordSuccess c p), [])"
| "circuit_step c (Check p t) = (fst (isBlocked c p t), [])"

primrec circuit_run :: "circuit \<Rightarrow> circuit_op list \<Rightarrow> circuit \<times> (int \<times> go_time) list" where
  "circuit_run c [] = (c, [])"
| "circuit_run c (x # xs) =
     (let (c', ts) = circuit_step c x; (c'', us) = circuit_run c' xs in (c'', ts @ us))"

lemma circuit_run_append:
  "circuit_run c (xs @ ys) =
     (let (c', ts) = circuit_run c xs; (c'', us) = circuit_run c' ys in (c'', ts @ us))"
  by (induction xs arbitrary: c) (simp_all add: case_prod_beta Let_def)

section \<open>Invariant\<close>

definition keys :: "circuit \<Rightarrow> int set" where "keys c = fst ` set (entries c)"

definition settings_ok :: "circuit_settings \<Rightarrow> bool" where
  "settings_ok s \<longleftrightarrow> 0 < failureThreshold s \<and> 0 < failureWindow s \<and> 0 < quarantineTTL s \<and>
     0 \<le> collapseInterval s \<and> 0 < maxEntries s"

definition circuit_ok :: "circuit \<Rightarrow> bool" where
  "circuit_ok c \<longleftrightarrow> settings_ok (settings c) \<and> distinct (map fst (entries c)) \<and>
     (\<forall>p \<in> keys c. 0 < p) \<and> int (length (entries c)) \<le> maxEntries (settings c)"

lemma circuit_ok_new [intro!]: "circuit_ok (newOpenAIProxyStreamCircuit s)"
  by (simp add: circuit_ok_def settings_ok_def newOpenAIProxyStreamCircuit_def keys_def
      circuit_defaults duration_units)

lemma entries_upd:
  "settings (c\<lparr>entries := es\<rparr>) = settings c"
  "c\<lparr>entries := es, entries := es'\<rparr> = c\<lparr>entries := es'\<rparr>"
  by simp_all

lemma keys_put [simp]: "keys (put_entry c p e) = insert p (keys c)"
  by (simp add: keys_def put_entry_def AList.dom_update)

lemma settings_put [simp]: "settings (put_entry c p e) = settings c"
  by (simp add: put_entry_def)

lemma distinct_put [simp]:
  "distinct (map fst (entries c)) \<Longrightarrow> distinct (map fst (entries (put_entry c p e)))"
  by (simp add: put_entry_def AList.distinct_update)

lemma length_put:
  "length (entries (put_entry c p e)) =
     length (entries c) + (if p \<in> keys c then 0 else 1)"
proof -
  have "length (AList.update p e es) = length es + (if p \<in> fst ` set es then 0 else 1)"
    for es :: "(int \<times> circuit_entry) list"
    by (induction es) auto
  then show ?thesis by (simp add: put_entry_def keys_def)
qed

lemma view_put [simp]:
  "map_of (entries (put_entry c p e)) q = (if q = p then Some e else map_of (entries c) q)"
  by (simp add: put_entry_def AList.update_conv')

lemma view_None_iff: "map_of (entries c) p = None \<longleftrightarrow> p \<notin> keys c"
  by (simp add: keys_def map_of_eq_None_iff)

lemma card_keys: "distinct (map fst (entries c)) \<Longrightarrow> card (keys c) = length (entries c)"
  unfolding keys_def using distinct_card [of "map fst (entries c)"] by simp

lemma oldest_entry_key:
  assumes "es \<noteq> []" "\<forall>(p, e) \<in> set es. 0 < p"
  shows "fst (oldest_entry es) \<in> fst ` set es"
proof -
  have "fst a \<in> K \<Longrightarrow> fst ` set es \<subseteq> K \<Longrightarrow>
      fst (fold (\<lambda>(p, e) (oldestProxyID, oldest).
        if oldestProxyID = 0 \<or> lastTouched e < oldest then (p, lastTouched e)
        else (oldestProxyID, oldest)) es a) \<in> K" for a :: "int \<times> int" and K es
    by (induction es arbitrary: a) auto
  from this [of _ "fst ` set es"] assms show ?thesis
    by (cases es) (force simp: oldest_entry_def)+
qed

lemma ensureCapacityLocked_id:
  "int (length (entries c)) < maxEntries (settings c) \<Longrightarrow> ensureCapacityLocked c now = c"
  by (simp add: ensureCapacityLocked_def)

lemma settings_ensureCapacity [simp]: "settings (ensureCapacityLocked c now) = settings c"
  by (simp add: ensureCapacityLocked_def Let_def)

lemma keys_ensureCapacity: "keys (ensureCapacityLocked c now) \<subseteq> keys c"
  by (auto simp: ensureCapacityLocked_def Let_def keys_def
      dest!: AList.dom_delete_subset [THEN subsetD, OF imageI])

lemma length_delete_less:
  assumes "p \<in> fst ` set es" shows "length (AList.delete p es) < length es"
proof -
  from assms obtain v where "(p, v) \<in> set es" by force
  then show ?thesis by (auto simp: AList.delete_eq intro!: length_filter_less)
qed

lemma circuit_ok_shrunk:
  "circuit_ok c \<Longrightarrow> distinct (map fst es) \<Longrightarrow> fst ` set es \<subseteq> keys c \<Longrightarrow>
   length es \<le> length (entries c) \<Longrightarrow> circuit_ok (c\<lparr>entries := es\<rparr>)"
  unfolding circuit_ok_def using keys_def [of "c\<lparr>entries := es\<rparr>"] by (simp add: subset_iff)

lemma circuit_ok_delete [intro]:
  "circuit_ok c \<Longrightarrow> circuit_ok (c\<lparr>entries := AList.delete p (entries c)\<rparr>)"
  by (rule circuit_ok_shrunk)
    (auto simp: AList.distinct_delete circuit_ok_def AList.length_delete_le keys_def
      dest: AList.dom_delete_subset [THEN subsetD, OF imageI])

lemma circuit_ok_evict:
  assumes "circuit_ok c" "distinct (map fst es)" "fst ` set es \<subseteq> keys c"
    "length es \<le> length (entries c)" "p \<in> fst ` set es"
  shows "circuit_ok (c\<lparr>entries := AList.delete p es\<rparr>)"
    and "int (length (AList.delete p es)) < maxEntries (settings c)"
proof -
  have "length (AList.delete p es) < length es" using assms(5) by (rule length_delete_less)
  moreover have "fst ` set (AList.delete p es) \<subseteq> keys c"
    using AList.dom_delete_subset assms(3) by (rule subset_trans)
  moreover have "int (length (entries c)) \<le> maxEntries (settings c)"
    using assms(1) by (simp add: circuit_ok_def)
  ultimately show "circuit_ok (c\<lparr>entries := AList.delete p es\<rparr>)"
    and "int (length (AList.delete p es)) < maxEntries (settings c)"
    using assms(4)
    by (intro circuit_ok_shrunk assms(1) AList.distinct_delete assms(2), simp_all)
qed

lemma ensureCapacity_ok:
  assumes "circuit_ok c"
  shows "circuit_ok (ensureCapacityLocked c now) \<and>
    int (length (entries (ensureCapacityLocked c now))) < maxEntries (settings c)"
proof -
  let ?es = "filter (\<lambda>(p, e). \<not> stale_entry (settings c) now e) (entries c)"
  have d: "distinct (map fst ?es)" using assms by (auto simp: circuit_ok_def distinct_map_filter)
  have l: "length ?es \<le> length (entries c)" by simp
  have pos: "\<forall>(p, e) \<in> set ?es. 0 < p" using assms by (force simp: circuit_ok_def keys_def)
  have sub: "fst ` set ?es \<subseteq> keys c" by (auto simp: keys_def)
  show ?thesis
  proof (cases "int (length ?es) < maxEntries (settings c)")
    case True
    with d l sub assms show ?thesis
      by (simp add: ensureCapacityLocked_def Let_def circuit_ok_shrunk)
  next
    case False
    let ?p = "fst (oldest_entry ?es)"
    have "?es \<noteq> []" using False assms by (auto simp: circuit_ok_def settings_ok_def)
    then have p: "?p \<in> fst ` set ?es" using pos by (rule oldest_entry_key)
    with sub assms have "0 < ?p" by (auto simp: circuit_ok_def)
    moreover have "\<not> int (length (entries c)) < maxEntries (settings c)" using False l by linarith
    ultimately have eq: "ensureCapacityLocked c now = c\<lparr>entries := AList.delete ?p ?es\<rparr>"
      using False by (simp only: ensureCapacityLocked_def Let_def if_False if_True
          entries_upd)
    from circuit_ok_evict [OF assms d sub l p] show ?thesis unfolding eq by simp
  qed
qed

lemma circuit_ok_put:
  "circuit_ok c \<Longrightarrow> 0 < p \<Longrightarrow> p \<in> keys c \<or> int (length (entries c)) < maxEntries (settings c) \<Longrightarrow>
   circuit_ok (put_entry c p e)"
  by (auto simp: circuit_ok_def length_put)

section \<open>One proxy's history\<close>

text \<open>What a failure does to the entry of its proxy, and what the method answers.\<close>

definition fail_entry ::
  "circuit_settings \<Rightarrow> go_time \<Rightarrow> circuit_entry option \<Rightarrow> circuit_entry \<times> bool \<times> go_time" where
  "fail_entry s now found =
     (let e = (case found of None \<Rightarrow> zero_entry | Some e \<Rightarrow> e) in
      if found \<noteq> None \<and> now < blockedUntil e then (e\<lparr>lastTouched := now\<rparr>, False, blockedUntil e)
      else let e = restart_window s now e in
        if collapses s now e then (e\<lparr>lastTouched := now\<rparr>, False, 0)
        else let e = e\<lparr>failureCount := failureCount e + 1, lastFailureAt := now, lastTouched := now\<rparr>;
                 tripped = failureCount e \<ge> failureThreshold s;
                 e = (if tripped then e\<lparr>blockedUntil := now + quarantineTTL s\<rparr> else e)
          in (e, tripped, blockedUntil e))"

lemma recordFailure_entry:
  "0 < p \<Longrightarrow> \<not> disabled (settings c) \<Longrightarrow>
   recordFailure c p now =
     (put_entry (if p \<in> keys c then c else ensureCapacityLocked c now) p
        (fst (fail_entry (settings c) now (map_of (entries c) p))),
      snd (fail_entry (settings c) now (map_of (entries c) p)))"
  using view_None_iff [of c p]
  by (cases "map_of (entries c) p") (simp_all add: recordFailure_def fail_entry_def Let_def)

lemma recordFailure_off:
  "\<not> (0 < p \<and> \<not> disabled (settings c)) \<Longrightarrow> recordFailure c p now = (c, False, 0)"
  by (auto simp: recordFailure_def)

lemma recordFailure_ok: "circuit_ok c \<Longrightarrow> circuit_ok (fst (recordFailure c p now))"
  by (cases "0 < p \<and> \<not> disabled (settings c)")
    (auto simp: recordFailure_entry recordFailure_off ensureCapacity_ok intro!: circuit_ok_put)

lemma recordSuccess_cases:
  "fst (recordSuccess c p) = c \<or>
   fst (recordSuccess c p) = c\<lparr>entries := AList.delete p (entries c)\<rparr>"
  by (auto simp: recordSuccess_def split: option.split)

lemma isBlocked_cases:
  "fst (isBlocked c p t) = c \<or>
   fst (isBlocked c p t) = c\<lparr>entries := AList.delete p (entries c)\<rparr>"
  by (auto simp: isBlocked_def split: option.split)

lemma recordSuccess_ok: "circuit_ok c \<Longrightarrow> circuit_ok (fst (recordSuccess c p))"
  using recordSuccess_cases [of c p] circuit_ok_delete [of c p] by auto

lemma isBlocked_ok: "circuit_ok c \<Longrightarrow> circuit_ok (fst (isBlocked c p t))"
  using isBlocked_cases [of c p t] circuit_ok_delete [of c p] by auto

lemma circuit_step_ok: "circuit_ok c \<Longrightarrow> circuit_ok (fst (circuit_step c x))"
  using recordFailure_ok recordSuccess_ok isBlocked_ok by (cases x) (simp_all add: case_prod_beta)

lemma circuit_run_ok: "circuit_ok c \<Longrightarrow> circuit_ok (fst (circuit_run c xs))"
  by (induction xs arbitrary: c) (simp_all add: case_prod_beta Let_def circuit_step_ok)

lemma circuit_step_settings [simp]: "settings (fst (circuit_step c x)) = settings c"
proof (cases x)
  case (Fail p t)
  then show ?thesis
    by (cases "0 < p \<and> \<not> disabled (settings c)")
      (simp_all add: recordFailure_entry recordFailure_off case_prod_beta)
next
  case (Succ p)
  then show ?thesis using recordSuccess_cases [of c p] by auto
next
  case (Check p t)
  then show ?thesis using isBlocked_cases [of c p t] by auto
qed

lemma circuit_run_settings [simp]: "settings (fst (circuit_run c xs)) = settings c"
  by (induction xs arbitrary: c) (simp_all add: case_prod_beta Let_def)

lemma keys_delete: "keys (c\<lparr>entries := AList.delete p (entries c)\<rparr>) \<subseteq> keys c"
  by (simp add: keys_def AList.dom_delete_subset)

lemma circuit_step_keys: "keys (fst (circuit_step c x)) \<subseteq> insert (op_proxy x) (keys c)"
proof (cases x)
  case (Fail p t)
  then show ?thesis using keys_ensureCapacity [of c t]
    by (cases "0 < p \<and> \<not> disabled (settings c)")
      (auto simp: recordFailure_entry recordFailure_off case_prod_beta)
next
  case (Succ p)
  then show ?thesis using recordSuccess_cases [of c p] keys_delete [of p c] by auto
next
  case (Check p t)
  then show ?thesis using isBlocked_cases [of c p t] keys_delete [of p c] by auto
qed

text \<open>While there is room, an operation on one proxy does not touch another.\<close>

definition room :: "circuit \<Rightarrow> int \<Rightarrow> bool" where
  "room c p \<longleftrightarrow> p \<in> keys c \<or> int (length (entries c)) < maxEntries (settings c)"

lemma roomI:
  assumes "circuit_ok c" "finite U" "insert p (keys c) \<subseteq> U" "int (card U) \<le> maxEntries (settings c)"
  shows "room c p"
proof (cases "p \<in> keys c")
  case False
  have "card (insert p (keys c)) \<le> card U" using assms(2,3) by (rule card_mono)
  moreover have "finite (keys c)" by (simp add: keys_def)
  ultimately have "card (keys c) < card U" using False by simp
  then show ?thesis using assms(1,4) card_keys [of c] by (simp add: room_def circuit_ok_def)
qed (simp add: room_def)

lemma room_fail:
  "room c p \<Longrightarrow> 0 < p \<Longrightarrow> \<not> disabled (settings c) \<Longrightarrow> recordFailure c p t =
     (put_entry c p (fst (fail_entry (settings c) t (map_of (entries c) p))),
      snd (fail_entry (settings c) t (map_of (entries c) p)))"
  by (auto simp: recordFailure_entry room_def ensureCapacityLocked_id)

lemma circuit_step_other:
  assumes "room c (op_proxy x)" "q \<noteq> op_proxy x"
  shows "map_of (entries (fst (circuit_step c x))) q = map_of (entries c) q"
proof (cases x)
  case (Fail p t)
  with assms show ?thesis
    by (cases "0 < p \<and> \<not> disabled (settings c)")
      (simp_all add: room_fail recordFailure_off case_prod_beta)
next
  case (Succ p)
  with assms show ?thesis using recordSuccess_cases [of c p] by auto
next
  case (Check p t)
  with assms show ?thesis using isBlocked_cases [of c p t] by auto
qed

section \<open>When a proxy is tripped\<close>

primrec fail_times :: "int \<Rightarrow> circuit_op list \<Rightarrow> go_time list" where
  "fail_times p [] = []"
| "fail_times p (x # xs) =
     (case x of Fail q t \<Rightarrow> if q = p then t # fail_times p xs else fail_times p xs
      | _ \<Rightarrow> fail_times p xs)"

text \<open>
  How many incidents a list of failure times stands for: a failure belongs to the last
  incident while less than \<open>d\<close> has passed since that incident began.
\<close>

fun incidents :: "go_duration \<Rightarrow> go_time option \<Rightarrow> go_time list \<Rightarrow> int" where
  "incidents d l [] = 0"
| "incidents d None (t # ts) = 1 + incidents d (Some t) ts"
| "incidents d (Some l) (t # ts) =
     (if t < l + d then incidents d (Some l) ts else 1 + incidents d (Some t) ts)"

lemma incidents_nonneg: "0 \<le> incidents d l ts"
  by (induction d l ts rule: incidents.induct) auto

text \<open>An entry that counts \<open>k\<close> incidents since \<open>w\<close>, the last of which began at \<open>l\<close>.\<close>

definition counting :: "circuit_settings \<Rightarrow> circuit_entry \<Rightarrow> int \<Rightarrow> go_time \<Rightarrow> go_time \<Rightarrow> bool" where
  "counting s e k w l \<longleftrightarrow> failureCount e = k \<and> windowStart e = w \<and> lastFailureAt e = l \<and>
     blockedUntil e = 0 \<and> 0 < w \<and> w \<le> l \<and> k < failureThreshold s"

lemma restart_window_id:
  "windowStart e \<noteq> 0 \<Longrightarrow> windowStart e \<le> now \<Longrightarrow> now \<le> windowStart e + failureWindow s \<Longrightarrow>
   restart_window s now e = e"
  using time_sub_le_diff [of "windowStart e" now] by (simp add: restart_window_def)

lemma collapses_iff:
  "lastFailureAt e \<noteq> 0 \<Longrightarrow> lastFailureAt e \<le> now \<Longrightarrow> collapseInterval s \<le> maxDuration \<Longrightarrow>
   collapses s now e \<longleftrightarrow> now < lastFailureAt e + collapseInterval s"
  by (auto simp: collapses_def time_sub_def minDuration_def maxDuration_def)

lemma fail_entry_counting:
  assumes "counting s e k w l" "l \<le> t" "t \<le> w + failureWindow s" "collapseInterval s \<le> maxDuration"
  shows "if t < l + collapseInterval s
    then counting s (fst (fail_entry s t (Some e))) k w l \<and> \<not> fst (snd (fail_entry s t (Some e)))
    else if k + 1 < failureThreshold s
    then counting s (fst (fail_entry s t (Some e))) (k + 1) w t \<and>
      \<not> fst (snd (fail_entry s t (Some e)))
    else fst (snd (fail_entry s t (Some e)))"
  using assms restart_window_id [of e t s] collapses_iff [of e t s]
  by (auto simp: fail_entry_def counting_def Let_def)

lemma fail_entry_first:
  assumes "settings_ok s" "0 < t"
  shows "if 1 < failureThreshold s
    then counting s (fst (fail_entry s t None)) 1 t t \<and> \<not> fst (snd (fail_entry s t None))
    else fst (snd (fail_entry s t None))"
  using assms
  by (auto simp: fail_entry_def zero_entry_def counting_def Let_def restart_window_def
      collapses_def settings_ok_def)

text \<open>The breaker has room for every proxy it knows and every proxy a run is about.\<close>

definition roomy :: "circuit \<Rightarrow> circuit_op list \<Rightarrow> bool" where
  "roomy c xs \<longleftrightarrow> int (card (keys c \<union> op_proxy ` set xs)) \<le> maxEntries (settings c)"

lemma roomy_step:
  assumes "circuit_ok c" "roomy c (x # xs)"
  shows "room c (op_proxy x) \<and> roomy (fst (circuit_step c x)) xs"
proof -
  let ?U = "keys c \<union> op_proxy ` set (x # xs)"
  have fin: "finite ?U" by (simp add: keys_def)
  have room: "room c (op_proxy x)"
    using assms by (intro roomI [where U = ?U] fin) (auto simp: roomy_def)
  have "keys (fst (circuit_step c x)) \<union> op_proxy ` set xs \<subseteq> ?U"
    using circuit_step_keys [of c x] by auto
  then have "card (keys (fst (circuit_step c x)) \<union> op_proxy ` set xs) \<le> card ?U"
    by (rule card_mono [OF fin])
  with assms(2) room show ?thesis by (simp add: roomy_def)
qed

lemma circuit_step_trip_proxy: "(q, u) \<in> set (snd (circuit_step c x)) \<Longrightarrow> q = op_proxy x"
  by (cases x) (auto simp: case_prod_beta split: if_splits)

lemma check_counting:
  "map_of (entries c) p = Some e \<Longrightarrow> blockedUntil e = 0 \<Longrightarrow> isBlocked c p t = (c, False)"
  by (simp add: isBlocked_def)

definition trips :: "int \<Rightarrow> circuit \<Rightarrow> circuit_op list \<Rightarrow> bool" where
  "trips p c xs \<longleftrightarrow> (\<exists>u. (p, u) \<in> set (snd (circuit_run c xs)))"

lemma trips_Nil [simp]: "\<not> trips p c []"
  by (simp add: trips_def)

lemma trips_other: "op_proxy x \<noteq> p \<Longrightarrow> trips p c (x # xs) \<longleftrightarrow> trips p (fst (circuit_step c x)) xs"
  using circuit_step_trip_proxy [of p _ c x] by (auto simp: trips_def case_prod_beta Let_def)

lemma trips_Check: "trips p c (Check q t # xs) \<longleftrightarrow> trips p (fst (isBlocked c q t)) xs"
  by (simp add: trips_def case_prod_beta Let_def)

lemma trips_Fail:
  "trips p c (Fail p t # xs) \<longleftrightarrow>
     fst (snd (recordFailure c p t)) \<or> trips p (fst (recordFailure c p t)) xs"
  by (auto simp: trips_def case_prod_beta Let_def)

lemma fail_times_other: "op_proxy x \<noteq> p \<Longrightarrow> fail_times p (x # xs) = fail_times p xs"
  by (cases x) auto

lemma counting_trips:
  assumes "circuit_ok c" "\<not> disabled (settings c)" "0 < p" "roomy c xs" "Succ p \<notin> set xs"
    and "map_of (entries c) p = Some e" "counting (settings c) e k w l"
    and "sorted (l # fail_times p xs)" "\<forall>t \<in> set (fail_times p xs). t \<le> w + failureWindow (settings c)"
    and "collapseInterval (settings c) \<le> maxDuration"
  shows "trips p c xs \<longleftrightarrow>
    failureThreshold (settings c) \<le> k + incidents (collapseInterval (settings c)) (Some l) (fail_times p xs)"
  using assms
proof (induction xs arbitrary: c e k l)
  case Nil
  then show ?case by (simp add: counting_def)
next
  case (Cons x xs)
  have ok: "circuit_ok (fst (circuit_step c x))" using Cons.prems(1) by (rule circuit_step_ok)
  from roomy_step [OF Cons.prems(1,4)]
  have room: "room c (op_proxy x)" and roomy: "roomy (fst (circuit_step c x)) xs" by auto
  note IH = Cons.IH [OF ok _ Cons.prems(3) roomy]
  show ?case
  proof (cases "op_proxy x = p")
    case False
    from circuit_step_other [OF room] False Cons.prems(6)
    have "map_of (entries (fst (circuit_step c x))) p = Some e" by simp
    from IH [OF _ _ this] fail_times_other [OF False] False Cons.prems show ?thesis
      by (simp add: trips_other del: fail_times.simps)
  next
    case True
    show ?thesis
    proof (cases x)
      case (Fail q t)
      with True have x: "x = Fail p t" by simp
      let ?e = "fst (fail_entry (settings c) t (Some e))"
      let ?c = "put_entry c p ?e"
      have rec: "recordFailure c p t = (?c, snd (fail_entry (settings c) t (Some e)))"
        using room x Cons.prems(2,3,6) by (simp add: room_fail)
      have step: "fst (circuit_step c x) = ?c" by (simp add: x rec case_prod_beta)
      have lt: "l \<le> t" "t \<le> w + failureWindow (settings c)" using Cons.prems(8,9) x by auto
      note cnt = fail_entry_counting [OF Cons.prems(7) lt Cons.prems(10)]
      have IH': "counting (settings c) ?e k' w l' \<Longrightarrow> l' \<in> {l, t} \<Longrightarrow>
          trips p ?c xs \<longleftrightarrow> failureThreshold (settings c) \<le> k' +
            incidents (collapseInterval (settings c)) (Some l') (fail_times p xs)" for k' l'
        using IH [of ?e k' l'] Cons.prems(2,5,8,9,10) x step by auto
      have nn: "0 \<le> incidents (collapseInterval (settings c)) (Some t) (fail_times p xs)"
        by (rule incidents_nonneg)
      show ?thesis
        using cnt nn IH' [of k l] IH' [of "k + 1" t] unfolding x trips_Fail rec
        by (auto split: if_splits)
    next
      case (Succ q)
      with True Cons.prems(5) show ?thesis by simp
    next
      case (Check q t)
      with True have x: "x = Check p t" by simp
      have "isBlocked c p t = (c, False)"
        using Cons.prems(6,7) by (intro check_counting) (auto simp: counting_def)
      then show ?thesis using IH [of e k l] Cons.prems x by (simp add: trips_Check)
    qed
  qed
qed

lemma unseen_trips:
  assumes "circuit_ok c" "\<not> disabled (settings c)" "0 < p" "roomy c xs" "Succ p \<notin> set xs"
    and "map_of (entries c) p = None" "sorted (fail_times p xs)"
    and "\<forall>t \<in> set (fail_times p xs). 0 < t \<and> t \<le> hd (fail_times p xs) + failureWindow (settings c)"
    and "collapseInterval (settings c) \<le> maxDuration"
  shows "trips p c xs \<longleftrightarrow>
    failureThreshold (settings c) \<le> incidents (collapseInterval (settings c)) None (fail_times p xs)"
  using assms
proof (induction xs arbitrary: c)
  case Nil
  then show ?case by (simp add: circuit_ok_def settings_ok_def)
next
  case (Cons x xs)
  have ok: "circuit_ok (fst (circuit_step c x))" using Cons.prems(1) by (rule circuit_step_ok)
  from roomy_step [OF Cons.prems(1,4)]
  have room: "room c (op_proxy x)" and roomy: "roomy (fst (circuit_step c x)) xs" by auto
  note IH = Cons.IH [OF ok _ Cons.prems(3) roomy]
  show ?case
  proof (cases "op_proxy x = p")
    case False
    from circuit_step_other [OF room] False Cons.prems(6)
    have "map_of (entries (fst (circuit_step c x))) p = None" by simp
    with IH fail_times_other [OF False] False Cons.prems show ?thesis
      by (simp add: trips_other del: fail_times.simps)
  next
    case True
    show ?thesis
    proof (cases x)
      case (Fail q t)
      with True have x: "x = Fail p t" by simp
      let ?e = "fst (fail_entry (settings c) t None)"
      let ?c = "put_entry c p ?e"
      have rec: "recordFailure c p t = (?c, snd (fail_entry (settings c) t None))"
        using room x Cons.prems(2,3,6) by (simp add: room_fail)
      have step: "fst (circuit_step c x) = ?c" by (simp add: x rec case_prod_beta)
      have cnt: "if 1 < failureThreshold (settings c)
        then counting (settings c) ?e 1 t t \<and> \<not> fst (snd (fail_entry (settings c) t None))
        else fst (snd (fail_entry (settings c) t None))"
        using Cons.prems x by (intro fail_entry_first) (auto simp: circuit_ok_def)
      have "counting (settings c) ?e 1 t t \<Longrightarrow> trips p ?c xs \<longleftrightarrow> failureThreshold (settings c) \<le>
          1 + incidents (collapseInterval (settings c)) (Some t) (fail_times p xs)"
        using counting_trips [of ?c p xs ?e 1 t t] ok roomy Cons.prems(2,3,5,7,8,9) step x by simp
      moreover have "0 \<le> incidents (collapseInterval (settings c)) (Some t) (fail_times p xs)"
        by (rule incidents_nonneg)
      ultimately show ?thesis
        using cnt unfolding x trips_Fail rec by (auto split: if_splits)
    next
      case (Succ q)
      with True Cons.prems(5) show ?thesis by simp
    next
      case (Check q t)
      with True have x: "x = Check p t" by simp
      have "isBlocked c p t = (c, False)" using Cons.prems(6) by (simp add: isBlocked_def)
      then show ?thesis using IH Cons.prems x by (simp add: trips_Check)
    qed
  qed
qed

text \<open>
  C25: In a burst of trouble that fits the observation window, a proxy not seen before is
  tripped if and only if its failures amount to the threshold of separate incidents, where
  failures that follow the start of an incident within the collapse interval belong to it.
  Checks, and failures, successes and checks of other proxies, may come in between as long
  as the breaker has room for all of them.
\<close>

theorem circuit_trips_iff:
  assumes "c = fst (circuit_run (newOpenAIProxyStreamCircuit s) before)"
    and "\<not> disabled s" "0 < p" "map_of (entries c) p = None" "roomy c xs" "Succ p \<notin> set xs"
    and "sorted (fail_times p xs)"
    and "\<forall>t \<in> set (fail_times p xs). 0 < t \<and> t \<le> hd (fail_times p xs) + failureWindow (settings c)"
    and "collapseInterval s \<le> maxDuration"
  shows "trips p c xs \<longleftrightarrow>
    failureThreshold (settings c) \<le> incidents (collapseInterval (settings c)) None (fail_times p xs)"
proof (rule unseen_trips)
  show "circuit_ok c" unfolding assms(1) by (rule circuit_run_ok) (rule circuit_ok_new)
  show "\<not> disabled (settings c)" "collapseInterval (settings c) \<le> maxDuration"
    using assms(2,9) unfolding assms(1)
    by (simp_all add: newOpenAIProxyStreamCircuit_def maxDuration_def)
qed (use assms in simp_all)

section \<open>While a proxy is quarantined\<close>

definition op_time :: "circuit_op \<Rightarrow> go_time option" where
  "op_time x = (case x of Fail p t \<Rightarrow> Some t | Check p t \<Rightarrow> Some t | Succ p \<Rightarrow> None)"

lemma quarantined_run:
  assumes "circuit_ok c" "\<not> disabled (settings c)" "0 < p" "roomy c xs" "Succ p \<notin> set xs"
    and "\<exists>e. map_of (entries c) p = Some e \<and> blockedUntil e = until"
    and "\<forall>x \<in> set xs. op_proxy x = p \<longrightarrow> (\<forall>t. op_time x = Some t \<longrightarrow> t < until)"
  shows "\<exists>e. map_of (entries (fst (circuit_run c xs))) p = Some e \<and> blockedUntil e = until"
  using assms
proof (induction xs arbitrary: c)
  case (Cons x xs)
  have ok: "circuit_ok (fst (circuit_step c x))" using Cons.prems(1) by (rule circuit_step_ok)
  from roomy_step [OF Cons.prems(1,4)]
  have room: "room c (op_proxy x)" and roomy: "roomy (fst (circuit_step c x)) xs" by auto
  from Cons.prems(6) obtain e where e: "map_of (entries c) p = Some e" "blockedUntil e = until"
    by blast
  have "\<exists>e. map_of (entries (fst (circuit_step c x))) p = Some e \<and> blockedUntil e = until"
  proof (cases "op_proxy x = p")
    case False
    with circuit_step_other [OF room] e show ?thesis by simp
  next
    case True
    with Cons.prems(2,3,5,7) e room show ?thesis
      by (cases x) (auto simp: room_fail fail_entry_def isBlocked_def op_time_def case_prod_beta)
  qed
  from Cons.IH [OF ok _ Cons.prems(3) roomy _ this] Cons.prems show ?case
    by (simp add: case_prod_beta Let_def)
qed simp

lemma fail_entry_tripped:
  "snd (fail_entry s t found) = (True, until) \<Longrightarrow>
   until = t + quarantineTTL s \<and> blockedUntil (fst (fail_entry s t found)) = until"
  by (auto simp: fail_entry_def Let_def split: if_splits)

text \<open>
  C27: The failure that trips a proxy quarantines it for exactly the configured time: it is
  blocked at every moment before the end of the quarantine and free from then on, whatever
  failures (its own included) and checks happen in the meantime, unless it is reported to
  work again or the breaker runs out of room.
\<close>

theorem circuit_quarantine_exact:
  assumes "c = fst (circuit_run (newOpenAIProxyStreamCircuit s) before)" "0 < t"
    and "recordFailure c p t = (c', True, until)"
    and "roomy c' xs" "Succ p \<notin> set xs"
    and "\<forall>x \<in> set xs. op_proxy x = p \<longrightarrow> (\<forall>t. op_time x = Some t \<longrightarrow> t < until)"
  shows "until = t + quarantineTTL (settings c) \<and>
    (snd (isBlocked (fst (circuit_run c' xs)) p u) \<longleftrightarrow> u < until)"
proof -
  have ok: "circuit_ok c" unfolding assms(1) by (rule circuit_run_ok) (rule circuit_ok_new)
  have p: "0 < p \<and> \<not> disabled (settings c)" using assms(3) recordFailure_off [of p c t] by auto
  let ?f = "fail_entry (settings c) t (map_of (entries c) p)"
  have c': "c' = put_entry (if p \<in> keys c then c else ensureCapacityLocked c t) p (fst ?f)"
    and "snd ?f = (True, until)" using assms(3) p by (simp_all add: recordFailure_entry)
  then have u: "until = t + quarantineTTL (settings c)" "blockedUntil (fst ?f) = until"
    using fail_entry_tripped by blast+
  have ok': "circuit_ok c'" using recordFailure_ok [OF ok, of p t] assms(3) by simp
  have set': "settings c' = settings c" by (simp add: c')
  have "\<exists>e. map_of (entries c') p = Some e \<and> blockedUntil e = until" by (simp add: c' u(2))
  from quarantined_run [OF ok' _ _ assms(4,5) this assms(6)] p set'
  obtain e where "map_of (entries (fst (circuit_run c' xs))) p = Some e" "blockedUntil e = until"
    by auto
  moreover have "until \<noteq> 0" using ok assms(2) u(1) by (auto simp: circuit_ok_def settings_ok_def)
  ultimately show ?thesis using p set' u(1) by (simp add: isBlocked_def)
qed

lemma count_fold:
  "fold (\<lambda>x n. if P x then n + 1 else n) xs (n :: int) = n + int (length (filter P xs))"
  by (induction xs arbitrary: n) simp_all

lemma activeBlockCount_card:
  assumes "circuit_ok c"
  shows "activeBlockCount c now = int (card {p. snd (isBlocked c p now)})"
proof (cases "disabled (settings c)")
  case True
  then show ?thesis by (simp add: activeBlockCount_def isBlocked_def)
next
  case False
  let ?P = "\<lambda>(p :: int, e :: circuit_entry). blockedUntil e \<noteq> 0 \<and> now < blockedUntil e"
  have d: "distinct (map fst (entries c))" using assms by (simp add: circuit_ok_def)
  have pos: "\<forall>x \<in> set (entries c). 0 < fst x" using assms by (auto simp: circuit_ok_def keys_def)
  have "{p. snd (isBlocked c p now)} = fst ` set (filter ?P (entries c))"
  proof (intro set_eqI iffI)
    fix p assume "p \<in> {p. snd (isBlocked c p now)}"
    then show "p \<in> fst ` set (filter ?P (entries c))"
      by (force simp: isBlocked_def dest: map_of_SomeD split: if_splits option.splits)
  next
    fix p assume "p \<in> fst ` set (filter ?P (entries c))"
    then obtain e where "(p, e) \<in> set (entries c)" "?P (p, e)" by auto
    moreover from this(1) d have "map_of (entries c) p = Some e" by (rule map_of_is_SomeI [rotated])
    ultimately show "p \<in> {p. snd (isBlocked c p now)}"
      using pos False by (auto simp: isBlocked_def)
  qed
  moreover have "distinct (map fst (filter ?P (entries c)))" using d by (rule distinct_map_filter)
  then have "card (fst ` set (filter ?P (entries c))) = length (filter ?P (entries c))"
    using distinct_card by fastforce
  moreover have "(\<lambda>(p :: int, e :: circuit_entry) (n :: int).
        if blockedUntil e \<noteq> 0 \<and> now < blockedUntil e then n + 1 else n) = (\<lambda>x n. if ?P x then n + 1 else n)" by (simp add: fun_eq_iff)
  then have "activeBlockCount c now = fold (\<lambda>x n. if ?P x then n + 1 else n) (entries c) 0"
    using False by (simp only: activeBlockCount_def if_False)
  then have "activeBlockCount c now = int (length (filter ?P (entries c)))"
    by (simp only: count_fold)
  ultimately show ?thesis by simp
qed

text \<open>
  C28: The breaker stays within its bound: no run, whatever its order and times, makes it
  hold more entries than configured or two entries for one proxy, and the number of active
  blocks it reports is the number of proxies a check at that moment turns away.
\<close>

theorem circuit_bounded:
  fixes s before
  defines "c \<equiv> fst (circuit_run (newOpenAIProxyStreamCircuit s) before)"
  shows "int (length (entries c)) \<le> maxEntries (settings c) \<and> distinct (map fst (entries c)) \<and>
    activeBlockCount c now = int (card {p. snd (isBlocked c p now)})"
proof -
  have ok: "circuit_ok c" unfolding c_def by (rule circuit_run_ok) (rule circuit_ok_new)
  then show ?thesis using activeBlockCount_card [OF ok] by (simp add: circuit_ok_def)
qed

section \<open>Witnesses\<close>

definition demo_settings :: circuit_settings where
  "demo_settings = \<lparr>disabled = False, failureThreshold = 2, failureWindow = 60,
     quarantineTTL = 600, collapseInterval = 3, maxEntries = 2\<rparr>"

lemmas demo_circuit = demo_settings_def newOpenAIProxyStreamCircuit_def

lemma circuit_trips_iff_witness:
  "trips 1 (newOpenAIProxyStreamCircuit demo_settings)
     [Fail 1 10, Fail 1 11, Fail 2 11, Check 1 12, Fail 1 15]"
proof -
  let ?xs = "[Fail 1 10, Fail 1 11, Fail 2 11, Check 1 12, Fail 1 15]"
  let ?c = "newOpenAIProxyStreamCircuit demo_settings"
  have "op_proxy ` set ?xs = {1, 2}" by auto
  then have "roomy ?c ?xs" by (simp add: roomy_def keys_def demo_circuit)
  then have "trips 1 ?c ?xs \<longleftrightarrow> failureThreshold (settings ?c) \<le>
      incidents (collapseInterval (settings ?c)) None (fail_times 1 ?xs)"
    by (intro circuit_trips_iff [where before = "[]" and s = demo_settings])
       (simp_all add: demo_circuit maxDuration_def)
  then show ?thesis by (simp add: demo_circuit)
qed

lemma circuit_quarantine_exact_witness:
  "snd (isBlocked (fst (circuit_run (newOpenAIProxyStreamCircuit demo_settings)
     [Fail 1 10, Fail 1 15, Fail 1 20, Fail 2 21])) 1 614)"
proof -
  let ?new = "newOpenAIProxyStreamCircuit demo_settings"
  let ?c = "\<lparr>settings = demo_settings, entries = [(1, \<lparr>failureCount = 1, windowStart = 10,
      lastFailureAt = 10, blockedUntil = 0, lastTouched = 10\<rparr>)]\<rparr>"
  let ?c' = "\<lparr>settings = demo_settings, entries = [(1, \<lparr>failureCount = 2, windowStart = 10,
      lastFailureAt = 15, blockedUntil = 615, lastTouched = 15\<rparr>)]\<rparr>"
  let ?xs = "[Fail 1 20, Fail 2 21]"
  have r0: "recordFailure ?new 1 10 = (?c, False, 0)"
    by (simp add: demo_circuit recordFailure_def ensureCapacityLocked_def zero_entry_def
        restart_window_def collapses_def put_entry_def Let_def time_sub_def minDuration_def
        maxDuration_def)
  have r1: "recordFailure ?c 1 15 = (?c', True, 615)"
    by (simp add: demo_circuit recordFailure_def restart_window_def collapses_def
        put_entry_def Let_def time_sub_def minDuration_def maxDuration_def)
  have c: "?c = fst (circuit_run ?new [Fail 1 10])" by (simp add: r0)
  have "{1, 2, 1} = {1, 2 :: int}" by auto
  then have room: "roomy ?c' ?xs" by (simp add: roomy_def keys_def demo_settings_def)
  have "snd (isBlocked (fst (circuit_run ?c' ?xs)) 1 614)"
    using circuit_quarantine_exact [OF c _ r1 room, of 614] by (simp add: op_time_def)
  moreover have "fst (circuit_run ?new [Fail 1 10, Fail 1 15, Fail 1 20, Fail 2 21]) =
      fst (circuit_run ?c' ?xs)"
    by (simp only: circuit_run.simps(2) [of _ "Fail 1 10"] circuit_run.simps(2) [of _ "Fail 1 15"]
        circuit_step.simps r0 r1 Let_def prod.case case_prod_beta fst_conv)
  ultimately show ?thesis by simp
qed

end
