(* ===== verification/Calendar.thy ===== *)
theory Calendar
  imports Prelude
begin

text \<open>
  Calendar days in the configured time zone: \<^verbatim>\<open>backend/internal/pkg/timezone\<close> and the parts
  of \<^verbatim>\<open>time.Date\<close> and \<^verbatim>\<open>Time.AddDate\<close> the code relies on. A zone is Go's
  \<^verbatim>\<open>Location.lookup\<close>: the offset in force at an instant and the bounds of the period in which
  it is. A wall-clock reading is the instant at which a clock in UTC shows it; counting its
  days is what the year, month and day arithmetic of \<^verbatim>\<open>time.Date\<close> amounts to.
\<close>

definition day_ns :: go_duration where "day_ns = 24 * hour"

lemma day_ns_pos [simp]: "0 < day_ns" "day_ns \<noteq> 0" "0 \<le> day_ns"
  by (simp_all add: day_ns_def duration_units)

type_synonym zone = "go_time \<Rightarrow> go_duration \<times> go_time \<times> go_time"

definition wall_clock :: "zone \<Rightarrow> go_time \<Rightarrow> go_time" where
  "wall_clock z t = t + fst (z t)"

definition time_Date :: "zone \<Rightarrow> go_time \<Rightarrow> go_time" where
  "time_Date z w =
     (case z w of (off, start, end_) \<Rightarrow>
        if off = 0 then w
        else let utc = w - off in
          if utc < start \<or> end_ \<le> utc then w - fst (z utc) else utc)"

definition StartOfDay :: "zone \<Rightarrow> go_time \<Rightarrow> go_time" where
  "StartOfDay z t = time_Date z (wall_clock z t div day_ns * day_ns)"

text \<open>\<^verbatim>\<open>t.AddDate(0, 0, days)\<close>.\<close>

definition AddDate :: "zone \<Rightarrow> go_time \<Rightarrow> int \<Rightarrow> go_time" where
  "AddDate z t days = time_Date z (wall_clock z t + days * day_ns)"

section \<open>What the subscription code expects of a zone\<close>

text \<open>
  Every calendar day has a midnight, so that the start of a day lies in that day, and adding
  a day or more moves forward.
\<close>

locale time_zone =
  fixes z :: zone
  assumes midnight: "StartOfDay z (StartOfDay z t) = StartOfDay z t"
    and forward: "1 \<le> days \<Longrightarrow> t < AddDate z t days"
begin

lemma same_day_start:
  "StartOfDay z t = StartOfDay z u \<or> StartOfDay z (StartOfDay z t) \<noteq> StartOfDay z (StartOfDay z u)"
  by (simp add: midnight)

lemma next_midnight: "StartOfDay z t < AddDate z (StartOfDay z t) 1"
  by (rule forward) simp

end

text \<open>A zone with a fixed offset, such as the default \<^verbatim>\<open>Asia/Shanghai\<close> since 1992.\<close>

definition fixed_zone :: "go_duration \<Rightarrow> zone" where
  "fixed_zone off = (\<lambda>t. (off, minDuration * second, maxDuration * second))"

lemma time_Date_fixed [simp]: "time_Date (fixed_zone off) w = w - off"
  by (simp add: time_Date_def fixed_zone_def Let_def)

lemma wall_clock_fixed [simp]: "wall_clock (fixed_zone off) t = t + off"
  by (simp add: wall_clock_def fixed_zone_def)

lemma StartOfDay_fixed: "StartOfDay (fixed_zone off) t = (t + off) div day_ns * day_ns - off"
  by (simp add: StartOfDay_def)

lemma AddDate_fixed: "AddDate (fixed_zone off) t days = t + days * day_ns"
  by (simp add: AddDate_def)

interpretation fixed: time_zone "fixed_zone off" for off
proof
  show "StartOfDay (fixed_zone off) (StartOfDay (fixed_zone off) t) = StartOfDay (fixed_zone off) t"
    for t by (simp add: StartOfDay_fixed)
  show "1 \<le> days \<Longrightarrow> t < AddDate (fixed_zone off) t days" for t days
    by (simp add: AddDate_fixed)
qed

text \<open>
  A zone whose clocks jump at midnight, west of Greenwich, as in Havana or Santiago: at the
  end of day \<open>d\<close> the offset goes from \<open>-h\<close> hours to \<open>-h + 1\<close>.
\<close>

definition gap_zone :: "int \<Rightarrow> int \<Rightarrow> zone" where
  "gap_zone h d = (\<lambda>t. let jump = (d + 1) * day_ns + h * hour in
     if t < jump then (- h * hour, minDuration * second, jump)
     else (- h * hour + hour, jump, maxDuration * second))"

lemma day_div: "0 \<le> r \<Longrightarrow> r < day_ns \<Longrightarrow> (d * day_ns + r) div day_ns = d"
  by (simp add: div_add1_eq)

lemma day_div_eqI:
  assumes "d * day_ns \<le> w" "w < (d + 1) * day_ns" shows "w div day_ns = d"
  using day_div [of "w - d * day_ns" d] assms by (simp add: algebra_simps)

text \<open>There \<^verbatim>\<open>StartOfDay\<close> of a moment of the new day is one hour before midnight, on the old one.\<close>

lemma gap_zone_StartOfDay:
  assumes "2 \<le> h" "h \<le> 12" "0 \<le> d" "(d + 1) * day_ns + h * hour \<le> t"
    "t < (d + 2) * day_ns + (h - 1) * hour"
  shows "StartOfDay (gap_zone h d) t = (d + 1) * day_ns + (h - 1) * hour"
    and "StartOfDay (gap_zone h d) ((d + 1) * day_ns + (h - 1) * hour) = d * day_ns + h * hour"
proof -
  let ?z = "gap_zone h d"
  have D: "day_ns = 24 * hour" "0 < hour" by (simp_all add: day_ns_def duration_units)
  have off: "?z u = (- h * hour, minDuration * second, (d + 1) * day_ns + h * hour)"
    if "u < (d + 1) * day_ns + h * hour" for u using that by (simp add: gap_zone_def Let_def)
  have off': "?z u = (- h * hour + hour, (d + 1) * day_ns + h * hour, maxDuration * second)"
    if "(d + 1) * day_ns + h * hour \<le> u" for u using that by (simp add: gap_zone_def Let_def)
  have h: "0 < h * hour" "hour \<le> h * hour" "h * hour \<le> 12 * hour" using assms(1,2) D(2) by simp_all
  have "wall_clock ?z t div day_ns = d + 1"
    using assms(4,5) D h off' [of t]
    by (intro day_div_eqI) (auto simp: wall_clock_def algebra_simps)
  moreover have "time_Date ?z ((d + 1) * day_ns) = (d + 1) * day_ns + (h - 1) * hour"
    using off [of "(d + 1) * day_ns"] off' [of "(d + 1) * day_ns + h * hour"] h assms(1)
    by (simp add: time_Date_def Let_def algebra_simps)
  ultimately show "StartOfDay ?z t = (d + 1) * day_ns + (h - 1) * hour"
    by (simp add: StartOfDay_def)
  let ?e = "(d + 1) * day_ns + (h - 1) * hour"
  have "wall_clock ?z ?e div day_ns = d"
    using off [of ?e] D h by (intro day_div_eqI) (auto simp: wall_clock_def algebra_simps)
  moreover have "time_Date ?z (d * day_ns) = d * day_ns + h * hour"
  proof -
    have o: "?z (d * day_ns) = (- h * hour, minDuration * second, (d + 1) * day_ns + h * hour)"
    proof (rule off)
      have "(d + 1) * day_ns = d * day_ns + day_ns" by (simp add: distrib_right)
      with h(1) day_ns_pos(1) show "d * day_ns < (d + 1) * day_ns + h * hour" by linarith
    qed
    have "0 \<le> d * day_ns" using assms(3) by (intro mult_nonneg_nonneg less_imp_le [OF day_ns_pos(1)])
    then have "\<not> d * day_ns + h * hour < minDuration * second"
      using h(1) by (simp add: minDuration_def second_def)
    moreover have "\<not> (d + 1) * day_ns + h * hour \<le> d * day_ns + h * hour"
      using day_ns_pos(1) by (simp add: distrib_right not_le del: day_ns_pos)
    ultimately show ?thesis using h(1) by (simp add: time_Date_def o Let_def)
  qed
  ultimately show "StartOfDay ?z ?e = d * day_ns + h * hour"
    by (simp add: StartOfDay_def)
qed

end
