(* ===== verification/SubscriptionWindows.thy ===== *)
theory SubscriptionWindows
  imports Calendar Complex_Main
begin

text \<open>
  \<^verbatim>\<open>backend/internal/service/user_subscription.go\<close>: a subscription, its daily, weekly and
  monthly usage windows and when they may advance. Amounts of money are \<^typ>\<open>rat\<close> (the
  columns are \<^verbatim>\<open>decimal(20,10)\<close>); the related user and group are not part of the record.
\<close>

definition SubscriptionStatusActive :: string where "SubscriptionStatusActive = ''active''"
definition SubscriptionStatusExpired :: string where "SubscriptionStatusExpired = ''expired''"
definition SubscriptionStatusSuspended :: string where
  "SubscriptionStatusSuspended = ''suspended''"

lemmas subscription_statuses = SubscriptionStatusActive_def SubscriptionStatusExpired_def
  SubscriptionStatusSuspended_def

definition subscriptionDayDuration :: go_duration where "subscriptionDayDuration = 24 * hour"

record UserSubscription =
  ID :: int
  UserID :: int
  GroupID :: int
  StartsAt :: go_time
  ExpiresAt :: go_time
  Status :: string
  DailyWindowStart :: "go_time option"
  WeeklyWindowStart :: "go_time option"
  MonthlyWindowStart :: "go_time option"
  DailyUsageUSD :: rat
  WeeklyUsageUSD :: rat
  MonthlyUsageUSD :: rat
  AssignedBy :: "int option"
  AssignedAt :: go_time
  Notes :: string
  CreatedAt :: go_time
  UpdatedAt :: go_time
  DeletedAt :: "go_time option"

text \<open>The part of a group the limits are read from.\<close>

record Group =
  SubscriptionType :: string
  DailyLimitUSD :: "rat option"
  WeeklyLimitUSD :: "rat option"
  MonthlyLimitUSD :: "rat option"

definition SubscriptionTypeSubscription :: string where
  "SubscriptionTypeSubscription = ''subscription''"

definition IsSubscriptionType :: "Group \<Rightarrow> bool" where
  "IsSubscriptionType g \<longleftrightarrow> SubscriptionType g = SubscriptionTypeSubscription"

definition HasDailyLimit :: "Group \<Rightarrow> bool" where
  "HasDailyLimit g = (case DailyLimitUSD g of None \<Rightarrow> False | Some l \<Rightarrow> l > 0)"
definition HasWeeklyLimit :: "Group \<Rightarrow> bool" where
  "HasWeeklyLimit g = (case WeeklyLimitUSD g of None \<Rightarrow> False | Some l \<Rightarrow> l > 0)"
definition HasMonthlyLimit :: "Group \<Rightarrow> bool" where
  "HasMonthlyLimit g = (case MonthlyLimitUSD g of None \<Rightarrow> False | Some l \<Rightarrow> l > 0)"

section \<open>Validity\<close>

definition sub_IsActive :: "UserSubscription \<Rightarrow> go_time \<Rightarrow> bool" where
  "sub_IsActive s now \<longleftrightarrow> Status s = SubscriptionStatusActive \<and> now < ExpiresAt s"

definition sub_IsExpired :: "UserSubscription \<Rightarrow> go_time \<Rightarrow> bool" where
  "sub_IsExpired s now \<longleftrightarrow> now > ExpiresAt s"

definition daysRemainingAt :: "UserSubscription \<Rightarrow> go_time \<Rightarrow> int" where
  "daysRemainingAt s now =
     (let remaining = time_sub (ExpiresAt s) now in
      if remaining \<le> 0 then 0
      else let days = go_div remaining subscriptionDayDuration in
        if go_mod remaining subscriptionDayDuration \<noteq> 0 then days + 1 else days)"

definition IsWindowActivated :: "UserSubscription \<Rightarrow> bool" where
  "IsWindowActivated s \<longleftrightarrow>
     DailyWindowStart s \<noteq> None \<or> WeeklyWindowStart s \<noteq> None \<or> MonthlyWindowStart s \<noteq> None"

definition HasOneTimeDailyQuota :: "zone \<Rightarrow> UserSubscription \<Rightarrow> bool" where
  "HasOneTimeDailyQuota z s \<longleftrightarrow>
     (if StartsAt s = 0 \<or> ExpiresAt s = 0 then False
      else \<not> ExpiresAt s > AddDate z (StartsAt s) 1)"

section \<open>When a window advances\<close>

definition week :: go_duration where "week = 7 * 24 * hour"
definition month :: go_duration where "month = 30 * 24 * hour"

lemma periods_pos [simp]: "0 < week" "0 < month"
  by (simp_all add: week_def month_def duration_units)

definition automaticDailyWindowStartAt :: "zone \<Rightarrow> UserSubscription \<Rightarrow> go_time \<Rightarrow> go_time option" where
  "automaticDailyWindowStartAt z s now =
     (case DailyWindowStart s of
        None \<Rightarrow> None
      | Some w \<Rightarrow>
          if HasOneTimeDailyQuota z s then None
          else let today = StartOfDay z now in
            if \<not> today > StartOfDay z w then None else Some today)"

definition windowResetAnchor :: "zone \<Rightarrow> UserSubscription \<Rightarrow> go_time \<Rightarrow> go_time" where
  "windowResetAnchor z s previous =
     (let legacyAnchor = StartOfDay z (StartsAt s) in
      if legacyAnchor < StartsAt s \<and> previous = legacyAnchor then StartsAt s else previous)"

definition automaticWindowStartAt ::
  "zone \<Rightarrow> UserSubscription \<Rightarrow> go_time option \<Rightarrow> go_duration \<Rightarrow> go_time \<Rightarrow> go_time option" where
  "automaticWindowStartAt z s previous period now =
     (case previous of
        None \<Rightarrow> None
      | Some previous \<Rightarrow>
          let anchor = windowResetAnchor z s previous;
              next = anchor + period
          in if now < next \<or> \<not> next < ExpiresAt s then None
             else
               let periods = go_div (time_sub now anchor) period;
                   lastPeriodBeforeExpiry = go_div (time_sub (ExpiresAt s) anchor - 1) period;
                   periods = (if periods > lastPeriodBeforeExpiry then lastPeriodBeforeExpiry
                              else periods)
               in Some (anchor + periods * period))"

definition NeedsDailyResetAt :: "zone \<Rightarrow> UserSubscription \<Rightarrow> go_time \<Rightarrow> bool" where
  "NeedsDailyResetAt z s now \<longleftrightarrow> automaticDailyWindowStartAt z s now \<noteq> None"

definition NeedsWeeklyResetAt :: "UserSubscription \<Rightarrow> go_time \<Rightarrow> bool" where
  "NeedsWeeklyResetAt s now =
     (case WeeklyWindowStart s of None \<Rightarrow> False | Some w \<Rightarrow> \<not> now < w + week)"

definition NeedsMonthlyResetAt :: "UserSubscription \<Rightarrow> go_time \<Rightarrow> bool" where
  "NeedsMonthlyResetAt s now =
     (case MonthlyWindowStart s of None \<Rightarrow> False | Some w \<Rightarrow> \<not> now < w + month)"

definition canAutomaticallyResetDailyAt :: "zone \<Rightarrow> UserSubscription \<Rightarrow> go_time \<Rightarrow> bool" where
  "canAutomaticallyResetDailyAt z s now \<longleftrightarrow> automaticDailyWindowStartAt z s now \<noteq> None"

definition canAutomaticallyResetWeeklyAt :: "zone \<Rightarrow> UserSubscription \<Rightarrow> go_time \<Rightarrow> bool" where
  "canAutomaticallyResetWeeklyAt z s now \<longleftrightarrow>
     automaticWindowStartAt z s (WeeklyWindowStart s) week now \<noteq> None"

definition canAutomaticallyResetMonthlyAt :: "zone \<Rightarrow> UserSubscription \<Rightarrow> go_time \<Rightarrow> bool" where
  "canAutomaticallyResetMonthlyAt z s now \<longleftrightarrow>
     automaticWindowStartAt z s (MonthlyWindowStart s) month now \<noteq> None"

text \<open>The reset times shown to users.\<close>

definition DailyResetTime :: "zone \<Rightarrow> UserSubscription \<Rightarrow> go_time option" where
  "DailyResetTime z s =
     (case DailyWindowStart s of
        None \<Rightarrow> None
      | Some w \<Rightarrow>
          if HasOneTimeDailyQuota z s then Some (ExpiresAt s)
          else Some (AddDate z (StartOfDay z w) 1))"

definition WeeklyResetTime :: "zone \<Rightarrow> UserSubscription \<Rightarrow> go_time option" where
  "WeeklyResetTime z s =
     (case WeeklyWindowStart s of None \<Rightarrow> None | Some w \<Rightarrow> Some (windowResetAnchor z s w + week))"

definition MonthlyResetTime :: "zone \<Rightarrow> UserSubscription \<Rightarrow> go_time option" where
  "MonthlyResetTime z s =
     (case MonthlyWindowStart s of None \<Rightarrow> None | Some w \<Rightarrow> Some (windowResetAnchor z s w + month))"

section \<open>Limits\<close>

definition CheckDailyLimit :: "UserSubscription \<Rightarrow> Group \<Rightarrow> rat \<Rightarrow> bool" where
  "CheckDailyLimit s g cost =
     (if \<not> HasDailyLimit g then True else DailyUsageUSD s + cost \<le> the (DailyLimitUSD g))"

definition CheckWeeklyLimit :: "UserSubscription \<Rightarrow> Group \<Rightarrow> rat \<Rightarrow> bool" where
  "CheckWeeklyLimit s g cost =
     (if \<not> HasWeeklyLimit g then True else WeeklyUsageUSD s + cost \<le> the (WeeklyLimitUSD g))"

definition CheckMonthlyLimit :: "UserSubscription \<Rightarrow> Group \<Rightarrow> rat \<Rightarrow> bool" where
  "CheckMonthlyLimit s g cost =
     (if \<not> HasMonthlyLimit g then True else MonthlyUsageUSD s + cost \<le> the (MonthlyLimitUSD g))"

definition CheckAllLimits :: "UserSubscription \<Rightarrow> Group \<Rightarrow> rat \<Rightarrow> bool \<times> bool \<times> bool" where
  "CheckAllLimits s g cost =
     (CheckDailyLimit s g cost, CheckWeeklyLimit s g cost, CheckMonthlyLimit s g cost)"

text \<open>Only the term, and for the daily window its start, matter.\<close>

lemma automaticWindowStartAt_cong:
  assumes "StartsAt s = StartsAt s'" "ExpiresAt s = ExpiresAt s'"
  shows "automaticWindowStartAt z s = automaticWindowStartAt z s'"
proof (intro ext)
  fix p period now
  have "windowResetAnchor z s q = windowResetAnchor z s' q" for q
    using assms by (simp add: windowResetAnchor_def Let_def)
  then show "automaticWindowStartAt z s p period now = automaticWindowStartAt z s' p period now"
    using assms by (cases p) (simp_all add: automaticWindowStartAt_def Let_def)
qed

lemma automaticDailyWindowStartAt_cong:
  assumes "StartsAt s = StartsAt s'" "ExpiresAt s = ExpiresAt s'"
    "DailyWindowStart s = DailyWindowStart s'"
  shows "automaticDailyWindowStartAt z s now = automaticDailyWindowStartAt z s' now"
  using assms
  by (cases "DailyWindowStart s'")
     (simp_all add: automaticDailyWindowStartAt_def HasOneTimeDailyQuota_def)

section \<open>Rolling windows\<close>

text \<open>
  What a policy that advances windows promises: forward by whole periods, to a start that is
  past and before the expiry.
\<close>

locale window_policy =
  fixes advance :: "go_time \<Rightarrow> go_time \<Rightarrow> go_time option"
    and period :: go_duration
    and expiry :: go_time
  assumes period_pos: "0 < period"
    and advance_by: "advance p t = Some w \<Longrightarrow> p + period \<le> w"
    and advance_past: "advance p t = Some w \<Longrightarrow> w \<le> t"
    and advance_before: "advance p t = Some w \<Longrightarrow> w < expiry"

text \<open>A sequence of advances from a window start, each with the moment it happened.\<close>

fun granted ::
  "(go_time \<Rightarrow> go_time \<Rightarrow> go_time option) \<Rightarrow> go_time \<Rightarrow> (go_time \<times> go_time) list \<Rightarrow> bool" where
  "granted advance p [] \<longleftrightarrow> True"
| "granted advance p ((t, w) # xs) \<longleftrightarrow> advance p t = Some w \<and> granted advance w xs"

context window_policy
begin

lemma advance_strict: "advance p t = Some w \<Longrightarrow> p < w"
  using advance_by period_pos by force

lemma granted_span:
  "granted advance p xs \<Longrightarrow> xs \<noteq> [] \<Longrightarrow>
   p + int (length xs) * period \<le> snd (last xs) \<and> snd (last xs) < expiry"
proof (induction xs arbitrary: p)
  case (Cons x xs)
  obtain t w where x: "x = (t, w)" by fastforce
  with Cons.prems have "p + period \<le> w" "w < expiry" by (auto dest: advance_by advance_before)
  with Cons.prems Cons.IH [of w] x show ?case by (cases "xs = []") (simp_all add: algebra_simps)
qed simp

lemma grants_bounded:
  "granted advance p xs \<Longrightarrow> xs \<noteq> [] \<Longrightarrow> int (length xs) * period < expiry - p"
  using granted_span [of p xs] by linarith

end

lemma automaticWindowStartAt_Some:
  assumes "automaticWindowStartAt z s (Some p) period now = Some w"
    and "0 < period" "period < maxDuration"
  defines "a \<equiv> windowResetAnchor z s p"
  shows "\<exists>k \<ge> 1. w = a + k * period" "w \<le> now" "w < ExpiresAt s"
proof -
  let ?k1 = "time_sub now a div period"
  let ?k2 = "(time_sub (ExpiresAt s) a - 1) div period"
  have nx: "a + period \<le> now" "a + period < ExpiresAt s"
    using assms(1) by (auto simp: automaticWindowStartAt_def a_def Let_def split: if_splits)
  have p1: "period \<le> time_sub now a" and p2: "period \<le> time_sub (ExpiresAt s) a - 1"
    using nx assms(2,3) by (auto simp: time_sub_def maxDuration_def minDuration_def)
  have w: "w = a + min ?k1 ?k2 * period"
    using assms(1,2) p1 p2 nx
    by (auto simp: automaticWindowStartAt_def a_def [symmetric] Let_def go_div_nonneg min_def)
  have "1 \<le> ?k1" "1 \<le> ?k2" using p1 p2 assms(2) by (simp_all add: pos_imp_zdiv_pos_iff int_one_le_iff_zero_less)
  then show "\<exists>k \<ge> 1. w = a + k * period" using w by (intro exI [of _ "min ?k1 ?k2"]) simp
  have "min ?k1 ?k2 * period \<le> time_sub now a"
    using assms(2) by (smt (verit) div_mult_mod_eq mult_right_mono pos_mod_sign min.cobounded1)
  moreover have "time_sub now a \<le> now - a" using nx assms(2) by (intro time_sub_le_diff) simp
  ultimately show "w \<le> now" using w by linarith
  have "min ?k1 ?k2 * period \<le> time_sub (ExpiresAt s) a - 1"
    using assms(2) by (smt (verit) div_mult_mod_eq mult_right_mono pos_mod_sign min.cobounded2)
  moreover have "time_sub (ExpiresAt s) a \<le> ExpiresAt s - a"
    using nx assms(2) by (intro time_sub_le_diff) simp
  ultimately show "w < ExpiresAt s" using w by linarith
qed

lemma windowResetAnchor_le: "p \<le> windowResetAnchor z s p"
  by (auto simp: windowResetAnchor_def Let_def)

lemma periods_small [simp]: "week < maxDuration" "month < maxDuration"
  by (simp_all add: week_def month_def duration_units maxDuration_def)

lemma window_policyI:
  assumes "0 < period" "period < maxDuration"
  shows "window_policy (\<lambda>p t. automaticWindowStartAt z s (Some p) period t) period (ExpiresAt s)"
proof
  fix p t w
  assume w: "automaticWindowStartAt z s (Some p) period t = Some w"
  obtain k where k: "1 \<le> k" "w = windowResetAnchor z s p + k * period"
    using automaticWindowStartAt_Some(1) [OF w assms] by blast
  have "period \<le> k * period" using mult_right_mono [of 1 k period] k(1) assms(1) by simp
  with k(2) windowResetAnchor_le [of p z s] show "p + period \<le> w" by linarith
  show "w \<le> t" by (rule automaticWindowStartAt_Some(2) [OF w assms])
  show "w < ExpiresAt s" by (rule automaticWindowStartAt_Some(3) [OF w assms])
qed (rule assms(1))

interpretation weekly:
  window_policy "\<lambda>p t. automaticWindowStartAt z s (Some p) week t" week "ExpiresAt s" for z s
  by (rule window_policyI) simp_all

interpretation monthly:
  window_policy "\<lambda>p t. automaticWindowStartAt z s (Some p) month t" month "ExpiresAt s" for z s
  by (rule window_policyI) simp_all

text \<open>The advance goes as far as it may: the new window is current, or the last before expiry.\<close>

lemma automaticWindowStartAt_maximal:
  assumes "automaticWindowStartAt z s (Some p) period now = Some w"
    and "0 < period" "period < maxDuration"
    and "now - p \<le> maxDuration" "ExpiresAt s - p \<le> maxDuration"
  shows "now < w + period \<or> ExpiresAt s \<le> w + period"
proof -
  let ?a = "windowResetAnchor z s p"
  have nx: "?a + period \<le> now" "?a + period < ExpiresAt s"
    using assms(1) by (auto simp: automaticWindowStartAt_def Let_def split: if_splits)
  note le = windowResetAnchor_le [of p z s]
  have sub: "time_sub now ?a = now - ?a" "time_sub (ExpiresAt s) ?a = ExpiresAt s - ?a"
    using nx assms(2,4,5) le by (auto intro!: time_sub_exact simp: minDuration_def)
  let ?k1 = "(now - ?a) div period" and ?k2 = "(ExpiresAt s - ?a - 1) div period"
  have w: "w = ?a + min ?k1 ?k2 * period"
    using assms(1,2) nx
    by (auto simp: automaticWindowStartAt_def Let_def go_div_nonneg min_def sub)
  have "now - ?a < ?k1 * period + period" "ExpiresAt s - ?a - 1 < ?k2 * period + period"
    using assms(2) by (smt (verit) div_mult_mod_eq pos_mod_bound)+
  with w show ?thesis by (cases "?k1 \<le> ?k2") (auto simp: min_def)
qed

lemma automaticWindowStartAt_settled:
  assumes "automaticWindowStartAt z s (Some p) period now = Some w"
    and "0 < period" "period < maxDuration"
    and "now - p \<le> maxDuration" "ExpiresAt s - p \<le> maxDuration"
    and "StartsAt s' = StartsAt s" "ExpiresAt s' = ExpiresAt s"
  shows "automaticWindowStartAt z s' (Some w) period now = None"
  using automaticWindowStartAt_maximal [OF assms(1-5)] windowResetAnchor_le [of w z s'] assms(7)
  by (auto simp: automaticWindowStartAt_def Let_def)

section \<open>What users are told\<close>

lemma le_day_iff: "q \<le> n div day_ns \<longleftrightarrow> q * day_ns \<le> n"
proof
  have split: "n = n div day_ns * day_ns + n mod day_ns" "0 \<le> n mod day_ns" by simp_all
  { assume "q \<le> n div day_ns"
    then have "q * day_ns \<le> n div day_ns * day_ns" by (intro mult_right_mono) auto
    with split show "q * day_ns \<le> n" by linarith }
  { assume "q * day_ns \<le> n"
    then have "(q * day_ns) div day_ns \<le> n div day_ns" by (intro zdiv_mono1) auto
    then show "q \<le> n div day_ns" by simp }
qed


lemma day_rest:
  "if n mod day_ns = 0 then n div day_ns * day_ns = n
   else n div day_ns * day_ns < n \<and> n < n div day_ns * day_ns + day_ns"
proof -
  have "n = n div day_ns * day_ns + n mod day_ns" by simp
  moreover have "0 \<le> n mod day_ns" "n mod day_ns < day_ns" by simp_all
  ultimately show ?thesis by (simp only: split: if_split) linarith
qed

text \<open>
  The weekly and monthly reset times shown to users are exact: a window advances from
  the shown time on, and never if that time is not before the expiry. The daily reset time
  is exact in a zone with a fixed offset, except for subscriptions of at most a day, whose
  daily quota is granted once.
\<close>

theorem reset_times_exact:
  "(canAutomaticallyResetWeeklyAt z s now \<longleftrightarrow>
      (case WeeklyResetTime z s of None \<Rightarrow> False | Some t \<Rightarrow> t \<le> now \<and> t < ExpiresAt s)) \<and>
   (canAutomaticallyResetMonthlyAt z s now \<longleftrightarrow>
      (case MonthlyResetTime z s of None \<Rightarrow> False | Some t \<Rightarrow> t \<le> now \<and> t < ExpiresAt s)) \<and>
   (canAutomaticallyResetDailyAt (fixed_zone off) s now \<longleftrightarrow>
      (case DailyResetTime (fixed_zone off) s of None \<Rightarrow> False
       | Some t \<Rightarrow> \<not> HasOneTimeDailyQuota (fixed_zone off) s \<and> t \<le> now))"
proof (intro conjI)
  have next_day: "StartOfDay (fixed_zone off) w < StartOfDay (fixed_zone off) now \<longleftrightarrow>
      StartOfDay (fixed_zone off) w + day_ns \<le> now" for w
  proof -
    let ?q = "(w + off) div day_ns" and ?n = "(now + off) div day_ns"
    have "?q * day_ns < ?n * day_ns \<longleftrightarrow> ?q + 1 \<le> ?n"
      using mult_less_cancel_right_pos [of day_ns ?q ?n] by auto
    also have "\<dots> \<longleftrightarrow> (?q + 1) * day_ns \<le> now + off" by (rule le_day_iff)
    finally show ?thesis by (simp add: StartOfDay_fixed distrib_right algebra_simps)
  qed
  show "canAutomaticallyResetDailyAt (fixed_zone off) s now \<longleftrightarrow>
      (case DailyResetTime (fixed_zone off) s of None \<Rightarrow> False
       | Some t \<Rightarrow> \<not> HasOneTimeDailyQuota (fixed_zone off) s \<and> t \<le> now)"
    using next_day
    by (auto simp: canAutomaticallyResetDailyAt_def automaticDailyWindowStartAt_def
        DailyResetTime_def AddDate_fixed Let_def split: option.split)
qed (auto simp: canAutomaticallyResetWeeklyAt_def canAutomaticallyResetMonthlyAt_def
    automaticWindowStartAt_def WeeklyResetTime_def MonthlyResetTime_def Let_def split: option.split)

text \<open>
  The number of days shown as remaining is the remaining time in days rounded up, and
  zero once the subscription has run out.
\<close>

theorem days_remaining_rounds_up:
  "let r = time_sub (ExpiresAt s) now; d = daysRemainingAt s now in
     (r \<le> 0 \<and> d = 0) \<or> (0 < r \<and> (d - 1) * day_ns < r \<and> r \<le> d * day_ns)"
proof (cases "time_sub (ExpiresAt s) now \<le> 0")
  case False
  let ?r = "time_sub (ExpiresAt s) now"
  have D: "subscriptionDayDuration = day_ns" by (simp add: subscriptionDayDuration_def day_ns_def)
  have "0 \<le> ?r" using False by linarith
  then have "go_div ?r day_ns = ?r div day_ns" "go_mod ?r day_ns = ?r mod day_ns"
    by (rule go_div_nonneg, simp) (rule go_mod_nonneg, use \<open>0 \<le> ?r\<close> in simp_all)
  with day_rest [of ?r] show ?thesis
    using False
    by (cases "?r mod day_ns = 0")
       (simp_all add: daysRemainingAt_def Let_def D distrib_right left_diff_distrib)
qed (simp add: daysRemainingAt_def)

section \<open>An example\<close>

text \<open>A subscription of 31 days, on the first day of the first month in UTC.\<close>

definition demo_sub :: UserSubscription where
  "demo_sub = \<lparr>ID = 1, UserID = 7, GroupID = 3, StartsAt = day_ns, ExpiresAt = 32 * day_ns,
     Status = SubscriptionStatusActive, DailyWindowStart = Some day_ns,
     WeeklyWindowStart = Some day_ns, MonthlyWindowStart = Some day_ns,
     DailyUsageUSD = 2, WeeklyUsageUSD = 2, MonthlyUsageUSD = 2, AssignedBy = None,
     AssignedAt = day_ns, Notes = [], CreatedAt = day_ns, UpdatedAt = day_ns, DeletedAt = None\<rparr>"

end
