(* ===== verification/SubscriptionStore.thy ===== *)
theory SubscriptionStore
  imports SubscriptionWindows
begin

text \<open>
  \<^verbatim>\<open>backend/internal/repository/user_subscription_repo.go\<close>: the table
  \<^verbatim>\<open>user_subscriptions\<close>. Rows are found by id; queries and deletions skip rows that are
  softly deleted, updates do not. Every operation is one statement, hence atomic; \<open>clock\<close> is the
  moment it runs, which ent stores in \<^verbatim>\<open>updated_at\<close>. Timestamps keep their nanoseconds.
\<close>

datatype sub_error =
    ErrSubscriptionNotFound | ErrSubscriptionExpired | ErrSubscriptionSuspended
  | ErrSubscriptionAlreadyExists | ErrSubscriptionAssignConflict string
  | ErrSubscriptionNotRevoked | ErrSubscriptionRestoreConflict
  | ErrGroupNotSubscriptionType | ErrInvalidInput | ErrDailyLimitExceeded
  | ErrWeeklyLimitExceeded | ErrMonthlyLimitExceeded | ErrAdjustWouldExpire
  | ErrCannotShortenExpired | ErrGroupNotFound

type_synonym sub_table = "int \<rightharpoonup> UserSubscription"
type_synonym 'a sub_result = "sub_table \<times> (sub_error + 'a)"

definition live_row :: "sub_table \<Rightarrow> int \<Rightarrow> UserSubscription option" where
  "live_row t i =
     (case t i of None \<Rightarrow> None | Some r \<Rightarrow> if DeletedAt r = None then Some r else None)"

definition found :: "UserSubscription option \<Rightarrow> sub_error + UserSubscription" where
  "found r = (case r of None \<Rightarrow> Inl ErrSubscriptionNotFound | Some r \<Rightarrow> Inr r)"

definition repo_GetByID :: "sub_table \<Rightarrow> int \<Rightarrow> sub_error + UserSubscription" where
  "repo_GetByID t i = found (live_row t i)"

text \<open>The lock taken here is held until the surrounding transaction ends.\<close>

definition repo_GetByIDForUpdate :: "sub_table \<Rightarrow> int \<Rightarrow> sub_error + UserSubscription" where
  "repo_GetByIDForUpdate t i = found (live_row t i)"

definition repo_GetByIDIncludeDeleted :: "sub_table \<Rightarrow> int \<Rightarrow> sub_error + UserSubscription" where
  "repo_GetByIDIncludeDeleted t i = found (t i)"

text \<open>
  At most one live row has a given user and group: a partial unique index of the schema.
\<close>

definition live_pair :: "sub_table \<Rightarrow> int \<Rightarrow> int \<Rightarrow> int \<Rightarrow> bool" where
  "live_pair t u g i \<longleftrightarrow> (\<exists>r. live_row t i = Some r \<and> UserID r = u \<and> GroupID r = g)"

text \<open>The ids in use are a list, so that the lookup by user and group computes.\<close>

definition repo_GetByUserIDAndGroupID ::
  "sub_table \<Rightarrow> int list \<Rightarrow> int \<Rightarrow> int \<Rightarrow> sub_error + UserSubscription" where
  "repo_GetByUserIDAndGroupID t ids u g =
     (case find (\<lambda>i. case live_row t i of None \<Rightarrow> False
                  | Some r \<Rightarrow> UserID r = u \<and> GroupID r = g) ids of
        None \<Rightarrow> Inl ErrSubscriptionNotFound
      | Some i \<Rightarrow> found (live_row t i))"

definition repo_ExistsByUserIDAndGroupID :: "sub_table \<Rightarrow> int list \<Rightarrow> int \<Rightarrow> int \<Rightarrow> bool" where
  "repo_ExistsByUserIDAndGroupID t ids u g \<longleftrightarrow>
     list_ex (\<lambda>i. case live_row t i of None \<Rightarrow> False
                | Some r \<Rightarrow> UserID r = u \<and> GroupID r = g) ids"

text \<open>An update of one row by id, as \<^verbatim>\<open>UpdateOneID\<close> does it.\<close>

definition update_one ::
  "sub_table \<Rightarrow> int \<Rightarrow> go_time \<Rightarrow> (UserSubscription \<Rightarrow> UserSubscription) \<Rightarrow> unit sub_result" where
  "update_one t i clock f =
     (case t i of
        None \<Rightarrow> (t, Inl ErrSubscriptionNotFound)
      | Some r \<Rightarrow> (t(i \<mapsto> (f r)\<lparr>UpdatedAt := clock\<rparr>), Inr ()))"

definition repo_ExtendExpiry :: "sub_table \<Rightarrow> int \<Rightarrow> go_time \<Rightarrow> go_time \<Rightarrow> unit sub_result" where
  "repo_ExtendExpiry t i e clock = update_one t i clock (\<lambda>r. r\<lparr>ExpiresAt := e\<rparr>)"

definition repo_UpdateStatus :: "sub_table \<Rightarrow> int \<Rightarrow> string \<Rightarrow> go_time \<Rightarrow> unit sub_result" where
  "repo_UpdateStatus t i st clock = update_one t i clock (\<lambda>r. r\<lparr>Status := st\<rparr>)"

definition repo_UpdateNotes :: "sub_table \<Rightarrow> int \<Rightarrow> string \<Rightarrow> go_time \<Rightarrow> unit sub_result" where
  "repo_UpdateNotes t i n clock = update_one t i clock (\<lambda>r. r\<lparr>Notes := n\<rparr>)"

text \<open>\<^verbatim>\<open>SetNillable...\<close> leaves a column alone when it is given nil.\<close>

definition keep_nil :: "'a option \<Rightarrow> 'a option \<Rightarrow> 'a option" where
  "keep_nil new old = (case new of None \<Rightarrow> old | Some x \<Rightarrow> Some x)"

definition repo_Update :: "sub_table \<Rightarrow> UserSubscription \<Rightarrow> go_time \<Rightarrow> unit sub_result" where
  "repo_Update t s clock = update_one t (ID s) clock (\<lambda>r. r\<lparr>
     UserID := UserID s, GroupID := GroupID s, StartsAt := StartsAt s, ExpiresAt := ExpiresAt s,
     Status := Status s,
     DailyWindowStart := keep_nil (DailyWindowStart s) (DailyWindowStart r),
     WeeklyWindowStart := keep_nil (WeeklyWindowStart s) (WeeklyWindowStart r),
     MonthlyWindowStart := keep_nil (MonthlyWindowStart s) (MonthlyWindowStart r),
     DailyUsageUSD := DailyUsageUSD s, WeeklyUsageUSD := WeeklyUsageUSD s,
     MonthlyUsageUSD := MonthlyUsageUSD s,
     AssignedBy := keep_nil (AssignedBy s) (AssignedBy r), AssignedAt := AssignedAt s,
     Notes := Notes s\<rparr>)"

definition repo_Delete :: "sub_table \<Rightarrow> int \<Rightarrow> go_time \<Rightarrow> sub_table" where
  "repo_Delete t i clock =
     (case live_row t i of
        None \<Rightarrow> t
      | Some r \<Rightarrow> t(i \<mapsto> r\<lparr>DeletedAt := Some clock, UpdatedAt := clock\<rparr>))"

text \<open>Restoring a row fails when the unique index already has its user and group.\<close>

definition repo_Restore ::
  "sub_table \<Rightarrow> int list \<Rightarrow> int \<Rightarrow> string \<Rightarrow> go_time \<Rightarrow> UserSubscription sub_result" where
  "repo_Restore t ids i st clock =
     (case t i of
        None \<Rightarrow> (t, Inl ErrSubscriptionNotFound)
      | Some r \<Rightarrow>
          if DeletedAt r \<noteq> None \<and> repo_ExistsByUserIDAndGroupID t ids (UserID r) (GroupID r)
          then (t, Inl ErrSubscriptionRestoreConflict)
          else let t = t(i \<mapsto> r\<lparr>Status := st, DeletedAt := None, UpdatedAt := clock\<rparr>)
            in (t, repo_GetByID t i))"

text \<open>The sequence of the id column gives \<open>i\<close>.\<close>

definition repo_Create ::
  "sub_table \<Rightarrow> int list \<Rightarrow> int \<Rightarrow> UserSubscription \<Rightarrow> go_time \<Rightarrow> UserSubscription sub_result" where
  "repo_Create t ids i s clock =
     (if repo_ExistsByUserIDAndGroupID t ids (UserID s) (GroupID s)
      then (t, Inl ErrSubscriptionAlreadyExists)
      else let r = s\<lparr>ID := i,
               StartsAt := (if StartsAt s = 0 then clock else StartsAt s),
               Status := (if Status s \<noteq> [] then Status s else SubscriptionStatusActive),
               AssignedAt := (if AssignedAt s \<noteq> 0 then AssignedAt s else clock),
               CreatedAt := clock, UpdatedAt := clock, DeletedAt := None\<rparr>
        in (t(i \<mapsto> r), Inr (s\<lparr>ID := i, CreatedAt := clock, UpdatedAt := clock\<rparr>)))"

section \<open>Windows\<close>

text \<open>A conditional update that matched no row reports only whether the row exists.\<close>

definition translateConditionalWindowReset :: "sub_table \<Rightarrow> int \<Rightarrow> bool \<Rightarrow> sub_error + unit" where
  "translateConditionalWindowReset t i affected =
     (if affected then Inr ()
      else if live_row t i = None then Inl ErrSubscriptionNotFound else Inr ())"

definition conditional_update ::
  "sub_table \<Rightarrow> int \<Rightarrow> go_time \<Rightarrow> (UserSubscription \<Rightarrow> bool) \<Rightarrow>
     (UserSubscription \<Rightarrow> UserSubscription) \<Rightarrow> unit sub_result" where
  "conditional_update t i clock P f =
     (case t i of
        Some r \<Rightarrow> if P r then (t(i \<mapsto> (f r)\<lparr>UpdatedAt := clock\<rparr>), Inr ())
                  else (t, translateConditionalWindowReset t i False)
      | None \<Rightarrow> (t, translateConditionalWindowReset t i False))"

definition repo_ActivateWindows ::
  "sub_table \<Rightarrow> int \<Rightarrow> go_time \<Rightarrow> go_time \<Rightarrow> go_time \<Rightarrow> unit sub_result" where
  "repo_ActivateWindows t i dailyStart periodicStart clock = conditional_update t i clock
     (\<lambda>r. DailyWindowStart r = None \<and> WeeklyWindowStart r = None \<and> MonthlyWindowStart r = None)
     (\<lambda>r. r\<lparr>DailyWindowStart := Some dailyStart, WeeklyWindowStart := Some periodicStart,
            MonthlyWindowStart := Some periodicStart\<rparr>)"

definition repo_ResetUsageWindows ::
  "sub_table \<Rightarrow> int \<Rightarrow> bool \<Rightarrow> bool \<Rightarrow> bool \<Rightarrow> go_time \<Rightarrow> go_time \<Rightarrow> go_time \<Rightarrow> unit sub_result" where
  "repo_ResetUsageWindows t i resetDaily resetWeekly resetMonthly dailyStart periodicStart clock =
     update_one t i clock (\<lambda>r.
       let r = (if resetDaily then r\<lparr>DailyUsageUSD := 0, DailyWindowStart := Some dailyStart\<rparr> else r);
           r = (if resetWeekly
                then r\<lparr>WeeklyUsageUSD := 0, WeeklyWindowStart := Some periodicStart\<rparr> else r)
       in (if resetMonthly
           then r\<lparr>MonthlyUsageUSD := 0, MonthlyWindowStart := Some periodicStart\<rparr> else r))"

definition repo_ResetDailyUsage ::
  "sub_table \<Rightarrow> int \<Rightarrow> go_time option \<Rightarrow> go_time \<Rightarrow> go_time \<Rightarrow> unit sub_result" where
  "repo_ResetDailyUsage t i expected new clock = conditional_update t i clock
     (\<lambda>r. DailyWindowStart r = expected)
     (\<lambda>r. r\<lparr>DailyUsageUSD := 0, DailyWindowStart := Some new\<rparr>)"

definition repo_ResetWeeklyUsage ::
  "sub_table \<Rightarrow> int \<Rightarrow> go_time option \<Rightarrow> go_time \<Rightarrow> go_time \<Rightarrow> unit sub_result" where
  "repo_ResetWeeklyUsage t i expected new clock = conditional_update t i clock
     (\<lambda>r. WeeklyWindowStart r = expected)
     (\<lambda>r. r\<lparr>WeeklyUsageUSD := 0, WeeklyWindowStart := Some new\<rparr>)"

definition repo_ResetMonthlyUsage ::
  "sub_table \<Rightarrow> int \<Rightarrow> go_time option \<Rightarrow> go_time \<Rightarrow> go_time \<Rightarrow> unit sub_result" where
  "repo_ResetMonthlyUsage t i expected new clock = conditional_update t i clock
     (\<lambda>r. MonthlyWindowStart r = expected)
     (\<lambda>r. r\<lparr>MonthlyUsageUSD := 0, MonthlyWindowStart := Some new\<rparr>)"

text \<open>\<open>group_live\<close> tells the groups that are not softly deleted.\<close>

definition repo_IncrementUsage ::
  "(int \<Rightarrow> bool) \<Rightarrow> sub_table \<Rightarrow> int \<Rightarrow> rat \<Rightarrow> go_time \<Rightarrow> unit sub_result" where
  "repo_IncrementUsage group_live t i cost clock =
     (case live_row t i of
        Some r \<Rightarrow>
          if group_live (GroupID r)
          then (t(i \<mapsto> r\<lparr>DailyUsageUSD := DailyUsageUSD r + cost,
                WeeklyUsageUSD := WeeklyUsageUSD r + cost,
                MonthlyUsageUSD := MonthlyUsageUSD r + cost, UpdatedAt := clock\<rparr>), Inr ())
          else (t, Inl ErrSubscriptionNotFound)
      | None \<Rightarrow> (t, Inl ErrSubscriptionNotFound))"

lemmas repo_writes = repo_ExtendExpiry_def repo_UpdateStatus_def repo_UpdateNotes_def
  repo_Update_def update_one_def repo_ActivateWindows_def repo_ResetDailyUsage_def
  repo_ResetWeeklyUsage_def repo_ResetMonthlyUsage_def conditional_update_def
  translateConditionalWindowReset_def

lemmas repo_reads = repo_GetByID_def repo_GetByIDForUpdate_def repo_GetByIDIncludeDeleted_def
  found_def live_row_def

end
