(* ===== verification/SubscriptionService.thy ===== *)
theory SubscriptionService
  imports SubscriptionStore
begin

text \<open>
  \<^verbatim>\<open>backend/internal/service/subscription_service.go\<close>: assigning, renewing, adjusting and
  revoking subscriptions, and the maintenance of their usage windows. A database transaction
  is a function of the table whose effect is dropped when it fails; the row lock it takes
  serialises it with other transactions on the same subscription. \<open>now\<close> is a reading of the
  clock by the service, \<open>clock\<close> the moment of the writes. Caches and their invalidation are
  left out.
\<close>

text \<open>December 31, 2099, 23:59:59 UTC.\<close>

definition MaxExpiresAt :: go_time where
  "MaxExpiresAt = 766643 * day_ns + (day_ns - second)"

definition MaxValidityDays :: int where "MaxValidityDays = 36500"

record AssignSubscriptionInput =
  in_UserID :: int
  in_GroupID :: int
  in_ValidityDays :: int
  in_AssignedBy :: int
  in_Notes :: string

definition withSubscriptionUpdateTx ::
  "(sub_table \<Rightarrow> 'a sub_result) \<Rightarrow> sub_table \<Rightarrow> 'a sub_result" where
  "withSubscriptionUpdateTx fn t =
     (case fn t of (t', Inl e) \<Rightarrow> (t, Inl e) | (t', Inr x) \<Rightarrow> (t', Inr x))"

text \<open>Run a step, then the next one unless it failed.\<close>

definition and_then ::
  "'a sub_result \<Rightarrow> (sub_table \<Rightarrow> 'a \<Rightarrow> 'b sub_result) \<Rightarrow> 'b sub_result" where
  "and_then r k = (case r of (t, Inl e) \<Rightarrow> (t, Inl e) | (t, Inr x) \<Rightarrow> k t x)"

lemma and_then_simps [simp]:
  "and_then (t, Inl e) k = (t, Inl e)"
  "and_then (t, Inr x) k = k t x"
  by (simp_all add: and_then_def)

section \<open>Terms\<close>

definition normalizeAssignValidityDays :: "int \<Rightarrow> int" where
  "normalizeAssignValidityDays days =
     (let days = (if days \<le> 0 then 30 else days) in
      if days > MaxValidityDays then MaxValidityDays else days)"

definition appendSubscriptionNotes :: "string \<Rightarrow> string \<Rightarrow> string" where
  "appendSubscriptionNotes existing new =
     (if new = [] then existing
      else if existing = [] then new
      else existing @ [CHR 0x0A] @ new)"

definition renewedSubscriptionTerm ::
  "zone \<Rightarrow> UserSubscription \<Rightarrow> string \<Rightarrow> go_time \<Rightarrow> go_time \<Rightarrow> UserSubscription" where
  "renewedSubscriptionTerm z existing notes startsAt expiresAt = existing\<lparr>
     StartsAt := startsAt, ExpiresAt := expiresAt, Status := SubscriptionStatusActive,
     DailyWindowStart := Some (StartOfDay z startsAt),
     WeeklyWindowStart := Some startsAt, MonthlyWindowStart := Some startsAt,
     DailyUsageUSD := 0, WeeklyUsageUSD := 0, MonthlyUsageUSD := 0,
     Notes := appendSubscriptionNotes (Notes existing) notes\<rparr>"

definition cap_expiry :: "go_time \<Rightarrow> go_time" where
  "cap_expiry e = (if e > MaxExpiresAt then MaxExpiresAt else e)"

definition termExpired :: "bool \<Rightarrow> UserSubscription \<Rightarrow> go_time \<Rightarrow> bool" where
  "termExpired assignmentSemantics s now \<longleftrightarrow>
     (if assignmentSemantics
      then Status s = SubscriptionStatusExpired \<or>
           (Status s \<noteq> SubscriptionStatusSuspended \<and> \<not> ExpiresAt s > now)
      else \<not> ExpiresAt s > now)"

text \<open>The body of the transaction.\<close>

definition updateTermTx ::
  "zone \<Rightarrow> int \<Rightarrow> int \<Rightarrow> string \<Rightarrow> bool \<Rightarrow> go_time \<Rightarrow> go_time \<Rightarrow> sub_table \<Rightarrow> unit sub_result" where
  "updateTermTx z i validityDays notes assignmentSemantics now clock t =
     (case repo_GetByIDForUpdate t i of
        Inl e \<Rightarrow> (t, Inl e)
      | Inr existing \<Rightarrow>
          if assignmentSemantics \<and> Status existing = SubscriptionStatusSuspended then (t, Inr ())
          else
            let isExpired = termExpired assignmentSemantics existing now;
                newExpiresAt = (if isExpired then AddDate z now validityDays
                                else AddDate z (ExpiresAt existing) validityDays);
                newExpiresAt = cap_expiry newExpiresAt;
                notes = (if assignmentSemantics \<and> trim_space (Notes existing) = trim_space notes
                         then [] else notes)
            in if isExpired
               then repo_Update t (renewedSubscriptionTerm z existing notes now newExpiresAt) clock
               else
                 and_then (repo_ExtendExpiry t (ID existing) newExpiresAt clock) (\<lambda>t _.
                 and_then (if Status existing \<noteq> SubscriptionStatusActive
                           then repo_UpdateStatus t (ID existing) SubscriptionStatusActive clock
                           else (t, Inr ())) (\<lambda>t _.
                 if notes \<noteq> []
                 then repo_UpdateNotes t (ID existing)
                   (appendSubscriptionNotes (Notes existing) notes) clock
                 else (t, Inr ()))))"

definition updateExistingSubscriptionTerm ::
  "zone \<Rightarrow> sub_table \<Rightarrow> int \<Rightarrow> int \<Rightarrow> string \<Rightarrow> bool \<Rightarrow> go_time \<Rightarrow> go_time \<Rightarrow> unit sub_result" where
  "updateExistingSubscriptionTerm z t i validityDays notes assignmentSemantics now clock =
     withSubscriptionUpdateTx (updateTermTx z i validityDays notes assignmentSemantics now clock) t"

text \<open>\<open>i\<close> is the id the database gives to a new row.\<close>

definition createSubscription ::
  "zone \<Rightarrow> sub_table \<Rightarrow> int list \<Rightarrow> int \<Rightarrow> AssignSubscriptionInput \<Rightarrow> go_time \<Rightarrow> go_time \<Rightarrow>
     UserSubscription sub_result" where
  "createSubscription z t ids i inp now clock =
     (let validityDays = normalizeAssignValidityDays (in_ValidityDays inp);
          expiresAt = cap_expiry (AddDate z now validityDays);
          s = \<lparr>ID = 0, UserID = in_UserID inp, GroupID = in_GroupID inp, StartsAt = now,
               ExpiresAt = expiresAt, Status = SubscriptionStatusActive,
               DailyWindowStart = None, WeeklyWindowStart = None, MonthlyWindowStart = None,
               DailyUsageUSD = 0, WeeklyUsageUSD = 0, MonthlyUsageUSD = 0,
               AssignedBy = (if in_AssignedBy inp > 0 then Some (in_AssignedBy inp) else None),
               AssignedAt = now, Notes = in_Notes inp, CreatedAt = now, UpdatedAt = now,
               DeletedAt = None\<rparr>
      in and_then (repo_Create t ids i s clock) (\<lambda>t s. (t, repo_GetByID t (ID s))))"

text \<open>\<open>groups\<close> finds the groups; any error of the lookup of a subscription counts as no row.\<close>

definition assignOrExtendSubscription ::
  "zone \<Rightarrow> (int \<Rightarrow> Group option) \<Rightarrow> sub_table \<Rightarrow> int list \<Rightarrow> int \<Rightarrow> AssignSubscriptionInput \<Rightarrow>
     go_time \<Rightarrow> go_time \<Rightarrow> (UserSubscription \<times> bool) sub_result" where
  "assignOrExtendSubscription z groups t ids i inp now clock =
     (case groups (in_GroupID inp) of
        None \<Rightarrow> (t, Inl ErrGroupNotFound)
      | Some g \<Rightarrow>
          if \<not> IsSubscriptionType g then (t, Inl ErrGroupNotSubscriptionType)
          else case repo_GetByUserIDAndGroupID t ids (in_UserID inp) (in_GroupID inp) of
            Inr existing \<Rightarrow>
              and_then (updateExistingSubscriptionTerm z t (ID existing)
                  (normalizeAssignValidityDays (in_ValidityDays inp)) (in_Notes inp) False now clock)
                (\<lambda>t _. (t, case repo_GetByID t (ID existing) of Inl e \<Rightarrow> Inl e | Inr s \<Rightarrow> Inr (s, True)))
          | Inl _ \<Rightarrow>
              and_then (createSubscription z t ids i inp now clock) (\<lambda>t s. (t, Inr (s, False))))"

definition detectAssignSemanticConflict ::
  "zone \<Rightarrow> UserSubscription \<Rightarrow> AssignSubscriptionInput \<Rightarrow> string option" where
  "detectAssignSemanticConflict z existing inp =
     (let normalizedDays = normalizeAssignValidityDays (in_ValidityDays inp);
          expectedExpiresAt = cap_expiry (AddDate z (StartsAt existing) normalizedDays)
      in if StartsAt existing \<noteq> 0 \<and> ExpiresAt existing \<noteq> expectedExpiresAt
         then Some ''validity_days_mismatch''
         else if trim_space (Notes existing) \<noteq> trim_space (in_Notes inp)
         then Some ''notes_mismatch'' else None)"

definition assignSubscriptionWithReuse ::
  "zone \<Rightarrow> (int \<Rightarrow> Group option) \<Rightarrow> sub_table \<Rightarrow> int list \<Rightarrow> int \<Rightarrow> AssignSubscriptionInput \<Rightarrow>
     go_time \<Rightarrow> go_time \<Rightarrow> (UserSubscription \<times> bool) sub_result" where
  "assignSubscriptionWithReuse z groups t ids i inp now clock =
     (case groups (in_GroupID inp) of
        None \<Rightarrow> (t, Inl ErrGroupNotFound)
      | Some g \<Rightarrow>
          if \<not> IsSubscriptionType g then (t, Inl ErrGroupNotSubscriptionType)
          else if repo_ExistsByUserIDAndGroupID t ids (in_UserID inp) (in_GroupID inp)
          then case repo_GetByUserIDAndGroupID t ids (in_UserID inp) (in_GroupID inp) of
              Inl e \<Rightarrow> (t, Inl e)
            | Inr s \<Rightarrow>
                if Status s = SubscriptionStatusExpired \<or>
                   (Status s \<noteq> SubscriptionStatusSuspended \<and> \<not> ExpiresAt s > now)
                then and_then (updateExistingSubscriptionTerm z t (ID s)
                       (normalizeAssignValidityDays (in_ValidityDays inp)) (in_Notes inp) True now clock)
                     (\<lambda>t _. (t, case repo_GetByID t (ID s) of Inl e \<Rightarrow> Inl e | Inr s \<Rightarrow> Inr (s, True)))
                else case detectAssignSemanticConflict z s inp of
                    Some reason \<Rightarrow> (t, Inl (ErrSubscriptionAssignConflict reason))
                  | None \<Rightarrow> (t, Inr (s, True))
          else and_then (createSubscription z t ids i inp now clock) (\<lambda>t s. (t, Inr (s, False))))"

definition RevokeSubscription :: "sub_table \<Rightarrow> int \<Rightarrow> go_time \<Rightarrow> unit sub_result" where
  "RevokeSubscription t i clock =
     (case repo_GetByID t i of
        Inl e \<Rightarrow> (t, Inl e) | Inr _ \<Rightarrow> (repo_Delete t i clock, Inr ()))"

definition RestoreSubscription ::
  "sub_table \<Rightarrow> int list \<Rightarrow> int \<Rightarrow> go_time \<Rightarrow> go_time \<Rightarrow> UserSubscription sub_result" where
  "RestoreSubscription t ids i now clock =
     (case repo_GetByIDIncludeDeleted t i of
        Inl e \<Rightarrow> (t, Inl e)
      | Inr s \<Rightarrow>
          if DeletedAt s = None then (t, Inl ErrSubscriptionNotRevoked)
          else if repo_ExistsByUserIDAndGroupID t ids (UserID s) (GroupID s)
          then (t, Inl ErrSubscriptionRestoreConflict)
          else repo_Restore t ids i
            (if Status s = SubscriptionStatusActive \<and> \<not> ExpiresAt s > now
             then SubscriptionStatusExpired else Status s) clock)"

definition clampDays :: "int \<Rightarrow> int" where
  "clampDays days = (let days = (if days > MaxValidityDays then MaxValidityDays else days) in
     if days < - MaxValidityDays then - MaxValidityDays else days)"

definition extendTx ::
  "zone \<Rightarrow> int \<Rightarrow> int \<Rightarrow> go_time \<Rightarrow> go_time \<Rightarrow> sub_table \<Rightarrow> unit sub_result" where
  "extendTx z i days now clock t =
     (case repo_GetByIDForUpdate t i of
        Inl e \<Rightarrow> (t, Inl ErrSubscriptionNotFound)
      | Inr s \<Rightarrow>
          let days = clampDays days; isExpired = \<not> ExpiresAt s > now in
          if isExpired \<and> days < 0 then (t, Inl ErrCannotShortenExpired)
          else
            let newExpiresAt = cap_expiry (if isExpired then AddDate z now days
                                           else AddDate z (ExpiresAt s) days)
            in if \<not> newExpiresAt > now then (t, Inl ErrAdjustWouldExpire)
               else and_then (repo_ExtendExpiry t i newExpiresAt clock) (\<lambda>t _.
                 if Status s = SubscriptionStatusExpired
                 then repo_UpdateStatus t i SubscriptionStatusActive clock else (t, Inr ())))"

definition ExtendSubscription ::
  "zone \<Rightarrow> sub_table \<Rightarrow> int \<Rightarrow> int \<Rightarrow> go_time \<Rightarrow> go_time \<Rightarrow> UserSubscription sub_result" where
  "ExtendSubscription z t i days now clock =
     and_then (withSubscriptionUpdateTx (extendTx z i days now clock) t)
       (\<lambda>t _. (t, repo_GetByID t i))"

section \<open>What is shown\<close>

definition normalizeExpiredWindowsAt :: "zone \<Rightarrow> UserSubscription list \<Rightarrow> go_time \<Rightarrow> UserSubscription list" where
  "normalizeExpiredWindowsAt z subs now = map (\<lambda>s.
     let s = (if canAutomaticallyResetDailyAt z s now
              then s\<lparr>DailyWindowStart := None, DailyUsageUSD := 0\<rparr> else s);
         s = (if canAutomaticallyResetWeeklyAt z s now
              then s\<lparr>WeeklyWindowStart := None, WeeklyUsageUSD := 0\<rparr> else s)
     in (if canAutomaticallyResetMonthlyAt z s now
         then s\<lparr>MonthlyWindowStart := None, MonthlyUsageUSD := 0\<rparr> else s)) subs"

definition normalizeSubscriptionStatus :: "UserSubscription list \<Rightarrow> go_time \<Rightarrow> UserSubscription list" where
  "normalizeSubscriptionStatus subs now = map (\<lambda>s.
     if Status s = SubscriptionStatusActive \<and> \<not> ExpiresAt s > now
     then s\<lparr>Status := SubscriptionStatusExpired\<rparr> else s) subs"

section \<open>Window maintenance\<close>

definition CheckAndActivateWindow ::
  "zone \<Rightarrow> sub_table \<Rightarrow> UserSubscription \<Rightarrow> go_time \<Rightarrow> go_time \<Rightarrow> unit sub_result" where
  "CheckAndActivateWindow z t s now clock =
     (if IsWindowActivated s then (t, Inr ())
      else repo_ActivateWindows t (ID s) (StartOfDay z now) now clock)"

text \<open>One window each; the result is the caller's copy of the subscription, updated.\<close>

definition resetDaily ::
  "zone \<Rightarrow> sub_table \<Rightarrow> UserSubscription \<Rightarrow> go_time \<Rightarrow> go_time \<Rightarrow> UserSubscription sub_result" where
  "resetDaily z t s now clock =
     (case automaticDailyWindowStartAt z s now of
        None \<Rightarrow> (t, Inr s)
      | Some w \<Rightarrow> and_then (repo_ResetDailyUsage t (ID s) (DailyWindowStart s) w clock)
          (\<lambda>t _. (t, Inr (s\<lparr>DailyWindowStart := Some w, DailyUsageUSD := 0\<rparr>))))"

definition resetWeekly ::
  "zone \<Rightarrow> sub_table \<Rightarrow> UserSubscription \<Rightarrow> go_time \<Rightarrow> go_time \<Rightarrow> UserSubscription sub_result" where
  "resetWeekly z t s now clock =
     (case automaticWindowStartAt z s (WeeklyWindowStart s) week now of
        None \<Rightarrow> (t, Inr s)
      | Some w \<Rightarrow> and_then (repo_ResetWeeklyUsage t (ID s) (WeeklyWindowStart s) w clock)
          (\<lambda>t _. (t, Inr (s\<lparr>WeeklyWindowStart := Some w, WeeklyUsageUSD := 0\<rparr>))))"

definition resetMonthly ::
  "zone \<Rightarrow> sub_table \<Rightarrow> UserSubscription \<Rightarrow> go_time \<Rightarrow> go_time \<Rightarrow> UserSubscription sub_result" where
  "resetMonthly z t s now clock =
     (case automaticWindowStartAt z s (MonthlyWindowStart s) month now of
        None \<Rightarrow> (t, Inr s)
      | Some w \<Rightarrow> and_then (repo_ResetMonthlyUsage t (ID s) (MonthlyWindowStart s) w clock)
          (\<lambda>t _. (t, Inr (s\<lparr>MonthlyWindowStart := Some w, MonthlyUsageUSD := 0\<rparr>))))"

definition CheckAndResetWindows ::
  "zone \<Rightarrow> sub_table \<Rightarrow> UserSubscription \<Rightarrow> go_time \<Rightarrow> go_time \<Rightarrow> UserSubscription sub_result" where
  "CheckAndResetWindows z t s now clock =
     and_then (resetDaily z t s now clock) (\<lambda>t s.
     and_then (resetWeekly z t s now clock) (\<lambda>t s.
     resetMonthly z t s now clock))"

text \<open>The activation and the resets read the clock separately: \<open>now0\<close> and \<open>now\<close>.\<close>

definition EnsureWindowMaintenance ::
  "zone \<Rightarrow> sub_table \<Rightarrow> UserSubscription \<Rightarrow> go_time \<Rightarrow> go_time \<Rightarrow> go_time \<Rightarrow> UserSubscription sub_result" where
  "EnsureWindowMaintenance z t s now0 now clock =
     and_then (if \<not> IsWindowActivated s then CheckAndActivateWindow z t s now0 clock else (t, Inr ()))
       (\<lambda>t _. and_then (CheckAndResetWindows z t s now clock) (\<lambda>t _. (t, repo_GetByID t (ID s))))"

definition AdminResetQuota ::
  "zone \<Rightarrow> sub_table \<Rightarrow> int \<Rightarrow> bool \<Rightarrow> bool \<Rightarrow> bool \<Rightarrow> go_time \<Rightarrow> go_time \<Rightarrow> UserSubscription sub_result" where
  "AdminResetQuota z t i daily weekly monthly now clock =
     (if \<not> daily \<and> \<not> weekly \<and> \<not> monthly then (t, Inl ErrInvalidInput)
      else case repo_GetByID t i of
        Inl e \<Rightarrow> (t, Inl e)
      | Inr s \<Rightarrow>
          and_then (repo_ResetUsageWindows t (ID s) daily weekly monthly (StartOfDay z now) now clock)
            (\<lambda>t _. (t, repo_GetByID t i)))"

definition CheckUsageLimits :: "UserSubscription \<Rightarrow> Group \<Rightarrow> rat \<Rightarrow> sub_error option" where
  "CheckUsageLimits s g cost =
     (if \<not> CheckDailyLimit s g cost then Some ErrDailyLimitExceeded
      else if \<not> CheckWeeklyLimit s g cost then Some ErrWeeklyLimitExceeded
      else if \<not> CheckMonthlyLimit s g cost then Some ErrMonthlyLimitExceeded
      else None)"

text \<open>The result is \<^verbatim>\<open>needsMaintenance\<close>, the error and the caller's copy.\<close>

definition ValidateAndCheckLimits ::
  "zone \<Rightarrow> UserSubscription \<Rightarrow> Group \<Rightarrow> go_time \<Rightarrow> bool \<times> sub_error option \<times> UserSubscription" where
  "ValidateAndCheckLimits z s g now =
     (if Status s = SubscriptionStatusExpired then (False, Some ErrSubscriptionExpired, s)
      else if Status s = SubscriptionStatusSuspended then (False, Some ErrSubscriptionSuspended, s)
      else if \<not> ExpiresAt s > now then (False, Some ErrSubscriptionExpired, s)
      else
        let needs = False;
            (s, needs) = (if canAutomaticallyResetDailyAt z s now
                          then (s\<lparr>DailyUsageUSD := 0\<rparr>, True) else (s, needs));
            (s, needs) = (if canAutomaticallyResetWeeklyAt z s now
                          then (s\<lparr>WeeklyUsageUSD := 0\<rparr>, True) else (s, needs));
            (s, needs) = (if canAutomaticallyResetMonthlyAt z s now
                          then (s\<lparr>MonthlyUsageUSD := 0\<rparr>, True) else (s, needs));
            needs = (if \<not> IsWindowActivated s then True else needs)
        in if \<not> CheckDailyLimit s g 0 then (needs, Some ErrDailyLimitExceeded, s)
           else if \<not> CheckWeeklyLimit s g 0 then (needs, Some ErrWeeklyLimitExceeded, s)
           else if \<not> CheckMonthlyLimit s g 0 then (needs, Some ErrMonthlyLimitExceeded, s)
           else (needs, None, s))"

definition RecordUsage ::
  "(int \<Rightarrow> bool) \<Rightarrow> sub_table \<Rightarrow> int \<Rightarrow> rat \<Rightarrow> go_time \<Rightarrow> unit sub_result" where
  "RecordUsage group_live t i cost clock = repo_IncrementUsage group_live t i cost clock"

end
