(* ===== verification/SubscriptionQuota.thy ===== *)
theory SubscriptionQuota
  imports SubscriptionService
begin

text \<open>
  The usage windows of one subscription under concurrent requests. Workers read the row,
  later run any of the maintenance steps of \<^verbatim>\<open>CheckAndResetWindows\<close> on the copy they
  hold, however stale, and record usage; the steps of different workers interleave freely and
  a worker may stop anywhere, as it does on a database error. The theorems show that the
  conditional updates keep the counters exact: every cost is counted in the window that was
  current when it was recorded, and no window is granted twice.
\<close>

section \<open>Interleaved maintenance\<close>

datatype quota_event =
    Load nat
  | Activate nat go_time go_time
  | Daily nat go_time go_time
  | Weekly nat go_time go_time
  | Monthly nat go_time go_time
  | Charge rat go_time

type_synonym quota_state = "sub_table \<times> (nat \<Rightarrow> UserSubscription option)"

definition with_copy ::
  "quota_state \<Rightarrow> nat \<Rightarrow> (sub_table \<Rightarrow> UserSubscription \<Rightarrow> UserSubscription sub_result) \<Rightarrow> quota_state" where
  "with_copy st j f =
     (case snd st j of
        None \<Rightarrow> st
      | Some s \<Rightarrow> (case f (fst st) s of
          (t, Inl e) \<Rightarrow> (t, snd st) | (t, Inr s) \<Rightarrow> (t, (snd st)(j := Some s))))"

fun quota_step ::
  "zone \<Rightarrow> (int \<Rightarrow> bool) \<Rightarrow> int \<Rightarrow> quota_state \<Rightarrow> quota_event \<Rightarrow> quota_state" where
  "quota_step z gl i st (Load j) =
     (case repo_GetByID (fst st) i of
        Inl e \<Rightarrow> st | Inr s \<Rightarrow> (fst st, (snd st)(j := Some s)))"
| "quota_step z gl i st (Activate j now clock) = with_copy st j (\<lambda>t s.
     and_then (CheckAndActivateWindow z t s now clock) (\<lambda>t _. (t, Inr s)))"
| "quota_step z gl i st (Daily j now clock) = with_copy st j (\<lambda>t s. resetDaily z t s now clock)"
| "quota_step z gl i st (Weekly j now clock) = with_copy st j (\<lambda>t s. resetWeekly z t s now clock)"
| "quota_step z gl i st (Monthly j now clock) = with_copy st j (\<lambda>t s. resetMonthly z t s now clock)"
| "quota_step z gl i st (Charge cost clock) = (fst (RecordUsage gl (fst st) i cost clock), snd st)"

definition charged :: "(int \<Rightarrow> bool) \<Rightarrow> int \<Rightarrow> quota_state \<Rightarrow> quota_event \<Rightarrow> rat" where
  "charged gl i st e =
     (case e of
        Charge cost clock \<Rightarrow> if snd (RecordUsage gl (fst st) i cost clock) = Inr () then cost else 0
      | _ \<Rightarrow> 0)"

text \<open>The row after every event, with the cost that event recorded.\<close>

primrec quota_trace ::
  "zone \<Rightarrow> (int \<Rightarrow> bool) \<Rightarrow> int \<Rightarrow> quota_state \<Rightarrow> quota_event list \<Rightarrow> (UserSubscription \<times> rat) list" where
  "quota_trace z gl i st [] = []"
| "quota_trace z gl i st (e # es) =
     (let st' = quota_step z gl i st e
      in (the (fst st' i), charged gl i st e) # quota_trace z gl i st' es)"

definition last_row :: "UserSubscription \<Rightarrow> (UserSubscription \<times> rat) list \<Rightarrow> UserSubscription" where
  "last_row r xs = (if xs = [] then r else fst (last xs))"

definition charged_in ::
  "(UserSubscription \<Rightarrow> go_time option) \<Rightarrow> go_time option \<Rightarrow> (UserSubscription \<times> rat) list \<Rightarrow> rat" where
  "charged_in win w xs = sum_list (map snd (filter (\<lambda>(r, c). win r = w) xs))"

section \<open>Meters\<close>

text \<open>
  One step of a meter: the window stays and the cost is added, or the window advances and
  the counter starts at zero.
\<close>

definition meters ::
  "(UserSubscription \<Rightarrow> go_time option) \<Rightarrow> (UserSubscription \<Rightarrow> rat) \<Rightarrow> (go_time \<Rightarrow> go_time \<Rightarrow> bool) \<Rightarrow>
     UserSubscription \<Rightarrow> UserSubscription \<Rightarrow> rat \<Rightarrow> bool" where
  "meters win use adv r r' c \<longleftrightarrow> (\<exists>w. win r = Some w \<and>
     ((win r' = Some w \<and> use r' = use r + c) \<or>
      (\<exists>w'. adv w w' \<and> win r' = Some w' \<and> use r' = 0 \<and> c = 0)))"

fun metered ::
  "(UserSubscription \<Rightarrow> go_time option) \<Rightarrow> (UserSubscription \<Rightarrow> rat) \<Rightarrow> (go_time \<Rightarrow> go_time \<Rightarrow> bool) \<Rightarrow>
     UserSubscription \<Rightarrow> (UserSubscription \<times> rat) list \<Rightarrow> bool" where
  "metered win use adv r [] \<longleftrightarrow> True"
| "metered win use adv r ((r', c) # xs) \<longleftrightarrow>
     meters win use adv r r' c \<and> metered win use adv r' xs"

lemma last_row_Cons [simp]: "last_row r ((r', c) # xs) = last_row r' xs"
  by (simp add: last_row_def)

lemma last_row_Nil [simp]: "last_row r [] = r"
  by (simp add: last_row_def)

lemma charged_in_simps [simp]:
  "charged_in win w [] = 0"
  "charged_in win w ((r, c) # xs) = (if win r = w then c else 0) + charged_in win w xs"
  by (simp_all add: charged_in_def)

lemma metered_forward:
  assumes "metered win use adv r xs" "win r = Some w" and "\<And>v v'. adv v v' \<Longrightarrow> v < v'"
  shows "\<exists>w'. win (last_row r xs) = Some w' \<and> w \<le> w'"
  using assms(1,2)
proof (induction xs arbitrary: r w)
  case (Cons x xs)
  obtain r' c where x: "x = (r', c)" by fastforce
  with Cons.prems obtain v where v: "win r' = Some v" "w \<le> v"
    by (fastforce simp: meters_def dest: assms(3))
  with Cons x obtain w' where "win (last_row r' xs) = Some w'" "v \<le> w'" by fastforce
  with v x show ?case by force
qed simp

lemma metered_account:
  assumes "metered win use adv r xs" "win r \<noteq> None" and adv: "\<And>v v'. adv v v' \<Longrightarrow> v < v'"
  shows "use (last_row r xs) =
    (if win (last_row r xs) = win r then use r else 0) + charged_in win (win (last_row r xs)) xs"
  using assms(1,2)
proof (induction xs arbitrary: r)
  case (Cons x xs)
  obtain r' c where x: "x = (r', c)" by fastforce
  from Cons.prems x have m: "meters win use adv r r' c" "metered win use adv r' xs" by auto
  then have "win r' \<noteq> None" by (auto simp: meters_def)
  note IH = Cons.IH [OF m(2) this]
  from m(1) consider (stay) "win r' = win r" "use r' = use r + c"
    | (advance) w w' where "win r = Some w" "adv w w'" "win r' = Some w'" "use r' = 0" "c = 0"
    by (auto simp: meters_def)
  then show ?case
  proof cases
    case stay
    with IH x show ?thesis by auto
  next
    case advance
    obtain w'' where "win (last_row r' xs) = Some w''" "w' \<le> w''"
      using metered_forward [OF m(2) advance(3) adv] by blast
    with adv [OF advance(2)] advance(1) have "win (last_row r' xs) \<noteq> win r" by auto
    with IH advance x show ?thesis by auto
  qed
qed simp

lemma metered_visits:
  assumes "metered win use (\<lambda>p w. \<exists>t. advance p t = Some w) r xs" "win r = Some w"
  shows "\<exists>gs. granted advance w gs \<and> win ` fst ` set xs \<subseteq> insert (Some w) (Some ` snd ` set gs)"
  using assms
proof (induction xs arbitrary: r w)
  case (Cons x xs)
  obtain r' c where x: "x = (r', c)" by fastforce
  from Cons.prems x have m: "meters win use (\<lambda>p w. \<exists>t. advance p t = Some w) r r' c"
    "metered win use (\<lambda>p w. \<exists>t. advance p t = Some w) r' xs" by auto
  from m(1) Cons.prems(2) consider (stay) "win r' = Some w"
    | (advance) t w' where "advance w t = Some w'" "win r' = Some w'"
    by (auto simp: meters_def)
  then show ?case
  proof cases
    case stay
    from Cons.IH [OF m(2) stay] stay x show ?thesis by auto
  next
    case advance
    from Cons.IH [OF m(2) advance(2)] obtain gs where "granted advance w' gs"
      "win ` fst ` set xs \<subseteq> insert (Some w') (Some ` snd ` set gs)" by blast
    with advance x show ?thesis by (intro exI [of _ "(t, w') # gs"]) auto
  qed
qed (auto intro: exI [of _ "[]"])

context window_policy
begin

lemma visits_bounded:
  assumes "metered win use (\<lambda>p w. \<exists>t. advance p t = Some w) r xs" "win r = Some w"
  shows "int (card (win ` fst ` set xs - {Some w})) * period < max 1 (expiry - w)"
proof -
  obtain gs where gs: "granted advance w gs"
    and sub: "win ` fst ` set xs \<subseteq> insert (Some w) (Some ` snd ` set gs)"
    using metered_visits [OF assms] by blast
  have "card (win ` fst ` set xs - {Some w}) \<le> card (Some ` snd ` set gs)"
    using sub by (intro card_mono) auto
  also have "\<dots> \<le> card (set gs)"
    by (rule order_trans [OF card_image_le card_image_le]) simp_all
  also have "\<dots> \<le> length gs" by (rule card_length)
  finally have "int (card (win ` fst ` set xs - {Some w})) * period \<le> int (length gs) * period"
    using period_pos by (intro mult_right_mono) auto
  moreover have "gs \<noteq> [] \<Longrightarrow> int (length gs) * period < expiry - w"
    using grants_bounded [OF gs] .
  ultimately show ?thesis by (cases "gs = []") auto
qed

end

section \<open>The steps drive the meters\<close>

text \<open>The row and all copies of it belong to one term of one subscription.\<close>

definition same_term :: "int \<Rightarrow> UserSubscription \<Rightarrow> UserSubscription \<Rightarrow> bool" where
  "same_term i r0 s \<longleftrightarrow> ID s = i \<and> StartsAt s = StartsAt r0 \<and> ExpiresAt s = ExpiresAt r0"

definition running :: "UserSubscription \<Rightarrow> bool" where
  "running r \<longleftrightarrow>
     DailyWindowStart r \<noteq> None \<and> WeeklyWindowStart r \<noteq> None \<and> MonthlyWindowStart r \<noteq> None"

definition quota_inv :: "int \<Rightarrow> UserSubscription \<Rightarrow> quota_state \<Rightarrow> bool" where
  "quota_inv i r0 st \<longleftrightarrow>
     (\<exists>r. fst st i = Some r \<and> same_term i r0 r \<and> running r) \<and>
     (\<forall>j s. snd st j = Some s \<longrightarrow> same_term i r0 s)"

lemma automaticWindowStartAt_term:
  "same_term i r0 s \<Longrightarrow> automaticWindowStartAt z s = automaticWindowStartAt z r0"
  by (rule automaticWindowStartAt_cong) (simp_all add: same_term_def)

lemma automaticDailyWindowStartAt_term:
  "same_term i r0 s \<Longrightarrow> automaticDailyWindowStartAt z s now =
     automaticDailyWindowStartAt z (r0\<lparr>DailyWindowStart := DailyWindowStart s\<rparr>) now"
  by (rule automaticDailyWindowStartAt_cong) (simp_all add: same_term_def)

text \<open>What a maintenance step on a copy does to the row: nothing, or one reset.\<close>

definition reset_outcome ::
  "zone \<Rightarrow> UserSubscription \<Rightarrow> UserSubscription \<Rightarrow> UserSubscription \<Rightarrow> bool" where
  "reset_outcome z r0 r r' \<longleftrightarrow> r' = r \<or>
     (\<exists>now w u. automaticDailyWindowStartAt z (r0\<lparr>DailyWindowStart := DailyWindowStart r\<rparr>) now = Some w \<and>
        r' = r\<lparr>DailyUsageUSD := 0, DailyWindowStart := Some w, UpdatedAt := u\<rparr>) \<or>
     (\<exists>now w u. automaticWindowStartAt z r0 (WeeklyWindowStart r) week now = Some w \<and>
        r' = r\<lparr>WeeklyUsageUSD := 0, WeeklyWindowStart := Some w, UpdatedAt := u\<rparr>) \<or>
     (\<exists>now w u. automaticWindowStartAt z r0 (MonthlyWindowStart r) month now = Some w \<and>
        r' = r\<lparr>MonthlyUsageUSD := 0, MonthlyWindowStart := Some w, UpdatedAt := u\<rparr>)"

definition step_outcome ::
  "zone \<Rightarrow> UserSubscription \<Rightarrow> UserSubscription \<Rightarrow> UserSubscription \<Rightarrow> rat \<Rightarrow> bool" where
  "step_outcome z r0 r r' c \<longleftrightarrow> (reset_outcome z r0 r r' \<and> c = 0) \<or>
     (\<exists>u. r' = r\<lparr>DailyUsageUSD := DailyUsageUSD r + c, WeeklyUsageUSD := WeeklyUsageUSD r + c,
        MonthlyUsageUSD := MonthlyUsageUSD r + c, UpdatedAt := u\<rparr>)"

lemma step_outcome_refl [simp]: "step_outcome z r0 r r 0"
  by (simp add: step_outcome_def reset_outcome_def)

lemma with_copy_step:
  assumes "quota_inv i r0 st" "fst st i = Some r"
    and step: "\<And>s. same_term i r0 s \<Longrightarrow>
      (\<exists>r'. fst (f (fst st) s) i = Some r' \<and> P r') \<and>
      (\<forall>s'. snd (f (fst st) s) = Inr s' \<longrightarrow> same_term i r0 s')"
    and "P r" and keep: "\<And>r'. P r' \<Longrightarrow> same_term i r0 r' \<and> running r'"
  shows "quota_inv i r0 (with_copy st j f) \<and> (\<exists>r'. fst (with_copy st j f) i = Some r' \<and> P r')"
proof (cases "snd st j")
  case None
  with assms show ?thesis by (auto simp: with_copy_def)
next
  case (Some s)
  with assms(1) have "same_term i r0 s" by (auto simp: quota_inv_def)
  from step [OF this] obtain r' where "fst (f (fst st) s) i = Some r'" "P r'"
    "\<forall>s'. snd (f (fst st) s) = Inr s' \<longrightarrow> same_term i r0 s'" by blast
  with Some assms(1) keep [of r'] show ?thesis
    by (cases "f (fst st) s"; cases "snd (f (fst st) s)") (auto simp: with_copy_def quota_inv_def)
qed

lemma reset_outcomes:
  "reset_outcome z r0 r r"
  "automaticDailyWindowStartAt z (r0\<lparr>DailyWindowStart := DailyWindowStart r\<rparr>) now = Some w \<Longrightarrow>
   reset_outcome z r0 r (r\<lparr>DailyUsageUSD := 0, DailyWindowStart := Some w, UpdatedAt := u\<rparr>)"
  "automaticWindowStartAt z r0 (WeeklyWindowStart r) week now = Some w \<Longrightarrow>
   reset_outcome z r0 r (r\<lparr>WeeklyUsageUSD := 0, WeeklyWindowStart := Some w, UpdatedAt := u\<rparr>)"
  "automaticWindowStartAt z r0 (MonthlyWindowStart r) month now = Some w \<Longrightarrow>
   reset_outcome z r0 r (r\<lparr>MonthlyUsageUSD := 0, MonthlyWindowStart := Some w, UpdatedAt := u\<rparr>)"
  unfolding reset_outcome_def by blast+

lemma conditional_update_row:
  assumes "t i = Some r"
  shows "fst (conditional_update t i clock P f) =
      (if P r then t(i \<mapsto> (f r)\<lparr>UpdatedAt := clock\<rparr>) else t)"
  using assms by (simp add: conditional_update_def)

lemma fst_and_then_value: "fst (and_then r (\<lambda>t _. (t, Inr x))) = fst r"
  by (cases r; cases "snd r") auto

lemma snd_and_then_value: "snd (and_then r (\<lambda>t _. (t, Inr x))) = Inr y \<Longrightarrow> y = x"
  by (cases r; cases "snd r") auto

lemma reset_steps:
  assumes "t i = Some r" "same_term i r0 s"
    and f: "f \<in> {resetDaily z, resetWeekly z, resetMonthly z}"
  shows "(\<exists>r'. fst (f t s now clock) i = Some r' \<and> reset_outcome z r0 r r') \<and>
    (\<forall>s'. snd (f t s now clock) = Inr s' \<longrightarrow> same_term i r0 s')"
proof -
  have id: "ID s = i" using assms(2) by (simp add: same_term_def)
  have trm: "same_term i r0 (s\<lparr>DailyWindowStart := v, DailyUsageUSD := 0\<rparr>)"
    "same_term i r0 (s\<lparr>WeeklyWindowStart := v, WeeklyUsageUSD := 0\<rparr>)"
    "same_term i r0 (s\<lparr>MonthlyWindowStart := v, MonthlyUsageUSD := 0\<rparr>)" for v
    using assms(2) by (simp_all add: same_term_def)
  note eqs = automaticWindowStartAt_term [OF assms(2), of z]
    automaticDailyWindowStartAt_term [OF assms(2), of z now]
  note rows = conditional_update_row [of t i r, OF assms(1)] fst_and_then_value
  consider "f = resetDaily z" | "f = resetWeekly z" | "f = resetMonthly z" using f by blast
  then show ?thesis
  proof cases
    case 1
    then show ?thesis using assms(1,2) id trm eqs(2) [symmetric]
      by (cases "automaticDailyWindowStartAt z s now")
         (auto simp: resetDaily_def repo_ResetDailyUsage_def rows dest!: snd_and_then_value
           intro: reset_outcomes)
  next
    case 2
    then show ?thesis using assms(1,2) id trm eqs(1)
      by (cases "automaticWindowStartAt z s (WeeklyWindowStart s) week now")
         (auto simp: resetWeekly_def repo_ResetWeeklyUsage_def rows dest!: snd_and_then_value
           intro: reset_outcomes)
  next
    case 3
    then show ?thesis using assms(1,2) id trm eqs(1)
      by (cases "automaticWindowStartAt z s (MonthlyWindowStart s) month now")
         (auto simp: resetMonthly_def repo_ResetMonthlyUsage_def rows dest!: snd_and_then_value
           intro: reset_outcomes)
  qed
qed

lemma reset_outcome_running:
  "reset_outcome z r0 r r' \<Longrightarrow> same_term i r0 r \<Longrightarrow> running r \<Longrightarrow> same_term i r0 r' \<and> running r'"
  by (auto simp: reset_outcome_def same_term_def running_def)

lemma quota_step_outcome:
  assumes inv: "quota_inv i r0 st" and r: "fst st i = Some r"
  shows "quota_inv i r0 (quota_step z gl i st e) \<and>
    (\<exists>r'. fst (quota_step z gl i st e) i = Some r' \<and> step_outcome z r0 r r' (charged gl i st e))"
proof -
  have r_ok: "same_term i r0 r" "running r" using inv r by (auto simp: quota_inv_def)
  have reset: "quota_inv i r0 (with_copy st j (\<lambda>t s. f t s now clock)) \<and>
      (\<exists>r'. fst (with_copy st j (\<lambda>t s. f t s now clock)) i = Some r' \<and> reset_outcome z r0 r r')"
    if "f \<in> {resetDaily z, resetWeekly z, resetMonthly z}" for f j now clock
    by (rule with_copy_step [OF inv r])
       (use reset_steps [of "fst st" i r r0 _ f z, OF r _ that] reset_outcome_running r_ok reset_outcomes(1) in blast)+
  show ?thesis
  proof (cases e)
    case (Load j)
    then show ?thesis using inv r r_ok
      by (auto simp: charged_def quota_inv_def repo_reads split: sum.split)
  next
    case (Activate j now clock)
    have "quota_inv i r0 (quota_step z gl i st e) \<and>
        (\<exists>r'. fst (quota_step z gl i st e) i = Some r' \<and> r' = r)"
      unfolding Activate quota_step.simps
    proof (rule with_copy_step [OF inv r])
      fix s assume "same_term i r0 s"
      moreover from this have "fst (CheckAndActivateWindow z (fst st) s now clock) = fst st"
        using r r_ok(2) conditional_update_row [of "fst st" i r, OF r]
        by (auto simp: CheckAndActivateWindow_def repo_ActivateWindows_def running_def same_term_def)
      ultimately show "(\<exists>r'. fst (and_then (CheckAndActivateWindow z (fst st) s now clock)
            (\<lambda>t _. (t, Inr s))) i = Some r' \<and> r' = r) \<and>
          (\<forall>s'. snd (and_then (CheckAndActivateWindow z (fst st) s now clock)
            (\<lambda>t _. (t, Inr s))) = Inr s' \<longrightarrow> same_term i r0 s')"
        using r by (auto simp: fst_and_then_value dest!: snd_and_then_value)
    qed (use r_ok in simp_all)
    then show ?thesis by (auto simp: Activate charged_def)
  next
    case (Daily j now clock)
    then show ?thesis using reset [of "resetDaily z" j now clock]
      by (auto simp: charged_def step_outcome_def)
  next
    case (Weekly j now clock)
    then show ?thesis using reset [of "resetWeekly z" j now clock]
      by (auto simp: charged_def step_outcome_def)
  next
    case (Monthly j now clock)
    then show ?thesis using reset [of "resetMonthly z" j now clock]
      by (auto simp: charged_def step_outcome_def)
  next
    case (Charge cost clock)
    let ?r' = "r\<lparr>DailyUsageUSD := DailyUsageUSD r + cost, WeeklyUsageUSD := WeeklyUsageUSD r + cost,
      MonthlyUsageUSD := MonthlyUsageUSD r + cost, UpdatedAt := clock\<rparr>"
    have "RecordUsage gl (fst st) i cost clock =
        (if DeletedAt r = None \<and> gl (GroupID r) then ((fst st)(i \<mapsto> ?r'), Inr ())
         else (fst st, Inl ErrSubscriptionNotFound))"
      using r by (simp add: RecordUsage_def repo_IncrementUsage_def live_row_def)
    moreover have "same_term i r0 ?r' \<and> running ?r'"
      using r_ok by (simp add: same_term_def running_def)
    ultimately show ?thesis using inv r
      by (auto simp: Charge charged_def quota_inv_def step_outcome_def reset_outcome_def)
  qed
qed

lemma step_outcome_meters:
  assumes "step_outcome z r0 r r' c" "running r"
  shows "meters WeeklyWindowStart WeeklyUsageUSD
      (\<lambda>p w. \<exists>t. automaticWindowStartAt z r0 (Some p) week t = Some w) r r' c"
    and "meters MonthlyWindowStart MonthlyUsageUSD
      (\<lambda>p w. \<exists>t. automaticWindowStartAt z r0 (Some p) month t = Some w) r r' c"
    and "meters DailyWindowStart DailyUsageUSD
      (\<lambda>p w. \<exists>t. automaticDailyWindowStartAt z (r0\<lparr>DailyWindowStart := Some p\<rparr>) t = Some w) r r' c"
  using assms
  by (auto simp: step_outcome_def reset_outcome_def running_def meters_def)

lemma quota_trace_metered:
  assumes "quota_inv i r0 st" "fst st i = Some r"
  shows "metered WeeklyWindowStart WeeklyUsageUSD
      (\<lambda>p w. \<exists>t. automaticWindowStartAt z r0 (Some p) week t = Some w) r (quota_trace z gl i st es) \<and>
    metered MonthlyWindowStart MonthlyUsageUSD
      (\<lambda>p w. \<exists>t. automaticWindowStartAt z r0 (Some p) month t = Some w) r (quota_trace z gl i st es) \<and>
    metered DailyWindowStart DailyUsageUSD
      (\<lambda>p w. \<exists>t. automaticDailyWindowStartAt z (r0\<lparr>DailyWindowStart := Some p\<rparr>) t = Some w)
      r (quota_trace z gl i st es)"
  using assms
proof (induction es arbitrary: st r)
  case (Cons e es)
  from quota_step_outcome [OF Cons.prems, of z gl e] obtain r' where
    r': "quota_inv i r0 (quota_step z gl i st e)" "fst (quota_step z gl i st e) i = Some r'"
    "step_outcome z r0 r r' (charged gl i st e)" by blast
  have "running r" using Cons.prems by (auto simp: quota_inv_def)
  with Cons.IH [OF r'(1,2)] step_outcome_meters [OF r'(3)] r'(2) show ?case
    by (simp add: Let_def)
qed simp

section \<open>Properties\<close>

lemma quota_inv_start:
  "t i = Some r0 \<Longrightarrow> ID r0 = i \<Longrightarrow> running r0 \<Longrightarrow> quota_inv i r0 (t, \<lambda>_. None)"
  by (simp add: quota_inv_def same_term_def)

lemma meter_exact:
  assumes "metered win use (\<lambda>p w. \<exists>t. advance p t = Some w) r xs" "win r = Some w"
    and "window_policy advance period expiry"
  shows "use (last_row r xs) =
      (if win (last_row r xs) = win r then use r else 0) + charged_in win (win (last_row r xs)) xs \<and>
    int (card (win ` fst ` set xs - {win r})) * period < max 1 (expiry - the (win r))"
proof
  show "use (last_row r xs) =
      (if win (last_row r xs) = win r then use r else 0) + charged_in win (win (last_row r xs)) xs"
    using assms(2) window_policy.advance_strict [OF assms(3)]
    by (intro metered_account [OF assms(1)]) auto
  show "int (card (win ` fst ` set xs - {win r})) * period < max 1 (expiry - the (win r))"
    using window_policy.visits_bounded [OF assms(3,1,2)] assms(2) by simp
qed

text \<open>
  C7: Whatever requests do to a subscription concurrently within one term, on copies however
  stale, its weekly and monthly counters are exact: each is the sum of the costs recorded
  since its window began, none lost and none counted twice. Beyond the windows it started
  with, a term never sees more windows of a period than whole periods fit strictly before
  its end, so that no quota is granted for a last, partial period again.
\<close>

theorem quota_usage_exact:
  assumes "t i = Some r0" "ID r0 = i" "running r0"
    and "xs = quota_trace z gl i (t, \<lambda>_. None) es" "r = last_row r0 xs"
  shows "WeeklyUsageUSD r =
      (if WeeklyWindowStart r = WeeklyWindowStart r0 then WeeklyUsageUSD r0 else 0) +
      charged_in WeeklyWindowStart (WeeklyWindowStart r) xs \<and>
    int (card (WeeklyWindowStart ` fst ` set xs - {WeeklyWindowStart r0})) * week
      < max 1 (ExpiresAt r0 - the (WeeklyWindowStart r0)) \<and>
    MonthlyUsageUSD r =
      (if MonthlyWindowStart r = MonthlyWindowStart r0 then MonthlyUsageUSD r0 else 0) +
      charged_in MonthlyWindowStart (MonthlyWindowStart r) xs \<and>
    int (card (MonthlyWindowStart ` fst ` set xs - {MonthlyWindowStart r0})) * month
      < max 1 (ExpiresAt r0 - the (MonthlyWindowStart r0))"
proof -
  obtain w m where wm: "WeeklyWindowStart r0 = Some w" "MonthlyWindowStart r0 = Some m"
    using assms(3) by (auto simp: running_def)
  note tr = quota_trace_metered [of i r0 "(t, \<lambda>_. None)" r0 z gl es,
      OF quota_inv_start [of t i r0, OF assms(1-3)], folded assms(4)]
  have "metered WeeklyWindowStart WeeklyUsageUSD
      (\<lambda>p w. \<exists>t. automaticWindowStartAt z r0 (Some p) week t = Some w) r0 xs"
    "metered MonthlyWindowStart MonthlyUsageUSD
      (\<lambda>p w. \<exists>t. automaticWindowStartAt z r0 (Some p) month t = Some w) r0 xs"
    using tr assms(1) by simp_all
  from meter_exact [OF this(1) wm(1) weekly.window_policy_axioms]
    meter_exact [OF this(2) wm(2) monthly.window_policy_axioms]
  show ?thesis unfolding assms(5) by blast
qed

lemma metered_strengthen:
  assumes "metered win use adv r xs" "win r = Some w" "I w"
    and "\<And>v v'. I v \<Longrightarrow> adv v v' \<Longrightarrow> adv' v v' \<and> I v'"
  shows "metered win use adv' r xs \<and> (\<forall>x \<in> set xs. \<exists>v. win (fst x) = Some v \<and> I v)"
  using assms(1-3)
proof (induction xs arbitrary: r w)
  case (Cons x xs)
  obtain r' c where x: "x = (r', c)" by fastforce
  with Cons.prems have m: "meters win use adv r r' c" "metered win use adv r' xs" by auto
  with Cons.prems(2,3) assms(4) obtain v where v: "win r' = Some v" "I v" "meters win use adv' r r' c"
    by (fastforce simp: meters_def)
  from Cons.IH [OF m(2) v(1,2)] v x show ?case by auto
qed simp

text \<open>
  C29: In a zone where every day has a midnight, the daily counter is exact in the same sense,
  and every daily window starts at the start of a calendar day: however often requests run
  the maintenance, a day's quota is granted once.
\<close>

theorem daily_usage_exact:
  assumes "time_zone z" "t i = Some r0" "ID r0 = i" "running r0"
    and "DailyWindowStart r0 = Some w0" "StartOfDay z w0 = w0"
    and "xs = quota_trace z gl i (t, \<lambda>_. None) es" "r = last_row r0 xs"
  shows "DailyUsageUSD r =
      (if DailyWindowStart r = DailyWindowStart r0 then DailyUsageUSD r0 else 0) +
      charged_in DailyWindowStart (DailyWindowStart r) xs \<and>
    (\<forall>x \<in> set xs. \<exists>d. DailyWindowStart (fst x) = Some (StartOfDay z d))"
proof -
  let ?adv = "\<lambda>p w. \<exists>t. automaticDailyWindowStartAt z (r0\<lparr>DailyWindowStart := Some p\<rparr>) t = Some w"
  let ?I = "\<lambda>v. StartOfDay z v = v"
  have m: "metered DailyWindowStart DailyUsageUSD ?adv r0 xs"
    using quota_trace_metered [of i r0 "(t, \<lambda>_. None)" r0 z gl es,
      OF quota_inv_start [of t i r0, OF assms(2-4)], folded assms(7)] assms(2) by simp
  have adv: "?I v \<Longrightarrow> ?adv v v' \<Longrightarrow> v < v' \<and> ?I v'" for v v'
    using time_zone.midnight [OF assms(1)]
    by (auto simp: automaticDailyWindowStartAt_def Let_def split: if_splits)
  note s = metered_strengthen [where I = ?I and adv' = "(<)", OF m assms(5,6) adv]
  from s have "metered DailyWindowStart DailyUsageUSD (<) r0 xs" ..
  then have "DailyUsageUSD r =
      (if DailyWindowStart r = DailyWindowStart r0 then DailyUsageUSD r0 else 0) +
      charged_in DailyWindowStart (DailyWindowStart r) xs"
    unfolding assms(8) by (rule metered_account) (use assms(5) in simp_all)
  with s show ?thesis by metis
qed

text \<open>
  Where clocks jump at midnight west of Greenwich, as in Havana or Santiago, the start
  of the new day is computed as 23:00 of the day before. All that day long, every run of the
  maintenance then starts the daily window anew and clears the daily usage, so the daily
  limit is not enforced.
\<close>

theorem midnight_gap_clears_daily_usage:
  assumes "2 \<le> h" "h \<le> 12" "0 \<le> d"
    and "(d + 1) * day_ns + h * hour \<le> now" "now < (d + 2) * day_ns + (h - 1) * hour"
    and "t i = Some r" "ID r = i" "DailyWindowStart r = Some (StartOfDay (gap_zone h d) now)"
    and "\<not> HasOneTimeDailyQuota (gap_zone h d) r"
  shows "\<exists>r'. fst (resetDaily (gap_zone h d) t r now clock) i = Some r' \<and>
    DailyUsageUSD r' = 0 \<and> DailyWindowStart r' = DailyWindowStart r"
proof -
  have "d * day_ns + h * hour < (d + 1) * day_ns + (h - 1) * hour"
    by (simp add: distrib_right left_diff_distrib day_ns_def duration_units)
  then have "automaticDailyWindowStartAt (gap_zone h d) r now = Some (StartOfDay (gap_zone h d) now)"
    using gap_zone_StartOfDay [OF assms(1-5)] assms(8,9)
    by (simp add: automaticDailyWindowStartAt_def Let_def)
  then show ?thesis
    using assms(6-8) conditional_update_row [of t i r, OF assms(6)]
    by (simp add: resetDaily_def repo_ResetDailyUsage_def fst_and_then_value)
qed

section \<open>A partial manual reset\<close>

text \<open>A row whose daily window runs alone, and a copy from which nothing more can start.\<close>

definition half_started :: "UserSubscription \<Rightarrow> bool" where
  "half_started r \<longleftrightarrow>
     DailyWindowStart r \<noteq> None \<and> WeeklyWindowStart r = None \<and> MonthlyWindowStart r = None"

definition half_inv :: "int \<Rightarrow> quota_state \<Rightarrow> bool" where
  "half_inv i st \<longleftrightarrow> (\<exists>r. fst st i = Some r \<and> half_started r) \<and>
     (\<forall>j s. snd st j = Some s \<longrightarrow>
        ID s = i \<and> WeeklyWindowStart s = None \<and> MonthlyWindowStart s = None)"

lemma half_step:
  assumes "half_inv i st" "fst st i = Some r" "ID r = i"
  shows "\<exists>r'. fst (quota_step z gl i st e) i = Some r' \<and> half_inv i (quota_step z gl i st e) \<and>
    ID r' = i \<and> WeeklyUsageUSD r' = WeeklyUsageUSD r + charged gl i st e \<and>
    MonthlyUsageUSD r' = MonthlyUsageUSD r + charged gl i st e"
proof (cases e)
  case (Load j)
  with assms show ?thesis
    by (auto simp: charged_def half_inv_def half_started_def repo_reads split: sum.split)
next
  case (Charge cost clock)
  with assms show ?thesis
    by (auto simp: charged_def half_inv_def half_started_def RecordUsage_def
        repo_IncrementUsage_def live_row_def split: option.splits)
next
  case (Activate j now clock)
  with assms show ?thesis
    by (cases "snd st j")
       (auto simp: charged_def half_inv_def half_started_def with_copy_def CheckAndActivateWindow_def
          repo_ActivateWindows_def conditional_update_def and_then_def
          translateConditionalWindowReset_def split: prod.split sum.split)
next
  case (Daily j now clock)
  with assms show ?thesis
    by (cases "snd st j"; cases "automaticDailyWindowStartAt z (the (snd st j)) now")
       (auto simp: charged_def half_inv_def half_started_def with_copy_def resetDaily_def
          repo_ResetDailyUsage_def conditional_update_def translateConditionalWindowReset_def
          split: prod.split sum.split if_splits)
next
  case (Weekly j now clock)
  with assms show ?thesis
    by (cases "snd st j")
       (auto simp: charged_def half_inv_def with_copy_def resetWeekly_def automaticWindowStartAt_def
         half_started_def)
next
  case (Monthly j now clock)
  with assms show ?thesis
    by (cases "snd st j")
       (auto simp: charged_def half_inv_def with_copy_def resetMonthly_def automaticWindowStartAt_def
         half_started_def)
qed

lemma half_trace:
  assumes "half_inv i st" "fst st i = Some r" "ID r = i"
  shows "WeeklyUsageUSD (last_row r (quota_trace z gl i st es)) =
      WeeklyUsageUSD r + sum_list (map snd (quota_trace z gl i st es)) \<and>
    MonthlyUsageUSD (last_row r (quota_trace z gl i st es)) =
      MonthlyUsageUSD r + sum_list (map snd (quota_trace z gl i st es))"
  using assms
proof (induction es arbitrary: st r)
  case (Cons e es)
  from half_step [OF Cons.prems, of z gl e] obtain r' where
    "fst (quota_step z gl i st e) i = Some r'" "half_inv i (quota_step z gl i st e)" "ID r' = i"
    "WeeklyUsageUSD r' = WeeklyUsageUSD r + charged gl i st e"
    "MonthlyUsageUSD r' = MonthlyUsageUSD r + charged gl i st e" by blast
  with Cons.IH [of "quota_step z gl i st e" r'] show ?case by (simp add: Let_def)
qed simp

text \<open>
  After an administrator resets only the daily quota of a subscription that was never
  used, its weekly and monthly windows never start: whatever requests do from then on, the
  weekly and monthly counters only ever grow, by every cost recorded.
\<close>

theorem daily_reset_freezes_counters:
  assumes "t i = Some r0" "ID r0 = i" "DeletedAt r0 = None" "\<not> IsWindowActivated r0"
    and "AdminResetQuota z t i True False False now clock = (t', Inr r)"
    and "xs = quota_trace z gl i (t', \<lambda>_. None) es"
  shows "WeeklyUsageUSD (last_row r xs) = WeeklyUsageUSD r0 + sum_list (map snd xs) \<and>
    MonthlyUsageUSD (last_row r xs) = MonthlyUsageUSD r0 + sum_list (map snd xs)"
proof -
  have "t' i = Some r \<and> half_started r \<and> ID r = i \<and> WeeklyUsageUSD r = WeeklyUsageUSD r0 \<and>
      MonthlyUsageUSD r = MonthlyUsageUSD r0"
    using assms(1-5)
    by (auto simp: AdminResetQuota_def repo_GetByID_def found_def live_row_def half_started_def
        repo_ResetUsageWindows_def update_one_def IsWindowActivated_def)
  moreover from this have "half_inv i (t', \<lambda>_. None)" by (simp add: half_inv_def)
  ultimately show ?thesis using half_trace [of i "(t', \<lambda>_. None)" r z gl es] assms(6) by simp
qed

section \<open>Witnesses\<close>

definition demo_events :: "quota_event list" where
  "demo_events = [Load 0, Load 1, Charge 5 (2 * day_ns), Weekly 0 (9 * day_ns) (9 * day_ns),
     Charge 4 (9 * day_ns), Weekly 1 (9 * day_ns) (9 * day_ns)]"

lemma demo_sub_running: "ID demo_sub = 1" "running demo_sub"
  by (simp_all add: demo_sub_def running_def)

lemma demo_trace:
  "last_row demo_sub (quota_trace (fixed_zone 0) (\<lambda>_. True) 1 ([1 \<mapsto> demo_sub], \<lambda>_. None) demo_events) =
     demo_sub\<lparr>WeeklyWindowStart := Some (8 * day_ns), DailyUsageUSD := 11, WeeklyUsageUSD := 4,
       MonthlyUsageUSD := 11, UpdatedAt := 9 * day_ns\<rparr>"
  by (simp add: demo_events_def demo_sub_def repo_reads with_copy_def resetWeekly_def
      automaticWindowStartAt_def windowResetAnchor_def StartOfDay_fixed Let_def go_div_def
      time_sub_def maxDuration_def minDuration_def week_def duration_units day_ns_def and_then_def
      repo_ResetWeeklyUsage_def conditional_update_def translateConditionalWindowReset_def
      RecordUsage_def repo_IncrementUsage_def)

lemma quota_usage_exact_witness:
  "charged_in WeeklyWindowStart (Some (8 * day_ns))
     (quota_trace (fixed_zone 0) (\<lambda>_. True) 1 ([1 \<mapsto> demo_sub], \<lambda>_. None) demo_events) = 4"
  using quota_usage_exact [OF _ demo_sub_running refl refl, of "[1 \<mapsto> demo_sub]"
      "fixed_zone 0" "\<lambda>_. True" demo_events] demo_trace
  by (simp add: demo_sub_def)

lemma daily_usage_exact_witness:
  "charged_in DailyWindowStart (Some day_ns)
     (quota_trace (fixed_zone 0) (\<lambda>_. True) 1 ([1 \<mapsto> demo_sub], \<lambda>_. None) demo_events) = 9"
proof -
  have "DailyWindowStart demo_sub = Some day_ns" "StartOfDay (fixed_zone 0) day_ns = day_ns"
    by (simp_all add: demo_sub_def StartOfDay_fixed)
  from daily_usage_exact [OF fixed.time_zone_axioms _ demo_sub_running this refl refl,
      of "[1 \<mapsto> demo_sub]" "\<lambda>_. True" demo_events] demo_trace
  show ?thesis by (simp add: demo_sub_def)
qed

lemma midnight_gap_clears_daily_usage_witness:
  "\<exists>r'. fst (resetDaily (gap_zone 5 1) [1 \<mapsto> demo_sub\<lparr>DailyWindowStart :=
      Some (StartOfDay (gap_zone 5 1) (2 * day_ns + 6 * hour))\<rparr>]
      (demo_sub\<lparr>DailyWindowStart := Some (StartOfDay (gap_zone 5 1) (2 * day_ns + 6 * hour))\<rparr>)
      (2 * day_ns + 6 * hour) 0) 1 = Some r' \<and> DailyUsageUSD r' = 0"
  (is "\<exists>r'. fst (resetDaily ?z [1 \<mapsto> ?r] ?r ?now 0) 1 = Some r' \<and> _")
proof -
  have "\<not> HasOneTimeDailyQuota ?z ?r"
    by (simp add: HasOneTimeDailyQuota_def demo_sub_def AddDate_def time_Date_def wall_clock_def
        gap_zone_def Let_def day_ns_def duration_units minDuration_def)
  with midnight_gap_clears_daily_usage [of 5 1 ?now "[1 \<mapsto> ?r]" 1 ?r 0]
  show ?thesis by (auto simp: demo_sub_def day_ns_def duration_units)
qed

lemma daily_reset_freezes_counters_witness:
  fixes s r t'
  defines "s \<equiv> demo_sub\<lparr>DailyWindowStart := None, WeeklyWindowStart := None,
      MonthlyWindowStart := None\<rparr>"
    and "r \<equiv> demo_sub\<lparr>DailyWindowStart := Some (20 * day_ns), DailyUsageUSD := 0,
      WeeklyWindowStart := None, MonthlyWindowStart := None, UpdatedAt := 0\<rparr>"
  shows "WeeklyUsageUSD (last_row r (quota_trace (fixed_zone 0) (\<lambda>_. True) 1 ([1 \<mapsto> r], \<lambda>_. None)
      [Charge 5 0, Load 0, Weekly 0 (30 * day_ns) 0])) = 7"
proof -
  have "AdminResetQuota (fixed_zone 0) [1 \<mapsto> s] 1 True False False (20 * day_ns) 0 = ([1 \<mapsto> r], Inr r)"
    by (simp add: AdminResetQuota_def repo_GetByID_def found_def live_row_def s_def r_def demo_sub_def
        repo_ResetUsageWindows_def update_one_def StartOfDay_fixed Let_def)
  from daily_reset_freezes_counters [OF _ _ _ _ this refl, of s "\<lambda>_. True"
      "[Charge 5 0, Load 0, Weekly 0 (30 * day_ns) 0]"]
  show ?thesis
    by (simp add: s_def IsWindowActivated_def demo_sub_def charged_def RecordUsage_def
        repo_IncrementUsage_def live_row_def r_def repo_reads with_copy_def Let_def)
qed

end
