(* ===== verification/SubscriptionTerms.thy ===== *)
theory SubscriptionTerms
  imports SubscriptionService
begin

text \<open>
  Properties of assigning, renewing and adjusting subscriptions and of the checks made for
  a request, over the operations of \<^verbatim>\<open>SubscriptionService\<close>.
\<close>

lemma live_row_iff: "live_row t i = Some r \<longleftrightarrow> t i = Some r \<and> DeletedAt r = None"
  by (auto simp: live_row_def split: option.splits if_splits)


lemma cap_expiry_le: "cap_expiry e \<le> MaxExpiresAt"
  by (simp add: cap_expiry_def)

section \<open>Renewal\<close>


section \<open>Adjustment\<close>

text \<open>
  C34: An administrator's adjustment either fails and changes nothing, or leaves the
  subscription with an end after now and not after 2099; days are counted from the end of
  the running term, or from now if the term is over, which can then not be shortened.
\<close>

theorem adjustment_safe:
  assumes "ExtendSubscription z t i days now clock = (t', res)"
  shows "case res of
      Inl e \<Rightarrow> t' = t
    | Inr s \<Rightarrow> now < ExpiresAt s \<and> ExpiresAt s \<le> MaxExpiresAt \<and> live_row t' i = Some s \<and>
        (\<exists>r. live_row t i = Some r \<and>
          ExpiresAt s = cap_expiry (AddDate z (max (ExpiresAt r) now) (clampDays days)) \<and>
          (clampDays days < 0 \<longrightarrow> now < ExpiresAt r))"
proof (cases "live_row t i")
  case None
  with assms show ?thesis
    by (auto simp: ExtendSubscription_def withSubscriptionUpdateTx_def extendTx_def
        repo_GetByIDForUpdate_def found_def and_then_def)
next
  case (Some r)
  let ?e = "cap_expiry (AddDate z (max (ExpiresAt r) now) (clampDays days))"
  let ?e' = "cap_expiry (if ExpiresAt r \<le> now then AddDate z now (clampDays days)
                         else AddDate z (ExpiresAt r) (clampDays days))"
  have e: "?e' = ?e" by (simp add: max_def)
  have row: "t i = Some r" "DeletedAt r = None" using Some by (simp_all add: live_row_iff)
  have tx: "extendTx z i days now clock t =
      (if ExpiresAt r \<le> now \<and> clampDays days < 0 then (t, Inl ErrCannotShortenExpired)
       else if \<not> ?e > now then (t, Inl ErrAdjustWouldExpire)
       else (t(i \<mapsto> (if Status r = SubscriptionStatusExpired
           then r\<lparr>ExpiresAt := ?e, Status := SubscriptionStatusActive, UpdatedAt := clock\<rparr>
           else r\<lparr>ExpiresAt := ?e, UpdatedAt := clock\<rparr>)), Inr ()))"
    using row Some
    by (simp add: extendTx_def repo_GetByIDForUpdate_def found_def Let_def not_less e repo_writes)
  show ?thesis
  proof (cases "(ExpiresAt r \<le> now \<and> clampDays days < 0) \<or> \<not> ?e > now")
    case True
    with assms tx show ?thesis
      by (auto simp: ExtendSubscription_def withSubscriptionUpdateTx_def and_then_def split: if_splits)
  next
    case False
    with assms tx row cap_expiry_le show ?thesis
      by (auto simp: ExtendSubscription_def withSubscriptionUpdateTx_def repo_GetByID_def found_def
          live_row_def and_then_def split: if_splits)
  qed
qed

section \<open>Assignment\<close>

lemma exists_iff_get:
  "repo_ExistsByUserIDAndGroupID t ids u g \<longleftrightarrow>
     (\<exists>i \<in> set ids. \<exists>r. live_row t i = Some r \<and> UserID r = u \<and> GroupID r = g)"
  by (auto simp: repo_ExistsByUserIDAndGroupID_def list_ex_iff split: option.splits)

text \<open>
  Assigning a subscription is idempotent: the first request creates the subscription, and
  repeating it at any moment before the subscription runs out finds it unchanged, creates
  nothing and reports no conflict.
\<close>

theorem assignment_idempotent:
  assumes "groups (in_GroupID inp) = Some g" "IsSubscriptionType g"
    and "\<not> repo_ExistsByUserIDAndGroupID t ids (in_UserID inp) (in_GroupID inp)"
    and "now \<noteq> 0"
  shows "\<exists>t' s. assignSubscriptionWithReuse z groups t ids i inp now clock = (t', Inr (s, False)) \<and>
    live_row t' i = Some s \<and>
    ExpiresAt s = cap_expiry (AddDate z now (normalizeAssignValidityDays (in_ValidityDays inp))) \<and>
    (\<forall>now' < ExpiresAt s. \<forall>j clock'.
       assignSubscriptionWithReuse z groups t' (i # ids) j inp now' clock' = (t', Inr (s, True)))"
proof -
  let ?e = "cap_expiry (AddDate z now (normalizeAssignValidityDays (in_ValidityDays inp)))"
  let ?s = "\<lparr>ID = i, UserID = in_UserID inp, GroupID = in_GroupID inp, StartsAt = now,
    ExpiresAt = ?e, Status = SubscriptionStatusActive, DailyWindowStart = None,
    WeeklyWindowStart = None, MonthlyWindowStart = None, DailyUsageUSD = 0, WeeklyUsageUSD = 0,
    MonthlyUsageUSD = 0, AssignedBy = (if in_AssignedBy inp > 0 then Some (in_AssignedBy inp) else None),
    AssignedAt = now, Notes = in_Notes inp, CreatedAt = clock, UpdatedAt = clock, DeletedAt = None\<rparr>"
  let ?t = "t(i \<mapsto> ?s)"
  have row: "live_row ?t i = Some ?s" by (simp add: live_row_def)
  have "assignSubscriptionWithReuse z groups t ids i inp now clock = (?t, Inr (?s, False))"
    using assms row
    by (simp add: assignSubscriptionWithReuse_def createSubscription_def repo_Create_def Let_def
        repo_GetByID_def found_def subscription_statuses)
  moreover have "assignSubscriptionWithReuse z groups ?t (i # ids) j inp now' clock' =
      (?t, Inr (?s, True))" if "now' < ?e" for now' j clock'
  proof -
    have "repo_ExistsByUserIDAndGroupID ?t (i # ids) (in_UserID inp) (in_GroupID inp)"
      using row by (simp add: repo_ExistsByUserIDAndGroupID_def)
    moreover have "repo_GetByUserIDAndGroupID ?t (i # ids) (in_UserID inp) (in_GroupID inp) = Inr ?s"
      using row by (simp add: repo_GetByUserIDAndGroupID_def found_def)
    ultimately show ?thesis using that assms
      by (simp add: assignSubscriptionWithReuse_def detectAssignSemanticConflict_def Let_def
          subscription_statuses)
  qed
  ultimately show ?thesis using row by (intro exI [of _ ?t] exI [of _ ?s]) simp
qed

section \<open>Admission\<close>

definition within_limit :: "rat option \<Rightarrow> rat \<Rightarrow> bool" where
  "within_limit l u \<longleftrightarrow> (case l of None \<Rightarrow> True | Some l \<Rightarrow> l \<le> 0 \<or> u \<le> l)"

lemma CheckLimit_within:
  "CheckDailyLimit s g c \<longleftrightarrow> within_limit (DailyLimitUSD g) (DailyUsageUSD s + c)"
  "CheckWeeklyLimit s g c \<longleftrightarrow> within_limit (WeeklyLimitUSD g) (WeeklyUsageUSD s + c)"
  "CheckMonthlyLimit s g c \<longleftrightarrow> within_limit (MonthlyLimitUSD g) (MonthlyUsageUSD s + c)"
  by (auto simp: CheckDailyLimit_def HasDailyLimit_def CheckWeeklyLimit_def HasWeeklyLimit_def
      CheckMonthlyLimit_def HasMonthlyLimit_def within_limit_def split: option.splits)

lemma admission:
  "let v = ValidateAndCheckLimits z s g now;
       daily = canAutomaticallyResetDailyAt z s now;
       weekly = canAutomaticallyResetWeeklyAt z s now;
       monthly = canAutomaticallyResetMonthlyAt z s now;
       valid = (Status s \<noteq> SubscriptionStatusExpired \<and> Status s \<noteq> SubscriptionStatusSuspended \<and>
                now < ExpiresAt s)
   in (fst (snd v) = None \<longleftrightarrow> valid \<and>
        within_limit (DailyLimitUSD g) (if daily then 0 else DailyUsageUSD s) \<and>
        within_limit (WeeklyLimitUSD g) (if weekly then 0 else WeeklyUsageUSD s) \<and>
        within_limit (MonthlyLimitUSD g) (if monthly then 0 else MonthlyUsageUSD s)) \<and>
      (fst v \<longleftrightarrow> valid \<and> (daily \<or> weekly \<or> monthly \<or> \<not> IsWindowActivated s))"
proof -
  have auto_eq: "automaticWindowStartAt z (s\<lparr>DailyUsageUSD := 0\<rparr>) = automaticWindowStartAt z s"
    "automaticWindowStartAt z (s\<lparr>WeeklyUsageUSD := 0\<rparr>) = automaticWindowStartAt z s"
    "automaticWindowStartAt z (s\<lparr>DailyUsageUSD := 0, WeeklyUsageUSD := 0\<rparr>) = automaticWindowStartAt z s"
    by (rule automaticWindowStartAt_cong; simp)+
  have same: "canAutomaticallyResetWeeklyAt z (s\<lparr>DailyUsageUSD := 0\<rparr>) now =
      canAutomaticallyResetWeeklyAt z s now"
    "canAutomaticallyResetMonthlyAt z (s\<lparr>DailyUsageUSD := 0\<rparr>) now =
      canAutomaticallyResetMonthlyAt z s now"
    "canAutomaticallyResetMonthlyAt z (s\<lparr>WeeklyUsageUSD := 0\<rparr>) now =
      canAutomaticallyResetMonthlyAt z s now"
    "canAutomaticallyResetMonthlyAt z (s\<lparr>DailyUsageUSD := 0, WeeklyUsageUSD := 0\<rparr>) now =
      canAutomaticallyResetMonthlyAt z s now"
    by (simp_all add: canAutomaticallyResetWeeklyAt_def canAutomaticallyResetMonthlyAt_def auto_eq)
  show ?thesis
    by (cases "canAutomaticallyResetDailyAt z s now"; cases "canAutomaticallyResetWeeklyAt z s now";
        cases "canAutomaticallyResetMonthlyAt z s now"; cases "IsWindowActivated s")
       (auto simp: ValidateAndCheckLimits_def Let_def same CheckLimit_within IsWindowActivated_def)
qed

text \<open>
  A request is admitted exactly when the subscription is neither expired nor suspended
  and its usage, counted as zero in every window that is due to advance, is within every
  limit of the group; and maintenance is asked for exactly when a subscription still running
  has a window due or has never started its windows.
\<close>

theorem admission_decided:
  "let v = ValidateAndCheckLimits z s g now;
       daily = canAutomaticallyResetDailyAt z s now;
       weekly = canAutomaticallyResetWeeklyAt z s now;
       monthly = canAutomaticallyResetMonthlyAt z s now;
       valid = (Status s \<noteq> SubscriptionStatusExpired \<and> Status s \<noteq> SubscriptionStatusSuspended \<and>
                now < ExpiresAt s)
   in (fst (snd v) = None \<longleftrightarrow> valid \<and>
        within_limit (DailyLimitUSD g) (if daily then 0 else DailyUsageUSD s) \<and>
        within_limit (WeeklyLimitUSD g) (if weekly then 0 else WeeklyUsageUSD s) \<and>
        within_limit (MonthlyLimitUSD g) (if monthly then 0 else MonthlyUsageUSD s)) \<and>
      (fst v \<longleftrightarrow> valid \<and> \<not> (IsWindowActivated s \<and> \<not> daily \<and> \<not> weekly \<and> \<not> monthly))"
  using admission [of z s g now] by (simp add: Let_def) blast

section \<open>Maintenance on a fresh copy\<close>

text \<open>The row of the table, up to the time of its last update.\<close>

definition row_of :: "sub_table \<Rightarrow> UserSubscription \<Rightarrow> bool" where
  "row_of t s \<longleftrightarrow> (\<exists>u. t (ID s) = Some (s\<lparr>UpdatedAt := u\<rparr>))"

definition apply_daily :: "zone \<Rightarrow> go_time \<Rightarrow> UserSubscription \<Rightarrow> UserSubscription" where
  "apply_daily z now s = (case automaticDailyWindowStartAt z s now of None \<Rightarrow> s
     | Some w \<Rightarrow> s\<lparr>DailyWindowStart := Some w, DailyUsageUSD := 0\<rparr>)"

definition apply_weekly :: "zone \<Rightarrow> go_time \<Rightarrow> UserSubscription \<Rightarrow> UserSubscription" where
  "apply_weekly z now s = (case automaticWindowStartAt z s (WeeklyWindowStart s) week now of None \<Rightarrow> s
     | Some w \<Rightarrow> s\<lparr>WeeklyWindowStart := Some w, WeeklyUsageUSD := 0\<rparr>)"

definition apply_monthly :: "zone \<Rightarrow> go_time \<Rightarrow> UserSubscription \<Rightarrow> UserSubscription" where
  "apply_monthly z now s = (case automaticWindowStartAt z s (MonthlyWindowStart s) month now of None \<Rightarrow> s
     | Some w \<Rightarrow> s\<lparr>MonthlyWindowStart := Some w, MonthlyUsageUSD := 0\<rparr>)"

lemmas applies = apply_daily_def apply_weekly_def apply_monthly_def

lemma reset_fresh:
  assumes "row_of t s"
  shows "\<exists>t'. resetDaily z t s now clock = (t', Inr (apply_daily z now s)) \<and> row_of t' (apply_daily z now s)"
    and "\<exists>t'. resetWeekly z t s now clock = (t', Inr (apply_weekly z now s)) \<and>
      row_of t' (apply_weekly z now s)"
    and "\<exists>t'. resetMonthly z t s now clock = (t', Inr (apply_monthly z now s)) \<and>
      row_of t' (apply_monthly z now s)"
proof -
  obtain u where u: "t (ID s) = Some (s\<lparr>UpdatedAt := u\<rparr>)" using assms by (auto simp: row_of_def)
  show "\<exists>t'. resetDaily z t s now clock = (t', Inr (apply_daily z now s)) \<and>
      row_of t' (apply_daily z now s)"
    using u by (cases "automaticDailyWindowStartAt z s now")
      (auto simp: resetDaily_def applies repo_writes row_of_def intro: exI [of _ clock] exI [of _ u])
  show "\<exists>t'. resetWeekly z t s now clock = (t', Inr (apply_weekly z now s)) \<and>
      row_of t' (apply_weekly z now s)"
    using u by (cases "automaticWindowStartAt z s (WeeklyWindowStart s) week now")
      (auto simp: resetWeekly_def applies repo_writes row_of_def intro: exI [of _ clock] exI [of _ u])
  show "\<exists>t'. resetMonthly z t s now clock = (t', Inr (apply_monthly z now s)) \<and>
      row_of t' (apply_monthly z now s)"
    using u by (cases "automaticWindowStartAt z s (MonthlyWindowStart s) month now")
      (auto simp: resetMonthly_def applies repo_writes row_of_def intro: exI [of _ clock] exI [of _ u])
qed

lemma apply_keeps:
  "ID (apply_daily z now s) = ID s" "ID (apply_weekly z now s) = ID s"
  "StartsAt (apply_daily z now s) = StartsAt s" "ExpiresAt (apply_daily z now s) = ExpiresAt s"
  "StartsAt (apply_weekly z now s) = StartsAt s" "ExpiresAt (apply_weekly z now s) = ExpiresAt s"
  "StartsAt (apply_monthly z now s) = StartsAt s" "ExpiresAt (apply_monthly z now s) = ExpiresAt s"
  "DeletedAt (apply_monthly z now (apply_weekly z now (apply_daily z now s))) = DeletedAt s"
  "Status (apply_monthly z now (apply_weekly z now (apply_daily z now s))) = Status s"
  by (auto simp: applies split: option.split)

definition maintained :: "zone \<Rightarrow> go_time \<Rightarrow> UserSubscription \<Rightarrow> UserSubscription" where
  "maintained z now s = apply_monthly z now (apply_weekly z now (apply_daily z now s))"

lemma maintained_term:
  "ID (maintained z now s) = ID s" "StartsAt (maintained z now s) = StartsAt s"
  "ExpiresAt (maintained z now s) = ExpiresAt s" "Status (maintained z now s) = Status s"
  "DeletedAt (maintained z now s) = DeletedAt s"
  by (auto simp: maintained_def applies split: option.split)

lemma maintained_windows:
  "DailyWindowStart (maintained z now s) = DailyWindowStart (apply_daily z now s)"
  "DailyUsageUSD (maintained z now s) = DailyUsageUSD (apply_daily z now s)"
  "WeeklyWindowStart (maintained z now s) = WeeklyWindowStart (apply_weekly z now s)"
  "WeeklyUsageUSD (maintained z now s) = WeeklyUsageUSD (apply_weekly z now s)"
  "MonthlyWindowStart (maintained z now s) = MonthlyWindowStart (apply_monthly z now s)"
  "MonthlyUsageUSD (maintained z now s) = MonthlyUsageUSD (apply_monthly z now s)"
proof -
  have d: "automaticWindowStartAt z (apply_daily z now s) = automaticWindowStartAt z s"
    by (rule automaticWindowStartAt_cong) (simp_all add: apply_keeps)
  have w: "automaticWindowStartAt z (apply_weekly z now (apply_daily z now s)) = automaticWindowStartAt z s"
    by (rule automaticWindowStartAt_cong) (simp_all add: apply_keeps)
  have "WeeklyWindowStart (apply_daily z now s) = WeeklyWindowStart s"
    "MonthlyWindowStart (apply_weekly z now (apply_daily z now s)) = MonthlyWindowStart s"
    "WeeklyUsageUSD (apply_daily z now s) = WeeklyUsageUSD s"
    "MonthlyUsageUSD (apply_weekly z now (apply_daily z now s)) = MonthlyUsageUSD s"
    by (auto simp: applies split: option.split)
  note eqs = this d w
  show "DailyWindowStart (maintained z now s) = DailyWindowStart (apply_daily z now s)"
    "DailyUsageUSD (maintained z now s) = DailyUsageUSD (apply_daily z now s)"
    by (simp_all add: maintained_def apply_monthly_def apply_weekly_def split: option.split)
  show "WeeklyWindowStart (maintained z now s) = WeeklyWindowStart (apply_weekly z now s)"
    "WeeklyUsageUSD (maintained z now s) = WeeklyUsageUSD (apply_weekly z now s)"
    using eqs
    by (simp_all add: maintained_def apply_monthly_def apply_weekly_def split: option.split)
  show "MonthlyWindowStart (maintained z now s) = MonthlyWindowStart (apply_monthly z now s)"
    "MonthlyUsageUSD (maintained z now s) = MonthlyUsageUSD (apply_monthly z now s)"
    using eqs by (simp_all add: maintained_def apply_monthly_def split: option.split)
qed

definition representable :: "go_time \<Rightarrow> UserSubscription \<Rightarrow> bool" where
  "representable now s \<longleftrightarrow> (\<forall>w \<in> set_option (WeeklyWindowStart s) \<union> set_option (MonthlyWindowStart s).
     now - w \<le> maxDuration \<and> ExpiresAt s - w \<le> maxDuration)"

lemma maintained_settled:
  assumes "time_zone z" "representable now s"
  shows "\<not> canAutomaticallyResetDailyAt z (maintained z now s) now"
    "\<not> canAutomaticallyResetWeeklyAt z (maintained z now s) now"
    "\<not> canAutomaticallyResetMonthlyAt z (maintained z now s) now"
proof -
  let ?r = "maintained z now s"
  have eq: "automaticWindowStartAt z ?r = automaticWindowStartAt z s"
    by (rule automaticWindowStartAt_cong) (simp_all add: maintained_term)
  have one: "HasOneTimeDailyQuota z ?r = HasOneTimeDailyQuota z s"
    by (simp add: HasOneTimeDailyQuota_def maintained_term)
  show "\<not> canAutomaticallyResetDailyAt z ?r now"
    using time_zone.midnight [OF assms(1)] one
    by (auto simp: canAutomaticallyResetDailyAt_def automaticDailyWindowStartAt_def
        maintained_windows apply_daily_def Let_def split: option.splits if_splits)
  show "\<not> canAutomaticallyResetWeeklyAt z ?r now"
    using assms(2) automaticWindowStartAt_settled [where period = week and z = z and s = s and s' = s]
    by (cases "WeeklyWindowStart s") (auto simp: canAutomaticallyResetWeeklyAt_def eq maintained_windows apply_weekly_def
        representable_def automaticWindowStartAt_def [of z s None] split: option.split)
  show "\<not> canAutomaticallyResetMonthlyAt z ?r now"
    using assms(2) automaticWindowStartAt_settled [where period = month and z = z and s = s and s' = s]
    by (cases "MonthlyWindowStart s") (auto simp: canAutomaticallyResetMonthlyAt_def eq maintained_windows apply_monthly_def
        representable_def automaticWindowStartAt_def [of z s None] split: option.split)
qed

lemma maintenance_fresh:
  assumes "t (ID s) = Some s" "DeletedAt s = None" "IsWindowActivated s"
  shows "\<exists>t' u. EnsureWindowMaintenance z t s now0 now clock =
    (t', Inr ((maintained z now s)\<lparr>UpdatedAt := u\<rparr>))"
proof -
  have "row_of t s" using assms(1) by (auto simp: row_of_def intro: exI [of _ "UpdatedAt s"])
  then obtain t1 where t1: "resetDaily z t s now clock = (t1, Inr (apply_daily z now s))"
    "row_of t1 (apply_daily z now s)" using reset_fresh(1) by blast
  then obtain t2 where t2: "resetWeekly z t1 (apply_daily z now s) now clock =
      (t2, Inr (apply_weekly z now (apply_daily z now s)))"
    "row_of t2 (apply_weekly z now (apply_daily z now s))" using reset_fresh(2) by blast
  then obtain t3 where t3: "resetMonthly z t2 (apply_weekly z now (apply_daily z now s)) now clock =
      (t3, Inr (maintained z now s))" "row_of t3 (maintained z now s)"
    using reset_fresh(3) unfolding maintained_def by blast
  from t3(2) obtain u where "t3 (ID s) = Some ((maintained z now s)\<lparr>UpdatedAt := u\<rparr>)"
    by (auto simp: row_of_def maintained_term)
  then show ?thesis
    using assms(2,3) t1(1) t2(1) t3(1)
    by (auto simp: EnsureWindowMaintenance_def CheckAndResetWindows_def repo_GetByID_def found_def
        live_row_def maintained_term)
qed

text \<open>
  C31: When a request holds a current copy of a started subscription, maintenance returns the
  stored row with every due window advanced and its counter cleared; nothing is due any more
  at that moment, and validating the returned row decides as the first validation did, now
  without asking for maintenance.
\<close>

theorem maintenance_settles:
  assumes "time_zone z" "t (ID s) = Some s" "DeletedAt s = None" "IsWindowActivated s"
    and "representable now s"
    and "EnsureWindowMaintenance z t s now0 now clock = (t', res)"
  shows "\<exists>r. res = Inr r \<and>
    DailyUsageUSD r = (if canAutomaticallyResetDailyAt z s now then 0 else DailyUsageUSD s) \<and>
    WeeklyUsageUSD r = (if canAutomaticallyResetWeeklyAt z s now then 0 else WeeklyUsageUSD s) \<and>
    MonthlyUsageUSD r = (if canAutomaticallyResetMonthlyAt z s now then 0 else MonthlyUsageUSD s) \<and>
    \<not> fst (ValidateAndCheckLimits z r g now) \<and>
    (fst (snd (ValidateAndCheckLimits z r g now)) = None \<longleftrightarrow>
     fst (snd (ValidateAndCheckLimits z s g now)) = None)"
proof -
  obtain u where res: "res = Inr ((maintained z now s)\<lparr>UpdatedAt := u\<rparr>)"
    using maintenance_fresh [of t s z now0 now clock] assms(2-4,6) by auto
  let ?m = "maintained z now s" and ?r = "(maintained z now s)\<lparr>UpdatedAt := u\<rparr>"
  have due: "canAutomaticallyResetDailyAt z ?r now = canAutomaticallyResetDailyAt z ?m now"
    "canAutomaticallyResetWeeklyAt z ?r now = canAutomaticallyResetWeeklyAt z ?m now"
    "canAutomaticallyResetMonthlyAt z ?r now = canAutomaticallyResetMonthlyAt z ?m now"
    using automaticDailyWindowStartAt_cong [of ?r ?m z now] automaticWindowStartAt_cong [of ?r ?m z]
    by (simp_all add: canAutomaticallyResetDailyAt_def canAutomaticallyResetWeeklyAt_def
        canAutomaticallyResetMonthlyAt_def)
  have usage: "DailyUsageUSD ?r = (if canAutomaticallyResetDailyAt z s now then 0 else DailyUsageUSD s)"
    "WeeklyUsageUSD ?r = (if canAutomaticallyResetWeeklyAt z s now then 0 else WeeklyUsageUSD s)"
    "MonthlyUsageUSD ?r = (if canAutomaticallyResetMonthlyAt z s now then 0 else MonthlyUsageUSD s)"
    by (auto simp: maintained_windows applies canAutomaticallyResetDailyAt_def
        canAutomaticallyResetWeeklyAt_def canAutomaticallyResetMonthlyAt_def split: option.split)
  have "IsWindowActivated ?r" using assms(4)
    by (auto simp: IsWindowActivated_def maintained_windows applies split: option.split)
  then show ?thesis
    using res usage due maintained_settled [OF assms(1,5)] admission [of z ?r g now]
      admission [of z s g now]
    by (simp add: Let_def maintained_term)
qed

section \<open>Witnesses\<close>



lemma adjustment_safe_witness:
  "\<exists>s. snd (ExtendSubscription (fixed_zone 0) [1 \<mapsto> demo_sub] 1 (-5) (2 * day_ns) 0) = Inr s \<and>
     2 * day_ns < ExpiresAt s"
proof -
  have "ExtendSubscription (fixed_zone 0) [1 \<mapsto> demo_sub] 1 (-5) (2 * day_ns) 0 =
      ([1 \<mapsto> demo_sub\<lparr>ExpiresAt := 27 * day_ns, UpdatedAt := 0\<rparr>],
       Inr (demo_sub\<lparr>ExpiresAt := 27 * day_ns, UpdatedAt := 0\<rparr>))"
    by (simp add: ExtendSubscription_def withSubscriptionUpdateTx_def extendTx_def repo_reads demo_sub_def
        clampDays_def MaxValidityDays_def AddDate_fixed cap_expiry_def MaxExpiresAt_def Let_def
        repo_writes subscription_statuses day_ns_def duration_units)
  from adjustment_safe [OF this] this show ?thesis by auto
qed

lemma assignment_idempotent_witness:
  "\<exists>t' s. assignSubscriptionWithReuse (fixed_zone 0)
      (\<lambda>_. Some \<lparr>SubscriptionType = SubscriptionTypeSubscription, DailyLimitUSD = None,
         WeeklyLimitUSD = None, MonthlyLimitUSD = None\<rparr>) Map.empty [] 1
      \<lparr>in_UserID = 7, in_GroupID = 3, in_ValidityDays = 0, in_AssignedBy = 0, in_Notes = []\<rparr> day_ns 0
    = (t', Inr (s, False)) \<and> ExpiresAt s = 31 * day_ns"
proof -
  have "cap_expiry (day_ns + 30 * day_ns) = 31 * day_ns"
    by (simp add: cap_expiry_def MaxExpiresAt_def day_ns_def duration_units)
  with assignment_idempotent [of "\<lambda>_. Some \<lparr>SubscriptionType = SubscriptionTypeSubscription,
      DailyLimitUSD = None, WeeklyLimitUSD = None, MonthlyLimitUSD = None\<rparr>"
      "\<lparr>in_UserID = 7, in_GroupID = 3, in_ValidityDays = 0, in_AssignedBy = 0, in_Notes = []\<rparr>" _
      Map.empty "[]" day_ns "fixed_zone 0" 1 0]
  show ?thesis
    by (auto simp: IsSubscriptionType_def repo_ExistsByUserIDAndGroupID_def AddDate_fixed
        normalizeAssignValidityDays_def MaxValidityDays_def)
qed

lemma maintenance_settles_witness:
  "\<exists>r. snd (EnsureWindowMaintenance (fixed_zone 0) [1 \<mapsto> demo_sub] demo_sub (9 * day_ns) (9 * day_ns) 0)
     = Inr r \<and> WeeklyUsageUSD r = 0 \<and> MonthlyUsageUSD r = 2"
proof -
  have "representable (9 * day_ns) demo_sub" "canAutomaticallyResetWeeklyAt (fixed_zone 0) demo_sub (9 * day_ns)"
    "\<not> canAutomaticallyResetMonthlyAt (fixed_zone 0) demo_sub (9 * day_ns)"
    by (simp_all add: representable_def demo_sub_def maxDuration_def canAutomaticallyResetWeeklyAt_def
        canAutomaticallyResetMonthlyAt_def automaticWindowStartAt_def windowResetAnchor_def
        StartOfDay_fixed week_def month_def Let_def day_ns_def duration_units)
  with maintenance_settles [OF fixed.time_zone_axioms, of "[1 \<mapsto> demo_sub]" demo_sub "9 * day_ns" 0
      "9 * day_ns" 0 _ _ undefined]
  show ?thesis
    by (cases "EnsureWindowMaintenance (fixed_zone 0) [1 \<mapsto> demo_sub] demo_sub (9 * day_ns) (9 * day_ns) 0")
       (force simp: demo_sub_def IsWindowActivated_def)
qed

end
