(* ===== verification/KeywordMatcher.thy ===== *)
theory KeywordMatcher
  imports Prelude "HOL-Library.Monad_Syntax"
begin

text \<open>
  \<^verbatim>\<open>backend/internal/service/content_moderation_keyword_matcher.go\<close>: the multi-keyword
  matcher of the content moderation, an Aho-Corasick automaton in arrays. The sentinel \<open>-1\<close>
  of an index is \<^const>\<open>None\<close>; indices stay far below the width of an \<^verbatim>\<open>int32\<close>. Loops whose
  end the data decides are \<open>partial_function\<close>s: \<^const>\<open>None\<close> is a loop that does not end, and
  \<^verbatim>\<open>KeywordSearch\<close> shows it never happens. \<open>lower\<close> is \<^verbatim>\<open>strings.ToLower\<close>, whose case tables
  belong to the Unicode data of the standard library.
\<close>

record knode =
  kn_failure :: nat
  kn_bestKeyword :: "nat option"
  kn_edgeStart :: nat
  kn_edgeCount :: nat

record kedge =
  ke_target :: nat
  ke_label :: char

record kbuild_edge =
  kb_target :: nat
  kb_nextSibling :: "nat option"
  kb_label :: char

record kmatcher =
  km_nodes :: "knode list"
  km_edges :: "kedge list"
  km_rootTransitions :: "nat list"
  km_keywords :: "string list"

definition byte :: "char \<Rightarrow> nat" where "byte c = of_char c"

definition newKeywordNode :: knode where
  "newKeywordNode = \<lparr>kn_failure = 0, kn_bestKeyword = None, kn_edgeStart = 0, kn_edgeCount = 0\<rparr>"

text \<open>While building, \<^verbatim>\<open>edgeStart\<close> is one more than the index of the node's first edge.\<close>

definition buildFirstEdge :: "knode \<Rightarrow> nat option" where
  "buildFirstEdge n = (if kn_edgeStart n = 0 then None else Some (kn_edgeStart n - 1))"

partial_function (option) findEdge ::
  "kbuild_edge list \<Rightarrow> nat option \<Rightarrow> char \<Rightarrow> nat option option" where
  "findEdge edges e label =
     (case e of
        None \<Rightarrow> Some None
      | Some i \<Rightarrow> if kb_label (edges ! i) = label then Some (Some (kb_target (edges ! i)))
                  else findEdge edges (kb_nextSibling (edges ! i)) label)"

definition buildTransition ::
  "knode list \<Rightarrow> kbuild_edge list \<Rightarrow> nat \<Rightarrow> char \<Rightarrow> nat option option" where
  "buildTransition nodes edges state label =
     (if state \<ge> length nodes then Some None
      else findEdge edges (buildFirstEdge (nodes ! state)) label)"

definition minKeywordIndex :: "nat option \<Rightarrow> nat option \<Rightarrow> nat option" where
  "minKeywordIndex left right =
     (case left of
        None \<Rightarrow> right
      | Some l \<Rightarrow> (case right of
            None \<Rightarrow> Some l
          | Some r \<Rightarrow> if l < r then Some l else Some r))"

section \<open>Building the trie\<close>

definition addLabel ::
  "char \<Rightarrow> knode list \<times> kbuild_edge list \<times> nat \<Rightarrow> (knode list \<times> kbuild_edge list \<times> nat) option" where
  "addLabel label = (\<lambda>(nodes, edges, state). do {
     found \<leftarrow> buildTransition nodes edges state label;
     case found of
       Some next_state \<Rightarrow> Some (nodes, edges, next_state)
     | None \<Rightarrow>
         let next_state = length nodes;
             nodes = nodes @ [newKeywordNode];
             edges = edges @ [\<lparr>kb_target = next_state,
               kb_nextSibling = buildFirstEdge (nodes ! state), kb_label = label\<rparr>];
             nodes = nodes[state := (nodes ! state)\<lparr>kn_edgeStart := length edges\<rparr>]
         in Some (nodes, edges, next_state)})"

primrec addLabels ::
  "string \<Rightarrow> knode list \<times> kbuild_edge list \<times> nat \<Rightarrow> (knode list \<times> kbuild_edge list \<times> nat) option" where
  "addLabels [] st = Some st"
| "addLabels (c # cs) st = do { st \<leftarrow> addLabel c st; addLabels cs st }"

definition addKeyword ::
  "(string \<Rightarrow> string) \<Rightarrow> nat \<Rightarrow> string \<Rightarrow> knode list \<times> kbuild_edge list \<Rightarrow>
     (knode list \<times> kbuild_edge list) option" where
  "addKeyword lower keywordIndex keyword = (\<lambda>(nodes, edges).
     if keyword = [] then Some (nodes, edges)
     else do {
       (nodes, edges, state) \<leftarrow> addLabels (lower keyword) (nodes, edges, 0);
       let better = (case kn_bestKeyword (nodes ! state) of
             None \<Rightarrow> True | Some current \<Rightarrow> keywordIndex < current);
       Some (if better
             then nodes[state := (nodes ! state)\<lparr>kn_bestKeyword := Some keywordIndex\<rparr>] else nodes,
             edges)})"

primrec addKeywords ::
  "(string \<Rightarrow> string) \<Rightarrow> nat \<Rightarrow> string list \<Rightarrow> knode list \<times> kbuild_edge list \<Rightarrow>
     (knode list \<times> kbuild_edge list) option" where
  "addKeywords lower i [] st = Some st"
| "addKeywords lower i (k # ks) st = do {
     st \<leftarrow> addKeyword lower i k st; addKeywords lower (Suc i) ks st }"

section \<open>Failure links\<close>

text \<open>The edges of a node, in the order of its sibling list.\<close>

partial_function (option) edgeChain ::
  "kbuild_edge list \<Rightarrow> nat option \<Rightarrow> kbuild_edge list option" where
  "edgeChain edges e =
     (case e of
        None \<Rightarrow> Some []
      | Some i \<Rightarrow> do {
          es \<leftarrow> edgeChain edges (kb_nextSibling (edges ! i));
          Some (edges ! i # es) })"

partial_function (option) fallBack ::
  "knode list \<Rightarrow> kbuild_edge list \<Rightarrow> nat \<Rightarrow> char \<Rightarrow> nat option option" where
  "fallBack nodes edges failure label = do {
     found \<leftarrow> buildTransition nodes edges failure label;
     if found = None \<and> failure \<noteq> 0
     then fallBack nodes edges (kn_failure (nodes ! failure)) label
     else Some found }"

definition linkChild ::
  "kbuild_edge list \<Rightarrow> nat \<Rightarrow> kbuild_edge \<Rightarrow> knode list \<Rightarrow> knode list option" where
  "linkChild edges state e nodes = do {
     found \<leftarrow> fallBack nodes edges (kn_failure (nodes ! state)) (kb_label e);
     let t = kb_target e;
     let nodes = (case found of
           None \<Rightarrow> nodes
         | Some f \<Rightarrow> nodes[t := (nodes ! t)\<lparr>kn_failure := f\<rparr>]);
     Some (nodes[t := (nodes ! t)\<lparr>kn_bestKeyword :=
        minKeywordIndex (kn_bestKeyword (nodes ! t))
          (kn_bestKeyword (nodes ! kn_failure (nodes ! t)))\<rparr>]) }"

primrec linkChildren ::
  "kbuild_edge list \<Rightarrow> nat \<Rightarrow> kbuild_edge list \<Rightarrow> knode list \<times> nat list \<Rightarrow>
     (knode list \<times> nat list) option" where
  "linkChildren edges state [] st = Some st"
| "linkChildren edges state (e # es) st = do {
     nodes \<leftarrow> linkChild edges state e (fst st);
     linkChildren edges state es (nodes, snd st @ [kb_target e]) }"

partial_function (option) linkQueue ::
  "kbuild_edge list \<Rightarrow> knode list \<Rightarrow> nat list \<Rightarrow> nat \<Rightarrow> knode list option" where
  "linkQueue edges nodes queue queueIndex =
     (if queueIndex < length queue
      then do {
        es \<leftarrow> edgeChain edges (buildFirstEdge (nodes ! (queue ! queueIndex)));
        st \<leftarrow> linkChildren edges (queue ! queueIndex) es (nodes, queue);
        linkQueue edges (fst st) (snd st) (queueIndex + 1) }
      else Some nodes)"

text \<open>\<^verbatim>\<open>(rootTransitions, queue)\<close> after the loop over the edges of the root.\<close>

definition rootLoop :: "kbuild_edge list \<Rightarrow> nat list \<times> nat list" where
  "rootLoop es = fold (\<lambda>e (trans, queue).
     (trans[byte (kb_label e) := kb_target e], queue @ [kb_target e])) es (replicate 256 0, [])"

section \<open>Freezing the edges\<close>

text \<open>The inner loop of the insertion sort: shift larger labels right, then put \<open>current\<close>.\<close>

primrec shiftInsert :: "kedge \<Rightarrow> kedge list \<Rightarrow> nat \<Rightarrow> kedge list" where
  "shiftInsert current outgoing 0 = outgoing[0 := current]"
| "shiftInsert current outgoing (Suc insertAt) =
     (if byte (ke_label current) < byte (ke_label (outgoing ! insertAt))
      then shiftInsert current (outgoing[Suc insertAt := outgoing ! insertAt]) insertAt
      else outgoing[Suc insertAt := current])"

definition sortEdges :: "kedge list \<Rightarrow> kedge list" where
  "sortEdges outgoing =
     fold (\<lambda>index outgoing. shiftInsert (outgoing ! index) outgoing index)
       [1..<length outgoing] outgoing"

definition freezeNode ::
  "kbuild_edge list \<Rightarrow> nat \<Rightarrow> knode list \<times> kedge list \<Rightarrow> (knode list \<times> kedge list) option" where
  "freezeNode buildEdges nodeIndex = (\<lambda>(nodes, edges). do {
     es \<leftarrow> edgeChain buildEdges (buildFirstEdge (nodes ! nodeIndex));
     let outgoing = sortEdges (map (\<lambda>e. \<lparr>ke_target = kb_target e, ke_label = kb_label e\<rparr>) es);
     Some (nodes[nodeIndex := (nodes ! nodeIndex)\<lparr>kn_edgeStart := length edges,
             kn_edgeCount := length outgoing\<rparr>],
           edges @ outgoing) })"

primrec freezeNodes ::
  "kbuild_edge list \<Rightarrow> nat list \<Rightarrow> knode list \<times> kedge list \<Rightarrow> (knode list \<times> kedge list) option" where
  "freezeNodes buildEdges [] st = Some st"
| "freezeNodes buildEdges (i # is) st = do {
     st \<leftarrow> freezeNode buildEdges i st; freezeNodes buildEdges is st }"

text \<open>The inner \<^const>\<open>None\<close> is the nil matcher.\<close>

definition newKeywordMatcher ::
  "(string \<Rightarrow> string) \<Rightarrow> string list \<Rightarrow> kmatcher option option" where
  "newKeywordMatcher lower kws =
     (if kws = [] then Some None
      else do {
        (nodes, buildEdges) \<leftarrow> addKeywords lower 0 kws ([newKeywordNode], []);
        if length nodes = 1 then Some None
        else do {
          es \<leftarrow> edgeChain buildEdges (buildFirstEdge (nodes ! 0));
          let (trans, queue) = rootLoop es;
          nodes \<leftarrow> linkQueue buildEdges nodes queue 0;
          (nodes, edges) \<leftarrow> freezeNodes buildEdges [0..<length nodes] (nodes, []);
          Some (Some \<lparr>km_nodes = nodes, km_edges = edges, km_rootTransitions = trans,
                      km_keywords = kws\<rparr>) }})"

section \<open>Matching\<close>

text \<open>The first position of \<open>[left, right)\<close> whose label is not below the one sought.\<close>

function lowerBound :: "kedge list \<Rightarrow> char \<Rightarrow> nat \<Rightarrow> nat \<Rightarrow> nat" where
  "lowerBound edges label left right =
     (if left < right then
        let middle = left + (right - left) div 2 in
        if byte (ke_label (edges ! middle)) < byte label
        then lowerBound edges label (middle + 1) right
        else lowerBound edges label left middle
      else left)"
  by pat_completeness auto
termination
  by (relation "measure (\<lambda>(edges, label, left, right). right - left)") auto

declare lowerBound.simps [simp del]

definition km_next :: "kmatcher \<Rightarrow> nat \<Rightarrow> char \<Rightarrow> nat" where
  "km_next m state label =
     (if state = 0 then km_rootTransitions m ! byte label
      else if state \<ge> length (km_nodes m) then 0
      else
        let node = km_nodes m ! state;
            limit = kn_edgeStart node + kn_edgeCount node;
            left = lowerBound (km_edges m) label (kn_edgeStart node) limit
        in if left < limit \<and> ke_label (km_edges m ! left) = label
           then ke_target (km_edges m ! left) else 0)"

partial_function (option) advance :: "kmatcher \<Rightarrow> nat \<Rightarrow> char \<Rightarrow> nat option" where
  "advance m state label =
     (if km_next m state label \<noteq> 0 then Some (km_next m state label)
      else if state = 0 then Some 0
      else advance m (kn_failure (km_nodes m ! state)) label)"

text \<open>The loop over the bytes; a best keyword of index 0 cannot be improved and ends it.\<close>

primrec scan :: "kmatcher \<Rightarrow> string \<Rightarrow> nat \<Rightarrow> nat option \<Rightarrow> nat option option" where
  "scan m [] state best = Some best"
| "scan m (c # cs) state best = do {
     state \<leftarrow> advance m state c;
     let best = minKeywordIndex best (kn_bestKeyword (km_nodes m ! state));
     if best = Some 0 then Some best else scan m cs state best }"

definition Match :: "(string \<Rightarrow> string) \<Rightarrow> kmatcher option \<Rightarrow> string \<Rightarrow> (string \<times> bool) option" where
  "Match lower m text =
     (case m of
        None \<Rightarrow> Some ([], False)
      | Some m \<Rightarrow>
          if text = [] \<or> km_nodes m = [] \<or> km_keywords m = [] then Some ([], False)
          else do {
            best \<leftarrow> scan m (lower text) 0 None;
            case best of
              None \<Rightarrow> Some ([], False)
            | Some i \<Rightarrow> if i \<ge> length (km_keywords m) then Some ([], False)
                        else Some (km_keywords m ! i, True) })"

end
