(* ===== verification/KeywordAutomaton.thy ===== *)
theory KeywordAutomaton
  imports KeywordMatcher "HOL-Library.Sublist"
begin

text \<open>
  What the builder of \<^verbatim>\<open>KeywordMatcher\<close> makes: a trie of the lower-cased keywords, failure
  links to longest proper suffixes, and in every node the first keyword that ends there. A
  ghost list \<open>ps\<close> gives the string each node stands for, a ghost function \<open>ch\<close> the edges of
  each node.
\<close>

section \<open>The first index with a property\<close>

fun first_index :: "('a \<Rightarrow> bool) \<Rightarrow> 'a list \<Rightarrow> nat option" where
  "first_index P [] = None"
| "first_index P (x # xs) = (if P x then Some 0 else map_option Suc (first_index P xs))"

lemma first_index_snoc:
  "first_index P (xs @ [x]) =
     (case first_index P xs of Some i \<Rightarrow> Some i
      | None \<Rightarrow> if P x then Some (length xs) else None)"
  by (induction xs) (auto split: option.splits)

lemma first_index_None_iff: "first_index P xs = None \<longleftrightarrow> (\<forall>x \<in> set xs. \<not> P x)"
  by (induction xs) auto

lemma first_index_less: "first_index P xs = Some i \<Longrightarrow> i < length xs"
  by (induction xs arbitrary: i) (auto split: if_splits)

lemma find_first_index: "find P xs = map_option ((!) xs) (first_index P xs)"
  by (induction xs) (auto simp: option.map_comp comp_def)

lemma minKeywordIndex_None [simp]:
  "minKeywordIndex None r = r" "minKeywordIndex l None = l"
  by (simp_all add: minKeywordIndex_def split: option.split)

lemma minKeywordIndex_Suc:
  "minKeywordIndex (map_option Suc l) (map_option Suc r) = map_option Suc (minKeywordIndex l r)"
  by (simp add: minKeywordIndex_def split: option.split)

lemma minKeywordIndex_0 [simp]:
  "minKeywordIndex (Some 0) r = Some 0" "minKeywordIndex l (Some 0) = Some 0"
  by (simp_all add: minKeywordIndex_def split: option.split)

lemma first_index_or:
  "minKeywordIndex (first_index P xs) (first_index Q xs) = first_index (\<lambda>x. P x \<or> Q x) xs"
  by (induction xs) (auto simp: minKeywordIndex_Suc)

lemma first_index_cong:
  "(\<And>x. x \<in> set xs \<Longrightarrow> P x = Q x) \<Longrightarrow> first_index P xs = first_index Q xs"
  by (induction xs) auto

section \<open>Sibling lists\<close>

fun chain_ok :: "kbuild_edge list \<Rightarrow> nat option \<Rightarrow> kbuild_edge list \<Rightarrow> bool" where
  "chain_ok edges e [] \<longleftrightarrow> e = None"
| "chain_ok edges e (x # xs) \<longleftrightarrow>
     (\<exists>i. e = Some i \<and> i < length edges \<and> edges ! i = x \<and> chain_ok edges (kb_nextSibling x) xs)"

lemma chain_ok_edgeChain: "chain_ok edges e es \<Longrightarrow> edgeChain edges e = Some es"
  by (induction edges e es rule: chain_ok.induct) (auto simp: edgeChain.simps)

lemma chain_ok_findEdge:
  "chain_ok edges e es \<Longrightarrow>
   findEdge edges e l = Some (map_option kb_target (find (\<lambda>x. kb_label x = l) es))"
  by (induction edges e es rule: chain_ok.induct) (auto simp: findEdge.simps)

lemma chain_ok_append: "chain_ok edges e es \<Longrightarrow> chain_ok (edges @ xs) e es"
  by (induction edges e es rule: chain_ok.induct) (auto simp: nth_append)

section \<open>The trie\<close>

definition trie ::
  "knode list \<Rightarrow> kbuild_edge list \<Rightarrow> string list \<Rightarrow> (nat \<Rightarrow> kbuild_edge list) \<Rightarrow> bool" where
  "trie nodes edges ps ch \<longleftrightarrow>
     length ps = length nodes \<and> distinct ps \<and> ps \<noteq> [] \<and> ps ! 0 = [] \<and>
     (\<forall>n < length ps. chain_ok edges (buildFirstEdge (nodes ! n)) (ch n) \<and>
        distinct (map kb_label (ch n)) \<and>
        (\<forall>e \<in> set (ch n). kb_target e < length ps \<and> ps ! kb_target e = ps ! n @ [kb_label e]) \<and>
        (\<forall>l. ps ! n @ [l] \<in> set ps \<longrightarrow> l \<in> kb_label ` set (ch n))) \<and>
     (\<forall>s \<in> set ps. s \<noteq> [] \<longrightarrow> butlast s \<in> set ps)"

lemma trieD:
  assumes "trie nodes edges ps ch"
  shows trie_length: "length nodes = length ps" and trie_distinct: "distinct ps"
    and trie_nonempty: "0 < length ps" and trie_root: "ps ! 0 = []"
    and trie_chain: "n < length ps \<Longrightarrow> chain_ok edges (buildFirstEdge (nodes ! n)) (ch n)"
    and trie_labels: "n < length ps \<Longrightarrow> distinct (map kb_label (ch n))"
    and trie_edge: "n < length ps \<Longrightarrow> e \<in> set (ch n) \<Longrightarrow>
      kb_target e < length ps \<and> ps ! kb_target e = ps ! n @ [kb_label e]"
    and trie_child: "n < length ps \<Longrightarrow> ps ! n @ [l] \<in> set ps \<Longrightarrow> l \<in> kb_label ` set (ch n)"
    and trie_prefix: "s @ [l] \<in> set ps \<Longrightarrow> s \<in> set ps"
proof -
  note t = assms [unfolded trie_def]
  show "length nodes = length ps" "distinct ps" "0 < length ps" "ps ! 0 = []" using t by auto
  show "n < length ps \<Longrightarrow> chain_ok edges (buildFirstEdge (nodes ! n)) (ch n)"
    "n < length ps \<Longrightarrow> distinct (map kb_label (ch n))"
    "n < length ps \<Longrightarrow> e \<in> set (ch n) \<Longrightarrow>
      kb_target e < length ps \<and> ps ! kb_target e = ps ! n @ [kb_label e]"
    "n < length ps \<Longrightarrow> ps ! n @ [l] \<in> set ps \<Longrightarrow> l \<in> kb_label ` set (ch n)" using t by blast+
  show "s @ [l] \<in> set ps \<Longrightarrow> s \<in> set ps" using t by (metis butlast_snoc snoc_eq_iff_butlast)
qed

lemma trie_index_eq:
  "trie nodes edges ps ch \<Longrightarrow> m < length ps \<Longrightarrow> n < length ps \<Longrightarrow> ps ! m = ps ! n \<Longrightarrow> m = n"
  using trie_distinct nth_eq_iff_index_eq by metis

lemma trie_root_iff:
  "trie nodes edges ps ch \<Longrightarrow> n < length ps \<Longrightarrow> ps ! n = [] \<longleftrightarrow> n = 0"
  using trie_index_eq [of nodes edges ps ch n 0] trie_nonempty trie_root by metis

text \<open>A transition finds the node of the extended string, if there is one.\<close>

definition child :: "string list \<Rightarrow> nat \<Rightarrow> char \<Rightarrow> nat option" where
  "child ps n l = (if ps ! n @ [l] \<in> set ps then find (\<lambda>m. ps ! m = ps ! n @ [l]) [0..<length ps]
     else None)"

lemma child_Some_iff:
  assumes "distinct ps"
  shows "child ps n l = Some m \<longleftrightarrow> m < length ps \<and> ps ! m = ps ! n @ [l]"
proof
  assume "child ps n l = Some m"
  then show "m < length ps \<and> ps ! m = ps ! n @ [l]"
    by (auto simp: child_def find_Some_iff split: if_splits)
next
  assume m: "m < length ps \<and> ps ! m = ps ! n @ [l]"
  then have "ps ! n @ [l] \<in> set ps" by (metis nth_mem)
  moreover have "find (\<lambda>k. ps ! k = ps ! n @ [l]) [0..<length ps] = Some m"
    using m nth_eq_iff_index_eq [OF assms, of _ m]
    by (auto simp: find_Some_iff intro!: exI [of _ m])
  ultimately show "child ps n l = Some m" by (simp add: child_def)
qed

lemma child_None_iff:
  "child ps n l = None \<longleftrightarrow> ps ! n @ [l] \<notin> set ps"
  by (auto simp: child_def find_None_iff in_set_conv_nth)

lemma find_label_child:
  assumes "trie nodes edges ps ch" "n < length ps"
  shows "map_option kb_target (find (\<lambda>x. kb_label x = l) (ch n)) = child ps n l"
proof (cases "find (\<lambda>x. kb_label x = l) (ch n)")
  case None
  then have "l \<notin> kb_label ` set (ch n)" by (auto simp: find_None_iff)
  then have "ps ! n @ [l] \<notin> set ps" using trie_child [OF assms] by blast
  with None show ?thesis by (simp add: child_None_iff [symmetric])
next
  case (Some e)
  then have "e \<in> set (ch n)" "kb_label e = l" by (auto simp: find_Some_iff)
  with trie_edge [OF assms] show ?thesis
    using Some child_Some_iff [OF trie_distinct [OF assms(1)], of n l "kb_target e"] by simp
qed

lemma trie_transition:
  assumes "trie nodes edges ps ch" "n < length ps"
  shows "buildTransition nodes edges n l = Some (child ps n l)"
  using assms trie_chain [OF assms] trie_length [OF assms(1)]
  by (simp add: buildTransition_def chain_ok_findEdge find_label_child)

lemma trie_init: "trie [newKeywordNode] [] [[]] (\<lambda>_. [])"
  by (simp add: trie_def newKeywordNode_def buildFirstEdge_def)

section \<open>Adding keywords\<close>

text \<open>The part of the nodes the trie does not depend on.\<close>

definition same_marks :: "nat \<Rightarrow> knode list \<Rightarrow> knode list \<Rightarrow> bool" where
  "same_marks k nodes nodes' \<longleftrightarrow> (\<forall>n < length nodes'.
     kn_failure (nodes' ! n) = (if n < k then kn_failure (nodes ! n) else 0) \<and>
     kn_bestKeyword (nodes' ! n) = (if n < k then kn_bestKeyword (nodes ! n) else None))"

lemma trie_extend:
  assumes tr: "trie nodes edges ps ch" and st: "state < length ps" and new: "ps ! state @ [l] \<notin> set ps"
  defines "x \<equiv> \<lparr>kb_target = length nodes, kb_nextSibling = buildFirstEdge (nodes ! state), kb_label = l\<rparr>"
  shows "trie ((nodes @ [newKeywordNode])[state := (nodes ! state)\<lparr>kn_edgeStart := Suc (length edges)\<rparr>])
    (edges @ [x]) (ps @ [ps ! state @ [l]]) (ch(state := x # ch state, length ps := []))"
    (is "trie ?nodes ?edges ?ps ?ch")
proof -
  let ?s = "ps ! state @ [l]"
  note len = trie_length [OF tr]
  have fresh: "l \<notin> kb_label ` set (ch state)"
  proof
    assume "l \<in> kb_label ` set (ch state)"
    then obtain e where "e \<in> set (ch state)" "l = kb_label e" by blast
    with trie_edge [OF tr st] new show False by (metis nth_mem)
  qed
  have node: "chain_ok ?edges (buildFirstEdge (?nodes ! n)) (?ch n) \<and> distinct (map kb_label (?ch n)) \<and>
      (\<forall>e \<in> set (?ch n). kb_target e < length ?ps \<and> ?ps ! kb_target e = ?ps ! n @ [kb_label e]) \<and>
      (\<forall>c. ?ps ! n @ [c] \<in> set ?ps \<longrightarrow> c \<in> kb_label ` set (?ch n))" if n: "n < length ?ps" for n
  proof -
    consider (st) "n = state" | (new) "n = length ps" | (old) "n < length ps" "n \<noteq> state"
      using n st by fastforce
    then show ?thesis
    proof cases
      case st
      have "ps ! state @ [c] \<in> set ps \<Longrightarrow> c \<in> kb_label ` set (ch state)" for c
        using trie_child [OF tr assms(2)] .
      moreover have "kb_target e < length ps \<and> ps ! kb_target e = ps ! state @ [kb_label e]"
        if "e \<in> set (ch state)" for e using trie_edge [OF tr assms(2) that] .
      moreover have "chain_ok (edges @ [x]) (buildFirstEdge (nodes ! state)) (ch state)"
        using trie_chain [OF tr assms(2)] by (rule chain_ok_append)
      moreover have "distinct (map kb_label (ch state))" using trie_labels [OF tr assms(2)] .
      ultimately show ?thesis using st assms(2) len fresh
        by (auto simp: nth_append x_def buildFirstEdge_def intro: less_SucI)
    next
      case new
      have "?s @ [c] \<notin> set ps" for c using trie_prefix [OF tr] assms(3) by blast
      with new assms(2) len show ?thesis
        by (auto simp: nth_append newKeywordNode_def buildFirstEdge_def)
    next
      case old
      have "c \<in> kb_label ` set (ch n)" if "ps ! n @ [c] \<in> set ps" for c
        using trie_child [OF tr old(1) that] .
      moreover have "ps ! n \<noteq> ps ! state" using trie_index_eq [OF tr old(1) st] old(2) by blast
      moreover have "kb_target e < length ps \<and> ps ! kb_target e = ps ! n @ [kb_label e]"
        if "e \<in> set (ch n)" for e using trie_edge [OF tr old(1) that] .
      moreover have "chain_ok (edges @ [x]) (buildFirstEdge (nodes ! n)) (ch n)"
        using trie_chain [OF tr old(1)] by (rule chain_ok_append)
      moreover have "distinct (map kb_label (ch n))" using trie_labels [OF tr old(1)] .
      ultimately show ?thesis using old len by (auto simp: nth_append intro: less_SucI)
    qed
  qed
  have "\<forall>s \<in> set ?ps. s \<noteq> [] \<longrightarrow> butlast s \<in> set ?ps"
    using tr st by (auto simp: trie_def)
  moreover have "length ?ps = length ?nodes" "distinct ?ps" "?ps \<noteq> []" "?ps ! 0 = []"
    using len new trie_distinct [OF tr] trie_nonempty [OF tr] trie_root [OF tr]
    by (auto simp: nth_append)
  ultimately show ?thesis using node unfolding trie_def by blast
qed

lemma trie_addLabel:
  assumes tr: "trie nodes edges ps ch" and st: "state < length ps"
  shows "\<exists>nodes' edges' ps' ch' n'. addLabel l (nodes, edges, state) = Some (nodes', edges', n') \<and>
    trie nodes' edges' ps' ch' \<and> n' < length ps' \<and> ps' ! n' = ps ! state @ [l] \<and>
    (\<exists>ss. ps' = ps @ ss) \<and> same_marks (length ps) nodes nodes'"
proof (cases "child ps state l")
  case (Some m)
  then have "m < length ps" "ps ! m = ps ! state @ [l]"
    using child_Some_iff [OF trie_distinct [OF tr]] by auto
  with Some tr st trie_transition [OF tr st] trie_length [OF tr] show ?thesis
    by (auto simp: addLabel_def same_marks_def)
next
  case None
  then have new: "ps ! state @ [l] \<notin> set ps" by (simp add: child_None_iff)
  let ?x = "\<lparr>kb_target = length nodes, kb_nextSibling = buildFirstEdge (nodes ! state), kb_label = l\<rparr>"
  let ?nodes = "(nodes @ [newKeywordNode])[state := (nodes ! state)\<lparr>kn_edgeStart := Suc (length edges)\<rparr>]"
  have "addLabel l (nodes, edges, state) = Some (?nodes, edges @ [?x], length nodes)"
    using None trie_transition [OF tr st] st trie_length [OF tr]
    by (simp add: addLabel_def Let_def nth_append)
  moreover have "same_marks (length ps) nodes ?nodes"
    using st trie_length [OF tr]
    by (auto simp: same_marks_def nth_list_update nth_append newKeywordNode_def)
  ultimately show ?thesis
    using trie_extend [OF tr st new] trie_length [OF tr]
    by (intro exI conjI) (assumption | simp | blast)+
qed

lemma same_marks_trans:
  assumes "same_marks k nodes nodes'" "same_marks (length nodes') nodes' nodes''" "k \<le> length nodes'"
  shows "same_marks k nodes nodes''"
  unfolding same_marks_def
proof (intro allI impI)
  fix n assume "n < length nodes''"
  with assms show "kn_failure (nodes'' ! n) = (if n < k then kn_failure (nodes ! n) else 0) \<and>
      kn_bestKeyword (nodes'' ! n) = (if n < k then kn_bestKeyword (nodes ! n) else None)"
    by (cases "n < length nodes'") (auto simp: same_marks_def)
qed

lemma trie_addLabels:
  assumes "trie nodes edges ps ch" "state < length ps"
  shows "\<exists>nodes' edges' ps' ch' n'. addLabels w (nodes, edges, state) = Some (nodes', edges', n') \<and>
    trie nodes' edges' ps' ch' \<and> n' < length ps' \<and> ps' ! n' = ps ! state @ w \<and>
    (\<exists>ss. ps' = ps @ ss) \<and> same_marks (length ps) nodes nodes'"
  using assms
proof (induction w arbitrary: nodes edges ps ch state)
  case Nil
  then show ?case using trie_length [OF Nil(1)] by (auto simp: same_marks_def)
next
  case (Cons c w)
  obtain nodes1 edges1 ps1 ch1 n1 where 1: "addLabel c (nodes, edges, state) = Some (nodes1, edges1, n1)"
    "trie nodes1 edges1 ps1 ch1" "n1 < length ps1" "ps1 ! n1 = ps ! state @ [c]"
    "\<exists>ss. ps1 = ps @ ss" "same_marks (length ps) nodes nodes1"
    using trie_addLabel [OF Cons.prems] by blast
  obtain nodes2 edges2 ps2 ch2 n2 where 2: "addLabels w (nodes1, edges1, n1) = Some (nodes2, edges2, n2)"
    "trie nodes2 edges2 ps2 ch2" "n2 < length ps2" "ps2 ! n2 = ps1 ! n1 @ w"
    "\<exists>ss. ps2 = ps1 @ ss" "same_marks (length ps1) nodes1 nodes2"
    using Cons.IH [OF 1(2,3)] by blast
  have "same_marks (length ps) nodes nodes2"
    using same_marks_trans [OF 1(6)] 2(6) 1(5) trie_length [OF 1(2)] by auto
  then show ?case using 1 2 by (intro exI [of _ nodes2] exI [of _ edges2] exI [of _ ps2]
      exI [of _ ch2] exI [of _ n2]) auto
qed

text \<open>After the first keywords, every node is marked with the first of them it stands for.\<close>

definition is_word :: "(string \<Rightarrow> string) \<Rightarrow> string \<Rightarrow> string \<Rightarrow> bool" where
  "is_word lower s k \<longleftrightarrow> k \<noteq> [] \<and> lower k = s"

definition marked :: "(string \<Rightarrow> string) \<Rightarrow> string list \<Rightarrow> knode list \<Rightarrow> string list \<Rightarrow> bool" where
  "marked lower ks nodes ps \<longleftrightarrow>
     (\<forall>n < length ps. kn_failure (nodes ! n) = 0 \<and>
        kn_bestKeyword (nodes ! n) = first_index (is_word lower (ps ! n)) ks) \<and>
     (\<forall>k \<in> set ks. k \<noteq> [] \<longrightarrow> lower k \<in> set ps)"

lemma trie_cong:
  assumes "trie nodes edges ps ch" "map kn_edgeStart nodes' = map kn_edgeStart nodes"
  shows "trie nodes' edges ps ch"
proof -
  have len: "length nodes' = length nodes" using assms(2) by (metis length_map)
  have "buildFirstEdge (nodes' ! n) = buildFirstEdge (nodes ! n)" if "n < length nodes" for n
    using assms(2) that len by (metis buildFirstEdge_def nth_map)
  then show ?thesis using assms(1) len unfolding trie_def by auto
qed

lemma edgeStarts_update [simp]:
  "kn_edgeStart x = kn_edgeStart (nodes ! n) \<Longrightarrow>
   map kn_edgeStart (nodes[n := x]) = map kn_edgeStart nodes"
  by (cases "n < length nodes") (simp_all add: map_update list_update_beyond list_update_same_conv)

lemma trie_set_best:
  "trie nodes edges ps ch \<Longrightarrow>
   trie (nodes[n := (nodes ! n)\<lparr>kn_bestKeyword := b\<rparr>]) edges ps ch"
  by (erule trie_cong) simp

lemma trie_addKeyword:
  assumes tr: "trie nodes edges ps ch" and mk: "marked lower ks nodes ps"
  shows "\<exists>nodes' edges' ps' ch'. addKeyword lower (length ks) k (nodes, edges) = Some (nodes', edges') \<and>
    trie nodes' edges' ps' ch' \<and> marked lower (ks @ [k]) nodes' ps'"
proof (cases "k = []")
  case True
  with mk have "marked lower (ks @ [k]) nodes ps"
    by (auto simp: marked_def first_index_snoc is_word_def split: option.split)
  with True tr show ?thesis by (auto simp: addKeyword_def)
next
  case False
  obtain nodes1 edges1 ps1 ch1 n1 where 1:
    "addLabels (lower k) (nodes, edges, 0) = Some (nodes1, edges1, n1)"
    "trie nodes1 edges1 ps1 ch1" "n1 < length ps1" "ps1 ! n1 = lower k"
    "\<exists>ss. ps1 = ps @ ss" "same_marks (length ps) nodes nodes1"
    using trie_addLabels [OF tr trie_nonempty [OF tr], of "lower k"] trie_root [OF tr] by auto
  obtain ss where ss: "ps1 = ps @ ss" using 1(5) by blast
  have len: "length nodes1 = length ps1" by (rule trie_length [OF 1(2)])
  have best1: "kn_bestKeyword (nodes1 ! n) = first_index (is_word lower (ps1 ! n)) ks \<and>
      kn_failure (nodes1 ! n) = 0" if "n < length ps1" for n
  proof (cases "n < length ps")
    case True
    with mk 1(6) that len ss show ?thesis by (auto simp: marked_def same_marks_def nth_append)
  next
    case False
    have "ps1 ! n \<notin> set ps"
      using trie_distinct [OF 1(2)] ss that False by (auto simp: nth_append)
    with mk have "first_index (is_word lower (ps1 ! n)) ks = None"
      by (auto simp: first_index_None_iff is_word_def marked_def)
    with False 1(6) that len show ?thesis by (auto simp: same_marks_def)
  qed
  let ?nodes = "if kn_bestKeyword (nodes1 ! n1) = None
    then nodes1[n1 := (nodes1 ! n1)\<lparr>kn_bestKeyword := Some (length ks)\<rparr>] else nodes1"
  have "addKeyword lower (length ks) k (nodes, edges) = Some (?nodes, edges1)"
    using False 1(1) best1 [OF 1(3)] first_index_less
    by (fastforce simp: addKeyword_def split: option.split)
  moreover have "trie ?nodes edges1 ps1 ch1" using trie_set_best [OF 1(2)] 1(2) by simp
  moreover have "marked lower (ks @ [k]) ?nodes ps1"
  proof -
    have "lower x \<in> set ps1" if "x \<in> set (ks @ [k])" "x \<noteq> []" for x
      using that mk ss nth_mem [OF 1(3)] 1(4) by (auto simp: marked_def)
    moreover have "kn_failure (?nodes ! n) = 0 \<and>
        kn_bestKeyword (?nodes ! n) = first_index (is_word lower (ps1 ! n)) (ks @ [k])"
      if n: "n < length ps1" for n
    proof (cases "n = n1")
      case True
      then have "is_word lower (ps1 ! n) k" using 1(4) False by (simp add: is_word_def)
      with True best1 [OF n] n len show ?thesis
        by (cases "first_index (is_word lower (ps1 ! n)) ks") (simp_all add: first_index_snoc)
    next
      case other: False
      then have "ps1 ! n \<noteq> lower k" using trie_index_eq [OF 1(2) n 1(3)] 1(4) by auto
      then have "\<not> is_word lower (ps1 ! n) k" by (simp add: is_word_def)
      with other best1 [OF n] show ?thesis by (simp add: first_index_snoc split: option.split)
    qed
    ultimately show ?thesis unfolding marked_def by blast
  qed
  ultimately show ?thesis by blast
qed

lemma trie_addKeywords:
  assumes "trie nodes edges ps ch" "marked lower js nodes ps"
  shows "\<exists>nodes' edges' ps' ch'. addKeywords lower (length js) ks (nodes, edges) = Some (nodes', edges') \<and>
    trie nodes' edges' ps' ch' \<and> marked lower (js @ ks) nodes' ps'"
  using assms
proof (induction ks arbitrary: js nodes edges ps ch)
  case (Cons k ks)
  obtain nodes1 edges1 ps1 ch1 where 1: "addKeyword lower (length js) k (nodes, edges) = Some (nodes1, edges1)"
    "trie nodes1 edges1 ps1 ch1" "marked lower (js @ [k]) nodes1 ps1"
    using trie_addKeyword [OF Cons.prems] by blast
  from Cons.IH [OF 1(2,3)] show ?case using 1(1) by auto
qed auto

end
