(* ===== verification/KeywordLinks.thy ===== *)
theory KeywordLinks
  imports KeywordAutomaton
begin

text \<open>
  The breadth-first pass of the builder of \<^verbatim>\<open>KeywordMatcher\<close>: it ends, every failure link
  is the node of the longest proper suffix in the trie, and every node carries the first keyword
  that is a suffix of its string.
\<close>

section \<open>What a finished node looks like\<close>

definition longest_fail :: "string list \<Rightarrow> nat \<Rightarrow> nat \<Rightarrow> bool" where
  "longest_fail ps n f \<longleftrightarrow> f < length ps \<and> strict_suffix (ps ! f) (ps ! n) \<and>
     (\<forall>t \<in> set ps. strict_suffix t (ps ! n) \<longrightarrow> suffix t (ps ! f))"

definition ends_with :: "(string \<Rightarrow> string) \<Rightarrow> string \<Rightarrow> string \<Rightarrow> bool" where
  "ends_with lower s k \<longleftrightarrow> k \<noteq> [] \<and> suffix (lower k) s"

definition linked :: "(string \<Rightarrow> string) \<Rightarrow> string list \<Rightarrow> string list \<Rightarrow> nat \<Rightarrow> knode \<Rightarrow> bool" where
  "linked lower kws ps n x \<longleftrightarrow>
     (if n = 0 then kn_failure x = 0 else longest_fail ps n (kn_failure x)) \<and>
     kn_bestKeyword x = first_index (ends_with lower (ps ! n)) kws"

definition raw :: "(string \<Rightarrow> string) \<Rightarrow> string list \<Rightarrow> string list \<Rightarrow> nat \<Rightarrow> knode \<Rightarrow> bool" where
  "raw lower kws ps n x \<longleftrightarrow>
     kn_failure x = 0 \<and> kn_bestKeyword x = first_index (is_word lower (ps ! n)) kws"

lemma longest_fail_shorter: "longest_fail ps n f \<Longrightarrow> length (ps ! f) < length (ps ! n)"
  by (auto simp: longest_fail_def strict_suffix_def suffix_def)

lemma linked_fail:
  "linked lower kws ps n x \<Longrightarrow> n \<noteq> 0 \<Longrightarrow> longest_fail ps n (kn_failure x)"
  by (simp add: linked_def)

lemma suffix_snoc_cases:
  "suffix u (s @ [c]) \<longleftrightarrow> u = [] \<or> (\<exists>v. u = v @ [c] \<and> suffix v s)"
  by (cases u rule: rev_cases) (auto simp: suffix_def)

lemma strict_suffix_snoc_cases:
  "strict_suffix u (s @ [c]) \<longleftrightarrow> u = [] \<or> (\<exists>v. u = v @ [c] \<and> strict_suffix v s)"
  unfolding strict_suffix_def suffix_snoc_cases by auto

lemma raw_root:
  assumes "raw lower kws ps 0 x" "ps ! 0 = []"
  shows "linked lower kws ps 0 x"
proof -
  have "first_index (is_word lower []) kws = first_index (ends_with lower []) kws"
    by (rule first_index_cong) (auto simp: is_word_def ends_with_def)
  with assms show ?thesis by (simp add: raw_def linked_def)
qed

text \<open>A child of the root is finished as it is: its longest proper suffix is the empty string.\<close>

lemma raw_depth_one:
  assumes "raw lower kws ps n x" "ps ! n = [c]" "ps ! 0 = []" "0 < length ps"
    "\<forall>k \<in> set kws. k \<noteq> [] \<longrightarrow> lower k \<noteq> []"
  shows "linked lower kws ps n x"
proof -
  have "n \<noteq> 0" using assms(2,3) by (cases n) auto
  have suf: "suffix t [c] \<longleftrightarrow> t = [] \<or> t = [c]" for t
    using suffix_snoc_cases [of t "[]" c] by auto
  have "longest_fail ps n 0"
    using assms(2-4) by (auto simp: longest_fail_def strict_suffix_def suf)
  moreover have "first_index (is_word lower [c]) kws = first_index (ends_with lower [c]) kws"
    using assms(5) by (intro first_index_cong) (auto simp: is_word_def ends_with_def suf)
  ultimately show ?thesis using assms \<open>n \<noteq> 0\<close> by (simp add: raw_def linked_def)
qed

section \<open>Falling back\<close>

text \<open>The loop over the failure links finds the longest suffix that can be extended.\<close>

lemma fallBack_finds:
  assumes tr: "trie nodes edges ps ch" and f: "f < length ps"
    and links: "\<And>m. m < length ps \<Longrightarrow> length (ps ! m) \<le> length (ps ! f) \<Longrightarrow> m \<noteq> 0 \<Longrightarrow>
      longest_fail ps m (kn_failure (nodes ! m))"
  shows "\<exists>r. fallBack nodes edges f l = Some r \<and>
    (case r of
       None \<Rightarrow> \<forall>u. suffix u (ps ! f) \<longrightarrow> u @ [l] \<notin> set ps
     | Some g \<Rightarrow> g < length ps \<and> (\<exists>t. ps ! g = t @ [l] \<and> suffix t (ps ! f) \<and>
         (\<forall>u. suffix u (ps ! f) \<longrightarrow> u @ [l] \<in> set ps \<longrightarrow> suffix u t)))"
  using f links
proof (induction "length (ps ! f)" arbitrary: f rule: less_induct)
  case less
  note step = fallBack.simps [of nodes edges f l] trie_transition [OF tr less.prems(1), of l]
  show ?case
  proof (cases "child ps f l")
    case (Some g)
    then have "g < length ps" "ps ! g = ps ! f @ [l]"
      using child_Some_iff [OF trie_distinct [OF tr]] by auto
    with Some step show ?thesis by auto
  next
    case None
    then have no: "ps ! f @ [l] \<notin> set ps" by (simp add: child_None_iff)
    show ?thesis
    proof (cases "f = 0")
      case True
      with no trie_root [OF tr] step None show ?thesis by auto
    next
      case False
      let ?f = "kn_failure (nodes ! f)"
      have lf: "longest_fail ps f ?f" using less.prems False by blast
      have shorter: "length (ps ! ?f) < length (ps ! f)" by (rule longest_fail_shorter [OF lf])
      have f': "?f < length ps" using lf by (simp add: longest_fail_def)
      have same: "suffix u (ps ! f) \<and> u @ [l] \<in> set ps \<longleftrightarrow> suffix u (ps ! ?f) \<and> u @ [l] \<in> set ps" for u
      proof
        assume u: "suffix u (ps ! f) \<and> u @ [l] \<in> set ps"
        then have "u \<noteq> ps ! f" "u \<in> set ps" using no trie_prefix [OF tr] by auto
        with u lf show "suffix u (ps ! ?f) \<and> u @ [l] \<in> set ps"
          by (simp add: longest_fail_def strict_suffix_def)
      next
        assume "suffix u (ps ! ?f) \<and> u @ [l] \<in> set ps"
        then show "suffix u (ps ! f) \<and> u @ [l] \<in> set ps"
          using lf suffix_order.trans by (auto simp: longest_fail_def strict_suffix_def)
      qed
      have "\<exists>r. fallBack nodes edges ?f l = Some r \<and>
        (case r of
           None \<Rightarrow> \<forall>u. suffix u (ps ! ?f) \<longrightarrow> u @ [l] \<notin> set ps
         | Some g \<Rightarrow> g < length ps \<and> (\<exists>t. ps ! g = t @ [l] \<and> suffix t (ps ! ?f) \<and>
             (\<forall>u. suffix u (ps ! ?f) \<longrightarrow> u @ [l] \<in> set ps \<longrightarrow> suffix u t)))"
        using less.hyps [OF shorter f'] less.prems(2) shorter by (meson le_trans less_imp_le)
      then obtain r where r: "fallBack nodes edges ?f l = Some r" and
        rr: "case r of
           None \<Rightarrow> \<forall>u. suffix u (ps ! ?f) \<longrightarrow> u @ [l] \<notin> set ps
         | Some g \<Rightarrow> g < length ps \<and> (\<exists>t. ps ! g = t @ [l] \<and> suffix t (ps ! ?f) \<and>
             (\<forall>u. suffix u (ps ! ?f) \<longrightarrow> u @ [l] \<in> set ps \<longrightarrow> suffix u t))" by blast
      have fb: "fallBack nodes edges f l = Some r" using step None False r by simp
      show ?thesis
      proof (cases r)
        case None
        with rr same have "\<forall>u. suffix u (ps ! f) \<longrightarrow> u @ [l] \<notin> set ps" by auto
        with fb None show ?thesis by auto
      next
        case (Some g)
        then obtain t where t: "g < length ps" "ps ! g = t @ [l]" "suffix t (ps ! ?f)"
          "\<forall>u. suffix u (ps ! ?f) \<longrightarrow> u @ [l] \<in> set ps \<longrightarrow> suffix u t" using rr by auto
        have "t @ [l] \<in> set ps" using t nth_mem by metis
        with t same have "suffix t (ps ! f)"
          "\<forall>u. suffix u (ps ! f) \<longrightarrow> u @ [l] \<in> set ps \<longrightarrow> suffix u t" by blast+
        with fb Some t show ?thesis by auto
      qed
    qed
  qed
qed

section \<open>Linking the children of one node\<close>

lemma linkChild_links:
  assumes tr: "trie nodes edges ps ch" and words: "\<forall>k \<in> set kws. k \<noteq> [] \<longrightarrow> lower k \<in> set ps"
    and s: "s < length ps" "s \<noteq> 0"
    and shallow: "\<And>m. m < length ps \<Longrightarrow> length (ps ! m) \<le> length (ps ! s) \<Longrightarrow>
      linked lower kws ps m (nodes ! m)"
    and e: "e \<in> set (ch s)" and raw: "raw lower kws ps (kb_target e) (nodes ! kb_target e)"
  shows "\<exists>x. linkChild edges s e nodes = Some (nodes[kb_target e := x]) \<and>
    linked lower kws ps (kb_target e) x \<and> kn_edgeStart x = kn_edgeStart (nodes ! kb_target e)"
proof -
  let ?t = "kb_target e" and ?l = "kb_label e" and ?f = "kn_failure (nodes ! s)"
  have t: "?t < length ps" "ps ! ?t = ps ! s @ [?l]" using trie_edge [OF tr s(1) e] by auto
  have t0: "?t \<noteq> 0" using t trie_root [OF tr] by (metis snoc_eq_iff_butlast)
  have len: "length nodes = length ps" by (rule trie_length [OF tr])
  have lf: "longest_fail ps s ?f" using shallow [OF s(1)] s(2) linked_fail by blast
  have f: "?f < length ps" "length (ps ! ?f) < length (ps ! s)"
    using lf longest_fail_shorter by (auto simp: longest_fail_def)
  obtain r where r: "fallBack nodes edges ?f ?l = Some r" and rr:
    "case r of
       None \<Rightarrow> \<forall>u. suffix u (ps ! ?f) \<longrightarrow> u @ [?l] \<notin> set ps
     | Some g \<Rightarrow> g < length ps \<and> (\<exists>t. ps ! g = t @ [?l] \<and> suffix t (ps ! ?f) \<and>
         (\<forall>u. suffix u (ps ! ?f) \<longrightarrow> u @ [?l] \<in> set ps \<longrightarrow> suffix u t))"
    using fallBack_finds [OF tr f(1), of ?l] shallow f(2) linked_fail by (meson le_trans less_imp_le)
  have below: "u @ [?l] \<in> set ps \<Longrightarrow> strict_suffix u (ps ! s) \<longleftrightarrow> suffix u (ps ! ?f)" for u
    using lf trie_prefix [OF tr, of u ?l] suffix_order.le_less_trans
    by (auto simp: longest_fail_def)
  define g where "g = (case r of None \<Rightarrow> 0 | Some g \<Rightarrow> g)"
  have g: "longest_fail ps ?t g"
  proof (cases r)
    case None
    have "suffix u []" if "u \<in> set ps" "strict_suffix u (ps ! s @ [?l])" for u
      using that rr None below by (auto simp: strict_suffix_snoc_cases)
    then show ?thesis using None t trie_root [OF tr] trie_nonempty [OF tr]
      by (auto simp: g_def longest_fail_def strict_suffix_snoc_cases)
  next
    case (Some g')
    then obtain v where v: "g' < length ps" "ps ! g' = v @ [?l]" "suffix v (ps ! ?f)"
      "\<forall>u. suffix u (ps ! ?f) \<longrightarrow> u @ [?l] \<in> set ps \<longrightarrow> suffix u v" using rr by auto
    have "v @ [?l] \<in> set ps" using v nth_mem by metis
    then have "strict_suffix (v @ [?l]) (ps ! s @ [?l])"
      using below v(3) by (auto simp: strict_suffix_snoc_cases)
    moreover have "suffix u (v @ [?l])" if "u \<in> set ps" "strict_suffix u (ps ! s @ [?l])" for u
      using that v(4) below by (auto simp: strict_suffix_snoc_cases suffix_snoc_cases)
    ultimately show ?thesis using Some v t by (auto simp: g_def longest_fail_def)
  qed
  have gt: "g < length ps" "g \<noteq> ?t" "length (ps ! g) \<le> length (ps ! s)"
    using g longest_fail_shorter [OF g] t by (auto simp: longest_fail_def)
  let ?best = "minKeywordIndex (kn_bestKeyword (nodes ! ?t)) (kn_bestKeyword (nodes ! g))"
  let ?x = "(nodes ! ?t)\<lparr>kn_failure := g, kn_bestKeyword := ?best\<rparr>"
  have "kn_failure (nodes ! ?t) = 0" using raw by (simp add: raw_def)
  then have same: "(nodes ! ?t)\<lparr>kn_failure := 0, kn_bestKeyword := b\<rparr> =
      (nodes ! ?t)\<lparr>kn_bestKeyword := b\<rparr>" for b
    by (cases "nodes ! ?t") simp
  have "linkChild edges s e nodes = Some (nodes[?t := ?x])"
  proof (cases r)
    case None
    then have "g = 0" by (simp add: g_def)
    with None r raw show ?thesis by (simp add: linkChild_def Let_def raw_def same)
  next
    case (Some g')
    with r gt t len show ?thesis by (simp add: linkChild_def Let_def g_def)
  qed
  moreover have "?best = first_index (ends_with lower (ps ! ?t)) kws"
  proof -
    have "kn_bestKeyword (nodes ! g) = first_index (ends_with lower (ps ! g)) kws"
      using shallow [OF gt(1,3)] by (simp add: linked_def)
    then have "?best = first_index (\<lambda>k. is_word lower (ps ! ?t) k \<or> ends_with lower (ps ! g) k) kws"
      using raw by (simp add: raw_def first_index_or)
    also have "\<dots> = first_index (ends_with lower (ps ! ?t)) kws"
    proof (rule first_index_cong)
      fix k assume k: "k \<in> set kws"
      have "suffix (lower k) (ps ! ?t) \<longleftrightarrow> lower k = ps ! ?t \<or> suffix (lower k) (ps ! g)"
        if "k \<noteq> []"
        using g words k that suffix_order.trans by (auto simp: longest_fail_def strict_suffix_def)
      then show "(is_word lower (ps ! ?t) k \<or> ends_with lower (ps ! g) k) =
          ends_with lower (ps ! ?t) k" by (auto simp: is_word_def ends_with_def)
    qed
    finally show ?thesis .
  qed
  ultimately show ?thesis using g t0 by (intro exI [of _ ?x]) (simp add: linked_def)
qed

lemma linkChildren_links:
  assumes "trie nodes edges ps ch" "\<forall>k \<in> set kws. k \<noteq> [] \<longrightarrow> lower k \<in> set ps"
    "s < length ps" "s \<noteq> 0"
    "\<And>m. m < length ps \<Longrightarrow> length (ps ! m) \<le> length (ps ! s) \<Longrightarrow> linked lower kws ps m (nodes ! m)"
    "set es \<subseteq> set (ch s)" "distinct (map kb_target es)"
    "\<And>e. e \<in> set es \<Longrightarrow> raw lower kws ps (kb_target e) (nodes ! kb_target e)"
  shows "\<exists>nodes'. linkChildren edges s es (nodes, q) = Some (nodes', q @ map kb_target es) \<and>
    map kn_edgeStart nodes' = map kn_edgeStart nodes \<and>
    (\<forall>e \<in> set es. linked lower kws ps (kb_target e) (nodes' ! kb_target e)) \<and>
    (\<forall>m. m \<notin> kb_target ` set es \<longrightarrow> nodes' ! m = nodes ! m)"
  using assms
proof (induction es arbitrary: nodes q)
  case (Cons e es)
  let ?t = "kb_target e"
  have e: "e \<in> set (ch s)" using Cons.prems(6) by auto
  obtain x where x: "linkChild edges s e nodes = Some (nodes[?t := x])"
    "linked lower kws ps ?t x" "kn_edgeStart x = kn_edgeStart (nodes ! ?t)"
    using linkChild_links [OF Cons.prems(1-5) e] Cons.prems(8) by auto
  let ?nodes = "nodes[?t := x]"
  have t: "?t < length ps" "ps ! ?t = ps ! s @ [kb_label e]"
    using trie_edge [OF Cons.prems(1,3) e] by auto
  have len: "length nodes = length ps" by (rule trie_length [OF Cons.prems(1)])
  have tr: "trie ?nodes edges ps ch" using x(3) by (intro trie_cong [OF Cons.prems(1)]) simp
  have sh: "linked lower kws ps m (?nodes ! m)" if "m < length ps" "length (ps ! m) \<le> length (ps ! s)" for m
    using that t Cons.prems(5) [OF that] by (cases "m = ?t") auto
  have rw: "raw lower kws ps (kb_target e') (?nodes ! kb_target e')" if "e' \<in> set es" for e'
  proof -
    have "kb_target e' \<noteq> ?t" using that Cons.prems(7) by (auto simp: image_iff)
    moreover have "raw lower kws ps (kb_target e') (nodes ! kb_target e')"
      using that by (intro Cons.prems(8)) simp
    ultimately show ?thesis by simp
  qed
  obtain nodes' where n: "linkChildren edges s es (?nodes, q @ [?t]) =
      Some (nodes', (q @ [?t]) @ map kb_target es)"
    "map kn_edgeStart nodes' = map kn_edgeStart ?nodes"
    "\<forall>e \<in> set es. linked lower kws ps (kb_target e) (nodes' ! kb_target e)"
    "\<forall>m. m \<notin> kb_target ` set es \<longrightarrow> nodes' ! m = ?nodes ! m"
    using Cons.IH [OF tr Cons.prems(2-4) sh _ _ rw, of "q @ [?t]"] Cons.prems(6,7) by auto
  have "nodes' ! ?t = x" using n(4) Cons.prems(7) t len by (auto simp: image_iff)
  then show ?case using x n
    by (intro exI [of _ nodes']) (auto simp: nth_list_update)
qed auto

section \<open>The queue\<close>

text \<open>
  Between two rounds the queue holds, in the order of their depth, the children of the root and
  of the nodes already taken from it; the nodes of the queue are finished, the others untouched.
\<close>

definition bfs :: "(string \<Rightarrow> string) \<Rightarrow> string list \<Rightarrow> string list \<Rightarrow> knode list \<Rightarrow> nat list \<Rightarrow> nat \<Rightarrow> bool" where
  "bfs lower kws ps nodes queue i \<longleftrightarrow>
     distinct queue \<and> set queue \<subseteq> {0<..<length ps} \<and> i \<le> length queue \<and>
     sorted (map (\<lambda>m. length (ps ! m)) queue) \<and>
     (i < length queue \<longrightarrow> (\<forall>m \<in> set queue. length (ps ! m) \<le> Suc (length (ps ! (queue ! i))))) \<and>
     (\<forall>m p c. m < length ps \<longrightarrow> p < length ps \<longrightarrow> ps ! m = ps ! p @ [c] \<longrightarrow>
        (m \<in> set queue \<longleftrightarrow> p = 0 \<or> p \<in> set (take i queue))) \<and>
     (\<forall>m < length ps. if m = 0 \<or> m \<in> set queue then linked lower kws ps m (nodes ! m)
        else raw lower kws ps m (nodes ! m))"

lemma bfsD:
  assumes "bfs lower kws ps nodes queue i"
  shows bfs_distinct: "distinct queue" and bfs_range: "m \<in> set queue \<Longrightarrow> 0 < m \<and> m < length ps"
    and bfs_index: "i \<le> length queue"
    and bfs_sorted: "sorted (map (\<lambda>m. length (ps ! m)) queue)"
    and bfs_depth: "i < length queue \<Longrightarrow> m \<in> set queue \<Longrightarrow>
      length (ps ! m) \<le> Suc (length (ps ! (queue ! i)))"
    and bfs_queued: "m < length ps \<Longrightarrow> p < length ps \<Longrightarrow> ps ! m = ps ! p @ [c] \<Longrightarrow>
      m \<in> set queue \<longleftrightarrow> p = 0 \<or> p \<in> set (take i queue)"
    and bfs_linked: "m < length ps \<Longrightarrow> m = 0 \<or> m \<in> set queue \<Longrightarrow> linked lower kws ps m (nodes ! m)"
    and bfs_raw: "m < length ps \<Longrightarrow> m \<noteq> 0 \<Longrightarrow> m \<notin> set queue \<Longrightarrow> raw lower kws ps m (nodes ! m)"
proof -
  note b = assms [unfolded bfs_def]
  show "distinct queue" "i \<le> length queue" "sorted (map (\<lambda>m. length (ps ! m)) queue)"
    using b by simp_all
  have "set queue \<subseteq> {0<..<length ps}" using b by (elim conjE)
  then show "m \<in> set queue \<Longrightarrow> 0 < m \<and> m < length ps" by auto
  show "i < length queue \<Longrightarrow> m \<in> set queue \<Longrightarrow> length (ps ! m) \<le> Suc (length (ps ! (queue ! i)))"
    using b by (elim conjE) blast
  show "m < length ps \<Longrightarrow> p < length ps \<Longrightarrow> ps ! m = ps ! p @ [c] \<Longrightarrow>
      m \<in> set queue \<longleftrightarrow> p = 0 \<or> p \<in> set (take i queue)"
    using b by (elim conjE) blast
  have n: "\<forall>m < length ps. if m = 0 \<or> m \<in> set queue then linked lower kws ps m (nodes ! m)
      else raw lower kws ps m (nodes ! m)" using b by (elim conjE)
  show "m < length ps \<Longrightarrow> m = 0 \<or> m \<in> set queue \<Longrightarrow> linked lower kws ps m (nodes ! m)"
    "m < length ps \<Longrightarrow> m \<noteq> 0 \<Longrightarrow> m \<notin> set queue \<Longrightarrow> raw lower kws ps m (nodes ! m)"
    using n by presburger+
qed

lemma trie_parent:
  assumes "trie nodes edges ps ch" "m < length ps" "m \<noteq> 0"
  obtains p c where "p < length ps" "ps ! m = ps ! p @ [c]"
proof -
  have "ps ! m \<noteq> []" using assms trie_root_iff by blast
  then obtain s c where s: "ps ! m = s @ [c]" by (metis append_butlast_last_id)
  then have "s \<in> set ps" using trie_prefix [OF assms(1)] assms(2) by (metis nth_mem)
  with s that show thesis by (metis in_set_conv_nth)
qed

lemma bfs_reaches:
  assumes tr: "trie nodes edges ps ch" and b: "bfs lower kws ps nodes queue i" and m: "m < length ps"
    and close: "i < length queue \<Longrightarrow> length (ps ! m) \<le> length (ps ! (queue ! i))"
  shows "m = 0 \<or> m \<in> set queue"
  using m close
proof (induction "length (ps ! m)" arbitrary: m rule: less_induct)
  case less
  show ?case
  proof (cases "m = 0")
    case False
    obtain p c where p: "p < length ps" "ps ! m = ps ! p @ [c]"
      using trie_parent [OF tr less.prems(1) False] .
    have "p = 0 \<or> p \<in> set queue"
    proof (rule less.hyps)
      show "length (ps ! p) < length (ps ! m)" "p < length ps" using p by simp_all
      show "length (ps ! p) \<le> length (ps ! (queue ! i))" if "i < length queue"
        using less.prems(2) [OF that] p(2) by simp
    qed
    moreover have "p \<in> set (take i queue)" if "p \<in> set queue"
    proof (cases "i < length queue")
      case True
      obtain j where j: "j < length queue" "queue ! j = p" using \<open>p \<in> set queue\<close> by (metis in_set_conv_nth)
      have "j < i"
      proof (rule ccontr)
        assume "\<not> j < i"
        then have "length (ps ! (queue ! i)) \<le> length (ps ! p)"
          using sorted_nth_mono [OF bfs_sorted [OF b], of i j] j by simp
        with less.prems(2) [OF True] p show False by simp
      qed
      with j True show ?thesis by (auto simp: in_set_conv_nth)
    next
      case False
      with that bfs_index [OF b] show ?thesis by simp
    qed
    ultimately show ?thesis using bfs_queued [OF b less.prems(1) p] by blast
  qed simp
qed

lemma bfs_step:
  assumes tr: "trie nodes edges ps ch" and words: "\<forall>k \<in> set kws. k \<noteq> [] \<longrightarrow> lower k \<in> set ps"
    and b: "bfs lower kws ps nodes queue i" and i: "i < length queue"
  defines "s \<equiv> queue ! i"
  shows "\<exists>nodes'. linkChildren edges s (ch s) (nodes, queue) =
      Some (nodes', queue @ map kb_target (ch s)) \<and>
    map kn_edgeStart nodes' = map kn_edgeStart nodes \<and>
    bfs lower kws ps nodes' (queue @ map kb_target (ch s)) (Suc i)"
proof -
  have sq: "s \<in> set queue" using i by (simp add: s_def)
  then have s: "s < length ps" "s \<noteq> 0" using bfs_range [OF b] by auto
  have snew: "s \<notin> set (take i queue)"
    using bfs_distinct [OF b] i by (metis Cons_nth_drop_Suc append_take_drop_id disjoint_iff
        distinct_append list.set_intros(1) s_def)
  have tgt: "kb_target e < length ps" "ps ! kb_target e = ps ! s @ [kb_label e]" if "e \<in> set (ch s)" for e
    using trie_edge [OF tr s(1) that] by auto
  have tnew: "kb_target e \<noteq> 0" "kb_target e \<notin> set queue" if "e \<in> set (ch s)" for e
  proof -
    show "kb_target e \<noteq> 0" using tgt [OF that] trie_root [OF tr] by (metis snoc_eq_iff_butlast)
    show "kb_target e \<notin> set queue"
      using bfs_queued [OF b tgt(1) [OF that] s(1) tgt(2) [OF that]] s(2) snew by blast
  qed
  have dist: "distinct (map kb_target (ch s))"
  proof -
    have "inj_on kb_target (set (ch s))"
      by (rule inj_onI) (metis distinct_map inj_onD last_snoc tgt(2) trie_labels [OF tr s(1)])
    with trie_labels [OF tr s(1)] show ?thesis by (simp add: distinct_map)
  qed
  have shallow: "linked lower kws ps m (nodes ! m)"
    if "m < length ps" "length (ps ! m) \<le> length (ps ! s)" for m
    using bfs_linked [OF b that(1)] bfs_reaches [OF tr b that(1)] that(2) by (simp add: s_def)
  obtain nodes' where n: "linkChildren edges s (ch s) (nodes, queue) =
      Some (nodes', queue @ map kb_target (ch s))"
    "map kn_edgeStart nodes' = map kn_edgeStart nodes"
    "\<forall>e \<in> set (ch s). linked lower kws ps (kb_target e) (nodes' ! kb_target e)"
    "\<forall>m. m \<notin> kb_target ` set (ch s) \<longrightarrow> nodes' ! m = nodes ! m"
    using linkChildren_links [OF tr words s shallow subset_refl dist bfs_raw [OF b tgt(1) tnew]]
    by blast
  let ?q = "queue @ map kb_target (ch s)"
  have tk: "take (Suc i) ?q = take i queue @ [s]" using i by (simp add: s_def take_Suc_conv_app_nth)
  have deep: "length (ps ! m) \<le> Suc (length (ps ! s))" if "m \<in> set ?q" for m
    using that bfs_depth [OF b i] tgt(2) by (auto simp: s_def)
  have "distinct ?q" using bfs_distinct [OF b] dist tnew(2) by auto
  moreover have "set ?q \<subseteq> {0<..<length ps}" using bfs_range [OF b] tgt(1) tnew(1) by auto
  moreover have so: "sorted (map (\<lambda>m. length (ps ! m)) ?q)"
  proof -
    have "map (\<lambda>m. length (ps ! m)) (map kb_target (ch s)) = replicate (length (ch s)) (Suc (length (ps ! s)))"
      by (rule nth_equalityI) (simp_all add: tgt(2))
    then show ?thesis using bfs_sorted [OF b] deep by (auto simp: sorted_append comp_def tgt(2))
  qed
  moreover have "length (ps ! m) \<le> Suc (length (ps ! (?q ! Suc i)))"
    if "Suc i < length ?q" "m \<in> set ?q" for m
  proof -
    have "length (ps ! s) \<le> length (ps ! (?q ! Suc i))"
    proof -
      have "(map (\<lambda>m. length (ps ! m)) ?q) ! i \<le> (map (\<lambda>m. length (ps ! m)) ?q) ! Suc i"
        using that(1) by (intro sorted_nth_mono [OF so]) simp_all
      then have "length (ps ! (?q ! i)) \<le> length (ps ! (?q ! Suc i))"
        using that(1) i by (simp del: map_append)
      then show ?thesis using i by (simp add: s_def nth_append)
    qed
    with deep [OF that(2)] show ?thesis by simp
  qed
  moreover have "m \<in> set ?q \<longleftrightarrow> p = 0 \<or> p \<in> set (take (Suc i) ?q)"
    if m: "m < length ps" "p < length ps" "ps ! m = ps ! p @ [c]" for m p c
  proof -
    have "m \<in> kb_target ` set (ch s) \<longleftrightarrow> p = s"
    proof
      assume "m \<in> kb_target ` set (ch s)"
      then have "ps ! p = ps ! s" using tgt(2) m(3) by auto
      then show "p = s" using trie_index_eq [OF tr m(2) s(1)] by blast
    next
      assume ps: "p = s"
      then have "c \<in> kb_label ` set (ch s)" using trie_child [OF tr s(1)] m nth_mem by metis
      then obtain e where e: "e \<in> set (ch s)" "c = kb_label e" by blast
      then have "m = kb_target e"
        using trie_index_eq [OF tr m(1) tgt(1) [OF e(1)]] tgt(2) [OF e(1)] m(3) ps by simp
      with e show "m \<in> kb_target ` set (ch s)" by blast
    qed
    then show ?thesis using bfs_queued [OF b m] unfolding tk by auto
  qed
  moreover have "if m = 0 \<or> m \<in> set ?q then linked lower kws ps m (nodes' ! m)
      else raw lower kws ps m (nodes' ! m)" if m: "m < length ps" for m
  proof (cases "m \<in> kb_target ` set (ch s)")
    case True
    with n(3) show ?thesis by auto
  next
    case False
    with n(4) bfs_linked [OF b m] bfs_raw [OF b m] show ?thesis by auto
  qed
  ultimately have "bfs lower kws ps nodes' ?q (Suc i)" unfolding bfs_def using i by auto
  with n show ?thesis by blast
qed

lemma linkQueue_links:
  assumes "trie nodes edges ps ch" "\<forall>k \<in> set kws. k \<noteq> [] \<longrightarrow> lower k \<in> set ps"
    "bfs lower kws ps nodes queue i"
  shows "\<exists>nodes'. linkQueue edges nodes queue i = Some nodes' \<and> trie nodes' edges ps ch \<and>
    (\<forall>m < length ps. linked lower kws ps m (nodes' ! m))"
  using assms
proof (induction "length ps - i" arbitrary: nodes queue i rule: less_induct)
  case less
  note tr = less.prems(1) and b = less.prems(3)
  show ?case
  proof (cases "i < length queue")
    case True
    let ?s = "queue ! i"
    have s: "?s < length ps" using bfs_range [OF b, of ?s] True by simp
    have ec: "edgeChain edges (buildFirstEdge (nodes ! ?s)) = Some (ch ?s)"
      using trie_chain [OF tr s] by (rule chain_ok_edgeChain)
    obtain nodes1 where 1: "linkChildren edges ?s (ch ?s) (nodes, queue) =
        Some (nodes1, queue @ map kb_target (ch ?s))"
      "map kn_edgeStart nodes1 = map kn_edgeStart nodes"
      "bfs lower kws ps nodes1 (queue @ map kb_target (ch ?s)) (Suc i)"
      using bfs_step [OF tr less.prems(2) b True] by blast
    have "card (set queue) \<le> card {0<..<length ps}"
      using bfs_range [OF b] by (intro card_mono) auto
    then have "i < length ps" using True distinct_card [OF bfs_distinct [OF b]] by simp
    then have "length ps - Suc i < length ps - i" by simp
    from less.hyps [OF this trie_cong [OF tr 1(2)] less.prems(2) 1(3)]
    show ?thesis using True ec 1(1) linkQueue.simps [of edges nodes queue i] by simp
  next
    case False
    have "linked lower kws ps m (nodes ! m)" if "m < length ps" for m
      using bfs_linked [OF b that] bfs_reaches [OF tr b that] False by blast
    with False tr linkQueue.simps [of edges nodes queue i] show ?thesis by simp
  qed
qed

section \<open>The first round\<close>

lemma rootLoop_queue: "snd (rootLoop es) = map kb_target es"
proof -
  have "snd (fold (\<lambda>e (trans, queue). (trans[byte (kb_label e) := kb_target e], queue @ [kb_target e]))
      es (t, q)) = q @ map kb_target es" for t q
    by (induction es arbitrary: t q) auto
  then show ?thesis by (simp add: rootLoop_def)
qed

lemma rootLoop_length: "length (fst (rootLoop es)) = 256"
proof -
  have "length (fst (fold (\<lambda>e (trans, queue). (trans[byte (kb_label e) := kb_target e],
      queue @ [kb_target e])) es (t, q))) = length t" for t q
    by (induction es arbitrary: t q) auto
  then show ?thesis by (simp add: rootLoop_def)
qed

lemma byte_less [simp]: "byte c < 256"
  by (simp add: byte_def)

lemma byte_eq [simp]: "byte c = byte d \<longleftrightarrow> c = d"
  by (simp add: byte_def)

lemma rootLoop_trans:
  assumes "distinct (map kb_label es)"
  shows "fst (rootLoop es) ! byte l =
    (case find (\<lambda>x. kb_label x = l) es of None \<Rightarrow> 0 | Some e \<Rightarrow> kb_target e)"
proof -
  have "fst (fold (\<lambda>e (trans, queue). (trans[byte (kb_label e) := kb_target e], queue @ [kb_target e]))
      es (t, q)) ! byte l =
      (case find (\<lambda>x. kb_label x = l) es of None \<Rightarrow> t ! byte l | Some e \<Rightarrow> kb_target e)"
    if "length t = 256" for t q
    using assms that
  proof (induction es arbitrary: t q)
    case (Cons e es)
    then have "find (\<lambda>x. kb_label x = l) es = None" if "kb_label e = l"
      using that by (auto simp: find_None_iff image_iff)
    with Cons show ?case by (auto split: option.split)
  qed simp
  from this [of "replicate 256 0" "[]"] show ?thesis by (simp add: rootLoop_def split: option.split)
qed

lemma bfs_init:
  assumes tr: "trie nodes edges ps ch" and mk: "marked lower kws nodes ps"
    and law: "\<forall>k \<in> set kws. k \<noteq> [] \<longrightarrow> lower k \<noteq> []"
  shows "bfs lower kws ps nodes (map kb_target (ch 0)) 0"
proof -
  let ?q = "map kb_target (ch 0)"
  note N = trie_nonempty [OF tr] and r = trie_root [OF tr]
  have tgt: "kb_target e < length ps" "ps ! kb_target e = [kb_label e]" if "e \<in> set (ch 0)" for e
    using trie_edge [OF tr N that] r by auto
  have nz: "kb_target e \<noteq> 0" if "e \<in> set (ch 0)" for e using tgt(2) [OF that] r by (cases "kb_target e") auto
  have raw: "raw lower kws ps m (nodes ! m)" if "m < length ps" for m
    using mk that by (simp add: marked_def raw_def)
  have len: "length (ps ! m) = 1" if "m \<in> set ?q" for m using that tgt(2) by auto
  have "distinct ?q"
  proof -
    have "inj_on kb_target (set (ch 0))"
      by (rule inj_onI) (metis distinct_map inj_onD list.inject tgt(2) trie_labels [OF tr N])
    with trie_labels [OF tr N] show ?thesis by (simp add: distinct_map)
  qed
  moreover have "sorted (map (\<lambda>m. length (ps ! m)) ?q)"
  proof -
    have "map (\<lambda>m. length (ps ! m)) ?q = replicate (length (ch 0)) 1"
      by (rule nth_equalityI) (simp_all add: tgt(2))
    then show ?thesis by (simp only: sorted_replicate)
  qed
  moreover have "m \<in> set ?q \<longleftrightarrow> p = 0" if m: "m < length ps" "p < length ps" "ps ! m = ps ! p @ [c]" for m p c
  proof
    assume "m \<in> set ?q"
    then have "ps ! p = []" using len m(3) by fastforce
    then show "p = 0" using trie_root_iff [OF tr m(2)] by blast
  next
    assume p: "p = 0"
    then have "c \<in> kb_label ` set (ch 0)" using trie_child [OF tr N] m nth_mem by metis
    then obtain e where e: "e \<in> set (ch 0)" "c = kb_label e" by blast
    then have "m = kb_target e"
      using trie_index_eq [OF tr m(1) tgt(1) [OF e(1)]] tgt(2) [OF e(1)] m(3) p r by simp
    with e show "m \<in> set ?q" by auto
  qed
  moreover have "if m = 0 \<or> m \<in> set ?q then linked lower kws ps m (nodes ! m)
      else raw lower kws ps m (nodes ! m)" if m: "m < length ps" for m
  proof -
    have "linked lower kws ps m (nodes ! m)" if "m \<in> set ?q"
      using that tgt(2) raw_depth_one [OF raw [OF m] _ r N law] by auto
    moreover have "linked lower kws ps m (nodes ! m)" if "m = 0"
      using that raw_root raw m r by blast
    ultimately show ?thesis using raw [OF m] by auto
  qed
  ultimately show ?thesis using tgt(1) nz len unfolding bfs_def by auto
qed

end
