(* ===== verification/KeywordSearch.thy ===== *)
theory KeywordSearch
  imports KeywordLinks "HOL-Library.Multiset"
begin

text \<open>
  The frozen automaton of \<^verbatim>\<open>KeywordMatcher\<close> and its search: the sorted edge segments answer
  a transition by binary search, the state after any text is the longest suffix of the text in
  the trie, and the reported keyword is the first one of the list that occurs in the text.
\<close>

section \<open>The insertion sort\<close>

abbreviation edge_byte :: "kedge \<Rightarrow> nat" where "edge_byte e \<equiv> byte (ke_label e)"

lemma shiftInsert_inserts:
  assumes "k < length xs"
  shows "\<exists>ys. shiftInsert c xs k = ys @ drop (Suc k) xs \<and> mset ys = add_mset c (mset (take k xs)) \<and>
    (sorted (map edge_byte (take k xs)) \<longrightarrow> sorted (map edge_byte ys))"
  using assms
proof (induction k arbitrary: xs)
  case 0
  then show ?case by (cases xs) auto
next
  case (Suc j)
  have tj: "take (Suc j) xs = take j xs @ [xs ! j]" using Suc.prems by (simp add: take_Suc_conv_app_nth)
  show ?case
  proof (cases "edge_byte c < edge_byte (xs ! j)")
    case True
    let ?xs = "xs[Suc j := xs ! j]"
    obtain ys where ys: "shiftInsert c ?xs j = ys @ drop (Suc j) ?xs"
      "mset ys = add_mset c (mset (take j xs))"
      "sorted (map edge_byte (take j xs)) \<longrightarrow> sorted (map edge_byte ys)"
      using Suc.IH [of ?xs] Suc.prems by auto
    have "drop (Suc j) ?xs = xs ! j # drop (Suc (Suc j)) xs"
      using Suc.prems by (simp add: Cons_nth_drop_Suc [symmetric])
    moreover have "sorted (map edge_byte (ys @ [xs ! j]))" if s: "sorted (map edge_byte (take (Suc j) xs))"
    proof -
      have "set ys = insert c (set (take j xs))" using ys(2) by (metis set_mset_add_mset_insert set_mset_mset)
      with s True ys(3) show ?thesis by (auto simp: tj sorted_append)
    qed
    ultimately show ?thesis using True ys by (intro exI [of _ "ys @ [xs ! j]"]) (simp add: tj)
  next
    case False
    have "shiftInsert c xs (Suc j) = (take (Suc j) xs @ [c]) @ drop (Suc (Suc j)) xs"
      using False Suc.prems by (simp add: upd_conv_take_nth_drop)
    moreover have "sorted (map edge_byte (take (Suc j) xs @ [c]))"
      if "sorted (map edge_byte (take (Suc j) xs))"
      using that False by (auto simp: tj sorted_append intro: le_trans)
    ultimately show ?thesis by (intro exI [of _ "take (Suc j) xs @ [c]"]) simp
  qed
qed

lemma sortEdges_prefix:
  assumes "k \<le> length xs"
  shows "\<exists>ys. fold (\<lambda>index xs. shiftInsert (xs ! index) xs index) [1..<k] xs = ys @ drop k xs \<and>
    mset ys = mset (take k xs) \<and> sorted (map edge_byte ys)"
  using assms
proof (induction k)
  case 0
  then show ?case by simp
next
  case (Suc k)
  then obtain ys where ys: "fold (\<lambda>index xs. shiftInsert (xs ! index) xs index) [1..<k] xs = ys @ drop k xs"
    "mset ys = mset (take k xs)" "sorted (map edge_byte ys)" by auto
  have tk: "take (Suc k) xs = take k xs @ [xs ! k]" using Suc.prems by (simp add: take_Suc_conv_app_nth)
  have len: "length ys = k" using ys(2) Suc.prems by (metis Suc_leD length_take min.absorb2 size_mset)
  have dk: "drop k xs = xs ! k # drop (Suc k) xs" using Suc.prems by (simp add: Cons_nth_drop_Suc)
  show ?case
  proof (cases "k = 0")
    case True
    then show ?thesis using dk tk by (intro exI [of _ "[xs ! 0]"]) simp
  next
    case False
    let ?zs = "ys @ drop k xs"
    have at: "?zs ! k = xs ! k" "take k ?zs = ys" "drop (Suc k) ?zs = drop (Suc k) xs" "k < length ?zs"
      using len dk by (simp_all add: nth_append)
    obtain us where us: "shiftInsert (xs ! k) ?zs k = us @ drop (Suc k) xs"
      "mset us = add_mset (xs ! k) (mset ys)" "sorted (map edge_byte us)"
      using shiftInsert_inserts [OF at(4), of "xs ! k", unfolded at(2,3)] ys(3) by blast
    have "[1..<Suc k] = [1..<k] @ [k]" using False by simp
    then have "fold (\<lambda>index xs. shiftInsert (xs ! index) xs index) [1..<Suc k] xs = us @ drop (Suc k) xs"
      using ys(1) us(1) at(1) by simp
    with us ys(2) show ?thesis by (intro exI [of _ us]) (simp add: tk)
  qed
qed

lemma sortEdges_sorts:
  "mset (sortEdges xs) = mset xs" "sorted (map edge_byte (sortEdges xs))"
  using sortEdges_prefix [of "length xs" xs] by (auto simp: sortEdges_def)

section \<open>The edge segments\<close>

definition frozen_edge :: "kbuild_edge \<Rightarrow> kedge" where
  "frozen_edge e = \<lparr>ke_target = kb_target e, ke_label = kb_label e\<rparr>"

definition segment :: "kedge list \<Rightarrow> knode \<Rightarrow> kedge list" where
  "segment edges x = take (kn_edgeCount x) (drop (kn_edgeStart x) edges)"

definition frozen :: "kedge list \<Rightarrow> knode \<Rightarrow> kbuild_edge list \<Rightarrow> bool" where
  "frozen edges x es \<longleftrightarrow> kn_edgeStart x + kn_edgeCount x \<le> length edges \<and>
     set (segment edges x) = frozen_edge ` set es \<and> sorted (map edge_byte (segment edges x))"

lemma frozen_append: "frozen edges x es \<Longrightarrow> frozen (edges @ rest) x es"
  by (simp add: frozen_def segment_def)

lemma freezeNodes_freezes:
  assumes "distinct is" "\<And>i. i \<in> set is \<Longrightarrow> i < length nodes"
    "\<And>i. i \<in> set is \<Longrightarrow> chain_ok bedges (buildFirstEdge (nodes ! i)) (ch i)"
  shows "\<exists>nodes' rest. freezeNodes bedges is (nodes, edges) = Some (nodes', edges @ rest) \<and>
    length nodes' = length nodes \<and>
    (\<forall>n. n < length nodes \<longrightarrow> kn_failure (nodes' ! n) = kn_failure (nodes ! n) \<and>
       kn_bestKeyword (nodes' ! n) = kn_bestKeyword (nodes ! n)) \<and>
    (\<forall>n. n \<notin> set is \<longrightarrow> nodes' ! n = nodes ! n) \<and>
    (\<forall>i \<in> set is. frozen (edges @ rest) (nodes' ! i) (ch i))"
  using assms
proof (induction "is" arbitrary: nodes edges)
  case (Cons i "is")
  let ?out = "sortEdges (map frozen_edge (ch i))"
  let ?x = "(nodes ! i)\<lparr>kn_edgeStart := length edges, kn_edgeCount := length ?out\<rparr>"
  have i: "i < length nodes" "i \<notin> set is" using Cons.prems by auto
  have "edgeChain bedges (buildFirstEdge (nodes ! i)) = Some (ch i)"
    using Cons.prems(3) by (intro chain_ok_edgeChain) simp
  then have one: "freezeNode bedges i (nodes, edges) = Some (nodes[i := ?x], edges @ ?out)"
    by (simp add: freezeNode_def Let_def frozen_edge_def [abs_def])
  have "set ?out = frozen_edge ` set (ch i)"
    using sortEdges_sorts(1) by (metis set_map set_mset_mset)
  then have fr: "frozen (edges @ ?out) ?x (ch i)"
    using sortEdges_sorts(2) by (simp add: frozen_def segment_def)
  have pre: "distinct is" "\<And>j. j \<in> set is \<Longrightarrow> j < length (nodes[i := ?x])"
    "\<And>j. j \<in> set is \<Longrightarrow> chain_ok bedges (buildFirstEdge (nodes[i := ?x] ! j)) (ch j)"
    using Cons.prems i(2) by (auto simp: nth_list_update)
  obtain nodes' rest where r: "freezeNodes bedges is (nodes[i := ?x], edges @ ?out) =
      Some (nodes', (edges @ ?out) @ rest)"
    "length nodes' = length (nodes[i := ?x])"
    "\<forall>n. n < length (nodes[i := ?x]) \<longrightarrow> kn_failure (nodes' ! n) = kn_failure (nodes[i := ?x] ! n) \<and>
       kn_bestKeyword (nodes' ! n) = kn_bestKeyword (nodes[i := ?x] ! n)"
    "\<forall>n. n \<notin> set is \<longrightarrow> nodes' ! n = nodes[i := ?x] ! n"
    "\<forall>i \<in> set is. frozen ((edges @ ?out) @ rest) (nodes' ! i) (ch i)"
    using Cons.IH [OF pre] by blast
  have "frozen ((edges @ ?out) @ rest) (nodes' ! i) (ch i)"
    using frozen_append [OF fr] r(4) i by simp
  moreover have "kn_failure (nodes' ! n) = kn_failure (nodes ! n) \<and>
      kn_bestKeyword (nodes' ! n) = kn_bestKeyword (nodes ! n)" if "n < length nodes" for n
    using r(3) that by (cases "n = i") auto
  ultimately show ?case using one r
    by (intro exI [of _ nodes'] exI [of _ "?out @ rest"]) auto
qed auto

section \<open>The binary search\<close>

lemma lowerBound_bounds:
  assumes "left \<le> right"
    "\<And>i j. left \<le> i \<Longrightarrow> i \<le> j \<Longrightarrow> j < right \<Longrightarrow> edge_byte (edges ! i) \<le> edge_byte (edges ! j)"
  shows "left \<le> lowerBound edges l left right \<and> lowerBound edges l left right \<le> right \<and>
    (\<forall>j. left \<le> j \<longrightarrow> j < lowerBound edges l left right \<longrightarrow> edge_byte (edges ! j) < byte l) \<and>
    (\<forall>j. lowerBound edges l left right \<le> j \<longrightarrow> j < right \<longrightarrow> byte l \<le> edge_byte (edges ! j))"
  using assms
proof (induction edges l left right rule: lowerBound.induct)
  case (1 edges l left right)
  show ?case
  proof (cases "left < right")
    case True
    define m where "m = left + (right - left) div 2"
    have m: "left \<le> m" "m < right" using True by (auto simp: m_def)
    show ?thesis
    proof (cases "edge_byte (edges ! m) < byte l")
      case less: True
      have eq: "lowerBound edges l left right = lowerBound edges l (m + 1) right"
        using True less by (subst lowerBound.simps) (simp add: m_def Let_def)
      have low: "edge_byte (edges ! j) < byte l" if "left \<le> j" "j \<le> m" for j
        using "1.prems"(2) [OF that] m less by simp
      have "m + 1 \<le> lowerBound edges l (m + 1) right \<and> lowerBound edges l (m + 1) right \<le> right \<and>
        (\<forall>j. m + 1 \<le> j \<longrightarrow> j < lowerBound edges l (m + 1) right \<longrightarrow> edge_byte (edges ! j) < byte l) \<and>
        (\<forall>j. lowerBound edges l (m + 1) right \<le> j \<longrightarrow> j < right \<longrightarrow> byte l \<le> edge_byte (edges ! j))"
        using "1.IH"(1) [OF True m_def less] "1.prems"(2) m by auto
      moreover have "edge_byte (edges ! j) < byte l"
        if "left \<le> j" "j < lowerBound edges l (m + 1) right" for j
        using that low calculation by (cases "j \<le> m") auto
      ultimately show ?thesis using eq m by auto
    next
      case ge: False
      have eq: "lowerBound edges l left right = lowerBound edges l left m"
        using True ge by (subst lowerBound.simps) (simp add: m_def Let_def)
      have high: "byte l \<le> edge_byte (edges ! j)" if "m \<le> j" "j < right" for j
        using "1.prems"(2) [of m j] that m ge by simp
      have "left \<le> lowerBound edges l left m \<and> lowerBound edges l left m \<le> m \<and>
        (\<forall>j. left \<le> j \<longrightarrow> j < lowerBound edges l left m \<longrightarrow> edge_byte (edges ! j) < byte l) \<and>
        (\<forall>j. lowerBound edges l left m \<le> j \<longrightarrow> j < m \<longrightarrow> byte l \<le> edge_byte (edges ! j))"
        using "1.IH"(2) [OF True m_def ge] "1.prems"(2) m by auto
      moreover have "byte l \<le> edge_byte (edges ! j)"
        if "lowerBound edges l left m \<le> j" "j < right" for j
        using that high calculation by (cases "m \<le> j") auto
      ultimately show ?thesis using eq m by auto
    qed
  next
    case False
    then have "lowerBound edges l left right = left" by (subst lowerBound.simps) simp
    with False "1.prems"(1) show ?thesis by auto
  qed
qed

lemma segment_nth:
  assumes "kn_edgeStart x + kn_edgeCount x \<le> length edges"
  shows "set (segment edges x) = {edges ! j | j. kn_edgeStart x \<le> j \<and> j < kn_edgeStart x + kn_edgeCount x}"
    and "sorted (map edge_byte (segment edges x)) \<Longrightarrow> kn_edgeStart x \<le> i \<Longrightarrow> i \<le> j \<Longrightarrow>
      j < kn_edgeStart x + kn_edgeCount x \<Longrightarrow> edge_byte (edges ! i) \<le> edge_byte (edges ! j)"
proof -
  have len: "length (segment edges x) = kn_edgeCount x" using assms by (simp add: segment_def)
  have at: "segment edges x ! k = edges ! (kn_edgeStart x + k)" if "k < kn_edgeCount x" for k
    using assms that by (simp add: segment_def)
  show "set (segment edges x) = {edges ! j | j. kn_edgeStart x \<le> j \<and> j < kn_edgeStart x + kn_edgeCount x}"
  proof (intro equalityI subsetI)
    fix e assume "e \<in> set (segment edges x)"
    then obtain k where "k < kn_edgeCount x" "e = edges ! (kn_edgeStart x + k)"
      using at len by (metis in_set_conv_nth)
    then show "e \<in> {edges ! j | j. kn_edgeStart x \<le> j \<and> j < kn_edgeStart x + kn_edgeCount x}"
      by (intro CollectI exI [of _ "kn_edgeStart x + k"]) simp
  next
    fix e assume "e \<in> {edges ! j | j. kn_edgeStart x \<le> j \<and> j < kn_edgeStart x + kn_edgeCount x}"
    then obtain j where j: "kn_edgeStart x \<le> j" "j < kn_edgeStart x + kn_edgeCount x" "e = edges ! j"
      by blast
    then have "segment edges x ! (j - kn_edgeStart x) = e" using at [of "j - kn_edgeStart x"] by simp
    then show "e \<in> set (segment edges x)"
      using j len nth_mem [of "j - kn_edgeStart x" "segment edges x"] by auto
  qed
  assume s: "sorted (map edge_byte (segment edges x))"
    and ij: "kn_edgeStart x \<le> i" "i \<le> j" "j < kn_edgeStart x + kn_edgeCount x"
  have "map edge_byte (segment edges x) ! (i - kn_edgeStart x) \<le>
      map edge_byte (segment edges x) ! (j - kn_edgeStart x)"
    using ij len by (intro sorted_nth_mono [OF s]) auto
  then show "edge_byte (edges ! i) \<le> edge_byte (edges ! j)"
    using ij len at [of "i - kn_edgeStart x"] at [of "j - kn_edgeStart x"] by simp
qed

section \<open>A built matcher\<close>

text \<open>What the search relies on: transitions are the children of the trie, nodes are linked.\<close>

definition built :: "(string \<Rightarrow> string) \<Rightarrow> string list \<Rightarrow> string list \<Rightarrow> kmatcher \<Rightarrow> bool" where
  "built lower kws ps m \<longleftrightarrow>
     distinct ps \<and> 0 < length ps \<and> ps ! 0 = [] \<and> (\<forall>s l. s @ [l] \<in> set ps \<longrightarrow> s \<in> set ps) \<and>
     km_keywords m = kws \<and> length (km_nodes m) = length ps \<and>
     length (km_rootTransitions m) = 256 \<and>
     (\<forall>x \<in> set (km_nodes m). kn_edgeStart x + kn_edgeCount x \<le> length (km_edges m)) \<and>
     (\<forall>k \<in> set kws. k \<noteq> [] \<longrightarrow> lower k \<in> set ps) \<and>
     (\<forall>n < length ps. linked lower kws ps n (km_nodes m ! n)) \<and>
     (\<forall>n < length ps. \<forall>l. km_next m n l = (case child ps n l of None \<Rightarrow> 0 | Some t \<Rightarrow> t))"

lemma km_next_frozen:
  assumes tr: "trie nodes bedges ps ch" and n: "n < length ps" "n \<noteq> 0" "length (km_nodes m) = length ps"
    and fr: "frozen (km_edges m) (km_nodes m ! n) (ch n)"
  shows "km_next m n l = (case child ps n l of None \<Rightarrow> 0 | Some t \<Rightarrow> t)"
proof -
  let ?x = "km_nodes m ! n" and ?E = "km_edges m"
  let ?a = "kn_edgeStart ?x" and ?b = "kn_edgeStart ?x + kn_edgeCount ?x"
  define p where "p = lowerBound ?E l ?a ?b"
  have b: "?b \<le> length ?E" and so: "sorted (map edge_byte (segment ?E ?x))"
    and st: "set (segment ?E ?x) = frozen_edge ` set (ch n)" using fr by (auto simp: frozen_def)
  have p: "?a \<le> p" "p \<le> ?b" "\<And>j. ?a \<le> j \<Longrightarrow> j < p \<Longrightarrow> edge_byte (?E ! j) < byte l"
    "\<And>j. p \<le> j \<Longrightarrow> j < ?b \<Longrightarrow> byte l \<le> edge_byte (?E ! j)"
    using lowerBound_bounds [of ?a ?b ?E l] segment_nth(2) [OF b so] by (auto simp: p_def)
  have nx: "km_next m n l = (if p < ?b \<and> ke_label (?E ! p) = l then ke_target (?E ! p) else 0)"
    using n by (simp add: km_next_def p_def Let_def)
  show ?thesis
  proof (cases "find (\<lambda>e. kb_label e = l) (ch n)")
    case (Some e)
    then have e: "e \<in> set (ch n)" "kb_label e = l" by (auto simp: find_Some_iff)
    then have "frozen_edge e \<in> set (segment ?E ?x)" using st by blast
    then obtain j where j: "?a \<le> j" "j < ?b" "?E ! j = frozen_edge e"
      using segment_nth(1) [OF b] by auto
    have lj: "ke_label (?E ! j) = l" using j e by (simp add: frozen_edge_def)
    have "p \<le> j" using p(3) [OF j(1)] lj by fastforce
    then have pb: "p < ?b" "edge_byte (?E ! p) \<le> byte l"
      using j segment_nth(2) [OF b so p(1) \<open>p \<le> j\<close> j(2)] lj by auto
    then have lp: "ke_label (?E ! p) = l" using p(4) [of p] by (metis byte_eq le_antisym order_refl)
    have "?E ! p \<in> frozen_edge ` set (ch n)" using st segment_nth(1) [OF b] p(1) pb(1) by blast
    then obtain e' where e': "e' \<in> set (ch n)" "?E ! p = frozen_edge e'" by blast
    then have "kb_label e' = kb_label e" using lp e(2) by (simp add: frozen_edge_def)
    then have "e' = e" using trie_labels [OF tr n(1)] e(1) e'(1) by (metis distinct_map inj_onD)
    then have "ke_target (?E ! p) = kb_target e" using e'(2) by (simp add: frozen_edge_def)
    with nx pb lp Some find_label_child [OF tr n(1), of l, symmetric] show ?thesis by simp
  next
    case None
    have "\<not> (p < ?b \<and> ke_label (?E ! p) = l)"
    proof
      assume "p < ?b \<and> ke_label (?E ! p) = l"
      then have "?E ! p \<in> frozen_edge ` set (ch n)" "ke_label (?E ! p) = l"
        using st segment_nth(1) [OF b] p(1) by blast+
      with None show False by (auto simp: find_None_iff frozen_edge_def)
    qed
    with nx None find_label_child [OF tr n(1), of l, symmetric] show ?thesis by auto
  qed
qed

lemma newKeywordMatcher_built:
  assumes law: "\<And>s. lower s = [] \<longleftrightarrow> s = []"
  shows "(newKeywordMatcher lower kws = Some None \<and> (\<forall>k \<in> set kws. k = [])) \<or>
    (\<exists>m ps. newKeywordMatcher lower kws = Some (Some m) \<and> built lower kws ps m \<and> kws \<noteq> [])"
proof (cases "kws = []")
  case True
  then show ?thesis by (simp add: newKeywordMatcher_def)
next
  case False
  have "marked lower [] [newKeywordNode] [[]]" by (simp add: marked_def newKeywordNode_def)
  then obtain nodes edges ps ch where ak: "addKeywords lower 0 kws ([newKeywordNode], []) = Some (nodes, edges)"
    and tr: "trie nodes edges ps ch" and mk: "marked lower kws nodes ps"
    using trie_addKeywords [OF trie_init, of lower "[]" kws] by auto
  have words: "\<forall>k \<in> set kws. k \<noteq> [] \<longrightarrow> lower k \<in> set ps" using mk by (simp add: marked_def)
  have len: "length nodes = length ps" by (rule trie_length [OF tr])
  show ?thesis
  proof (cases "length nodes = 1")
    case True
    have "set ps = {[]}" using True len trie_root [OF tr] by (cases ps) auto
    with words law have "\<forall>k \<in> set kws. k = []" by auto
    with True ak \<open>kws \<noteq> []\<close> show ?thesis by (simp add: newKeywordMatcher_def)
  next
    case more: False
    note N = trie_nonempty [OF tr]
    have ec: "edgeChain edges (buildFirstEdge (nodes ! 0)) = Some (ch 0)"
      using trie_chain [OF tr N] by (rule chain_ok_edgeChain)
    have "bfs lower kws ps nodes (map kb_target (ch 0)) 0"
      using bfs_init [OF tr mk] law by blast
    then obtain nodes1 where lq: "linkQueue edges nodes (map kb_target (ch 0)) 0 = Some nodes1"
      and tr1: "trie nodes1 edges ps ch" and lk: "\<forall>n < length ps. linked lower kws ps n (nodes1 ! n)"
      using linkQueue_links [OF tr words] by blast
    have len1: "length nodes1 = length ps" by (rule trie_length [OF tr1])
    obtain nodes2 kedges where fz: "freezeNodes edges [0..<length nodes1] (nodes1, []) = Some (nodes2, kedges)"
      "length nodes2 = length nodes1"
      "\<forall>n. n < length nodes1 \<longrightarrow> kn_failure (nodes2 ! n) = kn_failure (nodes1 ! n) \<and>
         kn_bestKeyword (nodes2 ! n) = kn_bestKeyword (nodes1 ! n)"
      "\<forall>i \<in> set [0..<length nodes1]. frozen kedges (nodes2 ! i) (ch i)"
      using freezeNodes_freezes [of "[0..<length nodes1]" nodes1 edges ch "[]"]
        trie_chain [OF tr1] len1 by auto
    let ?m = "\<lparr>km_nodes = nodes2, km_edges = kedges, km_rootTransitions = fst (rootLoop (ch 0)),
      km_keywords = kws\<rparr>"
    have "newKeywordMatcher lower kws = Some (Some ?m)"
      using ak \<open>kws \<noteq> []\<close> more ec lq fz(1) rootLoop_queue [of "ch 0"]
      by (simp add: newKeywordMatcher_def split_def Let_def)
    moreover have "built lower kws ps ?m"
    proof -
      have "linked lower kws ps n (nodes2 ! n)" if "n < length ps" for n
        using lk [rule_format, OF that] fz(3) [rule_format, of n] that len1
        by (simp add: linked_def split: if_splits)
      moreover have "km_next ?m n l = (case child ps n l of None \<Rightarrow> 0 | Some t \<Rightarrow> t)"
        if n: "n < length ps" for n l
      proof (cases "n = 0")
        case True
        then show ?thesis
          using rootLoop_trans [OF trie_labels [OF tr N], of l] find_label_child [OF tr N, of l, symmetric]
          by (simp add: km_next_def split: option.split)
      next
        case False
        have "frozen kedges (nodes2 ! n) (ch n)" using fz(4) n len1 by simp
        then show ?thesis using km_next_frozen [OF tr n False, of ?m l] fz(2) len1 by simp
      qed
      moreover have "kn_edgeStart x + kn_edgeCount x \<le> length kedges" if "x \<in> set nodes2" for x
        using that fz(2,4) by (auto simp: in_set_conv_nth frozen_def)
      ultimately show ?thesis unfolding built_def
        using trie_distinct [OF tr] N trie_root [OF tr] trie_prefix [OF tr] words
          rootLoop_length fz(2) len1 by auto
    qed
    ultimately show ?thesis using \<open>kws \<noteq> []\<close> by blast
  qed
qed

section \<open>Searching\<close>

lemma builtD:
  assumes "built lower kws ps m"
  shows "distinct ps" and "0 < length ps" and "ps ! 0 = []"
    and "s @ [l] \<in> set ps \<Longrightarrow> s \<in> set ps" and "km_keywords m = kws"
    and "length (km_nodes m) = length ps"
    and "k \<in> set kws \<Longrightarrow> k \<noteq> [] \<Longrightarrow> lower k \<in> set ps"
    and "n < length ps \<Longrightarrow> linked lower kws ps n (km_nodes m ! n)"
    and "n < length ps \<Longrightarrow> km_next m n l = (case child ps n l of None \<Rightarrow> 0 | Some t \<Rightarrow> t)"
  using assms by (auto simp: built_def)

lemma advance_longest:
  assumes b: "built lower kws ps m" and n: "n < length ps"
  shows "\<exists>n'. advance m n c = Some n' \<and> n' < length ps \<and> suffix (ps ! n') (ps ! n @ [c]) \<and>
    (\<forall>u \<in> set ps. suffix u (ps ! n @ [c]) \<longrightarrow> suffix u (ps ! n'))"
  using n
proof (induction "length (ps ! n)" arbitrary: n rule: less_induct)
  case less
  note step = advance.simps [of m n c] and nx = builtD(9) [OF b less.prems, of c]
  note N = builtD(2) [OF b] and r = builtD(3) [OF b]
  show ?case
  proof (cases "child ps n c")
    case (Some t)
    then have t: "t < length ps" "ps ! t = ps ! n @ [c]"
      using child_Some_iff [OF builtD(1) [OF b]] by auto
    then have "t \<noteq> 0" using r by (metis snoc_eq_iff_butlast)
    with Some step nx t show ?thesis by simp
  next
    case None
    then have no: "ps ! n @ [c] \<notin> set ps" by (simp add: child_None_iff)
    show ?thesis
    proof (cases "n = 0")
      case True
      have "u = []" if "u \<in> set ps" "suffix u (ps ! n @ [c])" for u
        using that no r True suffix_snoc_cases [of u "[]" c] by auto
      with True step nx None N r show ?thesis by auto
    next
      case False
      let ?f = "kn_failure (km_nodes m ! n)"
      have lf: "longest_fail ps n ?f" using builtD(8) [OF b less.prems] False by (rule linked_fail)
      have f: "?f < length ps" using lf by (simp add: longest_fail_def)
      obtain n' where n': "advance m ?f c = Some n'" "n' < length ps" "suffix (ps ! n') (ps ! ?f @ [c])"
        "\<forall>u \<in> set ps. suffix u (ps ! ?f @ [c]) \<longrightarrow> suffix u (ps ! n')"
        using less.hyps [OF longest_fail_shorter [OF lf] f] by blast
      have "suffix (ps ! ?f @ [c]) (ps ! n @ [c])"
        using lf by (auto simp: longest_fail_def strict_suffix_def suffix_def)
      then have "suffix (ps ! n') (ps ! n @ [c])" using n'(3) suffix_order.trans by blast
      moreover have "suffix u (ps ! n')" if u: "u \<in> set ps" "suffix u (ps ! n @ [c])" for u
      proof (cases u rule: rev_cases)
        case (snoc v d)
        then have v: "d = c" "suffix v (ps ! n)" using u(2) by (auto simp: suffix_snoc_cases)
        then have "v \<in> set ps" "v \<noteq> ps ! n" using u(1) snoc no builtD(4) [OF b] by auto
        then have "suffix v (ps ! ?f)" using lf v(2) by (simp add: longest_fail_def strict_suffix_def)
        then have "suffix u (ps ! ?f @ [c])" using snoc v(1) by (simp add: suffix_snoc_cases)
        with n'(4) u(1) show ?thesis by blast
      qed simp
      ultimately show ?thesis using step nx None False n'(1,2) by auto
    qed
  qed
qed

definition occurs :: "(string \<Rightarrow> string) \<Rightarrow> string \<Rightarrow> string \<Rightarrow> bool" where
  "occurs lower text k \<longleftrightarrow> k \<noteq> [] \<and> sublist (lower k) text"

lemma sublist_snoc: "sublist u (r @ [c]) \<longleftrightarrow> sublist u r \<or> suffix u (r @ [c])"
proof -
  have "sublist (rev u) (c # rev r) \<longleftrightarrow> prefix (rev u) (c # rev r) \<or> sublist (rev u) (rev r)"
    by (rule sublist_Cons_right)
  then show ?thesis
    by (metis rev.simps(2) rev_append rev_rev_ident sublist_rev suffix_to_prefix append_Nil rev.simps(1) append_Cons)
qed

lemma first_index_mono_0:
  "first_index P xs = Some 0 \<Longrightarrow> (\<And>x. P x \<Longrightarrow> Q x) \<Longrightarrow> first_index Q xs = Some 0"
  by (cases xs) (auto split: if_splits)

lemma scan_finds:
  assumes b: "built lower kws ps m"
    and "n < length ps" "suffix (ps ! n) r" "\<forall>u \<in> set ps. suffix u r \<longrightarrow> suffix u (ps ! n)"
    and "best = first_index (occurs lower r) kws"
  shows "scan m cs n best = Some (first_index (occurs lower (r @ cs)) kws)"
  using assms(2-)
proof (induction cs arbitrary: n r best)
  case (Cons c cs)
  obtain n' where n': "advance m n c = Some n'" "n' < length ps" "suffix (ps ! n') (ps ! n @ [c])"
    "\<forall>u \<in> set ps. suffix u (ps ! n @ [c]) \<longrightarrow> suffix u (ps ! n')"
    using advance_longest [OF b Cons.prems(1)] by blast
  have "suffix (ps ! n @ [c]) (r @ [c])" using Cons.prems(2) by (auto simp: suffix_def)
  then have s: "suffix (ps ! n') (r @ [c])" using n'(3) suffix_order.trans by blast
  have max: "\<forall>u \<in> set ps. suffix u (r @ [c]) \<longrightarrow> suffix u (ps ! n')"
  proof (intro ballI impI)
    fix u assume u: "u \<in> set ps" "suffix u (r @ [c])"
    show "suffix u (ps ! n')"
    proof (cases u rule: rev_cases)
      case (snoc v d)
      then have "d = c" "suffix v r" "v \<in> set ps" using u builtD(4) [OF b] by (auto simp: suffix_snoc_cases)
      then have "suffix u (ps ! n @ [c])" using Cons.prems(3) snoc by (simp add: suffix_snoc_cases)
      with n'(4) u(1) show ?thesis by blast
    qed simp
  qed
  let ?best = "minKeywordIndex best (kn_bestKeyword (km_nodes m ! n'))"
  have "?best = first_index (\<lambda>k. occurs lower r k \<or> ends_with lower (ps ! n') k) kws"
    using builtD(8) [OF b n'(2)] Cons.prems(4) by (simp add: linked_def first_index_or)
  also have "\<dots> = first_index (occurs lower (r @ [c])) kws"
  proof (rule first_index_cong)
    fix k assume k: "k \<in> set kws"
    have "suffix (lower k) (ps ! n') \<longleftrightarrow> suffix (lower k) (r @ [c])" if "k \<noteq> []"
      using builtD(7) [OF b k that] max s suffix_order.trans by blast
    then show "(occurs lower r k \<or> ends_with lower (ps ! n') k) = occurs lower (r @ [c]) k"
      by (auto simp: occurs_def ends_with_def sublist_snoc)
  qed
  finally have best: "?best = first_index (occurs lower (r @ [c])) kws" .
  show ?case
  proof (cases "?best = Some 0")
    case True
    have "occurs lower (r @ [c]) k \<Longrightarrow> occurs lower (r @ c # cs) k" for k
      by (auto simp: occurs_def sublist_def) (metis append.assoc append_Cons append_Nil)
    with best True have "first_index (occurs lower (r @ c # cs)) kws = Some 0"
      by (metis first_index_mono_0)
    with True n'(1) show ?thesis by (simp add: Let_def)
  next
    case False
    with Cons.IH [OF n'(2) s max best] n'(1) show ?thesis by (simp add: Let_def)
  qed
qed simp

lemma Match_built:
  assumes b: "built lower kws ps m" and kws: "kws \<noteq> []" and law: "\<And>s. lower s = [] \<longleftrightarrow> s = []"
  shows "Match lower (Some m) text = Some (case find (occurs lower (lower text)) kws of
    None \<Rightarrow> ([], False) | Some k \<Rightarrow> (k, True))"
proof -
  have none: "first_index (occurs lower []) kws = None"
    by (auto simp: first_index_None_iff occurs_def law)
  have sc: "scan m (lower text) 0 None = Some (first_index (occurs lower (lower text)) kws)"
    using scan_finds [OF b builtD(2) [OF b], of "[]" None "lower text"] builtD(3) [OF b] none by simp
  have "km_nodes m \<noteq> []" using builtD(2,6) [OF b] by auto
  then show ?thesis
    using sc none law [of "[]"] first_index_less [of "occurs lower (lower text)" kws] kws builtD(5) [OF b]
    by (auto simp: Match_def find_first_index split: option.split)
qed

lemma Match_None: "Match lower None text = Some ([], False)"
  by (simp add: Match_def)

lemma addKeywords_all_empty: "set ks \<subseteq> {[]} \<Longrightarrow> addKeywords lower i ks st = Some st"
  by (induction ks arbitrary: i) (auto simp: addKeyword_def split_def)

lemma newKeywordMatcher_all_empty: "set kws \<subseteq> {[]} \<Longrightarrow> newKeywordMatcher lower kws = Some None"
  by (simp add: newKeywordMatcher_def addKeywords_all_empty)

text \<open>No index of a built matcher leaves its array.\<close>

definition matcher_in_range :: "kmatcher \<Rightarrow> bool" where
  "matcher_in_range m \<longleftrightarrow> length (km_rootTransitions m) = 256 \<and>
     (\<forall>n < length (km_nodes m). let x = km_nodes m ! n in
        kn_failure x < length (km_nodes m) \<and>
        kn_edgeStart x + kn_edgeCount x \<le> length (km_edges m) \<and>
        (\<forall>i. kn_bestKeyword x = Some i \<longrightarrow> i < length (km_keywords m)) \<and>
        (\<forall>l. km_next m n l < length (km_nodes m)))"

lemma built_in_range:
  assumes b: "built lower kws ps m"
  shows "matcher_in_range m"
  unfolding matcher_in_range_def Let_def
proof (intro conjI allI impI)
  show "length (km_rootTransitions m) = 256" using b by (simp add: built_def)
  fix n assume "n < length (km_nodes m)"
  then have n: "n < length ps" using builtD(6) [OF b] by simp
  note l = builtD(8) [OF b n]
  show "kn_failure (km_nodes m ! n) < length (km_nodes m)"
    using l builtD(2,6) [OF b] by (auto simp: linked_def longest_fail_def split: if_splits)
  show "kn_edgeStart (km_nodes m ! n) + kn_edgeCount (km_nodes m ! n) \<le> length (km_edges m)"
    using b n builtD(6) [OF b] by (simp add: built_def)
  show "i < length (km_keywords m)" if "kn_bestKeyword (km_nodes m ! n) = Some i" for i
    using that l first_index_less builtD(5) [OF b] by (metis linked_def)
  show "km_next m n c < length (km_nodes m)" for c
    using builtD(2,6,9) [OF b] n child_Some_iff [OF builtD(1) [OF b]] by (auto split: option.split)
qed

section \<open>The properties\<close>

text \<open>
  C11: Building the automaton and searching with it always end, and the search reports exactly
  what the naive scan does: the first non-empty keyword of the list whose lower-cased form occurs
  anywhere in the lower-cased text, in its original spelling, and nothing if there is none.
\<close>

theorem keyword_match_first:
  assumes "\<forall>s. lower s = [] \<longleftrightarrow> s = []"
  shows "\<exists>m. newKeywordMatcher lower kws = Some m \<and>
    (\<forall>text. Match lower m text =
       Some (case find (\<lambda>k. k \<noteq> [] \<and> sublist (lower k) (lower text)) kws of
               None \<Rightarrow> ([], False) | Some k \<Rightarrow> (k, True)))"
proof -
  have law: "\<And>s. lower s = [] \<longleftrightarrow> s = []" using assms by blast
  consider (none) "newKeywordMatcher lower kws = Some None" "\<forall>k \<in> set kws. k = []"
    | (some) m ps where "newKeywordMatcher lower kws = Some (Some m)" "built lower kws ps m"
        "kws \<noteq> []"
    using newKeywordMatcher_built [where kws = kws, OF law] by blast
  then show ?thesis
  proof cases
    case none
    then have "find (\<lambda>k. k \<noteq> [] \<and> sublist (lower k) (lower t)) kws = None" for t
      by (auto simp: find_None_iff)
    with none Match_None show ?thesis by auto
  next
    case some
    have "occurs lower (lower t) = (\<lambda>k. k \<noteq> [] \<and> sublist (lower k) (lower t))" for t
      by (simp add: fun_eq_iff occurs_def)
    with some Match_built [OF some(2,3) law] show ?thesis by auto
  qed
qed

definition lower_A_B :: "string \<Rightarrow> string" where
  "lower_A_B = map (\<lambda>c. if c = CHR ''A'' then CHR ''a'' else if c = CHR ''B'' then CHR ''b'' else c)"

lemma keyword_match_first_witness:
  "\<exists>m. newKeywordMatcher lower_A_B [''abc'', '''', ''AB'', ''b''] = Some m \<and>
     Match lower_A_B m ''xaBx'' = Some (''AB'', True) \<and> Match lower_A_B m ''xcx'' = Some ([], False)"
proof -
  have "\<forall>s. lower_A_B s = [] \<longleftrightarrow> s = []" by (simp add: lower_A_B_def)
  note t = keyword_match_first [OF this, of "[''abc'', '''', ''AB'', ''b'']"]
  have "find (\<lambda>k. k \<noteq> [] \<and> sublist (lower_A_B k) (lower_A_B ''xaBx''))
      [''abc'', '''', ''AB'', ''b''] = Some ''AB''"
    "find (\<lambda>k. k \<noteq> [] \<and> sublist (lower_A_B k) (lower_A_B ''xcx''))
      [''abc'', '''', ''AB'', ''b''] = None" by code_simp+
  with t show ?thesis by fastforce
qed

text \<open>
  C37: A built matcher is well formed: the root table has an entry for every byte; every failure
  link and every transition is a node, every edge segment lies within the edge array and every
  best keyword within the list, so that no index of the search leaves its array. The builder
  answers nil exactly when no keyword of the list is non-empty.
\<close>

theorem keyword_matcher_well_formed:
  assumes "\<forall>s. lower s = [] \<longleftrightarrow> s = []"
  shows "case newKeywordMatcher lower kws of
      None \<Rightarrow> False
    | Some None \<Rightarrow> set kws \<subseteq> {[]}
    | Some (Some m) \<Rightarrow> matcher_in_range m \<and> km_keywords m = kws \<and> \<not> set kws \<subseteq> {[]}"
proof -
  have law: "\<And>s. lower s = [] \<longleftrightarrow> s = []" using assms by blast
  consider (none) "newKeywordMatcher lower kws = Some None" "set kws \<subseteq> {[]}"
    | (some) m ps where "newKeywordMatcher lower kws = Some (Some m)" "built lower kws ps m"
    using newKeywordMatcher_built [where kws = kws, OF law] by blast
  then show ?thesis
  proof cases
    case some
    then have "\<not> set kws \<subseteq> {[]}" using newKeywordMatcher_all_empty by fastforce
    then show ?thesis using some(1) built_in_range [OF some(2)] builtD(5) [OF some(2)] by simp
  qed simp
qed

lemma keyword_matcher_well_formed_witness:
  "case newKeywordMatcher lower_A_B [''AB'', ''b''] of
     None \<Rightarrow> False | Some None \<Rightarrow> False
   | Some (Some m) \<Rightarrow> matcher_in_range m \<and> km_keywords m = [''AB'', ''b'']"
proof -
  have "\<forall>s. lower_A_B s = [] \<longleftrightarrow> s = []" by (simp add: lower_A_B_def)
  from keyword_matcher_well_formed [OF this, of "[''AB'', ''b'']"] show ?thesis
    by (auto split: option.splits)
qed

end
