(* ===== verification/PaymentStore.thy ===== *)
theory PaymentStore
  imports SubscriptionService Interleaving
begin

text \<open>
  The tables of the payment subsystem and the single statements on them: orders and audit log
  (\<^verbatim>\<open>payment_service.go\<close>, \<^verbatim>\<open>payment_stats.go\<close>), redeem codes
  (\<^verbatim>\<open>redeem_code.go\<close>, \<^verbatim>\<open>redeem_code_repo.go\<close>, \<^verbatim>\<open>redeem_cache.go\<close>), users
  (\<^verbatim>\<open>user_repo.go\<close>) and affiliates (\<^verbatim>\<open>affiliate_repo.go\<close>). Each operation is one statement or
  one transaction and runs atomically. Amounts are rationals: the database stores decimals.
  Timestamps of orders are stored in microseconds.
\<close>

section \<open>Rows\<close>

datatype order_status =
    OrderStatusPending | OrderStatusPaid | OrderStatusRecharging | OrderStatusCompleted
  | OrderStatusExpired | OrderStatusCancelled | OrderStatusFailed
  | OrderStatusRefundRequested | OrderStatusRefunding | OrderStatusRefundPending
  | OrderStatusPartiallyRefunded | OrderStatusRefunded | OrderStatusRefundFailed

definition psIsRefundStatus :: "order_status \<Rightarrow> bool" where
  "psIsRefundStatus s \<longleftrightarrow> s \<in> {OrderStatusRefundRequested, OrderStatusRefunding,
     OrderStatusRefundPending, OrderStatusPartiallyRefunded, OrderStatusRefunded,
     OrderStatusRefundFailed}"

definition OrderTypeBalance :: string where "OrderTypeBalance = ''balance''"
definition OrderTypeSubscription :: string where "OrderTypeSubscription = ''subscription''"

datatype pay_error =
    StoreError | NotFound | Forbidden | InvalidStatus | LeaseConflict | ErrOrderNotFound
  | ProviderMismatch | MetadataMismatch | InvalidPaidAmount | AmountMismatch
  | ErrRedeemCodeNotFound | ErrRedeemCodeUsed | ErrRedeemCodeExpired | ErrRedeemCodeLocked
  | ErrRedeemRateLimited | UnsupportedRedeemType | RedeemCodeInvalid | RedeemCodeMismatch
  | RedeemCodeConflict | RedeemCodeDeleteUsed | CodeRequired | ValueZero | ErrUserNotFound
  | GroupUnavailable | MissingSubscriptionInfo | SubscriptionFailed sub_error | NoAffiliateClaim
  | PaymentDisabled | BalancePaymentDisabled | InvalidAmount | InvalidInput | PlanNotAvailable
  | GroupTypeMismatch | CancelRateLimited | UserInactive | GatewayError | NoAvailableInstance
  | TooManyPending | DailyLimitExceeded

text \<open>The provider snapshot of an order, parsed from its JSON column; a string may be empty.\<close>

record provider_snapshot =
  ps_ProviderInstanceID :: string
  ps_ProviderKey :: string
  ps_MerchantAppID :: string
  ps_MerchantID :: string
  ps_Currency :: string

record PaymentOrder =
  po_ID :: int
  po_UserID :: int
  po_Amount :: rat
  po_PayAmount :: rat
  po_RechargeCode :: string
  po_OutTradeNo :: string
  po_PaymentType :: string
  po_PaymentTradeNo :: string
  po_OrderType :: string
  po_SubscriptionGroupID :: "int option"
  po_SubscriptionDays :: "int option"
  po_ProviderKey :: "string option"
  po_ProviderSnapshot :: "provider_snapshot option"
  po_Status :: order_status
  po_ExpiresAt :: go_time
  po_PaidAt :: "go_time option"
  po_CompletedAt :: "go_time option"
  po_FailedAt :: "go_time option"
  po_FailedReason :: "pay_error option"
  po_UpdatedAt :: go_time

definition StatusDisabled :: string where "StatusDisabled = ''disabled''"
definition StatusUnused :: string where "StatusUnused = ''unused''"
definition StatusUsed :: string where "StatusUsed = ''used''"
definition StatusExpired :: string where "StatusExpired = ''expired''"

definition RedeemTypeBalance :: string where "RedeemTypeBalance = ''balance''"
definition RedeemTypeConcurrency :: string where "RedeemTypeConcurrency = ''concurrency''"
definition RedeemTypeSubscription :: string where "RedeemTypeSubscription = ''subscription''"
definition RedeemTypeInvitation :: string where "RedeemTypeInvitation = ''invitation''"

record RedeemCode =
  rc_ID :: int
  rc_Code :: string
  rc_Type :: string
  rc_Value :: rat
  rc_Status :: string
  rc_UsedBy :: "int option"
  rc_UsedAt :: "go_time option"
  rc_ExpiresAt :: "go_time option"
  rc_GroupID :: "int option"
  rc_ValidityDays :: int

definition rc_IsUsed :: "RedeemCode \<Rightarrow> bool" where
  "rc_IsUsed r \<longleftrightarrow> rc_Status r = StatusUsed"

definition rc_IsExpiredAt :: "RedeemCode \<Rightarrow> go_time \<Rightarrow> bool" where
  "rc_IsExpiredAt r now \<longleftrightarrow> rc_Status r = StatusExpired \<or>
     (rc_Status r = StatusUnused \<and>
      (case rc_ExpiresAt r of None \<Rightarrow> False | Some e \<Rightarrow> \<not> e > now))"

definition rc_CanUse :: "RedeemCode \<Rightarrow> go_time \<Rightarrow> bool" where
  "rc_CanUse r now \<longleftrightarrow> rc_Status r = StatusUnused \<and> \<not> rc_IsExpiredAt r now"

record user_row =
  us_Balance :: rat
  us_TotalRecharged :: rat
  us_Concurrency :: int

record audit_row =
  au_OrderID :: int
  au_Action :: string
  au_Operator :: string
  au_CreatedAt :: go_time

record AffiliateSummary =
  af_RebateRatePercent :: "rat option"
  af_InviterID :: "int option"
  af_Quota :: rat
  af_FrozenQuota :: rat
  af_HistoryQuota :: rat
  af_CreatedAt :: go_time

record ledger_row =
  le_UserID :: int
  le_Amount :: rat
  le_SourceUserID :: int
  le_SourceOrderID :: "int option"
  le_FrozenUntil :: "go_time option"

text \<open>\<open>st_locks\<close> and \<open>st_attempts\<close> are keys of Redis, with the moment they expire.\<close>

record store =
  st_clock :: go_time
  st_orders :: "int \<rightharpoonup> PaymentOrder"
  st_order_ids :: "int list"
  st_next_order :: int
  st_audit :: "audit_row list"
  st_codes :: "RedeemCode list"
  st_next_code :: int
  st_locks :: "string \<rightharpoonup> go_time"
  st_attempts :: "int \<rightharpoonup> nat \<times> go_time"
  st_users :: "int \<rightharpoonup> user_row"
  st_affiliates :: "int \<rightharpoonup> AffiliateSummary"
  st_ledger :: "ledger_row list"
  st_subs :: sub_table
  st_sub_ids :: "int list"
  st_next_sub :: int

text \<open>Decimal digits, as \<^verbatim>\<open>%d\<close> prints them.\<close>

fun show_nat :: "nat \<Rightarrow> string" where
  "show_nat n = (if n < 10 then [char_of (48 + n)] else show_nat (n div 10) @ [char_of (48 + n mod 10)])"

declare show_nat.simps [simp del]

definition show_int :: "int \<Rightarrow> string" where
  "show_int i = (if i < 0 then CHR ''-'' # show_nat (nat (- i)) else show_nat (nat i))"

section \<open>Orders\<close>

definition micros :: "go_time \<Rightarrow> go_time" where "micros t = t - t mod 1000"

definition order_Get :: "int \<Rightarrow> store \<Rightarrow> store \<times> PaymentOrder option" where
  "order_Get oid s = (s, st_orders s oid)"

text \<open>
  \<^verbatim>\<open>PaymentOrder.Update().Where(ID, ...).Set...Save\<close> answers the number of rows; ent sets
  \<^verbatim>\<open>updated_at\<close> unless the statement does.
\<close>

definition order_Update ::
  "int \<Rightarrow> (PaymentOrder \<Rightarrow> bool) \<Rightarrow> (PaymentOrder \<Rightarrow> PaymentOrder) \<Rightarrow> store \<Rightarrow> store \<times> nat" where
  "order_Update oid cond upd s =
     (case st_orders s oid of
        None \<Rightarrow> (s, 0)
      | Some od \<Rightarrow>
          if cond od
          then (s\<lparr>st_orders := (st_orders s)(oid \<mapsto>
                  upd (od\<lparr>po_UpdatedAt := micros (st_clock s)\<rparr>))\<rparr>, 1)
          else (s, 0))"

text \<open>\<open>st_order_ids\<close> lists the ids of the table, for the lookups that are not by id.\<close>

definition order_ByOutTradeNo :: "string \<Rightarrow> store \<Rightarrow> store \<times> PaymentOrder list" where
  "order_ByOutTradeNo no s =
     (s, filter (\<lambda>od. po_OutTradeNo od = no) (List.map_filter (st_orders s) (st_order_ids s)))"

section \<open>The audit log\<close>

text \<open>A unique index holds at most one row for an order and an action.\<close>

definition has_audit :: "int \<Rightarrow> string \<Rightarrow> store \<Rightarrow> bool" where
  "has_audit oid action s \<longleftrightarrow>
     list_ex (\<lambda>a. au_OrderID a = oid \<and> au_Action a = action) (st_audit s)"

definition audit_Create :: "int \<Rightarrow> string \<Rightarrow> string \<Rightarrow> store \<Rightarrow> store \<times> bool" where
  "audit_Create oid action operator s =
     (if has_audit oid action s then (s, False)
      else (s\<lparr>st_audit := st_audit s @ [\<lparr>au_OrderID = oid, au_Action = action,
              au_Operator = operator, au_CreatedAt = st_clock s\<rparr>]\<rparr>, True))"

definition hasAuditLog ::
  "int \<Rightarrow> string \<Rightarrow> (bool \<Rightarrow> (store, 'a) prog) \<Rightarrow> (store, 'a) prog" where
  "hasAuditLog oid action k =
     call (\<lambda>s. (s, has_audit oid action s)) (\<lambda>c. k (c = Some True))"

text \<open>The error of the insertion is only logged.\<close>

definition writeAuditLog ::
  "int \<Rightarrow> string \<Rightarrow> string \<Rightarrow> (store, 'a) prog \<Rightarrow> (store, 'a) prog" where
  "writeAuditLog oid action operator k = call (audit_Create oid action operator) (\<lambda>_. k)"

section \<open>Redeem codes\<close>

definition code_GetByCode :: "string \<Rightarrow> store \<Rightarrow> store \<times> RedeemCode option" where
  "code_GetByCode c s = (s, find (\<lambda>r. rc_Code r = c) (st_codes s))"

definition code_GetByID :: "int \<Rightarrow> store \<Rightarrow> store \<times> RedeemCode option" where
  "code_GetByID i s = (s, find (\<lambda>r. rc_ID r = i) (st_codes s))"

text \<open>The column \<^verbatim>\<open>code\<close> is unique.\<close>

definition code_Create :: "RedeemCode \<Rightarrow> store \<Rightarrow> store \<times> bool" where
  "code_Create r s =
     (if list_ex (\<lambda>x. rc_Code x = rc_Code r) (st_codes s) then (s, False)
      else (s\<lparr>st_codes := st_codes s @ [r\<lparr>rc_ID := st_next_code s\<rparr>],
              st_next_code := st_next_code s + 1\<rparr>, True))"

definition code_Update ::
  "(RedeemCode \<Rightarrow> bool) \<Rightarrow> (RedeemCode \<Rightarrow> RedeemCode) \<Rightarrow> store \<Rightarrow> store \<times> nat" where
  "code_Update cond upd s =
     (s\<lparr>st_codes := map (\<lambda>r. if cond r then upd r else r) (st_codes s)\<rparr>,
      length (filter cond (st_codes s)))"

definition code_Use :: "int \<Rightarrow> int \<Rightarrow> store \<Rightarrow> store \<times> (pay_error + unit)" where
  "code_Use i userID s =
     (let (t, affected) = code_Update (\<lambda>r. rc_ID r = i \<and> rc_Status r = StatusUnused)
            (\<lambda>r. r\<lparr>rc_Status := StatusUsed, rc_UsedBy := Some userID,
                   rc_UsedAt := Some (st_clock s)\<rparr>) s
      in if affected = 0 then (t, Inl ErrRedeemCodeUsed) else (t, Inr ()))"

definition code_Delete :: "int \<Rightarrow> store \<Rightarrow> store" where
  "code_Delete i s = s\<lparr>st_codes := filter (\<lambda>r. rc_ID r \<noteq> i) (st_codes s)\<rparr>"

definition cache_GetRedeemAttemptCount :: "int \<Rightarrow> store \<Rightarrow> store \<times> nat" where
  "cache_GetRedeemAttemptCount u s =
     (s, case st_attempts s u of None \<Rightarrow> 0 | Some (n, e) \<Rightarrow> if st_clock s < e then n else 0)"

definition redeemRateLimitWindow :: go_duration where "redeemRateLimitWindow = 10 * minute"

definition cache_IncrementRedeemAttemptCount :: "int \<Rightarrow> store \<Rightarrow> store \<times> unit" where
  "cache_IncrementRedeemAttemptCount u s =
     (s\<lparr>st_attempts := (st_attempts s)(u \<mapsto>
        (case st_attempts s u of
           None \<Rightarrow> (1, st_clock s + redeemRateLimitWindow)
         | Some (n, e) \<Rightarrow> if st_clock s < e then (n + 1, e)
             else (1, st_clock s + redeemRateLimitWindow)))\<rparr>, ())"

definition cache_AcquireRedeemLock :: "string \<Rightarrow> go_duration \<Rightarrow> store \<Rightarrow> store \<times> bool" where
  "cache_AcquireRedeemLock c ttl s =
     (if (case st_locks s c of None \<Rightarrow> False | Some e \<Rightarrow> st_clock s < e) then (s, False)
      else (s\<lparr>st_locks := (st_locks s)(c \<mapsto> st_clock s + ttl)\<rparr>, True))"

definition cache_ReleaseRedeemLock :: "string \<Rightarrow> store \<Rightarrow> store \<times> unit" where
  "cache_ReleaseRedeemLock c s = (s\<lparr>st_locks := (st_locks s)(c := None)\<rparr>, ())"

section \<open>Users\<close>

definition user_modify ::
  "int \<Rightarrow> (user_row \<Rightarrow> user_row) \<Rightarrow> store \<Rightarrow> store \<times> (pay_error + unit)" where
  "user_modify u f s =
     (case st_users s u of
        None \<Rightarrow> (s, Inl ErrUserNotFound)
      | Some r \<Rightarrow> (s\<lparr>st_users := (st_users s)(u \<mapsto> f r)\<rparr>, Inr ()))"

definition user_UpdateBalance :: "int \<Rightarrow> rat \<Rightarrow> store \<Rightarrow> store \<times> (pay_error + unit)" where
  "user_UpdateBalance u amount = user_modify u (\<lambda>r. r\<lparr>us_Balance := us_Balance r + amount,
     us_TotalRecharged := us_TotalRecharged r + (if amount > 0 then amount else 0)\<rparr>)"

definition user_ApplyRedeemBalanceAdjustment :: "int \<Rightarrow> rat \<Rightarrow> store \<Rightarrow> store \<times> (pay_error + unit)" where
  "user_ApplyRedeemBalanceAdjustment u delta =
     user_modify u (\<lambda>r. r\<lparr>us_Balance := max (us_Balance r + delta) 0\<rparr>)"

definition user_UpdateConcurrency :: "int \<Rightarrow> int \<Rightarrow> store \<Rightarrow> store \<times> (pay_error + unit)" where
  "user_UpdateConcurrency u amount =
     user_modify u (\<lambda>r. r\<lparr>us_Concurrency := us_Concurrency r + amount\<rparr>)"

definition user_ApplyRedeemConcurrencyAdjustment :: "int \<Rightarrow> int \<Rightarrow> store \<Rightarrow> store \<times> (pay_error + unit)" where
  "user_ApplyRedeemConcurrencyAdjustment u delta =
     user_modify u (\<lambda>r. r\<lparr>us_Concurrency := max (us_Concurrency r + delta) 0\<rparr>)"

text \<open>A step of a transaction: go on unless it failed.\<close>

definition then_tx ::
  "store \<times> (pay_error + 'a) \<Rightarrow> (store \<Rightarrow> 'a \<Rightarrow> store \<times> (pay_error + 'b)) \<Rightarrow> store \<times> (pay_error + 'b)" where
  "then_tx r k = (case r of (s, Inl e) \<Rightarrow> (s, Inl e) | (s, Inr x) \<Rightarrow> k s x)"

lemma then_tx_simps [simp]:
  "then_tx (s, Inl e) k = (s, Inl e)"
  "then_tx (s, Inr x) k = k s x"
  by (simp_all add: then_tx_def)

text \<open>A transaction that fails is rolled back.\<close>

definition in_tx :: "(store \<Rightarrow> store \<times> (pay_error + 'a)) \<Rightarrow> store \<Rightarrow> store \<times> (pay_error + 'a)" where
  "in_tx f s = (case f s of (t, Inl e) \<Rightarrow> (s, Inl e) | (t, Inr x) \<Rightarrow> (t, Inr x))"

end
