(* ===== verification/AffiliateRebate.thy ===== *)
theory AffiliateRebate
  imports PaymentStore
begin

text \<open>
  The rebate an inviter earns on the recharge of a user: \<^verbatim>\<open>AccrueInviteRebateForOrder\<close> of
  \<^verbatim>\<open>backend/internal/service/affiliate_service.go\<close> with the statements of
  \<^verbatim>\<open>affiliate_repo.go\<close> it runs. It runs inside one transaction of the caller, or as the
  statements of one call. The settings are read once; amounts are rationals, and a rate that is
  not a number cannot be written down.
\<close>

record rebate_settings =
  rs_Enabled :: bool
  rs_RatePercent :: rat
  rs_DurationDays :: int
  rs_PerInviteeCap :: rat
  rs_FreezeHours :: int

definition AffiliateRebateRateMin :: rat where "AffiliateRebateRateMin = 0"
definition AffiliateRebateRateMax :: rat where "AffiliateRebateRateMax = 100"

definition clampAffiliateRebateRate :: "rat \<Rightarrow> rat" where
  "clampAffiliateRebateRate v =
     (if v < AffiliateRebateRateMin then AffiliateRebateRateMin
      else if v > AffiliateRebateRateMax then AffiliateRebateRateMax else v)"

text \<open>\<^verbatim>\<open>math.Round\<close> rounds halves away from zero.\<close>

definition go_round :: "rat \<Rightarrow> int" where
  "go_round v = (if v < 0 then - \<lfloor>- v + 1 / 2\<rfloor> else \<lfloor>v + 1 / 2\<rfloor>)"

definition roundTo :: "rat \<Rightarrow> nat \<Rightarrow> rat" where
  "roundTo v scale = of_int (go_round (v * 10 ^ scale)) / 10 ^ scale"

definition resolveRebateRatePercent :: "rebate_settings \<Rightarrow> AffiliateSummary \<Rightarrow> rat" where
  "resolveRebateRatePercent cfg inviter =
     (case af_RebateRatePercent inviter of
        Some v \<Rightarrow> clampAffiliateRebateRate v
      | None \<Rightarrow> rs_RatePercent cfg)"

definition EnsureUserAffiliate :: "int \<Rightarrow> store \<Rightarrow> store \<times> (pay_error + AffiliateSummary)" where
  "EnsureUserAffiliate u s =
     (if u \<le> 0 then (s, Inl ErrUserNotFound)
      else case st_affiliates s u of
        Some a \<Rightarrow> (s, Inr a)
      | None \<Rightarrow>
          let a = \<lparr>af_RebateRatePercent = None, af_InviterID = None, af_Quota = 0,
                af_FrozenQuota = 0, af_HistoryQuota = 0, af_CreatedAt = st_clock s\<rparr>
          in (s\<lparr>st_affiliates := (st_affiliates s)(u \<mapsto> a)\<rparr>, Inr a))"

definition GetAccruedRebateFromInvitee :: "int \<Rightarrow> int \<Rightarrow> store \<Rightarrow> rat" where
  "GetAccruedRebateFromInvitee inviter invitee s =
     sum_list (map le_Amount (filter (\<lambda>l. le_UserID l = inviter \<and> le_SourceUserID l = invitee)
       (st_ledger s)))"

definition AccrueQuota :: "int \<Rightarrow> int \<Rightarrow> rat \<Rightarrow> int \<Rightarrow> int option \<Rightarrow> store \<Rightarrow> store \<times> bool" where
  "AccrueQuota inviter invitee amount freezeHours source s =
     (if amount \<le> 0 then (s, False)
      else case st_affiliates s inviter of
        None \<Rightarrow> (s, False)
      | Some a \<Rightarrow>
          let a = (if freezeHours > 0 then a\<lparr>af_FrozenQuota := af_FrozenQuota a + amount\<rparr>
                   else a\<lparr>af_Quota := af_Quota a + amount\<rparr>);
              a = a\<lparr>af_HistoryQuota := af_HistoryQuota a + amount\<rparr>;
              l = \<lparr>le_UserID = inviter, le_Amount = amount, le_SourceUserID = invitee,
                   le_SourceOrderID = source,
                   le_FrozenUntil = (if freezeHours > 0 then Some (st_clock s + freezeHours * hour)
                                     else None)\<rparr>
          in (s\<lparr>st_affiliates := (st_affiliates s)(inviter \<mapsto> a), st_ledger := st_ledger s @ [l]\<rparr>,
              True))"

text \<open>The amount that is accrued, before it is written.\<close>

definition rebateAmount ::
  "rebate_settings \<Rightarrow> AffiliateSummary \<Rightarrow> int \<Rightarrow> int \<Rightarrow> rat \<Rightarrow> store \<Rightarrow> rat" where
  "rebateAmount cfg inviterSummary inviter invitee base s =
     (let rebate = roundTo (base * (resolveRebateRatePercent cfg inviterSummary / 100)) 8 in
      if rebate \<le> 0 then 0
      else if rs_PerInviteeCap cfg > 0 then
        let existing = GetAccruedRebateFromInvitee inviter invitee s;
            remaining = rs_PerInviteeCap cfg - existing
        in if existing \<ge> rs_PerInviteeCap cfg then 0
           else if rebate > remaining then roundTo remaining 8 else rebate
      else rebate)"

definition AccrueInviteRebateForOrder ::
  "zone \<Rightarrow> rebate_settings \<Rightarrow> int \<Rightarrow> rat \<Rightarrow> int option \<Rightarrow> store \<Rightarrow> store \<times> (pay_error + rat)" where
  "AccrueInviteRebateForOrder z cfg invitee base source s =
     (if invitee \<le> 0 \<or> base \<le> 0 then (s, Inr 0)
      else if \<not> rs_Enabled cfg then (s, Inr 0)
      else then_tx (EnsureUserAffiliate invitee s) (\<lambda>s inviteeSummary.
        case af_InviterID inviteeSummary of
          None \<Rightarrow> (s, Inr 0)
        | Some inviter \<Rightarrow>
            if inviter \<le> 0 then (s, Inr 0)
            else then_tx (EnsureUserAffiliate inviter s) (\<lambda>s inviterSummary.
              if rs_DurationDays cfg > 0 \<and>
                 st_clock s > AddDate z (af_CreatedAt inviteeSummary) (rs_DurationDays cfg)
              then (s, Inr 0)
              else
                let rebate = rebateAmount cfg inviterSummary inviter invitee base s in
                if rebate = 0 then (s, Inr 0)
                else
                  let (s, applied) = AccrueQuota inviter invitee rebate (rs_FreezeHours cfg) source s
                  in (s, Inr (if applied then rebate else 0)))))"

text \<open>Accruing touches the affiliates and their ledger only.\<close>

definition same_but_affiliates :: "store \<Rightarrow> store \<Rightarrow> bool" where
  "same_but_affiliates s t \<longleftrightarrow> (\<exists>a l. t = s\<lparr>st_affiliates := a, st_ledger := l\<rparr>)"

lemma same_but_affiliates_refl [simp]: "same_but_affiliates s s"
  unfolding same_but_affiliates_def
  by (intro exI [of _ "st_affiliates s"] exI [of _ "st_ledger s"]) simp

lemma same_but_affiliates_update [simp]:
  "same_but_affiliates s (s\<lparr>st_affiliates := a\<rparr>)"
  "same_but_affiliates s (s\<lparr>st_affiliates := a, st_ledger := l\<rparr>)"
  unfolding same_but_affiliates_def
  by (intro exI [of _ a] exI [of _ "st_ledger s"], simp) blast

lemma same_but_affiliates_trans:
  "same_but_affiliates s t \<Longrightarrow> same_but_affiliates t u \<Longrightarrow> same_but_affiliates s u"
  by (auto simp: same_but_affiliates_def) blast

lemma EnsureUserAffiliate_keeps:
  "EnsureUserAffiliate u s = (t, r) \<Longrightarrow> same_but_affiliates s t \<and> st_ledger t = st_ledger s"
  by (auto simp: EnsureUserAffiliate_def Let_def split: if_splits option.splits)

lemma AccrueQuota_ledger:
  "AccrueQuota inviter invitee amount h source s = (t, applied) \<Longrightarrow> same_but_affiliates s t \<and>
     (if applied then amount > 0 \<and> (\<exists>l. st_ledger t = st_ledger s @ [l] \<and> le_SourceOrderID l = source \<and>
          le_SourceUserID l = invitee \<and> le_Amount l = amount)
      else st_ledger t = st_ledger s)"
  by (auto simp: AccrueQuota_def Let_def split: if_splits option.splits)

text \<open>The ledger gains the row of the amount that is reported, and none when it is zero.\<close>

lemma AccrueInviteRebateForOrder_ledger:
  assumes "AccrueInviteRebateForOrder z cfg invitee base source s = (t, Inr r)"
  shows "same_but_affiliates s t \<and>
    (if r = 0 then st_ledger t = st_ledger s
     else r > 0 \<and> (\<exists>l. st_ledger t = st_ledger s @ [l] \<and> le_SourceOrderID l = source \<and>
       le_SourceUserID l = invitee \<and> le_Amount l = r))"
proof (cases "(invitee \<le> 0 \<or> base \<le> 0) \<or> \<not> rs_Enabled cfg")
  case True
  then have "AccrueInviteRebateForOrder z cfg invitee base source s = (s, Inr 0)"
    by (auto simp: AccrueInviteRebateForOrder_def)
  with assms show ?thesis by simp
next
  case False
  obtain s1 x1 where 1: "EnsureUserAffiliate invitee s = (s1, x1)" by fastforce
  note k1 = EnsureUserAffiliate_keeps [OF 1]
  obtain a1 where a1: "x1 = Inr a1"
    using assms False 1 by (cases x1) (auto simp: AccrueInviteRebateForOrder_def)
  show ?thesis
  proof (cases "\<exists>i. af_InviterID a1 = Some i \<and> i > 0")
    case no: False
    then have "AccrueInviteRebateForOrder z cfg invitee base source s = (s1, Inr 0)"
      using False 1 a1 by (auto simp: AccrueInviteRebateForOrder_def not_less split: option.split)
    with assms k1 show ?thesis by simp
  next
    case True
    then obtain i where i: "af_InviterID a1 = Some i" "i > 0" by blast
    obtain s2 x2 where 2: "EnsureUserAffiliate i s1 = (s2, x2)" by fastforce
    note k2 = EnsureUserAffiliate_keeps [OF 2]
    obtain a2 where a2: "x2 = Inr a2"
      using assms False 1 a1 i 2 by (cases x2) (auto simp: AccrueInviteRebateForOrder_def)
    have s2: "same_but_affiliates s s2" "st_ledger s2 = st_ledger s"
      using k1 k2 same_but_affiliates_trans by auto
    let ?r = "rebateAmount cfg a2 i invitee base s2"
    obtain s3 ok where 3: "AccrueQuota i invitee ?r (rs_FreezeHours cfg) source s2 = (s3, ok)" by fastforce
    note k3 = AccrueQuota_ledger [OF 3]
    have "same_but_affiliates s s3" using s2(1) k3 same_but_affiliates_trans by blast
    then show ?thesis using assms False 1 a1 i 2 a2 3 k3 s2
      by (auto simp: AccrueInviteRebateForOrder_def Let_def split: if_splits)
  qed
qed

end
