(* ===== verification/RedeemService.thy ===== *)
theory RedeemService
  imports AffiliateRebate
begin

text \<open>
  \<^verbatim>\<open>backend/internal/service/redeem_service.go\<close>: creating, redeeming and deleting redeem codes.
  Redeeming is a program of calls to Redis and the database; the transaction that marks the code
  as used and grants its value is one call. Caches that are invalidated afterwards are left out.
\<close>

text \<open>
  What the services read but do not change: the time zone, the groups with their status, and the
  rebate settings, absent when there is no affiliate service; the key of the provider instance
  an order resolves to and of the provider registered for a payment type; and two functions of
  the standard library, \<^verbatim>\<open>strings.ToUpper\<close> and \<^verbatim>\<open>strings.EqualFold\<close>, which rest on the Unicode
  tables.
\<close>

record pay_env =
  pe_zone :: zone
  pe_groups :: "int \<Rightarrow> (Group \<times> string) option"
  pe_rebate :: "rebate_settings option"
  pe_instance_key :: "PaymentOrder \<Rightarrow> string option"
  pe_registry_key :: "string \<Rightarrow> string"
  pe_upper :: "string \<Rightarrow> string"
  pe_fold :: "string \<Rightarrow> string \<Rightarrow> bool"

definition redeemMaxFailedAttempts :: nat where "redeemMaxFailedAttempts = 30"
definition redeemLockDuration :: go_duration where "redeemLockDuration = 10 * second"

section \<open>Granting a code\<close>

text \<open>\<^verbatim>\<open>int(f)\<close> truncates towards zero.\<close>

definition go_trunc :: "rat \<Rightarrow> int" where
  "go_trunc v = (if v < 0 then - \<lfloor>- v\<rfloor> else \<lfloor>v\<rfloor>)"

definition lift_sub ::
  "store \<Rightarrow> 'a sub_result \<Rightarrow> store \<times> (pay_error + 'a)" where
  "lift_sub s r = (case r of
       (t, Inl e) \<Rightarrow> (s\<lparr>st_subs := t\<rparr>, Inl (SubscriptionFailed e))
     | (t, Inr x) \<Rightarrow> (s\<lparr>st_subs := t\<rparr>, Inr x))"

text \<open>A subscription that is created takes the next id.\<close>

definition assign_subscription ::
  "pay_env \<Rightarrow> AssignSubscriptionInput \<Rightarrow> store \<Rightarrow> store \<times> (pay_error + UserSubscription)" where
  "assign_subscription env inp s =
     then_tx (lift_sub s (assignOrExtendSubscription (pe_zone env) (map_option fst \<circ> pe_groups env)
         (st_subs s) (st_sub_ids s) (st_next_sub s) inp (st_clock s) (st_clock s)))
       (\<lambda>s (sub, reused).
          (if reused then s
           else s\<lparr>st_sub_ids := st_next_sub s # st_sub_ids s, st_next_sub := st_next_sub s + 1\<rparr>,
           Inr sub))"

definition redeemNotes :: "string \<Rightarrow> string" where
  "redeemNotes code =
     [CHR 0xE9, CHR 0x80, CHR 0x9A, CHR 0xE8, CHR 0xBF, CHR 0x87, CHR 0xE5, CHR 0x85, CHR 0x91,
      CHR 0xE6, CHR 0x8D, CHR 0xA2, CHR 0xE7, CHR 0xA0, CHR 0x81, CHR 0x20] @ code @
     [CHR 0x20, CHR 0xE5, CHR 0x85, CHR 0x91, CHR 0xE6, CHR 0x8D, CHR 0xA2]"

definition reduceNotes :: "string \<Rightarrow> int \<Rightarrow> string" where
  "reduceNotes code days =
     [CHR 0xE9, CHR 0x80, CHR 0x9A, CHR 0xE8, CHR 0xBF, CHR 0x87, CHR 0xE5, CHR 0x85, CHR 0x91,
      CHR 0xE6, CHR 0x8D, CHR 0xA2, CHR 0xE7, CHR 0xA0, CHR 0x81, CHR 0x20] @ code @
     [CHR 0x20, CHR 0xE9, CHR 0x80, CHR 0x80, CHR 0xE6, CHR 0xAC, CHR 0xBE, CHR 0xE6, CHR 0x89,
      CHR 0xA3, CHR 0xE5, CHR 0x87, CHR 0x8F, CHR 0x20] @ show_int days @
     [CHR 0x20, CHR 0xE5, CHR 0xA4, CHR 0xA9]"

text \<open>Any error of the first lookup counts as no subscription.\<close>

definition reduceOrCancelSubscription ::
  "pay_env \<Rightarrow> int \<Rightarrow> int \<Rightarrow> int \<Rightarrow> string \<Rightarrow> store \<Rightarrow> store \<times> (pay_error + unit)" where
  "reduceOrCancelSubscription env userID groupID reduceDays code s =
     (let now = st_clock s; t = st_subs s in
      case repo_GetByUserIDAndGroupID t (st_sub_ids s) userID groupID of
        Inl _ \<Rightarrow> (s, Inl (SubscriptionFailed ErrSubscriptionNotFound))
      | Inr sub \<Rightarrow>
          (case repo_GetByIDForUpdate t (ID sub) of
             Inl e \<Rightarrow> (s, Inl (SubscriptionFailed e))
           | Inr sub \<Rightarrow>
               let newExpiresAt = AddDate (pe_zone env) (ExpiresAt sub) (- reduceDays);
                   notes = reduceNotes code reduceDays
               in lift_sub s
                 (and_then
                   (if \<not> newExpiresAt > now
                    then and_then (repo_UpdateStatus t (ID sub) SubscriptionStatusExpired now)
                           (\<lambda>t _. repo_ExtendExpiry t (ID sub) now now)
                    else repo_ExtendExpiry t (ID sub) newExpiresAt now)
                   (\<lambda>t _. repo_UpdateNotes t (ID sub)
                      ((if Notes sub \<noteq> [] then Notes sub @ [CHR 0x0A] else Notes sub) @ notes) now))))"

definition grantCode :: "pay_env \<Rightarrow> RedeemCode \<Rightarrow> int \<Rightarrow> store \<Rightarrow> store \<times> (pay_error + unit)" where
  "grantCode env rc userID s =
     (if rc_Type rc = RedeemTypeBalance then
        (if rc_Value rc < 0 then user_ApplyRedeemBalanceAdjustment userID (rc_Value rc) s
         else user_UpdateBalance userID (rc_Value rc) s)
      else if rc_Type rc = RedeemTypeConcurrency then
        (let delta = go_trunc (rc_Value rc) in
         if delta < 0 then user_ApplyRedeemConcurrencyAdjustment userID delta s
         else user_UpdateConcurrency userID delta s)
      else if rc_Type rc = RedeemTypeSubscription then
        (case rc_GroupID rc of
           None \<Rightarrow> (s, Inl RedeemCodeInvalid)
         | Some g \<Rightarrow>
             if rc_ValidityDays rc < 0
             then reduceOrCancelSubscription env userID g (- rc_ValidityDays rc) (rc_Code rc) s
             else then_tx (assign_subscription env
                 \<lparr>in_UserID = userID, in_GroupID = g,
                  in_ValidityDays = (if rc_ValidityDays rc = 0 then 30 else rc_ValidityDays rc),
                  in_AssignedBy = 0, in_Notes = redeemNotes (rc_Code rc)\<rparr> s) (\<lambda>s _. (s, Inr ())))
      else (s, Inl UnsupportedRedeemType))"

text \<open>Mark the code as used, then grant it, in one transaction.\<close>

definition redeemTx :: "pay_env \<Rightarrow> RedeemCode \<Rightarrow> int \<Rightarrow> store \<Rightarrow> store \<times> (pay_error + unit)" where
  "redeemTx env rc userID =
     in_tx (\<lambda>s. then_tx (code_Use (rc_ID rc) userID s) (\<lambda>s _. grantCode env rc userID s))"

section \<open>Redeeming\<close>

definition checkRedeemRateLimit ::
  "bool \<Rightarrow> int \<Rightarrow> (bool \<Rightarrow> (store, 'a) prog) \<Rightarrow> (store, 'a) prog" where
  "checkRedeemRateLimit enforce userID k =
     (if \<not> enforce then k True
      else call (cache_GetRedeemAttemptCount userID) (\<lambda>c.
        k (case c of None \<Rightarrow> True | Some n \<Rightarrow> n < redeemMaxFailedAttempts)))"

definition incrementRedeemErrorCount ::
  "bool \<Rightarrow> int \<Rightarrow> (store, 'a) prog \<Rightarrow> (store, 'a) prog" where
  "incrementRedeemErrorCount enforce userID k =
     (if enforce then call (cache_IncrementRedeemAttemptCount userID) (\<lambda>_. k) else k)"

text \<open>An error of Redis does not stop the redemption.\<close>

definition acquireRedeemLock ::
  "string \<Rightarrow> (bool \<Rightarrow> (store, 'a) prog) \<Rightarrow> (store, 'a) prog" where
  "acquireRedeemLock code k =
     call (cache_AcquireRedeemLock code redeemLockDuration) (\<lambda>ok. k (ok \<noteq> Some False))"

text \<open>The rebate of the public path, whose failure does not matter.\<close>

definition tryAccrueAffiliateRebateForRedeem ::
  "pay_env \<Rightarrow> bool \<Rightarrow> RedeemCode \<Rightarrow> int \<Rightarrow> (store, 'a) prog \<Rightarrow> (store, 'a) prog" where
  "tryAccrueAffiliateRebateForRedeem env skip rc userID k =
     (if rc_Type rc = RedeemTypeBalance \<and> rc_Value rc > 0 \<and> \<not> skip then
        (case pe_rebate env of
           None \<Rightarrow> k
         | Some cfg \<Rightarrow> call (AccrueInviteRebateForOrder (pe_zone env) cfg userID (rc_Value rc) None)
             (\<lambda>_. k))
      else k)"

text \<open>The part of \<^verbatim>\<open>redeem\<close> that runs while the lock is held.\<close>

definition redeemLocked ::
  "pay_env \<Rightarrow> bool \<Rightarrow> bool \<Rightarrow> int \<Rightarrow> string \<Rightarrow> (store, pay_error + RedeemCode) prog" where
  "redeemLocked env enforce skip userID code =
     call (code_GetByCode code) (\<lambda>r. case r of
       None \<Rightarrow> Return (Inl StoreError)
     | Some None \<Rightarrow> incrementRedeemErrorCount enforce userID (Return (Inl ErrRedeemCodeNotFound))
     | Some (Some rc) \<Rightarrow> look st_clock (\<lambda>now.
         if rc_IsExpiredAt rc now
         then incrementRedeemErrorCount enforce userID (Return (Inl ErrRedeemCodeExpired))
         else look st_clock (\<lambda>now.
         if \<not> rc_CanUse rc now
         then incrementRedeemErrorCount enforce userID (Return (Inl ErrRedeemCodeUsed))
         else if rc_Type rc = RedeemTypeSubscription \<and> rc_GroupID rc = None
         then Return (Inl RedeemCodeInvalid)
         else if rc_Type rc \<notin> {RedeemTypeBalance, RedeemTypeConcurrency, RedeemTypeSubscription}
         then Return (Inl UnsupportedRedeemType)
         else call (\<lambda>s. (s, st_users s userID)) (\<lambda>u. case u of
             None \<Rightarrow> Return (Inl StoreError)
           | Some None \<Rightarrow> Return (Inl ErrUserNotFound)
           | Some (Some _) \<Rightarrow> call (redeemTx env rc userID) (\<lambda>x. case x of
               None \<Rightarrow> Return (Inl StoreError)
             | Some (Inl e) \<Rightarrow> Return (Inl e)
             | Some (Inr _) \<Rightarrow> tryAccrueAffiliateRebateForRedeem env skip rc userID
                 (call (code_GetByID (rc_ID rc)) (\<lambda>r. case r of
                    None \<Rightarrow> Return (Inl StoreError)
                  | Some None \<Rightarrow> Return (Inl ErrRedeemCodeNotFound)
                  | Some (Some rc) \<Rightarrow> Return (Inr rc))))))))"

definition redeem ::
  "pay_env \<Rightarrow> bool \<Rightarrow> bool \<Rightarrow> int \<Rightarrow> string \<Rightarrow> (store, pay_error + RedeemCode) prog" where
  "redeem env enforce skip userID code =
     checkRedeemRateLimit enforce userID (\<lambda>allowed.
       if \<not> allowed then Return (Inl ErrRedeemRateLimited)
       else acquireRedeemLock code (\<lambda>locked.
         if \<not> locked then Return (Inl ErrRedeemCodeLocked)
         else bindP (redeemLocked env enforce skip userID code)
           (\<lambda>res. call (cache_ReleaseRedeemLock code) (\<lambda>_. Return res))))"

definition Redeem :: "pay_env \<Rightarrow> int \<Rightarrow> string \<Rightarrow> (store, pay_error + RedeemCode) prog" where
  "Redeem env = redeem env True False"

definition redeemForPaymentFulfillment ::
  "pay_env \<Rightarrow> int \<Rightarrow> string \<Rightarrow> (store, pay_error + RedeemCode) prog" where
  "redeemForPaymentFulfillment env = redeem env False True"

definition RedeemForAdminFulfillment ::
  "pay_env \<Rightarrow> int \<Rightarrow> string \<Rightarrow> (store, pay_error + RedeemCode) prog" where
  "RedeemForAdminFulfillment env = redeem env False False"

section \<open>Creating and changing codes\<close>

definition CreateCode :: "RedeemCode \<Rightarrow> (store, pay_error option) prog" where
  "CreateCode code =
     (let code = code\<lparr>rc_Code := trim_space (rc_Code code)\<rparr> in
      if rc_Code code = [] then Return (Some CodeRequired)
      else
        let code = (if rc_Type code = [] then code\<lparr>rc_Type := RedeemTypeBalance\<rparr> else code) in
        if rc_Type code \<noteq> RedeemTypeInvitation \<and> rc_Value code = 0 then Return (Some ValueZero)
        else
          let code = (if rc_Status code = [] then code\<lparr>rc_Status := StatusUnused\<rparr> else code) in
          look st_clock (\<lambda>now.
            if rc_IsExpiredAt code now then Return (Some ErrRedeemCodeExpired)
            else call (code_Create code) (\<lambda>r. case r of
                None \<Rightarrow> Return (Some StoreError)
              | Some False \<Rightarrow> Return (Some RedeemCodeConflict)
              | Some True \<Rightarrow> Return None)))"

definition DeleteCode :: "int \<Rightarrow> (store, pay_error option) prog" where
  "DeleteCode i =
     call (code_GetByID i) (\<lambda>r. case r of
       None \<Rightarrow> Return (Some StoreError)
     | Some None \<Rightarrow> Return (Some ErrRedeemCodeNotFound)
     | Some (Some rc) \<Rightarrow>
         if rc_IsUsed rc then Return (Some RedeemCodeDeleteUsed)
         else call (\<lambda>s. (code_Delete i s, ())) (\<lambda>r.
           Return (if r = None then Some StoreError else None)))"

text \<open>
  The transaction of a batch update that sets the status: the rows are read by one statement and
  written by another, which does not look at their status again.
\<close>

definition BatchUpdateStatus :: "int list \<Rightarrow> string \<Rightarrow> (store, pay_error + nat) prog" where
  "BatchUpdateStatus ids status =
     (if ids = [] \<or> list_ex (\<lambda>i. i \<le> 0) ids \<or> (status \<noteq> StatusUnused \<and> status \<noteq> StatusDisabled) then Return (Inl RedeemCodeInvalid)
      else call (\<lambda>s. (s, filter (\<lambda>r. rc_ID r \<in> set ids) (st_codes s))) (\<lambda>existing.
        case existing of
          None \<Rightarrow> Return (Inl StoreError)
        | Some rows \<Rightarrow>
            if length rows \<noteq> length (remdups ids) then Return (Inl ErrRedeemCodeNotFound)
            else if list_ex rc_IsUsed rows then Return (Inl ErrRedeemCodeUsed)
            else call (code_Update (\<lambda>r. rc_ID r \<in> set ids) (\<lambda>r. r\<lparr>rc_Status := status\<rparr>))
              (\<lambda>n. case n of None \<Rightarrow> Return (Inl StoreError) | Some n \<Rightarrow> Return (Inr n))))"

end
