(* ===== verification/PaymentFulfillment.thy ===== *)
theory PaymentFulfillment
  imports RedeemService
begin

text \<open>
  \<^verbatim>\<open>backend/internal/service/payment_fulfillment.go\<close>, from the lease on: how a paid order is
  credited. Every function is a program of database calls; a function that only returns an
  error is a program of an optional error. E-mails are left out.
\<close>

definition paymentFulfillmentLeaseDuration :: go_duration where
  "paymentFulfillmentLeaseDuration = 5 * minute"

section \<open>The lease\<close>

text \<open>
  Only one worker moves the order to \<^verbatim>\<open>RECHARGING\<close>; the stored \<^verbatim>\<open>updated_at\<close> is the version of
  its lease, and a lease of five minutes is stale. \<open>Inr None\<close> is an order that is completed.
\<close>

definition acquirePaymentFulfillmentLease ::
  "int \<Rightarrow> (store, pay_error + go_time option) prog" where
  "acquirePaymentFulfillmentLease oid = look st_clock (\<lambda>clock.
     let now = micros clock; staleBefore = now - paymentFulfillmentLeaseDuration in
     call (order_Update oid
         (\<lambda>od. po_Status od = OrderStatusPaid \<or> po_Status od = OrderStatusFailed \<or>
            (po_Status od = OrderStatusRecharging \<and> po_UpdatedAt od \<le> staleBefore))
         (\<lambda>od. od\<lparr>po_Status := OrderStatusRecharging, po_UpdatedAt := now, po_FailedAt := None,
                  po_FailedReason := None\<rparr>))
       (\<lambda>updated. case updated of
          None \<Rightarrow> Return (Inl StoreError)
        | Some n \<Rightarrow>
            if n = 0 then call (order_Get oid) (\<lambda>current. case current of
                Some (Some od) \<Rightarrow> Return (if po_Status od = OrderStatusCompleted then Inr None
                  else Inl LeaseConflict)
              | _ \<Rightarrow> Return (Inl StoreError))
            else call (order_Get oid) (\<lambda>claimed. case claimed of
                Some (Some od) \<Rightarrow> Return (if po_Status od \<noteq> OrderStatusRecharging then Inl LeaseConflict
                  else Inr (Some (po_UpdatedAt od)))
              | _ \<Rightarrow> Return (Inl StoreError))))"

text \<open>Both ends of the lease are conditional on its version.\<close>

definition holds_lease :: "go_time \<Rightarrow> PaymentOrder \<Rightarrow> bool" where
  "holds_lease version od \<longleftrightarrow> po_Status od = OrderStatusRecharging \<and> po_UpdatedAt od = version"

definition markCompleted :: "int \<Rightarrow> go_time \<Rightarrow> string \<Rightarrow> (store, pay_error option) prog" where
  "markCompleted oid version auditAction = look st_clock (\<lambda>now.
     call (order_Update oid (holds_lease version)
         (\<lambda>od. od\<lparr>po_Status := OrderStatusCompleted, po_CompletedAt := Some now\<rparr>))
       (\<lambda>updated. case updated of
          None \<Rightarrow> Return (Some StoreError)
        | Some n \<Rightarrow>
            if n = 0 then call (order_Get oid) (\<lambda>current. case current of
                Some (Some od) \<Rightarrow> Return (if po_Status od = OrderStatusCompleted then None
                  else Some LeaseConflict)
              | _ \<Rightarrow> Return (Some LeaseConflict))
            else hasAuditLog oid auditAction (\<lambda>logged.
              if logged then Return None
              else writeAuditLog oid auditAction ''system'' (Return None))))"

definition markFailed :: "int \<Rightarrow> go_time \<Rightarrow> pay_error \<Rightarrow> (store, unit) prog" where
  "markFailed oid version cause = look st_clock (\<lambda>now.
     call (order_Update oid (holds_lease version)
         (\<lambda>od. od\<lparr>po_Status := OrderStatusFailed, po_FailedAt := Some now,
                  po_FailedReason := Some cause\<rparr>))
       (\<lambda>c. case c of
          Some (Suc _) \<Rightarrow> writeAuditLog oid ''FULFILLMENT_FAILED'' ''system'' (Return ())
        | _ \<Rightarrow> Return ()))"

section \<open>The rebate of the inviter\<close>

definition affiliateRebateBaseAmount :: "PaymentOrder \<Rightarrow> rat" where
  "affiliateRebateBaseAmount od =
     (if po_OrderType od = OrderTypeBalance \<or> po_OrderType od = OrderTypeSubscription
      then po_Amount od else 0)"

text \<open>Claim the rebate of the order by its audit row, unless it is applied or skipped already.\<close>

definition tryClaimAffiliateRebateAudit :: "int \<Rightarrow> store \<Rightarrow> store \<times> bool" where
  "tryClaimAffiliateRebateAudit oid s =
     (if has_audit oid ''AFFILIATE_REBATE_APPLIED'' s \<or> has_audit oid ''AFFILIATE_REBATE_SKIPPED'' s
      then (s, False)
      else audit_Create oid ''AFFILIATE_REBATE_APPLIED'' ''system'' s)"

definition updateClaimedAffiliateRebateAudit ::
  "int \<Rightarrow> string \<Rightarrow> store \<Rightarrow> store \<times> (pay_error + unit)" where
  "updateClaimedAffiliateRebateAudit oid action s =
     (if \<not> has_audit oid ''AFFILIATE_REBATE_APPLIED'' s then (s, Inl NoAffiliateClaim)
      else (s\<lparr>st_audit := map (\<lambda>a. if au_OrderID a = oid \<and> au_Action a = ''AFFILIATE_REBATE_APPLIED''
              then a\<lparr>au_Action := action, au_Operator := ''system''\<rparr> else a) (st_audit s)\<rparr>, Inr ()))"

text \<open>The transaction: claim, accrue, and record what came of it.\<close>

definition rebateTx ::
  "pay_env \<Rightarrow> rebate_settings \<Rightarrow> int \<Rightarrow> int \<Rightarrow> rat \<Rightarrow> store \<Rightarrow> store \<times> (pay_error + unit)" where
  "rebateTx env cfg oid userID base = in_tx (\<lambda>s.
     let (t, claimed) = tryClaimAffiliateRebateAudit oid s in
     if \<not> claimed then (s, Inr ())
     else then_tx (AccrueInviteRebateForOrder (pe_zone env) cfg userID base (Some oid) t) (\<lambda>t rebate.
       updateClaimedAffiliateRebateAudit oid
         (if rebate \<le> 0 then ''AFFILIATE_REBATE_SKIPPED'' else ''AFFILIATE_REBATE_APPLIED'') t))"

definition applyAffiliateRebateForOrder ::
  "pay_env \<Rightarrow> PaymentOrder \<Rightarrow> (store, pay_error option) prog" where
  "applyAffiliateRebateForOrder env od =
     (let base = affiliateRebateBaseAmount od in
      if base \<le> 0 then Return None
      else case pe_rebate env of
        None \<Rightarrow> Return None
      | Some cfg \<Rightarrow> call (rebateTx env cfg (po_ID od) (po_UserID od) base) (\<lambda>r. case r of
            None \<Rightarrow> writeAuditLog (po_ID od) ''AFFILIATE_REBATE_FAILED'' ''system'' (Return (Some StoreError))
          | Some (Inl e) \<Rightarrow> writeAuditLog (po_ID od) ''AFFILIATE_REBATE_FAILED'' ''system'' (Return (Some e))
          | Some (Inr _) \<Rightarrow> Return None))"

section \<open>Balance orders\<close>

datatype redeemAction = redeemActionCreate | redeemActionRedeem | redeemActionSkipCompleted

text \<open>\<^const>\<open>None\<close> is an error of the lookup other than a code that is not found.\<close>

definition resolveRedeemAction :: "RedeemCode option option \<Rightarrow> redeemAction option" where
  "resolveRedeemAction lookup =
     (case lookup of
        None \<Rightarrow> None
      | Some None \<Rightarrow> Some redeemActionCreate
      | Some (Some existing) \<Rightarrow>
          Some (if rc_IsUsed existing then redeemActionSkipCompleted else redeemActionRedeem))"

definition validatePaymentRedeemCode :: "PaymentOrder \<Rightarrow> RedeemCode \<Rightarrow> pay_error option" where
  "validatePaymentRedeemCode od code =
     (if rc_Code code \<noteq> po_RechargeCode od then Some RedeemCodeMismatch
      else if rc_Type code \<noteq> RedeemTypeBalance then Some RedeemCodeMismatch
      else if \<bar>rc_Value code - po_Amount od\<bar> > 1 / 10 ^ 8 then Some RedeemCodeMismatch
      else if rc_Status code = StatusUnused
      then (if rc_UsedBy code \<noteq> None then Some RedeemCodeMismatch else None)
      else if rc_Status code = StatusUsed
      then (if rc_UsedBy code \<noteq> Some (po_UserID od) then Some RedeemCodeMismatch else None)
      else Some RedeemCodeMismatch)"

definition paymentRedeemCode :: "PaymentOrder \<Rightarrow> RedeemCode" where
  "paymentRedeemCode od =
     \<lparr>rc_ID = 0, rc_Code = po_RechargeCode od, rc_Type = RedeemTypeBalance, rc_Value = po_Amount od,
      rc_Status = StatusUnused, rc_UsedBy = None, rc_UsedAt = None, rc_ExpiresAt = None,
      rc_GroupID = None, rc_ValidityDays = 0\<rparr>"

text \<open>Run a step; its error ends the function.\<close>

definition try_then ::
  "('s, pay_error option) prog \<Rightarrow> ('s, pay_error option) prog \<Rightarrow> ('s, pay_error option) prog" where
  "try_then p q = bindP p (\<lambda>e. case e of None \<Rightarrow> q | Some e \<Rightarrow> Return (Some e))"

definition rebateAndComplete ::
  "pay_env \<Rightarrow> PaymentOrder \<Rightarrow> go_time \<Rightarrow> string \<Rightarrow> (store, pay_error option) prog" where
  "rebateAndComplete env od version action =
     try_then (applyAffiliateRebateForOrder env od) (markCompleted (po_ID od) version action)"

definition redeemForOrder :: "pay_env \<Rightarrow> PaymentOrder \<Rightarrow> (store, pay_error option) prog" where
  "redeemForOrder env od =
     bindP (redeemForPaymentFulfillment env (po_UserID od) (po_RechargeCode od))
       (\<lambda>r. Return (case r of Inl e \<Rightarrow> Some e | Inr _ \<Rightarrow> None))"

definition doBalance ::
  "pay_env \<Rightarrow> PaymentOrder \<Rightarrow> go_time \<Rightarrow> (store, pay_error option) prog" where
  "doBalance env od version =
     call (code_GetByCode (po_RechargeCode od)) (\<lambda>lookup.
       case resolveRedeemAction lookup of
         None \<Rightarrow> Return (Some StoreError)
       | Some action \<Rightarrow>
           (case (case lookup of Some (Some existing) \<Rightarrow> validatePaymentRedeemCode od existing
                  | _ \<Rightarrow> None) of
              Some e \<Rightarrow> Return (Some e)
            | None \<Rightarrow>
                let finish = rebateAndComplete env od version ''RECHARGE_SUCCESS'' in
                (case action of
                   redeemActionSkipCompleted \<Rightarrow> finish
                 | redeemActionCreate \<Rightarrow>
                     try_then (CreateCode (paymentRedeemCode od)) (try_then (redeemForOrder env od) finish)
                 | redeemActionRedeem \<Rightarrow> try_then (redeemForOrder env od) finish)))"

section \<open>Subscription orders\<close>

definition paymentSubscriptionOrderNote :: "int \<Rightarrow> string" where
  "paymentSubscriptionOrderNote oid = ''payment order '' @ show_int oid"

text \<open>\<^verbatim>\<open>strings.ReplaceAll(notes, "\r\n", "\n")\<close> and \<^verbatim>\<open>strings.Split(notes, "\n")\<close>.\<close>

fun crlf_to_lf :: "string \<Rightarrow> string" where
  "crlf_to_lf (a # b # s) =
     (if a = CHR 0x0D \<and> b = CHR 0x0A then CHR 0x0A # crlf_to_lf s else a # crlf_to_lf (b # s))"
| "crlf_to_lf s = s"

fun split_lines :: "string \<Rightarrow> string list" where
  "split_lines [] = [[]]"
| "split_lines (c # s) =
     (if c = CHR 0x0A then [] # split_lines s
      else case split_lines s of [] \<Rightarrow> [[c]] | l # ls \<Rightarrow> (c # l) # ls)"

definition hasPaymentSubscriptionOrderNote :: "string \<Rightarrow> string \<Rightarrow> bool" where
  "hasPaymentSubscriptionOrderNote notes orderNote \<longleftrightarrow>
     list_ex (\<lambda>line. trim_space line = orderNote) (split_lines (crlf_to_lf notes))"

definition hasPaymentSubscriptionAssignmentAudit :: "int \<Rightarrow> store \<Rightarrow> bool" where
  "hasPaymentSubscriptionAssignmentAudit oid s \<longleftrightarrow>
     has_audit oid ''SUBSCRIPTION_ASSIGNED'' s \<or> has_audit oid ''SUBSCRIPTION_SUCCESS'' s"

text \<open>
  The transaction that assigns the days of an order once. Two of them for one order are
  serialised by the unique audit row: the one that commits second fails to insert it, rolls back
  and takes the row of the first for its own, which is what it does when it runs second here.
\<close>

definition assignmentTx ::
  "pay_env \<Rightarrow> PaymentOrder \<Rightarrow> int \<Rightarrow> int \<Rightarrow> store \<Rightarrow> store \<times> (pay_error + unit)" where
  "assignmentTx env od groupID days = in_tx (\<lambda>s.
     if hasPaymentSubscriptionAssignmentAudit (po_ID od) s then (s, Inr ())
     else
       let orderNote = paymentSubscriptionOrderNote (po_ID od);
           assign = then_tx (assign_subscription env
             \<lparr>in_UserID = po_UserID od, in_GroupID = groupID, in_ValidityDays = days,
              in_AssignedBy = 0, in_Notes = orderNote\<rparr> s) (\<lambda>s _. (s, Inr ()));
           step =
             (case repo_GetByUserIDAndGroupID (st_subs s) (st_sub_ids s) (po_UserID od) groupID of
                Inr existing \<Rightarrow>
                  if hasPaymentSubscriptionOrderNote (Notes existing) orderNote then (s, Inr ())
                  else assign
              | Inl e \<Rightarrow> if e \<noteq> ErrSubscriptionNotFound then (s, Inl (SubscriptionFailed e)) else assign)
       in then_tx step (\<lambda>s _.
            let (s, ok) = audit_Create (po_ID od) ''SUBSCRIPTION_ASSIGNED'' ''system'' s
            in (s, if ok then Inr () else Inl StoreError)))"

text \<open>The caches are invalidated afterwards, which may fail.\<close>

definition ensurePaymentSubscriptionAssigned ::
  "pay_env \<Rightarrow> PaymentOrder \<Rightarrow> int \<Rightarrow> int \<Rightarrow> (store, pay_error option) prog" where
  "ensurePaymentSubscriptionAssigned env od groupID days =
     call (assignmentTx env od groupID days) (\<lambda>r. case r of
       None \<Rightarrow> Return (Some StoreError)
     | Some (Inl e) \<Rightarrow> Return (Some e)
     | Some (Inr _) \<Rightarrow> call (\<lambda>s. (s, ())) (\<lambda>r. Return (if r = None then Some StoreError else None)))"

definition EntityStatusActive :: string where "EntityStatusActive = ''active''"

definition doSub ::
  "pay_env \<Rightarrow> PaymentOrder \<Rightarrow> int \<Rightarrow> int \<Rightarrow> go_time \<Rightarrow> (store, pay_error option) prog" where
  "doSub env od gid days version =
     call (\<lambda>s. (s, pe_groups env gid)) (\<lambda>g. case g of
       Some (Some (_, status)) \<Rightarrow>
         if status \<noteq> EntityStatusActive then Return (Some GroupUnavailable)
         else try_then (ensurePaymentSubscriptionAssigned env od gid days)
           (rebateAndComplete env od version ''SUBSCRIPTION_SUCCESS'')
     | _ \<Rightarrow> Return (Some GroupUnavailable))"

section \<open>Fulfilling an order\<close>

text \<open>Run the body under the lease; an error marks the order as failed.\<close>

definition under_lease ::
  "int \<Rightarrow> (go_time \<Rightarrow> (store, pay_error option) prog) \<Rightarrow> (store, pay_error option) prog" where
  "under_lease oid body =
     bindP (acquirePaymentFulfillmentLease oid) (\<lambda>l. case l of
       Inl e \<Rightarrow> Return (Some e)
     | Inr None \<Rightarrow> Return None
     | Inr (Some version) \<Rightarrow> bindP (body version) (\<lambda>r. case r of
         None \<Rightarrow> Return None
       | Some e \<Rightarrow> bindP (markFailed oid version e) (\<lambda>_. Return (Some e))))"

definition fulfillable :: "PaymentOrder \<Rightarrow> pay_error option option" where
  "fulfillable od =
     (if po_Status od = OrderStatusCompleted then Some None
      else if psIsRefundStatus (po_Status od) then Some (Some InvalidStatus)
      else if po_Status od \<noteq> OrderStatusPaid \<and> po_Status od \<noteq> OrderStatusFailed \<and>
              po_Status od \<noteq> OrderStatusRecharging then Some (Some InvalidStatus)
      else None)"

definition ExecuteBalanceFulfillment :: "pay_env \<Rightarrow> int \<Rightarrow> (store, pay_error option) prog" where
  "ExecuteBalanceFulfillment env oid =
     call (order_Get oid) (\<lambda>r. case r of
       Some (Some od) \<Rightarrow>
         (case fulfillable od of
            Some res \<Rightarrow> Return res
          | None \<Rightarrow> under_lease oid (doBalance env od))
     | _ \<Rightarrow> Return (Some NotFound))"

definition ExecuteSubscriptionFulfillment :: "pay_env \<Rightarrow> int \<Rightarrow> (store, pay_error option) prog" where
  "ExecuteSubscriptionFulfillment env oid =
     call (order_Get oid) (\<lambda>r. case r of
       Some (Some od) \<Rightarrow>
         (case fulfillable od of
            Some res \<Rightarrow> Return res
          | None \<Rightarrow>
              (case (po_SubscriptionGroupID od, po_SubscriptionDays od) of
                 (Some gid, Some days) \<Rightarrow> under_lease oid (doSub env od gid days)
               | _ \<Rightarrow> Return (Some MissingSubscriptionInfo)))
     | _ \<Rightarrow> Return (Some NotFound))"

definition executeFulfillment :: "pay_env \<Rightarrow> int \<Rightarrow> (store, pay_error option) prog" where
  "executeFulfillment env oid =
     call (order_Get oid) (\<lambda>r. case r of
       Some (Some od) \<Rightarrow>
         if po_OrderType od = OrderTypeSubscription then ExecuteSubscriptionFulfillment env oid
         else ExecuteBalanceFulfillment env oid
     | _ \<Rightarrow> Return (Some StoreError))"

definition RetryFulfillment :: "pay_env \<Rightarrow> int \<Rightarrow> (store, pay_error option) prog" where
  "RetryFulfillment env oid =
     call (order_Get oid) (\<lambda>r. case r of
       Some (Some od) \<Rightarrow>
         if po_PaidAt od = None then Return (Some InvalidStatus)
         else if psIsRefundStatus (po_Status od) then Return (Some InvalidStatus)
         else if po_Status od = OrderStatusCompleted then Return (Some InvalidStatus)
         else if po_Status od \<noteq> OrderStatusFailed \<and> po_Status od \<noteq> OrderStatusPaid \<and>
                 po_Status od \<noteq> OrderStatusRecharging then Return (Some InvalidStatus)
         else writeAuditLog oid ''RECHARGE_RETRY'' ''admin'' (executeFulfillment env oid)
     | _ \<Rightarrow> Return (Some NotFound))"

end
