(* ===== verification/PaymentLifecycle.thy ===== *)
theory PaymentLifecycle
  imports PaymentFulfillment
begin

text \<open>
  How an order becomes paid, cancelled or expired: the notification half of
  \<^verbatim>\<open>payment_fulfillment.go\<close>, \<^verbatim>\<open>payment_order_lifecycle.go\<close> and the checks of
  \<^verbatim>\<open>payment_order_provider_snapshot.go\<close> and \<^verbatim>\<open>backend/internal/payment/currency.go\<close>. What a
  provider answers to a query is an argument of the programs, so that they run under any answer.
\<close>

section \<open>Currencies\<close>

definition char_between :: "char \<Rightarrow> char \<Rightarrow> char \<Rightarrow> bool" where
  "char_between a c z \<longleftrightarrow> (of_char a :: nat) \<le> of_char c \<and> (of_char c :: nat) \<le> of_char z"

definition DefaultPaymentCurrency :: string where "DefaultPaymentCurrency = ''CNY''"

definition NormalizePaymentCurrency :: "(string \<Rightarrow> string) \<Rightarrow> string \<Rightarrow> string option" where
  "NormalizePaymentCurrency upper raw =
     (let currency = upper (trim_space raw) in
      if currency = [] then Some DefaultPaymentCurrency
      else if length currency \<noteq> 3 then None
      else if list_all (\<lambda>ch. char_between CHR ''A'' ch CHR ''Z'') currency then Some currency
      else None)"

text \<open>The minor unit of the providers' interfaces and the digits an amount may have.\<close>

definition paymentCurrencyAmountUnits :: "string \<Rightarrow> (nat \<times> nat) option" where
  "paymentCurrencyAmountUnits c =
     (if c \<in> {''BIF'', ''CLP'', ''DJF'', ''GNF'', ''JPY'', ''KMF'', ''KRW'', ''MGA'', ''PYG'',
              ''RWF'', ''VND'', ''VUV'', ''XAF'', ''XOF'', ''XPF''} then Some (0, 0)
      else if c \<in> {''ISK'', ''UGX''} then Some (2, 0)
      else if c \<in> {''BHD'', ''IQD'', ''JOD'', ''KWD'', ''LYD'', ''OMR'', ''TND''} then Some (3, 3)
      else None)"

definition paymentCurrencyAmountUnitFor :: "(string \<Rightarrow> string) \<Rightarrow> string \<Rightarrow> nat \<times> nat" where
  "paymentCurrencyAmountUnitFor upper currency =
     (case NormalizePaymentCurrency upper currency of
        None \<Rightarrow> (2, 2)
      | Some c \<Rightarrow> (case paymentCurrencyAmountUnits c of None \<Rightarrow> (2, 2) | Some u \<Rightarrow> u))"

definition CurrencyMinorUnit :: "(string \<Rightarrow> string) \<Rightarrow> string \<Rightarrow> nat" where
  "CurrencyMinorUnit upper currency = fst (paymentCurrencyAmountUnitFor upper currency)"

definition PaymentOrderCurrency :: "(string \<Rightarrow> string) \<Rightarrow> PaymentOrder \<Rightarrow> string" where
  "PaymentOrderCurrency upper od =
     (case po_ProviderSnapshot od of
        None \<Rightarrow> DefaultPaymentCurrency
      | Some snap \<Rightarrow> (case NormalizePaymentCurrency upper (ps_Currency snap) of
            None \<Rightarrow> DefaultPaymentCurrency | Some c \<Rightarrow> c))"

definition amountToleranceCNY :: rat where "amountToleranceCNY = 1 / 100"

definition paymentAmountToleranceForCurrency :: "(string \<Rightarrow> string) \<Rightarrow> string \<Rightarrow> rat" where
  "paymentAmountToleranceForCurrency upper currency =
     (let minorUnit = CurrencyMinorUnit upper currency in
      if minorUnit \<le> 2 then amountToleranceCNY else 1 / 10 ^ minorUnit / 2)"

text \<open>An amount a provider reports is a number, or a NaN or an infinity.\<close>

datatype go_float = Finite rat | NotFinite

definition isValidProviderAmount :: "go_float \<Rightarrow> bool" where
  "isValidProviderAmount amount \<longleftrightarrow> (case amount of Finite a \<Rightarrow> a > 0 | NotFinite \<Rightarrow> False)"

section \<open>Which provider may report on an order\<close>

definition expectedNotificationProviderKey ::
  "(string \<Rightarrow> string) \<Rightarrow> string \<Rightarrow> string \<Rightarrow> string \<Rightarrow> string" where
  "expectedNotificationProviderKey registry orderPaymentType orderProviderKey instanceProviderKey =
     (if trim_space instanceProviderKey \<noteq> [] then trim_space instanceProviderKey
      else if trim_space orderProviderKey \<noteq> [] then trim_space orderProviderKey
      else if trim_space (registry orderPaymentType) \<noteq> [] then trim_space (registry orderPaymentType)
      else trim_space orderPaymentType)"

definition psStringValue :: "string option \<Rightarrow> string" where
  "psStringValue v = (case v of None \<Rightarrow> [] | Some s \<Rightarrow> s)"

definition expectedNotificationProviderKeyForOrder ::
  "(string \<Rightarrow> string) \<Rightarrow> PaymentOrder \<Rightarrow> string \<Rightarrow> string" where
  "expectedNotificationProviderKeyForOrder registry od instanceProviderKey =
     (let orderProviderKey =
        (case po_ProviderSnapshot od of
           Some snap \<Rightarrow> if ps_ProviderKey snap \<noteq> [] then ps_ProviderKey snap
             else psStringValue (po_ProviderKey od)
         | None \<Rightarrow> psStringValue (po_ProviderKey od))
      in expectedNotificationProviderKey registry (po_PaymentType od) orderProviderKey instanceProviderKey)"

definition metadata_value :: "(string \<times> string) list \<Rightarrow> string \<Rightarrow> string" where
  "metadata_value md k = (case map_of md k of None \<Rightarrow> [] | Some v \<Rightarrow> trim_space v)"

text \<open>What the snapshot expects must be reported, and be equal up to case.\<close>

definition snapshot_agrees :: "(string \<Rightarrow> string \<Rightarrow> bool) \<Rightarrow> string \<Rightarrow> string \<Rightarrow> bool" where
  "snapshot_agrees equalFold expected actual \<longleftrightarrow>
     trim_space expected = [] \<or> (actual \<noteq> [] \<and> equalFold (trim_space expected) actual)"

definition TypeAlipay :: string where "TypeAlipay = ''alipay''"
definition TypeWxpay :: string where "TypeWxpay = ''wxpay''"
definition TypeStripe :: string where "TypeStripe = ''stripe''"
definition TypeCard :: string where "TypeCard = ''card''"
definition TypeLink :: string where "TypeLink = ''link''"
definition TypeEasyPay :: string where "TypeEasyPay = ''easypay''"
definition TypeAirwallex :: string where "TypeAirwallex = ''airwallex''"

definition GetBasePaymentType :: "string \<Rightarrow> string" where
  "GetBasePaymentType t =
     (if t = TypeEasyPay then TypeEasyPay
      else if t = TypeAirwallex then TypeAirwallex
      else if t = TypeStripe \<or> t = TypeCard \<or> t = TypeLink then TypeStripe
      else if has_prefix t TypeAlipay then TypeAlipay
      else if has_prefix t TypeWxpay then TypeWxpay
      else t)"

definition validateProviderSnapshotMetadata ::
  "pay_env \<Rightarrow> PaymentOrder \<Rightarrow> string \<Rightarrow> (string \<times> string) list \<Rightarrow> bool" where
  "validateProviderSnapshotMetadata env od providerKey md \<longleftrightarrow>
     (if md = [] then True
      else case po_ProviderSnapshot od of
        None \<Rightarrow> True
      | Some snap \<Rightarrow>
          let agrees = snapshot_agrees (pe_fold env); key = trim_space providerKey;
              currency = pe_upper env (metadata_value md ''currency'')
          in if key = TypeWxpay then
               agrees (ps_MerchantAppID snap) (metadata_value md ''appid'') \<and>
               agrees (ps_MerchantID snap) (metadata_value md ''mchid'') \<and>
               agrees (ps_Currency snap) currency \<and>
               (metadata_value md ''trade_state'' = [] \<or>
                pe_fold env (metadata_value md ''trade_state'') ''SUCCESS'')
             else if key = TypeAlipay then
               agrees (ps_MerchantAppID snap) (metadata_value md ''app_id'')
             else if key = TypeEasyPay then
               agrees (ps_MerchantID snap) (metadata_value md ''pid'')
             else if key = TypeStripe then
               agrees (ps_Currency snap) currency
             else if key = TypeAirwallex then
               agrees (ps_MerchantID snap) (metadata_value md ''account_id'') \<and>
               agrees (ps_Currency snap) currency \<and>
               (metadata_value md ''status'' = [] \<or>
                pe_fold env (metadata_value md ''status'') ''SUCCEEDED'')
             else True)"

section \<open>Notifications\<close>

definition paymentGraceMinutes :: int where "paymentGraceMinutes = 5"

definition alreadyProcessed :: "pay_env \<Rightarrow> int \<Rightarrow> (store, pay_error option) prog" where
  "alreadyProcessed env oid =
     call (order_Get oid) (\<lambda>cur. case cur of
       Some (Some od) \<Rightarrow>
         if po_Status od = OrderStatusCompleted \<or> po_Status od = OrderStatusRefunded then Return None
         else if po_Status od = OrderStatusFailed \<or> po_Status od = OrderStatusPaid \<or>
                 po_Status od = OrderStatusRecharging then executeFulfillment env oid
         else if po_Status od = OrderStatusExpired
         then writeAuditLog oid ''PAYMENT_AFTER_EXPIRY'' ''system'' (Return None)
         else Return None
     | _ \<Rightarrow> Return None)"

definition toPaid ::
  "pay_env \<Rightarrow> PaymentOrder \<Rightarrow> string \<Rightarrow> rat \<Rightarrow> string \<Rightarrow> (store, pay_error option) prog" where
  "toPaid env od tradeNo paid pk = look st_clock (\<lambda>now.
     let grace = micros (now - paymentGraceMinutes * minute); oid = po_ID od in
     call (order_Update oid
         (\<lambda>r. po_Status r = OrderStatusPending \<or> po_Status r = OrderStatusCancelled \<or>
            (po_Status r = OrderStatusExpired \<and> po_UpdatedAt r \<ge> grace))
         (\<lambda>r. r\<lparr>po_Status := OrderStatusPaid, po_PayAmount := paid, po_PaymentTradeNo := tradeNo,
                 po_PaidAt := Some now, po_FailedAt := None, po_FailedReason := None\<rparr>))
       (\<lambda>c. case c of
          None \<Rightarrow> Return (Some StoreError)
        | Some n \<Rightarrow>
            if n = 0 then alreadyProcessed env oid
            else
              let go_on = writeAuditLog oid ''ORDER_PAID'' pk (executeFulfillment env oid) in
              if po_Status od = OrderStatusCancelled \<or> po_Status od = OrderStatusExpired
              then writeAuditLog oid ''ORDER_RECOVERED'' pk go_on
              else go_on))"

definition confirmPayment ::
  "pay_env \<Rightarrow> int \<Rightarrow> string \<Rightarrow> go_float \<Rightarrow> string \<Rightarrow> (string \<times> string) list \<Rightarrow>
     (store, pay_error option) prog" where
  "confirmPayment env oid tradeNo paid pk md =
     call (order_Get oid) (\<lambda>r. case r of
       Some (Some od) \<Rightarrow>
         call (\<lambda>s. (s, pe_instance_key env od)) (\<lambda>i.
           let instanceProviderKey = (case i of Some (Some k) \<Rightarrow> k | _ \<Rightarrow> []);
               expected = expectedNotificationProviderKeyForOrder (pe_registry_key env) od
                 instanceProviderKey
           in if expected \<noteq> [] \<and> trim_space pk \<noteq> [] \<and> \<not> pe_fold env expected (trim_space pk)
              then writeAuditLog oid ''PAYMENT_PROVIDER_MISMATCH'' pk (Return (Some ProviderMismatch))
              else if \<not> validateProviderSnapshotMetadata env od pk md
              then writeAuditLog oid ''PAYMENT_PROVIDER_METADATA_MISMATCH'' pk
                (Return (Some MetadataMismatch))
              else case paid of
                NotFinite \<Rightarrow> writeAuditLog oid ''PAYMENT_INVALID_AMOUNT'' pk
                  (Return (Some InvalidPaidAmount))
              | Finite amount \<Rightarrow>
                  if \<not> amount > 0
                  then writeAuditLog oid ''PAYMENT_INVALID_AMOUNT'' pk (Return (Some InvalidPaidAmount))
                  else if \<bar>amount - po_PayAmount od\<bar> >
                    paymentAmountToleranceForCurrency (pe_upper env)
                      (PaymentOrderCurrency (pe_upper env) od)
                  then writeAuditLog oid ''PAYMENT_AMOUNT_MISMATCH'' pk (Return (Some AmountMismatch))
                  else toPaid env od tradeNo amount pk)
     | _ \<Rightarrow> Return None)"

text \<open>\<^verbatim>\<open>strconv.ParseInt(s, 10, 64)\<close> of a string that holds no underscore.\<close>

definition parse_digits :: "string \<Rightarrow> int option" where
  "parse_digits s =
     (if s = [] \<or> \<not> list_all (\<lambda>c. char_between CHR ''0'' c CHR ''9'') s then None
      else Some (foldl (\<lambda>n c. 10 * n + (of_char c - 48)) 0 s))"

definition parse_int64 :: "string \<Rightarrow> int option" where
  "parse_int64 s =
     (let v = (if has_prefix s ''-'' then map_option uminus (parse_digits (drop 1 s))
               else if has_prefix s ''+'' then parse_digits (drop 1 s) else parse_digits s)
      in case v of
           None \<Rightarrow> None
         | Some n \<Rightarrow> if - (2 ^ 63) \<le> n \<and> n < 2 ^ 63 then Some n else None)"

definition orderIDPrefix :: string where "orderIDPrefix = ''sub2_''"

definition parseLegacyPaymentOrderID :: "string \<Rightarrow> int option" where
  "parseLegacyPaymentOrderID orderID =
     (case cut_prefix (trim_space orderID) orderIDPrefix of
        None \<Rightarrow> None
      | Some trimmed \<Rightarrow>
          if trimmed = [] then None
          else case parse_int64 trimmed of None \<Rightarrow> None | Some oid \<Rightarrow> if oid \<le> 0 then None else Some oid)"

record PaymentNotification =
  pn_TradeNo :: string
  pn_OrderID :: string
  pn_Amount :: go_float
  pn_Status :: string
  pn_Metadata :: "(string \<times> string) list"

definition NotificationStatusSuccess :: string where "NotificationStatusSuccess = ''success''"

text \<open>\<^verbatim>\<open>Only\<close> fails when there are several rows, which the unique index rules out.\<close>

definition HandlePaymentNotification ::
  "pay_env \<Rightarrow> PaymentNotification \<Rightarrow> string \<Rightarrow> (store, pay_error option) prog" where
  "HandlePaymentNotification env n pk =
     (if pn_Status n \<noteq> NotificationStatusSuccess then Return None
      else call (order_ByOutTradeNo (pn_OrderID n)) (\<lambda>r. case r of
          None \<Rightarrow> Return (Some StoreError)
        | Some [] \<Rightarrow>
            (case parseLegacyPaymentOrderID (pn_OrderID n) of
               Some oid \<Rightarrow> confirmPayment env oid (pn_TradeNo n) (pn_Amount n) pk (pn_Metadata n)
             | None \<Rightarrow> Return (Some ErrOrderNotFound))
        | Some [od] \<Rightarrow> confirmPayment env (po_ID od) (pn_TradeNo n) (pn_Amount n) pk (pn_Metadata n)
        | Some _ \<Rightarrow> Return (Some StoreError)))"

section \<open>Asking the provider\<close>

text \<open>The key of the provider, if one can be made, and what it answers to two queries.\<close>

record query_answer =
  qa_Status :: string
  qa_Amount :: go_float
  qa_TradeNo :: string
  qa_Metadata :: "(string \<times> string) list"

record provider_answers =
  pa_ProviderKey :: "string option"
  pa_first :: "query_answer option"
  pa_second :: "query_answer option"

definition ProviderStatusPaid :: string where "ProviderStatusPaid = ''paid''"

definition paymentOrderQueryReference :: "PaymentOrder \<Rightarrow> string \<Rightarrow> string" where
  "paymentOrderQueryReference od provKey =
     (let snapKey = (case po_ProviderSnapshot od of None \<Rightarrow> [] | Some snap \<Rightarrow> trim_space (ps_ProviderKey snap));
          providerKey =
            (if trim_space provKey \<noteq> [] then trim_space provKey
             else if snapKey \<noteq> [] then snapKey
             else if trim_space (psStringValue (po_ProviderKey od)) \<noteq> []
             then trim_space (psStringValue (po_ProviderKey od))
             else trim_space (po_PaymentType od))
      in if GetBasePaymentType providerKey \<in> {TypeAlipay, TypeEasyPay, TypeWxpay}
         then trim_space (po_OutTradeNo od)
         else if trim_space (po_PaymentTradeNo od) \<noteq> [] then trim_space (po_PaymentTradeNo od)
         else trim_space (po_OutTradeNo od))"

definition paymentOrderShouldPersistUpstreamTradeNo ::
  "(string \<Rightarrow> string \<Rightarrow> bool) \<Rightarrow> string \<Rightarrow> string \<Rightarrow> string \<Rightarrow> bool" where
  "paymentOrderShouldPersistUpstreamTradeNo equalFold queryRef upstream current \<longleftrightarrow>
     trim_space upstream \<noteq> [] \<and> \<not> equalFold (trim_space upstream) (trim_space current) \<and>
     \<not> equalFold (trim_space upstream) (trim_space queryRef)"

definition requeryPaidOrderOnce :: "provider_answers \<Rightarrow> query_answer option" where
  "requeryPaidOrderOnce pa =
     (case pa_second pa of
        None \<Rightarrow> None
      | Some resp \<Rightarrow>
          if qa_Status resp \<noteq> ProviderStatusPaid \<or> \<not> isValidProviderAmount (qa_Amount resp) then None
          else Some resp)"

text \<open>
  The result is whether the order was already paid. An upstream trade number that is new is
  stored first, whatever the state of the order; cancelling the payment upstream does not touch
  the store.
\<close>

definition checkPaidWithOptions ::
  "pay_env \<Rightarrow> provider_answers \<Rightarrow> PaymentOrder \<Rightarrow> (store, bool) prog" where
  "checkPaidWithOptions env pa od =
     (case pa_ProviderKey pa of
        None \<Rightarrow> Return False
      | Some key \<Rightarrow>
          let queryRef = paymentOrderQueryReference od key in
          if queryRef = [] then Return False
          else case pa_first pa of
            None \<Rightarrow> Return False
          | Some resp \<Rightarrow>
              if qa_Status resp \<noteq> ProviderStatusPaid then Return False
              else
                let notify = (\<lambda>resp.
                      let upstream = trim_space (qa_TradeNo resp);
                          persist = paymentOrderShouldPersistUpstreamTradeNo (pe_fold env) queryRef
                            upstream (po_PaymentTradeNo od);
                          tradeNo = (if persist then upstream else po_PaymentTradeNo od);
                          handle = bindP (HandlePaymentNotification env
                             \<lparr>pn_TradeNo = tradeNo, pn_OrderID = po_OutTradeNo od,
                              pn_Amount = qa_Amount resp, pn_Status = NotificationStatusSuccess,
                              pn_Metadata = qa_Metadata resp\<rparr> key) (\<lambda>_. Return True)
                      in if persist
                         then call (order_Update (po_ID od) (\<lambda>_. True)
                                (\<lambda>r. r\<lparr>po_PaymentTradeNo := upstream\<rparr>)) (\<lambda>_. handle)
                         else handle)
                in if isValidProviderAmount (qa_Amount resp) then notify resp
                   else writeAuditLog (po_ID od) ''PAYMENT_INVALID_AMOUNT'' key
                     (case requeryPaidOrderOnce pa of
                        None \<Rightarrow> Return False
                      | Some resp \<Rightarrow> notify resp))"

section \<open>Cancelling, expiring and verifying\<close>

datatype cancel_outcome = AlreadyPaid | Cancelled

definition cancelCore ::
  "pay_env \<Rightarrow> provider_answers \<Rightarrow> PaymentOrder \<Rightarrow> order_status \<Rightarrow> string \<Rightarrow>
     (store, pay_error + cancel_outcome) prog" where
  "cancelCore env pa od fs op =
     bindP (if po_PaymentTradeNo od \<noteq> [] \<or> po_PaymentType od \<noteq> []
            then checkPaidWithOptions env pa od else Return False) (\<lambda>paid.
       if paid then Return (Inr AlreadyPaid)
       else call (order_Update (po_ID od) (\<lambda>r. po_Status r = OrderStatusPending)
              (\<lambda>r. r\<lparr>po_Status := fs\<rparr>)) (\<lambda>c. case c of
            None \<Rightarrow> Return (Inl StoreError)
          | Some n \<Rightarrow>
              if n = 0 then Return (Inr Cancelled)
              else writeAuditLog (po_ID od)
                (if fs = OrderStatusExpired then ''ORDER_EXPIRED'' else ''ORDER_CANCELLED'') op
                (Return (Inr Cancelled))))"

definition CancelOrder ::
  "pay_env \<Rightarrow> provider_answers \<Rightarrow> int \<Rightarrow> int \<Rightarrow> (store, pay_error + cancel_outcome) prog" where
  "CancelOrder env pa oid userID =
     call (order_Get oid) (\<lambda>r. case r of
       Some (Some od) \<Rightarrow>
         if po_UserID od \<noteq> userID then Return (Inl Forbidden)
         else if po_Status od \<noteq> OrderStatusPending then Return (Inl InvalidStatus)
         else cancelCore env pa od OrderStatusCancelled (''user:'' @ show_int userID)
     | _ \<Rightarrow> Return (Inl NotFound))"

definition AdminCancelOrder ::
  "pay_env \<Rightarrow> provider_answers \<Rightarrow> int \<Rightarrow> (store, pay_error + cancel_outcome) prog" where
  "AdminCancelOrder env pa oid =
     call (order_Get oid) (\<lambda>r. case r of
       Some (Some od) \<Rightarrow>
         if po_Status od \<noteq> OrderStatusPending then Return (Inl InvalidStatus)
         else cancelCore env pa od OrderStatusCancelled ''admin''
     | _ \<Rightarrow> Return (Inl NotFound))"

text \<open>One round over the orders that were pending and due when they were read.\<close>

primrec expireEach ::
  "pay_env \<Rightarrow> (PaymentOrder \<Rightarrow> provider_answers) \<Rightarrow> PaymentOrder list \<Rightarrow> nat \<Rightarrow>
     (store, pay_error + nat) prog" where
  "expireEach env pas [] n = Return (Inr n)"
| "expireEach env pas (od # ods) n =
     bindP (cancelCore env (pas od) od OrderStatusExpired ''system'') (\<lambda>outcome.
       expireEach env pas ods (case outcome of Inr Cancelled \<Rightarrow> n + 1 | _ \<Rightarrow> n))"

definition ExpireTimedOutOrders ::
  "pay_env \<Rightarrow> (PaymentOrder \<Rightarrow> provider_answers) \<Rightarrow> (store, pay_error + nat) prog" where
  "ExpireTimedOutOrders env pas = look st_clock (\<lambda>now.
     call (\<lambda>s. (s, filter (\<lambda>od. po_Status od = OrderStatusPending \<and> po_ExpiresAt od \<le> now)
        (List.map_filter (st_orders s) (st_order_ids s)))) (\<lambda>ods. case ods of
       None \<Rightarrow> Return (Inl StoreError)
     | Some ods \<Rightarrow> expireEach env pas ods 0))"

primrec reconcileEach ::
  "pay_env \<Rightarrow> (PaymentOrder \<Rightarrow> provider_answers) \<Rightarrow> PaymentOrder list \<Rightarrow> nat \<Rightarrow>
     (store, pay_error + nat) prog" where
  "reconcileEach env pas [] n = Return (Inr n)"
| "reconcileEach env pas (od # ods) n =
     bindP (checkPaidWithOptions env (pas od) od) (\<lambda>paid.
       reconcileEach env pas ods (if paid then n + 1 else n))"

definition pendingPaymentReconcileLimit :: nat where "pendingPaymentReconcileLimit = 20"

definition reconcilable :: "PaymentOrder \<Rightarrow> bool" where
  "reconcilable od \<longleftrightarrow>
     list_ex (\<lambda>ty. po_PaymentType od = ty \<or> has_prefix (po_PaymentType od) (ty @ ''_'') \<or>
       (case po_ProviderKey od of None \<Rightarrow> False | Some k \<Rightarrow> k = ty \<or> has_prefix k (ty @ ''_'')))
     [TypeWxpay, TypeAlipay]"

text \<open>The ids are listed in the order in which the orders were created.\<close>

definition ReconcilePendingPaymentOrders ::
  "pay_env \<Rightarrow> (PaymentOrder \<Rightarrow> provider_answers) \<Rightarrow> (store, pay_error + nat) prog" where
  "ReconcilePendingPaymentOrders env pas = look st_clock (\<lambda>now.
     call (\<lambda>s. (s, take pendingPaymentReconcileLimit
        (filter (\<lambda>od. po_Status od = OrderStatusPending \<and> po_ExpiresAt od > now \<and> reconcilable od)
          (List.map_filter (st_orders s) (st_order_ids s))))) (\<lambda>ods. case ods of
       None \<Rightarrow> Return (Inl StoreError)
     | Some ods \<Rightarrow> reconcileEach env pas ods 0))"

definition normalizeOrderLookupOutTradeNo :: "string \<Rightarrow> string option" where
  "normalizeOrderLookupOutTradeNo raw =
     (let no = trim_space raw in
      if no = [] \<or> length no > 64 then None
      else if list_all (\<lambda>ch. char_between CHR ''a'' ch CHR ''z'' \<or> char_between CHR ''A'' ch CHR ''Z'' \<or>
          char_between CHR ''0'' ch CHR ''9'' \<or> ch = CHR ''_'' \<or> ch = CHR ''-'') no
      then Some no else None)"

definition VerifyOrderByOutTradeNo ::
  "pay_env \<Rightarrow> provider_answers \<Rightarrow> string \<Rightarrow> int \<Rightarrow> (store, pay_error + PaymentOrder) prog" where
  "VerifyOrderByOutTradeNo env pa raw userID =
     (case normalizeOrderLookupOutTradeNo raw of
        None \<Rightarrow> Return (Inl InvalidStatus)
      | Some no \<Rightarrow> call (order_ByOutTradeNo no) (\<lambda>r. case r of
            Some [od] \<Rightarrow>
              if po_UserID od \<noteq> userID then Return (Inl Forbidden)
              else if po_Status od = OrderStatusPending \<or> po_Status od = OrderStatusExpired
              then bindP (checkPaidWithOptions env pa od) (\<lambda>paid.
                if paid then call (order_Get (po_ID od)) (\<lambda>r. case r of
                    Some (Some od) \<Rightarrow> Return (Inr od)
                  | _ \<Rightarrow> Return (Inl StoreError))
                else Return (Inr od))
              else Return (Inr od)
          | _ \<Rightarrow> Return (Inl NotFound)))"

definition VerifyOrderPublic :: "string \<Rightarrow> (store, pay_error + PaymentOrder) prog" where
  "VerifyOrderPublic raw =
     (case normalizeOrderLookupOutTradeNo raw of
        None \<Rightarrow> Return (Inl InvalidStatus)
      | Some no \<Rightarrow> call (order_ByOutTradeNo no) (\<lambda>r. case r of
            Some [od] \<Rightarrow> Return (Inr od)
          | _ \<Rightarrow> Return (Inl NotFound)))"

end
