(* ===== verification/PaymentCreation.thy ===== *)
theory PaymentCreation
  imports PaymentLifecycle
begin

text \<open>
  How an order is placed: \<^verbatim>\<open>CreateOrder\<close> of \<^verbatim>\<open>backend/internal/service/payment_order.go\<close>, with
  \<^verbatim>\<open>payment_amounts.go\<close>, \<^verbatim>\<open>backend/internal/payment/fee.go\<close> and the amounts of
  \<^verbatim>\<open>currency.go\<close>. The settings, the plan, the choice of a provider instance, the WeChat login and
  the provider's reply are arguments, so that the programs run under any of them. Settings that
  are amounts or rates are numbers; decimals are rationals.
\<close>

section \<open>Amounts\<close>

definition CurrencyMaxFractionDigits :: "(string \<Rightarrow> string) \<Rightarrow> string \<Rightarrow> nat" where
  "CurrencyMaxFractionDigits upper currency = snd (paymentCurrencyAmountUnitFor upper currency)"

text \<open>The error of \<^verbatim>\<open>AmountToMinorUnit\<close>: an unknown currency, or digits it does not have.\<close>

definition AmountToMinorUnit :: "(string \<Rightarrow> string) \<Rightarrow> rat \<Rightarrow> string \<Rightarrow> int option" where
  "AmountToMinorUnit upper d currency =
     (case NormalizePaymentCurrency upper currency of
        None \<Rightarrow> None
      | Some c \<Rightarrow>
          let (apiMinorUnit, maxFractionDigits) = paymentCurrencyAmountUnitFor upper c;
              scaled = d * 10 ^ maxFractionDigits
          in if scaled \<noteq> of_int (go_trunc scaled) then None
             else Some (go_trunc (d * 10 ^ apiMinorUnit)))"

text \<open>\<^verbatim>\<open>Decimal.RoundUp\<close> rounds away from zero; \<^verbatim>\<open>Div\<close> keeps sixteen digits.\<close>

definition roundUp :: "rat \<Rightarrow> nat \<Rightarrow> rat" where
  "roundUp v places =
     (if v < 0 then - of_int \<lceil>- v * 10 ^ places\<rceil> else of_int \<lceil>v * 10 ^ places\<rceil>) / 10 ^ places"

definition CalculatePayAmountForCurrency :: "(string \<Rightarrow> string) \<Rightarrow> rat \<Rightarrow> rat \<Rightarrow> string \<Rightarrow> rat" where
  "CalculatePayAmountForCurrency upper amount feeRate currency =
     (let fractionDigits = CurrencyMaxFractionDigits upper currency in
      if feeRate \<le> 0 then roundTo amount fractionDigits
      else
        let fee = roundUp (roundTo (amount * feeRate / 100) 16) fractionDigits
        in roundTo (amount + fee) fractionDigits)"

definition calculateCreateOrderPayAmount ::
  "(string \<Rightarrow> string) \<Rightarrow> rat \<Rightarrow> rat \<Rightarrow> string \<Rightarrow> rat option" where
  "calculateCreateOrderPayAmount upper limitAmount feeRate currency =
     (if AmountToMinorUnit upper limitAmount currency = None then None
      else
        let payAmount = CalculatePayAmountForCurrency upper limitAmount feeRate currency in
        if AmountToMinorUnit upper payAmount currency = None then None else Some payAmount)"

definition calculateSubscriptionGatewayBaseAmount ::
  "(string \<Rightarrow> string) \<Rightarrow> rat \<Rightarrow> rat \<Rightarrow> string \<Rightarrow> rat" where
  "calculateSubscriptionGatewayBaseAmount upper amount rate currency =
     (if rate \<le> 0 \<or> currency \<noteq> DefaultPaymentCurrency then amount
      else roundTo (amount * rate) (CurrencyMaxFractionDigits upper currency))"

definition calculateCreateOrderPayAmountForOrderType ::
  "(string \<Rightarrow> string) \<Rightarrow> rat \<Rightarrow> rat \<Rightarrow> string \<Rightarrow> string \<Rightarrow> rat \<Rightarrow> rat option" where
  "calculateCreateOrderPayAmountForOrderType upper limitAmount feeRate currency orderType rate =
     calculateCreateOrderPayAmount upper
       (if orderType = OrderTypeSubscription
        then calculateSubscriptionGatewayBaseAmount upper limitAmount rate currency
        else limitAmount) feeRate currency"

definition calculateCreditedBalance :: "rat \<Rightarrow> rat \<Rightarrow> rat" where
  "calculateCreditedBalance paymentAmount multiplier =
     roundTo (paymentAmount * (if multiplier \<le> 0 then 1 else multiplier)) 2"

section \<open>Arguments\<close>

record payment_config =
  cf_Enabled :: bool
  cf_BalanceDisabled :: bool
  cf_MinAmount :: rat
  cf_MaxAmount :: rat
  cf_DailyLimit :: rat
  cf_OrderTimeoutMin :: int
  cf_MaxPendingOrders :: int
  cf_BalanceRechargeMultiplier :: rat
  cf_RechargeFeeRate :: rat
  cf_SubscriptionUSDToCNYRate :: rat
  cf_CancelRateLimitEnabled :: bool
  cf_CancelRateLimitMax :: int
  cf_CancelRateLimitWindow :: int
  cf_CancelRateLimitUnit :: string
  cf_CancelRateLimitMode :: string

record subscription_plan =
  pl_Price :: rat
  pl_GroupID :: int
  pl_ValidityDays :: int
  pl_ValidityUnit :: string
  pl_ForSale :: bool

text \<open>The configuration of an instance maps a missing key to the empty string, as in Go.\<close>

record InstanceSelection =
  se_InstanceID :: string
  se_ProviderKey :: string
  se_PaymentMode :: string
  se_Config :: "string \<Rightarrow> string"

record CreateOrderRequest =
  cq_UserID :: int
  cq_Amount :: go_float
  cq_PaymentType :: string
  cq_OpenID :: string
  cq_IsWeChatBrowser :: bool
  cq_OrderType :: string
  cq_PlanID :: int

text \<open>
  What lies outside the store; \<^const>\<open>None\<close> is an error. \<open>cw_oauth\<close> is the app id of the WeChat
  credential, \<open>cw_candidates\<close> are the trade numbers that are drawn, and \<open>cw_provider\<close> is the trade
  number of the payment the provider created.
\<close>

record create_world =
  cw_config :: "payment_config option"
  cw_plan :: "subscription_plan option"
  cw_user_active :: "bool option"
  cw_method_currency :: "string option"
  cw_selection :: "InstanceSelection option option"
  cw_oauth :: "string option"
  cw_oauth_response :: bool
  cw_candidates :: "string list"
  cw_provider :: "string option"

section \<open>Checks\<close>

definition psComputeValidityDays :: "int \<Rightarrow> string \<Rightarrow> int" where
  "psComputeValidityDays days unit =
     (if unit = ''week'' \<or> unit = ''weeks'' then days * 7
      else if unit = ''month'' \<or> unit = ''months'' then days * 30
      else days)"

definition validateSubOrder ::
  "pay_env \<Rightarrow> create_world \<Rightarrow> CreateOrderRequest \<Rightarrow> pay_error + subscription_plan" where
  "validateSubOrder env w req =
     (if cq_PlanID req = 0 then Inl InvalidInput
      else case cw_plan w of
        None \<Rightarrow> Inl PlanNotAvailable
      | Some plan \<Rightarrow>
          if \<not> pl_ForSale plan then Inl PlanNotAvailable
          else case pe_groups env (pl_GroupID plan) of
            None \<Rightarrow> Inl GroupUnavailable
          | Some (g, status) \<Rightarrow>
              if status \<noteq> EntityStatusActive then Inl GroupUnavailable
              else if \<not> IsSubscriptionType g then Inl GroupTypeMismatch
              else Inr plan)"

definition validateOrderInput ::
  "pay_env \<Rightarrow> create_world \<Rightarrow> payment_config \<Rightarrow> CreateOrderRequest \<Rightarrow>
     pay_error + subscription_plan option" where
  "validateOrderInput env w cfg req =
     (if cq_OrderType req = OrderTypeBalance \<and> cf_BalanceDisabled cfg then Inl BalancePaymentDisabled
      else if cq_OrderType req = OrderTypeSubscription
      then (case validateSubOrder env w req of Inl e \<Rightarrow> Inl e | Inr plan \<Rightarrow> Inr (Some plan))
      else case cq_Amount req of
        NotFinite \<Rightarrow> Inl InvalidAmount
      | Finite amount \<Rightarrow>
          if amount \<le> 0 then Inl InvalidAmount
          else if (cf_MinAmount cfg > 0 \<and> amount < cf_MinAmount cfg) \<or>
                  (cf_MaxAmount cfg > 0 \<and> amount > cf_MaxAmount cfg) then Inl InvalidAmount
          else Inr None)"

definition cancelRateLimitWindowStart :: "zone \<Rightarrow> payment_config \<Rightarrow> go_time \<Rightarrow> go_time" where
  "cancelRateLimitWindowStart z cfg now =
     (let w = (if cf_CancelRateLimitWindow cfg \<le> 0 then 1 else cf_CancelRateLimitWindow cfg);
          unit = (if cf_CancelRateLimitUnit cfg = [] then ''day'' else cf_CancelRateLimitUnit cfg)
      in if cf_CancelRateLimitMode cfg = ''fixed'' then
           (if unit = ''minute'' then now div minute * minute - (w - 1) * minute
            else if unit = ''day'' then AddDate z (StartOfDay z now) (- (w - 1))
            else now div hour * hour - (w - 1) * hour)
         else
           (if unit = ''minute'' then now - w * minute
            else if unit = ''day'' then AddDate z now (- w)
            else now - w * hour))"

text \<open>The continuation is told whether the user may go on; a failed query lets him.\<close>

definition checkCancelRateLimit ::
  "pay_env \<Rightarrow> int \<Rightarrow> payment_config \<Rightarrow> (bool \<Rightarrow> (store, 'a) prog) \<Rightarrow> (store, 'a) prog" where
  "checkCancelRateLimit env userID cfg k =
     (if \<not> cf_CancelRateLimitEnabled cfg \<or> cf_CancelRateLimitMax cfg \<le> 0 then k True
      else look st_clock (\<lambda>now.
        let windowStart = cancelRateLimitWindowStart (pe_zone env) cfg now in
        call (\<lambda>s. (s, length (filter (\<lambda>a. au_Action a = ''ORDER_CANCELLED'' \<and>
              au_Operator a = ''user:'' @ show_int userID \<and> au_CreatedAt a \<ge> windowStart) (st_audit s))))
          (\<lambda>count. k (case count of None \<Rightarrow> True | Some n \<Rightarrow> int n < cf_CancelRateLimitMax cfg))))"

section \<open>The transaction\<close>

definition all_orders :: "store \<Rightarrow> PaymentOrder list" where
  "all_orders s = List.map_filter (st_orders s) (st_order_ids s)"

definition checkPendingLimit ::
  "int \<Rightarrow> int \<Rightarrow> (pay_error option \<Rightarrow> (store, 'a) prog) \<Rightarrow> (store, 'a) prog" where
  "checkPendingLimit userID limit k =
     call (\<lambda>s. (s, length (filter (\<lambda>od. po_UserID od = userID \<and> po_Status od = OrderStatusPending)
         (all_orders s))))
       (\<lambda>c. k (case c of None \<Rightarrow> Some StoreError
          | Some n \<Rightarrow> if int n \<ge> (if limit \<le> 0 then 3 else limit) then Some TooManyPending else None))"

definition psStartOfDayUTC :: "go_time \<Rightarrow> go_time" where
  "psStartOfDayUTC t = t - t mod day_ns"

definition daily_use :: "int \<Rightarrow> go_time \<Rightarrow> store \<Rightarrow> rat" where
  "daily_use userID ts s =
     sum_list (map (\<lambda>od. if po_OrderType od = OrderTypeBalance then po_PayAmount od else po_Amount od)
       (filter (\<lambda>od. po_UserID od = userID \<and>
          po_Status od \<in> {OrderStatusPaid, OrderStatusRecharging, OrderStatusCompleted} \<and>
          (case po_PaidAt od of None \<Rightarrow> False | Some t \<Rightarrow> t \<ge> ts)) (all_orders s)))"

definition checkDailyLimit ::
  "int \<Rightarrow> rat \<Rightarrow> rat \<Rightarrow> (pay_error option \<Rightarrow> (store, 'a) prog) \<Rightarrow> (store, 'a) prog" where
  "checkDailyLimit userID amount limit k =
     (if limit \<le> 0 then k None
      else look st_clock (\<lambda>now.
        call (\<lambda>s. (s, daily_use userID (psStartOfDayUTC now) s))
          (\<lambda>used. k (case used of None \<Rightarrow> Some StoreError
             | Some u \<Rightarrow> if u + amount > limit then Some DailyLimitExceeded else None))))"

text \<open>At most five trade numbers are drawn.\<close>

primrec allocateOutTradeNo ::
  "string list \<Rightarrow> (string option \<Rightarrow> (store, 'a) prog) \<Rightarrow> (store, 'a) prog" where
  "allocateOutTradeNo [] k = k None"
| "allocateOutTradeNo (candidate # cs) k =
     call (\<lambda>s. (s, list_ex (\<lambda>od. po_OutTradeNo od = candidate) (all_orders s))) (\<lambda>exists.
       case exists of
         None \<Rightarrow> k None
       | Some True \<Rightarrow> allocateOutTradeNo cs k
       | Some False \<Rightarrow> k (Some candidate))"

definition paymentOrderSnapshotWxpayAppID :: "InstanceSelection \<Rightarrow> CreateOrderRequest \<Rightarrow> string" where
  "paymentOrderSnapshotWxpayAppID sel req =
     (let mp = trim_space (se_Config sel ''mpAppId''); app = trim_space (se_Config sel ''appId'') in
      if trim_space (se_ProviderKey sel) \<noteq> TypeWxpay then []
      else if trim_space (cq_OpenID req) \<noteq> [] then (if mp \<noteq> [] then mp else app)
      else app)"

definition paymentProviderConfigCurrency :: "(string \<Rightarrow> string) \<Rightarrow> InstanceSelection \<Rightarrow> string" where
  "paymentProviderConfigCurrency upper sel =
     (if trim_space (se_ProviderKey sel) \<in> {TypeStripe, TypeAirwallex}
      then (case NormalizePaymentCurrency upper (se_Config sel ''currency'') of
              Some c \<Rightarrow> c | None \<Rightarrow> DefaultPaymentCurrency)
      else DefaultPaymentCurrency)"

text \<open>A snapshot of nothing but its version is not stored.\<close>

definition buildPaymentOrderProviderSnapshot ::
  "(string \<Rightarrow> string) \<Rightarrow> InstanceSelection \<Rightarrow> CreateOrderRequest \<Rightarrow> provider_snapshot option" where
  "buildPaymentOrderProviderSnapshot upper sel req =
     (let key = trim_space (se_ProviderKey sel);
          snap = \<lparr>ps_ProviderInstanceID = trim_space (se_InstanceID sel), ps_ProviderKey = key,
            ps_MerchantAppID =
              (if key = TypeWxpay then paymentOrderSnapshotWxpayAppID sel req
               else if key = TypeAlipay then trim_space (se_Config sel ''appId'') else []),
            ps_MerchantID =
              (if key = TypeWxpay then trim_space (se_Config sel ''mchId'')
               else if key = TypeEasyPay then trim_space (se_Config sel ''pid'')
               else if key = TypeAirwallex then trim_space (se_Config sel ''accountId'') else []),
            ps_Currency =
              (if key = TypeWxpay then DefaultPaymentCurrency
               else if key = TypeStripe \<or> key = TypeAirwallex
               then paymentProviderConfigCurrency upper sel else [])\<rparr>
      in if ps_ProviderInstanceID snap = [] \<and> key = [] \<and> trim_space (se_PaymentMode sel) = []
         then None else Some snap)"

text \<open>The code of an order names it: \<^verbatim>\<open>PAY-%d-%d\<close>.\<close>

definition pay_code :: "int \<Rightarrow> int \<Rightarrow> string" where
  "pay_code oid n = ''PAY-'' @ show_int oid @ ''-'' @ show_int n"

text \<open>
  The insertion and the update that gives the row its code commit together; trade numbers are
  unique.
\<close>

definition order_Insert :: "PaymentOrder \<Rightarrow> go_time \<Rightarrow> store \<Rightarrow> store \<times> PaymentOrder option" where
  "order_Insert od now s =
     (if list_ex (\<lambda>x. po_OutTradeNo x = po_OutTradeNo od) (all_orders s) then (s, None)
      else
        let oid = st_next_order s;
            od = od\<lparr>po_ID := oid, po_RechargeCode := pay_code oid (now mod 100000),
                    po_UpdatedAt := micros (st_clock s)\<rparr>
        in (s\<lparr>st_orders := (st_orders s)(oid \<mapsto> od), st_order_ids := st_order_ids s @ [oid],
              st_next_order := oid + 1\<rparr>, Some od))"

definition createOrderInTx ::
  "pay_env \<Rightarrow> create_world \<Rightarrow> payment_config \<Rightarrow> CreateOrderRequest \<Rightarrow> subscription_plan option \<Rightarrow>
     rat \<Rightarrow> rat \<Rightarrow> rat \<Rightarrow> InstanceSelection \<Rightarrow> (store, pay_error + PaymentOrder) prog" where
  "createOrderInTx env w cfg req plan orderAmount limitAmount payAmount sel =
     checkPendingLimit (cq_UserID req) (cf_MaxPendingOrders cfg) (\<lambda>e. case e of
       Some e \<Rightarrow> Return (Inl e)
     | None \<Rightarrow> checkDailyLimit (cq_UserID req) limitAmount (cf_DailyLimit cfg) (\<lambda>e. case e of
         Some e \<Rightarrow> Return (Inl e)
       | None \<Rightarrow> look st_clock (\<lambda>now.
           let tm = (if cf_OrderTimeoutMin cfg \<le> 0 then 30 else cf_OrderTimeoutMin cfg);
               expiry = now + tm * minute
           in allocateOutTradeNo (take 5 (cw_candidates w)) (\<lambda>no. case no of
                None \<Rightarrow> Return (Inl StoreError)
              | Some outTradeNo \<Rightarrow> look st_clock (\<lambda>now.
                  call (order_Insert
                    \<lparr>po_ID = 0, po_UserID = cq_UserID req, po_Amount = orderAmount,
                     po_PayAmount = payAmount, po_RechargeCode = [], po_OutTradeNo = outTradeNo,
                     po_PaymentType = cq_PaymentType req, po_PaymentTradeNo = [],
                     po_OrderType = cq_OrderType req,
                     po_SubscriptionGroupID = map_option pl_GroupID plan,
                     po_SubscriptionDays =
                       map_option (\<lambda>p. psComputeValidityDays (pl_ValidityDays p) (pl_ValidityUnit p)) plan,
                     po_ProviderKey = (let key = trim_space (se_ProviderKey sel) in
                       if key = [] then None else Some key),
                     po_ProviderSnapshot = buildPaymentOrderProviderSnapshot (pe_upper env) sel req,
                     po_Status = OrderStatusPending, po_ExpiresAt = expiry, po_PaidAt = None,
                     po_CompletedAt = None, po_FailedAt = None, po_FailedReason = None,
                     po_UpdatedAt = 0\<rparr> now)
                  (\<lambda>r. case r of Some (Some od) \<Rightarrow> Return (Inr od) | _ \<Rightarrow> Return (Inl StoreError)))))))"

section \<open>Placing an order\<close>

text \<open>
  What \<^verbatim>\<open>invokeProvider\<close> does to the store once the provider has answered; the links it returns
  are left out.
\<close>

definition invokeProvider ::
  "create_world \<Rightarrow> CreateOrderRequest \<Rightarrow> InstanceSelection \<Rightarrow> PaymentOrder \<Rightarrow>
     (store, pay_error option) prog" where
  "invokeProvider w req sel od =
     (case cw_provider w of
        None \<Rightarrow> Return (Some GatewayError)
      | Some tradeNo \<Rightarrow>
          call (order_Update (po_ID od) (\<lambda>_. True)
              (\<lambda>r. r\<lparr>po_PaymentTradeNo := (if tradeNo = [] then po_PaymentTradeNo r else tradeNo),
                     po_ProviderKey := (if se_ProviderKey sel = [] then po_ProviderKey r
                       else Some (se_ProviderKey sel))\<rparr>))
            (\<lambda>n. if n = None \<or> n = Some 0 then Return (Some StoreError)
                 else writeAuditLog (po_ID od) ''ORDER_CREATED'' (''user:'' @ show_int (cq_UserID req))
                   (Return None)))"

definition requiresWeChatJSAPICompatibleSelection :: "CreateOrderRequest \<Rightarrow> InstanceSelection \<Rightarrow> bool" where
  "requiresWeChatJSAPICompatibleSelection req sel \<longleftrightarrow>
     se_ProviderKey sel = TypeWxpay \<and> GetBasePaymentType (cq_PaymentType req) = TypeWxpay \<and>
     (cq_IsWeChatBrowser req \<or> trim_space (cq_OpenID req) \<noteq> [])"

definition validateSelectedCreateOrderInstance ::
  "create_world \<Rightarrow> CreateOrderRequest \<Rightarrow> InstanceSelection \<Rightarrow> pay_error option" where
  "validateSelectedCreateOrderInstance w req sel =
     (if \<not> requiresWeChatJSAPICompatibleSelection req sel then None
      else case cw_oauth w of
        None \<Rightarrow> Some GatewayError
      | Some expected \<Rightarrow>
          let mp = trim_space (se_Config sel ''mpAppId'');
              selected = (if mp \<noteq> [] then mp else trim_space (se_Config sel ''appId''))
          in if selected = [] \<or> selected \<noteq> expected then Some NoAvailableInstance else None)"

text \<open>The order that is charged, or the WeChat login that has to come first.\<close>

definition needs_wechat_oauth :: "CreateOrderRequest \<Rightarrow> InstanceSelection \<Rightarrow> bool" where
  "needs_wechat_oauth req sel \<longleftrightarrow>
     \<not> (se_ProviderKey sel \<noteq> [] \<and> se_ProviderKey sel \<noteq> TypeWxpay) \<and>
     \<not> (trim_space (cq_OpenID req) \<noteq> [] \<or> \<not> cq_IsWeChatBrowser req \<or>
        GetBasePaymentType (cq_PaymentType req) \<noteq> TypeWxpay)"

text \<open>The amount of the order and the amount that is checked against the limits.\<close>

definition order_amounts ::
  "payment_config \<Rightarrow> CreateOrderRequest \<Rightarrow> subscription_plan option \<Rightarrow> rat \<times> rat" where
  "order_amounts cfg req plan =
     (let requested = (case cq_Amount req of Finite a \<Rightarrow> a | NotFinite \<Rightarrow> 0) in
      case plan of
        Some p \<Rightarrow> (pl_Price p, pl_Price p)
      | None \<Rightarrow>
          (if cq_OrderType req = OrderTypeBalance
           then calculateCreditedBalance requested (cf_BalanceRechargeMultiplier cfg) else requested,
           requested))"

text \<open>
  The amount to pay, in the currency of the method; it is computed again when the instance that
  is selected has another one.
\<close>

definition quote ::
  "(string \<Rightarrow> string) \<Rightarrow> payment_config \<Rightarrow> CreateOrderRequest \<Rightarrow> rat \<Rightarrow> string \<Rightarrow> rat option" where
  "quote upper cfg req limitAmount currency =
     calculateCreateOrderPayAmountForOrderType upper limitAmount (cf_RechargeFeeRate cfg) currency
       (cq_OrderType req) (cf_SubscriptionUSDToCNYRate cfg)"

definition requote ::
  "(string \<Rightarrow> string) \<Rightarrow> payment_config \<Rightarrow> CreateOrderRequest \<Rightarrow> rat \<Rightarrow> string \<Rightarrow> InstanceSelection \<Rightarrow>
     rat \<Rightarrow> rat option" where
  "requote upper cfg req limitAmount methodCurrency sel payAmount =
     (let selectedCurrency = paymentProviderConfigCurrency upper sel in
      case (if selectedCurrency \<noteq> methodCurrency
            then quote upper cfg req limitAmount selectedCurrency else Some payAmount) of
        None \<Rightarrow> None
      | Some amount \<Rightarrow>
          if AmountToMinorUnit upper amount selectedCurrency = None then None else Some amount)"

text \<open>An order whose payment could not be created is marked as failed, whatever its state.\<close>

definition placeOrder ::
  "pay_env \<Rightarrow> create_world \<Rightarrow> payment_config \<Rightarrow> CreateOrderRequest \<Rightarrow> subscription_plan option \<Rightarrow>
     rat \<Rightarrow> rat \<Rightarrow> rat \<Rightarrow> InstanceSelection \<Rightarrow> (store, pay_error + int option) prog" where
  "placeOrder env w cfg req plan orderAmount limitAmount payAmount sel =
     bindP (createOrderInTx env w cfg req plan orderAmount limitAmount payAmount sel) (\<lambda>r. case r of
       Inl e \<Rightarrow> Return (Inl e)
     | Inr od \<Rightarrow> bindP (invokeProvider w req sel od) (\<lambda>e. case e of
         None \<Rightarrow> Return (Inr (Some (po_ID od)))
       | Some e \<Rightarrow> call (order_Update (po_ID od) (\<lambda>_. True) (\<lambda>r. r\<lparr>po_Status := OrderStatusFailed\<rparr>))
           (\<lambda>_. Return (Inl e))))"

text \<open>The result is the id of the order, or none when the user has to log in first.\<close>

definition CreateOrder ::
  "pay_env \<Rightarrow> create_world \<Rightarrow> CreateOrderRequest \<Rightarrow> (store, pay_error + int option) prog" where
  "CreateOrder env w req =
     (let req = (if cq_OrderType req = [] then req\<lparr>cq_OrderType := OrderTypeBalance\<rparr> else req);
          normalized = GetBasePaymentType (trim_space (cq_PaymentType req));
          req = (if normalized \<noteq> [] then req\<lparr>cq_PaymentType := normalized\<rparr> else req)
      in case cw_config w of
           None \<Rightarrow> Return (Inl StoreError)
         | Some cfg \<Rightarrow>
             if \<not> cf_Enabled cfg then Return (Inl PaymentDisabled)
             else case validateOrderInput env w cfg req of
               Inl e \<Rightarrow> Return (Inl e)
             | Inr plan \<Rightarrow> checkCancelRateLimit env (cq_UserID req) cfg (\<lambda>allowed.
                 if \<not> allowed then Return (Inl CancelRateLimited)
                 else case cw_user_active w of
                   None \<Rightarrow> Return (Inl StoreError)
                 | Some False \<Rightarrow> Return (Inl UserInactive)
                 | Some True \<Rightarrow>
                     let (orderAmount, limitAmount) = order_amounts cfg req plan in
                     (case cw_method_currency w of
                        None \<Rightarrow> Return (Inl GatewayError)
                      | Some methodCurrency \<Rightarrow>
                          (case quote (pe_upper env) cfg req limitAmount methodCurrency of
                             None \<Rightarrow> Return (Inl InvalidAmount)
                           | Some methodAmount \<Rightarrow>
                               (case cw_selection w of
                                  None \<Rightarrow> Return (Inl GatewayError)
                                | Some None \<Rightarrow> Return (Inl NoAvailableInstance)
                                | Some (Some sel) \<Rightarrow>
                                    (case validateSelectedCreateOrderInstance w req sel of
                                       Some e \<Rightarrow> Return (Inl e)
                                     | None \<Rightarrow>
                                         (case requote (pe_upper env) cfg req limitAmount methodCurrency
                                             sel methodAmount of
                                            None \<Rightarrow> Return (Inl InvalidAmount)
                                          | Some payAmount \<Rightarrow>
                                              if needs_wechat_oauth req sel
                                              then Return (if cw_oauth_response w then Inr None
                                                else Inl GatewayError)
                                              else placeOrder env w cfg req plan orderAmount
                                                limitAmount payAmount sel)))))))"

end
