(* ===== verification/PaymentInvariant.thy ===== *)
theory PaymentInvariant
  imports PaymentCreation
begin

text \<open>
  What every program of the payment subsystem keeps true of the store, and how it lets the store
  evolve: the contract \<open>rely_guarantee\<close> on \<open>pay_evolves\<close> and \<open>pay_inv\<close>, with one rule for each
  statement the programs run.
\<close>

section \<open>The code of an order\<close>

lemma show_nat_parse: "foldl (\<lambda>n c. 10 * n + (of_char c - 48)) 0 (show_nat n) = int n"
proof (induction n rule: show_nat.induct)
  case (1 n)
  have digit: "(of_char (char_of (48 + d) :: char) :: int) = int d + 48" if "d < 10" for d :: nat
  proof -
    have "(of_char (char_of (48 + d) :: char) :: nat) = 48 + d" using that by (simp add: of_char_of)
    then have "int (of_char (char_of (48 + d) :: char)) = int d + 48" by simp
    then show ?thesis by (simp only: of_nat_of_char)
  qed
  show ?case
  proof (cases "n < 10")
    case True
    then show ?thesis by (subst show_nat.simps) (simp add: digit)
  next
    case False
    have "n mod 10 < 10" "10 * int (n div 10) + int (n mod 10) = int n"
      by (simp_all add: zdiv_int zmod_int)
    then show ?thesis using False 1 by (subst show_nat.simps) (simp add: digit del: of_char_of)
  qed
qed

lemma show_nat_digits: "\<forall>c \<in> set (show_nat n). char_between CHR ''0'' c CHR ''9''"
proof (induction n rule: show_nat.induct)
  case (1 n)
  have digit: "char_between CHR ''0'' (char_of (48 + d)) CHR ''9''" if "d < 10" for d :: nat
    using that by (simp add: char_between_def)
  show ?case
  proof (cases "n < 10")
    case True
    then show ?thesis by (subst show_nat.simps) (simp add: digit)
  next
    case False
    have "n mod 10 < 10" by simp
    then show ?thesis using False 1 by (subst show_nat.simps) (auto simp: digit)
  qed
qed

lemma show_nat_inject: "show_nat m = show_nat n \<Longrightarrow> m = n"
  using show_nat_parse of_nat_eq_iff by metis

lemma digit_char:
  assumes "char_between CHR ''0'' c CHR ''9''"
  shows "solid_char c \<and> c \<noteq> CHR ''-''"
proof -
  have "48 \<le> (of_char c :: nat)" "(of_char c :: nat) \<le> 57" using assms by (simp_all add: char_between_def)
  then have other: "c \<noteq> x" if "(of_char x :: nat) < 48 \<or> 57 < (of_char x :: nat)" for x
    using that by auto
  show ?thesis by (simp add: solid_char_def go_spaces_def other)
qed

lemma pay_code_trim: "trim_space (pay_code oid n) = pay_code oid n"
proof (rule trim_space_solid)
  have "solid_char CHR ''-''" by (simp add: solid_char_def go_spaces_def)
  then have "\<forall>c \<in> set (show_int i). solid_char c" for i
    using show_nat_digits digit_char by (auto simp: show_int_def)
  then show "\<forall>c \<in> set (pay_code oid n). solid_char c"
    by (auto simp: pay_code_def solid_char_def go_spaces_def)
qed

lemma pay_code_inject: "pay_code i m = pay_code j n \<Longrightarrow> 0 < i \<Longrightarrow> 0 < j \<Longrightarrow> i = j"
proof -
  assume eq: "pay_code i m = pay_code j n" and pos: "0 < i" "0 < j"
  have cut: "takeWhile (\<lambda>c. c \<noteq> CHR ''-'') (show_nat k @ CHR ''-'' # xs) = show_nat k" for k xs
    using show_nat_digits [of k] digit_char by (subst takeWhile_append2) auto
  have "show_nat (nat i) = show_nat (nat j)"
    using arg_cong [OF eq, of "\<lambda>s. takeWhile (\<lambda>c. c \<noteq> CHR ''-'') (drop 4 s)"] pos
    by (simp add: pay_code_def show_int_def cut)
  then show ?thesis using show_nat_inject pos by force
qed

section \<open>The contract\<close>

definition same_order :: "PaymentOrder \<Rightarrow> PaymentOrder \<Rightarrow> bool" where
  "same_order od od' \<longleftrightarrow> po_ID od' = po_ID od \<and> po_UserID od' = po_UserID od \<and>
     po_Amount od' = po_Amount od \<and> po_RechargeCode od' = po_RechargeCode od \<and>
     po_OrderType od' = po_OrderType od"

text \<open>
  A credited order is completed, or is being refunded after it was. An order that failed before
  it was paid cannot be told from one that failed after.
\<close>

definition credited_status :: "order_status \<Rightarrow> bool" where
  "credited_status st \<longleftrightarrow> st = OrderStatusCompleted \<or> psIsRefundStatus st"

definition paid_status :: "order_status \<Rightarrow> bool" where
  "paid_status st \<longleftrightarrow> credited_status st \<or> st = OrderStatusPaid \<or> st = OrderStatusRecharging \<or>
     st = OrderStatusFailed"

definition order_evolves :: "PaymentOrder \<Rightarrow> PaymentOrder \<Rightarrow> bool" where
  "order_evolves od od' \<longleftrightarrow> same_order od od' \<and>
     (paid_status (po_Status od) \<longrightarrow> paid_status (po_Status od'))"

definition same_code :: "RedeemCode \<Rightarrow> RedeemCode \<Rightarrow> bool" where
  "same_code r r' \<longleftrightarrow> rc_ID r' = rc_ID r \<and> rc_Code r' = rc_Code r \<and> rc_Type r' = rc_Type r \<and>
     rc_Value r' = rc_Value r"

text \<open>The balance codes a user has used, and what they were worth.\<close>

definition spent_on :: "int \<Rightarrow> RedeemCode \<Rightarrow> bool" where
  "spent_on u r \<longleftrightarrow> rc_IsUsed r \<and> rc_UsedBy r = Some u \<and> rc_Type r = RedeemTypeBalance"

definition credit_of :: "int \<Rightarrow> RedeemCode list \<Rightarrow> rat" where
  "credit_of u rs = sum_list (map (\<lambda>r. if spent_on u r \<and> rc_Value r > 0 then rc_Value r else 0) rs)"

definition account_evolves :: "int \<Rightarrow> store \<Rightarrow> store \<Rightarrow> bool" where
  "account_evolves u s t \<longleftrightarrow>
     (case (st_users s u, st_users t u) of
        (None, None) \<Rightarrow> True
      | (Some a, Some b) \<Rightarrow>
          us_TotalRecharged b - credit_of u (st_codes t) = us_TotalRecharged a - credit_of u (st_codes s) \<and>
          ((\<forall>r \<in> set (st_codes t). spent_on u r \<longrightarrow> rc_Value r \<ge> 0) \<longrightarrow>
             us_Balance b - credit_of u (st_codes t) = us_Balance a - credit_of u (st_codes s))
      | _ \<Rightarrow> False)"

definition orders_evolve :: "store \<Rightarrow> store \<Rightarrow> bool" where
  "orders_evolve s t \<longleftrightarrow> (\<forall>oid od. st_orders s oid = Some od \<longrightarrow>
     (\<exists>od'. st_orders t oid = Some od' \<and> order_evolves od od'))"

definition codes_evolve :: "RedeemCode list \<Rightarrow> RedeemCode list \<Rightarrow> bool" where
  "codes_evolve rs rs' \<longleftrightarrow> (\<forall>r \<in> set rs. \<exists>r' \<in> set rs'. same_code r r' \<and> (rc_IsUsed r \<longrightarrow> r' = r))"

definition assigned :: "int \<Rightarrow> store \<Rightarrow> bool" where
  "assigned oid s \<longleftrightarrow> hasPaymentSubscriptionAssignmentAudit oid s"

definition pay_evolves :: "store \<Rightarrow> store \<Rightarrow> bool" where
  "pay_evolves s t \<longleftrightarrow> orders_evolve s t \<and> codes_evolve (st_codes s) (st_codes t) \<and>
     (\<forall>oid. assigned oid s \<longrightarrow> assigned oid t) \<and> (\<forall>u. account_evolves u s t)"

lemma order_evolves_refl [simp]: "order_evolves od od"
  by (simp add: order_evolves_def same_order_def)

lemma order_evolves_trans: "order_evolves a b \<Longrightarrow> order_evolves b c \<Longrightarrow> order_evolves a c"
  by (simp add: order_evolves_def same_order_def)

lemma codes_evolve_refl [simp]: "codes_evolve rs rs"
  by (auto simp: codes_evolve_def same_code_def)

lemma codes_evolve_trans:
  assumes "codes_evolve a b" "codes_evolve b c"
  shows "codes_evolve a c"
  unfolding codes_evolve_def
proof
  fix r assume "r \<in> set a"
  then obtain r' where r': "r' \<in> set b" "same_code r r'" "rc_IsUsed r \<longrightarrow> r' = r"
    using assms(1) by (auto simp: codes_evolve_def)
  obtain r'' where "r'' \<in> set c" "same_code r' r''" "rc_IsUsed r' \<longrightarrow> r'' = r'"
    using assms(2) r'(1) by (auto simp: codes_evolve_def)
  with r' show "\<exists>r' \<in> set c. same_code r r' \<and> (rc_IsUsed r \<longrightarrow> r' = r)"
    by (intro bexI [of _ r'']) (auto simp: same_code_def)
qed

lemma codes_evolve_used: "codes_evolve rs rs' \<Longrightarrow> r \<in> set rs \<Longrightarrow> rc_IsUsed r \<Longrightarrow> r \<in> set rs'"
  by (auto simp: codes_evolve_def)

lemma account_evolves_refl [simp]: "account_evolves u s s"
  by (simp add: account_evolves_def split: option.split)

lemma account_evolves_trans:
  assumes "account_evolves u a b" "account_evolves u b c" "codes_evolve (st_codes b) (st_codes c)"
  shows "account_evolves u a c"
proof -
  have "\<forall>r \<in> set (st_codes b). spent_on u r \<longrightarrow> rc_Value r \<ge> 0"
    if "\<forall>r \<in> set (st_codes c). spent_on u r \<longrightarrow> rc_Value r \<ge> 0"
    using that codes_evolve_used [OF assms(3)] by (auto simp: spent_on_def)
  with assms(1,2) show ?thesis by (auto simp: account_evolves_def split: option.splits)
qed

section \<open>The invariant\<close>

text \<open>The code that pays for a balance order, once it is used.\<close>

definition pays_for :: "PaymentOrder \<Rightarrow> RedeemCode \<Rightarrow> bool" where
  "pays_for od r \<longleftrightarrow> rc_Code r = po_RechargeCode od \<and> rc_Type r = RedeemTypeBalance \<and>
     \<bar>rc_Value r - po_Amount od\<bar> \<le> 1 / 10 ^ 8 \<and> rc_IsUsed r \<and> rc_UsedBy r = Some (po_UserID od)"

definition order_delivered :: "store \<Rightarrow> PaymentOrder \<Rightarrow> bool" where
  "order_delivered s od \<longleftrightarrow>
     (if po_OrderType od = OrderTypeSubscription then assigned (po_ID od) s
      else \<exists>r \<in> set (st_codes s). pays_for od r)"

definition order_inv :: "store \<Rightarrow> int \<Rightarrow> PaymentOrder \<Rightarrow> bool" where
  "order_inv s oid od \<longleftrightarrow> po_ID od = oid \<and> 0 < oid \<and> oid < st_next_order s \<and>
     (\<exists>n. po_RechargeCode od = pay_code oid n) \<and>
     (credited_status (po_Status od) \<longrightarrow> order_delivered s od)"

definition codes_inv :: "store \<Rightarrow> bool" where
  "codes_inv s \<longleftrightarrow> distinct (map rc_Code (st_codes s)) \<and> distinct (map rc_ID (st_codes s)) \<and>
     (\<forall>r \<in> set (st_codes s). rc_ID r < st_next_code s)"

definition rebates_of :: "int \<Rightarrow> store \<Rightarrow> ledger_row list" where
  "rebates_of oid s = filter (\<lambda>l. le_SourceOrderID l = Some oid) (st_ledger s)"

definition rebates_inv :: "store \<Rightarrow> bool" where
  "rebates_inv s \<longleftrightarrow> (\<forall>oid. length (rebates_of oid s) \<le> 1 \<and>
     (rebates_of oid s \<noteq> [] \<longrightarrow> has_audit oid ''AFFILIATE_REBATE_APPLIED'' s))"

definition pay_inv :: "store \<Rightarrow> bool" where
  "pay_inv s \<longleftrightarrow> (\<forall>oid od. st_orders s oid = Some od \<longrightarrow> order_inv s oid od) \<and>
     0 < st_next_order s \<and> codes_inv s \<and> rebates_inv s"

lemma pays_for_evolves: "codes_evolve rs rs' \<Longrightarrow> r \<in> set rs \<Longrightarrow> pays_for od r \<Longrightarrow> r \<in> set rs'"
  by (simp add: codes_evolve_used pays_for_def)

lemma order_delivered_evolves:
  "codes_evolve (st_codes s) (st_codes t) \<Longrightarrow> (\<And>oid. assigned oid s \<Longrightarrow> assigned oid t) \<Longrightarrow>
   order_delivered s od \<Longrightarrow> order_delivered t od"
  using pays_for_evolves by (auto simp: order_delivered_def split: if_splits)

lemma same_order_delivered:
  "same_order od od' \<Longrightarrow> order_delivered s od' = order_delivered s od"
  by (simp add: order_delivered_def pays_for_def same_order_def)

interpretation pay: rely_guarantee pay_evolves pay_inv
proof unfold_locales
  show "pay_evolves s s" for s by (auto simp: pay_evolves_def orders_evolve_def)
  show "pay_evolves s u" if st: "pay_evolves s t" and tu: "pay_evolves t u" for s t u
  proof -
    have "orders_evolve s u" unfolding orders_evolve_def
    proof (intro allI impI)
      fix oid od assume "st_orders s oid = Some od"
      then obtain od1 where 1: "st_orders t oid = Some od1" "order_evolves od od1"
        using st unfolding pay_evolves_def orders_evolve_def by blast
      then obtain od2 where "st_orders u oid = Some od2" "order_evolves od1 od2"
        using tu unfolding pay_evolves_def orders_evolve_def by blast
      with 1 order_evolves_trans show "\<exists>od'. st_orders u oid = Some od' \<and> order_evolves od od'" by blast
    qed
    with st tu codes_evolve_trans account_evolves_trans show ?thesis
      unfolding pay_evolves_def by blast
  qed
qed

abbreviation pay_safe :: "('a \<Rightarrow> store \<Rightarrow> bool) \<Rightarrow> (store, 'a) prog \<Rightarrow> store \<Rightarrow> bool" where
  "pay_safe \<equiv> safe pay_evolves pay_inv"

section \<open>One statement at a time\<close>

text \<open>A statement that keeps the orders, codes, users, audit log and ledger is harmless.\<close>

lemma harmless_step:
  assumes "pay_inv s" "st_orders t = st_orders s" "st_next_order t = st_next_order s"
    "st_codes t = st_codes s"
    "st_next_code t = st_next_code s" "st_users t = st_users s" "st_audit t = st_audit s"
    "\<And>oid. rebates_of oid t = rebates_of oid s"
  shows "pay_evolves s t \<and> pay_inv t"
proof -
  have a: "has_audit oid act t = has_audit oid act s" for oid act
    using assms(7) by (simp add: has_audit_def)
  then have "order_inv t oid od = order_inv s oid od" for oid od
    using assms(3,4) by (simp add: order_inv_def order_delivered_def assigned_def
        hasPaymentSubscriptionAssignmentAudit_def)
  then have "pay_inv t"
    using assms a by (simp add: pay_inv_def codes_inv_def rebates_inv_def)
  moreover have "pay_evolves s t"
    using assms a by (auto simp: pay_evolves_def orders_evolve_def assigned_def account_evolves_def
        hasPaymentSubscriptionAssignmentAudit_def split: option.split)
  ultimately show ?thesis by blast
qed

lemma safe_read:
  "(\<And>t. pay_evolves s t \<Longrightarrow> pay_inv t \<Longrightarrow> pay_safe Q (k (Some (f t))) t) \<Longrightarrow>
   (\<And>t. pay_evolves s t \<Longrightarrow> pay_inv t \<Longrightarrow> pay_safe Q (k None) t) \<Longrightarrow>
   pay_safe Q (call (\<lambda>s. (s, f s)) k) s"
  by (rule pay.safe_call) (simp_all add: pay.evolves_refl)

lemma order_Get_read: "order_Get oid = (\<lambda>s. (s, st_orders s oid))"
  by (simp add: order_Get_def fun_eq_iff)

lemma code_GetByCode_read: "code_GetByCode c = (\<lambda>s. (s, find (\<lambda>r. rc_Code r = c) (st_codes s)))"
  by (simp add: code_GetByCode_def fun_eq_iff)

lemma code_GetByID_read: "code_GetByID i = (\<lambda>s. (s, find (\<lambda>r. rc_ID r = i) (st_codes s)))"
  by (simp add: code_GetByID_def fun_eq_iff)

lemmas reads = order_Get_read code_GetByCode_read code_GetByID_read

text \<open>Updating an order.\<close>

lemma order_Update_step:
  assumes inv: "pay_inv s"
    and upd: "\<And>od. st_orders s oid = Some od \<Longrightarrow> order_inv s oid od \<Longrightarrow> cond od \<Longrightarrow>
      order_evolves od (upd (od\<lparr>po_UpdatedAt := micros (st_clock s)\<rparr>)) \<and>
      order_inv s oid (upd (od\<lparr>po_UpdatedAt := micros (st_clock s)\<rparr>))"
  shows "pay_evolves s (fst (order_Update oid cond upd s)) \<and> pay_inv (fst (order_Update oid cond upd s))"
proof (cases "\<exists>od. st_orders s oid = Some od \<and> cond od")
  case True
  then obtain od where od: "st_orders s oid = Some od" "cond od" by blast
  let ?od = "upd (od\<lparr>po_UpdatedAt := micros (st_clock s)\<rparr>)"
  let ?t = "s\<lparr>st_orders := (st_orders s)(oid \<mapsto> ?od)\<rparr>"
  have t: "fst (order_Update oid cond upd s) = ?t" using od by (simp add: order_Update_def)
  have "order_inv s oid od" using inv od(1) by (simp add: pay_inv_def)
  from upd [OF od(1) this od(2)] have u: "order_evolves od ?od" "order_inv s oid ?od" by auto
  have same: "order_inv ?t i x = order_inv s i x" for i x
    by (simp add: order_inv_def order_delivered_def assigned_def has_audit_def
        hasPaymentSubscriptionAssignmentAudit_def)
  have "pay_inv ?t" using inv u(2) same
    by (simp add: pay_inv_def codes_inv_def rebates_inv_def rebates_of_def has_audit_def)
  moreover have "pay_evolves s ?t" using od(1) u(1)
    by (auto simp: pay_evolves_def orders_evolve_def assigned_def account_evolves_def has_audit_def
        hasPaymentSubscriptionAssignmentAudit_def split: option.split)
  ultimately show ?thesis by (simp add: t)
next
  case False
  then have "fst (order_Update oid cond upd s) = s"
    by (auto simp: order_Update_def split: option.split)
  with inv pay.evolves_refl show ?thesis by simp
qed

text \<open>Writing the audit log never hurts.\<close>

lemma audit_append_step:
  assumes "pay_inv s"
  shows "pay_evolves s (s\<lparr>st_audit := st_audit s @ rows\<rparr>) \<and> pay_inv (s\<lparr>st_audit := st_audit s @ rows\<rparr>)"
    (is "pay_evolves s ?t \<and> pay_inv ?t")
proof -
  have a: "has_audit oid act s \<Longrightarrow> has_audit oid act ?t" for oid act by (simp add: has_audit_def)
  have as: "assigned oid s \<Longrightarrow> assigned oid ?t" for oid
    using a by (auto simp: assigned_def hasPaymentSubscriptionAssignmentAudit_def)
  have "order_inv s oid od \<Longrightarrow> order_inv ?t oid od" for oid od
    using as order_delivered_evolves [of s ?t od] by (auto simp: order_inv_def)
  then have "pay_inv ?t" using assms a
    by (auto simp: pay_inv_def codes_inv_def rebates_inv_def rebates_of_def)
  moreover have "pay_evolves s ?t" using as
    by (auto simp: pay_evolves_def orders_evolve_def account_evolves_def split: option.split)
  ultimately show ?thesis by blast
qed

lemma audit_Create_step:
  "pay_inv s \<Longrightarrow> pay_evolves s (fst (audit_Create oid act op s)) \<and> pay_inv (fst (audit_Create oid act op s))"
  using audit_append_step pay.evolves_refl by (simp add: audit_Create_def)

lemma safe_writeAuditLog:
  "(\<And>t. pay_evolves s t \<Longrightarrow> pay_inv t \<Longrightarrow> pay_safe Q p t) \<Longrightarrow>
   pay_safe Q (writeAuditLog oid act op p) s"
  unfolding writeAuditLog_def
  by (rule pay.safe_call) (use audit_Create_step pay.evolves_trans in blast)+

lemma safe_hasAuditLog:
  "(\<And>t b. pay_evolves s t \<Longrightarrow> pay_inv t \<Longrightarrow> pay_safe Q (k b) t) \<Longrightarrow>
   pay_safe Q (hasAuditLog oid act k) s"
  unfolding hasAuditLog_def by (rule safe_read) auto

end
