(* ===== verification/PaymentTransactions.thy ===== *)
theory PaymentTransactions
  imports PaymentInvariant
begin

text \<open>
  The transactions of the payment subsystem under the contract of \<^verbatim>\<open>PaymentInvariant\<close>: creating
  a code, redeeming it, accruing the rebate of an order and assigning its subscription.
\<close>

section \<open>Creating a code\<close>

lemma credit_of_simps [simp]:
  "credit_of u [] = 0"
  "credit_of u (rs @ rs') = credit_of u rs + credit_of u rs'"
  "credit_of u (r # rs) = (if spent_on u r \<and> rc_Value r > 0 then rc_Value r else 0) + credit_of u rs"
  by (simp_all add: credit_of_def)

lemma not_spent: "rc_Status r = StatusUnused \<Longrightarrow> \<not> spent_on u r"
  by (simp add: spent_on_def rc_IsUsed_def StatusUnused_def StatusUsed_def)

lemma code_Create_step:
  assumes inv: "pay_inv s" and new: "rc_Status r = StatusUnused"
  shows "pay_evolves s (fst (code_Create r s)) \<and> pay_inv (fst (code_Create r s))"
proof (cases "list_ex (\<lambda>x. rc_Code x = rc_Code r) (st_codes s)")
  case True
  with inv pay.evolves_refl show ?thesis by (simp add: code_Create_def)
next
  case False
  let ?r = "r\<lparr>rc_ID := st_next_code s\<rparr>"
  let ?t = "s\<lparr>st_codes := st_codes s @ [?r], st_next_code := st_next_code s + 1\<rparr>"
  have t: "fst (code_Create r s) = ?t" using False by (simp add: code_Create_def)
  have ce: "codes_evolve (st_codes s) (st_codes ?t)"
    by (auto simp: codes_evolve_def same_code_def intro: bexI)
  have as: "assigned oid ?t = assigned oid s" for oid
    by (simp add: assigned_def hasPaymentSubscriptionAssignmentAudit_def has_audit_def)
  have "order_inv s oid od \<Longrightarrow> order_inv ?t oid od" for oid od
    using order_delivered_evolves [OF ce] as by (auto simp: order_inv_def)
  moreover have "codes_inv ?t"
    using inv False by (force simp: pay_inv_def codes_inv_def list_ex_iff)
  moreover have "rebates_inv ?t"
    using inv by (simp add: pay_inv_def rebates_inv_def rebates_of_def has_audit_def)
  ultimately have "pay_inv ?t" using inv by (auto simp: pay_inv_def)
  moreover have "account_evolves u s ?t" for u
    using new not_spent [of ?r] by (auto simp: account_evolves_def split: option.split)
  then have "pay_evolves s ?t" using ce as by (auto simp: pay_evolves_def orders_evolve_def)
  ultimately show ?thesis by (simp add: t)
qed

section \<open>Redeeming a code\<close>

definition use_row :: "int \<Rightarrow> int \<Rightarrow> go_time \<Rightarrow> RedeemCode \<Rightarrow> RedeemCode" where
  "use_row i userID now r =
     (if rc_ID r = i \<and> rc_Status r = StatusUnused
      then r\<lparr>rc_Status := StatusUsed, rc_UsedBy := Some userID, rc_UsedAt := Some now\<rparr> else r)"

lemma use_row_same [simp]: "same_code r (use_row i userID now r)"
  by (simp add: use_row_def same_code_def)

lemma use_row_used: "rc_IsUsed r \<Longrightarrow> use_row i userID now r = r"
  by (simp add: use_row_def rc_IsUsed_def StatusUnused_def StatusUsed_def)

lemma use_row_fields [simp]:
  "rc_ID (use_row i userID now r) = rc_ID r" "rc_Code (use_row i userID now r) = rc_Code r"
  by (simp_all add: use_row_def)

lemma map_use_row_other: "i \<notin> rc_ID ` set rs \<Longrightarrow> map (use_row i userID now) rs = rs"
  by (induction rs) (auto simp: use_row_def)

lemma credit_of_use:
  assumes "distinct (map rc_ID rs)" "r \<in> set rs" "rc_ID r = i" "rc_Status r = StatusUnused"
  shows "credit_of u (map (use_row i userID now) rs) = credit_of u rs +
    (if u = userID \<and> rc_Type r = RedeemTypeBalance \<and> rc_Value r > 0 then rc_Value r else 0)"
  using assms
proof (induction rs)
  case (Cons a rs)
  show ?case
  proof (cases "r = a")
    case True
    have "i \<notin> rc_ID ` set rs" using Cons.prems True by auto
    moreover have "spent_on u (use_row i userID now r) \<longleftrightarrow> u = userID \<and> rc_Type r = RedeemTypeBalance"
      "rc_Value (use_row i userID now r) = rc_Value r"
      using Cons.prems(3,4) by (auto simp: use_row_def spent_on_def rc_IsUsed_def)
    ultimately show ?thesis using True not_spent [OF Cons.prems(4)]
      by (simp add: map_use_row_other)
  next
    case False
    then have "use_row i userID now a = a" using Cons.prems by (auto simp: use_row_def)
    with False Cons show ?thesis by simp
  qed
qed simp

text \<open>What granting a code does to the rest of the store.\<close>

definition granted :: "RedeemCode \<Rightarrow> int \<Rightarrow> store \<Rightarrow> store \<Rightarrow> bool" where
  "granted rc userID s t \<longleftrightarrow> st_orders t = st_orders s \<and>
     st_next_order t = st_next_order s \<and> st_codes t = st_codes s \<and>
     st_next_code t = st_next_code s \<and> st_audit t = st_audit s \<and> st_ledger t = st_ledger s \<and>
     (\<forall>u. u \<noteq> userID \<longrightarrow> st_users t u = st_users s u) \<and>
     (case (st_users s userID, st_users t userID) of
        (None, None) \<Rightarrow> rc_Type rc \<noteq> RedeemTypeBalance
      | (Some a, Some b) \<Rightarrow>
          if rc_Type rc = RedeemTypeBalance then
            us_TotalRecharged b = us_TotalRecharged a + (if rc_Value rc > 0 then rc_Value rc else 0) \<and>
            (rc_Value rc \<ge> 0 \<longrightarrow> us_Balance b = us_Balance a + rc_Value rc)
          else us_TotalRecharged b = us_TotalRecharged a \<and> us_Balance b = us_Balance a
      | _ \<Rightarrow> False)"

lemma granted_subs:
  "rc_Type rc \<noteq> RedeemTypeBalance \<Longrightarrow>
   granted rc userID s (s\<lparr>st_subs := t, st_sub_ids := ids, st_next_sub := n\<rparr>)"
  by (simp add: granted_def split: option.split)

lemma lift_sub_granted:
  "lift_sub s r = (t, x) \<Longrightarrow> t = s\<lparr>st_subs := fst r\<rparr>"
  by (auto simp: lift_sub_def split: prod.splits sum.splits)

lemma assign_subscription_subs:
  "assign_subscription env inp s = (t, r) \<Longrightarrow>
   \<exists>subs ids n. t = s\<lparr>st_subs := subs, st_sub_ids := ids, st_next_sub := n\<rparr>"
proof -
  assume a: "assign_subscription env inp s = (t, r)"
  let ?l = "lift_sub s (assignOrExtendSubscription (pe_zone env) (map_option fst \<circ> pe_groups env)
    (st_subs s) (st_sub_ids s) (st_next_sub s) inp (st_clock s) (st_clock s))"
  obtain s1 x where l: "?l = (s1, x)" by fastforce
  obtain subs where s1: "s1 = s\<lparr>st_subs := subs\<rparr>" using lift_sub_granted [OF l] by blast
  have id: "s\<lparr>st_subs := subs\<rparr> = s\<lparr>st_subs := subs, st_sub_ids := st_sub_ids s, st_next_sub := st_next_sub s\<rparr>"
    by simp
  show ?thesis
  proof (cases x)
    case (Inl e)
    with a l s1 id show ?thesis by (simp add: assign_subscription_def) blast
  next
    case (Inr y)
    obtain sub reused where "y = (sub, reused)" by fastforce
    with Inr a l s1 id show ?thesis
      by (cases reused) (simp_all add: assign_subscription_def, blast+)
  qed
qed

lemma reduceOrCancelSubscription_subs:
  assumes a: "reduceOrCancelSubscription env u g d code s = (t, r)"
  shows "\<exists>subs. t = s\<lparr>st_subs := subs\<rparr>"
proof -
  have id: "s = s\<lparr>st_subs := st_subs s\<rparr>" by simp
  have fst_lift: "fst (lift_sub s x) = s\<lparr>st_subs := fst x\<rparr>" for x :: "unit sub_result"
    by (simp add: lift_sub_def split: prod.split sum.split)
  have t: "t = fst (reduceOrCancelSubscription env u g d code s)" using a by simp
  show ?thesis
  proof (cases "repo_GetByUserIDAndGroupID (st_subs s) (st_sub_ids s) u g")
    case (Inl e)
    then have "t = s" by (simp add: t reduceOrCancelSubscription_def Let_def)
    with id show ?thesis by metis
  next
    case (Inr sub)
    show ?thesis
    proof (cases "repo_GetByIDForUpdate (st_subs s) (ID sub)")
      case (Inl e)
      with Inr have "t = s" by (simp add: t reduceOrCancelSubscription_def Let_def)
      with id show ?thesis by metis
    next
      case (Inr sub')
      with \<open>repo_GetByUserIDAndGroupID _ _ _ _ = Inr sub\<close> show ?thesis
        by (simp only: t reduceOrCancelSubscription_def Let_def sum.case fst_lift) blast
    qed
  qed
qed

lemma grantCode_granted:
  assumes g: "grantCode env rc userID s = (t, Inr x)"
  shows "granted rc userID s t"
proof -
  have ty: "RedeemTypeConcurrency \<noteq> RedeemTypeBalance" "RedeemTypeSubscription \<noteq> RedeemTypeBalance"
    by (simp_all add: RedeemTypeConcurrency_def RedeemTypeSubscription_def RedeemTypeBalance_def)
  have sub: "granted rc userID s (s\<lparr>st_subs := a\<rparr>)" if "rc_Type rc = RedeemTypeSubscription" for a
    using granted_subs [where rc = rc and userID = userID and s = s and t = a and
        ids = "st_sub_ids s" and n = "st_next_sub s"] that ty by simp
  consider (bal) "rc_Type rc = RedeemTypeBalance" | (con) "rc_Type rc = RedeemTypeConcurrency"
    | (sub) gid where "rc_Type rc = RedeemTypeSubscription" "rc_GroupID rc = Some gid"
    using g by (auto simp: grantCode_def split: if_splits option.splits)
  then show ?thesis
  proof cases
    case bal
    with g show ?thesis
      by (auto simp: grantCode_def granted_def user_ApplyRedeemBalanceAdjustment_def
          user_UpdateBalance_def user_modify_def split: if_splits option.splits)
  next
    case con
    with g ty show ?thesis
      by (auto simp: grantCode_def granted_def user_ApplyRedeemConcurrencyAdjustment_def Let_def
          user_UpdateConcurrency_def user_modify_def split: if_splits option.splits)
  next
    case sub
    show ?thesis
    proof (cases "rc_ValidityDays rc < 0")
      case True
      with g sub ty have "reduceOrCancelSubscription env userID gid (- rc_ValidityDays rc) (rc_Code rc) s = (t, Inr x)"
        by (simp add: grantCode_def RedeemTypeConcurrency_def RedeemTypeSubscription_def)
      then obtain subs where "t = s\<lparr>st_subs := subs\<rparr>" using reduceOrCancelSubscription_subs by blast
      then show ?thesis using \<open>\<And>a. rc_Type rc = RedeemTypeSubscription \<Longrightarrow> granted rc userID s (s\<lparr>st_subs := a\<rparr>)\<close>
        sub(1) by simp
    next
      case False
      let ?inp = "\<lparr>in_UserID = userID, in_GroupID = gid,
          in_ValidityDays = (if rc_ValidityDays rc = 0 then 30 else rc_ValidityDays rc),
          in_AssignedBy = 0, in_Notes = redeemNotes (rc_Code rc)\<rparr>"
      obtain s1 y where a: "assign_subscription env ?inp s = (s1, y)" by fastforce
      have "t = s1" using g sub False a ty
        by (cases y) (auto simp: grantCode_def RedeemTypeConcurrency_def RedeemTypeSubscription_def)
      with assign_subscription_subs [OF a] granted_subs sub(1) ty show ?thesis by metis
    qed
  qed
qed

text \<open>A code read earlier is still there, whatever its status is by now.\<close>

definition known_code :: "RedeemCode \<Rightarrow> store \<Rightarrow> bool" where
  "known_code rc s \<longleftrightarrow> (\<exists>r \<in> set (st_codes s). same_code rc r)"

lemma known_code_evolves: "known_code rc s \<Longrightarrow> pay_evolves s t \<Longrightarrow> known_code rc t"
  unfolding known_code_def pay_evolves_def codes_evolve_def same_code_def by metis

lemma known_code_member: "rc \<in> set (st_codes s) \<Longrightarrow> known_code rc s"
  by (auto simp: known_code_def same_code_def)

lemma redeemTx_cases:
  assumes "redeemTx env rc userID s = (t, r)"
  obtains e where "t = s" "r = Inl e"
  | s1 where "code_Use (rc_ID rc) userID s = (s1, Inr ())" "grantCode env rc userID s1 = (t, Inr ())"
      "r = Inr ()"
proof -
  obtain s1 x where 1: "code_Use (rc_ID rc) userID s = (s1, x)" by fastforce
  obtain s2 y where 2: "grantCode env rc userID s1 = (s2, y)" by fastforce
  show thesis
  proof (cases x)
    case (Inl e)
    with 1 assms have "t = s" "r = Inl e" by (simp_all add: redeemTx_def in_tx_def)
    then show thesis by (rule that(1))
  next
    case xr: (Inr _)
    show thesis
    proof (cases y)
      case (Inl e)
      with 1 2 xr assms have "t = s" "r = Inl e" by (simp_all add: redeemTx_def in_tx_def)
      then show thesis by (rule that(1))
    next
      case (Inr _)
      with 1 2 xr assms have "code_Use (rc_ID rc) userID s = (s1, Inr ())"
        "grantCode env rc userID s1 = (t, Inr ())" "r = Inr ()"
        by (simp_all add: redeemTx_def in_tx_def)
      then show thesis by (rule that(2))
    qed
  qed
qed

lemma code_Use_Inr:
  assumes "code_Use i userID s = (s1, Inr ())"
  shows "s1 = s\<lparr>st_codes := map (use_row i userID (st_clock s)) (st_codes s)\<rparr> \<and>
    (\<exists>r \<in> set (st_codes s). rc_ID r = i \<and> rc_Status r = StatusUnused)"
  using assms
  by (auto simp: code_Use_def code_Update_def Let_def use_row_def [abs_def] filter_empty_conv
      split: if_splits)

lemma redeemTx_step:
  assumes inv: "pay_inv s" and known: "known_code rc s" and tx: "redeemTx env rc userID s = (t, r)"
  shows "pay_evolves s t \<and> pay_inv t \<and> (r = Inr () \<longrightarrow>
    (\<exists>r \<in> set (st_codes t). same_code rc r \<and> rc_IsUsed r \<and> rc_UsedBy r = Some userID))"
  using tx
proof (cases rule: redeemTx_cases)
  case (1 e)
  with inv pay.evolves_refl show ?thesis by simp
next
  case (2 s1)
  let ?use = "use_row (rc_ID rc) userID (st_clock s)"
  have s1: "s1 = s\<lparr>st_codes := map ?use (st_codes s)\<rparr>" using code_Use_Inr [OF 2(1)] by blast
  obtain r0 where r0: "r0 \<in> set (st_codes s)" "rc_ID r0 = rc_ID rc" "rc_Status r0 = StatusUnused"
    using code_Use_Inr [OF 2(1)] by blast
  have g: "granted rc userID s1 t" by (rule grantCode_granted [OF 2(2)])
  have codes: "st_codes t = map ?use (st_codes s)" using g s1 by (simp add: granted_def)
  have ids: "distinct (map rc_ID (st_codes s))" using inv by (simp add: pay_inv_def codes_inv_def)
  obtain r1 where "r1 \<in> set (st_codes s)" "same_code rc r1" using known by (auto simp: known_code_def)
  then have same: "same_code rc r0"
    using ids r0(1,2) by (metis distinct_map inj_onD same_code_def)
  have ce: "codes_evolve (st_codes s) (st_codes t)"
    unfolding codes_evolve_def codes using use_row_used by (auto intro!: bexI)
  have au: "has_audit oid act t = has_audit oid act s" for oid act
    using g s1 by (simp add: granted_def has_audit_def)
  then have as: "assigned oid t = assigned oid s" for oid
    by (simp add: assigned_def hasPaymentSubscriptionAssignmentAudit_def)
  have orders: "st_orders t = st_orders s" using g s1 by (simp add: granted_def)
  have "order_inv s oid od \<Longrightarrow> order_inv t oid od" for oid od
    using order_delivered_evolves [OF ce] as g s1 by (auto simp: order_inv_def granted_def)
  moreover have "codes_inv t" using inv g s1
    by (auto simp: pay_inv_def codes_inv_def granted_def comp_def)
  moreover have "rebates_inv t" using inv g s1 au
    by (simp add: pay_inv_def rebates_inv_def rebates_of_def granted_def)
  moreover have "st_next_order t = st_next_order s" using g s1 by (simp add: granted_def)
  ultimately have "pay_inv t" using inv orders by (auto simp: pay_inv_def)
  moreover have "account_evolves u s t" for u
  proof (cases "u = userID")
    case False
    have "credit_of u (st_codes t) = credit_of u (st_codes s)"
      using credit_of_use [OF ids r0, of u userID] False by (simp add: codes)
    with False g s1 show ?thesis by (simp add: account_evolves_def granted_def split: option.split)
  next
    case True
    let ?inc = "if rc_Type rc = RedeemTypeBalance \<and> rc_Value rc > 0 then rc_Value rc else 0"
    have cr: "credit_of u (st_codes t) = credit_of u (st_codes s) + ?inc"
      using credit_of_use [OF ids r0, of u userID] True same by (simp add: codes same_code_def)
    have neg: "\<not> (\<forall>r \<in> set (st_codes t). spent_on u r \<longrightarrow> rc_Value r \<ge> 0)"
      if "rc_Type rc = RedeemTypeBalance" "rc_Value rc < 0"
    proof -
      have "spent_on u (?use r0)" "rc_Value (?use r0) < 0"
        using r0 same that True by (auto simp: spent_on_def use_row_def rc_IsUsed_def same_code_def)
      moreover have "?use r0 \<in> set (st_codes t)" using r0(1) by (simp add: codes)
      ultimately show ?thesis by force
    qed
    show ?thesis
    proof (cases "st_users s userID")
      case None
      with g s1 True cr show ?thesis
        by (auto simp: account_evolves_def granted_def split: option.splits)
    next
      case (Some a)
      then obtain b where b: "st_users t userID = Some b"
        using g s1 by (auto simp: granted_def split: option.splits)
      have "us_TotalRecharged b = us_TotalRecharged a + ?inc"
        using g s1 Some b by (simp add: granted_def split: if_splits)
      moreover have "us_Balance b = us_Balance a + ?inc"
        if "\<forall>r \<in> set (st_codes t). spent_on u r \<longrightarrow> rc_Value r \<ge> 0"
        using g s1 Some b that neg by (fastforce simp: granted_def split: if_splits)
      ultimately show ?thesis using Some b True cr by (simp add: account_evolves_def)
    qed
  qed
  ultimately have "pay_evolves s t \<and> pay_inv t"
    using ce as orders by (auto simp: pay_evolves_def orders_evolve_def)
  moreover have "same_code rc (?use r0) \<and> rc_IsUsed (?use r0) \<and> rc_UsedBy (?use r0) = Some userID"
    using r0 same by (simp add: use_row_def same_code_def rc_IsUsed_def)
  moreover have "?use r0 \<in> set (st_codes t)" using r0(1) by (simp add: codes)
  ultimately show ?thesis by blast
qed

section \<open>The rebate of an order\<close>

lemma ledger_step:
  assumes "pay_inv s" "rebates_inv (s\<lparr>st_affiliates := a, st_ledger := l\<rparr>)"
  shows "pay_evolves s (s\<lparr>st_affiliates := a, st_ledger := l\<rparr>) \<and> pay_inv (s\<lparr>st_affiliates := a, st_ledger := l\<rparr>)"
    (is "pay_evolves s ?t \<and> pay_inv ?t")
proof -
  have "order_inv ?t oid od = order_inv s oid od" for oid od
    by (simp add: order_inv_def order_delivered_def assigned_def
        hasPaymentSubscriptionAssignmentAudit_def has_audit_def)
  then have "pay_inv ?t" using assms by (simp add: pay_inv_def codes_inv_def)
  moreover have "pay_evolves s ?t"
    by (auto simp: pay_evolves_def orders_evolve_def assigned_def account_evolves_def has_audit_def
        hasPaymentSubscriptionAssignmentAudit_def split: option.split)
  ultimately show ?thesis by blast
qed

text \<open>An unclaimed rebate leaves one audit row, and the ledger row that it stands for.\<close>

lemma rebateTx_cases:
  assumes tx: "rebateTx env cfg oid userID base s = (t, r)"
  obtains "t = s"
  | a l row where "t = s\<lparr>st_audit := st_audit s @ [row], st_affiliates := a, st_ledger := st_ledger s @ l\<rparr>"
      "\<not> has_audit oid ''AFFILIATE_REBATE_APPLIED'' s" "au_OrderID row = oid"
      "l = [] \<or> (\<exists>x. l = [x] \<and> le_SourceOrderID x = Some oid \<and> au_Action row = ''AFFILIATE_REBATE_APPLIED'')"
proof -
  let ?A = "''AFFILIATE_REBATE_APPLIED''"
  let ?row = "\<lparr>au_OrderID = oid, au_Action = ?A, au_Operator = ''system'', au_CreatedAt = st_clock s\<rparr>"
  let ?s1 = "s\<lparr>st_audit := st_audit s @ [?row]\<rparr>"
  show thesis
  proof (cases "has_audit oid ?A s \<or> has_audit oid ''AFFILIATE_REBATE_SKIPPED'' s")
    case True
    then have "t = s" using tx by (auto simp: rebateTx_def in_tx_def tryClaimAffiliateRebateAudit_def)
    then show thesis by (rule that(1))
  next
    case False
    then have claim: "tryClaimAffiliateRebateAudit oid s = (?s1, True)"
      by (simp add: tryClaimAffiliateRebateAudit_def audit_Create_def)
    obtain u x where acc: "AccrueInviteRebateForOrder (pe_zone env) cfg userID base (Some oid) ?s1 = (u, x)"
      by fastforce
    show thesis
    proof (cases x)
      case (Inl e)
      then have "t = s" using tx claim acc by (simp add: rebateTx_def in_tx_def)
      then show thesis by (rule that(1))
    next
      case (Inr rebate)
      let ?act = "if rebate \<le> 0 then ''AFFILIATE_REBATE_SKIPPED'' else ?A"
      note led = AccrueInviteRebateForOrder_ledger [OF acc [unfolded Inr]]
      obtain a l0 where u: "u = ?s1\<lparr>st_affiliates := a, st_ledger := l0\<rparr>"
        using led unfolding same_but_affiliates_def by blast
      have old: "map (\<lambda>x. if au_OrderID x = oid \<and> au_Action x = ?A
          then x\<lparr>au_Action := ?act, au_Operator := ''system''\<rparr> else x) (st_audit s) = st_audit s"
        using False by (intro map_idI) (auto simp: has_audit_def list_ex_iff)
      have "has_audit oid ?A u" by (simp add: u has_audit_def)
      then have t: "t = u\<lparr>st_audit := st_audit s @ [?row\<lparr>au_Action := ?act\<rparr>]\<rparr>"
        using tx claim acc Inr old u
        by (simp add: rebateTx_def in_tx_def updateClaimedAffiliateRebateAudit_def)
      obtain l where l: "l0 = st_ledger s @ l" "l = [] \<or>
          (\<exists>x. l = [x] \<and> le_SourceOrderID x = Some oid \<and> ?act = ?A)"
        using led u by (cases "rebate = 0") auto
      show thesis
      proof (rule that(2))
        show "t = s\<lparr>st_audit := st_audit s @ [?row\<lparr>au_Action := ?act\<rparr>], st_affiliates := a,
            st_ledger := st_ledger s @ l\<rparr>" by (simp add: t u l)
      qed (use False l in auto)
    qed
  qed
qed

lemma rebateTx_step:
  assumes inv: "pay_inv s" and tx: "rebateTx env cfg oid userID base s = (t, r)"
  shows "pay_evolves s t \<and> pay_inv t"
  using tx
proof (cases rule: rebateTx_cases)
  case 1
  with inv pay.evolves_refl show ?thesis by simp
next
  case (2 a l row)
  let ?s1 = "s\<lparr>st_audit := st_audit s @ [row]\<rparr>"
  note s1 = audit_append_step [OF inv, of "[row]"]
  have t: "t = ?s1\<lparr>st_affiliates := a, st_ledger := st_ledger s @ l\<rparr>" by (simp add: 2)
  have none: "rebates_of oid s = []" using inv 2(2) by (auto simp: pay_inv_def rebates_inv_def)
  have reb: "rebates_of i t = rebates_of i s @ filter (\<lambda>x. le_SourceOrderID x = Some i) l" for i
    by (simp add: t rebates_of_def)
  have au: "has_audit i act s \<Longrightarrow> has_audit i act t" for i act
    by (simp add: t has_audit_def)
  have "length (rebates_of i t) \<le> 1 \<and>
     (rebates_of i t \<noteq> [] \<longrightarrow> has_audit i ''AFFILIATE_REBATE_APPLIED'' t)" for i
  proof (cases "i = oid \<and> l \<noteq> []")
    case True
    then have "has_audit i ''AFFILIATE_REBATE_APPLIED'' t" using 2 by (auto simp: t has_audit_def)
    with True none 2(4) show ?thesis by (auto simp: reb)
  next
    case False
    then have "rebates_of i t = rebates_of i s" using 2(4) by (auto simp: reb)
    with inv au show ?thesis by (auto simp: pay_inv_def rebates_inv_def)
  qed
  then have "rebates_inv t" by (simp add: rebates_inv_def)
  then have "pay_evolves ?s1 t \<and> pay_inv t" unfolding t by (intro ledger_step) (use s1 in blast)+
  with s1 pay.evolves_trans show ?thesis by blast
qed

section \<open>Assigning a subscription\<close>

lemma assignmentTx_step:
  assumes inv: "pay_inv s" and tx: "assignmentTx env od groupID days s = (t, r)"
  shows "pay_evolves s t \<and> pay_inv t \<and> (r = Inr () \<longrightarrow> assigned (po_ID od) t)"
proof (cases "hasPaymentSubscriptionAssignmentAudit (po_ID od) s")
  case True
  with tx have "t = s" by (simp add: assignmentTx_def in_tx_def)
  with True inv pay.evolves_refl show ?thesis by (simp add: assigned_def)
next
  case False
  let ?note = "paymentSubscriptionOrderNote (po_ID od)"
  let ?inp = "\<lparr>in_UserID = po_UserID od, in_GroupID = groupID, in_ValidityDays = days,
              in_AssignedBy = 0, in_Notes = ?note\<rparr>"
  define assign where "assign = then_tx (assign_subscription env ?inp s) (\<lambda>s _. (s, Inr ()))"
  define run where "run =
     (case repo_GetByUserIDAndGroupID (st_subs s) (st_sub_ids s) (po_UserID od) groupID of
        Inr existing \<Rightarrow> if hasPaymentSubscriptionOrderNote (Notes existing) ?note then (s, Inr ()) else assign
      | Inl e \<Rightarrow> if e \<noteq> ErrSubscriptionNotFound then (s, Inl (SubscriptionFailed e)) else assign)"
  have id: "s = s\<lparr>st_subs := st_subs s, st_sub_ids := st_sub_ids s, st_next_sub := st_next_sub s\<rparr>"
    by simp
  obtain u x where run: "run = (u, x)" by fastforce
  obtain v y where as: "assign_subscription env ?inp s = (v, y)" by fastforce
  have "u = s \<or> u = v" using run as
    by (cases y) (auto simp: run_def assign_def split: sum.splits if_splits)
  then obtain a b c where u: "u = s\<lparr>st_subs := a, st_sub_ids := b, st_next_sub := c\<rparr>"
    using id assign_subscription_subs [OF as] by metis
  have step_u: "pay_evolves s u \<and> pay_inv u"
    by (rule harmless_step [OF inv]) (simp_all add: u rebates_of_def)
  have tx': "in_tx (\<lambda>s. then_tx run (\<lambda>s _.
      let (s, ok) = audit_Create (po_ID od) ''SUBSCRIPTION_ASSIGNED'' ''system'' s
      in (s, if ok then Inr () else Inl StoreError))) s = (t, r)"
    using tx unfolding assignmentTx_def in_tx_def Let_def if_not_P [OF False] run_def assign_def .
  show ?thesis
  proof (cases x)
    case (Inl e)
    with tx' run have "t = s" "r = Inl e" by (auto simp: in_tx_def)
    with inv pay.evolves_refl show ?thesis by simp
  next
    case (Inr z)
    have "\<not> has_audit (po_ID od) ''SUBSCRIPTION_ASSIGNED'' u"
      using False by (simp add: u hasPaymentSubscriptionAssignmentAudit_def has_audit_def)
    with tx' run Inr have t: "t = fst (audit_Create (po_ID od) ''SUBSCRIPTION_ASSIGNED'' ''system'' u)"
      by (auto simp: in_tx_def audit_Create_def)
    moreover have "assigned (po_ID od) t"
      by (simp add: t assigned_def hasPaymentSubscriptionAssignmentAudit_def audit_Create_def has_audit_def)
    ultimately show ?thesis
      using audit_Create_step step_u pay.evolves_trans by blast
  qed
qed

end
