(* ===== verification/PaymentSafety.thy ===== *)
theory PaymentSafety
  imports PaymentTransactions
begin

text \<open>
  Every program of the payment subsystem keeps \<open>pay_inv\<close> and lets the store evolve as
  \<open>pay_evolves\<close> allows, whatever else runs in between. The rules are stated per function of the
  code; a postcondition is kept only where a caller needs it.
\<close>

named_theorems stable \<open>facts that survive the steps of the other programs\<close>

lemma safe_Return [simp]: "pay_safe Q (Return a) s \<longleftrightarrow> Q a s"
  by simp

lemma safe_if:
  "(b \<Longrightarrow> pay_safe Q p s) \<Longrightarrow> (\<not> b \<Longrightarrow> pay_safe Q q s) \<Longrightarrow> pay_safe Q (if b then p else q) s"
  by simp

lemma safe_cases:
  "pay_safe Q a s \<Longrightarrow> (\<And>x. pay_safe Q (b x) s) \<Longrightarrow>
     pay_safe Q (case v of None \<Rightarrow> a | Some x \<Rightarrow> b x) s"
  "(\<And>e. pay_safe Q (f e) s) \<Longrightarrow> (\<And>x. pay_safe Q (g x) s) \<Longrightarrow>
     pay_safe Q (case r of Inl e \<Rightarrow> f e | Inr x \<Rightarrow> g x) s"
  "pay_safe Q p s \<Longrightarrow> pay_safe Q q s \<Longrightarrow> pay_safe Q (case c of True \<Rightarrow> p | False \<Rightarrow> q) s"
  "(\<And>x y. pay_safe Q (h x y) s) \<Longrightarrow> pay_safe Q (case z of (x, y) \<Rightarrow> h x y) s"
  by (simp_all split: option.split sum.split bool.split prod.split)

text \<open>A call whose answer does not matter, and an update of an order.\<close>

lemma safe_any_call:
  assumes "\<And>t. pay_inv t \<Longrightarrow> pay_evolves t (fst (f t)) \<and> pay_inv (fst (f t))"
    "\<And>t x. pay_evolves s t \<Longrightarrow> pay_inv t \<Longrightarrow> pay_safe Q (k x) t"
  shows "pay_safe Q (call f k) s"
  by (rule pay.safe_calls) (use assms in blast)+

lemma safe_any_read:
  "(\<And>t x. pay_evolves s t \<Longrightarrow> pay_inv t \<Longrightarrow> pay_safe Q (k x) t) \<Longrightarrow>
   pay_safe Q (call (\<lambda>s. (s, f s)) k) s"
  by (rule safe_read) blast+

lemma safe_order_Get:
  assumes "\<And>t od. pay_evolves s t \<Longrightarrow> pay_inv t \<Longrightarrow> st_orders t oid = Some od \<Longrightarrow>
      order_inv t oid od \<Longrightarrow> pay_safe Q (k (Some (Some od))) t"
    "\<And>t. pay_evolves s t \<Longrightarrow> pay_inv t \<Longrightarrow> pay_safe Q (k (Some None)) t"
    "\<And>t. pay_evolves s t \<Longrightarrow> pay_inv t \<Longrightarrow> pay_safe Q (k None) t"
  shows "pay_safe Q (call (order_Get oid) k) s"
  unfolding order_Get_read
proof (rule safe_read)
  fix t assume t: "pay_evolves s t" "pay_inv t"
  show "pay_safe Q (k (Some (st_orders t oid))) t"
  proof (cases "st_orders t oid")
    case (Some od)
    with t(2) have "order_inv t oid od" by (simp add: pay_inv_def)
    with assms(1) t Some show ?thesis by simp
  qed (simp add: assms(2) t)
qed (rule assms(3))

lemma safe_order_Update:
  assumes "\<And>t od now. pay_evolves s t \<Longrightarrow> pay_inv t \<Longrightarrow> st_orders t oid = Some od \<Longrightarrow>
      order_inv t oid od \<Longrightarrow> cond od \<Longrightarrow>
      order_evolves od (upd (od\<lparr>po_UpdatedAt := now\<rparr>)) \<and> order_inv t oid (upd (od\<lparr>po_UpdatedAt := now\<rparr>))"
    "\<And>t x. pay_evolves s t \<Longrightarrow> pay_inv t \<Longrightarrow> pay_safe Q (k x) t"
  shows "pay_safe Q (call (order_Update oid cond upd) k) s"
proof (rule pay.safe_calls)
  fix t assume "pay_evolves s t" "pay_inv t"
  with assms(1) show "pay_evolves t (fst (order_Update oid cond upd t)) \<and>
      pay_inv (fst (order_Update oid cond upd t))"
    by (intro order_Update_step)
qed (use assms(2) in blast)+

section \<open>Stable knowledge\<close>

text \<open>The order as it was read; its payment code; a code that its user has spent.\<close>

definition known_order :: "PaymentOrder \<Rightarrow> store \<Rightarrow> bool" where
  "known_order od s \<longleftrightarrow> trim_space (po_RechargeCode od) = po_RechargeCode od \<and>
     (\<exists>od'. st_orders s (po_ID od) = Some od' \<and> same_order od od')"

definition code_ready :: "PaymentOrder \<Rightarrow> store \<Rightarrow> bool" where
  "code_ready od s \<longleftrightarrow> (\<exists>r \<in> set (st_codes s). rc_Code r = po_RechargeCode od \<and>
     rc_Type r = RedeemTypeBalance \<and> \<bar>rc_Value r - po_Amount od\<bar> \<le> 1 / 10 ^ 8)"

definition code_spent :: "string \<Rightarrow> int \<Rightarrow> store \<Rightarrow> bool" where
  "code_spent c u s \<longleftrightarrow> (\<exists>r \<in> set (st_codes s). rc_Code r = c \<and> rc_IsUsed r \<and> rc_UsedBy r = Some u)"

lemma known_order_stable [stable]:
  assumes "known_order od s" "pay_evolves s t"
  shows "known_order od t"
proof -
  obtain a where a: "st_orders s (po_ID od) = Some a" "same_order od a"
    using assms(1) by (auto simp: known_order_def)
  then obtain b where "st_orders t (po_ID od) = Some b" "order_evolves a b"
    using assms(2) unfolding pay_evolves_def orders_evolve_def by blast
  with a assms(1) show ?thesis by (auto simp: known_order_def order_evolves_def same_order_def)
qed

lemma known_order_read: "st_orders s oid = Some od \<Longrightarrow> order_inv s oid od \<Longrightarrow> known_order od s"
  by (auto simp: known_order_def order_inv_def same_order_def pay_code_trim)

lemma code_ready_stable [stable]:
  assumes "code_ready od s" "pay_evolves s t"
  shows "code_ready od t"
proof -
  obtain r where r: "r \<in> set (st_codes s)" "rc_Code r = po_RechargeCode od"
      "rc_Type r = RedeemTypeBalance" "\<bar>rc_Value r - po_Amount od\<bar> \<le> 1 / 10 ^ 8"
    using assms(1) unfolding code_ready_def by blast
  then obtain r' where "r' \<in> set (st_codes t)" "same_code r r'"
    using assms(2) unfolding pay_evolves_def codes_evolve_def by blast
  with r show ?thesis unfolding code_ready_def same_code_def by (intro bexI [of _ r']) simp_all
qed

lemma code_spent_stable [stable]: "code_spent c u s \<Longrightarrow> pay_evolves s t \<Longrightarrow> code_spent c u t"
  unfolding code_spent_def pay_evolves_def codes_evolve_def by metis

lemma order_delivered_stable [stable]:
  "order_delivered s od \<Longrightarrow> pay_evolves s t \<Longrightarrow> order_delivered t od"
  unfolding pay_evolves_def using order_delivered_evolves by blast

lemma assigned_stable [stable]: "assigned oid s \<Longrightarrow> pay_evolves s t \<Longrightarrow> assigned oid t"
  by (simp add: pay_evolves_def)

lemmas known_code_stable [stable] = known_code_evolves

text \<open>A code is unique, so the one that is spent is the one that was made ready.\<close>

lemma delivered_balance:
  assumes "pay_inv s" "po_OrderType od \<noteq> OrderTypeSubscription" "code_ready od s"
    "code_spent (po_RechargeCode od) (po_UserID od) s"
  shows "order_delivered s od"
proof -
  obtain r where r: "r \<in> set (st_codes s)" "rc_Code r = po_RechargeCode od"
      "rc_Type r = RedeemTypeBalance" "\<bar>rc_Value r - po_Amount od\<bar> \<le> 1 / 10 ^ 8"
    using assms(3) unfolding code_ready_def by blast
  obtain x where x: "x \<in> set (st_codes s)" "rc_Code x = po_RechargeCode od" "rc_IsUsed x"
      "rc_UsedBy x = Some (po_UserID od)"
    using assms(4) unfolding code_spent_def by blast
  have "inj_on rc_Code (set (st_codes s))"
    using assms(1) by (simp add: pay_inv_def codes_inv_def distinct_map)
  from inj_onD [OF this, of x r] have "x = r" using r x by simp
  with r x assms(2) show ?thesis by (auto simp: order_delivered_def pays_for_def)
qed

section \<open>Redeeming\<close>

lemma cache_steps:
  "pay_inv s \<Longrightarrow> pay_evolves s (fst (cache_IncrementRedeemAttemptCount u s)) \<and>
     pay_inv (fst (cache_IncrementRedeemAttemptCount u s))"
  "pay_inv s \<Longrightarrow> pay_evolves s (fst (cache_AcquireRedeemLock c d s)) \<and>
     pay_inv (fst (cache_AcquireRedeemLock c d s))"
  "pay_inv s \<Longrightarrow> pay_evolves s (fst (cache_ReleaseRedeemLock c s)) \<and>
     pay_inv (fst (cache_ReleaseRedeemLock c s))"
  by (rule harmless_step; simp add: rebates_of_def cache_IncrementRedeemAttemptCount_def
      cache_AcquireRedeemLock_def cache_ReleaseRedeemLock_def)+

lemma Accrue_Inr: "\<exists>t r. AccrueInviteRebateForOrder z cfg u b source s = (t, Inr r)"
  by (auto simp: AccrueInviteRebateForOrder_def EnsureUserAffiliate_def then_tx_def Let_def
      split: option.splits prod.splits)

lemma Accrue_step:
  assumes inv: "pay_inv s"
  shows "pay_evolves s (fst (AccrueInviteRebateForOrder z cfg u b None s)) \<and>
    pay_inv (fst (AccrueInviteRebateForOrder z cfg u b None s))"
proof -
  obtain t r where a: "AccrueInviteRebateForOrder z cfg u b None s = (t, Inr r)"
    using Accrue_Inr by blast
  note led = AccrueInviteRebateForOrder_ledger [OF a]
  obtain af l where t: "t = s\<lparr>st_affiliates := af, st_ledger := l\<rparr>"
    using led unfolding same_but_affiliates_def by blast
  have "rebates_of oid t = rebates_of oid s" for oid
    using led by (auto simp: rebates_of_def split: if_splits)
  then have "pay_evolves s t \<and> pay_inv t" by (intro harmless_step [OF inv]) (simp_all add: t)
  then show ?thesis by (simp add: a)
qed

lemma safe_checkRedeemRateLimit:
  "pay_inv s \<Longrightarrow> (\<And>t b. pay_evolves s t \<Longrightarrow> pay_inv t \<Longrightarrow> pay_safe Q (k b) t) \<Longrightarrow>
   pay_safe Q (checkRedeemRateLimit enforce u k) s"
  unfolding checkRedeemRateLimit_def cache_GetRedeemAttemptCount_def [abs_def]
  by (auto intro!: safe_any_read simp: pay.evolves_refl)

lemma safe_incrementRedeemErrorCount:
  "pay_inv s \<Longrightarrow> (\<And>t. pay_evolves s t \<Longrightarrow> pay_inv t \<Longrightarrow> pay_safe Q p t) \<Longrightarrow>
   pay_safe Q (incrementRedeemErrorCount enforce u p) s"
  unfolding incrementRedeemErrorCount_def
  by (auto intro!: safe_any_call simp: pay.evolves_refl cache_steps)

lemma safe_tryAccrue:
  "pay_inv s \<Longrightarrow> (\<And>t. pay_evolves s t \<Longrightarrow> pay_inv t \<Longrightarrow> pay_safe Q p t) \<Longrightarrow>
   pay_safe Q (tryAccrueAffiliateRebateForRedeem env skip rc u p) s"
  unfolding tryAccrueAffiliateRebateForRedeem_def
  by (auto intro!: safe_any_call simp: pay.evolves_refl Accrue_step split: option.split)

text \<open>What a redemption that succeeds leaves behind.\<close>

definition spends :: "string \<Rightarrow> int \<Rightarrow> pay_error + RedeemCode \<Rightarrow> store \<Rightarrow> bool" where
  "spends code u r s \<longleftrightarrow> (case r of Inl _ \<Rightarrow> True | Inr _ \<Rightarrow> code_spent code u s)"

lemma spends_simps [simp]:
  "spends code u (Inl e) s" "spends code u (Inr x) s = code_spent code u s"
  by (simp_all add: spends_def)

lemma spends_stable [stable]: "spends code u r s \<Longrightarrow> pay_evolves s t \<Longrightarrow> spends code u r t"
  by (cases r) (auto intro: code_spent_stable)

lemma safe_redeemTx:
  assumes known: "known_code rc s"
    and ok: "\<And>t. pay_evolves s t \<Longrightarrow> pay_inv t \<Longrightarrow> code_spent (rc_Code rc) u t \<Longrightarrow>
      pay_safe Q (k (Some (Inr ()))) t"
    and err: "\<And>t e. pay_evolves s t \<Longrightarrow> pay_inv t \<Longrightarrow> pay_safe Q (k (Some (Inl e))) t"
      "\<And>t. pay_evolves s t \<Longrightarrow> pay_inv t \<Longrightarrow> pay_safe Q (k None) t"
  shows "pay_safe Q (call (redeemTx env rc u) k) s"
proof (rule pay.safe_calls)
  fix t assume t: "pay_evolves s t" "pay_inv t"
  obtain v x where tx: "redeemTx env rc u t = (v, x)" by fastforce
  from redeemTx_step [OF t(2) known_code_evolves [OF known t(1)] tx]
  show "pay_evolves t (fst (redeemTx env rc u t)) \<and> pay_inv (fst (redeemTx env rc u t))"
    by (simp add: tx)
next
  fix t v x assume tx: "redeemTx env rc u t = (v, x)" and t: "pay_evolves s t" "pay_inv t"
    "pay_evolves s v" "pay_inv v"
  show "pay_safe Q (k (Some x)) v"
  proof (cases x)
    case (Inr y)
    with redeemTx_step [OF t(2) known_code_evolves [OF known t(1)] tx]
    have "code_spent (rc_Code rc) u v" by (auto simp: code_spent_def same_code_def)
    with ok t Inr show ?thesis by simp
  qed (use err t in simp)
qed (rule err(2))

lemma safe_redeemLocked:
  assumes inv: "pay_inv s"
  shows "pay_safe (spends code u) (redeemLocked env enforce skip u code) s"
  unfolding redeemLocked_def code_GetByCode_read
proof (rule safe_read)
  fix t assume t: "pay_evolves s t" "pay_inv t"
  let ?found = "find (\<lambda>r. rc_Code r = code) (st_codes t)"
  have fail: "pay_safe (spends code u) (incrementRedeemErrorCount enforce u (Return (Inl e))) v"
    if "pay_inv v" for e v using that by (auto intro!: safe_incrementRedeemErrorCount)
  show "pay_safe (spends code u) (case Some ?found of None \<Rightarrow> Return (Inl StoreError)
     | Some None \<Rightarrow> incrementRedeemErrorCount enforce u (Return (Inl ErrRedeemCodeNotFound))
     | Some (Some rc) \<Rightarrow> look st_clock (\<lambda>now.
         if rc_IsExpiredAt rc now
         then incrementRedeemErrorCount enforce u (Return (Inl ErrRedeemCodeExpired))
         else look st_clock (\<lambda>now.
         if \<not> rc_CanUse rc now
         then incrementRedeemErrorCount enforce u (Return (Inl ErrRedeemCodeUsed))
         else if rc_Type rc = RedeemTypeSubscription \<and> rc_GroupID rc = None
         then Return (Inl RedeemCodeInvalid)
         else if rc_Type rc \<notin> {RedeemTypeBalance, RedeemTypeConcurrency, RedeemTypeSubscription}
         then Return (Inl UnsupportedRedeemType)
         else call (\<lambda>s. (s, st_users s u)) (\<lambda>u'. case u' of
             None \<Rightarrow> Return (Inl StoreError)
           | Some None \<Rightarrow> Return (Inl ErrUserNotFound)
           | Some (Some _) \<Rightarrow> call (redeemTx env rc u) (\<lambda>x. case x of
               None \<Rightarrow> Return (Inl StoreError)
             | Some (Inl e) \<Rightarrow> Return (Inl e)
             | Some (Inr _) \<Rightarrow> tryAccrueAffiliateRebateForRedeem env skip rc u
                 (call (code_GetByID (rc_ID rc)) (\<lambda>r. case r of
                    None \<Rightarrow> Return (Inl StoreError)
                  | Some None \<Rightarrow> Return (Inl ErrRedeemCodeNotFound)
                  | Some (Some rc) \<Rightarrow> Return (Inr rc)))))))) t"
  proof (cases ?found)
    case None
    with fail t show ?thesis by simp
  next
    case (Some rc)
    then have rc: "rc \<in> set (st_codes t)" "rc_Code rc = code" by (auto simp: find_Some_iff)
    note kn = known_code_member [OF rc(1)]
    have tail: "pay_safe (spends code u) (tryAccrueAffiliateRebateForRedeem env skip rc u
        (call (code_GetByID (rc_ID rc)) (\<lambda>r. case r of None \<Rightarrow> Return (Inl StoreError)
           | Some None \<Rightarrow> Return (Inl ErrRedeemCodeNotFound) | Some (Some rc) \<Rightarrow> Return (Inr rc)))) v"
      if "pay_inv v" "code_spent code u v" for v
      unfolding code_GetByID_read using that
      by (intro safe_tryAccrue safe_any_read) (auto split: option.split intro: stable pay.evolves_trans)
    have tx: "pay_safe (spends code u) (call (redeemTx env rc u) (\<lambda>x. case x of
               None \<Rightarrow> Return (Inl StoreError)
             | Some (Inl e) \<Rightarrow> Return (Inl e)
             | Some (Inr _) \<Rightarrow> tryAccrueAffiliateRebateForRedeem env skip rc u
                 (call (code_GetByID (rc_ID rc)) (\<lambda>r. case r of
                    None \<Rightarrow> Return (Inl StoreError)
                  | Some None \<Rightarrow> Return (Inl ErrRedeemCodeNotFound)
                  | Some (Some rc) \<Rightarrow> Return (Inr rc))))) v"
      if "pay_evolves t v" for v
      using that kn by (intro safe_redeemTx) (auto intro: stable tail simp: rc(2))
    note step = pay.evolves_trans
    have user: "pay_safe (spends code u) (call (\<lambda>s. (s, st_users s u)) (\<lambda>u'. case u' of
             None \<Rightarrow> Return (Inl StoreError)
           | Some None \<Rightarrow> Return (Inl ErrUserNotFound)
           | Some (Some _) \<Rightarrow> call (redeemTx env rc u) (\<lambda>x. case x of
               None \<Rightarrow> Return (Inl StoreError)
             | Some (Inl e) \<Rightarrow> Return (Inl e)
             | Some (Inr _) \<Rightarrow> tryAccrueAffiliateRebateForRedeem env skip rc u
                 (call (code_GetByID (rc_ID rc)) (\<lambda>r. case r of
                    None \<Rightarrow> Return (Inl StoreError)
                  | Some None \<Rightarrow> Return (Inl ErrRedeemCodeNotFound)
                  | Some (Some rc) \<Rightarrow> Return (Inr rc)))))) v" if v: "pay_evolves t v" for v
    proof (rule safe_any_read)
      fix w x assume w: "pay_evolves v w"
      note twx = tx [OF step [OF v w]]
      show "pay_safe (spends code u) (case x of
             None \<Rightarrow> Return (Inl StoreError)
           | Some None \<Rightarrow> Return (Inl ErrUserNotFound)
           | Some (Some _) \<Rightarrow> call (redeemTx env rc u) (\<lambda>x. case x of
               None \<Rightarrow> Return (Inl StoreError)
             | Some (Inl e) \<Rightarrow> Return (Inl e)
             | Some (Inr _) \<Rightarrow> tryAccrueAffiliateRebateForRedeem env skip rc u
                 (call (code_GetByID (rc_ID rc)) (\<lambda>r. case r of
                    None \<Rightarrow> Return (Inl StoreError)
                  | Some None \<Rightarrow> Return (Inl ErrRedeemCodeNotFound)
                  | Some (Some rc) \<Rightarrow> Return (Inr rc))))) w"
        by (cases x) (use twx in \<open>simp_all split: option.split\<close>)
    qed
    show ?thesis unfolding Some option.case
      by (intro pay.safe_look safe_if fail user; (assumption | erule (1) step | simp))
  qed
qed simp

lemma safe_redeem:
  assumes inv: "pay_inv s"
  shows "pay_safe (spends code u) (redeem env enforce skip u code) s"
  unfolding redeem_def acquireRedeemLock_def
proof (rule safe_checkRedeemRateLimit [OF inv])
  fix t b assume t: "pay_evolves s t" "pay_inv t"
  have body: "pay_safe (spends code u) (bindP (redeemLocked env enforce skip u code)
      (\<lambda>res. call (cache_ReleaseRedeemLock code) (\<lambda>_. Return res))) v" if "pay_inv v" for v
    using safe_redeemLocked [OF that] 
    by (rule pay.safe_then [OF that], intro safe_any_call cache_steps)
      (auto intro: stable)
  then show "pay_safe (spends code u) (if \<not> b then Return (Inl ErrRedeemRateLimited)
      else call (cache_AcquireRedeemLock code redeemLockDuration) (\<lambda>ok.
        if \<not> ok \<noteq> Some False then Return (Inl ErrRedeemCodeLocked)
        else bindP (redeemLocked env enforce skip u code)
          (\<lambda>res. call (cache_ReleaseRedeemLock code) (\<lambda>_. Return res)))) t"
    by (auto intro!: safe_any_call simp: cache_steps)
qed

text \<open>The code of an order is there once it was created.\<close>

definition creates :: "RedeemCode \<Rightarrow> pay_error option \<Rightarrow> store \<Rightarrow> bool" where
  "creates r e s \<longleftrightarrow> e = None \<longrightarrow> (\<forall>od. r = paymentRedeemCode od \<longrightarrow>
     trim_space (po_RechargeCode od) = po_RechargeCode od \<longrightarrow> code_ready od s)"

lemma creates_Some [simp]: "creates r (Some e) s"
  by (simp add: creates_def)

lemma safe_CreateCode:
  assumes "rc_Status r \<in> {[], StatusUnused}"
  shows "pay_safe (creates r) (CreateCode r) s"
proof -
  define c1 where "c1 = r\<lparr>rc_Code := trim_space (rc_Code r)\<rparr>"
  define c2 where "c2 = (if rc_Type c1 = [] then c1\<lparr>rc_Type := RedeemTypeBalance\<rparr> else c1)"
  define c where "c = (if rc_Status c2 = [] then c2\<lparr>rc_Status := StatusUnused\<rparr> else c2)"
  have st: "rc_Status c = StatusUnused" using assms by (auto simp: c_def c2_def c1_def)
  have fields: "rc_Code c = po_RechargeCode od" "rc_Value c = po_Amount od" "rc_Type c = RedeemTypeBalance"
    if "r = paymentRedeemCode od" "trim_space (po_RechargeCode od) = po_RechargeCode od" for od
    using that by (simp_all add: c_def c2_def c1_def paymentRedeemCode_def)
  have ready: "creates r None v" if "code_Create c u = (v, True)" for u v
    unfolding creates_def using that fields
    by (auto simp: code_Create_def code_ready_def split: if_splits)
  have create: "pay_safe (creates r) (call (code_Create c) (\<lambda>r. case r of
       None \<Rightarrow> Return (Some StoreError) | Some False \<Rightarrow> Return (Some RedeemCodeConflict)
     | Some True \<Rightarrow> Return None)) t" for t
  proof (rule pay.safe_calls)
    fix u assume "pay_evolves t u" "pay_inv u"
    then show "pay_evolves u (fst (code_Create c u)) \<and> pay_inv (fst (code_Create c u))"
      using code_Create_step st by blast
  next
    fix u v x assume v: "code_Create c u = (v, x)"
    show "pay_safe (creates r) (case Some x of None \<Rightarrow> Return (Some StoreError)
        | Some False \<Rightarrow> Return (Some RedeemCodeConflict) | Some True \<Rightarrow> Return None) v"
      using ready v by (cases x) simp_all
  qed simp
  show ?thesis
    unfolding CreateCode_def Let_def c1_def [symmetric] c2_def [symmetric] c_def [symmetric]
    by (intro safe_if pay.safe_look create; simp)
qed

end
