(* ===== verification/PaymentPrograms.thy ===== *)
theory PaymentPrograms
  imports PaymentSafety
begin

text \<open>
  The fulfilment of orders and the programs around it under the contract: leases, rebates, the two
  bodies, notifications, cancellation, expiry and verification. Together they are the programs
  that \<open>payment_program\<close> lists.
\<close>

abbreviation pay_runs :: "(store, 'a) prog \<Rightarrow> store \<Rightarrow> bool" where
  "pay_runs \<equiv> safe pay_evolves pay_inv (\<lambda>_ _. True)"

lemma pay_runsI: "pay_safe Q p s \<Longrightarrow> pay_runs p s"
  by (rule pay.safe_post_mono) simp_all

lemma safe_then_runs:
  "pay_inv s \<Longrightarrow> pay_safe Q p s \<Longrightarrow>
   (\<And>a t. Q a t \<Longrightarrow> pay_evolves s t \<Longrightarrow> pay_inv t \<Longrightarrow> pay_safe R (k a) t) \<Longrightarrow> pay_safe R (bindP p k) s"
  by (rule pay.safe_then)

lemma safe_try_then:
  assumes "pay_inv s" "pay_safe P p s"
    "\<And>t. P None t \<Longrightarrow> pay_evolves s t \<Longrightarrow> pay_inv t \<Longrightarrow> pay_runs q t"
  shows "pay_runs (try_then p q) s"
  unfolding try_then_def
proof (rule pay.safe_then [OF assms(1,2)])
  fix a t assume "P a t" "pay_evolves s t" "pay_inv t"
  with assms(3) show "pay_runs (case a of None \<Rightarrow> q | Some e \<Rightarrow> Return (Some e)) t"
    by (cases a) simp_all
qed

text \<open>Delivery depends on the fields of an order that never change.\<close>

lemma order_delivered_fields [simp]:
  "order_delivered s (od\<lparr>po_Status := a\<rparr>) = order_delivered s od"
  "order_delivered s (od\<lparr>po_UpdatedAt := b\<rparr>) = order_delivered s od"
  "order_delivered s (od\<lparr>po_FailedAt := c\<rparr>) = order_delivered s od"
  "order_delivered s (od\<lparr>po_FailedReason := d\<rparr>) = order_delivered s od"
  "order_delivered s (od\<lparr>po_CompletedAt := c\<rparr>) = order_delivered s od"
  "order_delivered s (od\<lparr>po_PayAmount := f\<rparr>) = order_delivered s od"
  "order_delivered s (od\<lparr>po_PaymentTradeNo := g\<rparr>) = order_delivered s od"
  "order_delivered s (od\<lparr>po_PaidAt := c\<rparr>) = order_delivered s od"
  by (simp_all add: order_delivered_def pays_for_def)

lemma credited_status_simps [simp]:
  "credited_status OrderStatusCompleted" "\<not> credited_status OrderStatusPending"
  "\<not> credited_status OrderStatusPaid" "\<not> credited_status OrderStatusRecharging"
  "\<not> credited_status OrderStatusFailed" "\<not> credited_status OrderStatusCancelled"
  "\<not> credited_status OrderStatusExpired"
  by (simp_all add: credited_status_def psIsRefundStatus_def)

lemma paid_status_simps [simp]:
  "paid_status OrderStatusCompleted" "paid_status OrderStatusPaid" "paid_status OrderStatusRecharging"
  "paid_status OrderStatusFailed" "\<not> paid_status OrderStatusPending"
  "\<not> paid_status OrderStatusCancelled" "\<not> paid_status OrderStatusExpired"
  by (simp_all add: paid_status_def)

lemmas order_facts = order_evolves_def same_order_def order_inv_def

section \<open>The lease\<close>

lemma runs_acquire: "pay_runs (acquirePaymentFulfillmentLease oid) s"
  unfolding acquirePaymentFulfillmentLease_def Let_def
proof (rule pay.safe_look, rule safe_order_Update, goal_cases)
  case 1
  then show ?case by (auto simp: order_facts)
next
  case (2 now t x)
  show ?case by (cases x) (auto intro!: safe_order_Get)
qed

lemma runs_markCompleted:
  assumes known: "known_order od s" and del: "order_delivered s od"
  shows "pay_runs (markCompleted (po_ID od) version act) s"
proof -
  let ?done = "\<lambda>now od. od\<lparr>po_Status := OrderStatusCompleted, po_CompletedAt := Some now\<rparr>"
  have upd: "order_evolves od1 (?done now (od1\<lparr>po_UpdatedAt := n\<rparr>)) \<and>
      order_inv t (po_ID od) (?done now (od1\<lparr>po_UpdatedAt := n\<rparr>))"
    if t: "pay_evolves s t" "st_orders t (po_ID od) = Some od1" "order_inv t (po_ID od) od1"
      "holds_lease version od1" for t od1 n now
  proof -
    have "same_order od od1" using known_order_stable [OF known t(1)] t(2) by (simp add: known_order_def)
    then have "order_delivered t od1"
      using order_delivered_stable [OF del t(1)] same_order_delivered by blast
    with t(3,4) show ?thesis by (auto simp: order_facts holds_lease_def)
  qed
  have log: "pay_runs (hasAuditLog (po_ID od) act (\<lambda>logged.
      if logged then Return None else writeAuditLog (po_ID od) act ''system'' (Return None))) t" for t
    by (rule safe_hasAuditLog) (auto intro: safe_writeAuditLog)
  show ?thesis unfolding markCompleted_def
  proof (rule pay.safe_look, rule safe_order_Update, goal_cases)
    case (1 t u od1 now)
    then show ?case using pay.evolves_trans by (intro upd) blast+
  next
    case (2 t u x)
    show ?case by (cases x) (auto intro!: safe_order_Get log)
  qed
qed

lemma runs_markFailed: "pay_runs (markFailed oid version cause) s"
  unfolding markFailed_def
proof (rule pay.safe_look, rule safe_order_Update, goal_cases)
  case 1
  then show ?case by (auto simp: order_facts holds_lease_def)
next
  case (2 t u x)
  show ?case by (auto split: option.split nat.split intro: safe_writeAuditLog)
qed

section \<open>Rebate and completion\<close>

lemma runs_applyAffiliateRebateForOrder: "pay_runs (applyAffiliateRebateForOrder env od) s"
proof -
  have tx: "pay_evolves t (fst (rebateTx env cfg oid u b t)) \<and> pay_inv (fst (rebateTx env cfg oid u b t))"
    if "pay_inv t" for t cfg oid u b
    using rebateTx_step [OF that prod.collapse [symmetric]] .
  show ?thesis unfolding applyAffiliateRebateForOrder_def Let_def
    by (auto split: option.split sum.split intro!: safe_any_call tx safe_writeAuditLog)
qed

lemma runs_rebateAndComplete:
  assumes "pay_inv s" "known_order od s" "order_delivered s od"
  shows "pay_runs (rebateAndComplete env od version act) s"
  unfolding rebateAndComplete_def
  by (rule safe_try_then [OF assms(1) runs_applyAffiliateRebateForOrder])
    (use assms in \<open>blast intro: runs_markCompleted stable\<close>)

section \<open>The two bodies\<close>

lemma safe_redeemForOrder:
  "pay_inv s \<Longrightarrow> pay_safe (\<lambda>e t. e = None \<longrightarrow> code_spent (po_RechargeCode od) (po_UserID od) t)
     (redeemForOrder env od) s"
  unfolding redeemForOrder_def redeemForPaymentFulfillment_def
  by (rule pay.safe_then [OF _ safe_redeem]) (auto split: sum.split)

lemma runs_doBalance:
  assumes inv: "pay_inv s" and known: "known_order od s" and ty: "po_OrderType od \<noteq> OrderTypeSubscription"
  shows "pay_runs (doBalance env od version) s"
proof -
  let ?fin = "rebateAndComplete env od version ''RECHARGE_SUCCESS''"
  have redeem: "pay_runs (try_then (redeemForOrder env od) ?fin) t"
    if t: "pay_inv t" "known_order od t" "code_ready od t" for t
    by (rule safe_try_then [OF t(1) safe_redeemForOrder [OF t(1)]], rule runs_rebateAndComplete)
      (use t ty in \<open>auto intro: stable delivered_balance\<close>)
  have create: "pay_runs (try_then (CreateCode (paymentRedeemCode od)) (try_then (redeemForOrder env od) ?fin)) t"
    if t: "pay_inv t" "known_order od t" for t
  proof (rule safe_try_then [OF t(1) safe_CreateCode])
    show "rc_Status (paymentRedeemCode od) \<in> {[], StatusUnused}" by (simp add: paymentRedeemCode_def)
    fix u assume u: "creates (paymentRedeemCode od) None u" "pay_evolves t u" "pay_inv u"
    have "code_ready od u" using u(1) t(2) by (simp add: creates_def known_order_def)
    with u t(2) show "pay_runs (try_then (redeemForOrder env od) ?fin) u"
      by (blast intro: redeem stable)
  qed
  show ?thesis unfolding doBalance_def code_GetByCode_read
  proof (rule safe_read)
    fix t assume t: "pay_evolves s t" "pay_inv t"
    have kn: "known_order od t" by (rule known_order_stable [OF known t(1)])
    let ?found = "find (\<lambda>r. rc_Code r = po_RechargeCode od) (st_codes t)"
    show "pay_runs (case resolveRedeemAction (Some ?found) of
         None \<Rightarrow> Return (Some StoreError)
       | Some action \<Rightarrow>
           (case (case Some ?found of Some (Some existing) \<Rightarrow> validatePaymentRedeemCode od existing
                  | _ \<Rightarrow> None) of
              Some e \<Rightarrow> Return (Some e)
            | None \<Rightarrow>
                let finish = ?fin in
                (case action of
                   redeemActionSkipCompleted \<Rightarrow> finish
                 | redeemActionCreate \<Rightarrow>
                     try_then (CreateCode (paymentRedeemCode od)) (try_then (redeemForOrder env od) finish)
                 | redeemActionRedeem \<Rightarrow> try_then (redeemForOrder env od) finish))) t"
    proof (cases ?found)
      case None
      with create [OF t(2) kn] show ?thesis by (simp add: resolveRedeemAction_def)
    next
      case (Some rc)
      then have rc: "rc \<in> set (st_codes t)" "rc_Code rc = po_RechargeCode od"
        by (auto simp: find_Some_iff)
      show ?thesis
      proof (cases "validatePaymentRedeemCode od rc")
        case None
        then have ready: "code_ready od t" using rc
          by (auto simp: validatePaymentRedeemCode_def code_ready_def not_less split: if_splits)
        show ?thesis
        proof (cases "rc_IsUsed rc")
          case True
          then have "code_spent (po_RechargeCode od) (po_UserID od) t"
            using rc None by (auto simp: validatePaymentRedeemCode_def code_spent_def rc_IsUsed_def
                StatusUsed_def StatusUnused_def split: if_splits)
          then have "order_delivered t od" by (rule delivered_balance [OF t(2) ty ready])
          with runs_rebateAndComplete [OF t(2) kn] Some None True show ?thesis
            by (simp add: resolveRedeemAction_def)
        next
          case False
          with redeem [OF t(2) kn ready] Some None show ?thesis by (simp add: resolveRedeemAction_def)
        qed
      qed (simp add: Some resolveRedeemAction_def)
    qed
  qed (simp add: resolveRedeemAction_def)
qed

lemma safe_ensurePaymentSubscriptionAssigned:
  assumes inv: "pay_inv s"
  shows "pay_safe (\<lambda>e t. e = None \<longrightarrow> assigned (po_ID od) t)
    (ensurePaymentSubscriptionAssigned env od gid days) s"
  (is "pay_safe ?Q _ _")
proof -
  have tail: "pay_safe ?Q (call (\<lambda>s. (s, ())) (\<lambda>r. Return (if r = None then Some StoreError else None))) u"
    if "assigned (po_ID od) u" for u
    by (rule safe_any_read) (use that in \<open>auto intro: stable\<close>)
  show ?thesis unfolding ensurePaymentSubscriptionAssigned_def
  proof (rule pay.safe_calls)
    fix t assume t: "pay_inv t"
    show "pay_evolves t (fst (assignmentTx env od gid days t)) \<and>
        pay_inv (fst (assignmentTx env od gid days t))"
      using assignmentTx_step [OF t prod.collapse [symmetric]] by blast
  next
    fix t u x assume tx: "assignmentTx env od gid days t = (u, x)" and t: "pay_inv t"
    show "pay_safe ?Q (case Some x of None \<Rightarrow> Return (Some StoreError)
       | Some (Inl e) \<Rightarrow> Return (Some e)
       | Some (Inr _) \<Rightarrow> call (\<lambda>s. (s, ())) (\<lambda>r. Return (if r = None then Some StoreError else None))) u"
      using assignmentTx_step [OF t tx] tail by (cases x) simp_all
  qed simp
qed

lemma runs_doSub:
  assumes inv: "pay_inv s" and known: "known_order od s" and ty: "po_OrderType od = OrderTypeSubscription"
  shows "pay_runs (doSub env od gid days version) s"
proof -
  have "pay_runs (try_then (ensurePaymentSubscriptionAssigned env od gid days)
      (rebateAndComplete env od version ''SUBSCRIPTION_SUCCESS'')) t" if t: "pay_evolves s t" "pay_inv t" for t
    by (rule safe_try_then [OF t(2) safe_ensurePaymentSubscriptionAssigned [OF t(2)]],
        rule runs_rebateAndComplete)
      (use t known ty in \<open>auto intro: stable simp: order_delivered_def\<close>)
  then show ?thesis unfolding doSub_def
    by (intro safe_any_read) (auto split: option.split)
qed

section \<open>Fulfilling an order\<close>

lemma runs_under_lease:
  assumes inv: "pay_inv s" and body: "\<And>t v. pay_evolves s t \<Longrightarrow> pay_inv t \<Longrightarrow> pay_runs (body v) t"
  shows "pay_runs (under_lease oid body) s"
  unfolding under_lease_def
proof (rule pay.safe_then [OF inv runs_acquire])
  fix l t assume t: "pay_evolves s t" "pay_inv t"
  have "pay_runs (bindP (body v) (\<lambda>r. case r of None \<Rightarrow> Return None
       | Some e \<Rightarrow> bindP (markFailed oid v e) (\<lambda>_. Return (Some e)))) t" for v
  proof (rule pay.safe_then [OF t(2) body [OF t]])
    fix r u assume "pay_inv u"
    then show "pay_runs (case r of None \<Rightarrow> Return None
       | Some e \<Rightarrow> bindP (markFailed oid v e) (\<lambda>_. Return (Some e))) u"
      by (auto split: option.split intro: pay.safe_then [OF _ runs_markFailed])
  qed
  then show "pay_runs (case l of Inl e \<Rightarrow> Return (Some e) | Inr None \<Rightarrow> Return None
     | Inr (Some version) \<Rightarrow> bindP (body version) (\<lambda>r. case r of
         None \<Rightarrow> Return None
       | Some e \<Rightarrow> bindP (markFailed oid version e) (\<lambda>_. Return (Some e)))) t"
    by (auto split: sum.split option.split)
qed

text \<open>The type of an order never changes.\<close>

lemma known_order_type:
  "known_order od s \<Longrightarrow> st_orders s (po_ID od) = Some od' \<Longrightarrow> po_OrderType od' = po_OrderType od"
  by (auto simp: known_order_def same_order_def)

lemma runs_ExecuteBalanceFulfillment:
  assumes known: "known_order od0 s" and ty: "po_OrderType od0 \<noteq> OrderTypeSubscription"
  shows "pay_runs (ExecuteBalanceFulfillment env (po_ID od0)) s"
  unfolding ExecuteBalanceFulfillment_def
proof (rule safe_order_Get, goal_cases)
  case (1 t od)
  then have kn: "known_order od t" by (blast intro: known_order_read)
  moreover have "po_OrderType od \<noteq> OrderTypeSubscription"
    using known_order_type [OF known_order_stable [OF known 1(1)] 1(3)] ty by simp
  ultimately have "pay_runs (under_lease (po_ID od0) (doBalance env od)) t"
    using 1(2) by (intro runs_under_lease runs_doBalance) (blast intro: stable)+
  then show ?case by (simp split: option.split)
qed simp_all

lemma runs_ExecuteSubscriptionFulfillment:
  assumes known: "known_order od0 s" and ty: "po_OrderType od0 = OrderTypeSubscription"
  shows "pay_runs (ExecuteSubscriptionFulfillment env (po_ID od0)) s"
  unfolding ExecuteSubscriptionFulfillment_def
proof (rule safe_order_Get, goal_cases)
  case (1 t od)
  then have kn: "known_order od t" by (blast intro: known_order_read)
  moreover have "po_OrderType od = OrderTypeSubscription"
    using known_order_type [OF known_order_stable [OF known 1(1)] 1(3)] ty by simp
  ultimately have "pay_runs (under_lease (po_ID od0) (doSub env od gid days)) t" for gid days
    using 1(2) by (intro runs_under_lease runs_doSub) (blast intro: stable)+
  then show ?case by (simp split: option.split)
qed simp_all

lemma runs_executeFulfillment: "pay_runs (executeFulfillment env oid) s"
  unfolding executeFulfillment_def
proof (rule safe_order_Get, goal_cases)
  case (1 t od)
  then have "known_order od t" "po_ID od = oid" by (blast intro: known_order_read, simp add: order_inv_def)
  then show ?case
    using runs_ExecuteBalanceFulfillment [of od] runs_ExecuteSubscriptionFulfillment [of od] by auto
qed simp_all

lemma runs_RetryFulfillment: "pay_runs (RetryFulfillment env oid) s"
  unfolding RetryFulfillment_def
  by (rule safe_order_Get) (auto intro: safe_writeAuditLog runs_executeFulfillment)

section \<open>Payments\<close>

lemma runs_alreadyProcessed: "pay_runs (alreadyProcessed env oid) s"
  unfolding alreadyProcessed_def
  by (rule safe_order_Get) (auto intro: safe_writeAuditLog runs_executeFulfillment)

lemma runs_toPaid: "pay_runs (toPaid env od tradeNo paid pk) s"
  unfolding toPaid_def Let_def
proof (rule pay.safe_look, rule safe_order_Update, goal_cases)
  case 1
  then show ?case by (auto simp: order_facts)
next
  case (2 t u x)
  show ?case
    by (cases x) (auto intro!: safe_writeAuditLog runs_executeFulfillment runs_alreadyProcessed)
qed

lemma runs_confirmPayment: "pay_runs (confirmPayment env oid tradeNo paid pk md) s"
  unfolding confirmPayment_def Let_def
proof (rule safe_order_Get, goal_cases)
  case (1 t od)
  show ?case unfolding option.case
    by (intro safe_any_read safe_if)
      (auto split: go_float.split intro: safe_writeAuditLog runs_toPaid)
qed simp_all

lemma runs_HandlePaymentNotification: "pay_runs (HandlePaymentNotification env n pk) s"
proof -
  have get: "order_ByOutTradeNo no =
      (\<lambda>s. (s, filter (\<lambda>od. po_OutTradeNo od = no) (List.map_filter (st_orders s) (st_order_ids s))))" for no
    by (simp add: order_ByOutTradeNo_def fun_eq_iff)
  show ?thesis unfolding HandlePaymentNotification_def get
    by (intro safe_if safe_any_read)
      (auto split: option.split list.split intro: runs_confirmPayment)
qed

text \<open>Storing a trade number changes nothing the invariant speaks of.\<close>

lemma runs_checkPaidWithOptions: "pay_runs (checkPaidWithOptions env pa od) s" if inv: "pay_inv s"
proof -
  have handle: "pay_runs (bindP (HandlePaymentNotification env n pk) (\<lambda>_. Return True)) t"
    if "pay_inv t" for t n pk
    using that by (rule pay.safe_then [OF _ runs_HandlePaymentNotification]) simp
  have store: "pay_runs (call (order_Update oid (\<lambda>_. True) (\<lambda>r. r\<lparr>po_PaymentTradeNo := no\<rparr>))
      (\<lambda>_. bindP (HandlePaymentNotification env n pk) (\<lambda>_. Return True))) t" for t n pk oid no
    by (rule safe_order_Update) (auto simp: order_facts intro: handle)
  have log: "pay_runs (writeAuditLog oid act op p) t" if "\<And>u. pay_inv u \<Longrightarrow> pay_runs p u" for oid act op p t
    by (rule safe_writeAuditLog) (rule that)
  show ?thesis unfolding checkPaidWithOptions_def Let_def
    by (auto split: option.split simp: inv handle store intro!: log)
qed

text \<open>A pending order is cancelled or expires; a paid one is out of reach.\<close>

lemma runs_cancelCore:
  assumes inv: "pay_inv s" and fs: "fs = OrderStatusCancelled \<or> fs = OrderStatusExpired"
  shows "pay_runs (cancelCore env pa od fs op) s"
  unfolding cancelCore_def
proof (rule pay.safe_then [OF inv])
  show "pay_runs (if po_PaymentTradeNo od \<noteq> [] \<or> po_PaymentType od \<noteq> []
            then checkPaidWithOptions env pa od else Return False) s"
    using runs_checkPaidWithOptions [OF inv] by simp
  fix paid t assume "pay_inv t"
  show "pay_runs (if paid then Return (Inr AlreadyPaid)
       else call (order_Update (po_ID od) (\<lambda>r. po_Status r = OrderStatusPending)
              (\<lambda>r. r\<lparr>po_Status := fs\<rparr>)) (\<lambda>c. case c of
            None \<Rightarrow> Return (Inl StoreError)
          | Some n \<Rightarrow>
              if n = 0 then Return (Inr Cancelled)
              else writeAuditLog (po_ID od)
                (if fs = OrderStatusExpired then ''ORDER_EXPIRED'' else ''ORDER_CANCELLED'') op
                (Return (Inr Cancelled)))) t"
  proof (intro safe_if safe_order_Update, goal_cases)
    case 1
    then show ?case by simp
  next
    case 2
    then show ?case using fs by (auto simp: order_facts)
  next
    case (3 u x)
    show ?case by (cases x) (auto intro: safe_writeAuditLog)
  qed
qed

lemma runs_CancelOrder: "pay_runs (CancelOrder env pa oid u) s"
  unfolding CancelOrder_def by (rule safe_order_Get) (auto intro: runs_cancelCore)

lemma runs_AdminCancelOrder: "pay_runs (AdminCancelOrder env pa oid) s"
  unfolding AdminCancelOrder_def by (rule safe_order_Get) (auto intro: runs_cancelCore)

lemma runs_expireEach: "pay_inv s \<Longrightarrow> pay_runs (expireEach env pas ods n) s"
proof (induction ods arbitrary: n s)
  case (Cons od ods)
  have "pay_runs (cancelCore env (pas od) od OrderStatusExpired ''system'') s"
    using Cons.prems by (rule runs_cancelCore) simp
  then show ?case unfolding expireEach.simps
    by (rule pay.safe_then [OF Cons.prems]) (rule Cons.IH)
qed simp

lemma runs_ExpireTimedOutOrders: "pay_runs (ExpireTimedOutOrders env pas) s"
  unfolding ExpireTimedOutOrders_def
  by (intro pay.safe_look safe_any_read) (auto split: option.split intro: runs_expireEach)

lemma runs_reconcileEach: "pay_inv s \<Longrightarrow> pay_runs (reconcileEach env pas ods n) s"
proof (induction ods arbitrary: n s)
  case (Cons od ods)
  show ?case unfolding reconcileEach.simps
    by (rule pay.safe_then [OF Cons.prems runs_checkPaidWithOptions [OF Cons.prems]]) (rule Cons.IH)
qed simp

lemma runs_ReconcilePendingPaymentOrders: "pay_runs (ReconcilePendingPaymentOrders env pas) s"
  unfolding ReconcilePendingPaymentOrders_def
  by (intro pay.safe_look safe_any_read) (auto split: option.split intro: runs_reconcileEach)

lemma runs_VerifyOrderByOutTradeNo: "pay_runs (VerifyOrderByOutTradeNo env pa raw u) s"
proof -
  have check: "pay_runs (bindP (checkPaidWithOptions env pa od) (\<lambda>paid.
                if paid then call (order_Get (po_ID od)) (\<lambda>r. case r of
                    Some (Some od) \<Rightarrow> Return (Inr od)
                  | _ \<Rightarrow> Return (Inl StoreError))
                else Return (Inr od))) t" if "pay_inv t" for od t
    by (rule pay.safe_then [OF that runs_checkPaidWithOptions [OF that]])
      (auto intro!: safe_order_Get)
  show ?thesis unfolding VerifyOrderByOutTradeNo_def order_ByOutTradeNo_def [abs_def]
    by (cases "normalizeOrderLookupOutTradeNo raw")
      (auto intro!: safe_any_read check split: option.split list.split)
qed

section \<open>Placing an order\<close>

lemma order_Insert_step:
  assumes inv: "pay_inv s" and new: "po_Status od = OrderStatusPending"
  shows "pay_evolves s (fst (order_Insert od now s)) \<and> pay_inv (fst (order_Insert od now s))"
proof (cases "list_ex (\<lambda>x. po_OutTradeNo x = po_OutTradeNo od) (all_orders s)")
  case True
  with inv pay.evolves_refl show ?thesis by (simp add: order_Insert_def)
next
  case False
  let ?oid = "st_next_order s"
  let ?od = "od\<lparr>po_ID := ?oid, po_RechargeCode := pay_code ?oid (now mod 100000),
      po_UpdatedAt := micros (st_clock s)\<rparr>"
  let ?t = "s\<lparr>st_orders := (st_orders s)(?oid \<mapsto> ?od), st_order_ids := st_order_ids s @ [?oid],
      st_next_order := ?oid + 1\<rparr>"
  have t: "fst (order_Insert od now s) = ?t" using False by (simp add: order_Insert_def Let_def)
  have fresh: "st_orders s ?oid = None"
    using inv by (cases "st_orders s ?oid") (auto simp: pay_inv_def order_inv_def)
  have old: "order_inv ?t i x" if "order_inv s i x" for i x
    using that by (auto simp: order_inv_def order_delivered_def assigned_def has_audit_def
        hasPaymentSubscriptionAssignmentAudit_def)
  have "order_inv ?t ?oid ?od" using inv new by (auto simp: order_inv_def pay_inv_def)
  with inv old have "pay_inv ?t"
    by (simp add: pay_inv_def codes_inv_def rebates_inv_def rebates_of_def has_audit_def)
  moreover have "pay_evolves s ?t" using fresh
    by (auto simp: pay_evolves_def orders_evolve_def assigned_def account_evolves_def has_audit_def
        hasPaymentSubscriptionAssignmentAudit_def split: option.split)
  ultimately show ?thesis by (simp add: t)
qed

lemma safe_checkCancelRateLimit:
  "pay_inv s \<Longrightarrow> (\<And>t b. pay_inv t \<Longrightarrow> pay_safe Q (k b) t) \<Longrightarrow>
   pay_safe Q (checkCancelRateLimit env u cfg k) s"
  unfolding checkCancelRateLimit_def Let_def
  by (auto intro!: safe_any_read pay.safe_look)

lemma safe_checkPendingLimit:
  "(\<And>t e. pay_inv t \<Longrightarrow> pay_safe Q (k e) t) \<Longrightarrow> pay_safe Q (checkPendingLimit u n k) s"
  unfolding checkPendingLimit_def by (rule safe_any_read)

lemma safe_checkDailyLimit:
  "pay_inv s \<Longrightarrow> (\<And>t e. pay_inv t \<Longrightarrow> pay_safe Q (k e) t) \<Longrightarrow> pay_safe Q (checkDailyLimit u a l k) s"
  unfolding checkDailyLimit_def by (auto intro!: safe_any_read pay.safe_look)

lemma safe_allocateOutTradeNo:
  "pay_inv s \<Longrightarrow> (\<And>t no. pay_inv t \<Longrightarrow> pay_safe Q (k no) t) \<Longrightarrow> pay_safe Q (allocateOutTradeNo cs k) s"
  by (induction cs arbitrary: s) (auto intro!: safe_any_read split: option.split bool.split)

lemma runs_createOrderInTx:
  assumes "pay_inv s"
  shows "pay_runs (createOrderInTx env w cfg req plan orderAmount limitAmount payAmount sel) s"
proof -
  have ins: "pay_runs (call (order_Insert od now)
      (\<lambda>r. case r of Some (Some od) \<Rightarrow> Return (Inr od) | _ \<Rightarrow> Return (Inl StoreError))) t"
    if "po_Status od = OrderStatusPending" for od now t
    by (rule safe_any_call) (use order_Insert_step that in \<open>auto split: option.split\<close>)
  show ?thesis unfolding createOrderInTx_def Let_def
    by (intro safe_checkPendingLimit safe_checkDailyLimit safe_allocateOutTradeNo safe_cases
        pay.safe_look ins; (assumption | simp))
qed

lemma runs_invokeProvider: "pay_runs (invokeProvider w req sel od) s"
proof -
  have "pay_runs (call (order_Update oid (\<lambda>_. True) (\<lambda>r. r\<lparr>po_PaymentTradeNo := f r, po_ProviderKey := g r\<rparr>))
      (\<lambda>n. if n = None \<or> n = Some 0 then Return (Some StoreError)
           else writeAuditLog oid act op (Return None))) t" for oid f g act op t
    by (rule safe_order_Update) (auto simp: order_facts order_delivered_def pays_for_def
        intro: safe_writeAuditLog)
  then show ?thesis unfolding invokeProvider_def by (simp split: option.split)
qed

lemma runs_placeOrder:
  assumes inv: "pay_inv s"
  shows "pay_runs (placeOrder env w cfg req plan orderAmount limitAmount payAmount sel) s"
  unfolding placeOrder_def
proof (rule pay.safe_then [OF inv runs_createOrderInTx [OF inv]])
  fix r t assume t: "pay_inv t"
  have fail: "pay_runs (call (order_Update oid (\<lambda>_. True) (\<lambda>r. r\<lparr>po_Status := OrderStatusFailed\<rparr>))
      (\<lambda>_. Return x)) u" for oid u and x :: "pay_error + int option"
    by (rule safe_order_Update) (auto simp: order_facts)
  have "pay_runs (bindP (invokeProvider w req sel od) (\<lambda>e. case e of
         None \<Rightarrow> Return (Inr (Some (po_ID od)))
       | Some e \<Rightarrow> call (order_Update (po_ID od) (\<lambda>_. True) (\<lambda>r. r\<lparr>po_Status := OrderStatusFailed\<rparr>))
           (\<lambda>_. Return (Inl e)))) t" for od
    by (rule pay.safe_then [OF t runs_invokeProvider]) (simp add: fail split: option.split)
  then show "pay_runs (case r of Inl e \<Rightarrow> Return (Inl e)
     | Inr od \<Rightarrow> bindP (invokeProvider w req sel od) (\<lambda>e. case e of
         None \<Rightarrow> Return (Inr (Some (po_ID od)))
       | Some e \<Rightarrow> call (order_Update (po_ID od) (\<lambda>_. True) (\<lambda>r. r\<lparr>po_Status := OrderStatusFailed\<rparr>))
           (\<lambda>_. Return (Inl e)))) t"
    by (simp split: sum.split)
qed

lemma runs_CreateOrder: "pay_inv s \<Longrightarrow> pay_runs (CreateOrder env w req) s"
  unfolding CreateOrder_def Let_def
  by (intro safe_checkCancelRateLimit safe_if safe_cases runs_placeOrder; (assumption | simp))

section \<open>The programs of the subsystem\<close>

text \<open>An entry point, with its result dropped.\<close>

definition silent :: "(store, 'a) prog \<Rightarrow> (store, unit) prog" where
  "silent p = bindP p (\<lambda>_. Return ())"

definition tick :: "go_duration \<Rightarrow> (store, unit) prog" where
  "tick d = Atomic (\<lambda>_ s. (s\<lparr>st_clock := st_clock s + d\<rparr>, Return ()))"

inductive payment_program :: "pay_env \<Rightarrow> (store, unit) prog \<Rightarrow> bool" for env :: pay_env where
  notified: "payment_program env (silent (HandlePaymentNotification env n pk))"
| retried: "payment_program env (silent (RetryFulfillment env oid))"
| executed: "payment_program env (silent (executeFulfillment env oid))"
| cancelled: "payment_program env (silent (CancelOrder env pa oid u))"
| admin_cancelled: "payment_program env (silent (AdminCancelOrder env pa oid))"
| expired: "payment_program env (silent (ExpireTimedOutOrders env pas))"
| reconciled: "payment_program env (silent (ReconcilePendingPaymentOrders env pas))"
| verified: "payment_program env (silent (VerifyOrderByOutTradeNo env pa raw u))"
| redeemed: "payment_program env (silent (Redeem env u code))"
| admin_redeemed: "payment_program env (silent (RedeemForAdminFulfillment env u code))"
| placed: "payment_program env (silent (CreateOrder env w req))"
| created: "rc_Status r \<in> {[], StatusUnused} \<Longrightarrow> payment_program env (silent (CreateCode r))"
| clock: "d \<ge> 0 \<Longrightarrow> payment_program env (tick d)"

lemma runs_silent: "pay_inv s \<Longrightarrow> pay_safe Q p s \<Longrightarrow> pay_runs (silent p) s"
  unfolding silent_def by (rule pay.safe_then) simp_all

lemma runs_tick: "pay_runs (tick d) s"
  unfolding tick_def
proof (rule pay.safe_AtomicI)
  fix t u :: store and r and q :: "(store, unit) prog" assume t: "pay_inv t" "(t\<lparr>st_clock := st_clock t + d\<rparr>, Return ()) = (u, q)"
  have "pay_evolves t u \<and> pay_inv u" by (rule harmless_step [OF t(1)]) (use t(2) in \<open>auto simp: rebates_of_def\<close>)
  with t(2) show "pay_evolves t u \<and> pay_inv u \<and> pay_runs q u" by auto
qed

theorem payment_program_runs: "payment_program env p \<Longrightarrow> pay_inv s \<Longrightarrow> pay_runs p s"
proof (erule payment_program.cases, goal_cases)
  case (9 u code)
  then show ?case unfolding Redeem_def by (blast intro: runs_silent safe_redeem)
next
  case (10 u code)
  then show ?case unfolding RedeemForAdminFulfillment_def by (blast intro: runs_silent safe_redeem)
next
  case (12 r)
  then show ?case by (blast intro: runs_silent safe_CreateCode)
qed (simp_all add: runs_tick runs_CreateOrder runs_silent [where Q = "\<lambda>_ _. True"] runs_HandlePaymentNotification
    runs_RetryFulfillment runs_executeFulfillment runs_CancelOrder runs_AdminCancelOrder
    runs_ExpireTimedOutOrders runs_ReconcilePendingPaymentOrders runs_VerifyOrderByOutTradeNo)

theorem payments_keep_inv:
  "pay_inv s0 \<Longrightarrow> reaches (payment_program env) s0 s \<Longrightarrow> pay_inv s \<and> pay_evolves s0 s"
  by (rule pay.reaches_safe [OF payment_program_runs])

end
