(* ===== verification/PaymentCorrectness.thy ===== *)
theory PaymentCorrectness
  imports PaymentPrograms
begin

text \<open>
  What the payment subsystem guarantees, under any interleaving of its programs with lost and
  refused calls, and a run of it from the order to the credit.
\<close>

section \<open>A run\<close>

definition demo_pay_env :: pay_env where
  "demo_pay_env = \<lparr>pe_zone = fixed_zone 0, pe_groups = Map.empty, pe_rebate = None,
     pe_instance_key = Map.empty, pe_registry_key = (\<lambda>t. t), pe_upper = (\<lambda>s. s), pe_fold = (=)\<rparr>"

definition demo_store :: store where
  "demo_store = \<lparr>st_clock = 1700000000000000000, st_orders = Map.empty, st_order_ids = [],
     st_next_order = 1, st_audit = [], st_codes = [], st_next_code = 1, st_locks = Map.empty,
     st_attempts = Map.empty,
     st_users = [7 \<mapsto> \<lparr>us_Balance = 0, us_TotalRecharged = 0, us_Concurrency = 1\<rparr>],
     st_affiliates = Map.empty, st_ledger = [], st_subs = (\<lambda>_. None), st_sub_ids = [],
     st_next_sub = 1\<rparr>"

definition demo_config :: payment_config where
  "demo_config = \<lparr>cf_Enabled = True, cf_BalanceDisabled = False, cf_MinAmount = 1, cf_MaxAmount = 1000,
     cf_DailyLimit = 0, cf_OrderTimeoutMin = 30, cf_MaxPendingOrders = 3,
     cf_BalanceRechargeMultiplier = 1, cf_RechargeFeeRate = 3, cf_SubscriptionUSDToCNYRate = 0,
     cf_CancelRateLimitEnabled = False, cf_CancelRateLimitMax = 0, cf_CancelRateLimitWindow = 0,
     cf_CancelRateLimitUnit = [], cf_CancelRateLimitMode = []\<rparr>"

definition demo_world :: create_world where
  "demo_world = \<lparr>cw_config = Some demo_config, cw_plan = None, cw_user_active = Some True,
     cw_method_currency = Some ''CNY'',
     cw_selection = Some (Some \<lparr>se_InstanceID = ''1'', se_ProviderKey = ''alipay'',
       se_PaymentMode = [], se_Config = (\<lambda>_. [])\<rparr>),
     cw_oauth = None, cw_oauth_response = False, cw_candidates = [''sub2_a''],
     cw_provider = Some ''T1''\<rparr>"

definition demo_request :: CreateOrderRequest where
  "demo_request = \<lparr>cq_UserID = 7, cq_Amount = Finite 10, cq_PaymentType = ''alipay'', cq_OpenID = [],
     cq_IsWeChatBrowser = False, cq_OrderType = [], cq_PlanID = 0\<rparr>"

definition demo_paid :: PaymentNotification where
  "demo_paid = \<lparr>pn_TradeNo = ''T1'', pn_OrderID = ''sub2_a'', pn_Amount = Finite (103 / 10),
     pn_Status = NotificationStatusSuccess, pn_Metadata = []\<rparr>"

definition demo_placed :: store where
  "demo_placed = fst (run_alone (silent (CreateOrder demo_pay_env demo_world demo_request)) demo_store)"

definition demo_credited :: store where
  "demo_credited =
     fst (run_alone (silent (HandlePaymentNotification demo_pay_env demo_paid ''alipay'')) demo_placed)"

text \<open>Before the first order there may be codes, but no rebate of an order.\<close>

definition fresh_store :: "store \<Rightarrow> bool" where
  "fresh_store s \<longleftrightarrow> st_orders s = Map.empty \<and> 0 < st_next_order s \<and> codes_inv s \<and> st_ledger s = []"

lemma fresh_store_inv: "fresh_store s \<Longrightarrow> pay_inv s"
  by (simp add: fresh_store_def pay_inv_def rebates_inv_def rebates_of_def)

lemma demo_fresh: "fresh_store demo_store"
  by (simp add: fresh_store_def demo_store_def codes_inv_def)

lemma demo_reaches:
  "reaches (payment_program demo_pay_env) demo_store demo_placed"
  "reaches (payment_program demo_pay_env) demo_store demo_credited"
  unfolding demo_credited_def demo_placed_def
  by (intro reaches_run_alone reaches_refl payment_program.intros)+

text \<open>The outcome of the run, evaluated once.\<close>

lemma demo_outcome:
  "(map_option (\<lambda>od. (po_Status od, po_OrderType od = OrderTypeSubscription, po_UserID od, po_RechargeCode od))
      (st_orders demo_credited 1), credit_of 7 (st_codes demo_credited),
    list_all (\<lambda>r. rc_Value r \<ge> 0) (st_codes demo_credited)) =
   (Some (OrderStatusCompleted, False, 7, ''PAY-1-0''), 10, True)"
  by code_simp

lemma demo_order: "\<exists>od. st_orders demo_credited 1 = Some od \<and> po_Status od = OrderStatusCompleted \<and>
    po_OrderType od \<noteq> OrderTypeSubscription \<and> po_UserID od = 7 \<and> po_RechargeCode od = ''PAY-1-0''"
  using demo_outcome by auto

section \<open>Guarantees\<close>

lemma filter_distinct_key: "distinct (map f xs) \<Longrightarrow> x \<in> set xs \<Longrightarrow> filter (\<lambda>y. f y = f x) xs = [x]"
  by (induction xs) (auto simp: filter_empty_conv rev_image_eqI)

text \<open>
  C2: A completed balance order has been credited exactly once: under any interleaving of orders
  placed, notified, verified, cancelled, expired and retried, with calls that fail or whose answer
  is lost, exactly one code bears its number; it is worth the amount of the order and was used by
  its user, and no other order shares it.
\<close>

theorem payment_credit_exactly_once:
  assumes "fresh_store s0" "reaches (payment_program env) s0 s"
    "st_orders s oid = Some od" "po_Status od = OrderStatusCompleted"
    "po_OrderType od \<noteq> OrderTypeSubscription"
  shows "\<exists>r. filter (\<lambda>r. rc_Code r = po_RechargeCode od) (st_codes s) = [r] \<and>
    rc_Type r = RedeemTypeBalance \<and> \<bar>rc_Value r - po_Amount od\<bar> \<le> 1 / 10 ^ 8 \<and>
    rc_Status r = StatusUsed \<and> rc_UsedBy r = Some (po_UserID od) \<and>
    (\<forall>oid' od'. st_orders s oid' = Some od' \<and> po_RechargeCode od' = po_RechargeCode od \<longrightarrow> oid' = oid)"
proof -
  have inv: "pay_inv s" using payments_keep_inv [OF fresh_store_inv [OF assms(1)] assms(2)] by blast
  then have od: "order_inv s oid od" using assms(3) by (simp add: pay_inv_def)
  then obtain r where r: "r \<in> set (st_codes s)" "pays_for od r"
    using assms(4,5) by (auto simp: order_inv_def order_delivered_def)
  have "distinct (map rc_Code (st_codes s))" using inv by (simp add: pay_inv_def codes_inv_def)
  then have "filter (\<lambda>x. rc_Code x = rc_Code r) (st_codes s) = [r]"
    by (rule filter_distinct_key [OF _ r(1)])
  moreover have "oid' = oid" if "st_orders s oid' = Some od'" "po_RechargeCode od' = po_RechargeCode od"
    for oid' od'
  proof -
    have "order_inv s oid' od'" using inv that(1) by (simp add: pay_inv_def)
    with od that(2) pay_code_inject show ?thesis by (auto simp: order_inv_def)
  qed
  ultimately show ?thesis using r by (auto simp: pays_for_def rc_IsUsed_def)
qed

theorem payment_credit_exactly_once_witness:
  "\<exists>r. filter (\<lambda>r. rc_Code r = ''PAY-1-0'') (st_codes demo_credited) = [r] \<and>
     rc_Status r = StatusUsed \<and> rc_UsedBy r = Some 7"
proof -
  obtain od where od: "st_orders demo_credited 1 = Some od" "po_Status od = OrderStatusCompleted"
      "po_OrderType od \<noteq> OrderTypeSubscription" "po_UserID od = 7" "po_RechargeCode od = ''PAY-1-0''"
    using demo_order by blast
  with payment_credit_exactly_once [OF demo_fresh demo_reaches(2) od(1-3)] show ?thesis by auto
qed





end
