(* ===== verification/PaymentRetry.thy ===== *)
theory PaymentRetry
  imports PaymentCorrectness
begin

text \<open>
  Fulfilment ends: whatever a crashed, failed or interrupted worker has left behind, one attempt
  that runs undisturbed completes a balance order. The lemmas run the parts of
  \<^verbatim>\<open>ExecuteBalanceFulfillment\<close> one after the other.
\<close>

section \<open>The parts\<close>

definition leased :: "PaymentOrder \<Rightarrow> go_time \<Rightarrow> PaymentOrder" where
  "leased od now = od\<lparr>po_Status := OrderStatusRecharging, po_UpdatedAt := micros now,
     po_FailedAt := None, po_FailedReason := None\<rparr>"

definition may_lease :: "PaymentOrder \<Rightarrow> go_time \<Rightarrow> bool" where
  "may_lease od now \<longleftrightarrow> po_Status od = OrderStatusPaid \<or> po_Status od = OrderStatusFailed \<or>
     (po_Status od = OrderStatusRecharging \<and>
      po_UpdatedAt od \<le> micros now - paymentFulfillmentLeaseDuration)"

lemma run_acquire:
  assumes "st_orders s oid = Some od" "may_lease od (st_clock s)"
  shows "run_alone (acquirePaymentFulfillmentLease oid) s =
    (s\<lparr>st_orders := (st_orders s)(oid \<mapsto> leased od (st_clock s))\<rparr>, Inr (Some (micros (st_clock s))))"
  using assms
  by (simp add: acquirePaymentFulfillmentLease_def Let_def order_Update_def order_Get_def leased_def
      may_lease_def)

text \<open>What the rest of the attempt leaves alone.\<close>

definition same_accounts :: "store \<Rightarrow> store \<Rightarrow> bool" where
  "same_accounts s t \<longleftrightarrow> st_codes t = st_codes s \<and> st_users t = st_users s"

lemma run_rebate:
  "\<exists>t. run_alone (applyAffiliateRebateForOrder env od) s = (t, None) \<and> same_accounts s t \<and>
     st_orders t = st_orders s \<and> st_clock t = st_clock s"
proof (cases "affiliateRebateBaseAmount od \<le> 0 \<or> pe_rebate env = None")
  case True
  then show ?thesis
    by (auto simp: applyAffiliateRebateForOrder_def Let_def same_accounts_def split: option.split)
next
  case False
  then obtain cfg where cfg: "pe_rebate env = Some cfg" by auto
  let ?tx = "rebateTx env cfg (po_ID od) (po_UserID od) (affiliateRebateBaseAmount od) s"
  obtain t r where tx: "?tx = (t, r)" by fastforce
  have "\<exists>x. r = Inr x"
  proof (cases "has_audit (po_ID od) ''AFFILIATE_REBATE_APPLIED'' s \<or>
      has_audit (po_ID od) ''AFFILIATE_REBATE_SKIPPED'' s")
    case True
    with tx show ?thesis by (auto simp: rebateTx_def in_tx_def tryClaimAffiliateRebateAudit_def)
  next
    case no: False
    let ?s = "fst (audit_Create (po_ID od) ''AFFILIATE_REBATE_APPLIED'' ''system'' s)"
    obtain u x where acc: "AccrueInviteRebateForOrder (pe_zone env) cfg (po_UserID od)
        (affiliateRebateBaseAmount od) (Some (po_ID od)) ?s = (u, Inr x)" using Accrue_Inr by blast
    have "has_audit (po_ID od) ''AFFILIATE_REBATE_APPLIED'' ?s" using no
      by (simp add: audit_Create_def has_audit_def)
    then have "has_audit (po_ID od) ''AFFILIATE_REBATE_APPLIED'' u"
      using AccrueInviteRebateForOrder_ledger [OF acc]
      by (auto simp: same_but_affiliates_def has_audit_def)
    with acc tx no show ?thesis
      by (auto simp: rebateTx_def in_tx_def tryClaimAffiliateRebateAudit_def audit_Create_def
          updateClaimedAffiliateRebateAudit_def)
  qed
  then have "run_alone (applyAffiliateRebateForOrder env od) s = (t, None)"
    using False cfg tx by (auto simp: applyAffiliateRebateForOrder_def)
  moreover have "same_accounts s t \<and> st_orders t = st_orders s \<and> st_clock t = st_clock s"
    using tx by (cases rule: rebateTx_cases) (simp_all add: same_accounts_def)
  ultimately show ?thesis by blast
qed

lemma run_markCompleted:
  assumes "st_orders s oid = Some od" "holds_lease version od"
  shows "\<exists>t. run_alone (markCompleted oid version act) s = (t, None) \<and> same_accounts s t \<and>
    (\<exists>od'. st_orders t oid = Some od' \<and> po_Status od' = OrderStatusCompleted)"
  using assms
  by (auto simp: markCompleted_def order_Update_def hasAuditLog_def writeAuditLog_def audit_Create_def
      same_accounts_def)

lemma run_rebateAndComplete:
  assumes "st_orders s (po_ID od) = Some od'" "holds_lease version od'"
  shows "\<exists>t. run_alone (rebateAndComplete env od version act) s = (t, None) \<and> same_accounts s t \<and>
    (\<exists>od'. st_orders t (po_ID od) = Some od' \<and> po_Status od' = OrderStatusCompleted)"
proof -
  obtain t where t: "run_alone (applyAffiliateRebateForOrder env od) s = (t, None)" "same_accounts s t"
      "st_orders t = st_orders s"
    using run_rebate by blast
  obtain u where "run_alone (markCompleted (po_ID od) version act) t = (u, None)" "same_accounts t u"
      "\<exists>od'. st_orders u (po_ID od) = Some od' \<and> po_Status od' = OrderStatusCompleted"
    using run_markCompleted [of t "po_ID od" od' version act] t(3) assms by auto
  with t show ?thesis by (auto simp: rebateAndComplete_def try_then_def same_accounts_def)
qed

section \<open>Redeeming without interruption\<close>

definition lock_free :: "string \<Rightarrow> store \<Rightarrow> bool" where
  "lock_free c s \<longleftrightarrow> st_locks s c = None \<or> the (st_locks s c) \<le> st_clock s"

definition usable_code :: "PaymentOrder \<Rightarrow> RedeemCode \<Rightarrow> go_time \<Rightarrow> bool" where
  "usable_code od r now \<longleftrightarrow> rc_Code r = po_RechargeCode od \<and> rc_Type r = RedeemTypeBalance \<and>
     rc_Value r > 0 \<and> rc_Status r = StatusUnused \<and> \<not> rc_IsExpiredAt r now"

lemma run_redeem:
  assumes inv: "codes_inv s" and r: "r \<in> set (st_codes s)" "usable_code od r (st_clock s)"
    and u: "st_users s (po_UserID od) = Some a" and lock: "lock_free (po_RechargeCode od) s"
  shows "\<exists>t. run_alone (redeemForOrder env od) s = (t, None) \<and> st_orders t = st_orders s \<and>
    st_clock t = st_clock s \<and> code_spent (po_RechargeCode od) (po_UserID od) t \<and>
    st_users t = (st_users s)(po_UserID od \<mapsto> a\<lparr>us_Balance := us_Balance a + rc_Value r,
      us_TotalRecharged := us_TotalRecharged a + rc_Value r\<rparr>)"
proof -
  let ?c = "po_RechargeCode od"
  let ?u = "po_UserID od"
  let ?use = "use_row (rc_ID r) ?u (st_clock s)"
  let ?a = "a\<lparr>us_Balance := us_Balance a + rc_Value r, us_TotalRecharged := us_TotalRecharged a + rc_Value r\<rparr>"
  have dis: "distinct (map rc_Code (st_codes s))" "distinct (map rc_ID (st_codes s))"
    using inv by (simp_all add: codes_inv_def)
  have find_first: "find (\<lambda>x. f x = f y) xs = Some y" if "distinct (map f xs)" "y \<in> set xs"
    for f :: "RedeemCode \<Rightarrow> 'b" and xs y
    using that by (induction xs) (auto simp: rev_image_eqI)
  have code: "rc_Code r = ?c" using r(2) by (simp add: usable_code_def)
  have found: "find (\<lambda>x. rc_Code x = ?c) (st_codes s) = Some r"
    using find_first [OF dis(1) r(1)] code by simp
  have ne: "RedeemTypeBalance \<noteq> RedeemTypeSubscription"
    by (simp add: RedeemTypeBalance_def RedeemTypeSubscription_def)
  have can: "\<not> rc_IsExpiredAt r (st_clock s)" "rc_CanUse r (st_clock s)"
    "rc_Type r = RedeemTypeBalance" "rc_Value r > 0" "rc_Status r = StatusUnused"
    using r(2) by (simp_all add: usable_code_def rc_CanUse_def)
  define s1 where "s1 = s\<lparr>st_locks := (st_locks s)(?c \<mapsto> st_clock s + redeemLockDuration)\<rparr>"
  define s2 where "s2 = s1\<lparr>st_codes := map ?use (st_codes s), st_users := (st_users s)(?u \<mapsto> ?a)\<rparr>"
  have lock1: "cache_AcquireRedeemLock ?c redeemLockDuration s = (s1, True)"
    using lock by (auto simp: cache_AcquireRedeemLock_def lock_free_def s1_def split: option.splits)
  have use: "code_Use (rc_ID r) ?u s1 = (s1\<lparr>st_codes := map ?use (st_codes s)\<rparr>, Inr ())"
    using r(1) can(5) by (auto simp: code_Use_def code_Update_def Let_def s1_def filter_empty_conv
        use_row_def [abs_def])
  have tx: "redeemTx env r ?u s1 = (s2, Inr ())"
    using use can u by (simp add: redeemTx_def in_tx_def grantCode_def user_UpdateBalance_def
        user_modify_def s2_def s1_def)
  have "find (\<lambda>x. rc_ID x = rc_ID r) (map ?use (st_codes s)) = Some (?use r)"
    using find_first [of rc_ID "map ?use (st_codes s)" "?use r"] dis(2) r(1) by (simp add: comp_def)
  then have locked: "run_alone (redeemLocked env False True ?u ?c) s1 = (s2, Inr (?use r))"
    using found can ne u tx
    by (simp add: redeemLocked_def code_GetByCode_def code_GetByID_def 
        tryAccrueAffiliateRebateForRedeem_def s1_def s2_def)
  define t where "t = s2\<lparr>st_locks := (st_locks s2)(?c := None)\<rparr>"
  have "run_alone (redeemForOrder env od) s = (t, None)"
    using lock1 locked
    by (simp add: redeemForOrder_def redeemForPaymentFulfillment_def redeem_def
        checkRedeemRateLimit_def acquireRedeemLock_def cache_ReleaseRedeemLock_def t_def)
  moreover have "code_spent ?c ?u t"
    unfolding code_spent_def t_def s2_def
    using r(1) code can(5) by (intro bexI [of _ "?use r"]) (auto simp: use_row_def rc_IsUsed_def)
  ultimately show ?thesis by (simp add: t_def s2_def s1_def)
qed

lemma run_CreateCode:
  assumes none: "find (\<lambda>r. rc_Code r = po_RechargeCode od) (st_codes s) = None"
    and od: "po_Amount od > 0" "po_RechargeCode od \<noteq> []" "trim_space (po_RechargeCode od) = po_RechargeCode od"
  shows "run_alone (CreateCode (paymentRedeemCode od)) s =
    (s\<lparr>st_codes := st_codes s @ [(paymentRedeemCode od)\<lparr>rc_ID := st_next_code s\<rparr>],
       st_next_code := st_next_code s + 1\<rparr>, None)"
proof -
  have ne: "RedeemTypeBalance \<noteq> []" "RedeemTypeBalance \<noteq> RedeemTypeInvitation" "StatusUnused \<noteq> []"
    "StatusUnused \<noteq> StatusExpired"
    by (simp_all add: RedeemTypeBalance_def RedeemTypeInvitation_def StatusUnused_def StatusExpired_def)
  have "(paymentRedeemCode od)\<lparr>rc_Code := po_RechargeCode od\<rparr> = paymentRedeemCode od"
    by (simp add: paymentRedeemCode_def)
  moreover have "code_Create (paymentRedeemCode od) s =
      (s\<lparr>st_codes := st_codes s @ [(paymentRedeemCode od)\<lparr>rc_ID := st_next_code s\<rparr>],
       st_next_code := st_next_code s + 1\<rparr>, True)"
    using none by (auto simp: code_Create_def paymentRedeemCode_def find_None_iff list_ex_iff)
  ultimately show ?thesis using od ne
    by (simp add: CreateCode_def Let_def paymentRedeemCode_def rc_IsExpiredAt_def)
qed

section \<open>One attempt\<close>

text \<open>The code of an order, if it is there, was made for it and is used by its user or still usable.\<close>

definition code_in_order :: "PaymentOrder \<Rightarrow> store \<Rightarrow> bool" where
  "code_in_order od s \<longleftrightarrow>
     (case find (\<lambda>r. rc_Code r = po_RechargeCode od) (st_codes s) of
        None \<Rightarrow> True
      | Some r \<Rightarrow> validatePaymentRedeemCode od r = None \<and> rc_Value r > 0 \<and>
          (rc_IsUsed r \<or> \<not> rc_IsExpiredAt r (st_clock s)))"

text \<open>What the attempt adds to the account: nothing if the code was used before.\<close>

definition credit_due :: "PaymentOrder \<Rightarrow> store \<Rightarrow> rat" where
  "credit_due od s =
     (case find (\<lambda>r. rc_Code r = po_RechargeCode od) (st_codes s) of
        None \<Rightarrow> po_Amount od
      | Some r \<Rightarrow> if rc_IsUsed r then 0 else rc_Value r)"

definition credited_by :: "rat \<Rightarrow> int \<Rightarrow> user_row \<Rightarrow> store \<Rightarrow> bool" where
  "credited_by v u a t \<longleftrightarrow> (\<exists>b. st_users t u = Some b \<and> us_Balance b = us_Balance a + v \<and>
     us_TotalRecharged b = us_TotalRecharged a + v)"

lemma credited_by_same: "credited_by v u a s \<Longrightarrow> same_accounts s t \<Longrightarrow> credited_by v u a t"
  by (simp add: credited_by_def same_accounts_def)

lemma code_spent_same: "code_spent c u s \<Longrightarrow> same_accounts s t \<Longrightarrow> code_spent c u t"
  by (simp add: code_spent_def same_accounts_def)

definition done_with :: "PaymentOrder \<Rightarrow> rat \<Rightarrow> user_row \<Rightarrow> store \<Rightarrow> bool" where
  "done_with od v a t \<longleftrightarrow> (\<exists>od'. st_orders t (po_ID od) = Some od' \<and> po_Status od' = OrderStatusCompleted) \<and>
     code_spent (po_RechargeCode od) (po_UserID od) t \<and> credited_by v (po_UserID od) a t"

lemma run_finish:
  assumes "st_orders s (po_ID od) = Some od'" "holds_lease version od'"
    "code_spent (po_RechargeCode od) (po_UserID od) s" "credited_by v (po_UserID od) a s"
  shows "\<exists>t. run_alone (rebateAndComplete env od version act) s = (t, None) \<and> done_with od v a t"
  using run_rebateAndComplete [OF assms(1,2), of env act] credited_by_same [OF assms(4)]
    code_spent_same [OF assms(3)]
  unfolding done_with_def by blast

lemma run_redeem_finish:
  assumes "codes_inv s" "r \<in> set (st_codes s)" "usable_code od r (st_clock s)"
    "st_users s (po_UserID od) = Some a" "lock_free (po_RechargeCode od) s"
    "st_orders s (po_ID od) = Some od'" "holds_lease version od'"
  shows "\<exists>t. run_alone (try_then (redeemForOrder env od) (rebateAndComplete env od version act)) s = (t, None) \<and>
    done_with od (rc_Value r) a t"
proof -
  obtain t where t: "run_alone (redeemForOrder env od) s = (t, None)" "st_orders t = st_orders s"
      "code_spent (po_RechargeCode od) (po_UserID od) t" "credited_by (rc_Value r) (po_UserID od) a t"
    using run_redeem [OF assms(1-5), of env] by (auto simp: credited_by_def)
  obtain v where "run_alone (rebateAndComplete env od version act) t = (v, None)"
      "done_with od (rc_Value r) a v"
    using run_finish [of t od od' version, OF _ assms(7) t(3,4)] t(2) assms(6) by auto
  with t(1) show ?thesis by (simp add: try_then_def)
qed

lemma run_doBalance:
  assumes inv: "codes_inv s" and code: "code_in_order od s"
    and od: "po_Amount od > 0" "po_RechargeCode od \<noteq> []" "trim_space (po_RechargeCode od) = po_RechargeCode od"
    and u: "st_users s (po_UserID od) = Some a" and lock: "lock_free (po_RechargeCode od) s"
    and lease: "st_orders s (po_ID od) = Some od'" "holds_lease version od'"
  shows "\<exists>t. run_alone (doBalance env od version) s = (t, None) \<and> done_with od (credit_due od s) a t"
proof (cases "find (\<lambda>r. rc_Code r = po_RechargeCode od) (st_codes s)")
  case None
  let ?r = "(paymentRedeemCode od)\<lparr>rc_ID := st_next_code s\<rparr>"
  let ?s = "s\<lparr>st_codes := st_codes s @ [?r], st_next_code := st_next_code s + 1\<rparr>"
  have "codes_inv ?s" using inv None
    by (force simp: codes_inv_def find_None_iff paymentRedeemCode_def)
  moreover have "usable_code od ?r (st_clock s)" using od(1)
    by (simp add: usable_code_def paymentRedeemCode_def rc_IsExpiredAt_def StatusUnused_def StatusExpired_def)
  ultimately obtain t where "run_alone (try_then (redeemForOrder env od)
      (rebateAndComplete env od version ''RECHARGE_SUCCESS'')) ?s = (t, None)"
      "done_with od (rc_Value ?r) a t"
    using run_redeem_finish [of ?s ?r od a od' version env "''RECHARGE_SUCCESS''"] u lock lease
    by (auto simp: lock_free_def)
  with None run_CreateCode [OF None od] show ?thesis
    by (simp add: doBalance_def code_GetByCode_def resolveRedeemAction_def try_then_def [of "CreateCode _"]
        credit_due_def paymentRedeemCode_def)
next
  case (Some r)
  then have r: "r \<in> set (st_codes s)" "rc_Code r = po_RechargeCode od" by (auto simp: find_Some_iff)
  have ok: "validatePaymentRedeemCode od r = None" "rc_Value r > 0"
    "rc_IsUsed r \<or> \<not> rc_IsExpiredAt r (st_clock s)" using code Some by (simp_all add: code_in_order_def)
  show ?thesis
  proof (cases "rc_IsUsed r")
    case True
    have "code_spent (po_RechargeCode od) (po_UserID od) s" using r ok(1) True
      by (auto simp: code_spent_def validatePaymentRedeemCode_def rc_IsUsed_def StatusUsed_def
          StatusUnused_def split: if_splits)
    moreover have "credited_by 0 (po_UserID od) a s" using u by (simp add: credited_by_def)
    ultimately show ?thesis using run_finish [OF lease, of 0 a env "''RECHARGE_SUCCESS''"] Some True ok(1)
      by (simp add: doBalance_def code_GetByCode_def resolveRedeemAction_def credit_due_def)
  next
    case False
    have "usable_code od r (st_clock s)" using r ok False
      by (auto simp: usable_code_def validatePaymentRedeemCode_def rc_IsUsed_def split: if_splits)
    from run_redeem_finish [OF inv r(1) this u lock lease, of env "''RECHARGE_SUCCESS''"] Some False ok(1)
    show ?thesis
      by (simp add: doBalance_def code_GetByCode_def resolveRedeemAction_def credit_due_def)
  qed
qed

text \<open>
  C3: Fulfilment is never stuck: whatever an earlier worker left of a balance order that is paid or
  failed, or whose lease is stale, one attempt that runs to its end completes the order and
  credits its user, by the value of the code or, when the code was used before, by nothing.
\<close>

theorem payment_retry_completes:
  assumes "pay_inv s" "st_orders s oid = Some od" "may_lease od (st_clock s)"
    "po_OrderType od \<noteq> OrderTypeSubscription" "po_Amount od > 0"
    "st_users s (po_UserID od) = Some a" "code_in_order od s" "lock_free (po_RechargeCode od) s"
  shows "\<exists>t od' b. run_alone (executeFulfillment env oid) s = (t, None) \<and>
    st_orders t oid = Some od' \<and> po_Status od' = OrderStatusCompleted \<and>
    code_spent (po_RechargeCode od) (po_UserID od) t \<and>
    st_users t (po_UserID od) = Some b \<and> us_Balance b = us_Balance a + credit_due od s \<and>
    us_TotalRecharged b = us_TotalRecharged a + credit_due od s"
proof -
  have od: "order_inv s oid od" and codes: "codes_inv s" using assms(1,2) by (simp_all add: pay_inv_def)
  then obtain n where code: "po_RechargeCode od = pay_code oid n" "po_ID od = oid"
    by (auto simp: order_inv_def)
  let ?now = "st_clock s"
  let ?s = "s\<lparr>st_orders := (st_orders s)(oid \<mapsto> leased od ?now)\<rparr>"
  have "holds_lease (micros ?now) (leased od ?now)" by (simp add: holds_lease_def leased_def)
  moreover have "codes_inv ?s" using codes by (simp add: codes_inv_def)
  moreover have "code_in_order od ?s" "lock_free (po_RechargeCode od) ?s"
    using assms(7,8) by (simp_all add: code_in_order_def lock_free_def cong: option.case_cong)
  moreover have "po_RechargeCode od \<noteq> []" "trim_space (po_RechargeCode od) = po_RechargeCode od"
    unfolding code(1) pay_code_trim by (simp_all add: pay_code_def)
  ultimately obtain t where t: "run_alone (doBalance env od (micros ?now)) ?s = (t, None)"
      "done_with od (credit_due od ?s) a t"
    using run_doBalance [of ?s od a "leased od ?now" "micros ?now" env] assms(5,6) code(2) by auto
  have "fulfillable od = None" using assms(3) by (auto simp: fulfillable_def may_lease_def psIsRefundStatus_def)
  then have "run_alone (executeFulfillment env oid) s = (t, None)"
    using assms(2,4) run_acquire [OF assms(2,3)] t(1)
    by (simp add: executeFulfillment_def ExecuteBalanceFulfillment_def order_Get_def under_lease_def)
  with t(2) code(2) show ?thesis
    by (auto simp: done_with_def credited_by_def credit_due_def)
qed

text \<open>
  A worker that crashed as it redeemed the code: the transaction took effect, its answer was lost,
  and six minutes later the lease is stale. The retry completes the order and adds nothing.
\<close>

definition demo_crash_moves :: "(store, unit) move list" where
  "demo_crash_moves =
     [Start (silent (HandlePaymentNotification demo_pay_env demo_paid ''alipay''))] @
     replicate 19 (Step 0 Answered) @
     [Step 0 AnswerLost, Start (tick (6 * minute)), Step 0 Answered]"

definition demo_crashed :: store where
  "demo_crashed = fst (the (play demo_crash_moves (demo_placed, [])))"

lemma demo_crashed_inv: "pay_inv demo_crashed"
proof -
  have "\<not> Option.is_none (play demo_crash_moves (demo_placed, []))" by code_simp
  then obtain s ps where "play demo_crash_moves (demo_placed, []) = Some (s, ps)"
    by (auto simp: Option.is_none_def)
  moreover have "\<forall>p. Start p \<in> set demo_crash_moves \<longrightarrow> payment_program demo_pay_env p"
    by (auto simp: demo_crash_moves_def minute_def second_def intro: payment_program.intros)
  ultimately have "reaches (payment_program demo_pay_env) demo_placed demo_crashed"
    using play_reaches [of demo_crash_moves demo_placed s ps] by (simp add: demo_crashed_def)
  moreover have "pay_inv demo_placed"
    using payments_keep_inv [OF fresh_store_inv [OF demo_fresh] demo_reaches(1)] by blast
  ultimately show ?thesis using payments_keep_inv by blast
qed

theorem payment_retry_completes_witness:
  "\<exists>t b. run_alone (executeFulfillment demo_pay_env 1) demo_crashed = (t, None) \<and>
     map_option po_Status (st_orders t 1) = Some OrderStatusCompleted \<and>
     st_users t 7 = Some b \<and> us_Balance b = 10"
proof -
  have "(map_option (\<lambda>od. may_lease od (st_clock demo_crashed) \<and> po_OrderType od \<noteq> OrderTypeSubscription \<and>
      po_Amount od > 0 \<and> po_UserID od = 7 \<and> code_in_order od demo_crashed \<and>
      lock_free (po_RechargeCode od) demo_crashed \<and> credit_due od demo_crashed = 0)
    (st_orders demo_crashed 1), map_option us_Balance (st_users demo_crashed 7)) = (Some True, Some 10)"
    by code_simp
  then obtain od a where od: "st_orders demo_crashed 1 = Some od" "may_lease od (st_clock demo_crashed)"
      "po_OrderType od \<noteq> OrderTypeSubscription" "po_Amount od > 0" "code_in_order od demo_crashed"
      "lock_free (po_RechargeCode od) demo_crashed" "po_UserID od = 7" "credit_due od demo_crashed = 0"
      and a: "st_users demo_crashed (po_UserID od) = Some a" "us_Balance a = 10"
    by auto
  from payment_retry_completes [OF demo_crashed_inv od(1-4) a(1) od(5,6), of demo_pay_env] od(7,8) a(2)
  show ?thesis by fastforce
qed

end
