(* ===== verification/PaymentRaces.thy ===== *)
theory PaymentRaces
  imports PaymentRetry
begin

text \<open>
  Two interleavings that go wrong: a batch update of codes that races with a redemption, and a trade
  number that is stored while the order is being fulfilled.
\<close>

section \<open>Batch update against redemption\<close>

definition race_code :: RedeemCode where
  "race_code = \<lparr>rc_ID = 1, rc_Code = ''GIFT'', rc_Type = RedeemTypeBalance, rc_Value = 10,
     rc_Status = StatusUnused, rc_UsedBy = None, rc_UsedAt = None, rc_ExpiresAt = None,
     rc_GroupID = None, rc_ValidityDays = 0\<rparr>"

definition race_store :: store where
  "race_store = demo_store\<lparr>st_codes := [race_code], st_next_code := 2\<rparr>"

definition race_redeem :: "(store, unit) prog" where
  "race_redeem = silent (Redeem demo_pay_env 7 ''GIFT'')"

definition race_update :: "(store, unit) prog" where
  "race_update = silent (BatchUpdateStatus [1] StatusUnused)"

definition race_moves :: "(store, unit) move list" where
  "race_moves =
     [Start race_update, Step 0 Answered, Start race_redeem] @ replicate 9 (Step 0 Answered) @
     [Step 1 Answered, Start race_redeem] @ replicate 9 (Step 0 Answered)"

text \<open>
  A code can be spent twice when an administrator's batch update meets a redemption: the
  update reads the row while the code is unused, the user redeems it, the update then writes
  \<^verbatim>\<open>unused\<close> over it without looking again, and the user redeems it once more. One code of ten
  has credited twenty.
\<close>

theorem batch_update_reopens_spent_code:
  "\<exists>s. reaches (\<lambda>p. p = race_redeem \<or> p = race_update) race_store s \<and>
     map rc_Value (st_codes s) = [10] \<and> map_option us_Balance (st_users s 7) = Some 20"
proof -
  have "map_option (\<lambda>(s, _). (map rc_Value (st_codes s), map_option us_Balance (st_users s 7)))
      (play race_moves (race_store, [])) = Some ([10], Some 20)"
    by code_simp
  then obtain s ps where s: "play race_moves (race_store, []) = Some (s, ps)"
      "map rc_Value (st_codes s) = [10]" "map_option us_Balance (st_users s 7) = Some 20"
    by auto
  moreover have "reaches (\<lambda>p. p = race_redeem \<or> p = race_update) race_store s"
  proof (rule play_reaches [OF s(1)], intro allI impI)
    fix p assume "Start p \<in> set race_moves"
    then show "p = race_redeem \<or> p = race_update"
      unfolding race_moves_def by (simp del: replicate.simps split: if_splits) blast?
  qed
  ultimately show ?thesis by (intro exI [of _ s] conjI)
qed

section \<open>A trade number against the lease\<close>

text \<open>
  Storing the trade number of the provider, as a verification does, renews \<^verbatim>\<open>updated_at\<close> and with
  it the version of the lease: the worker that holds it can neither complete the order nor mark it
  as failed, although its user has been credited.
\<close>

lemma trade_number_breaks_lease:
  assumes "st_orders s oid = Some od" "holds_lease version od" "micros (st_clock s) \<noteq> version"
    and t: "t = fst (order_Update oid (\<lambda>_. True) (\<lambda>r. r\<lparr>po_PaymentTradeNo := no\<rparr>) s)"
  shows "run_alone (markCompleted oid version act) t = (t, Some LeaseConflict)"
    "run_alone (markFailed oid version cause) t = (t, ())"
    "map_option po_Status (st_orders t oid) = Some OrderStatusRecharging"
  using assms
  by (simp_all add: markCompleted_def markFailed_def order_Update_def order_Get_def holds_lease_def)

end
