(* ===== verification/ConcurrencyCache.thy ===== *)
theory ConcurrencyCache
  imports RedisStore Interleaving
begin

text \<open>
  \<^verbatim>\<open>backend/internal/repository/concurrency_cache.go\<close>: the slots that bound how many requests
  an account or a user has in flight, kept in Redis. A slot is the member of a sorted set whose
  score is the second it was taken; it expires \<^verbatim>\<open>slotTTLSeconds\<close> later. Live sessions and
  WebSocket connections hold leases of 60 seconds in sets of their own, waiting requests are
  counted, and two indices list the accounts and users that may have either.

  Every Lua script is one function of the server. A method is a program of the commands it sends;
  \<^verbatim>\<open>go-redis\<close> repeats a command up to \<open>cc_Retries\<close> times when the connection fails, and
  \<^const>\<open>None\<close> is the error a method returns. The commands of a pipeline run one by one. A key is the
  string the source formats. The keys \<^verbatim>\<open>SCAN\<close> happens to return are an argument. Log lines are
  left out, and so are the checks for a nil client.
\<close>

section \<open>Keys\<close>

definition accountSlotKey :: "int \<Rightarrow> string" where
  "accountSlotKey i = ''concurrency:account:'' @ FormatInt10 i"
definition userSlotKey :: "int \<Rightarrow> string" where
  "userSlotKey i = ''concurrency:user:'' @ FormatInt10 i"
definition apiKeySlotKey :: "int \<Rightarrow> string" where
  "apiKeySlotKey i = ''concurrency:api_key:'' @ FormatInt10 i"
definition liveAccountSlotKey :: "int \<Rightarrow> string" where
  "liveAccountSlotKey i = ''concurrency:live:account:'' @ FormatInt10 i"
definition liveUserSlotKey :: "int \<Rightarrow> string" where
  "liveUserSlotKey i = ''concurrency:live:user:'' @ FormatInt10 i"
definition liveAPIKeySlotKey :: "int \<Rightarrow> string" where
  "liveAPIKeySlotKey i = ''concurrency:live:api_key:'' @ FormatInt10 i"
definition openAIWSIngressLeaseKey :: "int \<Rightarrow> string" where
  "openAIWSIngressLeaseKey i = ''concurrency:openai_ws_ingress:api_key:'' @ FormatInt10 i"
definition waitQueueKey :: "int \<Rightarrow> string" where
  "waitQueueKey i = ''concurrency:wait:'' @ FormatInt10 i"
definition accountWaitKey :: "int \<Rightarrow> string" where
  "accountWaitKey i = ''wait:account:'' @ FormatInt10 i"

definition accountActiveIndexKey :: string where
  "accountActiveIndexKey = ''concurrency:account:active_index''"
definition userActiveIndexKey :: string where
  "userActiveIndexKey = ''concurrency:user:active_index''"
definition legacyWaitSweepMarkerKey :: string where
  "legacyWaitSweepMarkerKey = ''concurrency:startup:legacy_wait_sweep:v1''"

definition openAIWSIngressLeaseTTLSeconds :: int where "openAIWSIngressLeaseTTLSeconds = 60"
definition liveLeaseTTLSeconds :: int where "liveLeaseTTLSeconds = 60"
definition defaultSlotTTLMinutes :: int where "defaultSlotTTLMinutes = 15"
definition activeIndexCleanupBatchSize :: nat where "activeIndexCleanupBatchSize = 1000"
definition activeIndexPipelineChunkSize :: nat where "activeIndexPipelineChunkSize = 500"

record slotIndexSpec =
  si_indexKey :: string
  si_slotKey :: "int \<Rightarrow> string"
  si_waitKey :: "int \<Rightarrow> string"

definition accountSlotIndex :: slotIndexSpec where
  "accountSlotIndex = \<lparr>si_indexKey = accountActiveIndexKey, si_slotKey = accountSlotKey,
     si_waitKey = accountWaitKey\<rparr>"
definition userSlotIndex :: slotIndexSpec where
  "userSlotIndex = \<lparr>si_indexKey = userActiveIndexKey, si_slotKey = userSlotKey,
     si_waitKey = waitQueueKey\<rparr>"

section \<open>Scripts\<close>

definition acquireScript ::
  "string \<Rightarrow> string \<Rightarrow> int \<Rightarrow> int \<Rightarrow> string \<Rightarrow> 'z redis_scheme \<Rightarrow> 'z redis_scheme \<times> int \<times> int" where
  "acquireScript key liveKey maxConcurrency ttl requestID r =
     (let now = redis_TIME r;
          r1 = redis_ZREMRANGEBYSCORE key (now - ttl) r;
          r2 = redis_ZREMRANGEBYSCORE liveKey (now - 60) r1;
          granted = redis_EXPIRE key ttl (redis_ZADD key now requestID r2)
      in if redis_ZSCORE key requestID r2 \<noteq> None then (granted, 1, now)
         else if redis_ZCARD key r2 + redis_ZCARD liveKey r2 < maxConcurrency then (granted, 1, now)
         else (r2, 0, now))"

definition getCountScript ::
  "string \<Rightarrow> string \<Rightarrow> int \<Rightarrow> 'z redis_scheme \<Rightarrow> 'z redis_scheme \<times> int" where
  "getCountScript key liveKey ttl r =
     (let now = redis_TIME r;
          r1 = redis_ZREMRANGEBYSCORE key (now - ttl) r;
          r2 = redis_ZREMRANGEBYSCORE liveKey (now - 60) r1
      in (r2, redis_ZCARD key r2 + redis_ZCARD liveKey r2))"

definition acquireLiveLeaseScript ::
  "string \<Rightarrow> string \<Rightarrow> string \<Rightarrow> string \<Rightarrow> string \<Rightarrow> int \<Rightarrow> int \<Rightarrow> int \<Rightarrow> string \<Rightarrow> int \<Rightarrow>
   'z redis_scheme \<Rightarrow> 'z redis_scheme \<times> int" where
  "acquireLiveLeaseScript accountRegular accountLive userRegular userLive apiLive
       accountMax userMax ttl leaseID replacing r =
     (let now = redis_TIME r;
          r1 = redis_ZREMRANGEBYSCORE accountLive (now - ttl) r;
          r2 = redis_ZREMRANGEBYSCORE userLive (now - ttl) r1;
          r3 = redis_ZREMRANGEBYSCORE apiLive (now - ttl) r2
      in if redis_ZSCORE accountLive leaseID r3 \<noteq> None then (r3, 1)
         else
           let accountCount = redis_ZCARD accountRegular r3 + redis_ZCARD accountLive r3;
               userCount = redis_ZCARD userRegular r3 + redis_ZCARD userLive r3;
               allowance = (if replacing = 1 then 1 else 0)
           in if accountMax > 0 \<and> accountCount \<ge> accountMax + allowance then (r3, 0)
              else if userMax > 0 \<and> userCount \<ge> userMax + allowance then (r3, 0)
              else
                let r4 = redis_ZADD accountLive now leaseID r3;
                    r5 = redis_ZADD userLive now leaseID r4;
                    r6 = redis_ZADD apiLive now leaseID r5
                in (redis_EXPIRE apiLive ttl (redis_EXPIRE userLive ttl
                      (redis_EXPIRE accountLive ttl r6)), 1))"

fun lease_in_all :: "string list \<Rightarrow> int \<Rightarrow> string \<Rightarrow> 'z redis_scheme \<Rightarrow> 'z redis_scheme \<times> bool" where
  "lease_in_all [] expireBefore leaseID r = (r, True)"
| "lease_in_all (key # keys) expireBefore leaseID r =
     (let r1 = redis_ZREMRANGEBYSCORE key expireBefore r
      in if redis_ZSCORE key leaseID r1 = None then (r1, False)
         else lease_in_all keys expireBefore leaseID r1)"

definition refreshLiveLeaseScript ::
  "string list \<Rightarrow> int \<Rightarrow> string \<Rightarrow> 'z redis_scheme \<Rightarrow> 'z redis_scheme \<times> int" where
  "refreshLiveLeaseScript keys ttl leaseID r =
     (let now = redis_TIME r
      in case lease_in_all keys (now - ttl) leaseID r of
           (r1, False) \<Rightarrow> (r1, 0)
         | (r1, True) \<Rightarrow>
             (fold (\<lambda>key r. redis_EXPIRE key ttl (redis_ZADD key now leaseID r)) keys r1, 1))"

definition trackSlotScript ::
  "string \<Rightarrow> int \<Rightarrow> string \<Rightarrow> 'z redis_scheme \<Rightarrow> 'z redis_scheme \<times> int" where
  "trackSlotScript key ttl requestID r =
     (let now = redis_TIME r
      in (redis_EXPIRE key ttl (redis_ZADD key now requestID
            (redis_ZREMRANGEBYSCORE key (now - ttl) r)), 1))"

definition acquireOpenAIWSIngressLeaseScript ::
  "string \<Rightarrow> int \<Rightarrow> int \<Rightarrow> string \<Rightarrow> 'z redis_scheme \<Rightarrow> 'z redis_scheme \<times> int" where
  "acquireOpenAIWSIngressLeaseScript key maxConnections ttl leaseID r =
     (let now = redis_TIME r;
          r1 = redis_ZREMRANGEBYSCORE key (now - ttl) r;
          granted = redis_EXPIRE key ttl (redis_ZADD key now leaseID r1)
      in if redis_ZSCORE key leaseID r1 \<noteq> None then (granted, 1)
         else if redis_ZCARD key r1 < maxConnections then (granted, 1)
         else (r1, 0))"

definition refreshOpenAIWSIngressLeaseScript ::
  "string \<Rightarrow> int \<Rightarrow> string \<Rightarrow> 'z redis_scheme \<Rightarrow> 'z redis_scheme \<times> int" where
  "refreshOpenAIWSIngressLeaseScript key ttl leaseID r =
     (let now = redis_TIME r;
          r1 = redis_ZREMRANGEBYSCORE key (now - ttl) r
      in if redis_ZSCORE key leaseID r1 = None then (r1, 0)
         else (redis_EXPIRE key ttl (redis_ZADD key now leaseID r1), 1))"

definition incrementWaitScript ::
  "string \<Rightarrow> int \<Rightarrow> int \<Rightarrow> 'z redis_scheme \<Rightarrow> 'z redis_scheme \<times> int \<times> int" where
  "incrementWaitScript key maxWait ttl r =
     (let current = (case redis_GET key r of None \<Rightarrow> 0 | Some v \<Rightarrow> v);
          now = redis_TIME r
      in if current \<ge> maxWait then (r, 0, now)
         else (redis_EXPIRE key ttl (redis_INCRBY key 1 r), 1, now))"

definition incrementAccountWaitScript ::
  "string \<Rightarrow> int \<Rightarrow> int \<Rightarrow> 'z redis_scheme \<Rightarrow> 'z redis_scheme \<times> int \<times> int" where
  "incrementAccountWaitScript key maxWait ttl r =
     (let current = (case redis_GET key r of None \<Rightarrow> 0 | Some v \<Rightarrow> v);
          now = redis_TIME r
      in if current \<ge> maxWait then (r, 0, now)
         else (redis_EXPIRE key ttl (redis_INCRBY key 1 r), 1, now))"

definition decrementWaitScript :: "string \<Rightarrow> 'z redis_scheme \<Rightarrow> 'z redis_scheme \<times> int" where
  "decrementWaitScript key r =
     (case redis_GET key r of
        Some v \<Rightarrow> (if v > 0 then (redis_INCRBY key (-1) r, 1) else (r, 1))
      | None \<Rightarrow> (r, 1))"

definition cleanupExpiredSlotsScript :: "string \<Rightarrow> int \<Rightarrow> 'z redis_scheme \<Rightarrow> 'z redis_scheme \<times> int" where
  "cleanupExpiredSlotsScript key ttl r =
     (let now = redis_TIME r;
          r1 = redis_ZREMRANGEBYSCORE key (now - ttl) r
      in (if redis_ZCARD key r1 = 0 then redis_DEL key r1 else redis_EXPIRE key ttl r1, 1))"

definition startupCleanupSlotScript ::
  "string \<Rightarrow> string \<Rightarrow> int \<Rightarrow> 'z redis_scheme \<Rightarrow> 'z redis_scheme \<times> int \<times> int" where
  "startupCleanupSlotScript key activePrefix slotTTL r =
     (let foreign = filter (\<lambda>m. take (length activePrefix) m \<noteq> activePrefix) (redis_ZRANGE key r);
          r1 = fold (redis_ZREM key) foreign r;
          remaining = redis_ZCARD key r1
      in (if remaining = 0 then redis_DEL key r1 else redis_EXPIRE key slotTTL r1,
          int (length foreign), remaining))"

section \<open>The cache and its indices\<close>

record concurrencyCache =
  cc_slotTTLSeconds :: int
  cc_waitQueueTTLSeconds :: int
  cc_Retries :: nat

definition NewConcurrencyCache :: "nat \<Rightarrow> int \<Rightarrow> int \<Rightarrow> concurrencyCache" where
  "NewConcurrencyCache retries slotTTLMinutes0 waitQueueTTLSeconds0 =
     (let slotTTLMinutes = (if slotTTLMinutes0 \<le> 0 then defaultSlotTTLMinutes else slotTTLMinutes0);
          waitQueueTTLSeconds =
            (if waitQueueTTLSeconds0 \<le> 0 then slotTTLMinutes * 60 else waitQueueTTLSeconds0)
      in \<lparr>cc_slotTTLSeconds = slotTTLMinutes * 60, cc_waitQueueTTLSeconds = waitQueueTTLSeconds,
          cc_Retries = retries\<rparr>)"

abbreviation redis_call ::
  "concurrencyCache \<Rightarrow> ('s \<Rightarrow> 's \<times> 'r) \<Rightarrow> ('r option \<Rightarrow> ('s, 'a) prog) \<Rightarrow> ('s, 'a) prog" where
  "redis_call c \<equiv> sent (cc_Retries c)"

text \<open>The commands of a pipeline; one that fails fails the pipeline, the others may have run.\<close>

fun pipeline ::
  "concurrencyCache \<Rightarrow> ('s \<Rightarrow> 's \<times> 'r) list \<Rightarrow> ('r list option \<Rightarrow> ('s, 'a) prog) \<Rightarrow> ('s, 'a) prog" where
  "pipeline c [] k = k (Some [])"
| "pipeline c (f # fs) k =
     redis_call c f (\<lambda>x. pipeline c fs (\<lambda>xs.
       k (case x of None \<Rightarrow> None | Some v \<Rightarrow> map_option ((#) v) xs)))"

definition cmd_ZRemRangeByScore :: "string \<Rightarrow> int \<Rightarrow> 'z redis_scheme \<Rightarrow> 'z redis_scheme \<times> int option" where
  "cmd_ZRemRangeByScore key hi r = (redis_ZREMRANGEBYSCORE key hi r, None)"
definition cmd_ZCard :: "string \<Rightarrow> 'z redis_scheme \<Rightarrow> 'z redis_scheme \<times> int option" where
  "cmd_ZCard key r = (r, Some (redis_ZCARD key r))"
definition cmd_Get :: "string \<Rightarrow> 'z redis_scheme \<Rightarrow> 'z redis_scheme \<times> int option" where
  "cmd_Get key r = (r, redis_GET key r)"

definition redisUnixSeconds ::
  "concurrencyCache \<Rightarrow> (int option \<Rightarrow> ('z redis_scheme, 'a) prog) \<Rightarrow> ('z redis_scheme, 'a) prog" where
  "redisUnixSeconds c k = redis_call c (\<lambda>r. (r, redis_TIME r)) k"

definition touchActiveIndexAt ::
  "concurrencyCache \<Rightarrow> string \<Rightarrow> int \<Rightarrow> int \<Rightarrow> ('z redis_scheme, unit) prog" where
  "touchActiveIndexAt c indexKey i expireAt =
     (if i \<le> 0 \<or> expireAt \<le> 0 then Return ()
      else redis_call c (\<lambda>r. (redis_ZADD indexKey expireAt (FormatInt10 i) r, ())) (\<lambda>_. Return ()))"

record activeIndexLoad =
  al_id :: int
  al_member :: string
  al_slotCount :: int
  al_waitCount :: int

definition activeIndexTTL :: "concurrencyCache \<Rightarrow> int \<Rightarrow> int \<Rightarrow> int" where
  "activeIndexTTL c slotCount waitCount =
     (let ttl = (if slotCount > 0 then cc_slotTTLSeconds c else 0)
      in if waitCount > 0 \<and> cc_waitQueueTTLSeconds c > ttl then cc_waitQueueTTLSeconds c else ttl)"

definition positive_count :: "int option \<Rightarrow> int" where
  "positive_count g = (case g of None \<Rightarrow> 0 | Some v \<Rightarrow> if v > 0 then v else 0)"

definition count_of :: "int option \<Rightarrow> int" where
  "count_of g = (case g of None \<Rightarrow> 0 | Some v \<Rightarrow> v)"

definition readActiveLoadForKey ::
  "concurrencyCache \<Rightarrow> int \<Rightarrow> string \<Rightarrow> string \<Rightarrow> int \<Rightarrow> ('z redis_scheme, activeIndexLoad option) prog" where
  "readActiveLoadForKey c i slotKey waitKey now =
     pipeline c [cmd_ZRemRangeByScore slotKey (now - cc_slotTTLSeconds c), cmd_ZCard slotKey, cmd_Get waitKey]
       (\<lambda>res. case res of
          Some [_, zcard, get] \<Rightarrow>
            Return (Some \<lparr>al_id = i, al_member = FormatInt10 i, al_slotCount = count_of zcard,
              al_waitCount = positive_count get\<rparr>)
        | _ \<Rightarrow> Return None)"

definition refreshActiveIndex ::
  "concurrencyCache \<Rightarrow> string \<Rightarrow> int \<Rightarrow> string \<Rightarrow> string \<Rightarrow> ('z redis_scheme, unit) prog" where
  "refreshActiveIndex c indexKey i slotKey waitKey =
     (if i \<le> 0 then Return ()
      else redisUnixSeconds c (\<lambda>t. case t of
        None \<Rightarrow> Return ()
      | Some now \<Rightarrow>
          bindP (readActiveLoadForKey c i slotKey waitKey now) (\<lambda>l. case l of
            None \<Rightarrow> Return ()
          | Some load \<Rightarrow>
              (if al_slotCount load = 0 \<and> al_waitCount load \<le> 0 then
                 redis_call c (\<lambda>r. (redis_ZREM indexKey (FormatInt10 i) r, ())) (\<lambda>_. Return ())
               else
                 let ttl = activeIndexTTL c (al_slotCount load) (al_waitCount load)
                 in if ttl \<le> 0 then Return ()
                    else touchActiveIndexAt c indexKey i (now + ttl)))))"

definition refreshAccountActiveIndex :: "concurrencyCache \<Rightarrow> int \<Rightarrow> ('z redis_scheme, unit) prog" where
  "refreshAccountActiveIndex c i =
     refreshActiveIndex c accountActiveIndexKey i (accountSlotKey i) (accountWaitKey i)"
definition refreshUserActiveIndex :: "concurrencyCache \<Rightarrow> int \<Rightarrow> ('z redis_scheme, unit) prog" where
  "refreshUserActiveIndex c i =
     refreshActiveIndex c userActiveIndexKey i (userSlotKey i) (waitQueueKey i)"

section \<open>Account and user slots\<close>

definition AcquireAccountSlot ::
  "concurrencyCache \<Rightarrow> int \<Rightarrow> int \<Rightarrow> string \<Rightarrow> ('z redis_scheme, bool option) prog" where
  "AcquireAccountSlot c accountID maxConcurrency requestID =
     redis_call c (acquireScript (accountSlotKey accountID) (liveAccountSlotKey accountID)
         maxConcurrency (cc_slotTTLSeconds c) requestID)
       (\<lambda>x. case x of
          None \<Rightarrow> Return None
        | Some (result, now) \<Rightarrow>
            (if result = 1 then
               bindP (touchActiveIndexAt c accountActiveIndexKey accountID (now + cc_slotTTLSeconds c))
                 (\<lambda>_. Return (Some True))
             else Return (Some False)))"

definition ReleaseAccountSlot ::
  "concurrencyCache \<Rightarrow> int \<Rightarrow> string \<Rightarrow> ('z redis_scheme, unit option) prog" where
  "ReleaseAccountSlot c accountID requestID =
     redis_call c (\<lambda>r. (redis_ZREM (accountSlotKey accountID) requestID r, ()))
       (\<lambda>x. case x of
          None \<Rightarrow> Return None
        | Some _ \<Rightarrow> bindP (refreshAccountActiveIndex c accountID) (\<lambda>_. Return (Some ())))"

definition GetAccountConcurrency :: "concurrencyCache \<Rightarrow> int \<Rightarrow> ('z redis_scheme, int option) prog" where
  "GetAccountConcurrency c accountID =
     redis_call c (getCountScript (accountSlotKey accountID) (liveAccountSlotKey accountID)
         (cc_slotTTLSeconds c)) Return"

definition AcquireUserSlot ::
  "concurrencyCache \<Rightarrow> int \<Rightarrow> int \<Rightarrow> string \<Rightarrow> ('z redis_scheme, bool option) prog" where
  "AcquireUserSlot c userID maxConcurrency requestID =
     redis_call c (acquireScript (userSlotKey userID) (liveUserSlotKey userID)
         maxConcurrency (cc_slotTTLSeconds c) requestID)
       (\<lambda>x. case x of
          None \<Rightarrow> Return None
        | Some (result, now) \<Rightarrow>
            (if result = 1 then
               bindP (touchActiveIndexAt c userActiveIndexKey userID (now + cc_slotTTLSeconds c))
                 (\<lambda>_. Return (Some True))
             else Return (Some False)))"

definition ReleaseUserSlot ::
  "concurrencyCache \<Rightarrow> int \<Rightarrow> string \<Rightarrow> ('z redis_scheme, unit option) prog" where
  "ReleaseUserSlot c userID requestID =
     redis_call c (\<lambda>r. (redis_ZREM (userSlotKey userID) requestID r, ()))
       (\<lambda>x. case x of
          None \<Rightarrow> Return None
        | Some _ \<Rightarrow> bindP (refreshUserActiveIndex c userID) (\<lambda>_. Return (Some ())))"

definition GetUserConcurrency :: "concurrencyCache \<Rightarrow> int \<Rightarrow> ('z redis_scheme, int option) prog" where
  "GetUserConcurrency c userID =
     redis_call c (getCountScript (userSlotKey userID) (liveUserSlotKey userID)
         (cc_slotTTLSeconds c)) Return"

definition TrackAPIKeySlot ::
  "concurrencyCache \<Rightarrow> int \<Rightarrow> string \<Rightarrow> ('z redis_scheme, unit option) prog" where
  "TrackAPIKeySlot c apiKeyID requestID =
     redis_call c (trackSlotScript (apiKeySlotKey apiKeyID) (cc_slotTTLSeconds c) requestID)
       (\<lambda>x. Return (map_option (\<lambda>_. ()) x))"

definition ReleaseAPIKeySlot ::
  "concurrencyCache \<Rightarrow> int \<Rightarrow> string \<Rightarrow> ('z redis_scheme, unit option) prog" where
  "ReleaseAPIKeySlot c apiKeyID requestID =
     redis_call c (\<lambda>r. (redis_ZREM (apiKeySlotKey apiKeyID) requestID r, ())) Return"

section \<open>Leases of connections and live sessions\<close>

definition AcquireOpenAIWSIngressLease ::
  "concurrencyCache \<Rightarrow> int \<Rightarrow> int \<Rightarrow> string \<Rightarrow> ('z redis_scheme, bool option) prog" where
  "AcquireOpenAIWSIngressLease c apiKeyID maxConnections leaseID =
     (if apiKeyID \<le> 0 \<or> maxConnections \<le> 0 \<or> leaseID = [] then Return (Some False)
      else redis_call c (acquireOpenAIWSIngressLeaseScript (openAIWSIngressLeaseKey apiKeyID)
             maxConnections openAIWSIngressLeaseTTLSeconds leaseID)
           (\<lambda>x. Return (map_option (\<lambda>v. v = 1) x)))"

definition RefreshOpenAIWSIngressLease ::
  "concurrencyCache \<Rightarrow> int \<Rightarrow> string \<Rightarrow> ('z redis_scheme, bool option) prog" where
  "RefreshOpenAIWSIngressLease c apiKeyID leaseID =
     (if apiKeyID \<le> 0 \<or> leaseID = [] then Return (Some False)
      else redis_call c (refreshOpenAIWSIngressLeaseScript (openAIWSIngressLeaseKey apiKeyID)
             openAIWSIngressLeaseTTLSeconds leaseID)
           (\<lambda>x. Return (map_option (\<lambda>v. v = 1) x)))"

definition ReleaseOpenAIWSIngressLease ::
  "concurrencyCache \<Rightarrow> int \<Rightarrow> string \<Rightarrow> ('z redis_scheme, unit option) prog" where
  "ReleaseOpenAIWSIngressLease c apiKeyID leaseID =
     (if apiKeyID \<le> 0 \<or> leaseID = [] then Return (Some ())
      else redis_call c (\<lambda>r. (redis_ZREM (openAIWSIngressLeaseKey apiKeyID) leaseID r, ())) Return)"

definition AcquireLiveLease ::
  "concurrencyCache \<Rightarrow> int \<Rightarrow> int \<Rightarrow> int \<Rightarrow> int \<Rightarrow> int \<Rightarrow> string \<Rightarrow> bool \<Rightarrow>
   ('z redis_scheme, bool option) prog" where
  "AcquireLiveLease c accountID accountMax userID userMax apiKeyID leaseID replacingRegularSlots =
     (if accountID \<le> 0 \<or> userID \<le> 0 \<or> apiKeyID \<le> 0 \<or> leaseID = [] then Return (Some False)
      else redis_call c (acquireLiveLeaseScript (accountSlotKey accountID)
             (liveAccountSlotKey accountID) (userSlotKey userID) (liveUserSlotKey userID)
             (liveAPIKeySlotKey apiKeyID) accountMax userMax liveLeaseTTLSeconds leaseID
             (if replacingRegularSlots then 1 else 0))
           (\<lambda>x. Return (map_option (\<lambda>v. v = 1) x)))"

definition RefreshLiveLease ::
  "concurrencyCache \<Rightarrow> int \<Rightarrow> int \<Rightarrow> int \<Rightarrow> string \<Rightarrow> ('z redis_scheme, bool option) prog" where
  "RefreshLiveLease c accountID userID apiKeyID leaseID =
     (if leaseID = [] then Return (Some False)
      else redis_call c (refreshLiveLeaseScript
             [liveAccountSlotKey accountID, liveUserSlotKey userID, liveAPIKeySlotKey apiKeyID]
             liveLeaseTTLSeconds leaseID)
           (\<lambda>x. Return (map_option (\<lambda>v. v = 1) x)))"

definition ReleaseLiveLease ::
  "concurrencyCache \<Rightarrow> int \<Rightarrow> int \<Rightarrow> int \<Rightarrow> string \<Rightarrow> ('z redis_scheme, unit option) prog" where
  "ReleaseLiveLease c accountID userID apiKeyID leaseID =
     (if leaseID = [] then Return (Some ())
      else redis_call c (\<lambda>r. (redis_ZREM (liveAPIKeySlotKey apiKeyID) leaseID
             (redis_ZREM (liveUserSlotKey userID) leaseID
               (redis_ZREM (liveAccountSlotKey accountID) leaseID r)), ())) Return)"

section \<open>Waiting requests\<close>

definition IncrementWaitCount ::
  "concurrencyCache \<Rightarrow> int \<Rightarrow> int \<Rightarrow> ('z redis_scheme, bool option) prog" where
  "IncrementWaitCount c userID maxWait =
     redis_call c (incrementWaitScript (waitQueueKey userID) maxWait (cc_waitQueueTTLSeconds c))
       (\<lambda>x. case x of
          None \<Rightarrow> Return None
        | Some (result, now) \<Rightarrow>
            (if result = 1 then
               bindP (touchActiveIndexAt c userActiveIndexKey userID (now + cc_waitQueueTTLSeconds c))
                 (\<lambda>_. Return (Some True))
             else Return (Some False)))"

definition DecrementWaitCount :: "concurrencyCache \<Rightarrow> int \<Rightarrow> ('z redis_scheme, unit option) prog" where
  "DecrementWaitCount c userID =
     redis_call c (decrementWaitScript (waitQueueKey userID))
       (\<lambda>x. case x of
          None \<Rightarrow> Return None
        | Some _ \<Rightarrow> bindP (refreshUserActiveIndex c userID) (\<lambda>_. Return (Some ())))"

definition IncrementAccountWaitCount ::
  "concurrencyCache \<Rightarrow> int \<Rightarrow> int \<Rightarrow> ('z redis_scheme, bool option) prog" where
  "IncrementAccountWaitCount c accountID maxWait =
     redis_call c (incrementAccountWaitScript (accountWaitKey accountID) maxWait (cc_waitQueueTTLSeconds c))
       (\<lambda>x. case x of
          None \<Rightarrow> Return None
        | Some (result, now) \<Rightarrow>
            (if result = 1 then
               bindP (touchActiveIndexAt c accountActiveIndexKey accountID (now + cc_waitQueueTTLSeconds c))
                 (\<lambda>_. Return (Some True))
             else Return (Some False)))"

definition DecrementAccountWaitCount ::
  "concurrencyCache \<Rightarrow> int \<Rightarrow> ('z redis_scheme, unit option) prog" where
  "DecrementAccountWaitCount c accountID =
     redis_call c (decrementWaitScript (accountWaitKey accountID))
       (\<lambda>x. case x of
          None \<Rightarrow> Return None
        | Some _ \<Rightarrow> bindP (refreshAccountActiveIndex c accountID) (\<lambda>_. Return (Some ())))"

definition GetAccountWaitingCount :: "concurrencyCache \<Rightarrow> int \<Rightarrow> ('z redis_scheme, int option) prog" where
  "GetAccountWaitingCount c accountID =
     redis_call c (cmd_Get (accountWaitKey accountID)) (\<lambda>x. Return (map_option count_of x))"

section \<open>Load\<close>

record WithConcurrency =
  wc_ID :: int
  wc_MaxConcurrency :: int

record LoadInfo =
  li_ID :: int
  li_CurrentConcurrency :: int
  li_WaitingCount :: int
  li_LoadRate :: int

text \<open>Go's division truncates towards zero.\<close>

definition go_div :: "int \<Rightarrow> int \<Rightarrow> int" where
  "go_div a b = (if a < 0 then - (- a div b) else a div b)"

definition count_commands ::
  "string \<Rightarrow> string \<Rightarrow> int \<Rightarrow> int \<Rightarrow> ('z redis_scheme \<Rightarrow> 'z redis_scheme \<times> int option) list" where
  "count_commands slotKey liveKey ttl now =
     [cmd_ZRemRangeByScore slotKey (now - ttl), cmd_ZRemRangeByScore liveKey (now - liveLeaseTTLSeconds),
      cmd_ZCard slotKey, cmd_ZCard liveKey]"

text \<open>The answers of a pipeline are read in groups, one per id; the result is the map by id.\<close>

fun counts_from :: "int list \<Rightarrow> int option list \<Rightarrow> (int \<times> int) list \<Rightarrow> (int \<times> int) list" where
  "counts_from (i # ids) (_ # _ # n # l # vs) result =
     counts_from ids vs (AList.update i (count_of n + count_of l) result)"
| "counts_from _ _ result = result"

definition ConcurrencyBatch ::
  "(int \<Rightarrow> string) \<Rightarrow> (int \<Rightarrow> string) \<Rightarrow> concurrencyCache \<Rightarrow> int list \<Rightarrow>
   ('z redis_scheme, (int \<times> int) list option) prog" where
  "ConcurrencyBatch slotKey liveKey c ids =
     (if ids = [] then Return (Some [])
      else redisUnixSeconds c (\<lambda>t. case t of
        None \<Rightarrow> Return None
      | Some now \<Rightarrow>
          pipeline c (concat (map (\<lambda>i. count_commands (slotKey i) (liveKey i) (cc_slotTTLSeconds c) now) ids))
            (\<lambda>res. Return (map_option (\<lambda>vs. counts_from ids vs []) res))))"

definition GetAccountConcurrencyBatch ::
  "concurrencyCache \<Rightarrow> int list \<Rightarrow> ('z redis_scheme, (int \<times> int) list option) prog" where
  "GetAccountConcurrencyBatch = ConcurrencyBatch accountSlotKey liveAccountSlotKey"
definition GetAPIKeyConcurrencyBatch ::
  "concurrencyCache \<Rightarrow> int list \<Rightarrow> ('z redis_scheme, (int \<times> int) list option) prog" where
  "GetAPIKeyConcurrencyBatch = ConcurrencyBatch apiKeySlotKey liveAPIKeySlotKey"

definition load_info :: "WithConcurrency \<Rightarrow> int \<Rightarrow> int \<Rightarrow> LoadInfo" where
  "load_info a current waiting =
     \<lparr>li_ID = wc_ID a, li_CurrentConcurrency = current, li_WaitingCount = waiting,
      li_LoadRate = (if wc_MaxConcurrency a > 0 then go_div ((current + waiting) * 100) (wc_MaxConcurrency a)
                     else 0)\<rparr>"

fun loads_from ::
  "WithConcurrency list \<Rightarrow> int option list \<Rightarrow> (int \<times> LoadInfo) list \<Rightarrow> (int \<times> LoadInfo) list" where
  "loads_from (a # as) (_ # _ # n # l # w # vs) loadMap =
     loads_from as vs
       (AList.update (wc_ID a) (load_info a (count_of n + count_of l) (count_of w)) loadMap)"
| "loads_from _ _ loadMap = loadMap"

definition LoadBatch ::
  "(int \<Rightarrow> string) \<Rightarrow> (int \<Rightarrow> string) \<Rightarrow> (int \<Rightarrow> string) \<Rightarrow> concurrencyCache \<Rightarrow> WithConcurrency list \<Rightarrow>
   ('z redis_scheme, (int \<times> LoadInfo) list option) prog" where
  "LoadBatch slotKey liveKey waitKey c as =
     (if as = [] then Return (Some [])
      else redisUnixSeconds c (\<lambda>t. case t of
        None \<Rightarrow> Return None
      | Some now \<Rightarrow>
          pipeline c (concat (map (\<lambda>a. count_commands (slotKey (wc_ID a)) (liveKey (wc_ID a))
                         (cc_slotTTLSeconds c) now @ [cmd_Get (waitKey (wc_ID a))]) as))
            (\<lambda>res. Return (map_option (\<lambda>vs. loads_from as vs []) res))))"

definition GetAccountsLoadBatch ::
  "concurrencyCache \<Rightarrow> WithConcurrency list \<Rightarrow> ('z redis_scheme, (int \<times> LoadInfo) list option) prog" where
  "GetAccountsLoadBatch = LoadBatch accountSlotKey liveAccountSlotKey accountWaitKey"
definition GetUsersLoadBatch ::
  "concurrencyCache \<Rightarrow> WithConcurrency list \<Rightarrow> ('z redis_scheme, (int \<times> LoadInfo) list option) prog" where
  "GetUsersLoadBatch = LoadBatch userSlotKey liveUserSlotKey waitQueueKey"

section \<open>Cleaning up\<close>

fun chunks_of :: "nat \<Rightarrow> 'a list \<Rightarrow> 'a list list" where
  "chunks_of n xs = (if xs = [] \<or> n = 0 then [] else take n xs # chunks_of n (drop n xs))"

declare chunks_of.simps [simp del]

text \<open>The ids the members of an index stand for, and the members that are none.\<close>

definition index_id :: "string \<Rightarrow> int option" where
  "index_id m = (case ParseInt10 m of Some i \<Rightarrow> if i \<le> 0 then None else Some i | None \<Rightarrow> None)"

fun active_loads :: "(int \<times> string) list \<Rightarrow> int option list \<Rightarrow> activeIndexLoad list" where
  "active_loads ((i, m) # cs) (_ # n # w # vs) =
     \<lparr>al_id = i, al_member = m, al_slotCount = count_of n, al_waitCount = positive_count w\<rparr>
       # active_loads cs vs"
| "active_loads _ _ = []"

fun read_chunks ::
  "concurrencyCache \<Rightarrow> slotIndexSpec \<Rightarrow> int \<Rightarrow> (int \<times> string) list list \<Rightarrow> activeIndexLoad list \<Rightarrow>
   ('z redis_scheme, activeIndexLoad list option) prog" where
  "read_chunks c spec cutoff [] loads = Return (Some loads)"
| "read_chunks c spec cutoff (chunk # chunks) loads =
     pipeline c (concat (map (\<lambda>(i, _). [cmd_ZRemRangeByScore (si_slotKey spec i) cutoff,
         cmd_ZCard (si_slotKey spec i), cmd_Get (si_waitKey spec i)]) chunk))
       (\<lambda>res. case res of
          None \<Rightarrow> Return None
        | Some vs \<Rightarrow> read_chunks c spec cutoff chunks (loads @ active_loads chunk vs))"

definition readIndexLoads ::
  "concurrencyCache \<Rightarrow> slotIndexSpec \<Rightarrow> string list \<Rightarrow> int \<Rightarrow>
   ('z redis_scheme, (activeIndexLoad list \<times> string list) option) prog" where
  "readIndexLoads c spec ms now =
     (let staleMembers = filter (\<lambda>m. index_id m = None) ms;
          candidates = map (\<lambda>m. (the (index_id m), m)) (filter (\<lambda>m. index_id m \<noteq> None) ms)
      in bindP (read_chunks c spec (now - cc_slotTTLSeconds c)
                  (chunks_of activeIndexPipelineChunkSize candidates) [])
           (\<lambda>l. Return (map_option (\<lambda>loads. (loads, staleMembers)) l)))"

definition removeActiveIndexMembers ::
  "concurrencyCache \<Rightarrow> string \<Rightarrow> string list \<Rightarrow> ('z redis_scheme, unit) prog" where
  "removeActiveIndexMembers c indexKey ms =
     (if ms = [] then Return ()
      else redis_call c (\<lambda>r. (fold (redis_ZREM indexKey) ms r, ())) (\<lambda>_. Return ()))"

text \<open>\<^verbatim>\<open>ZADD\<close> of several members, when there are any.\<close>

definition addActiveIndexMembers ::
  "concurrencyCache \<Rightarrow> string \<Rightarrow> (int \<times> string) list \<Rightarrow> ('z redis_scheme, unit) prog" where
  "addActiveIndexMembers c indexKey zs =
     (if zs = [] then Return ()
      else redis_call c (\<lambda>r. (fold (\<lambda>(score, m). redis_ZADD indexKey score m) zs r, ())) (\<lambda>_. Return ()))"

definition reconcileExpiredIndexCandidates ::
  "concurrencyCache \<Rightarrow> slotIndexSpec \<Rightarrow> ('z redis_scheme, unit option) prog" where
  "reconcileExpiredIndexCandidates c spec =
     redisUnixSeconds c (\<lambda>t. case t of
       None \<Rightarrow> Return None
     | Some now \<Rightarrow>
         redis_call c (\<lambda>r. (r, redis_ZRANGEBYSCORE (si_indexKey spec) now activeIndexCleanupBatchSize r))
           (\<lambda>ms. case ms of
              None \<Rightarrow> Return None
            | Some ms \<Rightarrow>
                bindP (readIndexLoads c spec ms now) (\<lambda>l. case l of
                  None \<Rightarrow> Return None
                | Some (loads, staleMembers) \<Rightarrow>
                    let idle = (\<lambda>load. al_slotCount load = 0 \<and> al_waitCount load \<le> 0);
                        stale = staleMembers @ map al_member (filter idle loads);
                        refreshed = map (\<lambda>load. (now + activeIndexTTL c (al_slotCount load) (al_waitCount load),
                                       al_member load)) (filter (\<lambda>load. \<not> idle load) loads)
                    in bindP (addActiveIndexMembers c (si_indexKey spec) refreshed) (\<lambda>_.
                         bindP (removeActiveIndexMembers c (si_indexKey spec) stale) (\<lambda>_.
                           Return (Some ()))))))"

definition CleanupExpiredAccountSlots ::
  "concurrencyCache \<Rightarrow> int \<Rightarrow> ('z redis_scheme, unit option) prog" where
  "CleanupExpiredAccountSlots c accountID =
     redis_call c (cleanupExpiredSlotsScript (accountSlotKey accountID) (cc_slotTTLSeconds c))
       (\<lambda>x. case x of
          None \<Rightarrow> Return None
        | Some _ \<Rightarrow> bindP (refreshAccountActiveIndex c accountID) (\<lambda>_. Return (Some ())))"

definition CleanupExpiredAccountSlotKeys ::
  "concurrencyCache \<Rightarrow> ('z redis_scheme, unit option) prog" where
  "CleanupExpiredAccountSlotKeys c =
     bindP (reconcileExpiredIndexCandidates c accountSlotIndex) (\<lambda>x. case x of
       None \<Rightarrow> Return None
     | Some _ \<Rightarrow> reconcileExpiredIndexCandidates c userSlotIndex)"

text \<open>
  The sweep of counters left by versions without indices. \<open>batches\<close> are the keys each call of
  \<^verbatim>\<open>SCAN\<close> returns, until the cursor is back at its start.
\<close>

fun scan_and_delete ::
  "concurrencyCache \<Rightarrow> string list list \<Rightarrow> ('z redis_scheme, unit option) prog" where
  "scan_and_delete c [] = Return (Some ())"
| "scan_and_delete c (keys # batches) =
     redis_call c (\<lambda>r. (r, ())) (\<lambda>x. case x of
       None \<Rightarrow> Return None
     | Some _ \<Rightarrow>
         (if keys = [] then scan_and_delete c batches
          else redis_call c (\<lambda>r. (fold redis_DEL keys r, ())) (\<lambda>y. case y of
                 None \<Rightarrow> Return None
               | Some _ \<Rightarrow> scan_and_delete c batches)))"

definition sweepLegacyWaitKeysOnce ::
  "concurrencyCache \<Rightarrow> string list list \<Rightarrow> string list list \<Rightarrow> ('z redis_scheme, unit option) prog" where
  "sweepLegacyWaitKeysOnce c accountBatches userBatches =
     redis_call c (\<lambda>r. (r, counter_at r legacyWaitSweepMarkerKey \<noteq> None)) (\<lambda>x. case x of
       None \<Rightarrow> Return None
     | Some True \<Rightarrow> Return (Some ())
     | Some False \<Rightarrow>
         bindP (scan_and_delete c accountBatches) (\<lambda>a. case a of
           None \<Rightarrow> Return None
         | Some _ \<Rightarrow> bindP (scan_and_delete c userBatches) (\<lambda>b. case b of
             None \<Rightarrow> Return None
           | Some _ \<Rightarrow> redis_call c (\<lambda>r. (redis_SET legacyWaitSweepMarkerKey 1 r, ())) Return)))"

definition allIndexMembers ::
  "concurrencyCache \<Rightarrow> string \<Rightarrow> (string list option \<Rightarrow> ('z redis_scheme, 'a) prog) \<Rightarrow> ('z redis_scheme, 'a) prog"
where
  "allIndexMembers c indexKey k = redis_call c (\<lambda>r. (r, redis_ZRANGE indexKey r)) k"

fun cleanup_members ::
  "concurrencyCache \<Rightarrow> slotIndexSpec \<Rightarrow> string \<Rightarrow> int \<Rightarrow> string list \<Rightarrow> string list \<Rightarrow> (int \<times> string) list \<Rightarrow>
   ('z redis_scheme, (string list \<times> (int \<times> string) list) option) prog" where
  "cleanup_members c spec activePrefix now [] stale refreshed = Return (Some (stale, refreshed))"
| "cleanup_members c spec activePrefix now (m # ms) stale refreshed =
     (case index_id m of
        None \<Rightarrow> cleanup_members c spec activePrefix now ms (stale @ [m]) refreshed
      | Some i \<Rightarrow>
          redis_call c (startupCleanupSlotScript (si_slotKey spec i) activePrefix (cc_slotTTLSeconds c))
            (\<lambda>x. case x of
               None \<Rightarrow> Return None
             | Some (_, remaining) \<Rightarrow>
                 redis_call c (\<lambda>r. (redis_DEL (si_waitKey spec i) r, ())) (\<lambda>y. case y of
                   None \<Rightarrow> Return None
                 | Some _ \<Rightarrow>
                     (if remaining > 0 then
                        cleanup_members c spec activePrefix now ms stale
                          (refreshed @ [(now + cc_slotTTLSeconds c, m)])
                      else cleanup_members c spec activePrefix now ms (stale @ [m]) refreshed))))"

definition cleanupStaleProcessSlotsForIndex ::
  "concurrencyCache \<Rightarrow> slotIndexSpec \<Rightarrow> string list \<Rightarrow> string \<Rightarrow> int \<Rightarrow> ('z redis_scheme, unit option) prog"
where
  "cleanupStaleProcessSlotsForIndex c spec ms activeRequestPrefix now =
     bindP (cleanup_members c spec activeRequestPrefix now ms [] []) (\<lambda>x. case x of
       None \<Rightarrow> Return None
     | Some (stale, refreshed) \<Rightarrow>
         bindP (addActiveIndexMembers c (si_indexKey spec) refreshed) (\<lambda>_.
           bindP (removeActiveIndexMembers c (si_indexKey spec) stale) (\<lambda>_. Return (Some ()))))"

definition CleanupStaleProcessSlots ::
  "concurrencyCache \<Rightarrow> string list list \<Rightarrow> string list list \<Rightarrow> string \<Rightarrow> ('z redis_scheme, unit option) prog"
where
  "CleanupStaleProcessSlots c accountBatches userBatches activeRequestPrefix =
     (if activeRequestPrefix = [] then Return (Some ())
      else bindP (sweepLegacyWaitKeysOnce c accountBatches userBatches) (\<lambda>x. case x of
        None \<Rightarrow> Return None
      | Some _ \<Rightarrow> redisUnixSeconds c (\<lambda>t. case t of
          None \<Rightarrow> Return None
        | Some now \<Rightarrow>
            allIndexMembers c accountActiveIndexKey (\<lambda>as. case as of
              None \<Rightarrow> Return None
            | Some as \<Rightarrow>
                bindP (cleanupStaleProcessSlotsForIndex c accountSlotIndex as activeRequestPrefix now)
                  (\<lambda>y. case y of
                     None \<Rightarrow> Return None
                   | Some _ \<Rightarrow>
                       allIndexMembers c userActiveIndexKey (\<lambda>us. case us of
                         None \<Rightarrow> Return None
                       | Some us \<Rightarrow>
                           cleanupStaleProcessSlotsForIndex c userSlotIndex us activeRequestPrefix now))))))"

end
