(* ===== verification/ConcurrencyLeases.thy ===== *)
theory ConcurrencyLeases
  imports ConcurrencyCache
begin

text \<open>
  What the scripts of \<^verbatim>\<open>ConcurrencyCache\<close> mean: a table of leases. Every slot key holds the
  members that have not expired; when the server really removes them, and when it drops a whole
  key, makes no difference. The lemmas give the effect of each command and script on the table
  \<open>leases\<close>, under the invariant \<open>slots_ok\<close> of the stored sets.
\<close>

section \<open>Slot keys\<close>

definition slot_key :: "string \<Rightarrow> bool" where
  "slot_key k \<longleftrightarrow>
     list_ex (has_prefix k) [''concurrency:account:'', ''concurrency:user:'', ''concurrency:api_key:'',
       ''concurrency:live:'', ''concurrency:openai_ws_ingress:api_key:''] \<and>
     k \<noteq> accountActiveIndexKey \<and> k \<noteq> userActiveIndexKey"

definition key_ttl :: "concurrencyCache \<Rightarrow> string \<Rightarrow> int" where
  "key_ttl c k =
     (if list_ex (has_prefix k) [''concurrency:account:'', ''concurrency:user:'', ''concurrency:api_key:'']
      then cc_slotTTLSeconds c else 60)"

lemmas key_defs = accountSlotKey_def userSlotKey_def apiKeySlotKey_def liveAccountSlotKey_def
  liveUserSlotKey_def liveAPIKeySlotKey_def openAIWSIngressLeaseKey_def waitQueueKey_def
  accountWaitKey_def accountActiveIndexKey_def userActiveIndexKey_def

lemma FormatInt10_index: "FormatInt10 i \<noteq> ''active_index''"
proof
  assume i: "FormatInt10 i = ''active_index''"
  have "list_all is_digit10 (FormatUint 10 (nat i))" by simp
  with i show False by (cases "i < 0") (auto simp: FormatInt10_def is_digit10_def)
qed

lemma slot_keys [simp]:
  "slot_key (accountSlotKey i)" "slot_key (userSlotKey i)" "slot_key (apiKeySlotKey i)"
  "slot_key (liveAccountSlotKey i)" "slot_key (liveUserSlotKey i)" "slot_key (liveAPIKeySlotKey i)"
  "slot_key (openAIWSIngressLeaseKey i)" "\<not> slot_key accountActiveIndexKey" "\<not> slot_key userActiveIndexKey"
  using FormatInt10_index [of i] by (simp_all add: slot_key_def key_defs has_prefix_def)

lemma key_ttls [simp]:
  "key_ttl c (accountSlotKey i) = cc_slotTTLSeconds c" "key_ttl c (userSlotKey i) = cc_slotTTLSeconds c"
  "key_ttl c (apiKeySlotKey i) = cc_slotTTLSeconds c" "key_ttl c (liveAccountSlotKey i) = 60"
  "key_ttl c (liveUserSlotKey i) = 60" "key_ttl c (liveAPIKeySlotKey i) = 60"
  "key_ttl c (openAIWSIngressLeaseKey i) = 60"
  by (simp_all add: key_ttl_def key_defs has_prefix_def)

lemma slot_keys_apart [simp]:
  "accountSlotKey i \<noteq> userSlotKey j" "userSlotKey i \<noteq> accountSlotKey j"
  "accountSlotKey i \<noteq> liveAccountSlotKey j" "liveAccountSlotKey i \<noteq> accountSlotKey j"
  "accountSlotKey i \<noteq> liveUserSlotKey j" "liveUserSlotKey i \<noteq> accountSlotKey j"
  "accountSlotKey i \<noteq> liveAPIKeySlotKey j" "liveAPIKeySlotKey i \<noteq> accountSlotKey j"
  "userSlotKey i \<noteq> liveAccountSlotKey j" "liveAccountSlotKey i \<noteq> userSlotKey j"
  "userSlotKey i \<noteq> liveUserSlotKey j" "liveUserSlotKey i \<noteq> userSlotKey j"
  "userSlotKey i \<noteq> liveAPIKeySlotKey j" "liveAPIKeySlotKey i \<noteq> userSlotKey j"
  "liveAccountSlotKey i \<noteq> liveUserSlotKey j" "liveUserSlotKey i \<noteq> liveAccountSlotKey j"
  "liveAccountSlotKey i \<noteq> liveAPIKeySlotKey j" "liveAPIKeySlotKey i \<noteq> liveAccountSlotKey j"
  "liveUserSlotKey i \<noteq> liveAPIKeySlotKey j" "liveAPIKeySlotKey i \<noteq> liveUserSlotKey j"
  "apiKeySlotKey i \<noteq> accountSlotKey j" "accountSlotKey i \<noteq> apiKeySlotKey j"
  "apiKeySlotKey i \<noteq> userSlotKey j" "userSlotKey i \<noteq> apiKeySlotKey j"
  "apiKeySlotKey i \<noteq> liveAccountSlotKey j" "liveAccountSlotKey i \<noteq> apiKeySlotKey j"
  "apiKeySlotKey i \<noteq> liveUserSlotKey j" "liveUserSlotKey i \<noteq> apiKeySlotKey j"
  "openAIWSIngressLeaseKey i \<noteq> accountSlotKey j" "accountSlotKey i \<noteq> openAIWSIngressLeaseKey j"
  "openAIWSIngressLeaseKey i \<noteq> userSlotKey j" "userSlotKey i \<noteq> openAIWSIngressLeaseKey j"
  "openAIWSIngressLeaseKey i \<noteq> apiKeySlotKey j" "apiKeySlotKey i \<noteq> openAIWSIngressLeaseKey j"
  "openAIWSIngressLeaseKey i \<noteq> liveAccountSlotKey j" "liveAccountSlotKey i \<noteq> openAIWSIngressLeaseKey j"
  "openAIWSIngressLeaseKey i \<noteq> liveUserSlotKey j" "liveUserSlotKey i \<noteq> openAIWSIngressLeaseKey j"
  "openAIWSIngressLeaseKey i \<noteq> liveAPIKeySlotKey j" "liveAPIKeySlotKey i \<noteq> openAIWSIngressLeaseKey j"
  by (simp_all add: key_defs)

lemma slot_keys_inj [simp]:
  "accountSlotKey i = accountSlotKey j \<longleftrightarrow> i = j" "userSlotKey i = userSlotKey j \<longleftrightarrow> i = j"
  "liveAccountSlotKey i = liveAccountSlotKey j \<longleftrightarrow> i = j" "liveUserSlotKey i = liveUserSlotKey j \<longleftrightarrow> i = j"
  "openAIWSIngressLeaseKey i = openAIWSIngressLeaseKey j \<longleftrightarrow> i = j"
  "waitQueueKey i = waitQueueKey j \<longleftrightarrow> i = j" "accountWaitKey i = accountWaitKey j \<longleftrightarrow> i = j"
  "waitQueueKey i \<noteq> accountWaitKey j" "accountWaitKey i \<noteq> waitQueueKey j"
  by (simp_all add: key_defs)

section \<open>The table of leases\<close>

type_synonym lease_table = "string \<Rightarrow> string \<rightharpoonup> int"

definition unexpired :: "int \<Rightarrow> int \<Rightarrow> (string \<times> int) list \<Rightarrow> (string \<times> int) list" where
  "unexpired now ttl xs = filter (\<lambda>(_, s). now < s + ttl) xs"

definition leases :: "concurrencyCache \<Rightarrow> 'z redis_scheme \<Rightarrow> lease_table" where
  "leases c r k =
     (if slot_key k then map_of (unexpired (redis_TIME r) (key_ttl c k) (members r k)) else Map.empty)"

definition slot_ok :: "concurrencyCache \<Rightarrow> 'z redis_scheme \<Rightarrow> string \<Rightarrow> bool" where
  "slot_ok c r k \<longleftrightarrow> distinct (map fst (members r k)) \<and>
     (\<forall>(m, s) \<in> set (members r k). s \<le> redis_TIME r \<and>
        (case expiry r k of None \<Rightarrow> True | Some e \<Rightarrow> (s + key_ttl c k) * 1000 \<le> e))"

definition slots_ok :: "concurrencyCache \<Rightarrow> 'z redis_scheme \<Rightarrow> bool" where
  "slots_ok c r \<longleftrightarrow> 0 < cc_slotTTLSeconds c \<and> (\<forall>k. slot_key k \<longrightarrow> slot_ok c r k)"

lemma key_ttl_pos: "slots_ok c r \<Longrightarrow> 0 < key_ttl c k"
  by (simp add: slots_ok_def key_ttl_def)

lemma slots_okD: "slots_ok c r \<Longrightarrow> slot_key k \<Longrightarrow> slot_ok c r k"
  by (simp add: slots_ok_def)

lemma map_of_filter_distinct:
  "distinct (map fst xs) \<Longrightarrow> map_of (filter (\<lambda>(m, s). P m s) xs) m =
     (case map_of xs m of None \<Rightarrow> None | Some s \<Rightarrow> if P m s then Some s else None)"
proof (induction xs)
  case (Cons x xs)
  then show ?case
    by (cases x; cases "map_of xs (fst x)") (auto split: option.splits simp: map_of_eq_None_iff dest: map_of_SomeD)
qed simp

lemma map_of_unexpired:
  "distinct (map fst xs) \<Longrightarrow> map_of (unexpired now ttl xs) m =
     (case map_of xs m of None \<Rightarrow> None | Some s \<Rightarrow> if now < s + ttl then Some s else None)"
  unfolding unexpired_def by (rule map_of_filter_distinct)

lemma leases_at:
  "slots_ok c r \<Longrightarrow> slot_key k \<Longrightarrow> leases c r k m =
     (case map_of (members r k) m of None \<Rightarrow> None
      | Some s \<Rightarrow> if redis_TIME r < s + key_ttl c k then Some s else None)"
  using slots_okD [of c r k] by (simp add: leases_def map_of_unexpired slot_ok_def)

lemma lease_iff:
  "slots_ok c r \<Longrightarrow> slot_key k \<Longrightarrow>
     leases c r k m = Some s \<longleftrightarrow> map_of (members r k) m = Some s \<and> redis_TIME r < s + key_ttl c k"
  by (auto simp: leases_at split: option.splits)

lemma leases_finite: "finite (dom (leases c r k))"
  by (simp add: leases_def finite_dom_map_of)

text \<open>How many leases there are, and what \<^verbatim>\<open>ZCARD\<close> says.\<close>

definition lease_count :: "concurrencyCache \<Rightarrow> 'z redis_scheme \<Rightarrow> string \<Rightarrow> int" where
  "lease_count c r k = int (card (dom (leases c r k)))"

lemma card_map_of: "distinct (map fst xs) \<Longrightarrow> card (dom (map_of xs)) = length xs"
  by (metis distinct_card dom_map_of_conv_image_fst length_map set_map)

lemma distinct_unexpired: "distinct (map fst xs) \<Longrightarrow> distinct (map fst (unexpired now ttl xs))"
  unfolding unexpired_def by (rule distinct_map_filter)

lemma lease_count_eq:
  "slots_ok c r \<Longrightarrow> slot_key k \<Longrightarrow>
     lease_count c r k = int (length (unexpired (redis_TIME r) (key_ttl c k) (members r k)))"
  using slots_okD [of c r k]
  by (simp add: lease_count_def leases_def slot_ok_def card_map_of distinct_unexpired)

lemma lease_count_le: "slots_ok c r \<Longrightarrow> slot_key k \<Longrightarrow> lease_count c r k \<le> redis_ZCARD k r"
  by (simp add: lease_count_eq unexpired_def redis_ZCARD_def)

section \<open>What the commands do to the leases\<close>

text \<open>A change of the server that no lease notices.\<close>

definition quiet :: "concurrencyCache \<Rightarrow> 'z redis_scheme \<Rightarrow> 'z redis_scheme \<Rightarrow> bool" where
  "quiet c r r' \<longleftrightarrow> rd_Clock r' = rd_Clock r \<and>
     (slots_ok c r \<longrightarrow> slots_ok c r' \<and> leases c r' = leases c r)"

lemma quiet_refl [simp]: "quiet c r r"
  by (simp add: quiet_def)

lemma quiet_trans [trans]: "quiet c r r' \<Longrightarrow> quiet c r' r'' \<Longrightarrow> quiet c r r''"
  by (simp add: quiet_def)

lemma TIME_clock: "rd_Clock r' = rd_Clock r \<Longrightarrow> redis_TIME r' = redis_TIME r"
  by (simp add: redis_TIME_def)

lemma quiet_TIME: "quiet c r r' \<Longrightarrow> redis_TIME r' = redis_TIME r"
  unfolding quiet_def by (elim conjE) (rule TIME_clock)

lemma quiet_same:
  "rd_Clock r' = rd_Clock r \<Longrightarrow>
   (\<And>k. slot_key k \<Longrightarrow> members r' k = members r k \<and> expiry r' k = expiry r k) \<Longrightarrow> quiet c r r'"
proof -
  assume r: "rd_Clock r' = rd_Clock r" and
    same: "\<And>k. slot_key k \<Longrightarrow> members r' k = members r k \<and> expiry r' k = expiry r k"
  have "redis_TIME r' = redis_TIME r" by (rule TIME_clock [OF r])
  with r same show ?thesis by (simp add: quiet_def slots_ok_def slot_ok_def leases_def fun_eq_iff)
qed

lemma quiet_counters [simp]:
  "quiet c r (redis_SET k v r)" "quiet c r (redis_INCRBY k v r)"
  by (rule quiet_same; simp add: redis_simps)+

lemma quiet_other_key:
  assumes "\<not> slot_key k"
  shows "quiet c r (redis_ZADD k s m r)" "quiet c r (redis_ZREM k m r)" "quiet c r (redis_DEL k r)"
    "0 < ttl \<Longrightarrow> quiet c r (redis_EXPIRE k ttl r)"
  by (rule quiet_same; use assms in \<open>auto simp: redis_simps\<close>)+

lemma slot_ok_filter:
  "slot_ok c r k \<Longrightarrow> redis_TIME r' = redis_TIME r \<Longrightarrow> members r' k = filter P (members r k) \<Longrightarrow>
   expiry r' k = None \<or> expiry r' k = expiry r k \<Longrightarrow> slot_ok c r' k"
  by (auto simp: slot_ok_def distinct_map_filter)

lemma slots_ok_at:
  assumes "slots_ok c r" "\<And>k'. k' \<noteq> k \<Longrightarrow> members r' k' = members r k' \<and> expiry r' k' = expiry r k'"
    "rd_Clock r' = rd_Clock r" "slot_key k \<Longrightarrow> slot_ok c r k \<Longrightarrow> slot_ok c r' k"
  shows "slots_ok c r'"
  unfolding slots_ok_def
proof (intro conjI allI impI)
  show "0 < cc_slotTTLSeconds c" using assms(1) by (simp add: slots_ok_def)
  fix k' assume k': "slot_key k'"
  then have ok: "slot_ok c r k'" using assms(1) by (simp add: slots_ok_def)
  show "slot_ok c r' k'"
  proof (cases "k' = k")
    case True
    with assms(4) ok k' show ?thesis by simp
  next
    case False
    with assms(2) ok TIME_clock [OF assms(3)] show ?thesis by (simp add: slot_ok_def)
  qed
qed

lemma leases_upd:
  assumes "slots_ok c r'" "\<And>k'. k' \<noteq> k \<Longrightarrow> members r' k' = members r k'" "rd_Clock r' = rd_Clock r"
    "slot_key k" "\<And>m. leases c r' k m = f m"
  shows "leases c r' = (leases c r)(k := f)"
  using assms(2-) TIME_clock [OF assms(3)] by (auto simp: fun_eq_iff leases_def)

lemma slots_ok_ZREMRANGE: "slots_ok c r \<Longrightarrow> slots_ok c (redis_ZREMRANGEBYSCORE k hi r)"
  by (rule slots_ok_at [where k = k and r = r]; (rule slot_ok_filter)?; assumption?) (auto simp: redis_simps)

lemma slots_ok_ZREM: "slots_ok c r \<Longrightarrow> slots_ok c (redis_ZREM k m r)"
  by (rule slots_ok_at [where k = k and r = r]; (rule slot_ok_filter)?; assumption?) (auto simp: redis_simps)

lemma quiet_trim:
  assumes "hi + key_ttl c k \<le> redis_TIME r"
  shows "quiet c r (redis_ZREMRANGEBYSCORE k hi r)"
  unfolding quiet_def
proof (intro conjI impI)
  let ?r = "redis_ZREMRANGEBYSCORE k hi r"
  show "rd_Clock ?r = rd_Clock r" by (simp add: redis_simps)
  assume ok: "slots_ok c r"
  then show ok': "slots_ok c ?r" by (rule slots_ok_ZREMRANGE)
  show "leases c ?r = leases c r"
  proof (rule ext, rule ext)
    fix k' m
    show "leases c ?r k' m = leases c r k' m"
    proof (cases "slot_key k'")
      case True
      have "distinct (map fst (members r k'))" using ok True by (simp add: slots_ok_def slot_ok_def)
      then show ?thesis using ok ok' True assms
        by (auto simp: leases_at redis_simps map_of_filter_distinct split: option.splits if_splits)
    qed (simp add: leases_def)
  qed
qed

lemma leases_ZREM:
  assumes "slots_ok c r" "slot_key k"
  shows "leases c (redis_ZREM k m r) = (leases c r)(k := (leases c r k)(m := None))"
proof (rule leases_upd)
  show "slots_ok c (redis_ZREM k m r)" by (rule slots_ok_ZREM [OF assms(1)])
  fix m'
  have "distinct (map fst (members r k))" using assms by (simp add: slots_ok_def slot_ok_def)
  then show "leases c (redis_ZREM k m r) k m' = ((leases c r k)(m := None)) m'"
    using assms slots_ok_ZREM [OF assms(1), of k m]
    by (auto simp: leases_at redis_simps map_of_filter_distinct split: option.splits)
qed (use assms in \<open>simp_all add: redis_simps\<close>)

text \<open>Taking or renewing a slot: the score is set to the present second and the key kept.\<close>

definition stamp :: "string \<Rightarrow> int \<Rightarrow> string \<Rightarrow> 'z redis_scheme \<Rightarrow> 'z redis_scheme" where
  "stamp k ttl m r = redis_EXPIRE k ttl (redis_ZADD k (redis_TIME r) m r)"

lemma TIME_le_clock: "s \<le> redis_TIME r \<Longrightarrow> s * 1000 \<le> rd_Clock r"
  by (simp add: redis_TIME_def)

lemma stamp_clock [simp]: "rd_Clock (stamp k ttl m r) = rd_Clock r" "redis_TIME (stamp k ttl m r) = redis_TIME r"
  by (simp_all add: stamp_def redis_simps)

lemma slots_ok_stamp:
  assumes ok: "slots_ok c r" and k: "slot_key k" "ttl = key_ttl c k"
  shows "slots_ok c (stamp k ttl m r)"
proof (rule slots_ok_at [OF ok, of k])
  have ttl: "0 < ttl" using key_ttl_pos [OF ok] k by simp
  show "members (stamp k ttl m r) k' = members r k' \<and> expiry (stamp k ttl m r) k' = expiry r k'"
    if "k' \<noteq> k" for k' using that ttl by (simp add: stamp_def redis_simps)
  assume s: "slot_ok c r k"
  have new: "members (stamp k ttl m r) k = AList.update m (redis_TIME r) (members r k)"
    "expiry (stamp k ttl m r) k = Some (rd_Clock r + ttl * 1000)"
    using ttl by (simp_all add: stamp_def redis_simps)
  have "s \<le> redis_TIME r" if "(m', s) \<in> set (AList.update m (redis_TIME r) (members r k))" for m' s
  proof -
    have d: "distinct (map fst (AList.update m (redis_TIME r) (members r k)))"
      using s by (simp add: slot_ok_def AList.distinct_update)
    have "map_of (AList.update m (redis_TIME r) (members r k)) m' = Some s"
      using d that by simp
    then have "m' = m \<and> s = redis_TIME r \<or> map_of (members r k) m' = Some s"
      by (auto simp: AList.update_conv' split: if_splits)
    with s show ?thesis by (auto simp: slot_ok_def dest!: map_of_SomeD)
  qed
  then show "slot_ok c (stamp k ttl m r) k"
    unfolding slot_ok_def new using s k(2) TIME_le_clock [of _ r]
    by (auto simp: slot_ok_def AList.distinct_update algebra_simps)
qed simp

lemma leases_stamp:
  assumes ok: "slots_ok c r" and k: "slot_key k" "ttl = key_ttl c k"
  shows "leases c (stamp k ttl m r) = (leases c r)(k := (leases c r k)(m \<mapsto> redis_TIME r))"
proof (rule leases_upd)
  have ttl: "0 < ttl" using key_ttl_pos [OF ok] k by simp
  show ok': "slots_ok c (stamp k ttl m r)" by (rule slots_ok_stamp [OF assms])
  show "members (stamp k ttl m r) k' = members r k'" if "k' \<noteq> k" for k'
    using that ttl by (simp add: stamp_def redis_simps)
  fix m'
  have new: "members (stamp k ttl m r) k = AList.update m (redis_TIME r) (members r k)"
    using ttl by (simp add: stamp_def redis_simps)
  show "leases c (stamp k ttl m r) k m' = ((leases c r k)(m \<mapsto> redis_TIME r)) m'"
    using key_ttl_pos [OF ok, of k]
    by (simp add: leases_at [OF ok' k(1)] leases_at [OF ok k(1)] new AList.update_conv' split: option.splits)
qed (use k in simp_all)

lemma quiet_EXPIRE:
  assumes "slot_key k \<Longrightarrow> ttl = key_ttl c k" "0 < ttl"
  shows "quiet c r (redis_EXPIRE k ttl r)"
  unfolding quiet_def
proof (intro conjI impI)
  let ?r = "redis_EXPIRE k ttl r"
  show clock: "rd_Clock ?r = rd_Clock r" by (simp add: redis_simps)
  assume ok: "slots_ok c r"
  show "slots_ok c ?r"
  proof (rule slots_ok_at [OF ok, of k])
    assume k: "slot_key k" and s: "slot_ok c r k"
    then show "slot_ok c ?r k" using assms TIME_le_clock [of _ r]
      by (fastforce simp: slot_ok_def redis_simps algebra_simps)
  qed (use assms(2) in \<open>simp_all add: redis_simps\<close>)
  show "leases c ?r = leases c r"
    using assms(2) by (simp add: fun_eq_iff leases_def redis_simps)
qed

lemma quiet_DEL_empty:
  "members r k = [] \<Longrightarrow> quiet c r (redis_DEL k r)"
  unfolding quiet_def
proof (intro conjI impI)
  assume e: "members r k = []"
  show "rd_Clock (redis_DEL k r) = rd_Clock r" by (simp add: redis_simps)
  assume ok: "slots_ok c r"
  show "slots_ok c (redis_DEL k r)"
    by (rule slots_ok_at [OF ok, of k]) (simp_all add: redis_simps slot_ok_def)
  show "leases c (redis_DEL k r) = leases c r"
    using e by (auto simp: fun_eq_iff leases_def redis_simps)
qed

text \<open>Time passes: leases run out, and nothing else happens.\<close>

lemma TIME_wait: "redis_TIME r \<le> redis_TIME (redis_wait n r)"
  by (simp add: redis_TIME_def redis_wait_def zdiv_mono1)

lemma wait_drop:
  assumes "slot_ok c r k" "slots_ok c r" "(m, s) \<in> set (members r k)"
    "redis_TIME (redis_wait n r) < s + key_ttl c k"
  shows "members (redis_wait n r) k = members r k"
proof -
  have "(s + key_ttl c k) * 1000 > rd_Clock r + int n"
    using assms(4) by (simp add: redis_TIME_def redis_simps)
  then show ?thesis using members_wait_kept [of r n k] assms(1,3)
    by (fastforce simp: slot_ok_def split: option.splits)
qed

lemma slots_ok_wait: "slots_ok c r \<Longrightarrow> slots_ok c (redis_wait n r)"
  unfolding slots_ok_def
proof (elim conjE, intro conjI allI impI)
  fix k assume "\<forall>k. slot_key k \<longrightarrow> slot_ok c r k" "slot_key k"
  then have "slot_ok c r k" by blast
  with members_wait [of n r k] expiry_wait [of n r k] TIME_wait [of r n]
  show "slot_ok c (redis_wait n r) k" by (fastforce simp: slot_ok_def)
qed

lemma leases_wait:
  assumes ok: "slots_ok c r"
  shows "leases c (redis_wait n r) k m =
     (case leases c r k m of None \<Rightarrow> None
      | Some s \<Rightarrow> if redis_TIME (redis_wait n r) < s + key_ttl c k then Some s else None)"
proof (cases "slot_key k")
  case True
  note at = leases_at [OF ok True] leases_at [OF slots_ok_wait [OF ok] True]
  show ?thesis
  proof (cases "map_of (members r k) m")
    case None
    with at show ?thesis using members_wait [of n r k] by auto
  next
    case (Some s)
    show ?thesis
    proof (cases "redis_TIME (redis_wait n r) < s + key_ttl c k")
      case live: True
      then have "members (redis_wait n r) k = members r k"
        using wait_drop [OF slots_okD [OF ok True] ok map_of_SomeD [OF Some]] by simp
      with live at Some TIME_wait [of r n] show ?thesis by simp
    next
      case False
      with at Some show ?thesis using members_wait [of n r k] by (auto split: option.splits)
    qed
  qed
qed (simp add: leases_def)

section \<open>What the scripts do\<close>

lemma trimmed_members:
  "members (redis_ZREMRANGEBYSCORE k (now - ttl) r) k = unexpired now ttl (members r k)"
  by (simp add: redis_simps unexpired_def) (rule filter_cong; auto)

lemma trimmed_ZCARD:
  assumes "slots_ok c r" "slot_key k" "ttl = key_ttl c k" "now = redis_TIME r"
  shows "redis_ZCARD k (redis_ZREMRANGEBYSCORE k (now - ttl) r) = lease_count c r k"
  using assms by (simp add: redis_ZCARD_def trimmed_members lease_count_eq)

lemma trimmed_ZSCORE:
  assumes "slots_ok c r" "slot_key k" "ttl = key_ttl c k" "now = redis_TIME r"
  shows "redis_ZSCORE k m (redis_ZREMRANGEBYSCORE k (now - ttl) r) = leases c r k m"
  using assms by (simp add: redis_ZSCORE_def trimmed_members leases_def)

lemma ZSCORE_other [redis_simps]:
  "k' \<noteq> k \<Longrightarrow> redis_ZSCORE k m (redis_ZREMRANGEBYSCORE k' hi r) = redis_ZSCORE k m r"
  by (simp add: redis_ZSCORE_def redis_simps)

lemma ZCARD_other [redis_simps]:
  "k' \<noteq> k \<Longrightarrow> redis_ZCARD k (redis_ZREMRANGEBYSCORE k' hi r) = redis_ZCARD k r"
  by (simp add: redis_ZCARD_def redis_simps)

lemma quiet_trim_now: "redis_TIME r = now \<Longrightarrow> quiet c r (redis_ZREMRANGEBYSCORE k (now - key_ttl c k) r)"
  by (rule quiet_trim) simp

text \<open>The abstract operation: a slot is granted while there are fewer leases than allowed.\<close>

definition spec_admits :: "string \<Rightarrow> string \<Rightarrow> int \<Rightarrow> string \<Rightarrow> lease_table \<Rightarrow> bool" where
  "spec_admits key liveKey maxConcurrency m L \<longleftrightarrow>
     m \<in> dom (L key) \<or> int (card (dom (L key))) + int (card (dom (L liveKey))) < maxConcurrency"

definition spec_acquire ::
  "string \<Rightarrow> string \<Rightarrow> int \<Rightarrow> string \<Rightarrow> int \<Rightarrow> lease_table \<Rightarrow> lease_table \<times> bool" where
  "spec_acquire key liveKey maxConcurrency m now L =
     (if spec_admits key liveKey maxConcurrency m L then (L(key := (L key)(m \<mapsto> now)), True) else (L, False))"

lemma quiet_two_trims:
  assumes "now = redis_TIME r" "ttl = key_ttl c key" "key_ttl c liveKey = 60"
  shows "quiet c r (redis_ZREMRANGEBYSCORE liveKey (now - 60) (redis_ZREMRANGEBYSCORE key (now - ttl) r))"
proof -
  have "quiet c r (redis_ZREMRANGEBYSCORE key (now - ttl) r)" using assms by (simp add: quiet_trim_now)
  also have "quiet c \<dots> (redis_ZREMRANGEBYSCORE liveKey (now - 60) (redis_ZREMRANGEBYSCORE key (now - ttl) r))"
    using assms by (intro quiet_trim) (simp add: redis_simps)
  finally show ?thesis .
qed

lemma acquireScript_refines:
  fixes r :: "'z redis_scheme"
  assumes ok: "slots_ok c r" and keys: "slot_key key" "slot_key liveKey" "liveKey \<noteq> key"
    and ttl: "ttl = key_ttl c key" "key_ttl c liveKey = 60"
    and run: "acquireScript key liveKey maxConcurrency ttl m r = (r', result, now)"
  shows "(leases c r', result = 1) = spec_acquire key liveKey maxConcurrency m (redis_TIME r) (leases c r)"
    and "slots_ok c r'" "rd_Clock r' = rd_Clock r" "now = redis_TIME r"
proof -
  define r2 where "r2 = redis_ZREMRANGEBYSCORE liveKey (redis_TIME r - 60) (redis_ZREMRANGEBYSCORE key (redis_TIME r - ttl) r)"
  have quiet: "quiet c r r2" unfolding r2_def by (rule quiet_two_trims [OF refl ttl])
  then have r2: "slots_ok c r2" "leases c r2 = leases c r" "rd_Clock r2 = rd_Clock r" "redis_TIME r2 = redis_TIME r"
    using ok quiet_TIME [OF quiet] by (simp_all add: quiet_def)
  let ?r1 = "redis_ZREMRANGEBYSCORE key (redis_TIME r - ttl) r"
  have ok1: "slots_ok c ?r1" "redis_TIME ?r1 = redis_TIME r" "leases c ?r1 = leases c r"
    using quiet_trim_now [of r "redis_TIME r" c key] ok ttl by (auto simp: quiet_def redis_simps)
  have "redis_ZCARD key r2 = lease_count c r key"
    unfolding r2_def using keys trimmed_ZCARD [OF ok keys(1) ttl(1) refl] by (simp add: redis_simps)
  moreover have "redis_ZCARD liveKey r2 = lease_count c r liveKey"
    unfolding r2_def using trimmed_ZCARD [OF ok1(1) keys(2), of 60 "redis_TIME r"] ok1 ttl
    by (simp add: lease_count_def)
  moreover have "redis_ZSCORE key m r2 = leases c r key m"
    unfolding r2_def using keys trimmed_ZSCORE [OF ok keys(1) ttl(1) refl] by (simp add: redis_simps)
  ultimately have run': "(r', result, now) =
      (if spec_admits key liveKey maxConcurrency m (leases c r)
       then (stamp key ttl m r2, 1, redis_TIME r) else (r2, 0, redis_TIME r))"
    using run by (auto simp: acquireScript_def Let_def r2_def [symmetric] stamp_def r2(4)
        spec_admits_def lease_count_def split: if_splits)
  then show "(leases c r', result = 1) = spec_acquire key liveKey maxConcurrency m (redis_TIME r) (leases c r)"
    using leases_stamp [OF r2(1) keys(1) ttl(1), of m] r2 by (auto simp: spec_acquire_def split: if_splits)
  show "slots_ok c r'" "rd_Clock r' = rd_Clock r" "now = redis_TIME r"
    using run' slots_ok_stamp [OF r2(1) keys(1) ttl(1), of m] r2 by (auto split: if_splits)
qed

lemma getCountScript_effect:
  fixes r :: "'z redis_scheme"
  assumes ok: "slots_ok c r" and keys: "slot_key key" "slot_key liveKey" "liveKey \<noteq> key"
    and ttl: "ttl = key_ttl c key" "key_ttl c liveKey = 60"
  shows "quiet c r (fst (getCountScript key liveKey ttl r))"
    and "snd (getCountScript key liveKey ttl r) = lease_count c r key + lease_count c r liveKey"
proof -
  let ?r1 = "redis_ZREMRANGEBYSCORE key (redis_TIME r - ttl) r"
  have ok1: "slots_ok c ?r1" "redis_TIME ?r1 = redis_TIME r" "leases c ?r1 = leases c r"
    using quiet_trim_now [of r "redis_TIME r" c key] ok ttl by (auto simp: quiet_def redis_simps)
  show "quiet c r (fst (getCountScript key liveKey ttl r))"
    using quiet_two_trims [OF refl ttl] by (simp add: getCountScript_def Let_def)
  show "snd (getCountScript key liveKey ttl r) = lease_count c r key + lease_count c r liveKey"
    using keys trimmed_ZCARD [OF ok keys(1) ttl(1) refl]
      trimmed_ZCARD [OF ok1(1) keys(2), of 60 "redis_TIME r"] ok1 ttl
    by (simp add: getCountScript_def Let_def redis_simps lease_count_def)
qed

lemma trackSlotScript_effect:
  assumes ok: "slots_ok c r" and k: "slot_key key" "ttl = key_ttl c key"
  shows "slots_ok c (fst (trackSlotScript key ttl m r))"
    "leases c (fst (trackSlotScript key ttl m r)) = (leases c r)(key := (leases c r key)(m \<mapsto> redis_TIME r))"
    "rd_Clock (fst (trackSlotScript key ttl m r)) = rd_Clock r"
proof -
  let ?r1 = "redis_ZREMRANGEBYSCORE key (redis_TIME r - ttl) r"
  have r1: "slots_ok c ?r1" "redis_TIME ?r1 = redis_TIME r" "leases c ?r1 = leases c r"
    using quiet_trim_now [of r "redis_TIME r" c key] ok k by (auto simp: quiet_def redis_simps)
  have e: "fst (trackSlotScript key ttl m r) = stamp key ttl m ?r1"
    using r1 by (simp add: trackSlotScript_def Let_def stamp_def)
  show "slots_ok c (fst (trackSlotScript key ttl m r))"
    "leases c (fst (trackSlotScript key ttl m r)) = (leases c r)(key := (leases c r key)(m \<mapsto> redis_TIME r))"
    "rd_Clock (fst (trackSlotScript key ttl m r)) = rd_Clock r"
    unfolding e using slots_ok_stamp [OF r1(1) k] leases_stamp [OF r1(1) k] r1 by (simp_all add: redis_simps)
qed

lemma ingress_acquire_effect:
  assumes ok: "slots_ok c r" and k: "slot_key key" "ttl = key_ttl c key"
    and run: "acquireOpenAIWSIngressLeaseScript key maxConnections ttl m r = (r', result)"
  shows "slots_ok c r'" "rd_Clock r' = rd_Clock r"
    "result = 1 \<longleftrightarrow> leases c r key m \<noteq> None \<or> lease_count c r key < maxConnections"
    "leases c r' = (if result = 1 then (leases c r)(key := (leases c r key)(m \<mapsto> redis_TIME r)) else leases c r)"
proof -
  let ?r1 = "redis_ZREMRANGEBYSCORE key (redis_TIME r - ttl) r"
  have r1: "slots_ok c ?r1" "redis_TIME ?r1 = redis_TIME r" "leases c ?r1 = leases c r" "rd_Clock ?r1 = rd_Clock r"
    using quiet_trim_now [of r "redis_TIME r" c key] ok k by (auto simp: quiet_def redis_simps)
  have run': "(r', result) =
      (if leases c r key m \<noteq> None \<or> lease_count c r key < maxConnections then (stamp key ttl m ?r1, 1) else (?r1, 0))"
    using run trimmed_ZCARD [OF ok k(1,2) refl] trimmed_ZSCORE [OF ok k(1,2) refl, of m] r1(2)
    by (auto simp: acquireOpenAIWSIngressLeaseScript_def Let_def stamp_def split: if_splits)
  then show "slots_ok c r'" "rd_Clock r' = rd_Clock r"
    "result = 1 \<longleftrightarrow> leases c r key m \<noteq> None \<or> lease_count c r key < maxConnections"
    "leases c r' = (if result = 1 then (leases c r)(key := (leases c r key)(m \<mapsto> redis_TIME r)) else leases c r)"
    using slots_ok_stamp [OF r1(1) k, of m] leases_stamp [OF r1(1) k, of m] r1 by (auto split: if_splits)
qed

lemma ingress_refresh_effect:
  assumes ok: "slots_ok c r" and k: "slot_key key" "ttl = key_ttl c key"
    and run: "refreshOpenAIWSIngressLeaseScript key ttl m r = (r', result)"
  shows "slots_ok c r'" "rd_Clock r' = rd_Clock r" "result = 1 \<longleftrightarrow> leases c r key m \<noteq> None"
    "leases c r' = (if result = 1 then (leases c r)(key := (leases c r key)(m \<mapsto> redis_TIME r)) else leases c r)"
proof -
  let ?r1 = "redis_ZREMRANGEBYSCORE key (redis_TIME r - ttl) r"
  have r1: "slots_ok c ?r1" "redis_TIME ?r1 = redis_TIME r" "leases c ?r1 = leases c r" "rd_Clock ?r1 = rd_Clock r"
    using quiet_trim_now [of r "redis_TIME r" c key] ok k by (auto simp: quiet_def redis_simps)
  have run': "(r', result) = (if leases c r key m = None then (?r1, 0) else (stamp key ttl m ?r1, 1))"
    using run trimmed_ZSCORE [OF ok k(1,2) refl, of m] r1(2)
    by (auto simp: refreshOpenAIWSIngressLeaseScript_def Let_def stamp_def split: if_splits)
  then show "slots_ok c r'" "rd_Clock r' = rd_Clock r" "result = 1 \<longleftrightarrow> leases c r key m \<noteq> None"
    "leases c r' = (if result = 1 then (leases c r)(key := (leases c r key)(m \<mapsto> redis_TIME r)) else leases c r)"
    using slots_ok_stamp [OF r1(1) k, of m] leases_stamp [OF r1(1) k, of m] r1 by (auto split: if_splits)
qed

lemma quiet_cleanup:
  assumes "slot_key key" "ttl = key_ttl c key" "0 < ttl"
  shows "quiet c r (fst (cleanupExpiredSlotsScript key ttl r))"
proof -
  let ?r1 = "redis_ZREMRANGEBYSCORE key (redis_TIME r - ttl) r"
  have "quiet c r ?r1" using assms by (simp add: quiet_trim_now)
  moreover have "quiet c ?r1 (fst (cleanupExpiredSlotsScript key ttl r))"
    using assms quiet_DEL_empty [of ?r1 key c] quiet_EXPIRE [of key ttl c ?r1]
    by (auto simp: cleanupExpiredSlotsScript_def Let_def redis_ZCARD_def)
  ultimately show ?thesis by (rule quiet_trans)
qed

text \<open>Leases of live sessions are kept in three sets at once.\<close>

definition stamps :: "string list \<Rightarrow> int \<Rightarrow> string \<Rightarrow> 'z redis_scheme \<Rightarrow> 'z redis_scheme" where
  "stamps ks ttl m r = fold (\<lambda>k. stamp k ttl m) ks r"

definition renew :: "string list \<Rightarrow> string \<Rightarrow> int \<Rightarrow> lease_table \<Rightarrow> lease_table" where
  "renew ks m now L = fold (\<lambda>k L. L(k := (L k)(m \<mapsto> now))) ks L"

lemma renew_at: "renew ks m now L k = (if k \<in> set ks then (L k)(m \<mapsto> now) else L k)"
  unfolding renew_def by (induction ks arbitrary: L) (auto simp: fun_eq_iff)

lemma stamps_effect:
  "slots_ok c r \<Longrightarrow> \<forall>k \<in> set ks. slot_key k \<and> key_ttl c k = ttl \<Longrightarrow>
   slots_ok c (stamps ks ttl m r) \<and> rd_Clock (stamps ks ttl m r) = rd_Clock r \<and>
   leases c (stamps ks ttl m r) = renew ks m (redis_TIME r) (leases c r)"
  unfolding stamps_def renew_def
  by (induction ks arbitrary: r) (auto simp: slots_ok_stamp leases_stamp)

lemma live_acquire_effect:
  fixes r :: "'z redis_scheme" and accountLive userLive apiLive :: string
  defines "ks \<equiv> [accountLive, userLive, apiLive]"
  assumes ok: "slots_ok c r"
    and keys: "\<forall>k \<in> set ks. slot_key k \<and> key_ttl c k = ttl" "distinct ks"
      "slot_key accountRegular" "slot_key userRegular" "accountRegular \<notin> set ks" "userRegular \<notin> set ks"
    and run: "acquireLiveLeaseScript accountRegular accountLive userRegular userLive apiLive
        accountMax userMax ttl m replacing r = (r', result)"
  shows "slots_ok c r' \<and> rd_Clock r' = rd_Clock r" (is ?A)
    and "leases c r' = leases c r \<and> (result = 1 \<longrightarrow> leases c r accountLive m \<noteq> None) \<or>
      leases c r' = renew ks m (redis_TIME r) (leases c r) \<and>
      (accountMax > 0 \<longrightarrow> lease_count c r accountRegular + lease_count c r accountLive
         < accountMax + (if replacing = 1 then 1 else 0)) \<and>
      (userMax > 0 \<longrightarrow> lease_count c r userRegular + lease_count c r userLive
         < userMax + (if replacing = 1 then 1 else 0))" (is ?B)
proof -
  define now where "now = redis_TIME r"
  define trim where "trim = (\<lambda>k :: string. redis_ZREMRANGEBYSCORE k (now - ttl) :: 'z redis_scheme \<Rightarrow> 'z redis_scheme)"
  define r1 r2 r3 where "r1 = trim accountLive r" and "r2 = trim userLive r1" and "r3 = trim apiLive r2"
  have now: "redis_TIME r = now" "redis_TIME r1 = now" "redis_TIME r2 = now" "redis_TIME r3 = now"
    by (simp_all add: r1_def r2_def r3_def trim_def now_def redis_simps)
  have ttl: "ttl = key_ttl c accountLive" "ttl = key_ttl c userLive" "ttl = key_ttl c apiLive"
    using keys(1) by (auto simp: ks_def)
  have "quiet c r r1" unfolding r1_def trim_def ttl(1) by (rule quiet_trim_now [OF now(1)])
  moreover have "quiet c r1 r2" unfolding r2_def trim_def ttl(2) by (rule quiet_trim_now [OF now(2)])
  moreover have "quiet c r2 r3" unfolding r3_def trim_def ttl(3) by (rule quiet_trim_now [OF now(3)])
  ultimately have q: "slots_ok c r1" "slots_ok c r3" "leases c r1 = leases c r" "leases c r3 = leases c r"
      "rd_Clock r3 = rd_Clock r"
    using ok by (simp_all add: quiet_def)
  have dist: "accountLive \<noteq> userLive" "accountLive \<noteq> apiLive" "userLive \<noteq> apiLive"
    using keys(2) by (auto simp: ks_def)
  have score: "redis_ZSCORE accountLive m r3 = leases c r accountLive m"
    using trimmed_ZSCORE [OF ok _ ttl(1) refl, of m] keys(1) dist
    by (simp add: r3_def r2_def r1_def trim_def now_def ks_def redis_simps)
  have counts: "lease_count c r k \<le> redis_ZCARD k r3" if "slot_key k" for k
    using lease_count_le [OF q(2) that] q(4) by (simp add: lease_count_def)
  define r9 where "r9 = redis_EXPIRE apiLive ttl (redis_EXPIRE userLive ttl
      (redis_EXPIRE accountLive ttl (redis_ZADD apiLive now m (redis_ZADD userLive now m
        (redis_ZADD accountLive now m r3)))))"
  have pos: "0 < ttl" using key_ttl_pos [OF ok] ttl(1) by simp
  have eff: "slots_ok c (stamps ks ttl m r3) \<and> rd_Clock (stamps ks ttl m r3) = rd_Clock r3 \<and>
      leases c (stamps ks ttl m r3) = renew ks m (redis_TIME r3) (leases c r3)"
    by (rule stamps_effect [OF q(2) keys(1)])
  have "quiet c (stamps ks ttl m r3) r9"
    by (rule quiet_same)
      (use pos dist now(4) in \<open>auto simp: r9_def stamps_def stamp_def ks_def redis_simps\<close>)
  then have new: "slots_ok c r9" "leases c r9 = renew ks m now (leases c r)" "rd_Clock r9 = rd_Clock r"
    using eff q now by (simp_all add: quiet_def)
  have "(r', result) = (r3, 1) \<and> leases c r accountLive m \<noteq> None \<or> (r', result) = (r3, 0) \<or>
      r' = r9 \<and>
      \<not> (accountMax > 0 \<and> redis_ZCARD accountRegular r3 + redis_ZCARD accountLive r3
           \<ge> accountMax + (if replacing = 1 then 1 else 0)) \<and>
      \<not> (userMax > 0 \<and> redis_ZCARD userRegular r3 + redis_ZCARD userLive r3
           \<ge> userMax + (if replacing = 1 then 1 else 0))"
    using run score unfolding acquireLiveLeaseScript_def Let_def now_def [symmetric]
      trim_def [symmetric, THEN fun_cong] r1_def [symmetric] r2_def [symmetric] r3_def [symmetric]
      r9_def [symmetric]
    by (auto split: if_splits)
  then have cases: "r' = r3 \<and> (result = 1 \<longrightarrow> leases c r accountLive m \<noteq> None) \<or>
      r' = r9 \<and>
      \<not> (accountMax > 0 \<and> redis_ZCARD accountRegular r3 + redis_ZCARD accountLive r3
           \<ge> accountMax + (if replacing = 1 then 1 else 0)) \<and>
      \<not> (userMax > 0 \<and> redis_ZCARD userRegular r3 + redis_ZCARD userLive r3
           \<ge> userMax + (if replacing = 1 then 1 else 0))" by auto
  then show ?A using q new by auto
  have "lease_count c r accountRegular \<le> redis_ZCARD accountRegular r3"
    "lease_count c r accountLive \<le> redis_ZCARD accountLive r3"
    "lease_count c r userRegular \<le> redis_ZCARD userRegular r3"
    "lease_count c r userLive \<le> redis_ZCARD userLive r3"
    using counts keys by (simp_all add: ks_def)
  with cases show ?B using q(4) new(2) now(1)
    by (elim disjE; (intro disjI1; simp; fail)?) (intro disjI2 conjI impI; simp; linarith)
qed

lemma lease_in_all_effect:
  assumes "slots_ok c r" "\<forall>k \<in> set ks. slot_key k \<and> key_ttl c k = ttl"
    "lease_in_all ks (redis_TIME r - ttl) m r = (r', b)"
  shows "quiet c r r' \<and> (b \<longleftrightarrow> (\<forall>k \<in> set ks. leases c r k m \<noteq> None))"
  using assms
proof (induction ks arbitrary: r)
  case (Cons k ks)
  define r1 where "r1 = redis_ZREMRANGEBYSCORE k (redis_TIME r - ttl) r"
  have k: "slot_key k" "ttl = key_ttl c k" using Cons.prems by auto
  have q: "quiet c r r1" unfolding r1_def k(2) by (rule quiet_trim_now) simp
  then have r1: "slots_ok c r1" "leases c r1 = leases c r" "redis_TIME r1 = redis_TIME r"
    using Cons.prems(1) quiet_TIME by (auto simp: quiet_def)
  have score: "redis_ZSCORE k m r1 = leases c r k m"
    unfolding r1_def by (rule trimmed_ZSCORE [OF Cons.prems(1) k refl])
  show ?case
  proof (cases "leases c r k m")
    case None
    then show ?thesis using Cons.prems(3) score q by (auto simp: r1_def [symmetric] Let_def)
  next
    case (Some x)
    then have "lease_in_all ks (redis_TIME r1 - ttl) m r1 = (r', b)"
      using Cons.prems(3) score r1(3) by (simp add: r1_def [symmetric] Let_def)
    from Cons.IH [OF r1(1) _ this] Cons.prems(2) q Some r1(2) show ?thesis
      by (auto intro: quiet_trans)
  qed
qed simp

lemma live_refresh_effect:
  assumes ok: "slots_ok c r" and keys: "\<forall>k \<in> set ks. slot_key k \<and> key_ttl c k = ttl"
    and run: "refreshLiveLeaseScript ks ttl m r = (r', result)"
  shows "slots_ok c r' \<and> rd_Clock r' = rd_Clock r \<and>
    (result = 1 \<longleftrightarrow> (\<forall>k \<in> set ks. leases c r k m \<noteq> None)) \<and>
    leases c r' = (if result = 1 then renew ks m (redis_TIME r) (leases c r) else leases c r)"
proof -
  obtain r1 b where all: "lease_in_all ks (redis_TIME r - ttl) m r = (r1, b)" by fastforce
  then have q: "quiet c r r1" "b \<longleftrightarrow> (\<forall>k \<in> set ks. leases c r k m \<noteq> None)"
    using lease_in_all_effect [OF ok keys] by auto
  have r1: "slots_ok c r1" "leases c r1 = leases c r" "redis_TIME r1 = redis_TIME r" "rd_Clock r1 = rd_Clock r"
    using q(1) ok quiet_TIME by (auto simp: quiet_def)
  have fold: "fold (\<lambda>key r. redis_EXPIRE key ttl (redis_ZADD key (redis_TIME r1) m r)) ks r0 = stamps ks ttl m r0"
    if "redis_TIME r0 = redis_TIME r1" for r0 :: "'a redis_scheme"
    using that unfolding stamps_def
  proof (induction ks arbitrary: r0)
    case (Cons k ks)
    have "redis_EXPIRE k ttl (redis_ZADD k (redis_TIME r1) m r0) = stamp k ttl m r0"
      using Cons.prems by (simp add: stamp_def)
    with Cons.IH [of "stamp k ttl m r0"] Cons.prems show ?case by simp
  qed simp
  show ?thesis
  proof (cases b)
    case True
    then have "r' = stamps ks ttl m r1" "result = 1"
      using run all fold [OF refl] r1(3) by (simp_all add: refreshLiveLeaseScript_def Let_def)
    with stamps_effect [OF r1(1) keys] q True r1 show ?thesis by auto
  next
    case False
    then have "r' = r1" "result = 0" using run all by (simp_all add: refreshLiveLeaseScript_def Let_def)
    with q False r1 show ?thesis by auto
  qed
qed

end
