(* ===== verification/ConcurrencyService.thy ===== *)
theory ConcurrencyService
  imports ConcurrencyLeases OwnedPrograms
begin

text \<open>
  \<^verbatim>\<open>backend/internal/service/concurrency_service.go\<close> and its callers: the helper of the handlers
  (\<^verbatim>\<open>backend/internal/handler/gateway_helper.go\<close>), the wait plan of an account
  (\<^verbatim>\<open>gateway_handler.go\<close>), WebSocket connections and live sessions
  (\<^verbatim>\<open>backend/internal/service/openai_live.go\<close>). A release closure is the datatype
  \<open>release_func\<close> with \<open>run_release\<close> to call it. What a \<^verbatim>\<open>select\<close> finds ready, turn after turn, is a list
  of events; choices made elsewhere, such as the account, are arguments.

  The store is Redis with the request counter of each process. Two fields are bookkeeping that no
  code reads: who drew a request id and when, and which requests are being served, with the second
  at which their slot was last known to be theirs. The clock of a process is the server's.
\<close>

record gateway = redis +
  gw_Counters :: "string \<Rightarrow> nat"
  gw_Issued :: "string \<rightharpoonup> nat \<times> int"
  gw_Serving :: "(string \<times> string \<times> int) list"

text \<open>A goroutine: the request it handles and the prefix of its process.\<close>

record worker =
  wk_Request :: nat
  wk_Prefix :: string

section \<open>Request ids\<close>

text \<open>\<open>random\<close> is the number the eight random bytes, or the fallback, make up.\<close>

definition initRequestIDPrefix :: "nat \<Rightarrow> string" where
  "initRequestIDPrefix random = ''r'' @ FormatUint 36 random"

definition generateRequestID :: "worker \<Rightarrow> (string \<Rightarrow> (gateway, 'a) prog) \<Rightarrow> (gateway, 'a) prog" where
  "generateRequestID w k = local_step (\<lambda>s.
     let seq = Suc (gw_Counters s (wk_Prefix w));
         requestID = wk_Prefix w @ ''-'' @ FormatUint 36 seq
     in (s\<lparr>gw_Counters := (gw_Counters s)(wk_Prefix w := seq),
           gw_Issued := (gw_Issued s)(requestID \<mapsto> (wk_Request w, redis_TIME s))\<rparr>, requestID)) k"

section \<open>Slots\<close>

datatype release_func =
    NoRelease
  | ReleaseAccount int string
  | ReleaseUser int string
  | AndAPIKey release_func "(int \<times> string) option"

record AcquireResult =
  ar_Acquired :: bool
  ar_ReleaseFunc :: "release_func option"

primrec run_release :: "concurrencyCache \<Rightarrow> release_func \<Rightarrow> (gateway, unit) prog" where
  "run_release c NoRelease = Return ()"
| "run_release c (ReleaseAccount accountID requestID) =
     bindP (ReleaseAccountSlot c accountID requestID) (\<lambda>_. Return ())"
| "run_release c (ReleaseUser userID requestID) =
     bindP (ReleaseUserSlot c userID requestID) (\<lambda>_. Return ())"
| "run_release c (AndAPIKey f k) =
     bindP (run_release c f) (\<lambda>_. case k of
       None \<Rightarrow> Return ()
     | Some (apiKeyID, requestID) \<Rightarrow> bindP (ReleaseAPIKeySlot c apiKeyID requestID) (\<lambda>_. Return ()))"

definition service_AcquireAccountSlot ::
  "concurrencyCache \<Rightarrow> worker \<Rightarrow> int \<Rightarrow> int \<Rightarrow> (gateway, AcquireResult option) prog" where
  "service_AcquireAccountSlot c w accountID maxConcurrency =
     (if maxConcurrency \<le> 0 then Return (Some \<lparr>ar_Acquired = True, ar_ReleaseFunc = Some NoRelease\<rparr>)
      else generateRequestID w (\<lambda>requestID.
        bindP (AcquireAccountSlot c accountID maxConcurrency requestID) (\<lambda>x. Return
          (case x of
             None \<Rightarrow> None
           | Some True \<Rightarrow>
               Some \<lparr>ar_Acquired = True, ar_ReleaseFunc = Some (ReleaseAccount accountID requestID)\<rparr>
           | Some False \<Rightarrow> Some \<lparr>ar_Acquired = False, ar_ReleaseFunc = None\<rparr>))))"

definition service_AcquireUserSlot ::
  "concurrencyCache \<Rightarrow> worker \<Rightarrow> int \<Rightarrow> int \<Rightarrow> (gateway, AcquireResult option) prog" where
  "service_AcquireUserSlot c w userID maxConcurrency =
     (if maxConcurrency \<le> 0 then Return (Some \<lparr>ar_Acquired = True, ar_ReleaseFunc = Some NoRelease\<rparr>)
      else generateRequestID w (\<lambda>requestID.
        bindP (AcquireUserSlot c userID maxConcurrency requestID) (\<lambda>x. Return
          (case x of
             None \<Rightarrow> None
           | Some True \<Rightarrow>
               Some \<lparr>ar_Acquired = True, ar_ReleaseFunc = Some (ReleaseUser userID requestID)\<rparr>
           | Some False \<Rightarrow> Some \<lparr>ar_Acquired = False, ar_ReleaseFunc = None\<rparr>))))"

text \<open>\<^const>\<open>None\<close> is the release function that does nothing.\<close>

definition service_TrackAPIKeySlot ::
  "concurrencyCache \<Rightarrow> worker \<Rightarrow> int \<Rightarrow> (gateway, (int \<times> string) option) prog" where
  "service_TrackAPIKeySlot c w apiKeyID =
     (if apiKeyID \<le> 0 then Return None
      else generateRequestID w (\<lambda>requestID.
        bindP (TrackAPIKeySlot c apiKeyID requestID) (\<lambda>x. Return
          (case x of None \<Rightarrow> None | Some _ \<Rightarrow> Some (apiKeyID, requestID)))))"

section \<open>Waiting\<close>

definition defaultExtraWaitSlots :: int where "defaultExtraWaitSlots = 20"

definition CalculateMaxWait :: "int \<Rightarrow> int" where
  "CalculateMaxWait userConcurrency =
     (if userConcurrency \<le> 0 then 1 else userConcurrency) + defaultExtraWaitSlots"

text \<open>An error lets the request through; the service never returns one.\<close>

definition service_IncrementWaitCount :: "concurrencyCache \<Rightarrow> int \<Rightarrow> int \<Rightarrow> (gateway, bool) prog" where
  "service_IncrementWaitCount c userID maxWait =
     bindP (IncrementWaitCount c userID maxWait) (\<lambda>x. Return (case x of None \<Rightarrow> True | Some b \<Rightarrow> b))"

definition service_DecrementWaitCount :: "concurrencyCache \<Rightarrow> int \<Rightarrow> (gateway, unit) prog" where
  "service_DecrementWaitCount c userID = bindP (DecrementWaitCount c userID) (\<lambda>_. Return ())"

definition service_IncrementAccountWaitCount :: "concurrencyCache \<Rightarrow> int \<Rightarrow> int \<Rightarrow> (gateway, bool) prog" where
  "service_IncrementAccountWaitCount c accountID maxWait =
     bindP (IncrementAccountWaitCount c accountID maxWait) (\<lambda>x. Return (case x of None \<Rightarrow> True | Some b \<Rightarrow> b))"

definition service_DecrementAccountWaitCount :: "concurrencyCache \<Rightarrow> int \<Rightarrow> (gateway, unit) prog" where
  "service_DecrementAccountWaitCount c accountID =
     bindP (DecrementAccountWaitCount c accountID) (\<lambda>_. Return ())"

section \<open>The helper of the handlers\<close>

datatype slot_type = UserSlot | AccountSlot

datatype helper_error =
    CacheError
  | ContextError
  | ConcurrencyTimeout slot_type
  | PingWriteError
  | WaitQueueFullError slot_type

definition acquire_result ::
  "AcquireResult option \<Rightarrow> helper_error + release_func option" where
  "acquire_result x =
     (case x of
        None \<Rightarrow> Inl CacheError
      | Some result \<Rightarrow> if ar_Acquired result then Inr (ar_ReleaseFunc result) else Inr None)"

text \<open>\<open>Inr None\<close>: not acquired.\<close>

definition TryAcquireUserSlot ::
  "concurrencyCache \<Rightarrow> worker \<Rightarrow> int \<Rightarrow> int \<Rightarrow> (gateway, helper_error + release_func option) prog" where
  "TryAcquireUserSlot c w userID maxConcurrency =
     bindP (service_AcquireUserSlot c w userID maxConcurrency) (\<lambda>x. Return (acquire_result x))"

definition TryAcquireAccountSlot ::
  "concurrencyCache \<Rightarrow> worker \<Rightarrow> int \<Rightarrow> int \<Rightarrow> (gateway, helper_error + release_func option) prog" where
  "TryAcquireAccountSlot c w accountID maxConcurrency =
     bindP (service_AcquireAccountSlot c w accountID maxConcurrency) (\<lambda>x. Return (acquire_result x))"

definition withAPIKeySlot ::
  "concurrencyCache \<Rightarrow> worker \<Rightarrow> int option \<Rightarrow> release_func \<Rightarrow> (gateway, release_func) prog" where
  "withAPIKeySlot c w apiKeyID releaseFunc =
     (case apiKeyID of
        None \<Rightarrow> Return releaseFunc
      | Some a \<Rightarrow>
          (if a \<le> 0 then Return releaseFunc
           else bindP (service_TrackAPIKeySlot c w a) (\<lambda>k. Return (AndAPIKey releaseFunc k))))"

definition TryAcquireUserSlotForAPIKey ::
  "concurrencyCache \<Rightarrow> worker \<Rightarrow> int \<Rightarrow> int \<Rightarrow> int \<Rightarrow>
   (gateway, helper_error + release_func option) prog" where
  "TryAcquireUserSlotForAPIKey c w userID maxConcurrency apiKeyID =
     bindP (TryAcquireUserSlot c w userID maxConcurrency) (\<lambda>x. case x of
       Inr (Some f) \<Rightarrow> bindP (withAPIKeySlot c w (Some apiKeyID) f) (\<lambda>f'. Return (Inr (Some f')))
     | _ \<Rightarrow> Return x)"

text \<open>
  What the \<^verbatim>\<open>select\<close> of the waiting loop finds: the context of the request or the timeout has
  ended, a ping is due and can or cannot be written (a writer that cannot stream counts as the
  latter), the backoff is over. With no event left
  the timeout has come.
\<close>

datatype wait_event = RequestDone | WaitTimeout | PingDue bool | BackoffOver

definition acquire_slot ::
  "concurrencyCache \<Rightarrow> worker \<Rightarrow> slot_type \<Rightarrow> int \<Rightarrow> int \<Rightarrow> (gateway, AcquireResult option) prog" where
  "acquire_slot c w slotType i maxConcurrency =
     (case slotType of
        UserSlot \<Rightarrow> service_AcquireUserSlot c w i maxConcurrency
      | AccountSlot \<Rightarrow> service_AcquireAccountSlot c w i maxConcurrency)"

fun wait_loop ::
  "concurrencyCache \<Rightarrow> worker \<Rightarrow> slot_type \<Rightarrow> int \<Rightarrow> int \<Rightarrow> wait_event list \<Rightarrow>
   (gateway, helper_error + release_func) prog" where
  "wait_loop c w slotType i maxConcurrency [] = Return (Inl (ConcurrencyTimeout slotType))"
| "wait_loop c w slotType i maxConcurrency (RequestDone # es) = Return (Inl ContextError)"
| "wait_loop c w slotType i maxConcurrency (WaitTimeout # es) = Return (Inl (ConcurrencyTimeout slotType))"
| "wait_loop c w slotType i maxConcurrency (PingDue written # es) =
     (if written then wait_loop c w slotType i maxConcurrency es else Return (Inl PingWriteError))"
| "wait_loop c w slotType i maxConcurrency (BackoffOver # es) =
     bindP (acquire_slot c w slotType i maxConcurrency) (\<lambda>x. case acquire_result x of
       Inl e \<Rightarrow> Return (Inl e)
     | Inr (Some f) \<Rightarrow> Return (Inr f)
     | Inr None \<Rightarrow> wait_loop c w slotType i maxConcurrency es)"

definition waitForSlotWithPingTimeout ::
  "concurrencyCache \<Rightarrow> worker \<Rightarrow> slot_type \<Rightarrow> int \<Rightarrow> int \<Rightarrow> bool \<Rightarrow> wait_event list \<Rightarrow>
   (gateway, helper_error + release_func) prog" where
  "waitForSlotWithPingTimeout c w slotType i maxConcurrency tryImmediate events =
     (if tryImmediate then
        bindP (acquire_slot c w slotType i maxConcurrency) (\<lambda>x. case acquire_result x of
          Inl e \<Rightarrow> Return (Inl e)
        | Inr (Some f) \<Rightarrow> Return (Inr f)
        | Inr None \<Rightarrow> wait_loop c w slotType i maxConcurrency events)
      else wait_loop c w slotType i maxConcurrency events)"

definition acquireUserSlotWithWaitTimeout ::
  "concurrencyCache \<Rightarrow> worker \<Rightarrow> int option \<Rightarrow> int \<Rightarrow> int \<Rightarrow> wait_event list \<Rightarrow>
   (gateway, helper_error + release_func) prog" where
  "acquireUserSlotWithWaitTimeout c w apiKey userID maxConcurrency events =
     bindP (TryAcquireUserSlot c w userID maxConcurrency) (\<lambda>x. case x of
       Inl e \<Rightarrow> Return (Inl e)
     | Inr (Some f) \<Rightarrow> bindP (withAPIKeySlot c w apiKey f) (\<lambda>f'. Return (Inr f'))
     | Inr None \<Rightarrow>
         let queueLimit = CalculateMaxWait maxConcurrency - maxConcurrency
         in bindP (service_IncrementWaitCount c userID (if queueLimit < 1 then 1 else queueLimit)) (\<lambda>canWait.
              if \<not> canWait then Return (Inl (WaitQueueFullError UserSlot))
              else bindP (waitForSlotWithPingTimeout c w UserSlot userID maxConcurrency False events) (\<lambda>y.
                bindP (case y of
                    Inl e \<Rightarrow> Return (Inl e)
                  | Inr f \<Rightarrow> bindP (withAPIKeySlot c w apiKey f) (\<lambda>f'. Return (Inr f'))) (\<lambda>z.
                  bindP (service_DecrementWaitCount c userID) (\<lambda>_. Return z)))))"

section \<open>Accounts\<close>

text \<open>
  The account the scheduler picks, with the slot it tries to take at once, and the wait plan it
  falls back to: the bound of the queue, the concurrency, and what happens while waiting.
\<close>

record account_choice =
  ch_Account :: int
  ch_Concurrency :: int
  ch_WaitPlan :: "(int \<times> int \<times> wait_event list) option"

text \<open>\<open>Inl None\<close>: no slot and no plan to wait for one.\<close>

definition account_slot ::
  "concurrencyCache \<Rightarrow> worker \<Rightarrow> account_choice \<Rightarrow> (gateway, helper_error option + release_func) prog" where
  "account_slot c w ch =
     bindP (service_AcquireAccountSlot c w (ch_Account ch) (ch_Concurrency ch)) (\<lambda>x.
       case acquire_result x of
         Inr (Some f) \<Rightarrow> Return (Inr f)
       | _ \<Rightarrow>
           (case ch_WaitPlan ch of
              None \<Rightarrow> Return (Inl None)
            | Some (maxWaiting, maxConcurrency, events) \<Rightarrow>
                bindP (service_IncrementAccountWaitCount c (ch_Account ch) maxWaiting) (\<lambda>canWait.
                  if \<not> canWait then Return (Inl (Some (WaitQueueFullError AccountSlot)))
                  else bindP (waitForSlotWithPingTimeout c w AccountSlot (ch_Account ch) maxConcurrency True events)
                    (\<lambda>y. bindP (service_DecrementAccountWaitCount c (ch_Account ch)) (\<lambda>_.
                       Return (case y of Inl e \<Rightarrow> Inl (Some e) | Inr f \<Rightarrow> Inr f))))))"

section \<open>Being served\<close>

text \<open>The slot a release function gives back.\<close>

primrec occupied :: "release_func \<Rightarrow> (string \<times> string) option" where
  "occupied NoRelease = None"
| "occupied (ReleaseAccount accountID requestID) = Some (accountSlotKey accountID, requestID)"
| "occupied (ReleaseUser userID requestID) = Some (userSlotKey userID, requestID)"
| "occupied (AndAPIKey f k) = occupied f"

text \<open>Bookkeeping: a request starts, goes on and stops being served under a slot.\<close>

definition serve_from :: "(string \<times> string) option \<Rightarrow> (unit \<Rightarrow> (gateway, 'a) prog) \<Rightarrow> (gateway, 'a) prog" where
  "serve_from slot k = local_step (\<lambda>s. case slot of
       None \<Rightarrow> (s, ())
     | Some (key, i) \<Rightarrow>
         (s\<lparr>gw_Serving := (key, i, case gw_Issued s i of None \<Rightarrow> 0 | Some (_, t) \<Rightarrow> t) # gw_Serving s\<rparr>, ())) k"

definition served_until :: "(string \<times> string) option \<Rightarrow> (unit \<Rightarrow> (gateway, 'a) prog) \<Rightarrow> (gateway, 'a) prog" where
  "served_until slot k = local_step (\<lambda>s. case slot of
       None \<Rightarrow> (s, ())
     | Some (key, i) \<Rightarrow>
         (s\<lparr>gw_Serving := filter (\<lambda>(key', i', _). (key', i') \<noteq> (key, i)) (gw_Serving s)\<rparr>, ())) k"

definition confirmed_at ::
  "string \<Rightarrow> string \<Rightarrow> int \<Rightarrow> (unit \<Rightarrow> (gateway, 'a) prog) \<Rightarrow> (gateway, 'a) prog" where
  "confirmed_at key i t k = local_step (\<lambda>s.
     (s\<lparr>gw_Serving := map (\<lambda>(key', i', t'). (key', i', if (key', i') = (key, i) then t else t'))
                        (gw_Serving s)\<rparr>, ())) k"

text \<open>
  A request at one account after another until one serves it to the end; what each upstream
  call ends in is the order of the list.
\<close>

fun serve_accounts :: "concurrencyCache \<Rightarrow> worker \<Rightarrow> account_choice list \<Rightarrow> (gateway, unit) prog" where
  "serve_accounts c w [] = Return ()"
| "serve_accounts c w (ch # chs) =
     bindP (account_slot c w ch) (\<lambda>x. case x of
       Inl _ \<Rightarrow> Return ()
     | Inr f \<Rightarrow>
         serve_from (occupied f) (\<lambda>_. served_until (occupied f) (\<lambda>_.
           bindP (run_release c f) (\<lambda>_. serve_accounts c w chs))))"

record gateway_call =
  gc_User :: int
  gc_UserConcurrency :: int
  gc_APIKey :: "int option"
  gc_Waiting :: "wait_event list"
  gc_Accounts :: "account_choice list"

definition gateway_request :: "concurrencyCache \<Rightarrow> worker \<Rightarrow> gateway_call \<Rightarrow> (gateway, unit) prog" where
  "gateway_request c w q =
     bindP (acquireUserSlotWithWaitTimeout c w (gc_APIKey q) (gc_User q) (gc_UserConcurrency q) (gc_Waiting q))
       (\<lambda>x. case x of
          Inl _ \<Rightarrow> Return ()
        | Inr f \<Rightarrow>
            serve_from (occupied f) (\<lambda>_.
              bindP (serve_accounts c w (gc_Accounts q)) (\<lambda>_.
                served_until (occupied f) (\<lambda>_. run_release c f))))"

section \<open>WebSocket connections\<close>

definition openAIWSIngressLeaseTTL :: int where "openAIWSIngressLeaseTTL = 60 * 1000"

text \<open>\<open>Inl\<close>: the service cannot say. \<open>Inr None\<close>: no lease is needed; \<open>Inr (Some (_, False))\<close>: full.\<close>

definition service_AcquireOpenAIWSIngressLease ::
  "concurrencyCache \<Rightarrow> worker \<Rightarrow> int \<Rightarrow> int \<Rightarrow> (gateway, unit + (string \<times> bool) option) prog" where
  "service_AcquireOpenAIWSIngressLease c w apiKeyID maxConnections =
     (if maxConnections \<le> 0 then Return (Inr None)
      else if apiKeyID \<le> 0 then Return (Inl ())
      else generateRequestID w (\<lambda>leaseID.
        bindP (AcquireOpenAIWSIngressLease c apiKeyID maxConnections leaseID) (\<lambda>x. Return
          (case x of None \<Rightarrow> Inl () | Some acquired \<Rightarrow> Inr (Some (leaseID, acquired))))))"

text \<open>\<^verbatim>\<open>refresh\<close>: the new time of confirmation, and whether the lease is lost.\<close>

definition lease_refresh ::
  "concurrencyCache \<Rightarrow> int \<Rightarrow> string \<Rightarrow> int \<Rightarrow> (gateway, int \<times> bool) prog" where
  "lease_refresh c apiKeyID leaseID lastConfirmedAt =
     look redis_TIME (\<lambda>before.
       bindP (RefreshOpenAIWSIngressLease c apiKeyID leaseID) (\<lambda>x. case x of
         Some True \<Rightarrow>
           confirmed_at (openAIWSIngressLeaseKey apiKeyID) leaseID before (\<lambda>_.
             look rd_Clock (\<lambda>now. Return (now, False)))
       | Some False \<Rightarrow> Return (lastConfirmedAt, True)
       | None \<Rightarrow>
           look rd_Clock (\<lambda>now. Return (lastConfirmedAt, now - lastConfirmedAt \<ge> openAIWSIngressLeaseTTL))))"

text \<open>The refresh loop, as long as its ticker fires; it ends when the connection does.\<close>

primrec refreshLoop ::
  "concurrencyCache \<Rightarrow> int \<Rightarrow> string \<Rightarrow> nat \<Rightarrow> int \<Rightarrow> (gateway, unit) prog" where
  "refreshLoop c apiKeyID leaseID 0 lastConfirmedAt = Return ()"
| "refreshLoop c apiKeyID leaseID (Suc ticks) lastConfirmedAt =
     bindP (lease_refresh c apiKeyID leaseID lastConfirmedAt) (\<lambda>(confirmed, lost).
       if lost then Return () else refreshLoop c apiKeyID leaseID ticks confirmed)"

definition ws_connection ::
  "concurrencyCache \<Rightarrow> worker \<Rightarrow> int \<Rightarrow> int \<Rightarrow> nat \<Rightarrow> (gateway, unit) prog" where
  "ws_connection c w apiKeyID maxConnections ticks =
     bindP (service_AcquireOpenAIWSIngressLease c w apiKeyID maxConnections) (\<lambda>x. case x of
       Inr (Some (leaseID, True)) \<Rightarrow>
         serve_from (Some (openAIWSIngressLeaseKey apiKeyID, leaseID)) (\<lambda>_.
           look rd_Clock (\<lambda>now.
             bindP (refreshLoop c apiKeyID leaseID ticks now) (\<lambda>_.
               served_until (Some (openAIWSIngressLeaseKey apiKeyID, leaseID)) (\<lambda>_.
                 bindP (ReleaseOpenAIWSIngressLease c apiKeyID leaseID) (\<lambda>_. Return ())))))
     | _ \<Rightarrow> Return ())"

section \<open>Live sessions\<close>

text \<open>
  One attempt of \<^verbatim>\<open>CreateLiveCall\<close>: the account the scheduler picks, whether the upstream call is
  created, whether its failure moves on to another account, and whether its record can be stored.
\<close>

record live_choice =
  lc_Account :: int
  lc_Concurrency :: int
  lc_Created :: bool
  lc_Failover :: bool
  lc_Saved :: bool

fun live_attempts ::
  "concurrencyCache \<Rightarrow> worker \<Rightarrow> int \<Rightarrow> int \<Rightarrow> int \<Rightarrow> live_choice list \<Rightarrow>
   (gateway, (int \<times> string) option) prog" where
  "live_attempts c w userID userMax apiKeyID [] = Return None"
| "live_attempts c w userID userMax apiKeyID (ch # chs) =
     bindP (service_AcquireAccountSlot c w (lc_Account ch) (lc_Concurrency ch)) (\<lambda>x.
       case acquire_result x of
         Inr (Some f) \<Rightarrow>
           generateRequestID w (\<lambda>leaseID.
             bindP (AcquireLiveLease c (lc_Account ch) (lc_Concurrency ch) userID userMax apiKeyID leaseID True)
               (\<lambda>y. bindP (run_release c f) (\<lambda>_.
                  if y \<noteq> Some True then Return None
                  else if lc_Created ch \<and> lc_Saved ch then Return (Some (lc_Account ch, leaseID))
                  else bindP (ReleaseLiveLease c (lc_Account ch) userID apiKeyID leaseID) (\<lambda>_.
                    if \<not> lc_Created ch \<and> lc_Failover ch
                    then live_attempts c w userID userMax apiKeyID chs else Return None))))
       | _ \<Rightarrow> Return None)"

definition CreateLiveCall ::
  "concurrencyCache \<Rightarrow> worker \<Rightarrow> int \<Rightarrow> int \<Rightarrow> int \<Rightarrow> live_choice list \<Rightarrow>
   (gateway, (int \<times> string) option) prog" where
  "CreateLiveCall c w userID userMax apiKeyID chs = live_attempts c w userID userMax apiKeyID (take 4 chs)"

text \<open>The refresh ticks of the controller or observer, until the session ends or a refresh fails.\<close>

primrec live_refreshes ::
  "concurrencyCache \<Rightarrow> int \<Rightarrow> int \<Rightarrow> int \<Rightarrow> string \<Rightarrow> nat \<Rightarrow> (gateway, unit) prog" where
  "live_refreshes c accountID userID apiKeyID leaseID 0 = Return ()"
| "live_refreshes c accountID userID apiKeyID leaseID (Suc ticks) =
     look redis_TIME (\<lambda>before.
       bindP (RefreshLiveLease c accountID userID apiKeyID leaseID) (\<lambda>x.
         if x = Some True then
           confirmed_at (liveAccountSlotKey accountID) leaseID before (\<lambda>_.
             confirmed_at (liveUserSlotKey userID) leaseID before (\<lambda>_.
               live_refreshes c accountID userID apiKeyID leaseID ticks))
         else Return ()))"

definition live_session ::
  "concurrencyCache \<Rightarrow> int \<Rightarrow> int \<Rightarrow> int \<Rightarrow> string \<Rightarrow> nat \<Rightarrow> (gateway, unit) prog" where
  "live_session c accountID userID apiKeyID leaseID ticks =
     serve_from (Some (liveAccountSlotKey accountID, leaseID)) (\<lambda>_.
       serve_from (Some (liveUserSlotKey userID, leaseID)) (\<lambda>_.
         bindP (live_refreshes c accountID userID apiKeyID leaseID ticks) (\<lambda>_.
           served_until (Some (liveAccountSlotKey accountID, leaseID)) (\<lambda>_.
             served_until (Some (liveUserSlotKey userID, leaseID)) (\<lambda>_.
               bindP (ReleaseLiveLease c accountID userID apiKeyID leaseID) (\<lambda>_. Return ()))))))"

definition live_call ::
  "concurrencyCache \<Rightarrow> worker \<Rightarrow> int \<Rightarrow> int \<Rightarrow> int \<Rightarrow> live_choice list \<Rightarrow> nat \<Rightarrow> (gateway, unit) prog" where
  "live_call c w userID userMax apiKeyID chs ticks =
     bindP (TryAcquireUserSlot c w userID userMax) (\<lambda>x. case x of
       Inr (Some f) \<Rightarrow>
         bindP (CreateLiveCall c w userID userMax apiKeyID chs) (\<lambda>created.
           bindP (run_release c f) (\<lambda>_. case created of
             None \<Rightarrow> Return ()
           | Some (accountID, leaseID) \<Rightarrow> live_session c accountID userID apiKeyID leaseID ticks))
     | _ \<Rightarrow> Return ())"

end
