(* ===== verification/ConcurrencyInvariant.thy ===== *)
theory ConcurrencyInvariant
  imports ConcurrencyService
begin

text \<open>
  What the programs of \<^verbatim>\<open>ConcurrencyService\<close> share: the invariant \<open>gate_inv\<close> of the store, what a
  request relies on from the others (its own ids stay as they are, but for leases that run out),
  and the interpretation of \<open>team\<close>. A step that leaves every id alone is \<open>public\<close>; a program of
  such steps may run anywhere.
\<close>

section \<open>Limits and the invariant\<close>

text \<open>The limits of accounts, users, connections and queues; zero or less is no limit.\<close>

record limits =
  lm_account :: "int \<Rightarrow> int"
  lm_user :: "int \<Rightarrow> int"
  lm_ingress :: "int \<Rightarrow> int"
  lm_waiting :: "int \<Rightarrow> int"

definition held :: "lease_table \<Rightarrow> string \<Rightarrow> int" where
  "held L k = int (card (dom (L k)))"

definition within :: "limits \<Rightarrow> lease_table \<Rightarrow> bool" where
  "within lim L \<longleftrightarrow> (\<forall>k. finite (dom (L k))) \<and>
     (\<forall>a. 0 < lm_account lim a \<longrightarrow> held L (accountSlotKey a) \<le> lm_account lim a \<and>
        held L (accountSlotKey a) + held L (liveAccountSlotKey a) \<le> lm_account lim a + 1) \<and>
     (\<forall>u. 0 < lm_user lim u \<longrightarrow> held L (userSlotKey u) \<le> lm_user lim u \<and>
        held L (userSlotKey u) + held L (liveUserSlotKey u) \<le> lm_user lim u + 1) \<and>
     (\<forall>a. 0 < lm_ingress lim a \<longrightarrow> held L (openAIWSIngressLeaseKey a) \<le> lm_ingress lim a)"

definition queues_ok :: "limits \<Rightarrow> 'z redis_scheme \<Rightarrow> bool" where
  "queues_ok lim s \<longleftrightarrow>
     (\<forall>u v. redis_GET (waitQueueKey u) s = Some v \<longrightarrow> 0 \<le> v \<and> v \<le> defaultExtraWaitSlots) \<and>
     (\<forall>a v. redis_GET (accountWaitKey a) s = Some v \<longrightarrow> 0 \<le> v \<and> v \<le> lm_waiting lim a)"

definition process_prefix :: "string \<Rightarrow> bool" where
  "process_prefix p \<longleftrightarrow> (\<exists>n. p = initRequestIDPrefix n)"

definition ids_ok :: "gateway \<Rightarrow> bool" where
  "ids_ok s \<longleftrightarrow> (\<forall>i r t. gw_Issued s i = Some (r, t) \<longrightarrow> t \<le> redis_TIME s \<and>
     (\<exists>p n. process_prefix p \<and> i = p @ ''-'' @ FormatUint 36 n \<and> n \<le> gw_Counters s p))"

definition serving_ok :: "concurrencyCache \<Rightarrow> gateway \<Rightarrow> bool" where
  "serving_ok c s \<longleftrightarrow> distinct (map (\<lambda>(k, i, _). (k, i)) (gw_Serving s)) \<and>
     (\<forall>(k, i, t) \<in> set (gw_Serving s). slot_key k \<and> gw_Issued s i \<noteq> None \<and>
        (redis_TIME s < t + key_ttl c k \<longrightarrow> (\<exists>sc \<ge> t. leases c s k i = Some sc)))"

definition issued_ok :: "concurrencyCache \<Rightarrow> gateway \<Rightarrow> bool" where
  "issued_ok c s \<longleftrightarrow> (\<forall>k i. leases c s k i \<noteq> None \<longrightarrow> gw_Issued s i \<noteq> None)"

definition gate_inv :: "concurrencyCache \<Rightarrow> limits \<Rightarrow> gateway \<Rightarrow> bool" where
  "gate_inv c lim s \<longleftrightarrow> 0 < cc_waitQueueTTLSeconds c \<and> slots_ok c s \<and> within lim (leases c s) \<and>
     queues_ok lim s \<and> ids_ok s \<and> issued_ok c s \<and> serving_ok c s"

section \<open>Ids and their owners\<close>

definition unchanged :: "concurrencyCache \<Rightarrow> string \<Rightarrow> gateway \<Rightarrow> gateway \<Rightarrow> bool" where
  "unchanged c i s t \<longleftrightarrow> gw_Issued t i = gw_Issued s i \<and>
     (\<forall>k x. (k, i, x) \<in> set (gw_Serving t) \<longleftrightarrow> (k, i, x) \<in> set (gw_Serving s)) \<and>
     (\<forall>k. leases c t k i = leases c s k i \<or>
        leases c t k i = None \<and> (\<exists>sc. leases c s k i = Some sc \<and> sc + key_ttl c k \<le> redis_TIME t))"

definition mine :: "nat \<Rightarrow> string \<Rightarrow> gateway \<Rightarrow> bool" where
  "mine r i s \<longleftrightarrow> (\<exists>t. gw_Issued s i = Some (r, t))"

definition gate_rely :: "concurrencyCache \<Rightarrow> nat \<Rightarrow> gateway \<Rightarrow> gateway \<Rightarrow> bool" where
  "gate_rely c r s t \<longleftrightarrow> rd_Clock s \<le> rd_Clock t \<and>
     (\<forall>i. mine r i s \<or> mine r i t \<longrightarrow> unchanged c i s t)"

definition gate_guar :: "concurrencyCache \<Rightarrow> nat \<Rightarrow> gateway \<Rightarrow> gateway \<Rightarrow> bool" where
  "gate_guar c r s t \<longleftrightarrow> (\<forall>r'. r' \<noteq> r \<longrightarrow> gate_rely c r' s t)"

definition gate_idle :: "nat \<Rightarrow> gateway \<Rightarrow> bool" where
  "gate_idle r s \<longleftrightarrow> (\<forall>i. \<not> mine r i s)"

lemma TIME_mono: "rd_Clock s \<le> rd_Clock t \<Longrightarrow> redis_TIME s \<le> redis_TIME t"
  by (simp add: redis_TIME_def zdiv_mono1)

lemma unchanged_refl [simp]: "unchanged c i s s"
  by (auto simp: unchanged_def)

lemma unchanged_lease:
  "unchanged c i s t \<Longrightarrow> leases c s k i = Some sc \<Longrightarrow> redis_TIME t < sc + key_ttl c k \<Longrightarrow>
   leases c t k i = Some sc"
  unfolding unchanged_def by (metis not_less option.inject)

lemma unchanged_none: "unchanged c i s t \<Longrightarrow> leases c s k i = None \<Longrightarrow> leases c t k i = None"
  unfolding unchanged_def by metis

lemma unchanged_trans:
  "unchanged c i s t \<Longrightarrow> unchanged c i t u \<Longrightarrow> rd_Clock t \<le> rd_Clock u \<Longrightarrow> unchanged c i s u"
proof -
  assume st: "unchanged c i s t" and tu: "unchanged c i t u" and clock: "rd_Clock t \<le> rd_Clock u"
  have "leases c u k i = leases c s k i \<or>
      leases c u k i = None \<and> (\<exists>sc. leases c s k i = Some sc \<and> sc + key_ttl c k \<le> redis_TIME u)" for k
  proof (cases "leases c t k i = leases c s k i")
    case True
    with tu show ?thesis unfolding unchanged_def by metis
  next
    case False
    then have "leases c t k i = None" "\<exists>sc. leases c s k i = Some sc \<and> sc + key_ttl c k \<le> redis_TIME t"
      using st unfolding unchanged_def by blast+
    with unchanged_none [OF tu, of k] TIME_mono [OF clock] show ?thesis by force
  qed
  with st tu show ?thesis by (simp add: unchanged_def)
qed

lemma unchanged_mine: "unchanged c i s t \<Longrightarrow> mine r i t = mine r i s"
  by (simp add: unchanged_def mine_def)

lemma gate_rely_refl [simp]: "gate_rely c r s s"
  by (simp add: gate_rely_def)

lemma gate_rely_trans: "gate_rely c r s t \<Longrightarrow> gate_rely c r t u \<Longrightarrow> gate_rely c r s u"
  unfolding gate_rely_def using unchanged_trans unchanged_mine by (smt (verit, best))

lemma gate_guar_refl [simp]: "gate_guar c r s s"
  by (simp add: gate_guar_def)

interpretation gate: team "gate_rely c" "gate_guar c" "gate_inv c lim" gate_idle for c lim
proof
  show "gate_rely c r s s" for r s by simp
  show "gate_rely c r s t \<Longrightarrow> gate_rely c r t u \<Longrightarrow> gate_rely c r s u" for r s t u
    by (rule gate_rely_trans)
  show "r \<noteq> j \<Longrightarrow> gate_guar c r s t \<Longrightarrow> gate_rely c j s t" for r j s t
    by (auto simp: gate_guar_def)
  show "gate_idle r s \<Longrightarrow> gate_rely c r s t \<Longrightarrow> gate_idle r t" for r s t
    unfolding gate_idle_def gate_rely_def using unchanged_mine by blast
qed

abbreviation gate_acts ::
  "concurrencyCache \<Rightarrow> limits \<Rightarrow> nat \<Rightarrow> ('a \<Rightarrow> gateway \<Rightarrow> bool) \<Rightarrow> (gateway, 'a) prog \<Rightarrow> gateway \<Rightarrow> bool" where
  "gate_acts c lim r \<equiv> guarded (gate_rely c r) (gate_guar c r) (gate_inv c lim)"

section \<open>Fields the commands leave alone\<close>

lemma gw_put_zset [simp]:
  "gw_Counters (put_zset k z s) = gw_Counters s" "gw_Issued (put_zset k z s) = gw_Issued s"
  "gw_Serving (put_zset k z s) = gw_Serving s"
  by (simp_all add: put_zset_def)

lemma gw_commands [simp]:
  "gw_Counters (redis_ZADD k x m s) = gw_Counters s" "gw_Issued (redis_ZADD k x m s) = gw_Issued s"
  "gw_Serving (redis_ZADD k x m s) = gw_Serving s"
  "gw_Counters (redis_ZREM k m s) = gw_Counters s" "gw_Issued (redis_ZREM k m s) = gw_Issued s"
  "gw_Serving (redis_ZREM k m s) = gw_Serving s"
  "gw_Counters (redis_ZREMRANGEBYSCORE k x s) = gw_Counters s"
  "gw_Issued (redis_ZREMRANGEBYSCORE k x s) = gw_Issued s"
  "gw_Serving (redis_ZREMRANGEBYSCORE k x s) = gw_Serving s"
  "gw_Counters (redis_INCRBY k x s) = gw_Counters s" "gw_Issued (redis_INCRBY k x s) = gw_Issued s"
  "gw_Serving (redis_INCRBY k x s) = gw_Serving s"
  "gw_Counters (redis_DEL k s) = gw_Counters s" "gw_Issued (redis_DEL k s) = gw_Issued s"
  "gw_Serving (redis_DEL k s) = gw_Serving s"
  "gw_Counters (redis_EXPIRE k x s) = gw_Counters s" "gw_Issued (redis_EXPIRE k x s) = gw_Issued s"
  "gw_Serving (redis_EXPIRE k x s) = gw_Serving s"
  "gw_Counters (redis_wait n s) = gw_Counters s" "gw_Issued (redis_wait n s) = gw_Issued s"
  "gw_Serving (redis_wait n s) = gw_Serving s"
  by (simp_all add: redis_ZADD_def redis_ZREM_def redis_ZREMRANGEBYSCORE_def redis_INCRBY_def
      redis_DEL_def redis_EXPIRE_def redis_wait_def Let_def)

definition same_books :: "gateway \<Rightarrow> gateway \<Rightarrow> bool" where
  "same_books s t \<longleftrightarrow> gw_Counters t = gw_Counters s \<and> gw_Issued t = gw_Issued s \<and> gw_Serving t = gw_Serving s"

lemma books_commands [simp]:
  "same_books s s" "same_books s (redis_ZADD k x m s)" "same_books s (redis_ZREM k m s)"
  "same_books s (redis_ZREMRANGEBYSCORE k x s)" "same_books s (redis_INCRBY k x s)"
  "same_books s (redis_DEL k s)" "same_books s (redis_EXPIRE k x s)" "same_books s (redis_wait n s)"
  by (simp_all add: same_books_def)

text \<open>Redis fields do not see the books, nor the books of another request.\<close>

lemma redis_books [simp]:
  "redis_TIME (s\<lparr>gw_Counters := a, gw_Issued := b\<rparr>) = redis_TIME s"
  "redis_TIME (s\<lparr>gw_Serving := x\<rparr>) = redis_TIME s"
  "redis_GET k (s\<lparr>gw_Counters := a, gw_Issued := b\<rparr>) = redis_GET k s"
  "redis_GET k (s\<lparr>gw_Serving := x\<rparr>) = redis_GET k s"
  "members (s\<lparr>gw_Counters := a, gw_Issued := b\<rparr>) k = members s k"
  "members (s\<lparr>gw_Serving := x\<rparr>) k = members s k"
  "expiry (s\<lparr>gw_Counters := a, gw_Issued := b\<rparr>) k = expiry s k"
  "expiry (s\<lparr>gw_Serving := x\<rparr>) k = expiry s k"
  by (simp_all add: redis_TIME_def redis_GET_def counter_at_def expired_def members_def expiry_def
      zset_at_def cong: option.case_cong)

lemma leases_books [simp]:
  "leases c (s\<lparr>gw_Counters := a, gw_Issued := b\<rparr>) = leases c s" "leases c (s\<lparr>gw_Serving := x\<rparr>) = leases c s"
  "slots_ok c (s\<lparr>gw_Counters := a, gw_Issued := b\<rparr>) = slots_ok c s" "slots_ok c (s\<lparr>gw_Serving := x\<rparr>) = slots_ok c s"
  by (simp_all add: leases_def fun_eq_iff slots_ok_def slot_ok_def)

section \<open>Public steps\<close>

definition public_step :: "concurrencyCache \<Rightarrow> gateway \<Rightarrow> gateway \<Rightarrow> bool" where
  "public_step c s t \<longleftrightarrow> rd_Clock s \<le> rd_Clock t \<and> (\<forall>i. unchanged c i s t)"

lemma public_rely: "public_step c s t \<Longrightarrow> gate_rely c r s t"
  by (simp add: public_step_def gate_rely_def)

lemma public_guar: "public_step c s t \<Longrightarrow> gate_guar c r s t"
  by (simp add: gate_guar_def public_rely)

lemma public_refl [simp]: "public_step c s s"
  by (simp add: public_step_def)

text \<open>A public step that keeps the invariant.\<close>

definition good_step :: "concurrencyCache \<Rightarrow> limits \<Rightarrow> gateway \<Rightarrow> gateway \<Rightarrow> bool" where
  "good_step c lim s t \<longleftrightarrow> public_step c s t \<and> gate_inv c lim t"

lemma good_step_refl: "gate_inv c lim s \<Longrightarrow> good_step c lim s s"
  by (simp add: good_step_def)

text \<open>Nothing but the sets of leases and the counters is touched, and no lease is.\<close>

lemma quiet_public:
  assumes "quiet c s t" "same_books s t" "slots_ok c s"
  shows "public_step c s t"
proof -
  have "unchanged c i s t" for i
    using assms unfolding unchanged_def quiet_def same_books_def by auto
  with assms(1) show ?thesis by (simp add: public_step_def quiet_def)
qed

lemma quiet_inv:
  assumes inv: "gate_inv c lim s" and quiet: "quiet c s t" "same_books s t" and queues: "queues_ok lim t"
  shows "gate_inv c lim t"
proof -
  have T: "redis_TIME t = redis_TIME s" by (rule quiet_TIME [OF quiet(1)])
  have L: "slots_ok c t" "leases c t = leases c s" using inv quiet(1) by (simp_all add: gate_inv_def quiet_def)
  show ?thesis using inv L T quiet(2) queues
    by (simp add: gate_inv_def ids_ok_def issued_ok_def serving_ok_def same_books_def)
qed

lemma queues_same: "queues_ok lim s \<Longrightarrow> (\<And>k. redis_GET k t = redis_GET k s) \<Longrightarrow> queues_ok lim t"
  by (simp add: queues_ok_def)

lemma inv_slots: "gate_inv c lim s \<Longrightarrow> slots_ok c s"
  by (simp add: gate_inv_def)

lemma inv_ttl: "gate_inv c lim s \<Longrightarrow> 0 < cc_slotTTLSeconds c \<and> 0 < cc_waitQueueTTLSeconds c"
  by (simp add: gate_inv_def slots_ok_def)

lemma quiet_good:
  "gate_inv c lim s \<Longrightarrow> quiet c s t \<Longrightarrow> same_books s t \<Longrightarrow> queues_ok lim t \<Longrightarrow> good_step c lim s t"
  by (simp add: good_step_def quiet_public inv_slots quiet_inv)

text \<open>A change that leaves the queues alone and no lease notices.\<close>

definition harmless :: "concurrencyCache \<Rightarrow> (gateway \<Rightarrow> gateway) \<Rightarrow> bool" where
  "harmless c f \<longleftrightarrow> (\<forall>s. quiet c s (f s) \<and> same_books s (f s) \<and> (\<forall>k. redis_GET k (f s) = redis_GET k s))"

lemma harmless_keeps:
  "harmless c f \<Longrightarrow> gate_inv c lim s \<Longrightarrow> good_step c lim s (f s)"
  unfolding harmless_def by (meson quiet_good queues_same gate_inv_def)

section \<open>Public programs\<close>

text \<open>
  Every step of such a program is public and keeps the invariant, wherever it runs, from second
  \<open>T\<close> on; what it has read of the clock is then in the past.
\<close>

primrec public_prog :: "concurrencyCache \<Rightarrow> limits \<Rightarrow> (gateway, 'a) prog \<Rightarrow> int \<Rightarrow> bool" where
  "public_prog c lim (Return a) = (\<lambda>T. True)"
| "public_prog c lim (Atomic f) = (\<lambda>T. \<forall>r s. gate_inv c lim s \<longrightarrow> T \<le> redis_TIME s \<longrightarrow>
     public_step c s (fst (f r s)) \<and> gate_inv c lim (fst (f r s)) \<and>
     snd (map_prod id (public_prog c lim) (f r s)) (redis_TIME s))"

lemma public_Atomic:
  "public_prog c lim (Atomic f) T \<longleftrightarrow> (\<forall>r s. gate_inv c lim s \<longrightarrow> T \<le> redis_TIME s \<longrightarrow>
     public_step c s (fst (f r s)) \<and> gate_inv c lim (fst (f r s)) \<and>
     public_prog c lim (snd (f r s)) (redis_TIME s))"
  by simp

declare public_prog.simps(2) [simp del]

lemma public_later: "public_prog c lim p T \<Longrightarrow> T \<le> T' \<Longrightarrow> public_prog c lim p T'"
  by (cases p) (auto simp: public_Atomic)

lemma acts_public_from:
  assumes "public_prog c lim p T" "T \<le> redis_TIME s" "P s" "\<And>s t. P s \<Longrightarrow> gate_rely c r s t \<Longrightarrow> P t"
  shows "gate_acts c lim r (\<lambda>_. P) p s"
  using assms(1-3)
proof (induction p arbitrary: s T)
  case (Atomic f)
  show ?case
  proof (rule gate.acts_AtomicI)
    fix t a u q assume t: "gate_rely c r s t" "gate_inv c lim t" "f a t = (u, q)"
    have q: "q \<in> Basic_BNFs.snds (f a t)" using t(3) by (simp add: snds.simps)
    have T: "T \<le> redis_TIME t" using Atomic.prems(2) t(1) TIME_mono [of s t] by (simp add: gate_rely_def)
    have u: "public_step c t u" "gate_inv c lim u" "public_prog c lim q (redis_TIME t)"
      using Atomic.prems(1) [unfolded public_Atomic, rule_format, OF t(2) T, of a] t(3) by simp_all
    have "P u" using assms(4) Atomic.prems(3) t(1) public_rely [OF u(1)] by blast
    moreover have "redis_TIME t \<le> redis_TIME u" using u(1) TIME_mono [of t u] by (simp add: public_step_def)
    ultimately show "gate_guar c r t u \<and> gate_inv c lim u \<and> gate_acts c lim r (\<lambda>_. P) q u"
      using u Atomic.IH [OF rangeI rangeI q u(3)] public_guar by blast
  qed
qed simp

lemmas acts_public = acts_public_from [OF _ order_refl]

lemma public_call:
  "(\<And>s. gate_inv c lim s \<Longrightarrow> T \<le> redis_TIME s \<Longrightarrow> good_step c lim s (fst (f s))) \<Longrightarrow>
   (\<And>x T'. T \<le> T' \<Longrightarrow> public_prog c lim (k x) T') \<Longrightarrow> public_prog c lim (call f k) T"
  unfolding call_def public_Atomic good_step_def by (auto split: reply.splits)

lemma public_sent:
  "(\<And>s. gate_inv c lim s \<Longrightarrow> T \<le> redis_TIME s \<Longrightarrow> good_step c lim s (fst (f s))) \<Longrightarrow>
   (\<And>x T'. T \<le> T' \<Longrightarrow> public_prog c lim (k x) T') \<Longrightarrow> public_prog c lim (sent n f k) T"
proof (induction n arbitrary: T)
  case (Suc n)
  have "public_prog c lim (sent n f k) T'" if "T \<le> T'" for T'
    by (rule Suc.IH) (use Suc.prems that in \<open>auto intro: order_trans\<close>)
  then show ?case unfolding sent.simps
    by (intro public_call Suc.prems) (auto split: option.split intro: Suc.prems)
qed (simp add: public_call)

lemma public_harmless:
  "harmless c (\<lambda>s. fst (f s)) \<Longrightarrow> (\<And>x T'. T \<le> T' \<Longrightarrow> public_prog c lim (k x) T') \<Longrightarrow>
   public_prog c lim (sent n f k) T"
  by (rule public_sent) (use harmless_keeps in blast)+

lemma public_read:
  "(\<And>x T'. T \<le> T' \<Longrightarrow> public_prog c lim (k x) T') \<Longrightarrow> public_prog c lim (sent n (\<lambda>r. (r, g r)) k) T"
  by (rule public_sent) (simp_all add: good_step_refl)

text \<open>Reading the clock: what is read is not later than what follows.\<close>

lemma public_read_TIME:
  "(\<And>T'. T \<le> T' \<Longrightarrow> public_prog c lim (k None) T') \<Longrightarrow>
   (\<And>now. T \<le> now \<Longrightarrow> public_prog c lim (k (Some now)) now) \<Longrightarrow>
   public_prog c lim (sent n (\<lambda>r. (r, redis_TIME r)) k) T"
proof (induction n arbitrary: T)
  case 0
  then show ?case unfolding sent.simps call_def public_Atomic by (auto split: reply.splits)
next
  case (Suc n)
  have "public_prog c lim (sent n (\<lambda>r. (r, redis_TIME r)) k) T'" if "T \<le> T'" for T'
    by (rule Suc.IH) (use Suc.prems that in \<open>auto intro: order_trans\<close>)
  then show ?case using Suc.prems unfolding sent.simps call_def public_Atomic by (auto split: reply.splits)
qed

lemma public_redisUnixSeconds:
  "(\<And>T'. T \<le> T' \<Longrightarrow> public_prog c lim (k None) T') \<Longrightarrow>
   (\<And>now. T \<le> now \<Longrightarrow> public_prog c lim (k (Some now)) now) \<Longrightarrow>
   public_prog c lim (redisUnixSeconds c k) T"
  unfolding redisUnixSeconds_def by (rule public_read_TIME)

lemma public_look: "(\<And>x T'. T \<le> T' \<Longrightarrow> public_prog c lim (k x) T') \<Longrightarrow> public_prog c lim (look f k) T"
  unfolding look_def public_Atomic by simp

lemma public_bindP:
  "public_prog c lim p T \<Longrightarrow> (\<And>x T'. T \<le> T' \<Longrightarrow> public_prog c lim (k x) T') \<Longrightarrow>
   public_prog c lim (bindP p k) T"
proof (induction p arbitrary: T)
  case (Atomic f)
  show ?case unfolding bindP.simps public_Atomic
  proof (intro allI impI)
    fix r s assume s: "gate_inv c lim s" "T \<le> redis_TIME s"
    have "snd (f r s) \<in> Basic_BNFs.snds (f r s)" by (simp add: snds.simps)
    note IH = Atomic.IH [OF rangeI rangeI this]
    have p: "public_step c s (fst (f r s))" "gate_inv c lim (fst (f r s))"
        "public_prog c lim (snd (f r s)) (redis_TIME s)"
      using Atomic.prems(1) s unfolding public_Atomic by blast+
    then show "public_step c s (fst (map_prod id (\<lambda>p. bindP p k) (f r s))) \<and>
        gate_inv c lim (fst (map_prod id (\<lambda>p. bindP p k) (f r s))) \<and>
        public_prog c lim (snd (map_prod id (\<lambda>p. bindP p k) (f r s))) (redis_TIME s)"
      using IH [OF p(3)] Atomic.prems(2) s(2) by simp
  qed
qed simp

lemma public_pipeline:
  "(\<And>f s. f \<in> set fs \<Longrightarrow> gate_inv c lim s \<Longrightarrow> T \<le> redis_TIME s \<Longrightarrow>
      good_step c lim s (fst (f s))) \<Longrightarrow>
   (\<And>x T'. T \<le> T' \<Longrightarrow> public_prog c lim (k x) T') \<Longrightarrow> public_prog c lim (pipeline c' fs k) T"
proof (induction fs arbitrary: k T)
  case (Cons f fs)
  show ?case unfolding pipeline.simps
  proof (rule public_sent)
    fix x T' assume T': "T \<le> T'"
    show "public_prog c lim (pipeline c' fs
        (\<lambda>xs. k (case x of None \<Rightarrow> None | Some v \<Rightarrow> map_option ((#) v) xs))) T'"
      by (rule Cons.IH) (use Cons.prems T' in \<open>auto intro: order_trans\<close>)
  qed (use Cons.prems in auto)
qed simp

end
