(* ===== verification/ConcurrencyPrograms.thy ===== *)
theory ConcurrencyPrograms
  imports ConcurrencyInvariant
begin

text \<open>
  The programs of \<^verbatim>\<open>ConcurrencyService\<close> under the contract of \<^verbatim>\<open>ConcurrencyInvariant\<close>: index upkeep,
  load queries, waiting counters and the cleanup worker are public; taking, keeping and giving
  back slots and leases is done with ids of one's own.
\<close>

section \<open>Public commands\<close>

lemma step_trim:
  "gate_inv c lim s \<Longrightarrow> T \<le> redis_TIME s \<Longrightarrow> hi + key_ttl c k \<le> T \<Longrightarrow>
     good_step c lim s (redis_ZREMRANGEBYSCORE k hi s)"
  using quiet_trim [of hi c k s]
  by (auto simp: redis_simps gate_inv_def intro!: quiet_good queues_same [of lim s])

lemma harmless_other:
  assumes "\<not> slot_key k"
  shows "harmless c (redis_ZADD k x m)" "harmless c (redis_ZREM k m)"
  using assms by (simp_all add: harmless_def quiet_other_key redis_simps)

lemma harmless_comp: "harmless c f \<Longrightarrow> harmless c g \<Longrightarrow> harmless c (\<lambda>s. g (f s))"
  unfolding harmless_def same_books_def using quiet_trans by (smt (verit, best))

lemma harmless_fold: "(\<And>x. x \<in> set xs \<Longrightarrow> harmless c (f x)) \<Longrightarrow> harmless c (fold f xs)"
proof (induction xs)
  case Nil
  show ?case by (simp add: harmless_def)
next
  case (Cons x xs)
  have "harmless c (\<lambda>s. fold f xs (f x s))" by (rule harmless_comp) (use Cons in auto)
  then show ?case by (simp add: comp_def)
qed

lemma step_count:
  "gate_inv c lim s \<Longrightarrow> good_step c lim s (fst (cmd_ZCard k s))"
  "gate_inv c lim s \<Longrightarrow> good_step c lim s (fst (cmd_Get k s))"
  by (simp_all add: cmd_ZCard_def cmd_Get_def good_step_refl)

lemma step_cmd_trim:
  "gate_inv c lim s \<Longrightarrow> T \<le> redis_TIME s \<Longrightarrow> hi + key_ttl c k \<le> T \<Longrightarrow>
     good_step c lim s (fst (cmd_ZRemRangeByScore k hi s))"
  by (simp add: cmd_ZRemRangeByScore_def step_trim)

lemmas step_cmds = step_count step_cmd_trim

section \<open>Indices and load\<close>

definition index_key :: "string \<Rightarrow> bool" where
  "index_key k \<longleftrightarrow> k = accountActiveIndexKey \<or> k = userActiveIndexKey"

lemma index_keys [simp]: "index_key accountActiveIndexKey" "index_key userActiveIndexKey"
  by (simp_all add: index_key_def)

lemma index_not_slot: "index_key k \<Longrightarrow> \<not> slot_key k"
  by (auto simp: index_key_def)

lemma public_touch [simp]: "index_key k \<Longrightarrow> public_prog c lim (touchActiveIndexAt c k i e) T"
  using harmless_other(1) [OF index_not_slot]
  by (auto simp: touchActiveIndexAt_def intro!: public_harmless)

lemma public_readActiveLoad:
  assumes "key_ttl c slotKey = cc_slotTTLSeconds c" "now \<le> T"
  shows "public_prog c lim (readActiveLoadForKey c i slotKey waitKey now) T"
  unfolding readActiveLoadForKey_def
  by (rule public_pipeline) (use assms in \<open>auto intro!: step_cmds split: list.splits option.splits\<close>)

lemma public_refreshActiveIndex:
  assumes "index_key k" "key_ttl c slotKey = cc_slotTTLSeconds c"
  shows "public_prog c lim (refreshActiveIndex c k i slotKey waitKey) T"
proof -
  have load: "public_prog c lim (readActiveLoadForKey c i slotKey waitKey now) now" for now
    by (rule public_readActiveLoad [OF assms(2)]) simp
  show ?thesis unfolding refreshActiveIndex_def
    using assms harmless_other(2) [OF index_not_slot [OF assms(1)]]
    by (auto intro!: public_redisUnixSeconds public_bindP [OF load] public_harmless simp: Let_def split: option.split)
qed

lemma public_refresh_indices [simp]:
  "public_prog c lim (refreshAccountActiveIndex c i) T" "public_prog c lim (refreshUserActiveIndex c i) T"
  by (simp_all add: refreshAccountActiveIndex_def refreshUserActiveIndex_def public_refreshActiveIndex)

lemma step_getCount:
  assumes inv: "gate_inv c lim s" and "slot_key key" "slot_key liveKey" "liveKey \<noteq> key"
    "key_ttl c key = cc_slotTTLSeconds c" "key_ttl c liveKey = 60"
  shows "good_step c lim s (fst (getCountScript key liveKey (cc_slotTTLSeconds c) s))"
proof -
  have q: "quiet c s (fst (getCountScript key liveKey (cc_slotTTLSeconds c) s))"
    by (rule getCountScript_effect(1) [OF inv_slots [OF inv]]) (use assms in simp_all)
  have b: "same_books s (fst (getCountScript key liveKey (cc_slotTTLSeconds c) s))"
    by (simp add: getCountScript_def Let_def same_books_def)
  have "queues_ok lim (fst (getCountScript key liveKey (cc_slotTTLSeconds c) s))"
    by (rule queues_same [of lim s]) (use inv in \<open>simp_all add: gate_inv_def getCountScript_def Let_def redis_simps\<close>)
  then show ?thesis by (rule quiet_good [OF inv q b])
qed

lemma public_GetConcurrency [simp]:
  "public_prog c lim (GetAccountConcurrency c i) T" "public_prog c lim (GetUserConcurrency c i) T"
  "public_prog c lim (GetAccountWaitingCount c i) T"
  by (auto simp: GetAccountConcurrency_def GetUserConcurrency_def GetAccountWaitingCount_def cmd_Get_def
      intro!: public_sent step_getCount good_step_refl)

lemma step_count_commands:
  assumes "f \<in> set (count_commands slotKey liveKey (cc_slotTTLSeconds c) now)" "gate_inv c lim s"
    "now \<le> redis_TIME s" "key_ttl c slotKey = cc_slotTTLSeconds c" "key_ttl c liveKey = 60"
  shows "good_step c lim s (fst (f s))"
  using assms by (auto simp: count_commands_def liveLeaseTTLSeconds_def intro!: step_cmds)

lemma public_ConcurrencyBatch:
  assumes "\<And>i. key_ttl c (slotKey i) = cc_slotTTLSeconds c" "\<And>i. key_ttl c (liveKey i) = 60"
  shows "public_prog c lim (ConcurrencyBatch slotKey liveKey c ids) T"
proof -
  have step: "good_step c lim s (fst (f s))"
    if "f \<in> set (concat (map (\<lambda>i. count_commands (slotKey i) (liveKey i) (cc_slotTTLSeconds c) now) ids))"
      "gate_inv c lim s" "now \<le> redis_TIME s" for f s now
    using that(1) by (auto intro: step_count_commands [OF _ that(2,3) assms])
  show ?thesis unfolding ConcurrencyBatch_def
    by (auto intro!: public_redisUnixSeconds public_pipeline step simp del: set_concat)
qed

lemma public_LoadBatch:
  assumes "\<And>i. key_ttl c (slotKey i) = cc_slotTTLSeconds c" "\<And>i. key_ttl c (liveKey i) = 60"
  shows "public_prog c lim (LoadBatch slotKey liveKey waitKey c as) T"
proof -
  have step: "good_step c lim s (fst (f s))"
    if "f \<in> set (concat (map (\<lambda>a. count_commands (slotKey (wc_ID a)) (liveKey (wc_ID a))
        (cc_slotTTLSeconds c) now @ [cmd_Get (waitKey (wc_ID a))]) as))"
      "gate_inv c lim s" "now \<le> redis_TIME s" for f s now
    using that(1) by (auto intro: step_count_commands [OF _ that(2,3) assms] step_count(2) [OF that(2)])
  show ?thesis unfolding LoadBatch_def
    by (auto intro!: public_redisUnixSeconds public_pipeline step simp del: set_concat)
qed

lemma public_loads [simp]:
  "public_prog c lim (GetAccountConcurrencyBatch c ids) T" "public_prog c lim (GetAPIKeyConcurrencyBatch c ids) T"
  "public_prog c lim (GetAccountsLoadBatch c as) T" "public_prog c lim (GetUsersLoadBatch c as) T"
  by (simp_all add: GetAccountConcurrencyBatch_def GetAPIKeyConcurrencyBatch_def GetAccountsLoadBatch_def
      GetUsersLoadBatch_def public_ConcurrencyBatch public_LoadBatch)

section \<open>The cleanup worker\<close>

lemma public_read_chunks:
  assumes "\<And>i. key_ttl c (si_slotKey spec i) = cc_slotTTLSeconds c"
  shows "cutoff + cc_slotTTLSeconds c \<le> T \<Longrightarrow> public_prog c lim (read_chunks c spec cutoff chunks loads) T"
proof (induction chunks arbitrary: loads T)
  case (Cons chunk chunks)
  show ?case unfolding read_chunks.simps
    using assms Cons by (auto intro!: public_pipeline step_cmds split: option.split)
qed simp

lemma public_reconcile:
  assumes "index_key (si_indexKey spec)" "\<And>i. key_ttl c (si_slotKey spec i) = cc_slotTTLSeconds c"
  shows "public_prog c lim (reconcileExpiredIndexCandidates c spec) T"
proof -
  have not_slot: "\<not> slot_key (si_indexKey spec)" by (rule index_not_slot [OF assms(1)])
  have read: "public_prog c lim (readIndexLoads c spec ms now) T'" if "now \<le> T'" for ms now T'
    unfolding readIndexLoads_def Let_def using that assms(2)
    by (auto intro!: public_bindP public_read_chunks)
  have add: "public_prog c lim (addActiveIndexMembers c (si_indexKey spec) zs) T'" for zs T'
    unfolding addActiveIndexMembers_def
    using not_slot by (auto intro!: public_harmless harmless_fold harmless_other)
  have rem: "public_prog c lim (removeActiveIndexMembers c (si_indexKey spec) ms) T'" for ms T'
    unfolding removeActiveIndexMembers_def
    using not_slot by (auto intro!: public_harmless harmless_fold harmless_other)
  show ?thesis unfolding reconcileExpiredIndexCandidates_def Let_def
    by (auto intro!: public_redisUnixSeconds public_read public_bindP read add rem split: option.split prod.split)
qed

lemma public_cleanup [simp]:
  "public_prog c lim (CleanupExpiredAccountSlotKeys c) T" "public_prog c lim (CleanupExpiredAccountSlots c i) T"
proof -
  show "public_prog c lim (CleanupExpiredAccountSlotKeys c) T"
    unfolding CleanupExpiredAccountSlotKeys_def
    by (auto intro!: public_bindP public_reconcile simp: accountSlotIndex_def userSlotIndex_def split: option.split)
  have step: "good_step c lim s (fst (cleanupExpiredSlotsScript (accountSlotKey i) (cc_slotTTLSeconds c) s))"
    (is "good_step c lim s ?t") if inv: "gate_inv c lim s" for s
  proof -
    have pos: "0 < cc_slotTTLSeconds c" using inv_ttl [OF inv] by simp
    have q: "quiet c s ?t" using pos by (intro quiet_cleanup) simp_all
    have b: "same_books s ?t" by (simp add: cleanupExpiredSlotsScript_def Let_def same_books_def)
    have k: "accountSlotKey i \<noteq> waitQueueKey u" "accountSlotKey i \<noteq> accountWaitKey u" for u
      by (simp_all add: key_defs)
    have "queues_ok lim ?t"
      using inv pos k by (auto simp: gate_inv_def queues_ok_def cleanupExpiredSlotsScript_def Let_def redis_simps
          split: if_splits)
    then show ?thesis by (rule quiet_good [OF inv q b])
  qed
  show "public_prog c lim (CleanupExpiredAccountSlots c i) T"
    unfolding CleanupExpiredAccountSlots_def
    by (auto intro!: public_sent public_bindP step split: option.split)
qed

section \<open>Waiting counters\<close>

lemma wait_not_slot [simp]: "\<not> slot_key (waitQueueKey u)" "\<not> slot_key (accountWaitKey u)"
  by (simp_all add: slot_key_def key_defs has_prefix_def)

lemma step_counter:
  assumes inv: "gate_inv c lim s" and k: "\<not> slot_key k" and ttl: "0 < ttl"
    and v: "\<And>k'. redis_GET k' t = redis_GET k' (redis_INCRBY k d s)" "queues_ok lim (redis_INCRBY k d s)"
    and t: "t = redis_INCRBY k d s \<or> t = redis_EXPIRE k ttl (redis_INCRBY k d s)"
  shows "good_step c lim s t"
proof -
  have q: "quiet c s t" using t quiet_trans [OF quiet_counters(2) quiet_other_key(4) [OF k ttl]] by auto
  have b: "same_books s t" using t by (auto simp: same_books_def)
  have "queues_ok lim t" by (rule queues_same [OF v(2,1)])
  then show ?thesis by (rule quiet_good [OF inv q b])
qed

lemma step_increment:
  assumes inv: "gate_inv c lim s" and key: "key = waitQueueKey i \<and> maxWait \<le> defaultExtraWaitSlots \<or>
      key = accountWaitKey i \<and> maxWait \<le> lm_waiting lim i"
  shows "good_step c lim s (fst (incrementWaitScript key maxWait (cc_waitQueueTTLSeconds c) s))"
proof (cases "count_of (redis_GET key s) \<ge> maxWait")
  case True
  then show ?thesis using inv by (simp add: incrementWaitScript_def Let_def count_of_def good_step_refl)
next
  case False
  have ttl: "0 < cc_waitQueueTTLSeconds c" using inv_ttl [OF inv] by simp
  have t: "fst (incrementWaitScript key maxWait (cc_waitQueueTTLSeconds c) s) =
      redis_EXPIRE key (cc_waitQueueTTLSeconds c) (redis_INCRBY key 1 s)"
    using False by (simp add: incrementWaitScript_def Let_def count_of_def)
  have "0 \<le> count_of (redis_GET key s)"
    using inv key by (auto simp: gate_inv_def queues_ok_def count_of_def split: option.split)
  then have "queues_ok lim (redis_INCRBY key 1 s)"
    using inv key False by (auto simp: gate_inv_def queues_ok_def redis_simps count_of_def)
  then show ?thesis unfolding t
    by (intro step_counter [OF inv _ ttl]) (use key ttl in \<open>auto simp: redis_simps\<close>)
qed

lemma incrementAccountWaitScript_eq: "incrementAccountWaitScript = incrementWaitScript"
  by (simp add: fun_eq_iff incrementAccountWaitScript_def incrementWaitScript_def)

lemma step_decrement:
  assumes inv: "gate_inv c lim s" and key: "key = waitQueueKey i \<or> key = accountWaitKey i"
  shows "good_step c lim s (fst (decrementWaitScript key s))"
proof (cases "\<exists>v. redis_GET key s = Some v \<and> v > 0")
  case False
  then have "fst (decrementWaitScript key s) = s" by (auto simp: decrementWaitScript_def split: option.split)
  with inv show ?thesis by (simp add: good_step_refl)
next
  case True
  then have t: "fst (decrementWaitScript key s) = redis_INCRBY key (-1) s"
    by (auto simp: decrementWaitScript_def)
  have "queues_ok lim (redis_INCRBY key (-1) s)"
    using inv key True by (fastforce simp: gate_inv_def queues_ok_def redis_simps)
  then show ?thesis unfolding t
    by (intro step_counter [OF inv, where ttl = 1]) (use key in auto)
qed

lemma public_waits [simp]:
  "maxWait \<le> defaultExtraWaitSlots \<Longrightarrow> public_prog c lim (service_IncrementWaitCount c u maxWait) T"
  "public_prog c lim (service_DecrementWaitCount c u) T"
  "maxWait \<le> lm_waiting lim a \<Longrightarrow> public_prog c lim (service_IncrementAccountWaitCount c a maxWait) T"
  "public_prog c lim (service_DecrementAccountWaitCount c a) T"
  unfolding service_IncrementWaitCount_def service_DecrementWaitCount_def service_IncrementAccountWaitCount_def
    service_DecrementAccountWaitCount_def IncrementWaitCount_def DecrementWaitCount_def
    IncrementAccountWaitCount_def DecrementAccountWaitCount_def incrementAccountWaitScript_eq
  by (auto intro!: public_bindP public_sent step_increment step_decrement split: option.split)

end
