(* ===== verification/ConcurrencyHolding.thy ===== *)
theory ConcurrencyHolding
  imports ConcurrencyPrograms
begin

text \<open>
  Steps a request takes with its own ids: drawing one, taking, renewing and giving back a slot,
  and being served. A \<open>frame\<close> is what is known of other ids of the same request meanwhile.
\<close>

section \<open>Frames\<close>

definition frames :: "concurrencyCache \<Rightarrow> nat \<Rightarrow> string set \<Rightarrow> (gateway \<Rightarrow> bool) \<Rightarrow> bool" where
  "frames c r Y F \<longleftrightarrow> (\<forall>s. F s \<longrightarrow> (\<forall>i \<in> Y. mine r i s)) \<and>
     (\<forall>s t. F s \<longrightarrow> rd_Clock s \<le> rd_Clock t \<longrightarrow> (\<forall>i \<in> Y. unchanged c i s t) \<longrightarrow> F t)"

lemma frames_True [simp]: "frames c r {} (\<lambda>_. True)"
  by (simp add: frames_def)

lemma frames_conj: "frames c r Y F \<Longrightarrow> frames c r Z G \<Longrightarrow> frames c r (Y \<union> Z) (\<lambda>s. F s \<and> G s)"
  unfolding frames_def by blast

lemma frames_mine: "frames c r Y F \<Longrightarrow> F s \<Longrightarrow> i \<in> Y \<Longrightarrow> mine r i s"
  unfolding frames_def by blast

lemma frames_keep:
  "frames c r Y F \<Longrightarrow> F s \<Longrightarrow> rd_Clock s \<le> rd_Clock t \<Longrightarrow> (\<And>i. i \<in> Y \<Longrightarrow> unchanged c i s t) \<Longrightarrow> F t"
  unfolding frames_def by blast

lemma frames_rely:
  assumes "frames c r Y F" "F s" "gate_rely c r s t" shows "F t"
  using assms(1,2) by (rule frames_keep) (use assms(3) frames_mine [OF assms(1,2)] in \<open>auto simp: gate_rely_def\<close>)

lemma acts_public_frame:
  assumes "public_prog c lim p (redis_TIME s)" "frames c r Y F" "F s"
  shows "gate_acts c lim r (\<lambda>_. F) p s"
  using assms(1,3) by (rule acts_public) (rule frames_rely [OF assms(2)])

lemma frames_public: "frames c r Y F \<Longrightarrow> F s \<Longrightarrow> public_step c s t \<Longrightarrow> F t"
  using frames_rely public_rely by blast

text \<open>A step that touches one id only, one of the request's own.\<close>

definition own_step :: "concurrencyCache \<Rightarrow> nat \<Rightarrow> string \<Rightarrow> gateway \<Rightarrow> gateway \<Rightarrow> bool" where
  "own_step c r i s t \<longleftrightarrow> rd_Clock s \<le> rd_Clock t \<and> (\<forall>j. j \<noteq> i \<longrightarrow> unchanged c j s t) \<and>
     (mine r i s \<or> gw_Issued s i = None) \<and> mine r i t"

lemma own_guar: "own_step c r i s t \<Longrightarrow> gate_guar c r s t"
proof -
  assume own: "own_step c r i s t"
  have "unchanged c j s t" if "r' \<noteq> r" "mine r' j s \<or> mine r' j t" for r' j
  proof -
    have "j \<noteq> i" using own that by (auto simp: own_step_def mine_def)
    with own show ?thesis by (simp add: own_step_def)
  qed
  with own show ?thesis by (auto simp: gate_guar_def gate_rely_def own_step_def)
qed

lemma frames_own: "frames c r Y F \<Longrightarrow> F s \<Longrightarrow> own_step c r i s t \<Longrightarrow> i \<notin> Y \<Longrightarrow> F t"
  by (erule (1) frames_keep) (auto simp: own_step_def)

text \<open>An id of the request, and the slots under which it is being served.\<close>

definition only :: "nat \<Rightarrow> string \<Rightarrow> string set \<Rightarrow> gateway \<Rightarrow> bool" where
  "only r i K s \<longleftrightarrow> mine r i s \<and> (\<forall>k x. (k, i, x) \<in> set (gw_Serving s) \<longrightarrow> k \<in> K)"

text \<open>The lease of an id is at least as young as second \<open>b\<close>, unless it has run out since.\<close>

definition held_since :: "concurrencyCache \<Rightarrow> string \<Rightarrow> string \<Rightarrow> int \<Rightarrow> gateway \<Rightarrow> bool" where
  "held_since c k i b s \<longleftrightarrow> (redis_TIME s < b + key_ttl c k \<longrightarrow> (\<exists>sc \<ge> b. leases c s k i = Some sc))"

definition ready :: "concurrencyCache \<Rightarrow> nat \<Rightarrow> string \<Rightarrow> string \<Rightarrow> gateway \<Rightarrow> bool" where
  "ready c r k i s \<longleftrightarrow> slot_key k \<and> (\<exists>b. gw_Issued s i = Some (r, b) \<and> held_since c k i b s) \<and>
     (\<forall>x. (k, i, x) \<notin> set (gw_Serving s))"

lemma held_since_unchanged:
  "held_since c k i b s \<Longrightarrow> unchanged c i s t \<Longrightarrow> rd_Clock s \<le> rd_Clock t \<Longrightarrow> held_since c k i b t"
proof -
  assume h: "held_since c k i b s" and u: "unchanged c i s t" and t: "rd_Clock s \<le> rd_Clock t"
  have "\<exists>sc \<ge> b. leases c t k i = Some sc" if lt: "redis_TIME t < b + key_ttl c k"
  proof -
    have "redis_TIME s < b + key_ttl c k" using lt TIME_mono [OF t] by simp
    then obtain sc where sc: "b \<le> sc" "leases c s k i = Some sc" using h by (auto simp: held_since_def)
    then have "leases c t k i = Some sc" using lt by (intro unchanged_lease [OF u]) simp_all
    with sc(1) show ?thesis by blast
  qed
  then show ?thesis by (simp add: held_since_def)
qed

lemma frames_only: "frames c r {i} (only r i K)"
  unfolding frames_def only_def by (auto simp: unchanged_def mine_def)

lemma frames_held: "frames c r {i} (\<lambda>s. only r i K s \<and> held_since c k i b s)"
  unfolding frames_def
proof (intro conjI allI impI)
  fix s t assume s: "only r i K s \<and> held_since c k i b s" and t: "rd_Clock s \<le> rd_Clock t"
    "\<forall>i \<in> {i}. unchanged c i s t"
  show "only r i K t" using s t by (intro frames_keep [OF frames_only, of r i K s t]) simp_all
  show "held_since c k i b t" using s t by (intro held_since_unchanged [of c k i b s t]) simp_all
qed (simp add: only_def)

lemma frames_ready: "frames c r {i} (ready c r k i)"
  unfolding frames_def
proof (intro conjI allI impI)
  fix s assume "ready c r k i s"
  then show "\<forall>j \<in> {i}. mine r j s" by (auto simp: ready_def mine_def)
next
  fix s t assume s: "ready c r k i s" and clock: "rd_Clock s \<le> rd_Clock t" and "\<forall>j \<in> {i}. unchanged c j s t"
  then have u: "unchanged c i s t" by simp
  from s obtain b where "gw_Issued s i = Some (r, b)" "held_since c k i b s" by (auto simp: ready_def)
  with held_since_unchanged [OF _ u clock] u have "gw_Issued t i = Some (r, b) \<and> held_since c k i b t"
    by (simp add: unchanged_def)
  moreover have "(k, i, x) \<notin> set (gw_Serving t)" for x using s u by (simp add: ready_def unchanged_def)
  ultimately show "ready c r k i t" using s by (auto simp: ready_def)
qed

lemma frames_only_ready: "frames c r {i} (\<lambda>s. only r i K s \<and> ready c r k i s)"
  using frames_conj [OF frames_only [of c r i K] frames_ready [of c r i k]] by simp

lemma frames_subset_rely: "only r i K s \<Longrightarrow> gate_rely c r s t \<Longrightarrow> only r i K t"
  by (rule frames_rely [OF frames_only])

section \<open>Drawing an id\<close>

lemma prefix_chars: "process_prefix p \<Longrightarrow> CHR ''-'' \<notin> set p"
proof -
  assume "process_prefix p"
  then obtain n where p: "p = ''r'' @ FormatUint 36 n" by (auto simp: process_prefix_def initRequestIDPrefix_def)
  have "CHR ''-'' \<noteq> digit_char d" if "d < 36" for d
  proof
    assume "CHR ''-'' = digit_char d"
    then have "(of_char CHR ''-'' :: nat) = of_char (digit_char d)" by simp
    then show False using that by (simp add: digit_char_def split: if_splits)
  qed
  with FormatUint_chars [of 36 "CHR ''-''" n] show ?thesis unfolding p by auto
qed

lemma split_dash:
  "CHR ''-'' \<notin> set p \<Longrightarrow> CHR ''-'' \<notin> set q \<Longrightarrow> p @ ''-'' @ x = q @ ''-'' @ y \<Longrightarrow> p = q \<and> x = y"
proof (induction p arbitrary: q)
  case Nil
  then show ?case by (cases q) auto
next
  case (Cons a p)
  then show ?case by (cases q) auto
qed

lemma request_id_fresh:
  assumes "ids_ok s" "process_prefix p" "gw_Counters s p < n"
  shows "gw_Issued s (p @ ''-'' @ FormatUint 36 n) = None"
proof (rule ccontr)
  assume "gw_Issued s (p @ ''-'' @ FormatUint 36 n) \<noteq> None"
  then obtain q m where q: "process_prefix q" "p @ ''-'' @ FormatUint 36 n = q @ ''-'' @ FormatUint 36 m"
      "m \<le> gw_Counters s q"
    using assms(1) unfolding ids_ok_def by (metis not_None_eq old.prod.exhaust)
  have "p = q \<and> FormatUint 36 n = FormatUint 36 m"
    by (rule split_dash [OF prefix_chars [OF assms(2)] prefix_chars [OF q(1)] q(2)])
  then have "p = q" "n = m" by (simp_all add: FormatUint_inj)
  with q(3) assms(3) show False by simp
qed

lemma acts_generate:
  assumes F: "frames c r Y F" "F s" and w: "wk_Request w = r" "process_prefix (wk_Prefix w)"
    and rest: "\<And>i t. only r i {} t \<Longrightarrow> F t \<Longrightarrow> i \<notin> Y \<Longrightarrow> gate_inv c lim t \<Longrightarrow>
      (\<And>k. leases c t k i = None) \<Longrightarrow> gate_acts c lim r Q (k i) t"
  shows "gate_acts c lim r Q (generateRequestID w k) s"
  unfolding generateRequestID_def
proof (rule gate.acts_local_step, goal_cases)
  case (1 t)
  note t = this
  define p n where "p = wk_Prefix w" and "n = Suc (gw_Counters t p)"
  define i where "i = p @ ''-'' @ FormatUint 36 n"
  define u where "u = t\<lparr>gw_Counters := (gw_Counters t)(p := n), gw_Issued := (gw_Issued t)(i \<mapsto> (r, redis_TIME t))\<rparr>"
  have ids: "ids_ok t" and serving: "serving_ok c t" using t(2) by (simp_all add: gate_inv_def)
  have fresh: "gw_Issued t i = None" unfolding i_def using request_id_fresh [OF ids] w(2) by (simp add: n_def p_def)
  then have none: "leases c t key i = None" for key using t(2) fresh unfolding gate_inv_def issued_ok_def by blast
  have idle: "(key, i, x) \<notin> set (gw_Serving t)" for key x using fresh serving by (auto simp: serving_ok_def)
  have u_fields: "gw_Serving u = gw_Serving t" "redis_TIME u = redis_TIME t" "leases c u = leases c t"
    "rd_Clock u = rd_Clock t" "slots_ok c u = slots_ok c t" "\<And>k. redis_GET k u = redis_GET k t"
    by (simp_all add: u_def)
  have own: "own_step c r i t u"
    using fresh by (auto simp: own_step_def unchanged_def mine_def u_fields) (simp_all add: u_def)
  have "ids_ok u"
    using ids w(2) unfolding ids_ok_def u_fields
    by (auto simp: u_def i_def n_def p_def split: if_splits) (metis le_SucI)+
  moreover have "serving_ok c u"
    using serving unfolding serving_ok_def u_fields by (auto simp: u_def)
  moreover have "issued_ok c u" using t(2) by (simp add: gate_inv_def issued_ok_def u_fields) (simp add: u_def)
  ultimately have inv: "gate_inv c lim u"
    using t(2) unfolding gate_inv_def u_fields queues_ok_def by simp
  have Ft: "F t" by (rule frames_rely [OF F t(1)])
  have Y: "i \<notin> Y" using frames_mine [OF F(1) Ft, of i] fresh by (auto simp: mine_def)
  have "F u" by (rule frames_own [OF F(1) Ft own Y])
  moreover have "only r i {} u" using own idle by (simp add: only_def own_step_def u_fields)
  ultimately have "gate_acts c lim r Q (k i) u" using rest Y inv none u_fields(3) by metis
  with own_guar [OF own] inv show ?case
    by (simp add: Let_def u_def i_def n_def p_def w(1))
qed

section \<open>Commands on one's own id\<close>

text \<open>
  A command that changes the leases of one id: it keeps the limits, and if the id is being served
  it does not make a lease older.
\<close>

definition own_change :: "concurrencyCache \<Rightarrow> limits \<Rightarrow> string \<Rightarrow> gateway \<Rightarrow> gateway \<Rightarrow> bool" where
  "own_change c lim i s t \<longleftrightarrow> rd_Clock t = rd_Clock s \<and> same_books s t \<and> slots_ok c t \<and>
     (\<forall>k. redis_GET k t = redis_GET k s) \<and> within lim (leases c t) \<and>
     (\<forall>k j. j \<noteq> i \<longrightarrow> leases c t k j = leases c s k j)"

definition no_older :: "concurrencyCache \<Rightarrow> string \<Rightarrow> gateway \<Rightarrow> gateway \<Rightarrow> bool" where
  "no_older c i s t \<longleftrightarrow> (\<forall>k sc. leases c s k i = Some sc \<longrightarrow> (\<exists>sc' \<ge> sc. leases c t k i = Some sc'))"

lemma own_change_step:
  "own_change c lim i s t \<Longrightarrow> mine r i s \<Longrightarrow> own_step c r i s t"
  by (auto simp: own_change_def own_step_def unchanged_def same_books_def mine_def)

lemma own_change_inv:
  assumes inv: "gate_inv c lim s" and ch: "own_change c lim i s t" and mine: "mine r i s"
    and served: "only r i {} s \<or> no_older c i s t"
  shows "gate_inv c lim t"
proof -
  have T: "redis_TIME t = redis_TIME s" using ch TIME_clock by (auto simp: own_change_def)
  have books: "gw_Serving t = gw_Serving s" "gw_Issued t = gw_Issued s" "gw_Counters t = gw_Counters s"
    using ch by (simp_all add: own_change_def same_books_def)
  have sv: "serving_ok c s" using inv by (simp add: gate_inv_def)
  have "\<exists>sc \<ge> x. leases c t k j = Some sc"
    if j: "(k, j, x) \<in> set (gw_Serving s)" "redis_TIME s < x + key_ttl c k" for k j x
  proof -
    obtain sc where sc: "x \<le> sc" "leases c s k j = Some sc" using sv j by (fastforce simp: serving_ok_def)
    show ?thesis
    proof (cases "j = i")
      case True
      then have "no_older c i s t" using served j(1) by (auto simp: only_def)
      with sc True show ?thesis unfolding no_older_def by (meson order_trans)
    next
      case False
      with ch sc show ?thesis by (auto simp: own_change_def)
    qed
  qed
  with sv have "serving_ok c t" unfolding serving_ok_def books T by fast
  moreover have "ids_ok t" using inv by (simp add: gate_inv_def ids_ok_def books T)
  moreover have "queues_ok lim t" using inv ch by (simp add: gate_inv_def queues_ok_def own_change_def)
  moreover have "issued_ok c t" using inv ch mine
    unfolding gate_inv_def issued_ok_def own_change_def books mine_def by (metis option.distinct(1))
  ultimately show ?thesis using inv ch by (simp add: gate_inv_def own_change_def)
qed

lemma acts_own_sent:
  assumes F: "frames c r Y F" "F s" and i: "i \<notin> Y" and P: "frames c r {i} P" "P s"
    and step: "\<And>t. P t \<Longrightarrow> gate_inv c lim t \<Longrightarrow>
      own_change c lim i t (fst (f t)) \<and> P (fst (f t)) \<and> (only r i {} t \<or> no_older c i t (fst (f t)))"
    and some: "\<And>t. P t \<Longrightarrow> F (fst (f t)) \<Longrightarrow> P (fst (f t)) \<Longrightarrow> gate_inv c lim t \<Longrightarrow>
      gate_inv c lim (fst (f t)) \<Longrightarrow> gate_acts c lim r Q (k (Some (snd (f t)))) (fst (f t))"
    and none: "\<And>t. P t \<Longrightarrow> F t \<Longrightarrow> gate_inv c lim t \<Longrightarrow> gate_acts c lim r Q (k None) t"
  shows "gate_acts c lim r Q (sent n f k) s"
proof (rule gate.acts_sent [where P = "\<lambda>t. F t \<and> P t"])
  fix t assume t: "F t \<and> P t" "gate_inv c lim t"
  have "mine r i t" using frames_mine [OF P(1)] t(1) by blast
  then have own: "own_step c r i t (fst (f t))" using own_change_step step t by blast
  moreover have "gate_inv c lim (fst (f t))" using own_change_inv step t \<open>mine r i t\<close> by blast
  moreover have "F (fst (f t))" using frames_own [OF F(1) _ own i] t(1) by blast
  ultimately show "gate_guar c r t (fst (f t)) \<and> gate_inv c lim (fst (f t)) \<and> F (fst (f t)) \<and> P (fst (f t))"
    using own_guar step t by blast
  then show "gate_acts c lim r Q (k (Some (snd (f t)))) (fst (f t))" using some t by blast
  show "gate_acts c lim r Q (k None) t" using none t by blast
next
  fix s t assume "F s \<and> P s" "gate_rely c r s t"
  then show "F t \<and> P t" using frames_rely [OF F(1)] frames_rely [OF P(1)] by blast
qed (use F(2) P(2) in simp_all)

section \<open>Limits kept\<close>

lemma held_nonneg [simp]: "0 \<le> held L k"
  by (simp add: held_def)

lemma held_upd:
  "finite (dom (L k)) \<Longrightarrow> held (L(key := (L key)(m \<mapsto> x))) k =
     (if k = key \<and> L key m = None then held L k + 1 else held L k)"
  by (auto simp: held_def insert_absorb domI card_insert_if)

lemma within_shrink:
  assumes "within lim L" "\<And>k. dom (L' k) \<subseteq> dom (L k)" shows "within lim L'"
proof -
  have fin: "finite (dom (L k))" for k using assms(1) by (simp add: within_def)
  then have le: "held L' k \<le> held L k" for k unfolding held_def by (simp add: card_mono assms(2))
  have "finite (dom (L' k))" for k using finite_subset [OF assms(2) fin] .
  with assms(1) show ?thesis unfolding within_def using le by (smt (verit))
qed

text \<open>The limit a request brings along fits the limit of the account, user or key.\<close>

definition fits :: "int \<Rightarrow> int \<Rightarrow> bool" where
  "fits limit n \<longleftrightarrow> (0 < limit \<longrightarrow> 0 < n \<and> n \<le> limit)"

lemma within_acquire_account:
  assumes L: "within lim L" and fits: "fits (lm_account lim a) n"
    and adm: "spec_admits (accountSlotKey a) (liveAccountSlotKey a) n m L"
  shows "within lim (L(accountSlotKey a := (L (accountSlotKey a))(m \<mapsto> x)))"
proof -
  have fin: "finite (dom (L k))" for k using L by (simp add: within_def)
  have "L (accountSlotKey a) m = None \<Longrightarrow>
      held L (accountSlotKey a) + 1 \<le> n \<and> held L (accountSlotKey a) + held L (liveAccountSlotKey a) + 1 \<le> n"
    using adm by (auto simp: spec_admits_def held_def)
  with L fits show ?thesis
    unfolding within_def fits_def held_upd [of L, OF fin] 
    by (auto simp: fin)
qed

lemma within_acquire_user:
  assumes L: "within lim L" and fits: "fits (lm_user lim u) n"
    and adm: "spec_admits (userSlotKey u) (liveUserSlotKey u) n m L"
  shows "within lim (L(userSlotKey u := (L (userSlotKey u))(m \<mapsto> x)))"
proof -
  have fin: "finite (dom (L k))" for k using L by (simp add: within_def)
  have "L (userSlotKey u) m = None \<Longrightarrow>
      held L (userSlotKey u) + 1 \<le> n \<and> held L (userSlotKey u) + held L (liveUserSlotKey u) + 1 \<le> n"
    using adm by (auto simp: spec_admits_def held_def)
  with L fits show ?thesis
    unfolding within_def fits_def held_upd [of L, OF fin] 
    by (auto simp: fin)
qed

lemma within_track: "within lim L \<Longrightarrow> within lim (L(apiKeySlotKey a := (L (apiKeySlotKey a))(m \<mapsto> x)))"
proof -
  assume L: "within lim L"
  then have fin: "finite (dom (L k))" for k by (simp add: within_def)
  have "held (L(apiKeySlotKey a := (L (apiKeySlotKey a))(m \<mapsto> x))) k = held L k" if "k \<noteq> apiKeySlotKey a" for k
    using that by (simp add: held_upd [of L, OF fin])
  with L show ?thesis by (simp add: within_def)
qed

lemma within_ingress:
  assumes L: "within lim L" and fits: "fits (lm_ingress lim a) n"
    and adm: "L (openAIWSIngressLeaseKey a) m \<noteq> None \<or> held L (openAIWSIngressLeaseKey a) < n"
  shows "within lim (L(openAIWSIngressLeaseKey a := (L (openAIWSIngressLeaseKey a))(m \<mapsto> x)))"
proof -
  have fin: "finite (dom (L k))" for k using L by (simp add: within_def)
  from L fits adm show ?thesis unfolding within_def fits_def held_upd [of L, OF fin] by (auto simp: fin)
qed

lemma within_renew:
  assumes L: "within lim L" and keys: "ks = [liveAccountSlotKey a, liveUserSlotKey u, liveAPIKeySlotKey k]"
    and same: "\<And>key. key \<in> set ks \<Longrightarrow> L key m \<noteq> None"
  shows "within lim (renew ks m x L)"
  by (rule within_shrink [OF L]) (use same in \<open>auto simp: renew_at split: if_splits\<close>)

lemma held_renew:
  "finite (dom (L k)) \<Longrightarrow> held (renew ks m x L) k \<le> held L k + (if k \<in> set ks then 1 else 0)"
  by (auto simp: held_def renew_at card_insert_if)

lemma within_live:
  assumes L: "within lim L" and keys: "ks = [liveAccountSlotKey a, liveUserSlotKey u, liveAPIKeySlotKey k]"
    and fits: "fits (lm_account lim a) n" "fits (lm_user lim u) n'"
    and adm: "n > 0 \<longrightarrow> held L (accountSlotKey a) + held L (liveAccountSlotKey a) < n + 1"
      "n' > 0 \<longrightarrow> held L (userSlotKey u) + held L (liveUserSlotKey u) < n' + 1"
  shows "within lim (renew ks m x L)"
proof -
  have fin: "finite (dom (L k))" for k using L by (simp add: within_def)
  then have fin': "finite (dom (renew ks m x L k))" for k by (simp add: renew_at)
  have le: "held (renew ks m x L) k \<le> held L k + (if k \<in> set ks then 1 else 0)" for k
    by (rule held_renew [OF fin])
  have other: "held (renew ks m x L) k = held L k" if "k \<notin> set ks" for k
    using that by (simp add: held_def renew_at)
  have acc: "held (renew ks m x L) (accountSlotKey b) = held L (accountSlotKey b)"
    "held (renew ks m x L) (userSlotKey b) = held L (userSlotKey b)"
    "held (renew ks m x L) (openAIWSIngressLeaseKey b) = held L (openAIWSIngressLeaseKey b)" for b
    by (rule other; simp add: keys)+
  have live: "held (renew ks m x L) (liveAccountSlotKey b) \<le> held L (liveAccountSlotKey b) + (if b = a then 1 else 0)"
    "held (renew ks m x L) (liveUserSlotKey b) \<le> held L (liveUserSlotKey b) + (if b = u then 1 else 0)" for b
    using le [of "liveAccountSlotKey b"] le [of "liveUserSlotKey b"] by (auto simp: keys)
  show ?thesis unfolding within_def acc
  proof (intro conjI allI impI fin')
    fix b assume b: "0 < lm_account lim b"
    show "held L (accountSlotKey b) \<le> lm_account lim b" using L b by (simp add: within_def)
    show "held L (accountSlotKey b) + held (renew ks m x L) (liveAccountSlotKey b) \<le> lm_account lim b + 1"
    proof (cases "b = a")
      case True
      with b fits(1) adm(1) live(1) [of b] show ?thesis by (auto simp: fits_def)
    next
      case False
      with L b live(1) [of b] show ?thesis by (force simp: within_def)
    qed
  next
    fix b assume b: "0 < lm_user lim b"
    show "held L (userSlotKey b) \<le> lm_user lim b" using L b by (simp add: within_def)
    show "held L (userSlotKey b) + held (renew ks m x L) (liveUserSlotKey b) \<le> lm_user lim b + 1"
    proof (cases "b = u")
      case True
      with b fits(2) adm(2) live(2) [of b] show ?thesis by (auto simp: fits_def)
    next
      case False
      with L b live(2) [of b] show ?thesis by (force simp: within_def)
    qed
  next
    fix b assume "0 < lm_ingress lim b"
    then show "held L (openAIWSIngressLeaseKey b) \<le> lm_ingress lim b" using L by (simp add: within_def)
  qed
qed

end
