(* ===== verification/ConcurrencyRequests.thy ===== *)
theory ConcurrencyRequests
  imports ConcurrencyHolding
begin

text \<open>
  The functions of \<^verbatim>\<open>ConcurrencyService\<close> that take, keep and give back slots, under the contract:
  what they leave behind when they return, whatever the other requests do in between.
\<close>

section \<open>Taking a slot\<close>

lemma acquire_step:
  assumes inv: "gate_inv c lim t" and keys: "slot_key key" "slot_key liveKey" "liveKey \<noteq> key"
      "key_ttl c key = cc_slotTTLSeconds c" "key_ttl c liveKey = 60"
    and lim: "\<And>L x. within lim L \<Longrightarrow> spec_admits key liveKey n i L \<Longrightarrow> within lim (L(key := (L key)(i \<mapsto> x)))"
    and run: "acquireScript key liveKey n (cc_slotTTLSeconds c) i t = (t', result, now)"
  shows "own_change c lim i t t' \<and> (result = 1 \<longrightarrow> leases c t' key i = Some (redis_TIME t))"
proof -
  have eff: "(leases c t', result = 1) = spec_acquire key liveKey n i (redis_TIME t) (leases c t)"
    "slots_ok c t'" "rd_Clock t' = rd_Clock t"
    using acquireScript_refines [OF inv_slots [OF inv] keys(1-3) _ keys(5) run] keys(4) by simp_all
  have ttl: "0 < cc_slotTTLSeconds c" using inv_ttl [OF inv] by simp
  have t': "t' = fst (acquireScript key liveKey n (cc_slotTTLSeconds c) i t)" using run by simp
  have books: "same_books t t'" unfolding t' by (simp add: acquireScript_def Let_def same_books_def)
  have "redis_GET k t' = redis_GET k t" for k
    unfolding t' using ttl by (simp add: acquireScript_def Let_def redis_simps)
  moreover have "within lim (leases c t')"
    using eff(1) inv lim [of "leases c t"] by (auto simp: spec_acquire_def gate_inv_def split: if_splits)
  moreover have "\<forall>k j. j \<noteq> i \<longrightarrow> leases c t' k j = leases c t k j"
    using eff(1) by (auto simp: spec_acquire_def split: if_splits)
  ultimately show ?thesis using eff books by (auto simp: own_change_def spec_acquire_def split: if_splits)
qed

lemma ready_from_lease:
  assumes inv: "gate_inv c lim t" and i: "only r i {} t" and k: "slot_key k"
    and t': "same_books t t'" "rd_Clock t' = rd_Clock t" "leases c t' k i = Some (redis_TIME t)"
  shows "ready c r k i t'"
proof -
  obtain b where b: "gw_Issued t i = Some (r, b)" using i by (auto simp: only_def mine_def)
  then have "b \<le> redis_TIME t" using inv by (auto simp: gate_inv_def ids_ok_def)
  with b i k t' show ?thesis by (auto simp: ready_def held_since_def same_books_def only_def)
qed

text \<open>What is known around and after an attempt to take a slot.\<close>

lemma acts_acquire:
  assumes F: "frames c r Y F" "F s" and i: "i \<notin> Y" "only r i {} s"
    and keys: "slot_key key" "slot_key liveKey" "liveKey \<noteq> key"
      "key_ttl c key = cc_slotTTLSeconds c" "key_ttl c liveKey = 60" "index_key idx"
    and lim: "\<And>L x. within lim L \<Longrightarrow> spec_admits key liveKey n i L \<Longrightarrow> within lim (L(key := (L key)(i \<mapsto> x)))"
  shows "gate_acts c lim r (\<lambda>x t. F t \<and> only r i {} t \<and> (x = Some True \<longrightarrow> ready c r key i t))
    (redis_call c (acquireScript key liveKey n (cc_slotTTLSeconds c) i)
       (\<lambda>x. case x of
          None \<Rightarrow> Return None
        | Some (result, now) \<Rightarrow>
            (if result = 1 then bindP (touchActiveIndexAt c idx a (now + cc_slotTTLSeconds c)) (\<lambda>_. Return (Some True))
             else Return (Some False)))) s"
proof (rule acts_own_sent [OF F i(1) frames_only i(2)])
  fix t assume t: "only r i {} t" "gate_inv c lim t"
  obtain t' result now where run: "acquireScript key liveKey n (cc_slotTTLSeconds c) i t = (t', result, now)"
    by (metis prod.exhaust)
  note step = acquire_step [OF t(2) keys(1-5) lim run]
  have books: "same_books t t'" and clock: "rd_Clock t' = rd_Clock t" using step by (simp_all add: own_change_def)
  have only': "only r i {} t'" using t(1) books by (simp add: only_def mine_def same_books_def)
  show "own_change c lim i t (fst (acquireScript key liveKey n (cc_slotTTLSeconds c) i t)) \<and>
      only r i {} (fst (acquireScript key liveKey n (cc_slotTTLSeconds c) i t)) \<and>
      (only r i {} t \<or> no_older c i t (fst (acquireScript key liveKey n (cc_slotTTLSeconds c) i t)))"
    using step only' t(1) by (simp add: run)
  assume F': "F (fst (acquireScript key liveKey n (cc_slotTTLSeconds c) i t))"
  show "gate_acts c lim r (\<lambda>x t. F t \<and> only r i {} t \<and> (x = Some True \<longrightarrow> ready c r key i t))
      (case Some (snd (acquireScript key liveKey n (cc_slotTTLSeconds c) i t)) of
          None \<Rightarrow> Return None
        | Some (result, now) \<Rightarrow>
            (if result = 1 then bindP (touchActiveIndexAt c idx a (now + cc_slotTTLSeconds c)) (\<lambda>_. Return (Some True))
             else Return (Some False)))
      (fst (acquireScript key liveKey n (cc_slotTTLSeconds c) i t))"
  proof (cases "result = 1")
    case True
    then have "ready c r key i t'" using ready_from_lease [OF t(2,1) keys(1) books clock] step by blast
    moreover have fr: "frames c r (Y \<union> ({i} \<union> {i})) (\<lambda>s. F s \<and> only r i {} s \<and> ready c r key i s)"
      by (intro frames_conj F(1) frames_only frames_ready)
    moreover have "F t'" using F' run by simp
    ultimately have start: "F t' \<and> only r i {} t' \<and> ready c r key i t'" using only' by simp
    have "gate_acts c lim r (\<lambda>_ s. F s \<and> only r i {} s \<and> ready c r key i s)
        (touchActiveIndexAt c idx a (now + cc_slotTTLSeconds c)) t'"
      by (rule acts_public_frame [OF public_touch [OF keys(6)] fr start])
    then show ?thesis using True by (simp add: run) (rule gate.acts_bindP; simp)
  next
    case False
    with F' only' run show ?thesis by simp
  qed
qed (use F(2) in simp_all)

lemma acts_AcquireAccountSlot:
  assumes "frames c r Y F" "F s" "i \<notin> Y" "only r i {} s" "fits (lm_account lim a) n"
  shows "gate_acts c lim r (\<lambda>x t. F t \<and> only r i {} t \<and> (x = Some True \<longrightarrow> ready c r (accountSlotKey a) i t))
    (AcquireAccountSlot c a n i) s"
  unfolding AcquireAccountSlot_def
  by (rule acts_acquire [OF assms(1-4)]) (use assms(5) within_acquire_account in auto)

lemma acts_AcquireUserSlot:
  assumes "frames c r Y F" "F s" "i \<notin> Y" "only r i {} s" "fits (lm_user lim u) n"
  shows "gate_acts c lim r (\<lambda>x t. F t \<and> only r i {} t \<and> (x = Some True \<longrightarrow> ready c r (userSlotKey u) i t))
    (AcquireUserSlot c u n i) s"
  unfolding AcquireUserSlot_def
  by (rule acts_acquire [OF assms(1-4)]) (use assms(5) within_acquire_user in auto)

section \<open>Tracking, giving back\<close>

lemma acts_TrackAPIKeySlot:
  assumes F: "frames c r Y F" "F s" and i: "i \<notin> Y" "only r i {} s"
  shows "gate_acts c lim r (\<lambda>_ t. F t \<and> only r i {} t) (TrackAPIKeySlot c a i) s"
  unfolding TrackAPIKeySlot_def
proof (rule acts_own_sent [OF F i(1) frames_only i(2)])
  fix t assume t: "only r i {} t" "gate_inv c lim t"
  let ?t = "fst (trackSlotScript (apiKeySlotKey a) (cc_slotTTLSeconds c) i t)"
  have ttl: "0 < cc_slotTTLSeconds c" using inv_ttl [OF t(2)] by simp
  have eff: "slots_ok c ?t" "rd_Clock ?t = rd_Clock t"
    "leases c ?t = (leases c t)(apiKeySlotKey a := (leases c t (apiKeySlotKey a))(i \<mapsto> redis_TIME t))"
    using trackSlotScript_effect [OF inv_slots [OF t(2)], of "apiKeySlotKey a" "cc_slotTTLSeconds c" i] by simp_all
  have "within lim (leases c ?t)" unfolding eff(3) using t(2) by (intro within_track) (simp add: gate_inv_def)
  then show "own_change c lim i t ?t \<and> only r i {} ?t \<and> (only r i {} t \<or> no_older c i t ?t)"
    using eff ttl t(1) by (simp add: own_change_def only_def mine_def)
      (simp add: trackSlotScript_def Let_def same_books_def redis_simps)
qed (use F(2) in simp_all)

lemma release_change:
  assumes ok: "slots_ok c t" and L: "within lim (leases c t)" and k: "slot_key k"
  shows "own_change c lim i t (redis_ZREM k i t)"
proof -
  have e: "leases c (redis_ZREM k i t) = (leases c t)(k := (leases c t k)(i := None))"
    by (rule leases_ZREM [OF ok k])
  have "within lim (leases c (redis_ZREM k i t))"
    by (rule within_shrink [OF L]) (auto simp: e split: if_splits)
  then show ?thesis using slots_ok_ZREM [OF ok] by (simp add: own_change_def e redis_simps)
qed

lemma release_step: "gate_inv c lim t \<Longrightarrow> slot_key k \<Longrightarrow> own_change c lim i t (redis_ZREM k i t)"
  by (rule release_change) (simp_all add: gate_inv_def)

lemma acts_release:
  assumes F: "frames c r Y F" "F s" and i: "i \<notin> Y" "only r i {} s" and k: "slot_key k"
    and rest: "\<And>x t. F t \<Longrightarrow> only r i {} t \<Longrightarrow> gate_inv c lim t \<Longrightarrow> gate_acts c lim r Q (k' x) t"
  shows "gate_acts c lim r Q (redis_call c (\<lambda>r. (redis_ZREM k i r, ())) k') s"
proof (rule acts_own_sent [OF F i(1) frames_only i(2)])
  fix t assume "only r i {} t" "gate_inv c lim t"
  then show "own_change c lim i t (fst (redis_ZREM k i t, ())) \<and> only r i {} (fst (redis_ZREM k i t, ())) \<and>
      (only r i {} t \<or> no_older c i t (fst (redis_ZREM k i t, ())))"
    using release_step [OF _ k] by (simp add: only_def mine_def)
qed (use rest in auto)

primrec ids_of :: "release_func \<Rightarrow> string list" where
  "ids_of NoRelease = []"
| "ids_of (ReleaseAccount a i) = [i]"
| "ids_of (ReleaseUser u i) = [i]"
| "ids_of (AndAPIKey f k) = ids_of f @ (case k of None \<Rightarrow> [] | Some (_, i) \<Rightarrow> [i])"

definition returnable :: "nat \<Rightarrow> release_func \<Rightarrow> gateway \<Rightarrow> bool" where
  "returnable r f s \<longleftrightarrow> distinct (ids_of f) \<and> (\<forall>i \<in> set (ids_of f). only r i {} s)"

lemma frames_returnable: "frames c r (set (ids_of f)) (returnable r f)"
  unfolding frames_def
proof (intro conjI allI impI)
  fix s assume "returnable r f s"
  then show "\<forall>i \<in> set (ids_of f). mine r i s" by (simp add: returnable_def only_def)
next
  fix s t assume s: "returnable r f s" "rd_Clock s \<le> rd_Clock t" "\<forall>i \<in> set (ids_of f). unchanged c i s t"
  have "only r i {} t" if "i \<in> set (ids_of f)" for i
    using s that frames_keep [OF frames_only, of r i "{}" s t c] by (simp add: returnable_def)
  with s(1) show "returnable r f t" by (simp add: returnable_def)
qed

lemma acts_run_release:
  assumes "frames c r Y F" "F s" "returnable r f s" "set (ids_of f) \<inter> Y = {}"
  shows "gate_acts c lim r (\<lambda>_. F) (run_release c f) s"
  using assms
proof (induction f arbitrary: Y F s)
  case NoRelease
  then show ?case by simp
next
  case (ReleaseAccount a i)
  have upkeep: "gate_acts c lim r (\<lambda>_. F) (refreshAccountActiveIndex c a) t" if "F t" for t
    by (rule acts_public_frame [OF public_refresh_indices(1) ReleaseAccount.prems(1) that])
  show ?case unfolding run_release.simps ReleaseAccountSlot_def
    by (rule gate.acts_bindP [where Q = "\<lambda>_. F"], rule acts_release [OF ReleaseAccount.prems(1,2)])
      (use ReleaseAccount.prems upkeep in \<open>auto simp: returnable_def split: option.split intro!: gate.acts_bindP\<close>)
next
  case (ReleaseUser u i)
  have upkeep: "gate_acts c lim r (\<lambda>_. F) (refreshUserActiveIndex c u) t" if "F t" for t
    by (rule acts_public_frame [OF public_refresh_indices(2) ReleaseUser.prems(1) that])
  show ?case unfolding run_release.simps ReleaseUserSlot_def
    by (rule gate.acts_bindP [where Q = "\<lambda>_. F"], rule acts_release [OF ReleaseUser.prems(1,2)])
      (use ReleaseUser.prems upkeep in \<open>auto simp: returnable_def split: option.split intro!: gate.acts_bindP\<close>)
next
  case (AndAPIKey f k)
  show ?case
  proof (cases k)
    case None
    have "gate_acts c lim r (\<lambda>_. F) (run_release c f) s"
      by (rule AndAPIKey.IH [OF AndAPIKey.prems(1,2)]) (use AndAPIKey.prems None in \<open>auto simp: returnable_def\<close>)
    then show ?thesis unfolding run_release.simps None by (rule gate.acts_bindP) simp
  next
    case (Some p)
    obtain a i where p: "p = (a, i)" by fastforce
    have fr: "frames c r (Y \<union> {i}) (\<lambda>s. F s \<and> only r i {} s)"
      by (rule frames_conj [OF AndAPIKey.prems(1) frames_only])
    have "gate_acts c lim r (\<lambda>_ t. F t \<and> only r i {} t) (run_release c f) s"
      by (rule AndAPIKey.IH [OF fr]) (use AndAPIKey.prems Some p in \<open>auto simp: returnable_def\<close>)
    then show ?thesis unfolding run_release.simps Some p option.case prod.case
    proof (rule gate.acts_bindP)
      fix t assume t: "F t \<and> only r i {} t"
      have "i \<notin> Y" using AndAPIKey.prems(4) Some p by auto
      then show "gate_acts c lim r (\<lambda>_. F) (bindP (ReleaseAPIKeySlot c a i) (\<lambda>_. Return ())) t"
        unfolding ReleaseAPIKeySlot_def
        by (intro gate.acts_bindP [where Q = "\<lambda>_. F"] acts_release [OF AndAPIKey.prems(1)])
          (use t in auto)
    qed
  qed
qed

section \<open>A slot in hand\<close>

text \<open>What a release function stands for while its request is not yet served under it.\<close>

definition given :: "concurrencyCache \<Rightarrow> nat \<Rightarrow> release_func \<Rightarrow> gateway \<Rightarrow> bool" where
  "given c r f s \<longleftrightarrow> returnable r f s \<and>
     (case occupied f of None \<Rightarrow> True | Some (k, i) \<Rightarrow> ready c r k i s)"

lemma occupied_id: "occupied f = Some (k, i) \<Longrightarrow> i \<in> set (ids_of f)"
  by (induction f) auto

lemma frames_given: "frames c r (set (ids_of f)) (given c r f)"
  unfolding frames_def
proof (intro conjI allI impI)
  fix s assume "given c r f s"
  then show "\<forall>i \<in> set (ids_of f). mine r i s" by (simp add: given_def returnable_def only_def)
next
  fix s t assume s: "given c r f s" "rd_Clock s \<le> rd_Clock t" "\<forall>i \<in> set (ids_of f). unchanged c i s t"
  have "returnable r f t"
    using s by (intro frames_keep [OF frames_returnable, of r f s t c]) (simp_all add: given_def)
  moreover have "ready c r k i t" if o: "occupied f = Some (k, i)" for k i
    using s o occupied_id [OF o] frames_keep [OF frames_ready, of c r k i s t] by (auto simp: given_def)
  ultimately show "given c r f t" by (auto simp: given_def split: option.split)
qed

definition got :: "concurrencyCache \<Rightarrow> nat \<Rightarrow> string set \<Rightarrow> release_func \<Rightarrow> gateway \<Rightarrow> bool" where
  "got c r Y f s \<longleftrightarrow> given c r f s \<and> set (ids_of f) \<inter> Y = {}"

definition got_maybe ::
  "concurrencyCache \<Rightarrow> nat \<Rightarrow> string set \<Rightarrow> int \<Rightarrow> helper_error + release_func option \<Rightarrow> gateway \<Rightarrow> bool" where
  "got_maybe c r Y n x s \<longleftrightarrow>
     (case x of Inl _ \<Rightarrow> True | Inr None \<Rightarrow> 0 < n | Inr (Some f) \<Rightarrow> got c r Y f s)"

definition got_or :: "concurrencyCache \<Rightarrow> nat \<Rightarrow> string set \<Rightarrow> 'e + release_func \<Rightarrow> gateway \<Rightarrow> bool" where
  "got_or c r Y x s \<longleftrightarrow> (case x of Inl _ \<Rightarrow> True | Inr f \<Rightarrow> got c r Y f s)"

lemma got_or_Inl [simp]: "got_or c r Y (Inl e) s"
  by (simp add: got_or_def)

lemma got_NoRelease [simp]: "got c r Y NoRelease s"
  by (simp add: got_def given_def returnable_def)

definition works_for :: "nat \<Rightarrow> worker \<Rightarrow> bool" where
  "works_for r w \<longleftrightarrow> wk_Request w = r \<and> process_prefix (wk_Prefix w)"

lemma acts_service_account:
  assumes F: "frames c r Y F" "F s" and w: "works_for r w" and n: "fits (lm_account lim a) n"
  shows "gate_acts c lim r (\<lambda>x t. F t \<and> got_maybe c r Y n (acquire_result x) t) (service_AcquireAccountSlot c w a n) s"
proof (cases "n \<le> 0")
  case True
  with F show ?thesis by (simp add: service_AcquireAccountSlot_def acquire_result_def got_maybe_def)
next
  case False
  show ?thesis using False unfolding service_AcquireAccountSlot_def
  proof (simp, intro acts_generate [OF F])
    show "wk_Request w = r" "process_prefix (wk_Prefix w)" using w by (simp_all add: works_for_def)
    fix i t assume t: "only r i {} t" "F t" "i \<notin> Y"
    show "gate_acts c lim r (\<lambda>x t. F t \<and> got_maybe c r Y n (acquire_result x) t)
        (bindP (AcquireAccountSlot c a n i) (\<lambda>x. Return (case x of None \<Rightarrow> None
          | Some True \<Rightarrow> Some \<lparr>ar_Acquired = True, ar_ReleaseFunc = Some (ReleaseAccount a i)\<rparr>
          | Some False \<Rightarrow> Some \<lparr>ar_Acquired = False, ar_ReleaseFunc = None\<rparr>))) t"
      by (rule gate.acts_bindP [OF acts_AcquireAccountSlot [OF F(1) t(2,3,1) n]])
        (use t(3) False in \<open>auto simp: acquire_result_def got_maybe_def got_def given_def returnable_def split: option.split bool.split\<close>)
  qed
qed

lemma acts_service_user:
  assumes F: "frames c r Y F" "F s" and w: "works_for r w" and n: "fits (lm_user lim u) n"
  shows "gate_acts c lim r (\<lambda>x t. F t \<and> got_maybe c r Y n (acquire_result x) t) (service_AcquireUserSlot c w u n) s"
proof (cases "n \<le> 0")
  case True
  with F show ?thesis by (simp add: service_AcquireUserSlot_def acquire_result_def got_maybe_def)
next
  case False
  show ?thesis using False unfolding service_AcquireUserSlot_def
  proof (simp, intro acts_generate [OF F])
    show "wk_Request w = r" "process_prefix (wk_Prefix w)" using w by (simp_all add: works_for_def)
    fix i t assume t: "only r i {} t" "F t" "i \<notin> Y"
    show "gate_acts c lim r (\<lambda>x t. F t \<and> got_maybe c r Y n (acquire_result x) t)
        (bindP (AcquireUserSlot c u n i) (\<lambda>x. Return (case x of None \<Rightarrow> None
          | Some True \<Rightarrow> Some \<lparr>ar_Acquired = True, ar_ReleaseFunc = Some (ReleaseUser u i)\<rparr>
          | Some False \<Rightarrow> Some \<lparr>ar_Acquired = False, ar_ReleaseFunc = None\<rparr>))) t"
      by (rule gate.acts_bindP [OF acts_AcquireUserSlot [OF F(1) t(2,3,1) n]])
        (use t(3) False in \<open>auto simp: acquire_result_def got_maybe_def got_def given_def returnable_def split: option.split bool.split\<close>)
  qed
qed

definition tracked :: "nat \<Rightarrow> string set \<Rightarrow> (int \<times> string) option \<Rightarrow> gateway \<Rightarrow> bool" where
  "tracked r Y k s \<longleftrightarrow> (case k of None \<Rightarrow> True | Some (_, i) \<Rightarrow> i \<notin> Y \<and> only r i {} s)"

lemma acts_service_track:
  assumes F: "frames c r Y F" "F s" and w: "works_for r w"
  shows "gate_acts c lim r (\<lambda>x t. F t \<and> tracked r Y x t) (service_TrackAPIKeySlot c w a) s"
proof (cases "a \<le> 0")
  case True
  with F show ?thesis by (simp add: service_TrackAPIKeySlot_def tracked_def)
next
  case False
  show ?thesis unfolding service_TrackAPIKeySlot_def if_not_P [OF False]
  proof (rule acts_generate [OF F])
    show "wk_Request w = r" "process_prefix (wk_Prefix w)" using w by (simp_all add: works_for_def)
    fix i t assume t: "only r i {} t" "F t" "i \<notin> Y"
    show "gate_acts c lim r (\<lambda>x t. F t \<and> tracked r Y x t)
        (bindP (TrackAPIKeySlot c a i) (\<lambda>x. Return (case x of None \<Rightarrow> None | Some _ \<Rightarrow> Some (a, i)))) t"
      by (rule gate.acts_bindP [OF acts_TrackAPIKeySlot [OF F(1) t(2,3,1)]])
        (use t(3) in \<open>auto simp: tracked_def split: option.split\<close>)
  qed
qed

lemma got_AndAPIKey:
  "got c r Y f s \<Longrightarrow> tracked r (Y \<union> set (ids_of f)) k s \<Longrightarrow> got c r Y (AndAPIKey f k) s"
  by (auto simp: got_def given_def returnable_def tracked_def split: option.splits)

lemma acts_withAPIKeySlot:
  assumes F: "frames c r Y F" "F s" and w: "works_for r w" and f: "got c r Y f s"
  shows "gate_acts c lim r (\<lambda>f' t. F t \<and> got c r Y f' t) (withAPIKeySlot c w k f) s"
proof (cases "\<exists>a. k = Some a \<and> 0 < a")
  case False
  with F(2) f show ?thesis by (auto simp: withAPIKeySlot_def split: option.split)
next
  case True
  then obtain a where a: "k = Some a" "\<not> a \<le> 0" by force
  have fr: "frames c r (Y \<union> set (ids_of f)) (\<lambda>s. F s \<and> given c r f s)"
    by (rule frames_conj [OF F(1) frames_given])
  have start: "F s \<and> given c r f s" and Y: "set (ids_of f) \<inter> Y = {}" using F(2) f by (simp_all add: got_def)
  show ?thesis unfolding withAPIKeySlot_def a(1) option.case if_not_P [OF a(2)]
  proof (rule gate.acts_bindP [OF acts_service_track [OF fr start w]], goal_cases)
    case (1 k' t)
    then have "got c r Y f t" using Y by (simp add: got_def)
    from got_AndAPIKey [OF this] 1 show ?case by simp
  qed
qed

section \<open>Waiting for a slot\<close>

definition slot_limit :: "limits \<Rightarrow> slot_type \<Rightarrow> int \<Rightarrow> int" where
  "slot_limit lim ty i = (case ty of UserSlot \<Rightarrow> lm_user lim i | AccountSlot \<Rightarrow> lm_account lim i)"

lemma acts_acquire_slot:
  assumes "frames c r Y F" "F s" "works_for r w" "fits (slot_limit lim ty i) n"
  shows "gate_acts c lim r (\<lambda>x t. F t \<and> got_maybe c r Y n (acquire_result x) t) (acquire_slot c w ty i n) s"
  using assms by (cases ty) (simp_all add: acquire_slot_def slot_limit_def acts_service_user acts_service_account)

text \<open>One attempt of the loop, and what follows when the slots are all taken.\<close>

lemma acts_attempt:
  assumes F: "frames c r Y F" "F s" and w: "works_for r w" and n: "fits (slot_limit lim ty i) n"
    and again: "\<And>s. F s \<Longrightarrow> gate_acts c lim r (\<lambda>x t. F t \<and> got_or c r Y x t) again s"
  shows "gate_acts c lim r (\<lambda>x t. F t \<and> got_or c r Y x t)
    (bindP (acquire_slot c w ty i n) (\<lambda>x. case acquire_result x of
       Inl e \<Rightarrow> Return (Inl e) | Inr None \<Rightarrow> again | Inr (Some f) \<Rightarrow> Return (Inr f))) s"
proof (rule gate.acts_bindP [OF acts_acquire_slot [OF F w n]], goal_cases)
  case (1 x t)
  then show ?case
  proof (cases "acquire_result x")
    case (Inl e)
    with 1 show ?thesis by (simp add: got_or_def)
  next
    case (Inr f)
    then show ?thesis using 1 again [of t] by (cases f) (simp_all add: got_or_def got_maybe_def)
  qed
qed

lemma acts_wait_loop:
  assumes F: "frames c r Y F" and w: "works_for r w" and n: "fits (slot_limit lim ty i) n"
  shows "F s \<Longrightarrow> gate_acts c lim r (\<lambda>x t. F t \<and> got_or c r Y x t) (wait_loop c w ty i n es) s"
proof (induction es arbitrary: s)
  case Nil
  then show ?case by (simp add: got_or_def)
next
  case (Cons e es)
  show ?case
  proof (cases e)
    case BackoffOver
    show ?thesis unfolding BackoffOver wait_loop.simps
      by (rule acts_attempt [OF F Cons.prems w n Cons.IH])
  qed (use Cons in \<open>simp_all add: got_or_def\<close>)
qed

lemma acts_waitForSlot:
  assumes F: "frames c r Y F" "F s" and w: "works_for r w" and n: "fits (slot_limit lim ty i) n"
  shows "gate_acts c lim r (\<lambda>x t. F t \<and> got_or c r Y x t) (waitForSlotWithPingTimeout c w ty i n now es) s"
  unfolding waitForSlotWithPingTimeout_def
  by (simp add: acts_attempt [OF F w n acts_wait_loop [OF F(1) w n]] acts_wait_loop [OF F(1) w n F(2)])

lemma acts_TryAcquireUserSlot:
  assumes "frames c r Y F" "F s" "works_for r w" "fits (lm_user lim u) n"
  shows "gate_acts c lim r (\<lambda>x t. F t \<and> got_maybe c r Y n x t) (TryAcquireUserSlot c w u n) s"
  unfolding TryAcquireUserSlot_def by (rule gate.acts_bindP [OF acts_service_user [OF assms]]) simp

lemma queue_limit: "0 < n \<Longrightarrow> CalculateMaxWait n - n = defaultExtraWaitSlots"
  by (simp add: CalculateMaxWait_def)

lemma acts_with_key:
  assumes F: "frames c r Y F" "F s" and w: "works_for r w" and f: "got c r Y f s"
  shows "gate_acts c lim r (\<lambda>x t. F t \<and> got_or c r Y x t)
    (bindP (withAPIKeySlot c w k f) (\<lambda>f'. Return (Inr f' :: 'e + release_func))) s"
  by (rule gate.acts_bindP [OF acts_withAPIKeySlot [OF F w f]]) (simp add: got_or_def)

text \<open>Public work while a slot is in hand.\<close>

lemma acts_public_got:
  assumes F: "frames c r Y F" "F s" and x: "got_or c r Y x s"
    and p: "public_prog c lim p (redis_TIME s)"
  shows "gate_acts c lim r (\<lambda>_ t. F t \<and> got_or c r Y x t) p s"
proof (cases x)
  case (Inl e)
  show ?thesis by (rule gate.acts_mono [OF acts_public_frame [OF p F]]) (simp add: Inl got_or_def)
next
  case (Inr f)
  have start: "F s \<and> given c r f s" and Y: "set (ids_of f) \<inter> Y = {}"
    using F(2) x by (simp_all add: Inr got_or_def got_def)
  show ?thesis
    by (rule gate.acts_mono [OF acts_public_frame [OF p frames_conj [OF F(1) frames_given] start]])
      (use Y in \<open>simp add: Inr got_or_def got_def\<close>)
qed

lemma acts_user_slot_with_wait:
  assumes F: "frames c r Y F" "F s" and w: "works_for r w" and n: "fits (lm_user lim u) n"
  shows "gate_acts c lim r (\<lambda>x t. F t \<and> got_or c r Y x t)
    (acquireUserSlotWithWaitTimeout c w k u n es) s"
  unfolding acquireUserSlotWithWaitTimeout_def
proof (rule gate.acts_bindP [OF acts_TryAcquireUserSlot [OF F w n]], goal_cases)
  case (1 x t)
  show ?case
  proof (cases x)
    case (Inl e)
    with 1 show ?thesis by (simp add: got_or_def)
  next
    case (Inr y)
    show ?thesis
    proof (cases y)
      case (Some f)
      with 1 Inr have "F t" "got c r Y f t" by (simp_all add: got_maybe_def)
      with Inr Some show ?thesis by (simp add: acts_with_key [OF F(1) _ w])
    next
      case None
      with 1 Inr have "0 < n" "F t" by (simp_all add: got_maybe_def)
      have n': "fits (slot_limit lim UserSlot u) n" using n by (simp add: slot_limit_def)
      have queue: "gate_acts c lim r (\<lambda>_. F) (service_IncrementWaitCount c u defaultExtraWaitSlots) t"
        by (rule acts_public_frame [OF _ F(1) \<open>F t\<close>]) simp
      have keyed: "gate_acts c lim r (\<lambda>z t. F t \<and> got_or c r Y z t)
          (case y of Inl e \<Rightarrow> Return (Inl e) | Inr f \<Rightarrow> bindP (withAPIKeySlot c w k f) (\<lambda>f'. Return (Inr f'))) v"
        if "F v \<and> got_or c r Y y v" for y :: "helper_error + release_func" and v
        using that by (cases y) (simp_all add: got_or_def acts_with_key [OF F(1) _ w, unfolded got_or_def])
      have leave: "gate_acts c lim r (\<lambda>x t. F t \<and> got_or c r Y x t)
          (bindP (service_DecrementWaitCount c u) (\<lambda>_. Return z)) v"
        if "F v \<and> got_or c r Y z v" for z :: "helper_error + release_func" and v
        by (rule gate.acts_bindP [OF acts_public_got [OF F(1)]]) (use that in simp_all)
      have wait: "gate_acts c lim r (\<lambda>x t. F t \<and> got_or c r Y x t)
          (bindP (waitForSlotWithPingTimeout c w UserSlot u n False es) (\<lambda>y.
             bindP (case y of Inl e \<Rightarrow> Return (Inl e) | Inr f \<Rightarrow> bindP (withAPIKeySlot c w k f) (\<lambda>f'. Return (Inr f')))
               (\<lambda>z. bindP (service_DecrementWaitCount c u) (\<lambda>_. Return z)))) v" if "F v" for v
        by (rule gate.acts_bindP [OF acts_waitForSlot [OF F(1) that w n']], rule gate.acts_bindP [OF keyed], assumption, rule leave)
      have limit: "(if CalculateMaxWait n - n < 1 then 1 else CalculateMaxWait n - n) = defaultExtraWaitSlots"
        using queue_limit [OF \<open>0 < n\<close>] by (simp add: defaultExtraWaitSlots_def)
      show ?thesis unfolding Inr None sum.case option.case Let_def limit
        by (rule gate.acts_bindP [OF queue]) (simp add: wait)
    qed
  qed
qed

section \<open>Accounts\<close>

definition plan_fits :: "limits \<Rightarrow> account_choice \<Rightarrow> bool" where
  "plan_fits lim ch \<longleftrightarrow> fits (lm_account lim (ch_Account ch)) (ch_Concurrency ch) \<and>
     (case ch_WaitPlan ch of None \<Rightarrow> True
      | Some (maxWaiting, maxConcurrency, _) \<Rightarrow>
          maxWaiting \<le> lm_waiting lim (ch_Account ch) \<and> fits (lm_account lim (ch_Account ch)) maxConcurrency)"

lemma acts_account_slot:
  assumes F: "frames c r Y F" "F s" and w: "works_for r w" and ch: "plan_fits lim ch"
  shows "gate_acts c lim r (\<lambda>x t. F t \<and> got_or c r Y x t) (account_slot c w ch) s"
proof -
  let ?a = "ch_Account ch"
  have n: "fits (lm_account lim ?a) (ch_Concurrency ch)" using ch by (simp add: plan_fits_def)
  define plan where "plan = (case ch_WaitPlan ch of
      None \<Rightarrow> Return (Inl None)
    | Some (maxWaiting, maxConcurrency, events) \<Rightarrow>
        bindP (service_IncrementAccountWaitCount c ?a maxWaiting) (\<lambda>canWait.
          if \<not> canWait then Return (Inl (Some (WaitQueueFullError AccountSlot)))
          else bindP (waitForSlotWithPingTimeout c w AccountSlot ?a maxConcurrency True events)
            (\<lambda>y. bindP (service_DecrementAccountWaitCount c ?a) (\<lambda>_.
               Return (case y of Inl e \<Rightarrow> Inl (Some e) | Inr f \<Rightarrow> Inr f)))))"
  have plan: "gate_acts c lim r (\<lambda>x t. F t \<and> got_or c r Y x t) plan t" if Ft: "F t" for t
  proof (cases "ch_WaitPlan ch")
    case None
    with Ft show ?thesis by (simp add: plan_def)
  next
    case (Some p)
    obtain m k es where p: "p = (m, k, es)" by (cases p)
    have lim: "m \<le> lm_waiting lim ?a" "fits (slot_limit lim AccountSlot ?a) k"
      using ch by (simp_all add: plan_fits_def slot_limit_def Some p)
    have queue: "gate_acts c lim r (\<lambda>_. F) (service_IncrementAccountWaitCount c ?a m) t"
      by (rule acts_public_frame [OF _ F(1) Ft]) (simp add: lim)
    have leave: "gate_acts c lim r (\<lambda>x t. F t \<and> got_or c r Y x t)
        (bindP (service_DecrementAccountWaitCount c ?a) (\<lambda>_.
           Return (case y of Inl e \<Rightarrow> Inl (Some e) | Inr f \<Rightarrow> Inr f))) v"
      if "F v \<and> got_or c r Y y v" for y :: "helper_error + release_func" and v
      by (rule gate.acts_bindP [OF acts_public_got [OF F(1)]])
        (use that in \<open>auto simp: got_or_def split: sum.splits\<close>)
    have wait: "gate_acts c lim r (\<lambda>x t. F t \<and> got_or c r Y x t)
        (bindP (waitForSlotWithPingTimeout c w AccountSlot ?a k True es)
          (\<lambda>y. bindP (service_DecrementAccountWaitCount c ?a) (\<lambda>_.
             Return (case y of Inl e \<Rightarrow> Inl (Some e) | Inr f \<Rightarrow> Inr f)))) v" if "F v" for v
      by (rule gate.acts_bindP [OF acts_waitForSlot [OF F(1) that w lim(2)]], rule leave)
    show ?thesis unfolding plan_def Some p option.case prod.case
      by (rule gate.acts_bindP [OF queue]) (simp add: wait)
  qed
  show ?thesis unfolding account_slot_def plan_def [symmetric]
  proof (rule gate.acts_bindP [OF acts_service_account [OF F w n]], goal_cases)
    case (1 x t)
    show ?case
    proof (cases "acquire_result x")
      case (Inl e)
      with 1 plan show ?thesis by simp
    next
      case (Inr y)
      with 1 plan show ?thesis by (cases y) (simp_all add: got_or_def got_maybe_def)
    qed
  qed
qed

end
