(* ===== verification/ConcurrencySessions.thy ===== *)
theory ConcurrencySessions
  imports ConcurrencyRequests
begin

text \<open>
  Being served under a slot, and the whole of a request, of a connection and of a live session:
  each of them keeps the invariant and leaves the ids of the others alone.
\<close>

section \<open>Being served\<close>

lemma serve_step:
  assumes inv: "gate_inv c lim t" and ready: "ready c r k i t" and b: "gw_Issued t i = Some (r, b)"
  defines "t' \<equiv> t\<lparr>gw_Serving := (k, i, b) # gw_Serving t\<rparr>"
  shows "own_step c r i t t'" "gate_inv c lim t'"
proof -
  have clock: "rd_Clock t' = rd_Clock t" "gw_Issued t' = gw_Issued t" by (simp_all add: t'_def)
  have "unchanged c j t t'" if "j \<noteq> i" for j using that by (auto simp: unchanged_def t'_def)
  moreover have "mine r i t" using b by (simp add: mine_def)
  ultimately show "own_step c r i t t'" by (simp add: own_step_def clock mine_def)
  have "slot_key k" "held_since c k i b t" "\<forall>x. (k, i, x) \<notin> set (gw_Serving t)"
    using ready b by (auto simp: ready_def)
  then have "serving_ok c t'"
    using inv b by (fastforce simp: t'_def gate_inv_def serving_ok_def held_since_def)
  then show "gate_inv c lim t'"
    using inv by (simp add: t'_def gate_inv_def queues_ok_def ids_ok_def issued_ok_def)
qed

lemma acts_serve_from:
  assumes F: "frames c r Y F" "F s" and i: "i \<notin> Y" and P: "frames c r {i} P" "P s"
    and step: "\<And>t. P t \<Longrightarrow> ready c r k i t"
    and rest: "\<And>t b. P t \<Longrightarrow> gate_inv c lim t \<Longrightarrow> F (t\<lparr>gw_Serving := (k, i, b) # gw_Serving t\<rparr>) \<Longrightarrow>
      gate_acts c lim r Q (k' ()) (t\<lparr>gw_Serving := (k, i, b) # gw_Serving t\<rparr>)"
  shows "gate_acts c lim r Q (serve_from (Some (k, i)) k') s"
  unfolding serve_from_def
proof (rule gate.acts_local_step, goal_cases)
  case (1 t)
  have t: "F t" "P t" using frames_rely [OF F 1(1)] frames_rely [OF P 1(1)] .
  have ready: "ready c r k i t" by (rule step [OF t(2)])
  then obtain b where b: "gw_Issued t i = Some (r, b)" by (auto simp: ready_def)
  note own = serve_step [OF 1(2) ready b]
  have "F (t\<lparr>gw_Serving := (k, i, b) # gw_Serving t\<rparr>)" by (rule frames_own [OF F(1) t(1) own(1) i])
  with rest [OF t(2) 1(2)] own own_guar [OF own(1)] b show ?case by simp
qed

lemma acts_served_until:
  assumes F: "frames c r Y F" "F s" and i: "i \<notin> Y" "only r i K s"
    and rest: "\<And>t. F t \<Longrightarrow> only r i (K - {k}) t \<Longrightarrow> gate_acts c lim r Q (k' ()) t"
  shows "gate_acts c lim r Q (served_until (Some (k, i)) k') s"
  unfolding served_until_def
proof (rule gate.acts_local_step, goal_cases)
  case (1 t)
  have t: "F t" "only r i K t" using frames_rely [OF F 1(1)] frames_rely [OF frames_only i(2) 1(1)] .
  define t' where "t' = t\<lparr>gw_Serving := filter (\<lambda>(key', i', _). (key', i') \<noteq> (k, i)) (gw_Serving t)\<rparr>"
  have "unchanged c j t t'" if "j \<noteq> i" for j using that by (auto simp: unchanged_def t'_def)
  then have own: "own_step c r i t t'" using t(2) by (simp add: own_step_def t'_def only_def mine_def)
  have "distinct (map (\<lambda>(k, i, _). (k, i)) (gw_Serving t'))"
    using 1(2) by (simp add: gate_inv_def serving_ok_def t'_def distinct_map_filter)
  then have "serving_ok c t'" using 1(2) by (auto simp: gate_inv_def serving_ok_def t'_def)
  then have inv: "gate_inv c lim t'" using 1(2) by (simp add: t'_def gate_inv_def queues_ok_def ids_ok_def issued_ok_def)
  have "F t'" by (rule frames_own [OF F(1) t(1) own i(1)])
  moreover have "only r i (K - {k}) t'" using t(2) by (auto simp: only_def mine_def t'_def)
  ultimately have "gate_acts c lim r Q (k' ()) t'" by (rule rest)
  with own_guar [OF own] inv show ?case by (simp add: t'_def)
qed

text \<open>What is known of the ids of a release function while its request is served under it.\<close>

definition served :: "nat \<Rightarrow> release_func \<Rightarrow> gateway \<Rightarrow> bool" where
  "served r f s \<longleftrightarrow> distinct (ids_of f) \<and> (\<forall>j \<in> set (ids_of f).
     only r j (case occupied f of None \<Rightarrow> {} | Some (k, i) \<Rightarrow> if j = i then {k} else {}) s)"

lemma frames_all:
  "(\<And>j. j \<in> Y \<Longrightarrow> frames c r {j} (P j)) \<Longrightarrow> frames c r Y (\<lambda>s. \<forall>j \<in> Y. P j s)"
  unfolding frames_def by blast

lemma frames_served: "frames c r (set (ids_of f)) (served r f)"
proof -
  have "frames c r (set (ids_of f)) (\<lambda>s. \<forall>j \<in> set (ids_of f).
      only r j (case occupied f of None \<Rightarrow> {} | Some (k, i) \<Rightarrow> if j = i then {k} else {}) s)"
    by (rule frames_all) (rule frames_only)
  then show ?thesis unfolding frames_def served_def by blast
qed

lemma acts_serving:
  assumes F: "frames c r Y F" "F s" and f: "got c r Y f s"
    and rest: "\<And>t. F t \<Longrightarrow> served r f t \<Longrightarrow> gate_acts c lim r Q (k' ()) t"
  shows "gate_acts c lim r Q (serve_from (occupied f) k') s"
proof (cases "occupied f")
  case None
  show ?thesis unfolding None serve_from_def
  proof (rule gate.acts_local_step, goal_cases)
    case (1 t)
    have "F t" by (rule frames_rely [OF F 1(1)])
    moreover have "given c r f t" using f frames_rely [OF frames_given _ 1(1)] by (simp add: got_def)
    then have "served r f t" by (simp add: given_def returnable_def served_def None)
    ultimately show ?case using 1(2) rest by simp
  qed
next
  case (Some p)
  obtain k i where p: "p = (k, i)" by fastforce
  have given: "given c r f s" and Y: "set (ids_of f) \<inter> Y = {}" using f by (simp_all add: got_def)
  have i: "i \<in> set (ids_of f)" using occupied_id Some p by blast
  let ?others = "set (ids_of f) - {i}"
  define G where "G = (\<lambda>t. F t \<and> (\<forall>j \<in> ?others. only r j {} t))"
  have fr: "frames c r (Y \<union> ?others) G" unfolding G_def
    by (rule frames_conj [OF F(1) frames_all]) (rule frames_only)
  have G: "G s" using F(2) given by (simp add: G_def given_def returnable_def)
  have start: "only r i {} s \<and> ready c r k i s" using given i by (simp add: given_def returnable_def Some p)
  show ?thesis unfolding Some p
  proof (rule acts_serve_from [OF fr G _ frames_only_ready start], goal_cases)
    case 1
    then show ?case using Y i by auto
  next
    case (2 t)
    then show ?case by simp
  next
    case (3 t b)
    have "served r f (t\<lparr>gw_Serving := (k, i, b) # gw_Serving t\<rparr>)"
      using 3(1,3) given by (auto simp: served_def Some p given_def returnable_def G_def only_def mine_def)
    with 3(3) rest show ?case by (simp add: G_def)
  qed
qed

lemma acts_served:
  assumes F: "frames c r Y F" "F s" and f: "served r f s" "set (ids_of f) \<inter> Y = {}"
    and rest: "\<And>t. F t \<Longrightarrow> returnable r f t \<Longrightarrow> gate_acts c lim r Q (k' ()) t"
  shows "gate_acts c lim r Q (served_until (occupied f) k') s"
proof (cases "occupied f")
  case None
  show ?thesis unfolding None served_until_def
  proof (rule gate.acts_local_step, goal_cases)
    case (1 t)
    have "F t" by (rule frames_rely [OF F 1(1)])
    moreover have "served r f t" by (rule frames_rely [OF frames_served f(1) 1(1)])
    then have "returnable r f t" by (simp add: returnable_def served_def None)
    ultimately show ?case using 1(2) rest by simp
  qed
next
  case (Some p)
  obtain k i where p: "p = (k, i)" by fastforce
  have i: "i \<in> set (ids_of f)" using occupied_id Some p by blast
  let ?others = "set (ids_of f) - {i}"
  define G where "G = (\<lambda>t. F t \<and> (\<forall>j \<in> ?others. only r j {} t))"
  have fr: "frames c r (Y \<union> ?others) G" unfolding G_def
    by (rule frames_conj [OF F(1) frames_all]) (rule frames_only)
  have G: "G s" and o: "only r i {k} s" using F(2) f i by (auto simp: G_def served_def Some p split: if_splits)
  have Y: "i \<notin> Y \<union> ?others" using f(2) i by auto
  show ?thesis unfolding Some p
  proof (rule acts_served_until [OF fr G Y o], goal_cases)
    case (1 t)
    then have "returnable r f t" using f(1) by (auto simp: returnable_def served_def G_def)
    with 1 rest show ?case by (simp add: G_def)
  qed
qed

section \<open>Requests\<close>

lemma acts_serve_accounts:
  assumes F: "frames c r Y F" and w: "works_for r w"
  shows "F s \<Longrightarrow> \<forall>ch \<in> set chs. plan_fits lim ch \<Longrightarrow> gate_acts c lim r (\<lambda>_. F) (serve_accounts c w chs) s"
proof (induction chs arbitrary: s)
  case (Cons ch chs)
  show ?case unfolding serve_accounts.simps
  proof (rule gate.acts_bindP [OF acts_account_slot [OF F Cons.prems(1) w]], goal_cases)
    case 1
    then show ?case using Cons.prems by simp
  next
    case (2 x t)
    show ?case
    proof (cases x)
      case (Inl e)
      with 2 show ?thesis by simp
    next
      case (Inr f)
      with 2 have t: "F t" "got c r Y f t" by (simp_all add: got_or_def)
      then have Y: "set (ids_of f) \<inter> Y = {}" by (simp add: got_def)
      show ?thesis unfolding Inr sum.case
      proof (rule acts_serving [OF F t], rule acts_served [OF F _ _ Y], assumption, assumption)
        fix t assume t: "F t" "returnable r f t"
        show "gate_acts c lim r (\<lambda>_. F) (bindP (run_release c f) (\<lambda>_. serve_accounts c w chs)) t"
          by (rule gate.acts_bindP [OF acts_run_release [OF F t Y]]) (use Cons in simp)
      qed
    qed
  qed
qed simp

lemma gateway_request_behaves:
  assumes w: "works_for r w" and u: "fits (lm_user lim (gc_User q)) (gc_UserConcurrency q)"
    and chs: "\<forall>ch \<in> set (gc_Accounts q). plan_fits lim ch"
  shows "gate.behaves c lim r (gateway_request c w q) s"
  unfolding gateway_request_def
proof (rule gate.acts_bindP [OF acts_user_slot_with_wait [OF frames_True TrueI w u]], goal_cases)
  case (1 x t)
  show ?case
  proof (cases x)
    case (Inl e)
    then show ?thesis by simp
  next
    case (Inr f)
    with 1 have f: "got c r {} f t" by (simp add: got_or_def)
    show ?thesis unfolding Inr sum.case
    proof (rule acts_serving [OF frames_True TrueI f])
      fix t assume "served r f t"
      then show "gate.behaves c lim r (bindP (serve_accounts c w (gc_Accounts q))
          (\<lambda>_. served_until (occupied f) (\<lambda>_. run_release c f))) t"
        by (rule gate.acts_bindP [OF acts_serve_accounts [OF frames_served w _ chs]])
          (auto intro!: acts_served [OF frames_True TrueI] acts_run_release [OF frames_True TrueI])
    qed
  qed
qed

section \<open>Connections\<close>

lemma lease_le_TIME: "slots_ok c s \<Longrightarrow> leases c s k i = Some sc \<Longrightarrow> sc \<le> redis_TIME s"
proof -
  assume ok: "slots_ok c s" and l: "leases c s k i = Some sc"
  have k: "slot_key k" using l by (auto simp: leases_def split: if_splits)
  have "(i, sc) \<in> set (members s k)" using l lease_iff [OF ok k] by (blast dest: map_of_SomeD)
  with slots_okD [OF ok k] show ?thesis unfolding slot_ok_def by fast
qed

lemma no_older_upd:
  "slots_ok c s \<Longrightarrow> leases c t = (leases c s)(k := (leases c s k)(i \<mapsto> redis_TIME s)) \<or> leases c t = leases c s \<Longrightarrow>
   no_older c i s t"
  unfolding no_older_def using lease_le_TIME by fastforce

lemma own_change_upd:
  assumes "rd_Clock t = rd_Clock s" "same_books s t" "slots_ok c t" "\<And>k. redis_GET k t = redis_GET k s"
    "leases c t = (leases c s)(k := (leases c s k)(i := x)) \<or> leases c t = leases c s" "within lim (leases c t)"
  shows "own_change c lim i s t"
  using assms by (auto simp: own_change_def)

lemma fits_self [simp]: "fits n n"
  by (simp add: fits_def)

lemma held_count: "lease_count c s k = held (leases c s) k"
  by (simp add: lease_count_def held_def)

lemma ingress_step:
  assumes inv: "gate_inv c lim t" and n: "fits (lm_ingress lim a) n"
    and run: "acquireOpenAIWSIngressLeaseScript (openAIWSIngressLeaseKey a) n openAIWSIngressLeaseTTLSeconds i t = (t', x)"
  shows "own_change c lim i t t'"
    "x = 1 \<Longrightarrow> leases c t' (openAIWSIngressLeaseKey a) i = Some (redis_TIME t)"
proof -
  let ?k = "openAIWSIngressLeaseKey a"
  note eff = ingress_acquire_effect [OF inv_slots [OF inv] slot_keys(7) _ run]
  have eff: "slots_ok c t'" "rd_Clock t' = rd_Clock t"
    "x = 1 \<longleftrightarrow> leases c t ?k i \<noteq> None \<or> held (leases c t) ?k < n"
    "leases c t' = (if x = 1 then (leases c t)(?k := (leases c t ?k)(i \<mapsto> redis_TIME t)) else leases c t)"
    using eff by (simp_all add: openAIWSIngressLeaseTTLSeconds_def held_count)
  have t': "t' = fst (acquireOpenAIWSIngressLeaseScript ?k n openAIWSIngressLeaseTTLSeconds i t)" using run by simp
  have L: "within lim (leases c t)" using inv by (simp add: gate_inv_def)
  have "within lim (leases c t')"
    using within_ingress [OF L n, of i] eff(3,4) L by (auto split: if_splits)
  then show "own_change c lim i t t'"
  proof (rule own_change_upd [OF eff(2) _ eff(1) _ _, rotated -1])
    show "same_books t t'"
      unfolding t' by (simp add: acquireOpenAIWSIngressLeaseScript_def Let_def same_books_def)
    show "redis_GET k t' = redis_GET k t" for k
      unfolding t' by (simp add: acquireOpenAIWSIngressLeaseScript_def Let_def redis_simps
          openAIWSIngressLeaseTTLSeconds_def)
    show "leases c t' = (leases c t)(?k := (leases c t ?k)(i := Some (redis_TIME t))) \<or> leases c t' = leases c t"
      by (simp add: eff(4))
  qed
  show "leases c t' ?k i = Some (redis_TIME t)" if "x = 1" using that eff(4) by simp
qed

lemma acts_ingress_acquire:
  assumes F: "frames c r Y F" "F s" and i: "i \<notin> Y" "only r i {} s" and n: "fits (lm_ingress lim a) n"
  shows "gate_acts c lim r (\<lambda>x t. F t \<and> only r i {} t \<and>
      (x = Some True \<longrightarrow> ready c r (openAIWSIngressLeaseKey a) i t)) (AcquireOpenAIWSIngressLease c a n i) s"
proof (cases "a \<le> 0 \<or> n \<le> 0 \<or> i = []")
  case True
  with F(2) i(2) show ?thesis by (auto simp: AcquireOpenAIWSIngressLease_def)
next
  case False
  let ?f = "acquireOpenAIWSIngressLeaseScript (openAIWSIngressLeaseKey a) n openAIWSIngressLeaseTTLSeconds i :: gateway \<Rightarrow> _"
  show ?thesis unfolding AcquireOpenAIWSIngressLease_def if_not_P [OF False]
  proof (rule acts_own_sent [OF F i(1) frames_only i(2)])
    fix t assume t: "only r i {} t" "gate_inv c lim t"
    note step = ingress_step [OF t(2) n surjective_pairing]
    have books: "same_books t (fst (?f t))" "rd_Clock (fst (?f t)) = rd_Clock t"
      using step(1) [of i] by (simp_all add: own_change_def)
    have only: "only r i {} (fst (?f t))" using t(1) books by (simp add: only_def mine_def same_books_def)
    show "own_change c lim i t (fst (?f t)) \<and> only r i {} (fst (?f t)) \<and>
        (only r i {} t \<or> no_older c i t (fst (?f t)))" using step(1) only t(1) by blast
    assume "F (fst (?f t))"
    moreover have "ready c r (openAIWSIngressLeaseKey a) i (fst (?f t))" if "snd (?f t) = 1"
      by (rule ready_from_lease [OF t(2,1) _ books step(2) [OF that]]) simp
    ultimately show "gate_acts c lim r (\<lambda>x t. F t \<and> only r i {} t \<and>
        (x = Some True \<longrightarrow> ready c r (openAIWSIngressLeaseKey a) i t))
        (Return (map_option (\<lambda>v. v = 1) (Some (snd (?f t))))) (fst (?f t))" using only by simp
  qed (use F(2) in simp_all)
qed

lemma ingress_refresh_step:
  assumes inv: "gate_inv c lim t"
    and run: "refreshOpenAIWSIngressLeaseScript (openAIWSIngressLeaseKey a) openAIWSIngressLeaseTTLSeconds i t = (t', x)"
  shows "own_change c lim i t t'" "no_older c i t t'"
    "x = 1 \<Longrightarrow> leases c t' (openAIWSIngressLeaseKey a) i = Some (redis_TIME t)"
proof -
  let ?k = "openAIWSIngressLeaseKey a"
  note eff = ingress_refresh_effect [OF inv_slots [OF inv] slot_keys(7) _ run]
  have eff: "slots_ok c t'" "rd_Clock t' = rd_Clock t" "x = 1 \<longleftrightarrow> leases c t ?k i \<noteq> None"
    "leases c t' = (if x = 1 then (leases c t)(?k := (leases c t ?k)(i \<mapsto> redis_TIME t)) else leases c t)"
    using eff by (simp_all add: openAIWSIngressLeaseTTLSeconds_def)
  have t': "t' = fst (refreshOpenAIWSIngressLeaseScript ?k openAIWSIngressLeaseTTLSeconds i t)" using run by simp
  have L: "within lim (leases c t)" using inv by (simp add: gate_inv_def)
  have "within lim (leases c t')"
    using within_ingress [OF L fits_self, of a i] eff(3,4) L by (auto split: if_splits)
  then show "own_change c lim i t t'"
  proof (rule own_change_upd [OF eff(2) _ eff(1) _ _, rotated -1])
    show "same_books t t'"
      unfolding t' by (simp add: refreshOpenAIWSIngressLeaseScript_def Let_def same_books_def split: option.split)
    show "redis_GET k t' = redis_GET k t" for k
      unfolding t' by (simp add: refreshOpenAIWSIngressLeaseScript_def Let_def redis_simps
          openAIWSIngressLeaseTTLSeconds_def split: option.split)
    show "leases c t' = (leases c t)(?k := (leases c t ?k)(i := Some (redis_TIME t))) \<or> leases c t' = leases c t"
      by (simp add: eff(4))
  qed
  show "no_older c i t t'" by (rule no_older_upd [OF inv_slots [OF inv], where k = ?k]) (simp add: eff(4))
  show "leases c t' ?k i = Some (redis_TIME t)" if "x = 1" using that eff(4) by simp
qed

text \<open>The bookkeeping of a renewed lease.\<close>

definition confirm :: "string \<Rightarrow> string \<Rightarrow> int \<Rightarrow> gateway \<Rightarrow> gateway" where
  "confirm k i b t = t\<lparr>gw_Serving := map (\<lambda>(k', i', x). (k', i', if (k', i') = (k, i) then b else x)) (gw_Serving t)\<rparr>"

lemma confirm_members:
  "(k', j, x) \<in> set (gw_Serving (confirm k i b t)) \<longleftrightarrow>
     (if (k', j) = (k, i) then x = b \<and> (\<exists>y. (k, i, y) \<in> set (gw_Serving t)) else (k', j, x) \<in> set (gw_Serving t))"
  by (force simp: confirm_def image_iff split: if_splits)

lemma confirm_step:
  assumes inv: "gate_inv c lim t" and i: "mine r i t" and h: "held_since c k i b t"
  shows "own_step c r i t (confirm k i b t)" "gate_inv c lim (confirm k i b t)"
proof -
  have f: "rd_Clock (confirm k i b t) = rd_Clock t" "gw_Issued (confirm k i b t) = gw_Issued t"
    "gw_Counters (confirm k i b t) = gw_Counters t"
    "leases c (confirm k i b t) = leases c t" "slots_ok c (confirm k i b t) = slots_ok c t"
    "redis_TIME (confirm k i b t) = redis_TIME t" "\<And>q. redis_GET q (confirm k i b t) = redis_GET q t"
    by (simp_all add: confirm_def)
  show "own_step c r i t (confirm k i b t)"
    using i by (auto simp: own_step_def unchanged_def confirm_members f mine_def)
  have "map (\<lambda>(k, i, _). (k, i)) (gw_Serving (confirm k i b t)) = map (\<lambda>(k, i, _). (k, i)) (gw_Serving t)"
    by (simp add: confirm_def case_prod_beta)
  moreover have "slot_key q \<and> gw_Issued t j \<noteq> None \<and>
      (redis_TIME t < x + key_ttl c q \<longrightarrow> (\<exists>sc \<ge> x. leases c t q j = Some sc))"
    if "(q, j, x) \<in> set (gw_Serving (confirm k i b t))" for q j x
    using that inv h unfolding confirm_members by (fastforce simp: gate_inv_def serving_ok_def held_since_def split: if_splits)
  ultimately have "serving_ok c (confirm k i b t)"
    using inv unfolding gate_inv_def serving_ok_def f by (simp add: split_beta) fastforce
  then show "gate_inv c lim (confirm k i b t)"
    using inv by (simp add: gate_inv_def f queues_ok_def ids_ok_def issued_ok_def)
qed

lemma acts_confirmed:
  assumes F: "frames c r Y F" "F s" and i: "i \<notin> Y" and P: "frames c r {i} P" "P s"
    and step: "\<And>t. P t \<Longrightarrow> held_since c k i b t"
    and rest: "\<And>t. P t \<Longrightarrow> F (confirm k i b t) \<Longrightarrow> gate_acts c lim r Q (k' ()) (confirm k i b t)"
  shows "gate_acts c lim r Q (confirmed_at k i b k') s"
  unfolding confirmed_at_def confirm_def [symmetric]
proof (rule gate.acts_local_step, goal_cases)
  case (1 t)
  have t: "F t" "P t" using frames_rely [OF F 1(1)] frames_rely [OF P 1(1)] .
  have "mine r i t" using frames_mine [OF P(1) t(2)] by simp
  note own = confirm_step [OF 1(2) this step [OF t(2)]]
  have "F (confirm k i b t)" by (rule frames_own [OF F(1) t(1) own(1) i])
  with rest [OF t(2)] own own_guar [OF own(1)] show ?case by simp
qed

lemma only_confirm: "only r i K t \<Longrightarrow> only r i K (confirm k i b t)"
  by (auto simp: only_def confirm_members mine_def split: if_splits) (simp add: confirm_def)

lemma frames_after: "frames c r Y F \<Longrightarrow> frames c r Y (\<lambda>s. F s \<and> b \<le> redis_TIME s)"
  unfolding frames_def using TIME_mono by (meson order_trans)

lemma acts_look_self:
  "frames c r Y F \<Longrightarrow> F s \<Longrightarrow> (\<And>t. F t \<Longrightarrow> gate_acts c lim r Q (k (f t)) t) \<Longrightarrow> gate_acts c lim r Q (look f k) s"
  by (rule gate.acts_look) (simp add: frames_rely)

lemma acts_ingress_refresh:
  assumes F: "frames c r Y F" "F s" and i: "i \<notin> Y" "only r i K s" and b: "b \<le> redis_TIME s"
  shows "gate_acts c lim r (\<lambda>x t. F t \<and> only r i K t \<and>
      (x = Some True \<longrightarrow> held_since c (openAIWSIngressLeaseKey a) i b t)) (RefreshOpenAIWSIngressLease c a i) s"
proof (cases "a \<le> 0 \<or> i = []")
  case True
  with F(2) i(2) show ?thesis by (auto simp: RefreshOpenAIWSIngressLease_def)
next
  case False
  let ?f = "refreshOpenAIWSIngressLeaseScript (openAIWSIngressLeaseKey a) openAIWSIngressLeaseTTLSeconds i :: gateway \<Rightarrow> _"
  let ?P = "\<lambda>t. only r i K t \<and> b \<le> redis_TIME t"
  show ?thesis unfolding RefreshOpenAIWSIngressLease_def if_not_P [OF False]
  proof (rule acts_own_sent [OF F i(1), where P = ?P])
    show "frames c r {i} ?P" by (rule frames_after [OF frames_only])
    fix t assume t: "?P t" "gate_inv c lim t"
    note step = ingress_refresh_step [OF t(2) surjective_pairing, where a = a and i = i]
    have books: "same_books t (fst (?f t))" "redis_TIME (fst (?f t)) = redis_TIME t"
      using step(1) TIME_clock by (auto simp: own_change_def)
    have P: "?P (fst (?f t))" using t(1) books by (simp add: only_def mine_def same_books_def)
    show "own_change c lim i t (fst (?f t)) \<and> ?P (fst (?f t)) \<and>
        (only r i {} t \<or> no_older c i t (fst (?f t)))" using step(1,2) P by blast
    assume "F (fst (?f t))"
    with P step(3) t(1) show "gate_acts c lim r (\<lambda>x t. F t \<and> only r i K t \<and>
        (x = Some True \<longrightarrow> held_since c (openAIWSIngressLeaseKey a) i b t))
        (Return (map_option (\<lambda>v. v = 1) (Some (snd (?f t))))) (fst (?f t))" by (auto simp: held_since_def)
  qed (use F(2) i(2) b in simp_all)
qed

lemma only_mine: "only r i K t \<Longrightarrow> mine r i t"
  by (simp add: only_def)

lemma acts_lease_refresh:
  assumes F: "frames c r {i} F" "F s" and K: "\<And>t. F t \<longleftrightarrow> only r i K t"
  shows "gate_acts c lim r (\<lambda>_. F) (lease_refresh c a i since) s"
  unfolding lease_refresh_def
proof (rule gate.acts_look, intro conjI gate_guar_refl)
  fix t assume t: "gate_rely c r s t"
  have o: "only r i K t" using frames_rely [OF F t] K by simp
  let ?k = "openAIWSIngressLeaseKey a"
  have fr: "frames c r {i} (\<lambda>t. only r i K t \<and> held_since c ?k i b t)" for b
    by (rule frames_held)
  show "gate_acts c lim r (\<lambda>_. F)
      (bindP (RefreshOpenAIWSIngressLease c a i) (\<lambda>x. case x of
         None \<Rightarrow> look rd_Clock (\<lambda>now. Return (since, now - since \<ge> openAIWSIngressLeaseTTL))
       | Some True \<Rightarrow> confirmed_at ?k i (redis_TIME t) (\<lambda>_. look rd_Clock (\<lambda>now. Return (now, False)))
       | Some False \<Rightarrow> Return (since, True))) t"
  proof (rule gate.acts_bindP [OF acts_ingress_refresh [OF frames_True TrueI _ o order_refl]], goal_cases)
    case (2 x u)
    show ?case
    proof (cases x)
      case None
      have "F u" using 2 K by simp
      then show ?thesis unfolding None option.case by (intro acts_look_self [OF F(1)]) simp_all
    next
      case (Some ok)
      show ?thesis
      proof (cases ok)
        case True
        with 2 Some have "only r i K u \<and> held_since c ?k i (redis_TIME t) u" by simp
        moreover have x: "x = Some True" using Some True by simp
        ultimately show ?thesis unfolding x option.case bool.case
        proof (intro acts_confirmed [OF frames_True TrueI _ fr [of "redis_TIME t"]], goal_cases)
          case (4 v)
          then have "F (confirm ?k i (redis_TIME t) v)" by (simp add: K only_confirm)
          then show ?case by (intro acts_look_self [OF F(1)]) simp_all
        qed simp_all
      next
        case False
        with 2 Some K show ?thesis by simp
      qed
    qed
  qed simp
qed

lemma acts_refreshLoop:
  "only r i K s \<Longrightarrow> gate_acts c lim r (\<lambda>_. only r i K) (refreshLoop c a i n since) s"
proof (induction n arbitrary: s since)
  case (Suc n)
  show ?case unfolding refreshLoop.simps
    by (rule gate.acts_bindP [OF acts_lease_refresh [OF frames_only Suc.prems refl]])
      (auto simp: Suc.IH split: prod.split)
qed simp

lemma acts_ingress_release:
  assumes "only r i {} s"
  shows "gate.behaves c lim r (bindP (ReleaseOpenAIWSIngressLease c a i) (\<lambda>_. Return ())) s"
  unfolding ReleaseOpenAIWSIngressLease_def
  by (rule gate.acts_bindP [where Q = "\<lambda>_ _. True"])
    (auto intro!: acts_release [OF frames_True TrueI _ assms])

lemma ws_connection_behaves:
  assumes w: "works_for r w" and n: "fits (lm_ingress lim a) n"
  shows "gate.behaves c lim r (ws_connection c w a n ticks) s"
proof -
  let ?k = "openAIWSIngressLeaseKey a"
  let ?Q = "\<lambda>x t. case x of Inr (Some (i, True)) \<Rightarrow> only r i {} t \<and> ready c r ?k i t | _ \<Rightarrow> True"
  have session: "gate.behaves c lim r
      (serve_from (Some (?k, i)) (\<lambda>_. look rd_Clock (\<lambda>now.
         bindP (refreshLoop c a i ticks now) (\<lambda>_. served_until (Some (?k, i)) (\<lambda>_.
           bindP (ReleaseOpenAIWSIngressLease c a i) (\<lambda>_. Return ())))))) t"
    if t: "only r i {} t \<and> ready c r ?k i t" for i t
  proof (rule acts_serve_from [OF frames_True TrueI _ frames_only_ready t], goal_cases)
    case (3 t b)
    then have "only r i {?k} (t\<lparr>gw_Serving := (?k, i, b) # gw_Serving t\<rparr>)" by (auto simp: only_def mine_def)
    then show ?case
      by (auto intro!: acts_look_self [OF frames_only] gate.acts_bindP [OF acts_refreshLoop]
          acts_served_until [OF frames_True TrueI] acts_ingress_release)
  qed simp_all
  have "gate_acts c lim r ?Q (service_AcquireOpenAIWSIngressLease c w a n) s"
  proof -
    have "gate_acts c lim r ?Q (generateRequestID w (\<lambda>i.
        bindP (AcquireOpenAIWSIngressLease c a n i) (\<lambda>x. Return
          (case x of None \<Rightarrow> Inl () | Some acquired \<Rightarrow> Inr (Some (i, acquired)))))) s"
    proof (rule acts_generate [OF frames_True TrueI])
      show "wk_Request w = r" "process_prefix (wk_Prefix w)" using w by (simp_all add: works_for_def)
      fix i t assume "only r i {} t"
      then show "gate_acts c lim r ?Q (bindP (AcquireOpenAIWSIngressLease c a n i) (\<lambda>x. Return
          (case x of None \<Rightarrow> Inl () | Some acquired \<Rightarrow> Inr (Some (i, acquired))))) t"
        by (intro gate.acts_bindP [OF acts_ingress_acquire [OF frames_True TrueI _ _ n]])
          (auto split: option.split bool.split)
    qed
    then show ?thesis by (simp add: service_AcquireOpenAIWSIngressLease_def)
  qed
  then show ?thesis unfolding ws_connection_def
    by (rule gate.acts_bindP) (auto simp: session split: sum.split option.split bool.split)
qed

end
