(* ===== verification/ConcurrencyLive.thy ===== *)
theory ConcurrencyLive
  imports ConcurrencySessions
begin

text \<open>
  Live sessions: one lease in three sets at once, taken in exchange for the regular slots, renewed
  and given back as a whole.
\<close>

abbreviation live_keys :: "int \<Rightarrow> int \<Rightarrow> int \<Rightarrow> string list" where
  "live_keys a u k \<equiv> [liveAccountSlotKey a, liveUserSlotKey u, liveAPIKeySlotKey k]"

section \<open>Steps with the lease\<close>

lemma own_change_trans: "own_change c lim i s t \<Longrightarrow> own_change c lim i t u \<Longrightarrow> own_change c lim i s u"
  by (simp add: own_change_def same_books_def)

lemma own_change_renew:
  assumes "rd_Clock t = rd_Clock s" "same_books s t" "slots_ok c t" "\<And>k. redis_GET k t = redis_GET k s"
    "leases c t = renew ks i x (leases c s) \<or> leases c t = leases c s" "within lim (leases c t)"
  shows "own_change c lim i s t"
  using assms by (auto simp: own_change_def renew_at)

lemma no_older_renew:
  assumes "slots_ok c s" "leases c t = renew ks i (redis_TIME s) (leases c s) \<or> leases c t = leases c s"
  shows "no_older c i s t"
  unfolding no_older_def
proof (intro allI impI)
  fix k sc assume sc: "leases c s k i = Some sc"
  have "sc \<le> redis_TIME s" by (rule lease_le_TIME [OF assms(1) sc])
  then show "\<exists>sc' \<ge> sc. leases c t k i = Some sc'"
    using assms(2) sc by (cases "k \<in> set ks") (auto simp: renew_at)
qed

lemma live_acquire_step:
  assumes inv: "gate_inv c lim t" and n: "fits (lm_account lim a) n" "fits (lm_user lim u) m"
    and run: "acquireLiveLeaseScript (accountSlotKey a) (liveAccountSlotKey a) (userSlotKey u) (liveUserSlotKey u)
        (liveAPIKeySlotKey k) n m liveLeaseTTLSeconds i 1 t = (t', x)"
  shows "own_change c lim i t t'"
    "leases c t' = leases c t \<and> (x = 1 \<longrightarrow> leases c t (liveAccountSlotKey a) i \<noteq> None) \<or>
     leases c t' = renew (live_keys a u k) i (redis_TIME t) (leases c t)"
proof -
  have keys: "\<forall>k \<in> set (live_keys a u k). slot_key k \<and> key_ttl c k = liveLeaseTTLSeconds" "distinct (live_keys a u k)"
    "accountSlotKey a \<notin> set (live_keys a u k)" "userSlotKey u \<notin> set (live_keys a u k)"
    by (simp_all add: liveLeaseTTLSeconds_def)
  have eff: "slots_ok c t' \<and> rd_Clock t' = rd_Clock t"
    "leases c t' = leases c t \<and> (x = 1 \<longrightarrow> leases c t (liveAccountSlotKey a) i \<noteq> None) \<or>
     leases c t' = renew (live_keys a u k) i (redis_TIME t) (leases c t) \<and>
      (n > 0 \<longrightarrow> held (leases c t) (accountSlotKey a) + held (leases c t) (liveAccountSlotKey a) < n + 1) \<and>
      (m > 0 \<longrightarrow> held (leases c t) (userSlotKey u) + held (leases c t) (liveUserSlotKey u) < m + 1)"
    using live_acquire_effect [OF inv_slots [OF inv] keys(1,2) slot_keys(1,2) keys(3,4) run]
    by (simp_all add: held_count)
  have t': "t' = fst (acquireLiveLeaseScript (accountSlotKey a) (liveAccountSlotKey a) (userSlotKey u)
      (liveUserSlotKey u) (liveAPIKeySlotKey k) n m liveLeaseTTLSeconds i 1 t)" using run by simp
  have L: "within lim (leases c t)" using inv by (simp add: gate_inv_def)
  have "within lim (leases c t')" using eff(2) L within_live [OF L refl n] by auto
  then show "own_change c lim i t t'"
  proof (rule own_change_renew [rotated -1])
    show "same_books t t'"
      unfolding t' by (simp add: acquireLiveLeaseScript_def Let_def same_books_def)
    show "redis_GET k t' = redis_GET k t" for k
      unfolding t' by (simp add: acquireLiveLeaseScript_def Let_def redis_simps liveLeaseTTLSeconds_def)
    show "leases c t' = renew (live_keys a u k) i (redis_TIME t) (leases c t) \<or> leases c t' = leases c t"
      using eff(2) by blast
  qed (use eff(1) in simp_all)
  show "leases c t' = leases c t \<and> (x = 1 \<longrightarrow> leases c t (liveAccountSlotKey a) i \<noteq> None) \<or>
     leases c t' = renew (live_keys a u k) i (redis_TIME t) (leases c t)" using eff(2) by blast
qed

lemma live_refresh_step:
  assumes inv: "gate_inv c lim t"
    and run: "refreshLiveLeaseScript (live_keys a u k) liveLeaseTTLSeconds i t = (t', x)"
  shows "own_change c lim i t t'" "no_older c i t t'"
    "x = 1 \<Longrightarrow> leases c t' = renew (live_keys a u k) i (redis_TIME t) (leases c t)"
proof -
  have keys: "\<forall>k \<in> set (live_keys a u k). slot_key k \<and> key_ttl c k = liveLeaseTTLSeconds"
    by (simp add: liveLeaseTTLSeconds_def)
  have eff: "slots_ok c t' \<and> rd_Clock t' = rd_Clock t"
    "x = 1 \<longleftrightarrow> (\<forall>k \<in> set (live_keys a u k). leases c t k i \<noteq> None)"
    "leases c t' = (if x = 1 then renew (live_keys a u k) i (redis_TIME t) (leases c t) else leases c t)"
    using live_refresh_effect [OF inv_slots [OF inv] keys run] by blast+
  have t': "t' = fst (refreshLiveLeaseScript (live_keys a u k) liveLeaseTTLSeconds i t)" using run by simp
  have L: "within lim (leases c t)" using inv by (simp add: gate_inv_def)
  have "within lim (leases c t')"
  proof (cases "x = 1")
    case True
    then have "leases c t key i \<noteq> None" if "key \<in> set (live_keys a u k)" for key using eff(2) that by blast
    from within_renew [OF L refl this] True eff(3) show ?thesis by simp
  next
    case False
    with eff(3) L show ?thesis by simp
  qed
  then show "own_change c lim i t t'"
  proof (rule own_change_renew [rotated -1])
    show "same_books t t'"
      unfolding t' by (simp add: refreshLiveLeaseScript_def Let_def same_books_def split: option.split prod.split)
    show "redis_GET k t' = redis_GET k t" for k
      unfolding t' by (simp add: refreshLiveLeaseScript_def Let_def redis_simps liveLeaseTTLSeconds_def
          split: option.split prod.split)
    show "leases c t' = renew (live_keys a u k) i (redis_TIME t) (leases c t) \<or> leases c t' = leases c t"
      using eff(3) by simp
  qed (use eff(1) in simp_all)
  show "no_older c i t t'"
    by (rule no_older_renew [OF inv_slots [OF inv], where ks = "live_keys a u k"]) (simp add: eff(3))
  show "leases c t' = renew (live_keys a u k) i (redis_TIME t) (leases c t)" if "x = 1" using that eff(3) by simp
qed

lemma live_release_step:
  assumes inv: "gate_inv c lim t"
  shows "own_change c lim i t (redis_ZREM (liveAPIKeySlotKey k) i (redis_ZREM (liveUserSlotKey u) i
      (redis_ZREM (liveAccountSlotKey a) i t)))"
proof -
  have step: "own_change c lim i t (redis_ZREM q i s)" if "own_change c lim i t s" "slot_key q" for q s
    using that by (intro own_change_trans [OF that(1) release_change]) (simp_all add: own_change_def)
  show ?thesis by (intro step release_step [OF inv] slot_keys)
qed

section \<open>Taking the lease\<close>

definition live_ready :: "concurrencyCache \<Rightarrow> nat \<Rightarrow> int \<Rightarrow> int \<Rightarrow> string \<Rightarrow> gateway \<Rightarrow> bool" where
  "live_ready c r a u i s \<longleftrightarrow> only r i {} s \<and> ready c r (liveAccountSlotKey a) i s \<and> ready c r (liveUserSlotKey u) i s"

lemma frames_live_ready: "frames c r {i} (live_ready c r a u i)"
  using frames_conj [OF frames_only [of c r i "{}"] frames_conj [OF frames_ready [of c r i "liveAccountSlotKey a"]
      frames_ready [of c r i "liveUserSlotKey u"]]]
  by (simp add: live_ready_def [abs_def])

text \<open>
  An attempt that is repeated finds the lease of the one before: either nothing is there yet, or
  all of it is.
\<close>

definition stamped :: "concurrencyCache \<Rightarrow> nat \<Rightarrow> string list \<Rightarrow> string \<Rightarrow> gateway \<Rightarrow> bool" where
  "stamped c r ks i s \<longleftrightarrow> (\<exists>b. gw_Issued s i = Some (r, b) \<and>
     ((\<forall>k \<in> set ks. leases c s k i = None) \<or> (\<forall>k \<in> set ks. held_since c k i b s)))"

lemma frames_stamped: "frames c r {i} (\<lambda>s. only r i {} s \<and> stamped c r ks i s)"
  unfolding frames_def
proof (intro conjI allI impI)
  fix s t assume s: "only r i {} s \<and> stamped c r ks i s" and t: "rd_Clock s \<le> rd_Clock t"
    and "\<forall>i \<in> {i}. unchanged c i s t"
  then have u: "unchanged c i s t" by simp
  then show "only r i {} t" using s t by (intro frames_keep [OF frames_only, of r i "{}" s t]) simp_all
  from s obtain b where b: "gw_Issued s i = Some (r, b)"
    "(\<forall>k \<in> set ks. leases c s k i = None) \<or> (\<forall>k \<in> set ks. held_since c k i b s)" by (auto simp: stamped_def)
  have "gw_Issued t i = Some (r, b)" using b(1) u by (simp add: unchanged_def)
  with b(2) show "stamped c r ks i t"
    unfolding stamped_def using unchanged_none [OF u] held_since_unchanged [OF _ u t] by metis
qed (simp add: only_def)

lemma renewed_held:
  assumes "leases c t' = renew ks i (redis_TIME t) L" "b \<le> redis_TIME t" "k \<in> set ks"
  shows "held_since c k i b t'"
  using assms by (auto simp: held_since_def renew_at)

lemma acts_AcquireLiveLease:
  assumes F: "frames c r Y F" "F s" and i: "i \<notin> Y" "only r i {} s" and new: "\<And>k. leases c s k i = None"
    and n: "fits (lm_account lim a) n" "fits (lm_user lim u) m"
  shows "gate_acts c lim r (\<lambda>x t. F t \<and> only r i {} t \<and> (x = Some True \<longrightarrow> live_ready c r a u i t))
    (AcquireLiveLease c a n u m k i True) s"
proof (cases "a \<le> 0 \<or> u \<le> 0 \<or> k \<le> 0 \<or> i = []")
  case True
  with F(2) i(2) show ?thesis by (auto simp: AcquireLiveLease_def)
next
  case False
  let ?f = "acquireLiveLeaseScript (accountSlotKey a) (liveAccountSlotKey a) (userSlotKey u) (liveUserSlotKey u)
        (liveAPIKeySlotKey k) n m liveLeaseTTLSeconds i 1 :: gateway \<Rightarrow> _"
  let ?ks = "live_keys a u k"
  let ?P = "\<lambda>t. only r i {} t \<and> stamped c r ?ks i t"
  have start: "?P s" using i(2) new by (auto simp: stamped_def only_def mine_def)
  show ?thesis unfolding AcquireLiveLease_def if_not_P [OF False] if_True
  proof (rule acts_own_sent [OF F i(1) frames_stamped start])
    fix t assume t: "?P t" "gate_inv c lim t"
    note step = live_acquire_step [OF t(2) n surjective_pairing, where k = k and i = i]
    have books: "same_books t (fst (?f t))" "rd_Clock (fst (?f t)) = rd_Clock t"
      using step(1) by (simp_all add: own_change_def)
    have only: "only r i {} (fst (?f t))" using t(1) books by (simp add: only_def mine_def same_books_def)
    obtain b where b: "gw_Issued t i = Some (r, b)"
      "(\<forall>k \<in> set ?ks. leases c t k i = None) \<or> (\<forall>k \<in> set ?ks. held_since c k i b t)"
      using t(1) unfolding stamped_def by blast
    have le: "b \<le> redis_TIME t" using t(2) b(1) by (auto simp: gate_inv_def ids_ok_def)
    have b': "gw_Issued (fst (?f t)) i = Some (r, b)" using b(1) books by (simp add: same_books_def)
    have T: "redis_TIME (fst (?f t)) = redis_TIME t" by (rule TIME_clock [OF books(2)])
    have after: "(leases c (fst (?f t)) = leases c t \<and> (snd (?f t) = 1 \<longrightarrow> leases c t (liveAccountSlotKey a) i \<noteq> None)) \<or>
        (\<forall>k \<in> set ?ks. held_since c k i b (fst (?f t)))"
      using step(2) by (elim disjE) (blast, blast intro: renewed_held [OF _ le])
    have same: "held_since c q i b (fst (?f t)) = held_since c q i b t"
      if "leases c (fst (?f t)) = leases c t" for q using that T by (simp add: held_since_def)
    have P: "?P (fst (?f t))"
    proof (intro conjI only)
      show "stamped c r ?ks i (fst (?f t))"
      proof (cases "leases c (fst (?f t)) = leases c t")
        case True
        with b(2) same [OF True] b' show ?thesis by (simp add: stamped_def)
      next
        case False
        with after b' show ?thesis unfolding stamped_def by blast
      qed
    qed
    show "own_change c lim i t (fst (?f t)) \<and> ?P (fst (?f t)) \<and>
        (only r i {} t \<or> no_older c i t (fst (?f t)))" using step(1) P t(1) by blast
    have "live_ready c r a u i (fst (?f t))" if "snd (?f t) = 1"
    proof -
      have "\<forall>k \<in> set ?ks. held_since c k i b (fst (?f t))" using after
      proof
        assume l: "leases c (fst (?f t)) = leases c t \<and> (snd (?f t) = 1 \<longrightarrow> leases c t (liveAccountSlotKey a) i \<noteq> None)"
        then have "leases c t (liveAccountSlotKey a) i \<noteq> None" using that by blast
        then have "\<forall>k \<in> set ?ks. held_since c k i b t" using b(2) by (meson list.set_intros(1))
        with same l show ?thesis by blast
      qed
      then have "ready c r k i (fst (?f t))" if "k \<in> set ?ks" for k
        using that only b' slot_keys(4-6) unfolding ready_def only_def by auto
      with only show ?thesis unfolding live_ready_def by (meson list.set_intros)
    qed
    moreover assume "F (fst (?f t))"
    ultimately show "gate_acts c lim r (\<lambda>x t. F t \<and> only r i {} t \<and> (x = Some True \<longrightarrow> live_ready c r a u i t))
        (Return (map_option (\<lambda>v. v = 1) (Some (snd (?f t))))) (fst (?f t))" using only by simp
  qed (use F(2) in simp_all)
qed

section \<open>Keeping it and giving it back\<close>

lemma acts_ReleaseLiveLease:
  assumes F: "frames c r Y F" "F s" and i: "i \<notin> Y" "only r i {} s"
  shows "gate_acts c lim r (\<lambda>_. F) (ReleaseLiveLease c a u k i) s"
proof (cases "i = []")
  case True
  with F(2) show ?thesis by (simp add: ReleaseLiveLease_def)
next
  case False
  show ?thesis unfolding ReleaseLiveLease_def if_not_P [OF False]
  proof (rule acts_own_sent [OF F i(1) frames_only i(2)])
    fix t assume "only r i {} t" "gate_inv c lim t"
    then show "own_change c lim i t (fst (redis_ZREM (liveAPIKeySlotKey k) i (redis_ZREM (liveUserSlotKey u) i
          (redis_ZREM (liveAccountSlotKey a) i t)), ())) \<and>
        only r i {} (fst (redis_ZREM (liveAPIKeySlotKey k) i (redis_ZREM (liveUserSlotKey u) i
          (redis_ZREM (liveAccountSlotKey a) i t)), ())) \<and>
        (only r i {} t \<or> no_older c i t (fst (redis_ZREM (liveAPIKeySlotKey k) i (redis_ZREM (liveUserSlotKey u) i
          (redis_ZREM (liveAccountSlotKey a) i t)), ())))"
      using live_release_step by (simp add: only_def mine_def)
  qed (use F(2) in simp_all)
qed

definition renewed :: "concurrencyCache \<Rightarrow> int \<Rightarrow> int \<Rightarrow> string \<Rightarrow> int \<Rightarrow> gateway \<Rightarrow> bool" where
  "renewed c a u i b s \<longleftrightarrow>
     held_since c (liveAccountSlotKey a) i b s \<and> held_since c (liveUserSlotKey u) i b s"

lemma frames_renewed: "frames c r {i} (\<lambda>s. only r i K s \<and> renewed c a u i b s)"
  using frames_conj [OF frames_held [of c r i K "liveAccountSlotKey a" b] frames_held [of c r i K "liveUserSlotKey u" b]]
  by (simp add: renewed_def conj_ac cong: conj_cong)

lemma acts_RefreshLiveLease:
  assumes o: "only r i K s" and b: "b \<le> redis_TIME s"
  shows "gate_acts c lim r (\<lambda>x t. only r i K t \<and> (x = Some True \<longrightarrow> renewed c a u i b t))
    (RefreshLiveLease c a u k i) s"
proof (cases "i = []")
  case True
  with o show ?thesis by (simp add: RefreshLiveLease_def)
next
  case False
  let ?f = "refreshLiveLeaseScript (live_keys a u k) liveLeaseTTLSeconds i :: gateway \<Rightarrow> _"
  let ?P = "\<lambda>t. only r i K t \<and> b \<le> redis_TIME t"
  show ?thesis unfolding RefreshLiveLease_def if_not_P [OF False]
  proof (rule acts_own_sent [OF frames_True TrueI, where P = ?P])
    show "frames c r {i} ?P" by (rule frames_after [OF frames_only])
    fix t assume t: "?P t" "gate_inv c lim t"
    note step = live_refresh_step [OF t(2) surjective_pairing, where a = a and u = u and k = k and i = i]
    have books: "same_books t (fst (?f t))" "rd_Clock (fst (?f t)) = rd_Clock t"
      using step(1) by (simp_all add: own_change_def)
    have T: "redis_TIME (fst (?f t)) = redis_TIME t" by (rule TIME_clock [OF books(2)])
    have P: "?P (fst (?f t))" using t(1) books(1) T by (simp add: only_def mine_def same_books_def)
    show "own_change c lim i t (fst (?f t)) \<and> ?P (fst (?f t)) \<and>
        (only r i {} t \<or> no_older c i t (fst (?f t)))" using step(1,2) P by blast
    have "renewed c a u i b (fst (?f t))" if "snd (?f t) = 1"
      unfolding renewed_def using renewed_held [OF step(3) [OF that]] t(1) by simp
    with P show "gate_acts c lim r (\<lambda>x t. only r i K t \<and> (x = Some True \<longrightarrow> renewed c a u i b t))
        (Return (map_option (\<lambda>v. v = 1) (Some (snd (?f t))))) (fst (?f t))" by simp
  qed (use o b in simp_all)
qed

lemma held_since_confirm [simp]: "held_since c q j x (confirm k i b t) = held_since c q j x t"
  by (simp add: held_since_def confirm_def)

lemma acts_live_refreshes:
  "only r i K s \<Longrightarrow> gate_acts c lim r (\<lambda>_. only r i K) (live_refreshes c a u k i n) s"
proof (induction n arbitrary: s)
  case (Suc n)
  show ?case unfolding live_refreshes.simps
  proof (rule gate.acts_look, intro conjI gate_guar_refl)
    fix t assume t: "gate_rely c r s t"
    have o: "only r i K t" by (rule frames_subset_rely [OF Suc.prems t])
    show "gate_acts c lim r (\<lambda>_. only r i K)
        (bindP (RefreshLiveLease c a u k i) (\<lambda>x.
           if x = Some True then confirmed_at (liveAccountSlotKey a) i (redis_TIME t) (\<lambda>_.
             confirmed_at (liveUserSlotKey u) i (redis_TIME t) (\<lambda>_. live_refreshes c a u k i n))
           else Return ())) t"
    proof (rule gate.acts_bindP [OF acts_RefreshLiveLease [OF o order_refl]], goal_cases)
      case (1 x v)
      let ?P = "\<lambda>s. only r i K s \<and> renewed c a u i (redis_TIME t) s"
      show ?case
      proof (cases "x = Some True")
        case True
        with 1 have v: "?P v" by blast
        have inner: "gate_acts c lim r (\<lambda>_. only r i K)
            (confirmed_at (liveUserSlotKey u) i (redis_TIME t) (\<lambda>_. live_refreshes c a u k i n)) y" if y: "?P y" for y
        proof (rule acts_confirmed [OF frames_True TrueI _ frames_renewed y], goal_cases)
          case (3 z)
          then show ?case using Suc.IH [OF only_confirm] by blast
        qed (simp_all add: renewed_def)
        show ?thesis unfolding if_P [OF True]
        proof (rule acts_confirmed [OF frames_True TrueI _ frames_renewed v], goal_cases)
          case (3 z)
          then show ?case by (intro inner) (simp add: only_confirm renewed_def)
        qed (simp_all add: renewed_def)
      next
        case False
        with 1 show ?thesis by simp
      qed
    qed
  qed
qed simp

lemma serving_own_fields:
  "only r i (insert k K) (t\<lparr>gw_Serving := (k, i, b) # gw_Serving t\<rparr>)" if "only r i K t"
  using that by (auto simp: only_def mine_def)

lemma ready_serving:
  "ready c r k' i t \<Longrightarrow> k' \<noteq> k \<Longrightarrow> ready c r k' i (t\<lparr>gw_Serving := (k, i, b) # gw_Serving t\<rparr>)"
  by (auto simp: ready_def held_since_def)

lemma live_session_behaves:
  assumes s: "live_ready c r a u i s"
  shows "gate.behaves c lim r (live_session c a u k i ticks) s"
proof -
  let ?a = "liveAccountSlotKey a" and ?u = "liveUserSlotKey u"
  define rest where "rest = bindP (live_refreshes c a u k i ticks) (\<lambda>_.
      served_until (Some (?a, i)) (\<lambda>_. served_until (Some (?u, i)) (\<lambda>_.
        bindP (ReleaseLiveLease c a u k i) (\<lambda>_. Return ()))))"
  have last: "gate.behaves c lim r (bindP (ReleaseLiveLease c a u k i) (\<lambda>_. Return ())) t" if "only r i {} t" for t
    by (rule gate.acts_bindP [OF acts_ReleaseLiveLease [OF frames_True TrueI _ that]]) simp_all
  have leave: "gate.behaves c lim r (served_until (Some (?a, i)) (\<lambda>_. served_until (Some (?u, i)) (\<lambda>_.
      bindP (ReleaseLiveLease c a u k i) (\<lambda>_. Return ())))) t" if t: "only r i {?u, ?a} t" for t
  proof (rule acts_served_until [OF frames_True TrueI _ t], simp)
    fix v assume v: "only r i ({?u, ?a} - {?a}) v"
    show "gate.behaves c lim r (served_until (Some (?u, i)) (\<lambda>_.
        bindP (ReleaseLiveLease c a u k i) (\<lambda>_. Return ()))) v"
    proof (rule acts_served_until [OF frames_True TrueI _ v], simp)
      fix y assume "only r i ({?u, ?a} - {?a} - {?u}) y"
      moreover have "{?u, ?a} - {?a} - {?u} = {}" by auto
      ultimately show "gate.behaves c lim r (bindP (ReleaseLiveLease c a u k i) (\<lambda>_. Return ())) y"
        using last by simp
    qed
  qed
  have rest: "gate.behaves c lim r rest t" if "only r i {?u, ?a} t" for t
    unfolding rest_def by (rule gate.acts_bindP [OF acts_live_refreshes [OF that] leave])
  have second: "gate.behaves c lim r (serve_from (Some (?u, i)) (\<lambda>_. rest)) t"
    if t: "only r i {?a} t \<and> ready c r ?u i t" for t
  proof (rule acts_serve_from [OF frames_True TrueI _ frames_only_ready t], goal_cases)
    case (3 v b)
    then show ?case by (intro rest serving_own_fields) simp
  qed simp_all
  show ?thesis unfolding live_session_def rest_def [symmetric]
  proof (rule acts_serve_from [OF frames_True TrueI _ frames_live_ready s], goal_cases)
    case (3 v b)
    then show ?case
      by (intro second conjI serving_own_fields ready_serving) (simp_all add: live_ready_def)
  qed (simp_all add: live_ready_def)
qed

section \<open>Live calls\<close>

definition live_result ::
  "concurrencyCache \<Rightarrow> nat \<Rightarrow> string set \<Rightarrow> int \<Rightarrow> (int \<times> string) option \<Rightarrow> gateway \<Rightarrow> bool" where
  "live_result c r Y u x s \<longleftrightarrow>
     (case x of None \<Rightarrow> True | Some (a, i) \<Rightarrow> i \<notin> Y \<and> live_ready c r a u i s)"

lemma live_result_None [simp]: "live_result c r Y u None s"
  by (simp add: live_result_def)

lemma frames_maybe_ready:
  "frames c r {i} (\<lambda>s. only r i {} s \<and> (p \<longrightarrow> live_ready c r a u i s))"
  using frames_only [of c r i "{}"] frames_conj [OF frames_only [of c r i "{}"] frames_live_ready [of c r i a u]]
  by (cases p) simp_all

lemma live_result_Some: "live_result c r Y u (Some (a, i)) s \<longleftrightarrow> i \<notin> Y \<and> live_ready c r a u i s"
  by (simp add: live_result_def)

definition live_fits :: "limits \<Rightarrow> live_choice \<Rightarrow> bool" where
  "live_fits lim ch \<longleftrightarrow> fits (lm_account lim (lc_Account ch)) (lc_Concurrency ch)"

text \<open>The rest of an attempt, once the lease was asked for.\<close>

lemma acts_live_asked:
  assumes F: "frames c r Y F" and Y: "i \<notin> Y" "set (ids_of f) \<inter> Y = {}" "i \<notin> set (ids_of f)"
    and s: "F s" "given c r f s" "only r i {} s" "y = Some True \<longrightarrow> live_ready c r a u i s"
    and next_attempt: "\<And>t. F t \<Longrightarrow> gate_acts c lim r (\<lambda>x t. F t \<and> live_result c r Y u x t) again t"
  shows "gate_acts c lim r (\<lambda>x t. F t \<and> live_result c r Y u x t)
    (bindP (run_release c f) (\<lambda>_.
       if y \<noteq> Some True then Return None
       else if created \<and> saved then Return (Some (a, i))
       else bindP (ReleaseLiveLease c a u k i) (\<lambda>_.
         if \<not> created \<and> failover then again else Return None))) s"
proof -
  let ?G = "\<lambda>t. F t \<and> only r i {} t \<and> (y = Some True \<longrightarrow> live_ready c r a u i t)"
  have fr: "frames c r (Y \<union> {i}) ?G" by (rule frames_conj [OF F frames_maybe_ready])
  have G: "?G s" using s by blast
  have f: "returnable r f s" "set (ids_of f) \<inter> (Y \<union> {i}) = {}" using s(2) Y by (auto simp: given_def)
  have giveup: "gate_acts c lim r (\<lambda>x t. F t \<and> live_result c r Y u x t)
      (bindP (ReleaseLiveLease c a u k i) (\<lambda>_. q)) t"
    if t: "F t" "only r i {} t" and q: "q = again \<or> q = Return None" for t q
    by (rule gate.acts_bindP [OF acts_ReleaseLiveLease [OF F t(1) Y(1) t(2)]]) (use q next_attempt in auto)
  show ?thesis
    by (rule gate.acts_bindP [OF acts_run_release [OF fr G f]])
      (use Y(1) in \<open>auto simp: live_result_Some intro: giveup\<close>)
qed

lemma acts_live_attempts:
  assumes F: "frames c r Y F" and w: "works_for r w" and u: "fits (lm_user lim u) m"
  shows "F s \<Longrightarrow> \<forall>ch \<in> set chs. live_fits lim ch \<Longrightarrow>
    gate_acts c lim r (\<lambda>x t. F t \<and> live_result c r Y u x t) (live_attempts c w u m k chs) s"
proof (induction chs arbitrary: s)
  case (Cons ch chs)
  let ?a = "lc_Account ch" and ?n = "lc_Concurrency ch"
  have n: "fits (lm_account lim ?a) ?n" using Cons.prems(2) by (simp add: live_fits_def)
  have again: "gate_acts c lim r (\<lambda>x t. F t \<and> live_result c r Y u x t) (live_attempts c w u m k chs) t" if "F t" for t
    by (rule Cons.IH [OF that]) (use Cons.prems(2) in simp)
  show ?case unfolding live_attempts.simps
  proof (rule gate.acts_bindP [OF acts_service_account [OF F Cons.prems(1) w n]], goal_cases)
    case (1 x t)
    show ?case
    proof (cases "\<exists>f. acquire_result x = Inr (Some f)")
      case False
      then show ?thesis using 1 by (auto split: sum.split option.split)
    next
      case True
      then obtain f where f: "acquire_result x = Inr (Some f)" by blast
      with 1 have t: "F t \<and> given c r f t" and Y: "set (ids_of f) \<inter> Y = {}"
        by (simp_all add: got_maybe_def got_def)
      have fr: "frames c r (Y \<union> set (ids_of f)) (\<lambda>t. F t \<and> given c r f t)"
        by (rule frames_conj [OF F frames_given])
      show ?thesis unfolding f sum.case option.case
      proof (rule acts_generate [OF fr t])
        show "wk_Request w = r" "process_prefix (wk_Prefix w)" using w by (simp_all add: works_for_def)
        fix i v assume v: "only r i {} v" "F v \<and> given c r f v" "i \<notin> Y \<union> set (ids_of f)" "\<And>k. leases c v k i = None"
        show "gate_acts c lim r (\<lambda>x t. F t \<and> live_result c r Y u x t)
            (bindP (AcquireLiveLease c ?a ?n u m k i True) (\<lambda>y. bindP (run_release c f) (\<lambda>_.
               if y \<noteq> Some True then Return None
               else if lc_Created ch \<and> lc_Saved ch then Return (Some (?a, i))
               else bindP (ReleaseLiveLease c ?a u k i) (\<lambda>_.
                 if \<not> lc_Created ch \<and> lc_Failover ch then live_attempts c w u m k chs else Return None)))) v"
        proof (rule gate.acts_bindP [OF acts_AcquireLiveLease [OF fr v(2,3,1,4) n u]], goal_cases)
          case (1 y z)
          then show ?case using Y v(3) by (intro acts_live_asked [OF F]) (simp_all add: again)
        qed
      qed
    qed
  qed
qed simp

lemma live_call_behaves:
  assumes w: "works_for r w" and u: "fits (lm_user lim u) m" and chs: "\<forall>ch \<in> set chs. live_fits lim ch"
  shows "gate.behaves c lim r (live_call c w u m k chs ticks) s"
  unfolding live_call_def
proof (rule gate.acts_bindP [OF acts_TryAcquireUserSlot [OF frames_True TrueI w u]], goal_cases)
  case (1 x t)
  show ?case
  proof (cases "\<exists>f. x = Inr (Some f)")
    case False
    then show ?thesis by (auto split: sum.split option.split)
  next
    case True
    then obtain f where f: "x = Inr (Some f)" by blast
    with 1 have given: "given c r f t" by (simp add: got_maybe_def got_def)
    have take: "\<forall>ch \<in> set (take 4 chs). live_fits lim ch" using chs by (meson in_set_takeD)
    show ?thesis unfolding f sum.case option.case CreateLiveCall_def
    proof (rule gate.acts_bindP [OF acts_live_attempts [OF frames_given w u given take]], goal_cases)
      case (1 created v)
      then have ret: "returnable r f v" by (simp add: given_def)
      show ?case
      proof (cases created)
        case None
        show ?thesis unfolding None option.case
          by (rule gate.acts_bindP [OF acts_run_release [OF frames_True TrueI ret]]) simp_all
      next
        case (Some p)
        obtain a i where p: "created = Some (a, i)" using Some by (cases p) simp
        with 1 have i: "i \<notin> set (ids_of f)" "live_ready c r a u i v" by (simp_all add: live_result_Some)
        show ?thesis unfolding p option.case prod.case
          by (rule gate.acts_bindP [OF acts_run_release [OF frames_live_ready i(2) ret]])
            (use i(1) in \<open>auto intro: live_session_behaves\<close>)
      qed
    qed
  qed
qed

end
