(* ===== verification/ConcurrencyCapacity.thy ===== *)
theory ConcurrencyCapacity
  imports ConcurrencyLive
begin

text \<open>
  The limits hold. \<open>gateway_program\<close> lists what runs against the store: requests, connections, live
  calls, the cleanup worker, load queries and the clock, under limits that everyone agrees on.
  However they interleave, whatever fails or is sent twice, and whoever stops for good, no account,
  user or key is used beyond its limit by requests whose slot is not older than its time to live.
\<close>

section \<open>What runs\<close>

definition clock_program :: "nat \<Rightarrow> (gateway, unit) prog" where
  "clock_program n = local_step (\<lambda>s. (redis_wait n s, ())) Return"

inductive gateway_program :: "concurrencyCache \<Rightarrow> limits \<Rightarrow> nat \<Rightarrow> (gateway, unit) prog \<Rightarrow> bool"
  for c :: concurrencyCache and lim :: limits and r :: nat where
  request: "works_for r w \<Longrightarrow> fits (lm_user lim (gc_User q)) (gc_UserConcurrency q) \<Longrightarrow>
    list_all (plan_fits lim) (gc_Accounts q) \<Longrightarrow> gateway_program c lim r (gateway_request c w q)"
| connection: "works_for r w \<Longrightarrow> fits (lm_ingress lim k) n \<Longrightarrow>
    gateway_program c lim r (ws_connection c w k n ticks)"
| live: "works_for r w \<Longrightarrow> fits (lm_user lim u) m \<Longrightarrow> list_all (live_fits lim) chs \<Longrightarrow>
    gateway_program c lim r (live_call c w u m k chs ticks)"
| cleanup: "gateway_program c lim r (bindP (CleanupExpiredAccountSlotKeys c) (\<lambda>_. Return ()))"
| cleanup_one: "gateway_program c lim r (bindP (CleanupExpiredAccountSlots c a) (\<lambda>_. Return ()))"
| account_loads: "gateway_program c lim r (bindP (GetAccountsLoadBatch c as) (\<lambda>_. Return ()))"
| user_loads: "gateway_program c lim r (bindP (GetUsersLoadBatch c as) (\<lambda>_. Return ()))"
| account_counts: "gateway_program c lim r (bindP (GetAccountConcurrencyBatch c ids) (\<lambda>_. Return ()))"
| key_counts: "gateway_program c lim r (bindP (GetAPIKeyConcurrencyBatch c ids) (\<lambda>_. Return ()))"
| count: "p = GetAccountConcurrency c i \<or> p = GetUserConcurrency c i \<or> p = GetAccountWaitingCount c i \<Longrightarrow>
    gateway_program c lim r (bindP p (\<lambda>_. Return ()))"
| clock: "gateway_program c lim r (clock_program n)"

lemma within_wait: "slots_ok c s \<Longrightarrow> within lim (leases c s) \<Longrightarrow> within lim (leases c (redis_wait n s))"
  by (erule within_shrink [of lim "leases c s"]) (auto simp: leases_wait split: option.splits if_splits)

lemma public_clock: "public_prog c lim (clock_program n) T"
  unfolding clock_program_def local_step_def public_Atomic
proof (intro allI impI)
  fix r s assume inv: "gate_inv c lim s"
  have ok: "slots_ok c s" by (rule inv_slots [OF inv])
  let ?s = "redis_wait n s"
  have T: "redis_TIME s \<le> redis_TIME ?s" by (rule TIME_wait)
  have "public_step c s ?s"
    using T by (auto simp: public_step_def unchanged_def leases_wait [OF ok] redis_simps split: option.splits)
  moreover have "gate_inv c lim ?s"
  proof -
    have "leases c ?s k i \<noteq> None \<Longrightarrow> leases c s k i \<noteq> None" for k i
      by (auto simp: leases_wait [OF ok] split: option.splits)
    then have "issued_ok c ?s" using inv unfolding gate_inv_def issued_ok_def gw_commands by blast
    moreover have "serving_ok c ?s" using inv T
      by (fastforce simp: gate_inv_def serving_ok_def leases_wait [OF ok] split: option.splits)
    moreover have "ids_ok ?s" using inv T by (fastforce simp: gate_inv_def ids_ok_def)
    moreover have "redis_GET k ?s = Some v \<Longrightarrow> redis_GET k s = Some v" for k v using GET_wait [of k n s] by auto
    then have "queues_ok lim ?s" using inv unfolding gate_inv_def queues_ok_def by blast
    ultimately show ?thesis
      using inv slots_ok_wait [OF ok] within_wait [OF ok] by (simp add: gate_inv_def)
  qed
  ultimately show "public_step c s (fst (fst (redis_wait n s, ()), Return (snd (redis_wait n s, ())))) \<and>
      gate_inv c lim (fst (fst (redis_wait n s, ()), Return (snd (redis_wait n s, ())))) \<and>
      public_prog c lim (snd (fst (redis_wait n s, ()), Return (snd (redis_wait n s, ())))) (redis_TIME s)"
    by simp
qed

lemma gateway_program_behaves:
  "gateway_program c lim r p \<Longrightarrow> gate.behaves c lim r p s"
proof (induction rule: gateway_program.induct)
  case (request w q)
  then show ?case by (intro gateway_request_behaves) (simp_all add: list_all_iff)
next
  case (live w u m chs k ticks)
  then show ?case by (intro live_call_behaves) (simp_all add: list_all_iff)
next
  case (count p i)
  then have "public_prog c lim p T" for T by auto
  then have "public_prog c lim (bindP p (\<lambda>_. Return ())) (redis_TIME s)" by (intro public_bindP) simp_all
  then show ?case by (rule acts_public_frame [OF _ frames_True TrueI])
next
  case (clock n)
  show ?case by (rule acts_public_frame [OF public_clock frames_True TrueI])
qed (auto intro!: ws_connection_behaves acts_public_frame [OF public_bindP frames_True TrueI])

section \<open>Reachable states\<close>

text \<open>A server without slots, counters and requests.\<close>

definition fresh_gateway :: "int \<Rightarrow> gateway" where
  "fresh_gateway now = \<lparr>rd_Clock = now, rd_ZSets = Map.empty, rd_Counters = Map.empty,
     gw_Counters = (\<lambda>_. 0), gw_Issued = Map.empty, gw_Serving = []\<rparr>"

definition cache_configured :: "concurrencyCache \<Rightarrow> bool" where
  "cache_configured c \<longleftrightarrow> (\<exists>n m w. c = NewConcurrencyCache n m w)"

lemma configured_ttl: "cache_configured c \<Longrightarrow> 0 < cc_slotTTLSeconds c \<and> 0 < cc_waitQueueTTLSeconds c"
  by (auto simp: cache_configured_def NewConcurrencyCache_def Let_def defaultSlotTTLMinutes_def)

lemma fresh_inv: "cache_configured c \<Longrightarrow> gate_inv c lim (fresh_gateway now)"
proof -
  assume c: "cache_configured c"
  have e: "members (fresh_gateway now) k = []" "expiry (fresh_gateway now) k = None" "redis_GET k (fresh_gateway now) = None"
    for k by (simp_all add: fresh_gateway_def members_def expiry_def zset_at_def redis_GET_def counter_at_def)
  have l: "leases c (fresh_gateway now) = (\<lambda>_. Map.empty)"
    by (simp add: fun_eq_iff leases_def e unexpired_def)
  show ?thesis using configured_ttl [OF c]
    by (simp add: gate_inv_def slots_ok_def slot_ok_def e l within_def held_def queues_ok_def ids_ok_def issued_ok_def
        serving_ok_def) (simp_all add: fresh_gateway_def)
qed

lemma reachable_inv:
  assumes "cache_configured c" "team_reaches (gateway_program c lim) (fresh_gateway now) s"
  shows "gate_inv c lim s"
proof (rule gate.team_reaches_holds [OF _ fresh_inv [OF assms(1)] _ assms(2)])
  show "gate_idle r (fresh_gateway now)" for r by (simp add: gate_idle_def mine_def fresh_gateway_def)
qed (rule gateway_program_behaves)

section \<open>In service\<close>

text \<open>The requests being served under a key whose slot has been theirs within its time to live.\<close>

definition in_service :: "concurrencyCache \<Rightarrow> string \<Rightarrow> gateway \<Rightarrow> int" where
  "in_service c key s =
     int (length (filter (\<lambda>(k, _, t). k = key \<and> redis_TIME s < t + key_ttl c k) (gw_Serving s)))"

lemma in_service_held:
  assumes inv: "gate_inv c lim s" shows "in_service c key s \<le> held (leases c s) key"
proof -
  let ?xs = "filter (\<lambda>(k, _, t). k = key \<and> redis_TIME s < t + key_ttl c k) (gw_Serving s)"
  define ids where "ids = map (\<lambda>(_, i, _). i) ?xs"
  have "map (\<lambda>(k, i, _). (k, i)) ?xs = map (Pair key) ids" by (auto simp: ids_def)
  moreover have "distinct (map (\<lambda>(k, i, _). (k, i)) ?xs)"
    using inv by (simp add: gate_inv_def serving_ok_def distinct_map_filter)
  ultimately have "distinct (map (Pair key) ids)" by metis
  then have d: "distinct ids" unfolding distinct_map by simp
  have "set ids \<subseteq> dom (leases c s key)"
    using inv by (fastforce simp: gate_inv_def serving_ok_def ids_def)
  then have "card (set ids) \<le> card (dom (leases c s key))" by (rule card_mono [OF leases_finite])
  then show ?thesis using distinct_card [OF d] by (simp add: in_service_def held_def ids_def)
qed

section \<open>After a time to live\<close>

lemma leases_gone:
  assumes ok: "slots_ok c s" and d: "1000 * max 60 (cc_slotTTLSeconds c) \<le> int d"
  shows "leases c (redis_wait d s) q j = None"
proof (cases "leases c s q j")
  case (Some sc)
  have "sc \<le> redis_TIME s" by (rule lease_le_TIME [OF ok Some])
  moreover have "redis_TIME s + max 60 (cc_slotTTLSeconds c) \<le> redis_TIME (redis_wait d s)"
    using d by (simp add: redis_TIME_def redis_simps)
  moreover have "key_ttl c q \<le> max 60 (cc_slotTTLSeconds c)" by (simp add: key_ttl_def)
  ultimately have "sc + key_ttl c q \<le> redis_TIME (redis_wait d s)" by linarith
  then show ?thesis by (simp add: leases_wait [OF ok] Some)
qed (simp add: leases_wait [OF ok])

lemma acquire_free:
  assumes ok: "slots_ok c s" and keys: "slot_key key" "slot_key liveKey" "liveKey \<noteq> key"
      "cc_slotTTLSeconds c = key_ttl c key" "key_ttl c liveKey = 60"
    and none: "\<And>j. leases c s key j = None" "\<And>j. leases c s liveKey j = None" and n: "0 < n"
  shows "snd (run_alone (redis_call c (acquireScript key liveKey n (cc_slotTTLSeconds c) i)
      (\<lambda>x. case x of
         None \<Rightarrow> Return None
       | Some (result, now) \<Rightarrow>
           (if result = 1 then bindP (touchActiveIndexAt c idx a (now + cc_slotTTLSeconds c)) (\<lambda>_. Return (Some True))
            else Return (Some False)))) s) = Some True"
proof -
  obtain t x now where run: "acquireScript key liveKey n (cc_slotTTLSeconds c) i s = (t, x, now)"
    by (metis prod.exhaust)
  have "x = 1"
    using acquireScript_refines(1) [OF ok keys run] none n by (auto simp: spec_acquire_def spec_admits_def dom_def)
  with run show ?thesis by simp
qed

section \<open>Concrete runs\<close>

definition one_each :: limits where
  "one_each = \<lparr>lm_account = (\<lambda>_. 1), lm_user = (\<lambda>_. 1), lm_ingress = (\<lambda>_. 1), lm_waiting = (\<lambda>_. 1)\<rparr>"

definition default_cache :: concurrencyCache where "default_cache = NewConcurrencyCache 0 0 0"

text \<open>A request of a user at account 7, one concurrent request each, from some process.\<close>

definition worker_of :: "nat \<Rightarrow> nat \<Rightarrow> worker" where
  "worker_of r process = \<lparr>wk_Request = r, wk_Prefix = initRequestIDPrefix process\<rparr>"

definition simple_call :: "int \<Rightarrow> gateway_call" where
  "simple_call u = \<lparr>gc_User = u, gc_UserConcurrency = 1, gc_APIKey = None, gc_Waiting = [],
     gc_Accounts = [\<lparr>ch_Account = 7, ch_Concurrency = 1, ch_WaitPlan = None\<rparr>]\<rparr>"

definition request_of :: "nat \<Rightarrow> nat \<Rightarrow> int \<Rightarrow> (gateway, unit) prog" where
  "request_of r process u = gateway_request default_cache (worker_of r process) (simple_call u)"

lemma request_starts: "gateway_program default_cache one_each r (request_of r process u)"
  unfolding request_of_def
  by (rule gateway_program.request)
    (auto simp: works_for_def worker_of_def process_prefix_def simple_call_def one_each_def fits_def plan_fits_def)

lemma default_configured: "cache_configured default_cache"
  by (auto simp: cache_configured_def default_cache_def)

end
