(* ===== verification/ConcurrencyRuns.thy ===== *)
theory ConcurrencyRuns
  imports ConcurrencyCapacity
begin

text \<open>
  Concrete runs: a request that is being served, and a second process that starts up meanwhile.
\<close>

section \<open>Evaluation\<close>

lemma numerals_eval:
  "FormatInt10 3 = ''3''" "FormatInt10 4 = ''4''" "FormatInt10 7 = ''7''" "FormatUint 36 (Suc 0) = ''1''"
  "FormatUint 36 2 = ''2''" "FormatUint 36 (Suc (Suc 0)) = ''2''" "index_id ''7'' = Some 7" "index_id ''3'' = Some 3"
  by code_simp+

lemmas redis_eval = redis_ZADD_def redis_ZREM_def redis_ZREMRANGEBYSCORE_def redis_ZSCORE_def redis_ZCARD_def
  redis_EXPIRE_def redis_ZRANGE_def redis_DEL_def redis_SET_def redis_GET_def members_def zset_at_def put_zset_def
  expired_def counter_at_def redis_TIME_def key_defs Let_def

lemmas request_eval = acquireUserSlotWithWaitTimeout_def TryAcquireUserSlot_def service_AcquireUserSlot_def
  AcquireUserSlot_def account_slot_def service_AcquireAccountSlot_def AcquireAccountSlot_def generateRequestID_def
  acquireScript_def touchActiveIndexAt_def withAPIKeySlot_def acquire_result_def worker_of_def simple_call_def
  default_cache_def NewConcurrencyCache_def initRequestIDPrefix_def defaultSlotTTLMinutes_def

section \<open>One request in service\<close>

text \<open>The store once request 0 of process 1 has its user's slot, and the slot of account 7.\<close>

definition user_held :: gateway where
  "user_held = \<lparr>rd_Clock = 0,
     rd_ZSets = [''concurrency:user:3'' \<mapsto> \<lparr>z_Members = [(''r1-1'', 0)], z_ExpireAt = Some 900000\<rparr>,
       ''concurrency:user:active_index'' \<mapsto> \<lparr>z_Members = [(''3'', 900)], z_ExpireAt = None\<rparr>],
     rd_Counters = Map.empty, gw_Counters = (\<lambda>_. 0)(''r1'' := 1), gw_Issued = [''r1-1'' \<mapsto> (0, 0)],
     gw_Serving = []\<rparr>"

definition user_served :: gateway where
  "user_served = user_held\<lparr>gw_Serving := [(''concurrency:user:3'', ''r1-1'', 0)]\<rparr>"

definition account_held :: gateway where
  "account_held = user_held\<lparr>
     rd_ZSets := (rd_ZSets user_held)(
       ''concurrency:account:7'' \<mapsto> \<lparr>z_Members = [(''r1-2'', 0)], z_ExpireAt = Some 900000\<rparr>,
       ''concurrency:account:active_index'' \<mapsto> \<lparr>z_Members = [(''7'', 900)], z_ExpireAt = None\<rparr>),
     gw_Counters := (\<lambda>_. 0)(''r1'' := 2),
     gw_Issued := [''r1-1'' \<mapsto> (0, 0), ''r1-2'' \<mapsto> (0, 0)],
     gw_Serving := [(''concurrency:user:3'', ''r1-1'', 0)]\<rparr>"

definition one_served :: gateway where
  "one_served = account_held\<lparr>gw_Serving := (''concurrency:account:7'', ''r1-2'', 0) # gw_Serving account_held\<rparr>"

lemma user_held_run:
  "run_alone (acquireUserSlotWithWaitTimeout default_cache (worker_of 0 1) None 3 1 []) (fresh_gateway 0) =
     (user_held, Inr (ReleaseUser 3 ''r1-1''))"
  by (simp add: request_eval redis_eval numerals_eval fresh_gateway_def user_held_def)

lemma account_held_run:
  "run_alone (account_slot default_cache (worker_of 0 1) \<lparr>ch_Account = 7, ch_Concurrency = 1, ch_WaitPlan = None\<rparr>)
     user_served =
     (account_held, Inr (ReleaseAccount 7 ''r1-2''))"
  by (simp add: request_eval redis_eval numerals_eval account_held_def user_held_def user_served_def numeral_2_eq_2)

text \<open>A request reaches its upstream call once both of its slots are granted.\<close>

lemma solo_request:
  assumes user: "run_alone (acquireUserSlotWithWaitTimeout c w (gc_APIKey q) (gc_User q) (gc_UserConcurrency q)
      (gc_Waiting q)) s = (s1, Inr f)"
    and f: "occupied f = Some (k, i)" "gw_Issued s1 i = Some (r, b)"
    and chs: "gc_Accounts q = ch # chs"
    and account: "run_alone (account_slot c w ch) (s1\<lparr>gw_Serving := (k, i, b) # gw_Serving s1\<rparr>) = (s2, Inr g)"
    and g: "occupied g = Some (k', i')" "gw_Issued s2 i' = Some (r', b')"
  shows "\<exists>p. solo (s, gateway_request c w q) (s2\<lparr>gw_Serving := (k', i', b') # gw_Serving s2\<rparr>, p)"
proof -
  define body where "body = (\<lambda>x :: unit. bindP (serve_accounts c w (gc_Accounts q)) (\<lambda>_.
      served_until (occupied f) (\<lambda>_. run_release c f)))"
  define t where "t = s1\<lparr>gw_Serving := (k, i, b) # gw_Serving s1\<rparr>"
  have "solo (s, gateway_request c w q) (s1, serve_from (occupied f) body)"
    unfolding gateway_request_def body_def by (rule solo_prefix [OF user]) simp
  moreover have "solo (s1, serve_from (occupied f) body) (t, body ())"
    using solo_local_step [of s1 "\<lambda>s. case occupied f of None \<Rightarrow> (s, ())
      | Some (key, i) \<Rightarrow> (s\<lparr>gw_Serving := (key, i, case gw_Issued s i of None \<Rightarrow> 0 | Some (_, t) \<Rightarrow> t) # gw_Serving s\<rparr>, ())"
      body] f by (simp add: serve_from_def t_def)
  moreover define tail where "tail = (\<lambda>x :: unit. served_until (occupied g) (\<lambda>_.
      bindP (run_release c g) (\<lambda>_. serve_accounts c w chs)))"
  have "solo (t, serve_accounts c w (gc_Accounts q)) (s2, serve_from (occupied g) tail)"
    unfolding chs serve_accounts.simps tail_def t_def by (rule solo_prefix [OF account]) simp
  moreover have "solo (s2, serve_from (occupied g) tail) (s2\<lparr>gw_Serving := (k', i', b') # gw_Serving s2\<rparr>, tail ())"
    using solo_local_step [of s2 "\<lambda>s. case occupied g of None \<Rightarrow> (s, ())
      | Some (key, i) \<Rightarrow> (s\<lparr>gw_Serving := (key, i, case gw_Issued s i of None \<Rightarrow> 0 | Some (_, t) \<Rightarrow> t) # gw_Serving s\<rparr>, ())"
      tail] g by (simp add: serve_from_def)
  ultimately have "solo (t, body ()) (s2\<lparr>gw_Serving := (k', i', b') # gw_Serving s2\<rparr>,
      bindP (tail ()) (\<lambda>_. served_until (occupied f) (\<lambda>_. run_release c f)))"
    unfolding body_def by (intro solo_bindP) (rule rtranclp_trans)
  with \<open>solo (s, gateway_request c w q) (s1, serve_from (occupied f) body)\<close>
    \<open>solo (s1, serve_from (occupied f) body) (t, body ())\<close>
  show ?thesis by (meson rtranclp_trans)
qed

abbreviation account_seven :: account_choice where
  "account_seven \<equiv> \<lparr>ch_Account = 7, ch_Concurrency = 1, ch_WaitPlan = None\<rparr>"

text \<open>The same for the calls at hand, with the slots given by name.\<close>

lemma solo_simple_call:
  assumes "run_alone (acquireUserSlotWithWaitTimeout default_cache (worker_of r p) None u 1 []) s = (s1, Inr (ReleaseUser u i))"
    "run_alone (account_slot default_cache (worker_of r p) account_seven)
       (s1\<lparr>gw_Serving := (userSlotKey u, i, b) # gw_Serving s1\<rparr>) = (s2, Inr (ReleaseAccount 7 j))"
    "gw_Issued s1 i = Some (x, b)" "gw_Issued s2 j = Some (y, d)"
  shows "\<exists>p'. solo (s, request_of r p u) (s2\<lparr>gw_Serving := (accountSlotKey 7, j, d) # gw_Serving s2\<rparr>, p')"
  unfolding request_of_def
  by (rule solo_request [where f = "ReleaseUser u i" and g = "ReleaseAccount 7 j"]) (use assms in \<open>simp_all add: simple_call_def\<close>)

lemma one_served_solo: "\<exists>p. solo (fresh_gateway 0, request_of 0 1 3) (one_served, p)"
proof -
  have served: "user_held\<lparr>gw_Serving := (userSlotKey 3, ''r1-1'', 0) # gw_Serving user_held\<rparr> = user_served"
    by (simp add: user_held_def user_served_def key_defs numerals_eval)
  have one: "account_held\<lparr>gw_Serving := (accountSlotKey 7, ''r1-2'', 0) # gw_Serving account_held\<rparr> = one_served"
    by (simp add: one_served_def key_defs numerals_eval)
  show ?thesis unfolding one [symmetric]
  proof (rule solo_simple_call [OF user_held_run])
    show "run_alone (account_slot default_cache (worker_of 0 1) account_seven)
        (user_held\<lparr>gw_Serving := (userSlotKey 3, ''r1-1'', 0) # gw_Serving user_held\<rparr>) =
        (account_held, Inr (ReleaseAccount 7 ''r1-2''))"
      unfolding served by (rule account_held_run)
  qed (simp_all add: user_held_def account_held_def)
qed

lemma one_served_reached:
  "\<exists>p. (team_step (gateway_program default_cache one_each))\<^sup>*\<^sup>* (fresh_gateway 0, Map.empty) (one_served, [0 \<mapsto> p])"
proof -
  obtain p where "solo (fresh_gateway 0, request_of 0 1 3) (one_served, p)" using one_served_solo by blast
  then have "(team_step (gateway_program default_cache one_each))\<^sup>*\<^sup>* (fresh_gateway 0, Map.empty) (one_served, [0 \<mapsto> p])"
    by (intro join_solo [where s = "fresh_gateway 0"]) (simp_all add: request_starts)
  then show ?thesis ..
qed

lemma one_in_service: "in_service default_cache (accountSlotKey 7) one_served = 1"
  by (simp add: in_service_def one_served_def account_held_def user_held_def key_defs numerals_eval redis_TIME_def
      key_ttl_def has_prefix_def default_cache_def NewConcurrencyCache_def defaultSlotTTLMinutes_def Let_def)

section \<open>A second process starts\<close>

text \<open>What runs when more than one process is deployed: each cleans up when it starts.\<close>

definition startup_program :: "concurrencyCache \<Rightarrow> worker \<Rightarrow> string list list \<Rightarrow> string list list \<Rightarrow> (gateway, unit) prog" where
  "startup_program c w accountBatches userBatches =
     bindP (CleanupStaleProcessSlots c accountBatches userBatches (wk_Prefix w)) (\<lambda>_. Return ())"

inductive deployment_program :: "concurrencyCache \<Rightarrow> limits \<Rightarrow> nat \<Rightarrow> (gateway, unit) prog \<Rightarrow> bool"
  for c :: concurrencyCache and lim :: limits and r :: nat where
  running: "gateway_program c lim r p \<Longrightarrow> deployment_program c lim r p"
| starting: "works_for r w \<Longrightarrow> deployment_program c lim r (startup_program c w as us)"

text \<open>The start of process 2 takes the slots of process 1 away.\<close>

definition restarted :: gateway where
  "restarted = \<lparr>rd_Clock = 0, rd_ZSets = Map.empty,
     rd_Counters = [''concurrency:startup:legacy_wait_sweep:v1'' \<mapsto> \<lparr>c_Value = 1, c_ExpireAt = None\<rparr>],
     gw_Counters = (\<lambda>_. 0)(''r1'' := 2), gw_Issued = [''r1-1'' \<mapsto> (0, 0), ''r1-2'' \<mapsto> (0, 0)],
     gw_Serving = [(''concurrency:account:7'', ''r1-2'', 0), (''concurrency:user:3'', ''r1-1'', 0)]\<rparr>"

lemma restarted_run:
  "run_alone (startup_program default_cache (worker_of 1 2) [] []) one_served = (restarted, ())"
  by (simp add: startup_program_def CleanupStaleProcessSlots_def sweepLegacyWaitKeysOnce_def redisUnixSeconds_def
      allIndexMembers_def cleanupStaleProcessSlotsForIndex_def startupCleanupSlotScript_def addActiveIndexMembers_def
      removeActiveIndexMembers_def accountSlotIndex_def userSlotIndex_def legacyWaitSweepMarkerKey_def
      request_eval redis_eval numerals_eval one_served_def account_held_def user_held_def restarted_def)

text \<open>A request of process 2 then finds the account free.\<close>

definition second_user_held :: gateway where
  "second_user_held = restarted\<lparr>
     rd_ZSets := [''concurrency:user:4'' \<mapsto> \<lparr>z_Members = [(''r2-1'', 0)], z_ExpireAt = Some 900000\<rparr>,
       ''concurrency:user:active_index'' \<mapsto> \<lparr>z_Members = [(''4'', 900)], z_ExpireAt = None\<rparr>],
     gw_Counters := (\<lambda>_. 0)(''r1'' := 2, ''r2'' := 1),
     gw_Issued := [''r1-1'' \<mapsto> (0, 0), ''r1-2'' \<mapsto> (0, 0), ''r2-1'' \<mapsto> (2, 0)]\<rparr>"

definition second_user_served :: gateway where
  "second_user_served = second_user_held\<lparr>
     gw_Serving := (''concurrency:user:4'', ''r2-1'', 0) # gw_Serving second_user_held\<rparr>"

definition second_account_held :: gateway where
  "second_account_held = second_user_served\<lparr>
     rd_ZSets := (rd_ZSets second_user_served)(
       ''concurrency:account:7'' \<mapsto> \<lparr>z_Members = [(''r2-2'', 0)], z_ExpireAt = Some 900000\<rparr>,
       ''concurrency:account:active_index'' \<mapsto> \<lparr>z_Members = [(''7'', 900)], z_ExpireAt = None\<rparr>),
     gw_Counters := (\<lambda>_. 0)(''r1'' := 2, ''r2'' := 2),
     gw_Issued := [''r1-1'' \<mapsto> (0, 0), ''r1-2'' \<mapsto> (0, 0), ''r2-1'' \<mapsto> (2, 0), ''r2-2'' \<mapsto> (2, 0)]\<rparr>"

definition two_served :: gateway where
  "two_served = second_account_held\<lparr>
     gw_Serving := (''concurrency:account:7'', ''r2-2'', 0) # gw_Serving second_account_held\<rparr>"

lemma second_user_run:
  "run_alone (acquireUserSlotWithWaitTimeout default_cache (worker_of 2 2) None 4 1 []) restarted =
     (second_user_held, Inr (ReleaseUser 4 ''r2-1''))"
  by (simp add: request_eval redis_eval numerals_eval restarted_def second_user_held_def)

lemma second_account_run:
  "run_alone (account_slot default_cache (worker_of 2 2) account_seven) second_user_served =
     (second_account_held, Inr (ReleaseAccount 7 ''r2-2''))"
  by (simp add: request_eval redis_eval numerals_eval second_user_served_def second_user_held_def restarted_def
      second_account_held_def numeral_2_eq_2)

lemma two_served_solo: "\<exists>p. solo (restarted, request_of 2 2 4) (two_served, p)"
proof -
  have served: "second_user_held\<lparr>gw_Serving := (userSlotKey 4, ''r2-1'', 0) # gw_Serving second_user_held\<rparr> = second_user_served"
    by (simp add: second_user_served_def key_defs numerals_eval)
  have two: "second_account_held\<lparr>gw_Serving := (accountSlotKey 7, ''r2-2'', 0) # gw_Serving second_account_held\<rparr> = two_served"
    by (simp add: two_served_def key_defs numerals_eval)
  show ?thesis unfolding two [symmetric]
  proof (rule solo_simple_call [OF second_user_run])
    show "run_alone (account_slot default_cache (worker_of 2 2) account_seven)
        (second_user_held\<lparr>gw_Serving := (userSlotKey 4, ''r2-1'', 0) # gw_Serving second_user_held\<rparr>) =
        (second_account_held, Inr (ReleaseAccount 7 ''r2-2''))"
      unfolding served by (rule second_account_run)
  qed (simp_all add: second_user_held_def second_account_held_def)
qed

lemma two_in_service: "in_service default_cache (accountSlotKey 7) two_served = 2"
  by (simp add: in_service_def two_served_def second_account_held_def second_user_served_def second_user_held_def
      restarted_def key_defs numerals_eval redis_TIME_def
      key_ttl_def has_prefix_def default_cache_def NewConcurrencyCache_def defaultSlotTTLMinutes_def Let_def)

lemma team_mono:
  "(team_step A)\<^sup>*\<^sup>* x y \<Longrightarrow> (\<And>i p. A i p \<Longrightarrow> B i p) \<Longrightarrow> (team_step B)\<^sup>*\<^sup>* x y"
  by (erule rtranclp_mono [THEN predicate2D, rotated]) (auto elim!: team_step.cases intro: team_step.intros)

lemma two_served_reached: "team_reaches (deployment_program default_cache one_each) (fresh_gateway 0) two_served"
proof -
  let ?D = "deployment_program default_cache one_each"
  obtain p where "(team_step (gateway_program default_cache one_each))\<^sup>*\<^sup>* (fresh_gateway 0, Map.empty) (one_served, [0 \<mapsto> p])"
    using one_served_reached by blast
  then have 1: "(team_step ?D)\<^sup>*\<^sup>* (fresh_gateway 0, Map.empty) (one_served, [0 \<mapsto> p])"
    by (rule team_mono) (rule deployment_program.running)
  have w: "works_for 1 (worker_of 1 2)" by (auto simp: works_for_def worker_of_def process_prefix_def)
  have "solo (one_served, startup_program default_cache (worker_of 1 2) [] []) (restarted, Return ())"
    using solo_run [of one_served "startup_program default_cache (worker_of 1 2) [] []"] by (simp only: restarted_run fst_conv snd_conv)
  from join_solo [where i = 1, OF 1 _ deployment_program.starting [OF w] this]
  have 2: "(team_step ?D)\<^sup>*\<^sup>* (fresh_gateway 0, Map.empty) (restarted, [0 \<mapsto> p, 1 \<mapsto> Return ()])" by simp
  obtain q where "solo (restarted, request_of 2 2 4) (two_served, q)" using two_served_solo by blast
  from join_solo [where i = 2, OF 2 _ deployment_program.running [OF request_starts] this]
  show ?thesis unfolding team_reaches_def by auto
qed

end
