(* ===== verification/ConcurrencyCorrectness.thy ===== *)
theory ConcurrencyCorrectness
  imports ConcurrencyRuns
begin

text \<open>What \<^verbatim>\<open>ConcurrencyService\<close> and its cache promise, and where a second process breaks it.\<close>

section \<open>Capacity\<close>

text \<open>
  C6: However requests, WebSocket connections, live calls, cleanups, load queries and the clock interleave,
  whichever of their Redis calls fail, lose their answer or are sent again, and whoever stops for good: the
  requests being served at an account, or for a user, whose slot is not older than its time to live are never more
  than its limit; with the live sessions they exceed it by at most the one session that replaces its own slot. The
  same holds for the connections of an API key.
\<close>

theorem concurrency_capacity:
  assumes "cache_configured c" "team_reaches (gateway_program c lim) (fresh_gateway now) s"
  shows "(0 < lm_account lim a \<longrightarrow> in_service c (accountSlotKey a) s \<le> lm_account lim a \<and>
      in_service c (accountSlotKey a) s + in_service c (liveAccountSlotKey a) s \<le> lm_account lim a + 1) \<and>
    (0 < lm_user lim u \<longrightarrow> in_service c (userSlotKey u) s \<le> lm_user lim u \<and>
      in_service c (userSlotKey u) s + in_service c (liveUserSlotKey u) s \<le> lm_user lim u + 1) \<and>
    (0 < lm_ingress lim k \<longrightarrow> in_service c (openAIWSIngressLeaseKey k) s \<le> lm_ingress lim k)"
proof (intro conjI [OF _ conjI])
  have inv: "gate_inv c lim s" by (rule reachable_inv [OF assms])
  have le: "in_service c q s \<le> held (leases c s) q" for q by (rule in_service_held [OF inv])
  have L: "within lim (leases c s)" using inv by (simp add: gate_inv_def)
  show "0 < lm_account lim a \<longrightarrow> in_service c (accountSlotKey a) s \<le> lm_account lim a \<and>
      in_service c (accountSlotKey a) s + in_service c (liveAccountSlotKey a) s \<le> lm_account lim a + 1"
    using L le [of "accountSlotKey a"] le [of "liveAccountSlotKey a"] unfolding within_def by (meson add_mono order_trans)
  show "0 < lm_user lim u \<longrightarrow> in_service c (userSlotKey u) s \<le> lm_user lim u \<and>
      in_service c (userSlotKey u) s + in_service c (liveUserSlotKey u) s \<le> lm_user lim u + 1"
    using L le [of "userSlotKey u"] le [of "liveUserSlotKey u"] unfolding within_def by (meson add_mono order_trans)
  show "0 < lm_ingress lim k \<longrightarrow> in_service c (openAIWSIngressLeaseKey k) s \<le> lm_ingress lim k"
    using L le [of "openAIWSIngressLeaseKey k"] unfolding within_def by (meson order_trans)
qed

lemma one_served_reaches: "team_reaches (gateway_program default_cache one_each) (fresh_gateway 0) one_served"
  using one_served_reached by (auto simp: team_reaches_def)

theorem concurrency_capacity_witness:
  "in_service default_cache (accountSlotKey 7) one_served = 1 \<and>
   in_service default_cache (accountSlotKey 7) one_served \<le> lm_account one_each 7"
  using concurrency_capacity [OF default_configured one_served_reaches, of 7 0 0] one_in_service
  by (simp add: one_each_def)

text \<open>
  C26: The counters of waiting requests stay between zero and their bound: twenty for a user, the bound of the
  wait plan for an account, whatever runs.
\<close>

theorem waiting_bounded:
  assumes "cache_configured c" "team_reaches (gateway_program c lim) (fresh_gateway now) s"
  shows "count_of (redis_GET (waitQueueKey u) s) \<in> {0..defaultExtraWaitSlots} \<and>
    count_of (redis_GET (accountWaitKey a) s) \<in> {0..max 0 (lm_waiting lim a)}"
  using reachable_inv [OF assms]
  by (auto simp: gate_inv_def queues_ok_def count_of_def defaultExtraWaitSlots_def le_max_iff_disj split: option.split)

theorem waiting_bounded_witness:
  "count_of (redis_GET (waitQueueKey 3) one_served) \<in> {0..20} \<and>
   count_of (redis_GET (accountWaitKey 7) one_served) \<in> {0..1}"
  using waiting_bounded [OF default_configured one_served_reaches, of 3 7]
  by (simp add: one_each_def defaultExtraWaitSlots_def)

section \<open>The scripts and the lease table\<close>

definition spec_release :: "string \<Rightarrow> string \<Rightarrow> lease_table \<Rightarrow> lease_table" where
  "spec_release key m L = L(key := (L key)(m := None))"

definition spec_pass :: "(string \<Rightarrow> int) \<Rightarrow> int \<Rightarrow> lease_table \<Rightarrow> lease_table" where
  "spec_pass ttl now L = (\<lambda>k m. case L k m of None \<Rightarrow> None | Some t \<Rightarrow> if now < t + ttl k then Some t else None)"

text \<open>
  C16: On a well-formed server the scripts implement a table of leases: acquiring a slot grants it exactly when the
  caller has it already or the leases of the account and its live sessions are fewer than the limit, and then
  records the present second; releasing removes one lease and no other; counting counts the leases and changes none;
  and as time passes exactly the leases older than their time to live disappear, whenever the server drops the
  members and keys. Every step leaves the server well-formed.
\<close>

theorem slots_refine_leases:
  fixes r :: redis
  assumes "slots_ok c r"
  shows "(case acquireScript (accountSlotKey a) (liveAccountSlotKey a) n (cc_slotTTLSeconds c) m r of (r', result, now) \<Rightarrow>
      slots_ok c r' \<and>
      (leases c r', result = 1) = spec_acquire (accountSlotKey a) (liveAccountSlotKey a) n m (redis_TIME r) (leases c r)) \<and>
    (slots_ok c (redis_ZREM (accountSlotKey a) m r) \<and>
      leases c (redis_ZREM (accountSlotKey a) m r) = spec_release (accountSlotKey a) m (leases c r)) \<and>
    (case getCountScript (accountSlotKey a) (liveAccountSlotKey a) (cc_slotTTLSeconds c) r of (r', count) \<Rightarrow>
      slots_ok c r' \<and> leases c r' = leases c r \<and>
      count = int (card (dom (leases c r (accountSlotKey a))) + card (dom (leases c r (liveAccountSlotKey a))))) \<and>
    slots_ok c (redis_wait d r) \<and>
    leases c (redis_wait d r) = spec_pass (key_ttl c) (redis_TIME (redis_wait d r)) (leases c r)"
proof (intro conjI [OF _ conjI [OF _ conjI]])
  have keys: "slot_key (accountSlotKey a)" "slot_key (liveAccountSlotKey a)" "liveAccountSlotKey a \<noteq> accountSlotKey a"
    "cc_slotTTLSeconds c = key_ttl c (accountSlotKey a)" "key_ttl c (liveAccountSlotKey a) = 60" by simp_all
  obtain r' result now where run:
    "acquireScript (accountSlotKey a) (liveAccountSlotKey a) n (cc_slotTTLSeconds c) m r = (r', result, now)"
    by (metis prod.exhaust)
  show "(case acquireScript (accountSlotKey a) (liveAccountSlotKey a) n (cc_slotTTLSeconds c) m r of (r', result, now) \<Rightarrow>
      slots_ok c r' \<and>
      (leases c r', result = 1) = spec_acquire (accountSlotKey a) (liveAccountSlotKey a) n m (redis_TIME r) (leases c r))"
    unfolding run prod.case using acquireScript_refines(1,2) [OF assms keys run] by blast
  show "slots_ok c (redis_ZREM (accountSlotKey a) m r) \<and>
      leases c (redis_ZREM (accountSlotKey a) m r) = spec_release (accountSlotKey a) m (leases c r)"
    using slots_ok_ZREM [OF assms] leases_ZREM [OF assms keys(1)] by (simp add: spec_release_def)
  show "(case getCountScript (accountSlotKey a) (liveAccountSlotKey a) (cc_slotTTLSeconds c) r of (r', count) \<Rightarrow>
      slots_ok c r' \<and> leases c r' = leases c r \<and>
      count = int (card (dom (leases c r (accountSlotKey a))) + card (dom (leases c r (liveAccountSlotKey a)))))"
    using getCountScript_effect [OF assms keys] assms by (simp add: quiet_def lease_count_def case_prod_beta)
  show "slots_ok c (redis_wait d r) \<and>
      leases c (redis_wait d r) = spec_pass (key_ttl c) (redis_TIME (redis_wait d r)) (leases c r)"
    using slots_ok_wait [OF assms] leases_wait [OF assms] by (simp add: spec_pass_def fun_eq_iff)
qed

definition empty_redis :: redis where
  "empty_redis = \<lparr>rd_Clock = 5000, rd_ZSets = Map.empty, rd_Counters = Map.empty\<rparr>"

lemma empty_redis_ok: "slots_ok default_cache empty_redis"
  using configured_ttl [OF default_configured]
  by (simp add: slots_ok_def slot_ok_def empty_redis_def members_def zset_at_def)

theorem slots_refine_leases_witness:
  "leases default_cache (fst (acquireScript (accountSlotKey 7) (liveAccountSlotKey 7) 1 900 ''r1-1'' empty_redis))
     (accountSlotKey 7) ''r1-1'' = Some 5"
proof -
  have "cc_slotTTLSeconds default_cache = 900"
    by (simp add: default_cache_def NewConcurrencyCache_def defaultSlotTTLMinutes_def Let_def)
  moreover have "redis_TIME empty_redis = 5" by (simp add: redis_TIME_def empty_redis_def)
  moreover have "dom (leases default_cache empty_redis k) = {}" for k
    by (simp add: leases_def empty_redis_def members_def zset_at_def unexpired_def)
  ultimately show ?thesis
    using slots_refine_leases [OF empty_redis_ok, THEN conjunct1, of 7 1 "''r1-1''"]
    by (auto simp: spec_acquire_def spec_admits_def split: prod.splits)
qed

section \<open>Slots come free\<close>

text \<open>
  C18: Slots whose owners died are not lost: in whatever state the system is, once the time to live of a slot has
  passed with nobody acquiring, the next request for a slot of an account or a user, or for a connection of a key,
  is granted.
\<close>

theorem slots_come_free:
  assumes "cache_configured c" "team_reaches (gateway_program c lim) (fresh_gateway now) s"
    "1000 * max 60 (cc_slotTTLSeconds c) \<le> int d" "0 < n" "0 < k" "i \<noteq> []"
  shows "snd (run_alone (AcquireAccountSlot c a n i) (redis_wait d s)) = Some True \<and>
    snd (run_alone (AcquireUserSlot c u n i) (redis_wait d s)) = Some True \<and>
    snd (run_alone (AcquireOpenAIWSIngressLease c k n i) (redis_wait d s)) = Some True"
proof (intro conjI)
  have ok: "slots_ok c s" using reachable_inv [OF assms(1,2)] by (rule inv_slots)
  let ?s = "redis_wait d s"
  have ok': "slots_ok c ?s" by (rule slots_ok_wait [OF ok])
  have gone: "leases c ?s q j = None" for q j
    by (rule leases_gone [OF ok assms(3)])
  show "snd (run_alone (AcquireAccountSlot c a n i) ?s) = Some True"
    unfolding AcquireAccountSlot_def by (rule acquire_free [OF ok' _ _ _ _ _ gone gone assms(4)]) simp_all
  show "snd (run_alone (AcquireUserSlot c u n i) ?s) = Some True"
    unfolding AcquireUserSlot_def by (rule acquire_free [OF ok' _ _ _ _ _ gone gone assms(4)]) simp_all
  obtain t x where run: "acquireOpenAIWSIngressLeaseScript (openAIWSIngressLeaseKey k) n
      openAIWSIngressLeaseTTLSeconds i ?s = (t, x)" by fastforce
  have "x = 1"
    using ingress_acquire_effect(3) [OF ok' slot_keys(7) _ run] gone assms(4)
    by (simp add: openAIWSIngressLeaseTTLSeconds_def lease_count_def dom_def)
  then show "snd (run_alone (AcquireOpenAIWSIngressLease c k n i) ?s) = Some True"
    using assms(4-6) run by (simp add: AcquireOpenAIWSIngressLease_def)
qed

theorem slots_come_free_witness:
  "snd (run_alone (AcquireAccountSlot default_cache 7 1 ''r1-9'') (redis_wait 900000 one_served)) = Some True"
proof -
  have "1000 * max 60 (cc_slotTTLSeconds default_cache) \<le> int 900000"
    by (simp add: default_cache_def NewConcurrencyCache_def defaultSlotTTLMinutes_def Let_def)
  from slots_come_free [OF default_configured one_served_reaches this, of 1 1 "''r1-9''" 7 3]
  show ?thesis by simp
qed

section \<open>More than one process\<close>

text \<open>
  A process that starts while another is serving takes the other's slots away: every member of a slot set that
  does not carry its own prefix is removed. The account then admits one request more, and two requests are served
  at once at an account that allows one.
\<close>

theorem second_process_overcommits:
  "\<exists>s. team_reaches (deployment_program default_cache one_each) (fresh_gateway 0) s \<and>
     lm_account one_each 7 = 1 \<and> in_service default_cache (accountSlotKey 7) s = 2"
  by (intro exI [of _ two_served] conjI two_served_reached two_in_service) (simp add: one_each_def)

end
