(* ===== verification/Spec2Isabelle.thy ===== *)
theory Spec2Isabelle
  imports UsageAmounts BatchImagePrograms SelectionCorrectness BridgeRoundtrip IdempotencyConcurrency ProxyFallback ProxyStreamCircuit
    SubscriptionQuota SubscriptionTerms KeywordSearch PaymentRaces ConcurrencyCorrectness
begin

text \<open>
  A verification library for the backend of Sub2API, a gateway that resells access to LLM providers:
  users buy balance or subscriptions and send requests with API keys; the gateway picks a provider
  account, translates between the protocols of client and provider, relays the stream, and counts
  what was used. All sources named below lie under \<^verbatim>\<open>src/backend/internal/\<close>. The theories follow the
  code function by function, under the names of the code; a name that clashes or that two files share
  carries the initials of its record, type or layer in front.

  \<^bold>\<open>Ground.\<close> \<^verbatim>\<open>Prelude\<close> holds Go's times, durations, strings and errors and the shared lemmas.
  Integers are \<^typ>\<open>int\<close> where the code stays far from the bounds of its type, amounts of money are
  rationals (the database columns are decimals), strings are lists of bytes, an error is \<^const>\<open>None\<close>
  or the left side of a sum. \<^verbatim>\<open>Interleaving\<close> is the model of concurrency: a program is the tree of its
  calls to a shared store, each call is answered, refused, or takes effect while its answer is lost;
  any number of programs interleave and each may stop for good anywhere. The locale
  \<open>rely_guarantee\<close> reasons about one program at a time. \<^verbatim>\<open>OwnedPrograms\<close> refines it: in the locale
  \<open>team\<close> every program has an identity, owns what it has drawn, and relies on nobody else touching it.

  \<^bold>\<open>Protocol bridges\<close> (\<^verbatim>\<open>pkg/apicompat\<close>, \<^verbatim>\<open>pkg/claude\<close>). \<^verbatim>\<open>ApiTypes\<close> has the structs of \<^verbatim>\<open>types.go\<close>,
  \<^verbatim>\<open>ClaudeModels\<close> the model catalogue, \<^verbatim>\<open>Base64\<close> the encoding of identifiers.
  \<^verbatim>\<open>ResponsesToAnthropic\<close> and \<^verbatim>\<open>AnthropicToResponses\<close> model the two files of that name: the
  translation of whole responses and the state machine of the stream, one definition per handler.
  The locale \<open>stream_bridge\<close> of \<^verbatim>\<open>StreamBridge\<close> lifts the contract of one step to streams; both
  bridges interpret it. The theorems say that the client sees a well-bracketed message, that all
  text, thinking and tool calls arrive exactly once, that usage is split without loss, and that a
  broken-off stream is completed; \<^verbatim>\<open>BridgeRoundtrip\<close> goes through both. Parameters: \<open>json_env\<close>
  (\<^verbatim>\<open>encoding/json\<close>: validity, decoding and encoding of a text) and, in \<open>a2r_env\<close>, the random
  identifiers and the Unicode tables.

  \<^bold>\<open>Idempotency\<close> (\<^verbatim>\<open>service/idempotency.go\<close>, \<^verbatim>\<open>repository/idempotency_repo.go\<close>).
  \<^verbatim>\<open>IdempotencyStore\<close> has the table and its statements with the contract \<open>idempotency_store\<close>,
  \<^verbatim>\<open>Idempotency\<close> the coordinator \<open>Execute\<close> run alone, \<^verbatim>\<open>IdempotencyConcurrency\<close> requests, lease
  renewals and cleanup interleaved with faults. Shown: mutual exclusion per key, replay of the first
  answer, the answer for every state of a record. Parameters, in \<open>idem_env\<close>: hashing, JSON,
  redaction and the operation that is protected; \<open>timely\<close> are the runs in which no lease or expiry of a
  row that is held has passed while its request is still at work.

  \<^bold>\<open>Proxies\<close> (\<^verbatim>\<open>service/proxy_fallback.go\<close>, \<^verbatim>\<open>service/openai_proxy_stream_circuit.go\<close>).
  \<^verbatim>\<open>ProxyFallback\<close>: the walk along backup proxies ends and moves accounts exactly where the acyclic
  chain leads. \<^verbatim>\<open>ProxyStreamCircuit\<close>: the breaker trips exactly at its threshold of separate incidents,
  blocks exactly for its quarantine, and its table stays bounded.

  \<^bold>\<open>Subscriptions\<close> (\<^verbatim>\<open>service/user_subscription.go\<close>, \<^verbatim>\<open>service/subscription_service.go\<close>,
  \<^verbatim>\<open>repository/user_subscription_repo.go\<close>, \<^verbatim>\<open>pkg/timezone\<close>). \<^verbatim>\<open>Calendar\<close> models days in a time zone (the
  locale \<open>time_zone\<close>; a zone is the parameter Go reads from its database), \<^verbatim>\<open>SubscriptionWindows\<close> the
  usage windows (\<open>window_policy\<close>), \<^verbatim>\<open>SubscriptionStore\<close> the table, \<^verbatim>\<open>SubscriptionService\<close> the
  operations. \<^verbatim>\<open>SubscriptionQuota\<close> shows that the counters are exact under stale and concurrent
  maintenance, \<^verbatim>\<open>SubscriptionTerms\<close> what assigning, renewing, adjusting and admission do.

  \<^bold>\<open>Keyword matcher\<close> (\<^verbatim>\<open>service/content_moderation_keyword_matcher.go\<close>). \<^verbatim>\<open>KeywordMatcher\<close> is the code:
  an Aho-Corasick automaton in arrays. \<^verbatim>\<open>KeywordAutomaton\<close>, \<^verbatim>\<open>KeywordLinks\<close> and \<^verbatim>\<open>KeywordSearch\<close> show
  that building and searching end and answer what a naive scan answers. Parameter: \<^verbatim>\<open>strings.ToLower\<close>.

  \<^bold>\<open>Payments\<close> (\<^verbatim>\<open>service/payment_*.go\<close>, \<^verbatim>\<open>payment/\<close>, \<^verbatim>\<open>service/redeem_service.go\<close>,
  \<^verbatim>\<open>service/affiliate_service.go\<close> and their repositories). \<^verbatim>\<open>PaymentStore\<close> has the tables,
  \<^verbatim>\<open>AffiliateRebate\<close> the rebate of a recharge, \<^verbatim>\<open>RedeemService\<close> redeem codes, \<^verbatim>\<open>PaymentFulfillment\<close> how a
  paid order is credited under a lease, \<^verbatim>\<open>PaymentLifecycle\<close> notifications, verification, cancellation
  and expiry, \<^verbatim>\<open>PaymentCreation\<close> how an order is placed. An order credits a balance by creating and
  redeeming a code of its own; the invariant \<open>pay_inv\<close> of \<^verbatim>\<open>PaymentInvariant\<close> ties order, code, balance and
  rebate together, \<^verbatim>\<open>PaymentTransactions\<close>, \<^verbatim>\<open>PaymentSafety\<close> and \<^verbatim>\<open>PaymentPrograms\<close> show that every
  program keeps it, \<^verbatim>\<open>PaymentCorrectness\<close> draws the conclusions (credited at most once, never lost,
  accounted for), \<^verbatim>\<open>PaymentRetry\<close> shows that one undisturbed attempt completes an order whatever was
  left behind, \<^verbatim>\<open>PaymentRaces\<close> has interleavings that go wrong. Parameters: \<open>pay_env\<close> (time zone, groups,
  rebate settings, keys of provider instances, case folding), \<open>create_world\<close> and \<open>provider_answers\<close> (what the provider and the
  instance selection answer).

  \<^bold>\<open>Concurrency slots\<close> (\<^verbatim>\<open>repository/concurrency_cache.go\<close>, \<^verbatim>\<open>service/concurrency_service.go\<close>,
  \<^verbatim>\<open>handler/gateway_helper.go\<close>, the slot handling of \<^verbatim>\<open>handler/gateway_handler.go\<close>,
  \<^verbatim>\<open>service/openai_live.go\<close> and \<^verbatim>\<open>handler/openai_live.go\<close>). \<^verbatim>\<open>RedisStore\<close> is the server: sorted sets and
  counters that expire. \<^verbatim>\<open>ConcurrencyCache\<close> has every Lua script and method of the cache,
  \<^verbatim>\<open>ConcurrencyService\<close> request ids, slots, waiting, connections and live calls as programs.
  \<^verbatim>\<open>ConcurrencyLeases\<close> reads the sorted sets as a table of leases, the abstract state on which the
  scripts are specified. \<^verbatim>\<open>ConcurrencyInvariant\<close> interprets \<open>team\<close> on the store: a request owns the
  ids it drew. \<^verbatim>\<open>ConcurrencyPrograms\<close> treats what touches nobody's lease, \<^verbatim>\<open>ConcurrencyHolding\<close> the steps
  with an id of one's own, \<^verbatim>\<open>ConcurrencyRequests\<close>, \<^verbatim>\<open>ConcurrencySessions\<close> and \<^verbatim>\<open>ConcurrencyLive\<close> the programs
  themselves, \<^verbatim>\<open>ConcurrencyCapacity\<close> puts them together, and \<^verbatim>\<open>ConcurrencyCorrectness\<close> states the
  results: limits and queue bounds hold, the scripts refine the lease table, and slots of the dead come
  free. \<^verbatim>\<open>ConcurrencyRuns\<close> has the run in which a second process breaks the limit. Bookkeeping that no
  code reads records who drew an id and who is being served; a request counts as served from the
  moment its slot is granted until its release begins (on its own or because the client is gone).
  Assumptions: prefixes of processes differ, the clocks of processes are the server's, all callers
  agree on the limit of an account, user or key (\<open>fits\<close>). A slot is never renewed, so a request that
  outlives \<open>cc_slotTTLSeconds\<close> is no longer counted; the theorem is about the others.

  \<^bold>\<open>Account selection\<close> (\<^verbatim>\<open>service/gateway_scheduling.go\<close> with what it reads of \<^verbatim>\<open>service/account.go\<close>,
  \<^verbatim>\<open>service/group.go\<close> and \<^verbatim>\<open>service/gateway_service.go\<close>). \<^verbatim>\<open>AccountTypes\<close> has accounts and groups,
  \<^verbatim>\<open>AccountOrdering\<close> the filters, sorts and shuffles, \<^verbatim>\<open>AccountSelection\<close> the checks and the layers that
  use load information, \<^verbatim>\<open>GatewaySelection\<close> groups, platforms, account lists, the selection without load
  information and \<open>SelectAccountWithLoadAwareness\<close>. The run of one request is sequential and everybody
  else acts in between, so whatever it learns from outside (Redis, database, clock, random draws,
  other parts of the service) is an answer that may depend on the trace of all it has done before:
  the record \<open>gateway_service\<close> is the parameter. Assumptions: none, but for the theorem that the selection
  returns (\<open>answers_within\<close>: finitely many accounts, and a lookup answers what it was asked).
  \<^verbatim>\<open>SelectionTrace\<close> reads slots and verdicts off the trace (locale \<open>gate_list\<close>), \<^verbatim>\<open>SelectionSoundness\<close>
  carries any lasting quality of accounts through the layers (locale \<open>lasting\<close>), \<^verbatim>\<open>SelectionOutcome\<close> and
  \<^verbatim>\<open>SelectionWithoutLoad\<close> put them together, \<^verbatim>\<open>SelectionOrder\<close> compares the loop over the load with a
  sort, \<^verbatim>\<open>SelectionTermination\<close> shows that the selection ends, and \<^verbatim>\<open>SelectionCorrectness\<close> states the
  results and the runs in which the two ways of selecting disagree.

  \<^bold>\<open>How the parts meet.\<close> A request passes the slots of its user, is admitted against its subscription, has
  its input scanned by the keyword matcher, is given an account by the selection, which takes a slot of
  that account or plans to wait for it, is sent through a proxy chosen by fallback and breaker, and its
  answer goes through a bridge; usage is then recorded in the subscription windows. Payments assign
  subscriptions through \<^verbatim>\<open>SubscriptionService\<close>, whose operations \<^verbatim>\<open>PaymentFulfillment\<close> calls; idempotency
  wraps the operations of administrators. The models meet where the code shares state: payments,
  redeem codes, affiliates and subscriptions in one store, slots, queues and leases in one server.

  \<^bold>\<open>Termination and bounds.\<close> No definition carries fuel. Loops whose end the data decides are
  \<open>partial_function\<close>s in \<^verbatim>\<open>KeywordMatcher\<close> and \<^verbatim>\<open>GatewaySelection\<close>, shown to return, or recurse over the list of what a
  \<^verbatim>\<open>select\<close> finds ready; loops over data recurse on it. A call is repeated at most \<open>cc_Retries\<close> times,
  for every number.

  \<^bold>\<open>Not modelled\<close>, with the reasons in the manifest: refunds (they lower balances, which the
  balance contract of the payments does not allow for yet) and the Chat Completions bridges are planned
  next; the OpenAI account scheduler and billing compute with floating point; request translation, Gemini, Bedrock and
  Antigravity rewrite free-form JSON with third-party libraries; forwarding, the WebSocket relay and the HTTP
  layer are network code around the modelled kernels; authentication, OAuth, providers, batch images,
  e-mail, monitoring, administration, configuration and plugins have no core of their own or rest on
  third-party services; the client under \<^verbatim>\<open>backend/ent\<close> is generated, and its effects enter as the
  statements of the repositories. Caches in front of the database, logging and metrics are left out
  throughout.
\<close>

end
